(* ===== verification/Prelude.thy ===== *)
theory Prelude
  imports Complex_Main "HOL-Library.More_List"
begin

text \<open>
  Shared ground of the development: the types every component uses for time and
  failures, the small pieces of the Python language the sources rely on (whitespace
  stripping, \<open>dict\<close> with insertion order, \<open>int.bit_length\<close>), and the interfaces
  (\<open>guarded_system\<close> and its extensions \<open>op_system\<close> and \<open>bounded_system\<close>) through which the components with mutable state
  obtain their facts about arbitrary interleavings of operations.

  Time values are Python floats in the sources. They are modelled as exact rationals:
  the code only adds, subtracts, compares and takes maxima of them, and no statement
  of the development depends on rounding.
\<close>

named_theorems checks \<open>unfolding rules for the validation combinators\<close>

type_synonym time = rat
type_synonym method_key = string
type_synonym task_id = nat

section \<open>Validation combinators\<close>

text \<open>
  A Python validator either returns or raises. \<open>guard b e\<close> is
  \<^verbatim>\<open>if not b: raise e\<close>; \<open>check_all f xs\<close> is \<^verbatim>\<open>for x in xs: f(x)\<close>;
  \<open>then_check\<close> sequences two of them. The first raise wins.
\<close>

definition guard :: "bool \<Rightarrow> 'e \<Rightarrow> 'e + unit" where
  "guard b e = (if b then Inr () else Inl e)"

fun then_check :: "'e + unit \<Rightarrow> 'e + 'a \<Rightarrow> 'e + 'a" where
  "then_check (Inl e) r = Inl e"
| "then_check (Inr u) r = r"

fun check_all :: "('a \<Rightarrow> 'e + unit) \<Rightarrow> 'a list \<Rightarrow> 'e + unit" where
  "check_all f [] = Inr ()"
| "check_all f (x # xs) = then_check (f x) (check_all f xs)"

lemma guard_ok [simp, checks]: "guard b e = Inr u \<longleftrightarrow> b"
  by (simp add: guard_def)

lemma guard_err [simp, checks]: "guard b e = Inl e' \<longleftrightarrow> \<not> b \<and> e' = e"
  by (auto simp: guard_def)

lemma then_check_ok [simp, checks]: "then_check a r = Inr x \<longleftrightarrow> a = Inr () \<and> r = Inr x"
  by (cases a) auto

lemma then_check_err [checks]:
  "then_check a r = Inl e \<longleftrightarrow> a = Inl e \<or> (a = Inr () \<and> r = Inl e)"
  by (cases a) auto

lemma check_all_ok [simp, checks]: "check_all f xs = Inr () \<longleftrightarrow> (\<forall>x \<in> set xs. f x = Inr ())"
  by (induction xs) auto

lemma sum_unit_cases: "(\<And>e. r \<noteq> Inl e) \<Longrightarrow> r = Inr ()"
  by (cases r) auto

text \<open>A computation that may raise, followed by one that uses its result.\<close>

definition and_then :: "'e + 'a \<Rightarrow> ('a \<Rightarrow> 'e + 'b) \<Rightarrow> 'e + 'b" where
  "and_then r f = (case r of Inl e \<Rightarrow> Inl e | Inr a \<Rightarrow> f a)"

lemma and_then_ok: "and_then r f = Inr b \<longleftrightarrow> (\<exists>a. r = Inr a \<and> f a = Inr b)"
  by (simp add: and_then_def split: sum.split)

lemma and_then_okE:
  assumes "and_then r f = Inr b"
  obtains a where "r = Inr a" and "f a = Inr b"
  using assms by (auto simp: and_then_ok)

section \<open>Python strings and integers\<close>

text \<open>Python's \<^verbatim>\<open>str.isspace\<close> on the code points that fit a \<open>char\<close>.\<close>

definition py_space :: "char \<Rightarrow> bool" where
  "py_space c = (let n = (of_char c :: nat) in
     (9 \<le> n \<and> n \<le> 13) \<or> (28 \<le> n \<and> n \<le> 32) \<or> n = 133 \<or> n = 160)"

definition py_strip :: "string \<Rightarrow> string" where
  "py_strip s = rev (dropWhile py_space (rev (dropWhile py_space s)))"

text \<open>\<^verbatim>\<open>bool(s.strip())\<close>: some character is not white space.\<close>

lemma py_strip_nonempty: "py_strip s \<noteq> [] \<longleftrightarrow> (\<exists>c \<in> set s. \<not> py_space c)"
proof -
  have "py_strip s = [] \<longleftrightarrow> (\<forall>c \<in> set (dropWhile py_space s). py_space c)"
    by (simp add: py_strip_def)
  also have "\<dots> \<longleftrightarrow> (\<forall>c \<in> set s. py_space c)"
    by (metis dropWhile_eq_Nil_conv dropWhile_idem set_dropWhileD)
  finally show ?thesis by blast
qed

text \<open>\<^verbatim>\<open>int.bit_length\<close> of a nonnegative integer.\<close>

fun bit_length :: "nat \<Rightarrow> nat" where
  "bit_length n = (if n = 0 then 0 else Suc (bit_length (n div 2)))"

declare bit_length.simps [simp del]

lemma less_two_power_bit_length: "n < 2 ^ bit_length n"
proof (induction n rule: bit_length.induct)
  case (1 n)
  show ?case
  proof (cases "n = 0")
    case True
    then show ?thesis by (simp add: bit_length.simps)
  next
    case False
    then have "n div 2 < 2 ^ bit_length (n div 2)" by (rule 1)
    then have "n < 2 * 2 ^ bit_length (n div 2)" by linarith
    with False show ?thesis by (simp add: bit_length.simps [of n])
  qed
qed

section \<open>Python dictionaries with insertion order\<close>

text \<open>
  Where the sources iterate a \<^verbatim>\<open>dict\<close> (or take its oldest key), insertion order is
  observable. Such a dictionary is an association list with distinct keys: assigning
  to a present key keeps its place, a new key goes to the end.
\<close>

fun od_get :: "('k \<times> 'v) list \<Rightarrow> 'k \<Rightarrow> 'v option" where
  "od_get [] k = None"
| "od_get ((k', v) # d) k = (if k' = k then Some v else od_get d k)"

fun od_put :: "'k \<Rightarrow> 'v \<Rightarrow> ('k \<times> 'v) list \<Rightarrow> ('k \<times> 'v) list" where
  "od_put k v [] = [(k, v)]"
| "od_put k v ((k', v') # d) = (if k' = k then (k, v) # d else (k', v') # od_put k v d)"

definition od_del :: "'k \<Rightarrow> ('k \<times> 'v) list \<Rightarrow> ('k \<times> 'v) list" where
  "od_del k d = filter (\<lambda>(k', _). k' \<noteq> k) d"

definition od_keys :: "('k \<times> 'v) list \<Rightarrow> 'k list" where
  "od_keys d = map fst d"

lemma od_get_map_of: "od_get d = map_of d"
  by (rule ext, induct_tac d) auto

lemma od_get_put [simp]: "od_get (od_put k v d) k' = (if k' = k then Some v else od_get d k')"
  by (induction d) auto

lemma od_get_del [simp]: "od_get (od_del k d) k' = (if k' = k then None else od_get d k')"
  by (induction d) (auto simp: od_del_def)

lemma od_get_None_iff: "od_get d k = None \<longleftrightarrow> k \<notin> set (od_keys d)"
  by (simp add: od_get_map_of map_of_eq_None_iff od_keys_def)

lemma od_keys_put: "set (od_keys (od_put k v d)) = insert k (set (od_keys d))"
proof (induction d)
  case Nil
  then show ?case by (simp add: od_keys_def)
next
  case (Cons p d)
  then show ?case by (cases p) (simp add: od_keys_def insert_commute)
qed

lemma od_put_new: "n \<notin> set (od_keys d) \<Longrightarrow> od_put n a d = d @ [(n, a)]"
  by (induction d) (auto simp: od_keys_def)

lemma od_put_distinct: "distinct (od_keys d) \<Longrightarrow> distinct (od_keys (od_put k v d))"
proof (induction d)
  case Nil
  then show ?case by (simp add: od_keys_def)
next
  case (Cons p d)
  obtain k' v' where p: "p = (k', v')" by (cases p)
  have "set (map fst (od_put k v d)) = insert k (set (map fst d))"
    using od_keys_put [of k v d] by (simp add: od_keys_def)
  with Cons p show ?case by (auto simp: od_keys_def)
qed

lemma od_del_distinct: "distinct (od_keys d) \<Longrightarrow> distinct (od_keys (od_del k d))"
  unfolding od_keys_def od_del_def by (rule distinct_map_filter)

lemma length_od_put: "length (od_put k v d) =
    (if k \<in> set (od_keys d) then length d else Suc (length d))"
proof (induction d)
  case Nil
  then show ?case by (simp add: od_keys_def)
next
  case (Cons p d)
  then show ?case by (cases p) (simp add: od_keys_def)
qed

lemma length_od_del: "length (od_del k d) \<le> length d"
  by (simp add: od_del_def)

section \<open>Release times that may be infinite\<close>

text \<open>
  Release times come from the transport gate as floats and may be \<^verbatim>\<open>math.inf\<close>
  (work held with no finite horizon). \<open>At t\<close> is a finite time, \<open>Never\<close> is infinity;
  the order makes \<open>Never\<close> the largest value, so \<open>max\<close> and \<open>min\<close> of the library are
  Python's \<^verbatim>\<open>max\<close> and \<^verbatim>\<open>min\<close>.
\<close>

datatype release = At time | Never

instantiation release :: linorder
begin

fun less_eq_release :: "release \<Rightarrow> release \<Rightarrow> bool" where
  "less_eq_release (At a) (At b) = (a \<le> b)"
| "less_eq_release x Never = True"
| "less_eq_release Never (At b) = False"

definition less_release :: "release \<Rightarrow> release \<Rightarrow> bool" where
  "less_release x y = (x \<le> y \<and> \<not> y \<le> (x :: release))"

instance
proof
  fix x y z :: release
  show "(x < y) = (x \<le> y \<and> \<not> y \<le> x)" by (simp add: less_release_def)
  show "x \<le> x" by (cases x) auto
  show "x \<le> y \<Longrightarrow> y \<le> z \<Longrightarrow> x \<le> z" by (cases x; cases y; cases z) auto
  show "x \<le> y \<Longrightarrow> y \<le> x \<Longrightarrow> x = y" by (cases x; cases y) auto
  show "x \<le> y \<or> y \<le> x" by (cases x; cases y) auto
qed

end

lemma release_less_simps [simp]:
  "At a < At b \<longleftrightarrow> a < b" "At a < Never" "\<not> Never < x"
  by (cases x; auto simp: less_release_def)+

lemma release_Never_le [simp]: "Never \<le> x \<longleftrightarrow> x = Never"
  by (cases x) auto

lemma max_release_le [simp]: "max x y \<le> (z :: release) \<longleftrightarrow> x \<le> z \<and> y \<le> z"
  by (simp add: max_def) (metis linear order_trans)

section \<open>Interfaces: systems of operations\<close>

text \<open>
  A component with state offers operations. A run applies a list of them in any
  order. The provider shows that each operation keeps the invariant; the client
  facts about every run are proved once, here.
\<close>

fun run_ops :: "('e \<Rightarrow> 's \<Rightarrow> 's) \<Rightarrow> 'e list \<Rightarrow> 's \<Rightarrow> 's" where
  "run_ops step [] s = s"
| "run_ops step (e # es) s = run_ops step es (step e s)"

lemma run_ops_append: "run_ops step (es @ fs) s = run_ops step fs (run_ops step es s)"
  by (induction es arbitrary: s) auto

locale guarded_system =
  fixes step :: "'e \<Rightarrow> 's \<Rightarrow> 's"
    and permitted :: "'e \<Rightarrow> bool"
    and invar :: "'s \<Rightarrow> bool"
  assumes permitted_invar: "permitted e \<Longrightarrow> invar s \<Longrightarrow> invar (step e s)"
begin

lemma permitted_run: "list_all permitted es \<Longrightarrow> invar s \<Longrightarrow> invar (run_ops step es s)"
  by (induction es arbitrary: s) (auto intro: permitted_invar)

end

text \<open>A system whose every operation is permitted.\<close>

locale op_system = guarded_system step "\<lambda>_. True" invar
  for step :: "'e \<Rightarrow> 's \<Rightarrow> 's" and invar :: "'s \<Rightarrow> bool"
begin

lemma run_invar: "invar s \<Longrightarrow> invar (run_ops step es s)"
  by (rule permitted_run) (simp_all add: list_all_iff)

end

text \<open>A system whose invariant bounds a size: every run stays within the bound.\<close>

locale bounded_system = op_system step invar
  for step :: "'e \<Rightarrow> 's \<Rightarrow> 's" and invar :: "'s \<Rightarrow> bool" +
  fixes size_of :: "'s \<Rightarrow> nat" and bound :: nat
  assumes invar_bound: "invar s \<Longrightarrow> size_of s \<le> bound"
begin

lemma run_bounded: "invar s \<Longrightarrow> size_of (run_ops step es s) \<le> bound"
  by (blast intro: run_invar invar_bound)

end

text \<open>
  A system with an output that only grows along a preorder, as long as every operation of
  the run is permitted.
\<close>

locale monotone_system =
  fixes step :: "'e \<Rightarrow> 's \<Rightarrow> 's"
    and permitted :: "'e \<Rightarrow> bool"
    and level :: "'s \<Rightarrow> 'm :: preorder"
  assumes step_level: "permitted e \<Longrightarrow> level s \<le> level (step e s)"
begin

lemma run_level: "list_all permitted es \<Longrightarrow> level s \<le> level (run_ops step es s)"
  by (induction es arbitrary: s) (auto intro: order_trans step_level)

end

end
