(* ===== verification/Rpc_Recovery.thy ===== *)
theory Rpc_Recovery
  imports Prelude
begin

text \<open>
  The pure recovery policy of the Telegram transport
  (\<^verbatim>\<open>src/mcp_telegram/telegram_rpc_recovery.py\<close>): capped exponential backoff, the
  conservative translation of persisted floors to the current monotonic clock, and the
  decision table that maps one recovery snapshot and one event to a command. The
  module performs no effect; the account ledger applies the decisions.
\<close>

section \<open>Backoff\<close>

datatype RecoveryCause = CAUSE_FLOOD_WAIT | CAUSE_TRANSIENT | CAUSE_READ_UNCERTAINTY

datatype recovery_error = Negative_Failure_Stage | Unhandled_Rule

text \<open>\<^verbatim>\<open>_BACKOFF\<close>: base and cap in seconds.\<close>

fun BACKOFF :: "RecoveryCause \<Rightarrow> int \<times> int" where
  "BACKOFF CAUSE_FLOOD_WAIT = (3600, 86400)"
| "BACKOFF CAUSE_TRANSIENT = (30, 1800)"
| "BACKOFF CAUSE_READ_UNCERTAINTY = (300, 3600)"

text \<open>
  The shift count is clipped to the bit length of the cap, so the intermediate integer
  stays small. A Python left shift of a nonnegative integer is multiplication by a
  power of two.
\<close>

definition backoff_seconds :: "RecoveryCause \<Rightarrow> int \<Rightarrow> recovery_error + int" where
  "backoff_seconds cause failure_stage =
     (if failure_stage < 0 then Inl Negative_Failure_Stage
      else (case BACKOFF cause of (base, cap) \<Rightarrow>
        Inr (min (base * 2 ^ nat (min failure_stage (int (bit_length (nat cap))))) cap)))"

text \<open>The delay the doc string promises, with no clipping of the exponent.\<close>

definition ideal_backoff :: "RecoveryCause \<Rightarrow> nat \<Rightarrow> int" where
  "ideal_backoff cause stage = min (fst (BACKOFF cause) * 2 ^ stage) (snd (BACKOFF cause))"

lemma BACKOFF_pos: "0 < fst (BACKOFF c)" "fst (BACKOFF c) \<le> snd (BACKOFF c)"
  by (cases c; simp)+

text \<open>The clipping of the exponent changes nothing, since the cap bounds the result.\<close>

lemma backoff_seconds_nonnegative:
  "backoff_seconds cause (int stage) = Inr (ideal_backoff cause stage)"
proof -
  obtain base cap where bc: "BACKOFF cause = (base, cap)" by (cases "BACKOFF cause")
  have base: "1 \<le> base" and cap: "0 \<le> cap"
    using BACKOFF_pos [of cause] bc by auto
  let ?k = "bit_length (nat cap)"
  show ?thesis
  proof (cases "stage \<le> ?k")
    case True
    then show ?thesis by (simp add: backoff_seconds_def ideal_backoff_def bc min_def)
  next
    case False
    have "nat cap < 2 ^ ?k" by (rule less_two_power_bit_length)
    then have clip: "cap < 2 ^ ?k" using cap by (simp add: nat_less_iff)
    also have "(2::int) ^ ?k \<le> 2 ^ stage" using False by (intro power_increasing) auto
    finally have "cap < 2 ^ stage" .
    moreover have "(2::int) ^ ?k \<le> base * 2 ^ ?k" "(2::int) ^ stage \<le> base * 2 ^ stage"
      using base by simp_all
    ultimately have "cap \<le> base * 2 ^ ?k" "cap \<le> base * 2 ^ stage" using clip by linarith+
    with False show ?thesis by (simp add: backoff_seconds_def ideal_backoff_def bc min_def)
  qed
qed

text \<open>
  C31. The clipped shift computes exactly the unclipped capped exponential: for every cause and
  every nonnegative stage, however large, \<open>backoff_seconds\<close> returns \<open>min (base * 2 ^ stage) cap\<close>,
  and a negative stage is refused.
\<close>

theorem backoff_seconds_exact:
  "backoff_seconds cause stage =
     (if stage < 0 then Inl Negative_Failure_Stage else Inr (ideal_backoff cause (nat stage)))"
proof (cases "stage < 0")
  case True
  then show ?thesis by (simp add: backoff_seconds_def)
next
  case False
  then show ?thesis using backoff_seconds_nonnegative [of cause "nat stage"] by simp
qed

text \<open>
  The contract a scheduler of retries relies on: every delay is at least the base, never
  exceeds the cap, and does not shrink with the stage.
\<close>

locale bounded_backoff =
  fixes delay :: "nat \<Rightarrow> int" and base :: int and cap :: int
  assumes base_pos: "0 < base"
    and delay_base: "base \<le> delay n"
    and delay_cap: "delay n \<le> cap"
    and delay_mono: "m \<le> n \<Longrightarrow> delay m \<le> delay n"
begin

lemma delay_pos: "0 < delay n"
  using base_pos delay_base [of n] by linarith

lemma sum_delay_lower: "base * int n \<le> (\<Sum>i < n. delay i)"
proof (induction n)
  case (Suc n)
  then show ?case using delay_base [of n] by (simp add: algebra_simps)
qed simp

lemma sum_delay_upper: "(\<Sum>i < n. delay i) \<le> cap * int n"
proof (induction n)
  case (Suc n)
  then show ?case using delay_cap [of n] by (simp add: algebra_simps)
qed simp

end

lemma ideal_backoff_bounds:
  "fst (BACKOFF c) \<le> ideal_backoff c n" "ideal_backoff c n \<le> snd (BACKOFF c)"
proof -
  have "fst (BACKOFF c) * 1 \<le> fst (BACKOFF c) * 2 ^ n"
    using BACKOFF_pos(1) [of c] by (intro mult_left_mono) auto
  then show "fst (BACKOFF c) \<le> ideal_backoff c n"
    using BACKOFF_pos(2) [of c] by (simp add: ideal_backoff_def)
qed (simp add: ideal_backoff_def)

lemma ideal_backoff_mono: "m \<le> n \<Longrightarrow> ideal_backoff c m \<le> ideal_backoff c n"
  unfolding ideal_backoff_def
  by (intro min.mono mult_left_mono power_increasing)
     (use BACKOFF_pos(1) [of c] in \<open>auto simp: less_imp_le\<close>)

interpretation policy_backoff: bounded_backoff "ideal_backoff c" "fst (BACKOFF c)" "snd (BACKOFF c)"
  for c
  by unfold_locales (auto simp: BACKOFF_pos ideal_backoff_bounds ideal_backoff_mono)

section \<open>Persisted floors\<close>

record RecoveryFloor =
  until_monotonic :: time
  until_utc :: time
  remaining_seconds :: time
  same_boot :: bool

definition recovery_floor_release_at :: "RecoveryFloor \<Rightarrow> time \<Rightarrow> time \<Rightarrow> time" where
  "recovery_floor_release_at fl now_monotonic now_utc =
     (let utc_remaining = max 0 (until_utc fl - now_utc)
      in if same_boot fl
         then max (until_monotonic fl) (now_monotonic + utc_remaining)
         else now_monotonic + max utc_remaining (remaining_seconds fl))"

text \<open>
  The release is conservative on both clocks. It never precedes the remaining UTC
  restriction; on the same boot it never precedes the stored monotonic deadline, and
  after a reboot it never cuts the stored remaining duration; and it is the earliest
  release with these guarantees.
\<close>

theorem recovery_floor_conservative:
  "recovery_floor_release_at fl now_mono now_utc \<le> t \<longleftrightarrow>
     now_mono \<le> t - max 0 (until_utc fl - now_utc) \<and>
     (if same_boot fl then until_monotonic fl \<le> t
      else now_mono + remaining_seconds fl \<le> t)"
  by (auto simp: recovery_floor_release_at_def Let_def max_def)

section \<open>The decision table\<close>

datatype RecoveryPhase =
    PHASE_NONE | PHASE_AUTHORIZED | PHASE_FENCING | PHASE_WAITING
  | PHASE_CONSUMED | PHASE_SUCCEEDED | PHASE_FAILED | PHASE_EXHAUSTED

datatype RecoveryMode = MODE_NONE | MODE_MANUAL | MODE_AUTO

datatype RecoveryRun = RUN_CURRENT | RUN_OTHER | RUN_ABSENT

datatype RecoveryEvent =
    EVENT_FAILURE_SETTLED | EVENT_FAILURE_OBSERVED | EVENT_STARTUP_RECONCILE
  | EVENT_QUIESCED | EVENT_DUE | EVENT_TRIAL_SUCCESS | EVENT_STABILITY_CONFIRMED

datatype RecoveryCommand =
    COMMAND_NOOP | COMMAND_WAIT | COMMAND_REJECT | COMMAND_ARM_FENCE
  | COMMAND_STRENGTHEN_FLOOD | COMMAND_SET_WAIT | COMMAND_CONSUME
  | COMMAND_MARK_SUCCESS | COMMAND_RESET

datatype RecoveryReason =
    REASON_HEALTHY | REASON_FAILURE | REASON_INTERRUPTED_TRIAL | REASON_PENDING_OWNER
  | REASON_NOT_QUIESCED | REASON_HARD_HOLD | REASON_DISABLED | REASON_LIFECYCLE_UNAVAILABLE
  | REASON_NOT_DUE | REASON_READY | REASON_FLOOD_BUDGET_SPENT | REASON_ALREADY_FENCED
  | REASON_TRIAL_IN_PROGRESS | REASON_INVALID_EVENT | REASON_WRONG_RUN | REASON_NOT_STABLE
  | REASON_STABLE | REASON_MANUAL_HOLD | REASON_EXHAUSTED | REASON_LEGACY_HOLD
  | REASON_FLOOD_STRENGTHENED | REASON_TRIAL_SUCCEEDED

record RecoverySnapshot =
  sn_phase :: RecoveryPhase
  sn_mode :: RecoveryMode
  sn_run :: RecoveryRun
  sn_cause :: "RecoveryCause option"
  sn_safe :: bool
  sn_owner_pending :: bool
  sn_quiesced :: bool
  sn_due :: bool
  sn_flood_budget_available :: bool
  sn_stability_confirmed :: bool
  sn_enabled :: bool
  sn_lifecycle_available :: bool

record RecoveryDecision =
  next_phase :: RecoveryPhase
  command :: RecoveryCommand
  reason :: RecoveryReason

datatype Rule =
    RULE_ARM | RULE_ACTIVE_FAILURE | RULE_HOLD | RULE_CONSUMED_FAILURE
  | RULE_CONSUMED_OBSERVED | RULE_CONSUMED_STARTUP | RULE_QUIESCE | RULE_DUE
  | RULE_SUCCESS | RULE_STABILITY | RULE_REJECT

text \<open>
  \<^verbatim>\<open>_RULE_ROWS\<close>: each row covers the seven events in declaration order;
  \<open>event_index\<close> is \<^verbatim>\<open>tuple(RecoveryEvent).index(event)\<close>.
\<close>

fun RULE_ROWS :: "RecoveryPhase \<Rightarrow> Rule list" where
  "RULE_ROWS PHASE_NONE =
     [RULE_ARM, RULE_ARM, RULE_ARM, RULE_REJECT, RULE_REJECT, RULE_REJECT, RULE_REJECT]"
| "RULE_ROWS PHASE_AUTHORIZED =
     [RULE_HOLD, RULE_HOLD, RULE_HOLD, RULE_REJECT, RULE_REJECT, RULE_REJECT, RULE_REJECT]"
| "RULE_ROWS PHASE_FENCING =
     [RULE_ACTIVE_FAILURE, RULE_HOLD, RULE_HOLD, RULE_QUIESCE, RULE_REJECT, RULE_REJECT, RULE_REJECT]"
| "RULE_ROWS PHASE_WAITING =
     [RULE_ACTIVE_FAILURE, RULE_HOLD, RULE_HOLD, RULE_REJECT, RULE_DUE, RULE_REJECT, RULE_REJECT]"
| "RULE_ROWS PHASE_CONSUMED =
     [RULE_CONSUMED_FAILURE, RULE_CONSUMED_OBSERVED, RULE_CONSUMED_STARTUP, RULE_REJECT,
      RULE_REJECT, RULE_SUCCESS, RULE_REJECT]"
| "RULE_ROWS PHASE_SUCCEEDED =
     [RULE_ARM, RULE_ARM, RULE_ARM, RULE_REJECT, RULE_REJECT, RULE_REJECT, RULE_STABILITY]"
| "RULE_ROWS PHASE_FAILED =
     [RULE_HOLD, RULE_HOLD, RULE_HOLD, RULE_REJECT, RULE_REJECT, RULE_REJECT, RULE_REJECT]"
| "RULE_ROWS PHASE_EXHAUSTED =
     [RULE_HOLD, RULE_HOLD, RULE_HOLD, RULE_REJECT, RULE_REJECT, RULE_REJECT, RULE_REJECT]"

fun event_index :: "RecoveryEvent \<Rightarrow> nat" where
  "event_index EVENT_FAILURE_SETTLED = 0"
| "event_index EVENT_FAILURE_OBSERVED = 1"
| "event_index EVENT_STARTUP_RECONCILE = 2"
| "event_index EVENT_QUIESCED = 3"
| "event_index EVENT_DUE = 4"
| "event_index EVENT_TRIAL_SUCCESS = 5"
| "event_index EVENT_STABILITY_CONFIRMED = 6"

definition decision :: "RecoveryPhase \<Rightarrow> RecoveryCommand \<Rightarrow> RecoveryReason \<Rightarrow> RecoveryDecision" where
  "decision p c r = \<lparr>next_phase = p, command = c, reason = r\<rparr>"

text \<open>\<^verbatim>\<open>_decision\<close> without a phase keeps the snapshot's phase.\<close>

definition stay :: "RecoverySnapshot \<Rightarrow> RecoveryCommand \<Rightarrow> RecoveryReason \<Rightarrow> RecoveryDecision" where
  "stay s c r = decision (sn_phase s) c r"

definition hold_guard :: "RecoverySnapshot \<Rightarrow> bool \<Rightarrow> RecoveryReason option" where
  "hold_guard s barrier =
     (if \<not> sn_safe s then Some REASON_HARD_HOLD
      else if \<not> sn_enabled s then Some REASON_DISABLED
      else if \<not> sn_lifecycle_available s then Some REASON_LIFECYCLE_UNAVAILABLE
      else if barrier \<and> sn_owner_pending s then Some REASON_PENDING_OWNER
      else None)"

definition mode_hold :: "RecoverySnapshot \<Rightarrow> RecoveryReason option" where
  "mode_hold s =
     (if sn_mode s = MODE_MANUAL \<and> sn_phase s \<noteq> PHASE_SUCCEEDED then Some REASON_MANUAL_HOLD
      else if sn_mode s = MODE_NONE \<and> sn_phase s \<noteq> PHASE_NONE then Some REASON_LEGACY_HOLD
      else if sn_mode s = MODE_AUTO \<and> sn_phase s = PHASE_NONE then Some REASON_LEGACY_HOLD
      else None)"

definition base_decision :: "RecoverySnapshot \<Rightarrow> Rule \<Rightarrow> RecoveryDecision option" where
  "base_decision s rule =
     (if rule = RULE_REJECT then Some (stay s COMMAND_REJECT REASON_INVALID_EVENT)
      else (case mode_hold s of
        Some r \<Rightarrow> Some (stay s COMMAND_WAIT r)
      | None \<Rightarrow>
          (if rule = RULE_HOLD
           then Some (stay s COMMAND_WAIT
             (if sn_phase s = PHASE_EXHAUSTED then REASON_EXHAUSTED
              else if sn_phase s \<in> {PHASE_FENCING, PHASE_WAITING} then REASON_ALREADY_FENCED
              else REASON_LEGACY_HOLD))
           else None)))"

definition failure_precondition :: "RecoverySnapshot \<Rightarrow> Rule \<Rightarrow> bool \<Rightarrow> RecoveryDecision option" where
  "failure_precondition s rule interrupted =
     (if rule = RULE_CONSUMED_FAILURE \<and> sn_run s \<noteq> RUN_CURRENT
      then Some (stay s COMMAND_WAIT REASON_WRONG_RUN)
      else if rule \<in> {RULE_CONSUMED_OBSERVED, RULE_CONSUMED_STARTUP} \<and> \<not> interrupted
      then Some (stay s COMMAND_WAIT REASON_TRIAL_IN_PROGRESS)
      else if \<not> interrupted \<and> sn_cause s = None
      then Some (stay s COMMAND_NOOP REASON_HEALTHY)
      else None)"

definition failure_decision :: "RecoverySnapshot \<Rightarrow> Rule \<Rightarrow> RecoveryDecision" where
  "failure_decision s rule =
     (let interrupted = (rule = RULE_CONSUMED_STARTUP \<and> sn_run s = RUN_OTHER) in
      case failure_precondition s rule interrupted of
        Some d \<Rightarrow> d
      | None \<Rightarrow>
         (case hold_guard s False of
            Some r \<Rightarrow> stay s COMMAND_WAIT r
          | None \<Rightarrow>
             (let exhausted = (sn_cause s = Some CAUSE_FLOOD_WAIT \<and> \<not> sn_flood_budget_available s) in
              decision
                (if exhausted then PHASE_EXHAUSTED else PHASE_FENCING)
                COMMAND_ARM_FENCE
                (if exhausted then REASON_FLOOD_BUDGET_SPENT
                 else if interrupted then REASON_INTERRUPTED_TRIAL else REASON_FAILURE))))"

definition strengthen_decision :: "RecoverySnapshot \<Rightarrow> RecoveryDecision" where
  "strengthen_decision s =
     (if sn_cause s \<noteq> Some CAUSE_FLOOD_WAIT then stay s COMMAND_WAIT REASON_ALREADY_FENCED
      else (case hold_guard s False of
        Some r \<Rightarrow> stay s COMMAND_WAIT r
      | None \<Rightarrow>
          (let exhausted = (\<not> sn_flood_budget_available s) in
           decision
             (if exhausted then PHASE_EXHAUSTED else sn_phase s)
             COMMAND_STRENGTHEN_FLOOD
             (if exhausted then REASON_FLOOD_BUDGET_SPENT else REASON_FLOOD_STRENGTHENED))))"

definition quiesce_decision :: "RecoverySnapshot \<Rightarrow> RecoveryDecision" where
  "quiesce_decision s =
     (case hold_guard s True of
        Some r \<Rightarrow> stay s COMMAND_WAIT r
      | None \<Rightarrow>
          (if \<not> sn_quiesced s then stay s COMMAND_WAIT REASON_NOT_QUIESCED
           else decision PHASE_WAITING COMMAND_SET_WAIT REASON_READY))"

definition due_decision :: "RecoverySnapshot \<Rightarrow> RecoveryDecision" where
  "due_decision s =
     (case hold_guard s True of
        Some r \<Rightarrow> stay s COMMAND_WAIT r
      | None \<Rightarrow>
          (if sn_cause s = Some CAUSE_FLOOD_WAIT \<and> \<not> sn_flood_budget_available s
           then stay s COMMAND_WAIT REASON_FLOOD_BUDGET_SPENT
           else if \<not> sn_due s then stay s COMMAND_WAIT REASON_NOT_DUE
           else decision PHASE_CONSUMED COMMAND_CONSUME REASON_READY))"

definition success_decision :: "RecoverySnapshot \<Rightarrow> RecoveryDecision" where
  "success_decision s =
     (if sn_run s \<noteq> RUN_CURRENT then stay s COMMAND_REJECT REASON_WRONG_RUN
      else (case hold_guard s True of
        Some r \<Rightarrow> stay s COMMAND_WAIT r
      | None \<Rightarrow>
          (if sn_cause s \<noteq> None then stay s COMMAND_REJECT REASON_FAILURE
           else decision PHASE_SUCCEEDED COMMAND_MARK_SUCCESS REASON_TRIAL_SUCCEEDED)))"

definition stability_decision :: "RecoverySnapshot \<Rightarrow> RecoveryDecision" where
  "stability_decision s =
     (case hold_guard s True of
        Some r \<Rightarrow> stay s COMMAND_WAIT r
      | None \<Rightarrow>
          (if sn_cause s \<noteq> None then stay s COMMAND_REJECT REASON_FAILURE
           else if \<not> sn_stability_confirmed s then stay s COMMAND_WAIT REASON_NOT_STABLE
           else decision PHASE_NONE COMMAND_RESET REASON_STABLE))"

fun decide_auto_action :: "RecoverySnapshot \<Rightarrow> Rule \<Rightarrow> recovery_error + RecoveryDecision" where
  "decide_auto_action s RULE_ACTIVE_FAILURE = Inr (strengthen_decision s)"
| "decide_auto_action s RULE_QUIESCE = Inr (quiesce_decision s)"
| "decide_auto_action s RULE_DUE = Inr (due_decision s)"
| "decide_auto_action s RULE_SUCCESS = Inr (success_decision s)"
| "decide_auto_action s RULE_STABILITY = Inr (stability_decision s)"
| "decide_auto_action s rule = Inl Unhandled_Rule"

definition decide_rule :: "RecoverySnapshot \<Rightarrow> Rule \<Rightarrow> recovery_error + RecoveryDecision" where
  "decide_rule s rule =
     (case base_decision s rule of
        Some d \<Rightarrow> Inr d
      | None \<Rightarrow>
          (if rule \<in> {RULE_ARM, RULE_CONSUMED_FAILURE, RULE_CONSUMED_OBSERVED, RULE_CONSUMED_STARTUP}
           then Inr (failure_decision s rule)
           else if sn_mode s \<noteq> MODE_AUTO then Inr (stay s COMMAND_WAIT REASON_MANUAL_HOLD)
           else decide_auto_action s rule))"

text \<open>
  The type tests at the head of \<^verbatim>\<open>decide_auto_recovery\<close> are discharged by HOL's types.
\<close>

definition decide_auto_recovery ::
    "RecoverySnapshot \<Rightarrow> RecoveryEvent \<Rightarrow> recovery_error + RecoveryDecision" where
  "decide_auto_recovery s event = decide_rule s (RULE_ROWS (sn_phase s) ! event_index event)"

lemmas decision_defs = Let_def decide_auto_recovery_def decide_rule_def base_decision_def mode_hold_def
  failure_decision_def failure_precondition_def strengthen_decision_def quiesce_decision_def
  due_decision_def success_decision_def stability_decision_def hold_guard_def stay_def decision_def

lemma stay_simps [simp]:
  "next_phase (stay s c r) = sn_phase s" "command (stay s c r) = c" "reason (stay s c r) = r"
  by (simp_all add: stay_def decision_def)

lemma decision_simps [simp]:
  "next_phase (decision p c r) = p" "command (decision p c r) = c" "reason (decision p c r) = r"
  by (simp_all add: decision_def)

section \<open>What the policy guarantees\<close>

text \<open>
  Each decision function either holds (\<open>inert\<close>: it waits, rejects or does nothing and
  keeps the phase) or issues its own command under its own guard.
\<close>

definition inert :: "RecoverySnapshot \<Rightarrow> RecoveryDecision \<Rightarrow> bool" where
  "inert s d \<longleftrightarrow> command d \<in> {COMMAND_NOOP, COMMAND_WAIT, COMMAND_REJECT} \<and> next_phase d = sn_phase s"

definition may_act :: "RecoverySnapshot \<Rightarrow> bool" where
  "may_act s \<longleftrightarrow> sn_safe s \<and> sn_enabled s \<and> sn_lifecycle_available s"

named_theorems decision_cases \<open>what each decision function can return\<close>

lemma inert_stay [simp]:
  "inert s (stay s c r) \<longleftrightarrow> c \<in> {COMMAND_NOOP, COMMAND_WAIT, COMMAND_REJECT}"
  by (simp add: inert_def)

lemma hold_guard_None:
  "hold_guard s barrier = None \<longleftrightarrow> may_act s \<and> \<not> (barrier \<and> sn_owner_pending s)"
  by (simp add: hold_guard_def may_act_def)

lemma hold_guard_NoneD: "hold_guard s barrier = None \<Longrightarrow> may_act s \<and> \<not> (barrier \<and> sn_owner_pending s)"
  by (simp add: hold_guard_None)

lemma hold_guard_NoneI:
  "may_act s \<Longrightarrow> \<not> (barrier \<and> sn_owner_pending s) \<Longrightarrow> hold_guard s barrier = None"
  by (simp add: hold_guard_None)

lemma failure_precondition_inert: "failure_precondition s rule i = Some d \<Longrightarrow> inert s d"
  by (auto simp: failure_precondition_def split: if_splits)

lemma failure_decision_cases [decision_cases]:
  "inert s (failure_decision s rule) \<or>
   (command (failure_decision s rule) = COMMAND_ARM_FENCE \<and> may_act s \<and>
    next_phase (failure_decision s rule) \<in> {PHASE_FENCING, PHASE_EXHAUSTED})"
proof -
  let ?i = "rule = RULE_CONSUMED_STARTUP \<and> sn_run s = RUN_OTHER"
  show ?thesis
  proof (cases "failure_precondition s rule ?i")
    case (Some d)
    then show ?thesis by (simp add: failure_decision_def failure_precondition_inert)
  next
    case None
    then show ?thesis
      by (cases "hold_guard s False") (auto simp: failure_decision_def Let_def dest: hold_guard_NoneD)
  qed
qed

lemma strengthen_decision_cases [decision_cases]:
  "inert s (strengthen_decision s) \<or>
   (command (strengthen_decision s) = COMMAND_STRENGTHEN_FLOOD \<and> may_act s \<and>
    next_phase (strengthen_decision s) \<in> {sn_phase s, PHASE_EXHAUSTED})"
  by (cases "hold_guard s False")
     (auto simp: strengthen_decision_def Let_def dest: hold_guard_NoneD)

lemma quiesce_decision_cases [decision_cases]:
  "inert s (quiesce_decision s) \<or>
   (command (quiesce_decision s) = COMMAND_SET_WAIT \<and> may_act s \<and>
    next_phase (quiesce_decision s) = PHASE_WAITING)"
  by (cases "hold_guard s True")
     (auto simp: quiesce_decision_def dest: hold_guard_NoneD)

lemma due_decision_consume [decision_cases]:
  "command (due_decision s) = COMMAND_CONSUME \<longleftrightarrow>
     may_act s \<and> \<not> sn_owner_pending s \<and> sn_due s \<and>
     (sn_cause s = Some CAUSE_FLOOD_WAIT \<longrightarrow> sn_flood_budget_available s)"
proof (cases "may_act s \<and> \<not> sn_owner_pending s")
  case True
  then have "hold_guard s True = None" by (intro hold_guard_NoneI) auto
  with True show ?thesis by (simp add: due_decision_def)
next
  case False
  then obtain r where "hold_guard s True = Some r"
    by (cases "hold_guard s True") (auto dest: hold_guard_NoneD)
  with False show ?thesis by (auto simp: due_decision_def)
qed

lemma due_decision_cases [decision_cases]:
  "inert s (due_decision s) \<or>
   (command (due_decision s) = COMMAND_CONSUME \<and> next_phase (due_decision s) = PHASE_CONSUMED)"
  by (cases "hold_guard s True") (auto simp: due_decision_def)

lemma success_decision_cases [decision_cases]:
  "inert s (success_decision s) \<or>
   (command (success_decision s) = COMMAND_MARK_SUCCESS \<and> may_act s \<and>
    next_phase (success_decision s) = PHASE_SUCCEEDED)"
  by (cases "hold_guard s True") (auto simp: success_decision_def dest: hold_guard_NoneD)

lemma stability_decision_cases [decision_cases]:
  "inert s (stability_decision s) \<or>
   (command (stability_decision s) = COMMAND_RESET \<and> may_act s \<and>
    next_phase (stability_decision s) = PHASE_NONE)"
  by (cases "hold_guard s True") (auto simp: stability_decision_def dest: hold_guard_NoneD)

lemma base_decision_inert: "base_decision s rule = Some d \<Longrightarrow> inert s d"
  by (auto simp: base_decision_def split: if_splits option.splits)

text \<open>The state machine of the policy: which command moves along which edge.\<close>

definition policy_edge :: "RecoveryPhase \<Rightarrow> RecoveryCommand \<Rightarrow> RecoveryPhase \<Rightarrow> bool" where
  "policy_edge p c q \<longleftrightarrow>
     (case c of
        COMMAND_ARM_FENCE \<Rightarrow>
          p \<in> {PHASE_NONE, PHASE_CONSUMED, PHASE_SUCCEEDED} \<and> q \<in> {PHASE_FENCING, PHASE_EXHAUSTED}
      | COMMAND_STRENGTHEN_FLOOD \<Rightarrow>
          p \<in> {PHASE_FENCING, PHASE_WAITING} \<and> q \<in> {p, PHASE_EXHAUSTED}
      | COMMAND_SET_WAIT \<Rightarrow> p = PHASE_FENCING \<and> q = PHASE_WAITING
      | COMMAND_CONSUME \<Rightarrow> p = PHASE_WAITING \<and> q = PHASE_CONSUMED
      | COMMAND_MARK_SUCCESS \<Rightarrow> p = PHASE_CONSUMED \<and> q = PHASE_SUCCEEDED
      | COMMAND_RESET \<Rightarrow> p = PHASE_SUCCEEDED \<and> q = PHASE_NONE
      | _ \<Rightarrow> q = p)"

lemma inert_edge: "inert s d \<Longrightarrow> policy_edge (sn_phase s) (command d) (next_phase d)"
  by (auto simp: inert_def policy_edge_def)

text \<open>The rule of a cell determines the phase the special rules come from.\<close>

lemma rule_rows_phase:
  assumes "rule = RULE_ROWS p ! event_index event"
  shows "rule \<in> {RULE_ARM, RULE_CONSUMED_FAILURE, RULE_CONSUMED_OBSERVED, RULE_CONSUMED_STARTUP} \<Longrightarrow>
           p \<in> {PHASE_NONE, PHASE_CONSUMED, PHASE_SUCCEEDED}"
    and "rule = RULE_ACTIVE_FAILURE \<Longrightarrow> p \<in> {PHASE_FENCING, PHASE_WAITING}"
    and "rule = RULE_QUIESCE \<Longrightarrow> p = PHASE_FENCING"
    and "rule = RULE_DUE \<longleftrightarrow> p = PHASE_WAITING \<and> event = EVENT_DUE"
    and "rule = RULE_SUCCESS \<Longrightarrow> p = PHASE_CONSUMED"
    and "rule = RULE_STABILITY \<Longrightarrow> p = PHASE_SUCCEEDED"
  using assms by (cases p; cases event; simp)+

lemma decide_rule_cases:
  obtains (base) d where "decide_rule s rule = Inr d" and "inert s d"
  | (failure) "rule \<in> {RULE_ARM, RULE_CONSUMED_FAILURE, RULE_CONSUMED_OBSERVED, RULE_CONSUMED_STARTUP}"
      and "decide_rule s rule = Inr (failure_decision s rule)"
  | (active) "rule = RULE_ACTIVE_FAILURE" and "decide_rule s rule = Inr (strengthen_decision s)"
  | (quiesce) "rule = RULE_QUIESCE" and "decide_rule s rule = Inr (quiesce_decision s)"
  | (due) "rule = RULE_DUE" and "sn_mode s = MODE_AUTO" and "decide_rule s rule = Inr (due_decision s)"
  | (success) "rule = RULE_SUCCESS" and "decide_rule s rule = Inr (success_decision s)"
  | (stability) "rule = RULE_STABILITY" and "decide_rule s rule = Inr (stability_decision s)"
proof (cases "base_decision s rule")
  case (Some d)
  then have "decide_rule s rule = Inr d" "inert s d"
    by (simp_all add: decide_rule_def base_decision_inert)
  then show ?thesis by (rule base)
next
  case None
  then have "rule \<noteq> RULE_REJECT" "rule \<noteq> RULE_HOLD"
    by (auto simp: base_decision_def split: option.splits)
  moreover have "sn_mode s \<noteq> MODE_AUTO \<Longrightarrow> inert s (stay s COMMAND_WAIT REASON_MANUAL_HOLD)" by simp
  ultimately show ?thesis
    using None that by (cases rule; cases "sn_mode s = MODE_AUTO") (simp_all add: decide_rule_def)
qed

text \<open>
  The state machine of the policy. For every snapshot and event a decision is
  returned (no branch raises); a waiting, rejecting or idle decision keeps the phase;
  and each effectful command moves along exactly one kind of edge: a fence is armed
  only from no episode, a consumed trial or a succeeded one, a wait is set only from
  fencing, a trial is consumed only from waiting, and only a consumed trial succeeds.
\<close>

theorem decide_auto_recovery_edges:
  "\<exists>d. decide_auto_recovery s event = Inr d \<and>
       policy_edge (sn_phase s) (command d) (next_phase d)"
proof -
  obtain rule where rule: "rule = RULE_ROWS (sn_phase s) ! event_index event" by blast
  note phases = rule_rows_phase [OF rule]
  have eq: "decide_auto_recovery s event = decide_rule s rule"
    by (simp add: decide_auto_recovery_def rule)
  have "\<exists>d. decide_rule s rule = Inr d \<and> policy_edge (sn_phase s) (command d) (next_phase d)"
  proof (cases rule: decide_rule_cases [where s = s and rule = rule])
    case base
    then show ?thesis by (auto intro: inert_edge)
  next
    case failure
    then show ?thesis
      using failure_decision_cases [of s rule] phases(1)
      by (auto simp: policy_edge_def inert_def)
  next
    case active
    then show ?thesis
      using strengthen_decision_cases [of s] phases(2)
      by (auto simp: policy_edge_def inert_def)
  next
    case quiesce
    then show ?thesis
      using quiesce_decision_cases [of s] phases(3)
      by (auto simp: policy_edge_def inert_def)
  next
    case due
    then show ?thesis
      using due_decision_cases [of s] phases(4)
      by (auto simp: policy_edge_def inert_def)
  next
    case success
    then show ?thesis
      using success_decision_cases [of s] phases(5)
      by (auto simp: policy_edge_def inert_def)
  next
    case stability
    then show ?thesis
      using stability_decision_cases [of s] phases(6)
      by (auto simp: policy_edge_def inert_def)
  qed
  then show ?thesis by (simp add: eq)
qed


lemma inert_not_consume: "inert s d \<Longrightarrow> command d \<noteq> COMMAND_CONSUME"
  by (auto simp: inert_def)

lemma only_due_consumes:
  assumes "decide_rule s rule = Inr d" and "command d = COMMAND_CONSUME"
  shows "rule = RULE_DUE \<and> sn_mode s = MODE_AUTO \<and> d = due_decision s"
proof (cases rule: decide_rule_cases [where s = s and rule = rule])
  case failure
  then show ?thesis using assms failure_decision_cases [of s rule] by (auto simp: inert_def)
next
  case active
  then show ?thesis using assms strengthen_decision_cases [of s] by (auto simp: inert_def)
next
  case quiesce
  then show ?thesis using assms quiesce_decision_cases [of s] by (auto simp: inert_def)
next
  case success
  then show ?thesis using assms success_decision_cases [of s] by (auto simp: inert_def)
next
  case stability
  then show ?thesis using assms stability_decision_cases [of s] by (auto simp: inert_def)
qed (use assms in \<open>auto simp: inert_def\<close>)

text \<open>
  C12. A recovery trial is released exactly when everything holds at once: the phase is
  \<open>waiting\<close>, the event is \<open>due\<close>, the episode is automatic, the scope is safe, recovery is
  enabled, the lifecycle is available, no owner is pending, the wait has elapsed, and a
  flood episode still has budget. No other combination consumes a trial.
\<close>

theorem consume_iff:
  "(\<exists>d. decide_auto_recovery s event = Inr d \<and> command d = COMMAND_CONSUME) \<longleftrightarrow>
     sn_phase s = PHASE_WAITING \<and> event = EVENT_DUE \<and> sn_mode s = MODE_AUTO \<and>
     sn_safe s \<and> sn_enabled s \<and> sn_lifecycle_available s \<and> \<not> sn_owner_pending s \<and> sn_due s \<and>
     (sn_cause s = Some CAUSE_FLOOD_WAIT \<longrightarrow> sn_flood_budget_available s)"
  (is "?L \<longleftrightarrow> ?R")
proof
  assume ?L
  then obtain d where d: "decide_rule s (RULE_ROWS (sn_phase s) ! event_index event) = Inr d"
      "command d = COMMAND_CONSUME"
    by (auto simp: decide_auto_recovery_def)
  from only_due_consumes [OF d] rule_rows_phase(4) [OF refl, of "sn_phase s" event] d(2)
  show ?R by (auto simp: due_decision_consume may_act_def)
next
  assume R: ?R
  then have "decide_auto_recovery s event = Inr (due_decision s)"
    by (simp add: decide_auto_recovery_def decide_rule_def base_decision_def mode_hold_def)
  with R show ?L by (simp add: due_decision_consume may_act_def)
qed

theorem consume_iff_witness:
  "\<exists>d. decide_auto_recovery
     \<lparr>sn_phase = PHASE_WAITING, sn_mode = MODE_AUTO, sn_run = RUN_ABSENT,
      sn_cause = Some CAUSE_FLOOD_WAIT, sn_safe = True, sn_owner_pending = False,
      sn_quiesced = True, sn_due = True, sn_flood_budget_available = True,
      sn_stability_confirmed = False, sn_enabled = True, sn_lifecycle_available = True\<rparr>
     EVENT_DUE = Inr d \<and> command d = COMMAND_CONSUME"
  unfolding consume_iff by simp

text \<open>An unsafe, disabled or detached account is held whatever happens.\<close>

lemma decide_rule_inert_or_may_act:
  assumes "decide_rule s rule = Inr d"
  shows "inert s d \<or> may_act s"
proof (cases rule: decide_rule_cases [where s = s and rule = rule])
  case due
  then show ?thesis
    using assms due_decision_cases [of s] due_decision_consume [of s] by auto
qed (use assms decision_cases [of s] in auto)

end
