(* ===== verification/Update_Ring.thy ===== *)
theory Update_Ring
  imports Prelude
begin

text \<open>
  \<^verbatim>\<open>telegram_update_ring.py\<close>: the bounded staging area for decoded Telegram notifications
  between the update intake, which must never wait, and the flush task, which writes
  batches to the database. \<open>Ring\<close> is the class \<^verbatim>\<open>TelegramUpdateRing\<close>, one function per method,
  \<open>ring_op\<close> a call of one of them. Payloads are the UTF-8 bytes of the JSON text, so their
  size is their length; turning a Telethon object into JSON is the library's work, and
  \<^verbatim>\<open>capture\<close> takes its result: \<open>None\<close> for any exception it raised.
\<close>

section \<open>Constants, entries and the ring\<close>

definition MAX_RETAINED_BYTES :: int where "MAX_RETAINED_BYTES = 64 * 1024 * 1024"
definition MAX_ENTRY_BYTES :: int where "MAX_ENTRY_BYTES = 4 * 1024 * 1024"
definition MAX_ENTRIES :: nat where "MAX_ENTRIES = 65536"
definition MAX_TRACE_IDS :: nat where "MAX_TRACE_IDS = 2"

record Entry =
  en_sequence :: nat
  en_observed_at_ms :: int
  en_source :: string
  en_constructor :: string
  en_payload_json :: string
  en_payload_bytes :: int
  en_trace_ids :: "string list"

record UpdateRecord =
  ur_runtime_id :: string
  ur_sequence :: nat
  ur_observed_at_ms :: int
  ur_source :: string
  ur_constructor :: string
  ur_payload_json :: string
  ur_payload_bytes :: int
  ur_trace_ids :: "string list"

datatype ring_counter = EVICTED_CAPACITY | REJECTED_OVERSIZE | SERIALIZATION_FAILURES | RESET_EVICTED

record Ring =
  rg_runtime_id :: string
  rg_account_id :: "int option"
  rg_entries :: "Entry list"
  rg_sequence :: nat
  rg_bytes :: int
  rg_inflight_through :: nat
  rg_inflight_bytes :: int
  rg_orphaned_bytes :: int
  rg_generation :: "nat option"
  rg_request_revision :: nat
  rg_desired_account :: "int option"
  rg_logout_serial :: nat
  rg_completed_logout_serial :: nat
  rg_counters :: "ring_counter \<Rightarrow> nat"

definition new_ring :: "string \<Rightarrow> Ring" where
  "new_ring runtime = \<lparr> rg_runtime_id = runtime, rg_account_id = None, rg_entries = [],
     rg_sequence = 0, rg_bytes = 0, rg_inflight_through = 0, rg_inflight_bytes = 0,
     rg_orphaned_bytes = 0, rg_generation = None, rg_request_revision = 0,
     rg_desired_account = None, rg_logout_serial = 0, rg_completed_logout_serial = 0,
     rg_counters = (\<lambda>_. 0) \<rparr>"

definition count_by :: "ring_counter \<Rightarrow> nat \<Rightarrow> Ring \<Rightarrow> Ring" where
  "count_by c n r = r\<lparr> rg_counters := (rg_counters r)(c := rg_counters r c + n) \<rparr>"

section \<open>Account binding\<close>

definition reset :: "Ring \<Rightarrow> Ring" where
  "reset r = (count_by RESET_EVICTED (length (rg_entries r)) r)
     \<lparr> rg_entries := [], rg_bytes := 0, rg_orphaned_bytes := rg_inflight_bytes r,
       rg_inflight_through := 0, rg_account_id := None \<rparr>"

definition request_verified_account :: "int \<Rightarrow> Ring \<Rightarrow> Ring" where
  "request_verified_account account r =
    (if rg_desired_account r = Some account then r
     else let r1 = r\<lparr> rg_generation := None \<rparr>;
              r2 = (if rg_account_id r1 \<noteq> None \<and> rg_account_id r1 \<noteq> Some account
                    then reset r1 else r1)
          in r2\<lparr> rg_desired_account := Some account,
                 rg_request_revision := rg_request_revision r2 + 1 \<rparr>)"

definition request_logout :: "Ring \<Rightarrow> Ring" where
  "request_logout r = (let r1 = reset (r\<lparr> rg_generation := None \<rparr>)
     in r1\<lparr> rg_desired_account := None, rg_request_revision := rg_request_revision r1 + 1,
            rg_logout_serial := rg_logout_serial r1 + 1 \<rparr>)"

definition complete_bind :: "int \<Rightarrow> nat \<Rightarrow> nat \<Rightarrow> Ring \<Rightarrow> Ring" where
  "complete_bind account revision generation r =
    (if revision = rg_request_revision r \<and> rg_completed_logout_serial r = rg_logout_serial r
     then r\<lparr> rg_account_id := Some account, rg_generation := Some generation \<rparr> else r)"

section \<open>Capture\<close>

definition drop_oldest :: "ring_counter \<Rightarrow> Ring \<Rightarrow> Ring" where
  "drop_oldest c r = (case rg_entries r of
     [] \<Rightarrow> r
   | e # es \<Rightarrow> count_by c 1 (r\<lparr> rg_bytes := rg_bytes r - en_payload_bytes e, rg_entries := es \<rparr>))"

lemma drop_oldest_entries [simp]: "rg_entries (drop_oldest c r) = tl (rg_entries r)"
  by (cases "rg_entries r") (simp_all add: drop_oldest_def count_by_def)

definition over_budget :: "int \<Rightarrow> Ring \<Rightarrow> bool" where
  "over_budget sz r \<longleftrightarrow> rg_bytes r + rg_orphaned_bytes r + sz > MAX_RETAINED_BYTES"

text \<open>The eviction loop ends because every round that continues drops an entry.\<close>

function make_room :: "int \<Rightarrow> Ring \<Rightarrow> Ring \<times> bool" where
  "make_room sz r =
    (if rg_entries r \<noteq> [] \<and> (over_budget sz r \<or> MAX_ENTRIES \<le> length (rg_entries r))
     then if en_sequence (hd (rg_entries r)) \<le> rg_inflight_through r
          then (count_by EVICTED_CAPACITY 1 r, False)
          else make_room sz (drop_oldest EVICTED_CAPACITY r)
     else if over_budget sz r then (count_by EVICTED_CAPACITY 1 r, False)
     else (r, True))"
  by pat_completeness auto
termination
  by (relation "measure (\<lambda>(sz, r). length (rg_entries r))") auto

declare make_room.simps [simp del]

definition capture :: "(string \<times> string) option \<Rightarrow> string \<Rightarrow> int \<Rightarrow> Ring \<Rightarrow> Ring \<times> nat" where
  "capture serialized source now_ms r0 =
    (let r = r0\<lparr> rg_sequence := rg_sequence r0 + 1 \<rparr>; sequence = rg_sequence r in
     case serialized of
       None \<Rightarrow> (count_by SERIALIZATION_FAILURES 1 r, sequence)
     | Some (constructor, payload) \<Rightarrow>
         (let sz = int (length payload) in
          if sz > MAX_ENTRY_BYTES then (count_by REJECTED_OVERSIZE 1 r, sequence)
          else case make_room sz r of
            (r', False) \<Rightarrow> (r', sequence)
          | (r', True) \<Rightarrow> (r'\<lparr> rg_entries := rg_entries r' @
                [\<lparr> en_sequence = sequence, en_observed_at_ms = now_ms, en_source = source,
                   en_constructor = constructor, en_payload_json = payload,
                   en_payload_bytes = sz, en_trace_ids = [] \<rparr>],
              rg_bytes := rg_bytes r' + sz \<rparr>, sequence)))"

definition associate_trace :: "nat \<Rightarrow> string \<Rightarrow> Ring \<Rightarrow> Ring" where
  "associate_trace sequence trace r =
    (if rg_entries r \<noteq> [] \<and> en_sequence (last (rg_entries r)) = sequence
     then let e = last (rg_entries r) in
       if trace \<notin> set (en_trace_ids e) \<and> length (en_trace_ids e) < MAX_TRACE_IDS
       then r\<lparr> rg_entries := butlast (rg_entries r) @
                 [e\<lparr> en_trace_ids := en_trace_ids e @ [trace] \<rparr>] \<rparr>
       else r
     else r)"

section \<open>Batches\<close>

definition to_record :: "string \<Rightarrow> Entry \<Rightarrow> UpdateRecord" where
  "to_record runtime e = \<lparr> ur_runtime_id = runtime, ur_sequence = en_sequence e,
     ur_observed_at_ms = en_observed_at_ms e, ur_source = en_source e,
     ur_constructor = en_constructor e, ur_payload_json = en_payload_json e,
     ur_payload_bytes = en_payload_bytes e, ur_trace_ids = en_trace_ids e \<rparr>"

fun batch_of :: "nat \<Rightarrow> int \<Rightarrow> int \<Rightarrow> Entry list \<Rightarrow> Entry list" where
  "batch_of max_count max_bytes acc [] = []"
| "batch_of max_count max_bytes acc (e # es) =
    (if max_count = 0 \<or> acc + en_payload_bytes e > max_bytes then []
     else e # batch_of (max_count - 1) max_bytes (acc + en_payload_bytes e) es)"

definition payload_total :: "Entry list \<Rightarrow> int" where
  "payload_total es = (\<Sum>e \<leftarrow> es. en_payload_bytes e)"

definition peek_batch :: "nat \<Rightarrow> int \<Rightarrow> Ring \<Rightarrow> Ring \<times> UpdateRecord list" where
  "peek_batch max_count max_bytes r =
    (let chosen = batch_of max_count max_bytes 0 (rg_entries r);
         records = map (to_record (rg_runtime_id r)) chosen
     in (if records \<noteq> [] then r\<lparr> rg_inflight_through := ur_sequence (last records),
                                 rg_inflight_bytes := payload_total chosen \<rparr> else r,
         records))"

fun pop_through :: "nat \<Rightarrow> Entry list \<Rightarrow> int \<Rightarrow> Entry list \<times> int" where
  "pop_through through [] bytes = ([], bytes)"
| "pop_through through (e # es) bytes =
    (if en_sequence e \<le> through then pop_through through es (bytes - en_payload_bytes e)
     else (e # es, bytes))"

definition release_batch :: "Ring \<Rightarrow> Ring" where
  "release_batch r = r\<lparr> rg_inflight_through := 0, rg_inflight_bytes := 0, rg_orphaned_bytes := 0 \<rparr>"

definition ack_batch :: "UpdateRecord list \<Rightarrow> Ring \<Rightarrow> Ring" where
  "ack_batch records r =
    (if records = [] then r
     else case pop_through (ur_sequence (last records)) (rg_entries r) (rg_bytes r) of
       (es, bytes) \<Rightarrow> release_batch (r\<lparr> rg_entries := es, rg_bytes := bytes \<rparr>))"

definition discard_batch :: "UpdateRecord list \<Rightarrow> Ring \<Rightarrow> Ring" where
  "discard_batch records r = (let r' = ack_batch records r
     in count_by RESET_EVICTED (length (rg_entries r) - length (rg_entries r')) r')"

datatype ring_stat = Counter ring_counter | PENDING_RECORDS | PENDING_BYTES

definition counters :: "Ring \<Rightarrow> (ring_stat \<times> int) list" where
  "counters r = map (\<lambda>c. (Counter c, int (rg_counters r c)))
       [EVICTED_CAPACITY, REJECTED_OVERSIZE, SERIALIZATION_FAILURES, RESET_EVICTED] @
     [(PENDING_RECORDS, int (length (rg_entries r))), (PENDING_BYTES, rg_bytes r)]"

text \<open>
  A call on the ring. The intake calls \<open>RCapture\<close> and \<open>RTrace\<close>; the transport
  \<open>RVerified\<close> and \<open>RLogout\<close>; the flush task the rest. The batch limits and the acknowledged
  records are whatever the caller passes.
\<close>

datatype ring_op =
    RCapture "(string \<times> string) option" string int
  | RTrace nat string
  | RVerified int
  | RLogout
  | RBind int nat nat
  | RReset
  | RPeek nat int
  | RAck "UpdateRecord list"
  | RRelease
  | RDiscard "UpdateRecord list"

fun ring_step :: "ring_op \<Rightarrow> Ring \<Rightarrow> Ring" where
  "ring_step (RCapture v src t) r = fst (capture v src t r)"
| "ring_step (RTrace n t) r = associate_trace n t r"
| "ring_step (RVerified a) r = request_verified_account a r"
| "ring_step RLogout r = request_logout r"
| "ring_step (RBind a v g) r = complete_bind a v g r"
| "ring_step RReset r = reset r"
| "ring_step (RPeek n b) r = fst (peek_batch n b r)"
| "ring_step (RAck recs) r = ack_batch recs r"
| "ring_step RRelease r = release_batch r"
| "ring_step (RDiscard recs) r = discard_batch recs r"

section \<open>The invariant\<close>

definition ring_inv :: "Ring \<Rightarrow> bool" where
  "ring_inv r \<longleftrightarrow>
     rg_bytes r = payload_total (rg_entries r)
   \<and> (\<forall>e \<in> set (rg_entries r). 0 \<le> en_payload_bytes e)
   \<and> 0 \<le> rg_inflight_bytes r \<and> rg_inflight_bytes r \<le> MAX_RETAINED_BYTES
   \<and> 0 \<le> rg_orphaned_bytes r
   \<and> rg_bytes r + rg_orphaned_bytes r \<le> MAX_RETAINED_BYTES
   \<and> length (rg_entries r) \<le> MAX_ENTRIES
   \<and> sorted_wrt (<) (map en_sequence (rg_entries r))
   \<and> (\<forall>e \<in> set (rg_entries r). 0 < en_sequence e \<and> en_sequence e \<le> rg_sequence r)"

lemmas limits = MAX_RETAINED_BYTES_def MAX_ENTRY_BYTES_def MAX_ENTRIES_def MAX_TRACE_IDS_def

lemma payload_total_simps [simp]:
  "payload_total [] = 0" "payload_total (e # es) = en_payload_bytes e + payload_total es"
  "payload_total (es @ fs) = payload_total es + payload_total fs"
  by (simp_all add: payload_total_def)

lemma payload_total_nonneg:
  "\<forall>e \<in> set es. 0 \<le> en_payload_bytes e \<Longrightarrow> 0 \<le> payload_total es"
  by (induction es) auto

lemma count_by_simps [simp]:
  "rg_entries (count_by c n r) = rg_entries r" "rg_bytes (count_by c n r) = rg_bytes r"
  "rg_sequence (count_by c n r) = rg_sequence r"
  "rg_inflight_through (count_by c n r) = rg_inflight_through r"
  "rg_inflight_bytes (count_by c n r) = rg_inflight_bytes r"
  "rg_orphaned_bytes (count_by c n r) = rg_orphaned_bytes r"
  "rg_runtime_id (count_by c n r) = rg_runtime_id r"
  by (simp_all add: count_by_def)

lemma drop_oldest_simps [simp]:
  "rg_sequence (drop_oldest c r) = rg_sequence r"
  "rg_inflight_through (drop_oldest c r) = rg_inflight_through r"
  "rg_inflight_bytes (drop_oldest c r) = rg_inflight_bytes r"
  "rg_orphaned_bytes (drop_oldest c r) = rg_orphaned_bytes r"
  "rg_runtime_id (drop_oldest c r) = rg_runtime_id r"
  by (simp_all add: drop_oldest_def split: list.splits)

lemma ring_inv_count [simp]: "ring_inv (count_by c n r) = ring_inv r"
  by (simp add: ring_inv_def)

lemma ring_inv_drop: "ring_inv r \<Longrightarrow> ring_inv (drop_oldest c r)"
  by (cases "rg_entries r") (auto simp: ring_inv_def drop_oldest_def)

text \<open>What an operation leaves of the ring: the invariant and a number of the older entries.\<close>

lemma make_room_result:
  assumes "make_room sz r = (r', ok)" and "ring_inv r"
  shows "ring_inv r' \<and> (\<exists>k. rg_entries r' = drop k (rg_entries r)) \<and> rg_sequence r' = rg_sequence r
     \<and> rg_inflight_through r' = rg_inflight_through r
     \<and> rg_runtime_id r' = rg_runtime_id r
     \<and> (ok \<longrightarrow> rg_bytes r' + rg_orphaned_bytes r' + sz \<le> MAX_RETAINED_BYTES
            \<and> (rg_entries r' = [] \<or> length (rg_entries r') < MAX_ENTRIES))"
  using assms
proof (induction sz r rule: make_room.induct)
  case (1 sz r)
  show ?case
  proof (cases "rg_entries r \<noteq> [] \<and> (over_budget sz r \<or> MAX_ENTRIES \<le> length (rg_entries r))
      \<and> \<not> en_sequence (hd (rg_entries r)) \<le> rg_inflight_through r")
    case True
    then have step: "make_room sz r = make_room sz (drop_oldest EVICTED_CAPACITY r)"
      by (subst make_room.simps) simp
    with 1 True have ih: "ring_inv r' \<and> (\<exists>k. rg_entries r' = drop k (tl (rg_entries r)))
       \<and> rg_sequence r' = rg_sequence r \<and> rg_inflight_through r' = rg_inflight_through r
       \<and> rg_runtime_id r' = rg_runtime_id r
       \<and> (ok \<longrightarrow> rg_bytes r' + rg_orphaned_bytes r' + sz \<le> MAX_RETAINED_BYTES
            \<and> (rg_entries r' = [] \<or> length (rg_entries r') < MAX_ENTRIES))"
      by (simp add: ring_inv_drop)
    then obtain k where "rg_entries r' = drop k (tl (rg_entries r))" by blast
    then have "rg_entries r' = drop (Suc k) (rg_entries r)" by (simp add: drop_Suc)
    with ih show ?thesis by blast
  next
    case False
    have stop: "make_room sz r = (count_by EVICTED_CAPACITY 1 r, False) \<or>
        make_room sz r = (r, True) \<and> \<not> over_budget sz r \<and>
        (rg_entries r = [] \<or> length (rg_entries r) < MAX_ENTRIES)"
      using False by (subst (1 2) make_room.simps) auto
    from stop 1(2) consider "r' = count_by EVICTED_CAPACITY 1 r" "\<not> ok"
      | "r' = r" "\<not> over_budget sz r" "rg_entries r = [] \<or> length (rg_entries r) < MAX_ENTRIES"
      by auto
    then show ?thesis
      by cases (use 1(3) in \<open>auto simp: over_budget_def not_less intro: exI [of _ 0]\<close>)
  qed
qed

lemma make_room_keeps_inflight:
  assumes "make_room sz r = (r', ok)"
    and "sorted_wrt (<) (map en_sequence (rg_entries r))"
  shows "filter (\<lambda>e. en_sequence e \<le> rg_inflight_through r) (rg_entries r') =
         filter (\<lambda>e. en_sequence e \<le> rg_inflight_through r) (rg_entries r)"
  using assms
proof (induction sz r rule: make_room.induct)
  case (1 sz r)
  show ?case
  proof (cases "rg_entries r \<noteq> [] \<and> (over_budget sz r \<or> MAX_ENTRIES \<le> length (rg_entries r))
      \<and> \<not> en_sequence (hd (rg_entries r)) \<le> rg_inflight_through r")
    case True
    then have step: "make_room sz r = make_room sz (drop_oldest EVICTED_CAPACITY r)"
      by (subst make_room.simps) simp
    obtain e es where es: "rg_entries r = e # es" using True by (cases "rg_entries r") auto
    with 1 True step show ?thesis by simp
  next
    case False
    then have "rg_entries r' = rg_entries r"
      using 1(2) by (subst (asm) make_room.simps) (auto split: if_splits)
    then show ?thesis by simp
  qed
qed

lemma sorted_seq_append:
  "sorted_wrt (<) (map en_sequence es) \<Longrightarrow> \<forall>e \<in> set es. en_sequence e < n \<Longrightarrow>
   en_sequence e' = n \<Longrightarrow> sorted_wrt (<) (map en_sequence (es @ [e']))"
  by (simp add: sorted_wrt_append)

lemma capture_entries:
  assumes inv: "ring_inv r"
  shows "\<exists>k added. rg_entries (fst (capture v src t r)) = drop k (rg_entries r) @ added \<and>
     (\<forall>e \<in> set added. en_sequence e = rg_sequence r + 1)"
proof (cases v)
  case None
  then show ?thesis by (auto simp: capture_def Let_def intro: exI [of _ 0])
next
  case (Some cp)
  obtain c p where cp: "cp = (c, p)" by (cases cp)
  define r1 where "r1 = r\<lparr> rg_sequence := rg_sequence r + 1 \<rparr>"
  have inv1: "ring_inv r1" using inv by (auto simp: r1_def ring_inv_def)
  obtain r' ok where mr: "make_room (int (length p)) r1 = (r', ok)" by fastforce
  from make_room_result [OF mr inv1] obtain k where "rg_entries r' = drop k (rg_entries r)"
    by (auto simp: r1_def)
  then show ?thesis
    using mr Some cp unfolding r1_def
    by (cases ok) (auto simp: capture_def Let_def intro: exI [of _ 0] exI [of _ k])
qed

lemma capture_inv: "ring_inv r \<Longrightarrow> ring_inv (fst (capture v src t r))"
proof -
  assume inv: "ring_inv r"
  define r1 where "r1 = r\<lparr> rg_sequence := rg_sequence r + 1 \<rparr>"
  have inv1: "ring_inv r1" using inv by (auto simp: r1_def ring_inv_def)
  show ?thesis
  proof (cases v)
    case None
    then show ?thesis using inv1 by (simp add: capture_def r1_def)
  next
    case (Some cp)
    obtain c p where cp: "cp = (c, p)" by (cases cp)
    obtain r' ok where mr: "make_room (int (length p)) r1 = (r', ok)" by fastforce
    note res = make_room_result [OF mr inv1]
    obtain k where k: "rg_entries r' = drop k (rg_entries r)" using res by (auto simp: r1_def)
    have old: "\<forall>e \<in> set (rg_entries r'). en_sequence e < rg_sequence r + 1"
      using inv k by (auto simp: ring_inv_def less_Suc_eq_le dest!: in_set_dropD)
    have seq: "rg_sequence r' = rg_sequence r + 1" using res by (simp add: r1_def)
    show ?thesis
    proof (cases ok)
      case False
      then show ?thesis
        using mr Some cp inv1 res unfolding r1_def by (simp add: capture_def Let_def)
    next
      case True
      define e where "e = \<lparr> en_sequence = rg_sequence r1, en_observed_at_ms = t, en_source = src,
        en_constructor = c, en_payload_json = p, en_payload_bytes = int (length p), en_trace_ids = [] \<rparr>"
      have "ring_inv (r'\<lparr> rg_entries := rg_entries r' @ [e], rg_bytes := rg_bytes r' + int (length p) \<rparr>)"
        using res True old seq sorted_seq_append [of "rg_entries r'" "rg_sequence r + 1" e]
        by (auto simp: ring_inv_def e_def r1_def less_Suc_eq_le limits)
      then show ?thesis
        using mr Some cp True inv1 unfolding r1_def e_def by (simp add: capture_def Let_def)
    qed
  qed
qed

lemma trace_entries:
  "map (\<lambda>e. (en_sequence e, en_payload_bytes e)) (rg_entries (associate_trace n t r)) =
   map (\<lambda>e. (en_sequence e, en_payload_bytes e)) (rg_entries r)"
proof (cases "rg_entries r" rule: rev_cases)
  case Nil
  then show ?thesis by (simp add: associate_trace_def)
next
  case (snoc es e)
  then show ?thesis by (simp add: associate_trace_def Let_def)
qed

lemma same_shape_inv:
  assumes "map (\<lambda>e. (en_sequence e, en_payload_bytes e)) (rg_entries r') =
           map (\<lambda>e. (en_sequence e, en_payload_bytes e)) (rg_entries r)"
    and "rg_sequence r' = rg_sequence r" "rg_bytes r' = rg_bytes r"
    and "rg_inflight_bytes r' = rg_inflight_bytes r" "rg_orphaned_bytes r' = rg_orphaned_bytes r"
    and "ring_inv r"
  shows "ring_inv r'"
proof -
  let ?f = "\<lambda>e. (en_sequence e, en_payload_bytes e)"
  have eq: "map (g \<circ> ?f) (rg_entries r') = map (g \<circ> ?f) (rg_entries r)" for g :: "nat \<times> int \<Rightarrow> 'a"
    using assms(1) by (metis map_map)
  have seqs: "map en_sequence (rg_entries r') = map en_sequence (rg_entries r)"
    using eq [of fst] by (simp add: comp_def)
  have bytes: "map en_payload_bytes (rg_entries r') = map en_payload_bytes (rg_entries r)"
    using eq [of snd] by (simp add: comp_def)
  have len: "length (rg_entries r') = length (rg_entries r)" using seqs by (rule map_eq_imp_length_eq)
  have "list_all ((\<le>) 0) (map en_payload_bytes (rg_entries r'))"
    using assms(6) unfolding bytes by (simp add: list_all_iff ring_inv_def)
  then have A: "\<forall>e \<in> set (rg_entries r'). 0 \<le> en_payload_bytes e" by (simp add: list_all_iff)
  have "list_all (\<lambda>n. 0 < n \<and> n \<le> rg_sequence r) (map en_sequence (rg_entries r'))"
    using assms(6) unfolding seqs by (simp add: list_all_iff ring_inv_def)
  then have B: "\<forall>e \<in> set (rg_entries r'). 0 < en_sequence e \<and> en_sequence e \<le> rg_sequence r"
    by (simp add: list_all_iff)
  show ?thesis
    using A B assms(2-6) by (simp add: ring_inv_def seqs len payload_total_def bytes)
qed

lemma trace_inv: "ring_inv r \<Longrightarrow> ring_inv (associate_trace n t r)"
  by (rule same_shape_inv [OF trace_entries])
    (auto simp: associate_trace_def Let_def)

lemma reset_inv: "ring_inv r \<Longrightarrow> ring_inv (reset r)"
  by (simp add: ring_inv_def reset_def limits)

lemma ring_inv_binding [simp]:
  "ring_inv (r\<lparr> rg_generation := g \<rparr>) = ring_inv r"
  "ring_inv (r\<lparr> rg_account_id := a \<rparr>) = ring_inv r"
  "ring_inv (r\<lparr> rg_desired_account := a \<rparr>) = ring_inv r"
  "ring_inv (r\<lparr> rg_request_revision := n \<rparr>) = ring_inv r"
  "ring_inv (r\<lparr> rg_logout_serial := n \<rparr>) = ring_inv r"
  "ring_inv (r\<lparr> rg_completed_logout_serial := n \<rparr>) = ring_inv r"
  by (simp_all add: ring_inv_def)

lemma binding_inv:
  "ring_inv r \<Longrightarrow> ring_inv (request_verified_account a r)"
  "ring_inv r \<Longrightarrow> ring_inv (request_logout r)"
  "ring_inv r \<Longrightarrow> ring_inv (complete_bind a v g r)"
  by (simp_all add: request_verified_account_def request_logout_def complete_bind_def Let_def reset_inv)

lemma batch_of_prefix:
  "batch_of n b acc es = take (length (batch_of n b acc es)) es"
  by (induction n b acc es rule: batch_of.induct) simp_all

lemma payload_total_take:
  assumes "\<forall>e \<in> set es. 0 \<le> en_payload_bytes e"
  shows "payload_total (take k es) \<le> payload_total es"
proof -
  have "0 \<le> payload_total (drop k es)"
    using assms by (intro payload_total_nonneg) (meson in_set_dropD)
  moreover have "payload_total es = payload_total (take k es) + payload_total (drop k es)"
    by (metis append_take_drop_id payload_total_simps(3))
  ultimately show ?thesis by simp
qed

lemma peek_inv: "ring_inv r \<Longrightarrow> ring_inv (fst (peek_batch n b r))"
proof -
  assume inv: "ring_inv r"
  let ?b = "batch_of n b 0 (rg_entries r)"
  have pos: "\<forall>e \<in> set (rg_entries r). 0 \<le> en_payload_bytes e" using inv by (simp add: ring_inv_def)
  have "payload_total ?b \<le> payload_total (rg_entries r)"
    using payload_total_take [OF pos] batch_of_prefix by metis
  moreover have "0 \<le> payload_total ?b"
    using pos by (intro payload_total_nonneg) (metis batch_of_prefix in_set_takeD)
  ultimately show ?thesis using inv by (auto simp: peek_batch_def Let_def ring_inv_def)
qed

text \<open>The pop loop removes the entries up to the acknowledged sequence and their bytes.\<close>

lemma pop_through_eq:
  "pop_through n es bytes =
    (dropWhile (\<lambda>e. en_sequence e \<le> n) es,
     bytes - payload_total (takeWhile (\<lambda>e. en_sequence e \<le> n) es))"
  by (induction n es bytes rule: pop_through.induct) simp_all

lemma ack_eq:
  "ack_batch recs r = (if recs = [] then r else release_batch
    (r\<lparr> rg_entries := dropWhile (\<lambda>e. en_sequence e \<le> ur_sequence (last recs)) (rg_entries r),
        rg_bytes := rg_bytes r -
          payload_total (takeWhile (\<lambda>e. en_sequence e \<le> ur_sequence (last recs)) (rg_entries r)) \<rparr>))"
  by (simp add: ack_batch_def pop_through_eq)

lemma pop_bytes:
  "payload_total es - payload_total (takeWhile P es) = payload_total (dropWhile P es)"
  by (metis add_diff_cancel_left' payload_total_simps(3) takeWhile_dropWhile_id)

lemma release_inv: "ring_inv r \<Longrightarrow> ring_inv (release_batch r)"
  by (auto simp: ring_inv_def release_batch_def limits)

lemma ack_inv: "ring_inv r \<Longrightarrow> ring_inv (ack_batch recs r)"
proof -
  assume inv: "ring_inv r"
  let ?P = "\<lambda>e. en_sequence e \<le> ur_sequence (last recs)"
  let ?es = "dropWhile ?P (rg_entries r)"
  have sub: "\<forall>e \<in> set ?es. e \<in> set (rg_entries r)" by (meson set_dropWhileD)
  have len: "length ?es \<le> length (rg_entries r)" by (rule length_dropWhile_le)
  have drop: "?es = drop (length (takeWhile ?P (rg_entries r))) (rg_entries r)"
    by (rule dropWhile_eq_drop)
  have srt: "sorted_wrt (<) (map en_sequence ?es)"
    using inv unfolding drop by (simp add: ring_inv_def drop_map [symmetric] sorted_wrt_drop)
  have pos: "0 \<le> payload_total (takeWhile ?P (rg_entries r))"
    using inv by (intro payload_total_nonneg) (auto simp: ring_inv_def dest: set_takeWhileD)
  have eq: "rg_bytes r - payload_total (takeWhile ?P (rg_entries r)) = payload_total ?es"
    using inv by (simp add: ring_inv_def pop_bytes)
  have "ring_inv (r\<lparr> rg_entries := ?es,
      rg_bytes := rg_bytes r - payload_total (takeWhile ?P (rg_entries r)) \<rparr>)"
    using inv sub len srt pos eq by (simp add: ring_inv_def)
  then show ?thesis using inv by (simp add: ack_eq release_inv)
qed

lemma ring_step_inv: "ring_inv r \<Longrightarrow> ring_inv (ring_step op r)"
  by (cases op)
    (simp_all add: capture_inv trace_inv binding_inv reset_inv peek_inv ack_inv release_inv
      discard_batch_def Let_def)

lemma new_ring_inv: "ring_inv (new_ring rt)"
  by (simp add: ring_inv_def new_ring_def limits)

interpretation ring: op_system ring_step ring_inv
  by unfold_locales (rule ring_step_inv)

interpretation ring_entries: bounded_system ring_step ring_inv "\<lambda>r. length (rg_entries r)" MAX_ENTRIES
  by unfold_locales (simp add: ring_inv_def)

interpretation ring_bytes: bounded_system ring_step ring_inv
    "\<lambda>r. nat (rg_bytes r + rg_orphaned_bytes r)" "nat MAX_RETAINED_BYTES"
  by unfold_locales (auto simp: ring_inv_def intro: nat_mono)

lemma capture_sequence: "rg_sequence (fst (capture v src t r)) = Suc (rg_sequence r)"
proof -
  have mr: "rg_sequence (fst (make_room n r)) = rg_sequence r" for n r
    by (induction n r rule: make_room.induct) (subst make_room.simps, simp)
  have "rg_sequence r' = Suc (rg_sequence r)"
    if "make_room n (r\<lparr> rg_sequence := Suc (rg_sequence r) \<rparr>) = (r', ok)" for n r' ok
    using mr [of n "r\<lparr> rg_sequence := Suc (rg_sequence r) \<rparr>"] that by simp
  then show ?thesis
    by (auto simp: capture_def Let_def split: option.splits prod.splits bool.splits)
qed

interpretation ring_sequence: monotone_system ring_step "\<lambda>_. True" rg_sequence
proof unfold_locales
  fix op :: ring_op and r
  show "rg_sequence r \<le> rg_sequence (ring_step op r)"
    by (cases op) (simp_all add: capture_sequence associate_trace_def request_verified_account_def
      request_logout_def complete_bind_def reset_def peek_batch_def ack_eq release_batch_def
      discard_batch_def Let_def)
qed

section \<open>Properties\<close>

definition losses :: "Ring \<Rightarrow> nat" where
  "losses r = (\<Sum>c \<leftarrow> [EVICTED_CAPACITY, REJECTED_OVERSIZE, SERIALIZATION_FAILURES, RESET_EVICTED].
     rg_counters r c)"

lemma losses_count [simp]: "losses (count_by c n r) = losses r + n"
  by (cases c) (simp_all add: losses_def count_by_def)

lemma losses_update [simp]:
  "losses (r\<lparr> rg_entries := es \<rparr>) = losses r" "losses (r\<lparr> rg_bytes := b \<rparr>) = losses r"
  "losses (r\<lparr> rg_sequence := n \<rparr>) = losses r" "losses (r\<lparr> rg_account_id := a \<rparr>) = losses r"
  "losses (r\<lparr> rg_inflight_through := n \<rparr>) = losses r" "losses (r\<lparr> rg_inflight_bytes := b \<rparr>) = losses r"
  "losses (r\<lparr> rg_orphaned_bytes := b \<rparr>) = losses r" "losses (r\<lparr> rg_generation := g \<rparr>) = losses r"
  "losses (r\<lparr> rg_desired_account := a \<rparr>) = losses r" "losses (r\<lparr> rg_request_revision := n \<rparr>) = losses r"
  "losses (r\<lparr> rg_logout_serial := n \<rparr>) = losses r"
  by (simp_all add: losses_def)

lemma losses_cong: "rg_counters r = rg_counters r' \<Longrightarrow> losses r = losses r'"
  by (simp add: losses_def)

definition accounted :: "Ring \<Rightarrow> nat" where
  "accounted r = length (rg_entries r) + losses r"

lemma accounted_drop: "rg_entries r \<noteq> [] \<Longrightarrow> accounted (drop_oldest c r) = accounted r"
proof -
  assume "rg_entries r \<noteq> []"
  then obtain e es where es: "rg_entries r = e # es" by (cases "rg_entries r") auto
  then show ?thesis
    by (simp add: accounted_def drop_oldest_def)
qed

lemma accounted_make_room:
  assumes "make_room sz r = (r', ok)"
  shows "accounted r' = accounted r + (if ok then 0 else 1)"
  using assms
proof (induction sz r rule: make_room.induct)
  case (1 sz r)
  show ?case
  proof (cases "rg_entries r \<noteq> [] \<and> (over_budget sz r \<or> MAX_ENTRIES \<le> length (rg_entries r))
      \<and> \<not> en_sequence (hd (rg_entries r)) \<le> rg_inflight_through r")
    case True
    then have "make_room sz r = make_room sz (drop_oldest EVICTED_CAPACITY r)"
      by (subst make_room.simps) simp
    with 1 True show ?thesis by (simp add: accounted_drop)
  next
    case False
    with 1(2) show ?thesis
      by (subst (asm) make_room.simps) (auto simp: accounted_def split: if_splits)
  qed
qed

lemma accounted_capture: "accounted (fst (capture v src t r)) = Suc (accounted r)"
proof -
  have base: "accounted (r\<lparr> rg_sequence := n \<rparr>) = accounted r" for n
    by (simp add: accounted_def losses_def)
  have mr: "accounted r' = accounted r + (if ok then 0 else 1)"
    if "make_room n (r\<lparr> rg_sequence := Suc (rg_sequence r) \<rparr>) = (r', ok)" for n r' ok
    using accounted_make_room [OF that] base by simp
  have cnt: "accounted (count_by c 1 r') = Suc (accounted r')" for c r'
    by (simp add: accounted_def)
  have app: "accounted (r'\<lparr> rg_entries := rg_entries r' @ [e], rg_bytes := b \<rparr>) = Suc (accounted r')"
    for r' e b by (simp add: accounted_def losses_def)
  show ?thesis
    by (auto simp: capture_def Let_def base cnt [simplified] app dest: mr
        split: option.splits prod.splits bool.splits)
qed

fun delivered :: "ring_op list \<Rightarrow> Ring \<Rightarrow> nat" where
  "delivered [] r = 0"
| "delivered (RAck recs # ops) r =
     length (rg_entries r) - length (rg_entries (ack_batch recs r)) + delivered ops (ack_batch recs r)"
| "delivered (op # ops) r = delivered ops (ring_step op r)"

fun captures :: "ring_op \<Rightarrow> nat" where
  "captures (RCapture v src t) = 1"
| "captures op = 0"

lemma ack_shorter: "length (rg_entries (ack_batch recs r)) \<le> length (rg_entries r)"
  by (auto simp: ack_eq release_batch_def length_dropWhile_le)

lemma ack_losses [simp]: "losses (ack_batch recs r) = losses r"
  by (simp add: ack_eq release_batch_def losses_def)

lemma accounted_other:
  assumes "\<forall>recs. op \<noteq> RAck recs"
  shows "accounted (ring_step op r) = accounted r + captures op"
proof (cases op)
  case (RTrace n t)
  have "length (rg_entries (associate_trace n t r)) = length (rg_entries r)"
    using trace_entries by (rule map_eq_imp_length_eq)
  moreover have "losses (associate_trace n t r) = losses r"
    by (rule losses_cong) (simp add: associate_trace_def Let_def)
  ultimately show ?thesis by (simp add: RTrace accounted_def)
next
  case (RDiscard recs)
  then show ?thesis
    using ack_shorter [of recs r] by (simp add: discard_batch_def Let_def accounted_def)
next
  case (RCapture v src t)
  then show ?thesis by (simp add: accounted_capture)
qed (use assms in \<open>simp_all add: accounted_def request_verified_account_def request_logout_def
       complete_bind_def reset_def peek_batch_def release_batch_def Let_def\<close>)

lemma captures_sequence: "rg_sequence (ring_step op r) = rg_sequence r + captures op"
  by (cases op) (simp_all add: capture_sequence associate_trace_def request_verified_account_def
      request_logout_def complete_bind_def reset_def peek_batch_def ack_eq release_batch_def
      discard_batch_def Let_def)

lemma delivered_conserves:
  "rg_sequence (run_ops ring_step ops r) + accounted r =
   rg_sequence r + accounted (run_ops ring_step ops r) + delivered ops r"
proof (induction ops arbitrary: r)
  case (Cons op ops)
  have step: "rg_sequence (ring_step op r) + accounted r + 0 =
      rg_sequence r + accounted (ring_step op r) +
      (case op of RAck recs \<Rightarrow> length (rg_entries r) - length (rg_entries (ack_batch recs r)) | _ \<Rightarrow> 0)"
  proof (cases "\<exists>recs. op = RAck recs")
    case True
    then obtain recs where op: "op = RAck recs" by blast
    show ?thesis
      using ack_shorter [of recs r] captures_sequence [of op r] by (simp add: accounted_def op)
  next
    case False
    then show ?thesis
      using accounted_other [of op r] captures_sequence [of op r] by (auto split: ring_op.splits)
  qed
  show ?case using step Cons.IH [of "ring_step op r"] by (cases op) simp_all
qed simp

text \<open>
  The staging area stays within its two limits under any sequence of calls of its
  methods: at most 65,536 entries, and at most 64 MiB counted together with the bytes of a
  batch that was in flight when the ring was reset. The byte counter is exactly the sum of
  the entries' sizes, no entry is larger than the entry limit, and the entries are in strictly
  increasing order of their sequence numbers, which never exceed the ring's own.
\<close>

theorem ring_stays_bounded:
  "let r = run_ops ring_step ops (new_ring rt) in
     length (rg_entries r) \<le> 65536 \<and>
     rg_bytes r + rg_orphaned_bytes r \<le> 64 * 1024 * 1024 \<and> 0 \<le> rg_orphaned_bytes r \<and>
     rg_bytes r = (\<Sum>e \<leftarrow> rg_entries r. en_payload_bytes e) \<and>
     sorted_wrt (<) (map en_sequence (rg_entries r) @ [Suc (rg_sequence r)])"
  using ring.run_invar [OF new_ring_inv, of ops rt]
  by (auto simp: Let_def ring_inv_def limits payload_total_def sorted_wrt_append less_Suc_eq_le)

text \<open>
  C27. No update disappears unaccounted. Under any sequence of calls, the number of
  captures so far is exactly the number of entries acknowledged by the flush task, plus the
  entries still pending, plus the four loss counters.
\<close>

theorem every_capture_accounted:
  "let r0 = new_ring rt; r = run_ops ring_step ops r0 in
     (\<Sum>op \<leftarrow> ops. captures op) =
       delivered ops r0 + length (rg_entries r) +
       rg_counters r EVICTED_CAPACITY + rg_counters r REJECTED_OVERSIZE +
       rg_counters r SERIALIZATION_FAILURES + rg_counters r RESET_EVICTED"
proof -
  have seq: "rg_sequence (run_ops ring_step ops r) = rg_sequence r + (\<Sum>op \<leftarrow> ops. captures op)" for r
    by (induction ops arbitrary: r) (simp_all add: captures_sequence)
  have "accounted (new_ring rt) = 0 \<and> rg_sequence (new_ring rt) = 0"
    by (simp add: accounted_def losses_def new_ring_def)
  then show ?thesis
    using delivered_conserves [of ops "new_ring rt"] seq [of "new_ring rt"]
    by (simp add: Let_def accounted_def losses_def)
qed

text \<open>Which entries an acknowledgement pops.\<close>

lemma sorted_dropWhile_le:
  "sorted_wrt (<) (map en_sequence es) \<Longrightarrow>
   dropWhile (\<lambda>e. en_sequence e \<le> n) es = filter (\<lambda>e. n < en_sequence e) es"
proof (induction es)
  case (Cons e es)
  show ?case
  proof (cases "en_sequence e \<le> n")
    case False
    have "filter (\<lambda>e. n < en_sequence e) es = es"
      using Cons.prems False by (intro filter_True) (auto intro: less_trans)
    with False show ?thesis by simp
  next
    case True
    have "sorted_wrt (<) (map en_sequence es)" using Cons.prems by simp
    then have "dropWhile (\<lambda>e. en_sequence e \<le> n) es = filter (\<lambda>e. n < en_sequence e) es"
      by (rule Cons.IH)
    moreover have "\<not> n < en_sequence e" using True by (rule leD)
    ultimately show ?thesis using True by simp
  qed
qed simp

lemma sorted_prefix_le:
  assumes "sorted_wrt (<) (map en_sequence es)" and "0 < k" and "k \<le> length es"
  shows "filter (\<lambda>e. en_sequence e \<le> en_sequence (es ! (k - 1))) es = take k es"
  using assms
proof (induction es arbitrary: k)
  case (Cons e es)
  show ?case
  proof (cases "k = 1")
    case True
    have "filter (\<lambda>e'. en_sequence e' \<le> en_sequence e) es = []"
      using Cons.prems(1) by (auto simp: filter_empty_conv not_le)
    with True show ?thesis by simp
  next
    case False
    define j where "j = k - 2"
    have k: "k = Suc (Suc j)" using False Cons.prems(2) by (simp add: j_def)
    have len: "j < length es" using Cons.prems(3) k by simp
    then have "en_sequence e \<le> en_sequence (es ! j)" using Cons.prems(1) by (simp add: less_imp_le)
    with Cons.IH [of "Suc j"] Cons.prems(1) len show ?thesis by (simp add: k)
  qed
qed simp

text \<open>
  The steps the ring takes while a batch is in flight keep every entry that could be popped
  among those of the batch: older ones are never created.
\<close>

definition old_from :: "nat \<Rightarrow> nat set \<Rightarrow> Ring \<Rightarrow> bool" where
  "old_from n S r \<longleftrightarrow> ring_inv r \<and> n \<le> rg_sequence r \<and>
     (\<forall>e \<in> set (rg_entries r). en_sequence e \<le> n \<longrightarrow> en_sequence e \<in> S)"

lemma old_from_sub:
  assumes "old_from n S r" "ring_inv r'" "rg_sequence r \<le> rg_sequence r'"
    and "\<forall>s \<in> set (map en_sequence (rg_entries r')).
      s \<in> set (map en_sequence (rg_entries r)) \<or> n < s"
  shows "old_from n S r'"
  unfolding old_from_def
proof (intro conjI ballI impI)
  show "ring_inv r'" by (rule assms)
  show "n \<le> rg_sequence r'" using assms(1,3) by (simp add: old_from_def)
  fix e assume e: "e \<in> set (rg_entries r')" and le: "en_sequence e \<le> n"
  then have "en_sequence e \<in> set (map en_sequence (rg_entries r))" using assms(4) by fastforce
  with assms(1) le show "en_sequence e \<in> S" by (auto simp: old_from_def)
qed

lemma step_seqs:
  assumes "ring_inv r" and "s \<in> set (map en_sequence (rg_entries (ring_step op r)))"
  shows "s \<in> set (map en_sequence (rg_entries r)) \<or> rg_sequence r < s"
proof (cases op)
  case (RCapture v src t)
  obtain k added where "rg_entries (fst (capture v src t r)) = drop k (rg_entries r) @ added"
    "\<forall>e \<in> set added. en_sequence e = rg_sequence r + 1"
    using capture_entries [OF assms(1)] by metis
  with assms(2) show ?thesis by (auto simp: RCapture dest: in_set_dropD)
next
  case (RTrace n t)
  have "map (fst \<circ> (\<lambda>e. (en_sequence e, en_payload_bytes e))) (rg_entries (associate_trace n t r)) =
        map (fst \<circ> (\<lambda>e. (en_sequence e, en_payload_bytes e))) (rg_entries r)"
    by (metis map_map trace_entries)
  then have "map en_sequence (rg_entries (associate_trace n t r)) = map en_sequence (rg_entries r)"
    by (simp add: comp_def)
  with assms(2) show ?thesis by (simp only: RTrace ring_step.simps simp_thms)
qed (use assms(2) in \<open>auto simp: request_verified_account_def request_logout_def complete_bind_def
       reset_def peek_batch_def ack_eq release_batch_def discard_batch_def Let_def
       split: if_splits dest: set_dropWhileD\<close>)

lemma old_from_step: "old_from n S r \<Longrightarrow> old_from n S (ring_step op r)"
proof (rule old_from_sub)
  assume old: "old_from n S r"
  then have inv: "ring_inv r" and le: "n \<le> rg_sequence r" by (simp_all add: old_from_def)
  show "ring_inv (ring_step op r)" by (rule ring_step_inv [OF inv])
  show "rg_sequence r \<le> rg_sequence (ring_step op r)" by (simp add: captures_sequence)
  show "\<forall>s \<in> set (map en_sequence (rg_entries (ring_step op r))).
      s \<in> set (map en_sequence (rg_entries r)) \<or> n < s"
    using step_seqs [OF inv, of _ op] le by (meson le_less_trans)
qed

interpretation in_flight: op_system ring_step "old_from n S" for n S
  by unfold_locales (rule old_from_step)

lemma peek_records:
  assumes "peek_batch n b r = (r1, recs)" and "recs \<noteq> []"
  obtains k where "recs = map (to_record (rg_runtime_id r)) (take k (rg_entries r))"
    and "0 < k" and "k \<le> length (rg_entries r)" and "rg_entries r1 = rg_entries r"
    and "rg_inflight_through r1 = ur_sequence (last recs)"
    and "ur_sequence (last recs) = en_sequence (rg_entries r ! (k - 1))"
    and "rg_sequence r1 = rg_sequence r"
proof -
  define k where "k = length (batch_of n b 0 (rg_entries r))"
  have pre: "batch_of n b 0 (rg_entries r) = take k (rg_entries r)"
    unfolding k_def by (rule batch_of_prefix)
  then have k_le: "k \<le> length (rg_entries r)"
    using k_def by (metis length_take min.absorb_iff1 min.commute)
  have recs: "recs = map (to_record (rg_runtime_id r)) (take k (rg_entries r))"
    using assms(1) by (simp add: peek_batch_def Let_def pre)
  have k0: "0 < k" using assms(2) recs by (cases k) auto
  have r1: "r1 = r\<lparr> rg_inflight_through := ur_sequence (last recs),
                     rg_inflight_bytes := payload_total (take k (rg_entries r)) \<rparr>"
    using assms unfolding recs by (simp add: peek_batch_def Let_def pre)
  have ne: "take k (rg_entries r) \<noteq> []" using recs assms(2) by simp
  have "last (take k (rg_entries r)) = rg_entries r ! (k - 1)"
    using ne k_le k0 by (simp add: last_conv_nth min_absorb2)
  then have "ur_sequence (last recs) = en_sequence (rg_entries r ! (k - 1))"
    using ne by (simp add: recs last_map to_record_def)
  with that [of k] recs k0 k_le r1 show ?thesis by simp
qed

lemma peek_old_from:
  assumes "peek_batch n b r = (r1, recs)" and "recs \<noteq> []" and "ring_inv r"
  shows "old_from (ur_sequence (last recs)) (set (map ur_sequence recs)) r1"
proof -
  obtain k where k: "recs = map (to_record (rg_runtime_id r)) (take k (rg_entries r))" "0 < k"
    "k \<le> length (rg_entries r)" "rg_entries r1 = rg_entries r"
    "ur_sequence (last recs) = en_sequence (rg_entries r ! (k - 1))" "rg_sequence r1 = rg_sequence r"
    using peek_records [OF assms(1,2)] by metis
  have "ring_inv r1" using peek_inv [OF assms(3), of n b] assms(1) by simp
  moreover have "ur_sequence (last recs) \<le> rg_sequence r1"
    using assms(3) k(2,3,5,6) by (simp add: ring_inv_def)
  moreover have "en_sequence e \<in> set (map ur_sequence recs)"
    if e: "e \<in> set (rg_entries r1)" and le: "en_sequence e \<le> ur_sequence (last recs)" for e
  proof -
    have "e \<in> set (filter (\<lambda>e. en_sequence e \<le> en_sequence (rg_entries r ! (k - 1))) (rg_entries r))"
      using e le k(4,5) by simp
    also have "\<dots> = set (take k (rg_entries r))"
      using assms(3) k(2,3) by (subst sorted_prefix_le) (simp_all add: ring_inv_def)
    finally show ?thesis using k(1) by (auto simp: to_record_def)
  qed
  ultimately show ?thesis by (simp add: old_from_def)
qed

text \<open>
  Acknowledging a batch removes exactly that batch. Whatever happens to the ring
  between the flush task's peek and its acknowledgement (captures, evictions, resets for a
  logout or an account change, other calls), the acknowledgement removes from the ring
  precisely the entries whose sequence number is in the batch, in particular nothing that
  was captured in between.
\<close>

theorem ack_removes_exactly_batch:
  "let r = run_ops ring_step ops (new_ring rt);
       (r1, recs) = peek_batch max_count max_bytes r;
       r2 = run_ops ring_step between r1
   in rg_entries (ack_batch recs r2) =
        filter (\<lambda>e. en_sequence e \<notin> set (map ur_sequence recs)) (rg_entries r2)"
proof -
  define r where "r = run_ops ring_step ops (new_ring rt)"
  have inv: "ring_inv r" unfolding r_def by (rule ring.run_invar [OF new_ring_inv])
  obtain r1 recs where peek: "peek_batch max_count max_bytes r = (r1, recs)" by fastforce
  define r2 where "r2 = run_ops ring_step between r1"
  have "rg_entries (ack_batch recs r2) =
        filter (\<lambda>e. en_sequence e \<notin> set (map ur_sequence recs)) (rg_entries r2)"
  proof (cases "recs = []")
    case False
    let ?n = "ur_sequence (last recs)"
    have old: "old_from ?n (set (map ur_sequence recs)) r2"
      unfolding r2_def by (rule in_flight.run_invar [OF peek_old_from [OF peek False inv]])
    have top: "s \<le> ?n" if "s \<in> set (map ur_sequence recs)" for s
    proof -
      obtain k where k: "recs = map (to_record (rg_runtime_id r)) (take k (rg_entries r))" "0 < k"
        "k \<le> length (rg_entries r)" "?n = en_sequence (rg_entries r ! (k - 1))"
        using peek_records [OF peek False] by metis
      have "set (take k (rg_entries r)) =
          set (filter (\<lambda>e. en_sequence e \<le> en_sequence (rg_entries r ! (k - 1))) (rg_entries r))"
        using inv k(2,3) by (subst sorted_prefix_le) (simp_all add: ring_inv_def)
      with that k(1,4) show ?thesis by (auto simp: to_record_def)
    qed
    have "filter (\<lambda>e. ?n < en_sequence e) (rg_entries r2) =
          filter (\<lambda>e. en_sequence e \<notin> set (map ur_sequence recs)) (rg_entries r2)"
      using old top by (intro filter_cong refl) (meson leD le_less_linear old_from_def)
    moreover have "rg_entries (ack_batch recs r2) = dropWhile (\<lambda>e. en_sequence e \<le> ?n) (rg_entries r2)"
      using False by (simp add: ack_eq release_batch_def)
    ultimately show ?thesis
      using old by (subst (asm) sorted_dropWhile_le) (simp_all add: old_from_def ring_inv_def)
  qed (simp add: ack_batch_def)
  then show ?thesis using peek by (simp add: r_def [symmetric] r2_def)
qed

fun intake :: "ring_op \<Rightarrow> bool" where
  "intake (RCapture v src t) = True"
| "intake (RTrace n t) = True"
| "intake op = False"

definition holds_batch :: "nat \<Rightarrow> nat list \<Rightarrow> Ring \<Rightarrow> bool" where
  "holds_batch n ss r \<longleftrightarrow> ring_inv r \<and> rg_inflight_through r = n \<and> n \<le> rg_sequence r \<and>
     filter (\<lambda>s. s \<le> n) (map en_sequence (rg_entries r)) = ss"

lemma filter_seq_map:
  "filter (\<lambda>s. s \<le> n) (map en_sequence es) = map en_sequence (filter (\<lambda>e. en_sequence e \<le> n) es)"
  by (simp add: filter_map comp_def)

lemma capture_holds_batch:
  assumes "holds_batch n ss r"
  shows "holds_batch n ss (fst (capture v src t r))"
proof -
  define r1 where "r1 = r\<lparr> rg_sequence := Suc (rg_sequence r) \<rparr>"
  have inv: "ring_inv r" using assms by (simp add: holds_batch_def)
  have inv1: "ring_inv r1" using inv by (auto simp: r1_def ring_inv_def)
  have old: "rg_inflight_through r = n" "n \<le> rg_sequence r"
    "map en_sequence (filter (\<lambda>e. en_sequence e \<le> n) (rg_entries r)) = ss"
    using assms by (simp_all add: holds_batch_def filter_seq_map)
  have keep: "rg_inflight_through r' = n \<and>
      map en_sequence (filter (\<lambda>e. en_sequence e \<le> n) (rg_entries r')) = ss"
    if "make_room sz r1 = (r', ok)" for sz r' ok
    using make_room_keeps_inflight [OF that] make_room_result [OF that inv1] inv1 old
    by (simp add: r1_def ring_inv_def)
  have "rg_inflight_through (fst (capture v src t r)) = n \<and>
      map en_sequence (filter (\<lambda>e. en_sequence e \<le> n) (rg_entries (fst (capture v src t r)))) = ss"
    using old keep unfolding r1_def
    by (auto simp: capture_def Let_def split: option.splits prod.splits bool.splits)
  then show ?thesis
    using capture_inv [OF inv] old(2) by (simp add: holds_batch_def filter_seq_map capture_sequence)
qed

lemma trace_holds_batch:
  assumes "holds_batch n ss r"
  shows "holds_batch n ss (associate_trace m t r)"
proof -
  have "map (fst \<circ> (\<lambda>e. (en_sequence e, en_payload_bytes e))) (rg_entries (associate_trace m t r)) =
        map (fst \<circ> (\<lambda>e. (en_sequence e, en_payload_bytes e))) (rg_entries r)"
    by (metis map_map trace_entries)
  then have "map en_sequence (rg_entries (associate_trace m t r)) = map en_sequence (rg_entries r)"
    by (simp add: comp_def)
  moreover have "rg_inflight_through (associate_trace m t r) = rg_inflight_through r \<and>
      rg_sequence (associate_trace m t r) = rg_sequence r"
    by (simp add: associate_trace_def Let_def)
  ultimately show ?thesis using assms trace_inv by (simp add: holds_batch_def)
qed

interpretation staged: guarded_system ring_step intake "holds_batch n ss" for n ss
proof unfold_locales
  fix op r
  assume "intake op" "holds_batch n ss r"
  then show "holds_batch n ss (ring_step op r)"
    by (cases op) (simp_all add: capture_holds_batch trace_holds_batch)
qed

lemma sorted_filter_prefix:
  assumes "sorted_wrt (<) xs"
  shows "filter (\<lambda>x. x \<le> (n :: nat)) xs = take (length (filter (\<lambda>x. x \<le> n) xs)) xs"
  using assms
proof (induction xs)
  case (Cons x xs)
  show ?case
  proof (cases "x \<le> n")
    case False
    then have "filter (\<lambda>x. x \<le> n) xs = []" using Cons.prems by (fastforce simp: filter_empty_conv)
    with False show ?thesis by simp
  qed (use Cons in auto)
qed simp

text \<open>
  A batch in flight is never evicted. While a peeked batch is being written, no number
  of further captures (even ones that force evictions) and trace associations touches it:
  it is still the oldest part of the ring, entry by entry.
\<close>

theorem batch_survives_intake:
  "let r = run_ops ring_step ops (new_ring rt);
       (r1, recs) = peek_batch max_count max_bytes r;
       r2 = run_ops ring_step (filter intake between) r1
   in map en_sequence (take (length recs) (rg_entries r2)) = map ur_sequence recs"
proof -
  define r where "r = run_ops ring_step ops (new_ring rt)"
  have inv: "ring_inv r" unfolding r_def by (rule ring.run_invar [OF new_ring_inv])
  obtain r1 recs where peek: "peek_batch max_count max_bytes r = (r1, recs)" by fastforce
  define r2 where "r2 = run_ops ring_step (filter intake between) r1"
  have "map en_sequence (take (length recs) (rg_entries r2)) = map ur_sequence recs"
  proof (cases "recs = []")
    case False
    let ?n = "ur_sequence (last recs)"
    obtain k where k: "recs = map (to_record (rg_runtime_id r)) (take k (rg_entries r))" "0 < k"
      "k \<le> length (rg_entries r)" "rg_entries r1 = rg_entries r" "rg_inflight_through r1 = ?n"
      "?n = en_sequence (rg_entries r ! (k - 1))" "rg_sequence r1 = rg_sequence r"
      using peek_records [OF peek False] by metis
    have seqs: "map ur_sequence recs = map en_sequence (take k (rg_entries r))"
      by (simp add: k(1) to_record_def)
    have "filter (\<lambda>e. en_sequence e \<le> ?n) (rg_entries r) = take k (rg_entries r)"
      using inv k(2,3) unfolding k(6) by (intro sorted_prefix_le) (simp_all add: ring_inv_def)
    then have "holds_batch ?n (map ur_sequence recs) r1"
      using peek_inv [OF inv, of max_count max_bytes] peek inv k(2,3)
      by (simp add: holds_batch_def filter_seq_map seqs k(4,5,7)) (simp add: k(6) ring_inv_def)
    then have "holds_batch ?n (map ur_sequence recs) r2"
      unfolding r2_def by (intro staged.permitted_run) (simp_all add: list_all_iff)
    then have srt: "sorted_wrt (<) (map en_sequence (rg_entries r2))"
      and seq: "filter (\<lambda>s. s \<le> ?n) (map en_sequence (rg_entries r2)) = map ur_sequence recs"
      by (simp_all add: holds_batch_def ring_inv_def)
    show ?thesis
      using sorted_filter_prefix [OF srt, of ?n] unfolding seq by (simp add: take_map)
  qed simp
  then show ?thesis using peek by (simp add: r_def [symmetric] r2_def)
qed

end
