(* ===== verification/Update_Store.thy ===== *)
theory Update_Store
  imports Update_Ring "HOL-Library.Product_Lexorder" "HOL-Library.Multiset"
begin

text \<open>
  \<^verbatim>\<open>telegram_update_store.py\<close>: the retained table of raw notifications and the few
  \<^verbatim>\<open>daemon_state\<close> keys under its prefix. Each function of the file is one SQLite write
  transaction, so it is one step here: it returns a new store, or raises and leaves the old
  one. The table is the list of its rows in the order of their \<^verbatim>\<open>AUTOINCREMENT\<close> ids; the
  schema's row constraints (\<^verbatim>\<open>sync_db.py\<close>, migration 98) are part of the insertion, with
  SQLite's own \<^verbatim>\<open>json_valid\<close> as the parameter \<open>valid\<close>.
\<close>

section \<open>The store\<close>

definition MAX_PAYLOAD_BYTES :: int where "MAX_PAYLOAD_BYTES = 64 * 1024 * 1024"
definition MAX_ROWS :: int where "MAX_ROWS = 65536"

type_synonym update_row = "nat \<times> UpdateRecord"

record UpdateStore =
  us_rows :: "update_row list"
  us_next_id :: nat
  us_generation :: "nat option"
  us_account_id :: "int option"
  us_runtime_id :: "string option"
  us_run_open :: "bool option"
  us_reset_reason :: "string option"
  us_pending_records :: "int option"
  us_pending_bytes :: "int option"
  us_snapshot :: "ring_counter \<Rightarrow> int option"
  us_total :: "ring_counter \<Rightarrow> int option"
  us_unknown_tail_runs :: "int option"
  us_db_evicted_capacity :: "int option"
  us_last_flush_ms :: "int option"

datatype store_error = InvalidAccount | ForeignBatch | IntegrityError | AssertionError

definition empty_store :: UpdateStore where
  "empty_store = \<lparr> us_rows = [], us_next_id = 1, us_generation = None, us_account_id = None,
     us_runtime_id = None, us_run_open = None, us_reset_reason = None, us_pending_records = None,
     us_pending_bytes = None, us_snapshot = (\<lambda>_. None), us_total = (\<lambda>_. None),
     us_unknown_tail_runs = None, us_db_evicted_capacity = None, us_last_flush_ms = None \<rparr>"

text \<open>\<^verbatim>\<open>int(_state(conn, name) or 0)\<close>\<close>

fun or_zero :: "('a :: zero) option \<Rightarrow> 'a" where
  "or_zero None = 0"
| "or_zero (Some n) = n"

section \<open>Binding, reset and runs\<close>

definition clear_updates :: "nat \<Rightarrow> string \<Rightarrow> UpdateStore \<Rightarrow> UpdateStore" where
  "clear_updates generation reason s = empty_store
     \<lparr> us_next_id := us_next_id s, us_generation := Some generation, us_reset_reason := Some reason \<rparr>"

definition bind_verified_account ::
  "int \<Rightarrow> UpdateStore \<Rightarrow> store_error + (nat \<times> bool) \<times> UpdateStore" where
  "bind_verified_account account s =
    (if account \<le> 0 then Inl InvalidAccount
     else let generation = or_zero (us_generation s);
              changed = (us_account_id s \<noteq> None \<and> us_account_id s \<noteq> Some account);
              (generation', s1) =
                (if changed then (generation + 1, clear_updates (generation + 1) ''account_changed'' s)
                 else if generation = 0 then (1, s\<lparr> us_generation := Some 1 \<rparr>)
                 else (generation, s))
          in Inr ((generation', changed), s1\<lparr> us_account_id := Some account \<rparr>))"

definition reset_updates :: "string \<Rightarrow> UpdateStore \<Rightarrow> nat \<times> UpdateStore" where
  "reset_updates reason s = (let g = or_zero (us_generation s) + 1 in (g, clear_updates g reason s))"

definition is_generation :: "nat \<Rightarrow> UpdateStore \<Rightarrow> bool" where
  "is_generation expected s \<longleftrightarrow> us_account_id s \<noteq> None \<and> us_generation s = Some expected"

definition begin_update_run :: "string \<Rightarrow> nat \<Rightarrow> UpdateStore \<Rightarrow> bool \<times> UpdateStore" where
  "begin_update_run runtime expected s =
    (if \<not> is_generation expected s then (False, s)
     else if us_runtime_id s = Some runtime then (True, s)
     else let s1 = (if us_runtime_id s \<noteq> None \<and> us_run_open s = Some True
                    then s\<lparr> us_unknown_tail_runs := Some (or_zero (us_unknown_tail_runs s) + 1) \<rparr>
                    else s)
          in (True, s1\<lparr> us_snapshot := (\<lambda>_. None), us_runtime_id := Some runtime,
                        us_run_open := Some True \<rparr>))"

definition end_update_run :: "string \<Rightarrow> nat \<Rightarrow> UpdateStore \<Rightarrow> bool \<times> UpdateStore" where
  "end_update_run runtime expected s =
    (if \<not> is_generation expected s \<or> us_runtime_id s \<noteq> Some runtime then (False, s)
     else (True, s\<lparr> us_run_open := Some False \<rparr>))"

section \<open>Capacity\<close>

definition row_key :: "update_row \<Rightarrow> int \<times> nat" where
  "row_key row = (ur_observed_at_ms (snd row), fst row)"

definition row_bytes :: "update_row \<Rightarrow> int" where
  "row_bytes row = ur_payload_bytes (snd row)"

definition rows_total :: "update_row list \<Rightarrow> int" where
  "rows_total rows = (\<Sum>row \<leftarrow> rows. row_bytes row)"

fun prune_cutoff :: "int \<Rightarrow> int \<Rightarrow> update_row list \<Rightarrow> (int \<times> nat) option" where
  "prune_cutoff cnt sz [] = None"
| "prune_cutoff cnt sz (row # rows) =
    (if cnt - 1 \<le> MAX_ROWS \<and> sz - row_bytes row \<le> MAX_PAYLOAD_BYTES then Some (row_key row)
     else prune_cutoff (cnt - 1) (sz - row_bytes row) rows)"

definition add_evictions :: "int \<Rightarrow> int option \<Rightarrow> int option" where
  "add_evictions n v = (if n = 0 then v else Some (or_zero v + n))"

definition prune_capacity :: "nat \<Rightarrow> UpdateStore \<Rightarrow> store_error + UpdateStore" where
  "prune_capacity inserted s =
    (let cnt = int (length (us_rows s)); sz = rows_total (us_rows s) in
     if inserted = 0 \<or> cnt \<le> MAX_ROWS \<and> sz \<le> MAX_PAYLOAD_BYTES then Inr s
     else case prune_cutoff cnt sz (sort_key row_key (us_rows s)) of
       None \<Rightarrow> Inl AssertionError
     | Some cutoff \<Rightarrow>
         (let kept = filter (\<lambda>row. \<not> row_key row \<le> cutoff) (us_rows s) in
          Inr (s\<lparr> us_rows := kept, us_db_evicted_capacity :=
            add_evictions (int (length (us_rows s) - length kept)) (us_db_evicted_capacity s) \<rparr>)))"

section \<open>Writing a batch\<close>

definition record_key :: "UpdateRecord \<Rightarrow> string \<times> nat" where
  "record_key r = (ur_runtime_id r, ur_sequence r)"

definition row_allowed :: "(string \<Rightarrow> bool) \<Rightarrow> UpdateRecord \<Rightarrow> bool" where
  "row_allowed valid r \<longleftrightarrow> valid (ur_payload_json r) \<and> 0 \<le> ur_payload_bytes r \<and>
     ur_payload_bytes r \<le> 4194304 \<and> ur_payload_bytes r = int (length (ur_payload_json r))"

definition insert_update :: "UpdateRecord \<Rightarrow> UpdateStore \<times> nat \<Rightarrow> UpdateStore \<times> nat" where
  "insert_update r = (\<lambda>(s, n).
    (if record_key r \<in> set (map (record_key \<circ> snd) (us_rows s)) then (s, n)
     else (s\<lparr> us_rows := us_rows s @ [(us_next_id s, r)], us_next_id := us_next_id s + 1 \<rparr>, n + 1)))"

fun insert_updates ::
  "(string \<Rightarrow> bool) \<Rightarrow> UpdateRecord list \<Rightarrow> UpdateStore \<times> nat \<Rightarrow> store_error + UpdateStore \<times> nat" where
  "insert_updates valid [] sn = Inr sn"
| "insert_updates valid (r # rs) sn =
    (if row_allowed valid r then insert_updates valid rs (insert_update r sn) else Inl IntegrityError)"

fun store_counter :: "ring_stat \<times> int \<Rightarrow> UpdateStore \<Rightarrow> UpdateStore" where
  "store_counter (PENDING_RECORDS, v) s = s\<lparr> us_pending_records := Some v \<rparr>"
| "store_counter (PENDING_BYTES, v) s = s\<lparr> us_pending_bytes := Some v \<rparr>"
| "store_counter (Counter c, v) s =
    (let previous = or_zero (us_snapshot s c) in
     s\<lparr> us_total := (us_total s)(c := add_evictions (max 0 (v - previous)) (us_total s c)),
        us_snapshot := (us_snapshot s)(c := Some (max previous v)) \<rparr>)"

definition write_update_batch ::
  "(string \<Rightarrow> bool) \<Rightarrow> UpdateRecord list \<Rightarrow> int \<Rightarrow> (ring_stat \<times> int) list \<Rightarrow> nat \<Rightarrow> string \<Rightarrow>
   UpdateStore \<Rightarrow> store_error + bool \<times> UpdateStore" where
  "write_update_batch valid records now_ms counts expected runtime s =
    (if \<not> is_generation expected s \<or> us_runtime_id s \<noteq> Some runtime \<or> us_run_open s \<noteq> Some True
     then Inr (False, s)
     else if list_ex (\<lambda>r. ur_runtime_id r \<noteq> runtime) records then Inl ForeignBatch
     else case insert_updates valid records (s, 0) of
       Inl e \<Rightarrow> Inl e
     | Inr (s1, inserted) \<Rightarrow>
         (case prune_capacity inserted s1 of
            Inl e \<Rightarrow> Inl e
          | Inr s2 \<Rightarrow> Inr (True, (fold store_counter counts s2)\<lparr> us_last_flush_ms := Some now_ms \<rparr>)))"

text \<open>A transaction of any caller; one that raises is rolled back.\<close>

datatype store_op =
    SBind int
  | SReset string
  | SBegin string nat
  | SEnd string nat
  | SWrite "UpdateRecord list" int "(ring_stat \<times> int) list" nat string

definition committed :: "'e + 'a \<times> UpdateStore \<Rightarrow> UpdateStore \<Rightarrow> UpdateStore" where
  "committed r s = (case r of Inl _ \<Rightarrow> s | Inr (_, s') \<Rightarrow> s')"

fun store_step :: "(string \<Rightarrow> bool) \<Rightarrow> store_op \<Rightarrow> UpdateStore \<Rightarrow> UpdateStore" where
  "store_step valid (SBind a) s = committed (bind_verified_account a s) s"
| "store_step valid (SReset reason) s = snd (reset_updates reason s)"
| "store_step valid (SBegin rt g) s = snd (begin_update_run rt g s)"
| "store_step valid (SEnd rt g) s = snd (end_update_run rt g s)"
| "store_step valid (SWrite recs now cs g rt) s = committed (write_update_batch valid recs now cs g rt s) s"

section \<open>The table invariant\<close>

definition rows_fit :: "update_row list \<Rightarrow> bool" where
  "rows_fit rows \<longleftrightarrow> int (length rows) \<le> MAX_ROWS \<and> rows_total rows \<le> MAX_PAYLOAD_BYTES"

definition rows_overflow :: "update_row list \<Rightarrow> bool" where
  "rows_overflow rows \<longleftrightarrow> int (length rows) > MAX_ROWS \<or> rows_total rows > MAX_PAYLOAD_BYTES"

lemma rows_overflow_iff: "rows_overflow rows \<longleftrightarrow> \<not> rows_fit rows"
  by (auto simp: rows_overflow_def rows_fit_def)

definition table_ok :: "UpdateStore \<Rightarrow> bool" where
  "table_ok s \<longleftrightarrow> sorted_wrt (<) (map fst (us_rows s)) \<and>
     (\<forall>row \<in> set (us_rows s). fst row < us_next_id s) \<and>
     distinct (map (record_key \<circ> snd) (us_rows s)) \<and>
     (\<forall>row \<in> set (us_rows s). 0 \<le> row_bytes row)"

definition store_inv :: "UpdateStore \<Rightarrow> bool" where
  "store_inv s \<longleftrightarrow> table_ok s \<and> rows_fit (us_rows s)"

lemmas store_limits = MAX_ROWS_def MAX_PAYLOAD_BYTES_def

lemma rows_total_simps [simp]:
  "rows_total [] = 0" "rows_total (x # xs) = row_bytes x + rows_total xs"
  "rows_total (xs @ ys) = rows_total xs + rows_total ys"
  by (simp_all add: rows_total_def)

lemma rows_total_mset: "mset xs = mset ys \<Longrightarrow> rows_total xs = rows_total ys"
  unfolding rows_total_def by (metis mset_map sum_mset_sum_list)

lemma rows_total_nonneg: "\<forall>x \<in> set xs. 0 \<le> row_bytes x \<Longrightarrow> 0 \<le> rows_total xs"
  by (induction xs) auto

text \<open>What the cutoff splits: the rows after it fit, those from it on do not.\<close>

lemma prune_cutoff_split:
  assumes "\<not> rows_fit xs"
  shows "\<exists>pre x post. xs = pre @ x # post \<and> rows_fit post \<and> \<not> rows_fit (x # post) \<and>
     prune_cutoff (int (length xs)) (rows_total xs) xs = Some (row_key x)"
  using assms
proof (induction xs)
  case Nil
  then show ?case by (simp add: rows_fit_def store_limits)
next
  case (Cons y ys)
  show ?case
  proof (cases "rows_fit ys")
    case True
    then have "prune_cutoff (int (length (y # ys))) (rows_total (y # ys)) (y # ys) = Some (row_key y)"
      by (simp add: rows_fit_def)
    with True Cons.prems show ?thesis by (intro exI [of _ "[]"] exI) auto
  next
    case False
    then obtain pre x post where "ys = pre @ x # post" "rows_fit post" "\<not> rows_fit (x # post)"
      "prune_cutoff (int (length ys)) (rows_total ys) ys = Some (row_key x)"
      using Cons.IH by blast
    with False show ?thesis by (intro exI [of _ "y # pre"] exI) (auto simp: rows_fit_def)
  qed
qed

lemma row_keys_distinct:
  assumes "sorted_wrt (<) (map fst rows)"
  shows "distinct (map row_key rows)"
proof -
  have "distinct (map fst rows)" using assms by (simp add: strict_sorted_iff)
  then have "distinct (map (snd \<circ> row_key) rows)" by (simp add: row_key_def comp_def)
  then show ?thesis by (metis distinct_map map_map)
qed

lemma filter_above:
  assumes "sorted (map row_key (pre @ x # post))" and "distinct (map row_key (pre @ x # post))"
  shows "filter (\<lambda>row. \<not> row_key row \<le> row_key x) (pre @ x # post) = post"
proof -
  have "filter (\<lambda>row. \<not> row_key row \<le> row_key x) pre = []"
    using assms(1) by (auto simp: filter_empty_conv sorted_append)
  moreover have "\<not> row_key row \<le> row_key x" if "row \<in> set post" for row
  proof -
    have "row_key x \<le> row_key row" using assms(1) that by (simp add: sorted_append)
    moreover have "row_key x \<notin> row_key ` set post" using assms(2) by simp
    then have "row_key row \<noteq> row_key x" using that by (metis imageI)
    ultimately show ?thesis by simp
  qed
  ultimately show ?thesis by simp
qed

text \<open>Pruning keeps the rows that are newest by observation time, as many as fit.\<close>

lemma prune_capacity_result:
  assumes ok: "table_ok s" and fit: "n \<noteq> 0 \<or> rows_fit (us_rows s)"
  shows "\<exists>pre post. sort_key row_key (us_rows s) = pre @ post \<and> rows_fit post \<and>
     (pre = [] \<or> \<not> rows_fit (last pre # post)) \<and>
     (\<exists>s'. prune_capacity n s = Inr s' \<and>
       us_rows s' = filter (\<lambda>row. row \<in> set post) (us_rows s) \<and>
       mset (us_rows s') = mset post \<and>
       s' = s\<lparr> us_rows := us_rows s', us_db_evicted_capacity :=
          add_evictions (int (length pre)) (us_db_evicted_capacity s) \<rparr>)"
proof (cases "rows_fit (us_rows s)")
  case True
  let ?sorted = "sort_key row_key (us_rows s)"
  have "rows_fit ?sorted" using True rows_total_mset [of ?sorted "us_rows s"] by (simp add: rows_fit_def)
  moreover have "prune_capacity n s = Inr s" using True by (simp add: prune_capacity_def rows_fit_def Let_def)
  moreover have "filter (\<lambda>row. row \<in> set ?sorted) (us_rows s) = us_rows s" by (rule filter_True) simp
  ultimately show ?thesis
    by (intro exI [of _ "[]"] exI [of _ ?sorted]) (simp add: add_evictions_def)
next
  case False
  let ?rows = "us_rows s" and ?sorted = "sort_key row_key (us_rows s)"
  have n: "n \<noteq> 0" using fit False by simp
  have len: "length ?sorted = length ?rows" and tot: "rows_total ?sorted = rows_total ?rows"
    by (simp, rule rows_total_mset, simp)
  have nofit: "\<not> rows_fit ?sorted" using False len tot by (simp add: rows_fit_def)
  obtain pre x post where split: "?sorted = pre @ x # post" and post: "rows_fit post"
    and more: "\<not> rows_fit (x # post)"
    and cut: "prune_cutoff (int (length ?rows)) (rows_total ?rows) ?sorted = Some (row_key x)"
    using prune_cutoff_split [OF nofit] unfolding len tot by blast
  have dist: "distinct (map row_key ?rows)" using ok by (intro row_keys_distinct) (simp add: table_ok_def)
  have dist': "distinct (map row_key ?sorted)"
    using dist by (metis distinct_map distinct_sort set_sort)
  have above: "filter (\<lambda>row. \<not> row_key row \<le> row_key x) ?sorted = post"
    using dist' sorted_sort_key [of row_key ?rows] unfolding split by (intro filter_above) auto
  let ?kept = "filter (\<lambda>row. \<not> row_key row \<le> row_key x) ?rows"
  have m: "mset ?kept = mset post" using above by (metis mset_filter mset_sort)
  have mem: "?kept = filter (\<lambda>row. row \<in> set post) ?rows"
  proof (rule filter_cong)
    fix row assume "row \<in> set ?rows"
    then show "(\<not> row_key row \<le> row_key x) = (row \<in> set post)"
      using arg_cong [OF above, of set] by auto
  qed simp
  have "length ?rows - length ?kept = length (pre @ [x])"
  proof -
    have "length ?rows = length pre + 1 + length post" using len split by simp
    moreover have "length ?kept = length post" using m by (metis size_mset)
    ultimately show ?thesis by simp
  qed
  moreover have "prune_capacity n s = Inr (s\<lparr> us_rows := ?kept, us_db_evicted_capacity :=
      add_evictions (int (length ?rows - length ?kept)) (us_db_evicted_capacity s) \<rparr>)"
    using n False cut by (auto simp: prune_capacity_def Let_def rows_fit_def)
  ultimately show ?thesis
    using split post more m mem by (intro exI [of _ "pre @ [x]"] exI [of _ post]) simp
qed

lemma filter_table_ok:
  assumes "table_ok s"
  shows "table_ok (s\<lparr> us_rows := filter P (us_rows s), us_db_evicted_capacity := e \<rparr>)"
  using assms unfolding table_ok_def
  by (simp add: distinct_map_filter sorted_wrt_map sorted_wrt_filter)

lemma insert_update_ok:
  assumes "table_ok (fst sn)" "0 \<le> ur_payload_bytes r"
  shows "table_ok (fst (insert_update r sn))"
proof -
  obtain s n where sn: "sn = (s, n)" by (cases sn)
  show ?thesis
    using assms unfolding sn table_ok_def
    by (auto simp: insert_update_def sorted_wrt_append row_bytes_def less_Suc_eq)
qed

lemma insert_updates_ok:
  "insert_updates valid rs sn = Inr sn' \<Longrightarrow> table_ok (fst sn) \<Longrightarrow> table_ok (fst sn')"
proof (induction rs arbitrary: sn)
  case (Cons r rs)
  then have "0 \<le> ur_payload_bytes r" by (auto simp: row_allowed_def split: if_splits)
  with Cons show ?case by (auto simp: insert_update_ok split: if_splits)
qed simp

lemma insert_updates_allowed:
  "insert_updates valid rs sn = Inr sn' \<Longrightarrow> list_all (row_allowed valid) rs"
  by (induction rs arbitrary: sn) (auto split: if_splits)

text \<open>An insertion that reports no new row changed nothing.\<close>

lemma insert_updates_count:
  "insert_updates valid rs (s, n) = Inr (s', n') \<Longrightarrow> n \<le> n' \<and> (n' = n \<longrightarrow> s' = s)"
proof (induction rs arbitrary: s n)
  case (Cons r rs)
  then show ?case
    by (cases "insert_update r (s, n)") (fastforce simp: insert_update_def split: if_splits)
qed simp

lemma insert_updates_frame:
  "insert_updates valid rs (s, n) = Inr (s', n') \<Longrightarrow>
   s' = s\<lparr> us_rows := us_rows s', us_next_id := us_next_id s' \<rparr>"
proof (induction rs arbitrary: s n)
  case (Cons r rs)
  then have rest: "insert_updates valid rs (insert_update r (s, n)) = Inr (s', n')"
    by (simp split: if_splits)
  show ?case
    using Cons.IH [of "fst (insert_update r (s, n))" "snd (insert_update r (s, n))"] rest
    by (auto simp: insert_update_def split: if_splits)
qed simp

lemma insert_updates_rows:
  "insert_updates valid rs (s, n) = Inr (s', n') \<Longrightarrow>
   \<exists>added. us_rows s' = us_rows s @ added \<and> set (map snd added) \<subseteq> set rs \<and>
     record_key ` set rs \<subseteq> set (map (record_key \<circ> snd) (us_rows s'))"
proof (induction rs arbitrary: s n)
  case (Cons r rs)
  obtain s1 n1 where ins: "insert_update r (s, n) = (s1, n1)" by fastforce
  have rest: "insert_updates valid rs (s1, n1) = Inr (s', n')"
    using Cons.prems by (simp add: ins split: if_splits)
  obtain added where a: "us_rows s' = us_rows s1 @ added" "set (map snd added) \<subseteq> set rs"
    "record_key ` set rs \<subseteq> set (map (record_key \<circ> snd) (us_rows s'))"
    using Cons.IH [OF rest] by blast
  obtain a1 where a1: "us_rows s1 = us_rows s @ a1" "set (map snd a1) \<subseteq> {r}"
    "record_key r \<in> set (map (record_key \<circ> snd) (us_rows s1))"
    using ins by (auto simp: insert_update_def split: if_splits)
  show ?case
    using a a1 by (intro exI [of _ "a1 @ added"]) auto
qed simp

lemma store_counter_table [simp]:
  "us_rows (store_counter kv s) = us_rows s" "us_next_id (store_counter kv s) = us_next_id s"
  "us_generation (store_counter kv s) = us_generation s"
  "us_account_id (store_counter kv s) = us_account_id s"
  "us_runtime_id (store_counter kv s) = us_runtime_id s"
  "us_run_open (store_counter kv s) = us_run_open s"
  "us_db_evicted_capacity (store_counter kv s) = us_db_evicted_capacity s"
  by (induction kv s rule: store_counter.induct; simp add: Let_def)+

lemma fold_counter_table [simp]:
  "us_rows (fold store_counter cs s) = us_rows s"
  "us_next_id (fold store_counter cs s) = us_next_id s"
  "us_generation (fold store_counter cs s) = us_generation s"
  "us_account_id (fold store_counter cs s) = us_account_id s"
  "us_runtime_id (fold store_counter cs s) = us_runtime_id s"
  "us_run_open (fold store_counter cs s) = us_run_open s"
  "us_db_evicted_capacity (fold store_counter cs s) = us_db_evicted_capacity s"
  by (induction cs arbitrary: s) simp_all

lemma store_inv_table:
  "store_inv s' = store_inv s" if "us_rows s' = us_rows s" "us_next_id s' = us_next_id s"
  using that by (simp add: store_inv_def table_ok_def)

text \<open>The stages of an accepted write.\<close>

lemma write_stages:
  assumes "write_update_batch valid recs now cs g rt s = Inr (True, s')" and "store_inv s"
  obtains s1 n s2 pre post where
    "insert_updates valid recs (s, 0) = Inr (s1, n)" "prune_capacity n s1 = Inr s2"
    "s' = (fold store_counter cs s2)\<lparr> us_last_flush_ms := Some now \<rparr>"
    "sort_key row_key (us_rows s1) = pre @ post" "rows_fit post"
    "pre = [] \<or> \<not> rows_fit (last pre # post)"
    "us_rows s2 = filter (\<lambda>row. row \<in> set post) (us_rows s1)" "mset (us_rows s2) = mset post"
    "s2 = s1\<lparr> us_rows := us_rows s2, us_db_evicted_capacity :=
          add_evictions (int (length pre)) (us_db_evicted_capacity s1) \<rparr>"
    "table_ok s1"
proof -
  obtain s1 n where ins: "insert_updates valid recs (s, 0) = Inr (s1, n)"
    using assms(1) by (auto simp: write_update_batch_def split: if_splits sum.splits)
  have ok1: "table_ok s1" using insert_updates_ok [OF ins] assms(2) by (simp add: store_inv_def)
  have "n \<noteq> 0 \<or> rows_fit (us_rows s1)"
    using insert_updates_count [OF ins] assms(2) by (auto simp: store_inv_def)
  from prune_capacity_result [OF ok1 this] obtain pre post s2 where
    p: "sort_key row_key (us_rows s1) = pre @ post" "rows_fit post"
    "pre = [] \<or> \<not> rows_fit (last pre # post)" "prune_capacity n s1 = Inr s2"
    "us_rows s2 = filter (\<lambda>row. row \<in> set post) (us_rows s1)" "mset (us_rows s2) = mset post"
    "s2 = s1\<lparr> us_rows := us_rows s2, us_db_evicted_capacity :=
          add_evictions (int (length pre)) (us_db_evicted_capacity s1) \<rparr>" by blast
  have "s' = (fold store_counter cs s2)\<lparr> us_last_flush_ms := Some now \<rparr>"
    using assms(1) ins p(4) by (auto simp: write_update_batch_def split: if_splits)
  with that ins p ok1 show ?thesis by blast
qed

lemma write_inv:
  assumes "write_update_batch valid recs now cs g rt s = Inr (b, s')" and "store_inv s"
  shows "store_inv s'"
proof (cases b)
  case True
  have w0: "write_update_batch valid recs now cs g rt s = Inr (True, s')" using assms(1) True by simp
  show ?thesis
  proof (rule write_stages [OF w0 assms(2)])
    fix s1 n s2 pre post
    assume w: "s' = (fold store_counter cs s2)\<lparr> us_last_flush_ms := Some now \<rparr>"
      "rows_fit post" "us_rows s2 = filter (\<lambda>row. row \<in> set post) (us_rows s1)"
      "mset (us_rows s2) = mset post"
      and s2: "s2 = s1\<lparr> us_rows := us_rows s2, us_db_evicted_capacity :=
          add_evictions (int (length pre)) (us_db_evicted_capacity s1) \<rparr>"
      and ok: "table_ok s1"
    have "table_ok s2" using filter_table_ok [OF ok] by (subst s2) (simp only: w(3))
    moreover have "rows_fit (us_rows s2)"
      using w(2) rows_total_mset [OF w(4)] mset_eq_length [OF w(4)] by (simp add: rows_fit_def)
    ultimately have "store_inv s2" by (simp add: store_inv_def)
    then have "store_inv (fold store_counter cs s2)"
      using store_inv_table [of "fold store_counter cs s2" s2] by simp
    then show "store_inv s'"
      using store_inv_table [of s' "fold store_counter cs s2"] by (simp add: w(1))
  qed
next
  case False
  then have "s' = s"
    using assms(1) by (auto simp: write_update_batch_def split: if_splits sum.splits)
  then show ?thesis using assms(2) by simp
qed

lemma empty_store_inv: "store_inv empty_store"
  by (simp add: store_inv_def table_ok_def rows_fit_def empty_store_def store_limits)

lemma clear_inv: "store_inv (clear_updates g reason s)"
  by (simp add: store_inv_def table_ok_def rows_fit_def empty_store_def clear_updates_def store_limits)

lemma store_step_inv:
  assumes "store_inv s"
  shows "store_inv (store_step valid op s)"
proof (cases op)
  case (SBind a)
  have "store_inv (s1\<lparr> us_account_id := x \<rparr>) = store_inv s1" for s1 x by (rule store_inv_table) simp_all
  moreover have "store_inv (s\<lparr> us_generation := x \<rparr>) = store_inv s" for x by (rule store_inv_table) simp_all
  ultimately show ?thesis
    using assms by (simp add: SBind committed_def bind_verified_account_def Let_def clear_inv)
next
  case (SReset reason)
  then show ?thesis by (simp add: reset_updates_def Let_def clear_inv)
next
  case (SBegin rt g)
  have "us_rows (snd (begin_update_run rt g s)) = us_rows s"
    "us_next_id (snd (begin_update_run rt g s)) = us_next_id s"
    by (simp_all add: begin_update_run_def Let_def)
  then have "store_inv (snd (begin_update_run rt g s)) = store_inv s" by (rule store_inv_table)
  then show ?thesis using assms by (simp add: SBegin)
next
  case (SEnd rt g)
  have "us_rows (snd (end_update_run rt g s)) = us_rows s"
    "us_next_id (snd (end_update_run rt g s)) = us_next_id s"
    by (simp_all add: end_update_run_def)
  then have "store_inv (snd (end_update_run rt g s)) = store_inv s" by (rule store_inv_table)
  then show ?thesis using assms by (simp add: SEnd)
next
  case (SWrite recs now cs g rt)
  then show ?thesis using assms write_inv [of valid recs now cs g rt s]
    by (simp add: committed_def split: sum.splits)
qed

interpretation store: op_system "store_step valid" store_inv for valid
  by unfold_locales (rule store_step_inv)

interpretation store_rows: bounded_system "store_step valid" store_inv
    "\<lambda>s. length (us_rows s)" "nat MAX_ROWS" for valid
  by unfold_locales (simp add: store_inv_def rows_fit_def store_limits)

section \<open>Properties\<close>

text \<open>
  The retained table stays bounded and duplicate-free. After any sequence of
  transactions of any callers, it holds at most 65,536 rows and at most 64 MiB of payload, no
  update (runtime and sequence) twice, and its ids increase in insertion order.
\<close>

theorem update_store_bounded:
  "let s = run_ops (store_step valid) ops empty_store in
     length (us_rows s) \<le> 65536 \<and>
     (\<Sum>row \<leftarrow> us_rows s. ur_payload_bytes (snd row)) \<le> 64 * 1024 * 1024 \<and>
     distinct (map (\<lambda>row. (ur_runtime_id (snd row), ur_sequence (snd row))) (us_rows s)) \<and>
     sorted_wrt (<) (map fst (us_rows s))"
proof -
  define s where "s = run_ops (store_step valid) ops empty_store"
  have inv: "store_inv s" unfolding s_def by (rule store.run_invar [OF empty_store_inv])
  have "length (us_rows s) \<le> nat MAX_ROWS"
    unfolding s_def by (rule store_rows.run_bounded [OF empty_store_inv])
  moreover have "rows_total (us_rows s) \<le> MAX_PAYLOAD_BYTES" "table_ok s"
    using inv by (simp_all add: store_inv_def rows_fit_def)
  ultimately show ?thesis
    by (simp add: s_def [symmetric] Let_def store_limits table_ok_def rows_total_def
        row_bytes_def [abs_def] record_key_def [abs_def] comp_def)
qed

text \<open>
  Eviction is oldest first and minimal, and the code's assertion about its cutoff never
  fires. An accepted write keeps, of the table with the new rows, exactly a final segment in
  the order of observation time and id; that segment is within both limits, and with the next
  older row it would not be.
\<close>

theorem write_evicts_oldest_minimally:
  "let s = run_ops (store_step valid) ops empty_store;
       result = write_update_batch valid recs now cs g rt s
   in result \<noteq> Inl AssertionError \<and>
      (case (insert_updates valid recs (s, 0), result) of
         (Inr (full, _), Inr (True, s')) \<Rightarrow>
           (\<exists>evicted kept. sort_key row_key (us_rows full) = evicted @ kept \<and>
              us_rows s' = filter (\<lambda>row. row \<in> set kept) (us_rows full) \<and>
              rows_fit kept \<and> (evicted = [] \<or> rows_overflow (last evicted # kept)))
       | _ \<Rightarrow> True)"
proof -
  define s where "s = run_ops (store_step valid) ops empty_store"
  have inv: "store_inv s" unfolding s_def by (rule store.run_invar [OF empty_store_inv])
  let ?w = "write_update_batch valid recs now cs g rt s"
  have noassert: "?w \<noteq> Inl AssertionError"
  proof (cases "insert_updates valid recs (s, 0)")
    case (Inl e)
    have "insert_updates valid rs sn \<noteq> Inl AssertionError" for rs sn
      by (induction rs arbitrary: sn) auto
    with Inl show ?thesis by (auto simp: write_update_batch_def)
  next
    case (Inr sn)
    obtain s1 n where sn: "sn = (s1, n)" by fastforce
    have ins: "insert_updates valid recs (s, 0) = Inr (s1, n)" using Inr sn by simp
    have ok1: "table_ok s1" using insert_updates_ok [OF ins] inv by (simp add: store_inv_def)
    have "n \<noteq> 0 \<or> rows_fit (us_rows s1)"
      using insert_updates_count [OF ins] inv by (auto simp: store_inv_def)
    from prune_capacity_result [OF ok1 this] obtain s2 where "prune_capacity n s1 = Inr s2" by blast
    with ins show ?thesis by (simp add: write_update_batch_def)
  qed
  have "\<exists>evicted kept. sort_key row_key (us_rows full) = evicted @ kept \<and>
      us_rows s' = filter (\<lambda>row. row \<in> set kept) (us_rows full) \<and>
      rows_fit kept \<and> (evicted = [] \<or> rows_overflow (last evicted # kept))"
    if ins: "insert_updates valid recs (s, 0) = Inr (full, n)" and w: "?w = Inr (True, s')" for full n s'
  proof (rule write_stages [OF w inv])
    fix s1 n' s2 pre post
    assume "insert_updates valid recs (s, 0) = Inr (s1, n')"
      "s' = (fold store_counter cs s2)\<lparr> us_last_flush_ms := Some now \<rparr>"
      "sort_key row_key (us_rows s1) = pre @ post" "rows_fit post"
      "pre = [] \<or> \<not> rows_fit (last pre # post)"
      "us_rows s2 = filter (\<lambda>row. row \<in> set post) (us_rows s1)"
    with ins show ?thesis by (auto simp: rows_overflow_iff)
  qed
  with noassert show ?thesis
    by (auto simp: s_def [symmetric] Let_def split: sum.splits prod.splits bool.splits)
qed

text \<open>The counters of a flush are absorbed the second time.\<close>

definition absorbed :: "(ring_stat \<times> int) list \<Rightarrow> UpdateStore \<Rightarrow> bool" where
  "absorbed cs s \<longleftrightarrow> (\<forall>c v. (Counter c, v) \<in> set cs \<longrightarrow>
     (\<exists>p. us_snapshot s c = Some p \<and> v \<le> p))"

lemma counters_absorbed: "absorbed (counters r) (fold store_counter (counters r) s)"
  by (auto simp: absorbed_def counters_def Let_def)

lemma counters_again:
  "fold store_counter (counters r) ((fold store_counter (counters r) s)\<lparr> us_last_flush_ms := t \<rparr>) =
   (fold store_counter (counters r) s)\<lparr> us_last_flush_ms := t \<rparr>"
  by (simp add: counters_def Let_def add_evictions_def)

text \<open>
  Repeating a write is harmless. When the flush task repeats a batch (it was cancelled,
  or saw an error, after the commit), the second write is accepted and changes nothing: no row is
  added, no counter total grows. The exception is a batch whose own rows were evicted for
  capacity at once, which the hypothesis excludes.
\<close>

theorem rewrite_is_idempotent:
  assumes "write_update_batch valid recs now (counters r) g rt
      (run_ops (store_step valid) ops empty_store) = Inr (True, s')"
    and "us_db_evicted_capacity s' =
      us_db_evicted_capacity (run_ops (store_step valid) ops empty_store)"
  shows "write_update_batch valid recs now (counters r) g rt s' = Inr (True, s')"
proof -
  define s where "s = run_ops (store_step valid) ops empty_store"
  have inv: "store_inv s" unfolding s_def by (rule store.run_invar [OF empty_store_inv])
  note w = assms(1) [folded s_def]
  have inv': "store_inv s'" by (rule write_inv [OF w inv])
  show ?thesis
  proof (rule write_stages [OF w inv])
    fix s1 n s2 pre post
    assume ins: "insert_updates valid recs (s, 0) = Inr (s1, n)"
      and s': "s' = (fold store_counter (counters r) s2)\<lparr> us_last_flush_ms := Some now \<rparr>"
      and split: "sort_key row_key (us_rows s1) = pre @ post"
      and s2rows: "us_rows s2 = filter (\<lambda>row. row \<in> set post) (us_rows s1)"
      and s2: "s2 = s1\<lparr> us_rows := us_rows s2, us_db_evicted_capacity :=
          add_evictions (int (length pre)) (us_db_evicted_capacity s1) \<rparr>"
    have frame: "us_db_evicted_capacity s1 = us_db_evicted_capacity s"
      by (subst insert_updates_frame [OF ins]) simp
    have "add_evictions (int (length pre)) (us_db_evicted_capacity s) = us_db_evicted_capacity s"
      using assms(2) s' s2 frame by (metis (no_types, lifting) UpdateStore.select_convs(13)
          UpdateStore.surjective UpdateStore.update_convs(13) fold_counter_table(7)
          UpdateStore.update_convs(14) s_def)
    then have "pre = []" by (cases "us_db_evicted_capacity s") (auto simp: add_evictions_def split: if_splits)
    then have post: "set post = set (us_rows s1)" using split by (metis append_Nil set_sort)
    have rows: "us_rows s' = us_rows s1" by (simp add: s' s2rows post)
    have again: "insert_updates valid recs (s', 0) = Inr (s', 0)"
    proof -
      have "list_all (row_allowed valid) recs"
        by (rule insert_updates_allowed [OF ins])
      moreover have "record_key ` set recs \<subseteq> set (map (record_key \<circ> snd) (us_rows s'))"
        using insert_updates_rows [OF ins] rows by auto
      ultimately show ?thesis
        by (induction recs) (auto simp: insert_update_def)
    qed
    have guards: "\<not> (\<not> is_generation g s \<or> us_runtime_id s \<noteq> Some rt \<or> us_run_open s \<noteq> Some True)"
      "\<not> list_ex (\<lambda>r. ur_runtime_id r \<noteq> rt) recs"
      using w by (auto simp: write_update_batch_def split: if_splits)
    have "us_generation s' = us_generation s \<and> us_account_id s' = us_account_id s \<and>
        us_runtime_id s' = us_runtime_id s \<and> us_run_open s' = us_run_open s"
      unfolding s' by (simp, subst (1 2 3 4) s2, simp, subst (1 2 3 4) insert_updates_frame [OF ins], simp)
    with guards have guards': "\<not> (\<not> is_generation g s' \<or> us_runtime_id s' \<noteq> Some rt \<or> us_run_open s' \<noteq> Some True)"
      by (simp add: is_generation_def)
    have "(fold store_counter (counters r) s')\<lparr> us_last_flush_ms := Some now \<rparr> = s'"
      unfolding s' by (simp add: counters_again)
    moreover have "prune_capacity 0 s' = Inr s'" by (simp add: prune_capacity_def Let_def)
    ultimately show ?thesis
      using guards' guards(2) again unfolding write_update_batch_def by simp
  qed
qed

lemma rewrite_is_idempotent_witness:
  "let s = run_ops (store_step (\<lambda>_. True)) [SBind 7, SBegin ''run'' 1] empty_store;
       r = \<lparr> ur_runtime_id = ''run'', ur_sequence = 3, ur_observed_at_ms = 9, ur_source = ''replay'',
             ur_constructor = ''UpdateShort'', ur_payload_json = ''null'', ur_payload_bytes = 4,
             ur_trace_ids = [] \<rparr>;
       again = write_update_batch (\<lambda>_. True) [r] 10 (counters (new_ring ''run'')) 1 ''run''
   in case again s of
        Inr (True, s') \<Rightarrow> length (us_rows s') = 1 \<and> again s' = Inr (True, s')
      | _ \<Rightarrow> False"
proof -
  define s where "s = run_ops (store_step (\<lambda>_. True)) [SBind 7, SBegin ''run'' 1] empty_store"
  define r where "r = \<lparr> ur_runtime_id = ''run'', ur_sequence = (3 :: nat), ur_observed_at_ms = 9,
    ur_source = ''replay'', ur_constructor = ''UpdateShort'', ur_payload_json = ''null'',
    ur_payload_bytes = 4, ur_trace_ids = [] \<rparr>"
  let ?again = "write_update_batch (\<lambda>_. True) [r] 10 (counters (new_ring ''run'')) 1 ''run''"
  obtain s' where s': "?again s = Inr (True, s')" "us_db_evicted_capacity s' = us_db_evicted_capacity s"
      "length (us_rows s') = 1"
    by (simp add: s_def r_def committed_def bind_verified_account_def begin_update_run_def
        empty_store_def is_generation_def Let_def write_update_batch_def insert_update_def
        row_allowed_def prune_capacity_def rows_total_def row_bytes_def store_limits)
  have "?again s' = Inr (True, s')"
    using rewrite_is_idempotent [where valid = "\<lambda>_. True" and ops = "[SBind 7, SBegin ''run'' 1]"
        and recs = "[r]" and now = 10 and r = "new_ring ''run''" and g = 1 and rt = "''run''"]
      s' by (simp only: s_def)
  with s' show ?thesis by (simp add: Let_def s_def r_def)
qed

lemma write_generation:
  "write_update_batch valid recs now cs g rt s = Inr (b, s') \<Longrightarrow> us_generation s' = us_generation s"
proof (cases b)
  case True
  assume "write_update_batch valid recs now cs g rt s = Inr (b, s')"
  then obtain s1 n s2 where ins: "insert_updates valid recs (s, 0) = Inr (s1, n)"
    and pr: "prune_capacity n s1 = Inr s2"
    and s': "s' = (fold store_counter cs s2)\<lparr> us_last_flush_ms := Some now \<rparr>"
    using True by (auto simp: write_update_batch_def split: if_splits sum.splits)
  have "us_generation s1 = us_generation s" by (subst insert_updates_frame [OF ins]) simp
  moreover have "us_generation s2 = us_generation s1"
    using pr by (auto simp: prune_capacity_def Let_def split: if_splits option.splits)
  ultimately show ?thesis by (simp add: s')
qed (auto simp: write_update_batch_def split: if_splits sum.splits)

interpretation store_generation: monotone_system "store_step valid" "\<lambda>_. True"
    "\<lambda>s. or_zero (us_generation s)" for valid
proof unfold_locales
  fix op s
  show "or_zero (us_generation s) \<le> or_zero (us_generation (store_step valid op s))"
  proof (cases op)
    case (SWrite recs now cs g rt)
    then show ?thesis
      using write_generation [of valid recs now cs g rt s]
      by (auto simp: committed_def split: sum.splits)
  qed (auto simp: committed_def bind_verified_account_def reset_updates_def clear_updates_def
         begin_update_run_def end_update_run_def Let_def empty_store_def)
qed

text \<open>
  A reset fences off everything older. Once the store has been reset for a logout, no batch
  and no run that was bound to a generation from before the reset is ever accepted again, whatever
  other transactions follow.
\<close>

theorem reset_fences_old_generations:
  assumes "g \<le> or_zero (us_generation s)"
  shows "let s2 = run_ops (store_step valid) ops (snd (reset_updates reason s)) in
     write_update_batch valid recs now cs g rt s2 = Inr (False, s2) \<and>
     begin_update_run rt g s2 = (False, s2) \<and> end_update_run rt g s2 = (False, s2)"
proof -
  define s1 where "s1 = snd (reset_updates reason s)"
  define s2 where "s2 = run_ops (store_step valid) ops s1"
  have "or_zero (us_generation s1) \<le> or_zero (us_generation s2)"
    unfolding s2_def by (rule store_generation.run_level) (simp add: list_all_iff)
  moreover have "or_zero (us_generation s1) = or_zero (us_generation s) + 1"
    by (simp add: s1_def reset_updates_def Let_def clear_updates_def)
  ultimately have "us_generation s2 \<noteq> Some g" using assms by auto
  then have "\<not> is_generation g s2" by (simp add: is_generation_def)
  then show ?thesis
    by (simp add: s1_def [symmetric] s2_def [symmetric] write_update_batch_def begin_update_run_def
        end_update_run_def)
qed

lemma reset_fences_old_generations_witness:
  "let s = run_ops (store_step (\<lambda>_. True)) [SBind 7] empty_store;
       s2 = run_ops (store_step (\<lambda>_. True)) [SBind 8] (snd (reset_updates ''logout'' s))
   in us_generation s = Some 1 \<and> us_generation s2 = Some 2 \<and>
      write_update_batch (\<lambda>_. True) [] 10 [] 1 ''run'' s2 = Inr (False, s2)"
proof -
  let ?s = "run_ops (store_step (\<lambda>_. True)) [SBind 7] empty_store"
  let ?s2 = "run_ops (store_step (\<lambda>_. True)) [SBind 8] (snd (reset_updates ''logout'' ?s))"
  have gens: "us_generation ?s = Some 1" "us_generation ?s2 = Some 2"
    by (simp_all add: committed_def bind_verified_account_def reset_updates_def clear_updates_def
        empty_store_def Let_def)
  have "1 \<le> or_zero (us_generation ?s)" unfolding gens by simp
  from reset_fences_old_generations [OF this, where ops = "[SBind 8]" and reason = "''logout''"
      and valid = "\<lambda>_. True" and recs = "[]" and now = 10 and cs = "[]" and rt = "''run''"]
  show ?thesis using gens by (simp add: Let_def)
qed

end
