(* ===== verification/Update_Flow.thy ===== *)
theory Update_Flow
  imports Update_Store
begin

text \<open>
  The update diagnostics as a whole: the ring (\<^verbatim>\<open>telegram_update_ring.py\<close>), the store
  (\<^verbatim>\<open>telegram_update_store.py\<close>) and the flush task of \<^verbatim>\<open>runtime_observations.py\<close> that binds
  accounts, resets after a logout and moves batches from one to the other. The task awaits
  each transaction; meanwhile the intake and the transport call the ring. \<open>flow_step\<close> is
  one uninterrupted stretch of either side: an event of the ring, the start of a lifecycle
  round or a flush, the commit of the running transaction, its failure, the task's
  resumption with the result, its cancellation, and the clean end of the run.
\<close>

section \<open>The flush task\<close>

datatype job =
    JReset nat
  | JBind int nat
  | JBegin int nat nat
  | JWrite "UpdateRecord list" "(ring_stat \<times> int) list" nat

datatype job_result = RUnit | RGen nat bool | RBool bool | RError

datatype phase = Idle | Running job | Finished job job_result | Stopped

record Flow =
  fl_ring :: Ring
  fl_store :: UpdateStore
  fl_phase :: phase
  fl_ring_counters :: "(ring_stat \<times> int) list"
  fl_ring_failed :: bool

definition start_flow :: "string \<Rightarrow> UpdateStore \<Rightarrow> Flow" where
  "start_flow runtime store = \<lparr> fl_ring = new_ring runtime, fl_store = store, fl_phase = Idle,
     fl_ring_counters = [], fl_ring_failed = False \<rparr>"

text \<open>\<^verbatim>\<open>_update_ring_lifecycle\<close> up to its first await.\<close>

definition begin_lifecycle :: "Flow \<Rightarrow> Flow" where
  "begin_lifecycle f = (let ring = fl_ring f in
     if rg_completed_logout_serial ring < rg_logout_serial ring
     then f\<lparr> fl_phase := Running (JReset (rg_logout_serial ring)) \<rparr>
     else case (rg_generation ring, rg_desired_account ring) of
       (None, Some account) \<Rightarrow> f\<lparr> fl_phase := Running (JBind account (rg_request_revision ring)) \<rparr>
     | _ \<Rightarrow> f)"

text \<open>\<^verbatim>\<open>_flush_updates\<close> up to its await.\<close>

definition begin_flush :: "Flow \<Rightarrow> Flow" where
  "begin_flush f = (case rg_generation (fl_ring f) of
     None \<Rightarrow> f
   | Some generation \<Rightarrow>
       (let (ring, records) = peek_batch 32 (4 * 1024 * 1024) (fl_ring f); cs = counters ring in
        if records = [] \<and> cs = fl_ring_counters f then f\<lparr> fl_ring := ring \<rparr>
        else f\<lparr> fl_ring := ring, fl_phase := Running (JWrite records cs generation) \<rparr>))"

text \<open>The transaction a job runs in the writer thread.\<close>

definition commit_job :: "(string \<Rightarrow> bool) \<Rightarrow> int \<Rightarrow> string \<Rightarrow> job \<Rightarrow> UpdateStore \<Rightarrow> job_result \<times> UpdateStore" where
  "commit_job valid now_ms runtime job s = (case job of
     JReset serial \<Rightarrow> (RUnit, snd (reset_updates ''logout'' s))
   | JBind account revision \<Rightarrow>
       (case bind_verified_account account s of
          Inl e \<Rightarrow> (RError, s)
        | Inr ((generation, changed), s') \<Rightarrow> (RGen generation changed, s'))
   | JBegin account revision generation \<Rightarrow>
       (case begin_update_run runtime generation s of (ok, s') \<Rightarrow> (RBool ok, s'))
   | JWrite records cs generation \<Rightarrow>
       (case write_update_batch valid records now_ms cs generation runtime s of
          Inl e \<Rightarrow> (RError, s)
        | Inr (accepted, s') \<Rightarrow> (RBool accepted, s')))"

definition fail_flow :: "Flow \<Rightarrow> Flow" where
  "fail_flow f = f\<lparr> fl_ring_failed := True, fl_phase := Idle \<rparr>"

text \<open>The rest of the two methods after an await.\<close>

fun resume_job :: "job \<Rightarrow> job_result \<Rightarrow> Flow \<Rightarrow> Flow" where
  "resume_job (JReset serial) RUnit f =
     f\<lparr> fl_ring := (fl_ring f)\<lparr> rg_completed_logout_serial := serial \<rparr>, fl_phase := Idle \<rparr>"
| "resume_job (JBind account revision) (RGen generation changed) f =
     (let ring = (if changed then reset (fl_ring f) else fl_ring f) in
      if revision \<noteq> rg_request_revision ring then f\<lparr> fl_ring := ring, fl_phase := Idle \<rparr>
      else f\<lparr> fl_ring := ring, fl_phase := Running (JBegin account revision generation) \<rparr>)"
| "resume_job (JBegin account revision generation) (RBool True) f =
     f\<lparr> fl_ring := complete_bind account revision generation (fl_ring f), fl_phase := Idle \<rparr>"
| "resume_job (JWrite records cs generation) (RBool True) f =
     f\<lparr> fl_ring := ack_batch records (fl_ring f), fl_ring_failed := False,
        fl_ring_counters := cs, fl_phase := Idle \<rparr>"
| "resume_job (JWrite records cs generation) (RBool False) f =
     f\<lparr> fl_ring := discard_batch records (fl_ring f), fl_ring_failed := True, fl_phase := Idle \<rparr>"
| "resume_job (JWrite records cs generation) r f =
     fail_flow (f\<lparr> fl_ring := release_batch (fl_ring f) \<rparr>)"
| "resume_job job r f = fail_flow f"

definition cancel_job :: "job \<Rightarrow> Flow \<Rightarrow> Flow" where
  "cancel_job job f = (case job of
     JWrite records cs generation \<Rightarrow>
       f\<lparr> fl_ring := release_batch (fl_ring f), fl_phase := Stopped \<rparr>
   | _ \<Rightarrow> f\<lparr> fl_phase := Stopped \<rparr>)"

text \<open>\<^verbatim>\<open>_end_update_run\<close>, after the flush task has ended.\<close>

definition end_run :: "Flow \<Rightarrow> Flow" where
  "end_run f = (case rg_generation (fl_ring f) of
     Some generation \<Rightarrow> (if fl_ring_failed f then f
       else f\<lparr> fl_store := snd (end_update_run (rg_runtime_id (fl_ring f)) generation (fl_store f)) \<rparr>)
   | None \<Rightarrow> f)"

section \<open>Interleavings\<close>

datatype flow_event =
    Capture "(string \<times> string) option" string int
  | Trace nat string
  | Verified int
  | Logout
  | Lifecycle
  | Flush
  | Commit "string \<Rightarrow> bool" int
  | Failure
  | Resume
  | Cancel
  | Finish
  | EndRun

fun ring_event :: "flow_event \<Rightarrow> ring_op option" where
  "ring_event (Capture v src t) = Some (RCapture v src t)"
| "ring_event (Trace n t) = Some (RTrace n t)"
| "ring_event (Verified a) = Some (RVerified a)"
| "ring_event Logout = Some RLogout"
| "ring_event e = None"

definition flow_step :: "flow_event \<Rightarrow> Flow \<Rightarrow> Flow" where
  "flow_step e f = (case ring_event e of
     Some op \<Rightarrow> f\<lparr> fl_ring := ring_step op (fl_ring f) \<rparr>
   | None \<Rightarrow> (case (e, fl_phase f) of
       (Lifecycle, Idle) \<Rightarrow> begin_lifecycle f
     | (Flush, Idle) \<Rightarrow> begin_flush f
     | (Finish, Idle) \<Rightarrow> f\<lparr> fl_phase := Stopped \<rparr>
     | (Commit valid now, Running job) \<Rightarrow>
         (case commit_job valid now (rg_runtime_id (fl_ring f)) job (fl_store f) of
            (r, s) \<Rightarrow> f\<lparr> fl_store := s, fl_phase := Finished job r \<rparr>)
     | (Failure, Running job) \<Rightarrow> f\<lparr> fl_phase := Finished job RError \<rparr>
     | (Failure, Finished job r) \<Rightarrow> f\<lparr> fl_phase := Finished job RError \<rparr>
     | (Resume, Finished job r) \<Rightarrow> resume_job job r f
     | (Cancel, Idle) \<Rightarrow> f\<lparr> fl_phase := Stopped \<rparr>
     | (Cancel, Running job) \<Rightarrow> cancel_job job f
     | (Cancel, Finished job r) \<Rightarrow> cancel_job job f
     | (EndRun, Stopped) \<Rightarrow> end_run f
     | _ \<Rightarrow> f))"

section \<open>Binding: the ring's generation is the store's\<close>

definition bound :: "string \<Rightarrow> nat \<Rightarrow> UpdateStore \<Rightarrow> bool" where
  "bound rt g s \<longleftrightarrow> is_generation g s \<and> us_runtime_id s = Some rt \<and> us_run_open s = Some True"

text \<open>What holds at each point of the flush task's program.\<close>

fun phase_ok :: "string \<Rightarrow> phase \<Rightarrow> Ring \<Rightarrow> UpdateStore \<Rightarrow> bool" where
  "phase_ok rt (Running (JReset n)) r s \<longleftrightarrow> rg_generation r = None \<and> n \<le> rg_logout_serial r"
| "phase_ok rt (Finished (JReset n) res) r s \<longleftrightarrow> rg_generation r = None \<and> n \<le> rg_logout_serial r"
| "phase_ok rt (Running (JBind a v)) r s \<longleftrightarrow> rg_generation r = None"
| "phase_ok rt (Finished (JBind a v) res) r s \<longleftrightarrow> rg_generation r = None \<and>
     (case res of RGen g c \<Rightarrow> is_generation g s | _ \<Rightarrow> res = RError)"
| "phase_ok rt (Running (JBegin a v g)) r s \<longleftrightarrow> rg_generation r = None \<and> is_generation g s"
| "phase_ok rt (Finished (JBegin a v g) res) r s \<longleftrightarrow> rg_generation r = None \<and>
     (res = RError \<or> res = RBool True \<and> bound rt g s)"
| "phase_ok rt (Running (JWrite recs cs g)) r s \<longleftrightarrow> bound rt g s"
| "phase_ok rt (Finished (JWrite recs cs g) res) r s \<longleftrightarrow> bound rt g s \<and> (res = RError \<or> res = RBool True)"
| "phase_ok rt phase r s \<longleftrightarrow> True"

definition flow_inv :: "string \<Rightarrow> Flow \<Rightarrow> bool" where
  "flow_inv rt f \<longleftrightarrow> ring_inv (fl_ring f) \<and> rg_runtime_id (fl_ring f) = rt \<and>
     rg_completed_logout_serial (fl_ring f) \<le> rg_logout_serial (fl_ring f) \<and>
     (rg_generation (fl_ring f) \<noteq> None \<longrightarrow>
        rg_completed_logout_serial (fl_ring f) = rg_logout_serial (fl_ring f)) \<and>
     (fl_phase f \<noteq> Stopped \<longrightarrow>
        phase_ok rt (fl_phase f) (fl_ring f) (fl_store f) \<and>
        (us_runtime_id (fl_store f) = Some rt \<longrightarrow> us_run_open (fl_store f) = Some True) \<and>
        (\<forall>g. rg_generation (fl_ring f) = Some g \<longrightarrow> bound rt g (fl_store f)))"

text \<open>The binding fields of the ring, which all but four of its methods leave alone.\<close>

definition binding :: "Ring \<Rightarrow> string \<times> nat option \<times> nat \<times> nat" where
  "binding r = (rg_runtime_id r, rg_generation r, rg_logout_serial r, rg_completed_logout_serial r)"

lemma count_by_binding [simp]: "binding (count_by c n r) = binding r"
  by (simp add: binding_def count_by_def)

lemma drop_binding [simp]: "binding (drop_oldest c r) = binding r"
  by (simp add: drop_oldest_def binding_def count_by_def split: list.splits)

lemma binding_frame [simp]:
  "binding (r\<lparr> rg_entries := es \<rparr>) = binding r" "binding (r\<lparr> rg_bytes := b \<rparr>) = binding r"
  "binding (r\<lparr> rg_sequence := n \<rparr>) = binding r" "binding (r\<lparr> rg_account_id := a \<rparr>) = binding r"
  "binding (r\<lparr> rg_inflight_through := n \<rparr>) = binding r"
  "binding (r\<lparr> rg_inflight_bytes := b \<rparr>) = binding r"
  "binding (r\<lparr> rg_orphaned_bytes := b \<rparr>) = binding r"
  "binding (r\<lparr> rg_desired_account := a \<rparr>) = binding r"
  "binding (r\<lparr> rg_request_revision := n \<rparr>) = binding r"
  by (simp_all add: binding_def)

lemma make_room_binding: "binding (fst (make_room sz r)) = binding r"
  by (induction sz r rule: make_room.induct) (subst make_room.simps, simp)

lemma capture_binding: "binding (fst (capture v src t r)) = binding r"
proof -
  have "binding r' = binding r"
    if "make_room sz (r\<lparr> rg_sequence := n \<rparr>) = (r', ok)" for sz n r' ok
    using make_room_binding [of sz "r\<lparr> rg_sequence := n \<rparr>"] that by simp
  then show ?thesis
    by (auto simp: capture_def Let_def split: option.splits prod.splits bool.splits)
qed

lemma other_binding:
  "binding (associate_trace n t r) = binding r" "binding (reset r) = binding r"
  "binding (fst (peek_batch k b r)) = binding r" "binding (ack_batch recs r) = binding r"
  "binding (release_batch r) = binding r" "binding (discard_batch recs r) = binding r"
  by (simp_all add: associate_trace_def reset_def peek_batch_def ack_eq release_batch_def
      discard_batch_def Let_def)

text \<open>An event of the ring may only unbind it, and logouts only accumulate.\<close>

lemma ring_event_binding:
  assumes "ring_event e = Some op"
  shows "rg_runtime_id (ring_step op r) = rg_runtime_id r \<and>
     rg_generation (ring_step op r) \<in> {None, rg_generation r} \<and>
     rg_logout_serial r \<le> rg_logout_serial (ring_step op r) \<and>
     rg_completed_logout_serial (ring_step op r) = rg_completed_logout_serial r \<and>
     (rg_generation (ring_step op r) \<noteq> None \<longrightarrow> rg_logout_serial (ring_step op r) = rg_logout_serial r)"
proof (cases e)
  case (Capture v src t)
  with assms show ?thesis using capture_binding [of v src t r] by (auto simp: binding_def)
next
  case (Trace n t)
  with assms show ?thesis using other_binding(1) [of n t r] by (auto simp: binding_def)
next
  case (Verified a)
  with assms show ?thesis
    by (auto simp: request_verified_account_def reset_def count_by_def Let_def)
next
  case Logout
  with assms show ?thesis by (auto simp: request_logout_def reset_def count_by_def Let_def)
qed (use assms in auto)

lemma phase_ok_unbind:
  assumes "phase_ok rt p r s" "rg_generation r' \<in> {None, rg_generation r}"
    "rg_logout_serial r \<le> rg_logout_serial r'"
  shows "phase_ok rt p r' s"
  using assms by (induction rt p r s rule: phase_ok.induct) (auto split: job_result.splits)

lemma ring_event_inv:
  assumes "ring_event e = Some op" and "flow_inv rt f"
  shows "flow_inv rt (flow_step e f)"
proof -
  note b = ring_event_binding [OF assms(1), of "fl_ring f"]
  have "phase_ok rt (fl_phase f) (ring_step op (fl_ring f)) (fl_store f)" if "fl_phase f \<noteq> Stopped"
    using phase_ok_unbind [of rt "fl_phase f" "fl_ring f" "fl_store f"] assms(2) b that
    by (auto simp: flow_inv_def)
  then show ?thesis
    using assms(2) b ring_step_inv [of "fl_ring f" op]
    by (auto simp: flow_step_def assms(1) flow_inv_def)
qed

lemma write_bound:
  assumes "write_update_batch valid recs now cs g rt s = Inr (b, s')"
  shows "bound rt' g' s' = bound rt' g' s \<and> us_runtime_id s' = us_runtime_id s \<and>
     us_run_open s' = us_run_open s \<and> (bound rt g s \<longrightarrow> b)"
proof (cases b)
  case True
  obtain s1 n s2 where ins: "insert_updates valid recs (s, 0) = Inr (s1, n)"
    and pr: "prune_capacity n s1 = Inr s2"
    and s': "s' = (fold store_counter cs s2)\<lparr> us_last_flush_ms := Some now \<rparr>"
    using assms True by (auto simp: write_update_batch_def split: if_splits sum.splits)
  let ?p = "\<lambda>s. (us_generation s, us_account_id s, us_runtime_id s, us_run_open s)"
  have "?p s1 = ?p s" by (subst (1 2 3 4) insert_updates_frame [OF ins]) simp
  moreover have "?p s2 = ?p s1"
    using pr by (auto simp: prune_capacity_def Let_def split: if_splits option.splits)
  ultimately show ?thesis using True by (simp add: s' bound_def is_generation_def)
next
  case False
  then show ?thesis
    using assms by (auto simp: write_update_batch_def bound_def split: if_splits sum.splits)
qed

lemma begin_bound:
  assumes "begin_update_run rt g s = (b, s')" "is_generation g s"
    and "us_runtime_id s = Some rt \<longrightarrow> us_run_open s = Some True"
  shows "b \<and> bound rt g s'"
  using assms by (auto simp: begin_update_run_def bound_def is_generation_def Let_def split: if_splits)

lemma or_zero_Some: "0 < or_zero (x :: nat option) \<Longrightarrow> x = Some (or_zero x)"
  by (cases x) auto

lemma commit_inv:
  assumes inv: "flow_inv rt f" and ph: "fl_phase f = Running job"
    and c: "commit_job valid now rt job (fl_store f) = (res, s)"
  shows "flow_inv rt (f\<lparr> fl_store := s, fl_phase := Finished job res \<rparr>)"
proof (cases job)
  case (JReset n)
  then show ?thesis
    using assms by (auto simp: flow_inv_def commit_job_def reset_updates_def clear_updates_def
        empty_store_def Let_def)
next
  case (JBind a v)
  show ?thesis
  proof (cases "bind_verified_account a (fl_store f)")
    case (Inl e)
    then show ?thesis using assms by (auto simp: JBind flow_inv_def commit_job_def)
  next
    case (Inr gcs)
    then show ?thesis
      using assms by (auto simp: JBind flow_inv_def commit_job_def bind_verified_account_def
          clear_updates_def empty_store_def is_generation_def Let_def intro: or_zero_Some
          split: if_splits)
  qed
next
  case (JBegin a v g)
  obtain b s' where be: "begin_update_run rt g (fl_store f) = (b, s')" by fastforce
  have "b \<and> bound rt g s'"
    using begin_bound [OF be] inv ph by (auto simp: flow_inv_def JBegin)
  then show ?thesis
    using assms be by (auto simp: JBegin flow_inv_def commit_job_def bound_def)
next
  case (JWrite recs cs g)
  show ?thesis
  proof (cases "write_update_batch valid recs now cs g rt (fl_store f)")
    case (Inl e)
    then show ?thesis using assms by (auto simp: JWrite flow_inv_def commit_job_def)
  next
    case (Inr bs)
    obtain b s' where bs: "bs = (b, s')" by (cases bs)
    note w = write_bound [OF Inr [unfolded bs]]
    have "bound rt g (fl_store f)" using inv ph by (auto simp: flow_inv_def JWrite)
    then show ?thesis
      using assms w Inr bs by (auto simp: JWrite flow_inv_def commit_job_def)
  qed
qed

lemma resume_inv:
  assumes inv: "flow_inv rt f" and ph: "fl_phase f = Finished job res"
  shows "flow_inv rt (resume_job job res f)"
proof -
  have bind: "rg_generation (reset r) = rg_generation r"
    "rg_generation (ack_batch recs r) = rg_generation r"
    "rg_generation (release_batch r) = rg_generation r"
    "rg_runtime_id (reset r) = rg_runtime_id r" "rg_runtime_id (ack_batch recs r) = rg_runtime_id r"
    "rg_runtime_id (release_batch r) = rg_runtime_id r"
    "rg_logout_serial (reset r) = rg_logout_serial r"
    "rg_logout_serial (ack_batch recs r) = rg_logout_serial r"
    "rg_logout_serial (release_batch r) = rg_logout_serial r"
    "rg_completed_logout_serial (reset r) = rg_completed_logout_serial r"
    "rg_completed_logout_serial (ack_batch recs r) = rg_completed_logout_serial r"
    "rg_completed_logout_serial (release_batch r) = rg_completed_logout_serial r" for r recs
    using other_binding [where r = r] by (auto simp: binding_def)
  note keep = bind reset_inv ack_inv release_inv
  show ?thesis
  proof (cases job)
    case (JReset n)
    then show ?thesis
      using inv ph by (cases res) (auto simp: flow_inv_def fail_flow_def)
  next
    case (JBind a v)
    then show ?thesis
      using inv ph by (cases res) (auto simp: flow_inv_def fail_flow_def Let_def keep)
  next
    case (JBegin a v g)
    then consider "res = RError" | "res = RBool True" "bound rt g (fl_store f)"
      using inv ph by (auto simp: flow_inv_def)
    then show ?thesis
      using inv ph JBegin
      by cases (auto simp: flow_inv_def fail_flow_def complete_bind_def)
  next
    case (JWrite recs cs g)
    then have "res = RError \<or> res = RBool True" using inv ph by (auto simp: flow_inv_def)
    then show ?thesis
      using inv ph JWrite by (auto simp: flow_inv_def fail_flow_def keep)
  qed
qed

lemma peek_flow_inv:
  assumes "flow_inv rt f" and "peek_batch k b (fl_ring f) = (r, recs)"
  shows "ring_inv r" "binding r = binding (fl_ring f)"
  using assms peek_inv [of "fl_ring f" k b] other_binding(3) [of k b "fl_ring f"]
  by (simp_all add: flow_inv_def)

lemma idle_inv:
  assumes inv: "flow_inv rt f" and ph: "fl_phase f = Idle"
  shows "flow_inv rt (begin_lifecycle f)" "flow_inv rt (begin_flush f)"
proof -
  show "flow_inv rt (begin_flush f)"
  proof (cases "rg_generation (fl_ring f)")
    case None
    then show ?thesis using inv by (simp add: begin_flush_def)
  next
    case (Some g)
    obtain r recs where peek: "peek_batch 32 4194304 (fl_ring f) = (r, recs)" by fastforce
    note p = peek_flow_inv [OF inv peek]
    have "bound rt g (fl_store f)" using inv ph Some by (simp add: flow_inv_def)
    then show ?thesis
      using inv ph p by (auto simp: begin_flush_def Some peek flow_inv_def binding_def Let_def)
  qed
  show "flow_inv rt (begin_lifecycle f)"
    using inv ph
    by (auto simp: begin_lifecycle_def flow_inv_def Let_def split: option.splits)
qed

lemma flow_step_inv: "flow_inv rt f \<Longrightarrow> flow_inv rt (flow_step e f)"
proof (cases "ring_event e")
  case (Some op)
  then show "flow_inv rt f \<Longrightarrow> ?thesis" by (rule ring_event_inv)
next
  case None
  assume inv: "flow_inv rt f"
  have stop: "flow_inv rt (f\<lparr> fl_phase := Stopped \<rparr>)" using inv by (simp add: flow_inv_def)
  have cancel: "flow_inv rt (cancel_job job f)" for job
    using inv other_binding(5) [of "fl_ring f"] release_inv [of "fl_ring f"]
    by (auto simp: cancel_job_def flow_inv_def binding_def split: job.splits)
  have fail: "flow_inv rt (f\<lparr> fl_phase := Finished job RError \<rparr>)"
    if "fl_phase f = Running job \<or> fl_phase f = Finished job r" for job r
    using inv that by (cases job) (auto simp: flow_inv_def)
  have commit: "flow_inv rt (case commit_job valid now (rg_runtime_id (fl_ring f)) job (fl_store f) of
      (r, s) \<Rightarrow> f\<lparr> fl_store := s, fl_phase := Finished job r \<rparr>)"
    if "fl_phase f = Running job" for job valid now
    using commit_inv [OF inv that] inv by (auto simp: flow_inv_def split: prod.splits)
  have ended: "flow_inv rt (end_run f)" if "fl_phase f = Stopped"
    using inv that by (simp add: end_run_def flow_inv_def split: option.splits)
  show ?thesis
    using None idle_inv [OF inv] resume_inv [OF inv] stop cancel fail commit ended inv
    by (cases e; cases "fl_phase f") (simp_all add: flow_step_def)
qed

interpretation flow: op_system flow_step "flow_inv rt" for rt
  by unfold_locales (rule flow_step_inv)

lemma start_flow_inv:
  assumes "us_runtime_id s0 \<noteq> Some rt"
  shows "flow_inv rt (start_flow rt s0)"
  using assms new_ring_inv by (simp add: flow_inv_def start_flow_def new_ring_def)

text \<open>
  A bound ring can always write. Start the daemon, under its fresh runtime id, on any
  store, and interleave captures, account verifications, logouts, transaction failures and
  the flush task in any way: whenever the ring holds a generation, the store has that
  generation, a verified account and an open run of this runtime, so the store never refuses
  a batch (the refusal branch of the flush, with its loss of records, is never taken).
\<close>

theorem bound_writes_never_refused:
  assumes "us_runtime_id s0 \<noteq> Some rt"
  shows "let f = run_ops flow_step events (start_flow rt s0) in
     (case fl_phase f of
        Finished (JWrite records cs g) r \<Rightarrow> r \<noteq> RBool False
      | Stopped \<Rightarrow> True
      | _ \<Rightarrow> (case rg_generation (fl_ring f) of
          Some g \<Rightarrow> us_generation (fl_store f) = Some g \<and> us_account_id (fl_store f) \<noteq> None \<and>
             us_runtime_id (fl_store f) = Some rt \<and> us_run_open (fl_store f) = Some True
        | None \<Rightarrow> True))"
proof -
  define f where "f = run_ops flow_step events (start_flow rt s0)"
  have inv: "flow_inv rt f"
    unfolding f_def by (rule flow.run_invar [OF start_flow_inv [OF assms]])
  have b: "us_generation (fl_store f) = Some g \<and> us_account_id (fl_store f) \<noteq> None \<and>
      us_runtime_id (fl_store f) = Some rt \<and> us_run_open (fl_store f) = Some True"
    if "rg_generation (fl_ring f) = Some g" "fl_phase f \<noteq> Stopped" for g
    using inv that by (auto simp: flow_inv_def bound_def is_generation_def)
  have w: "r \<noteq> RBool False" if "fl_phase f = Finished (JWrite records cs g) r" for records cs g r
    using inv that by (auto simp: flow_inv_def)
  show ?thesis
    using b w unfolding f_def [symmetric] Let_def
    by (cases "fl_phase f"; cases "rg_generation (fl_ring f)") (auto split: job.split)
qed

section \<open>Logout erases\<close>

definition fresh :: "string \<Rightarrow> nat \<Rightarrow> UpdateRecord \<Rightarrow> bool" where
  "fresh rt m r \<longleftrightarrow> ur_runtime_id r = rt \<and> m < ur_sequence r"

definition erased :: "string \<Rightarrow> nat \<Rightarrow> UpdateStore \<Rightarrow> bool" where
  "erased rt m s \<longleftrightarrow> (\<forall>row \<in> set (us_rows s). fresh rt m (snd row))"

fun phase_erased :: "string \<Rightarrow> nat \<Rightarrow> nat \<Rightarrow> phase \<Rightarrow> Ring \<Rightarrow> UpdateStore \<Rightarrow> bool" where
  "phase_erased rt m n (Finished (JReset k) RUnit) r s \<longleftrightarrow> (n \<le> k \<longrightarrow> erased rt m s)"
| "phase_erased rt m n (Running (JWrite recs cs g)) r s \<longleftrightarrow>
     list_all (fresh rt m) recs \<or> rg_completed_logout_serial r < n"
| "phase_erased rt m n (Finished (JWrite recs cs g) res) r s \<longleftrightarrow>
     list_all (fresh rt m) recs \<or> rg_completed_logout_serial r < n"
| "phase_erased rt m n phase r s \<longleftrightarrow> True"

definition erase_inv :: "string \<Rightarrow> nat \<Rightarrow> nat \<Rightarrow> Flow \<Rightarrow> bool" where
  "erase_inv rt m n f \<longleftrightarrow> ring_inv (fl_ring f) \<and> rg_runtime_id (fl_ring f) = rt \<and>
     m \<le> rg_sequence (fl_ring f) \<and> (\<forall>e \<in> set (rg_entries (fl_ring f)). m < en_sequence e) \<and>
     (n \<le> rg_completed_logout_serial (fl_ring f) \<longrightarrow> erased rt m (fl_store f)) \<and>
     phase_erased rt m n (fl_phase f) (fl_ring f) (fl_store f)"

text \<open>Ring methods keep the part of the invariant about the ring.\<close>

definition ring_erased :: "string \<Rightarrow> nat \<Rightarrow> Ring \<Rightarrow> bool" where
  "ring_erased rt m r \<longleftrightarrow> ring_inv r \<and> rg_runtime_id r = rt \<and> m \<le> rg_sequence r \<and>
     (\<forall>e \<in> set (rg_entries r). m < en_sequence e)"

lemma runtime_constant: "rg_runtime_id (ring_step op r) = rg_runtime_id r"
proof (cases op)
  case (RCapture v src t)
  then show ?thesis using capture_binding [of v src t r] by (simp add: binding_def)
next
  case (RVerified a)
  then show ?thesis by (simp add: request_verified_account_def reset_def Let_def)
next
  case RLogout
  then show ?thesis by (simp add: request_logout_def reset_def Let_def)
next
  case (RBind a v g)
  then show ?thesis by (simp add: complete_bind_def)
qed (use other_binding [where r = r] in \<open>auto simp: binding_def\<close>)

lemma ring_step_erased: "ring_erased rt m r \<Longrightarrow> ring_erased rt m (ring_step op r)"
proof -
  assume r: "ring_erased rt m r"
  have "m < s" if "s \<in> set (map en_sequence (rg_entries (ring_step op r)))" for s
    using step_seqs [OF _ that] r by (fastforce simp: ring_erased_def)
  then have "\<forall>e \<in> set (rg_entries (ring_step op r)). m < en_sequence e" by simp
  with r show ?thesis
    by (simp add: ring_erased_def ring_step_inv runtime_constant captures_sequence)
qed

lemma insert_updates_erased:
  assumes "insert_updates valid rs (s, k) = Inr (s', k')" "erased rt m s" "list_all (fresh rt m) rs"
  shows "erased rt m s'"
proof -
  obtain added where "us_rows s' = us_rows s @ added" "set (map snd added) \<subseteq> set rs"
    using insert_updates_rows [OF assms(1)] by blast
  with assms(2,3) show ?thesis by (auto simp: erased_def list_all_iff)
qed

lemma write_erased:
  assumes "write_update_batch valid recs now cs g rt' s = Inr (b, s')" "erased rt m s"
    "list_all (fresh rt m) recs"
  shows "erased rt m s'"
proof (cases b)
  case True
  obtain s1 k s2 where ins: "insert_updates valid recs (s, 0) = Inr (s1, k)"
    and pr: "prune_capacity k s1 = Inr s2"
    and s': "s' = (fold store_counter cs s2)\<lparr> us_last_flush_ms := Some now \<rparr>"
    using assms(1) True by (auto simp: write_update_batch_def split: if_splits sum.splits)
  have "set (us_rows s2) \<subseteq> set (us_rows s1)"
    using pr by (auto simp: prune_capacity_def Let_def split: if_splits option.splits)
  then show ?thesis
    using insert_updates_erased [OF ins assms(2,3)] by (auto simp: s' erased_def)
next
  case False
  then show ?thesis
    using assms by (auto simp: write_update_batch_def split: if_splits sum.splits)
qed

text \<open>One job of the flush task, seen by the logout with serial \<open>n\<close>.\<close>

lemma commit_erased:
  assumes inv: "erase_inv rt m n f" and ph: "fl_phase f = Running job"
    and c: "commit_job valid now rt job (fl_store f) = (res, s)"
  shows "erase_inv rt m n (f\<lparr> fl_store := s, fl_phase := Finished job res \<rparr>)"
proof (cases job)
  case (JReset k)
  then show ?thesis
    using assms by (auto simp: erase_inv_def commit_job_def reset_updates_def clear_updates_def
        empty_store_def erased_def Let_def)
next
  case (JBind a v)
  have "erased rt m s" if "erased rt m (fl_store f)"
    using that c by (auto simp: JBind commit_job_def bind_verified_account_def clear_updates_def
        empty_store_def erased_def Let_def split: if_splits)
  then show ?thesis using inv by (cases res) (auto simp: JBind erase_inv_def)
next
  case (JBegin a v g)
  have "erased rt m s" if "erased rt m (fl_store f)"
    using that c by (auto simp: JBegin commit_job_def begin_update_run_def erased_def Let_def
        split: if_splits prod.splits)
  then show ?thesis using inv by (auto simp: JBegin erase_inv_def)
next
  case (JWrite recs cs g)
  have "erased rt m s" if "erased rt m (fl_store f)" "list_all (fresh rt m) recs"
    using that c write_erased by (auto simp: JWrite commit_job_def split: sum.splits)
  moreover have "list_all (fresh rt m) recs \<or> rg_completed_logout_serial (fl_ring f) < n"
    using inv ph by (simp add: JWrite erase_inv_def)
  ultimately show ?thesis using inv ph by (auto simp: JWrite erase_inv_def)
qed

lemma erase_ring_only:
  assumes "erase_inv rt m n f" and "ring_erased rt m r"
    and "rg_completed_logout_serial r = rg_completed_logout_serial (fl_ring f)"
  shows "erase_inv rt m n (f\<lparr> fl_ring := r \<rparr>)"
proof -
  have "phase_erased rt m n p r s = phase_erased rt m n p (fl_ring f) s" for p s
    using assms(3) by (induction rt m n p r s rule: phase_erased.induct) auto
  then show ?thesis using assms by (simp add: erase_inv_def ring_erased_def)
qed

lemma erase_idle:
  "erase_inv rt m n f \<Longrightarrow> erase_inv rt m n (f\<lparr> fl_phase := Idle \<rparr>)"
  "erase_inv rt m n f \<Longrightarrow> erase_inv rt m n (f\<lparr> fl_phase := Stopped \<rparr>)"
  "erase_inv rt m n f \<Longrightarrow> erase_inv rt m n (f\<lparr> fl_ring_failed := b \<rparr>)"
  "erase_inv rt m n f \<Longrightarrow> erase_inv rt m n (f\<lparr> fl_ring_counters := cs \<rparr>)"
  by (simp_all add: erase_inv_def)

lemma erase_ring_step:
  assumes "erase_inv rt m n f"
    and "rg_completed_logout_serial (ring_step op (fl_ring f)) = rg_completed_logout_serial (fl_ring f)"
  shows "erase_inv rt m n (f\<lparr> fl_ring := ring_step op (fl_ring f) \<rparr>)"
proof (rule erase_ring_only [OF assms(1) _ assms(2)])
  show "ring_erased rt m (ring_step op (fl_ring f))"
    using assms(1) by (intro ring_step_erased) (simp add: erase_inv_def ring_erased_def)
qed

lemma resume_erased:
  assumes inv: "erase_inv rt m n f" and ph: "fl_phase f = Finished job res"
  shows "erase_inv rt m n (resume_job job res f)"
proof -
  have comp: "rg_completed_logout_serial (reset r) = rg_completed_logout_serial r"
    "rg_completed_logout_serial (ack_batch recs r) = rg_completed_logout_serial r"
    "rg_completed_logout_serial (discard_batch recs r) = rg_completed_logout_serial r"
    "rg_completed_logout_serial (release_batch r) = rg_completed_logout_serial r" for r recs
    using other_binding [where r = r] by (auto simp: binding_def)
  have bind: "rg_completed_logout_serial (complete_bind a v g r) = rg_completed_logout_serial r"
    for a v g r by (simp add: complete_bind_def)
  note ring = erase_ring_step [OF inv, of RReset, simplified, OF comp(1)]
    erase_ring_step [OF inv, of "RAck recs" for recs, simplified, OF comp(2)]
    erase_ring_step [OF inv, of "RDiscard recs" for recs, simplified, OF comp(3)]
    erase_ring_step [OF inv, of RRelease, simplified, OF comp(4)]
    erase_ring_step [OF inv, of "RBind a v g" for a v g, simplified, OF bind]
  have fail: "erase_inv rt m n (fail_flow f')" if "erase_inv rt m n f'" for f'
    using that by (simp add: fail_flow_def erase_idle)
  show ?thesis
  proof (cases job)
    case (JReset k)
    show ?thesis
    proof (cases "res = RUnit")
      case True
      then show ?thesis using inv ph by (auto simp: JReset erase_inv_def ring_inv_def)
    qed (use fail [OF inv] in \<open>cases res; simp add: JReset\<close>)
  next
    case (JBind a v)
    have "erase_inv rt m n (f'\<lparr> fl_phase := Running (JBegin a v g) \<rparr>)"
      if "erase_inv rt m n f'" for f' g using that by (simp add: erase_inv_def)
    then show ?thesis
      using fail [OF inv] ring(1) inv
      by (cases res) (auto simp: JBind Let_def intro: erase_idle)
  next
    case (JBegin a v g)
    have bound_ok: "erase_inv rt m n (resume_job job (RBool True) f)"
      using ring(5) by (simp add: JBegin erase_idle)
    show ?thesis
    proof (cases "res = RBool True")
      case False
      then show ?thesis using fail [OF inv] JBegin by (cases "(job, res, f)" rule: resume_job.cases) auto
    qed (use bound_ok in simp)
  next
    case (JWrite recs cs g)
    show ?thesis
      using fail [OF ring(4)] ring(2,3) unfolding JWrite
      by (cases "(JWrite recs cs g, res, f)" rule: resume_job.cases) (simp_all add: erase_idle)
  qed
qed

lemma begin_erased:
  assumes inv: "erase_inv rt m n f" and ph: "fl_phase f = Idle"
  shows "erase_inv rt m n (begin_lifecycle f)" "erase_inv rt m n (begin_flush f)"
proof -
  show "erase_inv rt m n (begin_lifecycle f)"
    using inv ph by (auto simp: begin_lifecycle_def erase_inv_def Let_def split: option.splits)
  obtain r recs where peek: "peek_batch 32 4194304 (fl_ring f) = (r, recs)" by fastforce
  have b: "rg_completed_logout_serial r = rg_completed_logout_serial (fl_ring f)"
    using other_binding(3) [of 32 4194304 "fl_ring f"] by (simp add: peek binding_def)
  have e: "erase_inv rt m n (f\<lparr> fl_ring := r \<rparr>)"
    using erase_ring_step [OF inv, of "RPeek 32 4194304"] by (simp add: peek b)
  have "list_all (fresh rt m) recs"
  proof (cases "recs = []")
    case False
    then obtain k where "recs = map (to_record (rg_runtime_id (fl_ring f))) (take k (rg_entries (fl_ring f)))"
      using peek_records [OF peek] by metis
    then show ?thesis
      using inv by (auto simp: list_all_iff fresh_def to_record_def erase_inv_def dest: in_set_takeD)
  qed simp
  with e have "erase_inv rt m n (f\<lparr> fl_ring := r, fl_phase := Running (JWrite recs cs g) \<rparr>)" for cs g
    by (simp add: erase_inv_def)
  with e inv show "erase_inv rt m n (begin_flush f)"
    by (auto simp: begin_flush_def peek Let_def split: option.split)
qed

lemma erase_step: "erase_inv rt m n f \<Longrightarrow> erase_inv rt m n (flow_step e f)"
proof (cases "ring_event e")
  case (Some op)
  assume inv: "erase_inv rt m n f"
  have "erase_inv rt m n (f\<lparr> fl_ring := ring_step op (fl_ring f) \<rparr>)"
    using ring_event_binding [OF Some, of "fl_ring f"] by (intro erase_ring_step [OF inv]) simp
  then show ?thesis by (simp add: flow_step_def Some)
next
  case None
  assume inv: "erase_inv rt m n f"
  have cancel: "erase_inv rt m n (cancel_job job f)" for job
    using erase_ring_step [OF inv, of RRelease] inv other_binding(5) [of "fl_ring f"]
    by (auto simp: cancel_job_def binding_def erase_idle split: job.splits)
  have fail: "erase_inv rt m n (f\<lparr> fl_phase := Finished job RError \<rparr>)"
    if "fl_phase f = Running job \<or> fl_phase f = Finished job r" for job r
    using inv that by (cases job) (auto simp: erase_inv_def)
  have commit: "erase_inv rt m n (case commit_job valid now (rg_runtime_id (fl_ring f)) job (fl_store f) of
      (r, s) \<Rightarrow> f\<lparr> fl_store := s, fl_phase := Finished job r \<rparr>)"
    if "fl_phase f = Running job" for job valid now
    using commit_erased [OF inv that] inv by (auto simp: erase_inv_def split: prod.splits)
  have ended: "erase_inv rt m n (end_run f)" if "fl_phase f = Stopped"
    using inv that
    by (simp add: end_run_def erase_inv_def end_update_run_def erased_def split: option.splits)
  show ?thesis
    using None begin_erased [OF inv] resume_erased [OF inv] erase_idle(2) [OF inv] cancel fail
      commit ended inv
    by (cases e; cases "fl_phase f") (simp_all add: flow_step_def)
qed

interpretation logout: op_system flow_step "erase_inv rt m n" for rt m n
  by unfold_locales (rule erase_step)

lemma logout_starts_erasing:
  assumes "flow_inv rt f"
  shows "erase_inv rt (rg_sequence (fl_ring f)) (Suc (rg_logout_serial (fl_ring f))) (flow_step Logout f)"
proof -
  have inv: "ring_inv (request_logout (fl_ring f))"
    using assms by (simp add: flow_inv_def binding_inv(2))
  have ring: "rg_runtime_id (request_logout (fl_ring f)) = rt"
    "rg_sequence (request_logout (fl_ring f)) = rg_sequence (fl_ring f)"
    "rg_entries (request_logout (fl_ring f)) = []"
    "rg_completed_logout_serial (request_logout (fl_ring f)) \<le> rg_logout_serial (fl_ring f)"
    using assms by (simp_all add: flow_inv_def request_logout_def reset_def count_by_def Let_def)
  have "k \<le> rg_logout_serial (fl_ring f)" if "fl_phase f = Finished (JReset k) res" for k res
    using assms that by (simp add: flow_inv_def)
  then have "phase_erased rt (rg_sequence (fl_ring f)) (Suc (rg_logout_serial (fl_ring f))) (fl_phase f)
      (request_logout (fl_ring f)) (fl_store f)"
    using ring(4)
    by (cases "(rt, rg_sequence (fl_ring f), Suc (rg_logout_serial (fl_ring f)), fl_phase f,
          request_logout (fl_ring f), fl_store f)" rule: phase_erased.cases) fastforce+
  then show ?thesis using inv ring by (simp add: flow_step_def erase_inv_def)
qed

text \<open>
  C17. A completed logout erases. Take any run of the daemon on any store, a logout request,
  and any continuation: once the flush task has recorded this logout as completed, the retained
  table holds no row from before it (neither of this runtime, however late an in-flight batch
  was committed, nor of earlier runtimes), and that stays so for ever.
\<close>

theorem completed_logout_erases:
  assumes "us_runtime_id s0 \<noteq> Some rt"
    and "f1 = run_ops flow_step before_logout (start_flow rt s0)"
    and "f2 = run_ops flow_step after_logout (flow_step Logout f1)"
    and "rg_logout_serial (fl_ring f1) < rg_completed_logout_serial (fl_ring f2)"
  shows "\<forall>row \<in> set (us_rows (fl_store f2)).
     ur_runtime_id (snd row) = rt \<and> rg_sequence (fl_ring f1) < ur_sequence (snd row)"
proof -
  have "flow_inv rt f1"
    unfolding assms(2) by (rule flow.run_invar [OF start_flow_inv [OF assms(1)]])
  from logout_starts_erasing [OF this]
  have "erase_inv rt (rg_sequence (fl_ring f1)) (Suc (rg_logout_serial (fl_ring f1))) f2"
    unfolding assms(3) by (rule logout.run_invar)
  with assms(4) show ?thesis by (auto simp: erase_inv_def erased_def fresh_def)
qed

text \<open>
  A concrete run: an account is verified and bound, an update is captured; while its batch is
  being written a logout is requested and another update arrives; the batch commits late, the
  logout completes and erases it.
\<close>

definition late_write :: "flow_event list" where
  "late_write = [Verified 7, Lifecycle, Commit (\<lambda>_. True) 1, Resume, Commit (\<lambda>_. True) 2, Resume,
     Capture (Some (''UpdateShort'', ''null'')) ''wire'' 3, Flush]"

definition logout_completes :: "flow_event list" where
  "logout_completes = [Capture (Some (''UpdateShort'', ''true'')) ''wire'' 4, Commit (\<lambda>_. True) 5,
     Resume, Lifecycle, Commit (\<lambda>_. True) 6, Resume]"

lemma bound_writes_never_refused_witness:
  "let f = run_ops flow_step (late_write @ [Commit (\<lambda>_. True) 5]) (start_flow ''run'' empty_store)
   in length (us_rows (fl_store f)) = 1 \<and>
      (case fl_phase f of Finished (JWrite records cs g) r \<Rightarrow> r \<noteq> RBool False | _ \<Rightarrow> False)"
proof -
  let ?f = "run_ops flow_step (late_write @ [Commit (\<lambda>_. True) 5]) (start_flow ''run'' empty_store)"
  have "length (us_rows (fl_store ?f)) = 1 \<and>
      (case fl_phase ?f of Finished (JWrite records cs g) r \<Rightarrow> True | _ \<Rightarrow> False)"
    by code_simp
  moreover have "us_runtime_id empty_store \<noteq> Some ''run''" by (simp add: empty_store_def)
  note bound_writes_never_refused [OF this, of "late_write @ [Commit (\<lambda>_. True) 5]"]
  ultimately show ?thesis
    unfolding Let_def by (auto split: phase.splits job.splits)
qed

lemma completed_logout_erases_witness:
  "let f1 = run_ops flow_step late_write (start_flow ''run'' empty_store);
       f2 = run_ops flow_step logout_completes (flow_step Logout f1)
   in rg_sequence (fl_ring f1) = 1 \<and> rg_completed_logout_serial (fl_ring f2) = 1 \<and>
      (\<forall>row \<in> set (us_rows (fl_store f2)). 1 < ur_sequence (snd row))"
proof -
  let ?f1 = "run_ops flow_step late_write (start_flow ''run'' empty_store)"
  let ?f2 = "run_ops flow_step logout_completes (flow_step Logout ?f1)"
  have vals: "rg_sequence (fl_ring ?f1) = 1" "rg_logout_serial (fl_ring ?f1) = 0"
    "rg_completed_logout_serial (fl_ring ?f2) = 1"
    by code_simp+
  have "us_runtime_id empty_store \<noteq> Some ''run''" by (simp add: empty_store_def)
  from completed_logout_erases [OF this refl refl, of late_write logout_completes]
  show ?thesis unfolding Let_def vals by simp
qed

end
