(* ===== verification/Rpc_Enums.thy ===== *)
theory Rpc_Enums
  imports Prelude
begin

text \<open>
  The closed vocabularies of \<^verbatim>\<open>src/mcp_telegram/telegram_rpc_consumers.py\<close>: one
  datatype per \<^verbatim>\<open>StrEnum\<close>, with the members in declaration order. The three that the code
  iterates (\<^verbatim>\<open>for x in RpcServiceClass\<close> and so on) are instances of the library's
  class \<open>enum\<close>: \<open>Enum.enum\<close> is the declaration order, so quantifiers over them and
  their covers compute.
\<close>

datatype RpcEffect =
    EFFECT_NONMUTATING_READ | EFFECT_MUTATION | EFFECT_AUTH_TRANSITION | EFFECT_UNCLASSIFIED

datatype RpcServiceClass =
    CLASS_INTERACTIVE | CLASS_LIVE_SYNC | CLASS_BACKGROUND

datatype TelegramRpcSource =
    SOURCE_MCP_INTERACTIVE | SOURCE_CHAT_EXPORT | SOURCE_DIALOG_RESOLUTION |
    SOURCE_TOPIC_RESOLUTION | SOURCE_ENTITY_INFO_FOREGROUND | SOURCE_ENTITY_INFO_REFRESH |
    SOURCE_ACCOUNT_TRACE | SOURCE_TELETHON_UPDATE_DIFFERENCE |
    SOURCE_TELETHON_RECONNECT_PROBE | SOURCE_TELETHON_CONNECTION_BOOTSTRAP |
    SOURCE_RECONNECT_DIFFERENCE | SOURCE_REALTIME_EVENT | SOURCE_DELTA_SYNC |
    SOURCE_ACTIVITY_HOT_SWEEP | SOURCE_FACT_HYDRATION_LIVE | SOURCE_FULL_SYNC |
    SOURCE_DIALOG_SYNC | SOURCE_ACTIVITY_ARCHIVE | SOURCE_ACTIVITY_COLD_BACKFILL |
    SOURCE_FACT_HYDRATION_BACKFILL | SOURCE_FOLDER_RECONCILIATION |
    SOURCE_TOPIC_RECONCILIATION | SOURCE_MESSAGE_FACT_REFRESH | SOURCE_READ_RECEIPT_PROBE |
    SOURCE_SCHEDULED_MESSAGES | SOURCE_MESSAGE_IMAGE_ACQUISITION | SOURCE_SCHEDULED_MUTATION |
    SOURCE_FOLDER_COMMAND | SOURCE_NOTE_COMMAND | SOURCE_CONTACT_COMMAND |
    SOURCE_CONTACT_CATALOGUE | SOURCE_DRAFT_SNAPSHOT | SOURCE_DRAFT_MUTATION |
    SOURCE_MAINTENANCE | SOURCE_LINKED_CHAT_REFRESH | SOURCE_OPERATOR_AUTH |
    SOURCE_OPERATOR_LOGOUT

datatype DemandKind =
    KIND_MCP_REMOTE_ACQUISITION | KIND_CHAT_EXPORT_OPERATION | KIND_ENTITY_LOOKUP |
    KIND_TOPIC_LOOKUP | KIND_FOREGROUND_ENTITY_FACTS | KIND_ENTITY_PROFILE_REFRESH |
    KIND_ACCOUNT_TRACE_PAGE | KIND_TELETHON_UPDATE_DIFFERENCE | KIND_TELETHON_RECONNECT_PROBE |
    KIND_TELETHON_CONNECTION_BOOTSTRAP | KIND_RECONNECT_DIFFERENCE |
    KIND_REALTIME_EVENT_ACQUISITION | KIND_DELTA_GAP_FILL | KIND_DM_DELETION_RECONCILIATION |
    KIND_DELTA_ACCESS_PROBE | KIND_HOT_ACTIVITY_PAGE | KIND_LIVE_HYDRATION_BATCH |
    KIND_FULL_SYNC_DM_ENROLLMENT | KIND_FULL_SYNC_PAGE | KIND_DIALOG_BOOTSTRAP |
    KIND_DIALOG_LIGHT_RECONCILIATION | KIND_ARCHIVE_BACKFILL | KIND_ARCHIVE_INCREMENTAL |
    KIND_COLD_PEER_PAGE | KIND_BACKFILL_HYDRATION_BATCH | KIND_FOLDER_SNAPSHOT |
    KIND_TOPIC_SNAPSHOT | KIND_MESSAGE_FACT_REFRESH | KIND_READ_RECEIPT_BATCH |
    KIND_SCHEDULED_REPAIR | KIND_SCHEDULED_DISCOVERY | KIND_MESSAGE_IMAGE_ACQUISITION |
    KIND_SCHEDULED_MUTATION | KIND_FOLDER_COMMAND | KIND_NOTE_COMMAND | KIND_CONTACT_COMMAND |
    KIND_CONTACT_CATALOGUE | KIND_DRAFT_SNAPSHOT | KIND_DRAFT_MUTATION |
    KIND_SELF_PROFILE_MAINTENANCE | KIND_LINKED_CHAT_REFRESH | KIND_OPERATOR_AUTH |
    KIND_OPERATOR_LOGOUT

datatype ExecutionMode =
    EXEC_INLINE | EXEC_PROTOCOL | EXEC_DURABLE

datatype TelegramFactDomain =
    DOMAIN_ACCOUNT | DOMAIN_DIALOGS | DOMAIN_ENTITIES | DOMAIN_FOLDERS |
    DOMAIN_MESSAGE_HISTORY | DOMAIN_MESSAGE_FACTS | DOMAIN_OWN_ACTIVITY | DOMAIN_READ_STATE |
    DOMAIN_REACTIONS | DOMAIN_SCHEDULED_MESSAGES | DOMAIN_DRAFTS | DOMAIN_TOPICS |
    DOMAIN_UPDATE_STATE

datatype AcquisitionRole =
    ROLE_DIRECT | ROLE_REALTIME | ROLE_CATCH_UP | ROLE_RECONCILIATION | ROLE_BACKFILL |
    ROLE_ENRICHMENT | ROLE_MUTATION

datatype AcquisitionTrigger =
    TRIGGER_REQUEST | TRIGGER_TELEGRAM_UPDATE | TRIGGER_TELETHON_INTERNAL |
    TRIGGER_CONNECTION_TRANSITION | TRIGGER_PERIODIC | TRIGGER_DURABLE_BACKLOG

datatype FanoutScope =
    FANOUT_SINGLE | FANOUT_MESSAGE | FANOUT_ENTITY | FANOUT_DIALOG | FANOUT_ACCOUNT

datatype DemandPolicyOwner =
    OWNER_CALLER | OWNER_TELETHON | OWNER_PRODUCER

datatype DemandBound =
    BOUND_REQUEST | BOUND_EVENT | BOUND_TELETHON | BOUND_PRODUCER_BOUNDED |
    BOUND_PRODUCER_RESUMABLE

instantiation RpcServiceClass :: enum
begin

definition enum_RpcServiceClass :: "RpcServiceClass list" where
  "enum_RpcServiceClass =
      [CLASS_INTERACTIVE, CLASS_LIVE_SYNC, CLASS_BACKGROUND]"

definition enum_all_RpcServiceClass :: "(RpcServiceClass \<Rightarrow> bool) \<Rightarrow> bool" where
  "enum_all_RpcServiceClass P = list_all P enum_class.enum"

definition enum_ex_RpcServiceClass :: "(RpcServiceClass \<Rightarrow> bool) \<Rightarrow> bool" where
  "enum_ex_RpcServiceClass P = list_ex P enum_class.enum"

instance
proof
  show UNIV: "UNIV = set (enum_class.enum :: RpcServiceClass list)"
  proof (rule UNIV_eq_I)
    fix x :: RpcServiceClass
    show "x \<in> set enum_class.enum" by (cases x) (simp_all add: enum_RpcServiceClass_def)
  qed
  show "distinct (enum_class.enum :: RpcServiceClass list)"
    by (simp add: enum_RpcServiceClass_def)
  show "enum_class.enum_all P = Ball UNIV P" for P :: "RpcServiceClass \<Rightarrow> bool"
    by (simp add: enum_all_RpcServiceClass_def list_all_iff UNIV [symmetric])
  show "enum_class.enum_ex P = Bex UNIV P" for P :: "RpcServiceClass \<Rightarrow> bool"
    by (simp add: enum_ex_RpcServiceClass_def list_ex_iff UNIV [symmetric])
qed

end

instantiation TelegramRpcSource :: enum
begin

definition enum_TelegramRpcSource :: "TelegramRpcSource list" where
  "enum_TelegramRpcSource =
      [SOURCE_MCP_INTERACTIVE, SOURCE_CHAT_EXPORT, SOURCE_DIALOG_RESOLUTION,
       SOURCE_TOPIC_RESOLUTION, SOURCE_ENTITY_INFO_FOREGROUND, SOURCE_ENTITY_INFO_REFRESH,
       SOURCE_ACCOUNT_TRACE, SOURCE_TELETHON_UPDATE_DIFFERENCE,
       SOURCE_TELETHON_RECONNECT_PROBE, SOURCE_TELETHON_CONNECTION_BOOTSTRAP,
       SOURCE_RECONNECT_DIFFERENCE, SOURCE_REALTIME_EVENT, SOURCE_DELTA_SYNC,
       SOURCE_ACTIVITY_HOT_SWEEP, SOURCE_FACT_HYDRATION_LIVE, SOURCE_FULL_SYNC,
       SOURCE_DIALOG_SYNC, SOURCE_ACTIVITY_ARCHIVE, SOURCE_ACTIVITY_COLD_BACKFILL,
       SOURCE_FACT_HYDRATION_BACKFILL, SOURCE_FOLDER_RECONCILIATION,
       SOURCE_TOPIC_RECONCILIATION, SOURCE_MESSAGE_FACT_REFRESH, SOURCE_READ_RECEIPT_PROBE,
       SOURCE_SCHEDULED_MESSAGES, SOURCE_MESSAGE_IMAGE_ACQUISITION, SOURCE_SCHEDULED_MUTATION,
       SOURCE_FOLDER_COMMAND, SOURCE_NOTE_COMMAND, SOURCE_CONTACT_COMMAND,
       SOURCE_CONTACT_CATALOGUE, SOURCE_DRAFT_SNAPSHOT, SOURCE_DRAFT_MUTATION,
       SOURCE_MAINTENANCE, SOURCE_LINKED_CHAT_REFRESH, SOURCE_OPERATOR_AUTH,
       SOURCE_OPERATOR_LOGOUT]"

definition enum_all_TelegramRpcSource :: "(TelegramRpcSource \<Rightarrow> bool) \<Rightarrow> bool" where
  "enum_all_TelegramRpcSource P = list_all P enum_class.enum"

definition enum_ex_TelegramRpcSource :: "(TelegramRpcSource \<Rightarrow> bool) \<Rightarrow> bool" where
  "enum_ex_TelegramRpcSource P = list_ex P enum_class.enum"

instance
proof
  show UNIV: "UNIV = set (enum_class.enum :: TelegramRpcSource list)"
  proof (rule UNIV_eq_I)
    fix x :: TelegramRpcSource
    show "x \<in> set enum_class.enum" by (cases x) (simp_all add: enum_TelegramRpcSource_def)
  qed
  show "distinct (enum_class.enum :: TelegramRpcSource list)"
    by (simp add: enum_TelegramRpcSource_def)
  show "enum_class.enum_all P = Ball UNIV P" for P :: "TelegramRpcSource \<Rightarrow> bool"
    by (simp add: enum_all_TelegramRpcSource_def list_all_iff UNIV [symmetric])
  show "enum_class.enum_ex P = Bex UNIV P" for P :: "TelegramRpcSource \<Rightarrow> bool"
    by (simp add: enum_ex_TelegramRpcSource_def list_ex_iff UNIV [symmetric])
qed

end

instantiation DemandKind :: enum
begin

definition enum_DemandKind :: "DemandKind list" where
  "enum_DemandKind =
      [KIND_MCP_REMOTE_ACQUISITION, KIND_CHAT_EXPORT_OPERATION, KIND_ENTITY_LOOKUP,
       KIND_TOPIC_LOOKUP, KIND_FOREGROUND_ENTITY_FACTS, KIND_ENTITY_PROFILE_REFRESH,
       KIND_ACCOUNT_TRACE_PAGE, KIND_TELETHON_UPDATE_DIFFERENCE, KIND_TELETHON_RECONNECT_PROBE,
       KIND_TELETHON_CONNECTION_BOOTSTRAP, KIND_RECONNECT_DIFFERENCE,
       KIND_REALTIME_EVENT_ACQUISITION, KIND_DELTA_GAP_FILL, KIND_DM_DELETION_RECONCILIATION,
       KIND_DELTA_ACCESS_PROBE, KIND_HOT_ACTIVITY_PAGE, KIND_LIVE_HYDRATION_BATCH,
       KIND_FULL_SYNC_DM_ENROLLMENT, KIND_FULL_SYNC_PAGE, KIND_DIALOG_BOOTSTRAP,
       KIND_DIALOG_LIGHT_RECONCILIATION, KIND_ARCHIVE_BACKFILL, KIND_ARCHIVE_INCREMENTAL,
       KIND_COLD_PEER_PAGE, KIND_BACKFILL_HYDRATION_BATCH, KIND_FOLDER_SNAPSHOT,
       KIND_TOPIC_SNAPSHOT, KIND_MESSAGE_FACT_REFRESH, KIND_READ_RECEIPT_BATCH,
       KIND_SCHEDULED_REPAIR, KIND_SCHEDULED_DISCOVERY, KIND_MESSAGE_IMAGE_ACQUISITION,
       KIND_SCHEDULED_MUTATION, KIND_FOLDER_COMMAND, KIND_NOTE_COMMAND, KIND_CONTACT_COMMAND,
       KIND_CONTACT_CATALOGUE, KIND_DRAFT_SNAPSHOT, KIND_DRAFT_MUTATION,
       KIND_SELF_PROFILE_MAINTENANCE, KIND_LINKED_CHAT_REFRESH, KIND_OPERATOR_AUTH,
       KIND_OPERATOR_LOGOUT]"

definition enum_all_DemandKind :: "(DemandKind \<Rightarrow> bool) \<Rightarrow> bool" where
  "enum_all_DemandKind P = list_all P enum_class.enum"

definition enum_ex_DemandKind :: "(DemandKind \<Rightarrow> bool) \<Rightarrow> bool" where
  "enum_ex_DemandKind P = list_ex P enum_class.enum"

instance
proof
  show UNIV: "UNIV = set (enum_class.enum :: DemandKind list)"
  proof (rule UNIV_eq_I)
    fix x :: DemandKind
    show "x \<in> set enum_class.enum" by (cases x) (simp_all add: enum_DemandKind_def)
  qed
  show "distinct (enum_class.enum :: DemandKind list)"
    by (simp add: enum_DemandKind_def)
  show "enum_class.enum_all P = Ball UNIV P" for P :: "DemandKind \<Rightarrow> bool"
    by (simp add: enum_all_DemandKind_def list_all_iff UNIV [symmetric])
  show "enum_class.enum_ex P = Bex UNIV P" for P :: "DemandKind \<Rightarrow> bool"
    by (simp add: enum_ex_DemandKind_def list_ex_iff UNIV [symmetric])
qed

end

end
