(* ===== verification/Rpc_Consumers.thy ===== *)
theory Rpc_Consumers
  imports Rpc_Enums
begin

text \<open>
  The registry of Telegram RPC consumers
  (\<^verbatim>\<open>src/mcp_telegram/telegram_rpc_consumers.py\<close>, first half): the classification of
  canonical method identities, the record of one consumer, the registry itself and its
  start-up validation. A registry row is built by \<open>consumer\<close>, which raises for a
  producer that declares no bound; \<open>collect_rows\<close> is the dictionary literal, whose
  construction fails with the first row that raises.
\<close>

section \<open>Effects of canonical methods\<close>

definition READ_METHODS :: "string list" where
  "READ_METHODS =
    [''telethon.tl.functions.users.GetUsersRequest:0d91a548'',
     ''telethon.tl.functions.users.GetFullUserRequest:b60f5918'',
     ''telethon.tl.functions.users.GetSavedMusicRequest:788d7fe3'',
     ''telethon.tl.functions.messages.GetFullChatRequest:aeb00b34'',
     ''telethon.tl.functions.messages.GetChatsRequest:49e9528f'',
     ''telethon.tl.functions.messages.GetHistoryRequest:4423e6c5'',
     ''telethon.tl.functions.messages.GetMessagesRequest:63c66506'',
     ''telethon.tl.functions.messages.GetDialogsRequest:a0f4cb4f'',
     ''telethon.tl.functions.messages.GetPinnedDialogsRequest:d6b94df2'',
     ''telethon.tl.functions.messages.GetPeerDialogsRequest:e470bcfd'',
     ''telethon.tl.functions.messages.GetDialogFiltersRequest:efd48c89'',
     ''telethon.tl.functions.messages.GetAllDraftsRequest:6a3f8d65'',
     ''telethon.tl.functions.messages.GetScheduledHistoryRequest:f516760b'',
     ''telethon.tl.functions.messages.GetScheduledMessagesRequest:bdbb0464'',
     ''telethon.tl.functions.messages.GetForumTopicsRequest:3ba47bff'',
     ''telethon.tl.functions.messages.GetForumTopicsByIDRequest:af0a4a08'',
     ''telethon.tl.functions.messages.GetCustomEmojiDocumentsRequest:d9ab0f54'',
     ''telethon.tl.functions.messages.GetMessageReactionsListRequest:461b3f48'',
     ''telethon.tl.functions.messages.GetOutboxReadDateRequest:8c4bfe5d'',
     ''telethon.tl.functions.messages.SearchRequest:29ee847a'',
     ''telethon.tl.functions.messages.GetCommonChatsRequest:e40ca104'',
     ''telethon.tl.functions.channels.GetFullChannelRequest:08736a09'',
     ''telethon.tl.functions.channels.GetChannelsRequest:0a7f6bbb'',
     ''telethon.tl.functions.channels.GetParticipantsRequest:77ced9d0'',
     ''telethon.tl.functions.channels.GetParticipantRequest:a0ab6cc6'',
     ''telethon.tl.functions.channels.GetMessagesRequest:ad8c9a23'',
     ''telethon.tl.functions.channels.GetAdminLogRequest:33ddf480'',
     ''telethon.tl.functions.updates.GetDifferenceRequest:19c2f763'',
     ''telethon.tl.functions.updates.GetChannelDifferenceRequest:03173d78'',
     ''telethon.tl.functions.contacts.ResolveUsernameRequest:725afbbc'',
     ''telethon.tl.functions.contacts.GetContactsRequest:5dd69e12'',
     ''telethon.tl.functions.photos.GetUserPhotosRequest:91cd32a8'',
     ''telethon.tl.functions.upload.GetFileRequest:be5335be'',
     ''telethon.tl.functions.help.GetConfigRequest:c4f9186b'',
     ''telethon.tl.functions.help.GetAppConfigRequest:61e3f854'',
     ''telethon.tl.functions.payments.GetSavedStarGiftsRequest:a319e569'',
     ''telethon.tl.functions.stories.GetPeerStoriesRequest:2c4ada50'',
     ''telethon.tl.functions.stories.GetPinnedStoriesRequest:5821a5dc'',
     ''telethon.tl.functions.stories.GetStoriesByIDRequest:5774ca74'']"

definition MUTATION_METHODS :: "string list" where
  "MUTATION_METHODS =
    [''telethon.tl.functions.messages.SaveDraftRequest:ad0fa15c'',
     ''telethon.tl.functions.messages.UpdateDialogFilterRequest:1ad4a04a'',
     ''telethon.tl.functions.contacts.UpdateContactNoteRequest:139f63fb'',
     ''telethon.tl.functions.contacts.AddContactRequest:d9ba2e54'',
     ''telethon.tl.functions.contacts.DeleteContactsRequest:096a0e00'',
     ''telethon.tl.functions.messages.SendMessageRequest:fef48f62'',
     ''telethon.tl.functions.messages.EditMessageRequest:b106e66c'',
     ''telethon.tl.functions.messages.DeleteScheduledMessagesRequest:59ae2b16'',
     ''telethon.tl.functions.messages.TranscribeAudioRequest:269e9a49'']"

definition AUTH_METHODS :: "string list" where
  "AUTH_METHODS =
    [''telethon.tl.functions.auth.LogOutRequest:3e72ba19'',
     ''telethon.tl.functions.auth.SignInRequest:8d52a951'',
     ''telethon.tl.functions.auth.SignUpRequest:aac7b717'',
     ''telethon.tl.functions.auth.SendCodeRequest:a677244f'',
     ''telethon.tl.functions.auth.ImportAuthorizationRequest:a57a7dad'',
     ''telethon.tl.functions.auth.ExportAuthorizationRequest:e5bfffcd'']"

definition rpc_effect :: "string \<Rightarrow> RpcEffect" where
  "rpc_effect canonical_method =
     (if canonical_method \<in> set READ_METHODS then EFFECT_NONMUTATING_READ
      else if canonical_method \<in> set MUTATION_METHODS then EFFECT_MUTATION
      else if canonical_method \<in> set AUTH_METHODS then EFFECT_AUTH_TRANSITION
      else EFFECT_UNCLASSIFIED)"

section \<open>Consumer records\<close>

record AdmissionSpec =
  as_service_class :: RpcServiceClass

record AcquisitionSpec =
  aq_domains :: "TelegramFactDomain set"
  aq_role :: AcquisitionRole
  aq_trigger :: AcquisitionTrigger
  aq_fanout :: FanoutScope
  aq_repairs :: "TelegramRpcSource list"

record DemandSpec =
  ds_owner :: DemandPolicyOwner
  ds_bound :: DemandBound

record TelegramRpcConsumerSpec =
  cs_label :: string
  cs_purpose :: string
  cs_admission :: AdmissionSpec
  cs_acquisition :: AcquisitionSpec
  cs_demand :: DemandSpec

datatype registry_error =
    Undeclared_Producer_Bound
  | Registry_Incomplete
  | Incomplete_Semantics TelegramRpcSource
  | Unknown_Source TelegramRpcSource
  | Contract_Coverage
  | Contract_Source_Coverage
  | Contract_Key_Mismatch DemandKind
  | Contract_Class_Mismatch DemandKind
  | Contract_Timeout DemandKind
  | Contract_Outstanding DemandKind
  | Contract_Source_Limits TelegramRpcSource
  | Contract_Freshness DemandKind
  | Contract_Attempt_Bound DemandKind
  | Contract_Producer DemandKind
  | Contract_Lifecycle_Freshness DemandKind
  | Contract_Durable_Only DemandKind
  | Durable_Order_Size
  | Durable_Order_Modes
  | No_Freshness_Target DemandKind
  | Bad_Freshness_Target DemandKind

definition default_demand_bound ::
    "DemandPolicyOwner \<Rightarrow> AcquisitionTrigger \<Rightarrow> registry_error + DemandBound" where
  "default_demand_bound owner trigger =
     (if owner = OWNER_CALLER then Inr BOUND_REQUEST
      else if owner = OWNER_TELETHON then Inr BOUND_TELETHON
      else if trigger = TRIGGER_TELEGRAM_UPDATE then Inr BOUND_EVENT
      else Inl Undeclared_Producer_Bound)"

definition consumer ::
    "string \<Rightarrow> string \<Rightarrow> RpcServiceClass \<Rightarrow> TelegramFactDomain list \<Rightarrow> AcquisitionRole \<Rightarrow>
     AcquisitionTrigger \<Rightarrow> FanoutScope \<Rightarrow> DemandPolicyOwner \<Rightarrow> DemandBound option \<Rightarrow>
     TelegramRpcSource list \<Rightarrow> registry_error + TelegramRpcConsumerSpec" where
  "consumer label purpose service_class domains role trigger fanout demand_owner demand_bound repairs =
     (case (case demand_bound of Some b \<Rightarrow> Inr b | None \<Rightarrow> default_demand_bound demand_owner trigger) of
        Inl e \<Rightarrow> Inl e
      | Inr b \<Rightarrow> Inr
          \<lparr>cs_label = label, cs_purpose = purpose,
           cs_admission = \<lparr>as_service_class = service_class\<rparr>,
           cs_acquisition =
             \<lparr>aq_domains = set domains, aq_role = role, aq_trigger = trigger,
              aq_fanout = fanout, aq_repairs = repairs\<rparr>,
           cs_demand = \<lparr>ds_owner = demand_owner, ds_bound = b\<rparr>\<rparr>)"

fun collect_rows :: "('k \<times> ('e + 'v)) list \<Rightarrow> 'e + ('k \<times> 'v) list" where
  "collect_rows [] = Inr []"
| "collect_rows ((k, Inl e) # rows) = Inl e"
| "collect_rows ((k, Inr v) # rows) =
     (case collect_rows rows of Inl e \<Rightarrow> Inl e | Inr d \<Rightarrow> Inr ((k, v) # d))"

section \<open>The registry\<close>

definition registry_rows_1 :: "(TelegramRpcSource \<times> (registry_error + TelegramRpcConsumerSpec)) list" where
  "registry_rows_1 =
    [(SOURCE_OPERATOR_AUTH, consumer ''Operator authentication''
      ''Authenticate the exclusively owned account Session''
      CLASS_BACKGROUND [DOMAIN_ACCOUNT]
      ROLE_DIRECT TRIGGER_REQUEST FANOUT_ACCOUNT OWNER_CALLER
      None []),
     (SOURCE_OPERATOR_LOGOUT, consumer ''Operator logout''
      ''Explicitly terminate the owned Telegram authorization''
      CLASS_BACKGROUND [DOMAIN_ACCOUNT]
      ROLE_DIRECT TRIGGER_REQUEST FANOUT_ACCOUNT OWNER_CALLER
      None []),
     (SOURCE_MCP_INTERACTIVE, consumer ''MCP interactive''
      ''Serve an explicit MCP request requiring Telegram facts''
      CLASS_INTERACTIVE [DOMAIN_DIALOGS, DOMAIN_MESSAGE_HISTORY]
      ROLE_DIRECT TRIGGER_REQUEST FANOUT_SINGLE OWNER_CALLER
      None []),
     (SOURCE_CHAT_EXPORT, consumer ''Chat export''
      ''Export a finite set of facts from one Telegram dialog''
      CLASS_BACKGROUND [DOMAIN_MESSAGE_HISTORY, DOMAIN_REACTIONS, DOMAIN_ENTITIES, DOMAIN_TOPICS]
      ROLE_DIRECT TRIGGER_REQUEST FANOUT_DIALOG OWNER_CALLER
      None []),
     (SOURCE_DIALOG_RESOLUTION, consumer ''Dialog resolution''
      ''Resolve an explicitly requested Telegram dialog''
      CLASS_INTERACTIVE [DOMAIN_DIALOGS, DOMAIN_ENTITIES]
      ROLE_DIRECT TRIGGER_REQUEST FANOUT_DIALOG OWNER_CALLER
      None []),
     (SOURCE_TOPIC_RESOLUTION, consumer ''Topic resolution''
      ''Resolve an explicitly requested Telegram topic''
      CLASS_INTERACTIVE [DOMAIN_TOPICS]
      ROLE_DIRECT TRIGGER_REQUEST FANOUT_DIALOG OWNER_CALLER
      None []),
     (SOURCE_ENTITY_INFO_FOREGROUND, consumer ''Entity info foreground''
      ''Fetch entity facts requested by an MCP caller''
      CLASS_INTERACTIVE [DOMAIN_ENTITIES]
      ROLE_DIRECT TRIGGER_REQUEST FANOUT_ENTITY OWNER_CALLER
      None []),
     (SOURCE_ENTITY_INFO_REFRESH, consumer ''Entity info refresh''
      ''Refresh queued entity profile facts''
      CLASS_BACKGROUND [DOMAIN_ENTITIES]
      ROLE_ENRICHMENT TRIGGER_DURABLE_BACKLOG FANOUT_ENTITY OWNER_PRODUCER
      (Some BOUND_PRODUCER_BOUNDED) []),
     (SOURCE_ACCOUNT_TRACE, consumer ''Account trace''
      ''Collect authored-message evidence for an explicit trace''
      CLASS_INTERACTIVE [DOMAIN_MESSAGE_HISTORY, DOMAIN_OWN_ACTIVITY]
      ROLE_DIRECT TRIGGER_REQUEST FANOUT_ACCOUNT OWNER_CALLER
      None [])]"

definition registry_rows_2 :: "(TelegramRpcSource \<times> (registry_error + TelegramRpcConsumerSpec)) list" where
  "registry_rows_2 =
    [(SOURCE_TELETHON_UPDATE_DIFFERENCE, consumer ''Telethon update difference''
      ''Let Telethon recover gaps in the account update stream''
      CLASS_LIVE_SYNC [DOMAIN_UPDATE_STATE]
      ROLE_CATCH_UP TRIGGER_TELETHON_INTERNAL FANOUT_ACCOUNT OWNER_TELETHON
      None [SOURCE_REALTIME_EVENT]),
     (SOURCE_TELETHON_RECONNECT_PROBE, consumer ''Telethon reconnect probe''
      ''Let Telethon verify the account after an internal reconnect''
      CLASS_LIVE_SYNC [DOMAIN_ACCOUNT]
      ROLE_DIRECT TRIGGER_TELETHON_INTERNAL FANOUT_ACCOUNT OWNER_TELETHON
      None []),
     (SOURCE_TELETHON_CONNECTION_BOOTSTRAP, consumer ''Telethon connection bootstrap''
      ''Initialize the primary Telegram transport connection''
      CLASS_LIVE_SYNC [DOMAIN_ACCOUNT]
      ROLE_DIRECT TRIGGER_CONNECTION_TRANSITION FANOUT_ACCOUNT OWNER_TELETHON
      None []),
     (SOURCE_RECONNECT_DIFFERENCE, consumer ''Reconnect difference''
      ''Request missed updates after a reconnect transition''
      CLASS_LIVE_SYNC [DOMAIN_UPDATE_STATE]
      ROLE_CATCH_UP TRIGGER_CONNECTION_TRANSITION FANOUT_ACCOUNT OWNER_PRODUCER
      (Some BOUND_PRODUCER_BOUNDED) [SOURCE_REALTIME_EVENT]),
     (SOURCE_REALTIME_EVENT, consumer ''Realtime event''
      ''Resolve facts needed while applying Telegram updates''
      CLASS_LIVE_SYNC [DOMAIN_DIALOGS, DOMAIN_MESSAGE_HISTORY, DOMAIN_MESSAGE_FACTS,
         DOMAIN_READ_STATE, DOMAIN_REACTIONS, DOMAIN_SCHEDULED_MESSAGES, DOMAIN_TOPICS]
      ROLE_REALTIME TRIGGER_TELEGRAM_UPDATE FANOUT_SINGLE OWNER_PRODUCER
      None []),
     (SOURCE_DELTA_SYNC, consumer ''Delta sync''
      ''Repair forward message-history gaps and lost access''
      CLASS_LIVE_SYNC [DOMAIN_MESSAGE_HISTORY, DOMAIN_DIALOGS]
      ROLE_CATCH_UP TRIGGER_PERIODIC FANOUT_ACCOUNT OWNER_PRODUCER
      (Some BOUND_PRODUCER_BOUNDED) [SOURCE_REALTIME_EVENT]),
     (SOURCE_ACTIVITY_HOT_SWEEP, consumer ''Activity hot sweep''
      ''Refresh recent authored activity for active peers''
      CLASS_LIVE_SYNC [DOMAIN_OWN_ACTIVITY]
      ROLE_RECONCILIATION TRIGGER_PERIODIC FANOUT_ACCOUNT OWNER_PRODUCER
      (Some BOUND_PRODUCER_BOUNDED) [SOURCE_ACTIVITY_ARCHIVE]),
     (SOURCE_FACT_HYDRATION_LIVE, consumer ''Live fact hydration''
      ''Fill high-priority missing message facts''
      CLASS_LIVE_SYNC [DOMAIN_MESSAGE_FACTS]
      ROLE_ENRICHMENT TRIGGER_DURABLE_BACKLOG FANOUT_MESSAGE OWNER_PRODUCER
      (Some BOUND_PRODUCER_BOUNDED) [])]"

definition registry_rows_3 :: "(TelegramRpcSource \<times> (registry_error + TelegramRpcConsumerSpec)) list" where
  "registry_rows_3 =
    [(SOURCE_FULL_SYNC, consumer ''Full sync''
      ''Backfill enrolled dialog message history''
      CLASS_BACKGROUND [DOMAIN_MESSAGE_HISTORY]
      ROLE_BACKFILL TRIGGER_DURABLE_BACKLOG FANOUT_DIALOG OWNER_PRODUCER
      (Some BOUND_PRODUCER_RESUMABLE) []),
     (SOURCE_DIALOG_SYNC, consumer ''Dialog sync''
      ''Refresh dialog inventory and ownership facts''
      CLASS_BACKGROUND [DOMAIN_DIALOGS, DOMAIN_ENTITIES]
      ROLE_RECONCILIATION TRIGGER_PERIODIC FANOUT_ACCOUNT OWNER_PRODUCER
      (Some BOUND_PRODUCER_RESUMABLE) []),
     (SOURCE_ACTIVITY_ARCHIVE, consumer ''Activity archive''
      ''Advance the global authored-message archive''
      CLASS_BACKGROUND [DOMAIN_OWN_ACTIVITY]
      ROLE_BACKFILL TRIGGER_DURABLE_BACKLOG FANOUT_ACCOUNT OWNER_PRODUCER
      (Some BOUND_PRODUCER_RESUMABLE) []),
     (SOURCE_ACTIVITY_COLD_BACKFILL, consumer ''Activity cold backfill''
      ''Backfill authored activity per peer''
      CLASS_BACKGROUND [DOMAIN_OWN_ACTIVITY]
      ROLE_BACKFILL TRIGGER_DURABLE_BACKLOG FANOUT_DIALOG OWNER_PRODUCER
      (Some BOUND_PRODUCER_BOUNDED) [SOURCE_ACTIVITY_ARCHIVE]),
     (SOURCE_FACT_HYDRATION_BACKFILL, consumer ''Fact hydration backfill''
      ''Fill low-priority historical message facts''
      CLASS_BACKGROUND [DOMAIN_MESSAGE_FACTS]
      ROLE_ENRICHMENT TRIGGER_DURABLE_BACKLOG FANOUT_MESSAGE OWNER_PRODUCER
      (Some BOUND_PRODUCER_BOUNDED) []),
     (SOURCE_FOLDER_RECONCILIATION, consumer ''Folder reconciliation''
      ''Refresh Telegram folder definitions and membership''
      CLASS_BACKGROUND [DOMAIN_FOLDERS, DOMAIN_DIALOGS]
      ROLE_RECONCILIATION TRIGGER_PERIODIC FANOUT_ACCOUNT OWNER_PRODUCER
      (Some BOUND_PRODUCER_BOUNDED) []),
     (SOURCE_CONTACT_CATALOGUE, consumer ''Contact catalogue''
      ''Refresh the account contact catalogue''
      CLASS_BACKGROUND [DOMAIN_ENTITIES]
      ROLE_RECONCILIATION TRIGGER_PERIODIC FANOUT_ACCOUNT OWNER_PRODUCER
      (Some BOUND_PRODUCER_BOUNDED) []),
     (SOURCE_TOPIC_RECONCILIATION, consumer ''Topic reconciliation''
      ''Refresh topic metadata for a dialog''
      CLASS_BACKGROUND [DOMAIN_TOPICS]
      ROLE_RECONCILIATION TRIGGER_PERIODIC FANOUT_DIALOG OWNER_PRODUCER
      (Some BOUND_PRODUCER_BOUNDED) [SOURCE_REALTIME_EVENT])]"

definition registry_rows_4 :: "(TelegramRpcSource \<times> (registry_error + TelegramRpcConsumerSpec)) list" where
  "registry_rows_4 =
    [(SOURCE_MESSAGE_FACT_REFRESH, consumer ''Message fact refresh''
      ''Refresh optional facts for selected messages''
      CLASS_BACKGROUND [DOMAIN_MESSAGE_FACTS]
      ROLE_ENRICHMENT TRIGGER_DURABLE_BACKLOG FANOUT_MESSAGE OWNER_PRODUCER
      (Some BOUND_PRODUCER_BOUNDED) []),
     (SOURCE_READ_RECEIPT_PROBE, consumer ''Read receipt probe''
      ''Reconcile read positions not established by updates''
      CLASS_BACKGROUND [DOMAIN_READ_STATE]
      ROLE_RECONCILIATION TRIGGER_PERIODIC FANOUT_ACCOUNT OWNER_PRODUCER
      (Some BOUND_PRODUCER_BOUNDED) [SOURCE_REALTIME_EVENT]),
     (SOURCE_SCHEDULED_MESSAGES, consumer ''Scheduled messages''
      ''Reconcile server-side scheduled-message queues''
      CLASS_BACKGROUND [DOMAIN_SCHEDULED_MESSAGES]
      ROLE_RECONCILIATION TRIGGER_PERIODIC FANOUT_ACCOUNT OWNER_PRODUCER
      (Some BOUND_PRODUCER_BOUNDED) [SOURCE_REALTIME_EVENT, SOURCE_TELETHON_UPDATE_DIFFERENCE]),
     (SOURCE_MESSAGE_IMAGE_ACQUISITION, consumer ''Message image acquisition''
      ''Acquire one explicitly requested message photo''
      CLASS_BACKGROUND [DOMAIN_MESSAGE_FACTS]
      ROLE_ENRICHMENT TRIGGER_DURABLE_BACKLOG FANOUT_MESSAGE OWNER_PRODUCER
      (Some BOUND_PRODUCER_BOUNDED) []),
     (SOURCE_MAINTENANCE, consumer ''Maintenance''
      ''Refresh account-owned maintenance facts''
      CLASS_BACKGROUND [DOMAIN_ACCOUNT, DOMAIN_ENTITIES]
      ROLE_RECONCILIATION TRIGGER_PERIODIC FANOUT_ACCOUNT OWNER_PRODUCER
      (Some BOUND_PRODUCER_BOUNDED) []),
     (SOURCE_LINKED_CHAT_REFRESH, consumer ''Linked-chat fact refresh''
      ''Refresh one durable discussion-group link fact''
      CLASS_BACKGROUND [DOMAIN_DIALOGS]
      ROLE_RECONCILIATION TRIGGER_DURABLE_BACKLOG FANOUT_DIALOG OWNER_PRODUCER
      (Some BOUND_PRODUCER_BOUNDED) [SOURCE_REALTIME_EVENT]),
     (SOURCE_DRAFT_SNAPSHOT, consumer ''Draft snapshot''
      ''Recover the account-wide current draft projection after an explicit signal''
      CLASS_LIVE_SYNC [DOMAIN_DRAFTS]
      ROLE_RECONCILIATION TRIGGER_DURABLE_BACKLOG FANOUT_ACCOUNT OWNER_PRODUCER
      (Some BOUND_PRODUCER_BOUNDED) [SOURCE_REALTIME_EVENT, SOURCE_RECONNECT_DIFFERENCE]),
     (SOURCE_DRAFT_MUTATION, consumer ''Draft mutation''
      ''Check native drafts, save or clear one requested draft, and verify the result''
      CLASS_INTERACTIVE [DOMAIN_DRAFTS]
      ROLE_MUTATION TRIGGER_REQUEST FANOUT_ACCOUNT OWNER_CALLER
      None [])]"

definition registry_rows_5 :: "(TelegramRpcSource \<times> (registry_error + TelegramRpcConsumerSpec)) list" where
  "registry_rows_5 =
    [(SOURCE_FOLDER_COMMAND, consumer ''Folder command''
      ''Observe and change one explicitly selected native folder''
      CLASS_INTERACTIVE [DOMAIN_FOLDERS]
      ROLE_MUTATION TRIGGER_REQUEST FANOUT_ACCOUNT OWNER_CALLER
      None []),
     (SOURCE_NOTE_COMMAND, consumer ''Contact note command''
      ''Observe and change one explicitly selected contact note''
      CLASS_INTERACTIVE [DOMAIN_ENTITIES]
      ROLE_MUTATION TRIGGER_REQUEST FANOUT_ENTITY OWNER_CALLER
      None []),
     (SOURCE_CONTACT_COMMAND, consumer ''Contact command''
      ''Change one explicitly selected contact''
      CLASS_INTERACTIVE [DOMAIN_ENTITIES]
      ROLE_MUTATION TRIGGER_REQUEST FANOUT_ENTITY OWNER_CALLER
      None []),
     (SOURCE_SCHEDULED_MUTATION, consumer ''Scheduled message mutation''
      ''Create, edit, or cancel one explicitly selected native scheduled message''
      CLASS_INTERACTIVE [DOMAIN_SCHEDULED_MESSAGES]
      ROLE_MUTATION TRIGGER_REQUEST FANOUT_DIALOG OWNER_CALLER
      None [])]"

definition REGISTRY_ROWS :: "(TelegramRpcSource \<times> (registry_error + TelegramRpcConsumerSpec)) list" where
  "REGISTRY_ROWS = registry_rows_1 @ registry_rows_2 @ registry_rows_3 @ registry_rows_4 @ registry_rows_5"

type_synonym registry = "(TelegramRpcSource \<times> TelegramRpcConsumerSpec) list"

definition REGISTRY :: "registry_error + registry" where
  "REGISTRY = collect_rows REGISTRY_ROWS"

definition validate_registry :: "registry \<Rightarrow> registry_error + unit" where
  "validate_registry registry =
     then_check (guard (set (map fst registry) = set Enum.enum) Registry_Incomplete)
       (check_all
          (\<lambda>(source, spec).
             guard (py_strip (cs_label spec) \<noteq> [] \<and> py_strip (cs_purpose spec) \<noteq> [] \<and>
                    aq_domains (cs_acquisition spec) \<noteq> {})
               (Incomplete_Semantics source))
          registry)"

text \<open>
  \<^verbatim>\<open>TELEGRAM_RPC_CONSUMERS\<close>, the read-only view published after validation. Module
  import fails when a row or the validation raises.
\<close>

definition TELEGRAM_RPC_CONSUMERS :: "registry_error + registry" where
  "TELEGRAM_RPC_CONSUMERS =
     (case REGISTRY of Inl e \<Rightarrow> Inl e | Inr r \<Rightarrow> then_check (validate_registry r) (Inr r))"

definition registry_get :: "registry \<Rightarrow> TelegramRpcSource \<Rightarrow> TelegramRpcConsumerSpec option" where
  "registry_get r source = od_get r source"

definition telegram_rpc_consumer :: "TelegramRpcSource \<Rightarrow> registry_error + TelegramRpcConsumerSpec" where
  "telegram_rpc_consumer source =
     (case TELEGRAM_RPC_CONSUMERS of
        Inl e \<Rightarrow> Inl e
      | Inr r \<Rightarrow> (case registry_get r source of
            Some spec \<Rightarrow> Inr spec
          | None \<Rightarrow> Inl (Unknown_Source source)))"

section \<open>Facts\<close>

text \<open>
  The three method tables share no identity, so the order in which \<open>rpc_effect\<close> tries
  them is irrelevant: a method has an effect exactly when its own table lists it.
\<close>

lemma method_tables_disjoint:
  "set READ_METHODS \<inter> set MUTATION_METHODS = {}"
  "set READ_METHODS \<inter> set AUTH_METHODS = {}"
  "set MUTATION_METHODS \<inter> set AUTH_METHODS = {}"
  by code_simp+

end
