(* ===== verification/Demand_Contracts.thy ===== *)
theory Demand_Contracts
  imports Rpc_Consumers
begin

text \<open>
  The demand contracts of \<^verbatim>\<open>src/mcp_telegram/telegram_rpc_consumers.py\<close> (second half):
  the durable demand order, one contract per root operation, and the start-up
  validation of the whole table. Each \<^verbatim>\<open>_validate_*\<close> function is a check that returns
  its own error; \<^verbatim>\<open>isinstance\<close> tests are discharged by HOL's types, and every rational
  timeout is finite.
\<close>

section \<open>Constants and records\<close>

definition CONNECTION_BOOTSTRAP_MAX_RPC_ATTEMPTS :: int where
  "CONNECTION_BOOTSTRAP_MAX_RPC_ATTEMPTS = 16"

definition OPERATOR_AUTH_MAX_RPC_ATTEMPTS :: int where
  "OPERATOR_AUTH_MAX_RPC_ATTEMPTS = 32"

definition RETAINED_DEMAND_KINDS :: "DemandKind set" where
  "RETAINED_DEMAND_KINDS = {KIND_ENTITY_PROFILE_REFRESH}"

definition DURABLE_DEMAND_ORDER :: "DemandKind list" where
  "DURABLE_DEMAND_ORDER =
    [KIND_SELF_PROFILE_MAINTENANCE, KIND_ENTITY_PROFILE_REFRESH, KIND_DELTA_GAP_FILL,
     KIND_DM_DELETION_RECONCILIATION, KIND_DELTA_ACCESS_PROBE, KIND_HOT_ACTIVITY_PAGE,
     KIND_LIVE_HYDRATION_BATCH, KIND_FULL_SYNC_DM_ENROLLMENT, KIND_FULL_SYNC_PAGE,
     KIND_DIALOG_BOOTSTRAP, KIND_DIALOG_LIGHT_RECONCILIATION, KIND_ARCHIVE_BACKFILL,
     KIND_ARCHIVE_INCREMENTAL, KIND_COLD_PEER_PAGE, KIND_BACKFILL_HYDRATION_BATCH,
     KIND_FOLDER_SNAPSHOT, KIND_CONTACT_CATALOGUE, KIND_TOPIC_SNAPSHOT,
     KIND_MESSAGE_FACT_REFRESH, KIND_READ_RECEIPT_BATCH, KIND_SCHEDULED_REPAIR,
     KIND_SCHEDULED_DISCOVERY, KIND_MESSAGE_IMAGE_ACQUISITION, KIND_DRAFT_SNAPSHOT,
     KIND_LINKED_CHAT_REFRESH]"

definition EXPECTED_DURABLE_DEMAND_COUNT :: nat where
  "EXPECTED_DURABLE_DEMAND_COUNT = 25"

text \<open>Freshness targets are \<^verbatim>\<open>timedelta\<close>s of whole seconds.\<close>

record DemandContract =
  dc_kind :: DemandKind
  dc_source :: TelegramRpcSource
  dc_service_class :: RpcServiceClass
  dc_execution_mode :: ExecutionMode
  dc_admission_timeout_seconds :: time
  dc_freshness_target :: "int option"
  dc_max_rpc_attempts_per_slice :: "int option"
  dc_source_outstanding_limit :: int

fun ADMISSION_TIMEOUT_SECONDS :: "RpcServiceClass \<Rightarrow> time" where
  "ADMISSION_TIMEOUT_SECONDS CLASS_INTERACTIVE = 15"
| "ADMISSION_TIMEOUT_SECONDS CLASS_LIVE_SYNC = 60"
| "ADMISSION_TIMEOUT_SECONDS CLASS_BACKGROUND = 900"

fun SOURCE_OUTSTANDING_LIMIT :: "RpcServiceClass \<Rightarrow> int" where
  "SOURCE_OUTSTANDING_LIMIT CLASS_INTERACTIVE = 8"
| "SOURCE_OUTSTANDING_LIMIT CLASS_LIVE_SYNC = 16"
| "SOURCE_OUTSTANDING_LIMIT CLASS_BACKGROUND = 8"

definition contract_in ::
    "registry \<Rightarrow> DemandKind \<Rightarrow> TelegramRpcSource \<Rightarrow> ExecutionMode \<Rightarrow> int option \<Rightarrow> int option \<Rightarrow>
     registry_error + DemandContract" where
  "contract_in registry kind source execution_mode freshness_target max_rpc_attempts =
     (case registry_get registry source of
        None \<Rightarrow> Inl (Unknown_Source source)
      | Some spec \<Rightarrow>
         (let service_class = as_service_class (cs_admission spec) in Inr
           \<lparr>dc_kind = kind, dc_source = source, dc_service_class = service_class,
            dc_execution_mode = execution_mode,
            dc_admission_timeout_seconds = ADMISSION_TIMEOUT_SECONDS service_class,
            dc_freshness_target = freshness_target,
            dc_max_rpc_attempts_per_slice = max_rpc_attempts,
            dc_source_outstanding_limit = SOURCE_OUTSTANDING_LIMIT service_class\<rparr>))"

text \<open>\<^verbatim>\<open>_contract\<close> reads the module's own registry.\<close>

definition contract ::
    "DemandKind \<Rightarrow> TelegramRpcSource \<Rightarrow> ExecutionMode \<Rightarrow> int option \<Rightarrow> int option \<Rightarrow>
     registry_error + DemandContract" where
  "contract kind source execution_mode freshness_target max_rpc_attempts =
     (case REGISTRY of
        Inl e \<Rightarrow> Inl e
      | Inr r \<Rightarrow> contract_in r kind source execution_mode freshness_target max_rpc_attempts)"

section \<open>The contracts\<close>

definition contract_rows_1 :: "(DemandKind \<times> (registry_error + DemandContract)) list" where
  "contract_rows_1 =
    [(KIND_OPERATOR_AUTH, contract KIND_OPERATOR_AUTH
        SOURCE_OPERATOR_AUTH EXEC_PROTOCOL None (Some OPERATOR_AUTH_MAX_RPC_ATTEMPTS)),
     (KIND_OPERATOR_LOGOUT, contract KIND_OPERATOR_LOGOUT
        SOURCE_OPERATOR_LOGOUT EXEC_INLINE None (Some 1)),
     (KIND_MCP_REMOTE_ACQUISITION, contract KIND_MCP_REMOTE_ACQUISITION
        SOURCE_MCP_INTERACTIVE EXEC_INLINE None None),
     (KIND_CHAT_EXPORT_OPERATION, contract KIND_CHAT_EXPORT_OPERATION
        SOURCE_CHAT_EXPORT EXEC_INLINE None None),
     (KIND_ENTITY_LOOKUP, contract KIND_ENTITY_LOOKUP
        SOURCE_DIALOG_RESOLUTION EXEC_INLINE None None),
     (KIND_TOPIC_LOOKUP, contract KIND_TOPIC_LOOKUP
        SOURCE_TOPIC_RESOLUTION EXEC_INLINE None None),
     (KIND_FOREGROUND_ENTITY_FACTS, contract KIND_FOREGROUND_ENTITY_FACTS
        SOURCE_ENTITY_INFO_FOREGROUND EXEC_INLINE None None),
     (KIND_ENTITY_PROFILE_REFRESH, contract KIND_ENTITY_PROFILE_REFRESH
        SOURCE_ENTITY_INFO_REFRESH EXEC_DURABLE None (Some 1)),
     (KIND_ACCOUNT_TRACE_PAGE, contract KIND_ACCOUNT_TRACE_PAGE
        SOURCE_ACCOUNT_TRACE EXEC_INLINE None None),
     (KIND_TELETHON_UPDATE_DIFFERENCE, contract KIND_TELETHON_UPDATE_DIFFERENCE
        SOURCE_TELETHON_UPDATE_DIFFERENCE EXEC_PROTOCOL None None),
     (KIND_TELETHON_RECONNECT_PROBE, contract KIND_TELETHON_RECONNECT_PROBE
        SOURCE_TELETHON_RECONNECT_PROBE EXEC_PROTOCOL None None),
     (KIND_TELETHON_CONNECTION_BOOTSTRAP, contract KIND_TELETHON_CONNECTION_BOOTSTRAP
        SOURCE_TELETHON_CONNECTION_BOOTSTRAP EXEC_PROTOCOL None (Some CONNECTION_BOOTSTRAP_MAX_RPC_ATTEMPTS)),
     (KIND_RECONNECT_DIFFERENCE, contract KIND_RECONNECT_DIFFERENCE
        SOURCE_RECONNECT_DIFFERENCE EXEC_INLINE None None),
     (KIND_REALTIME_EVENT_ACQUISITION, contract KIND_REALTIME_EVENT_ACQUISITION
        SOURCE_REALTIME_EVENT EXEC_INLINE None None),
     (KIND_DELTA_GAP_FILL, contract KIND_DELTA_GAP_FILL
        SOURCE_DELTA_SYNC EXEC_DURABLE None (Some 1)),
     (KIND_DM_DELETION_RECONCILIATION, contract KIND_DM_DELETION_RECONCILIATION
        SOURCE_DELTA_SYNC EXEC_DURABLE None (Some 1)),
     (KIND_DELTA_ACCESS_PROBE, contract KIND_DELTA_ACCESS_PROBE
        SOURCE_DELTA_SYNC EXEC_DURABLE None (Some 1)),
     (KIND_HOT_ACTIVITY_PAGE, contract KIND_HOT_ACTIVITY_PAGE
        SOURCE_ACTIVITY_HOT_SWEEP EXEC_DURABLE None (Some 2)),
     (KIND_LIVE_HYDRATION_BATCH, contract KIND_LIVE_HYDRATION_BATCH
        SOURCE_FACT_HYDRATION_LIVE EXEC_DURABLE None (Some 2)),
     (KIND_FULL_SYNC_DM_ENROLLMENT, contract KIND_FULL_SYNC_DM_ENROLLMENT
        SOURCE_FULL_SYNC EXEC_DURABLE None (Some 32)),
     (KIND_FULL_SYNC_PAGE, contract KIND_FULL_SYNC_PAGE
        SOURCE_FULL_SYNC EXEC_DURABLE None (Some 1))]"

definition contract_rows_2 :: "(DemandKind \<times> (registry_error + DemandContract)) list" where
  "contract_rows_2 =
    [(KIND_DIALOG_BOOTSTRAP, contract KIND_DIALOG_BOOTSTRAP
        SOURCE_DIALOG_SYNC EXEC_DURABLE (Some 900) (Some 32)),
     (KIND_DIALOG_LIGHT_RECONCILIATION, contract KIND_DIALOG_LIGHT_RECONCILIATION
        SOURCE_DIALOG_SYNC EXEC_DURABLE None (Some 8)),
     (KIND_ARCHIVE_BACKFILL, contract KIND_ARCHIVE_BACKFILL
        SOURCE_ACTIVITY_ARCHIVE EXEC_DURABLE None (Some 1)),
     (KIND_ARCHIVE_INCREMENTAL, contract KIND_ARCHIVE_INCREMENTAL
        SOURCE_ACTIVITY_ARCHIVE EXEC_DURABLE (Some 3600) (Some 1)),
     (KIND_COLD_PEER_PAGE, contract KIND_COLD_PEER_PAGE
        SOURCE_ACTIVITY_COLD_BACKFILL EXEC_DURABLE None (Some 2)),
     (KIND_BACKFILL_HYDRATION_BATCH, contract KIND_BACKFILL_HYDRATION_BATCH
        SOURCE_FACT_HYDRATION_BACKFILL EXEC_DURABLE None (Some 2)),
     (KIND_FOLDER_SNAPSHOT, contract KIND_FOLDER_SNAPSHOT
        SOURCE_FOLDER_RECONCILIATION EXEC_DURABLE None (Some 2)),
     (KIND_CONTACT_CATALOGUE, contract KIND_CONTACT_CATALOGUE
        SOURCE_CONTACT_CATALOGUE EXEC_DURABLE None (Some 1)),
     (KIND_TOPIC_SNAPSHOT, contract KIND_TOPIC_SNAPSHOT
        SOURCE_TOPIC_RECONCILIATION EXEC_DURABLE None (Some 4)),
     (KIND_MESSAGE_FACT_REFRESH, contract KIND_MESSAGE_FACT_REFRESH
        SOURCE_MESSAGE_FACT_REFRESH EXEC_DURABLE None (Some 16)),
     (KIND_READ_RECEIPT_BATCH, contract KIND_READ_RECEIPT_BATCH
        SOURCE_READ_RECEIPT_PROBE EXEC_DURABLE None (Some 16)),
     (KIND_SCHEDULED_REPAIR, contract KIND_SCHEDULED_REPAIR
        SOURCE_SCHEDULED_MESSAGES EXEC_DURABLE None (Some 16)),
     (KIND_SCHEDULED_DISCOVERY, contract KIND_SCHEDULED_DISCOVERY
        SOURCE_SCHEDULED_MESSAGES EXEC_DURABLE None (Some 16)),
     (KIND_MESSAGE_IMAGE_ACQUISITION, contract KIND_MESSAGE_IMAGE_ACQUISITION
        SOURCE_MESSAGE_IMAGE_ACQUISITION EXEC_DURABLE None (Some 32)),
     (KIND_DRAFT_SNAPSHOT, contract KIND_DRAFT_SNAPSHOT
        SOURCE_DRAFT_SNAPSHOT EXEC_DURABLE None (Some 1)),
     (KIND_DRAFT_MUTATION, contract KIND_DRAFT_MUTATION
        SOURCE_DRAFT_MUTATION EXEC_INLINE None (Some 3)),
     (KIND_FOLDER_COMMAND, contract KIND_FOLDER_COMMAND
        SOURCE_FOLDER_COMMAND EXEC_INLINE None (Some 3))]"

definition contract_rows_3 :: "(DemandKind \<times> (registry_error + DemandContract)) list" where
  "contract_rows_3 =
    [(KIND_NOTE_COMMAND, contract KIND_NOTE_COMMAND
        SOURCE_NOTE_COMMAND EXEC_INLINE None (Some 4)),
     (KIND_CONTACT_COMMAND, contract KIND_CONTACT_COMMAND
        SOURCE_CONTACT_COMMAND EXEC_INLINE None (Some 3)),
     (KIND_SCHEDULED_MUTATION, contract KIND_SCHEDULED_MUTATION
        SOURCE_SCHEDULED_MUTATION EXEC_INLINE None (Some 1)),
     (KIND_SELF_PROFILE_MAINTENANCE, contract KIND_SELF_PROFILE_MAINTENANCE
        SOURCE_MAINTENANCE EXEC_DURABLE None (Some 2)),
     (KIND_LINKED_CHAT_REFRESH, contract KIND_LINKED_CHAT_REFRESH
        SOURCE_LINKED_CHAT_REFRESH EXEC_DURABLE None (Some 1))]"

definition DEMAND_CONTRACT_ROWS :: "(DemandKind \<times> (registry_error + DemandContract)) list" where
  "DEMAND_CONTRACT_ROWS = contract_rows_1 @ contract_rows_2 @ contract_rows_3"

type_synonym contracts = "(DemandKind \<times> DemandContract) list"

definition DEMAND_CONTRACTS :: "registry_error + contracts" where
  "DEMAND_CONTRACTS = collect_rows DEMAND_CONTRACT_ROWS"

section \<open>Validation\<close>

definition validate_contract_identity :: "registry \<Rightarrow> DemandKind \<Rightarrow> DemandContract \<Rightarrow> registry_error + unit" where
  "validate_contract_identity registry kind c =
     then_check (guard (dc_kind c = kind) (Contract_Key_Mismatch kind))
       (case registry_get registry (dc_source c) of
          None \<Rightarrow> Inl (Unknown_Source (dc_source c))
        | Some spec \<Rightarrow>
            guard (dc_service_class c = as_service_class (cs_admission spec))
              (Contract_Class_Mismatch kind))"

text \<open>
  \<^verbatim>\<open>source_limits.setdefault\<close> records the first limit seen for a source; a later
  contract of the same source must agree with it.
\<close>

definition validate_contract_limits ::
    "DemandKind \<Rightarrow> DemandContract \<Rightarrow> (TelegramRpcSource \<rightharpoonup> int) \<Rightarrow>
     registry_error + (TelegramRpcSource \<rightharpoonup> int)" where
  "validate_contract_limits kind c source_limits =
     then_check (guard (0 < dc_admission_timeout_seconds c) (Contract_Timeout kind))
      (then_check (guard (1 \<le> dc_source_outstanding_limit c) (Contract_Outstanding kind))
        (case source_limits (dc_source c) of
           None \<Rightarrow> Inr (source_limits(dc_source c \<mapsto> dc_source_outstanding_limit c))
         | Some previous_limit \<Rightarrow>
             then_check (guard (previous_limit = dc_source_outstanding_limit c)
                 (Contract_Source_Limits (dc_source c)))
               (Inr source_limits)))"

definition validate_contract_freshness :: "DemandKind \<Rightarrow> DemandContract \<Rightarrow> registry_error + unit" where
  "validate_contract_freshness kind c =
     guard (case dc_freshness_target c of None \<Rightarrow> True | Some target \<Rightarrow> 0 < target)
       (Contract_Freshness kind)"

definition validate_attempt_bound :: "DemandKind \<Rightarrow> DemandContract \<Rightarrow> registry_error + unit" where
  "validate_attempt_bound kind c =
     guard (case dc_max_rpc_attempts_per_slice c of None \<Rightarrow> False | Some bound \<Rightarrow> 1 \<le> bound)
       (Contract_Attempt_Bound kind)"

definition validate_durable_producer :: "registry \<Rightarrow> DemandKind \<Rightarrow> DemandContract \<Rightarrow> registry_error + unit" where
  "validate_durable_producer registry kind c =
     (case registry_get registry (dc_source c) of
        None \<Rightarrow> Inl (Unknown_Source (dc_source c))
      | Some spec \<Rightarrow>
          guard (ds_owner (cs_demand spec) = OWNER_PRODUCER \<and>
                 ds_bound (cs_demand spec) \<in> {BOUND_PRODUCER_BOUNDED, BOUND_PRODUCER_RESUMABLE})
            (Contract_Producer kind))"

definition LIFECYCLE_KINDS :: "DemandKind set" where
  "LIFECYCLE_KINDS =
     {KIND_OPERATOR_AUTH, KIND_OPERATOR_LOGOUT, KIND_TELETHON_CONNECTION_BOOTSTRAP,
      KIND_DRAFT_MUTATION, KIND_SCHEDULED_MUTATION, KIND_FOLDER_COMMAND, KIND_NOTE_COMMAND,
      KIND_CONTACT_COMMAND}"

definition validate_contract_durable_policy ::
    "registry \<Rightarrow> DemandKind \<Rightarrow> DemandContract \<Rightarrow> registry_error + unit" where
  "validate_contract_durable_policy registry kind c =
     then_check (validate_contract_freshness kind c)
       (if dc_execution_mode c = EXEC_DURABLE
        then then_check (validate_attempt_bound kind c) (validate_durable_producer registry kind c)
        else if kind \<in> LIFECYCLE_KINDS
        then then_check (validate_attempt_bound kind c)
               (guard (dc_freshness_target c = None) (Contract_Lifecycle_Freshness kind))
        else guard (dc_max_rpc_attempts_per_slice c = None \<and> dc_freshness_target c = None)
               (Contract_Durable_Only kind))"

definition validate_contract_coverage :: "contracts \<Rightarrow> registry_error + unit" where
  "validate_contract_coverage contracts =
     then_check (guard (set (map fst contracts) = set Enum.enum) Contract_Coverage)
       (guard (set (map (dc_source \<circ> snd) contracts) = set Enum.enum) Contract_Source_Coverage)"

definition validate_durable_order :: "DemandKind list \<Rightarrow> registry_error + unit" where
  "validate_durable_order order =
     then_check (guard (length order = EXPECTED_DURABLE_DEMAND_COUNT) Durable_Order_Size)
       (guard (card (set order) = EXPECTED_DURABLE_DEMAND_COUNT) Durable_Order_Size)"

definition durable_kinds :: "contracts \<Rightarrow> DemandKind set" where
  "durable_kinds contracts =
     set (map fst (filter (\<lambda>(kind, c). dc_execution_mode c = EXEC_DURABLE) contracts))"

definition validate_durable_modes :: "DemandKind list \<Rightarrow> contracts \<Rightarrow> registry_error + unit" where
  "validate_durable_modes order contracts =
     guard (durable_kinds contracts = set order) Durable_Order_Modes"

fun validate_each ::
    "registry \<Rightarrow> contracts \<Rightarrow> (TelegramRpcSource \<rightharpoonup> int) \<Rightarrow> registry_error + unit" where
  "validate_each registry [] source_limits = Inr ()"
| "validate_each registry ((kind, c) # rest) source_limits =
     then_check (validate_contract_identity registry kind c)
       (case validate_contract_limits kind c source_limits of
          Inl e \<Rightarrow> Inl e
        | Inr source_limits' \<Rightarrow>
            then_check (validate_contract_durable_policy registry kind c)
              (validate_each registry rest source_limits'))"

definition validate_demand_contracts :: "registry \<Rightarrow> contracts \<Rightarrow> registry_error + unit" where
  "validate_demand_contracts registry contracts =
     then_check (validate_contract_coverage contracts)
       (then_check (validate_durable_order DURABLE_DEMAND_ORDER)
         (then_check (validate_durable_modes DURABLE_DEMAND_ORDER contracts)
           (validate_each registry contracts Map.empty)))"

text \<open>
  Module import: the registry is validated, then the contracts; the read-only views are
  published only when nothing raised.
\<close>

definition TELEGRAM_DEMAND_CONTRACTS :: "registry_error + contracts" where
  "TELEGRAM_DEMAND_CONTRACTS =
     (case TELEGRAM_RPC_CONSUMERS of
        Inl e \<Rightarrow> Inl e
      | Inr r \<Rightarrow> (case DEMAND_CONTRACTS of
            Inl e \<Rightarrow> Inl e
          | Inr cs \<Rightarrow> then_check (validate_demand_contracts r cs) (Inr cs)))"

section \<open>Queries\<close>

definition demand_contract :: "DemandKind \<Rightarrow> registry_error + DemandContract" where
  "demand_contract kind =
     (case TELEGRAM_DEMAND_CONTRACTS of
        Inl e \<Rightarrow> Inl e
      | Inr cs \<Rightarrow> (case od_get cs kind of None \<Rightarrow> Inl Contract_Coverage | Some c \<Rightarrow> Inr c))"

definition demand_freshness_seconds :: "DemandKind \<Rightarrow> registry_error + int" where
  "demand_freshness_seconds kind =
     (case demand_contract kind of
        Inl e \<Rightarrow> Inl e
      | Inr c \<Rightarrow> (case dc_freshness_target c of
            None \<Rightarrow> Inl (No_Freshness_Target kind)
          | Some seconds \<Rightarrow> then_check (guard (0 < seconds) (Bad_Freshness_Target kind)) (Inr seconds)))"

section \<open>The shipped tables load\<close>

text \<open>
  Facts about the shipped tables are computed once, on the part of the registry that
  policy depends on (service class, owner and bound of each source), and reused from
  there: \<open>source_class\<close>, \<open>source_owner\<close> and \<open>source_bound\<close>.
\<close>

definition registry_policy ::
    "registry \<Rightarrow> (TelegramRpcSource \<times> RpcServiceClass \<times> DemandPolicyOwner \<times> DemandBound) list" where
  "registry_policy r =
     map (\<lambda>(s, spec). (s, as_service_class (cs_admission spec),
                          ds_owner (cs_demand spec), ds_bound (cs_demand spec))) r"

definition shipped_policy ::
    "(TelegramRpcSource \<times> RpcServiceClass \<times> DemandPolicyOwner \<times> DemandBound) list" where
  "shipped_policy =
    [(SOURCE_OPERATOR_AUTH, CLASS_BACKGROUND, OWNER_CALLER, BOUND_REQUEST),
     (SOURCE_OPERATOR_LOGOUT, CLASS_BACKGROUND, OWNER_CALLER, BOUND_REQUEST),
     (SOURCE_MCP_INTERACTIVE, CLASS_INTERACTIVE, OWNER_CALLER, BOUND_REQUEST),
     (SOURCE_CHAT_EXPORT, CLASS_BACKGROUND, OWNER_CALLER, BOUND_REQUEST),
     (SOURCE_DIALOG_RESOLUTION, CLASS_INTERACTIVE, OWNER_CALLER, BOUND_REQUEST),
     (SOURCE_TOPIC_RESOLUTION, CLASS_INTERACTIVE, OWNER_CALLER, BOUND_REQUEST),
     (SOURCE_ENTITY_INFO_FOREGROUND, CLASS_INTERACTIVE, OWNER_CALLER, BOUND_REQUEST),
     (SOURCE_ENTITY_INFO_REFRESH, CLASS_BACKGROUND, OWNER_PRODUCER, BOUND_PRODUCER_BOUNDED),
     (SOURCE_ACCOUNT_TRACE, CLASS_INTERACTIVE, OWNER_CALLER, BOUND_REQUEST),
     (SOURCE_TELETHON_UPDATE_DIFFERENCE, CLASS_LIVE_SYNC, OWNER_TELETHON, BOUND_TELETHON),
     (SOURCE_TELETHON_RECONNECT_PROBE, CLASS_LIVE_SYNC, OWNER_TELETHON, BOUND_TELETHON),
     (SOURCE_TELETHON_CONNECTION_BOOTSTRAP, CLASS_LIVE_SYNC, OWNER_TELETHON, BOUND_TELETHON),
     (SOURCE_RECONNECT_DIFFERENCE, CLASS_LIVE_SYNC, OWNER_PRODUCER, BOUND_PRODUCER_BOUNDED),
     (SOURCE_REALTIME_EVENT, CLASS_LIVE_SYNC, OWNER_PRODUCER, BOUND_EVENT),
     (SOURCE_DELTA_SYNC, CLASS_LIVE_SYNC, OWNER_PRODUCER, BOUND_PRODUCER_BOUNDED),
     (SOURCE_ACTIVITY_HOT_SWEEP, CLASS_LIVE_SYNC, OWNER_PRODUCER, BOUND_PRODUCER_BOUNDED),
     (SOURCE_FACT_HYDRATION_LIVE, CLASS_LIVE_SYNC, OWNER_PRODUCER, BOUND_PRODUCER_BOUNDED),
     (SOURCE_FULL_SYNC, CLASS_BACKGROUND, OWNER_PRODUCER, BOUND_PRODUCER_RESUMABLE),
     (SOURCE_DIALOG_SYNC, CLASS_BACKGROUND, OWNER_PRODUCER, BOUND_PRODUCER_RESUMABLE),
     (SOURCE_ACTIVITY_ARCHIVE, CLASS_BACKGROUND, OWNER_PRODUCER, BOUND_PRODUCER_RESUMABLE),
     (SOURCE_ACTIVITY_COLD_BACKFILL, CLASS_BACKGROUND, OWNER_PRODUCER, BOUND_PRODUCER_BOUNDED),
     (SOURCE_FACT_HYDRATION_BACKFILL, CLASS_BACKGROUND, OWNER_PRODUCER, BOUND_PRODUCER_BOUNDED),
     (SOURCE_FOLDER_RECONCILIATION, CLASS_BACKGROUND, OWNER_PRODUCER, BOUND_PRODUCER_BOUNDED),
     (SOURCE_CONTACT_CATALOGUE, CLASS_BACKGROUND, OWNER_PRODUCER, BOUND_PRODUCER_BOUNDED),
     (SOURCE_TOPIC_RECONCILIATION, CLASS_BACKGROUND, OWNER_PRODUCER, BOUND_PRODUCER_BOUNDED),
     (SOURCE_MESSAGE_FACT_REFRESH, CLASS_BACKGROUND, OWNER_PRODUCER, BOUND_PRODUCER_BOUNDED),
     (SOURCE_READ_RECEIPT_PROBE, CLASS_BACKGROUND, OWNER_PRODUCER, BOUND_PRODUCER_BOUNDED),
     (SOURCE_SCHEDULED_MESSAGES, CLASS_BACKGROUND, OWNER_PRODUCER, BOUND_PRODUCER_BOUNDED),
     (SOURCE_MESSAGE_IMAGE_ACQUISITION, CLASS_BACKGROUND, OWNER_PRODUCER, BOUND_PRODUCER_BOUNDED),
     (SOURCE_MAINTENANCE, CLASS_BACKGROUND, OWNER_PRODUCER, BOUND_PRODUCER_BOUNDED),
     (SOURCE_LINKED_CHAT_REFRESH, CLASS_BACKGROUND, OWNER_PRODUCER, BOUND_PRODUCER_BOUNDED),
     (SOURCE_DRAFT_SNAPSHOT, CLASS_LIVE_SYNC, OWNER_PRODUCER, BOUND_PRODUCER_BOUNDED),
     (SOURCE_DRAFT_MUTATION, CLASS_INTERACTIVE, OWNER_CALLER, BOUND_REQUEST),
     (SOURCE_FOLDER_COMMAND, CLASS_INTERACTIVE, OWNER_CALLER, BOUND_REQUEST),
     (SOURCE_NOTE_COMMAND, CLASS_INTERACTIVE, OWNER_CALLER, BOUND_REQUEST),
     (SOURCE_CONTACT_COMMAND, CLASS_INTERACTIVE, OWNER_CALLER, BOUND_REQUEST),
     (SOURCE_SCHEDULED_MUTATION, CLASS_INTERACTIVE, OWNER_CALLER, BOUND_REQUEST)]"

definition source_class :: "TelegramRpcSource \<Rightarrow> RpcServiceClass" where
  "source_class s = fst (the (od_get shipped_policy s))"

definition source_owner :: "TelegramRpcSource \<Rightarrow> DemandPolicyOwner" where
  "source_owner s = fst (snd (the (od_get shipped_policy s)))"

definition source_bound :: "TelegramRpcSource \<Rightarrow> DemandBound" where
  "source_bound s = snd (snd (the (od_get shipped_policy s)))"

lemma registry_policy_shipped:
  "(case REGISTRY of Inl e \<Rightarrow> [] | Inr r \<Rightarrow> registry_policy r) = shipped_policy"
  by code_simp

lemma shipped_registry_valid:
  "case TELEGRAM_RPC_CONSUMERS of Inl _ \<Rightarrow> False | Inr _ \<Rightarrow> True"
  by code_simp

lemma shipped_policy_covers: "list_all (\<lambda>s. od_get shipped_policy s \<noteq> None) Enum.enum"
  by code_simp

lemma shipped_policy_Some:
  "od_get shipped_policy s = Some (source_class s, source_owner s, source_bound s)"
proof -
  have "od_get shipped_policy s \<noteq> None"
    using shipped_policy_covers enum_UNIV [where 'a = TelegramRpcSource] by (auto simp: list_all_iff)
  then show ?thesis by (auto simp: source_class_def source_owner_def source_bound_def)
qed

lemma registry_policy_get:
  "od_get (registry_policy r) s =
     map_option (\<lambda>spec. (as_service_class (cs_admission spec),
                          ds_owner (cs_demand spec), ds_bound (cs_demand spec))) (registry_get r s)"
  unfolding registry_policy_def registry_get_def by (induction r) auto

text \<open>The registry loads, and every source has an entry with its shipped policy.\<close>

lemma shipped_registry:
  obtains r where "REGISTRY = Inr r" and "TELEGRAM_RPC_CONSUMERS = Inr r"
    and "validate_registry r = Inr ()" and "registry_policy r = shipped_policy"
proof -
  obtain r where r: "REGISTRY = Inr r" "registry_policy r = shipped_policy"
  proof (cases REGISTRY)
    case (Inl e)
    then have "[] = shipped_policy" using registry_policy_shipped unfolding Inl by simp
    then have False by (simp add: shipped_policy_def)
    then show ?thesis ..
  next
    case (Inr r)
    then have "registry_policy r = shipped_policy" using registry_policy_shipped unfolding Inr by simp
    with Inr show ?thesis by (rule that)
  qed
  have load: "TELEGRAM_RPC_CONSUMERS = then_check (validate_registry r) (Inr r)"
    unfolding TELEGRAM_RPC_CONSUMERS_def r(1) by simp
  have "validate_registry r = Inr ()"
    using shipped_registry_valid unfolding load by (cases "validate_registry r") auto
  then show ?thesis using that r load by simp
qed

lemma shipped_consumer:
  assumes "registry_policy r = shipped_policy"
  obtains spec where "registry_get r s = Some spec"
    and "as_service_class (cs_admission spec) = source_class s"
    and "ds_owner (cs_demand spec) = source_owner s"
    and "ds_bound (cs_demand spec) = source_bound s"
proof -
  have get: "map_option (\<lambda>spec. (as_service_class (cs_admission spec),
          ds_owner (cs_demand spec), ds_bound (cs_demand spec))) (registry_get r s) =
        Some (source_class s, source_owner s, source_bound s)"
    unfolding registry_policy_get [symmetric] assms by (rule shipped_policy_Some)
  then show ?thesis using that by (cases "registry_get r s") auto
qed

definition shipped_contract ::
    "DemandKind \<Rightarrow> TelegramRpcSource \<Rightarrow> ExecutionMode \<Rightarrow> int option \<Rightarrow> int option \<Rightarrow> DemandContract" where
  "shipped_contract kind s m f x =
     \<lparr>dc_kind = kind, dc_source = s, dc_service_class = source_class s,
      dc_execution_mode = m, dc_admission_timeout_seconds = ADMISSION_TIMEOUT_SECONDS (source_class s),
      dc_freshness_target = f, dc_max_rpc_attempts_per_slice = x,
      dc_source_outstanding_limit = SOURCE_OUTSTANDING_LIMIT (source_class s)\<rparr>"

lemma contract_shipped: "contract kind s m f x = Inr (shipped_contract kind s m f x)"
proof -
  obtain r where r: "REGISTRY = Inr r" "registry_policy r = shipped_policy"
    by (rule shipped_registry)
  obtain spec where "registry_get r s = Some spec" "as_service_class (cs_admission spec) = source_class s"
    using r(2) by (rule shipped_consumer)
  then show ?thesis
    unfolding contract_def r(1) by (simp add: contract_in_def shipped_contract_def Let_def)
qed

lemma shipped_contract_simps [simp]:
  "dc_kind (shipped_contract k s m f x) = k" "dc_source (shipped_contract k s m f x) = s"
  "dc_service_class (shipped_contract k s m f x) = source_class s"
  "dc_execution_mode (shipped_contract k s m f x) = m"
  "dc_admission_timeout_seconds (shipped_contract k s m f x) = ADMISSION_TIMEOUT_SECONDS (source_class s)"
  "dc_freshness_target (shipped_contract k s m f x) = f"
  "dc_max_rpc_attempts_per_slice (shipped_contract k s m f x) = x"
  "dc_source_outstanding_limit (shipped_contract k s m f x) = SOURCE_OUTSTANDING_LIMIT (source_class s)"
  by (simp_all add: shipped_contract_def)

definition shipped_contracts :: contracts where
  "shipped_contracts =
    [(KIND_OPERATOR_AUTH, shipped_contract KIND_OPERATOR_AUTH
        SOURCE_OPERATOR_AUTH EXEC_PROTOCOL None (Some OPERATOR_AUTH_MAX_RPC_ATTEMPTS)),
     (KIND_OPERATOR_LOGOUT, shipped_contract KIND_OPERATOR_LOGOUT
        SOURCE_OPERATOR_LOGOUT EXEC_INLINE None (Some 1)),
     (KIND_MCP_REMOTE_ACQUISITION, shipped_contract KIND_MCP_REMOTE_ACQUISITION
        SOURCE_MCP_INTERACTIVE EXEC_INLINE None None),
     (KIND_CHAT_EXPORT_OPERATION, shipped_contract KIND_CHAT_EXPORT_OPERATION
        SOURCE_CHAT_EXPORT EXEC_INLINE None None),
     (KIND_ENTITY_LOOKUP, shipped_contract KIND_ENTITY_LOOKUP
        SOURCE_DIALOG_RESOLUTION EXEC_INLINE None None),
     (KIND_TOPIC_LOOKUP, shipped_contract KIND_TOPIC_LOOKUP
        SOURCE_TOPIC_RESOLUTION EXEC_INLINE None None),
     (KIND_FOREGROUND_ENTITY_FACTS, shipped_contract KIND_FOREGROUND_ENTITY_FACTS
        SOURCE_ENTITY_INFO_FOREGROUND EXEC_INLINE None None),
     (KIND_ENTITY_PROFILE_REFRESH, shipped_contract KIND_ENTITY_PROFILE_REFRESH
        SOURCE_ENTITY_INFO_REFRESH EXEC_DURABLE None (Some 1)),
     (KIND_ACCOUNT_TRACE_PAGE, shipped_contract KIND_ACCOUNT_TRACE_PAGE
        SOURCE_ACCOUNT_TRACE EXEC_INLINE None None),
     (KIND_TELETHON_UPDATE_DIFFERENCE, shipped_contract KIND_TELETHON_UPDATE_DIFFERENCE
        SOURCE_TELETHON_UPDATE_DIFFERENCE EXEC_PROTOCOL None None),
     (KIND_TELETHON_RECONNECT_PROBE, shipped_contract KIND_TELETHON_RECONNECT_PROBE
        SOURCE_TELETHON_RECONNECT_PROBE EXEC_PROTOCOL None None),
     (KIND_TELETHON_CONNECTION_BOOTSTRAP, shipped_contract KIND_TELETHON_CONNECTION_BOOTSTRAP
        SOURCE_TELETHON_CONNECTION_BOOTSTRAP EXEC_PROTOCOL None (Some CONNECTION_BOOTSTRAP_MAX_RPC_ATTEMPTS)),
     (KIND_RECONNECT_DIFFERENCE, shipped_contract KIND_RECONNECT_DIFFERENCE
        SOURCE_RECONNECT_DIFFERENCE EXEC_INLINE None None),
     (KIND_REALTIME_EVENT_ACQUISITION, shipped_contract KIND_REALTIME_EVENT_ACQUISITION
        SOURCE_REALTIME_EVENT EXEC_INLINE None None),
     (KIND_DELTA_GAP_FILL, shipped_contract KIND_DELTA_GAP_FILL
        SOURCE_DELTA_SYNC EXEC_DURABLE None (Some 1)),
     (KIND_DM_DELETION_RECONCILIATION, shipped_contract KIND_DM_DELETION_RECONCILIATION
        SOURCE_DELTA_SYNC EXEC_DURABLE None (Some 1)),
     (KIND_DELTA_ACCESS_PROBE, shipped_contract KIND_DELTA_ACCESS_PROBE
        SOURCE_DELTA_SYNC EXEC_DURABLE None (Some 1)),
     (KIND_HOT_ACTIVITY_PAGE, shipped_contract KIND_HOT_ACTIVITY_PAGE
        SOURCE_ACTIVITY_HOT_SWEEP EXEC_DURABLE None (Some 2)),
     (KIND_LIVE_HYDRATION_BATCH, shipped_contract KIND_LIVE_HYDRATION_BATCH
        SOURCE_FACT_HYDRATION_LIVE EXEC_DURABLE None (Some 2)),
     (KIND_FULL_SYNC_DM_ENROLLMENT, shipped_contract KIND_FULL_SYNC_DM_ENROLLMENT
        SOURCE_FULL_SYNC EXEC_DURABLE None (Some 32)),
     (KIND_FULL_SYNC_PAGE, shipped_contract KIND_FULL_SYNC_PAGE
        SOURCE_FULL_SYNC EXEC_DURABLE None (Some 1)),
     (KIND_DIALOG_BOOTSTRAP, shipped_contract KIND_DIALOG_BOOTSTRAP
        SOURCE_DIALOG_SYNC EXEC_DURABLE (Some 900) (Some 32)),
     (KIND_DIALOG_LIGHT_RECONCILIATION, shipped_contract KIND_DIALOG_LIGHT_RECONCILIATION
        SOURCE_DIALOG_SYNC EXEC_DURABLE None (Some 8)),
     (KIND_ARCHIVE_BACKFILL, shipped_contract KIND_ARCHIVE_BACKFILL
        SOURCE_ACTIVITY_ARCHIVE EXEC_DURABLE None (Some 1)),
     (KIND_ARCHIVE_INCREMENTAL, shipped_contract KIND_ARCHIVE_INCREMENTAL
        SOURCE_ACTIVITY_ARCHIVE EXEC_DURABLE (Some 3600) (Some 1)),
     (KIND_COLD_PEER_PAGE, shipped_contract KIND_COLD_PEER_PAGE
        SOURCE_ACTIVITY_COLD_BACKFILL EXEC_DURABLE None (Some 2)),
     (KIND_BACKFILL_HYDRATION_BATCH, shipped_contract KIND_BACKFILL_HYDRATION_BATCH
        SOURCE_FACT_HYDRATION_BACKFILL EXEC_DURABLE None (Some 2)),
     (KIND_FOLDER_SNAPSHOT, shipped_contract KIND_FOLDER_SNAPSHOT
        SOURCE_FOLDER_RECONCILIATION EXEC_DURABLE None (Some 2)),
     (KIND_CONTACT_CATALOGUE, shipped_contract KIND_CONTACT_CATALOGUE
        SOURCE_CONTACT_CATALOGUE EXEC_DURABLE None (Some 1)),
     (KIND_TOPIC_SNAPSHOT, shipped_contract KIND_TOPIC_SNAPSHOT
        SOURCE_TOPIC_RECONCILIATION EXEC_DURABLE None (Some 4)),
     (KIND_MESSAGE_FACT_REFRESH, shipped_contract KIND_MESSAGE_FACT_REFRESH
        SOURCE_MESSAGE_FACT_REFRESH EXEC_DURABLE None (Some 16)),
     (KIND_READ_RECEIPT_BATCH, shipped_contract KIND_READ_RECEIPT_BATCH
        SOURCE_READ_RECEIPT_PROBE EXEC_DURABLE None (Some 16)),
     (KIND_SCHEDULED_REPAIR, shipped_contract KIND_SCHEDULED_REPAIR
        SOURCE_SCHEDULED_MESSAGES EXEC_DURABLE None (Some 16)),
     (KIND_SCHEDULED_DISCOVERY, shipped_contract KIND_SCHEDULED_DISCOVERY
        SOURCE_SCHEDULED_MESSAGES EXEC_DURABLE None (Some 16)),
     (KIND_MESSAGE_IMAGE_ACQUISITION, shipped_contract KIND_MESSAGE_IMAGE_ACQUISITION
        SOURCE_MESSAGE_IMAGE_ACQUISITION EXEC_DURABLE None (Some 32)),
     (KIND_DRAFT_SNAPSHOT, shipped_contract KIND_DRAFT_SNAPSHOT
        SOURCE_DRAFT_SNAPSHOT EXEC_DURABLE None (Some 1)),
     (KIND_DRAFT_MUTATION, shipped_contract KIND_DRAFT_MUTATION
        SOURCE_DRAFT_MUTATION EXEC_INLINE None (Some 3)),
     (KIND_FOLDER_COMMAND, shipped_contract KIND_FOLDER_COMMAND
        SOURCE_FOLDER_COMMAND EXEC_INLINE None (Some 3)),
     (KIND_NOTE_COMMAND, shipped_contract KIND_NOTE_COMMAND
        SOURCE_NOTE_COMMAND EXEC_INLINE None (Some 4)),
     (KIND_CONTACT_COMMAND, shipped_contract KIND_CONTACT_COMMAND
        SOURCE_CONTACT_COMMAND EXEC_INLINE None (Some 3)),
     (KIND_SCHEDULED_MUTATION, shipped_contract KIND_SCHEDULED_MUTATION
        SOURCE_SCHEDULED_MUTATION EXEC_INLINE None (Some 1)),
     (KIND_SELF_PROFILE_MAINTENANCE, shipped_contract KIND_SELF_PROFILE_MAINTENANCE
        SOURCE_MAINTENANCE EXEC_DURABLE None (Some 2)),
     (KIND_LINKED_CHAT_REFRESH, shipped_contract KIND_LINKED_CHAT_REFRESH
        SOURCE_LINKED_CHAT_REFRESH EXEC_DURABLE None (Some 1))]"

lemma demand_contracts_shipped: "DEMAND_CONTRACTS = Inr shipped_contracts"
  by (simp add: DEMAND_CONTRACTS_def DEMAND_CONTRACT_ROWS_def contract_rows_1_def
      contract_rows_2_def contract_rows_3_def contract_shipped shipped_contracts_def)


section \<open>The shipped contracts pass the validation\<close>

text \<open>
  For contracts built by \<open>contract\<close> the checks that read the registry reduce to the
  shipped policy, and the \<open>setdefault\<close> table only ever holds the limit of the source's
  class, so the whole validation is a check of each row by itself.
\<close>

definition row_policy_ok :: "DemandKind \<times> DemandContract \<Rightarrow> bool" where
  "row_policy_ok = (\<lambda>(kind, c).
     dc_kind c = kind \<and> dc_service_class c = source_class (dc_source c) \<and>
     dc_admission_timeout_seconds c = ADMISSION_TIMEOUT_SECONDS (source_class (dc_source c)) \<and>
     dc_source_outstanding_limit c = SOURCE_OUTSTANDING_LIMIT (source_class (dc_source c)) \<and>
     validate_contract_freshness kind c = Inr () \<and>
     (if dc_execution_mode c = EXEC_DURABLE
      then validate_attempt_bound kind c = Inr () \<and> source_owner (dc_source c) = OWNER_PRODUCER \<and>
           source_bound (dc_source c) \<in> {BOUND_PRODUCER_BOUNDED, BOUND_PRODUCER_RESUMABLE}
      else if kind \<in> LIFECYCLE_KINDS
      then validate_attempt_bound kind c = Inr () \<and> dc_freshness_target c = None
      else dc_max_rpc_attempts_per_slice c = None \<and> dc_freshness_target c = None))"

lemma ADMISSION_TIMEOUT_SECONDS_pos [simp]: "0 < ADMISSION_TIMEOUT_SECONDS k"
  by (cases k) simp_all

lemma SOURCE_OUTSTANDING_LIMIT_pos [simp]: "1 \<le> SOURCE_OUTSTANDING_LIMIT k"
  by (cases k) simp_all

lemma row_policy_ok_checks:
  assumes policy: "registry_policy r = shipped_policy" and ok: "row_policy_ok (kind, c)"
    and limits: "\<And>s l. limits s = Some l \<Longrightarrow> l = SOURCE_OUTSTANDING_LIMIT (source_class s)"
  shows "validate_contract_identity r kind c = Inr ()"
    and "validate_contract_durable_policy r kind c = Inr ()"
    and "\<exists>limits'. validate_contract_limits kind c limits = Inr limits' \<and>
           (\<forall>s l. limits' s = Some l \<longrightarrow> l = SOURCE_OUTSTANDING_LIMIT (source_class s))"
proof -
  obtain spec where spec: "registry_get r (dc_source c) = Some spec"
    "as_service_class (cs_admission spec) = source_class (dc_source c)"
    "ds_owner (cs_demand spec) = source_owner (dc_source c)"
    "ds_bound (cs_demand spec) = source_bound (dc_source c)"
    using policy by (rule shipped_consumer)
  have fields: "dc_kind c = kind" "dc_service_class c = source_class (dc_source c)"
    "dc_admission_timeout_seconds c = ADMISSION_TIMEOUT_SECONDS (source_class (dc_source c))"
    "dc_source_outstanding_limit c = SOURCE_OUTSTANDING_LIMIT (source_class (dc_source c))"
    using ok by (simp_all add: row_policy_ok_def)
  show "validate_contract_identity r kind c = Inr ()"
    using spec fields by (simp add: validate_contract_identity_def)
  show "validate_contract_durable_policy r kind c = Inr ()"
    using ok spec
    by (simp add: row_policy_ok_def validate_contract_durable_policy_def validate_durable_producer_def
        split: if_splits)
  show "\<exists>limits'. validate_contract_limits kind c limits = Inr limits' \<and>
           (\<forall>s l. limits' s = Some l \<longrightarrow> l = SOURCE_OUTSTANDING_LIMIT (source_class s))"
  proof (cases "limits (dc_source c)")
    case None
    have "\<forall>s l. (limits(dc_source c \<mapsto> dc_source_outstanding_limit c)) s = Some l \<longrightarrow>
        l = SOURCE_OUTSTANDING_LIMIT (source_class s)"
      by (metis fields(4) limits map_upd_Some_unfold)
    moreover from None have "validate_contract_limits kind c limits =
        Inr (limits(dc_source c \<mapsto> dc_source_outstanding_limit c))"
      by (simp add: validate_contract_limits_def fields)
    ultimately show ?thesis by blast
  next
    case (Some l)
    have "l = dc_source_outstanding_limit c" using limits [OF Some] fields(4) by metis
    with Some have "validate_contract_limits kind c limits = Inr limits"
      by (simp add: validate_contract_limits_def fields)
    with limits show ?thesis by blast
  qed
qed

lemma validate_each_policy:
  assumes "registry_policy r = shipped_policy" and "list_all row_policy_ok cs"
    and "\<And>s l. limits s = Some l \<Longrightarrow> l = SOURCE_OUTSTANDING_LIMIT (source_class s)"
  shows "validate_each r cs limits = Inr ()"
  using assms(2,3)
proof (induction cs arbitrary: limits)
  case Nil
  then show ?case by simp
next
  case (Cons p cs)
  obtain kind c where p: "p = (kind, c)" by (cases p)
  have ok: "row_policy_ok (kind, c)" using Cons.prems(1) by (simp add: p)
  note checks = row_policy_ok_checks [OF assms(1) ok, of limits, OF Cons.prems(2)]
  then obtain limits' where
      "validate_contract_limits kind c limits = Inr limits'"
      "\<And>s l. limits' s = Some l \<Longrightarrow> l = SOURCE_OUTSTANDING_LIMIT (source_class s)"
    by metis
  moreover from this have "validate_each r cs limits' = Inr ()"
    using Cons.prems(1) by (intro Cons.IH) simp_all
  ultimately show ?case using checks by (simp add: p)
qed

lemma shipped_rows_ok: "list_all row_policy_ok shipped_contracts"
  by code_simp

lemma shipped_contracts_cover: "list_all (\<lambda>k. od_get shipped_contracts k \<noteq> None) Enum.enum"
  by code_simp

lemma shipped_sources_cover:
  "list_all (\<lambda>s. List.member (map (dc_source \<circ> snd) shipped_contracts) s) Enum.enum"
  by (simp add: shipped_contracts_def enum_TelegramRpcSource_def)

lemma shipped_coverage: "validate_contract_coverage shipped_contracts = Inr ()"
proof -
  have "set (map fst shipped_contracts) = UNIV"
    using shipped_contracts_cover enum_UNIV [where 'a = DemandKind]
    by (auto simp: list_all_iff od_get_None_iff od_keys_def)
  moreover have "set (map (dc_source \<circ> snd) shipped_contracts) = UNIV"
    using shipped_sources_cover enum_UNIV [where 'a = TelegramRpcSource]
    by (auto simp: list_all_iff)
  ultimately show ?thesis by (simp add: validate_contract_coverage_def enum_UNIV)
qed

lemma shipped_durable_order: "validate_durable_order DURABLE_DEMAND_ORDER = Inr ()"
  by code_simp

lemma shipped_durable_modes: "validate_durable_modes DURABLE_DEMAND_ORDER shipped_contracts = Inr ()"
  by code_simp

lemma validate_shipped_contracts:
  assumes "registry_policy r = shipped_policy"
  shows "validate_demand_contracts r shipped_contracts = Inr ()"
  using validate_each_policy [OF assms shipped_rows_ok, of Map.empty]
  by (simp add: validate_demand_contracts_def shipped_coverage shipped_durable_order
      shipped_durable_modes)

lemma telegram_demand_contracts_shipped: "TELEGRAM_DEMAND_CONTRACTS = Inr shipped_contracts"
proof -
  obtain r where r: "TELEGRAM_RPC_CONSUMERS = Inr r" "registry_policy r = shipped_policy"
    by (rule shipped_registry)
  show ?thesis
    unfolding TELEGRAM_DEMAND_CONTRACTS_def r(1) demand_contracts_shipped
    by (simp add: validate_shipped_contracts [OF r(2)])
qed

text \<open>The contract of a kind, as a total function.\<close>

definition contract_of :: "DemandKind \<Rightarrow> DemandContract" where
  "contract_of kind = the (od_get shipped_contracts kind)"

lemma shipped_contracts_distinct: "distinct (map fst shipped_contracts)"
  by code_simp

lemma shipped_contracts_get: "od_get shipped_contracts kind = Some (contract_of kind)"
proof -
  have "od_get shipped_contracts kind \<noteq> None"
    using shipped_contracts_cover enum_UNIV [where 'a = DemandKind] by (auto simp: list_all_iff)
  then show ?thesis by (auto simp: contract_of_def)
qed

lemma demand_contract_of: "demand_contract kind = Inr (contract_of kind)"
  unfolding demand_contract_def telegram_demand_contracts_shipped
  by (simp add: shipped_contracts_get)

lemma contract_of_row: "(kind, contract_of kind) \<in> set shipped_contracts"
  using shipped_contracts_get [of kind] by (simp add: od_get_map_of map_of_SomeD)

lemma contract_of_policy: "row_policy_ok (kind, contract_of kind)"
  using shipped_rows_ok contract_of_row by (simp add: list_all_iff)

lemma contract_of_simps [simp]:
  "dc_kind (contract_of kind) = kind"
  "dc_service_class (contract_of kind) = source_class (dc_source (contract_of kind))"
  "dc_admission_timeout_seconds (contract_of kind) =
     ADMISSION_TIMEOUT_SECONDS (source_class (dc_source (contract_of kind)))"
  "dc_source_outstanding_limit (contract_of kind) =
     SOURCE_OUTSTANDING_LIMIT (source_class (dc_source (contract_of kind)))"
  using contract_of_policy [of kind] by (simp_all add: row_policy_ok_def)

lemma contract_of_durable:
  assumes "dc_execution_mode (contract_of kind) = EXEC_DURABLE"
  obtains n where "dc_max_rpc_attempts_per_slice (contract_of kind) = Some n" and "1 \<le> n"
  using contract_of_policy [of kind] assms
  by (auto simp: row_policy_ok_def validate_attempt_bound_def split: option.splits)

section \<open>What the validation promises\<close>

text \<open>
  The abstract contract of the table, without checks, order or errors: each row is
  consistent with the registry, kinds and sources are all covered, contracts that share a
  source share its limit, and the durable rows are exactly the declared durable order.
\<close>

definition wf_row :: "registry \<Rightarrow> DemandKind \<Rightarrow> DemandContract \<Rightarrow> bool" where
  "wf_row registry kind c =
     (dc_kind c = kind \<and>
      (\<exists>spec. registry_get registry (dc_source c) = Some spec \<and>
         dc_service_class c = as_service_class (cs_admission spec) \<and>
         (dc_execution_mode c = EXEC_DURABLE \<longrightarrow>
            ds_owner (cs_demand spec) = OWNER_PRODUCER \<and>
            ds_bound (cs_demand spec) \<in> {BOUND_PRODUCER_BOUNDED, BOUND_PRODUCER_RESUMABLE})) \<and>
      0 < dc_admission_timeout_seconds c \<and> 1 \<le> dc_source_outstanding_limit c \<and>
      (\<forall>target. dc_freshness_target c = Some target \<longrightarrow>
         0 < target \<and> dc_execution_mode c = EXEC_DURABLE) \<and>
      (dc_execution_mode c = EXEC_DURABLE \<or> kind \<in> LIFECYCLE_KINDS \<longrightarrow>
         (\<exists>n. dc_max_rpc_attempts_per_slice c = Some n \<and> 1 \<le> n)) \<and>
      (dc_execution_mode c \<noteq> EXEC_DURABLE \<and> kind \<notin> LIFECYCLE_KINDS \<longrightarrow>
         dc_max_rpc_attempts_per_slice c = None))"

definition wf_contracts :: "registry \<Rightarrow> contracts \<Rightarrow> bool" where
  "wf_contracts registry cs =
     ((\<forall>kind. \<exists>c. (kind, c) \<in> set cs) \<and>
      (\<forall>source. \<exists>kind c. (kind, c) \<in> set cs \<and> dc_source c = source) \<and>
      (\<forall>kind. (\<exists>c. (kind, c) \<in> set cs \<and> dc_execution_mode c = EXEC_DURABLE) \<longleftrightarrow>
         kind \<in> set DURABLE_DEMAND_ORDER) \<and>
      (\<forall>(kind, c) \<in> set cs. wf_row registry kind c) \<and>
      (\<forall>(kind, c) \<in> set cs. \<forall>(kind', c') \<in> set cs. dc_source c = dc_source c' \<longrightarrow>
         dc_source_outstanding_limit c = dc_source_outstanding_limit c'))"

lemma validate_row_iff:
  "validate_contract_identity r kind c = Inr () \<and> 0 < dc_admission_timeout_seconds c \<and>
     1 \<le> dc_source_outstanding_limit c \<and> validate_contract_durable_policy r kind c = Inr () \<longleftrightarrow>
   wf_row r kind c"
  by (auto simp: wf_row_def validate_contract_identity_def validate_contract_durable_policy_def
      validate_durable_producer_def validate_attempt_bound_def validate_contract_freshness_def
      split: option.splits)

text \<open>
  The accumulating table of limits: it accepts exactly the rows that agree with what it
  already holds and with each other.
\<close>

lemma agree_insert:
  "(\<forall>p \<in> insert h S. m (src p) \<in> {None, Some (bnd p)}) \<and>
   (\<forall>p \<in> insert h S. \<forall>q \<in> insert h S. src p = src q \<longrightarrow> bnd p = bnd q) \<longleftrightarrow>
   m (src h) \<in> {None, Some (bnd h)} \<and>
   (\<forall>p \<in> S. (m(src h \<mapsto> bnd h)) (src p) \<in> {None, Some (bnd p)}) \<and>
   (\<forall>p \<in> S. \<forall>q \<in> S. src p = src q \<longrightarrow> bnd p = bnd q)" (is "?L \<longleftrightarrow> ?R")
proof
  assume L: ?L
  have "(m(src h \<mapsto> bnd h)) (src p) \<in> {None, Some (bnd p)}" if p: "p \<in> S" for p
  proof (cases "src p = src h")
    case True
    then have "bnd h = bnd p" using L p by (metis insertCI)
    with True show ?thesis by simp
  next
    case False
    moreover have "m (src p) \<in> {None, Some (bnd p)}" using L p by blast
    ultimately show ?thesis by (simp only: fun_upd_other not_False_eq_True)
  qed
  with L show ?R by blast
next
  assume R: ?R
  have h: "bnd p = bnd h" if "p \<in> S" "src p = src h" for p
  proof -
    have "(m(src h \<mapsto> bnd h)) (src p) \<in> {None, Some (bnd p)}" using R that(1) by blast
    with that(2) show ?thesis by simp
  qed
  have m: "m (src p) \<in> {None, Some (bnd p)}" if p: "p \<in> S" for p
  proof (cases "src p = src h")
    case True
    then show ?thesis using R h [OF p True] by (simp only:)
  next
    case False
    have "(m(src h \<mapsto> bnd h)) (src p) \<in> {None, Some (bnd p)}" using R p by blast
    with False show ?thesis by (simp only: fun_upd_other not_False_eq_True)
  qed
  show ?L
  proof (intro conjI ballI impI)
    show "m (src p) \<in> {None, Some (bnd p)}" if "p \<in> insert h S" for p
      using that m R by (metis insertE)
    show "bnd p = bnd q" if "p \<in> insert h S" "q \<in> insert h S" "src p = src q" for p q
      using that h R by (metis insertE)
  qed
qed
definition limits_agree :: "contracts \<Rightarrow> (TelegramRpcSource \<rightharpoonup> int) \<Rightarrow> bool" where
  "limits_agree cs limits =
     ((\<forall>p \<in> set cs. limits (dc_source (snd p)) \<in> {None, Some (dc_source_outstanding_limit (snd p))}) \<and>
      (\<forall>p \<in> set cs. \<forall>q \<in> set cs. dc_source (snd p) = dc_source (snd q) \<longrightarrow>
         dc_source_outstanding_limit (snd p) = dc_source_outstanding_limit (snd q)))"

lemma limits_agree_Cons:
  "limits_agree ((kind, c) # cs) limits \<longleftrightarrow>
     limits (dc_source c) \<in> {None, Some (dc_source_outstanding_limit c)} \<and>
     limits_agree cs (limits(dc_source c \<mapsto> dc_source_outstanding_limit c))"
  using agree_insert [where h = "(kind, c)" and S = "set cs" and m = limits and
      src = "dc_source \<circ> snd" and bnd = "dc_source_outstanding_limit \<circ> snd"]
  by (simp only: limits_agree_def list.set o_apply snd_conv)

lemma limits_agree_known:
  "limits s = Some l \<Longrightarrow> limits(s \<mapsto> l) = limits"
  by auto

lemma validate_each_iff:
  "validate_each r cs limits = Inr () \<longleftrightarrow>
     (\<forall>(kind, c) \<in> set cs. wf_row r kind c) \<and> limits_agree cs limits"
proof (induction cs arbitrary: limits)
  case Nil
  then show ?case by (simp add: limits_agree_def)
next
  case (Cons p cs)
  obtain kind c where p: "p = (kind, c)" by (cases p)
  let ?l = "dc_source_outstanding_limit c"
  have limits: "validate_contract_limits kind c limits =
      (if \<not> 0 < dc_admission_timeout_seconds c then Inl (Contract_Timeout kind)
       else if \<not> 1 \<le> ?l then Inl (Contract_Outstanding kind)
       else if limits (dc_source c) \<in> {None, Some ?l}
       then Inr (limits(dc_source c \<mapsto> ?l))
       else Inl (Contract_Source_Limits (dc_source c)))"
    by (auto simp: validate_contract_limits_def guard_def limits_agree_known split: option.splits)
  show ?case
    unfolding p validate_each.simps then_check_ok limits limits_agree_Cons
    using Cons.IH [of "limits(dc_source c \<mapsto> ?l)"] validate_row_iff [of r kind c]
    by (auto simp del: fun_upd_apply)
qed

lemma validate_durable_modes_iff:
  "validate_durable_modes order cs = Inr () \<longleftrightarrow>
     (\<forall>kind. (\<exists>c. (kind, c) \<in> set cs \<and> dc_execution_mode c = EXEC_DURABLE) \<longleftrightarrow> kind \<in> set order)"
proof -
  have "kind \<in> durable_kinds cs \<longleftrightarrow> (\<exists>c. (kind, c) \<in> set cs \<and> dc_execution_mode c = EXEC_DURABLE)" for kind
    by (force simp: durable_kinds_def)
  then show ?thesis by (simp add: validate_durable_modes_def set_eq_iff)
qed

lemma validate_contract_coverage_iff:
  "validate_contract_coverage cs = Inr () \<longleftrightarrow>
     (\<forall>kind. \<exists>c. (kind, c) \<in> set cs) \<and> (\<forall>source. \<exists>kind c. (kind, c) \<in> set cs \<and> dc_source c = source)"
proof -
  have kinds: "kind \<in> set (map fst cs) \<longleftrightarrow> (\<exists>c. (kind, c) \<in> set cs)" for kind
    by force
  have sources: "source \<in> set (map (dc_source \<circ> snd) cs) \<longleftrightarrow>
      (\<exists>kind c. (kind, c) \<in> set cs \<and> dc_source c = source)" for source
    by force
  have "set (map fst cs) = UNIV \<longleftrightarrow> (\<forall>kind. kind \<in> set (map fst cs))" by blast
  moreover have "set (map (dc_source \<circ> snd) cs) = UNIV \<longleftrightarrow>
      (\<forall>source. source \<in> set (map (dc_source \<circ> snd) cs))" by blast
  ultimately show ?thesis
    unfolding kinds sources validate_contract_coverage_def then_check_ok guard_ok enum_UNIV by simp
qed

text \<open>
  The start-up validation of the demand contracts accepts a table exactly when it
  meets the abstract contract: every kind and every source is covered, each row names its
  own kind, has the service class and (when durable) the producer ownership of its
  source's registry entry, positive timeout and limit, an attempt bound exactly where one
  is required, rows of one source agree on its limit, and the durable rows are exactly
  the kinds of the durable order.
\<close>

theorem validate_demand_contracts_iff:
  "validate_demand_contracts r cs = Inr () \<longleftrightarrow> wf_contracts r cs"
proof -
  have "limits_agree cs Map.empty \<longleftrightarrow>
      (\<forall>(kind, c) \<in> set cs. \<forall>(kind', c') \<in> set cs. dc_source c = dc_source c' \<longrightarrow>
         dc_source_outstanding_limit c = dc_source_outstanding_limit c')"
    by (simp add: limits_agree_def split_def)
  then show ?thesis
    unfolding validate_demand_contracts_def wf_contracts_def then_check_ok validate_each_iff
    by (simp add: shipped_durable_order validate_durable_modes_iff validate_contract_coverage_iff)
qed

lemma contract_of_mode:
  "dc_execution_mode (contract_of kind) = EXEC_DURABLE \<longleftrightarrow> kind \<in> set DURABLE_DEMAND_ORDER"
  using shipped_durable_modes contract_of_row [of kind] shipped_contracts_distinct
  unfolding validate_durable_modes_iff by (metis eq_key_imp_eq_value)

text \<open>
  The shipped tables load without an error and are complete: every demand kind has a
  contract of its own, with the class and limits of its source's registry entry, and a
  durable contract has a finite positive attempt bound.
\<close>

theorem demand_contract_total:
  "\<exists>c spec. demand_contract kind = Inr c \<and> telegram_rpc_consumer (dc_source c) = Inr spec \<and>
     dc_kind c = kind \<and> dc_service_class c = as_service_class (cs_admission spec) \<and>
     dc_admission_timeout_seconds c = ADMISSION_TIMEOUT_SECONDS (dc_service_class c) \<and>
     dc_source_outstanding_limit c = SOURCE_OUTSTANDING_LIMIT (dc_service_class c) \<and>
     (if kind \<in> set DURABLE_DEMAND_ORDER
      then dc_execution_mode c = EXEC_DURABLE \<and>
           (\<exists>n. dc_max_rpc_attempts_per_slice c = Some n \<and> 1 \<le> n) \<and>
           ds_owner (cs_demand spec) = OWNER_PRODUCER
      else dc_execution_mode c \<noteq> EXEC_DURABLE \<and> dc_freshness_target c = None)"
proof -
  let ?c = "contract_of kind"
  obtain r where r: "TELEGRAM_RPC_CONSUMERS = Inr r" "registry_policy r = shipped_policy"
    by (rule shipped_registry)
  obtain spec where spec: "registry_get r (dc_source ?c) = Some spec"
    "as_service_class (cs_admission spec) = source_class (dc_source ?c)"
    "ds_owner (cs_demand spec) = source_owner (dc_source ?c)"
    using r(2) by (rule shipped_consumer)
  have "telegram_rpc_consumer (dc_source ?c) = Inr spec"
    unfolding telegram_rpc_consumer_def r(1) using spec(1) by simp
  moreover have "dc_execution_mode ?c = EXEC_DURABLE \<longleftrightarrow> kind \<in> set DURABLE_DEMAND_ORDER"
    by (rule contract_of_mode)
  moreover have "row_policy_ok (kind, ?c)" by (rule contract_of_policy)
  ultimately show ?thesis
    using spec(2,3) demand_contract_of [of kind]
    by (auto simp: row_policy_ok_def validate_attempt_bound_def split: option.splits if_splits)
qed

end
