(* ===== verification/Flood.thy ===== *)
theory Flood
  imports Prelude
begin

text \<open>
  \<^verbatim>\<open>src/mcp_telegram/flood.py\<close>: the throttling outcome, the process-local FloodWait
  accumulator with its retention, its rollup windows and its latch-open kill switch, and
  the extraction of a wait from an exception. The clock (\<^verbatim>\<open>time.monotonic\<close>,
  \<^verbatim>\<open>time.time\<close>) is an argument of every operation; log lines are values of the state;
  \<^verbatim>\<open>asyncio.Event\<close> objects are named by numbers and the set ones are recorded.
\<close>

section \<open>Constants and outcomes\<close>

definition DEFAULT_FLOOD_WAIT_SECONDS :: int where
  "DEFAULT_FLOOD_WAIT_SECONDS = 60"

definition SECONDS_PER_HOUR :: int where "SECONDS_PER_HOUR = 60 * 60"
definition SECONDS_PER_DAY :: int where "SECONDS_PER_DAY = 24 * SECONDS_PER_HOUR"
definition SECONDS_PER_WEEK :: int where "SECONDS_PER_WEEK = 7 * SECONDS_PER_DAY"
definition MAX_RETAINED_EVENTS :: int where "MAX_RETAINED_EVENTS = 10000"
definition ROLLUP_LOG_INTERVAL_S :: int where "ROLLUP_LOG_INTERVAL_S = SECONDS_PER_DAY"

lemmas flood_constants = SECONDS_PER_HOUR_def SECONDS_PER_DAY_def SECONDS_PER_WEEK_def

datatype throttle_error =
    Retry_Not_Positive
  | Invalid_Retry_Duration bool \<comment> \<open>latched\<close>

record TelegramRpcThrottled =
  tt_retry_after_seconds :: "int option"
  tt_latched :: bool
  tt_request_rejected :: bool
  tt_detail :: string

definition validate_throttle_state :: "int option \<Rightarrow> bool \<Rightarrow> throttle_error + unit" where
  "validate_throttle_state retry_after_seconds latched =
     then_check
       (guard (case retry_after_seconds of None \<Rightarrow> True | Some n \<Rightarrow> \<not> n < 1) Retry_Not_Positive)
       (guard ((retry_after_seconds = None) = latched) (Invalid_Retry_Duration latched))"

definition throttled ::
    "int option \<Rightarrow> bool \<Rightarrow> string option \<Rightarrow> bool \<Rightarrow> throttle_error + TelegramRpcThrottled" where
  "throttled retry_after_seconds latched detail request_rejected =
     then_check (validate_throttle_state retry_after_seconds latched)
       (Inr \<lparr>tt_retry_after_seconds = retry_after_seconds, tt_latched = latched,
             tt_request_rejected = request_rejected,
             tt_detail = (case detail of
                 Some d \<Rightarrow> (if d \<noteq> [] then d
                           else if latched then ''Telegram RPC circuit is latched''
                           else ''Telegram RPC throttled'')
               | None \<Rightarrow> (if latched then ''Telegram RPC circuit is latched''
                         else ''Telegram RPC throttled''))\<rparr>)"

text \<open>Exceptions as the recovery paths see them: the \<^verbatim>\<open>seconds\<close> attribute may be absent.\<close>

datatype py_exception = Throttled_Exc TelegramRpcThrottled | Other_Exc "int option"

text \<open>\<^verbatim>\<open>_raise_if_latched\<close>: the result is the exception it re-raises, if any.\<close>

fun raise_if_latched :: "py_exception \<Rightarrow> TelegramRpcThrottled option" where
  "raise_if_latched (Throttled_Exc t) = (if tt_latched t then Some t else None)"
| "raise_if_latched (Other_Exc s) = None"

text \<open>\<^verbatim>\<open>max(1, int(seconds or default))\<close>: a missing, null or zero wait is the default.\<close>

definition flood_seconds :: "int option \<Rightarrow> int \<Rightarrow> int" where
  "flood_seconds seconds fallback =
     max 1 (case seconds of None \<Rightarrow> fallback | Some n \<Rightarrow> if n = 0 then fallback else n)"

section \<open>The accumulator\<close>

record FloodWaitRollup =
  ru_events_1h :: nat
  ru_wait_s_1h :: int
  ru_events_24h :: nat
  ru_wait_s_24h :: int
  ru_events_7d :: nat
  ru_wait_s_7d :: int

definition has_events :: "FloodWaitRollup \<Rightarrow> bool" where
  "has_events r = (0 < ru_events_7d r)"

record FloodWaitKillSwitchPolicy =
  kp_enabled :: bool
  kp_window_seconds :: int
  kp_max_events :: int
  kp_max_wait_seconds :: int

datatype kill_reason = Too_Many_Flood_Wait_Events | Too_Much_Flood_Wait_Time

record FloodWaitKillSwitchStatus =
  ks_open :: bool
  ks_reason :: "kill_reason option"
  ks_opened_at :: "int option"
  ks_events_in_window :: nat
  ks_wait_s_in_window :: int
  ks_window_seconds :: int
  ks_source :: "string option"

record FloodWaitEvent =
  fe_at_mono :: time
  fe_seconds :: int
  fe_source :: string

record FloodWaitAccumulator =
  fa_max_events :: int
  fa_log_interval_s :: int
  fa_events :: "FloodWaitEvent list"
  fa_last_log_mono :: time
  fa_policy :: "FloodWaitKillSwitchPolicy option"
  fa_event :: "nat option" \<comment> \<open>the configured \<^verbatim>\<open>asyncio.Event\<close>\<close>
  fa_status :: FloodWaitKillSwitchStatus
  fa_set_events :: "nat set" \<comment> \<open>events on which \<^verbatim>\<open>set()\<close> was called\<close>
  fa_log :: "FloodWaitRollup list"

definition closed_status :: "nat \<Rightarrow> int \<Rightarrow> int \<Rightarrow> FloodWaitKillSwitchStatus" where
  "closed_status events wait_s window =
     \<lparr>ks_open = False, ks_reason = None, ks_opened_at = None, ks_events_in_window = events,
      ks_wait_s_in_window = wait_s, ks_window_seconds = window, ks_source = None\<rparr>"

definition new_accumulator :: "time \<Rightarrow> FloodWaitAccumulator" where
  "new_accumulator now =
     \<lparr>fa_max_events = MAX_RETAINED_EVENTS, fa_log_interval_s = ROLLUP_LOG_INTERVAL_S,
      fa_events = [], fa_last_log_mono = now, fa_policy = None, fa_event = None,
      fa_status = closed_status 0 0 0, fa_set_events = {}, fa_log = []\<rparr>"

text \<open>
  \<^verbatim>\<open>_prune\<close> pops the oldest event while it is older than a week or the deque is over
  its bound.
\<close>

fun prune_events :: "int \<Rightarrow> time \<Rightarrow> FloodWaitEvent list \<Rightarrow> FloodWaitEvent list" where
  "prune_events max_events min_at [] = []"
| "prune_events max_events min_at (e # es) =
     (if fe_at_mono e < min_at \<or> int (length (e # es)) > max_events
      then prune_events max_events min_at es else e # es)"

definition prune :: "time \<Rightarrow> FloodWaitAccumulator \<Rightarrow> FloodWaitAccumulator" where
  "prune now_mono s =
     s\<lparr>fa_events := prune_events (fa_max_events s) (now_mono - of_int SECONDS_PER_WEEK) (fa_events s)\<rparr>"

definition count_since :: "time \<Rightarrow> FloodWaitEvent list \<Rightarrow> nat" where
  "count_since min_at es = length (filter (\<lambda>e. min_at \<le> fe_at_mono e) es)"

definition sum_since :: "time \<Rightarrow> FloodWaitEvent list \<Rightarrow> int" where
  "sum_since min_at es = sum_list (map fe_seconds (filter (\<lambda>e. min_at \<le> fe_at_mono e) es))"

definition kill_reason_of :: "FloodWaitKillSwitchPolicy \<Rightarrow> nat \<Rightarrow> int \<Rightarrow> kill_reason option" where
  "kill_reason_of policy events wait_s =
     (if int events \<ge> kp_max_events policy then Some Too_Many_Flood_Wait_Events
      else if wait_s \<ge> kp_max_wait_seconds policy then Some Too_Much_Flood_Wait_Time
      else None)"

definition evaluate_kill_switch ::
    "time \<Rightarrow> int \<Rightarrow> string \<Rightarrow> FloodWaitAccumulator \<Rightarrow> FloodWaitAccumulator" where
  "evaluate_kill_switch now_mono wall source s =
     (case fa_policy s of
        None \<Rightarrow> s
      | Some policy \<Rightarrow>
          (if \<not> kp_enabled policy \<or> ks_open (fa_status s) then s
           else let min_at = now_mono - of_int (kp_window_seconds policy);
                    events = count_since min_at (fa_events s);
                    wait_s = sum_since min_at (fa_events s)
                in (case kill_reason_of policy events wait_s of
                      None \<Rightarrow> s
                    | Some reason \<Rightarrow>
                        s\<lparr>fa_status := \<lparr>ks_open = True, ks_reason = Some reason,
                              ks_opened_at = Some wall, ks_events_in_window = events,
                              ks_wait_s_in_window = wait_s,
                              ks_window_seconds = kp_window_seconds policy,
                              ks_source = Some source\<rparr>,
                          fa_set_events := (case fa_event s of
                              None \<Rightarrow> fa_set_events s
                            | Some event \<Rightarrow> insert event (fa_set_events s))\<rparr>)))"

definition observe ::
    "string \<Rightarrow> int \<Rightarrow> time \<Rightarrow> int \<Rightarrow> FloodWaitAccumulator \<Rightarrow> FloodWaitAccumulator" where
  "observe source seconds now wall s =
     evaluate_kill_switch now wall source
       (prune now (s\<lparr>fa_events := fa_events s @
          [\<lparr>fe_at_mono = now, fe_seconds = max 0 seconds, fe_source = source\<rparr>]\<rparr>))"

definition rollup_of :: "time \<Rightarrow> FloodWaitEvent list \<Rightarrow> FloodWaitRollup" where
  "rollup_of now es =
     \<lparr>ru_events_1h = count_since (now - of_int SECONDS_PER_HOUR) es,
      ru_wait_s_1h = sum_since (now - of_int SECONDS_PER_HOUR) es,
      ru_events_24h = count_since (now - of_int SECONDS_PER_DAY) es,
      ru_wait_s_24h = sum_since (now - of_int SECONDS_PER_DAY) es,
      ru_events_7d = count_since (now - of_int SECONDS_PER_WEEK) es,
      ru_wait_s_7d = sum_since (now - of_int SECONDS_PER_WEEK) es\<rparr>"

definition snapshot :: "time \<Rightarrow> FloodWaitAccumulator \<Rightarrow> FloodWaitRollup \<times> FloodWaitAccumulator" where
  "snapshot now s = (let s' = prune now s in (rollup_of now (fa_events s'), s'))"

definition maybe_log_rollup :: "time \<Rightarrow> FloodWaitAccumulator \<Rightarrow> bool \<times> FloodWaitAccumulator" where
  "maybe_log_rollup now s =
     (if now - fa_last_log_mono s < of_int (fa_log_interval_s s) then (False, s)
      else let (rollup, s') = snapshot now (s\<lparr>fa_last_log_mono := now\<rparr>)
           in if \<not> has_events rollup then (False, s')
              else (True, s'\<lparr>fa_log := fa_log s' @ [rollup]\<rparr>))"

definition configure_kill_switch ::
    "FloodWaitKillSwitchPolicy \<Rightarrow> nat option \<Rightarrow> FloodWaitAccumulator \<Rightarrow> FloodWaitAccumulator" where
  "configure_kill_switch policy event s =
     (let s' = s\<lparr>fa_policy := Some policy, fa_event := event\<rparr>
      in if \<not> kp_enabled policy
         then s'\<lparr>fa_status := closed_status 0 0 (kp_window_seconds policy)\<rparr> else s')"

definition kill_switch_status ::
    "time \<Rightarrow> FloodWaitAccumulator \<Rightarrow> FloodWaitKillSwitchStatus \<times> FloodWaitAccumulator" where
  "kill_switch_status now s =
     (let s' = prune now s
      in if ks_open (fa_status s') then (fa_status s', s')
         else case fa_policy s' of
             None \<Rightarrow> (closed_status 0 0 0, s')
           | Some policy \<Rightarrow>
               (let min_at = now - of_int (kp_window_seconds policy)
                in (closed_status (count_since min_at (fa_events s'))
                      (sum_since min_at (fa_events s')) (kp_window_seconds policy), s')))"

section \<open>Operations and runs\<close>

datatype flood_op =
    Observe string int time int
  | Snapshot time
  | Log_Rollup time
  | Configure FloodWaitKillSwitchPolicy "nat option"
  | Read_Status time

fun flood_step :: "flood_op \<Rightarrow> FloodWaitAccumulator \<Rightarrow> FloodWaitAccumulator" where
  "flood_step (Observe source seconds now wall) s = observe source seconds now wall s"
| "flood_step (Snapshot now) s = snd (snapshot now s)"
| "flood_step (Log_Rollup now) s = snd (maybe_log_rollup now s)"
| "flood_step (Configure policy event) s = configure_kill_switch policy event s"
| "flood_step (Read_Status now) s = snd (kill_switch_status now s)"

fun disables :: "flood_op \<Rightarrow> bool" where
  "disables (Configure policy event) = (\<not> kp_enabled policy)"
| "disables _ = False"

section \<open>Retention and latching\<close>

lemma prune_events_length: "length (prune_events m t es) \<le> nat m"
  by (induction es) auto

lemma prune_events_suffix: "\<exists>pre. es = pre @ prune_events m t es"
proof (induction es)
  case Nil
  then show ?case by simp
next
  case (Cons e es)
  then obtain pre where "es = pre @ prune_events m t es" by blast
  then have "e # es = (e # pre) @ prune_events m t es" by simp
  then show ?case by (metis append_Nil prune_events.simps(2))
qed

lemma prune_events_subset: "set (prune_events m t es) \<subseteq> set es"
  using prune_events_suffix [of es m t] by (metis set_append Un_upper2)

lemma prune_events_mono_length: "length (prune_events m t es) \<le> length es"
  using prune_events_suffix [of es m t] by (metis length_append le_add2)

lemma prune_simps [simp]:
  "fa_max_events (prune now s) = fa_max_events s" "fa_policy (prune now s) = fa_policy s"
  "fa_status (prune now s) = fa_status s" "fa_event (prune now s) = fa_event s"
  "fa_last_log_mono (prune now s) = fa_last_log_mono s"
  by (simp_all add: prune_def)

lemma evaluate_kill_switch_simps [simp]:
  "fa_events (evaluate_kill_switch now wall source s) = fa_events s"
  "fa_max_events (evaluate_kill_switch now wall source s) = fa_max_events s"
  "fa_policy (evaluate_kill_switch now wall source s) = fa_policy s"
  "fa_event (evaluate_kill_switch now wall source s) = fa_event s"
  by (simp_all add: evaluate_kill_switch_def Let_def split: option.splits)

definition retained :: "FloodWaitAccumulator \<Rightarrow> bool" where
  "retained s = (fa_max_events s = MAX_RETAINED_EVENTS \<and>
     length (fa_events s) \<le> nat MAX_RETAINED_EVENTS \<and> (\<forall>e \<in> set (fa_events s). 0 \<le> fe_seconds e))"

lemma retained_prune: "retained s \<Longrightarrow> retained (prune now s)"
  using prune_events_length prune_events_subset by (fastforce simp: retained_def prune_def)

lemma retained_observe:
  assumes "retained s"
  shows "retained (observe source seconds now wall s)"
proof -
  let ?s = "s\<lparr>fa_events := fa_events s @
    [\<lparr>fe_at_mono = now, fe_seconds = max 0 seconds, fe_source = source\<rparr>]\<rparr>"
  have "set (fa_events (prune now ?s)) \<subseteq> set (fa_events ?s)"
    by (simp add: prune_def) (metis prune_events_subset list.simps(15) set_append Un_insert_right sup_bot_right empty_set)
  moreover have "length (fa_events (prune now ?s)) \<le> nat MAX_RETAINED_EVENTS"
    using assms prune_events_length by (simp add: prune_def retained_def)
  moreover have "\<forall>e \<in> set (fa_events ?s). 0 \<le> fe_seconds e"
    using assms by (auto simp: retained_def)
  ultimately show ?thesis using assms unfolding observe_def retained_def by fastforce
qed

lemma retained_maybe_log_rollup:
  assumes "retained s"
  shows "retained (snd (maybe_log_rollup now s))"
proof -
  have "retained (prune now (s\<lparr>fa_last_log_mono := now\<rparr>))"
    using assms by (intro retained_prune) (simp add: retained_def)
  then show ?thesis
    using assms by (simp add: maybe_log_rollup_def snapshot_def Let_def) (simp add: retained_def)
qed

lemma retained_step: "retained s \<Longrightarrow> retained (flood_step op s)"
proof (cases op)
  case (Configure policy event)
  then show "retained s \<Longrightarrow> ?thesis"
    by (simp add: configure_kill_switch_def Let_def) (simp add: retained_def)
qed (simp_all add: retained_observe retained_maybe_log_rollup retained_prune snapshot_def
    kill_switch_status_def Let_def split: option.splits)

interpretation flood_retention: bounded_system flood_step retained
    "\<lambda>s. length (fa_events s)" "nat MAX_RETAINED_EVENTS"
  by unfold_locales (simp_all add: retained_step, simp add: retained_def)

lemma retained_new: "retained (new_accumulator now)"
  by (simp add: retained_def new_accumulator_def MAX_RETAINED_EVENTS_def)

text \<open>An open switch keeps its whole status under every operation that does not disable it.\<close>

lemma latched_step:
  assumes "\<not> disables op" and "ks_open (fa_status s)"
  shows "fa_status (flood_step op s) = fa_status s"
  using assms
  by (cases op) (simp_all add: observe_def evaluate_kill_switch_def snapshot_def maybe_log_rollup_def
      configure_kill_switch_def kill_switch_status_def Let_def split: option.splits)

interpretation flood_latch: guarded_system flood_step "\<lambda>op. \<not> disables op"
    "\<lambda>s. ks_open status \<and> fa_status s = status" for status
  by unfold_locales (metis latched_step)

lemma count_since_mono: "t' \<le> t \<Longrightarrow> count_since t es \<le> count_since t' es"
  unfolding count_since_def by (induction es) auto

lemma sum_since_mono:
  "t' \<le> t \<Longrightarrow> \<forall>e \<in> set es. 0 \<le> fe_seconds e \<Longrightarrow> sum_since t es \<le> sum_since t' es"
  unfolding sum_since_def by (induction es) auto

text \<open>
  The accumulator is bounded: whatever operations run, it retains at most
  \<^verbatim>\<open>_MAX_RETAINED_EVENTS\<close> events, its waits are nonnegative, and its rollup windows are
  nested, so an hour never reports more than a day and a day never more than a week.
\<close>

theorem flood_bounded_and_nested:
  "let s = run_ops flood_step ops (new_accumulator t0); r = fst (snapshot now s)
   in length (fa_events s) \<le> 10000 \<and>
      ru_events_1h r \<le> ru_events_24h r \<and> ru_events_24h r \<le> ru_events_7d r \<and>
      0 \<le> ru_wait_s_1h r \<and> ru_wait_s_1h r \<le> ru_wait_s_24h r \<and> ru_wait_s_24h r \<le> ru_wait_s_7d r"
proof -
  let ?s = "run_ops flood_step ops (new_accumulator t0)"
  have s: "retained ?s" by (rule flood_retention.run_invar [OF retained_new])
  then have "retained (prune now ?s)" by (rule retained_prune)
  then have waits: "\<forall>e \<in> set (fa_events (prune now ?s)). 0 \<le> fe_seconds e"
    by (simp add: retained_def)
  then have "0 \<le> sum_since t (fa_events (prune now ?s))" for t
    unfolding sum_since_def by (intro sum_list_nonneg) auto
  then show ?thesis
    using flood_retention.invar_bound [OF s]
    by (simp add: Let_def snapshot_def rollup_of_def MAX_RETAINED_EVENTS_def flood_constants
        count_since_mono sum_since_mono [OF _ waits])
qed

text \<open>
  The kill switch is latched: once it is open, its status (reason, opening time,
  counts and source) never changes again under any sequence of observations, snapshots,
  rollup logs, status reads and reconfigurations with an enabled policy.
\<close>

theorem kill_switch_latched:
  assumes "ks_open (fa_status s)" and "list_all (\<lambda>op. \<not> disables op) ops"
  shows "fa_status (run_ops flood_step ops s) = fa_status s \<and>
    fst (kill_switch_status now (run_ops flood_step ops s)) = fa_status s"
proof -
  have "fa_status (run_ops flood_step ops s) = fa_status s"
    using flood_latch.permitted_run [OF assms(2), of "fa_status s" s] assms(1) by simp
  then show ?thesis using assms(1) by (simp add: kill_switch_status_def Let_def)
qed

definition storm_policy :: FloodWaitKillSwitchPolicy where
  "storm_policy = \<lparr>kp_enabled = True, kp_window_seconds = 3600, kp_max_events = 2,
     kp_max_wait_seconds = 500\<rparr>"

theorem kill_switch_latched_witness:
  "fa_status (run_ops flood_step [Observe ''b'' 7 20 101, Read_Status 900000]
      (run_ops flood_step [Configure storm_policy (Some 1), Observe ''a'' 600 10 100] (new_accumulator 0))) =
   \<lparr>ks_open = True, ks_reason = Some Too_Much_Flood_Wait_Time, ks_opened_at = Some 100,
     ks_events_in_window = 1, ks_wait_s_in_window = 600, ks_window_seconds = 3600,
     ks_source = Some ''a''\<rparr>"
proof -
  let ?s = "run_ops flood_step [Configure storm_policy (Some 1), Observe ''a'' 600 10 100] (new_accumulator 0)"
  have s: "fa_status ?s = \<lparr>ks_open = True, ks_reason = Some Too_Much_Flood_Wait_Time,
     ks_opened_at = Some 100, ks_events_in_window = 1, ks_wait_s_in_window = 600,
     ks_window_seconds = 3600, ks_source = Some ''a''\<rparr>"
    by code_simp
  then have "ks_open (fa_status ?s)" by simp
  then show ?thesis
    using kill_switch_latched [of ?s "[Observe ''b'' 7 20 101, Read_Status 900000]"] s by simp
qed

section \<open>The counters against the full history\<close>

text \<open>
  The accumulator without pruning: every observation is kept, with negative waits counted as 0,
  and a window is read off the whole history. What the deque can tell of a window is stated
  here once: only the newest \<^verbatim>\<open>_MAX_RETAINED_EVENTS\<close> observations count, and never those older
  than a week, whatever the window of the policy.
\<close>

record FloodHistory =
  fh_events :: "FloodWaitEvent list"
  fh_policy :: "FloodWaitKillSwitchPolicy option"
  fh_status :: FloodWaitKillSwitchStatus

definition empty_history :: FloodHistory where
  "empty_history = \<lparr>fh_events = [], fh_policy = None, fh_status = closed_status 0 0 0\<rparr>"

definition newest_events :: "FloodWaitEvent list \<Rightarrow> FloodWaitEvent list" where
  "newest_events h = drop (length h - nat MAX_RETAINED_EVENTS) h"

definition recent :: "time \<Rightarrow> int \<Rightarrow> FloodWaitEvent list \<Rightarrow> FloodWaitEvent list" where
  "recent now w h = filter (\<lambda>e. now - of_int (min w SECONDS_PER_WEEK) \<le> fe_at_mono e) (newest_events h)"

definition wait_of :: "FloodWaitEvent list \<Rightarrow> int" where
  "wait_of es = sum_list (map fe_seconds es)"

fun history_step :: "flood_op \<Rightarrow> FloodHistory \<Rightarrow> FloodHistory" where
  "history_step (Observe source seconds now wall) a =
     (let h = fh_events a @ [\<lparr>fe_at_mono = now, fe_seconds = max 0 seconds, fe_source = source\<rparr>];
          a1 = a\<lparr>fh_events := h\<rparr>
      in case fh_policy a of None \<Rightarrow> a1
        | Some p \<Rightarrow>
          (let counted = recent now (kp_window_seconds p) h
           in if \<not> kp_enabled p \<or> ks_open (fh_status a) then a1
              else case kill_reason_of p (length counted) (wait_of counted) of None \<Rightarrow> a1
                | Some reason \<Rightarrow> a1\<lparr>fh_status := \<lparr>ks_open = True, ks_reason = Some reason, ks_opened_at = Some wall,
                    ks_events_in_window = length counted, ks_wait_s_in_window = wait_of counted,
                    ks_window_seconds = kp_window_seconds p, ks_source = Some source\<rparr>\<rparr>))"
| "history_step (Configure p event) a =
     a\<lparr>fh_policy := Some p,
       fh_status := (if kp_enabled p then fh_status a else closed_status 0 0 (kp_window_seconds p))\<rparr>"
| "history_step _ a = a"

text \<open>The clock readings of a run, in order.\<close>

fun op_clock :: "flood_op \<Rightarrow> time list" where
  "op_clock (Observe source seconds now wall) = [now]"
| "op_clock (Snapshot now) = [now]"
| "op_clock (Log_Rollup now) = [now]"
| "op_clock (Configure policy event) = []"
| "op_clock (Read_Status now) = [now]"

definition clocks :: "flood_op list \<Rightarrow> time list" where
  "clocks ops = concat (map op_clock ops)"

definition chronological :: "FloodWaitEvent list \<Rightarrow> bool" where
  "chronological h = sorted (map fe_at_mono h)"

lemma chronological_drop: "chronological h \<Longrightarrow> chronological (drop n h)"
  by (simp add: chronological_def drop_map[symmetric] sorted_wrt_drop)

lemma chronological_append: "chronological (h @ [e]) \<longleftrightarrow> chronological h \<and> (\<forall>x \<in> set h. fe_at_mono x \<le> fe_at_mono e)"
  by (auto simp: chronological_def sorted_append)

lemma filter_all_later: "chronological (e # es) \<Longrightarrow> t \<le> fe_at_mono e \<Longrightarrow> filter (\<lambda>x. t \<le> fe_at_mono x) es = es"
  by (auto simp: chronological_def intro!: filter_True)

lemma prune_events_drop:
  assumes "chronological es" "0 \<le> m"
  shows "prune_events m t es = filter (\<lambda>e. t \<le> fe_at_mono e) (drop (length es - nat m) es)"
  using assms(1)
proof (induction es)
  case (Cons e es)
  have IH: "prune_events m t es = filter (\<lambda>e. t \<le> fe_at_mono e) (drop (length es - nat m) es)"
    using Cons by (simp add: chronological_def)
  show ?case
  proof (cases "int (length (e # es)) > m")
    case True
    then have "length (e # es) - nat m = Suc (length es - nat m)" using assms(2) by simp
    then show ?thesis using True IH by simp
  next
    case False
    then have "length (e # es) - nat m = 0" "length es - nat m = 0" by simp_all
    then show ?thesis using False IH filter_all_later[OF Cons.prems, of t] by auto
  qed
qed simp

lemma later_suffix:
  assumes "chronological h"
  shows "\<exists>old. h = old @ filter (\<lambda>e. t \<le> fe_at_mono e) h \<and> (\<forall>e \<in> set old. fe_at_mono e < t)"
  using assms
proof (induction h)
  case (Cons e h)
  then obtain old where old: "h = old @ filter (\<lambda>e. t \<le> fe_at_mono e) h" "\<forall>e \<in> set old. fe_at_mono e < t"
    by (auto simp: chronological_def)
  show ?case
  proof (cases "t \<le> fe_at_mono e")
    case True
    then show ?thesis using filter_all_later[OF Cons.prems True] by (intro exI[of _ "[]"]) simp
  next
    case False
    then show ?thesis using old by (intro exI[of _ "e # old"]) auto
  qed
qed simp

text \<open>What pruning leaves of the full history at time \<open>now\<close>.\<close>

definition kept_events :: "time \<Rightarrow> FloodWaitEvent list \<Rightarrow> FloodWaitEvent list" where
  "kept_events now h = filter (\<lambda>e. now - of_int SECONDS_PER_WEEK \<le> fe_at_mono e) (newest_events h)"

lemma kept_length: "length (kept_events now h) \<le> nat MAX_RETAINED_EVENTS"
  using length_filter_le[of "\<lambda>e. now - of_int SECONDS_PER_WEEK \<le> fe_at_mono e" "newest_events h"]
  by (simp add: kept_events_def newest_events_def)

lemma kept_chronological: "chronological h \<Longrightarrow> chronological (kept_events now h)"
  unfolding kept_events_def newest_events_def chronological_def by (intro sorted_filter) (simp add: drop_map[symmetric] sorted_wrt_drop)

lemma max_retained: "0 \<le> MAX_RETAINED_EVENTS" "0 < nat MAX_RETAINED_EVENTS"
  by (simp_all add: MAX_RETAINED_EVENTS_def)

lemma prune_kept:
  assumes "chronological h" "T \<le> now"
  shows "prune_events MAX_RETAINED_EVENTS (now - of_int SECONDS_PER_WEEK) (kept_events T h) = kept_events now h"
proof -
  have "prune_events MAX_RETAINED_EVENTS (now - of_int SECONDS_PER_WEEK) (kept_events T h)
      = filter (\<lambda>e. now - of_int SECONDS_PER_WEEK \<le> fe_at_mono e) (kept_events T h)"
    using prune_events_drop[OF kept_chronological[OF assms(1)] max_retained(1)] kept_length[of T h] by simp
  also have "\<dots> = kept_events now h" using assms(2) unfolding kept_events_def filter_filter by (intro filter_cong) auto
  finally show ?thesis .
qed

lemma newest_snoc: "newest_events (h @ [e]) = drop (Suc (length (newest_events h)) - nat MAX_RETAINED_EVENTS) (newest_events h @ [e])"
proof (cases "length h < nat MAX_RETAINED_EVENTS")
  case True
  then have "Suc (length h) - nat MAX_RETAINED_EVENTS = 0" "newest_events h = h" by (simp_all add: newest_events_def)
  then show ?thesis by (simp add: newest_events_def)
next
  case False
  then have le: "nat MAX_RETAINED_EVENTS \<le> length h" by simp
  have "length (newest_events h) = nat MAX_RETAINED_EVENTS"
    unfolding newest_events_def length_drop using le by (rule diff_diff_cancel)
  then have "drop (Suc (length (newest_events h)) - nat MAX_RETAINED_EVENTS) (newest_events h @ [e]) = drop 1 (newest_events h) @ [e]"
    using max_retained(2) by simp
  moreover have "newest_events (h @ [e]) = drop (Suc (length h - nat MAX_RETAINED_EVENTS)) h @ [e]"
    using le max_retained(2) by (simp add: newest_events_def Suc_diff_le)
  ultimately show ?thesis by (simp add: newest_events_def)
qed

lemma drop_snoc_parts: "drop (Suc (length (xs @ ys)) - n) (xs @ ys @ [z])
    = drop (Suc (length (xs @ ys)) - n) xs @ drop (Suc (length ys) - n) (ys @ [z])"
  by simp

lemma prune_new:
  assumes "chronological (h @ [e])" "T \<le> fe_at_mono e"
  shows "prune_events MAX_RETAINED_EVENTS (fe_at_mono e - of_int SECONDS_PER_WEEK) (kept_events T h @ [e]) = kept_events (fe_at_mono e) (h @ [e])"
proof -
  let ?n = "nat MAX_RETAINED_EVENTS" and ?q = "\<lambda>x. fe_at_mono e - of_int SECONDS_PER_WEEK \<le> fe_at_mono x"
  have h: "chronological h" "\<forall>x \<in> set h. fe_at_mono x \<le> fe_at_mono e" using assms(1) by (simp_all add: chronological_append)
  then have "chronological (newest_events h)" by (simp add: newest_events_def chronological_drop)
  from later_suffix[OF this, of "T - of_int SECONDS_PER_WEEK"]
  obtain old where old: "newest_events h = old @ kept_events T h" "\<forall>x \<in> set old. \<not> ?q x"
    using assms(2) unfolding kept_events_def by force
  have "chronological (kept_events T h @ [e])"
    using kept_chronological[OF h(1)] h(2) by (auto simp: chronological_append kept_events_def newest_events_def dest: in_set_dropD)
  then have "prune_events MAX_RETAINED_EVENTS (fe_at_mono e - of_int SECONDS_PER_WEEK) (kept_events T h @ [e])
      = filter ?q (drop (Suc (length (kept_events T h)) - ?n) (kept_events T h @ [e]))"
    using prune_events_drop[OF _ max_retained(1)] by simp
  also have "\<dots> = filter ?q (newest_events (h @ [e]))"
  proof -
    have "filter ?q (drop k old) = []" for k using old(2) by (auto simp: filter_empty_conv dest: in_set_dropD)
    moreover have "newest_events (h @ [e]) = drop (Suc (length (old @ kept_events T h)) - ?n) old
        @ drop (Suc (length (kept_events T h)) - ?n) (kept_events T h @ [e])"
      unfolding newest_snoc old(1) append_assoc by (rule drop_snoc_parts)
    ultimately show ?thesis by simp
  qed
  finally show ?thesis by (simp add: kept_events_def)
qed

section \<open>The deque refines the full history\<close>

lemma window_of_kept:
  "count_since (now - of_int w) (kept_events now h) = length (recent now w h)"
  "sum_since (now - of_int w) (kept_events now h) = wait_of (recent now w h)"
proof -
  have "filter (\<lambda>e. now - of_int w \<le> fe_at_mono e) (kept_events now h) = recent now w h"
    unfolding kept_events_def recent_def filter_filter
  proof (rule filter_cong)
    fix e assume "e \<in> set (newest_events h)"
    have "(of_int (min w SECONDS_PER_WEEK) :: rat) = min (of_int w) (of_int SECONDS_PER_WEEK)" by (simp add: of_int_min)
    then show "(now - of_int SECONDS_PER_WEEK \<le> fe_at_mono e \<and> now - of_int w \<le> fe_at_mono e)
        = (now - of_int (min w SECONDS_PER_WEEK) \<le> fe_at_mono e)" by linarith
  qed simp
  then show "count_since (now - of_int w) (kept_events now h) = length (recent now w h)"
    "sum_since (now - of_int w) (kept_events now h) = wait_of (recent now w h)"
    by (simp_all add: count_since_def sum_since_def wait_of_def)
qed

definition refines_history :: "time \<Rightarrow> FloodWaitAccumulator \<Rightarrow> FloodHistory \<Rightarrow> bool" where
  "refines_history T s a \<longleftrightarrow> fa_max_events s = MAX_RETAINED_EVENTS \<and> fa_policy s = fh_policy a
     \<and> fa_status s = fh_status a \<and> chronological (fh_events a) \<and> (\<forall>e \<in> set (fh_events a). fe_at_mono e \<le> T)
     \<and> (\<exists>T0 \<le> T. fa_events s = kept_events T0 (fh_events a))"

lemma refines_later: "refines_history T s a \<Longrightarrow> T \<le> T' \<Longrightarrow> refines_history T' s a"
  unfolding refines_history_def by (meson order_trans)

lemma refines_prune:
  assumes "refines_history T s a" "T \<le> now"
  shows "refines_history now (prune now s) a"
proof -
  from assms(1) obtain T0 where T0: "T0 \<le> T" "fa_events s = kept_events T0 (fh_events a)" by (auto simp: refines_history_def)
  have "prune_events MAX_RETAINED_EVENTS (now - of_int SECONDS_PER_WEEK) (kept_events T0 (fh_events a)) = kept_events now (fh_events a)"
    by (rule prune_kept) (use assms T0 in \<open>auto simp: refines_history_def\<close>)
  then show ?thesis using refines_later[OF assms] T0(2) by (auto simp: refines_history_def prune_def)
qed

lemma refines_observe:
  assumes "refines_history T s a" "T \<le> now"
  shows "refines_history now (observe source seconds now wall s) (history_step (Observe source seconds now wall) a)"
proof -
  let ?e = "\<lparr>fe_at_mono = now, fe_seconds = max 0 seconds, fe_source = source\<rparr>"
  let ?s = "prune now (s\<lparr>fa_events := fa_events s @ [?e]\<rparr>)" and ?h = "fh_events a @ [?e]"
  have r: "fa_max_events s = MAX_RETAINED_EVENTS" "fa_policy s = fh_policy a" "fa_status s = fh_status a"
    "chronological (fh_events a)" "\<forall>e \<in> set (fh_events a). fe_at_mono e \<le> T"
    using assms(1) by (simp_all add: refines_history_def)
  from assms(1) obtain T0 where T0: "T0 \<le> T" "fa_events s = kept_events T0 (fh_events a)" by (auto simp: refines_history_def)
  have chron: "chronological ?h" using r(4,5) assms(2) by (force simp: chronological_append)
  have events: "fa_events ?s = kept_events now ?h"
    using prune_new[OF chron, of T0] T0 assms(2) r(1) by (simp add: prune_def)
  have "\<forall>e \<in> set ?h. fe_at_mono e \<le> now" using r(5) assms(2) by force
  with r(1-3) chron events show ?thesis
    by (auto simp: refines_history_def observe_def evaluate_kill_switch_def window_of_kept Let_def split: option.splits)
qed

lemma refines_step:
  assumes "refines_history T s a" "sorted (T # op_clock e)"
  shows "refines_history (last (T # op_clock e)) (flood_step e s) (history_step e a)"
proof (cases e)
  case (Observe source seconds now wall)
  then show ?thesis using refines_observe[OF assms(1), of now] assms(2) by (simp del: history_step.simps)
next
  case (Snapshot now)
  then show ?thesis using refines_prune[OF assms(1), of now] assms(2) by (simp add: snapshot_def Let_def)
next
  case (Log_Rollup now)
  have logged: "refines_history T (s\<lparr>fa_last_log_mono := now\<rparr>) a" using assms(1) by (simp add: refines_history_def)
  show ?thesis
  proof (cases "now - fa_last_log_mono s < of_int (fa_log_interval_s s)")
    case True
    then show ?thesis using refines_later[OF assms(1), of now] assms(2) by (simp add: Log_Rollup maybe_log_rollup_def)
  next
    case False
    then show ?thesis using refines_prune[OF logged, of now] assms(2)
      by (simp add: Log_Rollup maybe_log_rollup_def snapshot_def Let_def) (simp add: refines_history_def)
  qed
next
  case (Configure policy event)
  then show ?thesis using assms(1) by (simp add: configure_kill_switch_def refines_history_def Let_def)
next
  case (Read_Status now)
  then show ?thesis using refines_prune[OF assms(1), of now] assms(2)
    by (simp add: kill_switch_status_def Let_def split: option.split)
qed

lemma refines_run:
  assumes "refines_history T s a" "sorted (T # clocks ops)"
  shows "refines_history (last (T # clocks ops)) (run_ops flood_step ops s) (run_ops history_step ops a)"
  using assms
proof (induction ops arbitrary: T s a)
  case Nil
  then show ?case by (simp add: clocks_def)
next
  case (Cons e ops)
  have split: "T # clocks (e # ops) = (T # op_clock e) @ clocks ops" by (simp add: clocks_def)
  have sorted: "sorted (T # op_clock e)" "sorted (last (T # op_clock e) # clocks ops)"
    using Cons.prems(2) unfolding split by (cases e; auto simp: sorted_append)+
  have last: "last (T # clocks (e # ops)) = last (last (T # op_clock e) # clocks ops)"
    unfolding split by (cases "clocks ops") simp_all
  show ?case using Cons.IH[OF refines_step[OF Cons.prems(1) sorted(1)] sorted(2)] unfolding last by simp
qed

definition history_rollup :: "time \<Rightarrow> FloodWaitEvent list \<Rightarrow> FloodWaitRollup" where
  "history_rollup now h =
     (let hour = recent now SECONDS_PER_HOUR h; day = recent now SECONDS_PER_DAY h; week = recent now SECONDS_PER_WEEK h
      in \<lparr>ru_events_1h = length hour, ru_wait_s_1h = wait_of hour, ru_events_24h = length day,
          ru_wait_s_24h = wait_of day, ru_events_7d = length week, ru_wait_s_7d = wait_of week\<rparr>)"

definition history_status :: "time \<Rightarrow> FloodHistory \<Rightarrow> FloodWaitKillSwitchStatus" where
  "history_status now a =
     (if ks_open (fh_status a) then fh_status a
      else case fh_policy a of None \<Rightarrow> closed_status 0 0 0
        | Some p \<Rightarrow> (let counted = recent now (kp_window_seconds p) (fh_events a)
                     in closed_status (length counted) (wait_of counted) (kp_window_seconds p)))"

lemma refines_reads:
  assumes "refines_history T s a" "T \<le> now"
  shows "fa_status s = fh_status a \<and> fst (snapshot now s) = history_rollup now (fh_events a)
    \<and> fst (kill_switch_status now s) = history_status now a"
proof -
  from assms(1) obtain T0 where T0: "T0 \<le> T" "fa_events s = kept_events T0 (fh_events a)" by (auto simp: refines_history_def)
  have "prune_events MAX_RETAINED_EVENTS (now - of_int SECONDS_PER_WEEK) (kept_events T0 (fh_events a)) = kept_events now (fh_events a)"
    by (rule prune_kept) (use assms T0 in \<open>auto simp: refines_history_def\<close>)
  then have events: "fa_events (prune now s) = kept_events now (fh_events a)"
    using assms(1) T0(2) by (simp add: refines_history_def prune_def)
  show ?thesis using assms(1)
    by (simp add: refines_history_def snapshot_def rollup_of_def history_rollup_def kill_switch_status_def
        history_status_def events window_of_kept Let_def split: option.split)
qed

text \<open>
  C28. The pruned deque is as good as the full history, up to its bound. After any run of
  observations, snapshots, rollup logs, status reads and (re)configurations whose clock readings
  do not go back, the kill switch has exactly the status (reason, opening time, counts, source)
  of an accumulator that never prunes, a snapshot reports exactly its hour, day and week, and a
  status read its counts, where a window holds the observations of the last \<open>w\<close> seconds, but of
  a week at most, among the newest \<^verbatim>\<open>_MAX_RETAINED_EVENTS\<close> ones: a policy window beyond a week
  counts like a week, and a burst of more observations counts only its newest part.
\<close>

theorem flood_counters_exact:
  assumes "sorted (clocks ops @ [now])"
  shows "let s = run_ops flood_step ops (new_accumulator t0); a = run_ops history_step ops empty_history
    in fa_status s = fh_status a \<and> fst (snapshot now s) = history_rollup now (fh_events a)
      \<and> fst (kill_switch_status now s) = history_status now a"
proof -
  let ?T = "hd (clocks ops @ [now])"
  have start: "refines_history ?T (new_accumulator t0) empty_history"
    by (auto simp: refines_history_def new_accumulator_def empty_history_def chronological_def kept_events_def newest_events_def)
  have sorted: "sorted (?T # clocks ops @ [now])" using assms by (cases "clocks ops") auto
  then have "sorted (?T # clocks ops)" "last (?T # clocks ops) \<le> now"
    by (auto simp: sorted_append)
  from refines_reads[OF refines_run[OF start this(1)] this(2)] show ?thesis by (simp add: Let_def)
qed

text \<open>Two waits trip the switch; a snapshot between them and a reading after them change nothing.\<close>

definition flood_sample_ops :: "flood_op list" where
  "flood_sample_ops = [Configure storm_policy (Some 1), Observe ''full_sync'' 30 10 1000, Snapshot 15,
     Observe ''realtime_event'' 40 20 1010, Read_Status 30]"

theorem flood_counters_exact_witness:
  "ks_open (fa_status (run_ops flood_step flood_sample_ops (new_accumulator 0)))
   \<and> ru_wait_s_1h (fst (snapshot 100 (run_ops flood_step flood_sample_ops (new_accumulator 0)))) = 70"
proof -
  have "sorted (clocks flood_sample_ops @ [100])" by (simp add: clocks_def flood_sample_ops_def)
  from flood_counters_exact[OF this, of 0] show ?thesis
    by (simp add: Let_def flood_sample_ops_def empty_history_def storm_policy_def closed_status_def kill_reason_of_def recent_def
        newest_events_def wait_of_def MAX_RETAINED_EVENTS_def SECONDS_PER_WEEK_def SECONDS_PER_DAY_def SECONDS_PER_HOUR_def
        history_rollup_def)
qed

text \<open>
  The throttling outcome has exactly two shapes: construction succeeds exactly for a
  latched outcome without a duration and an unlatched one with a positive duration, and
  the extraction of a wait from an exception always gives at least one second.
\<close>

theorem throttled_shapes:
  "((\<exists>t. throttled retry latched detail rejected = Inr t) \<longleftrightarrow>
      (if latched then retry = None else (\<exists>n. retry = Some n \<and> 1 \<le> n))) \<and>
   1 \<le> flood_seconds seconds fallback"
  by (cases retry) (auto simp: throttled_def validate_throttle_state_def flood_seconds_def)

end
