(* ===== verification/Demand.thy ===== *)
theory Demand
  imports Demand_Contracts
begin

text \<open>
  \<^verbatim>\<open>src/mcp_telegram/telegram_demand_progress.py\<close> and
  \<^verbatim>\<open>src/mcp_telegram/telegram_demand.py\<close>: owner-issued work identities and slice
  receipts, durable readiness, the attempt budget of a slice, and the task-local demand
  contexts. Constructors with a \<^verbatim>\<open>__post_init__\<close> are functions into a sum type whose
  left side is the exception; \<^verbatim>\<open>isinstance\<close> tests are discharged by HOL's types.

  A \<^verbatim>\<open>contextmanager\<close> is a function of its body: it runs the body in the changed
  context and restores the variable it set, whatever the body returned. The task-local
  variables form the record \<open>Ctx\<close>; mutable objects that several owners share (accounting,
  evidence) are named by numbers.
\<close>

section \<open>Work identities and slice receipts\<close>

datatype demand_error =
    Bad_Account_Id
  | Bad_Token string
  | Unchanged_Commit
  | Uncommitted_Revision
  | Bad_Timestamp string
  | Bad_Caller_Deadline
  | Bad_Limit
  | Bad_Attempts
  | Budget_Exhausted
  | Nested_Root
  | Transfer_Over_Active
  | Missing_Context
  | Detached_Context
  | Token_Conflict
  | Incompatible_Root
  | Wrong_Execution_Mode
  | Contract_Failure registry_error
  | Both_Deadlines
  | Bad_Deadline
  | Bad_Timeout
  | Budget_Replaced
  | Token_Source_Mismatch

definition require_token :: "string option \<Rightarrow> string \<Rightarrow> demand_error + unit" where
  "require_token value field =
     guard (case value of None \<Rightarrow> False | Some v \<Rightarrow> py_strip v \<noteq> []) (Bad_Token field)"

record WorkKey =
  wk_demand_kind :: DemandKind
  wk_account_id :: int
  wk_target :: string

definition work_key :: "DemandKind \<Rightarrow> int \<Rightarrow> string \<Rightarrow> demand_error + WorkKey" where
  "work_key kind account_id target =
     then_check (guard (\<not> account_id \<le> 0) Bad_Account_Id)
       (then_check (require_token (Some target) ''target'')
         (Inr \<lparr>wk_demand_kind = kind, wk_account_id = account_id, wk_target = target\<rparr>))"

record WorkRevision =
  wr_key :: WorkKey
  wr_revision :: string

definition work_revision :: "WorkKey \<Rightarrow> string \<Rightarrow> demand_error + WorkRevision" where
  "work_revision key revision =
     then_check (require_token (Some revision) ''revision'')
       (Inr \<lparr>wr_key = key, wr_revision = revision\<rparr>)"

datatype SliceOutcomeKind =
    OUTCOME_PROGRESSED | OUTCOME_TERMINAL | OUTCOME_DEFERRED | OUTCOME_RETRYABLE_FAILURE
  | OUTCOME_STALE | OUTCOME_NO_PROGRESS

record SliceOutcome =
  so_selected :: WorkRevision
  so_kind :: SliceOutcomeKind
  so_committed_revision :: "string option"

definition slice_outcome ::
    "WorkRevision \<Rightarrow> SliceOutcomeKind \<Rightarrow> string option \<Rightarrow> demand_error + SliceOutcome" where
  "slice_outcome selected kind committed_revision =
     then_check
       (if kind \<in> {OUTCOME_PROGRESSED, OUTCOME_TERMINAL}
        then then_check (require_token committed_revision ''committed_revision'')
               (guard (committed_revision \<noteq> Some (wr_revision selected)) Unchanged_Commit)
        else guard (committed_revision = None) Uncommitted_Revision)
       (Inr \<lparr>so_selected = selected, so_kind = kind, so_committed_revision = committed_revision\<rparr>)"

definition committed_revision_for :: "SliceOutcome \<Rightarrow> WorkRevision \<Rightarrow> string option" where
  "committed_revision_for outcome selected =
     (if so_selected outcome = selected then so_committed_revision outcome else None)"

text \<open>
  A receipt carries a committed revision exactly when it is accepted progress: it
  can be built exactly when the kind is progress or terminal and the revision is a
  nonblank string other than the selected one, or the kind is another and there is no
  revision; and it yields that revision only for the very selection it consumed.
\<close>

theorem slice_outcome_commits:
  "(\<exists>outcome. slice_outcome selected kind committed = Inr outcome \<and>
      committed_revision_for outcome asked = result) \<longleftrightarrow>
   (if kind \<in> {OUTCOME_PROGRESSED, OUTCOME_TERMINAL}
    then \<exists>r. committed = Some r \<and> r \<noteq> wr_revision selected \<and> (\<exists>c \<in> set r. \<not> py_space c) \<and>
           result = (if asked = selected then Some r else None)
    else committed = None \<and> result = None)"
  by (cases committed)
    (auto simp: slice_outcome_def require_token_def committed_revision_for_def py_strip_nonempty)

section \<open>Durable readiness\<close>

definition validate_timestamp :: "time \<Rightarrow> string \<Rightarrow> demand_error + unit" where
  "validate_timestamp value name = guard (\<not> value < 0) (Bad_Timestamp name)"

record DemandStatus =
  st_release_at :: time
  st_freshness_deadline :: "time option"
  st_selected :: "WorkRevision option"
  st_request_method :: "string option"

definition demand_status ::
    "time \<Rightarrow> time option \<Rightarrow> WorkRevision option \<Rightarrow> string option \<Rightarrow> demand_error + DemandStatus" where
  "demand_status release_at freshness_deadline selected request_method =
     then_check (validate_timestamp release_at ''release_at'')
       (then_check
         (case freshness_deadline of None \<Rightarrow> Inr () | Some d \<Rightarrow> validate_timestamp d ''freshness_deadline'')
         (Inr \<lparr>st_release_at = release_at, st_freshness_deadline = freshness_deadline,
               st_selected = selected, st_request_method = request_method\<rparr>))"

definition is_ready :: "DemandStatus \<Rightarrow> time \<Rightarrow> demand_error + bool" where
  "is_ready s now = then_check (validate_timestamp now ''now'') (Inr (st_release_at s \<le> now))"

definition overdue_seconds :: "DemandStatus \<Rightarrow> time \<Rightarrow> demand_error + time" where
  "overdue_seconds s now =
     then_check (validate_timestamp now ''now'')
       (Inr (case st_freshness_deadline s of None \<Rightarrow> 0 | Some d \<Rightarrow> max 0 (now - d)))"

section \<open>Attempt budgets\<close>

record RpcAttemptAccounting =
  ac_limit :: int
  ac_attempts :: int

record RpcRetryAuthorization =
  ra_deadline :: time

text \<open>
  Budgets of one exact revision share their accounting object; \<open>bg_accounting\<close> is its
  name in the store.
\<close>

type_synonym accounts = "nat \<Rightarrow> RpcAttemptAccounting"

record RpcAttemptBudget =
  bg_accounting :: nat
  bg_selected :: "WorkRevision option"
  bg_last_method :: "string option"
  bg_retry_candidate :: "nat option"
  bg_read_budget_failure_method :: "string option"

text \<open>\<open>RpcAttemptBudget(limit, attempts, selected, last_method)\<close> with a new accounting object.\<close>

definition rpc_attempt_budget_new ::
    "nat \<Rightarrow> int \<Rightarrow> int \<Rightarrow> WorkRevision option \<Rightarrow> string option \<Rightarrow> accounts \<Rightarrow>
     demand_error + RpcAttemptBudget \<times> accounts" where
  "rpc_attempt_budget_new address limit attempts selected last_method st =
     then_check (guard (\<not> limit < 1) Bad_Limit)
       (then_check (guard (0 \<le> attempts \<and> attempts \<le> limit) Bad_Attempts)
         (Inr (\<lparr>bg_accounting = address, bg_selected = selected, bg_last_method = last_method,
                bg_retry_candidate = None, bg_read_budget_failure_method = None\<rparr>,
               st(address := \<lparr>ac_limit = limit, ac_attempts = attempts\<rparr>))))"

definition budget_limit :: "accounts \<Rightarrow> RpcAttemptBudget \<Rightarrow> int" where
  "budget_limit st b = ac_limit (st (bg_accounting b))"

definition budget_attempts :: "accounts \<Rightarrow> RpcAttemptBudget \<Rightarrow> int" where
  "budget_attempts st b = ac_attempts (st (bg_accounting b))"

definition budget_remaining :: "accounts \<Rightarrow> RpcAttemptBudget \<Rightarrow> int" where
  "budget_remaining st b = budget_limit st b - budget_attempts st b"

definition can_prepare_retry :: "RpcAttemptBudget \<Rightarrow> bool" where
  "can_prepare_retry b = (bg_retry_candidate b \<noteq> None)"

definition budget_exhausted :: "accounts \<Rightarrow> RpcAttemptBudget \<Rightarrow> bool" where
  "budget_exhausted st b = (budget_attempts st b \<ge> budget_limit st b)"

definition debit :: "RpcAttemptBudget \<Rightarrow> accounts \<Rightarrow> demand_error + accounts" where
  "debit b st =
     (if budget_exhausted st b then Inl Budget_Exhausted
      else Inr (st(bg_accounting b := (st (bg_accounting b))
             \<lparr>ac_attempts := ac_attempts (st (bg_accounting b)) + 1\<rparr>)))"

text \<open>A sequence of sends: each charges its budget, and is not sent when that raises.\<close>

fun debit_all :: "RpcAttemptBudget list \<Rightarrow> accounts \<Rightarrow> accounts" where
  "debit_all [] st = st"
| "debit_all (b # bs) st = debit_all bs (case debit b st of Inl e \<Rightarrow> st | Inr st' \<Rightarrow> st')"

lemma debit_account:
  "(case debit b st of Inl e \<Rightarrow> st | Inr st' \<Rightarrow> st') a =
     (if a = bg_accounting b \<and> ac_attempts (st a) < ac_limit (st a)
      then (st a)\<lparr>ac_attempts := ac_attempts (st a) + 1\<rparr> else st a)"
  by (auto simp: debit_def budget_exhausted_def budget_attempts_def budget_limit_def)

text \<open>
  Budget accounting is exact under sharing: after any interleaving of sends through
  any budgets, an account that started within its limit was charged once for each send
  through one of its bindings until the limit was reached, and never beyond; accounts of
  other revisions are not touched.
\<close>

theorem debit_all_exact:
  assumes "ac_attempts (st a) \<le> ac_limit (st a)"
  shows "ac_attempts (debit_all bs st a) =
       min (ac_attempts (st a) + int (count_list (map bg_accounting bs) a)) (ac_limit (st a)) \<and>
     ac_limit (debit_all bs st a) = ac_limit (st a)"
  using assms
proof (induction bs arbitrary: st)
  case Nil
  then show ?case by simp
next
  case (Cons b bs)
  let ?st = "case debit b st of Inl e \<Rightarrow> st | Inr st' \<Rightarrow> st'"
  have a: "?st a = (if a = bg_accounting b \<and> ac_attempts (st a) < ac_limit (st a)
      then (st a)\<lparr>ac_attempts := ac_attempts (st a) + 1\<rparr> else st a)"
    by (rule debit_account)
  have "ac_attempts (?st a) \<le> ac_limit (?st a)" using Cons.prems by (auto simp: a)
  with Cons.IH [of ?st] show ?case using Cons.prems by (auto simp: a)
qed

definition sample_budget :: RpcAttemptBudget where
  "sample_budget = \<lparr>bg_accounting = 0, bg_selected = None, bg_last_method = None,
     bg_retry_candidate = None, bg_read_budget_failure_method = None\<rparr>"

theorem debit_all_exact_witness:
  "ac_attempts (debit_all [sample_budget, sample_budget, sample_budget]
      (\<lambda>_. \<lparr>ac_limit = 2, ac_attempts = 0\<rparr>) 0) = 2"
  using debit_all_exact [of "\<lambda>_. \<lparr>ac_limit = 2, ac_attempts = 0\<rparr>" 0
      "[sample_budget, sample_budget, sample_budget]"]
  by (simp add: sample_budget_def)

section \<open>Demand tokens\<close>

datatype AcquisitionKind =
    ACQ_ACCOUNT_SELF_PROFILE | ACQ_ADMIN_LOG_PAGE | ACQ_CONNECTION_BOOTSTRAP
  | ACQ_DIALOG_TRAVERSAL | ACQ_ENTITY_LOOKUP | ACQ_FORWARD_NAME_LOOKUP | ACQ_FOLDER_SNAPSHOT
  | ACQ_CONTACT_CATALOGUE | ACQ_MESSAGE_HISTORY_PAGE | ACQ_PARTICIPANT_LOOKUP
  | ACQ_MESSAGE_LOOKUP | ACQ_MESSAGE_SEARCH_PAGE | ACQ_REACTION_SNAPSHOT
  | ACQ_READ_RECEIPT_SNAPSHOT | ACQ_SCHEDULED_MESSAGES_SNAPSHOT | ACQ_DRAFT_SNAPSHOT
  | ACQ_TOPIC_LOOKUP | ACQ_TOPIC_SNAPSHOT | ACQ_UPDATE_DIFFERENCE | ACQ_LINKED_CHAT_RESOLUTION

record RpcAttemptEvidence =
  ev_actual_attempts :: int
  ev_observation_id :: string
  ev_draft_preflight_dispatched :: bool
  ev_draft_mutation_dispatched :: bool
  ev_draft_postflight_dispatched :: bool
  ev_scheduled_mutation_dispatched :: bool
  ev_folder_preflight_dispatched :: bool
  ev_folder_mutation_dispatched :: bool
  ev_folder_postflight_dispatched :: bool
  ev_note_target :: "int option"
  ev_note_config_dispatched :: bool
  ev_note_preflight_dispatched :: bool
  ev_note_mutation_dispatched :: bool
  ev_note_postflight_dispatched :: bool
  ev_contact_target :: "int option"
  ev_contact_preflight_dispatched :: bool
  ev_contact_mutation_dispatched :: bool
  ev_contact_postflight_dispatched :: bool

definition record_evidence_dispatch :: "RpcAttemptEvidence \<Rightarrow> RpcAttemptEvidence" where
  "record_evidence_dispatch e = e\<lparr>ev_actual_attempts := ev_actual_attempts e + 1\<rparr>"

text \<open>\<open>tk_attempt_evidence\<close> names the shared evidence object of the root.\<close>

record DemandToken =
  tk_kind :: DemandKind
  tk_source :: TelegramRpcSource
  tk_service_class :: RpcServiceClass
  tk_admission_deadline :: time
  tk_acquisition_kind :: "AcquisitionKind option"
  tk_owner_task :: "task_id option"
  tk_attempt_evidence :: nat

text \<open>
  What an operation reads from its surroundings: the monotonic clock, the running task
  and the name of the next evidence object.
\<close>

record Env =
  en_now :: time
  en_task :: "task_id option"
  en_fresh :: nat

fun lift_contract :: "registry_error + 'a \<Rightarrow> demand_error + 'a" where
  "lift_contract (Inl e) = Inl (Contract_Failure e)"
| "lift_contract (Inr x) = Inr x"

fun bind_err :: "'e + 'a \<Rightarrow> ('a \<Rightarrow> 'e + 'b) \<Rightarrow> 'e + 'b" where
  "bind_err (Inl e) f = Inl e"
| "bind_err (Inr x) f = f x"

definition resolve_admission_deadline ::
    "DemandContract \<Rightarrow> time option \<Rightarrow> time \<Rightarrow> demand_error + time" where
  "resolve_admission_deadline c caller_deadline now =
     then_check (validate_timestamp now ''now'')
       (let policy_deadline = now + dc_admission_timeout_seconds c
        in case caller_deadline of
             None \<Rightarrow> Inr policy_deadline
           | Some d \<Rightarrow>
               then_check (validate_timestamp d ''caller_deadline'')
                 (then_check (guard (d \<noteq> 0) Bad_Caller_Deadline) (Inr (min policy_deadline d))))"

definition validate_token :: "DemandToken \<Rightarrow> demand_error + unit" where
  "validate_token token =
     bind_err (lift_contract (demand_contract (tk_kind token)))
       (\<lambda>c. guard (tk_source token = dc_source c \<and> tk_service_class token = dc_service_class c)
              Token_Conflict)"

definition COMMAND_KINDS :: "DemandKind set" where
  "COMMAND_KINDS = {KIND_FOLDER_COMMAND, KIND_NOTE_COMMAND, KIND_CONTACT_COMMAND}"

definition command_deadline :: "time option \<Rightarrow> time \<Rightarrow> demand_error + time" where
  "command_deadline deadline now =
     then_check (validate_timestamp now ''now'')
       (case deadline of
          None \<Rightarrow> Inr (now + 25)
        | Some d \<Rightarrow>
            then_check (validate_timestamp d ''caller_deadline'')
              (then_check (guard (d \<noteq> 0) Bad_Caller_Deadline) (Inr (min (now + 25) d))))"

definition create_demand_token ::
    "Env \<Rightarrow> DemandKind \<Rightarrow> time option \<Rightarrow> demand_error + DemandToken" where
  "create_demand_token env kind deadline =
     bind_err (lift_contract (demand_contract kind))
       (\<lambda>c. bind_err
          (if kind \<in> COMMAND_KINDS then command_deadline deadline (en_now env)
           else resolve_admission_deadline c deadline (en_now env))
          (\<lambda>resolved. Inr \<lparr>tk_kind = kind, tk_source = dc_source c,
              tk_service_class = dc_service_class c, tk_admission_deadline = resolved,
              tk_acquisition_kind = None, tk_owner_task = en_task env,
              tk_attempt_evidence = en_fresh env\<rparr>))"

section \<open>Task-local contexts\<close>

record Ctx =
  cx_token :: "DemandToken option"
  cx_deadline :: "(time \<times> task_id option) option"
  cx_response :: "(task_id option \<times> time) option"
  cx_budget :: "nat option" \<comment> \<open>the bound budget object\<close>
  cx_legacy :: "DemandToken option"

definition empty_ctx :: Ctx where
  "empty_ctx = \<lparr>cx_token = None, cx_deadline = None, cx_response = None, cx_budget = None,
     cx_legacy = None\<rparr>"

text \<open>
  The body of a \<^verbatim>\<open>with\<close> block: a computation in a context that returns or raises.
\<close>

type_synonym ('e, 'r) body = "Ctx \<Rightarrow> ('e + 'r) \<times> Ctx"

definition raise_in :: "'e \<Rightarrow> ('e, 'r) body" where
  "raise_in e cx = (Inl e, cx)"

text \<open>\<^verbatim>\<open>set(token)\<close> ... \<^verbatim>\<open>reset\<close> around a body.\<close>

definition with_token :: "DemandToken \<Rightarrow> ('e, 'r) body \<Rightarrow> ('e, 'r) body" where
  "with_token token body cx =
     (let (r, cx') = body (cx\<lparr>cx_token := Some token\<rparr>) in (r, cx'\<lparr>cx_token := cx_token cx\<rparr>))"

definition demand_context ::
    "Env \<Rightarrow> DemandKind \<Rightarrow> time option \<Rightarrow> (DemandToken \<Rightarrow> (demand_error, 'r) body) \<Rightarrow>
     (demand_error, 'r) body" where
  "demand_context env kind deadline body cx =
     (if cx_token cx \<noteq> None then raise_in Nested_Root cx
      else case create_demand_token env kind deadline of
          Inl e \<Rightarrow> raise_in e cx
        | Inr token \<Rightarrow> with_token token (body token) cx)"

definition current_demand_token :: "Env \<Rightarrow> Ctx \<Rightarrow> demand_error + DemandToken" where
  "current_demand_token env cx =
     (case cx_token cx of
        None \<Rightarrow> Inl Missing_Context
      | Some token \<Rightarrow>
          (if tk_owner_task token \<noteq> None \<and> tk_owner_task token \<noteq> en_task env then Inl Detached_Context
           else then_check (validate_token token) (Inr token)))"

definition acquisition_context ::
    "Env \<Rightarrow> AcquisitionKind \<Rightarrow> (DemandToken \<Rightarrow> (demand_error, 'r) body) \<Rightarrow> (demand_error, 'r) body" where
  "acquisition_context env kind body cx =
     (case current_demand_token env cx of
        Inl e \<Rightarrow> raise_in e cx
      | Inr base \<Rightarrow>
          (let nested = base\<lparr>tk_acquisition_kind := Some kind\<rparr>
           in with_token nested (body nested) cx))"

definition transferred_demand_context ::
    "Env \<Rightarrow> DemandToken \<Rightarrow> (DemandToken \<Rightarrow> (demand_error, 'r) body) \<Rightarrow> (demand_error, 'r) body" where
  "transferred_demand_context env token body cx =
     (case validate_token token of
        Inl e \<Rightarrow> raise_in e cx
      | Inr u \<Rightarrow>
          (if (case cx_token cx of None \<Rightarrow> False | Some active \<Rightarrow> tk_owner_task active = en_task env)
           then raise_in Transfer_Over_Active cx
           else let transferred = token\<lparr>tk_owner_task := en_task env\<rparr>
                in with_token transferred (body transferred) cx))"

definition durable_demand_context ::
    "Env \<Rightarrow> DemandKind \<Rightarrow> (DemandToken \<Rightarrow> (demand_error, 'r) body) \<Rightarrow> (demand_error, 'r) body" where
  "durable_demand_context env kind body cx =
     (case current_demand_token env cx of
        Inl e \<Rightarrow> (if e = Missing_Context then demand_context env kind None body cx else raise_in e cx)
      | Inr token \<Rightarrow>
          (if tk_kind token \<noteq> kind then raise_in Incompatible_Root cx else body token cx))"

definition require_execution_mode :: "Env \<Rightarrow> ExecutionMode \<Rightarrow> Ctx \<Rightarrow> demand_error + DemandToken" where
  "require_execution_mode env expected cx =
     bind_err (current_demand_token env cx)
       (\<lambda>token. bind_err (lift_contract (demand_contract (tk_kind token)))
          (\<lambda>c. then_check (guard (dc_execution_mode c = expected) Wrong_Execution_Mode) (Inr token)))"

section \<open>Facts about tokens and contexts\<close>

lemma bind_err_ok [simp]: "bind_err r f = Inr y \<longleftrightarrow> (\<exists>x. r = Inr x \<and> f x = Inr y)"
  by (cases r) auto

lemma lift_contract_ok [simp]: "lift_contract r = Inr x \<longleftrightarrow> r = Inr x"
  by (cases r) auto

lemma demand_contract_ok [simp]: "demand_contract kind = Inr c \<longleftrightarrow> c = contract_of kind"
  by (auto simp: demand_contract_of)

lemma validate_timestamp_ok [simp]: "validate_timestamp t name = Inr u \<longleftrightarrow> 0 \<le> t"
  by (auto simp: validate_timestamp_def not_less)

lemma validate_token_ok [simp]:
  "validate_token t = Inr () \<longleftrightarrow>
     tk_source t = dc_source (contract_of (tk_kind t)) \<and>
     tk_service_class t = source_class (tk_source t)"
  by (auto simp: validate_token_def)

text \<open>The latest admission a root of a kind may ask for.\<close>

definition admission_cap :: "DemandKind \<Rightarrow> time" where
  "admission_cap kind =
     (if kind \<in> COMMAND_KINDS then 25
      else ADMISSION_TIMEOUT_SECONDS (source_class (dc_source (contract_of kind))))"

text \<open>
  A root token is created exactly when the clock is nonnegative and a caller deadline,
  if any, is positive; it carries the source and class registered for its kind, the
  creating task and a new evidence object, and its deadline is the policy's (25 seconds
  for folder, note and contact commands, else the class timeout) unless the caller's is
  earlier: a caller can tighten the policy and never extend it.
\<close>

theorem create_demand_token_iff:
  "create_demand_token env kind deadline = Inr token \<longleftrightarrow>
     0 \<le> en_now env \<and> (case deadline of None \<Rightarrow> True | Some d \<Rightarrow> 0 < d) \<and>
     token = \<lparr>tk_kind = kind, tk_source = dc_source (contract_of kind),
       tk_service_class = source_class (dc_source (contract_of kind)),
       tk_admission_deadline =
         (case deadline of None \<Rightarrow> en_now env + admission_cap kind
          | Some d \<Rightarrow> min (en_now env + admission_cap kind) d),
       tk_acquisition_kind = None, tk_owner_task = en_task env,
       tk_attempt_evidence = en_fresh env\<rparr>"
  by (cases deadline)
    (auto simp: create_demand_token_def command_deadline_def resolve_admission_deadline_def
      admission_cap_def Let_def)

lemma with_token_restores: "cx_token (snd (with_token t body cx)) = cx_token cx"
  by (simp add: with_token_def split: prod.split)

lemma raise_in_simps [simp]: "fst (raise_in e cx) = Inl e" "snd (raise_in e cx) = cx"
  by (simp_all add: raise_in_def)

text \<open>
  What a body sees: its own token, installed, and the token any helper it calls would
  find.
\<close>

definition observe_token ::
    "Env \<Rightarrow> DemandToken \<Rightarrow> (demand_error, DemandToken \<times> (demand_error + DemandToken)) body" where
  "observe_token env token cx = (Inr (token, current_demand_token env cx), cx)"

text \<open>
  Demand contexts nest like a stack and never change the root's identity. Whatever the
  body does, root, acquisition and transferred contexts restore the token they found; a
  second root is refused with the context unchanged; and inside an acquisition context
  every helper finds the surrounding root's kind, source, class, deadline, owner and
  evidence, with only the acquisition kind replaced.
\<close>

theorem demand_contexts_nest:
  "cx_token (snd (demand_context env kind deadline body cx)) = cx_token cx \<and>
   cx_token (snd (acquisition_context env acq body cx)) = cx_token cx \<and>
   cx_token (snd (transferred_demand_context env token body cx)) = cx_token cx \<and>
   (if cx_token cx = None then True
    else demand_context env kind deadline body cx = (Inl Nested_Root, cx)) \<and>
   fst (acquisition_context env acq (observe_token env) cx) =
     (case current_demand_token env cx of
        Inl e \<Rightarrow> Inl e
      | Inr t \<Rightarrow> Inr (t\<lparr>tk_acquisition_kind := Some acq\<rparr>, Inr (t\<lparr>tk_acquisition_kind := Some acq\<rparr>)))"
proof -
  have "current_demand_token env (cx\<lparr>cx_token := Some (t\<lparr>tk_acquisition_kind := Some acq\<rparr>)\<rparr>) =
      Inr (t\<lparr>tk_acquisition_kind := Some acq\<rparr>)" if "current_demand_token env cx = Inr t" for t
  proof -
    have "validate_token (t\<lparr>tk_acquisition_kind := Some acq\<rparr>) = validate_token t"
      by (simp add: validate_token_def)
    with that show ?thesis
      by (auto simp: current_demand_token_def split: option.splits if_splits)
  qed
  then show ?thesis
    by (auto simp: demand_context_def acquisition_context_def transferred_demand_context_def
        with_token_restores with_token_def observe_token_def raise_in_def Let_def
        split: sum.splits prod.splits option.splits)
qed

end
