(* ===== verification/Rpc_Scope.thy ===== *)
theory Rpc_Scope
  imports Demand
begin

text \<open>
  The first part of \<^verbatim>\<open>src/mcp_telegram/telegram_rpc_scheduler.py\<close>: typed scopes, the
  bridge from source-only call sites to demand kinds, deadline and response-timeout
  overrides, budget binding and the clean context of scoped tasks. Context managers are
  functions of their body, as in \<^verbatim>\<open>Demand\<close>; a scoped task is its body run in the empty
  context.
\<close>

section \<open>The legacy bridge\<close>

definition LEGACY_ROWS :: "(TelegramRpcSource \<times> DemandKind) list" where
  "LEGACY_ROWS =
    [(SOURCE_MCP_INTERACTIVE, KIND_MCP_REMOTE_ACQUISITION),
     (SOURCE_CHAT_EXPORT, KIND_CHAT_EXPORT_OPERATION),
     (SOURCE_DIALOG_RESOLUTION, KIND_ENTITY_LOOKUP),
     (SOURCE_TOPIC_RESOLUTION, KIND_TOPIC_LOOKUP),
     (SOURCE_ENTITY_INFO_FOREGROUND, KIND_FOREGROUND_ENTITY_FACTS),
     (SOURCE_ENTITY_INFO_REFRESH, KIND_ENTITY_PROFILE_REFRESH),
     (SOURCE_ACCOUNT_TRACE, KIND_ACCOUNT_TRACE_PAGE),
     (SOURCE_TELETHON_UPDATE_DIFFERENCE, KIND_TELETHON_UPDATE_DIFFERENCE),
     (SOURCE_TELETHON_RECONNECT_PROBE, KIND_TELETHON_RECONNECT_PROBE),
     (SOURCE_TELETHON_CONNECTION_BOOTSTRAP, KIND_TELETHON_CONNECTION_BOOTSTRAP),
     (SOURCE_RECONNECT_DIFFERENCE, KIND_RECONNECT_DIFFERENCE),
     (SOURCE_REALTIME_EVENT, KIND_REALTIME_EVENT_ACQUISITION),
     (SOURCE_DELTA_SYNC, KIND_DELTA_GAP_FILL),
     (SOURCE_ACTIVITY_HOT_SWEEP, KIND_HOT_ACTIVITY_PAGE),
     (SOURCE_FACT_HYDRATION_LIVE, KIND_LIVE_HYDRATION_BATCH),
     (SOURCE_FULL_SYNC, KIND_FULL_SYNC_PAGE),
     (SOURCE_DIALOG_SYNC, KIND_DIALOG_BOOTSTRAP),
     (SOURCE_ACTIVITY_ARCHIVE, KIND_ARCHIVE_INCREMENTAL),
     (SOURCE_ACTIVITY_COLD_BACKFILL, KIND_COLD_PEER_PAGE),
     (SOURCE_FACT_HYDRATION_BACKFILL, KIND_BACKFILL_HYDRATION_BATCH),
     (SOURCE_FOLDER_RECONCILIATION, KIND_FOLDER_SNAPSHOT),
     (SOURCE_CONTACT_CATALOGUE, KIND_CONTACT_CATALOGUE),
     (SOURCE_TOPIC_RECONCILIATION, KIND_TOPIC_SNAPSHOT),
     (SOURCE_MESSAGE_FACT_REFRESH, KIND_MESSAGE_FACT_REFRESH),
     (SOURCE_READ_RECEIPT_PROBE, KIND_READ_RECEIPT_BATCH),
     (SOURCE_SCHEDULED_MESSAGES, KIND_SCHEDULED_REPAIR),
     (SOURCE_MESSAGE_IMAGE_ACQUISITION, KIND_MESSAGE_IMAGE_ACQUISITION),
     (SOURCE_SCHEDULED_MUTATION, KIND_SCHEDULED_MUTATION),
     (SOURCE_FOLDER_COMMAND, KIND_FOLDER_COMMAND),
     (SOURCE_NOTE_COMMAND, KIND_NOTE_COMMAND),
     (SOURCE_CONTACT_COMMAND, KIND_CONTACT_COMMAND),
     (SOURCE_DRAFT_SNAPSHOT, KIND_DRAFT_SNAPSHOT),
     (SOURCE_DRAFT_MUTATION, KIND_DRAFT_MUTATION),
     (SOURCE_MAINTENANCE, KIND_SELF_PROFILE_MAINTENANCE),
     (SOURCE_LINKED_CHAT_REFRESH, KIND_LINKED_CHAT_REFRESH),
     (SOURCE_OPERATOR_AUTH, KIND_OPERATOR_AUTH),
     (SOURCE_OPERATOR_LOGOUT, KIND_OPERATOR_LOGOUT)]"

definition validate_legacy_demand_kinds :: "(TelegramRpcSource \<times> DemandKind) list \<Rightarrow> registry_error + unit" where
  "validate_legacy_demand_kinds bridge =
     then_check (guard (set (map fst bridge) = set Enum.enum) Registry_Incomplete)
       (check_all
          (\<lambda>(source, kind).
             (case TELEGRAM_DEMAND_CONTRACTS of
                Inl e \<Rightarrow> Inl e
              | Inr cs \<Rightarrow>
                  (case od_get cs kind of
                     None \<Rightarrow> Inl (Contract_Key_Mismatch kind)
                   | Some c \<Rightarrow> guard (dc_source c = source) (Unknown_Source source))))
          bridge)"

definition LEGACY_DEMAND_KIND_BY_SOURCE :: "TelegramRpcSource \<Rightarrow> DemandKind" where
  "LEGACY_DEMAND_KIND_BY_SOURCE source = the (od_get LEGACY_ROWS source)"

lemma legacy_rows_cover: "list_all (\<lambda>s. od_get LEGACY_ROWS s \<noteq> None) Enum.enum"
  by code_simp

lemma legacy_rows_agree: "list_all (\<lambda>(s, k). dc_source (contract_of k) = s) LEGACY_ROWS"
  by code_simp

lemma legacy_get: "od_get LEGACY_ROWS s = Some (LEGACY_DEMAND_KIND_BY_SOURCE s)"
proof -
  have "od_get LEGACY_ROWS s \<noteq> None"
    using legacy_rows_cover enum_UNIV [where 'a = TelegramRpcSource] by (auto simp: list_all_iff)
  then show ?thesis by (auto simp: LEGACY_DEMAND_KIND_BY_SOURCE_def)
qed

lemma legacy_source [simp]: "dc_source (contract_of (LEGACY_DEMAND_KIND_BY_SOURCE s)) = s"
proof -
  have "(s, LEGACY_DEMAND_KIND_BY_SOURCE s) \<in> set LEGACY_ROWS"
    using legacy_get [of s] by (simp add: od_get_map_of map_of_SomeD)
  then show ?thesis using legacy_rows_agree by (auto simp: list_all_iff)
qed

text \<open>The bridge passes its import-time validation.\<close>

lemma legacy_validates: "validate_legacy_demand_kinds LEGACY_ROWS = Inr ()"
proof -
  have "s \<in> set (map fst LEGACY_ROWS)" for s
    using legacy_get [of s] by (auto simp: od_get_map_of dest!: map_of_SomeD intro: rev_image_eqI)
  then have "set (map fst LEGACY_ROWS) = UNIV" by blast
  moreover have "dc_source (contract_of k) = s" if "(s, k) \<in> set LEGACY_ROWS" for s k
    using that legacy_rows_agree by (auto simp: list_all_iff)
  ultimately show ?thesis
    unfolding validate_legacy_demand_kinds_def telegram_demand_contracts_shipped then_check_ok
      check_all_ok
    by (auto simp: enum_UNIV shipped_contracts_get)
qed

definition RPC_SOURCE_SERVICE_CLASS :: "TelegramRpcSource \<Rightarrow> registry_error + RpcServiceClass" where
  "RPC_SOURCE_SERVICE_CLASS source =
     (case telegram_rpc_consumer source of
        Inl e \<Rightarrow> Inl e
      | Inr spec \<Rightarrow> Inr (as_service_class (cs_admission spec)))"

lemma rpc_source_service_class [simp]: "RPC_SOURCE_SERVICE_CLASS s = Inr (source_class s)"
proof -
  obtain r where r: "TELEGRAM_RPC_CONSUMERS = Inr r" "registry_policy r = shipped_policy"
    by (rule shipped_registry)
  obtain spec where "registry_get r s = Some spec" "as_service_class (cs_admission spec) = source_class s"
    using r(2) by (rule shipped_consumer)
  then show ?thesis
    unfolding RPC_SOURCE_SERVICE_CLASS_def telegram_rpc_consumer_def r(1) by simp
qed

section \<open>Scopes\<close>

datatype ResendCause =
    RESEND_INITIAL | RESEND_BAD_SERVER_SALT | RESEND_BAD_MSG_NOTIFICATION | RESEND_RECONNECT
  | RESEND_LOCAL_DEFER | RESEND_GATEWAY_TRANSIENT | RESEND_GATEWAY_DC_RETRY
  | RESEND_UNATTRIBUTED_REPLAY

text \<open>
  Budgets and evidence are the shared objects named in \<^verbatim>\<open>Demand\<close>; the request method is a
  string.
\<close>

record TelegramRpcScope =
  sc_source :: TelegramRpcSource
  sc_service_class :: RpcServiceClass
  sc_deadline :: "time option"
  sc_owner_task :: "task_id option"
  sc_demand_kind :: "DemandKind option"
  sc_acquisition_kind :: "AcquisitionKind option"
  sc_source_outstanding_limit :: "int option"
  sc_attempt_budget :: "nat option"
  sc_attempt_evidence :: "nat option"
  sc_request_method :: "string option"
  sc_owned_attempt_id :: "string option"
  sc_transport_control :: bool
  sc_transport_bootstrap :: bool
  sc_transport_auth :: bool
  sc_response_timeout_seconds :: "time option"
  sc_diagnostic_retry_cause :: "ResendCause option"

definition validate_deadline :: "time option \<Rightarrow> demand_error + unit" where
  "validate_deadline deadline =
     guard (case deadline of None \<Rightarrow> True | Some d \<Rightarrow> \<not> d \<le> 0) Bad_Deadline"

definition validate_timeout :: "time option \<Rightarrow> demand_error + unit" where
  "validate_timeout timeout_seconds =
     guard (case timeout_seconds of None \<Rightarrow> True | Some d \<Rightarrow> \<not> d \<le> 0) Bad_Timeout"

definition min_option :: "time \<Rightarrow> time option \<Rightarrow> time" where
  "min_option t d = (case d of None \<Rightarrow> t | Some d \<Rightarrow> min t d)"

definition current_rpc_scope :: "Env \<Rightarrow> Ctx \<Rightarrow> demand_error + TelegramRpcScope" where
  "current_rpc_scope env cx =
     bind_err (current_demand_token env cx) (\<lambda>token.
     let deadline = (case cx_deadline cx of
           None \<Rightarrow> tk_admission_deadline token
         | Some (d, owner) \<Rightarrow>
             (if owner = en_task env then min (tk_admission_deadline token) d
              else tk_admission_deadline token))
     in bind_err (lift_contract (demand_contract (tk_kind token))) (\<lambda>c. Inr
       \<lparr>sc_source = tk_source token, sc_service_class = tk_service_class token,
        sc_deadline = Some deadline, sc_owner_task = tk_owner_task token,
        sc_demand_kind = Some (tk_kind token), sc_acquisition_kind = tk_acquisition_kind token,
        sc_source_outstanding_limit = Some (dc_source_outstanding_limit c),
        sc_attempt_budget = cx_budget cx, sc_attempt_evidence = Some (tk_attempt_evidence token),
        sc_request_method = None, sc_owned_attempt_id = None, sc_transport_control = False,
        sc_transport_bootstrap = False, sc_transport_auth = False,
        sc_response_timeout_seconds =
          (case cx_response cx of
             None \<Rightarrow> None
           | Some (owner, r) \<Rightarrow> (if owner = en_task env then Some r else None)),
        sc_diagnostic_retry_cause = None\<rparr>))"

definition resolve_response ::
    "task_id option \<Rightarrow> (task_id option \<times> time) option \<Rightarrow> time option \<Rightarrow> time option" where
  "resolve_response owner previous requested =
     (let inherited = (case previous of
           None \<Rightarrow> None | Some (o', r) \<Rightarrow> (if o' = owner then Some r else None))
      in case inherited of
           None \<Rightarrow> requested
         | Some i \<Rightarrow> (case requested of None \<Rightarrow> Some i | Some r \<Rightarrow> Some (min i r)))"

definition rpc_scope_details ::
    "Env \<Rightarrow> time option \<Rightarrow> AcquisitionKind option \<Rightarrow> time option \<Rightarrow> (demand_error, 'r) body \<Rightarrow>
     (demand_error, 'r) body" where
  "rpc_scope_details env caller_deadline acquisition_kind response_timeout_seconds body cx =
     (case current_demand_token env cx of
        Inl e \<Rightarrow> raise_in e cx
      | Inr base \<Rightarrow>
          (let resolved = min_option (tk_admission_deadline base) caller_deadline;
               owner = en_task env;
               response = resolve_response owner (cx_response cx) response_timeout_seconds;
               inner = cx\<lparr>cx_deadline := Some (resolved, owner),
                          cx_response := map_option (Pair owner) response\<rparr>;
               (r, cx') = (case acquisition_kind of
                   None \<Rightarrow> body inner
                 | Some kind \<Rightarrow> acquisition_context env kind (\<lambda>_. body) inner)
           in (r, cx'\<lparr>cx_response := cx_response cx, cx_deadline := cx_deadline cx\<rparr>)))"

text \<open>\<^verbatim>\<open>yield current_rpc_scope()\<close> inside a block.\<close>

definition yield_scope ::
    "Env \<Rightarrow> (TelegramRpcScope \<Rightarrow> (demand_error, 'r) body) \<Rightarrow> (demand_error, 'r) body" where
  "yield_scope env body cx =
     (case current_rpc_scope env cx of Inl e \<Rightarrow> raise_in e cx | Inr scope \<Rightarrow> body scope cx)"

definition is_unclassified :: "demand_error \<Rightarrow> bool" where
  "is_unclassified e = (e \<in> {Missing_Context, Detached_Context, Incompatible_Root})"

definition with_legacy :: "DemandToken \<Rightarrow> ('e, 'r) body \<Rightarrow> ('e, 'r) body" where
  "with_legacy token body cx =
     (let (r, cx') = body (cx\<lparr>cx_legacy := Some token\<rparr>) in (r, cx'\<lparr>cx_legacy := cx_legacy cx\<rparr>))"

definition rpc_scope ::
    "Env \<Rightarrow> TelegramRpcSource \<Rightarrow> time option \<Rightarrow> time option \<Rightarrow> time option \<Rightarrow> AcquisitionKind option \<Rightarrow>
     (TelegramRpcScope \<Rightarrow> (demand_error, 'r) body) \<Rightarrow> (demand_error, 'r) body" where
  "rpc_scope env source deadline timeout_seconds response_timeout_seconds acquisition_kind body cx =
     (case then_check (guard (deadline = None \<or> timeout_seconds = None) Both_Deadlines)
             (then_check (validate_deadline deadline)
               (then_check (validate_timeout timeout_seconds)
                 (validate_timeout response_timeout_seconds))) of
        Inl e \<Rightarrow> raise_in e cx
      | Inr u \<Rightarrow>
          (let caller_deadline = (case timeout_seconds of
                 Some t \<Rightarrow> Some (en_now env + t) | None \<Rightarrow> deadline);
               details = rpc_scope_details env caller_deadline acquisition_kind
                 response_timeout_seconds (yield_scope env body)
           in case current_demand_token env cx of
                Inr token \<Rightarrow> details cx
              | Inl e \<Rightarrow>
                  (if \<not> is_unclassified e then raise_in e cx
                   else case cx_legacy cx of
                       Some inherited \<Rightarrow>
                         (if tk_source inherited = source
                          then transferred_demand_context env inherited (\<lambda>_. details) cx
                          else demand_context env (LEGACY_DEMAND_KIND_BY_SOURCE source) caller_deadline
                                 (\<lambda>token. with_legacy token details) cx)
                     | None \<Rightarrow> demand_context env (LEGACY_DEMAND_KIND_BY_SOURCE source) caller_deadline
                                 (\<lambda>token. with_legacy token details) cx)))"

definition rpc_attempt_budget :: "nat \<Rightarrow> (demand_error, 'r) body \<Rightarrow> (demand_error, 'r) body" where
  "rpc_attempt_budget budget body cx =
     (if cx_budget cx \<noteq> None \<and> cx_budget cx \<noteq> Some budget then raise_in Budget_Replaced cx
      else let (r, cx') = body (cx\<lparr>cx_budget := Some budget\<rparr>) in (r, cx'\<lparr>cx_budget := cx_budget cx\<rparr>))"

definition preserve_or_rpc_scope ::
    "Env \<Rightarrow> TelegramRpcSource \<Rightarrow> (demand_error, 'r) body \<Rightarrow> (demand_error, 'r) body" where
  "preserve_or_rpc_scope env source body cx =
     (case current_demand_token env cx of
        Inr token \<Rightarrow> body cx
      | Inl e \<Rightarrow> (if is_unclassified e then rpc_scope env source None None None None (\<lambda>_. body) cx
                  else raise_in e cx))"

text \<open>
  \<^verbatim>\<open>create_scoped_rpc_task\<close> validates in the caller and runs the awaitable in a new
  context. \<open>task_env\<close> is the environment of the created task.
\<close>

definition create_scoped_rpc_task ::
    "Env \<Rightarrow> TelegramRpcSource \<Rightarrow> time option \<Rightarrow> DemandToken option \<Rightarrow> nat option \<Rightarrow>
     (demand_error, 'r) body \<Rightarrow> demand_error + 'r" where
  "create_scoped_rpc_task task_env source deadline demand_token attempt_budget awaitable =
     then_check (validate_deadline deadline)
      (then_check
        (guard (case demand_token of None \<Rightarrow> True | Some t \<Rightarrow> tk_source t = source) Token_Source_Mismatch)
        (let run_with_identity = (case demand_token of
               None \<Rightarrow> rpc_scope task_env source deadline None None None (\<lambda>_. awaitable)
             | Some t \<Rightarrow> transferred_demand_context task_env t
                 (\<lambda>_. rpc_scope_details task_env deadline None None awaitable));
             run_scoped = (case attempt_budget of
               None \<Rightarrow> run_with_identity
             | Some b \<Rightarrow> rpc_attempt_budget b run_with_identity)
         in fst (run_scoped empty_ctx)))"

definition expires_at :: "time \<Rightarrow> time \<Rightarrow> time" where
  "expires_at now lifetime_seconds = now + lifetime_seconds"

definition create_detached_rpc_task ::
    "time \<Rightarrow> Env \<Rightarrow> TelegramRpcSource \<Rightarrow> time \<Rightarrow> DemandToken option \<Rightarrow> nat option \<Rightarrow>
     (demand_error, 'r) body \<Rightarrow> demand_error + 'r" where
  "create_detached_rpc_task now task_env source timeout_seconds demand_token attempt_budget awaitable =
     then_check (guard (\<not> timeout_seconds \<le> 0) Bad_Timeout)
       (create_scoped_rpc_task task_env source (Some (expires_at now timeout_seconds))
          demand_token attempt_budget awaitable)"

section \<open>What a scope promises\<close>

definition scope_of_token ::
    "DemandToken \<Rightarrow> time \<Rightarrow> nat option \<Rightarrow> time option \<Rightarrow> TelegramRpcScope" where
  "scope_of_token token deadline budget response =
     \<lparr>sc_source = tk_source token, sc_service_class = tk_service_class token,
      sc_deadline = Some deadline, sc_owner_task = tk_owner_task token,
      sc_demand_kind = Some (tk_kind token), sc_acquisition_kind = tk_acquisition_kind token,
      sc_source_outstanding_limit =
        Some (SOURCE_OUTSTANDING_LIMIT (source_class (dc_source (contract_of (tk_kind token))))),
      sc_attempt_budget = budget, sc_attempt_evidence = Some (tk_attempt_evidence token),
      sc_request_method = None, sc_owned_attempt_id = None, sc_transport_control = False,
      sc_transport_bootstrap = False, sc_transport_auth = False,
      sc_response_timeout_seconds = response, sc_diagnostic_retry_cause = None\<rparr>"

lemma current_rpc_scope_token:
  assumes "current_demand_token env cx = Inr token"
  shows "current_rpc_scope env cx =
    Inr (scope_of_token token
      (case cx_deadline cx of None \<Rightarrow> tk_admission_deadline token
       | Some (d, owner) \<Rightarrow> (if owner = en_task env then min (tk_admission_deadline token) d
                             else tk_admission_deadline token))
      (cx_budget cx)
      (case cx_response cx of None \<Rightarrow> None
       | Some (owner, r) \<Rightarrow> (if owner = en_task env then Some r else None)))"
  using assms by (simp add: current_rpc_scope_def scope_of_token_def demand_contract_of Let_def)

text \<open>\<open>current_demand_token\<close> looks at nothing but the token variable.\<close>

lemma current_demand_token_cong:
  "cx_token cx = cx_token cx' \<Longrightarrow> current_demand_token env cx = current_demand_token env cx'"
  by (simp add: current_demand_token_def)

lemma acquired_token:
  assumes "current_demand_token env cx = Inr token" and "cx_token cx' = Some (token\<lparr>tk_acquisition_kind := Some k\<rparr>)"
  shows "current_demand_token env cx' = Inr (token\<lparr>tk_acquisition_kind := Some k\<rparr>)"
proof -
  have "validate_token (token\<lparr>tk_acquisition_kind := Some k\<rparr>) = validate_token token"
    by (simp add: validate_token_def)
  with assms show ?thesis by (auto simp: current_demand_token_def split: option.splits if_splits)
qed

definition observe_scope :: "TelegramRpcScope \<Rightarrow> (demand_error, TelegramRpcScope) body" where
  "observe_scope scope cx = (Inr scope, cx)"

definition refine_acquisition :: "DemandToken \<Rightarrow> AcquisitionKind option \<Rightarrow> DemandToken" where
  "refine_acquisition token acq =
     (case acq of None \<Rightarrow> token | Some k \<Rightarrow> token\<lparr>tk_acquisition_kind := Some k\<rparr>)"

lemma response_override:
  "(case q of None \<Rightarrow> None
    | Some x \<Rightarrow> ((\<lambda>(owner, r). if owner = task then Some r else None) \<circ> Pair task) x) = q"
  by (cases q) simp_all

lemma rpc_scope_details_observe:
  assumes "current_demand_token env cx = Inr token"
  shows "rpc_scope_details env caller acq response (yield_scope env observe_scope) cx =
    (Inr (scope_of_token (refine_acquisition token acq)
       (min_option (tk_admission_deadline token) caller) (cx_budget cx)
       (resolve_response (en_task env) (cx_response cx) response)), cx)"
proof -
  let ?inner = "cx\<lparr>cx_deadline := Some (min_option (tk_admission_deadline token) caller, en_task env),
     cx_response := map_option (Pair (en_task env)) (resolve_response (en_task env) (cx_response cx) response)\<rparr>"
  have inner: "current_demand_token env ?inner = Inr token"
    using assms current_demand_token_cong [of cx ?inner env] by simp
  have deadline: "min (tk_admission_deadline token) (min_option (tk_admission_deadline token) caller) =
      min_option (tk_admission_deadline token) caller"
    by (cases caller) (simp_all add: min_option_def)
  note response = response_override
  show ?thesis
  proof (cases acq)
    case None
    then show ?thesis
      using assms by (simp add: rpc_scope_details_def yield_scope_def observe_scope_def
          current_rpc_scope_token [OF inner] Let_def deadline response refine_acquisition_def)
  next
    case (Some k)
    let ?nested = "?inner\<lparr>cx_token := Some (token\<lparr>tk_acquisition_kind := Some k\<rparr>)\<rparr>"
    have nested: "current_demand_token env ?nested = Inr (token\<lparr>tk_acquisition_kind := Some k\<rparr>)"
      using inner by (rule acquired_token) simp
    from Some show ?thesis
      using assms by (simp add: rpc_scope_details_def yield_scope_def observe_scope_def
          acquisition_context_def inner with_token_def current_rpc_scope_token [OF nested] Let_def
          deadline response refine_acquisition_def)
  qed
qed

text \<open>The awaitable of a task that asks for its scope.\<close>

definition observe_current :: "Env \<Rightarrow> (demand_error, TelegramRpcScope) body" where
  "observe_current env cx = (current_rpc_scope env cx, cx)"

lemma rpc_scope_details_current:
  assumes "current_demand_token env cx = Inr token"
  shows "fst (rpc_scope_details env caller None None (yield_scope env (\<lambda>_. observe_current env)) cx) =
    Inr (scope_of_token token (min_option (tk_admission_deadline token) caller) (cx_budget cx)
       (resolve_response (en_task env) (cx_response cx) None))"
proof -
  let ?inner = "cx\<lparr>cx_deadline := Some (min_option (tk_admission_deadline token) caller, en_task env),
     cx_response := map_option (Pair (en_task env)) (resolve_response (en_task env) (cx_response cx) None)\<rparr>"
  have inner: "current_demand_token env ?inner = Inr token"
    using assms current_demand_token_cong [of cx ?inner env] by simp
  have "min (tk_admission_deadline token) (min_option (tk_admission_deadline token) caller) =
      min_option (tk_admission_deadline token) caller"
    by (cases caller) (simp_all add: min_option_def)
  then show ?thesis
    using assms by (simp add: rpc_scope_details_def yield_scope_def observe_current_def
        current_rpc_scope_token [OF inner] Let_def response_override)
qed

text \<open>
  Under an existing root, a scope keeps the root's kind, source, class, owner,
  evidence and bound budget whatever source the call names; its deadline is the earlier of
  the root's and the caller's, its response timeout never exceeds the one inherited by the
  same task, and the whole context is restored on exit. (The deadline override of an
  enclosing scope does not appear: it is replaced, not combined.)
\<close>

theorem rpc_scope_under_root:
  assumes "current_demand_token env cx = Inr token"
    and "deadline = None \<or> timeout = None"
    and "validate_deadline deadline = Inr ()" and "validate_timeout timeout = Inr ()"
    and "validate_timeout response = Inr ()"
  shows "rpc_scope env source deadline timeout response acq observe_scope cx =
    (Inr (scope_of_token (refine_acquisition token acq)
       (min_option (tk_admission_deadline token)
         (case timeout of Some t \<Rightarrow> Some (en_now env + t) | None \<Rightarrow> deadline))
       (cx_budget cx) (resolve_response (en_task env) (cx_response cx) response)), cx)"
  using assms by (simp add: rpc_scope_def rpc_scope_details_observe Let_def guard_def)

definition sample_token :: DemandToken where
  "sample_token = \<lparr>tk_kind = KIND_CHAT_EXPORT_OPERATION,
     tk_source = dc_source (contract_of KIND_CHAT_EXPORT_OPERATION),
     tk_service_class = source_class (dc_source (contract_of KIND_CHAT_EXPORT_OPERATION)),
     tk_admission_deadline = 1000, tk_acquisition_kind = None, tk_owner_task = Some 1,
     tk_attempt_evidence = 7\<rparr>"

definition sample_env :: Env where
  "sample_env = \<lparr>en_now = 100, en_task = Some 1, en_fresh = 8\<rparr>"

theorem rpc_scope_under_root_witness:
  "let cx = empty_ctx\<lparr>cx_token := Some sample_token, cx_deadline := Some (150, Some 1)\<rparr>
   in rpc_scope sample_env SOURCE_MAINTENANCE None (Some 200) None (Some ACQ_MESSAGE_HISTORY_PAGE)
        observe_scope cx =
      (Inr (scope_of_token (sample_token\<lparr>tk_acquisition_kind := Some ACQ_MESSAGE_HISTORY_PAGE\<rparr>)
        300 None None), cx)"
proof -
  let ?cx = "empty_ctx\<lparr>cx_token := Some sample_token, cx_deadline := Some (150, Some 1)\<rparr>"
  have "current_demand_token sample_env ?cx = Inr sample_token"
    by (simp add: current_demand_token_def sample_token_def sample_env_def)
  from rpc_scope_under_root [OF this, of None "Some 200" None SOURCE_MAINTENANCE "Some ACQ_MESSAGE_HISTORY_PAGE"]
  show ?thesis
    by (simp add: validate_deadline_def validate_timeout_def guard_def Let_def refine_acquisition_def
        sample_env_def empty_ctx_def resolve_response_def min_option_def sample_token_def)
qed

text \<open>
  A scoped task starts from nothing: for every source its first scope is a new root of
  the registered kind, class and limit of that source, owned by the task itself, with the
  policy deadline tightened by the given one and exactly the budget it was handed,
  whatever the creator's context held.
\<close>

theorem scoped_task_identity:
  assumes "0 \<le> en_now env" and "validate_deadline deadline = Inr ()"
  shows "\<exists>scope. create_scoped_rpc_task env source deadline None budget
       (observe_current env) = Inr scope \<and>
     sc_source scope = source \<and> sc_service_class scope = source_class source \<and>
     sc_demand_kind scope = Some (LEGACY_DEMAND_KIND_BY_SOURCE source) \<and>
     sc_deadline scope =
       Some (min_option (en_now env + admission_cap (LEGACY_DEMAND_KIND_BY_SOURCE source)) deadline) \<and>
     sc_source_outstanding_limit scope = Some (SOURCE_OUTSTANDING_LIMIT (source_class source)) \<and>
     sc_owner_task scope = en_task env \<and> sc_attempt_budget scope = budget \<and>
     sc_acquisition_kind scope = None \<and> sc_response_timeout_seconds scope = None"
proof -
  let ?kind = "LEGACY_DEMAND_KIND_BY_SOURCE source"
  let ?token = "\<lparr>tk_kind = ?kind, tk_source = dc_source (contract_of ?kind),
       tk_service_class = source_class (dc_source (contract_of ?kind)),
       tk_admission_deadline = min_option (en_now env + admission_cap ?kind) deadline,
       tk_acquisition_kind = None, tk_owner_task = en_task env, tk_attempt_evidence = en_fresh env\<rparr>"
  have created: "create_demand_token env ?kind deadline = Inr ?token"
    using assms by (cases deadline)
      (auto simp: create_demand_token_def command_deadline_def resolve_admission_deadline_def
        admission_cap_def Let_def min_option_def demand_contract_of validate_deadline_def)
  let ?ctx = "empty_ctx\<lparr>cx_budget := budget\<rparr>"
  let ?inner = "?ctx\<lparr>cx_token := Some ?token, cx_legacy := Some ?token\<rparr>"
  have missing: "current_demand_token env ?ctx = Inl Missing_Context" "cx_token ?ctx = None"
    "cx_legacy ?ctx = None"
    by (simp_all add: empty_ctx_def current_demand_token_def)
  have inner: "current_demand_token env ?inner = Inr ?token"
    by (simp add: current_demand_token_def)
  have "min_option (min_option t d) d = min_option t d" for t d
    by (cases d) (simp_all add: min_option_def)
  then have details: "fst (rpc_scope_details env deadline None None (yield_scope env (\<lambda>_. observe_current env)) ?inner) =
      Inr (scope_of_token ?token (min_option (en_now env + admission_cap ?kind) deadline) budget None)"
    using rpc_scope_details_current [OF inner, of deadline] by (simp add: empty_ctx_def resolve_response_def)
  have "fst (rpc_scope env source deadline None None None (\<lambda>_. observe_current env) ?ctx) =
      fst (rpc_scope_details env deadline None None (yield_scope env (\<lambda>_. observe_current env)) ?inner)"
    using assms(2) missing
    by (simp add: rpc_scope_def is_unclassified_def demand_context_def created with_token_def
        with_legacy_def Let_def guard_def validate_timeout_def split: prod.splits)
  note scope = this [unfolded details]
  have "create_scoped_rpc_task env source deadline None budget (observe_current env) =
      fst (rpc_scope env source deadline None None None (\<lambda>_. observe_current env) ?ctx)"
    using assms(2)
    by (cases budget) (simp_all add: create_scoped_rpc_task_def rpc_attempt_budget_def
        empty_ctx_def guard_def Let_def split: prod.splits)
  then show ?thesis by (simp add: scope scope_of_token_def)
qed

theorem scoped_task_identity_witness:
  "\<exists>scope. create_scoped_rpc_task sample_env SOURCE_FULL_SYNC (Some 160) None (Some 3)
       (observe_current sample_env) = Inr scope \<and>
     sc_demand_kind scope = Some (LEGACY_DEMAND_KIND_BY_SOURCE SOURCE_FULL_SYNC) \<and>
     sc_owner_task scope = Some 1 \<and> sc_attempt_budget scope = Some 3"
  using scoped_task_identity [of sample_env "Some 160" SOURCE_FULL_SYNC "Some 3"]
  by (auto simp: sample_env_def validate_deadline_def)

end
