(* ===== verification/Fair_Cycle.thy ===== *)
theory Fair_Cycle
  imports Rpc_Enums "HOL-Library.Product_Lexorder"
begin

text \<open>
  \<^verbatim>\<open>TelegramRpcAdmissionScheduler._build_fair_cycle\<close>: the deterministic smooth weighted
  round robin over the three service classes. Every round adds each class's weight to its
  score, serves the class of the largest score (the earlier class on a tie) and charges it
  one whole round.
\<close>

text \<open>\<^verbatim>\<open>max(xs, key=f)\<close>: the first element of the largest key.\<close>

fun argmax :: "('a \<Rightarrow> 'k :: linorder) \<Rightarrow> 'a \<Rightarrow> 'a list \<Rightarrow> 'a" where
  "argmax f x [] = x"
| "argmax f x (y # ys) = argmax f (if f x < f y then y else x) ys"

lemma argmax_ge: "y \<in> insert x (set xs) \<Longrightarrow> f y \<le> f (argmax f x xs)"
proof (induction xs arbitrary: x y)
  case Nil
  then show ?case by simp
next
  case (Cons z zs)
  have head: "f (if f x < f z then z else x) \<le> f (argmax f (if f x < f z then z else x) zs)"
    by (rule Cons.IH) simp
  show ?case
  proof (cases "y \<in> set zs")
    case True
    then show ?thesis using Cons.IH by simp
  next
    case False
    then have "f y \<le> f (if f x < f z then z else x)" using Cons.prems by auto
    with head show ?thesis unfolding argmax.simps by (rule order_trans [rotated])
  qed
qed

type_synonym scores = "RpcServiceClass \<Rightarrow> int"

definition preference :: "RpcServiceClass \<Rightarrow> int" where
  "preference c = (case c of CLASS_INTERACTIVE \<Rightarrow> 0 | CLASS_LIVE_SYNC \<Rightarrow> -1 | CLASS_BACKGROUND \<Rightarrow> -2)"

definition best_class :: "scores \<Rightarrow> RpcServiceClass" where
  "best_class scores =
     argmax (\<lambda>c. (scores c, preference c)) CLASS_INTERACTIVE [CLASS_LIVE_SYNC, CLASS_BACKGROUND]"

definition fair_total :: "scores \<Rightarrow> int" where
  "fair_total weights = weights CLASS_INTERACTIVE + weights CLASS_LIVE_SYNC + weights CLASS_BACKGROUND"

fun fair_round :: "scores \<Rightarrow> scores \<times> RpcServiceClass list \<Rightarrow> scores \<times> RpcServiceClass list" where
  "fair_round weights (scores, order) =
     (let added = (\<lambda>c. scores c + weights c); selected = best_class added
      in (added(selected := added selected - fair_total weights), order @ [selected]))"

definition normalized_weights :: "scores \<Rightarrow> scores" where
  "normalized_weights weights =
     (let divisor = gcd (weights CLASS_INTERACTIVE) (gcd (weights CLASS_LIVE_SYNC) (weights CLASS_BACKGROUND))
      in (\<lambda>c. weights c div divisor))"

definition build_fair_cycle :: "scores \<Rightarrow> RpcServiceClass list" where
  "build_fair_cycle weights =
     (let normalized = normalized_weights weights
      in snd ((fair_round normalized ^^ nat (fair_total normalized)) (\<lambda>c. 0, [])))"

section \<open>Fairness\<close>

lemma best_class_ge: "scores c \<le> scores (best_class scores)"
proof -
  have "(scores c, preference c) \<le> (scores (best_class scores), preference (best_class scores))"
    unfolding best_class_def by (rule argmax_ge) (cases c; simp)
  then show ?thesis by (auto simp: less_eq_prod_def)
qed

lemma fair_total_nonneg: "(\<And>c. 0 \<le> w c) \<Longrightarrow> 0 \<le> fair_total w"
  by (simp add: fair_total_def)

lemma fair_total_upd [simp]: "fair_total (f(c := x)) = fair_total f - f c + x"
  by (cases c) (simp_all add: fair_total_def)

lemma fair_total_add [simp]: "fair_total (\<lambda>c. f c + g c) = fair_total f + fair_total g"
  by (simp add: fair_total_def)

lemma fair_total_count: "fair_total (\<lambda>c. int (count_list xs c)) = int (length xs)"
proof (induction xs)
  case Nil
  then show ?case by (simp add: fair_total_def)
next
  case (Cons x xs)
  then show ?case by (cases x) (simp_all add: fair_total_def)
qed

text \<open>
  The invariant of the rounds: scores are the accumulated weight less one whole round per
  service, they sum to zero, and no class is ever a whole round in debt.
\<close>

definition fair_inv :: "scores \<Rightarrow> nat \<Rightarrow> scores \<times> RpcServiceClass list \<Rightarrow> bool" where
  "fair_inv w k = (\<lambda>(scores, order).
     length order = k \<and> fair_total scores = 0 \<and>
     (\<forall>c. scores c = int k * w c - fair_total w * int (count_list order c)) \<and>
     (\<forall>c. - fair_total w < scores c))"

lemma fair_inv_round:
  assumes w: "\<And>c. 0 \<le> w c" "0 < fair_total w" and inv: "fair_inv w k s"
  shows "fair_inv w (Suc k) (fair_round w s)"
proof -
  obtain scores order where s: "s = (scores, order)" by (cases s)
  from inv have len: "length order = k" and zero: "fair_total scores = 0"
    and score: "\<And>c. scores c = int k * w c - fair_total w * int (count_list order c)"
    and debt: "\<And>c. - fair_total w < scores c"
    unfolding s fair_inv_def prod.case by blast+
  let ?added = "\<lambda>c. scores c + w c" and ?T = "fair_total w"
  let ?best = "best_class ?added"
  let ?new = "?added(?best := ?added ?best - ?T)"
  have sum: "fair_total ?added = ?T" using zero by simp
  have pos: "0 < ?added ?best"
  proof (rule ccontr)
    assume "\<not> 0 < ?added ?best"
    then have "?added c \<le> 0" for c using best_class_ge [of ?added c] by linarith
    note le = this [of CLASS_INTERACTIVE] this [of CLASS_LIVE_SYNC] this [of CLASS_BACKGROUND]
    from le have "fair_total ?added \<le> 0" by (simp add: fair_total_def)
    with sum w(2) show False by simp
  qed
  have "- ?T < ?new c" for c
    using debt [of c] w(1) [of c] pos by simp
  moreover have "?new c = int (Suc k) * w c - ?T * int (count_list (order @ [?best]) c)" for c
    using score [of c] by (auto simp: algebra_simps)
  moreover have "fair_total ?new = 0" using sum by simp
  ultimately show ?thesis
    unfolding s fair_round.simps Let_def fair_inv_def prod.case using len by simp
qed

lemma fair_inv_rounds:
  assumes "\<And>c. 0 \<le> w c" "0 < fair_total w"
  shows "fair_inv w k ((fair_round w ^^ k) (\<lambda>c. 0, []))"
proof (induction k)
  case 0
  then show ?case using assms by (simp add: fair_inv_def fair_total_def)
next
  case (Suc k)
  then show ?case using fair_inv_round [OF assms] by simp
qed

lemma fair_round_appends: "\<exists>c. snd (fair_round w s) = snd s @ [c]"
  by (cases s) (simp add: Let_def)

lemma fair_rounds_take:
  "k \<le> n \<Longrightarrow> take k (snd ((fair_round w ^^ n) (\<lambda>c. 0, []))) = snd ((fair_round w ^^ k) (\<lambda>c. 0, []))"
proof (induction n)
  case 0
  then show ?case by simp
next
  case (Suc n)
  have len: "length (snd ((fair_round w ^^ m) (\<lambda>c. 0, []))) = m" for m
  proof (induction m)
    case 0
    then show ?case by simp
  next
    case (Suc m)
    then show ?case using fair_round_appends [of w "(fair_round w ^^ m) (\<lambda>c. 0, [])"] by auto
  qed
  show ?case
  proof (cases "k = Suc n")
    case True
    then show ?thesis using len [of "Suc n"] by (simp del: funpow.simps)
  next
    case False
    then have "k \<le> n" using Suc.prems by simp
    then show ?thesis
      using Suc.IH len [of n] fair_round_appends [of w "(fair_round w ^^ n) (\<lambda>c. 0, [])"] by auto
  qed
qed

lemma normalized_weights_pos:
  assumes "\<And>c. 1 \<le> weights c"
  shows "1 \<le> normalized_weights weights c"
proof -
  let ?d = "gcd (weights CLASS_INTERACTIVE) (gcd (weights CLASS_LIVE_SYNC) (weights CLASS_BACKGROUND))"
  have "?d dvd weights c" by (cases c) (auto intro: dvd_trans [OF gcd_dvd2])
  then obtain q where q: "weights c = ?d * q" by (elim dvdE)
  have "0 < ?d" using assms [of CLASS_INTERACTIVE] by (simp add: gcd_pos_int)
  moreover from q have "0 < ?d * q" using assms [of c] by linarith
  ultimately have "0 < q" by (metis zero_less_mult_pos)
  then have "1 \<le> q" by simp
  with q \<open>0 < ?d\<close> show ?thesis by (simp add: normalized_weights_def Let_def)
qed

text \<open>
  C30. Weighted fairness of the admission cycle. For positive weights a full cycle has one
  slot per unit of reduced weight and serves every class exactly its reduced weight; and in
  every prefix of it a class is never more than one slot ahead of its ideal share nor two
  slots or more behind it, so no class is starved or served in a burst.
\<close>

theorem fair_cycle_shares:
  assumes "\<And>c. 1 \<le> weights c"
  shows "let w = normalized_weights weights; cycle = build_fair_cycle weights in
     int (length cycle) = fair_total w \<and>
     int (count_list cycle c) = w c \<and>
     (k \<le> length cycle \<longrightarrow>
        (let served = fair_total w * int (count_list (take k cycle) c) in
         served < int k * w c + fair_total w \<and> int k * w c < served + 2 * fair_total w))"
proof -
  define w where "w = normalized_weights weights"
  let ?T = "fair_total w" and ?cycle = "build_fair_cycle weights"
  have w1: "1 \<le> w c" for c using normalized_weights_pos [OF assms] by (simp add: w_def)
  have w0: "0 \<le> w c" for c using w1 [of c] by linarith
  have T: "0 < ?T" using w1 by (simp add: fair_total_def add_pos_pos less_le_trans [OF zero_less_one])
  have rounds: "take k ?cycle = snd ((fair_round w ^^ k) (\<lambda>c. 0, []))" if "k \<le> nat ?T" for k
    using fair_rounds_take [OF that, of w] by (simp add: build_fair_cycle_def w_def Let_def)
  have share: "length (take k ?cycle) = k \<and> fair_total s = 0 \<and>
      (\<forall>c. s c = int k * w c - ?T * int (count_list (take k ?cycle) c)) \<and> (\<forall>c. - ?T < s c)"
    if "k \<le> nat ?T" "s = fst ((fair_round w ^^ k) (\<lambda>c. 0, []))" for k s
    using fair_inv_rounds [of w k, OF w0 T] that(2) unfolding rounds [OF that(1)]
    by (auto simp: fair_inv_def split: prod.splits)
  have whole: "take (nat ?T) ?cycle = ?cycle"
    unfolding rounds [OF order_refl] by (simp add: build_fair_cycle_def w_def Let_def)
  have len: "length ?cycle = nat ?T" using share [OF order_refl refl] unfolding whole by blast
  have prefix: "?T * int (count_list (take k ?cycle) c) < int k * w c + ?T \<and>
      int k * w c < ?T * int (count_list (take k ?cycle) c) + 2 * ?T" if "k \<le> nat ?T" for k c
  proof -
    define s where "s = fst ((fair_round w ^^ k) (\<lambda>c. 0, []))"
    from share [OF that s_def] have zero: "fair_total s = 0"
      and s: "s c = int k * w c - ?T * int (count_list (take k ?cycle) c)" and debt: "- ?T < s c" for c
      by blast+
    have "s c < 2 * ?T"
      using zero debt [of CLASS_INTERACTIVE] debt [of CLASS_LIVE_SYNC] debt [of CLASS_BACKGROUND]
      by (cases c) (simp_all add: fair_total_def [of s])
    with s [of c] debt [of c] show ?thesis by linarith
  qed
  have le: "int (count_list ?cycle c) \<le> w c" for c
  proof -
    have "?T * int (count_list ?cycle c) < int (nat ?T) * w c + ?T"
      using prefix [OF order_refl, of c] unfolding whole by blast
    then have "?T * int (count_list ?cycle c) < ?T * (w c + 1)" using T by (simp add: algebra_simps)
    then show ?thesis using T by (simp add: mult_less_cancel_left)
  qed
  have "fair_total (\<lambda>c. int (count_list ?cycle c)) = ?T"
    unfolding fair_total_count using len T by simp
  then have "int (count_list ?cycle c) = w c"
    using le [of CLASS_INTERACTIVE] le [of CLASS_LIVE_SYNC] le [of CLASS_BACKGROUND]
    by (cases c) (simp_all add: fair_total_def)
  then show ?thesis
    using prefix [of k c] len T unfolding Let_def w_def [symmetric] by auto
qed

definition sample_weights :: scores where
  "sample_weights c =
     (case c of CLASS_INTERACTIVE \<Rightarrow> 8 | CLASS_LIVE_SYNC \<Rightarrow> 4 | CLASS_BACKGROUND \<Rightarrow> 2)"

theorem fair_cycle_shares_witness:
  "count_list (build_fair_cycle sample_weights) CLASS_INTERACTIVE = 4"
proof -
  have "1 \<le> sample_weights c" for c by (cases c) (simp_all add: sample_weights_def)
  from fair_cycle_shares [where weights = sample_weights and c = CLASS_INTERACTIVE and k = 0, OF this]
  have "int (count_list (build_fair_cycle sample_weights) CLASS_INTERACTIVE) =
      normalized_weights sample_weights CLASS_INTERACTIVE"
    unfolding Let_def by blast
  also have "\<dots> = 4" by code_simp
  finally show ?thesis by simp
qed

end
