(* ===== verification/Rpc_Scheduler.thy ===== *)
theory Rpc_Scheduler
  imports Rpc_Scope Fair_Cycle
begin

text \<open>
  \<^verbatim>\<open>TelegramRpcAdmissionScheduler\<close> of \<^verbatim>\<open>src/mcp_telegram/telegram_rpc_scheduler.py\<close>: the
  bounded weighted-fair arbiter in front of the account limiter.

  Every critical section of the class is synchronous: the code never awaits while it holds
  the lock, so each operation below is one atomic step, and a run of the scheduler is any
  sequence of them. Tickets are mutable objects shared by the queues, their timers and the
  waiting caller; they live in a store keyed by their sequence number and the queues hold
  numbers. What the operations read from outside (clock, transport readiness, release times
  and deferrals of the gate, the running task) is the record \<open>World\<close>; it is constant during
  one step. The observer, the log, the capacity callback and task cancellation are recorded
  in the state.
\<close>

section \<open>Events, tickets and state\<close>

datatype RpcAdmissionEventKind =
    ADM_QUEUED | ADM_DISPATCHED | ADM_REJECTED | ADM_EXPIRED | ADM_CANCELLED
  | ADM_RESUBMITTED | ADM_CLOSED | ADM_UNCLASSIFIED

record RpcAdmissionEvent =
  ae_kind :: RpcAdmissionEventKind
  ae_source :: "TelegramRpcSource option"
  ae_service_class :: "RpcServiceClass option"
  ae_queue_depth :: int
  ae_total_depth :: int
  ae_active_depth :: int
  ae_total_outstanding :: int
  ae_wait_seconds :: "time option"
  ae_reason :: "string option"
  ae_demand_kind :: "DemandKind option"
  ae_acquisition_kind :: "AcquisitionKind option"
  ae_observation_scope :: "TelegramRpcScope option"
  ae_observation_method :: "string option"

datatype log_level = LOG_DEBUG | LOG_WARNING

definition admission_log_level :: "RpcAdmissionEvent \<Rightarrow> log_level" where
  "admission_log_level event =
     (if ae_kind event = ADM_REJECTED \<and> ae_reason event = Some ''attempt_budget_exhausted'' \<and>
         ae_acquisition_kind event = Some ACQ_FORWARD_NAME_LOOKUP
      then LOG_DEBUG
      else if ae_kind event \<in> {ADM_REJECTED, ADM_EXPIRED, ADM_UNCLASSIFIED} then LOG_WARNING
      else LOG_DEBUG)"

record PressureEpisode =
  pe_started_at :: time
  pe_reported_at :: time
  pe_reason :: string
  pe_count :: int
  pe_expired :: int
  pe_saturated :: int
  pe_max_wait :: time
  pe_max_depth :: int
  pe_progressed :: bool

definition ROUTINE_PRESSURE :: "(RpcAdmissionEventKind \<times> string option) set" where
  "ROUTINE_PRESSURE =
     {(ADM_EXPIRED, Some ''deadline_elapsed''), (ADM_REJECTED, Some ''source_outstanding_saturated'')}"

definition PRESSURE_REPORT_SECONDS :: time where "PRESSURE_REPORT_SECONDS = 60"
definition PRESSURE_MAX_EPISODES :: nat where "PRESSURE_MAX_EPISODES = 128"

type_synonym pressure_key =
  "TelegramRpcSource \<times> RpcServiceClass option \<times> DemandKind option \<times> AcquisitionKind option \<times>
   string option"

record RpcAdmission =
  ad_source :: TelegramRpcSource
  ad_service_class :: RpcServiceClass
  ad_wait_seconds :: time
  ad_sequence :: nat
  ad_demand_kind :: "DemandKind option"
  ad_acquisition_kind :: "AcquisitionKind option"
  ad_request_method :: "string option"

datatype admission_error =
    Missing_Request_Method
  | Scope_Conflicts_With_Contract
  | Scope_Overrides_Limit
  | Admission_Expired
  | Admission_Saturated_Source
  | Admission_Saturated_Class
  | Admission_Closed string
  | Deferral_Error nat \<comment> \<open>the exception the gate supplied\<close>

datatype TicketState =
    TICKET_QUEUED | TICKET_DISPATCHED | TICKET_EXPIRED | TICKET_CANCELLED | TICKET_CLOSED
  | TICKET_DEFERRED

datatype ticket_future =
    Future_Pending | Future_Result RpcAdmission | Future_Error admission_error | Future_Cancelled

record AdmissionTicket =
  at_sequence :: nat
  at_scope :: TelegramRpcScope
  at_enqueued_at :: time
  at_deadline :: time
  at_future :: ticket_future
  at_owner_task :: "task_id option"
  at_owns_capacity_slot :: bool
  at_timeout_handle :: "time option"
  at_state :: TicketState

record ActiveAttempt =
  aa_scope :: TelegramRpcScope
  aa_owner_task :: "task_id option"
  aa_owns_capacity_slot :: bool
  aa_dispatch_recorded :: bool

datatype log_entry =
    Pressure_Log pressure_key PressureEpisode string time
  | Admission_Log log_level RpcAdmissionEvent

text \<open>Constructor arguments that never change: capacities, deadlines, spacing, the cycle.\<close>

record SchedConfig =
  cf_capacity :: "RpcServiceClass \<Rightarrow> int"
  cf_deadline_seconds :: "RpcServiceClass \<Rightarrow> time"
  cf_fair_cycle :: "RpcServiceClass list"
  cf_minimum_spacing_seconds :: time

record World =
  wd_now :: time
  wd_ready :: bool
  wd_release_at :: "TelegramRpcScope \<Rightarrow> release"
  wd_deferral :: "TelegramRpcScope \<Rightarrow> nat option"
  wd_task :: "task_id option"
  wd_done_tasks :: "task_id list"

record Sched =
  sd_tickets :: "nat \<rightharpoonup> AdmissionTicket"
  sd_queues :: "TelegramRpcSource \<Rightarrow> nat list"
  sd_source_indices :: "RpcServiceClass \<Rightarrow> nat"
  sd_active_counts :: "RpcServiceClass \<Rightarrow> int"
  sd_active_source_counts :: "TelegramRpcSource \<Rightarrow> int"
  sd_active :: "(nat \<times> ActiveAttempt) list"
  sd_fair_index :: nat
  sd_sequence :: nat
  sd_next_write_at :: time
  sd_release_handle :: "time option"
  sd_closed :: bool
  sd_dispatcher :: bool \<comment> \<open>a dispatcher task is running\<close>
  sd_shutdown_task :: bool
  sd_loop :: bool \<comment> \<open>bound to an event loop\<close>
  sd_observer :: bool
  sd_pressure :: "(pressure_key \<times> PressureEpisode) list"
  sd_events :: "RpcAdmissionEvent list" \<comment> \<open>what the observer received\<close>
  sd_log :: "log_entry list"
  sd_capacity_released :: nat \<comment> \<open>calls of the capacity callback\<close>
  sd_evidence :: "nat \<Rightarrow> int" \<comment> \<open>\<^verbatim>\<open>actual_attempts\<close> of the evidence objects\<close>
  sd_cancelled_tasks :: "task_id list"

definition new_scheduler :: Sched where
  "new_scheduler =
     \<lparr>sd_tickets = Map.empty, sd_queues = (\<lambda>_. []), sd_source_indices = (\<lambda>_. 0),
      sd_active_counts = (\<lambda>_. 0), sd_active_source_counts = (\<lambda>_. 0), sd_active = [],
      sd_fair_index = 0, sd_sequence = 0, sd_next_write_at = 0, sd_release_handle = None,
      sd_closed = False, sd_dispatcher = False, sd_shutdown_task = False, sd_loop = False,
      sd_observer = False, sd_pressure = [], sd_events = [], sd_log = [],
      sd_capacity_released = 0, sd_evidence = (\<lambda>_. 0), sd_cancelled_tasks = []\<rparr>"

text \<open>\<^verbatim>\<open>RpcTransportReadiness\<close> and the limiter are external; \<^verbatim>\<open>_validate_limiter\<close> checks the spacing.\<close>

definition valid_spacing :: "time \<Rightarrow> bool" where
  "valid_spacing minimum_spacing_seconds = (\<not> minimum_spacing_seconds \<le> 0)"

definition policy_config ::
    "(RpcServiceClass \<Rightarrow> int) \<Rightarrow> (RpcServiceClass \<Rightarrow> int) \<Rightarrow> (RpcServiceClass \<Rightarrow> time) \<Rightarrow> time \<Rightarrow> SchedConfig" where
  "policy_config weights capacities deadlines spacing =
     \<lparr>cf_capacity = capacities, cf_deadline_seconds = deadlines,
      cf_fair_cycle = build_fair_cycle weights, cf_minimum_spacing_seconds = spacing\<rparr>"

section \<open>Depths\<close>

definition source_cycle :: "RpcServiceClass \<Rightarrow> TelegramRpcSource list" where
  "source_cycle service_class = filter (\<lambda>s. source_class s = service_class) Enum.enum"

definition ticket :: "Sched \<Rightarrow> nat \<Rightarrow> AdmissionTicket" where
  "ticket s n = the (sd_tickets s n)"

definition queued_slots :: "Sched \<Rightarrow> TelegramRpcSource \<Rightarrow> int" where
  "queued_slots s source =
     int (length (filter (\<lambda>n. at_owns_capacity_slot (ticket s n)) (sd_queues s source)))"

definition queue_depth :: "Sched \<Rightarrow> RpcServiceClass \<Rightarrow> int" where
  "queue_depth s c = sum_list (map (\<lambda>source. int (length (sd_queues s source))) (source_cycle c))"

definition total_depth :: "Sched \<Rightarrow> int" where
  "total_depth s = sum_list (map (\<lambda>source. int (length (sd_queues s source))) Enum.enum)"

definition outstanding_depth :: "Sched \<Rightarrow> RpcServiceClass \<Rightarrow> int" where
  "outstanding_depth s c =
     sum_list (map (queued_slots s) (source_cycle c)) + sd_active_counts s c"

definition source_outstanding_depth :: "Sched \<Rightarrow> TelegramRpcSource \<Rightarrow> int" where
  "source_outstanding_depth s source = queued_slots s source + sd_active_source_counts s source"

definition total_outstanding :: "Sched \<Rightarrow> int" where
  "total_outstanding s = sum_list (map (outstanding_depth s) Enum.enum)"

definition ticket_wait_seconds :: "World \<Rightarrow> AdmissionTicket \<Rightarrow> time" where
  "ticket_wait_seconds w t = max 0 (wd_now w - at_enqueued_at t)"

definition ticket_can_dispatch :: "SchedConfig \<Rightarrow> World \<Rightarrow> Sched \<Rightarrow> nat \<Rightarrow> bool" where
  "ticket_can_dispatch cfg w s n =
     (let scope = at_scope (ticket s n) in
      sd_active_counts s (sc_service_class scope) < cf_capacity cfg (sc_service_class scope) \<and>
      max (At (sd_next_write_at s)) (wd_release_at w scope) \<le> At (wd_now w))"

definition has_dispatchable_ticket :: "SchedConfig \<Rightarrow> World \<Rightarrow> Sched \<Rightarrow> bool" where
  "has_dispatchable_ticket cfg w s =
     list_ex (\<lambda>source. list_ex (ticket_can_dispatch cfg w s) (sd_queues s source)) Enum.enum"

section \<open>Telemetry\<close>

definition log_pressure :: "pressure_key \<Rightarrow> PressureEpisode \<Rightarrow> string \<Rightarrow> time \<Rightarrow> Sched \<Rightarrow> Sched" where
  "log_pressure key episode status now s =
     s\<lparr>sd_log := sd_log s @ [Pressure_Log key episode status now]\<rparr>"

fun log_pressures :: "(pressure_key \<times> PressureEpisode) list \<Rightarrow> string \<Rightarrow> time \<Rightarrow> Sched \<Rightarrow> Sched" where
  "log_pressures [] status now s = s"
| "log_pressures ((key, episode) # rest) status now s =
     log_pressures rest status now (log_pressure key episode status now s)"

definition finish_pressure_if_drained :: "World \<Rightarrow> TelegramRpcSource \<Rightarrow> Sched \<Rightarrow> Sched" where
  "finish_pressure_if_drained w source s =
     (if source_outstanding_depth s source \<noteq> 0 then s
      else let (drained, kept) =
             partition (\<lambda>(key, episode). fst key = source \<and> pe_progressed episode) (sd_pressure s)
           in (log_pressures drained ''drained_after_dispatch'' (wd_now w) s)\<lparr>sd_pressure := kept\<rparr>)"

definition new_pressure_episode :: "pressure_key \<Rightarrow> string \<Rightarrow> time \<Rightarrow> Sched \<Rightarrow> PressureEpisode \<times> Sched" where
  "new_pressure_episode key reason now s =
     (let s' = (if length (sd_pressure s) \<ge> PRESSURE_MAX_EPISODES
                then (let (oldest, evicted) = hd (sd_pressure s)
                      in (log_pressure oldest evicted ''evicted'' now s)
                           \<lparr>sd_pressure := od_del oldest (sd_pressure s)\<rparr>)
                else s);
          episode = \<lparr>pe_started_at = now, pe_reported_at = now, pe_reason = reason, pe_count = 0,
            pe_expired = 0, pe_saturated = 0, pe_max_wait = 0, pe_max_depth = 0,
            pe_progressed = False\<rparr>
      in (episode, s'\<lparr>sd_pressure := od_put key episode (sd_pressure s')\<rparr>))"

definition event_key :: "RpcAdmissionEvent \<Rightarrow> TelegramRpcSource \<Rightarrow> pressure_key" where
  "event_key event source =
     (source, ae_service_class event, ae_demand_kind event, ae_acquisition_kind event,
      ae_observation_method event)"

definition bump_episode :: "RpcAdmissionEvent \<Rightarrow> PressureEpisode \<Rightarrow> PressureEpisode" where
  "bump_episode event e =
     (let count = pe_count e + 1;
          expired = pe_expired e + (if ae_kind event = ADM_EXPIRED then 1 else 0)
      in e\<lparr>pe_reason := (case ae_reason event of
               Some r \<Rightarrow> (if r \<noteq> [] then r else pe_reason e) | None \<Rightarrow> pe_reason e),
           pe_count := count, pe_progressed := False, pe_expired := expired,
           pe_saturated := count - expired,
           pe_max_wait := max (pe_max_wait e) (case ae_wait_seconds event of None \<Rightarrow> 0 | Some x \<Rightarrow> x),
           pe_max_depth := max (pe_max_depth e) (ae_total_outstanding event)\<rparr>)"

definition should_log_admission :: "World \<Rightarrow> RpcAdmissionEvent \<Rightarrow> Sched \<Rightarrow> bool \<times> Sched" where
  "should_log_admission w event s =
     (case ae_source event of
        None \<Rightarrow> (True, s)
      | Some source \<Rightarrow>
          (if (ae_kind event, ae_reason event) \<notin> ROUTINE_PRESSURE then (True, s)
           else let now = wd_now w;
                    key = event_key event source;
                    known = od_get (sd_pressure s) key;
                    (episode, s1) = (case known of
                        Some e \<Rightarrow> (e, s)
                      | None \<Rightarrow> new_pressure_episode key (the (ae_reason event)) now s);
                    changed = (ae_reason event \<noteq> Some (pe_reason episode));
                    bumped = bump_episode event episode;
                    report = (known \<noteq> None \<and> now - pe_reported_at bumped \<ge> PRESSURE_REPORT_SECONDS);
                    s2 = (if report then log_pressure key bumped ''ongoing'' now s1 else s1);
                    stored = (if report then bumped\<lparr>pe_reported_at := now\<rparr> else bumped)
                in (known = None \<or> changed, s2\<lparr>sd_pressure := od_put key stored (sd_pressure s2)\<rparr>)))"

definition emit :: "World \<Rightarrow> RpcAdmissionEvent \<Rightarrow> Sched \<Rightarrow> Sched" where
  "emit w event s =
     (let (log_it, s1) = should_log_admission w event s;
          s2 = (if log_it then s1\<lparr>sd_log := sd_log s1 @ [Admission_Log (admission_log_level event) event]\<rparr>
                else s1);
          s3 = (if sd_observer s2 then s2\<lparr>sd_events := sd_events s2 @ [event]\<rparr> else s2)
      in (case ae_source event of None \<Rightarrow> s3 | Some source \<Rightarrow> finish_pressure_if_drained w source s3))"

definition emit_for_scope ::
    "World \<Rightarrow> RpcAdmissionEventKind \<Rightarrow> TelegramRpcScope \<Rightarrow> time option \<Rightarrow> string option \<Rightarrow> string option \<Rightarrow>
     Sched \<Rightarrow> Sched" where
  "emit_for_scope w kind scope wait_seconds reason observation_method s =
     emit w
       \<lparr>ae_kind = kind, ae_source = Some (sc_source scope),
        ae_service_class = Some (sc_service_class scope),
        ae_queue_depth = queue_depth s (sc_service_class scope), ae_total_depth = total_depth s,
        ae_active_depth = sd_active_counts s (sc_service_class scope),
        ae_total_outstanding = total_outstanding s, ae_wait_seconds = wait_seconds,
        ae_reason = reason, ae_demand_kind = sc_demand_kind scope,
        ae_acquisition_kind = sc_acquisition_kind scope, ae_observation_scope = Some scope,
        ae_observation_method =
          (if observation_method \<noteq> None then observation_method else sc_request_method scope)\<rparr> s"

definition notify_capacity_released :: "Sched \<Rightarrow> Sched" where
  "notify_capacity_released s = s\<lparr>sd_capacity_released := sd_capacity_released s + 1\<rparr>"

section \<open>Ticket and queue primitives\<close>

definition update_ticket :: "nat \<Rightarrow> (AdmissionTicket \<Rightarrow> AdmissionTicket) \<Rightarrow> Sched \<Rightarrow> Sched" where
  "update_ticket n f s = s\<lparr>sd_tickets := (sd_tickets s)(n \<mapsto> f (ticket s n))\<rparr>"

text \<open>\<^verbatim>\<open>if not ticket.future.done(): ticket.future.set_...\<close>\<close>

definition settle_future :: "ticket_future \<Rightarrow> AdmissionTicket \<Rightarrow> AdmissionTicket" where
  "settle_future outcome t = (if at_future t = Future_Pending then t\<lparr>at_future := outcome\<rparr> else t)"

definition cancel_timer :: "AdmissionTicket \<Rightarrow> AdmissionTicket" where
  "cancel_timer t = t\<lparr>at_timeout_handle := None\<rparr>"

text \<open>\<^verbatim>\<open>_remove_ticket_locked\<close>: removing a queued slot owner notifies the capacity callback.\<close>

definition remove_ticket :: "nat \<Rightarrow> Sched \<Rightarrow> Sched" where
  "remove_ticket n s =
     (let source = sc_source (at_scope (ticket s n)); queue = sd_queues s source
      in if n \<notin> set queue then s
         else let s' = s\<lparr>sd_queues := (sd_queues s)(source := remove1 n queue)\<rparr>
              in if at_owns_capacity_slot (ticket s n) then notify_capacity_released s' else s')"

definition release_active_capacity :: "ActiveAttempt \<Rightarrow> Sched \<Rightarrow> Sched" where
  "release_active_capacity a s =
     (if \<not> aa_owns_capacity_slot a then s
      else let c = sc_service_class (aa_scope a); source = sc_source (aa_scope a)
           in notify_capacity_released
                (s\<lparr>sd_active_counts := (sd_active_counts s)(c := sd_active_counts s c - 1),
                   sd_active_source_counts :=
                     (sd_active_source_counts s)(source := sd_active_source_counts s source - 1)\<rparr>))"

definition pop_active :: "nat \<Rightarrow> Sched \<Rightarrow> Sched" where
  "pop_active n s = s\<lparr>sd_active := od_del n (sd_active s)\<rparr>"

definition still_queued :: "Sched \<Rightarrow> nat \<Rightarrow> bool" where
  "still_queued s n = (at_state (ticket s n) = TICKET_QUEUED \<and> at_future (ticket s n) = Future_Pending)"

definition prune_source :: "TelegramRpcSource \<Rightarrow> Sched \<Rightarrow> Sched" where
  "prune_source source s =
     (let queue = sd_queues s source; retained = filter (still_queued s) queue;
          s' = s\<lparr>sd_queues := (sd_queues s)(source := retained)\<rparr>
      in if length (filter (\<lambda>n. at_owns_capacity_slot (ticket s n)) retained) <
            length (filter (\<lambda>n. at_owns_capacity_slot (ticket s n)) queue)
         then notify_capacity_released s' else s')"

definition prune_done :: "Sched \<Rightarrow> Sched" where
  "prune_done s = fold prune_source Enum.enum s"

definition expire_ticket :: "World \<Rightarrow> nat \<Rightarrow> Sched \<Rightarrow> Sched" where
  "expire_ticket w n s =
     (if at_state (ticket s n) \<noteq> TICKET_QUEUED then s
      else let s1 = update_ticket n (\<lambda>t. t\<lparr>at_state := TICKET_EXPIRED\<rparr>) s;
               s2 = remove_ticket n s1;
               s3 = update_ticket n (settle_future (Future_Error Admission_Expired)) s2
           in emit_for_scope w ADM_EXPIRED (at_scope (ticket s n))
                (Some (ticket_wait_seconds w (ticket s n))) (Some ''deadline_elapsed'') None s3)"

definition due_tickets :: "World \<Rightarrow> Sched \<Rightarrow> nat list" where
  "due_tickets w s =
     filter (\<lambda>n. at_state (ticket s n) = TICKET_QUEUED \<and> at_deadline (ticket s n) \<le> wd_now w)
       (concat (map (sd_queues s) Enum.enum))"

definition expire_due_tickets :: "World \<Rightarrow> Sched \<Rightarrow> nat \<times> Sched" where
  "expire_due_tickets w s =
     (let due = due_tickets w s in (length due, fold (expire_ticket w) due s))"

definition defer_ticket :: "World \<Rightarrow> nat \<Rightarrow> Sched \<Rightarrow> Sched" where
  "defer_ticket w n s =
     (case wd_deferral w (at_scope (ticket s n)) of
        None \<Rightarrow> s
      | Some error \<Rightarrow>
          (if at_state (ticket s n) \<noteq> TICKET_QUEUED then s
           else let s1 = update_ticket n (\<lambda>t. cancel_timer (t\<lparr>at_state := TICKET_DEFERRED\<rparr>)) s;
                    s2 = remove_ticket n s1;
                    s3 = update_ticket n (settle_future (Future_Error (Deferral_Error error))) s2
                in emit_for_scope w ADM_REJECTED (at_scope (ticket s n)) None
                     (Some ''eligibility_deferred'') None s3))"

text \<open>Each queue is copied before it is walked; the queues of other sources do not change meanwhile.\<close>

definition defer_held_tickets :: "World \<Rightarrow> Sched \<Rightarrow> Sched" where
  "defer_held_tickets w s =
     fold (\<lambda>source s. fold (defer_ticket w) (sd_queues s source) s) Enum.enum s"

section \<open>Release timer and dispatcher\<close>

definition queued_release_times :: "World \<Rightarrow> Sched \<Rightarrow> release list" where
  "queued_release_times w s =
     map (\<lambda>n. max (At (sd_next_write_at s)) (wd_release_at w (at_scope (ticket s n))))
       (filter (\<lambda>n. at_state (ticket s n) = TICKET_QUEUED) (concat (map (sd_queues s) Enum.enum)))"

fun finite_releases :: "time \<Rightarrow> release list \<Rightarrow> time list" where
  "finite_releases now [] = []"
| "finite_releases now (Never # rs) = finite_releases now rs"
| "finite_releases now (At t # rs) =
     (if now < t then t # finite_releases now rs else finite_releases now rs)"

fun min_list_of :: "time \<Rightarrow> time list \<Rightarrow> time" where
  "min_list_of t [] = t"
| "min_list_of t (u # us) = min_list_of (min t u) us"

definition schedule_release :: "World \<Rightarrow> Sched \<Rightarrow> Sched" where
  "schedule_release w s =
     (if sd_closed s \<or> \<not> sd_loop s then s
      else case finite_releases (wd_now w) (queued_release_times w s) of
          [] \<Rightarrow> s
        | t # ts \<Rightarrow>
            (let release = min_list_of t ts
             in case sd_release_handle s of
                  None \<Rightarrow> s\<lparr>sd_release_handle := Some release\<rparr>
                | Some armed \<Rightarrow>
                    (if armed > release then s\<lparr>sd_release_handle := Some release\<rparr> else s)))"

definition ensure_dispatcher :: "SchedConfig \<Rightarrow> World \<Rightarrow> Sched \<Rightarrow> Sched" where
  "ensure_dispatcher cfg w s =
     (if sd_closed s then s
      else let s1 = defer_held_tickets w s
           in if has_dispatchable_ticket cfg w s1 \<and> \<not> sd_dispatcher s1
              then s1\<lparr>sd_dispatcher := True\<rparr> else schedule_release w s1)"

definition release_ready :: "SchedConfig \<Rightarrow> World \<Rightarrow> Sched \<Rightarrow> Sched" where
  "release_ready cfg w s = ensure_dispatcher cfg w (s\<lparr>sd_release_handle := None\<rparr>)"

definition notify_eligibility_changed :: "SchedConfig \<Rightarrow> World \<Rightarrow> Sched \<Rightarrow> Sched" where
  "notify_eligibility_changed cfg w s =
     ensure_dispatcher cfg w (s\<lparr>sd_release_handle := None\<rparr>)"

section \<open>Admission\<close>

definition scope_kind :: "TelegramRpcScope \<Rightarrow> DemandKind" where
  "scope_kind scope =
     (case sc_demand_kind scope of Some kind \<Rightarrow> kind
      | None \<Rightarrow> LEGACY_DEMAND_KIND_BY_SOURCE (sc_source scope))"

definition scope_outstanding_limit :: "TelegramRpcScope \<Rightarrow> int" where
  "scope_outstanding_limit scope =
     (case demand_contract (scope_kind scope) of
        Inl e \<Rightarrow> 0 | Inr c \<Rightarrow> dc_source_outstanding_limit c)"

definition validate_scope_contract :: "TelegramRpcScope \<Rightarrow> admission_error + unit" where
  "validate_scope_contract scope =
     then_check
       (guard (case sc_request_method scope of None \<Rightarrow> False | Some m \<Rightarrow> m \<noteq> []) Missing_Request_Method)
       (case demand_contract (scope_kind scope) of
          Inl e \<Rightarrow> Inl Scope_Conflicts_With_Contract
        | Inr c \<Rightarrow>
            then_check
              (guard (sc_source scope = dc_source c \<and> sc_service_class scope = dc_service_class c)
                Scope_Conflicts_With_Contract)
              (guard (case sc_source_outstanding_limit scope of None \<Rightarrow> True
                      | Some n \<Rightarrow> n = dc_source_outstanding_limit c) Scope_Overrides_Limit))"

text \<open>\<^verbatim>\<open>scope.deadline or now + configured\<close>: zero counts as absent.\<close>

definition admission_deadline :: "SchedConfig \<Rightarrow> World \<Rightarrow> TelegramRpcScope \<Rightarrow> time" where
  "admission_deadline cfg w scope =
     (let configured = wd_now w + cf_deadline_seconds cfg (sc_service_class scope);
          deadline = (case sc_deadline scope of
              None \<Rightarrow> configured | Some d \<Rightarrow> (if d = 0 then configured else d))
      in if sc_demand_kind scope \<in> {Some KIND_FOLDER_COMMAND, Some KIND_NOTE_COMMAND}
         then min deadline (min (wd_now w + 15) configured) else deadline)"

definition new_ticket :: "World \<Rightarrow> TelegramRpcScope \<Rightarrow> time \<Rightarrow> nat \<Rightarrow> AdmissionTicket" where
  "new_ticket w scope deadline n =
     \<lparr>at_sequence = n, at_scope = scope, at_enqueued_at = wd_now w, at_deadline = deadline,
      at_future = Future_Pending, at_owner_task = wd_task w, at_owns_capacity_slot = True,
      at_timeout_handle = Some (wd_now w + max 0 (deadline - wd_now w)), at_state = TICKET_QUEUED\<rparr>"

text \<open>
  The part of \<^verbatim>\<open>admit\<close> before it awaits the ticket's future; the result is the number of
  the ticket it waits for.
\<close>

definition admit :: "SchedConfig \<Rightarrow> World \<Rightarrow> TelegramRpcScope \<Rightarrow> Sched \<Rightarrow> (admission_error + nat) \<times> Sched" where
  "admit cfg w scope s0 =
     (case validate_scope_contract scope of
        Inl e \<Rightarrow> (Inl e, s0)
      | Inr u \<Rightarrow>
         (let s = s0\<lparr>sd_loop := True\<rparr>; deadline = admission_deadline cfg w scope in
          if deadline \<le> wd_now w
          then (Inl Admission_Expired,
                emit_for_scope w ADM_EXPIRED scope (Some 0) (Some ''deadline_elapsed'') None s)
          else if sd_closed s
          then (Inl (Admission_Closed ''scheduler_closed''),
                emit_for_scope w ADM_CLOSED scope (Some 0) (Some ''scheduler_closed'') None s)
          else
            let s1 = prune_done s; source = sc_source scope; c = sc_service_class scope in
            if source_outstanding_depth s1 source \<ge> scope_outstanding_limit scope
            then (Inl Admission_Saturated_Source,
                  emit_for_scope w ADM_REJECTED scope None (Some ''source_outstanding_saturated'') None s1)
            else if outstanding_depth s1 c \<ge> cf_capacity cfg c
            then (Inl Admission_Saturated_Class,
                  emit_for_scope w ADM_REJECTED scope None (Some ''outstanding_saturated'') None s1)
            else
              let n = sd_sequence s1 + 1;
                  s2 = s1\<lparr>sd_sequence := n,
                          sd_tickets := (sd_tickets s1)(n \<mapsto> new_ticket w scope deadline n),
                          sd_queues := (sd_queues s1)(source := sd_queues s1 source @ [n])\<rparr>;
                  s3 = emit_for_scope w ADM_QUEUED scope None None None s2
              in (Inr n, ensure_dispatcher cfg w s3)))"

text \<open>The awaiting task is cancelled: asyncio cancels the future, then \<^verbatim>\<open>_cancel_ticket\<close> runs.\<close>

definition cancel_waiter :: "nat \<Rightarrow> Sched \<Rightarrow> Sched" where
  "cancel_waiter n s =
     (if sd_tickets s n = None then s else update_ticket n (settle_future Future_Cancelled) s)"

definition cancel_ticket :: "World \<Rightarrow> nat \<Rightarrow> Sched \<Rightarrow> Sched" where
  "cancel_ticket w n s =
     (case sd_tickets s n of
        None \<Rightarrow> s
      | Some t \<Rightarrow>
          (if at_state t = TICKET_QUEUED
           then let s1 = update_ticket n (\<lambda>t. cancel_timer (t\<lparr>at_state := TICKET_CANCELLED\<rparr>)) s
                in emit_for_scope w ADM_CANCELLED (at_scope t) (Some (ticket_wait_seconds w t))
                     (Some ''caller_cancelled'') None (remove_ticket n s1)
           else if at_state t = TICKET_DISPATCHED
           then (case od_get (sd_active s) n of
                   None \<Rightarrow> s
                 | Some a \<Rightarrow>
                     emit_for_scope w ADM_CANCELLED (at_scope t) (Some (ticket_wait_seconds w t))
                       (Some ''caller_cancelled_before_transport'') None
                       (release_active_capacity a (pop_active n s)))
           else s))"

section \<open>Dispatch\<close>

definition find_dispatchable :: "SchedConfig \<Rightarrow> World \<Rightarrow> Sched \<Rightarrow> nat list \<Rightarrow> nat option" where
  "find_dispatchable cfg w s queue = List.find (ticket_can_dispatch cfg w s) queue"

fun select_source_ticket ::
    "SchedConfig \<Rightarrow> World \<Rightarrow> RpcServiceClass \<Rightarrow> nat \<Rightarrow> Sched \<Rightarrow> nat option \<times> Sched" where
  "select_source_ticket cfg w c 0 s = (None, s)"
| "select_source_ticket cfg w c (Suc tries) s =
     (let sources = source_cycle c; index = sd_source_indices s c; source = sources ! index;
          queue = dropWhile (\<lambda>n. at_state (ticket s n) \<noteq> TICKET_QUEUED) (sd_queues s source);
          s1 = s\<lparr>sd_source_indices := (sd_source_indices s)(c := (index + 1) mod length sources),
                 sd_queues := (sd_queues s)(source := queue)\<rparr>
      in case find_dispatchable cfg w s1 queue of
           None \<Rightarrow> select_source_ticket cfg w c tries s1
         | Some n \<Rightarrow> (Some n, s1\<lparr>sd_queues := (sd_queues s1)(source := remove1 n queue)\<rparr>))"

fun select_class_ticket :: "SchedConfig \<Rightarrow> World \<Rightarrow> nat \<Rightarrow> Sched \<Rightarrow> nat option \<times> Sched" where
  "select_class_ticket cfg w 0 s = (None, s)"
| "select_class_ticket cfg w (Suc tries) s =
     (let cycle = cf_fair_cycle cfg; c = cycle ! sd_fair_index s;
          s1 = s\<lparr>sd_fair_index := (sd_fair_index s + 1) mod length cycle\<rparr>
      in case select_source_ticket cfg w c (length (source_cycle c)) s1 of
           (Some n, s2) \<Rightarrow> (Some n, s2)
         | (None, s2) \<Rightarrow> select_class_ticket cfg w tries s2)"

definition select_ticket :: "SchedConfig \<Rightarrow> World \<Rightarrow> Sched \<Rightarrow> nat option \<times> Sched" where
  "select_ticket cfg w s = select_class_ticket cfg w (length (cf_fair_cycle cfg)) s"

definition admission_of :: "World \<Rightarrow> AdmissionTicket \<Rightarrow> RpcAdmission" where
  "admission_of w t =
     \<lparr>ad_source = sc_source (at_scope t), ad_service_class = sc_service_class (at_scope t),
      ad_wait_seconds = ticket_wait_seconds w t, ad_sequence = at_sequence t,
      ad_demand_kind = sc_demand_kind (at_scope t),
      ad_acquisition_kind = sc_acquisition_kind (at_scope t),
      ad_request_method = sc_request_method (at_scope t)\<rparr>"

definition activate_ticket :: "World \<Rightarrow> nat \<Rightarrow> Sched \<Rightarrow> Sched" where
  "activate_ticket w n s =
     (let s1 = update_ticket n (\<lambda>t. cancel_timer (t\<lparr>at_state := TICKET_DISPATCHED\<rparr>)) s;
          t = ticket s1 n; c = sc_service_class (at_scope t); source = sc_source (at_scope t);
          s2 = s1\<lparr>sd_active := od_put (at_sequence t)
                   \<lparr>aa_scope = at_scope t, aa_owner_task = at_owner_task t,
                    aa_owns_capacity_slot = at_owns_capacity_slot t, aa_dispatch_recorded = False\<rparr>
                   (sd_active s1)\<rparr>;
          s3 = (if at_owns_capacity_slot t
                then s2\<lparr>sd_active_counts := (sd_active_counts s2)(c := sd_active_counts s2 c + 1),
                        sd_active_source_counts :=
                          (sd_active_source_counts s2)(source := sd_active_source_counts s2 source + 1)\<rparr>
                else s2)
      in update_ticket n (settle_future (Future_Result (admission_of w t))) s3)"

definition dispatch_one_ready_ticket :: "SchedConfig \<Rightarrow> World \<Rightarrow> Sched \<Rightarrow> Sched" where
  "dispatch_one_ready_ticket cfg w s =
     (let s1 = snd (expire_due_tickets w (prune_done (defer_held_tickets w s)))
      in if sd_closed s1 \<or> \<not> wd_ready w then s1
         else case select_ticket cfg w s1 of
             (None, s2) \<Rightarrow> s2 | (Some n, s2) \<Rightarrow> activate_ticket w n s2)"

text \<open>The \<^verbatim>\<open>finally\<close> of the dispatch loop.\<close>

definition leave_dispatch_loop :: "SchedConfig \<Rightarrow> World \<Rightarrow> Sched \<Rightarrow> Sched" where
  "leave_dispatch_loop cfg w s =
     (let s1 = s\<lparr>sd_dispatcher := False\<rparr>
      in if \<not> sd_closed s1 \<and> has_dispatchable_ticket cfg w s1 then ensure_dispatcher cfg w s1 else s1)"

text \<open>
  One pass of \<^verbatim>\<open>_acquire_dispatch_capacity\<close> up to the limiter: True when the loop goes on
  to wait for the limiter, False when it ends.
\<close>

definition acquire_dispatch_capacity :: "SchedConfig \<Rightarrow> World \<Rightarrow> Sched \<Rightarrow> bool \<times> Sched" where
  "acquire_dispatch_capacity cfg w s =
     (let s1 = snd (expire_due_tickets w (prune_done s))
      in if sd_closed s1 \<or> \<not> has_dispatchable_ticket cfg w s1
         then (False, leave_dispatch_loop cfg w s1) else (True, s1))"

definition complete :: "SchedConfig \<Rightarrow> World \<Rightarrow> nat \<Rightarrow> Sched \<Rightarrow> Sched" where
  "complete cfg w n s =
     (case od_get (sd_active s) n of
        None \<Rightarrow> s
      | Some a \<Rightarrow>
          (let s1 = finish_pressure_if_drained w (sc_source (aa_scope a))
                      (release_active_capacity a (pop_active n s))
           in if \<not> sd_closed s1 \<and> has_dispatchable_ticket cfg w s1
              then ensure_dispatcher cfg w s1 else s1))"

definition scope_pressure_key :: "TelegramRpcScope \<Rightarrow> pressure_key" where
  "scope_pressure_key scope =
     (sc_source scope, Some (sc_service_class scope), sc_demand_kind scope,
      sc_acquisition_kind scope, sc_request_method scope)"

definition record_dispatch :: "SchedConfig \<Rightarrow> World \<Rightarrow> RpcAdmission \<Rightarrow> Sched \<Rightarrow> bool \<times> Sched" where
  "record_dispatch cfg w admission s =
     (case od_get (sd_active s) (ad_sequence admission) of
        None \<Rightarrow> (False, s)
      | Some a \<Rightarrow>
         (let scope = aa_scope a in
          if aa_dispatch_recorded a then (False, s)
          else if sd_closed s \<or> \<not> wd_ready w \<or> sd_next_write_at s > wd_now w \<or>
                  wd_release_at w scope > At (wd_now w)
          then (False, s)
          else if sc_request_method scope \<noteq> ad_request_method admission then (False, s)
          else
            let s1 = s\<lparr>sd_active := od_put (ad_sequence admission) (a\<lparr>aa_dispatch_recorded := True\<rparr>) (sd_active s)\<rparr>;
                key = scope_pressure_key scope;
                s2 = (case od_get (sd_pressure s1) key of
                    None \<Rightarrow> s1
                  | Some e \<Rightarrow> s1\<lparr>sd_pressure := od_put key (e\<lparr>pe_progressed := True\<rparr>) (sd_pressure s1)\<rparr>);
                s3 = s2\<lparr>sd_next_write_at := wd_now w + cf_minimum_spacing_seconds cfg\<rparr>;
                s4 = schedule_release w s3;
                s5 = (case sc_attempt_evidence scope of
                    None \<Rightarrow> s4
                  | Some e \<Rightarrow> s4\<lparr>sd_evidence := (sd_evidence s4)(e := sd_evidence s4 e + 1)\<rparr>)
            in (True, emit_for_scope w ADM_DISPATCHED scope (Some (ad_wait_seconds admission)) None None s5)))"

section \<open>Records, shutdown\<close>

definition record_retry :: "World \<Rightarrow> TelegramRpcScope \<Rightarrow> string \<Rightarrow> string option \<Rightarrow> Sched \<Rightarrow> Sched" where
  "record_retry w scope reason request_method s =
     emit_for_scope w ADM_RESUBMITTED scope None (Some reason) request_method s"

definition record_attempt_budget_exhausted :: "World \<Rightarrow> TelegramRpcScope \<Rightarrow> Sched \<Rightarrow> Sched" where
  "record_attempt_budget_exhausted w scope s =
     emit_for_scope w ADM_REJECTED scope None (Some ''attempt_budget_exhausted'') None s"

definition record_expired_before_dispatch :: "World \<Rightarrow> TelegramRpcScope \<Rightarrow> time \<Rightarrow> Sched \<Rightarrow> Sched" where
  "record_expired_before_dispatch w scope wait_seconds s =
     emit_for_scope w ADM_EXPIRED scope (Some (max 0 wait_seconds)) (Some ''deadline_elapsed'') None s"

definition record_unclassified :: "World \<Rightarrow> Sched \<Rightarrow> Sched" where
  "record_unclassified w s =
     emit w \<lparr>ae_kind = ADM_UNCLASSIFIED, ae_source = None, ae_service_class = None,
       ae_queue_depth = 0, ae_total_depth = total_depth s, ae_active_depth = 0,
       ae_total_outstanding = total_outstanding s, ae_wait_seconds = None,
       ae_reason = Some ''missing_or_inherited_scope'', ae_demand_kind = None,
       ae_acquisition_kind = None, ae_observation_scope = None, ae_observation_method = None\<rparr> s"

definition set_observer :: "bool \<Rightarrow> Sched \<Rightarrow> Sched" where
  "set_observer attached s = s\<lparr>sd_observer := attached\<rparr>"

text \<open>\<^verbatim>\<open>_start_shutdown\<close>: the drain itself is a task that runs later.\<close>

definition start_shutdown :: "Sched \<Rightarrow> Sched" where
  "start_shutdown s =
     (if sd_shutdown_task s then s
      else s\<lparr>sd_closed := True, sd_release_handle := None, sd_shutdown_task := True\<rparr>)"

definition close_ticket :: "World \<Rightarrow> string \<Rightarrow> nat \<Rightarrow> Sched \<Rightarrow> Sched" where
  "close_ticket w reason n s =
     (let s1 = remove_ticket n s in
      if at_state (ticket s1 n) \<noteq> TICKET_QUEUED then s1
      else let s2 = update_ticket n (\<lambda>t. settle_future (Future_Error (Admission_Closed reason))
                      (cancel_timer (t\<lparr>at_state := TICKET_CLOSED\<rparr>))) s1
           in emit_for_scope w ADM_CLOSED (at_scope (ticket s n))
                (Some (ticket_wait_seconds w (ticket s n))) (Some reason) None s2)"

text \<open>\<^verbatim>\<open>while queue: ticket = queue[0]; remove it; ...\<close>, for every queue.\<close>

definition close_queued_tickets :: "World \<Rightarrow> string \<Rightarrow> Sched \<Rightarrow> Sched" where
  "close_queued_tickets w reason s =
     fold (\<lambda>source s. fold (close_ticket w reason) (sd_queues s source) s) Enum.enum s"

definition active_owner_tasks :: "World \<Rightarrow> task_id option \<Rightarrow> Sched \<Rightarrow> task_id list" where
  "active_owner_tasks w exclude s =
     remdups (concat (map (\<lambda>(n, a). case aa_owner_task a of
         None \<Rightarrow> []
       | Some t \<Rightarrow> (if exclude \<noteq> Some t \<and> t \<notin> set (wd_done_tasks w) then [t] else [])) (sd_active s)))"

definition clear_active :: "Sched \<Rightarrow> Sched" where
  "clear_active s = s\<lparr>sd_active := [], sd_active_counts := (\<lambda>_. 0), sd_active_source_counts := (\<lambda>_. 0)\<rparr>"

definition drain_shutdown :: "World \<Rightarrow> string \<Rightarrow> task_id option \<Rightarrow> Sched \<Rightarrow> Sched" where
  "drain_shutdown w reason initiator s =
     (let s1 = (log_pressures (sd_pressure s) ''shutdown'' (wd_now w) s)\<lparr>sd_pressure := []\<rparr>;
          s2 = close_queued_tickets w reason s1;
          tasks = active_owner_tasks w initiator s2
      in (clear_active s2)\<lparr>sd_cancelled_tasks := sd_cancelled_tasks s2 @ tasks, sd_dispatcher := False\<rparr>)"

section \<open>Operations\<close>

datatype sched_op =
    Admit World TelegramRpcScope
  | Timer_Expires World nat
  | Expire_Due World
  | Cancel_Waiter nat
  | Cancel_Ticket World nat
  | Release_Timer World
  | Eligibility_Changed World
  | Dispatcher_Pass World
  | Dispatch_One World
  | Limiter_Failed World
  | Complete World RpcAdmission
  | Record_Dispatch World RpcAdmission
  | Record_Retry World TelegramRpcScope string "string option"
  | Record_Budget_Exhausted World TelegramRpcScope
  | Record_Expired World TelegramRpcScope time
  | Record_Unclassified World
  | Set_Observer bool
  | Start_Shutdown
  | Drain_Shutdown World string "task_id option"

text \<open>A drain runs only as the task a shutdown created; a timer belongs to an existing ticket.\<close>

fun sched_step :: "SchedConfig \<Rightarrow> sched_op \<Rightarrow> Sched \<Rightarrow> Sched" where
  "sched_step cfg (Admit w scope) s = snd (admit cfg w scope s)"
| "sched_step cfg (Timer_Expires w n) s =
     (if sd_tickets s n = None then s else expire_ticket w n s)"
| "sched_step cfg (Expire_Due w) s = snd (expire_due_tickets w s)"
| "sched_step cfg (Cancel_Waiter n) s = cancel_waiter n s"
| "sched_step cfg (Cancel_Ticket w n) s = cancel_ticket w n s"
| "sched_step cfg (Release_Timer w) s = release_ready cfg w s"
| "sched_step cfg (Eligibility_Changed w) s = notify_eligibility_changed cfg w s"
| "sched_step cfg (Dispatcher_Pass w) s = snd (acquire_dispatch_capacity cfg w s)"
| "sched_step cfg (Dispatch_One w) s = dispatch_one_ready_ticket cfg w s"
| "sched_step cfg (Limiter_Failed w) s = leave_dispatch_loop cfg w (start_shutdown s)"
| "sched_step cfg (Complete w admission) s = complete cfg w (ad_sequence admission) s"
| "sched_step cfg (Record_Dispatch w admission) s = snd (record_dispatch cfg w admission s)"
| "sched_step cfg (Record_Retry w scope reason request_method) s = record_retry w scope reason request_method s"
| "sched_step cfg (Record_Budget_Exhausted w scope) s = record_attempt_budget_exhausted w scope s"
| "sched_step cfg (Record_Expired w scope wait) s = record_expired_before_dispatch w scope wait s"
| "sched_step cfg (Record_Unclassified w) s = record_unclassified w s"
| "sched_step cfg (Set_Observer attached) s = set_observer attached s"
| "sched_step cfg Start_Shutdown s = start_shutdown s"
| "sched_step cfg (Drain_Shutdown w reason initiator) s =
     (if sd_shutdown_task s then drain_shutdown w reason initiator s else s)"

end
