(* ===== verification/Rpc_Scheduler_Inv.thy ===== *)
theory Rpc_Scheduler_Inv
  imports Rpc_Scheduler
begin

text \<open>
  The accounting invariant of the admission scheduler and its preservation. Operations
  other than enqueueing and activation only ever shrink the outstanding work; that is the
  relation \<open>shrinks\<close>, which composes, so each operation is handled once.
\<close>

section \<open>What telemetry leaves alone\<close>

text \<open>The state without its telemetry.\<close>

definition core :: "Sched \<Rightarrow> Sched" where
  "core s = s\<lparr>sd_pressure := [], sd_events := [], sd_log := []\<rparr>"

lemma core_upd [simp]:
  "core (s\<lparr>sd_pressure := p\<rparr>) = core s" "core (s\<lparr>sd_events := e\<rparr>) = core s"
  "core (s\<lparr>sd_log := l\<rparr>) = core s"
  by (simp_all add: core_def)

lemma core_fields:
  assumes "core s = core s'"
  shows "sd_tickets s = sd_tickets s'" "sd_queues s = sd_queues s'"
    "sd_source_indices s = sd_source_indices s'" "sd_active_counts s = sd_active_counts s'"
    "sd_active_source_counts s = sd_active_source_counts s'" "sd_active s = sd_active s'"
    "sd_fair_index s = sd_fair_index s'" "sd_sequence s = sd_sequence s'"
    "sd_next_write_at s = sd_next_write_at s'" "sd_closed s = sd_closed s'"
    "sd_shutdown_task s = sd_shutdown_task s'" "sd_dispatcher s = sd_dispatcher s'"
    "sd_loop s = sd_loop s'" "sd_release_handle s = sd_release_handle s'"
  using assms by (cases s; cases s'; simp add: core_def)+

lemma core_log_pressures [simp]: "core (log_pressures xs status now s) = core s"
  by (induction xs arbitrary: s) (auto simp: log_pressure_def)

lemma core_finish_pressure [simp]: "core (finish_pressure_if_drained w source s) = core s"
  by (simp add: finish_pressure_if_drained_def)

lemma core_new_pressure [simp]: "core (snd (new_pressure_episode key reason now s)) = core s"
  by (simp add: new_pressure_episode_def log_pressure_def Let_def split: prod.split)

lemma core_should_log [simp]: "core (snd (should_log_admission w event s)) = core s"
proof -
  have "core s1 = core s" if "new_pressure_episode key reason now s = (e, s1)" for key reason now e s1
    using core_new_pressure [of key reason now s] that by simp
  then show ?thesis
    by (auto simp: should_log_admission_def Let_def log_pressure_def split: option.splits prod.splits)
qed

lemma core_emit [simp]: "core (emit w event s) = core s"
proof -
  obtain b s1 where log: "should_log_admission w event s = (b, s1)" by fastforce
  then have "core s1 = core s" using core_should_log [of w event s] by simp
  then show ?thesis by (simp add: emit_def log split: option.split)
qed

lemma core_emit_for_scope [simp]: "core (emit_for_scope w k scope wait reason m s) = core s"
  by (simp add: emit_for_scope_def)

lemmas emit_fields [simp] = core_fields [OF core_emit_for_scope]
lemmas finish_fields [simp] = core_fields [OF core_finish_pressure]
lemmas log_pressures_fields [simp] = core_fields [OF core_log_pressures]
lemmas emit_event_fields [simp] = core_fields [OF core_emit]

lemma ticket_emit [simp]: "ticket (emit_for_scope w k scope wait reason m s) = ticket s"
  by (rule ext) (simp add: ticket_def)

section \<open>The invariant\<close>

definition queued_ok :: "Sched \<Rightarrow> TelegramRpcSource \<Rightarrow> nat \<Rightarrow> bool" where
  "queued_ok s source n =
     (\<exists>t. sd_tickets s n = Some t \<and> at_state t = TICKET_QUEUED \<and> sc_source (at_scope t) = source)"

definition ticket_ok :: "Sched \<Rightarrow> nat \<Rightarrow> AdmissionTicket \<Rightarrow> bool" where
  "ticket_ok s n t =
     (at_sequence t = n \<and> n \<le> sd_sequence s \<and> at_owns_capacity_slot t \<and>
      sc_service_class (at_scope t) = source_class (sc_source (at_scope t)))"

definition active_ok :: "Sched \<Rightarrow> nat \<Rightarrow> ActiveAttempt \<Rightarrow> bool" where
  "active_ok s n a =
     (\<exists>t. sd_tickets s n = Some t \<and> at_state t = TICKET_DISPATCHED \<and> aa_scope a = at_scope t \<and>
          aa_owns_capacity_slot a)"

definition actives_of :: "(TelegramRpcScope \<Rightarrow> bool) \<Rightarrow> Sched \<Rightarrow> int" where
  "actives_of P s = int (length (filter (\<lambda>(n, a). P (aa_scope a)) (sd_active s)))"

definition core_inv :: "Sched \<Rightarrow> bool" where
  "core_inv s \<longleftrightarrow>
     (\<forall>source. distinct (sd_queues s source) \<and> (\<forall>n \<in> set (sd_queues s source). queued_ok s source n)) \<and>
     (\<forall>n t. sd_tickets s n = Some t \<longrightarrow> ticket_ok s n t) \<and>
     (\<forall>(n, a) \<in> set (sd_active s). active_ok s n a) \<and> distinct (od_keys (sd_active s)) \<and>
     (\<forall>c. sd_active_counts s c = actives_of (\<lambda>scope. sc_service_class scope = c) s) \<and>
     (\<forall>source. sd_active_source_counts s source = actives_of (\<lambda>scope. sc_source scope = source) s)"

lemma core_invD:
  assumes "core_inv s"
  shows "distinct (sd_queues s source)"
    and "n \<in> set (sd_queues s source) \<Longrightarrow> queued_ok s source n"
    and "sd_tickets s n = Some t \<Longrightarrow> ticket_ok s n t"
    and "od_get (sd_active s) n = Some a \<Longrightarrow> active_ok s n a"
    and "distinct (od_keys (sd_active s))"
    and "sd_active_counts s c = actives_of (\<lambda>scope. sc_service_class scope = c) s"
    and "sd_active_source_counts s source = actives_of (\<lambda>scope. sc_source scope = source) s"
  using assms by (auto simp: core_inv_def od_get_map_of dest: map_of_SomeD)

text \<open>The invariant depends on six fields only.\<close>

lemma core_inv_cong:
  assumes "sd_tickets s' = sd_tickets s" "sd_queues s' = sd_queues s" "sd_active s' = sd_active s"
    "sd_active_counts s' = sd_active_counts s" "sd_active_source_counts s' = sd_active_source_counts s"
    "sd_sequence s' = sd_sequence s"
  shows "core_inv s' \<longleftrightarrow> core_inv s"
  using assms by (simp add: core_inv_def queued_ok_def ticket_ok_def active_ok_def actives_of_def)

lemma core_inv_new: "core_inv new_scheduler"
  by (simp add: core_inv_def new_scheduler_def actives_of_def od_keys_def)

section \<open>Steps that only shrink the outstanding work\<close>

definition ticket_keeps :: "Sched \<Rightarrow> Sched \<Rightarrow> bool" where
  "ticket_keeps s s' \<longleftrightarrow>
     (\<forall>n t. sd_tickets s n = Some t \<longrightarrow>
        (\<exists>t'. sd_tickets s' n = Some t' \<and> at_scope t' = at_scope t \<and>
              (at_state t \<noteq> TICKET_QUEUED \<longrightarrow> at_state t' = at_state t) \<and>
              (at_future t \<noteq> Future_Pending \<longrightarrow> at_future t' = at_future t)))"

definition shrinks :: "Sched \<Rightarrow> Sched \<Rightarrow> bool" where
  "shrinks s s' \<longleftrightarrow>
     core_inv s' \<and> ticket_keeps s s' \<and>
     (\<forall>source. set (sd_queues s' source) \<subseteq> set (sd_queues s source) \<and>
        length (sd_queues s' source) \<le> length (sd_queues s source)) \<and>
     (\<forall>n a. od_get (sd_active s') n = Some a \<longrightarrow> od_get (sd_active s) n = Some a) \<and>
     (\<forall>source. sd_active_source_counts s' source \<le> sd_active_source_counts s source) \<and>
     (\<forall>c. sd_active_counts s' c \<le> sd_active_counts s c) \<and>
     sd_next_write_at s' = sd_next_write_at s \<and> sd_sequence s' = sd_sequence s \<and>
     (sd_closed s \<longrightarrow> sd_closed s') \<and> (sd_shutdown_task s \<longrightarrow> sd_shutdown_task s') \<and>
     (sd_shutdown_task s' \<longrightarrow> sd_shutdown_task s \<or> sd_closed s')"

lemma ticket_keeps_refl [simp]: "ticket_keeps s s"
  by (simp add: ticket_keeps_def)

lemma ticket_keeps_trans: "ticket_keeps s s' \<Longrightarrow> ticket_keeps s' s'' \<Longrightarrow> ticket_keeps s s''"
  unfolding ticket_keeps_def by metis

lemma shrinks_inv: "shrinks s s' \<Longrightarrow> core_inv s'"
  by (simp add: shrinks_def)

lemma shrinks_refl: "core_inv s \<Longrightarrow> shrinks s s"
  by (simp add: shrinks_def)

lemma shrinks_trans: "shrinks s s' \<Longrightarrow> shrinks s' s'' \<Longrightarrow> shrinks s s''"
proof -
  assume a: "shrinks s s'" and b: "shrinks s' s''"
  note a' = a [unfolded shrinks_def] and b' = b [unfolded shrinks_def]
  have "ticket_keeps s s''" using a' b' ticket_keeps_trans by blast
  moreover have "set (sd_queues s'' source) \<subseteq> set (sd_queues s source)" for source
    using a' b' by blast
  moreover have "length (sd_queues s'' source) \<le> length (sd_queues s source)" for source
    using a' b' order_trans by blast
  moreover have "sd_active_source_counts s'' source \<le> sd_active_source_counts s source" for source
    using a' b' order_trans by blast
  moreover have "sd_active_counts s'' c \<le> sd_active_counts s c" for c
    using a' b' order_trans by blast
  moreover have "sd_shutdown_task s'' \<longrightarrow> sd_shutdown_task s \<or> sd_closed s''"
    using a' b' by blast
  ultimately show ?thesis using a' b' by (simp add: shrinks_def)
qed

lemma shrinks_ticket: "shrinks s s' \<Longrightarrow> sd_tickets s n \<noteq> None \<Longrightarrow> sd_tickets s' n \<noteq> None"
proof -
  assume "shrinks s s'" and "sd_tickets s n \<noteq> None"
  then have "ticket_keeps s s'" and "\<exists>t. sd_tickets s n = Some t" by (simp_all add: shrinks_def)
  then show ?thesis unfolding ticket_keeps_def by blast
qed

text \<open>Steps that touch none of the fields of the relation.\<close>

lemma shrinks_same:
  assumes "core_inv s" "sd_tickets s' = sd_tickets s" "sd_queues s' = sd_queues s"
    "sd_active s' = sd_active s" "sd_active_counts s' = sd_active_counts s"
    "sd_active_source_counts s' = sd_active_source_counts s" "sd_sequence s' = sd_sequence s"
    "sd_next_write_at s' = sd_next_write_at s" "sd_closed s \<longrightarrow> sd_closed s'"
    "sd_shutdown_task s \<longrightarrow> sd_shutdown_task s'"
    "sd_shutdown_task s' \<longrightarrow> sd_shutdown_task s \<or> sd_closed s'"
  shows "shrinks s s'"
  using assms core_inv_cong [OF assms(2-7)]
  by (simp add: shrinks_def ticket_keeps_def)

lemma fold_shrinks:
  assumes "core_inv s" and "\<And>x. x \<in> set xs \<Longrightarrow> P x s"
    and step: "\<And>x s. x \<in> set xs \<Longrightarrow> core_inv s \<Longrightarrow> P x s \<Longrightarrow> shrinks s (f x s)"
    and stable: "\<And>x s s'. x \<in> set xs \<Longrightarrow> P x s \<Longrightarrow> shrinks s s' \<Longrightarrow> P x s'"
  shows "shrinks s (fold f xs s)"
  using assms
proof (induction xs arbitrary: s)
  case Nil
  then show ?case by (simp add: shrinks_refl)
next
  case (Cons x xs)
  have first: "shrinks s (f x s)" using Cons.prems(1,2) Cons.prems(3) [of x s] by simp
  have "shrinks (f x s) (fold f xs (f x s))"
  proof (rule Cons.IH)
    show "core_inv (f x s)" using first by (rule shrinks_inv)
    show "P y (f x s)" if "y \<in> set xs" for y
      using that Cons.prems(2) [of y] Cons.prems(4) [of y s "f x s"] first by simp
  qed (use Cons.prems(3,4) in auto)
  with first show ?case by (auto intro: shrinks_trans)
qed

section \<open>Retiring a ticket\<close>

text \<open>
  Expiry, deferral, cancellation and shutdown all take one ticket out of its queue and
  change its state, its timer and its future, in the one or the other order.
\<close>

definition retiring :: "(AdmissionTicket \<Rightarrow> AdmissionTicket) \<Rightarrow> bool" where
  "retiring f \<longleftrightarrow> (\<forall>t. at_sequence (f t) = at_sequence t \<and> at_scope (f t) = at_scope t \<and>
     at_owns_capacity_slot (f t) = at_owns_capacity_slot t \<and>
     (at_future t \<noteq> Future_Pending \<longrightarrow> at_future (f t) = at_future t))"

lemma ticket_update_ticket [simp]:
  "ticket (update_ticket n f s) m = (if m = n then f (ticket s n) else ticket s m)"
  by (simp add: ticket_def update_ticket_def)

lemma ticket_upd [simp]:
  "ticket (s\<lparr>sd_active := a\<rparr>) = ticket s" "ticket (s\<lparr>sd_active_counts := c\<rparr>) = ticket s"
  "ticket (s\<lparr>sd_active_source_counts := d\<rparr>) = ticket s" "ticket (s\<lparr>sd_queues := q\<rparr>) = ticket s"
  by (rule ext, simp add: ticket_def)+

lemma update_ticket_fields [simp]:
  "sd_queues (update_ticket n f s) = sd_queues s" "sd_active (update_ticket n f s) = sd_active s"
  "sd_active_counts (update_ticket n f s) = sd_active_counts s"
  "sd_active_source_counts (update_ticket n f s) = sd_active_source_counts s"
  "sd_sequence (update_ticket n f s) = sd_sequence s"
  "sd_next_write_at (update_ticket n f s) = sd_next_write_at s"
  "sd_closed (update_ticket n f s) = sd_closed s"
  "sd_shutdown_task (update_ticket n f s) = sd_shutdown_task s"
  "sd_tickets (update_ticket n f s) = (sd_tickets s)(n \<mapsto> f (ticket s n))"
  by (simp_all add: update_ticket_def)

lemma remove_ticket_fields [simp]:
  "sd_tickets (remove_ticket n s) = sd_tickets s" "sd_active (remove_ticket n s) = sd_active s"
  "sd_active_counts (remove_ticket n s) = sd_active_counts s"
  "sd_active_source_counts (remove_ticket n s) = sd_active_source_counts s"
  "sd_sequence (remove_ticket n s) = sd_sequence s"
  "sd_next_write_at (remove_ticket n s) = sd_next_write_at s"
  "sd_closed (remove_ticket n s) = sd_closed s"
  "sd_shutdown_task (remove_ticket n s) = sd_shutdown_task s"
  by (simp_all add: remove_ticket_def Let_def notify_capacity_released_def)

lemma ticket_remove_ticket [simp]: "ticket (remove_ticket n s) = ticket s"
  by (rule ext) (simp add: ticket_def)

lemma remove_ticket_queues:
  "sd_queues (remove_ticket n s) source =
     (if source = sc_source (at_scope (ticket s n)) then remove1 n (sd_queues s source)
      else sd_queues s source)"
  by (auto simp: remove_ticket_def Let_def notify_capacity_released_def remove1_idem)

lemma update_update_ticket [simp]:
  "update_ticket n g (update_ticket n f s) = update_ticket n (g \<circ> f) s"
  by (simp add: update_ticket_def ticket_def)

lemma remove_update_ticket:
  assumes "retiring f"
  shows "remove_ticket n (update_ticket n f s) = update_ticket n f (remove_ticket n s)"
  using assms by (simp add: remove_ticket_def update_ticket_def ticket_def retiring_def Let_def
      notify_capacity_released_def)

lemma retire_shrinks:
  assumes inv: "core_inv s" and t: "sd_tickets s n = Some t" "at_state t = TICKET_QUEUED"
    and f: "retiring f"
  shows "shrinks s (update_ticket n f (remove_ticket n s))" (is "shrinks s ?s'")
proof -
  note I = core_invD [OF inv]
  have tk: "ticket s n = t" using t by (simp add: ticket_def)
  have queues: "sd_queues (remove_ticket n s) source =
      (if source = sc_source (at_scope t) then remove1 n (sd_queues s source) else sd_queues s source)" for source
    by (simp add: remove_ticket_queues tk)
  have sub: "set (sd_queues ?s' source) \<subseteq> set (sd_queues s source)" for source
    using set_remove1_subset [of n "sd_queues s (sc_source (at_scope t))"] by (simp add: queues)
  have notin: "n \<notin> set (sd_queues ?s' source)" for source
  proof
    assume n: "n \<in> set (sd_queues ?s' source)"
    then have "queued_ok s source n" using sub I(2) by blast
    then have "source = sc_source (at_scope t)" using t by (simp add: queued_ok_def)
    with n show False using I(1) [of source] by (simp add: queues)
  qed
  have "core_inv ?s'"
    unfolding core_inv_def
  proof (intro conjI allI ballI)
    fix source
    show "distinct (sd_queues ?s' source)" using I(1) by (simp add: queues distinct_remove1)
  next
    fix source m
    assume m: "m \<in> set (sd_queues ?s' source)"
    then have "m \<noteq> n" using notin by blast
    moreover have "queued_ok s source m" using m sub I(2) by blast
    ultimately show "queued_ok ?s' source m" by (simp add: queued_ok_def)
  next
    fix m u
    show "sd_tickets ?s' m = Some u \<longrightarrow> ticket_ok ?s' m u"
      using I(3) [of m] I(3) [OF t(1)] f by (auto simp: ticket_ok_def retiring_def tk)
  next
    fix p
    assume p_in: "p \<in> set (sd_active ?s')"
    obtain m a where p: "p = (m, a)" by (cases p)
    with p_in have "(m, a) \<in> set (sd_active s)" by simp
    then have a: "active_ok s m a" using inv by (auto simp: core_inv_def)
    then have "m \<noteq> n" using t by (auto simp: active_ok_def)
    with a show "case p of (m, a) \<Rightarrow> active_ok ?s' m a" by (simp add: p active_ok_def)
  qed (use I in \<open>simp_all add: actives_of_def\<close>)
  moreover have "ticket_keeps s ?s'"
    using t f by (auto simp: ticket_keeps_def tk retiring_def)
  moreover have "length (sd_queues ?s' source) \<le> length (sd_queues s source)" for source
    by (simp add: queues length_remove1)
  ultimately show ?thesis using sub by (simp add: shrinks_def)
qed

lemma retiring_simps [simp]:
  "retiring (\<lambda>t. t\<lparr>at_state := st\<rparr>)" "retiring (\<lambda>t. cancel_timer (t\<lparr>at_state := st\<rparr>))"
  "retiring (settle_future outcome)" "retiring cancel_timer"
  by (simp_all add: retiring_def cancel_timer_def settle_future_def)

lemma retiring_comp [simp]: "retiring f \<Longrightarrow> retiring g \<Longrightarrow> retiring (g \<circ> f)"
  by (simp add: retiring_def)

lemma shrinks_emit:
  assumes "shrinks s s'"
  shows "shrinks s (emit_for_scope w k scope wait reason m s')"
  by (rule shrinks_trans [OF assms], rule shrinks_same) (simp_all add: shrinks_inv [OF assms])

lemma expire_ticket_shrinks:
  assumes "core_inv s" and "sd_tickets s n \<noteq> None"
  shows "shrinks s (expire_ticket w n s)"
proof (cases "at_state (ticket s n) = TICKET_QUEUED")
  case False
  then show ?thesis using assms by (simp add: expire_ticket_def shrinks_refl)
next
  case True
  then obtain t where t: "sd_tickets s n = Some t" "at_state t = TICKET_QUEUED"
    using assms(2) by (auto simp: ticket_def)
  show ?thesis
    using True retire_shrinks [OF assms(1) t]
    by (auto simp: expire_ticket_def Let_def remove_update_ticket intro!: shrinks_emit)
qed

lemma defer_ticket_shrinks:
  assumes "core_inv s" and "sd_tickets s n \<noteq> None"
  shows "shrinks s (defer_ticket w n s)"
proof (cases "wd_deferral w (at_scope (ticket s n)) = None \<or> at_state (ticket s n) \<noteq> TICKET_QUEUED")
  case True
  then show ?thesis using assms by (auto simp: defer_ticket_def shrinks_refl split: option.split)
next
  case False
  then obtain t where t: "sd_tickets s n = Some t" "at_state t = TICKET_QUEUED"
    using assms(2) by (auto simp: ticket_def)
  show ?thesis
    using False retire_shrinks [OF assms(1) t]
    by (auto simp: defer_ticket_def Let_def remove_update_ticket intro!: shrinks_emit)
qed

lemma queued_ticket: "core_inv s \<Longrightarrow> n \<in> set (sd_queues s source) \<Longrightarrow> sd_tickets s n \<noteq> None"
  using core_invD(2) by (fastforce simp: queued_ok_def)

lemma defer_held_shrinks:
  assumes "core_inv s"
  shows "shrinks s (defer_held_tickets w s)"
  unfolding defer_held_tickets_def
proof (rule fold_shrinks [where P = "\<lambda>_ _. True"])
  fix source s
  assume inv: "core_inv s"
  show "shrinks s (fold (defer_ticket w) (sd_queues s source) s)"
    by (rule fold_shrinks [where P = "\<lambda>n s. sd_tickets s n \<noteq> None"])
      (use inv in \<open>auto intro: defer_ticket_shrinks dest: queued_ticket shrinks_ticket\<close>)
qed (use assms in simp_all)

lemma expire_due_shrinks:
  assumes "core_inv s"
  shows "shrinks s (snd (expire_due_tickets w s))"
proof -
  have "sd_tickets s n \<noteq> None" if "n \<in> set (due_tickets w s)" for n
    using that queued_ticket [OF assms] by (auto simp: due_tickets_def)
  then have "shrinks s (fold (expire_ticket w) (due_tickets w s) s)"
    by (intro fold_shrinks [where P = "\<lambda>n s. sd_tickets s n \<noteq> None"])
      (use assms in \<open>auto intro: expire_ticket_shrinks dest: shrinks_ticket\<close>)
  then show ?thesis by (simp add: expire_due_tickets_def Let_def)
qed

lemma prune_source_shrinks:
  assumes inv: "core_inv s"
  shows "shrinks s (prune_source source s)"
proof -
  note I = core_invD [OF inv]
  let ?s' = "s\<lparr>sd_queues := (sd_queues s)(source := filter (still_queued s) (sd_queues s source))\<rparr>"
  have "core_inv ?s'"
    using inv by (auto simp: core_inv_def queued_ok_def ticket_ok_def active_ok_def actives_of_def)
  then have "shrinks s ?s'" by (auto simp: shrinks_def ticket_keeps_def length_filter_le)
  moreover have "shrinks ?s' (notify_capacity_released ?s')"
    using \<open>core_inv ?s'\<close> by (rule shrinks_same) (simp_all add: notify_capacity_released_def)
  ultimately show ?thesis
    by (auto simp: prune_source_def Let_def intro: shrinks_trans)
qed

lemma prune_done_shrinks: "core_inv s \<Longrightarrow> shrinks s (prune_done s)"
  unfolding prune_done_def
  by (rule fold_shrinks [where P = "\<lambda>_ _. True"]) (auto intro: prune_source_shrinks)

lemma schedule_release_fields [simp]:
  "sd_tickets (schedule_release w s) = sd_tickets s" "sd_queues (schedule_release w s) = sd_queues s"
  "sd_active (schedule_release w s) = sd_active s"
  "sd_active_counts (schedule_release w s) = sd_active_counts s"
  "sd_active_source_counts (schedule_release w s) = sd_active_source_counts s"
  "sd_sequence (schedule_release w s) = sd_sequence s"
  "sd_next_write_at (schedule_release w s) = sd_next_write_at s"
  "sd_closed (schedule_release w s) = sd_closed s"
  "sd_shutdown_task (schedule_release w s) = sd_shutdown_task s"
  by (simp_all add: schedule_release_def Let_def split: list.split option.split)

lemma ensure_dispatcher_shrinks:
  assumes "core_inv s"
  shows "shrinks s (ensure_dispatcher cfg w s)"
proof -
  have d: "shrinks s (defer_held_tickets w s)" using assms by (rule defer_held_shrinks)
  have "shrinks (defer_held_tickets w s) ((defer_held_tickets w s)\<lparr>sd_dispatcher := True\<rparr>)"
    "shrinks (defer_held_tickets w s) (schedule_release w (defer_held_tickets w s))"
    by (rule shrinks_same; simp add: shrinks_inv [OF d])+
  then show ?thesis
    using d assms by (auto simp: ensure_dispatcher_def Let_def intro: shrinks_trans shrinks_refl)
qed

section \<open>Active attempts\<close>

lemma count_od_del:
  assumes "distinct (od_keys d)" and "od_get d n = Some a"
  shows "int (length (filter (\<lambda>(n, a). Q a) (od_del n d))) =
    int (length (filter (\<lambda>(n, a). Q a) d)) - (if Q a then 1 else 0)"
  using assms
proof (induction d)
  case Nil
  then show ?case by simp
next
  case (Cons p d)
  obtain m b where p: "p = (m, b)" by (cases p)
  show ?case
  proof (cases "m = n")
    case True
    then have "n \<notin> fst ` set d" using Cons.prems by (simp add: p od_keys_def)
    then have "od_del n d = d"
      unfolding od_del_def by (intro filter_True) force
    then show ?thesis using True Cons.prems by (simp add: p od_del_def)
  next
    case False
    then show ?thesis using Cons by (auto simp: p od_del_def od_keys_def)
  qed
qed

lemma count_od_put_same:
  assumes "od_get d n = Some a" and "Q a \<longleftrightarrow> Q b"
  shows "length (filter (\<lambda>(n, a). Q a) (od_put n b d)) = length (filter (\<lambda>(n, a). Q a) d)"
  using assms(1)
proof (induction d)
  case Nil
  then show ?case by simp
next
  case (Cons p d)
  then show ?case using assms(2) by (cases p) (auto split: if_splits)
qed

lemma od_get_set: "distinct (od_keys d) \<Longrightarrow> (n, a) \<in> set d \<longleftrightarrow> od_get d n = Some a"
  by (simp add: od_get_map_of od_keys_def)

lemma core_inv_active:
  "core_inv s \<Longrightarrow> (\<forall>(n, a) \<in> set (sd_active s). active_ok s n a) \<longleftrightarrow>
     (\<forall>n a. od_get (sd_active s) n = Some a \<longrightarrow> active_ok s n a)"
  by (auto simp: od_get_set core_invD(5))

lemma pop_active_shrinks:
  assumes inv: "core_inv s" and a: "od_get (sd_active s) n = Some a"
  shows "shrinks s (release_active_capacity a (pop_active n s))" (is "shrinks s ?s'")
proof -
  note I = core_invD [OF inv]
  have owns: "aa_owns_capacity_slot a" using I(4) [OF a] by (auto simp: active_ok_def)
  have active: "sd_active ?s' = od_del n (sd_active s)"
    by (simp add: release_active_capacity_def pop_active_def notify_capacity_released_def Let_def)
  have same: "sd_tickets ?s' = sd_tickets s" "sd_queues ?s' = sd_queues s" "sd_sequence ?s' = sd_sequence s"
    "sd_next_write_at ?s' = sd_next_write_at s" "sd_closed ?s' = sd_closed s"
    "sd_shutdown_task ?s' = sd_shutdown_task s"
    by (simp_all add: release_active_capacity_def pop_active_def notify_capacity_released_def Let_def)
  have counts: "sd_active_counts ?s' c = sd_active_counts s c - (if sc_service_class (aa_scope a) = c then 1 else 0)"
    "sd_active_source_counts ?s' source = sd_active_source_counts s source - (if sc_source (aa_scope a) = source then 1 else 0)"
    for c source
    by (auto simp: release_active_capacity_def owns pop_active_def notify_capacity_released_def Let_def)
  have of: "actives_of P ?s' = actives_of P s - (if P (aa_scope a) then 1 else 0)" for P
    using count_od_del [OF I(5) a, of "\<lambda>a. P (aa_scope a)"] by (simp add: actives_of_def active)
  have keys: "distinct (od_keys (sd_active ?s'))" unfolding active by (rule od_del_distinct [OF I(5)])
  have get: "od_get (sd_active ?s') m = Some b \<Longrightarrow> od_get (sd_active s) m = Some b" for m b
    by (simp add: active split: if_splits)
  have "active_ok ?s' m b" if "(m, b) \<in> set (sd_active ?s')" for m b
    using that I(4) [of m b] get [of m b] by (simp add: od_get_set [OF keys] active_ok_def same)
  then have "core_inv ?s'"
    using inv keys unfolding core_inv_def
    by (simp add: same counts of queued_ok_def ticket_ok_def core_invD(6,7) [OF inv]) blast
  then show ?thesis using get counts by (simp add: shrinks_def same ticket_keeps_def)
qed

lemma cancel_ticket_shrinks:
  assumes inv: "core_inv s"
  shows "shrinks s (cancel_ticket w n s)"
proof (cases "sd_tickets s n")
  case None
  then show ?thesis using inv by (simp add: cancel_ticket_def shrinks_refl)
next
  case (Some t)
  show ?thesis
  proof (cases "at_state t = TICKET_QUEUED")
    case True
    then show ?thesis
      using retire_shrinks [OF inv Some True] Some
      by (auto simp: cancel_ticket_def Let_def remove_update_ticket intro!: shrinks_emit)
  next
    case False
    then show ?thesis
      using Some inv
      by (auto simp: cancel_ticket_def Let_def intro!: shrinks_emit pop_active_shrinks shrinks_refl
          split: option.split)
  qed
qed

lemma cancel_waiter_shrinks:
  assumes inv: "core_inv s"
  shows "shrinks s (cancel_waiter n s)"
proof (cases "sd_tickets s n")
  case None
  then show ?thesis using inv by (simp add: cancel_waiter_def shrinks_refl)
next
  case (Some t)
  have tk: "ticket s n = t" using Some by (simp add: ticket_def)
  have same: "at_state (settle_future Future_Cancelled t) = at_state t"
    "at_scope (settle_future Future_Cancelled t) = at_scope t"
    "at_sequence (settle_future Future_Cancelled t) = at_sequence t"
    "at_owns_capacity_slot (settle_future Future_Cancelled t) = at_owns_capacity_slot t"
    "at_future t \<noteq> Future_Pending \<longrightarrow> at_future (settle_future Future_Cancelled t) = at_future t"
    by (simp_all add: settle_future_def)
  let ?s' = "update_ticket n (settle_future Future_Cancelled) s"
  have eqs: "queued_ok ?s' source m \<longleftrightarrow> queued_ok s source m" "active_ok ?s' m a \<longleftrightarrow> active_ok s m a"
    "(\<forall>u. sd_tickets ?s' m = Some u \<longrightarrow> ticket_ok ?s' m u) \<longleftrightarrow>
     (\<forall>u. sd_tickets s m = Some u \<longrightarrow> ticket_ok s m u)" for source m a
    using Some by (simp_all add: queued_ok_def active_ok_def ticket_ok_def tk same)
  have "core_inv ?s' \<longleftrightarrow> core_inv s"
    by (simp only: core_inv_def actives_of_def update_ticket_fields(1-5) eqs)
  then have "core_inv ?s'" using inv by blast
  then have "core_inv (cancel_waiter n s)" using Some by (simp add: cancel_waiter_def)
  then show ?thesis
    using Some by (simp add: shrinks_def cancel_waiter_def ticket_keeps_def tk same)
qed

lemma complete_shrinks:
  assumes inv: "core_inv s"
  shows "shrinks s (complete cfg w n s)"
proof (cases "od_get (sd_active s) n")
  case None
  then show ?thesis using inv by (simp add: complete_def shrinks_refl)
next
  case (Some a)
  let ?s1 = "finish_pressure_if_drained w (sc_source (aa_scope a)) (release_active_capacity a (pop_active n s))"
  have pop: "shrinks s (release_active_capacity a (pop_active n s))" by (rule pop_active_shrinks [OF inv Some])
  have "shrinks (release_active_capacity a (pop_active n s)) ?s1"
    by (rule shrinks_same) (simp_all add: shrinks_inv [OF pop])
  with pop have s1: "shrinks s ?s1" by (rule shrinks_trans)
  then have "shrinks s (ensure_dispatcher cfg w ?s1)"
    using ensure_dispatcher_shrinks shrinks_inv shrinks_trans by blast
  with s1 show ?thesis by (simp add: complete_def Some Let_def)
qed

section \<open>Selection and activation\<close>

definition picks :: "SchedConfig \<Rightarrow> World \<Rightarrow> Sched \<Rightarrow> nat option \<Rightarrow> Sched \<Rightarrow> bool" where
  "picks cfg w s r s' \<longleftrightarrow>
     sd_tickets s' = sd_tickets s \<and> sd_active s' = sd_active s \<and>
     sd_active_counts s' = sd_active_counts s \<and>
     sd_active_source_counts s' = sd_active_source_counts s \<and> sd_sequence s' = sd_sequence s \<and>
     sd_next_write_at s' = sd_next_write_at s \<and> sd_closed s' = sd_closed s \<and>
     sd_shutdown_task s' = sd_shutdown_task s \<and>
     (case r of
        None \<Rightarrow> sd_queues s' = sd_queues s
      | Some n \<Rightarrow> \<exists>source. n \<in> set (sd_queues s source) \<and>
          sd_queues s' = (sd_queues s)(source := remove1 n (sd_queues s source)) \<and>
          ticket_can_dispatch cfg w s n)"

lemma ticket_can_dispatch_cong:
  assumes "sd_tickets s' = sd_tickets s" "sd_active_counts s' = sd_active_counts s"
    "sd_next_write_at s' = sd_next_write_at s"
  shows "ticket_can_dispatch cfg w s' n = ticket_can_dispatch cfg w s n"
  using assms by (simp add: ticket_can_dispatch_def ticket_def)

lemma queue_heads_queued:
  assumes "core_inv s"
  shows "dropWhile (\<lambda>n. at_state (ticket s n) \<noteq> TICKET_QUEUED) (sd_queues s source) = sd_queues s source"
proof (cases "sd_queues s source")
  case (Cons n ns)
  then have "queued_ok s source n" using core_invD(2) [OF assms] by simp
  then show ?thesis by (auto simp: Cons queued_ok_def ticket_def)
qed simp

lemma picks_trans_None: "picks cfg w s None s1 \<Longrightarrow> picks cfg w s1 r s2 \<Longrightarrow> picks cfg w s r s2"
  using ticket_can_dispatch_cong [of s1 s] by (auto simp: picks_def split: option.splits)

lemma picks_None_inv: "core_inv s \<Longrightarrow> picks cfg w s None s' \<Longrightarrow> core_inv s'"
  using core_inv_cong [of s' s] by (simp add: picks_def)

lemma select_source_ticket_picks:
  assumes "core_inv s"
  shows "picks cfg w s (fst (select_source_ticket cfg w c k s)) (snd (select_source_ticket cfg w c k s))"
  using assms
proof (induction k arbitrary: s)
  case 0
  then show ?case by (simp add: picks_def)
next
  case (Suc k)
  let ?source = "source_cycle c ! sd_source_indices s c"
  define s1 where "s1 = s\<lparr>sd_source_indices := (sd_source_indices s)
      (c := (sd_source_indices s c + 1) mod length (source_cycle c)),
    sd_queues := (sd_queues s)(?source := sd_queues s ?source)\<rparr>"
  have p1: "picks cfg w s None s1" by (simp add: picks_def s1_def)
  have unfold_sel: "select_source_ticket cfg w c (Suc k) s =
      (case find_dispatchable cfg w s1 (sd_queues s ?source) of
         None \<Rightarrow> select_source_ticket cfg w c k s1
       | Some n \<Rightarrow> (Some n, s1\<lparr>sd_queues := (sd_queues s1)(?source := remove1 n (sd_queues s ?source))\<rparr>))"
    by (simp only: select_source_ticket.simps Let_def queue_heads_queued [OF Suc.prems] s1_def)
  show ?case
  proof (cases "find_dispatchable cfg w s1 (sd_queues s ?source)")
    case None
    have "picks cfg w s1 (fst (select_source_ticket cfg w c k s1)) (snd (select_source_ticket cfg w c k s1))"
      using Suc.IH picks_None_inv [OF Suc.prems p1] .
    with p1 show ?thesis unfolding unfold_sel None by (auto intro: picks_trans_None)
  next
    case (Some n)
    then have "n \<in> set (sd_queues s ?source)" "ticket_can_dispatch cfg w s1 n"
      by (auto simp: find_dispatchable_def find_Some_iff)
    then show ?thesis
      using ticket_can_dispatch_cong [of s1 s cfg w n] unfolding unfold_sel Some
      by (auto simp: picks_def s1_def)
  qed
qed

lemma select_class_ticket_picks:
  assumes "core_inv s"
  shows "picks cfg w s (fst (select_class_ticket cfg w k s)) (snd (select_class_ticket cfg w k s))"
  using assms
proof (induction k arbitrary: s)
  case 0
  then show ?case by (simp add: picks_def)
next
  case (Suc k)
  let ?c = "cf_fair_cycle cfg ! sd_fair_index s"
  define s1 where "s1 = s\<lparr>sd_fair_index := (sd_fair_index s + 1) mod length (cf_fair_cycle cfg)\<rparr>"
  have p1: "picks cfg w s None s1" by (simp add: picks_def s1_def)
  then have inv1: "core_inv s1" using Suc.prems by (rule picks_None_inv [rotated])
  obtain r s2 where sel: "select_source_ticket cfg w ?c (length (source_cycle ?c)) s1 = (r, s2)"
    by fastforce
  have p2: "picks cfg w s r s2"
    using picks_trans_None [OF p1] select_source_ticket_picks [OF inv1, of cfg w ?c "length (source_cycle ?c)"]
    by (simp add: sel)
  show ?case
  proof (cases r)
    case None
    with p2 have "core_inv s2" using Suc.prems picks_None_inv by blast
    from Suc.IH [OF this] p2 show ?thesis
      unfolding select_class_ticket.simps Let_def s1_def [symmetric] sel None
      by (auto intro: picks_trans_None)
  next
    case (Some n)
    with p2 show ?thesis
      unfolding select_class_ticket.simps Let_def s1_def [symmetric] sel by simp
  qed
qed

text \<open>Live work of a source and of a class: queued tickets and active attempts.\<close>

definition live :: "Sched \<Rightarrow> TelegramRpcSource \<Rightarrow> int" where
  "live s source = int (length (sd_queues s source)) + sd_active_source_counts s source"

definition live_class :: "Sched \<Rightarrow> RpcServiceClass \<Rightarrow> int" where
  "live_class s c = sum_list (map (\<lambda>source. int (length (sd_queues s source))) (source_cycle c)) + sd_active_counts s c"

lemma queued_slots_length: "core_inv s \<Longrightarrow> queued_slots s source = int (length (sd_queues s source))"
proof -
  assume inv: "core_inv s"
  have "at_owns_capacity_slot (ticket s n)" if "n \<in> set (sd_queues s source)" for n
    using core_invD(2) [OF inv that] core_invD(3) [OF inv]
    by (auto simp: queued_ok_def ticket_ok_def ticket_def)
  then show ?thesis by (simp add: queued_slots_def filter_True)
qed

lemma depth_live:
  "core_inv s \<Longrightarrow> source_outstanding_depth s source = live s source"
  "core_inv s \<Longrightarrow> outstanding_depth s c = live_class s c"
  by (simp_all add: source_outstanding_depth_def outstanding_depth_def live_def live_class_def
      queued_slots_length cong: map_cong)

lemma sum_lengths_upd:
  assumes "distinct xs"
  shows "sum_list (map (\<lambda>x. int (length ((q(a := ys)) x))) xs) =
    sum_list (map (\<lambda>x. int (length (q x))) xs) + (if a \<in> set xs then int (length ys) - int (length (q a)) else 0)"
  using assms by (induction xs) auto

lemma source_cycle_iff: "source \<in> set (source_cycle c) \<longleftrightarrow> source_class source = c"
  using enum_UNIV [where 'a = TelegramRpcSource] by (auto simp: source_cycle_def)

lemma source_cycle_distinct: "distinct (source_cycle c)"
  by (simp add: source_cycle_def enum_distinct)

lemma live_class_upd:
  "live_class (s\<lparr>sd_queues := (sd_queues s)(source := ys)\<rparr>) c =
     live_class s c + (if source_class source = c then int (length ys) - int (length (sd_queues s source)) else 0)"
  using sum_lengths_upd [OF source_cycle_distinct [of c], of "sd_queues s" source ys]
  by (simp add: live_class_def source_cycle_iff)

text \<open>Picking and activating a ticket moves one unit of live work and creates none.\<close>

lemma activate_picked:
  assumes inv: "core_inv s" and p: "picks cfg w s (Some n) s'"
  defines "s2 \<equiv> activate_ticket w n s'"
  shows "core_inv s2 \<and> ticket_keeps s s2 \<and> live s2 source = live s source \<and>
    live_class s2 c = live_class s c \<and> sd_next_write_at s2 = sd_next_write_at s \<and>
    sd_sequence s2 = sd_sequence s \<and> sd_closed s2 = sd_closed s \<and>
    sd_shutdown_task s2 = sd_shutdown_task s \<and>
    (\<exists>a. sd_active s2 = sd_active s @ [(n, a)] \<and> \<not> aa_dispatch_recorded a) \<and>
    (\<exists>t. sd_tickets s n = Some t \<and> at_state t = TICKET_QUEUED) \<and>
    (\<forall>source. set (sd_queues s2 source) \<subseteq> set (sd_queues s source))"
proof -
  note I = core_invD [OF inv]
  from p obtain src where n: "n \<in> set (sd_queues s src)"
    and q: "sd_queues s' = (sd_queues s)(src := remove1 n (sd_queues s src))"
    and same: "sd_tickets s' = sd_tickets s" "sd_active s' = sd_active s"
      "sd_active_counts s' = sd_active_counts s" "sd_active_source_counts s' = sd_active_source_counts s"
      "sd_sequence s' = sd_sequence s" "sd_next_write_at s' = sd_next_write_at s"
      "sd_closed s' = sd_closed s" "sd_shutdown_task s' = sd_shutdown_task s"
    by (auto simp: picks_def)
  from I(2) [OF n] obtain t where t: "sd_tickets s n = Some t" "at_state t = TICKET_QUEUED"
    "sc_source (at_scope t) = src" by (auto simp: queued_ok_def)
  from I(3) [OF t(1)] have tok: "at_sequence t = n" "n \<le> sd_sequence s" "at_owns_capacity_slot t"
    "sc_service_class (at_scope t) = source_class src" by (simp_all add: ticket_ok_def t(3))
  have tk: "ticket s' n = t" using t same by (simp add: ticket_def)
  have fresh: "n \<notin> set (od_keys (sd_active s))"
  proof
    assume "n \<in> set (od_keys (sd_active s))"
    then obtain a where "od_get (sd_active s) n = Some a"
      by (metis od_get_None_iff not_None_eq)
    then have "active_ok s n a" by (rule I(4))
    then show False using t by (simp add: active_ok_def)
  qed
  let ?a = "\<lparr>aa_scope = at_scope t, aa_owner_task = at_owner_task t, aa_owns_capacity_slot = True,
    aa_dispatch_recorded = False\<rparr>"
  let ?d = "cancel_timer (t\<lparr>at_state := TICKET_DISPATCHED\<rparr>)"
  let ?t = "settle_future (Future_Result (admission_of w ?d)) ?d"
  have d: "at_scope ?d = at_scope t" "at_sequence ?d = n" "at_owns_capacity_slot ?d"
    "at_owner_task ?d = at_owner_task t" "at_state ?d = TICKET_DISPATCHED"
    using tok by (simp_all add: cancel_timer_def)
  have tt: "at_scope ?t = at_scope t" "at_sequence ?t = n" "at_owns_capacity_slot ?t"
    "at_state ?t = TICKET_DISPATCHED"
    "at_future t \<noteq> Future_Pending \<longrightarrow> at_future ?t = at_future t"
    using tok by (simp_all add: cancel_timer_def settle_future_def)
  have s2: "sd_tickets s2 = (sd_tickets s)(n \<mapsto> ?t)" "sd_queues s2 = sd_queues s'"
    "sd_active s2 = sd_active s @ [(n, ?a)]"
    "sd_active_counts s2 = (sd_active_counts s)(source_class src := sd_active_counts s (source_class src) + 1)"
    "sd_active_source_counts s2 = (sd_active_source_counts s)(src := sd_active_source_counts s src + 1)"
    "sd_sequence s2 = sd_sequence s" "sd_next_write_at s2 = sd_next_write_at s"
    "sd_closed s2 = sd_closed s" "sd_shutdown_task s2 = sd_shutdown_task s"
    unfolding s2_def activate_ticket_def Let_def
    by (simp_all add: tk d same od_put_new [OF fresh] t(3) tok(4))
  have of: "actives_of P s2 = actives_of P s + (if P (at_scope t) then 1 else 0)" for P
    by (simp add: actives_of_def s2)
  have sub: "set (sd_queues s2 x) \<subseteq> set (sd_queues s x)" for x
    using set_remove1_subset [of n "sd_queues s src"] by (simp add: s2 q)
  have notin: "n \<notin> set (sd_queues s2 x)" for x
  proof
    assume "n \<in> set (sd_queues s2 x)"
    then have x: "n \<in> set (sd_queues s x)" using sub by blast
    then have "x = src" using I(2) [OF x] t by (simp add: queued_ok_def)
    with \<open>n \<in> set (sd_queues s2 x)\<close> show False using I(1) [of src] by (simp add: s2 q)
  qed
  have len: "int (length (remove1 n (sd_queues s src))) = int (length (sd_queues s src)) - 1"
    using n length_pos_if_in_set [OF n] by (simp only: length_remove1 if_True)
  have "core_inv s2"
    unfolding core_inv_def
  proof (intro conjI allI ballI)
    fix x
    show "distinct (sd_queues s2 x)" using I(1) by (simp add: s2 q distinct_remove1)
  next
    fix x m
    assume m: "m \<in> set (sd_queues s2 x)"
    then have "m \<noteq> n" using notin by blast
    moreover have "queued_ok s x m" using m sub I(2) by blast
    ultimately show "queued_ok s2 x m" by (simp add: queued_ok_def s2)
  next
    fix m u
    show "sd_tickets s2 m = Some u \<longrightarrow> ticket_ok s2 m u"
      using I(3) [of m u] tt tok t(3) by (auto simp: ticket_ok_def s2)
  next
    fix p
    assume p_in: "p \<in> set (sd_active s2)"
    obtain m a where p: "p = (m, a)" by (cases p)
    show "case p of (m, a) \<Rightarrow> active_ok s2 m a"
    proof (cases "(m, a) \<in> set (sd_active s)")
      case True
      then have a: "active_ok s m a" using inv by (auto simp: core_inv_def)
      then have "m \<noteq> n" using t by (auto simp: active_ok_def)
      with a show ?thesis by (simp add: p active_ok_def s2)
    next
      case False
      then show ?thesis using p_in p tt by (simp add: active_ok_def s2)
    qed
  next
    show "distinct (od_keys (sd_active s2))" using I(5) fresh by (simp add: s2 od_keys_def)
  qed (use t(3) tok(4) in \<open>auto simp: s2 of I(6,7) core_invD(6,7) [OF inv]\<close>)
  moreover have "ticket_keeps s s2" using t tt by (auto simp: ticket_keeps_def s2)
  moreover have "live s2 source = live s source" by (simp add: live_def s2 q len)
  moreover have "live_class s2 c = live_class s c"
    using live_class_upd [of s src "remove1 n (sd_queues s src)" c] len
    by (auto simp: live_class_def s2 q)
  ultimately show ?thesis using s2 t sub by auto
qed

end
