(* ===== verification/Rpc_Scheduler_Props.thy ===== *)
theory Rpc_Scheduler_Props
  imports Rpc_Scheduler_Inv
begin

text \<open>
  Every operation of the admission scheduler against the invariant, and the properties of
  its runs: bounded outstanding work, write spacing, one write per admission, final ticket
  states, work conservation and a terminal shutdown.
\<close>

section \<open>Shutdown\<close>

lemma retire_notin:
  assumes inv: "core_inv s" and t: "sd_tickets s n = Some t"
  shows "n \<notin> set (sd_queues (remove_ticket n s) (sc_source (at_scope t)))"
  using core_invD(1) [OF inv] t by (simp add: remove_ticket_queues ticket_def)

lemma close_ticket_shrinks:
  assumes inv: "core_inv s" and n: "sd_tickets s n \<noteq> None"
  shows "shrinks s (close_ticket w reason n s)"
proof -
  obtain t where t: "sd_tickets s n = Some t" using n by blast
  then have tk: "ticket s n = t" by (simp add: ticket_def)
  show ?thesis
  proof (cases "at_state t = TICKET_QUEUED")
    case True
    have "retiring (\<lambda>t. settle_future (Future_Error (Admission_Closed reason))
        (cancel_timer (t\<lparr>at_state := TICKET_CLOSED\<rparr>)))"
      by (simp add: retiring_def settle_future_def cancel_timer_def)
    from retire_shrinks [OF inv t True this] show ?thesis
      by (simp add: close_ticket_def Let_def tk True shrinks_emit)
  next
    case False
    have "n \<notin> set (sd_queues s source)" for source
      using core_invD(2) [OF inv, of n source] t False by (auto simp: queued_ok_def)
    then have "remove_ticket n s = s" by (simp add: remove_ticket_def Let_def)
    with False show ?thesis using inv by (simp add: close_ticket_def Let_def tk shrinks_refl)
  qed
qed

lemma close_ticket_notin:
  assumes inv: "core_inv s" and n: "sd_tickets s n \<noteq> None"
  shows "n \<notin> set (sd_queues (close_ticket w reason n s) source)"
proof
  assume "n \<in> set (sd_queues (close_ticket w reason n s) source)"
  then have in_removed: "n \<in> set (sd_queues (remove_ticket n s) source)"
    by (simp add: close_ticket_def Let_def split: if_splits)
  obtain t where t: "sd_tickets s n = Some t" using n by blast
  have "n \<in> set (sd_queues s source)"
    using in_removed set_remove1_subset by (fastforce simp: remove_ticket_queues split: if_splits)
  then have "queued_ok s source n" by (rule core_invD(2) [OF inv])
  then have "source = sc_source (at_scope t)" using t by (simp add: queued_ok_def)
  with in_removed show False using retire_notin [OF inv t] by simp
qed

lemma close_queue:
  assumes "core_inv s" and "\<And>n. n \<in> set ns \<Longrightarrow> sd_tickets s n \<noteq> None"
  shows "shrinks s (fold (close_ticket w reason) ns s) \<and>
    (\<forall>n \<in> set ns. \<forall>source. n \<notin> set (sd_queues (fold (close_ticket w reason) ns s) source))"
  using assms
proof (induction ns arbitrary: s)
  case Nil
  then show ?case by (simp add: shrinks_refl)
next
  case (Cons n ns)
  let ?s = "close_ticket w reason n s"
  have first: "shrinks s ?s" using Cons.prems by (simp add: close_ticket_shrinks)
  have rest: "shrinks ?s (fold (close_ticket w reason) ns ?s) \<and>
    (\<forall>n \<in> set ns. \<forall>source. n \<notin> set (sd_queues (fold (close_ticket w reason) ns ?s) source))"
    using Cons.IH [OF shrinks_inv [OF first]] Cons.prems(2) shrinks_ticket [OF first] by simp
  then have "\<forall>source. set (sd_queues (fold (close_ticket w reason) ns ?s) source) \<subseteq> set (sd_queues ?s source)"
    by (simp add: shrinks_def)
  moreover have "n \<notin> set (sd_queues ?s source)" for source
    using Cons.prems by (simp add: close_ticket_notin)
  ultimately show ?case using first rest by (auto intro: shrinks_trans)
qed

lemma close_queues:
  assumes "core_inv s"
  shows "shrinks s (fold (\<lambda>source s. fold (close_ticket w reason) (sd_queues s source) s) sources s) \<and>
    (\<forall>source \<in> set sources.
       sd_queues (fold (\<lambda>source s. fold (close_ticket w reason) (sd_queues s source) s) sources s) source = [])"
  using assms
proof (induction sources arbitrary: s)
  case Nil
  then show ?case by (simp add: shrinks_refl)
next
  case (Cons src sources)
  let ?close = "\<lambda>source s. fold (close_ticket w reason) (sd_queues s source) s"
  let ?s = "?close src s" and ?r = "fold ?close sources (?close src s)"
  have first: "shrinks s ?s" "\<forall>n \<in> set (sd_queues s src). n \<notin> set (sd_queues ?s src)"
    using close_queue [OF Cons.prems, of "sd_queues s src" w reason] queued_ticket [OF Cons.prems] by blast+
  then have empty: "sd_queues ?s src = []" unfolding shrinks_def by (metis (no_types, lifting) ex_in_conv set_empty subsetD)
  have rest: "shrinks ?s ?r \<and> (\<forall>source \<in> set sources. sd_queues ?r source = [])"
    using Cons.IH [OF shrinks_inv [OF first(1)]] .
  then have "set (sd_queues ?r src) \<subseteq> set (sd_queues ?s src)" by (simp add: shrinks_def)
  then have "sd_queues ?r src = []" using empty by simp
  then show ?case using first rest by (auto intro: shrinks_trans)
qed

lemma actives_of_nonneg: "0 \<le> actives_of P s"
  by (simp add: actives_of_def)

lemma drain_shutdown_shrinks:
  assumes inv: "core_inv s"
  shows "shrinks s (drain_shutdown w reason initiator s) \<and>
    (\<forall>source. sd_queues (drain_shutdown w reason initiator s) source = []) \<and>
    sd_active (drain_shutdown w reason initiator s) = []"
proof -
  define s1 where "s1 = (log_pressures (sd_pressure s) ''shutdown'' (wd_now w) s)\<lparr>sd_pressure := []\<rparr>"
  define s2 where "s2 = close_queued_tickets w reason s1"
  have s1: "shrinks s s1" by (rule shrinks_same) (simp_all add: s1_def inv)
  have s2: "shrinks s1 s2" "\<And>source. sd_queues s2 source = []"
    using close_queues [OF shrinks_inv [OF s1], of w reason Enum.enum] enum_UNIV [where 'a = TelegramRpcSource]
    by (auto simp: s2_def close_queued_tickets_def)
  have inv2: "core_inv s2" using s2(1) by (rule shrinks_inv)
  let ?r = "drain_shutdown w reason initiator s"
  have r: "sd_tickets ?r = sd_tickets s2" "sd_queues ?r = sd_queues s2" "sd_active ?r = []"
    "sd_active_counts ?r = (\<lambda>_. 0)" "sd_active_source_counts ?r = (\<lambda>_. 0)"
    "sd_sequence ?r = sd_sequence s2" "sd_next_write_at ?r = sd_next_write_at s2"
    "sd_closed ?r = sd_closed s2" "sd_shutdown_task ?r = sd_shutdown_task s2"
    by (simp_all add: drain_shutdown_def clear_active_def Let_def s1_def s2_def)
  have "core_inv ?r"
    using core_invD [OF inv2]
    by (auto simp: core_inv_def r s2(2) ticket_ok_def actives_of_def od_keys_def)
  then have "shrinks s2 ?r"
    using core_invD(6,7) [OF inv2] by (simp add: shrinks_def r ticket_keeps_def actives_of_nonneg)
  then show ?thesis using shrinks_trans [OF shrinks_trans [OF s1 s2(1)]] by (simp add: r s2(2))
qed

section \<open>Bounds of the outstanding work\<close>

definition limits :: "SchedConfig \<Rightarrow> Sched \<Rightarrow> bool" where
  "limits cfg s \<longleftrightarrow> core_inv s \<and>
     (\<forall>source. live s source \<le> SOURCE_OUTSTANDING_LIMIT (source_class source)) \<and>
     (\<forall>c. live_class s c \<le> max 0 (cf_capacity cfg c))"

lemma shrinks_live:
  assumes "shrinks s s'"
  shows "live s' source \<le> live s source" and "live_class s' c \<le> live_class s c"
proof -
  have len: "int (length (sd_queues s' x)) \<le> int (length (sd_queues s x))"
    and counts: "sd_active_source_counts s' x \<le> sd_active_source_counts s x"
    and classes: "sd_active_counts s' c \<le> sd_active_counts s c" for x
    using assms by (simp_all add: shrinks_def)
  show "live s' source \<le> live s source" using len counts by (simp add: live_def add_mono)
  have "sum_list (map (\<lambda>x. int (length (sd_queues s' x))) xs) \<le> sum_list (map (\<lambda>x. int (length (sd_queues s x))) xs)" for xs
    using len by (intro sum_list_mono)
  then show "live_class s' c \<le> live_class s c" using classes by (simp add: live_class_def add_mono)
qed

lemma limits_shrinks: "limits cfg s \<Longrightarrow> shrinks s s' \<Longrightarrow> limits cfg s'"
  using shrinks_live [of s s'] unfolding limits_def by (meson order_trans shrinks_inv)

lemma limits_inv: "limits cfg s \<Longrightarrow> core_inv s"
  by (simp add: limits_def)

text \<open>A validated scope has the class and the limit of its source.\<close>

lemma validated_scope:
  assumes "validate_scope_contract scope = Inr u"
  shows "sc_service_class scope = source_class (sc_source scope)"
    and "scope_outstanding_limit scope = SOURCE_OUTSTANDING_LIMIT (source_class (sc_source scope))"
  using assms
  by (auto simp: validate_scope_contract_def scope_outstanding_limit_def demand_contract_of
      split: option.splits)

text \<open>Enqueueing a new ticket where both bounds leave room.\<close>

definition enqueue :: "World \<Rightarrow> TelegramRpcScope \<Rightarrow> time \<Rightarrow> Sched \<Rightarrow> Sched" where
  "enqueue w scope deadline s =
     (let n = sd_sequence s + 1 in
      s\<lparr>sd_sequence := n, sd_tickets := (sd_tickets s)(n \<mapsto> new_ticket w scope deadline n),
        sd_queues := (sd_queues s)(sc_source scope := sd_queues s (sc_source scope) @ [n])\<rparr>)"

lemma fresh_sequence: "core_inv s \<Longrightarrow> sd_tickets s (sd_sequence s + 1) = None"
proof (rule ccontr)
  assume inv: "core_inv s" and "sd_tickets s (sd_sequence s + 1) \<noteq> None"
  then obtain t where "sd_tickets s (sd_sequence s + 1) = Some t" by blast
  from core_invD(3) [OF inv this] show False by (simp add: ticket_ok_def)
qed

lemma enqueue_inv:
  assumes inv: "core_inv s" and c: "sc_service_class scope = source_class (sc_source scope)"
  shows "core_inv (enqueue w scope deadline s)"
proof -
  note I = core_invD [OF inv]
  let ?n = "sd_sequence s + 1" and ?s' = "enqueue w scope deadline s"
  have fresh: "sd_tickets s ?n = None" by (rule fresh_sequence [OF inv])
  have notin: "?n \<notin> set (sd_queues s source)" for source
    using I(2) [of ?n source] fresh by (auto simp: queued_ok_def)
  have old: "m \<noteq> ?n" if "sd_tickets s m = Some t" for m t
    using that fresh by auto
  show ?thesis
    unfolding core_inv_def
  proof (intro conjI allI ballI)
    fix source
    show "distinct (sd_queues ?s' source)" using I(1) notin by (simp add: enqueue_def Let_def)
  next
    fix source m
    assume m: "m \<in> set (sd_queues ?s' source)"
    show "queued_ok ?s' source m"
    proof (cases "m = ?n")
      case True
      with m notin [of source] have "source = sc_source scope"
        by (simp add: enqueue_def Let_def split: if_splits)
      then show ?thesis by (simp add: True queued_ok_def enqueue_def Let_def new_ticket_def)
    next
      case False
      with m have "m \<in> set (sd_queues s source)" by (simp add: enqueue_def Let_def split: if_splits)
      then show ?thesis using I(2) False by (simp add: queued_ok_def enqueue_def Let_def)
    qed
  next
    fix m u
    show "sd_tickets ?s' m = Some u \<longrightarrow> ticket_ok ?s' m u"
      using I(3) [of m u] c by (auto simp: ticket_ok_def enqueue_def Let_def new_ticket_def)
  next
    fix p
    assume p_in: "p \<in> set (sd_active ?s')"
    obtain m a where p: "p = (m, a)" by (cases p)
    have "active_ok s m a" using p_in inv by (auto simp: p enqueue_def Let_def core_inv_def)
    then show "case p of (m, a) \<Rightarrow> active_ok ?s' m a"
      using old [of m] by (auto simp: p active_ok_def enqueue_def Let_def)
  qed (use I in \<open>simp_all add: enqueue_def Let_def actives_of_def\<close>)
qed

lemma enqueue_live:
  "live (enqueue w scope deadline s) source = live s source + (if source = sc_source scope then 1 else 0)"
  "live_class (enqueue w scope deadline s) c =
     live_class s c + (if source_class (sc_source scope) = c then 1 else 0)"
proof -
  show "live (enqueue w scope deadline s) source = live s source + (if source = sc_source scope then 1 else 0)"
    by (simp add: live_def enqueue_def Let_def)
  have "live_class (enqueue w scope deadline s) c =
      live_class (s\<lparr>sd_queues := (sd_queues s)(sc_source scope := sd_queues s (sc_source scope) @ [sd_sequence s + 1])\<rparr>) c"
    by (simp add: live_class_def enqueue_def Let_def)
  then show "live_class (enqueue w scope deadline s) c =
     live_class s c + (if source_class (sc_source scope) = c then 1 else 0)"
    unfolding live_class_upd by simp
qed

text \<open>The shape of \<open>admit\<close>: it only shrinks, or it enqueues one ticket within both bounds.\<close>

lemma admit_cases [consumes 1, case_names refused queued]:
  assumes inv: "core_inv s0"
  obtains (refused) e where "fst (admit cfg w scope s0) = Inl e" and "shrinks s0 (snd (admit cfg w scope s0))"
  | (queued) s1 where "\<not> sd_closed s0" and "shrinks s0 s1"
      and "sc_service_class scope = source_class (sc_source scope)"
      and "live s1 (sc_source scope) < SOURCE_OUTSTANDING_LIMIT (source_class (sc_source scope))"
      and "live_class s1 (sc_service_class scope) < cf_capacity cfg (sc_service_class scope)"
      and "fst (admit cfg w scope s0) = Inr (sd_sequence s1 + 1)"
      and "shrinks (enqueue w scope (admission_deadline cfg w scope) s1) (snd (admit cfg w scope s0))"
proof (cases "validate_scope_contract scope")
  case (Inl e)
  then show ?thesis using refused [of e] inv by (simp add: admit_def shrinks_refl)
next
  case (Inr u)
  let ?s = "s0\<lparr>sd_loop := True\<rparr>" and ?d = "admission_deadline cfg w scope"
  have s: "shrinks s0 ?s" by (rule shrinks_same) (simp_all add: inv)
  let ?s1 = "prune_done ?s"
  have s1: "shrinks s0 ?s1" using s prune_done_shrinks [OF shrinks_inv [OF s]] by (rule shrinks_trans)
  have inv1: "core_inv ?s1" using s1 by (rule shrinks_inv)
  note v = validated_scope [OF Inr]
  show ?thesis
  proof (cases "?d \<le> wd_now w \<or> sd_closed s0 \<or>
      live ?s1 (sc_source scope) \<ge> SOURCE_OUTSTANDING_LIMIT (source_class (sc_source scope)) \<or>
      live_class ?s1 (sc_service_class scope) \<ge> cf_capacity cfg (sc_service_class scope)")
    case True
    then have "\<exists>e. fst (admit cfg w scope s0) = Inl e"
      using Inr by (auto simp: admit_def Let_def v depth_live [OF inv1])
    moreover have "shrinks s0 (snd (admit cfg w scope s0))"
      using True Inr s s1 by (auto simp: admit_def Let_def v depth_live [OF inv1] intro: shrinks_emit)
    ultimately show ?thesis using refused by blast
  next
    case False
    let ?q = "enqueue w scope ?d ?s1"
    have q: "core_inv ?q" using enqueue_inv [OF inv1 v(1)] .
    have "admit cfg w scope s0 =
        (Inr (sd_sequence ?s1 + 1), ensure_dispatcher cfg w (emit_for_scope w ADM_QUEUED scope None None None ?q))"
      using False Inr by (simp add: admit_def Let_def v depth_live [OF inv1] enqueue_def)
    moreover have "shrinks ?q (ensure_dispatcher cfg w (emit_for_scope w ADM_QUEUED scope None None None ?q))"
      using shrinks_emit [OF shrinks_refl [OF q]] ensure_dispatcher_shrinks shrinks_inv shrinks_trans by blast
    ultimately show ?thesis using False s1 v queued [of ?s1] by simp
  qed
qed

lemma admit_limits:
  assumes "limits cfg s"
  shows "limits cfg (snd (admit cfg w scope s))"
  using limits_inv [OF assms]
proof (cases rule: admit_cases [where cfg = cfg and w = w and scope = scope])
  case (refused e)
  then show ?thesis using assms limits_shrinks by blast
next
  case (queued s1)
  let ?q = "enqueue w scope (admission_deadline cfg w scope) s1"
  have s1: "limits cfg s1" using assms queued(2) by (rule limits_shrinks)
  have "limits cfg ?q"
    unfolding limits_def
  proof (intro conjI allI)
    show "core_inv ?q" using enqueue_inv [OF limits_inv [OF s1] queued(3)] .
    show "live ?q source \<le> SOURCE_OUTSTANDING_LIMIT (source_class source)" for source
      using s1 queued(4) by (auto simp: enqueue_live limits_def)
    show "live_class ?q c \<le> max 0 (cf_capacity cfg c)" for c
    proof -
      have "live_class s1 c \<le> max 0 (cf_capacity cfg c)" using s1 by (simp add: limits_def)
      then show ?thesis using queued(3,5) by (auto simp: enqueue_live)
    qed
  qed
  then show ?thesis using queued(7) by (rule limits_shrinks)
qed

section \<open>Dispatch and physical writes\<close>

lemma dispatch_cases [consumes 1, case_names nothing activated]:
  assumes "core_inv s"
  obtains (nothing) "shrinks s (dispatch_one_ready_ticket cfg w s)"
  | (activated) s1 n s2 where "shrinks s s1" and "\<not> sd_closed s1" and "picks cfg w s1 (Some n) s2"
      and "dispatch_one_ready_ticket cfg w s = activate_ticket w n s2"
proof -
  define s1 where "s1 = snd (expire_due_tickets w (prune_done (defer_held_tickets w s)))"
  have d: "shrinks s (defer_held_tickets w s)" using assms by (rule defer_held_shrinks)
  then have p: "shrinks s (prune_done (defer_held_tickets w s))"
    using prune_done_shrinks shrinks_inv shrinks_trans by blast
  then have s1: "shrinks s s1"
    using expire_due_shrinks shrinks_inv shrinks_trans unfolding s1_def by blast
  have inv1: "core_inv s1" using s1 by (rule shrinks_inv)
  obtain r s2 where sel: "select_ticket cfg w s1 = (r, s2)" by fastforce
  have picks: "picks cfg w s1 r s2"
    using select_class_ticket_picks [OF inv1, of cfg w "length (cf_fair_cycle cfg)"] sel
    by (simp add: select_ticket_def)
  show ?thesis
  proof (cases "sd_closed s1 \<or> \<not> wd_ready w")
    case True
    then have eq: "dispatch_one_ready_ticket cfg w s = s1"
      by (simp add: dispatch_one_ready_ticket_def s1_def [symmetric] Let_def)
    show ?thesis by (rule that(1)) (simp only: eq s1)
  next
    case False
    then have eq: "dispatch_one_ready_ticket cfg w s =
        (case r of None \<Rightarrow> s2 | Some n \<Rightarrow> activate_ticket w n s2)"
      by (simp add: dispatch_one_ready_ticket_def s1_def [symmetric] sel Let_def split: option.split)
    show ?thesis
    proof (cases r)
      case None
      have "shrinks s1 s2" using picks by (intro shrinks_same [OF inv1]) (simp_all add: picks_def None)
      then have "shrinks s s2" by (rule shrinks_trans [OF s1])
      then show ?thesis by (intro that(1)) (simp add: eq None)
    next
      case (Some n)
      then show ?thesis using s1 False picks eq by (intro that(2) [of s1 n s2]) simp_all
    qed
  qed
qed

lemma dispatch_limits:
  assumes "limits cfg s"
  shows "limits cfg (dispatch_one_ready_ticket cfg w s)"
  using limits_inv [OF assms]
proof (cases rule: dispatch_cases [where cfg = cfg and w = w])
  case nothing
  with assms show ?thesis by (rule limits_shrinks)
next
  case (activated s1 n s2)
  have l1: "limits cfg s1" using assms activated(1) by (rule limits_shrinks)
  then show ?thesis
    using activate_picked [OF limits_inv [OF l1] activated(3)] unfolding activated(4) limits_def by simp
qed

lemma acquire_shrinks:
  assumes "core_inv s"
  shows "shrinks s (snd (acquire_dispatch_capacity cfg w s))"
proof -
  define s1 where "s1 = snd (expire_due_tickets w (prune_done s))"
  have s1: "shrinks s s1"
    using assms prune_done_shrinks expire_due_shrinks shrinks_inv shrinks_trans unfolding s1_def by blast
  have leave: "shrinks s1 (leave_dispatch_loop cfg w s1)"
  proof -
    have d: "shrinks s1 (s1\<lparr>sd_dispatcher := False\<rparr>)"
      by (rule shrinks_same) (simp_all add: shrinks_inv [OF s1])
    then have "shrinks s1 (ensure_dispatcher cfg w (s1\<lparr>sd_dispatcher := False\<rparr>))"
      using ensure_dispatcher_shrinks shrinks_inv shrinks_trans by blast
    with d show ?thesis by (simp add: leave_dispatch_loop_def Let_def)
  qed
  show ?thesis
    using s1 shrinks_trans [OF s1 leave]
    by (simp add: acquire_dispatch_capacity_def s1_def [symmetric] Let_def)
qed

lemma limiter_failed_shrinks:
  assumes "core_inv s"
  shows "shrinks s (leave_dispatch_loop cfg w (start_shutdown s))"
proof -
  have a: "shrinks s (start_shutdown s)"
    by (rule shrinks_same) (simp_all add: start_shutdown_def assms)
  have d: "shrinks (start_shutdown s) ((start_shutdown s)\<lparr>sd_dispatcher := False\<rparr>)"
    by (rule shrinks_same) (simp_all add: shrinks_inv [OF a])
  have "shrinks (start_shutdown s) (ensure_dispatcher cfg w ((start_shutdown s)\<lparr>sd_dispatcher := False\<rparr>))"
    using d ensure_dispatcher_shrinks shrinks_inv shrinks_trans by blast
  then show ?thesis using shrinks_trans [OF a] d by (simp add: leave_dispatch_loop_def Let_def)
qed

text \<open>A physical write: either nothing changes, or the attempt is marked and the next write is pushed out.\<close>

definition recorded :: "World \<Rightarrow> SchedConfig \<Rightarrow> RpcAdmission \<Rightarrow> Sched \<Rightarrow> Sched \<Rightarrow> bool" where
  "recorded w cfg ad s s' \<longleftrightarrow>
     (\<exists>a. od_get (sd_active s) (ad_sequence ad) = Some a \<and> \<not> aa_dispatch_recorded a \<and>
        \<not> sd_closed s \<and> wd_ready w \<and> sd_next_write_at s \<le> wd_now w \<and>
        wd_release_at w (aa_scope a) \<le> At (wd_now w) \<and>
        sc_request_method (aa_scope a) = ad_request_method ad \<and>
        sd_active s' = od_put (ad_sequence ad) (a\<lparr>aa_dispatch_recorded := True\<rparr>) (sd_active s) \<and>
        sd_next_write_at s' = wd_now w + cf_minimum_spacing_seconds cfg \<and>
        sd_tickets s' = sd_tickets s \<and> sd_queues s' = sd_queues s \<and>
        sd_active_counts s' = sd_active_counts s \<and>
        sd_active_source_counts s' = sd_active_source_counts s \<and>
        sd_sequence s' = sd_sequence s \<and> sd_closed s' = sd_closed s \<and>
        sd_shutdown_task s' = sd_shutdown_task s)"

lemma record_dispatch_cases:
  "record_dispatch cfg w ad s = (False, s) \<or>
   (fst (record_dispatch cfg w ad s) \<and> recorded w cfg ad s (snd (record_dispatch cfg w ad s)))"
proof (cases "od_get (sd_active s) (ad_sequence ad)")
  case None
  then show ?thesis by (simp add: record_dispatch_def)
next
  case (Some a)
  show ?thesis
  proof (cases "aa_dispatch_recorded a \<or> sd_closed s \<or> \<not> wd_ready w \<or> sd_next_write_at s > wd_now w \<or>
      wd_release_at w (aa_scope a) > At (wd_now w) \<or> sc_request_method (aa_scope a) \<noteq> ad_request_method ad")
    case True
    then show ?thesis by (auto simp: record_dispatch_def Some Let_def)
  next
    case False
    then show ?thesis
      by (auto simp: record_dispatch_def recorded_def Some Let_def not_less split: option.split)
  qed
qed

lemma recorded_limits:
  assumes lim: "limits cfg s" and r: "recorded w cfg ad s s'"
  shows "limits cfg s'"
proof -
  have inv: "core_inv s" using lim by (rule limits_inv)
  obtain a where a: "od_get (sd_active s) (ad_sequence ad) = Some a"
    and active: "sd_active s' = od_put (ad_sequence ad) (a\<lparr>aa_dispatch_recorded := True\<rparr>) (sd_active s)"
    and same: "sd_tickets s' = sd_tickets s" "sd_queues s' = sd_queues s"
      "sd_active_counts s' = sd_active_counts s" "sd_active_source_counts s' = sd_active_source_counts s"
      "sd_sequence s' = sd_sequence s"
    using r unfolding recorded_def by blast
  have of: "actives_of P s' = actives_of P s" for P
    using count_od_put_same [OF a, of "\<lambda>a. P (aa_scope a)" "a\<lparr>aa_dispatch_recorded := True\<rparr>"]
    by (simp add: actives_of_def active)
  have keys: "distinct (od_keys (sd_active s'))"
    unfolding active by (rule od_put_distinct [OF core_invD(5) [OF inv]])
  have "active_ok s' n b" if "(n, b) \<in> set (sd_active s')" for n b
  proof -
    have "od_get (sd_active s') n = Some b" using that od_get_set [OF keys] by simp
    then show ?thesis
      using core_invD(4) [OF inv, of n b] core_invD(4) [OF inv a]
      by (auto simp: active active_ok_def same split: if_splits)
  qed
  then have "core_inv s'"
    using inv keys unfolding core_inv_def by (simp add: same of queued_ok_def ticket_ok_def) blast
  then show ?thesis using lim by (simp add: limits_def live_def live_class_def same)
qed

lemma record_dispatch_limits: "limits cfg s \<Longrightarrow> limits cfg (snd (record_dispatch cfg w ad s))"
  using record_dispatch_cases [of cfg w ad s] recorded_limits by fastforce

section \<open>Runs\<close>

text \<open>Operations other than admission, dispatch and writes only shrink.\<close>

fun grows :: "sched_op \<Rightarrow> bool" where
  "grows (Admit w scope) = True"
| "grows (Dispatch_One w) = True"
| "grows (Record_Dispatch w ad) = True"
| "grows _ = False"

lemma sched_step_shrinks:
  assumes inv: "core_inv s" and op: "\<not> grows op"
  shows "shrinks s (sched_step cfg op s)"
proof (cases op)
  case (Timer_Expires w n)
  then show ?thesis using inv by (auto intro: expire_ticket_shrinks shrinks_refl)
next
  case (Release_Timer w)
  have "shrinks s (s\<lparr>sd_release_handle := None\<rparr>)" by (rule shrinks_same) (simp_all add: inv)
  then have "shrinks s (ensure_dispatcher cfg w (s\<lparr>sd_release_handle := None\<rparr>))"
    using ensure_dispatcher_shrinks shrinks_inv shrinks_trans by blast
  then show ?thesis using Release_Timer by (simp add: release_ready_def)
next
  case (Eligibility_Changed w)
  have "shrinks s (s\<lparr>sd_release_handle := None\<rparr>)" by (rule shrinks_same) (simp_all add: inv)
  then have "shrinks s (ensure_dispatcher cfg w (s\<lparr>sd_release_handle := None\<rparr>))"
    using ensure_dispatcher_shrinks shrinks_inv shrinks_trans by blast
  then show ?thesis using Eligibility_Changed by (simp add: notify_eligibility_changed_def)
next
  case (Record_Unclassified w)
  show ?thesis unfolding Record_Unclassified sched_step.simps record_unclassified_def
    by (rule shrinks_same) (simp_all add: inv)
next
  case (Set_Observer b)
  show ?thesis unfolding Set_Observer sched_step.simps set_observer_def
    by (rule shrinks_same) (simp_all add: inv)
next
  case Start_Shutdown
  show ?thesis unfolding Start_Shutdown sched_step.simps start_shutdown_def
    by (rule shrinks_same) (simp_all add: inv)
next
  case (Drain_Shutdown w reason initiator)
  then show ?thesis using drain_shutdown_shrinks [OF inv] inv by (simp add: shrinks_refl)
qed (use op inv in \<open>auto simp: record_retry_def record_attempt_budget_exhausted_def
    record_expired_before_dispatch_def intro!: expire_due_shrinks cancel_waiter_shrinks
    cancel_ticket_shrinks acquire_shrinks limiter_failed_shrinks complete_shrinks shrinks_emit
    shrinks_refl\<close>)

lemma sched_step_limits:
  assumes "limits cfg s"
  shows "limits cfg (sched_step cfg op s)"
proof (cases "grows op")
  case True
  then show ?thesis
    using assms by (cases op) (simp_all add: admit_limits dispatch_limits record_dispatch_limits)
next
  case False
  then show ?thesis
    using sched_step_shrinks [OF limits_inv [OF assms]] assms limits_shrinks by blast
qed

lemma limits_new: "limits cfg new_scheduler"
proof -
  have "(0 :: int) \<le> SOURCE_OUTSTANDING_LIMIT c" for c by (cases c) simp_all
  then show ?thesis
    by (simp add: limits_def core_inv_new live_def live_class_def)
      (simp add: new_scheduler_def sum_list_0)
qed

interpretation sched_class_bound: bounded_system "sched_step cfg" "limits cfg"
    "\<lambda>s. nat (outstanding_depth s c)" "nat (cf_capacity cfg c)" for cfg c
proof
  show "limits cfg (sched_step cfg e s)" if "limits cfg s" for e s
    using that by (rule sched_step_limits)
  show "nat (outstanding_depth s c) \<le> nat (cf_capacity cfg c)" if "limits cfg s" for s
  proof -
    have "live_class s c \<le> max 0 (cf_capacity cfg c)" using that unfolding limits_def by blast
    then show ?thesis by (simp add: depth_live [OF limits_inv [OF that]] max_def split: if_splits)
  qed
qed

interpretation sched_source_bound: bounded_system "sched_step cfg" "limits cfg"
    "\<lambda>s. nat (source_outstanding_depth s source)" "nat (SOURCE_OUTSTANDING_LIMIT (source_class source))"
    for cfg source
proof
  show "nat (source_outstanding_depth s source) \<le> nat (SOURCE_OUTSTANDING_LIMIT (source_class source))"
    if "limits cfg s" for s
  proof -
    have "live s source \<le> SOURCE_OUTSTANDING_LIMIT (source_class source)"
      using that unfolding limits_def by blast
    then show ?thesis by (simp add: depth_live [OF limits_inv [OF that]])
  qed
qed

text \<open>
  C16. Outstanding work is bounded and exactly accounted. After any interleaving of
  admissions, dispatches, writes, completions, cancellations, expiries, deferrals and
  shutdown, the queued plus active work of a service class never exceeds its capacity nor
  that of a source its registered limit, and both counters equal the number of tickets
  that are really queued plus the attempts that are really active: no slot leaks and none
  is released twice.
\<close>

theorem scheduler_bounded:
  "let s = run_ops (sched_step cfg) ops new_scheduler in
     outstanding_depth s c \<le> max 0 (cf_capacity cfg c) \<and>
     source_outstanding_depth s source \<le> SOURCE_OUTSTANDING_LIMIT (source_class source) \<and>
     outstanding_depth s c =
       sum_list (map (\<lambda>source. int (length (sd_queues s source))) (source_cycle c)) +
       int (length (filter (\<lambda>(n, a). sc_service_class (aa_scope a) = c) (sd_active s))) \<and>
     source_outstanding_depth s source =
       int (length (sd_queues s source)) +
       int (length (filter (\<lambda>(n, a). sc_source (aa_scope a) = source) (sd_active s)))"
proof -
  let ?s = "run_ops (sched_step cfg) ops new_scheduler"
  have lim: "limits cfg ?s" by (rule sched_class_bound.run_invar [OF limits_new])
  then have inv: "core_inv ?s" by (rule limits_inv)
  show ?thesis
    using lim core_invD(6,7) [OF inv]
    by (simp add: Let_def depth_live [OF inv] limits_def live_def live_class_def actives_of_def)
qed

section \<open>Writes\<close>

text \<open>The physical writes of a run: when, and for which admission.\<close>

fun writes :: "SchedConfig \<Rightarrow> sched_op list \<Rightarrow> Sched \<Rightarrow> (time \<times> nat) list" where
  "writes cfg [] s = []"
| "writes cfg (op # ops) s =
     (case op of
        Record_Dispatch w ad \<Rightarrow>
          (if fst (record_dispatch cfg w ad s) then [(wd_now w, ad_sequence ad)] else [])
      | _ \<Rightarrow> []) @ writes cfg ops (sched_step cfg op s)"

lemma admit_next_write:
  assumes "core_inv s"
  shows "sd_next_write_at (snd (admit cfg w scope s)) = sd_next_write_at s"
  using assms
proof (cases rule: admit_cases [where cfg = cfg and w = w and scope = scope])
  case (refused e)
  then show ?thesis by (simp add: shrinks_def)
next
  case (queued s1)
  then show ?thesis by (simp add: shrinks_def enqueue_def Let_def)
qed

lemma dispatch_next_write:
  assumes "core_inv s"
  shows "sd_next_write_at (dispatch_one_ready_ticket cfg w s) = sd_next_write_at s"
  using assms
proof (cases rule: dispatch_cases [where cfg = cfg and w = w])
  case nothing
  then show ?thesis by (simp add: shrinks_def)
next
  case (activated s1 n s2)
  then show ?thesis
    using activate_picked [OF shrinks_inv [OF activated(1)] activated(3)] by (simp add: shrinks_def)
qed

lemma sched_step_next_write:
  assumes "core_inv s" and "\<And>w ad. op = Record_Dispatch w ad \<Longrightarrow> \<not> fst (record_dispatch cfg w ad s)"
  shows "sd_next_write_at (sched_step cfg op s) = sd_next_write_at s"
proof (cases "grows op")
  case True
  then show ?thesis
    using assms record_dispatch_cases [of cfg _ _ s]
    by (cases op) (auto simp: admit_next_write dispatch_next_write, metis snd_conv)
next
  case False
  then show ?thesis using sched_step_shrinks [OF assms(1)] by (simp add: shrinks_def)
qed

lemma writes_spaced:
  assumes "limits cfg s" and "0 \<le> cf_minimum_spacing_seconds cfg"
  shows "(\<forall>t \<in> set (map fst (writes cfg ops s)). sd_next_write_at s \<le> t) \<and>
    sorted_wrt (\<lambda>a b. a + cf_minimum_spacing_seconds cfg \<le> b) (map fst (writes cfg ops s))"
  using assms(1)
proof (induction ops arbitrary: s)
  case Nil
  then show ?case by simp
next
  case (Cons op ops)
  let ?s' = "sched_step cfg op s"
  note IH = Cons.IH [OF sched_step_limits [OF Cons.prems, of op]]
  show ?case
  proof (cases "\<exists>w ad. op = Record_Dispatch w ad \<and> fst (record_dispatch cfg w ad s)")
    case True
    then obtain w ad where op: "op = Record_Dispatch w ad" "fst (record_dispatch cfg w ad s)" by blast
    then have "recorded w cfg ad s ?s'"
      using record_dispatch_cases [of cfg w ad s] by auto
    then have "sd_next_write_at s \<le> wd_now w"
      "sd_next_write_at ?s' = wd_now w + cf_minimum_spacing_seconds cfg"
      by (auto simp: recorded_def)
    then show ?thesis using IH op assms(2) by fastforce
  next
    case False
    then have "writes cfg (op # ops) s = writes cfg ops ?s'" by (auto split: sched_op.split)
    moreover have "sd_next_write_at ?s' = sd_next_write_at s"
      using False by (intro sched_step_next_write [OF limits_inv [OF Cons.prems]]) blast
    ultimately show ?thesis using IH by simp
  qed
qed

text \<open>
  C22. Physical writes are spaced. In every run, whatever the clocks of its steps do, any two
  writes the scheduler allows are at least the minimum spacing apart, in the order they
  were allowed: no burst credit accumulates while the transport is idle or held.
\<close>

theorem writes_keep_spacing:
  assumes "0 \<le> cf_minimum_spacing_seconds cfg"
  shows "sorted_wrt (\<lambda>a b. a + cf_minimum_spacing_seconds cfg \<le> b)
    (map fst (writes cfg ops new_scheduler))"
  using writes_spaced [OF limits_new assms] by blast

text \<open>An admission is spent when its ticket has left the queue and no unwritten attempt holds it.\<close>

definition spent :: "Sched \<Rightarrow> nat \<Rightarrow> bool" where
  "spent s n \<longleftrightarrow> (\<exists>t. sd_tickets s n = Some t \<and> at_state t \<noteq> TICKET_QUEUED) \<and>
     (\<forall>a. od_get (sd_active s) n = Some a \<longrightarrow> aa_dispatch_recorded a)"

lemma spent_shrinks:
  assumes "shrinks s s'" and "spent s n"
  shows "spent s' n"
proof -
  obtain t where t: "sd_tickets s n = Some t" "at_state t \<noteq> TICKET_QUEUED"
    using assms(2) by (auto simp: spent_def)
  have "ticket_keeps s s'" using assms(1) by (simp add: shrinks_def)
  with t obtain t' where "sd_tickets s' n = Some t'" "at_state t' = at_state t"
    unfolding ticket_keeps_def by blast
  moreover have "\<forall>a. od_get (sd_active s') n = Some a \<longrightarrow> od_get (sd_active s) n = Some a"
    using assms(1) by (simp add: shrinks_def)
  ultimately show ?thesis using t assms(2) unfolding spent_def by metis
qed

lemma od_get_snoc: "n \<noteq> m \<Longrightarrow> od_get (d @ [(m, a)]) n = od_get d n"
  by (induction d) auto

lemma ticket_keeps_enqueue: "core_inv s \<Longrightarrow> ticket_keeps s (enqueue w scope deadline s)"
  using fresh_sequence [of s] by (auto simp: ticket_keeps_def enqueue_def Let_def)

lemma spent_step:
  assumes lim: "limits cfg s" and n: "spent s n"
  shows "spent (sched_step cfg op s) n"
proof (cases "grows op")
  case False
  then show ?thesis using sched_step_shrinks [OF limits_inv [OF lim]] n spent_shrinks by blast
next
  case True
  then consider (admit) w scope where "op = Admit w scope" | (dispatch) w where "op = Dispatch_One w"
    | (wrote) w ad where "op = Record_Dispatch w ad"
    by (cases op) auto
  then show ?thesis
  proof cases
    case admit
    from limits_inv [OF lim] show ?thesis
    proof (cases rule: admit_cases [where cfg = cfg and w = w and scope = scope])
      case (refused e)
      then show ?thesis using n admit spent_shrinks by simp
    next
      case (queued s1)
      have "spent s1 n" using queued(2) n by (rule spent_shrinks)
      then have "spent (enqueue w scope (admission_deadline cfg w scope) s1) n"
        using fresh_sequence [OF shrinks_inv [OF queued(2)]] by (auto simp: spent_def enqueue_def Let_def)
      then show ?thesis using spent_shrinks queued(7) admit by simp
    qed
  next
    case dispatch
    from limits_inv [OF lim] show ?thesis
    proof (cases rule: dispatch_cases [where cfg = cfg and w = w])
      case nothing
      then show ?thesis using n dispatch spent_shrinks by simp
    next
      case (activated s1 m s2)
      have n1: "spent s1 n" using activated(1) n by (rule spent_shrinks)
      note act = activate_picked [OF shrinks_inv [OF activated(1)] activated(3)]
      then have keeps: "ticket_keeps s1 (activate_ticket w m s2)"
        and m: "\<exists>t. sd_tickets s1 m = Some t \<and> at_state t = TICKET_QUEUED"
        and active: "\<exists>a. sd_active (activate_ticket w m s2) = sd_active s1 @ [(m, a)]"
        by blast+
      obtain t where t: "sd_tickets s1 n = Some t" "at_state t \<noteq> TICKET_QUEUED"
        using n1 by (auto simp: spent_def)
      with m have "n \<noteq> m" by auto
      moreover obtain t' where "sd_tickets (activate_ticket w m s2) n = Some t'" "at_state t' = at_state t"
        using keeps t unfolding ticket_keeps_def by blast
      ultimately show ?thesis
        using active n1 t(2) dispatch activated(4) by (auto simp: spent_def od_get_snoc)
    qed
  next
    case wrote
    then show ?thesis
      using record_dispatch_cases [of cfg w ad s] n
      by (auto simp: spent_def recorded_def split: if_splits)
  qed
qed

lemma writes_spent:
  assumes "limits cfg s"
  shows "distinct (map snd (writes cfg ops s)) \<and> (\<forall>n \<in> set (map snd (writes cfg ops s)). \<not> spent s n)"
  using assms
proof (induction ops arbitrary: s)
  case Nil
  then show ?case by simp
next
  case (Cons op ops)
  let ?s' = "sched_step cfg op s"
  have IH: "distinct (map snd (writes cfg ops ?s'))"
    "\<And>n. n \<in> set (map snd (writes cfg ops ?s')) \<Longrightarrow> \<not> spent s n \<and> \<not> spent ?s' n"
    using Cons.IH [OF sched_step_limits [OF Cons.prems, of op]] spent_step [OF Cons.prems, of _ op] by blast+
  show ?case
  proof (cases "\<exists>w ad. op = Record_Dispatch w ad \<and> fst (record_dispatch cfg w ad s)")
    case True
    then obtain w ad where op: "op = Record_Dispatch w ad" "fst (record_dispatch cfg w ad s)" by blast
    let ?n = "ad_sequence ad"
    have r: "recorded w cfg ad s ?s'" using op record_dispatch_cases [of cfg w ad s] by auto
    then obtain a where a: "od_get (sd_active s) ?n = Some a" "\<not> aa_dispatch_recorded a"
      and act: "od_get (sd_active ?s') ?n = Some (a\<lparr>aa_dispatch_recorded := True\<rparr>)"
      and tickets: "sd_tickets ?s' = sd_tickets s"
      by (auto simp: recorded_def)
    have "active_ok s ?n a" using core_invD(4) [OF limits_inv [OF Cons.prems] a(1)] .
    then have "spent ?s' ?n" using act tickets by (auto simp: spent_def active_ok_def)
    moreover have "\<not> spent s ?n" using a by (auto simp: spent_def)
    ultimately show ?thesis using IH op by auto
  next
    case False
    then have "writes cfg (op # ops) s = writes cfg ops ?s'" by (auto split: sched_op.split)
    then show ?thesis using IH by auto
  qed
qed

text \<open>
  C15. One write per admission. No run ever allows two physical writes for the same
  admission: not by retrying the record, not after completion, cancellation or expiry of
  the ticket, and not through a later admission.
\<close>

theorem one_write_per_admission: "distinct (map snd (writes cfg ops new_scheduler))"
  using writes_spent [OF limits_new] by blast

definition sample_world :: "time \<Rightarrow> World" where
  "sample_world now = \<lparr>wd_now = now, wd_ready = True, wd_release_at = (\<lambda>_. At 0),
     wd_deferral = (\<lambda>_. None), wd_task = Some 1, wd_done_tasks = []\<rparr>"

definition sample_scope :: TelegramRpcScope where
  "sample_scope =
     (scope_of_token sample_token 1000 None None)\<lparr>sc_request_method := Some ''messages.getHistory''\<rparr>"

definition sample_config :: SchedConfig where
  "sample_config = policy_config sample_weights (\<lambda>_. 4) (\<lambda>_. 60) 2"

definition sample_ops :: "sched_op list" where
  "sample_ops =
     [Admit (sample_world 100) sample_scope, Admit (sample_world 101) sample_scope,
      Dispatch_One (sample_world 102), Dispatch_One (sample_world 102),
      Record_Dispatch (sample_world 103) (admission_of (sample_world 102)
        (new_ticket (sample_world 100) sample_scope 1000 1)),
      Record_Dispatch (sample_world 104) (admission_of (sample_world 102)
        (new_ticket (sample_world 101) sample_scope 1000 2)),
      Record_Dispatch (sample_world 105) (admission_of (sample_world 102)
        (new_ticket (sample_world 101) sample_scope 1000 2))]"

theorem writes_keep_spacing_witness:
  "sorted_wrt (\<lambda>a b. a + 2 \<le> b) (map fst (writes sample_config sample_ops new_scheduler))"
  using writes_keep_spacing [of sample_config sample_ops] by (simp add: sample_config_def policy_config_def)

text \<open>When a write is allowed: the spacing does not refuse a write without a reason.\<close>

lemma record_dispatch_allowed:
  "fst (record_dispatch cfg w ad s) \<longleftrightarrow>
     (\<exists>a. od_get (sd_active s) (ad_sequence ad) = Some a \<and> \<not> aa_dispatch_recorded a \<and>
        \<not> sd_closed s \<and> wd_ready w \<and> sd_next_write_at s \<le> wd_now w \<and>
        wd_release_at w (aa_scope a) \<le> At (wd_now w) \<and>
        sc_request_method (aa_scope a) = ad_request_method ad)"
  by (auto simp: record_dispatch_def Let_def not_less split: option.split)

section \<open>Ticket outcomes\<close>

lemma shrinks_keeps: "shrinks s s' \<Longrightarrow> ticket_keeps s s'"
  by (simp add: shrinks_def)

lemma ticket_keeps_step:
  assumes "limits cfg s"
  shows "ticket_keeps s (sched_step cfg op s)"
proof (cases "grows op")
  case False
  then show ?thesis using sched_step_shrinks [OF limits_inv [OF assms]] by (simp add: shrinks_def)
next
  case True
  then consider (admit) w scope where "op = Admit w scope" | (dispatch) w where "op = Dispatch_One w"
    | (wrote) w ad where "op = Record_Dispatch w ad"
    by (cases op) auto
  then show ?thesis
  proof cases
    case admit
    from limits_inv [OF assms] show ?thesis
    proof (cases rule: admit_cases [where cfg = cfg and w = w and scope = scope])
      case (refused e)
      then show ?thesis by (simp add: admit shrinks_def)
    next
      case (queued s1)
      from ticket_keeps_trans [OF ticket_keeps_trans [OF shrinks_keeps [OF queued(2)]
            ticket_keeps_enqueue [OF shrinks_inv [OF queued(2)]]] shrinks_keeps [OF queued(7)]]
      show ?thesis by (simp add: admit)
    qed
  next
    case dispatch
    from limits_inv [OF assms] show ?thesis
    proof (cases rule: dispatch_cases [where cfg = cfg and w = w])
      case nothing
      then show ?thesis by (simp add: dispatch shrinks_def)
    next
      case (activated s1 n s2)
      have "ticket_keeps s1 (activate_ticket w n s2)"
        using activate_picked [OF shrinks_inv [OF activated(1)] activated(3)] by blast
      from ticket_keeps_trans [OF shrinks_keeps [OF activated(1)] this] show ?thesis
        by (simp add: dispatch activated(4))
    qed
  next
    case wrote
    then show ?thesis
      using record_dispatch_cases [of cfg w ad s] by (auto simp: ticket_keeps_def recorded_def)
  qed
qed

lemma ticket_keeps_run: "limits cfg s \<Longrightarrow> ticket_keeps s (run_ops (sched_step cfg) ops s)"
proof (induction ops arbitrary: s)
  case Nil
  then show ?case by simp
next
  case (Cons op ops)
  then show ?case
    using ticket_keeps_step [OF Cons.prems] sched_step_limits [OF Cons.prems]
    by (auto intro: ticket_keeps_trans)
qed

text \<open>
  A caller sees one outcome. Once a ticket has left the queued state it keeps its state,
  and once its future is settled it keeps its result, under any further operations; the
  ticket itself never disappears and its scope never changes.
\<close>

theorem ticket_outcome_final:
  "case sd_tickets (run_ops (sched_step cfg) ops new_scheduler) n of
     None \<Rightarrow> True
   | Some t \<Rightarrow>
       (\<exists>t'. sd_tickets (run_ops (sched_step cfg) (ops @ later) new_scheduler) n = Some t' \<and>
          at_scope t' = at_scope t \<and>
          at_state t' = (if at_state t = TICKET_QUEUED then at_state t' else at_state t) \<and>
          at_future t' = (if at_future t = Future_Pending then at_future t' else at_future t))"
proof -
  have "ticket_keeps (run_ops (sched_step cfg) ops new_scheduler)
      (run_ops (sched_step cfg) (ops @ later) new_scheduler)"
    unfolding run_ops_append
    by (rule ticket_keeps_run [OF sched_class_bound.run_invar [OF limits_new]])
  then show ?thesis
    unfolding ticket_keeps_def
    by (cases "sd_tickets (run_ops (sched_step cfg) ops new_scheduler) n") (simp, fastforce)
qed

section \<open>Shutdown is terminal\<close>

lemma closed_shrinks:
  assumes lim: "limits cfg s" and closed: "sd_closed s"
  shows "shrinks s (sched_step cfg op s)"
proof (cases "grows op")
  case False
  then show ?thesis using sched_step_shrinks [OF limits_inv [OF lim]] by blast
next
  case True
  then consider (admit) w scope where "op = Admit w scope" | (dispatch) w where "op = Dispatch_One w"
    | (wrote) w ad where "op = Record_Dispatch w ad"
    by (cases op) auto
  then show ?thesis
  proof cases
    case admit
    from limits_inv [OF lim] show ?thesis
      by (cases rule: admit_cases [where cfg = cfg and w = w and scope = scope])
        (use closed admit in simp_all)
  next
    case dispatch
    from limits_inv [OF lim] show ?thesis
      by (cases rule: dispatch_cases [where cfg = cfg and w = w])
        (use closed dispatch in \<open>simp_all add: shrinks_def\<close>)
  next
    case wrote
    then show ?thesis
      using record_dispatch_cases [of cfg w ad s] closed shrinks_refl [OF limits_inv [OF lim]]
      by (auto simp: recorded_def)
  qed
qed

definition drained :: "SchedConfig \<Rightarrow> Sched \<Rightarrow> bool" where
  "drained cfg s \<longleftrightarrow> limits cfg s \<and> sd_closed s \<and> (\<forall>source. sd_queues s source = []) \<and> sd_active s = []"

lemma drained_step:
  assumes "drained cfg s"
  shows "drained cfg (sched_step cfg op s)"
proof -
  have lim: "limits cfg s" and closed: "sd_closed s" and empty: "\<And>source. sd_queues s source = []"
    and none: "sd_active s = []"
    using assms by (simp_all add: drained_def)
  have sh: "shrinks s (sched_step cfg op s)" using lim closed by (rule closed_shrinks)
  have "od_get (sd_active (sched_step cfg op s)) n = None" for n
    using sh none unfolding shrinks_def by (cases "od_get (sd_active (sched_step cfg op s)) n") auto
  then have "sd_active (sched_step cfg op s) = []"
    by (cases "sd_active (sched_step cfg op s)") (auto, metis option.distinct(1))
  then show ?thesis
    using sh empty closed limits_shrinks [OF lim sh] by (simp add: drained_def shrinks_def)
qed

interpretation sched_drained: op_system "sched_step cfg" "drained cfg" for cfg
  by unfold_locales (rule drained_step)

text \<open>A shutdown task exists only on a closed scheduler.\<close>

lemma shutdown_closed_step:
  assumes "sd_shutdown_task s \<longrightarrow> sd_closed s" and "limits cfg s"
  shows "sd_shutdown_task (sched_step cfg op s) \<longrightarrow> sd_closed (sched_step cfg op s)"
proof (cases "grows op")
  case False
  then show ?thesis
    using sched_step_shrinks [OF limits_inv [OF assms(2)] False, of cfg] assms(1) unfolding shrinks_def by blast
next
  case True
  then consider (admit) w scope where "op = Admit w scope" | (dispatch) w where "op = Dispatch_One w"
    | (wrote) w ad where "op = Record_Dispatch w ad"
    by (cases op) auto
  then show ?thesis
  proof cases
    case admit
    from limits_inv [OF assms(2)] show ?thesis
    proof (cases rule: admit_cases [where cfg = cfg and w = w and scope = scope])
      case (refused e)
      then show ?thesis using assms(1) by (auto simp: admit shrinks_def)
    next
      case (queued s1)
      let ?q = "enqueue w scope (admission_deadline cfg w scope) s1"
      have "sd_shutdown_task s1 \<longrightarrow> sd_closed s1" using queued(2) assms(1) unfolding shrinks_def by blast
      then have "sd_shutdown_task ?q \<longrightarrow> sd_closed ?q" by (simp add: enqueue_def Let_def)
      then show ?thesis using queued(7) unfolding admit sched_step.simps shrinks_def by blast
    qed
  next
    case dispatch
    from limits_inv [OF assms(2)] show ?thesis
    proof (cases rule: dispatch_cases [where cfg = cfg and w = w])
      case nothing
      then show ?thesis using assms(1) by (auto simp: dispatch shrinks_def)
    next
      case (activated s1 n s2)
      have "sd_shutdown_task s1 \<longrightarrow> sd_closed s1" using activated(1) assms(1) unfolding shrinks_def by blast
      then show ?thesis
        using activate_picked [OF shrinks_inv [OF activated(1)] activated(3)] activated(4)
        by (simp add: dispatch)
    qed
  next
    case wrote
    then show ?thesis using record_dispatch_cases [of cfg w ad s] assms(1) by (auto simp: recorded_def)
  qed
qed

lemma shutdown_closed_run:
  "limits cfg s \<Longrightarrow> sd_shutdown_task s \<longrightarrow> sd_closed s \<Longrightarrow>
   sd_shutdown_task (run_ops (sched_step cfg) ops s) \<longrightarrow> sd_closed (run_ops (sched_step cfg) ops s)"
  by (induction ops arbitrary: s) (simp_all add: sched_step_limits shutdown_closed_step)

text \<open>
  Shutdown is terminal. Whatever ran before, once a shutdown has started and drained,
  nothing is queued or active, no later operation queues or activates anything, no further
  physical write is allowed, and every later admission is refused.
\<close>

theorem shutdown_terminal:
  "let before = run_ops (sched_step cfg) (ops @ [Start_Shutdown, Drain_Shutdown w reason initiator]) new_scheduler;
       after = run_ops (sched_step cfg) later before
   in sd_closed after \<and> sd_queues after source = [] \<and> sd_active after = [] \<and>
      writes cfg later before = [] \<and> (\<exists>e. fst (admit cfg w' scope after) = Inl e)"
proof -
  let ?s0 = "run_ops (sched_step cfg) ops new_scheduler"
  let ?s1 = "start_shutdown ?s0"
  let ?before = "run_ops (sched_step cfg) (ops @ [Start_Shutdown, Drain_Shutdown w reason initiator]) new_scheduler"
  have lim0: "limits cfg ?s0" by (rule sched_class_bound.run_invar [OF limits_new])
  have lim1: "limits cfg ?s1" using sched_step_limits [OF lim0, of Start_Shutdown] by simp
  have inv0: "sd_shutdown_task ?s0 \<longrightarrow> sd_closed ?s0"
    by (rule shutdown_closed_run [OF limits_new]) (simp add: new_scheduler_def)
  then have closed1: "sd_closed ?s1" "sd_shutdown_task ?s1" by (simp_all add: start_shutdown_def)
  have before: "?before = drain_shutdown w reason initiator ?s1"
    using closed1 by (simp add: run_ops_append)
  note dr = drain_shutdown_shrinks [OF limits_inv [OF lim1], of w reason initiator]
  have d: "drained cfg ?before"
    unfolding before drained_def using dr closed1 limits_shrinks [OF lim1 conjunct1 [OF dr]]
    by (simp add: shrinks_def)
  have after: "drained cfg (run_ops (sched_step cfg) later ?before)" by (rule sched_drained.run_invar [OF d])
  have "writes cfg ops' s = []" if "drained cfg s" for ops' s
    using that
  proof (induction ops' arbitrary: s)
    case Nil
    then show ?case by simp
  next
    case (Cons op ops')
    have "\<not> fst (record_dispatch cfg w ad s)" for w ad
      using Cons.prems by (simp add: drained_def record_dispatch_def)
    then show ?case using Cons.IH [OF drained_step [OF Cons.prems]] by (simp split: sched_op.split)
  qed
  moreover have "\<exists>e. fst (admit cfg w' scope s) = Inl e" if "drained cfg s" for s
    using that by (auto simp: admit_def drained_def Let_def split: sum.split)
  ultimately show ?thesis using after d by (auto simp: Let_def drained_def)
qed

section \<open>Work conservation\<close>

definition indices_ok :: "SchedConfig \<Rightarrow> Sched \<Rightarrow> bool" where
  "indices_ok cfg s \<longleftrightarrow> sd_fair_index s < length (cf_fair_cycle cfg) \<and>
     (\<forall>c. sd_source_indices s c < length (source_cycle c))"

definition class_dispatchable :: "SchedConfig \<Rightarrow> World \<Rightarrow> Sched \<Rightarrow> TelegramRpcSource \<Rightarrow> bool" where
  "class_dispatchable cfg w s source = (\<exists>n \<in> set (sd_queues s source). ticket_can_dispatch cfg w s n)"

lemma find_dispatchable_None:
  "find_dispatchable cfg w s queue = None \<longleftrightarrow> (\<forall>n \<in> set queue. \<not> ticket_can_dispatch cfg w s n)"
  by (auto simp: find_dispatchable_def find_None_iff)

lemma ticket_can_dispatch_rotate [simp]:
  "ticket_can_dispatch cfg w (s\<lparr>sd_source_indices := i, sd_queues := q\<rparr>) n = ticket_can_dispatch cfg w s n"
  "ticket_can_dispatch cfg w (s\<lparr>sd_source_indices := i\<rparr>) n = ticket_can_dispatch cfg w s n"
  "ticket_can_dispatch cfg w (s\<lparr>sd_fair_index := k\<rparr>) n = ticket_can_dispatch cfg w s n"
  by (simp_all add: ticket_can_dispatch_def ticket_def)

lemma rotate_index: "((i + 1) mod m + j) mod m = (i + Suc j) mod (m :: nat)"
  by (simp add: mod_add_left_eq)

text \<open>A search of \<open>k\<close> sources finds nothing exactly when none of the next \<open>k\<close> has work.\<close>

lemma select_source_None:
  assumes "core_inv s" and "sd_source_indices s c < length (source_cycle c)"
  shows "(fst (select_source_ticket cfg w c k s) = None \<longleftrightarrow>
      (\<forall>j < k. \<not> class_dispatchable cfg w s
         (source_cycle c ! ((sd_source_indices s c + j) mod length (source_cycle c)))))"
  using assms
proof (induction k arbitrary: s)
  case 0
  then show ?case by simp
next
  case (Suc k)
  let ?m = "length (source_cycle c)" and ?i = "sd_source_indices s c"
  let ?source = "source_cycle c ! ?i"
  define s1 where "s1 = s\<lparr>sd_source_indices := (sd_source_indices s)(c := (?i + 1) mod ?m),
    sd_queues := (sd_queues s)(?source := sd_queues s ?source)\<rparr>"
  have unfold_sel: "select_source_ticket cfg w c (Suc k) s =
      (case find_dispatchable cfg w s1 (sd_queues s ?source) of
         None \<Rightarrow> select_source_ticket cfg w c k s1
       | Some n \<Rightarrow> (Some n, s1\<lparr>sd_queues := (sd_queues s1)(?source := remove1 n (sd_queues s ?source))\<rparr>))"
    by (simp only: select_source_ticket.simps Let_def queue_heads_queued [OF Suc.prems(1)] s1_def)
  have inv1: "core_inv s1"
    using picks_None_inv [OF Suc.prems(1), of cfg w s1] by (simp add: picks_def s1_def)
  have idx1: "sd_source_indices s1 c = (?i + 1) mod ?m" "sd_source_indices s1 c < ?m"
  proof -
    have "0 < ?m" using Suc.prems(2) by (rule le_less_trans [OF zero_le])
    then show "sd_source_indices s1 c = (?i + 1) mod ?m" "sd_source_indices s1 c < ?m"
      using mod_less_divisor by (simp_all add: s1_def del: add_Suc_right add_0_right)
  qed
  have same: "class_dispatchable cfg w s1 x = class_dispatchable cfg w s x" for x
    by (simp add: class_dispatchable_def s1_def)
  have head: "find_dispatchable cfg w s1 (sd_queues s ?source) = None \<longleftrightarrow> \<not> class_dispatchable cfg w s ?source"
    by (simp add: find_dispatchable_None class_dispatchable_def s1_def)
  have split: "(\<forall>j < Suc k. P j) \<longleftrightarrow> P 0 \<and> (\<forall>j < k. P (Suc j))" for P :: "nat \<Rightarrow> bool"
    by (auto simp: less_Suc_eq_0_disj)
  show ?case
  proof (cases "find_dispatchable cfg w s1 (sd_queues s ?source)")
    case None
    then show ?thesis
      using Suc.IH [OF inv1 idx1(2)] head Suc.prems(2)
      unfolding unfold_sel split same idx1(1) rotate_index by simp
  next
    case (Some n)
    then show ?thesis using head Suc.prems(2) unfolding unfold_sel split by simp
  qed
qed

lemma rotation_covers:
  assumes "i < m"
  shows "(\<forall>j < m. P (xs ! ((i + j) mod m))) \<longleftrightarrow> (\<forall>j < m. P (xs ! j))"
proof
  assume rot: "\<forall>j < m. P (xs ! ((i + j) mod m))"
  show "\<forall>j < m. P (xs ! j)"
  proof (intro allI impI)
    fix j assume j: "j < m"
    have "(i + (j + m - i) mod m) mod m = (i + (j + m - i)) mod m" by (rule mod_add_right_eq)
    also have "\<dots> = j" using assms j by simp
    finally show "P (xs ! j)" using rot assms by (metis mod_less_divisor not_less_zero gr_zeroI)
  qed
next
  assume "\<forall>j < m. P (xs ! j)"
  then show "\<forall>j < m. P (xs ! ((i + j) mod m))" using assms by simp
qed

lemma select_source_class:
  assumes "core_inv s" and "sd_source_indices s c < length (source_cycle c)"
  shows "fst (select_source_ticket cfg w c (length (source_cycle c)) s) = None \<longleftrightarrow>
    (\<forall>source. source_class source = c \<longrightarrow> \<not> class_dispatchable cfg w s source)"
  unfolding select_source_None [OF assms]
    rotation_covers [OF assms(2), of "\<lambda>x. \<not> class_dispatchable cfg w s x" "source_cycle c"]
  using source_cycle_iff [of _ c] by (metis in_set_conv_nth)

lemma select_source_indices:
  "sd_fair_index (snd (select_source_ticket cfg w c k s)) = sd_fair_index s \<and>
   (\<forall>d. sd_source_indices s d < length (source_cycle d) \<longrightarrow>
      sd_source_indices (snd (select_source_ticket cfg w c k s)) d < length (source_cycle d))"
proof (induction k arbitrary: s)
  case 0
  then show ?case by simp
next
  case (Suc k)
  define s1 where "s1 = s\<lparr>sd_source_indices := (sd_source_indices s)(c := (sd_source_indices s c + 1) mod length (source_cycle c)),
      sd_queues := (sd_queues s)(source_cycle c ! sd_source_indices s c :=
        dropWhile (\<lambda>n. at_state (ticket s n) \<noteq> TICKET_QUEUED) (sd_queues s (source_cycle c ! sd_source_indices s c)))\<rparr>"
  have s1: "sd_fair_index s1 = sd_fair_index s"
    "sd_source_indices s d < length (source_cycle d) \<Longrightarrow> sd_source_indices s1 d < length (source_cycle d)" for d
    by (auto simp: s1_def intro: mod_less_divisor)
  show ?case
    unfolding select_source_ticket.simps Let_def s1_def [symmetric]
    using Suc.IH [of s1] s1 by (auto split: option.split)
qed

lemma select_class_None:
  assumes "core_inv s" and "indices_ok cfg s"
  shows "(fst (select_class_ticket cfg w k s) = None \<longleftrightarrow>
      (\<forall>j < k. \<forall>source. source_class source =
         cf_fair_cycle cfg ! ((sd_fair_index s + j) mod length (cf_fair_cycle cfg)) \<longrightarrow>
         \<not> class_dispatchable cfg w s source)) \<and>
    indices_ok cfg (snd (select_class_ticket cfg w k s))"
  using assms
proof (induction k arbitrary: s)
  case 0
  then show ?case by simp
next
  case (Suc k)
  let ?m = "length (cf_fair_cycle cfg)" and ?i = "sd_fair_index s"
  let ?c = "cf_fair_cycle cfg ! ?i"
  define s1 where "s1 = s\<lparr>sd_fair_index := (?i + 1) mod ?m\<rparr>"
  have m: "?i < ?m" "0 < ?m" using Suc.prems(2) by (auto simp: indices_ok_def)
  have p1: "picks cfg w s None s1" by (simp add: picks_def s1_def)
  then have inv1: "core_inv s1" by (rule picks_None_inv [OF Suc.prems(1)])
  have ok1: "indices_ok cfg s1" using Suc.prems(2) m(2) by (simp add: indices_ok_def s1_def)
  have same1: "class_dispatchable cfg w s1 x = class_dispatchable cfg w s x" for x
    by (simp add: class_dispatchable_def s1_def)
  obtain r s2 where sel: "select_source_ticket cfg w ?c (length (source_cycle ?c)) s1 = (r, s2)"
    by fastforce
  have ok2: "indices_ok cfg s2"
    using select_source_indices [of cfg w ?c "length (source_cycle ?c)" s1] ok1
    by (simp add: sel indices_ok_def)
  have "sd_fair_index s2 = sd_fair_index s1"
    using select_source_indices [of cfg w ?c "length (source_cycle ?c)" s1] by (simp add: sel)
  then have idx2: "sd_fair_index s2 = (?i + 1) mod ?m" by (simp add: s1_def)
  have head: "r = None \<longleftrightarrow> (\<forall>source. source_class source = ?c \<longrightarrow> \<not> class_dispatchable cfg w s source)"
    using select_source_class [OF inv1, of ?c cfg w] ok1 by (simp add: sel indices_ok_def same1)
  have split: "(\<forall>j < Suc k. P j) \<longleftrightarrow> P 0 \<and> (\<forall>j < k. P (Suc j))" for P :: "nat \<Rightarrow> bool"
    by (auto simp: less_Suc_eq_0_disj)
  have unfold_sel: "select_class_ticket cfg w (Suc k) s =
      (case r of None \<Rightarrow> select_class_ticket cfg w k s2 | Some n \<Rightarrow> (Some n, s2))"
    unfolding select_class_ticket.simps Let_def s1_def [symmetric] sel by (simp split: option.split)
  show ?case
  proof (cases r)
    case None
    have p2: "picks cfg w s None s2"
      using picks_trans_None [OF p1] select_source_ticket_picks [OF inv1, of cfg w ?c "length (source_cycle ?c)"]
      by (simp add: sel None)
    have inv2: "core_inv s2" using Suc.prems(1) p2 by (rule picks_None_inv)
    have same2: "class_dispatchable cfg w s2 x = class_dispatchable cfg w s x" for x
      using p2 ticket_can_dispatch_cong [of s2 s cfg w] by (simp add: class_dispatchable_def picks_def)
    show ?thesis
      using Suc.IH [OF inv2 ok2] head m(1) unfolding unfold_sel None split idx2 rotate_index same2 by simp
  next
    case (Some n)
    then show ?thesis using head ok2 m(1) unfolding unfold_sel split by simp
  qed
qed

text \<open>
  C29. The dispatcher is work conserving and fair in rotation. If the cycle serves every
  class, a selection comes back empty exactly when no queued ticket of any source can be
  dispatched; a selected ticket was queued and dispatchable; and the rotation indices stay
  inside the cycle and the source lists.
\<close>

theorem select_ticket_conserves_work:
  assumes "limits cfg s" and "indices_ok cfg s" and "set (cf_fair_cycle cfg) = UNIV"
  shows "(fst (select_ticket cfg w s) = None \<longleftrightarrow> \<not> has_dispatchable_ticket cfg w s) \<and>
    indices_ok cfg (snd (select_ticket cfg w s)) \<and>
    (case fst (select_ticket cfg w s) of
       None \<Rightarrow> True
     | Some n \<Rightarrow> ticket_can_dispatch cfg w s n \<and> (\<exists>source. n \<in> set (sd_queues s source)))"
proof -
  have inv: "core_inv s" using assms(1) by (rule limits_inv)
  let ?m = "length (cf_fair_cycle cfg)"
  have "fst (select_ticket cfg w s) = None \<longleftrightarrow>
      (\<forall>j < ?m. \<forall>source. source_class source = cf_fair_cycle cfg ! j \<longrightarrow> \<not> class_dispatchable cfg w s source)"
    unfolding select_ticket_def conjunct1 [OF select_class_None [OF inv assms(2)]]
    using rotation_covers [of "sd_fair_index s" ?m
        "\<lambda>c. \<forall>source. source_class source = c \<longrightarrow> \<not> class_dispatchable cfg w s source" "cf_fair_cycle cfg"]
      assms(2) by (simp add: indices_ok_def)
  also have "\<dots> \<longleftrightarrow> (\<forall>source. \<not> class_dispatchable cfg w s source)"
    using assms(3) by (metis UNIV_I in_set_conv_nth)
  also have "\<dots> \<longleftrightarrow> \<not> has_dispatchable_ticket cfg w s"
    using enum_UNIV [where 'a = TelegramRpcSource]
    by (auto simp: has_dispatchable_ticket_def class_dispatchable_def list_ex_iff)
  finally have empty: "fst (select_ticket cfg w s) = None \<longleftrightarrow> \<not> has_dispatchable_ticket cfg w s" .
  moreover have "picks cfg w s (fst (select_ticket cfg w s)) (snd (select_ticket cfg w s))"
    unfolding select_ticket_def by (rule select_class_ticket_picks [OF inv])
  ultimately show ?thesis
    using select_class_None [OF inv assms(2), of w ?m]
    by (auto simp: select_ticket_def picks_def split: option.splits)
qed

lemma source_cycles_nonempty: "0 < length (source_cycle c)"
proof -
  have "source_class SOURCE_MCP_INTERACTIVE = CLASS_INTERACTIVE" by code_simp
  moreover have "source_class SOURCE_DELTA_SYNC = CLASS_LIVE_SYNC" by code_simp
  moreover have "source_class SOURCE_FULL_SYNC = CLASS_BACKGROUND" by code_simp
  ultimately have "\<exists>s. s \<in> set (source_cycle c)" using source_cycle_iff [of _ c] by (cases c) blast+
  then show ?thesis by auto
qed

lemma new_indices_ok: "cf_fair_cycle cfg \<noteq> [] \<Longrightarrow> indices_ok cfg new_scheduler"
  using source_cycles_nonempty by (simp add: indices_ok_def new_scheduler_def)

theorem select_ticket_conserves_work_witness:
  "fst (select_ticket sample_config (sample_world 5) new_scheduler) = None \<longleftrightarrow>
   \<not> has_dispatchable_ticket sample_config (sample_world 5) new_scheduler"
proof -
  have "set (cf_fair_cycle sample_config) = {CLASS_INTERACTIVE, CLASS_LIVE_SYNC, CLASS_BACKGROUND}"
    by code_simp
  then have "set (cf_fair_cycle sample_config) = UNIV" by (auto intro: RpcServiceClass.exhaust)
  moreover from this have "cf_fair_cycle sample_config \<noteq> []" by auto
  ultimately show ?thesis
    using select_ticket_conserves_work [OF limits_new new_indices_ok, of sample_config "sample_world 5"]
    by blast
qed

end
