(* ===== verification/Coordinator.thy ===== *)
theory Coordinator
  imports Demand Rpc_Recovery
begin

text \<open>
  \<^verbatim>\<open>telegram_demand_coordinator.py\<close>: the one executor of durable Telegram demand. It asks the
  domain adapters what is due, keeps one FIFO queue of ready kinds, runs one bounded slice at
  a time (and the retained kind in a task beside it), and parks exact work revisions that a
  gate, a throttle or a failure holds back.

  \<open>Coord\<close> is the class; each method is a function. Between two awaits the code runs without
  interruption, so such a stretch is one function of a \<open>Now\<close>: the two clocks and the answers
  of the injected RPC gate, which the stretch reads. Adapters are functions too: \<open>status\<close> is
  what \<^verbatim>\<open>adapter.status(now, excluded)\<close> returns during a scan, and a slice's result is an
  argument of the stretch that follows it. Budgets are mutable objects shared with the slice
  and the gate: they live in a heap and are named by addresses. Telemetry callbacks are left
  out; the code ignores whatever they do.
\<close>

section \<open>State\<close>

definition DEFAULT_SAFETY_SCAN_SECONDS :: time where "DEFAULT_SAFETY_SCAN_SECONDS = 60"
definition MIN_WAIT_SECONDS :: time where "MIN_WAIT_SECONDS = 1 / 1000"

datatype CoordinatorState = CO_NEW | CO_RUNNING | CO_STOPPING | CO_STOPPED

datatype coord_error =
    Bad_Clock
  | Contracts_Mismatch
  | Coverage_Mismatch "DemandKind set" "DemandKind set"
  | No_Slice_Budget DemandKind
  | No_Selected_Revision DemandKind
  | Not_Durable DemandKind
  | Not_Protocol DemandKind
  | Runs_Once
  | Slice_Raised
  | Demand_Failure demand_error

text \<open>The exceptions the gate raises or returns as hints.\<close>

record Deferral =
  df_method_key :: "string option"
  df_generation :: "string option"
  df_eligible_at :: "time option"
  df_reason :: "string option"

datatype gate_hint =
    Clear
  | Deferred Deferral
  | Pending string string
  | Throttled bool int

text \<open>
  \<open>gt_prepare\<close> is \<^verbatim>\<open>prepare_durable_retry\<close>: the credit it binds to the budget, if any, and
  the deadline of the authorization it returns, if any.
\<close>

record Gate =
  gt_eligibility :: "string option \<Rightarrow> gate_hint"
  gt_prepare :: "RpcAttemptBudget \<Rightarrow> string option \<Rightarrow> nat option \<times> time option"

record Now =
  nw_wall :: time
  nw_mono :: time
  nw_gate :: Gate

record Invocation =
  iv_budget :: nat
  iv_deadline :: "time option"

record Slice =
  sl_kind :: DemandKind
  sl_status :: DemandStatus
  sl_selected :: WorkRevision
  sl_budget :: nat
  sl_generation :: nat
  sl_attempts_before :: int
  sl_deadline :: time
  sl_retained :: bool

datatype retained_task =
    Retained_Created DemandKind DemandStatus
  | Retained_Running Slice
  | Retained_Done bool

record Coord =
  co_state :: CoordinatorState
  co_safety_scan_seconds :: time
  co_shutdown :: bool
  co_wake :: bool
  co_queue :: "DemandKind list"
  co_queued :: "DemandKind set"
  co_queued_since :: "(DemandKind \<times> time) list"
  co_statuses :: "(DemandKind \<times> DemandStatus) list"
  co_authoritative_ready :: "DemandKind set"
  co_offered :: "DemandKind set"
  co_active_kind :: "DemandKind option"
  co_active_revision :: "WorkRevision option"
  co_retained_revision :: "WorkRevision option"
  co_retained_task :: "retained_task option"
  co_next_release_at :: "time option"
  co_status_failed_until :: "(DemandKind \<times> time) list"
  co_invocations :: "(WorkRevision \<times> Invocation) list"
  co_excluded :: "WorkRevision set"
  co_exclusion_reasons :: "(WorkRevision \<times> string) list"
  co_eligibility_waits :: "(WorkRevision \<times> time option) list"
  co_released_gate_waits :: "WorkRevision set"
  co_transient_waits :: "(WorkRevision \<times> time) list"
  co_transient_stages :: "(WorkRevision \<times> nat) list"
  co_revision_methods :: "(WorkRevision \<times> string) list"
  co_eligibility_generation :: nat
  co_budgets :: "nat \<Rightarrow> RpcAttemptBudget"
  co_accounts :: accounts
  co_fresh :: nat
  co_progress :: nat

definition new_coordinator :: "time \<Rightarrow> Coord" where
  "new_coordinator safety_scan_seconds = \<lparr> co_state = CO_NEW,
     co_safety_scan_seconds = safety_scan_seconds, co_shutdown = False, co_wake = False,
     co_queue = [], co_queued = {}, co_queued_since = [], co_statuses = [],
     co_authoritative_ready = {}, co_offered = {}, co_active_kind = None,
     co_active_revision = None, co_retained_revision = None, co_retained_task = None,
     co_next_release_at = None, co_status_failed_until = [], co_invocations = [],
     co_excluded = {}, co_exclusion_reasons = [], co_eligibility_waits = [],
     co_released_gate_waits = {}, co_transient_waits = [], co_transient_stages = [],
     co_revision_methods = [], co_eligibility_generation = 0, co_budgets = (\<lambda>_. sample_budget),
     co_accounts = (\<lambda>_. \<lparr>ac_limit = 0, ac_attempts = 0\<rparr>), co_fresh = 0, co_progress = 0 \<rparr>"

definition budget_of :: "Coord \<Rightarrow> nat \<Rightarrow> RpcAttemptBudget" where
  "budget_of s b = co_budgets s b"

definition exhausted :: "Coord \<Rightarrow> nat \<Rightarrow> bool" where
  "exhausted s b = budget_exhausted (co_accounts s) (co_budgets s b)"

definition attempts_of :: "Coord \<Rightarrow> nat \<Rightarrow> int" where
  "attempts_of s b = budget_attempts (co_accounts s) (co_budgets s b)"

text \<open>\<^verbatim>\<open>prepare_durable_retry(budget, method)\<close>: binds the credit, returns the authorization.\<close>

definition prepare_retry :: "Now \<Rightarrow> nat \<Rightarrow> string option \<Rightarrow> Coord \<Rightarrow> time option \<times> Coord" where
  "prepare_retry now b method s =
     (case gt_prepare (nw_gate now) (co_budgets s b) method of
        (credit, authorization) \<Rightarrow>
          (authorization,
           case credit of None \<Rightarrow> s
           | Some c \<Rightarrow> s\<lparr>co_budgets := (co_budgets s)(b := (co_budgets s b)\<lparr>bg_retry_candidate := Some c\<rparr>)\<rparr>))"

definition eligibility :: "Now \<Rightarrow> string option \<Rightarrow> gate_hint" where
  "eligibility now method = gt_eligibility (nw_gate now) method"

section \<open>Methods and waits\<close>

text \<open>Python's \<^verbatim>\<open>or\<close> on optional strings: \<^verbatim>\<open>None\<close> and the empty string are false.\<close>

fun or_else :: "string option \<Rightarrow> string option \<Rightarrow> string option" where
  "or_else (Some (c # cs)) y = Some (c # cs)"
| "or_else x y = y"

definition method_for_work ::
  "WorkRevision option \<Rightarrow> RpcAttemptBudget option \<Rightarrow> string option \<Rightarrow> Coord \<Rightarrow> string option" where
  "method_for_work selected budget advisory s =
     or_else (case selected of None \<Rightarrow> None | Some w \<Rightarrow> od_get (co_revision_methods s) w)
       (or_else (case budget of None \<Rightarrow> None | Some b \<Rightarrow> bg_last_method b) advisory)"

definition invocation_budget :: "Coord \<Rightarrow> WorkRevision \<Rightarrow> RpcAttemptBudget option" where
  "invocation_budget s w = map_option (\<lambda>iv. co_budgets s (iv_budget iv)) (od_get (co_invocations s) w)"

definition method_wait_reason :: "string option \<Rightarrow> string \<Rightarrow> string" where
  "method_wait_reason why fallback =
     (if why \<in> {Some ''read_budget_retry'', Some ''method_mixed_retry''} then the why else fallback)"

definition GATE_WAIT_REASONS :: "string list" where
  "GATE_WAIT_REASONS = [''admission_deferred'', ''admission_saturated'', ''flood_wait'',
     ''method_recovery_pending'', ''read_budget_retry'', ''method_mixed_retry'']"

text \<open>\<^verbatim>\<open>_excluded.add\<close>, \<^verbatim>\<open>_exclusion_reasons[w] = reason\<close> and their removal always go together.\<close>

definition exclude :: "WorkRevision \<Rightarrow> string \<Rightarrow> Coord \<Rightarrow> Coord" where
  "exclude w why s = s\<lparr>co_excluded := insert w (co_excluded s),
     co_exclusion_reasons := od_put w why (co_exclusion_reasons s)\<rparr>"

definition readmit :: "WorkRevision \<Rightarrow> Coord \<Rightarrow> Coord" where
  "readmit w s = s\<lparr>co_excluded := co_excluded s - {w},
     co_exclusion_reasons := od_del w (co_exclusion_reasons s)\<rparr>"

definition set_wait :: "WorkRevision \<Rightarrow> time option \<Rightarrow> Coord \<Rightarrow> Coord" where
  "set_wait w until s = s\<lparr>co_eligibility_waits := od_put w until (co_eligibility_waits s)\<rparr>"

definition drop_wait :: "WorkRevision \<Rightarrow> Coord \<Rightarrow> Coord" where
  "drop_wait w s = s\<lparr>co_eligibility_waits := od_del w (co_eligibility_waits s)\<rparr>"

definition set_method :: "WorkRevision \<Rightarrow> string \<Rightarrow> Coord \<Rightarrow> Coord" where
  "set_method w method s = s\<lparr>co_revision_methods := od_put w method (co_revision_methods s)\<rparr>"

definition release_gate_wait :: "WorkRevision \<Rightarrow> Coord \<Rightarrow> Coord" where
  "release_gate_wait w s =
     (let s1 = (if od_get (co_eligibility_waits s) w \<noteq> None \<and>
                   (case od_get (co_exclusion_reasons s) w of
                      None \<Rightarrow> False | Some r \<Rightarrow> List.member GATE_WAIT_REASONS r)
                then s\<lparr>co_released_gate_waits := insert w (co_released_gate_waits s)\<rparr> else s)
      in readmit w (drop_wait w s1))"

definition transient_ready :: "Now \<Rightarrow> Coord \<Rightarrow> WorkRevision \<Rightarrow> bool" where
  "transient_ready now s w =
     (case od_get (co_transient_waits s) w of None \<Rightarrow> nw_mono now \<ge> 0 | Some t \<Rightarrow> nw_mono now \<ge> t)"

definition wait_ready :: "Now \<Rightarrow> Coord \<Rightarrow> WorkRevision \<Rightarrow> bool" where
  "wait_ready now s w = (transient_ready now s w \<and>
     (case od_get (co_eligibility_waits s) w of
        Some (Some deadline) \<Rightarrow> nw_mono now \<ge> deadline | _ \<Rightarrow> True))"

definition release_ready_gate_waits :: "Now \<Rightarrow> Coord \<Rightarrow> Coord" where
  "release_ready_gate_waits now s =
     fold (\<lambda>w s. if \<not> wait_ready now s w then s
                 else if eligibility now (method_for_work (Some w) (invocation_budget s w) None s) \<noteq> Clear then s
                 else release_gate_wait w s)
       (od_keys (co_eligibility_waits s)) s"

definition eligibility_changed :: "Now \<Rightarrow> string option \<Rightarrow> Coord \<Rightarrow> Coord" where
  "eligibility_changed now method_key s0 =
     (let s = s0\<lparr>co_eligibility_generation := co_eligibility_generation s0 + 1\<rparr>;
          s1 = (case method_key of
            None \<Rightarrow> release_ready_gate_waits now s
          | Some m \<Rightarrow>
              fold (\<lambda>w s. if wait_ready now s w \<and>
                             method_for_work (Some w) (invocation_budget s w) None s = Some m
                          then release_gate_wait w s else s)
                (od_keys (co_eligibility_waits s)) s)
      in s1\<lparr>co_wake := True\<rparr>)"

definition retained_kind :: "Coord \<Rightarrow> DemandKind \<Rightarrow> bool" where
  "retained_kind s kind =
     (case co_retained_revision s of None \<Rightarrow> False | Some w \<Rightarrow> wk_demand_kind (wr_key w) = kind)"

definition remove_queued :: "DemandKind \<Rightarrow> Coord \<Rightarrow> Coord" where
  "remove_queued kind s =
     (if kind \<notin> co_queued s then s
      else s\<lparr>co_queued := co_queued s - {kind}, co_queue := remove1 kind (co_queue s),
             co_queued_since := od_del kind (co_queued_since s)\<rparr>)"

definition shutdown :: "Coord \<Rightarrow> Coord" where
  "shutdown s = s\<lparr>co_shutdown := True, co_wake := True\<rparr>"

definition validate_durable_kind :: "DemandKind \<Rightarrow> coord_error + unit" where
  "validate_durable_kind kind =
     guard (kind \<in> set DURABLE_DEMAND_ORDER \<and> dc_execution_mode (contract_of kind) = EXEC_DURABLE)
       (Not_Durable kind)"

definition offer :: "DemandKind \<Rightarrow> Coord \<Rightarrow> coord_error + bool \<times> Coord" where
  "offer kind s = then_check (validate_durable_kind kind)
     (if co_state s \<in> {CO_STOPPING, CO_STOPPED} then Inr (False, s)
      else if kind \<in> co_offered s \<or> kind \<in> co_queued s \<or> co_active_kind s = Some kind \<or>
              retained_kind s kind
      then Inr (False, s)
      else Inr (True, s\<lparr>co_offered := insert kind (co_offered s), co_wake := True\<rparr>))"

section \<open>Parking work\<close>

definition park_throttle :: "Now \<Rightarrow> WorkRevision \<Rightarrow> string option \<Rightarrow> bool \<Rightarrow> int \<Rightarrow> Coord \<Rightarrow> Coord" where
  "park_throttle now w method latched retry_after s =
     (let s1 = (case method of None \<Rightarrow> s | Some m \<Rightarrow> set_method w m s);
          s2 = exclude w ''flood_wait'' s1
      in if latched then set_wait w None s2
         else let previous = (case od_get (co_eligibility_waits s2) w of
                                Some (Some t) \<Rightarrow> t | _ \<Rightarrow> 0)
              in set_wait w (Some (max previous (nw_mono now + of_int retry_after))) s2)"

definition strengthen_throttle_wait :: "Now \<Rightarrow> WorkRevision \<Rightarrow> bool \<Rightarrow> int \<Rightarrow> bool \<Rightarrow> Coord \<Rightarrow> Coord" where
  "strengthen_throttle_wait now w latched retry_after capacity s =
     (let current = (case od_get (co_eligibility_waits s) w of None \<Rightarrow> None | Some t \<Rightarrow> t) in
      if current = None \<and> \<not> capacity then s
      else let s1 = exclude w ''flood_wait'' s in
        if latched then set_wait w None s1
        else set_wait w (Some (max (case current of None \<Rightarrow> 0 | Some t \<Rightarrow> t)
                                   (nw_mono now + of_int retry_after))) s1)"

text \<open>A new budget object with its own accounting, and the invocation that holds it.\<close>

definition new_invocation :: "WorkRevision \<Rightarrow> int \<Rightarrow> time option \<Rightarrow> Coord \<Rightarrow> demand_error + Invocation \<times> Coord" where
  "new_invocation w allowance deadline s =
     (case rpc_attempt_budget_new (co_fresh s) allowance 0 (Some w) None (co_accounts s) of
        Inl e \<Rightarrow> Inl e
      | Inr (b, accounts) \<Rightarrow>
          (let iv = \<lparr>iv_budget = co_fresh s, iv_deadline = deadline\<rparr> in
           Inr (iv, s\<lparr>co_budgets := (co_budgets s)(co_fresh s := b), co_accounts := accounts,
                      co_fresh := co_fresh s + 1,
                      co_invocations := od_put w iv (co_invocations s)\<rparr>)))"

definition park_method_deferral ::
  "Now \<Rightarrow> DemandKind \<Rightarrow> WorkRevision \<Rightarrow> string option \<Rightarrow> Deferral \<Rightarrow> Coord \<Rightarrow> coord_error + Coord" where
  "park_method_deferral now kind w advised gate s =
     (let method = or_else (df_method_key gate) advised in
      case (case od_get (co_invocations s) w of
              Some iv \<Rightarrow> Inr (Some iv, s)
            | None \<Rightarrow> (if df_generation gate = None then Inr (None, s)
                else case dc_max_rpc_attempts_per_slice (contract_of kind) of
                       None \<Rightarrow> Inl (No_Slice_Budget kind)
                     | Some n \<Rightarrow> (case new_invocation w n None s of
                           Inl e \<Rightarrow> Inl (Demand_Failure e) | Inr (iv, s') \<Rightarrow> Inr (Some iv, s')))) of
        Inl e \<Rightarrow> Inl e
      | Inr (invocation, s1) \<Rightarrow>
          (let s2 = (case (method, invocation) of
                 (Some m, Some iv) \<Rightarrow> snd (prepare_retry now (iv_budget iv) (Some m) s1)
               | _ \<Rightarrow> s1);
               s3 = (case method of None \<Rightarrow> s2 | Some m \<Rightarrow> set_method w m s2)
           in Inr (set_wait w (df_eligible_at gate)
                    (exclude w (method_wait_reason (df_reason gate) ''admission_deferred'') s3))))"

section \<open>Scanning\<close>

datatype status_answer = Status_Raises | No_Status | Has_Status DemandStatus

type_synonym adapters = "DemandKind \<Rightarrow> time \<Rightarrow> WorkRevision set \<Rightarrow> status_answer"

definition prune_revised_invocations :: "WorkRevision \<Rightarrow> Coord \<Rightarrow> Coord" where
  "prune_revised_invocations selected s =
     fold (\<lambda>w s. if wr_key w = wr_key selected \<and> w \<noteq> selected
            then (readmit w (drop_wait w s))\<lparr>
                   co_invocations := od_del w (co_invocations s),
                   co_released_gate_waits := co_released_gate_waits s - {w},
                   co_revision_methods := od_del w (co_revision_methods s),
                   co_transient_waits := od_del w (co_transient_waits s),
                   co_transient_stages := od_del w (co_transient_stages s)\<rparr>
            else s)
       (od_keys (co_invocations s)) s"

definition gate_release :: "Now \<Rightarrow> DemandStatus \<Rightarrow> time option \<Rightarrow> time \<Rightarrow> DemandStatus" where
  "gate_release now status eligible_at observed_at =
     (case eligible_at of
        None \<Rightarrow> status
      | Some t \<Rightarrow> status\<lparr>st_release_at :=
          max (st_release_at status) (observed_at + max 0 (t - nw_mono now))\<rparr>)"

definition eligibility_status ::
  "Now \<Rightarrow> DemandKind \<Rightarrow> DemandStatus \<Rightarrow> time \<Rightarrow> Coord \<Rightarrow> coord_error + (DemandStatus \<times> bool) \<times> Coord" where
  "eligibility_status now kind status observed_at s =
     (case is_ready status observed_at of
        Inl e \<Rightarrow> Inl (Demand_Failure e)
      | Inr ready \<Rightarrow>
     (case (ready, st_selected status) of
        (True, Some w) \<Rightarrow>
          (let method = method_for_work (Some w) (invocation_budget s w) (st_request_method status) s in
           case eligibility now method of
             Deferred gate \<Rightarrow>
               (case park_method_deferral now kind w method gate s of
                  Inl e \<Rightarrow> Inl e
                | Inr s1 \<Rightarrow> Inr ((gate_release now status (df_eligible_at gate) observed_at, False), s1))
           | Pending m why \<Rightarrow>
               Inr ((status, False), set_wait w None
                 (exclude w (method_wait_reason (Some why) ''method_recovery_pending'') (set_method w m s)))
           | Throttled latched retry_after \<Rightarrow>
               Inr ((status, False), park_throttle now w method latched retry_after s)
           | Clear \<Rightarrow> Inr ((status, True), drop_wait w s))
      | _ \<Rightarrow> Inr ((status, False), s)))"

definition drop_ready :: "DemandKind \<Rightarrow> Coord \<Rightarrow> Coord" where
  "drop_ready kind s =
     remove_queued kind (s\<lparr>co_authoritative_ready := co_authoritative_ready s - {kind}\<rparr>)"

definition enqueue :: "DemandKind \<Rightarrow> time \<Rightarrow> Coord \<Rightarrow> Coord" where
  "enqueue kind observed_at s0 =
     (let s = s0\<lparr>co_authoritative_ready := insert kind (co_authoritative_ready s0)\<rparr> in
      if kind \<notin> co_queued s \<and> co_active_kind s \<noteq> Some kind
      then s\<lparr>co_queue := co_queue s @ [kind], co_queued := insert kind (co_queued s),
             co_queued_since := od_put kind observed_at (co_queued_since s)\<rparr>
      else s)"

text \<open>\<^verbatim>\<open>_apply_status\<close>; a raise leaves what it had changed.\<close>

definition apply_status ::
  "Now \<Rightarrow> DemandKind \<Rightarrow> DemandStatus option \<Rightarrow> time \<Rightarrow> Coord \<Rightarrow> coord_error option \<times> Coord" where
  "apply_status now kind answer observed_at s =
     (case answer of
        None \<Rightarrow> (None, drop_ready kind (s\<lparr>co_statuses := od_del kind (co_statuses s)\<rparr>))
      | Some status \<Rightarrow>
          (let s1 = s\<lparr>co_statuses := od_put kind status (co_statuses s)\<rparr>;
               s2 = (case st_selected status of None \<Rightarrow> s1 | Some w \<Rightarrow> prune_revised_invocations w s1)
           in if (case st_selected status of None \<Rightarrow> False | Some w \<Rightarrow> w \<in> co_excluded s2)
              then (None, drop_ready kind s2)
              else case eligibility_status now kind status observed_at s2 of
                Inl e \<Rightarrow> (Some e, s2)
              | Inr ((status', ready), s3) \<Rightarrow>
                  (let s4 = s3\<lparr>co_statuses := od_put kind status' (co_statuses s3)\<rparr> in
                   (None, if ready then enqueue kind observed_at s4 else drop_ready kind s4))))"

text \<open>
  The loop of \<^verbatim>\<open>_scan_available_kind\<close> asks the adapter again while its selection has just
  been excluded. It need not end for an arbitrary adapter, so it is run on fuel; \<open>None\<close>
  means that the fuel ran out.
\<close>

fun scan_available_kind ::
  "nat \<Rightarrow> Now \<Rightarrow> adapters \<Rightarrow> DemandKind \<Rightarrow> time \<Rightarrow> Coord \<Rightarrow> (bool \<times> Coord) option" where
  "scan_available_kind 0 now status kind observed_at s = None"
| "scan_available_kind (Suc fuel) now status kind observed_at s =
     (let excluded = co_excluded s in
      case status kind observed_at excluded of
        Status_Raises \<Rightarrow> Some (False, s)
      | No_Status \<Rightarrow> Some (True, snd (apply_status now kind None observed_at s))
      | Has_Status st \<Rightarrow>
          (case apply_status now kind (Some st) observed_at s of
             (Some e, s1) \<Rightarrow> Some (False, s1)
           | (None, s1) \<Rightarrow>
               (case st_selected st of
                  Some w \<Rightarrow>
                    (if w \<notin> co_excluded s1 \<or> w \<in> excluded then Some (True, s1)
                     else scan_available_kind fuel now status kind observed_at s1)
                | None \<Rightarrow> Some (True, s1))))"

definition record_status_failure :: "DemandKind \<Rightarrow> time \<Rightarrow> Coord \<Rightarrow> Coord" where
  "record_status_failure kind observed_at s =
     drop_ready kind (s\<lparr>
       co_status_failed_until :=
         od_put kind (observed_at + co_safety_scan_seconds s) (co_status_failed_until s),
       co_statuses := od_del kind (co_statuses s)\<rparr>)"

definition scan_kind :: "nat \<Rightarrow> Now \<Rightarrow> adapters \<Rightarrow> time \<Rightarrow> DemandKind \<Rightarrow> Coord \<Rightarrow> Coord option" where
  "scan_kind fuel now status observed_at kind s =
     (if retained_kind s kind then Some (remove_queued kind s)
      else if (case od_get (co_status_failed_until s) kind of None \<Rightarrow> False | Some t \<Rightarrow> observed_at < t)
      then Some s
      else case scan_available_kind fuel now status kind observed_at s of
        None \<Rightarrow> None
      | Some (True, s1) \<Rightarrow> Some (s1\<lparr>co_status_failed_until := od_del kind (co_status_failed_until s1)\<rparr>)
      | Some (False, s1) \<Rightarrow> Some (record_status_failure kind observed_at s1))"

fun scan_kinds :: "nat \<Rightarrow> Now \<Rightarrow> adapters \<Rightarrow> time \<Rightarrow> DemandKind list \<Rightarrow> Coord \<Rightarrow> Coord option" where
  "scan_kinds fuel now status observed_at [] s = Some s"
| "scan_kinds fuel now status observed_at (k # ks) s =
     (case scan_kind fuel now status observed_at k s of
        None \<Rightarrow> None | Some s1 \<Rightarrow> scan_kinds fuel now status observed_at ks s1)"

definition prepare_expired_gate_waits :: "Now \<Rightarrow> Coord \<Rightarrow> Coord" where
  "prepare_expired_gate_waits now s =
     fold (\<lambda>(w, eligible_at) s.
            case eligible_at of
              None \<Rightarrow> s
            | Some t \<Rightarrow>
                (if nw_mono now \<ge> t \<and>
                    (case od_get (co_transient_waits s) w of None \<Rightarrow> True | Some u \<Rightarrow> nw_mono now \<ge> u)
                 then release_gate_wait w s else s))
       (co_eligibility_waits s) s"

definition readmit_expired_transients :: "Now \<Rightarrow> Coord \<Rightarrow> Coord" where
  "readmit_expired_transients now s =
     fold (\<lambda>(w, eligible_at) s.
            if nw_mono now \<ge> eligible_at \<and> od_get (co_eligibility_waits s) w = None
            then readmit w s else s)
       (co_transient_waits s) s"

definition minimum :: "time list \<Rightarrow> time option" where
  "minimum ts = (case ts of [] \<Rightarrow> None | t # ts' \<Rightarrow> Some (fold min ts' t))"

definition recompute_next_release :: "time \<Rightarrow> Coord \<Rightarrow> Coord" where
  "recompute_next_release now s = s\<lparr>co_next_release_at := minimum (filter (\<lambda>t. t > now)
     (map (st_release_at \<circ> snd) (co_statuses s) @ map snd (co_status_failed_until s)))\<rparr>"

definition scan :: "nat \<Rightarrow> Now \<Rightarrow> adapters \<Rightarrow> bool \<Rightarrow> Coord \<Rightarrow> Coord option" where
  "scan fuel now status clear_offers s =
     (let s1 = readmit_expired_transients now (prepare_expired_gate_waits now s);
          s2 = (if clear_offers then s1\<lparr>co_offered := {}\<rparr> else s1)
      in map_option (recompute_next_release (nw_wall now))
           (scan_kinds fuel now status (nw_wall now) DURABLE_DEMAND_ORDER s2))"

section \<open>Starting a slice\<close>

definition set_deadline :: "WorkRevision \<Rightarrow> Invocation \<Rightarrow> time \<Rightarrow> Coord \<Rightarrow> Invocation \<times> Coord" where
  "set_deadline w iv t s = (let iv' = iv\<lparr>iv_deadline := Some t\<rparr> in
     (iv', if od_get (co_invocations s) w = Some iv
           then s\<lparr>co_invocations := od_put w iv' (co_invocations s)\<rparr> else s))"

definition forget_candidate :: "nat \<Rightarrow> Coord \<Rightarrow> Coord" where
  "forget_candidate b s =
     s\<lparr>co_budgets := (co_budgets s)(b := (co_budgets s b)\<lparr>bg_retry_candidate := None\<rparr>)\<rparr>"

definition set_limit :: "nat \<Rightarrow> int \<Rightarrow> Coord \<Rightarrow> Coord" where
  "set_limit b n s = (let a = bg_accounting (co_budgets s b) in
     s\<lparr>co_accounts := (co_accounts s)(a := (co_accounts s a)\<lparr>ac_limit := n\<rparr>)\<rparr>)"

definition live :: "Now \<Rightarrow> time option \<Rightarrow> time option" where
  "live now authorization =
     (case authorization of None \<Rightarrow> None | Some t \<Rightarrow> if nw_mono now < t then Some t else None)"

definition activate_transient_retry ::
  "Now \<Rightarrow> WorkRevision \<Rightarrow> DemandStatus \<Rightarrow> Invocation \<Rightarrow> int \<Rightarrow> time \<Rightarrow> Coord \<Rightarrow> Invocation \<times> Coord" where
  "activate_transient_retry now w status iv allowance timeout s =
     (let b = iv_budget iv;
          method = method_for_work (Some w) (Some (co_budgets s b)) (st_request_method status) s;
          (authorization, s1) = (if exhausted s b then prepare_retry now b method s else (None, s))
      in case live now authorization of
           Some t \<Rightarrow> set_deadline w iv t s1
         | None \<Rightarrow>
             (if bg_read_budget_failure_method (co_budgets s1 b) \<noteq> None then (iv, s1)
              else set_deadline w iv (nw_mono now + timeout) (set_limit b
                (if \<not> exhausted s1 b
                 then attempts_of s1 b + min (budget_remaining (co_accounts s1) (co_budgets s1 b)) allowance
                 else attempts_of s1 b + allowance) (forget_candidate b s1))))"

definition resume_gate_wait ::
  "Now \<Rightarrow> WorkRevision \<Rightarrow> DemandStatus \<Rightarrow> Invocation \<Rightarrow> time \<Rightarrow> Coord \<Rightarrow> Invocation \<times> Coord" where
  "resume_gate_wait now w status iv timeout s0 =
     (if w \<notin> co_released_gate_waits s0 then (iv, s0)
      else let s = s0\<lparr>co_released_gate_waits := co_released_gate_waits s0 - {w}\<rparr>;
               b = iv_budget iv;
               method = method_for_work (Some w) (Some (co_budgets s b)) (st_request_method status) s
           in if exhausted s b \<or> iv_deadline iv = None \<or> live now (iv_deadline iv) \<noteq> None then (iv, s)
              else if eligibility now method \<noteq> Clear then (iv, s)
              else case prepare_retry now b method s of
                (authorization, s1) \<Rightarrow>
                  (case live now authorization of
                     Some t \<Rightarrow> set_deadline w iv t s1
                   | None \<Rightarrow> set_deadline w iv (nw_mono now + timeout) (forget_candidate b s1)))"

definition authorize_invocation ::
  "Now \<Rightarrow> DemandKind \<Rightarrow> WorkRevision \<Rightarrow> DemandStatus \<Rightarrow> Invocation \<Rightarrow> Coord \<Rightarrow> bool \<times> Invocation \<times> Coord" where
  "authorize_invocation now kind w status iv0 s0 =
     (let (iv, s) = (case iv_deadline iv0 of
            None \<Rightarrow> set_deadline w iv0 (nw_mono now + dc_admission_timeout_seconds (contract_of kind)) s0
          | Some d \<Rightarrow> (iv0, s0));
          b = iv_budget iv
      in if \<not> exhausted s b \<and> live now (iv_deadline iv) \<noteq> None then (True, iv, s)
         else let method = method_for_work (Some w) (Some (co_budgets s b)) (st_request_method status) s in
           case prepare_retry now b method s of
             (authorization, s1) \<Rightarrow>
               (case live now authorization of
                  Some t \<Rightarrow> (True, set_deadline w iv t s1)
                | None \<Rightarrow> (False, iv, set_wait w None (exclude w ''retry_not_authorized'' s1))))"

text \<open>
  \<^verbatim>\<open>_execute_slice\<close> up to the await of the adapter, which is the beginning of
  \<^verbatim>\<open>_run_invocation\<close> and \<^verbatim>\<open>_run_adapter\<close>: no slice if the work must wait after all.
\<close>

definition begin_slice ::
  "Now \<Rightarrow> DemandKind \<Rightarrow> WorkRevision \<Rightarrow> DemandStatus \<Rightarrow> Invocation \<Rightarrow> bool \<Rightarrow> Coord \<Rightarrow> Slice option \<times> Coord" where
  "begin_slice now kind w status iv retained s =
     (Some \<lparr>sl_kind = kind, sl_status = status, sl_selected = w, sl_budget = iv_budget iv,
            sl_generation = co_eligibility_generation s,
            sl_attempts_before = attempts_of s (iv_budget iv),
            sl_deadline = (case iv_deadline iv of None \<Rightarrow> 0 | Some d \<Rightarrow> d), sl_retained = retained\<rparr>,
      if retained then s else s\<lparr>co_active_kind := Some kind, co_active_revision := Some w\<rparr>)"

definition execute_slice ::
  "Now \<Rightarrow> DemandKind \<Rightarrow> DemandStatus option \<Rightarrow> Coord \<Rightarrow> coord_error + Slice option \<times> Coord" where
  "execute_slice now kind retained_status s0 =
     (case dc_max_rpc_attempts_per_slice (contract_of kind) of
        None \<Rightarrow> Inl (No_Slice_Budget kind)
      | Some allowance \<Rightarrow>
     (let timeout = dc_admission_timeout_seconds (contract_of kind);
          s = s0\<lparr>co_queued_since := od_del kind (co_queued_since s0)\<rparr>;
          status = (case retained_status of Some st \<Rightarrow> Some st | None \<Rightarrow> od_get (co_statuses s) kind)
      in case status of
        None \<Rightarrow> Inl (No_Selected_Revision kind)
      | Some st \<Rightarrow>
     (case st_selected st of
        None \<Rightarrow> Inl (No_Selected_Revision kind)
      | Some w \<Rightarrow>
     (case (case od_get (co_invocations s) w of
              Some iv \<Rightarrow> Inr (iv, s)
            | None \<Rightarrow> new_invocation w allowance (Some (nw_mono now + timeout)) s) of
        Inl e \<Rightarrow> Inl (Demand_Failure e)
      | Inr (iv, s1) \<Rightarrow>
     (let transient = od_get (co_transient_waits s1) w;
          method = method_for_work (Some w) (Some (co_budgets s1 (iv_budget iv))) (st_request_method st) s1
      in if (case transient of None \<Rightarrow> False | Some t \<Rightarrow> nw_mono now < t \<or> eligibility now method \<noteq> Clear)
         then Inr (None, s1)
         else
           let (iv2, s2) = (case transient of
                  None \<Rightarrow> (iv, s1)
                | Some t \<Rightarrow> activate_transient_retry now w st iv allowance timeout
                    (s1\<lparr>co_transient_waits := od_del w (co_transient_waits s1)\<rparr>));
               (iv3, s3) = resume_gate_wait now w st iv2 timeout s2;
               (ok, iv4, s4) = authorize_invocation now kind w st iv3 s3
           in if ok then Inr (begin_slice now kind w st iv4 (retained_status \<noteq> None) s4)
              else Inr (None, s4))))))"

section \<open>Ending a slice\<close>

datatype deferred_exc =
    Exc_Deferred Deferral
  | Exc_Pending string string
  | Exc_Budget_Exhausted
  | Exc_Read_Timeout
  | Exc_Saturated
  | Exc_Expired

text \<open>How \<^verbatim>\<open>adapter.run_slice\<close> ends: \<open>Returned None\<close> is a value that is no \<^verbatim>\<open>SliceOutcome\<close>.\<close>

datatype slice_end =
    Returned "SliceOutcome option"
  | Cancelled
  | Admission_Closed_Exc
  | Raised_Deferred deferred_exc
  | Raised_Throttled bool int
  | Raised_Other bool

text \<open>What the slice and the gate did to the budget and the accounts meanwhile.\<close>

record BudgetEffect =
  be_accounting :: nat
  be_last_method :: "string option"
  be_retry_candidate :: "nat option"
  be_read_budget_failure_method :: "string option"
  be_accounts :: accounts
  be_root_attempts :: int

definition apply_effect :: "nat \<Rightarrow> BudgetEffect \<Rightarrow> Coord \<Rightarrow> Coord" where
  "apply_effect b e s = s\<lparr>
     co_budgets := (co_budgets s)(b := (co_budgets s b)\<lparr>bg_accounting := be_accounting e,
       bg_last_method := be_last_method e, bg_retry_candidate := be_retry_candidate e,
       bg_read_budget_failure_method := be_read_budget_failure_method e\<rparr>),
     co_accounts := be_accounts e\<rparr>"

definition handle_capacity_deferred :: "Now \<Rightarrow> Slice \<Rightarrow> Coord \<Rightarrow> Coord" where
  "handle_capacity_deferred now sl s =
     (let w = sl_selected sl; s1 = set_wait w None (exclude w ''admission_saturated'' s) in
      if sl_generation sl \<noteq> co_eligibility_generation s1 then release_ready_gate_waits now s1 else s1)"

definition handle_deferral :: "Now \<Rightarrow> Slice \<Rightarrow> Deferral \<Rightarrow> Coord \<Rightarrow> Coord" where
  "handle_deferral now sl d s =
     (let w = sl_selected sl; b = sl_budget sl;
          method = or_else (df_method_key d) (method_for_work (Some w) (Some (co_budgets s b)) None s)
      in if df_reason d = Some ''capacity''
         then handle_capacity_deferred now sl
                (case method of None \<Rightarrow> s | Some m \<Rightarrow> set_method w m s)
         else let s1 = (case method of None \<Rightarrow> s
                        | Some m \<Rightarrow> set_method w m (snd (prepare_retry now b (Some m) s)))
              in set_wait w (df_eligible_at d)
                   (exclude w (method_wait_reason (df_reason d) ''admission_deferred'') s1))"

definition handle_pending :: "Now \<Rightarrow> Slice \<Rightarrow> string \<Rightarrow> string \<Rightarrow> Coord \<Rightarrow> Coord" where
  "handle_pending now sl m why s =
     (let w = sl_selected sl;
          s1 = snd (prepare_retry now (sl_budget sl) (Some m) (set_method w m s))
      in set_wait w None (exclude w (method_wait_reason (Some why) ''method_recovery_pending'') s1))"

definition handle_throttle :: "Now \<Rightarrow> Slice \<Rightarrow> bool \<Rightarrow> int \<Rightarrow> Coord \<Rightarrow> Coord" where
  "handle_throttle now sl latched retry_after s =
     (let w = sl_selected sl;
          method = method_for_work (Some w) (Some (co_budgets s (sl_budget sl))) None s
      in case eligibility now method of
           Deferred d \<Rightarrow>
             strengthen_throttle_wait now w latched retry_after (df_reason d = Some ''capacity'')
               (handle_deferral now sl d s)
         | Pending m why \<Rightarrow> handle_pending now sl m why s
         | Throttled latched' retry' \<Rightarrow>
             (let s1 = park_throttle now w method latched retry_after s in
              if latched' \<or> \<not> latched then park_throttle now w method latched' retry' s1 else s1)
         | Clear \<Rightarrow> park_throttle now w method latched retry_after s)"

definition park_read_budget_failure :: "Now \<Rightarrow> Slice \<Rightarrow> string \<Rightarrow> Coord \<Rightarrow> Coord" where
  "park_read_budget_failure now sl method s0 =
     (let w = sl_selected sl; s = set_method w method s0 in
      case eligibility now (Some method) of
        Deferred d \<Rightarrow> handle_deferral now sl d s
      | Pending m why \<Rightarrow> handle_pending now sl m why s
      | Throttled latched retry_after \<Rightarrow> handle_throttle now sl latched retry_after s
      | Clear \<Rightarrow> release_ready_gate_waits now
          (set_wait w None (exclude w ''method_recovery_pending'' s)))"

definition handle_deferred :: "Now \<Rightarrow> Slice \<Rightarrow> deferred_exc \<Rightarrow> Coord \<Rightarrow> Coord" where
  "handle_deferred now sl exc s =
     (let w = sl_selected sl;
          failed = bg_read_budget_failure_method (co_budgets s (sl_budget sl))
      in case exc of
           Exc_Deferred d \<Rightarrow> handle_deferral now sl d s
         | Exc_Pending m why \<Rightarrow> handle_pending now sl m why s
         | Exc_Saturated \<Rightarrow> handle_capacity_deferred now sl s
         | Exc_Expired \<Rightarrow> exclude w ''admission_expired'' s
         | Exc_Budget_Exhausted \<Rightarrow>
             (case failed of Some m \<Rightarrow> park_read_budget_failure now sl m s
              | None \<Rightarrow> exclude w ''attempt_budget_exhausted'' s)
         | Exc_Read_Timeout \<Rightarrow>
             (case failed of Some m \<Rightarrow> park_read_budget_failure now sl m s
              | None \<Rightarrow> exclude w ''admission_expired'' s))"

definition schedule_transient_retry :: "Now \<Rightarrow> WorkRevision \<Rightarrow> Coord \<Rightarrow> Coord" where
  "schedule_transient_retry now w s =
     (let stage = (case od_get (co_transient_stages s) w of None \<Rightarrow> 0 | Some n \<Rightarrow> n);
          delay = (case backoff_seconds CAUSE_TRANSIENT (int stage) of Inl e \<Rightarrow> 0 | Inr d \<Rightarrow> d)
      in exclude w ''retryable_failure''
           (s\<lparr>co_transient_stages := od_put w (stage + 1) (co_transient_stages s),
              co_transient_waits := od_put w (nw_mono now + of_int delay) (co_transient_waits s)\<rparr>))"

definition forget_work :: "WorkRevision \<Rightarrow> Coord \<Rightarrow> Coord" where
  "forget_work w s = (readmit w (drop_wait w s))\<lparr>
     co_invocations := od_del w (co_invocations s),
     co_released_gate_waits := co_released_gate_waits s - {w},
     co_revision_methods := od_del w (co_revision_methods s),
     co_transient_waits := od_del w (co_transient_waits s),
     co_transient_stages := od_del w (co_transient_stages s)\<rparr>"

definition committed_outcome :: "SliceOutcome \<Rightarrow> WorkRevision \<Rightarrow> bool" where
  "committed_outcome outcome w \<longleftrightarrow>
     so_kind outcome \<in> {OUTCOME_PROGRESSED, OUTCOME_TERMINAL} \<and> committed_revision_for outcome w \<noteq> None"

definition handle_outcome_deferred :: "Now \<Rightarrow> Slice \<Rightarrow> Coord \<Rightarrow> Coord option" where
  "handle_outcome_deferred now sl s =
     (let w = sl_selected sl;
          method = method_for_work (Some w) (Some (co_budgets s (sl_budget sl)))
            (st_request_method (sl_status sl)) s
      in case eligibility now method of
           Deferred d \<Rightarrow> Some (handle_deferral now sl d s)
         | Pending m why \<Rightarrow> Some (handle_pending now sl m why s)
         | Throttled latched retry_after \<Rightarrow> Some (handle_throttle now sl latched retry_after s)
         | Clear \<Rightarrow> None)"

fun outcome_reason :: "SliceOutcomeKind \<Rightarrow> string" where
  "outcome_reason OUTCOME_PROGRESSED = ''progressed''"
| "outcome_reason OUTCOME_TERMINAL = ''terminal''"
| "outcome_reason OUTCOME_DEFERRED = ''deferred''"
| "outcome_reason OUTCOME_RETRYABLE_FAILURE = ''retryable_failure''"
| "outcome_reason OUTCOME_STALE = ''stale''"
| "outcome_reason OUTCOME_NO_PROGRESS = ''no_progress''"

definition handle_outcome :: "Now \<Rightarrow> Slice \<Rightarrow> SliceOutcome option \<Rightarrow> Coord \<Rightarrow> Coord" where
  "handle_outcome now sl result s =
     (let w = sl_selected sl in
      case result of
        None \<Rightarrow> exclude w ''invalid_slice_outcome'' s
      | Some outcome \<Rightarrow>
          (if so_selected outcome \<noteq> w then exclude w ''invalid_slice_outcome'' s
           else if committed_outcome outcome w
           then let s1 = forget_work w s in
             (if attempts_of s1 (sl_budget sl) > 0 then s1\<lparr>co_progress := co_progress s1 + 1\<rparr> else s1)
           else if so_kind outcome = OUTCOME_RETRYABLE_FAILURE then schedule_transient_retry now w s
           else if so_kind outcome = OUTCOME_DEFERRED
           then (case handle_outcome_deferred now sl s of
                   Some s1 \<Rightarrow> s1 | None \<Rightarrow> exclude w (outcome_reason OUTCOME_DEFERRED) s)
           else exclude w (outcome_reason (so_kind outcome)) s))"

definition handle_slice_failure :: "Now \<Rightarrow> Slice \<Rightarrow> bool \<Rightarrow> int \<Rightarrow> Coord \<Rightarrow> Coord" where
  "handle_slice_failure now sl timeout root_attempts s =
     (if timeout \<and> root_attempts = 0 then schedule_transient_retry now (sl_selected sl) s
      else exclude (sl_selected sl) (if timeout then ''deadline_exceeded'' else ''unclassified_failure'') s)"

text \<open>
  The rest of \<^verbatim>\<open>_run_invocation\<close> after the adapter: the new state and whether the exception
  goes on (cancellation, and a closed admission that was not our own shutdown).
\<close>

definition finish_slice :: "Now \<Rightarrow> Slice \<Rightarrow> BudgetEffect \<Rightarrow> slice_end \<Rightarrow> Coord \<Rightarrow> bool \<times> Coord" where
  "finish_slice now sl effect result s0 =
     (let s1 = apply_effect (sl_budget sl) effect s0;
          s = (if attempts_of s1 (sl_budget sl) > sl_attempts_before sl
               then s1\<lparr>co_revision_methods := od_del (sl_selected sl) (co_revision_methods s1)\<rparr> else s1);
          (raised, s2) = (case result of
              Returned outcome \<Rightarrow> (False, handle_outcome now sl outcome s)
            | Cancelled \<Rightarrow> (True, s)
            | Admission_Closed_Exc \<Rightarrow> (if co_shutdown s then (False, s) else (True, shutdown s))
            | Raised_Deferred exc \<Rightarrow> (False, handle_deferred now sl exc s)
            | Raised_Throttled latched retry_after \<Rightarrow> (False, handle_throttle now sl latched retry_after s)
            | Raised_Other timeout \<Rightarrow>
                (False, handle_slice_failure now sl timeout (be_root_attempts effect) s))
      in (raised, if sl_retained sl then s2 else s2\<lparr>co_active_revision := None\<rparr>))"

section \<open>The run loop\<close>

definition start_retained :: "DemandKind \<Rightarrow> Coord \<Rightarrow> coord_error + Coord" where
  "start_retained kind s =
     (case od_get (co_statuses s) kind of
        None \<Rightarrow> Inl (No_Selected_Revision kind)
      | Some status \<Rightarrow>
          (if st_selected status = None \<or> co_retained_task s \<noteq> None then Inl (No_Selected_Revision kind)
           else Inr (s\<lparr>co_retained_revision := st_selected status,
                       co_retained_task := Some (Retained_Created kind status)\<rparr>)))"

definition harvest_retained :: "Coord \<Rightarrow> bool \<times> Coord" where
  "harvest_retained s =
     (case co_retained_task s of
        Some (Retained_Done failed) \<Rightarrow>
          (failed, s\<lparr>co_retained_task := None, co_retained_revision := None\<rparr>)
      | _ \<Rightarrow> (False, s))"

definition pop_ready :: "Coord \<Rightarrow> DemandKind option \<times> Coord" where
  "pop_ready s = (case co_queue s of
     [] \<Rightarrow> (None, s)
   | kind # queue \<Rightarrow> (Some kind, s\<lparr>co_queue := queue, co_queued := co_queued s - {kind}\<rparr>))"

definition wait_delay :: "Now \<Rightarrow> Coord \<Rightarrow> time" where
  "wait_delay now s =
     (let boundary = (case co_next_release_at s of
            None \<Rightarrow> nw_wall now + co_safety_scan_seconds s
          | Some t \<Rightarrow> min (nw_wall now + co_safety_scan_seconds s) t);
          delays = (boundary - nw_wall now) #
            map (\<lambda>t. t - nw_mono now) (filter (\<lambda>t. t > nw_mono now)
              (List.map_filter snd (co_eligibility_waits s) @ map snd (co_transient_waits s)))
      in max MIN_WAIT_SECONDS (fold min (tl delays) (hd delays)))"

text \<open>One turn of the loop from its top to its next await, or to the end of \<^verbatim>\<open>run\<close>.\<close>

datatype turn_end =
    Waits time
  | Runs Slice
  | Continues
  | Stops "coord_error option"

definition loop_turn :: "nat \<Rightarrow> Now \<Rightarrow> adapters \<Rightarrow> Coord \<Rightarrow> (turn_end \<times> Coord) option" where
  "loop_turn fuel now status s0 =
     (if co_shutdown s0 then Some (Stops None, s0)
      else case harvest_retained (s0\<lparr>co_wake := False\<rparr>) of
        (True, s1) \<Rightarrow> Some (Stops (Some Slice_Raised), s1)
      | (False, s1) \<Rightarrow>
     (if nw_wall now < 0 then Some (Stops (Some Bad_Clock), s1)
      else case scan fuel now status True s1 of
        None \<Rightarrow> None
      | Some s2 \<Rightarrow>
     (case pop_ready s2 of
        (None, s3) \<Rightarrow> Some (Waits (wait_delay now s3), s3)
      | (Some kind, s3) \<Rightarrow>
          (if kind \<in> RETAINED_DEMAND_KINDS
           then (case start_retained kind s3 of
                   Inl e \<Rightarrow> Some (Stops (Some e), s3)
                 | Inr s4 \<Rightarrow> Some (Continues, s4))
           else case execute_slice now kind None s3 of
             Inl e \<Rightarrow> Some (Stops (Some e), s3)
           | Inr (None, s4) \<Rightarrow> Some (Continues, s4\<lparr>co_active_kind := None\<rparr>)
           | Inr (Some sl, s4) \<Rightarrow> Some (Runs sl, s4)))))"

datatype loop_phase =
    Not_Started
  | At_Top
  | Waiting
  | In_Slice Slice
  | Stopping "coord_error option"
  | Ended "coord_error option"

record System =
  sy_loop :: loop_phase
  sy_coord :: Coord

definition loop_phase_of :: "turn_end \<Rightarrow> loop_phase" where
  "loop_phase_of e = (case e of
     Waits t \<Rightarrow> Waiting | Runs sl \<Rightarrow> In_Slice sl | Continues \<Rightarrow> At_Top | Stops e \<Rightarrow> Stopping e)"

definition leave_loop :: "loop_phase \<Rightarrow> Coord \<Rightarrow> Coord" where
  "leave_loop p s = (case p of Stopping e \<Rightarrow> s\<lparr>co_state := CO_STOPPING\<rparr> | _ \<Rightarrow> s)"

definition run_retained :: "Now \<Rightarrow> Coord \<Rightarrow> Coord" where
  "run_retained now s =
     (case co_retained_task s of
        Some (Retained_Created kind status) \<Rightarrow>
          (case execute_slice now kind (Some status) s of
             Inl e \<Rightarrow> s\<lparr>co_retained_task := Some (Retained_Done True), co_wake := True\<rparr>
           | Inr (None, s1) \<Rightarrow> s1\<lparr>co_retained_task := Some (Retained_Done False), co_wake := True\<rparr>
           | Inr (Some sl, s1) \<Rightarrow> s1\<lparr>co_retained_task := Some (Retained_Running sl)\<rparr>)
      | _ \<Rightarrow> s)"

definition finish_retained :: "Now \<Rightarrow> Slice \<Rightarrow> BudgetEffect \<Rightarrow> slice_end \<Rightarrow> Coord \<Rightarrow> Coord" where
  "finish_retained now sl effect result s =
     (case finish_slice now sl effect result s of
        (raised, s1) \<Rightarrow> s1\<lparr>co_retained_task := Some (Retained_Done raised), co_wake := True\<rparr>)"

text \<open>
  The steps of the process: the loop, the slices and the retained task, and calls from the
  rest of the daemon (\<open>Offer\<close>, \<open>Changed\<close>, \<open>Shutdown\<close>) at any await. What the adapters
  answer may be different at each scan, subject to \<open>honest\<close>: a kind's adapter selects
  work of that kind.
\<close>

definition honest :: "adapters \<Rightarrow> bool" where
  "honest status \<longleftrightarrow> (\<forall>kind t excluded st w.
     status kind t excluded = Has_Status st \<longrightarrow> st_selected st = Some w \<longrightarrow>
     wk_demand_kind (wr_key w) = kind)"

inductive step :: "System \<Rightarrow> System \<Rightarrow> bool" where
  Start: "sy_loop y = Not_Started \<Longrightarrow>
    step y (y\<lparr>sy_loop := At_Top, sy_coord := (sy_coord y)\<lparr>co_state := CO_RUNNING\<rparr>\<rparr>)"
| Turn: "sy_loop y = At_Top \<Longrightarrow> honest status \<Longrightarrow>
    loop_turn fuel now status (sy_coord y) = Some (e, s) \<Longrightarrow>
    step y (y\<lparr>sy_loop := loop_phase_of e, sy_coord := leave_loop (loop_phase_of e) s\<rparr>)"
| Wake: "sy_loop y = Waiting \<Longrightarrow> step y (y\<lparr>sy_loop := At_Top\<rparr>)"
| Slice_Ends: "sy_loop y = In_Slice sl \<Longrightarrow>
    finish_slice now sl effect result (sy_coord y) = (raised, s) \<Longrightarrow>
    p = (if raised then Stopping (Some Slice_Raised) else At_Top) \<Longrightarrow>
    step y (y\<lparr>sy_loop := p, sy_coord := leave_loop p (s\<lparr>co_active_kind := None\<rparr>)\<rparr>)"
| Stop: "sy_loop y = Stopping e \<Longrightarrow>
    step y (y\<lparr>sy_loop := Ended e, sy_coord := (sy_coord y)\<lparr>co_state := CO_STOPPED,
              co_retained_task := None, co_retained_revision := None, co_active_kind := None\<rparr>\<rparr>)"
| Retained_Runs: "step y (y\<lparr>sy_coord := run_retained now (sy_coord y)\<rparr>)"
| Retained_Ends: "co_retained_task (sy_coord y) = Some (Retained_Running sl) \<Longrightarrow>
    step y (y\<lparr>sy_coord := finish_retained now sl effect result (sy_coord y)\<rparr>)"
| Offer: "offer kind (sy_coord y) = Inr (b, s) \<Longrightarrow> step y (y\<lparr>sy_coord := s\<rparr>)"
| Changed: "step y (y\<lparr>sy_coord := eligibility_changed now m (sy_coord y)\<rparr>)"
| Shutdown: "step y (y\<lparr>sy_coord := shutdown (sy_coord y)\<rparr>)"

text \<open>The constructor scans once, before the task starts.\<close>

inductive reachable :: "System \<Rightarrow> bool" where
  Init: "honest status \<Longrightarrow> 0 < interval \<Longrightarrow>
    scan fuel now status True (new_coordinator interval) = Some s \<Longrightarrow>
    reachable \<lparr>sy_loop = Not_Started, sy_coord = s\<rparr>"
| Step: "reachable y \<Longrightarrow> step y z \<Longrightarrow> reachable z"

inductive_cases StepE: "step y z"

section \<open>Start-up validation and inspection\<close>

definition contract_durable_kinds :: "contracts \<Rightarrow> DemandKind set" where
  "contract_durable_kinds cs = fst ` set (filter (\<lambda>(k, c). dc_execution_mode c = EXEC_DURABLE) cs)"

definition validate_durable_contracts :: "contracts \<Rightarrow> DemandKind set \<Rightarrow> coord_error + unit" where
  "validate_durable_contracts cs expected = guard (contract_durable_kinds cs = expected) Contracts_Mismatch"

definition validate_adapter_coverage :: "DemandKind set \<Rightarrow> DemandKind set \<Rightarrow> coord_error + unit" where
  "validate_adapter_coverage actual expected =
     guard (actual = expected) (Coverage_Mismatch (expected - actual) (actual - expected))"

definition validate_adapter_contract :: "contracts \<Rightarrow> DemandKind \<Rightarrow> coord_error + unit" where
  "validate_adapter_contract cs kind =
     guard (case od_get cs kind of None \<Rightarrow> False
            | Some c \<Rightarrow> (case dc_max_rpc_attempts_per_slice c of None \<Rightarrow> False | Some limit \<Rightarrow> 1 \<le> limit))
       (No_Slice_Budget kind)"

text \<open>\<open>actual\<close> are the kinds that have an adapter.\<close>

definition validate_durable_adapters :: "DemandKind set \<Rightarrow> contracts \<Rightarrow> coord_error + unit" where
  "validate_durable_adapters actual cs =
     (let expected = set DURABLE_DEMAND_ORDER in
      then_check (validate_durable_contracts cs expected)
        (then_check (validate_adapter_coverage actual expected)
          (check_all (validate_adapter_contract cs) DURABLE_DEMAND_ORDER)))"

record WorkInspection =
  wi_coordinator_state :: CoordinatorState
  wi_active_for_target :: bool
  wi_active_revision_matches :: "bool option"
  wi_selected_for_kind :: bool
  wi_excluded :: bool
  wi_hold_kind :: string
  wi_reason :: "string option"
  wi_retry_after_seconds :: "time option"
  wi_attempts :: "int option"
  wi_invocation_remaining_seconds :: "time option"

definition inspect_active :: "Coord \<Rightarrow> DemandKind \<Rightarrow> WorkRevision option" where
  "inspect_active s kind =
     (if \<not> retained_kind s kind then co_active_revision s
      else case co_retained_task s of
        None \<Rightarrow> None
      | Some (Retained_Done failed) \<Rightarrow> None
      | Some t \<Rightarrow> co_retained_revision s)"

definition inspect_hold :: "Coord \<Rightarrow> WorkRevision \<Rightarrow> time \<Rightarrow> string \<times> time option" where
  "inspect_hold s w now =
     (let rest = (case od_get (co_eligibility_waits s) w of
            Some until \<Rightarrow> (''gate_wait'', until)
          | None \<Rightarrow> (if w \<in> co_excluded s then (''excluded'', None) else (''none'', None)))
      in case od_get (co_transient_waits s) w of
           Some t \<Rightarrow> (if now < t then (''transient_backoff'', Some t) else rest)
         | None \<Rightarrow> rest)"

definition inspect_work :: "Now \<Rightarrow> WorkRevision \<Rightarrow> Coord \<Rightarrow> WorkInspection" where
  "inspect_work now w s =
     (let active = inspect_active s (wk_demand_kind (wr_key w));
          status = od_get (co_statuses s) (wk_demand_kind (wr_key w));
          invocation = od_get (co_invocations s) w;
          (hold, deadline) = inspect_hold s w (nw_mono now);
          active_for_target = (case active of None \<Rightarrow> False | Some a \<Rightarrow> wr_key a = wr_key w)
      in \<lparr> wi_coordinator_state = co_state s,
           wi_active_for_target = active_for_target,
           wi_active_revision_matches = (if active_for_target then Some (active = Some w) else None),
           wi_selected_for_kind = (case status of None \<Rightarrow> False | Some st \<Rightarrow> st_selected st = Some w),
           wi_excluded = (w \<in> co_excluded s),
           wi_hold_kind = hold,
           wi_reason = (if hold = ''transient_backoff'' then Some ''retryable_failure''
                        else od_get (co_exclusion_reasons s) w),
           wi_retry_after_seconds = map_option (\<lambda>t. max 0 (t - nw_mono now)) deadline,
           wi_attempts = map_option (\<lambda>iv. attempts_of s (iv_budget iv)) invocation,
           wi_invocation_remaining_seconds =
             (case invocation of None \<Rightarrow> None
              | Some iv \<Rightarrow> map_option (\<lambda>t. max 0 (t - nw_mono now)) (iv_deadline iv)) \<rparr>)"

end
