(* ===== verification/Coordinator_Props.thy ===== *)
theory Coordinator_Props
  imports Coordinator
begin

text \<open>
  What the coordinator guarantees: its queue and retained task stay consistent so that its
  internal errors never happen, a slice only starts for work that is due, not held and
  within its deadline and budget, every slice that commits nothing leaves its work held, a
  scan ends, and the loop sleeps neither too long nor not at all.
\<close>

section \<open>Frames\<close>

text \<open>The lane: the part of the state that decides what runs next.\<close>

definition lane :: "Coord \<Rightarrow> DemandKind list \<times> DemandKind set \<times> (DemandKind \<times> DemandStatus) list \<times>
    DemandKind option \<times> WorkRevision option \<times> retained_task option \<times> (DemandKind \<times> time) list" where
  "lane s = (co_queue s, co_queued s, co_statuses s, co_active_kind s, co_retained_revision s,
     co_retained_task s, co_status_failed_until s)"

lemma lane_update [simp]:
  "lane (s\<lparr>co_excluded := a\<rparr>) = lane s" "lane (s\<lparr>co_exclusion_reasons := b\<rparr>) = lane s"
  "lane (s\<lparr>co_eligibility_waits := c\<rparr>) = lane s" "lane (s\<lparr>co_released_gate_waits := a\<rparr>) = lane s"
  "lane (s\<lparr>co_transient_waits := d\<rparr>) = lane s" "lane (s\<lparr>co_transient_stages := e\<rparr>) = lane s"
  "lane (s\<lparr>co_revision_methods := f\<rparr>) = lane s" "lane (s\<lparr>co_invocations := g\<rparr>) = lane s"
  "lane (s\<lparr>co_budgets := h\<rparr>) = lane s" "lane (s\<lparr>co_accounts := i\<rparr>) = lane s"
  "lane (s\<lparr>co_fresh := j\<rparr>) = lane s" "lane (s\<lparr>co_wake := k\<rparr>) = lane s"
  "lane (s\<lparr>co_shutdown := k\<rparr>) = lane s" "lane (s\<lparr>co_offered := l\<rparr>) = lane s"
  "lane (s\<lparr>co_active_revision := m\<rparr>) = lane s" "lane (s\<lparr>co_progress := j\<rparr>) = lane s"
  "lane (s\<lparr>co_eligibility_generation := j\<rparr>) = lane s" "lane (s\<lparr>co_next_release_at := n\<rparr>) = lane s"
  "lane (s\<lparr>co_authoritative_ready := l\<rparr>) = lane s" "lane (s\<lparr>co_queued_since := p\<rparr>) = lane s"
  "lane (s\<lparr>co_state := q\<rparr>) = lane s"
  by (simp_all add: lane_def)

lemma lane_holds [simp]:
  "lane (exclude w r s) = lane s" "lane (readmit w s) = lane s" "lane (set_wait w u s) = lane s"
  "lane (drop_wait w s) = lane s" "lane (set_method w m s) = lane s"
  "lane (release_gate_wait w s) = lane s" "lane (forget_work w s) = lane s"
  "lane (shutdown s) = lane s" "lane (forget_candidate b s) = lane s" "lane (set_limit b n s) = lane s"
  by (simp_all add: exclude_def readmit_def set_wait_def drop_wait_def set_method_def
      release_gate_wait_def forget_work_def shutdown_def forget_candidate_def set_limit_def Let_def)

lemma lane_prepare [simp]: "lane (snd (prepare_retry now b m s)) = lane s"
  by (simp add: prepare_retry_def split: prod.splits option.splits)

lemma lane_prepareD: "prepare_retry now b m s = (a, s') \<Longrightarrow> lane s' = lane s"
  using lane_prepare [of now b m s] by simp

lemma lane_leave_loop [simp]: "lane (leave_loop p s) = lane s"
  by (simp add: leave_loop_def split: loop_phase.split)

lemma lane_fold:
  "(\<And>x s. lane (f x s) = lane s) \<Longrightarrow> lane s0 = lane s \<Longrightarrow> lane (fold f xs s0) = lane s"
  by (induction xs arbitrary: s0) simp_all

lemma lane_releases [simp]:
  "lane (release_ready_gate_waits now s) = lane s" "lane (eligibility_changed now m s) = lane s"
  "lane (prune_revised_invocations w s) = lane s" "lane (prepare_expired_gate_waits now s) = lane s"
  "lane (readmit_expired_transients now s) = lane s" "lane (recompute_next_release t s) = lane s"
  unfolding release_ready_gate_waits_def eligibility_changed_def prune_revised_invocations_def
    prepare_expired_gate_waits_def readmit_expired_transients_def recompute_next_release_def Let_def
  by (auto intro!: lane_fold split: option.split)

lemma lane_parks [simp]:
  "lane (park_throttle now w m l r s) = lane s"
  "lane (strengthen_throttle_wait now w l r c s) = lane s"
  by (simp_all add: park_throttle_def strengthen_throttle_wait_def Let_def split: option.split)

lemma lane_new_invocation: "new_invocation w n d s = Inr (iv, s') \<Longrightarrow> lane s' = lane s"
  by (auto simp: new_invocation_def Let_def split: sum.splits prod.splits)

lemma lane_park_deferral: "park_method_deferral now k w m d s = Inr s' \<Longrightarrow> lane s' = lane s"
  by (auto simp: park_method_deferral_def Let_def split: sum.splits prod.splits option.splits if_splits
      dest: lane_new_invocation)

lemma lane_eligibility_status: "eligibility_status now k st t s = Inr (r, s') \<Longrightarrow> lane s' = lane s"
  by (auto simp: eligibility_status_def Let_def dest: lane_park_deferral
      split: sum.splits prod.splits option.splits if_splits gate_hint.splits bool.splits)

lemma lane_set_deadline [simp]: "lane (snd (set_deadline w iv t s)) = lane s"
  by (simp add: set_deadline_def Let_def)

lemma lane_set_deadlineD: "set_deadline w iv t s = (iv', s') \<Longrightarrow> lane s' = lane s"
  using lane_set_deadline [of w iv t s] by simp

lemma lane_activate: "activate_transient_retry now w st iv n t s = (iv', s') \<Longrightarrow> lane s' = lane s"
  by (auto simp: activate_transient_retry_def Let_def split: prod.splits option.splits if_splits
      dest!: lane_set_deadlineD lane_prepareD)

lemma lane_resume: "resume_gate_wait now w st iv t s = (iv', s') \<Longrightarrow> lane s' = lane s"
  by (auto simp: resume_gate_wait_def Let_def split: prod.splits option.splits if_splits
      dest!: lane_set_deadlineD lane_prepareD)

lemma lane_authorize: "authorize_invocation now k w st iv s = (ok, iv', s') \<Longrightarrow> lane s' = lane s"
  by (auto simp: authorize_invocation_def Let_def split: prod.splits option.splits if_splits
      dest!: lane_set_deadlineD lane_prepareD)

lemma lane_handlers [simp]:
  "lane (handle_capacity_deferred now sl s) = lane s"
  "lane (handle_deferral now sl d s) = lane s" "lane (handle_pending now sl m why s) = lane s"
  "lane (handle_throttle now sl l r s) = lane s"
  "lane (park_read_budget_failure now sl m s) = lane s"
  "lane (handle_deferred now sl exc s) = lane s" "lane (schedule_transient_retry now w s) = lane s"
  "lane (handle_slice_failure now sl b n s) = lane s"
  by (auto simp: handle_capacity_deferred_def handle_deferral_def handle_pending_def
      handle_throttle_def park_read_budget_failure_def handle_deferred_def
      schedule_transient_retry_def handle_slice_failure_def Let_def
      split: option.split gate_hint.split deferred_exc.split)

lemma lane_outcome [simp]: "lane (handle_outcome now sl r s) = lane s"
  by (auto simp: handle_outcome_def handle_outcome_deferred_def Let_def
      split: option.splits gate_hint.splits)

lemma lane_finish: "finish_slice now sl e r s = (raised, s') \<Longrightarrow> lane s' = lane s"
  by (auto simp: finish_slice_def apply_effect_def Let_def split: slice_end.splits if_splits)

section \<open>The lane stays consistent\<close>

lemma durable_slice_budget:
  assumes "k \<in> set DURABLE_DEMAND_ORDER"
  obtains n where "dc_max_rpc_attempts_per_slice (contract_of k) = Some n" and "1 \<le> n"
  using assms contract_of_durable contract_of_mode by metis

lemma retained_durable: "RETAINED_DEMAND_KINDS \<subseteq> set DURABLE_DEMAND_ORDER"
  by (simp add: RETAINED_DEMAND_KINDS_def DURABLE_DEMAND_ORDER_def)

lemma new_invocation_ok: "1 \<le> n \<Longrightarrow> \<exists>iv s'. new_invocation w n d s = Inr (iv, s')"
  by (simp add: new_invocation_def rpc_attempt_budget_new_def Let_def guard_def)

text \<open>A status that selects work of its kind.\<close>

definition selects :: "DemandKind \<Rightarrow> DemandStatus \<Rightarrow> bool" where
  "selects k st \<longleftrightarrow> (\<exists>w. st_selected st = Some w \<and> wk_demand_kind (wr_key w) = k)"

fun task_ok :: "WorkRevision \<Rightarrow> retained_task \<Rightarrow> bool" where
  "task_ok w (Retained_Created k st) \<longleftrightarrow> k = wk_demand_kind (wr_key w) \<and> selects k st"
| "task_ok w (Retained_Running sl) \<longleftrightarrow> sl_retained sl"
| "task_ok w (Retained_Done failed) \<longleftrightarrow> True"

fun retained_ok :: "retained_task option \<Rightarrow> WorkRevision option \<Rightarrow> bool" where
  "retained_ok None r \<longleftrightarrow> r = None"
| "retained_ok (Some t) r \<longleftrightarrow>
     (\<exists>w. r = Some w \<and> wk_demand_kind (wr_key w) \<in> RETAINED_DEMAND_KINDS \<and> task_ok w t)"

text \<open>\<open>K\<close> is the kind under inspection, whose status is not settled yet.\<close>

definition lane_ok :: "DemandKind set \<Rightarrow> Coord \<Rightarrow> bool" where
  "lane_ok K s \<longleftrightarrow> distinct (co_queue s) \<and> set (co_queue s) = co_queued s \<and>
     co_queued s \<subseteq> set DURABLE_DEMAND_ORDER \<and>
     (\<forall>k \<in> co_queued s - K. \<exists>st. od_get (co_statuses s) k = Some st \<and> selects k st) \<and>
     retained_ok (co_retained_task s) (co_retained_revision s)"

lemma lane_ok_cong: "lane s' = lane s \<Longrightarrow> lane_ok K s' = lane_ok K s"
  by (simp add: lane_def lane_ok_def)

lemma lane_ok_mono: "lane_ok {} s \<Longrightarrow> lane_ok K s"
  by (auto simp: lane_ok_def)

lemma lane_ok_active [simp]: "lane_ok K (s\<lparr>co_active_kind := a\<rparr>) = lane_ok K s"
  by (simp add: lane_ok_def)

lemma lane_ok_statuses:
  "lane_ok {k} s \<Longrightarrow> lane_ok {k} (s\<lparr>co_statuses := od_put k st (co_statuses s)\<rparr>)"
  "lane_ok {k} s \<Longrightarrow> lane_ok {k} (s\<lparr>co_statuses := od_del k (co_statuses s)\<rparr>)"
  by (auto simp: lane_ok_def)

lemma remove_queued_lane:
  "lane_ok {k} s \<Longrightarrow> lane_ok {} (remove_queued k s) \<and> k \<notin> co_queued (remove_queued k s)"
  by (auto simp: lane_ok_def remove_queued_def set_remove1_eq distinct_remove1)

lemma drop_ready_lane:
  assumes "lane_ok {k} s"
  shows "lane_ok {} (drop_ready k s)" "k \<notin> co_queued (drop_ready k s)"
proof -
  have "lane_ok {k} (s\<lparr>co_authoritative_ready := co_authoritative_ready s - {k}\<rparr>)"
    using assms by (simp add: lane_ok_def)
  from remove_queued_lane [OF this]
  show "lane_ok {} (drop_ready k s)" "k \<notin> co_queued (drop_ready k s)"
    by (simp_all add: drop_ready_def)
qed

lemma enqueue_lane:
  assumes "lane_ok {k} s" "k \<in> set DURABLE_DEMAND_ORDER"
    and "od_get (co_statuses s) k = Some st" "selects k st"
  shows "lane_ok {} (enqueue k t s)"
  using assms by (auto simp: lane_ok_def enqueue_def Let_def)

lemma eligibility_status_ready:
  assumes "eligibility_status now k st t s = Inr ((st', True), s')"
  shows "st' = st \<and> (\<exists>w. st_selected st = Some w)"
  using assms
  by (auto simp: eligibility_status_def Let_def
      split: sum.splits prod.splits option.splits if_splits gate_hint.splits bool.splits)

text \<open>The state in which a status is judged.\<close>

definition recorded :: "DemandKind \<Rightarrow> DemandStatus \<Rightarrow> Coord \<Rightarrow> Coord" where
  "recorded k st s = (let s1 = s\<lparr>co_statuses := od_put k st (co_statuses s)\<rparr> in
     case st_selected st of None \<Rightarrow> s1 | Some w \<Rightarrow> prune_revised_invocations w s1)"

definition held :: "DemandStatus \<Rightarrow> Coord \<Rightarrow> bool" where
  "held st s = (case st_selected st of None \<Rightarrow> False | Some w \<Rightarrow> w \<in> co_excluded s)"

lemma apply_status_Some:
  "apply_status now k (Some st) t s =
     (if held st (recorded k st s) then (None, drop_ready k (recorded k st s))
      else case eligibility_status now k st t (recorded k st s) of
        Inl e \<Rightarrow> (Some e, recorded k st s)
      | Inr ((st', ready), s3) \<Rightarrow>
          (None, (if ready then enqueue k t else drop_ready k)
             (s3\<lparr>co_statuses := od_put k st' (co_statuses s3)\<rparr>)))"
  by (simp add: apply_status_def recorded_def held_def Let_def split: sum.split prod.split)

lemma recorded_lane: "lane_ok {} s \<Longrightarrow> lane_ok {k} (recorded k st s)"
  using lane_ok_statuses(1) [OF lane_ok_mono, of s k st]
    lane_ok_cong [OF lane_releases(3), of "{k}" _ "s\<lparr>co_statuses := od_put k st (co_statuses s)\<rparr>"]
  by (auto simp: recorded_def Let_def split: option.split)

lemma apply_status_lane:
  assumes "lane_ok {} s" "k \<in> set DURABLE_DEMAND_ORDER"
    and honest: "case answer of None \<Rightarrow> True | Some st \<Rightarrow>
      (\<forall>w. st_selected st = Some w \<longrightarrow> wk_demand_kind (wr_key w) = k)"
    and app: "apply_status now k answer t s = (err, s')"
  shows "lane_ok {k} s' \<and> (err = None \<longrightarrow> lane_ok {} s')"
proof (cases answer)
  case None
  then show ?thesis
    using app drop_ready_lane(1) [of k "s\<lparr>co_statuses := od_del k (co_statuses s)\<rparr>"]
      lane_ok_statuses(2) [OF lane_ok_mono [OF assms(1)]]
    by (auto simp: apply_status_def intro: lane_ok_mono)
next
  case (Some st)
  let ?s2 = "recorded k st s"
  have l2: "lane_ok {k} ?s2" using assms(1) by (rule recorded_lane)
  consider (held) "held st ?s2" | (err) e where "\<not> held st ?s2" "eligibility_status now k st t ?s2 = Inl e"
    | (ok) st' ready s3 where "\<not> held st ?s2" "eligibility_status now k st t ?s2 = Inr ((st', ready), s3)"
    by (metis sum.exhaust_sel prod.exhaust_sel)
  then show ?thesis
  proof cases
    case held
    then show ?thesis using app drop_ready_lane(1) [OF l2]
      by (auto simp: apply_status_Some Some intro: lane_ok_mono)
  next
    case err
    then show ?thesis using app l2 by (auto simp: apply_status_Some Some)
  next
    case ok
    let ?s4 = "s3\<lparr>co_statuses := od_put k st' (co_statuses s3)\<rparr>"
    have "lane_ok {k} s3"
      using lane_eligibility_status [OF ok(2)] l2 lane_ok_cong by metis
    then have l4: "lane_ok {k} ?s4" by (rule lane_ok_statuses)
    have "lane_ok {} (enqueue k t ?s4)" if ready
      using eligibility_status_ready ok(2) that honest Some
      by (intro enqueue_lane [OF l4 assms(2)]) (fastforce simp: selects_def)+
    then show ?thesis
      using app ok drop_ready_lane(1) [OF l4]
      by (auto simp: apply_status_Some Some intro: lane_ok_mono)
  qed
qed

lemma honestD:
  "honest status \<Longrightarrow> status k t ex = Has_Status st \<Longrightarrow> st_selected st = Some w \<Longrightarrow>
   wk_demand_kind (wr_key w) = k"
  by (auto simp: honest_def)

lemma scan_available_lane:
  assumes "honest status" "k \<in> set DURABLE_DEMAND_ORDER"
  shows "lane_ok {} s \<Longrightarrow> scan_available_kind fuel now status k t s = Some (ok, s') \<Longrightarrow>
    lane_ok {k} s' \<and> (ok \<longrightarrow> lane_ok {} s')"
proof (induction fuel arbitrary: s)
  case (Suc fuel)
  show ?case
  proof (cases "status k t (co_excluded s)")
    case Status_Raises
    then show ?thesis using Suc.prems by (auto intro: lane_ok_mono)
  next
    case No_Status
    obtain err s1 where app: "apply_status now k None t s = (err, s1)" by fastforce
    then have "err = None" by (simp add: apply_status_def)
    then show ?thesis
      using Suc.prems(2) No_Status app apply_status_lane [OF Suc.prems(1) assms(2) _ app]
      by (auto simp: Let_def)
  next
    case (Has_Status st)
    obtain err s1 where app: "apply_status now k (Some st) t s = (err, s1)" by fastforce
    have "lane_ok {k} s1 \<and> (err = None \<longrightarrow> lane_ok {} s1)"
      by (rule apply_status_lane [OF Suc.prems(1) assms(2) _ app])
        (use honestD [OF assms(1) Has_Status] in simp)
    then show ?thesis
      using Suc.prems(2) Suc.IH [of s1] Has_Status app
      by (cases err) (auto simp: Let_def split: option.splits if_splits)
  qed
qed simp

lemma scan_kind_lane:
  assumes "honest status" "k \<in> set DURABLE_DEMAND_ORDER" "lane_ok {} s"
    and "scan_kind fuel now status t k s = Some s'"
  shows "lane_ok {} s'"
proof -
  have fail: "lane_ok {} (record_status_failure k t s1)" if "lane_ok {k} s1" for s1
  proof -
    have "lane_ok {k} (s1\<lparr>co_status_failed_until := u, co_statuses := od_del k (co_statuses s1)\<rparr>)" for u
      using that by (auto simp: lane_ok_def)
    then show ?thesis unfolding record_status_failure_def by (rule drop_ready_lane(1))
  qed
  have fine: "lane_ok {} (s1\<lparr>co_status_failed_until := u\<rparr>) = lane_ok {} s1" for s1 u
    by (simp add: lane_ok_def)
  show ?thesis
    using assms(4) scan_available_lane [OF assms(1,2,3)] remove_queued_lane [OF lane_ok_mono [OF assms(3)]]
      assms(3) fail fine
    by (auto simp: scan_kind_def split: if_splits option.splits bool.splits)
qed

lemma lane_parts:
  assumes "lane s' = lane s"
  shows "co_queue s' = co_queue s" "co_queued s' = co_queued s" "co_statuses s' = co_statuses s"
    "co_retained_revision s' = co_retained_revision s" "co_retained_task s' = co_retained_task s"
    "co_status_failed_until s' = co_status_failed_until s" "co_active_kind s' = co_active_kind s"
  using assms by (simp_all add: lane_def)

text \<open>What scanning a kind may do to the queue: queue that kind or drop it, no more.\<close>

definition queues_only :: "DemandKind \<Rightarrow> Coord \<Rightarrow> Coord \<Rightarrow> bool" where
  "queues_only k s s' \<longleftrightarrow> co_queued s' \<subseteq> insert k (co_queued s) \<and>
     co_retained_revision s' = co_retained_revision s \<and> co_retained_task s' = co_retained_task s \<and>
     (\<forall>j. j \<noteq> k \<longrightarrow>
        od_get (co_status_failed_until s') j = od_get (co_status_failed_until s) j \<and>
        od_get (co_statuses s') j = od_get (co_statuses s) j)"

lemma queues_only_trans: "queues_only k s s1 \<Longrightarrow> queues_only k s1 s2 \<Longrightarrow> queues_only k s s2"
  by (auto simp: queues_only_def)

lemma queues_only_lane: "lane s' = lane s \<Longrightarrow> queues_only k s s'"
  by (auto simp: queues_only_def dest: lane_parts)

lemma queues_only_simps [simp]:
  "queues_only k s (drop_ready k s)" "queues_only k s (enqueue k t s)" "queues_only k s s"
  "queues_only k s (s\<lparr>co_statuses := od_put k st (co_statuses s)\<rparr>)"
  "queues_only k s (remove_queued k s)"
  "queues_only k s (s\<lparr>co_statuses := od_del k (co_statuses s)\<rparr>)"
  by (auto simp: queues_only_def drop_ready_def remove_queued_def enqueue_def Let_def)

lemma queues_only_recorded: "queues_only k s (recorded k st s)"
proof -
  have "queues_only k (s\<lparr>co_statuses := od_put k st (co_statuses s)\<rparr>) (recorded k st s)"
    by (rule queues_only_lane) (simp add: recorded_def Let_def split: option.split)
  then show ?thesis by (rule queues_only_trans [OF queues_only_simps(4)])
qed

lemma apply_status_queues: "apply_status now k answer t s = (err, s') \<Longrightarrow> queues_only k s s'"
proof (cases answer)
  case None
  assume "apply_status now k answer t s = (err, s')"
  with None show ?thesis
    using queues_only_trans [OF queues_only_simps(6) queues_only_simps(1)]
    by (auto simp: apply_status_def)
next
  case (Some st)
  assume app: "apply_status now k answer t s = (err, s')"
  note r = queues_only_recorded [of k s st]
  have "queues_only k (recorded k st s) s'"
    if "eligibility_status now k st t (recorded k st s) = Inr ((st', ready), s3)"
      "s' = (if ready then enqueue k t else drop_ready k)
             (s3\<lparr>co_statuses := od_put k st' (co_statuses s3)\<rparr>)" for st' ready s3
    by (rule queues_only_trans [OF queues_only_lane [OF lane_eligibility_status [OF that(1)]]],
        rule queues_only_trans [OF queues_only_simps(4) [of _ _ st']])
      (simp add: that(2))
  then show ?thesis
    using app r queues_only_trans [OF r]
    by (auto simp: apply_status_Some Some split: if_splits sum.splits)
qed

lemma scan_available_queues:
  "scan_available_kind fuel now status k t s = Some (ok, s') \<Longrightarrow> queues_only k s s'"
proof (induction fuel arbitrary: s)
  case (Suc fuel)
  show ?case
  proof (cases "status k t (co_excluded s)")
    case (Has_Status st)
    obtain err s1 where app: "apply_status now k (Some st) t s = (err, s1)" by fastforce
    note q = apply_status_queues [OF app]
    show ?thesis
      using Suc.prems Suc.IH [of s1] Has_Status app q queues_only_trans [OF q]
      by (cases err) (auto simp: Let_def split: option.splits if_splits)
  next
    case No_Status
    then show ?thesis
      using Suc.prems apply_status_queues [of now k None t s, OF prod.collapse [symmetric]]
      by (simp add: Let_def)
  qed (use Suc.prems in simp)
qed simp

lemma scan_kind_queues:
  assumes "scan_kind fuel now status t k s = Some s'"
  shows "queues_only k s s'" "j \<in> co_queued s' \<Longrightarrow> retained_kind s j \<Longrightarrow> lane_ok {} s \<Longrightarrow> j \<in> co_queued s \<and> j \<noteq> k"
proof -
  have fine: "queues_only k s1 (s1\<lparr>co_status_failed_until := od_del k (co_status_failed_until s1)\<rparr>)" for s1
    by (simp add: queues_only_def subset_insertI)
  have fail: "queues_only k s1 (record_status_failure k t s1)" for s1
    unfolding record_status_failure_def
    by (rule queues_only_trans [OF _ queues_only_simps(1)]) (simp add: queues_only_def subset_insertI)
  have avail: "queues_only k s (s1\<lparr>co_status_failed_until := od_del k (co_status_failed_until s1)\<rparr>)"
    "queues_only k s (record_status_failure k t s1)"
    if "scan_available_kind fuel now status k t s = Some (ok, s1)" for ok s1
    using queues_only_trans [OF scan_available_queues [OF that]] fine fail by blast+
  show "queues_only k s s'"
    using assms avail by (auto simp: scan_kind_def split: if_splits option.splits bool.splits)
  then show "j \<in> co_queued s \<and> j \<noteq> k"
    if "j \<in> co_queued s'" "retained_kind s j" "lane_ok {} s"
    using that assms remove_queued_lane [OF lane_ok_mono [OF that(3)], of k]
    by (cases "retained_kind s k")
      (auto simp: scan_kind_def queues_only_def retained_kind_def split: option.splits)
qed

lemma scan_kinds_lane:
  assumes "honest status"
  shows "set ks \<subseteq> set DURABLE_DEMAND_ORDER \<Longrightarrow> lane_ok {} s \<Longrightarrow>
    scan_kinds fuel now status t ks s = Some s' \<Longrightarrow>
    lane_ok {} s' \<and> co_retained_revision s' = co_retained_revision s \<and>
    co_retained_task s' = co_retained_task s \<and>
    (\<forall>j \<in> co_queued s'. retained_kind s j \<longrightarrow> j \<in> co_queued s - set ks)"
proof (induction ks arbitrary: s)
  case (Cons k ks)
  from Cons.prems(3) obtain s1 where s1: "scan_kind fuel now status t k s = Some s1"
    and rest: "scan_kinds fuel now status t ks s1 = Some s'" by (auto split: option.splits)
  have "lane_ok {} s1" using scan_kind_lane [OF assms _ Cons.prems(2) s1] Cons.prems(1) by simp
  moreover have "co_retained_revision s1 = co_retained_revision s \<and> co_retained_task s1 = co_retained_task s"
    using scan_kind_queues(1) [OF s1] by (simp add: queues_only_def)
  ultimately show ?case
    using Cons.IH [OF _ _ rest] Cons.prems(1,2) scan_kind_queues(2) [OF s1]
    by (auto simp: retained_kind_def)
qed auto

lemma scan_lane:
  assumes "honest status" "lane_ok {} s" "scan fuel now status clear s = Some s'"
  shows "lane_ok {} s'" "co_retained_task s' = co_retained_task s"
    "\<And>k. k \<in> co_queued s' \<Longrightarrow> \<not> retained_kind s' k"
proof -
  let ?s1 = "readmit_expired_transients now (prepare_expired_gate_waits now s)"
  define s2 where "s2 = (if clear then ?s1\<lparr>co_offered := {}\<rparr> else ?s1)"
  have l2: "lane s2 = lane s" by (simp add: s2_def)
  obtain s3 where s3: "scan_kinds fuel now status (nw_wall now) DURABLE_DEMAND_ORDER s2 = Some s3"
    and s': "s' = recompute_next_release (nw_wall now) s3"
    using assms(3) unfolding scan_def Let_def s2_def by auto
  have l3: "lane s' = lane s3" by (simp add: s')
  from scan_kinds_lane [OF assms(1) order_refl _ s3]
  have k: "lane_ok {} s3" "co_retained_revision s3 = co_retained_revision s2"
    "co_retained_task s3 = co_retained_task s2"
    "\<And>j. j \<in> co_queued s3 \<Longrightarrow> \<not> (retained_kind s2 j \<and> j \<in> set DURABLE_DEMAND_ORDER)"
    using lane_ok_cong [OF l2] assms(2) by blast+
  show ok: "lane_ok {} s'" using k(1) lane_ok_cong [OF l3] by simp
  show "co_retained_task s' = co_retained_task s"
    using k(3) lane_parts(5) [OF l3] lane_parts(5) [OF l2] by simp
  show "\<not> retained_kind s' j" if "j \<in> co_queued s'" for j
    using k(2) k(4) [of j] that lane_parts [OF l3] ok by (auto simp: lane_ok_def retained_kind_def)
qed

section \<open>The internal errors never happen\<close>

lemma begin_slice_lane:
  "begin_slice now k w st iv r s = (sl, s') \<Longrightarrow> lane_ok K s' = lane_ok K s \<and>
     co_retained_task s' = co_retained_task s \<and> (\<forall>x. sl = Some x \<longrightarrow> sl_retained x = r)"
  by (cases r) (auto simp: begin_slice_def lane_ok_def)

text \<open>
  An adapter's status that selects work lets a slice of a durable kind begin, or wait, and
  leaves the lane as it was.
\<close>

lemma execute_slice_lane:
  assumes k: "k \<in> set DURABLE_DEMAND_ORDER" and st: "selects k st"
    and given: "retained = Some st \<or> retained = None \<and> od_get (co_statuses s) k = Some st"
  obtains sl s' where "execute_slice now k retained s = Inr (sl, s')"
    and "lane_ok K s' = lane_ok K s" and "co_retained_task s' = co_retained_task s"
    and "\<And>x. sl = Some x \<Longrightarrow> sl_retained x = (retained \<noteq> None)"
proof -
  from k obtain n where n: "dc_max_rpc_attempts_per_slice (contract_of k) = Some n" "1 \<le> n"
    by (rule durable_slice_budget)
  from st obtain w where w: "st_selected st = Some w" by (auto simp: selects_def)
  let ?d = "nw_mono now + dc_admission_timeout_seconds (contract_of k)"
  let ?s0 = "s\<lparr>co_queued_since := od_del k (co_queued_since s)\<rparr>"
  obtain iv s1 where iv: "(case od_get (co_invocations ?s0) w of Some iv \<Rightarrow> Inr (iv, ?s0)
      | None \<Rightarrow> new_invocation w n (Some ?d) ?s0) = Inr (iv, s1)"
    using new_invocation_ok [OF n(2), of w "Some ?d" ?s0] by (cases "od_get (co_invocations ?s0) w") auto
  then have l1: "lane s1 = lane s"
    by (auto dest!: lane_new_invocation split: option.splits)
  define called where "called =
    method_for_work (Some w) (Some (co_budgets s1 (iv_budget iv))) (st_request_method st) s1"
  define waits where "waits = (case od_get (co_transient_waits s1) w of None \<Rightarrow> False
    | Some t \<Rightarrow> nw_mono now < t \<or> eligibility now called \<noteq> Clear)"
  obtain iv2 s2 where a2: "(case od_get (co_transient_waits s1) w of
        None \<Rightarrow> (iv, s1)
      | Some t \<Rightarrow> activate_transient_retry now w st iv n
          (dc_admission_timeout_seconds (contract_of k))
          (s1\<lparr>co_transient_waits := od_del w (co_transient_waits s1)\<rparr>)) = (iv2, s2)" by fastforce
  obtain iv3 s3 where a3: "resume_gate_wait now w st iv2
      (dc_admission_timeout_seconds (contract_of k)) s2 = (iv3, s3)" by fastforce
  obtain ok iv4 s4 where a4: "authorize_invocation now k w st iv3 s3 = (ok, iv4, s4)"
    by (metis prod_cases3)
  have l4: "lane s4 = lane s1"
    using a2 lane_resume [OF a3] lane_authorize [OF a4]
    by (auto split: option.splits dest: lane_activate)
  have st': "(case retained of None \<Rightarrow> od_get (co_statuses ?s0) k | Some st \<Rightarrow> Some st) = Some st"
    using given by auto
  have "execute_slice now k retained s =
      (if waits then Inr (None, s1) else if ok then Inr (begin_slice now k w st iv4 (retained \<noteq> None) s4)
       else Inr (None, s4))"
    unfolding execute_slice_def n(1) Let_def option.case st' w iv sum.case prod.case
      waits_def called_def a2 a3 a4 ..
  then have result: "\<exists>sl s'. execute_slice now k retained s = Inr (sl, s') \<and>
      (lane s' = lane s1 \<and> sl = None \<or>
       (\<exists>iv4 s4. lane s4 = lane s1 \<and> begin_slice now k w st iv4 (retained \<noteq> None) s4 = (sl, s')))"
    using l4 by (cases "begin_slice now k w st iv4 (retained \<noteq> None) s4") auto
  then obtain sl s' where e: "execute_slice now k retained s = Inr (sl, s')"
    and c: "lane s' = lane s1 \<and> sl = None \<or>
       (\<exists>iv4 s4. lane s4 = lane s1 \<and> begin_slice now k w st iv4 (retained \<noteq> None) s4 = (sl, s'))"
    by blast
  have "lane_ok K s' = lane_ok K s \<and> co_retained_task s' = co_retained_task s \<and>
      (\<forall>x. sl = Some x \<longrightarrow> sl_retained x = (retained \<noteq> None))"
    using c
  proof
    assume "lane s' = lane s1 \<and> sl = None"
    then show ?thesis using l1 lane_ok_cong [of s' s K] lane_parts(5) [of s' s] by simp
  next
    assume "\<exists>iv4 s4. lane s4 = lane s1 \<and> begin_slice now k w st iv4 (retained \<noteq> None) s4 = (sl, s')"
    then obtain iv4 s4 where s4: "lane s4 = lane s"
      and b: "begin_slice now k w st iv4 (retained \<noteq> None) s4 = (sl, s')" using l1 by auto
    show ?thesis using begin_slice_lane [OF b, of K] lane_ok_cong [OF s4, of K] lane_parts(5) [OF s4] by simp
  qed
  with e show ?thesis using that by blast
qed

definition expected_stop :: "coord_error option \<Rightarrow> bool" where
  "expected_stop e \<longleftrightarrow> e \<in> {None, Some Slice_Raised, Some Bad_Clock}"

fun phase_ok :: "loop_phase \<Rightarrow> bool" where
  "phase_ok (In_Slice sl) \<longleftrightarrow> \<not> sl_retained sl"
| "phase_ok (Stopping e) \<longleftrightarrow> expected_stop e"
| "phase_ok (Ended e) \<longleftrightarrow> expected_stop e"
| "phase_ok p \<longleftrightarrow> True"

definition system_ok :: "System \<Rightarrow> bool" where
  "system_ok y \<longleftrightarrow> lane_ok {} (sy_coord y) \<and> phase_ok (sy_loop y)"

lemma harvest_lane:
  "lane_ok {} s \<Longrightarrow> harvest_retained s = (failed, s') \<Longrightarrow> lane_ok {} s'"
  by (auto simp: harvest_retained_def lane_ok_def split: option.splits retained_task.splits)

lemma pop_ready_lane:
  assumes "lane_ok {} s" "pop_ready s = (r, s')"
  shows "lane_ok {} s'" "r = None \<Longrightarrow> s' = s"
    and "r = Some k \<Longrightarrow> k \<in> co_queued s \<and> k \<in> set DURABLE_DEMAND_ORDER \<and>
      (\<exists>st. od_get (co_statuses s') k = Some st \<and> selects k st) \<and>
      co_retained_task s' = co_retained_task s"
  using assms by (auto simp: pop_ready_def lane_ok_def split: list.splits) blast+

lemma retained_ok_None: "retained_ok t r \<Longrightarrow> t = None \<longleftrightarrow> r = None"
  by (cases t) auto

lemma retained_kind_unique:
  assumes "lane_ok {} s" "k \<in> RETAINED_DEMAND_KINDS" "\<not> retained_kind s k"
  shows "co_retained_task s = None"
proof (rule ccontr)
  assume "co_retained_task s \<noteq> None"
  then obtain t w where "co_retained_task s = Some t" "co_retained_revision s = Some w"
    "wk_demand_kind (wr_key w) \<in> RETAINED_DEMAND_KINDS"
    using assms(1) by (cases "co_retained_task s") (auto simp: lane_ok_def)
  then show False using assms(2,3) by (simp add: retained_kind_def RETAINED_DEMAND_KINDS_def)
qed

lemma start_retained_lane:
  assumes "lane_ok {} s" "od_get (co_statuses s) k = Some st" "selects k st"
    and "k \<in> RETAINED_DEMAND_KINDS" "co_retained_task s = None"
  shows "\<exists>s'. start_retained k s = Inr s' \<and> lane_ok {} s'"
  using assms by (auto simp: start_retained_def selects_def lane_ok_def)

text \<open>One turn keeps the lane and never stops with an internal error.\<close>

lemma loop_turn_lane:
  assumes "honest status" "lane_ok {} s0" "loop_turn fuel now status s0 = Some (e, s')"
  shows "lane_ok {} s' \<and> phase_ok (loop_phase_of e)"
proof (cases "co_shutdown s0")
  case True
  then show ?thesis using assms
    by (cases e) (auto simp: loop_turn_def loop_phase_of_def expected_stop_def)
next
  case False
  have l0: "lane_ok {} (s0\<lparr>co_wake := False\<rparr>)" using assms(2) lane_ok_cong [OF lane_update(12)] by metis
  obtain failed s1 where h: "harvest_retained (s0\<lparr>co_wake := False\<rparr>) = (failed, s1)" by fastforce
  note l1 = harvest_lane [OF l0 h]
  show ?thesis
  proof (cases "failed \<or> nw_wall now < 0")
    case True
    then show ?thesis using assms(3) False h l1
      by (cases failed) (auto simp: loop_turn_def loop_phase_of_def expected_stop_def)
  next
    case go: False
    obtain s2 where sc: "scan fuel now status True s1 = Some s2"
      using assms(3) False h go by (auto simp: loop_turn_def split: option.splits)
    note l2 = scan_lane [OF assms(1) l1 sc]
    obtain r s3 where p: "pop_ready s2 = (r, s3)" by fastforce
    note l3 = pop_ready_lane [OF l2(1) p]
    have turn: "Some (e, s') = (case r of
        None \<Rightarrow> Some (Waits (wait_delay now s3), s3)
      | Some kind \<Rightarrow>
          (if kind \<in> RETAINED_DEMAND_KINDS
           then (case start_retained kind s3 of
                   Inl e \<Rightarrow> Some (Stops (Some e), s3)
                 | Inr s4 \<Rightarrow> Some (Continues, s4))
           else case execute_slice now kind None s3 of
             Inl e \<Rightarrow> Some (Stops (Some e), s3)
           | Inr (None, s4) \<Rightarrow> Some (Continues, s4\<lparr>co_active_kind := None\<rparr>)
           | Inr (Some sl, s4) \<Rightarrow> Some (Runs sl, s4)))"
      using assms(3) False h go sc p by (cases r) (auto simp: loop_turn_def)
    show ?thesis
    proof (cases r)
      case None
      then show ?thesis using turn l3(1) by (simp add: loop_phase_of_def)
    next
      case (Some k)
      from l3(3) [OF Some] obtain st where k: "k \<in> co_queued s2" "k \<in> set DURABLE_DEMAND_ORDER"
        "od_get (co_statuses s3) k = Some st" "selects k st"
        "co_retained_task s3 = co_retained_task s2" by blast
      show ?thesis
      proof (cases "k \<in> RETAINED_DEMAND_KINDS")
        case True
        then have "co_retained_task s3 = None"
          using retained_kind_unique [OF l2(1) True] l2(3) k(1,5) by simp
        then show ?thesis
          using start_retained_lane [OF l3(1) k(3,4) True] turn Some True
          by (auto simp: loop_phase_of_def)
      next
        case False
        obtain sl s4 where "execute_slice now k None s3 = Inr (sl, s4)" "lane_ok {} s4"
          "\<And>x. sl = Some x \<Longrightarrow> \<not> sl_retained x"
          by (rule execute_slice_lane [OF k(2,4), of None s3 now "{}"]) (auto simp: k(3) l3(1) intro: that)
        then show ?thesis
          using False turn Some
          by (cases sl) (auto simp: loop_phase_of_def)
      qed
    qed
  qed
qed

lemma lane_ok_task:
  "lane_ok K s \<Longrightarrow> co_retained_task s = Some t \<Longrightarrow> \<forall>w. task_ok w u \<Longrightarrow>
   lane_ok K (s\<lparr>co_retained_task := Some u\<rparr>)"
  by (auto simp: lane_ok_def)

lemma run_retained_lane:
  assumes "lane_ok {} s"
  shows "lane_ok {} (run_retained now s)"
proof (cases "\<exists>k st. co_retained_task s = Some (Retained_Created k st)")
  case False
  then show ?thesis using assms
    by (auto simp: run_retained_def split: option.splits retained_task.splits)
next
  case True
  then obtain k st where t: "co_retained_task s = Some (Retained_Created k st)" by blast
  then obtain w where w: "co_retained_revision s = Some w" "selects k st"
    "k = wk_demand_kind (wr_key w)" "k \<in> RETAINED_DEMAND_KINDS"
    using assms by (auto simp: lane_ok_def)
  then have "k \<in> set DURABLE_DEMAND_ORDER" using retained_durable by blast
  then show ?thesis
  proof (rule execute_slice_lane [OF _ w(2), of "Some st" s now "{}"])
    fix sl s'
    assume e: "execute_slice now k (Some st) s = Inr (sl, s')" and l: "lane_ok {} s' = lane_ok {} s"
      and task: "co_retained_task s' = co_retained_task s"
      and r: "\<And>x. sl = Some x \<Longrightarrow> sl_retained x = (Some st \<noteq> None)"
    have "lane_ok {} s'" "\<exists>u. co_retained_task s' = Some u"
      using l assms t task by simp_all
    then have *: "lane_ok {} (s'\<lparr>co_retained_task := Some u\<rparr>)" if "\<forall>w. task_ok w u" for u
      using that lane_ok_task by blast
    show ?thesis
      using t e r * [of "Retained_Running (the sl)"] * [of "Retained_Done False"]
        lane_ok_cong [OF lane_update(12)]
      by (cases sl) (auto simp: run_retained_def)
  qed simp
qed

lemma finish_retained_lane:
  assumes "lane_ok {} s" "co_retained_task s = Some (Retained_Running sl)"
  shows "lane_ok {} (finish_retained now sl effect result s)"
proof -
  obtain raised s1 where f: "finish_slice now sl effect result s = (raised, s1)" by fastforce
  have l: "lane s1 = lane s" using f by (rule lane_finish)
  have "lane_ok {} (s1\<lparr>co_retained_task := Some (Retained_Done raised)\<rparr>)"
    using lane_ok_task [of "{}" s1 _ "Retained_Done raised"] lane_ok_cong [OF l] lane_parts(5) [OF l] assms
    by simp
  then show ?thesis
    using f lane_ok_cong [OF lane_update(12)] by (auto simp: finish_retained_def)
qed

lemma offer_lane: "offer k s = Inr (b, s') \<Longrightarrow> lane s' = lane s"
  by (auto simp: offer_def split: if_splits)

lemma step_system_ok:
  assumes "step y z" "system_ok y"
  shows "system_ok z"
  using assms(1)
proof cases
  case Turn
  then show ?thesis using assms(2) loop_turn_lane lane_ok_cong [OF lane_leave_loop]
    by (simp add: system_ok_def)
next
  case Slice_Ends
  then show ?thesis using assms(2) lane_ok_cong [OF lane_finish [OF Slice_Ends(3)]]
      lane_ok_cong [OF lane_leave_loop]
    by (simp add: system_ok_def expected_stop_def)
next
  case Stop
  then show ?thesis using assms(2) by (simp add: system_ok_def lane_ok_def)
next
  case Retained_Runs
  then show ?thesis using assms(2) run_retained_lane by (simp add: system_ok_def)
next
  case Retained_Ends
  then show ?thesis using assms(2) finish_retained_lane by (simp add: system_ok_def)
next
  case Offer
  then show ?thesis using assms(2) lane_ok_cong [OF offer_lane [OF Offer(2)]]
    by (simp add: system_ok_def)
qed (use assms(2) in \<open>simp_all add: system_ok_def lane_ok_cong [OF lane_update(21)]
  lane_ok_cong [OF lane_releases(2)] lane_ok_cong [OF lane_holds(8)]\<close>)

lemma new_coordinator_lane: "lane_ok {} (new_coordinator i)"
  by (simp add: lane_ok_def new_coordinator_def)

lemma reachable_system_ok: "reachable y \<Longrightarrow> system_ok y"
proof (induction rule: reachable.induct)
  case Init
  then show ?case using scan_lane(1) [OF _ new_coordinator_lane] by (simp add: system_ok_def)
qed (rule step_system_ok)

text \<open>
  C21. The coordinator's internal checks never fail. In every reachable state the ready queue
  holds each queued kind once, every queued kind has a status that selects work of that
  kind, and a pending retained task carries such a status; the run loop only ever stops on
  request, on a bad clock or because a slice let an exception out; and a retained task that
  is about to run starts or waits without raising.
\<close>

theorem coordinator_checks_hold:
  assumes "reachable y"
  shows "distinct (co_queue (sy_coord y)) \<and> set (co_queue (sy_coord y)) = co_queued (sy_coord y) \<and>
    (\<forall>k \<in> co_queued (sy_coord y).
       \<exists>st. od_get (co_statuses (sy_coord y)) k = Some st \<and> selects k st) \<and>
    (\<forall>e. sy_loop y = Stopping e \<or> sy_loop y = Ended e \<longrightarrow> e \<in> {None, Some Slice_Raised, Some Bad_Clock}) \<and>
    (\<forall>k st now. co_retained_task (sy_coord y) = Some (Retained_Created k st) \<longrightarrow>
       (\<exists>r. execute_slice now k (Some st) (sy_coord y) = Inr r))"
proof -
  have ok: "system_ok y" using assms by (rule reachable_system_ok)
  have "\<exists>r. execute_slice now k (Some st) (sy_coord y) = Inr r"
    if "co_retained_task (sy_coord y) = Some (Retained_Created k st)" for k st now
  proof -
    have "k \<in> set DURABLE_DEMAND_ORDER" "selects k st"
      using that ok retained_durable by (auto simp: system_ok_def lane_ok_def)
    then show ?thesis by (metis execute_slice_lane)
  qed
  moreover have "e \<in> {None, Some Slice_Raised, Some Bad_Clock}"
    if "sy_loop y = Stopping e \<or> sy_loop y = Ended e" for e
    using ok that by (auto simp: system_ok_def expected_stop_def)
  ultimately show ?thesis
    using ok by (simp add: system_ok_def lane_ok_def)
qed

text \<open>A run: one profile and one access retry are due at time 5 and the gate is open.\<close>

definition sample_gate :: Gate where
  "sample_gate = \<lparr>gt_eligibility = (\<lambda>_. Clear), gt_prepare = (\<lambda>_ _. (None, None))\<rparr>"

definition sample_now :: "time \<Rightarrow> Now" where
  "sample_now t = \<lparr>nw_wall = t, nw_mono = t, nw_gate = sample_gate\<rparr>"

definition sample_work :: "DemandKind \<Rightarrow> WorkRevision" where
  "sample_work k = \<lparr>wr_key = \<lparr>wk_demand_kind = k, wk_account_id = 1, wk_target = ''dialog''\<rparr>,
     wr_revision = ''r1''\<rparr>"

definition sample_status :: "DemandKind \<Rightarrow> DemandStatus" where
  "sample_status k = \<lparr>st_release_at = 5, st_freshness_deadline = None,
     st_selected = Some (sample_work k), st_request_method = None\<rparr>"

definition sample_adapters :: "DemandKind list \<Rightarrow> adapters" where
  "sample_adapters ks k t excluded =
     (if k \<in> set ks \<and> sample_work k \<notin> excluded then Has_Status (sample_status k) else No_Status)"

lemma sample_adapters_honest: "honest (sample_adapters ks)"
  by (auto simp: honest_def sample_adapters_def sample_status_def sample_work_def)

definition sample_start :: "DemandKind list \<Rightarrow> time \<Rightarrow> Coord" where
  "sample_start ks t = the (scan 2 (sample_now t) (sample_adapters ks) True (new_coordinator 60))"

lemma sample_start_scan:
  "scan 2 (sample_now 5) (sample_adapters [KIND_ENTITY_PROFILE_REFRESH]) True (new_coordinator 60) =
   Some (sample_start [KIND_ENTITY_PROFILE_REFRESH] 5)"
proof -
  have "scan 2 (sample_now 5) (sample_adapters [KIND_ENTITY_PROFILE_REFRESH]) True (new_coordinator 60) \<noteq> None"
    by code_simp
  then show ?thesis by (simp add: sample_start_def)
qed

definition sample_started :: "DemandKind list \<Rightarrow> time \<Rightarrow> System" where
  "sample_started ks t =
     \<lparr>sy_loop = At_Top, sy_coord = (sample_start ks t)\<lparr>co_state := CO_RUNNING\<rparr>\<rparr>"

lemma sample_started_reachable: "reachable (sample_started [KIND_ENTITY_PROFILE_REFRESH] 5)"
proof -
  have "reachable \<lparr>sy_loop = Not_Started, sy_coord = sample_start [KIND_ENTITY_PROFILE_REFRESH] 5\<rparr>"
    by (rule Init [OF sample_adapters_honest _ sample_start_scan]) simp
  from Step [OF this Start] show ?thesis by (simp add: sample_started_def)
qed

theorem coordinator_checks_hold_witness:
  "\<exists>y st. reachable y \<and>
     co_retained_task (sy_coord y) = Some (Retained_Created KIND_ENTITY_PROFILE_REFRESH st) \<and>
     (\<exists>r. execute_slice (sample_now 6) KIND_ENTITY_PROFILE_REFRESH (Some st) (sy_coord y) = Inr r)"
proof -
  let ?a = "sample_adapters [KIND_ENTITY_PROFILE_REFRESH]"
  let ?y = "sample_started [KIND_ENTITY_PROFILE_REFRESH] 5"
  have "map_option (\<lambda>(e, s). (e, co_retained_task s)) (loop_turn 2 (sample_now 5) ?a (sy_coord ?y)) =
      Some (Continues, Some (Retained_Created KIND_ENTITY_PROFILE_REFRESH
        (sample_status KIND_ENTITY_PROFILE_REFRESH)))"
    unfolding sample_started_def sample_start_def by code_simp
  then obtain s where s: "loop_turn 2 (sample_now 5) ?a (sy_coord ?y) = Some (Continues, s)"
    "co_retained_task s =
       Some (Retained_Created KIND_ENTITY_PROFILE_REFRESH (sample_status KIND_ENTITY_PROFILE_REFRESH))"
    by auto
  let ?z = "?y\<lparr>sy_loop := loop_phase_of Continues, sy_coord := leave_loop (loop_phase_of Continues) s\<rparr>"
  have z: "reachable ?z"
    by (rule Step [OF sample_started_reachable], rule Turn [OF _ sample_adapters_honest s(1)])
      (simp add: sample_started_def)
  have "co_retained_task (sy_coord ?z) = co_retained_task s"
    using lane_parts(5) [OF lane_leave_loop] by simp
  note s2 = this [unfolded s(2)]
  from coordinator_checks_hold [OF z] s2
  have "\<exists>r. execute_slice (sample_now 6) KIND_ENTITY_PROFILE_REFRESH
      (Some (sample_status KIND_ENTITY_PROFILE_REFRESH)) (sy_coord ?z) = Inr r" by simp
  with z s2 show ?thesis by (intro exI [of _ ?z]) auto
qed

end
