(* ===== verification/Coordinator_Due.thy ===== *)
theory Coordinator_Due
  imports Coordinator_Props
begin

text \<open>
  Which work a slice may start for. A scan touches the holds of other kinds' work only
  through the work its own adapter selected, so that at the end of a turn every queued kind
  still has the selection its adapter made in this very turn, not held back and with an open
  gate; starting the slice then checks the transient wait, the deadline and the budget.
\<close>

section \<open>What one scan of a kind may touch\<close>

text \<open>What the coordinator knows of one revision, as far as it decides that the work may run.\<close>

definition work_view :: "WorkRevision \<Rightarrow> Coord \<Rightarrow> bool \<times> time option option \<times> string option \<times> string option option" where
  "work_view w s = (w \<in> co_excluded s, od_get (co_eligibility_waits s) w,
     od_get (co_revision_methods s) w, map_option bg_last_method (invocation_budget s w))"

text \<open>No invocation names a budget that is still to be allocated.\<close>

definition budgets_ok :: "Coord \<Rightarrow> bool" where
  "budgets_ok s \<longleftrightarrow> (\<forall>w iv. od_get (co_invocations s) w = Some iv \<longrightarrow> iv_budget iv < co_fresh s)"

definition touches :: "WorkRevision set \<Rightarrow> Coord \<Rightarrow> Coord \<Rightarrow> bool" where
  "touches W s s' \<longleftrightarrow> (budgets_ok s \<longrightarrow> budgets_ok s' \<and> (\<forall>v. v \<notin> W \<longrightarrow> work_view v s' = work_view v s))"

lemma touches_refl [simp]: "touches W s s"
  by (simp add: touches_def)

lemma touches_trans: "touches W s s1 \<Longrightarrow> touches W s1 s2 \<Longrightarrow> touches W s s2"
  by (simp add: touches_def)

lemma touches_fold: "(\<And>x s. touches W s (f x s)) \<Longrightarrow> touches W s (fold f xs s)"
proof (induction xs arbitrary: s)
  case (Cons x xs)
  from touches_trans [OF Cons.prems [of s x] Cons.IH [OF Cons.prems]] show ?case by simp
qed simp

lemma touches_mono: "touches V s s' \<Longrightarrow> V \<subseteq> W \<Longrightarrow> touches W s s'"
  by (auto simp: touches_def)

text \<open>The fields outside the view are free.\<close>

lemma touches_cong:
  assumes "co_excluded s' = co_excluded s" "co_eligibility_waits s' = co_eligibility_waits s"
    and "co_revision_methods s' = co_revision_methods s" "co_invocations s' = co_invocations s"
    and "co_budgets s' = co_budgets s" "co_fresh s' = co_fresh s"
  shows "touches W s s'"
  using assms by (simp add: touches_def work_view_def budgets_ok_def invocation_budget_def)

lemma touches_holds:
  "w \<in> W \<Longrightarrow> touches W s (exclude w why s)" "w \<in> W \<Longrightarrow> touches W s (readmit w s)"
  "w \<in> W \<Longrightarrow> touches W s (set_wait w u s)" "w \<in> W \<Longrightarrow> touches W s (drop_wait w s)"
  "w \<in> W \<Longrightarrow> touches W s (set_method w m s)"
  by (auto simp: touches_def exclude_def readmit_def set_wait_def drop_wait_def set_method_def
      work_view_def budgets_ok_def invocation_budget_def)

lemma touches_prepare: "touches W s (snd (prepare_retry now b m s))"
  by (auto simp: touches_def prepare_retry_def work_view_def budgets_ok_def invocation_budget_def
      option.map_comp comp_def intro!: map_option_cong split: prod.split option.split)

lemma touches_new_invocation:
  assumes "new_invocation w n d s = Inr (iv, s')" "w \<in> W"
  shows "touches W s s'"
proof -
  from assms(1) obtain b acc where s': "s' = s\<lparr>co_budgets := (co_budgets s)(co_fresh s := b),
      co_accounts := acc, co_fresh := co_fresh s + 1,
      co_invocations := od_put w \<lparr>iv_budget = co_fresh s, iv_deadline = d\<rparr> (co_invocations s)\<rparr>"
    by (auto simp: new_invocation_def Let_def split: sum.splits prod.splits)
  have "invocation_budget s' v = invocation_budget s v" if "budgets_ok s" "v \<notin> W" for v
    using that assms(2) by (cases "od_get (co_invocations s) v")
      (auto simp: s' invocation_budget_def budgets_ok_def dest: less_imp_neq)
  then show ?thesis
    using assms(2) by (auto simp: touches_def work_view_def s' budgets_ok_def less_Suc_eq)
qed

lemma touches_prune:
  "touches {w. wr_key w = wr_key selected} s (prune_revised_invocations selected s)"
  unfolding prune_revised_invocations_def
  by (rule touches_fold)
    (auto simp: touches_def work_view_def budgets_ok_def invocation_budget_def readmit_def drop_wait_def)

lemma touches_park_throttle: "w \<in> W \<Longrightarrow> touches W s (park_throttle now w m l r s)"
  unfolding park_throttle_def Let_def
  by (auto intro!: touches_holds intro: touches_trans [OF touches_holds(1)]
      touches_trans [OF touches_holds(5)] touches_trans [OF touches_holds(5) touches_holds(1)]
      split: option.split)

lemma touches_park_deferral:
  assumes "park_method_deferral now k w m d s = Inr s'" "w \<in> W"
  shows "touches W s s'"
proof -
  let ?called = "or_else (df_method_key d) m"
  let ?found = "case od_get (co_invocations s) w of
              Some iv \<Rightarrow> Inr (Some iv, s)
            | None \<Rightarrow> (if df_generation d = None then Inr (None, s)
                else case dc_max_rpc_attempts_per_slice (contract_of k) of
                       None \<Rightarrow> Inl (No_Slice_Budget k)
                     | Some n \<Rightarrow> (case new_invocation w n None s of
                           Inl e \<Rightarrow> Inl (Demand_Failure e) | Inr (iv, s') \<Rightarrow> Inr (Some iv, s')))"
  let ?bound = "\<lambda>invocation s1. case (?called, invocation) of
                 (Some m, Some iv) \<Rightarrow> snd (prepare_retry now (iv_budget iv) (Some m) s1)
               | _ \<Rightarrow> s1"
  let ?named = "\<lambda>s2. case ?called of None \<Rightarrow> s2 | Some m \<Rightarrow> set_method w m s2"
  let ?parked = "\<lambda>s3. set_wait w (df_eligible_at d)
      (exclude w (method_wait_reason (df_reason d) ''admission_deferred'') s3)"
  have "\<exists>invocation s1. ?found = Inr (invocation, s1) \<and> s' = ?parked (?named (?bound invocation s1))"
  proof (cases ?found)
    case (Inl e)
    then show ?thesis using assms(1) unfolding park_method_deferral_def Let_def by (simp only: sum.case sum.distinct)
  next
    case (Inr r)
    then obtain invocation s1 where r: "?found = Inr (invocation, s1)" by (metis surj_pair)
    then show ?thesis using assms(1) unfolding park_method_deferral_def Let_def r by simp
  qed
  then obtain invocation s1 where found: "?found = Inr (invocation, s1)"
    and s': "s' = ?parked (?named (?bound invocation s1))" by blast
  have t1: "touches W s s1"
    using found touches_new_invocation [OF _ assms(2)]
    by (auto split: sum.splits option.splits if_splits prod.splits)
  have t2: "touches W s1 (?bound invocation s1)"
    by (auto intro: touches_prepare split: option.split)
  have t3: "touches W s2 (?named s2)" for s2
    using assms(2) by (auto intro: touches_holds split: option.split)
  have t4: "touches W s3 (?parked s3)" for s3
    using touches_holds(1,3) [OF assms(2)] touches_trans by blast
  show ?thesis unfolding s' by (rule touches_trans [OF touches_trans [OF touches_trans [OF t1 t2] t3] t4])
qed

lemma touches_eligibility_status:
  assumes "eligibility_status now k st t s = Inr ((st', ready), s')"
  shows "touches (set_option (st_selected st)) s s'"
  using assms
  by (auto simp: eligibility_status_def Let_def
      intro: touches_park_deferral touches_park_throttle touches_holds
        touches_trans [OF touches_holds(5)] touches_trans [OF touches_holds(1)]
        touches_trans [OF touches_trans [OF touches_holds(5) touches_holds(1)] touches_holds(3)]
      split: sum.splits prod.splits option.splits if_splits gate_hint.splits bool.splits)

lemma touches_queue [simp]:
  "touches W s (drop_ready k s)" "touches W s (enqueue k t s)" "touches W s (remove_queued k s)"
  "touches W s (s\<lparr>co_statuses := d\<rparr>)" "touches W s (s\<lparr>co_status_failed_until := f\<rparr>)"
  "touches W s (s\<lparr>co_status_failed_until := f, co_statuses := d\<rparr>)"
  by (rule touches_cong; simp add: drop_ready_def remove_queued_def enqueue_def Let_def)+

definition works_of :: "DemandKind \<Rightarrow> WorkRevision set" where
  "works_of k = {w. wk_demand_kind (wr_key w) = k}"

lemma touches_recorded:
  assumes "\<And>w. st_selected st = Some w \<Longrightarrow> w \<in> works_of k"
  shows "touches (works_of k) s (recorded k st s)"
proof (cases "st_selected st")
  case None
  then show ?thesis by (simp add: recorded_def)
next
  case (Some w)
  have "touches {v. wr_key v = wr_key w} s (recorded k st s)"
    using touches_trans [OF touches_queue(4) touches_prune] by (simp add: recorded_def Some Let_def)
  then show ?thesis by (rule touches_mono) (use assms [OF Some] in \<open>auto simp: works_of_def\<close>)
qed

lemma touches_apply_status:
  assumes "apply_status now k answer t s = (err, s')"
    and honest: "\<And>st w. answer = Some st \<Longrightarrow> st_selected st = Some w \<Longrightarrow> w \<in> works_of k"
  shows "touches (works_of k) s s'"
proof (cases answer)
  case None
  then show ?thesis
    using assms(1) touches_trans [OF touches_queue(4) touches_queue(1)] by (auto simp: apply_status_def)
next
  case (Some st)
  note r = touches_recorded [of st k s, OF honest [OF Some]]
  have "touches (works_of k) (recorded k st s)
      ((if ready then enqueue k t else drop_ready k) (s3\<lparr>co_statuses := od_put k st' (co_statuses s3)\<rparr>))"
    if e: "eligibility_status now k st t (recorded k st s) = Inr ((st', ready), s3)" for st' ready s3
  proof -
    have "touches (works_of k) (recorded k st s) s3"
      by (rule touches_mono [OF touches_eligibility_status [OF e]]) (use honest [OF Some] in auto)
    then have "touches (works_of k) (recorded k st s) (s3\<lparr>co_statuses := od_put k st' (co_statuses s3)\<rparr>)"
      by (rule touches_trans) simp
    then show ?thesis by (rule touches_trans) simp
  qed
  then show ?thesis
    using assms(1) r touches_trans [OF r]
    by (auto simp: apply_status_Some Some split: if_splits sum.splits)
qed

lemma honest_works:
  "honest status \<Longrightarrow> status k t ex = Has_Status st \<Longrightarrow> st_selected st = Some w \<Longrightarrow> w \<in> works_of k"
  by (auto simp: works_of_def dest: honestD)

lemma touches_scan_available:
  assumes "honest status"
  shows "scan_available_kind fuel now status k t s = Some (ok, s') \<Longrightarrow> touches (works_of k) s s'"
proof (induction fuel arbitrary: s)
  case (Suc fuel)
  show ?case
  proof (cases "status k t (co_excluded s)")
    case (Has_Status st)
    obtain err s1 where app: "apply_status now k (Some st) t s = (err, s1)" by fastforce
    have q: "touches (works_of k) s s1"
      by (rule touches_apply_status [OF app]) (use honest_works [OF assms Has_Status] in simp)
    show ?thesis
      using Suc.prems Suc.IH [of s1] Has_Status app q touches_trans [OF q]
      by (cases err) (auto simp: Let_def split: option.splits if_splits)
  next
    case No_Status
    then show ?thesis
      using Suc.prems touches_apply_status [of now k None t s, OF prod.collapse [symmetric]]
      by (simp add: Let_def)
  qed (use Suc.prems in simp)
qed simp

lemma touches_scan_kind:
  assumes "honest status" "scan_kind fuel now status t k s = Some s'"
  shows "touches (works_of k) s s'"
  using assms(2) touches_scan_available [OF assms(1)] touches_trans
    touches_trans [OF touches_scan_available [OF assms(1)] touches_queue(5)]
    touches_trans [OF touches_scan_available [OF assms(1)] touches_trans [OF touches_queue(6) touches_queue(1)]]
  by (auto simp: scan_kind_def record_status_failure_def split: if_splits option.splits bool.splits)

section \<open>Every queued kind is due\<close>

text \<open>
  The kind's adapter has just selected work, the release time has passed, the work is not
  excluded and waits for no gate, and the gate admits the method it is going to call.
\<close>

definition due :: "Now \<Rightarrow> adapters \<Rightarrow> DemandKind \<Rightarrow> DemandStatus \<Rightarrow> WorkRevision \<Rightarrow> Coord \<Rightarrow> bool" where
  "due now status k st w s \<longleftrightarrow> od_get (co_statuses s) k = Some st \<and> st_selected st = Some w \<and>
     (\<exists>excluded. status k (nw_wall now) excluded = Has_Status st) \<and> w \<in> works_of k \<and>
     st_release_at st \<le> nw_wall now \<and> w \<notin> co_excluded s \<and> od_get (co_eligibility_waits s) w = None \<and>
     eligibility now (method_for_work (Some w) (invocation_budget s w) (st_request_method st) s) = Clear"

lemma method_view:
  "work_view w s' = work_view w s \<Longrightarrow>
   method_for_work (Some w) (invocation_budget s' w) a s' = method_for_work (Some w) (invocation_budget s w) a s"
  by (cases "invocation_budget s' w"; cases "invocation_budget s w")
    (auto simp: work_view_def method_for_work_def)

lemma method_cong:
  assumes "co_revision_methods s' = co_revision_methods s" "co_invocations s' = co_invocations s"
    and "co_budgets s' = co_budgets s"
  shows "method_for_work (Some w) (invocation_budget s' w) a s' =
     method_for_work (Some w) (invocation_budget s w) a s"
  using assms by (simp add: method_for_work_def invocation_budget_def)

lemma due_cong:
  assumes "work_view w s' = work_view w s" "od_get (co_statuses s') k = od_get (co_statuses s) k"
  shows "due now status k st w s' = due now status k st w s"
  using method_view [OF assms(1)] assms by (auto simp: due_def work_view_def)

lemma due_apply_status:
  assumes "lane_ok {} s" "k \<in> set DURABLE_DEMAND_ORDER" "status k (nw_wall now) excluded = Has_Status st"
    and honest: "honest status"
    and app: "apply_status now k (Some st) (nw_wall now) s = (None, s')" and "k \<in> co_queued s'"
  shows "\<exists>w. due now status k st w s'"
proof -
  let ?s2 = "recorded k st s"
  have l2: "lane_ok {k} ?s2" using assms(1) by (rule recorded_lane)
  have nh: "\<not> held st ?s2"
    using app assms(6) drop_ready_lane(2) [OF l2] by (auto simp: apply_status_Some)
  then obtain st' ready s3 where e: "eligibility_status now k st (nw_wall now) ?s2 = Inr ((st', ready), s3)"
    and s': "s' = (if ready then enqueue k (nw_wall now) else drop_ready k)
             (s3\<lparr>co_statuses := od_put k st' (co_statuses s3)\<rparr>)"
    using app by (auto simp: apply_status_Some split: sum.splits)
  have "lane_ok {k} s3" using lane_eligibility_status [OF e] l2 lane_ok_cong by metis
  then have ready using assms(6) drop_ready_lane(2) [OF lane_ok_statuses(1)] by (auto simp: s' split: if_splits)
  with e obtain w where w: "st_selected st = Some w" "st_release_at st \<le> nw_wall now" "st' = st"
    "s3 = drop_wait w ?s2"
    "eligibility now (method_for_work (Some w) (invocation_budget ?s2 w) (st_request_method st) ?s2) = Clear"
    by (auto simp: eligibility_status_def is_ready_def Let_def
        split: sum.splits prod.splits option.splits if_splits gate_hint.splits bool.splits)
  have m: "method_for_work (Some w) (invocation_budget s' w) (st_request_method st) s' =
      method_for_work (Some w) (invocation_budget ?s2 w) (st_request_method st) ?s2"
    by (rule method_cong) (use \<open>ready\<close> in \<open>simp_all add: s' w(3,4) enqueue_def Let_def drop_wait_def\<close>)
  have "w \<in> works_of k" using honest_works [OF honest assms(3) w(1)] .
  then have "due now status k st w s'"
    using w nh assms(3) m \<open>ready\<close>
    by (auto simp: due_def held_def s' enqueue_def Let_def drop_wait_def)
  then show ?thesis ..
qed

lemma due_scan_available:
  assumes "honest status" "k \<in> set DURABLE_DEMAND_ORDER"
  shows "lane_ok {} s \<Longrightarrow> scan_available_kind fuel now status k (nw_wall now) s = Some (True, s') \<Longrightarrow>
    k \<in> co_queued s' \<Longrightarrow> \<exists>st w. due now status k st w s'"
proof (induction fuel arbitrary: s)
  case (Suc fuel)
  show ?case
  proof (cases "status k (nw_wall now) (co_excluded s)")
    case (Has_Status st)
    obtain err s1 where app: "apply_status now k (Some st) (nw_wall now) s = (err, s1)" by fastforce
    have err: "err = None" using Suc.prems(2) Has_Status app by (cases err) (auto simp: Let_def)
    have "lane_ok {} s1"
      using apply_status_lane [OF Suc.prems(1) assms(2) _ app] honestD [OF assms(1) Has_Status] err by simp
    then show ?thesis
      using Suc.prems(2,3) Suc.IH [of s1] Has_Status app err
        due_apply_status [OF Suc.prems(1) assms(2) Has_Status assms(1), of s1]
      by (auto simp: Let_def split: option.splits if_splits)
  next
    case No_Status
    then have "s' = drop_ready k (s\<lparr>co_statuses := od_del k (co_statuses s)\<rparr>)"
      using Suc.prems(2) by (simp add: Let_def apply_status_def)
    then show ?thesis
      using Suc.prems(3) drop_ready_lane(2) [OF lane_ok_statuses(2) [OF lane_ok_mono [OF Suc.prems(1)]]]
      by simp
  qed (use Suc.prems in simp)
qed simp

text \<open>A kind whose adapter failed is not queued until it is asked again.\<close>

definition fails_ok :: "Coord \<Rightarrow> bool" where
  "fails_ok s \<longleftrightarrow> (\<forall>k \<in> co_queued s. od_get (co_status_failed_until s) k = None)"

lemma fails_ok_cong: "lane s' = lane s \<Longrightarrow> fails_ok s' = fails_ok s"
  using lane_parts(2,6) [of s' s] by (simp add: fails_ok_def)

lemma scan_kinds_queued: "scan_kinds fuel now status t ks s = Some s' \<Longrightarrow> co_queued s' \<subseteq> set ks \<union> co_queued s"
proof (induction ks arbitrary: s)
  case (Cons k ks)
  from Cons.prems obtain s1 where s1: "scan_kind fuel now status t k s = Some s1"
    and rest: "scan_kinds fuel now status t ks s1 = Some s'" by (auto split: option.splits)
  then show ?case using Cons.IH [OF rest] scan_kind_queues(1) [OF s1] by (auto simp: queues_only_def)
qed simp

lemma scan_kind_cases:
  assumes "scan_kind fuel now status t k s = Some s'"
  obtains (retained) "retained_kind s k" "s' = remove_queued k s"
    | (failing) u where "od_get (co_status_failed_until s) k = Some u" "s' = s"
    | (ok) s1 where "scan_available_kind fuel now status k t s = Some (True, s1)"
        "s' = s1\<lparr>co_status_failed_until := od_del k (co_status_failed_until s1)\<rparr>"
    | (failed) s1 where "scan_available_kind fuel now status k t s = Some (False, s1)"
        "s' = record_status_failure k t s1"
proof -
  let ?wait = "case od_get (co_status_failed_until s) k of None \<Rightarrow> False | Some u \<Rightarrow> t < u"
  consider "retained_kind s k" | "\<not> retained_kind s k" ?wait
    | r where "\<not> retained_kind s k" "\<not> ?wait" "scan_available_kind fuel now status k t s = Some r"
    using assms by (cases "retained_kind s k"; cases "scan_available_kind fuel now status k t s"; cases ?wait)
      (auto simp: scan_kind_def)
  then show ?thesis
  proof cases
    case 1
    then show ?thesis using assms by (intro retained) (simp_all add: scan_kind_def)
  next
    case 2
    then obtain u where "od_get (co_status_failed_until s) k = Some u" by (auto split: option.splits)
    then show ?thesis using assms 2 by (intro failing) (simp_all add: scan_kind_def)
  next
    case 3
    obtain b s1 where "r = (b, s1)" by fastforce
    then show ?thesis using assms 3 ok [of s1] failed [of s1]
      by (cases b) (simp_all add: scan_kind_def)
  qed
qed

lemma scan_kind_due:
  assumes "honest status" "k \<in> set DURABLE_DEMAND_ORDER" "lane_ok {} s" "fails_ok s"
    and "scan_kind fuel now status (nw_wall now) k s = Some s'"
  shows "fails_ok s'" "k \<in> co_queued s' \<Longrightarrow> \<exists>st w. due now status k st w s'"
proof -
  have others: "od_get (co_status_failed_until s') j = None" if "j \<in> co_queued s'" "j \<noteq> k" for j
    using scan_kind_queues(1) [OF assms(5)] that assms(4) by (auto simp: queues_only_def fails_ok_def)
  have own: "k \<in> co_queued s' \<Longrightarrow> od_get (co_status_failed_until s') k = None \<and> (\<exists>st w. due now status k st w s')"
    using assms(5)
  proof (cases rule: scan_kind_cases)
    case retained
    then show "k \<in> co_queued s' \<Longrightarrow> ?thesis" using remove_queued_lane [OF lane_ok_mono [OF assms(3)]] by blast
  next
    case failing
    then show "k \<in> co_queued s' \<Longrightarrow> ?thesis" using assms(4) by (auto simp: fails_ok_def)
  next
    case (ok s1)
    have "due now status k st w s' = due now status k st w s1" for st w
      by (rule due_cong) (simp_all add: ok(2) work_view_def invocation_budget_def)
    then show "k \<in> co_queued s' \<Longrightarrow> ?thesis"
      using due_scan_available [OF assms(1,2,3) ok(1)] by (simp add: ok(2))
  next
    case (failed s1)
    let ?s2 = "s1\<lparr>co_status_failed_until := od_put k (nw_wall now + co_safety_scan_seconds s1)
        (co_status_failed_until s1), co_statuses := od_del k (co_statuses s1)\<rparr>"
    have "lane_ok {k} ?s2"
      using scan_available_lane [OF assms(1,2,3) failed(1)] by (auto simp: lane_ok_def)
    then show "k \<in> co_queued s' \<Longrightarrow> ?thesis"
      using drop_ready_lane(2) failed(2) by (auto simp: record_status_failure_def)
  qed
  show "k \<in> co_queued s' \<Longrightarrow> \<exists>st w. due now status k st w s'" using own by blast
  show "fails_ok s'" using own others by (auto simp: fails_ok_def)
qed

lemma scan_kinds_due:
  assumes "honest status"
  shows "set ks \<subseteq> set DURABLE_DEMAND_ORDER \<Longrightarrow> distinct ks \<Longrightarrow> lane_ok {} s \<Longrightarrow> fails_ok s \<Longrightarrow>
    budgets_ok s \<Longrightarrow> scan_kinds fuel now status (nw_wall now) ks s = Some s' \<Longrightarrow>
    fails_ok s' \<and> budgets_ok s' \<and>
    (\<forall>k \<in> co_queued s'. k \<in> set ks \<or> (\<exists>st w. due now status k st w s) \<longrightarrow>
       (\<exists>st w. due now status k st w s'))"
proof (induction ks arbitrary: s)
  case (Cons k ks)
  from Cons.prems(6) obtain s1 where s1: "scan_kind fuel now status (nw_wall now) k s = Some s1"
    and rest: "scan_kinds fuel now status (nw_wall now) ks s1 = Some s'" by (auto split: option.splits)
  have k: "k \<in> set DURABLE_DEMAND_ORDER" and ks: "set ks \<subseteq> set DURABLE_DEMAND_ORDER" "distinct ks" "k \<notin> set ks"
    using Cons.prems(1,2) by auto
  have l1: "lane_ok {} s1" by (rule scan_kind_lane [OF assms k Cons.prems(3) s1])
  note d1 = scan_kind_due [OF assms k Cons.prems(3,4) s1]
  have t: "budgets_ok s1" "\<And>v. v \<notin> works_of k \<Longrightarrow> work_view v s1 = work_view v s"
    using touches_scan_kind [OF assms s1] Cons.prems(5) by (auto simp: touches_def)
  have keep: "\<exists>st w. due now status j st w s1" if "due now status j st w s" "j \<noteq> k" for j st w
  proof -
    have "w \<notin> works_of k" using that by (auto simp: due_def works_of_def)
    then show ?thesis
      using that due_cong [OF t(2), of w j now status st] scan_kind_queues(1) [OF s1]
      by (auto simp: queues_only_def)
  qed
  note ih = Cons.IH [OF ks(1,2) l1 d1(1) t(1) rest]
  have "\<exists>st w. due now status j st w s'"
    if j: "j \<in> co_queued s'" "j \<in> set (k # ks) \<or> (\<exists>st w. due now status j st w s)" for j
  proof (cases "j = k")
    case True
    have "j \<in> co_queued s1 \<or> j \<in> set ks" using scan_kinds_queued [OF rest] j(1) by blast
    then show ?thesis using ih j(1) d1(2) True by blast
  next
    case False
    then show ?thesis using ih j keep by auto
  qed
  then show ?case using ih by blast
qed simp

text \<open>Re-admitting expired waits only deletes holds and waits, of any work.\<close>

lemma durable_order_distinct: "distinct DURABLE_DEMAND_ORDER"
  by (simp add: DURABLE_DEMAND_ORDER_def)

lemma budgets_ok_releases:
  "budgets_ok s \<Longrightarrow> budgets_ok (prepare_expired_gate_waits now s)"
  "budgets_ok s \<Longrightarrow> budgets_ok (readmit_expired_transients now s)"
  "budgets_ok s \<Longrightarrow> budgets_ok (release_ready_gate_waits now s)"
proof -
  have gate: "touches UNIV s (release_gate_wait w s)" for w s
    unfolding release_gate_wait_def Let_def
    by (intro touches_trans [OF touches_trans [OF _ touches_holds(4)] touches_holds(2)]) (auto intro: touches_cong)
  have "touches UNIV s (prepare_expired_gate_waits now s)"
    "touches UNIV s (readmit_expired_transients now s)" "touches UNIV s (release_ready_gate_waits now s)"
    unfolding prepare_expired_gate_waits_def readmit_expired_transients_def release_ready_gate_waits_def
    by (auto intro!: touches_fold gate touches_holds split: option.split)
  then show "budgets_ok s \<Longrightarrow> budgets_ok (prepare_expired_gate_waits now s)"
    "budgets_ok s \<Longrightarrow> budgets_ok (readmit_expired_transients now s)"
    "budgets_ok s \<Longrightarrow> budgets_ok (release_ready_gate_waits now s)"
    by (simp_all add: touches_def)
qed

lemma scan_due:
  assumes "honest status" "lane_ok {} s" "fails_ok s" "budgets_ok s"
    and "scan fuel now status clear s = Some s'"
  shows "fails_ok s'" "budgets_ok s'" "\<And>k. k \<in> co_queued s' \<Longrightarrow> \<exists>st w. due now status k st w s'"
proof -
  let ?s1 = "readmit_expired_transients now (prepare_expired_gate_waits now s)"
  define s2 where "s2 = (if clear then ?s1\<lparr>co_offered := {}\<rparr> else ?s1)"
  have l2: "lane s2 = lane s" by (simp add: s2_def)
  have "budgets_ok ?s1" using assms(4) by (intro budgets_ok_releases)
  then have b2: "budgets_ok s2" by (simp add: s2_def budgets_ok_def)
  obtain s3 where s3: "scan_kinds fuel now status (nw_wall now) DURABLE_DEMAND_ORDER s2 = Some s3"
    and s': "s' = recompute_next_release (nw_wall now) s3"
    using assms(5) unfolding scan_def Let_def s2_def by auto
  have l3: "lane s' = lane s3" by (simp add: s')
  from scan_kinds_due [OF assms(1) order_refl durable_order_distinct _ _ b2 s3]
  have d: "fails_ok s3" "budgets_ok s3"
    "\<And>k. k \<in> co_queued s3 \<Longrightarrow> k \<in> set DURABLE_DEMAND_ORDER \<Longrightarrow> \<exists>st w. due now status k st w s3"
    using lane_ok_cong [OF l2] fails_ok_cong [OF l2] assms(2,3) by blast+
  have "lane_ok {} s'" by (rule scan_lane(1) [OF assms(1,2,5)])
  then have "co_queued s3 \<subseteq> set DURABLE_DEMAND_ORDER"
    using lane_parts(2) [OF l3] by (simp add: lane_ok_def)
  moreover have "due now status k st w s' = due now status k st w s3" for k st w
    by (rule due_cong) (simp_all add: s' recompute_next_release_def work_view_def invocation_budget_def)
  ultimately show "fails_ok s'" "budgets_ok s'"
    "\<And>k. k \<in> co_queued s' \<Longrightarrow> \<exists>st w. due now status k st w s'"
    using d fails_ok_cong [OF l3] lane_parts(2) [OF l3]
    by (auto simp: s' recompute_next_release_def budgets_ok_def)
qed

section \<open>Starting the slice\<close>

lemma set_deadline_facts:
  assumes "set_deadline w iv t s = (iv', s')"
  shows "iv_deadline iv' = Some t" "iv_budget iv' = iv_budget iv" "co_excluded s' = co_excluded s"
    "co_transient_waits s' = co_transient_waits s" "co_budgets s' = co_budgets s"
    "co_accounts s' = co_accounts s"
  using assms by (cases "od_get (co_invocations s) w = Some iv"; auto simp: set_deadline_def Let_def)+

lemma prepare_facts:
  assumes "prepare_retry now b m s = (a, s')"
  shows "co_excluded s' = co_excluded s" "co_transient_waits s' = co_transient_waits s"
    "a = snd (gt_prepare (nw_gate now) (co_budgets s b) m)"
  using assms by (auto simp: prepare_retry_def split: prod.splits option.splits)

lemma live_some: "live now a = Some t \<longleftrightarrow> a = Some t \<and> nw_mono now < t"
  by (auto simp: live_def split: option.split)

text \<open>The gate granted a budget one more attempt until the deadline.\<close>

definition granted :: "Now \<Rightarrow> time \<Rightarrow> bool" where
  "granted now d \<longleftrightarrow> (\<exists>budget m. snd (gt_prepare (nw_gate now) budget m) = Some d)"

lemma authorize_facts:
  assumes "authorize_invocation now k w st iv0 s0 = (True, iv', s')"
  shows "iv_budget iv' = iv_budget iv0" "co_excluded s' = co_excluded s0"
    "co_transient_waits s' = co_transient_waits s0"
    "\<exists>d. iv_deadline iv' = Some d \<and> nw_mono now < d \<and>
       (\<not> exhausted s' (iv_budget iv') \<or> granted now d)"
proof -
  define first where "first = (case iv_deadline iv0 of
      None \<Rightarrow> set_deadline w iv0 (nw_mono now + dc_admission_timeout_seconds (contract_of k)) s0
    | Some d \<Rightarrow> (iv0, s0))"
  obtain iv s where f: "first = (iv, s)" by fastforce
  then have kept: "iv_budget iv = iv_budget iv0" "co_excluded s = co_excluded s0"
    "co_transient_waits s = co_transient_waits s0"
    by (auto simp: first_def split: option.splits dest: set_deadline_facts)
  let ?b = "iv_budget iv"
  let ?m = "method_for_work (Some w) (Some (co_budgets s ?b)) (st_request_method st) s"
  obtain a s1 where p: "prepare_retry now ?b ?m s = (a, s1)" by fastforce
  have body: "authorize_invocation now k w st iv0 s0 =
      (if \<not> exhausted s ?b \<and> live now (iv_deadline iv) \<noteq> None then (True, iv, s)
       else case live now a of
          Some t \<Rightarrow> (True, set_deadline w iv t s1)
        | None \<Rightarrow> (False, iv, set_wait w None (exclude w ''retry_not_authorized'' s1)))"
    unfolding authorize_invocation_def first_def [symmetric] f prod.case Let_def p ..
  consider "iv' = iv" "s' = s" "\<not> exhausted s ?b" "live now (iv_deadline iv) \<noteq> None"
    | t where "live now a = Some t" "set_deadline w iv t s1 = (iv', s')"
    using assms unfolding body by (auto split: if_splits option.splits)
  then show "iv_budget iv' = iv_budget iv0" "co_excluded s' = co_excluded s0"
    "co_transient_waits s' = co_transient_waits s0"
    "\<exists>d. iv_deadline iv' = Some d \<and> nw_mono now < d \<and>
       (\<not> exhausted s' (iv_budget iv') \<or> granted now d)"
    using kept prepare_facts [OF p]
    by (cases; auto simp: live_some granted_def dest: set_deadline_facts split: option.splits)+
qed

lemma kept_simps [simp]:
  "iv_budget (fst (set_deadline w iv t s)) = iv_budget iv"
  "co_excluded (snd (set_deadline w iv t s)) = co_excluded s"
  "co_transient_waits (snd (set_deadline w iv t s)) = co_transient_waits s"
  "co_excluded (snd (prepare_retry now b m s)) = co_excluded s"
  "co_transient_waits (snd (prepare_retry now b m s)) = co_transient_waits s"
  using set_deadline_facts [OF prod.collapse [symmetric], of w iv t s]
    prepare_facts [OF prod.collapse [symmetric], of now b m s] by simp_all

lemma resume_facts:
  assumes "resume_gate_wait now w st iv timeout s = (iv', s')"
  shows "iv_budget iv' = iv_budget iv \<and>
     co_excluded s' = co_excluded s \<and> co_transient_waits s' = co_transient_waits s"
proof -
  have "iv' = fst (resume_gate_wait now w st iv timeout s)" "s' = snd (resume_gate_wait now w st iv timeout s)"
    using assms by simp_all
  then show ?thesis
    by (simp add: resume_gate_wait_def Let_def split_beta forget_candidate_def split: option.split)
qed

lemma activate_facts:
  assumes "activate_transient_retry now w st iv n timeout s = (iv', s')"
  shows "iv_budget iv' = iv_budget iv \<and>
     co_excluded s' = co_excluded s \<and> co_transient_waits s' = co_transient_waits s"
proof -
  have "iv' = fst (activate_transient_retry now w st iv n timeout s)"
    "s' = snd (activate_transient_retry now w st iv n timeout s)"
    using assms by simp_all
  then show ?thesis
    by (simp add: activate_transient_retry_def Let_def split_beta forget_candidate_def set_limit_def
        split: option.split)
qed

lemma new_invocation_facts:
  "new_invocation w n d s = Inr (iv, s') \<Longrightarrow>
     co_excluded s' = co_excluded s \<and> co_transient_waits s' = co_transient_waits s"
  by (auto simp: new_invocation_def Let_def split: sum.splits prod.splits)

text \<open>
  The stages of \<^verbatim>\<open>_execute_slice\<close>: the invocation, the transient retry, the gate wait, the
  authorization.
\<close>

lemma execute_slice_stages:
  assumes "execute_slice now k retained s = Inr (r, s')"
  obtains st w n iv s1 iv2 s2 iv3 s3 ok iv4 s4 where
    "(case retained of None \<Rightarrow> od_get (co_statuses s) k | Some st \<Rightarrow> Some st) = Some st"
    "st_selected st = Some w" "dc_max_rpc_attempts_per_slice (contract_of k) = Some n"
    "(case od_get (co_invocations s) w of
        Some iv \<Rightarrow> Inr (iv, s\<lparr>co_queued_since := od_del k (co_queued_since s)\<rparr>)
      | None \<Rightarrow> new_invocation w n (Some (nw_mono now + dc_admission_timeout_seconds (contract_of k)))
          (s\<lparr>co_queued_since := od_del k (co_queued_since s)\<rparr>)) = Inr (iv, s1)"
    "(case od_get (co_transient_waits s1) w of
        None \<Rightarrow> (iv, s1)
      | Some t \<Rightarrow> activate_transient_retry now w st iv n (dc_admission_timeout_seconds (contract_of k))
          (s1\<lparr>co_transient_waits := od_del w (co_transient_waits s1)\<rparr>)) = (iv2, s2)"
    "resume_gate_wait now w st iv2 (dc_admission_timeout_seconds (contract_of k)) s2 = (iv3, s3)"
    "authorize_invocation now k w st iv3 s3 = (ok, iv4, s4)"
    "(case od_get (co_transient_waits s1) w of None \<Rightarrow> False
       | Some t \<Rightarrow> nw_mono now < t \<or> eligibility now
           (method_for_work (Some w) (Some (co_budgets s1 (iv_budget iv))) (st_request_method st) s1) \<noteq> Clear) \<and>
      (r, s') = (None, s1) \<or>
     (case od_get (co_transient_waits s1) w of None \<Rightarrow> True | Some t \<Rightarrow> t \<le> nw_mono now) \<and>
      (r, s') = (if ok then begin_slice now k w st iv4 (retained \<noteq> None) s4 else (None, s4))"
proof -
  let ?s0 = "s\<lparr>co_queued_since := od_del k (co_queued_since s)\<rparr>"
  let ?timeout = "dc_admission_timeout_seconds (contract_of k)"
  let ?status = "case retained of None \<Rightarrow> od_get (co_statuses ?s0) k | Some st \<Rightarrow> Some st"
  let ?found = "\<lambda>w n. case od_get (co_invocations ?s0) w of
      Some iv \<Rightarrow> Inr (iv, ?s0) | None \<Rightarrow> new_invocation w n (Some (nw_mono now + ?timeout)) ?s0"
  obtain n where n: "dc_max_rpc_attempts_per_slice (contract_of k) = Some n"
    using assms by (cases "dc_max_rpc_attempts_per_slice (contract_of k)") (simp_all add: execute_slice_def)
  obtain st where st: "?status = Some st"
    using assms n by (cases ?status) (simp_all add: execute_slice_def Let_def)
  obtain w where w: "st_selected st = Some w"
    using assms n st by (cases "st_selected st") (simp_all add: execute_slice_def Let_def)
  obtain iv s1 where iv: "?found w n = Inr (iv, s1)"
  proof (cases "?found w n")
    case (Inl e)
    then show ?thesis
      using assms unfolding execute_slice_def n option.case Let_def st w Inl sum.case by simp
  next
    case (Inr r)
    then show ?thesis using that by (cases r) simp
  qed
  define called where "called =
    method_for_work (Some w) (Some (co_budgets s1 (iv_budget iv))) (st_request_method st) s1"
  define waits where "waits = (case od_get (co_transient_waits s1) w of None \<Rightarrow> False
    | Some t \<Rightarrow> nw_mono now < t \<or> eligibility now called \<noteq> Clear)"
  obtain iv2 s2 where a2: "(case od_get (co_transient_waits s1) w of
        None \<Rightarrow> (iv, s1)
      | Some t \<Rightarrow> activate_transient_retry now w st iv n ?timeout
          (s1\<lparr>co_transient_waits := od_del w (co_transient_waits s1)\<rparr>)) = (iv2, s2)" by fastforce
  obtain iv3 s3 where a3: "resume_gate_wait now w st iv2 ?timeout s2 = (iv3, s3)" by fastforce
  obtain ok iv4 s4 where a4: "authorize_invocation now k w st iv3 s3 = (ok, iv4, s4)"
    by (metis prod_cases3)
  have "execute_slice now k retained s =
      (if waits then Inr (None, s1) else if ok then Inr (begin_slice now k w st iv4 (retained \<noteq> None) s4)
       else Inr (None, s4))"
    unfolding execute_slice_def n(1) Let_def option.case st w iv sum.case prod.case
      waits_def called_def a2 a3 a4 ..
  then have "waits \<and> (r, s') = (None, s1) \<or>
      \<not> waits \<and> (r, s') = (if ok then begin_slice now k w st iv4 (retained \<noteq> None) s4 else (None, s4))"
    using assms by (auto split: if_splits)
  then have "waits \<and> (r, s') = (None, s1) \<or>
     (case od_get (co_transient_waits s1) w of None \<Rightarrow> True | Some t \<Rightarrow> t \<le> nw_mono now) \<and>
      (r, s') = (if ok then begin_slice now k w st iv4 (retained \<noteq> None) s4 else (None, s4))"
    by (cases "od_get (co_transient_waits s1) w") (auto simp: waits_def)
  moreover have "(case retained of None \<Rightarrow> od_get (co_statuses s) k | Some st \<Rightarrow> Some st) = Some st"
    using st by (cases retained) simp_all
  moreover have "(case od_get (co_invocations s) w of Some iv \<Rightarrow> Inr (iv, ?s0)
      | None \<Rightarrow> new_invocation w n (Some (nw_mono now + ?timeout)) ?s0) = Inr (iv, s1)"
    using iv by simp
  ultimately show ?thesis using that [of st w n iv s1 iv2 s2 iv3 s3 ok iv4 s4] w n a2 a3 a4
    unfolding waits_def called_def by blast
qed

lemma execute_slice_starts:
  assumes "execute_slice now k retained s = Inr (Some sl, s')"
  shows "(case retained of None \<Rightarrow> od_get (co_statuses s) k | Some st \<Rightarrow> Some st) = Some (sl_status sl)"
    "st_selected (sl_status sl) = Some (sl_selected sl)" "sl_kind sl = k" "co_excluded s' = co_excluded s"
    "case od_get (co_transient_waits s) (sl_selected sl) of None \<Rightarrow> True | Some t \<Rightarrow> t \<le> nw_mono now"
    "od_get (co_transient_waits s') (sl_selected sl) = None"
    "nw_mono now < sl_deadline sl" "\<not> exhausted s' (sl_budget sl) \<or> granted now (sl_deadline sl)"
proof -
  from assms obtain st w n iv s1 iv2 s2 iv3 s3 ok iv4 s4 where st:
    "(case retained of None \<Rightarrow> od_get (co_statuses s) k | Some st \<Rightarrow> Some st) = Some st"
    "st_selected st = Some w"
    and iv: "(case od_get (co_invocations s) w of
        Some iv \<Rightarrow> Inr (iv, s\<lparr>co_queued_since := od_del k (co_queued_since s)\<rparr>)
      | None \<Rightarrow> new_invocation w n (Some (nw_mono now + dc_admission_timeout_seconds (contract_of k)))
          (s\<lparr>co_queued_since := od_del k (co_queued_since s)\<rparr>)) = Inr (iv, s1)"
    and a2: "(case od_get (co_transient_waits s1) w of
        None \<Rightarrow> (iv, s1)
      | Some t \<Rightarrow> activate_transient_retry now w st iv n (dc_admission_timeout_seconds (contract_of k))
          (s1\<lparr>co_transient_waits := od_del w (co_transient_waits s1)\<rparr>)) = (iv2, s2)"
    and a3: "resume_gate_wait now w st iv2 (dc_admission_timeout_seconds (contract_of k)) s2 = (iv3, s3)"
    and auth: "authorize_invocation now k w st iv3 s3 = (ok, iv4, s4)"
    and result: "(Some sl, s') = (None, s1) \<or>
      (case od_get (co_transient_waits s1) w of None \<Rightarrow> True | Some t \<Rightarrow> t \<le> nw_mono now) \<and>
      (Some sl, s') = (if ok then begin_slice now k w st iv4 (retained \<noteq> None) s4 else (None, s4))"
    by (rule execute_slice_stages) blast
  from result have tr: "case od_get (co_transient_waits s1) w of None \<Rightarrow> True | Some t \<Rightarrow> t \<le> nw_mono now"
    and ok and b: "begin_slice now k w st iv4 (retained \<noteq> None) s4 = (Some sl, s')"
    by (auto split: if_splits)
  with auth have a4: "authorize_invocation now k w st iv3 s3 = (True, iv4, s4)" by simp
  have e1: "co_excluded s1 = co_excluded s" "co_transient_waits s1 = co_transient_waits s"
    using iv by (auto split: option.splits dest: new_invocation_facts)
  have e2: "co_excluded s2 = co_excluded s1" "od_get (co_transient_waits s2) w = None"
    using a2 by (auto split: option.splits dest: activate_facts)
  note a4' = authorize_facts [OF a4]
  from b have sl: "sl_status sl = st" "sl_selected sl = w" "sl_kind sl = k" "sl_budget sl = iv_budget iv4"
    "sl_deadline sl = (case iv_deadline iv4 of None \<Rightarrow> 0 | Some d \<Rightarrow> d)"
    "s' = (if retained \<noteq> None then s4 else s4\<lparr>co_active_kind := Some k, co_active_revision := Some w\<rparr>)"
    by (auto simp: begin_slice_def)
  have ex: "exhausted s' (sl_budget sl) = exhausted s4 (iv_budget iv4)"
    by (simp add: sl exhausted_def)
  show "(case retained of None \<Rightarrow> od_get (co_statuses s) k | Some st \<Rightarrow> Some st) = Some (sl_status sl)"
    "st_selected (sl_status sl) = Some (sl_selected sl)" "sl_kind sl = k"
    using st sl by simp_all
  show "co_excluded s' = co_excluded s" "od_get (co_transient_waits s') (sl_selected sl) = None"
    using resume_facts [OF a3] a4'(2,3) e1 e2 sl by simp_all
  show "case od_get (co_transient_waits s) (sl_selected sl) of None \<Rightarrow> True | Some t \<Rightarrow> t \<le> nw_mono now"
    using tr e1 sl by simp
  show "nw_mono now < sl_deadline sl" "\<not> exhausted s' (sl_budget sl) \<or> granted now (sl_deadline sl)"
    using a4'(4) ex sl(5) by auto
qed

section \<open>The budgets of invocations stay allocated\<close>

definition invs :: "Coord \<Rightarrow> (WorkRevision \<times> Invocation) list \<times> nat" where
  "invs s = (co_invocations s, co_fresh s)"

lemma budgets_ok_invs: "invs s' = invs s \<Longrightarrow> budgets_ok s' = budgets_ok s"
  by (simp add: invs_def budgets_ok_def)

lemma invs_holds [simp]:
  "invs (exclude w r s) = invs s" "invs (readmit w s) = invs s" "invs (set_wait w u s) = invs s"
  "invs (drop_wait w s) = invs s" "invs (set_method w m s) = invs s"
  "invs (release_gate_wait w s) = invs s" "invs (shutdown s) = invs s"
  "invs (forget_candidate b s) = invs s" "invs (set_limit b n s) = invs s"
  "invs (snd (prepare_retry now b method s)) = invs s" "invs (apply_effect b e s) = invs s"
  by (simp_all add: invs_def exclude_def readmit_def set_wait_def drop_wait_def set_method_def
      release_gate_wait_def shutdown_def forget_candidate_def set_limit_def prepare_retry_def
      apply_effect_def Let_def split: prod.splits option.splits)

lemma invs_update [simp]:
  "invs (s\<lparr>co_released_gate_waits := a\<rparr>) = invs s" "invs (s\<lparr>co_transient_waits := b\<rparr>) = invs s"
  "invs (s\<lparr>co_transient_stages := c\<rparr>) = invs s"
  "invs (s\<lparr>co_revision_methods := d\<rparr>) = invs s" "invs (s\<lparr>co_progress := e\<rparr>) = invs s"
  "invs (s\<lparr>co_active_kind := f\<rparr>) = invs s" "invs (s\<lparr>co_active_revision := g\<rparr>) = invs s"
  "invs (s\<lparr>co_active_kind := f, co_active_revision := g\<rparr>) = invs s"
  "invs (s\<lparr>co_wake := h\<rparr>) = invs s" "invs (s\<lparr>co_queued_since := i\<rparr>) = invs s"
  "invs (s\<lparr>co_eligibility_generation := e\<rparr>) = invs s" "invs (s\<lparr>co_state := j\<rparr>) = invs s"
  "invs (s\<lparr>co_retained_task := k, co_wake := h\<rparr>) = invs s" "invs (s\<lparr>co_retained_task := k\<rparr>) = invs s"
  by (simp_all add: invs_def)

lemma invs_fold: "(\<And>x s. invs (f x s) = invs s) \<Longrightarrow> invs (fold f xs s) = invs s"
  by (induction xs arbitrary: s) simp_all

lemma invs_releases [simp]:
  "invs (release_ready_gate_waits now s) = invs s" "invs (eligibility_changed now m s) = invs s"
  unfolding release_ready_gate_waits_def eligibility_changed_def Let_def
  by (auto simp: invs_fold split: option.split)

lemma invs_parks [simp]:
  "invs (park_throttle now w m l r s) = invs s" "invs (strengthen_throttle_wait now w l r c s) = invs s"
  "invs (handle_capacity_deferred now sl s) = invs s" "invs (schedule_transient_retry now w s) = invs s"
  by (simp_all add: park_throttle_def strengthen_throttle_wait_def handle_capacity_deferred_def
      schedule_transient_retry_def Let_def split: option.split)

lemma invs_deferral [simp]:
  "invs (handle_deferral now sl d s) = invs s" "invs (handle_pending now sl m why s) = invs s"
  by (simp_all add: handle_deferral_def handle_pending_def Let_def split: option.split)

lemma invs_throttle [simp]: "invs (handle_throttle now sl l r s) = invs s"
  by (simp add: handle_throttle_def Let_def split: gate_hint.split)

lemma invs_handlers [simp]:
  "invs (park_read_budget_failure now sl m s) = invs s"
  "invs (handle_slice_failure now sl b n s) = invs s"
  by (simp_all add: park_read_budget_failure_def handle_slice_failure_def Let_def split: gate_hint.split)

lemma invs_deferred [simp]: "invs (handle_deferred now sl exc s) = invs s"
  by (simp add: handle_deferred_def Let_def split: option.split deferred_exc.split)

lemma budgets_ok_forget: "budgets_ok s \<Longrightarrow> budgets_ok (forget_work w s)"
  by (auto simp: forget_work_def budgets_ok_def readmit_def drop_wait_def)

lemma budgets_ok_outcome:
  assumes "budgets_ok s"
  shows "budgets_ok (handle_outcome now sl r s)"
proof -
  let ?w = "sl_selected sl"
  let ?f = "forget_work ?w s"
  have "handle_outcome now sl r s \<in> {?f, ?f\<lparr>co_progress := co_progress ?f + 1\<rparr>} \<or>
      invs (handle_outcome now sl r s) = invs s"
    by (auto simp: handle_outcome_def handle_outcome_deferred_def Let_def
        split: option.split gate_hint.split)
  then show ?thesis
    using budgets_ok_forget [OF assms, of ?w] budgets_ok_invs [OF invs_update(5), of "co_progress ?f + 1" ?f]
      budgets_ok_invs [of "handle_outcome now sl r s" s] assms by auto
qed

lemma budgets_ok_finish:
  assumes "finish_slice now sl e r s = (raised, s')" "budgets_ok s"
  shows "budgets_ok s'"
proof -
  let ?s1 = "apply_effect (sl_budget sl) e s"
  define s2 where "s2 = (if attempts_of ?s1 (sl_budget sl) > sl_attempts_before sl
    then ?s1\<lparr>co_revision_methods := od_del (sl_selected sl) (co_revision_methods ?s1)\<rparr> else ?s1)"
  have "invs s2 = invs s" by (simp add: s2_def)
  then have s2: "budgets_ok s2" using assms(2) budgets_ok_invs by blast
  have "invs s' = invs s2 \<or> (\<exists>outcome. invs s' = invs (handle_outcome now sl outcome s2))"
    using assms(1) unfolding finish_slice_def Let_def s2_def [symmetric]
    by (cases r) (auto split: if_splits)
  then show ?thesis using s2 budgets_ok_outcome [OF s2] budgets_ok_invs by metis
qed

lemma budgets_ok_set_deadline: "budgets_ok s \<Longrightarrow> budgets_ok (snd (set_deadline w iv t s))"
  by (auto simp: set_deadline_def Let_def budgets_ok_def)

lemma budgets_ok_simps [simp]:
  "budgets_ok (snd (prepare_retry now b method s)) = budgets_ok s"
  "budgets_ok (forget_candidate b s) = budgets_ok s" "budgets_ok (set_limit b n s) = budgets_ok s"
  "budgets_ok (set_wait w u s) = budgets_ok s" "budgets_ok (exclude w why s) = budgets_ok s"
  "budgets_ok (s\<lparr>co_released_gate_waits := x\<rparr>) = budgets_ok s"
  "budgets_ok (s\<lparr>co_transient_waits := y\<rparr>) = budgets_ok s"
  "budgets_ok (s\<lparr>co_queued_since := z\<rparr>) = budgets_ok s"
  by (rule budgets_ok_invs; simp)+

lemma budgets_ok_stages:
  "budgets_ok s \<Longrightarrow> budgets_ok (snd (activate_transient_retry now w st iv n u s))"
  "budgets_ok s \<Longrightarrow> budgets_ok (snd (resume_gate_wait now w st iv u s))"
  by (simp_all add: activate_transient_retry_def resume_gate_wait_def Let_def split_beta
      budgets_ok_set_deadline split: option.split)

lemma budgets_ok_authorize:
  assumes "budgets_ok s"
  shows "budgets_ok (snd (snd (authorize_invocation now k w st iv s)))"
proof -
  have "budgets_ok (snd (case iv_deadline iv of
      None \<Rightarrow> set_deadline w iv (nw_mono now + dc_admission_timeout_seconds (contract_of k)) s
    | Some d \<Rightarrow> (iv, s)))"
    using assms by (simp add: budgets_ok_set_deadline split: option.split)
  then show ?thesis
    unfolding authorize_invocation_def Let_def split_beta
    by (auto simp: budgets_ok_set_deadline split: option.split)
qed

lemma budgets_ok_execute:
  assumes "execute_slice now k retained s = Inr (r, s')" "budgets_ok s"
  shows "budgets_ok s'"
  using assms(1)
proof (rule execute_slice_stages)
  fix st w n iv s1 iv2 s2 iv3 s3 ok iv4 s4
  let ?s0 = "s\<lparr>co_queued_since := od_del k (co_queued_since s)\<rparr>"
  let ?timeout = "dc_admission_timeout_seconds (contract_of k)"
  assume iv: "(case od_get (co_invocations s) w of Some iv \<Rightarrow> Inr (iv, ?s0)
      | None \<Rightarrow> new_invocation w n (Some (nw_mono now + ?timeout)) ?s0) = Inr (iv, s1)"
    and a2: "(case od_get (co_transient_waits s1) w of None \<Rightarrow> (iv, s1)
      | Some t \<Rightarrow> activate_transient_retry now w st iv n ?timeout
          (s1\<lparr>co_transient_waits := od_del w (co_transient_waits s1)\<rparr>)) = (iv2, s2)"
    and a3: "resume_gate_wait now w st iv2 ?timeout s2 = (iv3, s3)"
    and a4: "authorize_invocation now k w st iv3 s3 = (ok, iv4, s4)"
    and r: "(case od_get (co_transient_waits s1) w of None \<Rightarrow> False
       | Some t \<Rightarrow> nw_mono now < t \<or> eligibility now
           (method_for_work (Some w) (Some (co_budgets s1 (iv_budget iv))) (st_request_method st) s1) \<noteq> Clear) \<and>
      (r, s') = (None, s1) \<or>
     (case od_get (co_transient_waits s1) w of None \<Rightarrow> True | Some t \<Rightarrow> t \<le> nw_mono now) \<and>
      (r, s') = (if ok then begin_slice now k w st iv4 (retained \<noteq> None) s4 else (None, s4))"
  have b1: "budgets_ok s1"
    using iv assms(2) touches_new_invocation [OF _ UNIV_I]
    by (auto simp: touches_def split: option.splits)
  have "budgets_ok s2"
    using a2 b1 budgets_ok_stages(1) [of "s1\<lparr>co_transient_waits := od_del w (co_transient_waits s1)\<rparr>"
        now w st iv n ?timeout]
    by (auto split: option.splits)
  then have "budgets_ok s3" using budgets_ok_stages(2) [of s2 now w st iv2 ?timeout] a3 by simp
  then have b4: "budgets_ok s4" using budgets_ok_authorize [of s3 now k w st iv3] a4 by simp
  have begun: "budgets_ok (snd (begin_slice now k w st iv4 (retained \<noteq> None) s4)) = budgets_ok s4"
    by (rule budgets_ok_invs) (simp add: begin_slice_def)
  then have "snd (begin_slice now k w st iv4 (retained \<noteq> None) s4) = s' \<Longrightarrow> budgets_ok s'" using b4 by auto
  then show "budgets_ok s'" using r b1 b4 by (auto split: if_splits dest: arg_cong [of _ _ snd])
qed

section \<open>A slice starts only for due work\<close>

definition waits_ok :: "System \<Rightarrow> bool" where
  "waits_ok y \<longleftrightarrow> fails_ok (sy_coord y) \<and> budgets_ok (sy_coord y)"

lemma fails_ok_shrink:
  "fails_ok s \<Longrightarrow> co_queued s' \<subseteq> co_queued s \<Longrightarrow> co_status_failed_until s' = co_status_failed_until s \<Longrightarrow>
   fails_ok s'"
  by (auto simp: fails_ok_def)

lemma fails_ok_execute:
  assumes "execute_slice now k retained s = Inr (r, s')"
  shows "fails_ok s' = fails_ok s"
  using assms
proof (rule execute_slice_stages)
  fix st w n iv s1 iv2 s2 iv3 s3 ok iv4 s4
  let ?s0 = "s\<lparr>co_queued_since := od_del k (co_queued_since s)\<rparr>"
  let ?timeout = "dc_admission_timeout_seconds (contract_of k)"
  assume iv: "(case od_get (co_invocations s) w of Some iv \<Rightarrow> Inr (iv, ?s0)
      | None \<Rightarrow> new_invocation w n (Some (nw_mono now + ?timeout)) ?s0) = Inr (iv, s1)"
    and a2: "(case od_get (co_transient_waits s1) w of None \<Rightarrow> (iv, s1)
      | Some t \<Rightarrow> activate_transient_retry now w st iv n ?timeout
          (s1\<lparr>co_transient_waits := od_del w (co_transient_waits s1)\<rparr>)) = (iv2, s2)"
    and a3: "resume_gate_wait now w st iv2 ?timeout s2 = (iv3, s3)"
    and a4: "authorize_invocation now k w st iv3 s3 = (ok, iv4, s4)"
    and r: "(case od_get (co_transient_waits s1) w of None \<Rightarrow> False
       | Some t \<Rightarrow> nw_mono now < t \<or> eligibility now
           (method_for_work (Some w) (Some (co_budgets s1 (iv_budget iv))) (st_request_method st) s1) \<noteq> Clear) \<and>
      (r, s') = (None, s1) \<or>
     (case od_get (co_transient_waits s1) w of None \<Rightarrow> True | Some t \<Rightarrow> t \<le> nw_mono now) \<and>
      (r, s') = (if ok then begin_slice now k w st iv4 (retained \<noteq> None) s4 else (None, s4))"
  have l1: "lane s1 = lane s" using iv by (auto split: option.splits dest: lane_new_invocation)
  have "lane s2 = lane s1" using a2 by (auto split: option.splits dest: lane_activate)
  then have l4: "lane s4 = lane s" using lane_resume [OF a3] lane_authorize [OF a4] l1 by simp
  have begun: "fails_ok (snd (begin_slice now k w st iv4 b s4)) = fails_ok s4" for b
    by (simp add: begin_slice_def fails_ok_def)
  have "s' = s1 \<or> s' = snd (begin_slice now k w st iv4 (retained \<noteq> None) s4) \<or> s' = s4"
    using r by (auto split: if_splits dest: arg_cong [of _ _ snd])
  then show "fails_ok s' = fails_ok s"
    using begun fails_ok_cong [OF l1] fails_ok_cong [OF l4] by auto
qed

lemma loop_turn_cases:
  assumes "loop_turn fuel now status s0 = Some (e, s')"
  obtains (stops) b s1 err where "e = Stops err" "s' = s0 \<or> s' = s1"
      "harvest_retained (s0\<lparr>co_wake := False\<rparr>) = (b, s1)"
    | (scanned) s1 s2 r s3 where "\<not> co_shutdown s0" "harvest_retained (s0\<lparr>co_wake := False\<rparr>) = (False, s1)"
      "scan fuel now status True s1 = Some s2" "pop_ready s2 = (r, s3)"
      "r = None \<and> e = Waits (wait_delay now s3) \<and> s' = s3 \<or>
       (\<exists>k. r = Some k \<and> k \<in> RETAINED_DEMAND_KINDS \<and>
          ((\<exists>err. e = Stops err) \<and> s' = s3 \<or> e = Continues \<and> start_retained k s3 = Inr s')) \<or>
       (\<exists>k. r = Some k \<and> k \<notin> RETAINED_DEMAND_KINDS \<and>
          ((\<exists>err. e = Stops err) \<and> s' = s3 \<or>
           (\<exists>s4. execute_slice now k None s3 = Inr (None, s4) \<and> e = Continues \<and>
              s' = s4\<lparr>co_active_kind := None\<rparr>) \<or>
           (\<exists>sl. execute_slice now k None s3 = Inr (Some sl, s') \<and> e = Runs sl)))"
proof -
  obtain failed s1 where h: "harvest_retained (s0\<lparr>co_wake := False\<rparr>) = (failed, s1)" by fastforce
  show ?thesis
  proof (cases "co_shutdown s0 \<or> failed \<or> nw_wall now < 0")
    case True
    then show ?thesis using assms h stops
      by (cases failed) (auto simp: loop_turn_def split: if_splits)
  next
    case go: False
    then obtain s2 where sc: "scan fuel now status True s1 = Some s2"
      using assms h by (cases "scan fuel now status True s1") (auto simp: loop_turn_def)
    obtain r s3 where p: "pop_ready s2 = (r, s3)" by fastforce
    show ?thesis
    proof (rule scanned [of s1 s2 r s3])
      show "harvest_retained (s0\<lparr>co_wake := False\<rparr>) = (False, s1)" using h go by simp
    qed (use assms h go sc p in \<open>auto simp: loop_turn_def split: if_splits option.splits sum.splits\<close>)
  qed
qed

lemma harvest_waits:
  assumes "harvest_retained (s\<lparr>co_wake := False\<rparr>) = (b, s')" "fails_ok s" "budgets_ok s"
  shows "fails_ok s'" "budgets_ok s'"
  using assms by (auto simp: harvest_retained_def fails_ok_def budgets_ok_def
      split: option.splits retained_task.splits)

lemma pop_waits:
  assumes "pop_ready s = (r, s')"
  shows "fails_ok s \<Longrightarrow> fails_ok s'" "budgets_ok s' = budgets_ok s"
    "co_transient_waits s' = co_transient_waits s" "co_excluded s' = co_excluded s"
    "co_statuses s' = co_statuses s"
  using assms by (auto simp: pop_ready_def fails_ok_def budgets_ok_def split: list.splits)

lemma loop_turn_waits:
  assumes "honest status" "lane_ok {} s0" "fails_ok s0" "budgets_ok s0"
    and "loop_turn fuel now status s0 = Some (e, s')"
  shows "fails_ok s'" "budgets_ok s'"
proof -
  have "fails_ok s' \<and> budgets_ok s'"
    using assms(5)
  proof (cases rule: loop_turn_cases)
    case (stops b s1 err)
    then show ?thesis using assms(3,4) harvest_waits [OF stops(3) assms(3,4)] by auto
  next
    case (scanned s1 s2 r s3)
    have l1: "lane_ok {} s1"
      using harvest_lane [OF _ scanned(2)] assms(2) lane_ok_cong [OF lane_update(12)] by metis
    note d = scan_due [OF assms(1) l1 harvest_waits [OF scanned(2) assms(3,4)] scanned(3)]
    have "fails_ok s3" "budgets_ok s3" using d pop_waits [OF scanned(4)] by simp_all
    moreover have "start_retained k s3 = Inr s' \<Longrightarrow> fails_ok s' \<and> budgets_ok s'" for k
      using \<open>fails_ok s3\<close> \<open>budgets_ok s3\<close>
      by (auto simp: start_retained_def fails_ok_def budgets_ok_def split: option.splits if_splits)
    moreover have "budgets_ok (s\<lparr>co_active_kind := None\<rparr>) = budgets_ok s"
      "fails_ok (s\<lparr>co_active_kind := None\<rparr>) = fails_ok s" for s :: Coord
      by (simp_all add: budgets_ok_def fails_ok_def)
    ultimately show ?thesis
      using scanned(5) fails_ok_execute budgets_ok_execute by auto
  qed
  then show "fails_ok s'" "budgets_ok s'" by simp_all
qed

lemma run_retained_waits:
  assumes "fails_ok s" "budgets_ok s"
  shows "fails_ok (run_retained now s)" "budgets_ok (run_retained now s)"
proof -
  have set: "fails_ok (x\<lparr>co_retained_task := a, co_wake := b\<rparr>) = fails_ok x"
    "fails_ok (x\<lparr>co_retained_task := a\<rparr>) = fails_ok x"
    "budgets_ok (x\<lparr>co_retained_task := a, co_wake := b\<rparr>) = budgets_ok x"
    "budgets_ok (x\<lparr>co_retained_task := a\<rparr>) = budgets_ok x" for x :: Coord and a b
    by (simp_all add: fails_ok_def budgets_ok_def)
  show "fails_ok (run_retained now s)" "budgets_ok (run_retained now s)"
    using assms fails_ok_execute budgets_ok_execute
    by (auto simp: run_retained_def set split: option.split retained_task.split sum.split)
qed

lemma finish_retained_waits:
  assumes "fails_ok s" "budgets_ok s"
  shows "fails_ok (finish_retained now sl e r s)" "budgets_ok (finish_retained now sl e r s)"
proof -
  obtain raised s1 where f: "finish_slice now sl e r s = (raised, s1)" by fastforce
  then have "fails_ok s1" "budgets_ok s1"
    using assms fails_ok_cong [OF lane_finish [OF f]] budgets_ok_finish [OF f] by simp_all
  then show "fails_ok (finish_retained now sl e r s)" "budgets_ok (finish_retained now sl e r s)"
    by (simp_all add: finish_retained_def f fails_ok_def budgets_ok_def)
qed

lemma step_waits_ok:
  assumes "step y z" "system_ok y" "waits_ok y"
  shows "waits_ok z"
proof -
  have upd: "waits_ok (y\<lparr>sy_loop := l, sy_coord := s\<rparr>) = (fails_ok s \<and> budgets_ok s)"
    "waits_ok (y\<lparr>sy_coord := s\<rparr>) = (fails_ok s \<and> budgets_ok s)"
    "waits_ok (y\<lparr>sy_loop := l\<rparr>) = waits_ok y" for l s
    by (simp_all add: waits_ok_def)
  have leave: "fails_ok (leave_loop p s) = fails_ok s" "budgets_ok (leave_loop p s) = budgets_ok s" for p s
    by (simp_all add: leave_loop_def fails_ok_def budgets_ok_def split: loop_phase.split)
  have ok: "lane_ok {} (sy_coord y)" "fails_ok (sy_coord y)" "budgets_ok (sy_coord y)"
    using assms(2,3) by (simp_all add: system_ok_def waits_ok_def)
  show ?thesis
    using assms(1)
  proof cases
    case Start
    then show ?thesis using ok by (simp add: upd fails_ok_def budgets_ok_def)
  next
    case Turn
    then show ?thesis using loop_turn_waits [OF Turn(3) ok Turn(4)] by (simp add: upd leave)
  next
    case Wake
    then show ?thesis using assms(3) by (simp add: upd)
  next
    case (Slice_Ends sl now e r raised s p)
    have "fails_ok s" "budgets_ok s"
      using ok fails_ok_cong [OF lane_finish [OF Slice_Ends(3)]] budgets_ok_finish [OF Slice_Ends(3)] by simp_all
    then show ?thesis using Slice_Ends(1) by (simp add: upd leave) (simp add: fails_ok_def budgets_ok_def)
  next
    case Stop
    then show ?thesis using ok by (simp add: upd fails_ok_def budgets_ok_def)
  next
    case Retained_Runs
    then show ?thesis using run_retained_waits [OF ok(2,3)] by (simp add: upd)
  next
    case Retained_Ends
    then show ?thesis using finish_retained_waits [OF ok(2,3)] by (simp add: upd)
  next
    case (Offer k b s)
    then show ?thesis using ok fails_ok_cong [OF offer_lane [OF Offer(2)]]
      by (auto simp: upd offer_def budgets_ok_def split: if_splits)
  next
    case (Changed now m)
    have "budgets_ok (eligibility_changed now m (sy_coord y))"
      using ok(3) budgets_ok_invs [OF invs_releases(2), of now m "sy_coord y"] by simp
    then show ?thesis using Changed ok fails_ok_cong [OF lane_releases(2), of now m "sy_coord y"] by (simp add: upd)
  next
    case Shutdown
    then show ?thesis using ok by (simp add: upd shutdown_def fails_ok_def budgets_ok_def)
  qed
qed

lemma reachable_waits_ok: "reachable y \<Longrightarrow> waits_ok y"
proof (induction rule: reachable.induct)
  case (Init status interval fuel now s)
  have "fails_ok (new_coordinator interval)" "budgets_ok (new_coordinator interval)"
    by (simp_all add: fails_ok_def budgets_ok_def new_coordinator_def)
  from scan_due [OF Init(1) new_coordinator_lane this Init(3)] show ?case
    by (simp add: waits_ok_def)
next
  case (Step y z)
  from step_waits_ok [OF Step(2) reachable_system_ok [OF Step(1)] Step(3)] show ?case .
qed

text \<open>
  C20. A slice starts only for due work. Whenever a turn of the loop, in a reachable state,
  starts a slice, the turn's own scan left the slice's kind due: its adapter has just
  selected this work, the release time has passed, the work is neither excluded nor waiting
  and the gate admits its method. Moreover the work's transient wait is over and cleared,
  the deadline of the slice is still ahead, and its attempt budget is not exhausted unless
  the gate granted an attempt until that deadline.
\<close>

theorem slice_starts_only_for_due_work:
  assumes "reachable y" and "honest status"
    and "loop_turn fuel now status (sy_coord y) = Some (Runs sl, s')"
  shows "\<exists>s. scan fuel now status True (snd (harvest_retained ((sy_coord y)\<lparr>co_wake := False\<rparr>))) = Some s \<and>
    due now status (sl_kind sl) (sl_status sl) (sl_selected sl) s \<and>
    sl_selected sl \<notin> co_excluded s' \<and>
    (case od_get (co_transient_waits s) (sl_selected sl) of None \<Rightarrow> True | Some t \<Rightarrow> t \<le> nw_mono now) \<and>
    od_get (co_transient_waits s') (sl_selected sl) = None \<and>
    nw_mono now < sl_deadline sl \<and>
    (exhausted s' (sl_budget sl) \<longrightarrow> granted now (sl_deadline sl))"
  using assms(3)
proof (cases rule: loop_turn_cases)
  case (scanned s1 s2 r s3)
  have ok: "lane_ok {} (sy_coord y)" "fails_ok (sy_coord y)" "budgets_ok (sy_coord y)"
    using reachable_system_ok [OF assms(1)] reachable_waits_ok [OF assms(1)]
    by (simp_all add: system_ok_def waits_ok_def)
  have l1: "lane_ok {} s1"
    using harvest_lane [OF _ scanned(2)] ok(1) lane_ok_cong [OF lane_update(12)] by metis
  note d = scan_due [OF assms(2) l1 harvest_waits [OF scanned(2) ok(2,3)] scanned(3)]
  note l2 = scan_lane(1) [OF assms(2) l1 scanned(3)]
  from scanned(5) obtain k where k: "r = Some k" "execute_slice now k None s3 = Inr (Some sl, s')" by auto
  note e = execute_slice_starts [OF k(2)] and p = pop_waits [OF scanned(4)]
  have "k \<in> co_queued s2" using pop_ready_lane(3) [OF l2 scanned(4) k(1)] by simp
  then obtain st w where due: "due now status k st w s2" using d(3) by blast
  then have "sl_status sl = st" "sl_selected sl = w" using e(1,2) p(5) by (auto simp: due_def)
  then have "due now status (sl_kind sl) (sl_status sl) (sl_selected sl) s2"
    "sl_selected sl \<notin> co_excluded s'"
    using due e(3,4) p(4) by (simp_all add: due_def)
  then show ?thesis
    using scanned(2,3) e(5-8) p(3) by auto
qed simp

lemma sample_delta_reachable: "reachable (sample_started [KIND_DELTA_GAP_FILL] 5)"
proof -
  have "scan 2 (sample_now 5) (sample_adapters [KIND_DELTA_GAP_FILL]) True (new_coordinator 60) \<noteq> None"
    by code_simp
  then have "scan 2 (sample_now 5) (sample_adapters [KIND_DELTA_GAP_FILL]) True (new_coordinator 60) =
      Some (sample_start [KIND_DELTA_GAP_FILL] 5)" by (simp add: sample_start_def)
  from Init [OF sample_adapters_honest _ this]
  have "reachable \<lparr>sy_loop = Not_Started, sy_coord = sample_start [KIND_DELTA_GAP_FILL] 5\<rparr>" by simp
  from Step [OF this Start] show ?thesis by (simp add: sample_started_def)
qed

theorem slice_starts_only_for_due_work_witness:
  "\<exists>sl s'. loop_turn 2 (sample_now 5) (sample_adapters [KIND_DELTA_GAP_FILL])
      (sy_coord (sample_started [KIND_DELTA_GAP_FILL] 5)) = Some (Runs sl, s') \<and>
    sl_selected sl = sample_work KIND_DELTA_GAP_FILL \<and>
    sample_work KIND_DELTA_GAP_FILL \<notin> co_excluded s' \<and> 5 < sl_deadline sl"
proof -
  let ?a = "sample_adapters [KIND_DELTA_GAP_FILL]"
  let ?y = "sample_started [KIND_DELTA_GAP_FILL] 5"
  have "map_option (\<lambda>(e, s). case e of Runs sl \<Rightarrow> sl_selected sl = sample_work KIND_DELTA_GAP_FILL | _ \<Rightarrow> False)
      (loop_turn 2 (sample_now 5) ?a (sy_coord ?y)) = Some True"
    unfolding sample_started_def sample_start_def by code_simp
  then obtain e s' where e: "loop_turn 2 (sample_now 5) ?a (sy_coord ?y) = Some (e, s')"
    "case e of Runs sl \<Rightarrow> sl_selected sl = sample_work KIND_DELTA_GAP_FILL | _ \<Rightarrow> False" by auto
  then obtain sl where sl: "e = Runs sl" "sl_selected sl = sample_work KIND_DELTA_GAP_FILL"
    by (cases e) auto
  from slice_starts_only_for_due_work [OF sample_delta_reachable sample_adapters_honest e(1) [unfolded sl(1)]]
  have "sl_selected sl \<notin> co_excluded s'" "nw_mono (sample_now 5) < sl_deadline sl" by blast+
  then show ?thesis using e(1) sl by (auto simp: sample_now_def)
qed

section \<open>No hot loop\<close>

text \<open>
  Whatever way a slice ends without an exception leaving it, its work is settled, held, or
  has been released on purpose because its gate opened meanwhile.
\<close>

definition forgotten :: "WorkRevision \<Rightarrow> Coord \<Rightarrow> bool" where
  "forgotten w s \<longleftrightarrow> w \<notin> co_excluded s \<and> od_get (co_exclusion_reasons s) w = None \<and>
     od_get (co_eligibility_waits s) w = None \<and> od_get (co_invocations s) w = None \<and>
     w \<notin> co_released_gate_waits s \<and> od_get (co_revision_methods s) w = None \<and>
     od_get (co_transient_waits s) w = None \<and> od_get (co_transient_stages s) w = None"

definition held_back :: "WorkRevision \<Rightarrow> Coord \<Rightarrow> bool" where
  "held_back w s \<longleftrightarrow> w \<in> co_excluded s \<and> od_get (co_exclusion_reasons s) w \<noteq> None \<or>
     w \<in> co_released_gate_waits s"

lemma forget_work_forgotten: "forgotten w (forget_work w s)"
  by (simp add: forgotten_def forget_work_def readmit_def drop_wait_def)

lemma held_exclude [simp]:
  "held_back w (exclude w why s)" "held_back w s \<Longrightarrow> held_back w (set_wait w u s)"
  by (auto simp: held_back_def exclude_def set_wait_def)

text \<open>A hold for a gate: releasing gate waits turns it into a release on record.\<close>

definition gate_held :: "WorkRevision \<Rightarrow> Coord \<Rightarrow> bool" where
  "gate_held w s \<longleftrightarrow> w \<in> co_released_gate_waits s \<or>
     w \<in> co_excluded s \<and> od_get (co_eligibility_waits s) w \<noteq> None \<and>
     (\<exists>r \<in> set GATE_WAIT_REASONS. od_get (co_exclusion_reasons s) w = Some r)"

lemma gate_held_back: "gate_held w s \<Longrightarrow> held_back w s"
  by (auto simp: gate_held_def held_back_def)

lemma gate_held_release: "gate_held w s \<Longrightarrow> gate_held w (release_gate_wait v s)"
  by (cases "v = w")
    (auto simp: gate_held_def release_gate_wait_def Let_def readmit_def drop_wait_def)

lemma gate_held_releases: "gate_held w s \<Longrightarrow> gate_held w (release_ready_gate_waits now s)"
proof -
  have "gate_held w (fold f vs s)" if "gate_held w s" "\<And>v s. gate_held w s \<Longrightarrow> gate_held w (f v s)"
    for f :: "WorkRevision \<Rightarrow> Coord \<Rightarrow> Coord" and vs s
    using that by (induction vs arbitrary: s) simp_all
  then show "gate_held w s \<Longrightarrow> gate_held w (release_ready_gate_waits now s)"
    unfolding release_ready_gate_waits_def by (simp add: gate_held_release)
qed

lemma gate_held_park:
  "why \<in> set GATE_WAIT_REASONS \<Longrightarrow> gate_held w (set_wait w u (exclude w why s))"
  by (simp add: gate_held_def exclude_def set_wait_def)

lemma held_handlers:
  "held_back (sl_selected sl) (handle_capacity_deferred now sl s)"
  "held_back (sl_selected sl) (handle_pending now sl m why s)"
  "held_back w (park_throttle now w method l r s)"
  "held_back w s \<Longrightarrow> held_back w (strengthen_throttle_wait now w l r c s)"
  "held_back w (schedule_transient_retry now w s)"
  "held_back (sl_selected sl) (handle_slice_failure now sl b n s)"
proof -
  show "held_back (sl_selected sl) (handle_capacity_deferred now sl s)"
    using gate_held_releases [THEN gate_held_back] gate_held_park
    by (simp add: handle_capacity_deferred_def Let_def GATE_WAIT_REASONS_def)
qed (simp_all add: handle_pending_def park_throttle_def strengthen_throttle_wait_def
    schedule_transient_retry_def handle_slice_failure_def Let_def)

lemma held_deferral: "held_back (sl_selected sl) (handle_deferral now sl d s)"
  by (simp add: handle_deferral_def Let_def held_handlers)

lemma held_throttle: "held_back (sl_selected sl) (handle_throttle now sl l r s)"
  by (simp add: handle_throttle_def Let_def held_handlers held_deferral split: gate_hint.split)

lemma held_read_budget: "held_back (sl_selected sl) (park_read_budget_failure now sl m s)"
  using gate_held_releases [THEN gate_held_back] gate_held_park
  by (simp add: park_read_budget_failure_def Let_def held_handlers held_deferral held_throttle
      GATE_WAIT_REASONS_def split: gate_hint.split)

lemma held_deferred: "held_back (sl_selected sl) (handle_deferred now sl exc s)"
  by (simp add: handle_deferred_def Let_def held_handlers held_deferral held_read_budget
      split: deferred_exc.split option.split)

lemma held_outcome:
  "(\<exists>outcome. r = Some outcome \<and> so_selected outcome = sl_selected sl \<and> committed_outcome outcome (sl_selected sl)) \<and>
     forgotten (sl_selected sl) (handle_outcome now sl r s) \<or>
   held_back (sl_selected sl) (handle_outcome now sl r s)"
  using forget_work_forgotten [of "sl_selected sl" s]
  by (auto simp: handle_outcome_def handle_outcome_deferred_def Let_def held_handlers held_deferral
      held_throttle forgotten_def split: option.splits gate_hint.splits)

text \<open>
  C23. No hot loop. When a slice ends without an exception leaving it, either it returned a
  committed receipt for exactly its own work and every trace of that work is gone from the
  coordinator, or the work is held back with a recorded reason, or it has been released
  because its gate opened meanwhile, or the coordinator is shutting down.
\<close>

theorem ended_slice_is_settled:
  assumes "finish_slice now sl effect result s = (False, s')"
  shows "(\<exists>outcome. result = Returned (Some outcome) \<and> so_selected outcome = sl_selected sl \<and>
       committed_outcome outcome (sl_selected sl)) \<and> forgotten (sl_selected sl) s' \<or>
     held_back (sl_selected sl) s' \<or>
     co_shutdown s'"
proof -
  let ?s1 = "apply_effect (sl_budget sl) effect s"
  define s2 where "s2 = (if attempts_of ?s1 (sl_budget sl) > sl_attempts_before sl
    then ?s1\<lparr>co_revision_methods := od_del (sl_selected sl) (co_revision_methods ?s1)\<rparr> else ?s1)"
  have keep: "held_back w (x\<lparr>co_active_revision := None\<rparr>) = held_back w x"
    "forgotten w (x\<lparr>co_active_revision := None\<rparr>) = forgotten w x" for w x
    by (simp_all add: held_back_def forgotten_def)
  show ?thesis
    using assms held_outcome [of "case result of Returned r \<Rightarrow> r | _ \<Rightarrow> None" sl now s2]
    unfolding finish_slice_def Let_def s2_def [symmetric]
    by (cases result) (auto simp: keep held_deferred held_throttle held_handlers split: if_splits)
qed

theorem ended_slice_is_settled_witness:
  "held_back (sample_work KIND_DELTA_GAP_FILL) (snd (finish_slice (sample_now 6)
     \<lparr>sl_kind = KIND_DELTA_GAP_FILL, sl_status = sample_status KIND_DELTA_GAP_FILL,
      sl_selected = sample_work KIND_DELTA_GAP_FILL, sl_budget = 0, sl_generation = 0,
      sl_attempts_before = 0, sl_deadline = 9, sl_retained = False\<rparr>
     \<lparr>be_accounting = 0, be_last_method = None, be_retry_candidate = None,
      be_read_budget_failure_method = None, be_accounts = (\<lambda>_. \<lparr>ac_limit = 1, ac_attempts = 1\<rparr>),
      be_root_attempts = 0\<rparr> (Raised_Deferred Exc_Saturated) (new_coordinator 60)))"
  (is "held_back _ (snd (finish_slice ?now ?sl ?e ?r ?s))")
proof -
  have "finish_slice ?now ?sl ?e ?r ?s = (False, snd (finish_slice ?now ?sl ?e ?r ?s))"
    "\<not> co_shutdown (snd (finish_slice ?now ?sl ?e ?r ?s))"
    by (simp_all add: finish_slice_def Let_def handle_deferred_def handle_capacity_deferred_def
        apply_effect_def attempts_of_def budget_attempts_def new_coordinator_def set_wait_def
        exclude_def sample_budget_def)
  with ended_slice_is_settled [of ?now ?sl ?e ?r ?s] show ?thesis by auto
qed

end
