(* ===== verification/Coordinator_Scan.thy ===== *)
theory Coordinator_Scan
  imports Coordinator_Due
begin

text \<open>
  The scan ends, and the loop sleeps within bounds. An adapter that is asked again while its
  answer is being excluded can only answer so often: each repetition excludes one more of
  the revisions it may select.
\<close>

section \<open>A scan ends\<close>

text \<open>The adapter selects from a pool that holds at most one revision of each work key.\<close>

definition draws_from :: "adapters \<Rightarrow> (DemandKind \<Rightarrow> WorkRevision list) \<Rightarrow> bool" where
  "draws_from status pool \<longleftrightarrow>
     (\<forall>k t excluded st w. status k t excluded = Has_Status st \<longrightarrow> st_selected st = Some w \<longrightarrow>
        w \<in> set (pool k)) \<and>
     (\<forall>k. distinct (map wr_key (pool k)))"

lemma excluded_prune:
  "w \<in> co_excluded s \<Longrightarrow> w = selected \<or> wr_key w \<noteq> wr_key selected \<Longrightarrow>
   w \<in> co_excluded (prune_revised_invocations selected s)"
proof -
  assume w: "w \<in> co_excluded s" "w = selected \<or> wr_key w \<noteq> wr_key selected"
  have keep: "w \<in> co_excluded (fold f vs s)"
    if "w \<in> co_excluded s" "\<And>v s. w \<in> co_excluded s \<Longrightarrow> w \<in> co_excluded (f v s)"
    for f :: "WorkRevision \<Rightarrow> Coord \<Rightarrow> Coord" and vs s
    using that by (induction vs arbitrary: s) simp_all
  show ?thesis
    unfolding prune_revised_invocations_def
    by (rule keep) (use w in \<open>auto simp: readmit_def drop_wait_def\<close>)
qed

lemma excluded_grows:
  "co_excluded s \<subseteq> co_excluded (exclude w why s)" "co_excluded (set_wait w u s) = co_excluded s"
  "co_excluded (drop_wait w s) = co_excluded s" "co_excluded (set_method w m s) = co_excluded s"
  "co_excluded s \<subseteq> co_excluded (park_throttle now w me l r s)"
  by (auto simp: exclude_def set_wait_def drop_wait_def set_method_def park_throttle_def Let_def
      split: option.split)

lemma excluded_deferral:
  "park_method_deferral now k w m d s = Inr s' \<Longrightarrow> co_excluded s \<subseteq> co_excluded s'"
  by (auto simp: park_method_deferral_def Let_def exclude_def set_wait_def set_method_def
      split: sum.splits prod.splits option.splits if_splits dest: new_invocation_facts)

lemma excluded_eligibility:
  "eligibility_status now k st t s = Inr (r, s') \<Longrightarrow> co_excluded s \<subseteq> co_excluded s'"
  by (auto simp: eligibility_status_def Let_def exclude_def set_wait_def set_method_def drop_wait_def
      dest: excluded_deferral intro: subsetD [OF excluded_grows(5)]
      split: sum.splits prod.splits option.splits if_splits gate_hint.splits bool.splits)

lemma excluded_queue [simp]:
  "co_excluded (drop_ready k s) = co_excluded s" "co_excluded (enqueue k t s) = co_excluded s"
  by (simp_all add: drop_ready_def remove_queued_def enqueue_def Let_def)

lemma excluded_apply:
  assumes app: "apply_status now k (Some st) t s = (err, s')" and "w \<in> co_excluded s"
    and "\<And>v. st_selected st = Some v \<Longrightarrow> w = v \<or> wr_key w \<noteq> wr_key v"
  shows "w \<in> co_excluded s'"
proof -
  have r: "w \<in> co_excluded (recorded k st s)"
    using assms(2,3) excluded_prune [of w "s\<lparr>co_statuses := od_put k st (co_statuses s)\<rparr>"]
    by (auto simp: recorded_def Let_def split: option.split)
  then show ?thesis
    using app excluded_eligibility [of now k st t "recorded k st s"]
    by (auto simp: apply_status_Some split: if_splits sum.splits)
qed

lemma distinct_keys: "distinct (map wr_key xs) \<Longrightarrow> v \<in> set xs \<Longrightarrow> w \<in> set xs \<Longrightarrow> w = v \<or> wr_key w \<noteq> wr_key v"
  by (auto simp: distinct_map dest: inj_onD)

lemma scan_available_ends:
  assumes "draws_from status pool"
  shows "card (set (pool k) - co_excluded s) \<le> n \<Longrightarrow>
    scan_available_kind (Suc n) now status k t s \<noteq> None"
proof (induction n arbitrary: s)
  case (0 s)
  then have "set (pool k) \<subseteq> co_excluded s" by (simp add: card_eq_0_iff)
  then show ?case
    using assms by (auto simp: draws_from_def Let_def split: status_answer.split prod.split option.split) blast
next
  case (Suc n s)
  show ?case
  proof (cases "status k t (co_excluded s)")
    case (Has_Status st)
    obtain err s1 where app: "apply_status now k (Some st) t s = (err, s1)" by fastforce
    show ?thesis
    proof (cases "err = None \<and> (\<exists>w. st_selected st = Some w \<and> w \<in> co_excluded s1 \<and> w \<notin> co_excluded s)")
      case True
      then obtain w where w: "st_selected st = Some w" "w \<in> co_excluded s1" "w \<notin> co_excluded s" by blast
      have pool: "w \<in> set (pool k)" "distinct (map wr_key (pool k))"
        using assms Has_Status w(1) by (auto simp: draws_from_def)
      have "set (pool k) \<inter> co_excluded s \<subseteq> co_excluded s1"
        using excluded_apply [OF app] distinct_keys [OF pool(2) pool(1)] w(1) by auto
      then have "set (pool k) - co_excluded s1 \<subset> set (pool k) - co_excluded s"
        using w(2,3) pool(1) by blast
      then have "card (set (pool k) - co_excluded s1) < card (set (pool k) - co_excluded s)"
        by (intro psubset_card_mono) auto
      then have "scan_available_kind (Suc n) now status k t s1 \<noteq> None"
        using Suc by simp
      then show ?thesis
        using True w app Has_Status scan_available_kind.simps(2) [of "Suc n" now status k t s]
        by (simp del: scan_available_kind.simps)
    next
      case False
      then show ?thesis using Has_Status app
        by (cases err; cases "st_selected st") (auto simp: Let_def)
    qed
  qed (simp_all add: Let_def)
qed

text \<open>
  C24. A scan always ends. If every adapter selects from a pool of at most \<open>n\<close> revisions,
  one per work key, then no kind is asked more than \<open>n + 1\<close> times in a scan: the scan
  returns, from any state, with fuel \<open>n + 1\<close>.
\<close>

theorem scan_ends:
  assumes "draws_from status pool" and "\<forall>k \<in> set DURABLE_DEMAND_ORDER. length (pool k) \<le> n"
  shows "\<exists>s'. scan (Suc n) now status clear_offers s = Some s'"
proof -
  have kind: "scan_kind (Suc n) now status t k s \<noteq> None" if "k \<in> set DURABLE_DEMAND_ORDER" for t k s
  proof -
    have "card (set (pool k) - co_excluded s) \<le> card (set (pool k))" by (intro card_mono) auto
    also have "\<dots> \<le> length (pool k)" by (rule card_length)
    finally have "card (set (pool k) - co_excluded s) \<le> n" using assms(2) that by fastforce
    from scan_available_ends [OF assms(1) this, of now t] show ?thesis
      by (auto simp: scan_kind_def simp del: scan_available_kind.simps split: option.split bool.split)
  qed
  have "scan_kinds (Suc n) now status t ks s \<noteq> None" if "set ks \<subseteq> set DURABLE_DEMAND_ORDER" for t ks s
    using that
  proof (induction ks arbitrary: s)
    case (Cons k ks)
    then show ?case using kind [of k t s] by (auto split: option.split)
  qed simp
  then show ?thesis by (auto simp: scan_def Let_def)
qed

theorem scan_ends_witness:
  "\<exists>s'. scan (Suc 1) (sample_now 5) (sample_adapters [KIND_DELTA_GAP_FILL]) True (new_coordinator 60) = Some s'"
proof (rule scan_ends)
  show "draws_from (sample_adapters [KIND_DELTA_GAP_FILL]) (\<lambda>k. [sample_work k])"
    by (auto simp: draws_from_def sample_adapters_def sample_status_def)
qed simp

section \<open>How long the loop sleeps\<close>

lemma fold_min_le: "fold min ts t \<le> (t :: 'a :: linorder)" "x \<in> set ts \<Longrightarrow> fold min ts t \<le> x"
proof -
  have "fold min ts t \<le> t \<and> (\<forall>x \<in> set ts. fold min ts t \<le> x)"
  proof (induction ts arbitrary: t)
    case (Cons a ts)
    from Cons [of "min a t"] show ?case by (simp add: min.coboundedI1)
  qed simp
  then show "fold min ts t \<le> t" "x \<in> set ts \<Longrightarrow> fold min ts t \<le> x" by simp_all
qed

text \<open>
  The loop never spins and never oversleeps: it waits at least the minimum wait, at
  most until the next safety scan, the next known release, and each gate or transient wait
  that still lies ahead, unless those are nearer than the minimum wait.
\<close>

theorem wait_delay_bounds:
  "MIN_WAIT_SECONDS \<le> wait_delay now s \<and>
   wait_delay now s \<le> max MIN_WAIT_SECONDS (co_safety_scan_seconds s) \<and>
   (case co_next_release_at s of None \<Rightarrow> True
    | Some t \<Rightarrow> wait_delay now s \<le> max MIN_WAIT_SECONDS (t - nw_wall now)) \<and>
   (\<forall>t \<in> Option.these (snd ` set (co_eligibility_waits s)) \<union> snd ` set (co_transient_waits s).
      nw_mono now < t \<longrightarrow> wait_delay now s \<le> max MIN_WAIT_SECONDS (t - nw_mono now))"
proof -
  define bound where "bound = (case co_next_release_at s of
            None \<Rightarrow> nw_wall now + co_safety_scan_seconds s
          | Some t \<Rightarrow> min (nw_wall now + co_safety_scan_seconds s) t)"
  define waits where "waits = map (\<lambda>t. t - nw_mono now) (filter (\<lambda>t. t > nw_mono now)
              (List.map_filter snd (co_eligibility_waits s) @ map snd (co_transient_waits s)))"
  have d: "wait_delay now s = max MIN_WAIT_SECONDS (fold min waits (bound - nw_wall now))"
    unfolding wait_delay_def Let_def bound_def waits_def by simp
  have b: "bound - nw_wall now \<le> co_safety_scan_seconds s"
    "case co_next_release_at s of None \<Rightarrow> True | Some t \<Rightarrow> bound - nw_wall now \<le> t - nw_wall now"
    by (auto simp: bound_def split: option.split)
  have "t - nw_mono now \<in> set waits"
    if "t \<in> Option.these (snd ` set (co_eligibility_waits s)) \<union> snd ` set (co_transient_waits s)"
      "nw_mono now < t" for t
    using that by (auto simp: waits_def List.map_filter_def Option.these_def image_iff) force+
  then show ?thesis
    using b fold_min_le(1) [of waits "bound - nw_wall now"] fold_min_le(2) [of _ waits "bound - nw_wall now"]
    by (auto simp: d split: option.splits intro: max.coboundedI2 max.mono order_trans)
qed

theorem wait_delay_bounds_witness:
  "wait_delay (sample_now 5) ((new_coordinator 60)\<lparr>co_transient_waits := [(sample_work KIND_DELTA_GAP_FILL, 7)]\<rparr>)
   \<le> 2"
  using wait_delay_bounds [of "sample_now 5"
      "(new_coordinator 60)\<lparr>co_transient_waits := [(sample_work KIND_DELTA_GAP_FILL, 7)]\<rparr>"]
  by (simp add: sample_now_def MIN_WAIT_SECONDS_def new_coordinator_def)

end
