(* ===== verification/Safety_Record.thy ===== *)
theory Safety_Record
  imports Rpc_Consumers Rpc_Recovery
begin

text \<open>
  The persisted safety record of the outbound gate (\<^verbatim>\<open>telegram_rpc.py\<close>): which attempts
  may have reached the wire, what the account is restricted to, the recovery trial, a
  transport transition in progress, and the recovery episodes of single methods. The code
  keeps it as nested JSON dictionaries; here it is a record per dictionary, at the current
  version of the receipt, and each validator keeps the conditions that the types do not
  discharge. What comes from Telethon is a \<open>Vendor\<close>: the number of its TL objects, the
  qualified name of the request with a constructor number, and the canonical names of four
  requests.
\<close>

section \<open>The record\<close>

datatype scope_stage = STAGE_KEY_PENDING | STAGE_TRANSPORT_ONLY | STAGE_VERIFIED

record SafetyScope =
  sc_stage :: scope_stage
  sc_dc_id :: int
  sc_key_id :: "int option"
  sc_account_id :: "int option"

text \<open>The scope of an intent: the three identities without the stage.\<close>

record Binding =
  bn_dc_id :: int
  bn_key_id :: "int option"
  bn_account_id :: "int option"

record SafetyFloor =
  fl_boot_id :: string
  fl_until_monotonic :: time
  fl_until_utc :: time
  fl_remaining_seconds :: time

datatype intent_phase = INTENT_PREPARED | INTENT_UNKNOWN | INTENT_ACKNOWLEDGED_UNKNOWN

record PolicyRecovery =
  pr_policy_version :: int
  pr_episode_id :: string
  pr_grant_generation :: string
  pr_scope :: Binding

record AuxLockScope =
  al_version :: int
  al_device :: int
  al_inode :: int

record AuxBootstrap =
  ax_purpose :: string
  ax_main_scope :: Binding
  ax_aux_dc_id :: int
  ax_aux_key_id :: int
  ax_lease_id :: string
  ax_work_id :: string
  ax_attempt_generation :: string
  ax_source_generation :: string
  ax_contained :: bool
  ax_lock :: "(AuxLockScope \<times> string) option"

datatype NativeWriteDomain = DOMAIN_FOLDER | DOMAIN_CONTACT_NOTE | DOMAIN_CONTACT

record NativeWriteReceiptBinding =
  nb_domain :: NativeWriteDomain
  nb_account_id :: int
  nb_dc_id :: int
  nb_key_id :: int
  nb_operation_key :: string
  nb_action :: string
  nb_target :: int
  nb_semantic_fingerprint :: string
  nb_binding_revision :: int

record NativeOwner =
  no_binding :: NativeWriteReceiptBinding
  no_contained :: bool

datatype read_failure_reason = ATTEMPT_BUDGET_EXHAUSTED | SENDER_TIMEOUT

datatype ReadRetry = Clean_Shutdown | Read_Failure read_failure_reason string

record Intent =
  it_method :: string
  it_run :: string
  it_phase :: intent_phase
  it_scope :: Binding
  it_policy_recovery :: "PolicyRecovery option"
  it_aux_bootstrap :: "AuxBootstrap option"
  it_native_owner :: "NativeOwner option"
  it_read_retry :: "ReadRetry option"

datatype method_state = METHOD_LIVE | METHOD_RECOVERED

record Episode =
  ep_state :: method_state
  ep_generation :: string
  ep_consecutive_actual_floods :: int
  ep_consecutive_read_budget_failures :: int
  ep_floor :: SafetyFloor
  ep_claim :: "(string \<times> string) option"

record Automatic =
  au_episode_id :: string
  au_policy_version :: int
  au_cause :: RecoveryCause
  au_attempts_total :: int
  au_attempts_by_policy :: "RecoveryCause \<Rightarrow> int"
  au_failure_stages :: "RecoveryCause \<Rightarrow> int"
  au_quiet_anchor :: "SafetyFloor option"
  au_scheduled_due :: "SafetyFloor option"
  au_bound_intent_ids :: "string list"
  au_last_transition_key :: "string option"

text \<open>The state of a trial is the string value of its \<^verbatim>\<open>RecoveryPhase\<close>.\<close>

record Trial =
  tr_generation :: string
  tr_state :: RecoveryPhase
  tr_scope :: SafetyScope
  tr_consumed_run :: "string option"
  tr_acknowledged_protection :: "string option"
  tr_automatic :: "Automatic option"

datatype transition_purpose = PURPOSE_DC_MIGRATION | PURPOSE_AUTHENTICATION | PURPOSE_LOGOUT

datatype transition_phase = TRANSITION_PREPARED | TRANSITION_KEY_BOUND | TRANSITION_LOGOUT_CONFIRMED

record Transition =
  tn_purpose :: transition_purpose
  tn_from :: SafetyScope
  tn_to_dc :: int
  tn_phase :: transition_phase
  tn_target_key :: "int option"
  tn_owned_generation :: int
  tn_run :: string
  tn_expected_account :: "int option"
  tn_validated_account :: "int option"
  tn_acknowledged_protection :: "string option"

record SafetyRecord =
  sr_generation :: string
  sr_scope :: SafetyScope
  sr_floor :: SafetyFloor
  sr_intents :: "(string \<times> Intent) list"
  sr_protection :: "string option"
  sr_recovery :: "Trial option"
  sr_transition :: "Transition option"
  sr_methods :: "(string \<times> Episode) list"

record Vendor =
  vn_tlobjects :: nat
  vn_request_name :: "nat \<Rightarrow> string option"
  vn_update_dialog_filter :: string
  vn_update_contact_note :: string
  vn_add_contact :: string
  vn_delete_contacts :: string

section \<open>Validation\<close>

definition CANONICAL_METHOD_MAX_LENGTH :: nat where "CANONICAL_METHOD_MAX_LENGTH = 256"
definition TL_CONSTRUCTOR_HEX_WIDTH :: nat where "TL_CONSTRUCTOR_HEX_WIDTH = 8"
definition AUX_OWNER_HEX_WIDTH :: nat where "AUX_OWNER_HEX_WIDTH = 32"
definition AUTO_RESUME_DELAYS :: "int list" where
  "AUTO_RESUME_DELAYS = [3600, 7200, 14400, 28800, 57600, 86400]"

definition finite_safety_number :: "time \<Rightarrow> bool" where
  "finite_safety_number x \<longleftrightarrow> 0 \<le> x"

definition valid_scope_binding :: "SafetyScope \<Rightarrow> bool" where
  "valid_scope_binding sc = (case sc_stage sc of
     STAGE_KEY_PENDING \<Rightarrow> sc_key_id sc = None \<and> sc_account_id sc = None
   | STAGE_TRANSPORT_ONLY \<Rightarrow> sc_key_id sc \<noteq> None \<and> sc_account_id sc = None
   | STAGE_VERIFIED \<Rightarrow> sc_key_id sc \<noteq> None \<and>
       (case sc_account_id sc of None \<Rightarrow> False | Some a \<Rightarrow> 0 < a))"

definition validate_safety_scope :: "SafetyScope \<Rightarrow> bool" where
  "validate_safety_scope sc \<longleftrightarrow> 1 \<le> sc_dc_id sc \<and> valid_scope_binding sc"

definition valid_safety_floor :: "SafetyFloor \<Rightarrow> bool" where
  "valid_safety_floor fl \<longleftrightarrow> finite_safety_number (fl_until_monotonic fl) \<and>
     finite_safety_number (fl_until_utc fl) \<and> finite_safety_number (fl_remaining_seconds fl)"

text \<open>\<^verbatim>\<open>rpartition(":")\<close>: the text before and after the last colon.\<close>

fun rpartition_colon :: "string \<Rightarrow> (string \<times> string) option" where
  "rpartition_colon [] = None"
| "rpartition_colon (c # cs) =
     (case rpartition_colon cs of
        Some (a, b) \<Rightarrow> Some (c # a, b)
      | None \<Rightarrow> if c = CHR '':'' then Some ([], cs) else None)"

definition hex_digits :: string where "hex_digits = ''0123456789abcdef''"

fun hex_value :: "nat \<Rightarrow> string \<Rightarrow> nat" where
  "hex_value acc [] = acc"
| "hex_value acc (c # cs) = hex_value (16 * acc + length (takeWhile (\<lambda>d. d \<noteq> c) hex_digits)) cs"

definition valid_method_key :: "Vendor \<Rightarrow> string \<Rightarrow> bool" where
  "valid_method_key vn key =
     (if length key > CANONICAL_METHOD_MAX_LENGTH then False
      else case rpartition_colon key of
        None \<Rightarrow> False
      | Some (name, constructor) \<Rightarrow>
          (if length constructor \<noteq> TL_CONSTRUCTOR_HEX_WIDTH \<or>
              list_ex (\<lambda>c. c \<notin> set hex_digits) constructor then False
           else vn_request_name vn (hex_value 0 constructor) = Some name))"

definition valid_method_state :: "method_state \<Rightarrow> int \<Rightarrow> (string \<times> string) option \<Rightarrow> bool" where
  "valid_method_state state count claim = (case state of
     METHOD_LIVE \<Rightarrow> 1 \<le> count | METHOD_RECOVERED \<Rightarrow> count = 0 \<and> claim = None)"

definition valid_method_claim :: "(string \<times> string) option \<Rightarrow> bool" where
  "valid_method_claim claim = (case claim of None \<Rightarrow> True | Some (attempt, run) \<Rightarrow> attempt \<noteq> [] \<and> run \<noteq> [])"

definition valid_method_episode :: "Episode \<Rightarrow> bool" where
  "valid_method_episode ep \<longleftrightarrow> ep_generation ep \<noteq> [] \<and>
     0 \<le> ep_consecutive_actual_floods ep \<and> 0 \<le> ep_consecutive_read_budget_failures ep \<and>
     valid_method_state (ep_state ep)
       (ep_consecutive_actual_floods ep + ep_consecutive_read_budget_failures ep) (ep_claim ep) \<and>
     valid_safety_floor (ep_floor ep) \<and> valid_method_claim (ep_claim ep)"

definition valid_method_episodes :: "Vendor \<Rightarrow> (string \<times> Episode) list \<Rightarrow> bool" where
  "valid_method_episodes vn eps \<longleftrightarrow> length eps \<le> vn_tlobjects vn \<and>
     list_all (\<lambda>(m, ep). valid_method_key vn m \<and> valid_method_episode ep) eps"

definition valid_intent_scope :: "Binding \<Rightarrow> bool" where
  "valid_intent_scope b \<longleftrightarrow> 0 < bn_dc_id b \<and>
     (case bn_account_id b of None \<Rightarrow> True | Some a \<Rightarrow> 0 < a)"

definition valid_policy_recovery :: "PolicyRecovery option \<Rightarrow> Binding \<Rightarrow> bool" where
  "valid_policy_recovery p b = (case p of None \<Rightarrow> True
   | Some pr \<Rightarrow> pr_policy_version pr = 1 \<and> pr_episode_id pr \<noteq> [] \<and> pr_grant_generation pr \<noteq> [] \<and>
       pr_scope pr = b \<and> valid_intent_scope (pr_scope pr))"

definition valid_aux_lock_scope :: "AuxLockScope \<Rightarrow> bool" where
  "valid_aux_lock_scope l \<longleftrightarrow> al_version l = 1 \<and> 0 \<le> al_device l \<and> 0 < al_inode l"

definition valid_aux_lock_owner :: "string \<Rightarrow> bool" where
  "valid_aux_lock_owner owner \<longleftrightarrow> length owner = AUX_OWNER_HEX_WIDTH \<and> list_all (\<lambda>c. c \<in> set hex_digits) owner"

definition valid_aux_fields :: "Intent \<Rightarrow> AuxBootstrap \<Rightarrow> bool" where
  "valid_aux_fields it ax \<longleftrightarrow>
     bn_key_id (ax_main_scope ax) \<noteq> None \<and> bn_account_id (ax_main_scope ax) \<noteq> None \<and>
     0 < ax_aux_dc_id ax \<and> Some (ax_aux_key_id ax) \<noteq> bn_key_id (ax_main_scope ax) \<and>
     ax_lease_id ax \<noteq> [] \<and> ax_work_id ax \<noteq> [] \<and> ax_attempt_generation ax \<noteq> [] \<and>
     ax_source_generation ax \<noteq> [] \<and> (ax_contained ax \<longrightarrow> it_phase it = INTENT_UNKNOWN) \<and>
     (case ax_lock ax of None \<Rightarrow> True
      | Some (scope, owner) \<Rightarrow> valid_aux_lock_scope scope \<and> valid_aux_lock_owner owner)"

definition aux_method :: "string \<Rightarrow> string option" where
  "aux_method purpose =
     (if purpose = ''export'' then Some ''telethon.tl.functions.auth.ExportAuthorizationRequest:e5bfffcd''
      else if purpose = ''import'' then Some ''telethon.tl.functions.auth.ImportAuthorizationRequest:a57a7dad''
      else None)"

definition valid_aux_provenance :: "Intent \<Rightarrow> AuxBootstrap \<Rightarrow> bool" where
  "valid_aux_provenance it ax \<longleftrightarrow> it_run it \<noteq> [] \<and> aux_method (ax_purpose ax) = Some (it_method it) \<and>
     valid_intent_scope (ax_main_scope ax) \<and> valid_aux_fields it ax \<and>
     it_scope it = (if ax_purpose ax = ''export'' then ax_main_scope ax
       else \<lparr>bn_dc_id = ax_aux_dc_id ax, bn_key_id = Some (ax_aux_key_id ax),
             bn_account_id = bn_account_id (ax_main_scope ax)\<rparr>)"

definition valid_aux_bootstrap :: "Intent \<Rightarrow> bool" where
  "valid_aux_bootstrap it = (case it_aux_bootstrap it of None \<Rightarrow> True | Some ax \<Rightarrow> valid_aux_provenance it ax)"

text \<open>\<^verbatim>\<open>NativeWriteReceiptBinding.__post_init__\<close>.\<close>

definition native_binding_ok :: "NativeWriteReceiptBinding \<Rightarrow> bool" where
  "native_binding_ok nb \<longleftrightarrow>
     0 < nb_account_id nb \<and> 0 < nb_dc_id nb \<and> 0 < nb_target nb \<and> 0 < nb_binding_revision nb \<and>
     nb_operation_key nb \<noteq> [] \<and> nb_action nb \<noteq> [] \<and> nb_semantic_fingerprint nb \<noteq> []"

definition contact_binding_method_matches :: "Vendor \<Rightarrow> NativeWriteReceiptBinding \<Rightarrow> string \<Rightarrow> bool" where
  "contact_binding_method_matches vn nb called =
     (if nb_domain nb \<noteq> DOMAIN_CONTACT then True
      else nb_action nb \<in> {''create'', ''update'', ''delete''} \<and>
        called = (if nb_action nb = ''delete'' then vn_delete_contacts vn else vn_add_contact vn))"

definition native_expected :: "Vendor \<Rightarrow> NativeWriteDomain \<Rightarrow> string list" where
  "native_expected vn d = (case d of
     DOMAIN_FOLDER \<Rightarrow> [vn_update_dialog_filter vn]
   | DOMAIN_CONTACT_NOTE \<Rightarrow> [vn_update_contact_note vn]
   | DOMAIN_CONTACT \<Rightarrow> [vn_add_contact vn, vn_delete_contacts vn])"

definition native_receipt_method_matches ::
    "Vendor \<Rightarrow> NativeWriteReceiptBinding \<Rightarrow> string \<Rightarrow> string list \<Rightarrow> bool" where
  "native_receipt_method_matches vn nb called kinds \<longleftrightarrow>
     called \<in> set kinds \<and> contact_binding_method_matches vn nb called"

definition valid_native_receipt_owner :: "Vendor \<Rightarrow> Intent \<Rightarrow> bool" where
  "valid_native_receipt_owner vn it = (case it_native_owner it of None \<Rightarrow> True
   | Some owner \<Rightarrow>
       (let nb = no_binding owner in
        native_binding_ok nb \<and>
        native_receipt_method_matches vn nb (it_method it) (native_expected vn (nb_domain nb)) \<and>
        nb_dc_id nb = bn_dc_id (it_scope it) \<and> Some (nb_key_id nb) = bn_key_id (it_scope it) \<and>
        Some (nb_account_id nb) = bn_account_id (it_scope it) \<and>
        (no_contained owner \<longrightarrow> it_phase it = INTENT_UNKNOWN)))"

definition valid_read_retry :: "Intent \<Rightarrow> bool" where
  "valid_read_retry it = (case it_read_retry it of None \<Rightarrow> True
   | Some r \<Rightarrow> (case r of Clean_Shutdown \<Rightarrow> True | Read_Failure why generation \<Rightarrow> generation \<noteq> []) \<and>
       it_phase it = INTENT_UNKNOWN \<and> rpc_effect (it_method it) = EFFECT_NONMUTATING_READ)"

definition valid_intent_disposition :: "Intent \<Rightarrow> bool" where
  "valid_intent_disposition it \<longleftrightarrow> it_policy_recovery it = None \<or>
     it_phase it = INTENT_UNKNOWN \<and> rpc_effect (it_method it) = EFFECT_NONMUTATING_READ"

definition valid_safety_intent_payload :: "Vendor \<Rightarrow> Intent \<Rightarrow> bool" where
  "valid_safety_intent_payload vn it \<longleftrightarrow> valid_intent_scope (it_scope it) \<and>
     valid_policy_recovery (it_policy_recovery it) (it_scope it) \<and> valid_aux_bootstrap it \<and>
     valid_native_receipt_owner vn it \<and> valid_intent_disposition it \<and> valid_read_retry it"

text \<open>The admitted key sets: the four common fields and at most one more.\<close>

definition one_disposition :: "Intent \<Rightarrow> bool" where
  "one_disposition it \<longleftrightarrow> length (filter id [it_policy_recovery it \<noteq> None, it_aux_bootstrap it \<noteq> None,
     it_native_owner it \<noteq> None, it_read_retry it \<noteq> None]) \<le> 1"

definition valid_safety_intent :: "Vendor \<Rightarrow> string \<Rightarrow> Intent \<Rightarrow> bool" where
  "valid_safety_intent vn key it \<longleftrightarrow> key \<noteq> [] \<and> one_disposition it \<and> valid_safety_intent_payload vn it"

definition valid_bound_intents :: "string list \<Rightarrow> bool" where
  "valid_bound_intents ids \<longleftrightarrow> list_all (\<lambda>i. i \<noteq> []) ids \<and> distinct ids"

definition CAUSES :: "RecoveryCause list" where
  "CAUSES = [CAUSE_FLOOD_WAIT, CAUSE_TRANSIENT, CAUSE_READ_UNCERTAINTY]"

definition valid_automatic_counts :: "Automatic \<Rightarrow> bool" where
  "valid_automatic_counts au \<longleftrightarrow>
     list_all (\<lambda>c. 0 \<le> au_attempts_by_policy au c \<and> 0 \<le> au_failure_stages au c) CAUSES \<and>
     au_attempts_by_policy au CAUSE_FLOOD_WAIT \<le> int (length AUTO_RESUME_DELAYS) \<and>
     au_attempts_total au = sum_list (map (au_attempts_by_policy au) CAUSES)"

definition valid_automatic_metadata :: "Automatic \<Rightarrow> bool" where
  "valid_automatic_metadata au \<longleftrightarrow> au_episode_id au \<noteq> [] \<and> au_policy_version au = 1 \<and>
     (case au_quiet_anchor au of None \<Rightarrow> True | Some fl \<Rightarrow> valid_safety_floor fl) \<and>
     (case au_scheduled_due au of None \<Rightarrow> True | Some fl \<Rightarrow> valid_safety_floor fl) \<and>
     valid_bound_intents (au_bound_intent_ids au) \<and>
     (case au_last_transition_key au of None \<Rightarrow> True | Some k \<Rightarrow> k \<noteq> [])"

definition valid_automatic_recovery :: "Automatic \<Rightarrow> bool" where
  "valid_automatic_recovery au \<longleftrightarrow> valid_automatic_counts au \<and> valid_automatic_metadata au"

definition valid_automatic_state :: "Automatic \<Rightarrow> RecoveryPhase \<Rightarrow> bool" where
  "valid_automatic_state au state \<longleftrightarrow> valid_automatic_recovery au \<and>
     \<not> (state = PHASE_WAITING \<and> au_scheduled_due au = None)"

definition valid_safety_recovery :: "Trial option \<Rightarrow> bool" where
  "valid_safety_recovery recovery = (case recovery of None \<Rightarrow> True
   | Some tr \<Rightarrow>
       (case tr_automatic tr of None \<Rightarrow> True | Some au \<Rightarrow> valid_automatic_state au (tr_state tr)) \<and>
       tr_state tr \<in> {PHASE_AUTHORIZED, PHASE_CONSUMED, PHASE_SUCCEEDED, PHASE_FAILED} \<union>
         (if tr_automatic tr \<noteq> None then {PHASE_WAITING, PHASE_FENCING, PHASE_EXHAUSTED} else {}) \<and>
       validate_safety_scope (tr_scope tr))"

definition valid_transition_key :: "transition_phase \<Rightarrow> int option \<Rightarrow> bool" where
  "valid_transition_key phase key = (case phase of
     TRANSITION_PREPARED \<Rightarrow> key = None
   | TRANSITION_KEY_BOUND \<Rightarrow> key \<noteq> None
   | TRANSITION_LOGOUT_CONFIRMED \<Rightarrow> True)"

definition valid_safety_transition :: "Transition option \<Rightarrow> bool" where
  "valid_safety_transition transition = (case transition of None \<Rightarrow> True
   | Some tn \<Rightarrow> validate_safety_scope (tn_from tn) \<and> 0 < tn_to_dc tn \<and>
       valid_transition_key (tn_phase tn) (tn_target_key tn) \<and> 0 \<le> tn_owned_generation tn \<and>
       (case tn_expected_account tn of None \<Rightarrow> True | Some a \<Rightarrow> 0 < a) \<and>
       (case tn_validated_account tn of None \<Rightarrow> True | Some a \<Rightarrow> 0 < a))"

definition validate_safety_record :: "Vendor \<Rightarrow> SafetyRecord \<Rightarrow> bool" where
  "validate_safety_record vn sr \<longleftrightarrow> sr_generation sr \<noteq> [] \<and> valid_safety_floor (sr_floor sr) \<and>
     validate_safety_scope (sr_scope sr) \<and>
     list_all (\<lambda>(k, it). valid_safety_intent vn k it) (sr_intents sr) \<and>
     valid_safety_recovery (sr_recovery sr) \<and> valid_safety_transition (sr_transition sr) \<and>
     valid_method_episodes vn (sr_methods sr)"

section \<open>What blocks\<close>

text \<open>\<^verbatim>\<open>{key: scope[key] for key in ("dc_id", "key_id", "account_id")}\<close>\<close>

definition binding_of :: "SafetyScope \<Rightarrow> Binding" where
  "binding_of sc = \<lparr>bn_dc_id = sc_dc_id sc, bn_key_id = sc_key_id sc, bn_account_id = sc_account_id sc\<rparr>"

definition is_contained_aux :: "Intent \<Rightarrow> bool" where
  "is_contained_aux it = (case it_aux_bootstrap it of None \<Rightarrow> False
     | Some ax \<Rightarrow> ax_contained ax \<and> it_phase it = INTENT_UNKNOWN)"

definition is_contained_native :: "Intent \<Rightarrow> SafetyScope \<Rightarrow> bool" where
  "is_contained_native it sc \<longleftrightarrow> it_phase it = INTENT_UNKNOWN \<and>
     (case it_native_owner it of None \<Rightarrow> False | Some owner \<Rightarrow> no_contained owner) \<and>
     it_scope it = binding_of sc"

definition is_scoped_read_retry :: "Intent \<Rightarrow> SafetyScope \<Rightarrow> bool" where
  "is_scoped_read_retry it sc \<longleftrightarrow> sc_stage sc = STAGE_VERIFIED \<and> it_read_retry it \<noteq> None \<and>
     it_scope it = binding_of sc"

definition is_scoped_contained_aux :: "Intent \<Rightarrow> SafetyScope \<Rightarrow> bool" where
  "is_scoped_contained_aux it sc \<longleftrightarrow> is_contained_aux it \<and>
     (case it_aux_bootstrap it of None \<Rightarrow> False | Some ax \<Rightarrow> ax_main_scope ax = binding_of sc)"

definition intent_blocks :: "Intent \<Rightarrow> SafetyScope \<Rightarrow> bool" where
  "intent_blocks it sc =
     (if is_scoped_read_retry it sc then False
      else if is_contained_native it sc then False
      else if is_scoped_contained_aux it sc then False
      else it_phase it \<noteq> INTENT_ACKNOWLEDGED_UNKNOWN \<and>
        \<not> (it_phase it = INTENT_UNKNOWN \<and> it_policy_recovery it \<noteq> None \<and> it_scope it = binding_of sc))"

lemma prepared_blocks:
  "valid_safety_intent vn k it \<Longrightarrow> it_phase it = INTENT_PREPARED \<Longrightarrow> intent_blocks it sc"
  by (auto simp: intent_blocks_def is_scoped_read_retry_def is_contained_native_def
      is_scoped_contained_aux_def is_contained_aux_def valid_safety_intent_def
      valid_safety_intent_payload_def valid_read_retry_def split: option.splits)

end
