(* ===== verification/Safety_Ledger.thy ===== *)
theory Safety_Ledger
  imports Safety_Record
begin

text \<open>
  \<^verbatim>\<open>TelegramRpcSafetyLedger\<close> of \<^verbatim>\<open>telegram_rpc.py\<close>: the daemon-owned ledger that makes every
  outbound attempt durable before it is written, and refuses writes while an outcome, an
  identity or a restriction is unsettled.

  \<open>Ledger\<close> is the object, with the record it last committed (\<open>None\<close> when the stored receipt
  could not be read) and with what its store holds (\<open>ld_stored\<close>, the part that survives a
  crash). A mutation is a function on a copy of the record that may raise; \<open>commit\<close> applies
  it, validates the result and saves it, all under the ledger's lock, so that a mutation is
  one step. An \<open>LedgerEnv\<close> is what one step reads from outside: the clocks (read once per step),
  the canonical owners of the archive, fresh identifiers (\<^verbatim>\<open>uuid4().hex\<close>, with an index of
  its own for each place of an operation that draws one), whether another mutation task is
  pending, and what becomes of the save. A save that fails may have reached the store or not.
  Left out: the in-memory retry credits of method receipts, the image scope cell and telemetry.
\<close>

section \<open>State\<close>

text \<open>
  What the ledger raises: \<open>Protection_Active\<close> is its \<^verbatim>\<open>TelegramRpcThrottled\<close>, \<open>Lookup_Error\<close> the
  Python error for a subscript that is not there, and the last two defer a method.
\<close>

record MethodDeferral =
  df_retry_after :: int
  df_method_key :: string
  df_generation :: string
  df_eligible_at :: time
  df_reason :: string
  df_detail :: "string option"

datatype ledger_error =
    Value_Error string
  | Runtime_Error string
  | Protection_Active
  | Storage_Error
  | Lookup_Error
  | Method_Recovery_Pending string string string
  | Admission_Deferred MethodDeferral

datatype save_outcome = SAVE_ACCEPTED | SAVE_LOST | SAVE_TORN

record LedgerEnv =
  en_now_mono :: time
  en_now_utc :: time
  en_owners :: "int option \<times> int option"
  en_fresh :: "nat \<Rightarrow> string"
  en_other_operations :: bool
  en_save :: save_outcome
  en_vendor :: Vendor

record Ledger =
  ld_boot_id :: string
  ld_run :: string
  ld_claimed :: "string set"
  ld_stored :: "unit + SafetyRecord option"
  ld_storage_failed :: bool
  ld_startup_hold :: "string option"
  ld_record :: "SafetyRecord option"
  ld_read_scope_valid :: bool
  ld_auto_resume_enabled :: bool
  ld_auto_resume_rebased :: bool
  ld_authentication_authorized :: bool

definition owner_list :: "LedgerEnv \<Rightarrow> int option list" where
  "owner_list env = [fst (en_owners env), snd (en_owners env)]"

section \<open>Floors\<close>

definition recovery_floor :: "Ledger \<Rightarrow> SafetyFloor \<Rightarrow> RecoveryFloor" where
  "recovery_floor ld fl = \<lparr>until_monotonic = fl_until_monotonic fl, until_utc = fl_until_utc fl,
     remaining_seconds = fl_remaining_seconds fl, same_boot = (fl_boot_id fl = ld_boot_id ld)\<rparr>"

definition floor_release_at :: "Ledger \<Rightarrow> LedgerEnv \<Rightarrow> SafetyFloor \<Rightarrow> time" where
  "floor_release_at ld env fl =
     recovery_floor_release_at (recovery_floor ld fl) (en_now_mono env) (en_now_utc env)"

definition floor_deadline :: "Ledger \<Rightarrow> LedgerEnv \<Rightarrow> release" where
  "floor_deadline ld env = (case ld_record ld of None \<Rightarrow> Never
     | Some r \<Rightarrow> At (floor_release_at ld env (sr_floor r)))"

definition floor_elapsed :: "Ledger \<Rightarrow> LedgerEnv \<Rightarrow> bool" where
  "floor_elapsed ld env \<longleftrightarrow> floor_deadline ld env \<le> At (en_now_mono env)"

text \<open>A floor of the current boot that ends after \<open>remaining\<close> seconds.\<close>

definition floor_after :: "Ledger \<Rightarrow> LedgerEnv \<Rightarrow> time \<Rightarrow> SafetyFloor" where
  "floor_after ld env remaining = \<lparr>fl_boot_id = ld_boot_id ld,
     fl_until_monotonic = en_now_mono env + remaining, fl_until_utc = en_now_utc env + remaining,
     fl_remaining_seconds = remaining\<rparr>"

definition rebase_floor :: "Ledger \<Rightarrow> LedgerEnv \<Rightarrow> SafetyFloor \<Rightarrow> SafetyFloor" where
  "rebase_floor ld env fl =
     (if fl_boot_id fl = ld_boot_id ld then fl
      else let remaining = max (max (fl_remaining_seconds fl) (fl_until_utc fl - en_now_utc env)) 0
           in \<lparr>fl_boot_id = ld_boot_id ld, fl_until_monotonic = en_now_mono env + remaining,
               fl_until_utc = max (fl_until_utc fl) (en_now_utc env + remaining),
               fl_remaining_seconds = remaining\<rparr>)"

text \<open>
  \<^verbatim>\<open>_extend_floor\<close>. It is called on a record copied from the ledger's, so \<^verbatim>\<open>self.floor_deadline\<close>
  is finite; the second use of it sees the same committed record.
\<close>

definition extend_floor :: "Ledger \<Rightarrow> LedgerEnv \<Rightarrow> time \<Rightarrow> SafetyRecord \<Rightarrow> ledger_error + SafetyRecord" where
  "extend_floor ld env until r =
     (if \<not> finite_safety_number until then Inl (Value_Error ''invalid safety floor'')
      else case floor_deadline ld env of
        Never \<Rightarrow> Inl (Runtime_Error ''unreadable record'')
      | At deadline \<Rightarrow>
          (let fl = sr_floor r; remaining = max 0 (until - en_now_utc env) in
           Inr (r\<lparr>sr_floor := \<lparr>fl_boot_id = ld_boot_id ld,
             fl_until_monotonic = max deadline (en_now_mono env + remaining),
             fl_until_utc = max (fl_until_utc fl) until,
             fl_remaining_seconds = max (max 0 (deadline - en_now_mono env)) remaining\<rparr>\<rparr>)))"

section \<open>Protection\<close>

definition any_blocks :: "SafetyRecord \<Rightarrow> bool" where
  "any_blocks r \<longleftrightarrow> list_ex (\<lambda>(k, it). intent_blocks it (sr_scope r)) (sr_intents r)"

definition unresolved :: "Ledger \<Rightarrow> bool" where
  "unresolved ld = (case ld_record ld of None \<Rightarrow> False | Some r \<Rightarrow> any_blocks r)"

definition protection_reason :: "Ledger \<Rightarrow> string option" where
  "protection_reason ld =
     (if ld_storage_failed ld then Some ''safety_storage_failure''
      else case ld_startup_hold ld of
        Some h \<Rightarrow> Some h
      | None \<Rightarrow> (case ld_record ld of None \<Rightarrow> None | Some r \<Rightarrow> sr_protection r))"

definition MISMATCHES :: "string list" where
  "MISMATCHES = [''safety_auth_scope_mismatch'', ''safety_canonical_owner_mismatch'']"

definition verified_account_id :: "Ledger \<Rightarrow> int option" where
  "verified_account_id ld =
     (if \<not> ld_read_scope_valid ld then None
      else case ld_record ld of None \<Rightarrow> None
      | Some r \<Rightarrow>
          (if (case ld_startup_hold ld of None \<Rightarrow> False | Some h \<Rightarrow> h \<in> set MISMATCHES) \<or>
              (case sr_protection r of None \<Rightarrow> False | Some p \<Rightarrow> p \<in> set MISMATCHES) then None
           else if (case sr_transition r of None \<Rightarrow> False
                    | Some tn \<Rightarrow> tn_purpose tn = PURPOSE_LOGOUT \<and> tn_phase tn = TRANSITION_LOGOUT_CONFIRMED)
           then None
           else if sc_stage (sr_scope r) = STAGE_VERIFIED then sc_account_id (sr_scope r) else None))"

definition require_writable :: "Ledger \<Rightarrow> bool \<Rightarrow> ledger_error + unit" where
  "require_writable ld auth_only =
     (if auth_only
      then guard (ld_authentication_authorized ld \<and> \<not> ld_storage_failed ld)
             (Runtime_Error ''authentication authorization is not active'')
      else guard (protection_reason ld = None) Protection_Active)"

section \<open>Commits\<close>

definition intent_ids :: "SafetyRecord \<Rightarrow> string set" where
  "intent_ids r = set (od_keys (sr_intents r))"

text \<open>
  \<^verbatim>\<open>_commit\<close> with \<^verbatim>\<open>_commit_owned\<close> and \<^verbatim>\<open>_operation_done\<close>. A settled attempt and attempts without
  an intent are no longer claimed. A failed save latches the ledger.
\<close>

definition saved_store :: "save_outcome \<Rightarrow> SafetyRecord \<Rightarrow> Ledger \<Rightarrow> unit + SafetyRecord option" where
  "saved_store out r ld = (if out = SAVE_LOST then ld_stored ld else Inr (Some r))"

definition commit :: "LedgerEnv \<Rightarrow> string option \<Rightarrow> (SafetyRecord \<Rightarrow> ledger_error + 'a \<times> SafetyRecord) \<Rightarrow>
    Ledger \<Rightarrow> (ledger_error + 'a) \<times> Ledger" where
  "commit env settled change ld =
     (if ld_storage_failed ld then (Inl Protection_Active, ld)
      else case ld_record ld of
        None \<Rightarrow> (Inl Storage_Error, ld)
      | Some r \<Rightarrow>
          (case change r of
             Inl e \<Rightarrow> (Inl e, ld)
           | Inr (a, r') \<Rightarrow>
               (if \<not> validate_safety_record (en_vendor env) r'
                then (Inl (Value_Error ''invalid outbound safety mutation''), ld)
                else if en_save env \<noteq> SAVE_ACCEPTED
                then (Inl Storage_Error,
                      ld\<lparr>ld_stored := saved_store (en_save env) r' ld, ld_storage_failed := True\<rparr>)
                else (Inr a, ld\<lparr>ld_record := Some r', ld_stored := saved_store (en_save env) r' ld,
                        ld_claimed := (ld_claimed ld - set_option settled) \<inter> intent_ids r'\<rparr>))))"

lemma commit_cases:
  obtains (refused) e where "commit env settled change ld = (Inl e, ld)"
  | (failed) r a r' where "\<not> ld_storage_failed ld" and "ld_record ld = Some r" and "change r = Inr (a, r')"
      and "validate_safety_record (en_vendor env) r'" and "en_save env \<noteq> SAVE_ACCEPTED"
      and "commit env settled change ld =
        (Inl Storage_Error, ld\<lparr>ld_stored := saved_store (en_save env) r' ld, ld_storage_failed := True\<rparr>)"
  | (saved) r a r' where "\<not> ld_storage_failed ld" and "ld_record ld = Some r" and "change r = Inr (a, r')"
      and "validate_safety_record (en_vendor env) r'" and "en_save env = SAVE_ACCEPTED"
      and "commit env settled change ld = (Inr a, ld\<lparr>ld_record := Some r', ld_stored := Inr (Some r'),
        ld_claimed := (ld_claimed ld - set_option settled) \<inter> intent_ids r'\<rparr>)"
proof (cases "ld_storage_failed ld \<or> ld_record ld = None")
  case True
  then have "\<exists>e. commit env settled change ld = (Inl e, ld)"
    by (cases "ld_storage_failed ld") (auto simp: commit_def)
  then show ?thesis using refused by blast
next
  case False
  then obtain r where r: "\<not> ld_storage_failed ld" "ld_record ld = Some r" by auto
  show ?thesis
  proof (cases "change r")
    case (Inl e)
    with r show ?thesis by (intro refused) (simp add: commit_def)
  next
    case (Inr p)
    obtain a r' where p: "p = (a, r')" by (cases p)
    consider "\<not> validate_safety_record (en_vendor env) r'"
      | "validate_safety_record (en_vendor env) r'" "en_save env \<noteq> SAVE_ACCEPTED"
      | "validate_safety_record (en_vendor env) r'" "en_save env = SAVE_ACCEPTED" by blast
    then show ?thesis
    proof cases
      case 1
      with r Inr p show ?thesis by (intro refused) (simp add: commit_def)
    next
      case 2
      with r Inr p show ?thesis by (intro failed [of r a r']) (simp_all add: commit_def)
    next
      case 3
      with r Inr p show ?thesis by (intro saved [of r a r']) (simp_all add: commit_def saved_store_def)
    qed
  qed
qed

text \<open>A mutation without a result.\<close>

definition plain :: "(SafetyRecord \<Rightarrow> ledger_error + SafetyRecord) \<Rightarrow> SafetyRecord \<Rightarrow> ledger_error + unit \<times> SafetyRecord" where
  "plain f r = map_sum id (\<lambda>r'. ((), r')) (f r)"

section \<open>Start-up\<close>

definition scope_startup_hold :: "LedgerEnv \<Rightarrow> SafetyScope \<Rightarrow> int \<Rightarrow> int option \<Rightarrow> string option" where
  "scope_startup_hold env sc dc_id key_id =
     (if (sc_dc_id sc, sc_key_id sc) \<noteq> (dc_id, key_id) then Some ''safety_auth_scope_mismatch''
      else if sc_stage sc = STAGE_VERIFIED \<and>
              list_ex (\<lambda>owner. owner \<noteq> None \<and> owner \<noteq> sc_account_id sc) (owner_list env)
      then Some ''safety_canonical_owner_mismatch'' else None)"

definition restore_startup_protection :: "SafetyRecord \<Rightarrow> Ledger \<Rightarrow> Ledger" where
  "restore_startup_protection r ld =
     (let valid = (ld_startup_hold ld = None \<and> sc_stage (sr_scope r) = STAGE_VERIFIED);
          hold1 = (if any_blocks r then (case ld_startup_hold ld of None \<Rightarrow> Some ''unresolved_outbound_outcome'' | h \<Rightarrow> h)
                   else ld_startup_hold ld);
          hold2 = (if sr_transition r \<noteq> None
                   then (case hold1 of None \<Rightarrow> Some ''transport_transition_incomplete'' | h \<Rightarrow> h) else hold1);
          hold3 = (if (case sr_recovery r of None \<Rightarrow> False | Some tr \<Rightarrow> tr_state tr = PHASE_CONSUMED) \<and>
                      \<not> (case hold2 of None \<Rightarrow> False | Some h \<Rightarrow> h \<in> set MISMATCHES)
                   then Some ''recovery_trial_incomplete'' else hold2)
      in ld\<lparr>ld_read_scope_valid := valid, ld_startup_hold := hold3\<rparr>)"

definition rebase_automatic :: "Ledger \<Rightarrow> LedgerEnv \<Rightarrow> Automatic \<Rightarrow> Automatic" where
  "rebase_automatic ld env au = au\<lparr>
     au_scheduled_due := map_option (rebase_floor ld env) (au_scheduled_due au),
     au_quiet_anchor := map_option (rebase_floor ld env) (au_quiet_anchor au)\<rparr>"

definition rebases_automatic :: "Ledger \<Rightarrow> Automatic \<Rightarrow> bool" where
  "rebases_automatic ld au \<longleftrightarrow>
     list_ex (\<lambda>f. case f of None \<Rightarrow> False | Some fl \<Rightarrow> fl_boot_id fl \<noteq> ld_boot_id ld)
       [au_scheduled_due au, au_quiet_anchor au]"

definition rebase_safety_record :: "LedgerEnv \<Rightarrow> time option \<Rightarrow> SafetyRecord \<Rightarrow> Ledger \<Rightarrow> Ledger" where
  "rebase_safety_record env legacy r ld =
     (let fl = sr_floor r;
          fl1 = fl\<lparr>fl_until_utc := max (fl_until_utc fl) (case legacy of None \<Rightarrow> 0 | Some t \<Rightarrow> t)\<rparr>;
          rebased = (case sr_recovery r of None \<Rightarrow> False | Some tr \<Rightarrow>
            (case tr_automatic tr of None \<Rightarrow> False | Some au \<Rightarrow> rebases_automatic ld au))
      in ld\<lparr>ld_record := Some (r\<lparr>sr_floor := rebase_floor ld env fl1,
              sr_methods := map (\<lambda>(m, ep). (m, ep\<lparr>ep_floor := rebase_floor ld env (ep_floor ep)\<rparr>)) (sr_methods r),
              sr_recovery := map_option (\<lambda>tr. tr\<lparr>tr_automatic :=
                map_option (rebase_automatic ld env) (tr_automatic tr)\<rparr>) (sr_recovery r)\<rparr>),
            ld_auto_resume_rebased := ld_auto_resume_rebased ld \<or> rebased\<rparr>)"

definition uncontain_native :: "Intent \<Rightarrow> Intent" where
  "uncontain_native it = it\<lparr>it_native_owner :=
     map_option (\<lambda>owner. owner\<lparr>no_contained := False\<rparr>) (it_native_owner it)\<rparr>"

definition fresh_ledger :: "string \<Rightarrow> string \<Rightarrow> Ledger" where
  "fresh_ledger boot_id run = \<lparr>ld_boot_id = boot_id, ld_run = run, ld_claimed = {}, ld_stored = Inl (),
     ld_storage_failed = False, ld_startup_hold = None, ld_record = None,
     ld_read_scope_valid = False, ld_auto_resume_enabled = False, ld_auto_resume_rebased = False,
     ld_authentication_authorized = False\<rparr>"

definition storage_failure :: "Ledger \<Rightarrow> Ledger" where
  "storage_failure ld = ld\<lparr>ld_storage_failed := True,
     ld_startup_hold := (case ld_startup_hold ld of None \<Rightarrow> Some ''invalid_safety_receipt'' | h \<Rightarrow> h)\<rparr>"

definition initial_record :: "LedgerEnv \<Rightarrow> string \<Rightarrow> int \<Rightarrow> int option \<Rightarrow> time option \<Rightarrow> SafetyRecord" where
  "initial_record env boot_id dc_id key_id legacy =
     (let until = (case legacy of None \<Rightarrow> 0 | Some t \<Rightarrow> t) in
      \<lparr>sr_generation = en_fresh env 0,
       sr_scope = \<lparr>sc_stage = (if key_id \<noteq> None then STAGE_TRANSPORT_ONLY else STAGE_KEY_PENDING),
                   sc_dc_id = dc_id, sc_key_id = key_id, sc_account_id = None\<rparr>,
       sr_floor = \<lparr>fl_boot_id = boot_id, fl_until_monotonic = 0, fl_until_utc = until,
                   fl_remaining_seconds = max 0 (until - en_now_utc env)\<rparr>,
       sr_intents = [], sr_protection = None, sr_recovery = None, sr_transition = None,
       sr_methods = []\<rparr>)"

text \<open>
  \<^verbatim>\<open>__init__\<close> and \<^verbatim>\<open>_load\<close>. \<open>stored\<close> is the decoded receipt of the store: \<open>Inl ()\<close> if it cannot
  be read or decoded, \<open>Inr None\<close> if there is none. \<open>legacy\<close> is the legacy restriction, with
  \<open>Inl ()\<close> for a value that is no timestamp.
\<close>

definition load :: "LedgerEnv \<Rightarrow> string \<Rightarrow> string \<Rightarrow> int \<Rightarrow> int option \<Rightarrow> unit + time option \<Rightarrow>
    unit + SafetyRecord option \<Rightarrow> Ledger" where
  "load env boot_id run dc_id key_id legacy stored =
     (let ld = (fresh_ledger boot_id run)\<lparr>ld_stored := stored\<rparr> in
      case stored of
        Inl u \<Rightarrow> storage_failure ld
      | Inr None \<Rightarrow>
          (case legacy of
             Inl u \<Rightarrow> storage_failure ld
           | Inr until \<Rightarrow>
               (let r = initial_record env boot_id dc_id key_id until; ld1 = ld\<lparr>ld_record := Some r\<rparr> in
                if \<not> validate_safety_record (en_vendor env) r then storage_failure ld1
                else if key_id = None \<and> list_ex (\<lambda>owner. owner \<noteq> None) (owner_list env)
                then ld1\<lparr>ld_startup_hold := Some ''new_key_conflicts_with_owned_state''\<rparr> else ld1))
      | Inr (Some r) \<Rightarrow>
          (if \<not> validate_safety_record (en_vendor env) r then storage_failure ld
           else let r1 = r\<lparr>sr_intents := map (\<lambda>(k, it). (k, uncontain_native it)) (sr_intents r)\<rparr>;
                    ld1 = ld\<lparr>ld_record := Some r1,
                             ld_startup_hold := scope_startup_hold env (sr_scope r1) dc_id key_id\<rparr>;
                    ld2 = restore_startup_protection r1 ld1
                in case legacy of
                     Inl u \<Rightarrow> storage_failure ld2
                   | Inr until \<Rightarrow> rebase_safety_record env until r1 ld2))"

section \<open>Shapes of operations\<close>

text \<open>
  An operation returns what it raises or returns, and the ledger it leaves. \<open>checked c op\<close>
  runs a check before the operation; \<open>on_success\<close> is code after the commit, which an
  exception skips.
\<close>

type_synonym 'a outcome = "(ledger_error + 'a) \<times> Ledger"

definition checked :: "ledger_error + unit \<Rightarrow> (Ledger \<Rightarrow> 'a outcome) \<Rightarrow> Ledger \<Rightarrow> 'a outcome" where
  "checked c op ld = (case c of Inl e \<Rightarrow> (Inl e, ld) | Inr u \<Rightarrow> op ld)"

definition on_success :: "'a outcome \<Rightarrow> (Ledger \<Rightarrow> Ledger) \<Rightarrow> 'a outcome" where
  "on_success out post = (case out of (Inl e, ld) \<Rightarrow> (Inl e, ld) | (Inr a, ld) \<Rightarrow> (Inr a, post ld))"

text \<open>\<open>if self._startup_hold == "unresolved_outbound_outcome" and not self._unresolved()\<close>\<close>

definition lift_unresolved_hold :: "Ledger \<Rightarrow> Ledger" where
  "lift_unresolved_hold ld =
     (if ld_startup_hold ld = Some ''unresolved_outbound_outcome'' \<and> \<not> unresolved ld
      then ld\<lparr>ld_startup_hold := None\<rparr> else ld)"

definition clear_unresolved_protection :: "SafetyRecord \<Rightarrow> SafetyRecord" where
  "clear_unresolved_protection r =
     (if sr_protection r = Some ''unresolved_outbound_outcome'' \<and> \<not> any_blocks r
      then r\<lparr>sr_protection := None\<rparr> else r)"

end
