(* ===== verification/Safety_Auto.thy ===== *)
theory Safety_Auto
  imports Safety_Ledger
begin

text \<open>
  Automatic recovery in \<^verbatim>\<open>TelegramRpcSafetyLedger\<close>: the snapshot of a record that the policy
  of \<open>Rpc_Recovery\<close> decides on, and what each command of the policy does to the record. A
  function here takes the ledger (\<^verbatim>\<open>self\<close>), what it reads from outside, and the copy of the
  record that the mutation works on. A Python \<^verbatim>\<open>None\<close> that the code would index is
  \<open>Inl Lookup_Error\<close>.
\<close>

section \<open>Snapshot\<close>

definition automatic_of :: "SafetyRecord \<Rightarrow> Automatic option" where
  "automatic_of r = (case sr_recovery r of None \<Rightarrow> None | Some tr \<Rightarrow> tr_automatic tr)"

definition auto_recovery_identity ::
    "Ledger \<Rightarrow> SafetyRecord \<Rightarrow> RecoveryMode \<times> RecoveryPhase \<times> RecoveryRun" where
  "auto_recovery_identity ld r = (case sr_recovery r of
     None \<Rightarrow> (MODE_NONE, PHASE_NONE, RUN_ABSENT)
   | Some tr \<Rightarrow>
       (if tr_automatic tr \<noteq> None then MODE_AUTO else MODE_MANUAL, tr_state tr,
        case tr_consumed_run tr of None \<Rightarrow> RUN_ABSENT
        | Some run \<Rightarrow> if run = ld_run ld then RUN_CURRENT else RUN_OTHER))"

definition auto_owner_pending :: "Ledger \<Rightarrow> LedgerEnv \<Rightarrow> SafetyRecord \<Rightarrow> bool" where
  "auto_owner_pending ld env r \<longleftrightarrow> ld_claimed ld \<noteq> {} \<or>
     list_ex (\<lambda>(k, it). it_phase it = INTENT_PREPARED \<and> it_run it = ld_run ld) (sr_intents r) \<or>
     en_other_operations env"

definition auto_resume_outcomes_settled :: "SafetyRecord \<Rightarrow> bool" where
  "auto_resume_outcomes_settled r \<longleftrightarrow>
     list_all (\<lambda>(k, it). \<not> intent_blocks it (sr_scope r) \<or>
       it_scope it = binding_of (sr_scope r) \<and> rpc_effect (it_method it) = EFFECT_NONMUTATING_READ)
       (sr_intents r)"

definition AUTO_RESUME_ALLOWED :: "string option list" where
  "AUTO_RESUME_ALLOWED =
    [None, Some ''unresolved_outbound_outcome'', Some ''recovery_trial_incomplete'',
     Some ''recovery_trial_failed'', Some ''flood_wait_circuit_open'', Some ''transport_unavailable'']"

definition owners_match :: "LedgerEnv \<Rightarrow> int option \<Rightarrow> bool" where
  "owners_match env account \<longleftrightarrow> list_all (\<lambda>owner. owner = None \<or> owner = account) (owner_list env)"

definition auto_resume_scope_safe :: "Ledger \<Rightarrow> LedgerEnv \<Rightarrow> bool \<Rightarrow> SafetyRecord \<Rightarrow> bool" where
  "auto_resume_scope_safe ld env allow_claimed r =
     (if ld_storage_failed ld \<or> verified_account_id ld = None then False
      else (allow_claimed \<or> ld_claimed ld = {}) \<and>
        ld_startup_hold ld \<in> set AUTO_RESUME_ALLOWED \<and> sr_protection r \<in> set AUTO_RESUME_ALLOWED \<and>
        sr_transition r = None \<and> owners_match env (sc_account_id (sr_scope r)) \<and>
        auto_resume_outcomes_settled r)"

definition auto_transition_safe :: "Ledger \<Rightarrow> LedgerEnv \<Rightarrow> RecoveryEvent \<Rightarrow> SafetyRecord \<Rightarrow> bool" where
  "auto_transition_safe ld env event r =
     (let safe = auto_resume_scope_safe ld env True r in
      if \<not> safe \<or> event \<noteq> EVENT_STABILITY_CONFIRMED then safe
      else protection_reason ld = None \<and> floor_release_at ld env (sr_floor r) \<le> en_now_mono env)"

definition auto_observed_cause :: "Ledger \<Rightarrow> RecoveryCause option \<Rightarrow> SafetyRecord \<Rightarrow> RecoveryCause option" where
  "auto_observed_cause ld cause r =
     (if cause \<noteq> None then cause
      else if sr_protection r = Some ''flood_wait_circuit_open'' then Some CAUSE_FLOOD_WAIT
      else if sr_protection r = Some ''transport_unavailable'' then Some CAUSE_TRANSIENT
      else if list_ex (\<lambda>(k, it). intent_blocks it (sr_scope r) \<and>
                (it_phase it = INTENT_UNKNOWN \<or> it_run it \<noteq> ld_run ld)) (sr_intents r) \<or>
              ld_startup_hold ld = Some ''unresolved_outbound_outcome''
      then Some CAUSE_READ_UNCERTAINTY else None)"

definition auto_transition_cause ::
    "Ledger \<Rightarrow> RecoveryEvent \<Rightarrow> RecoveryCause option \<Rightarrow> SafetyRecord \<Rightarrow> RecoveryCause option" where
  "auto_transition_cause ld event cause r =
     (let interrupted = (case sr_recovery r of None \<Rightarrow> False
            | Some tr \<Rightarrow> tr_state tr = PHASE_CONSUMED \<and> tr_consumed_run tr \<noteq> Some (ld_run ld))
      in if event = EVENT_DUE \<or> event = EVENT_STARTUP_RECONCILE \<and> interrupted
         then map_option au_cause (automatic_of r)
         else auto_observed_cause ld cause r)"

definition auto_record_due :: "Ledger \<Rightarrow> LedgerEnv \<Rightarrow> SafetyRecord \<Rightarrow> bool" where
  "auto_record_due ld env r = (case sr_recovery r of None \<Rightarrow> False
   | Some tr \<Rightarrow> tr_state tr = PHASE_WAITING \<and>
       (case tr_automatic tr of None \<Rightarrow> False
        | Some au \<Rightarrow> (case au_scheduled_due au of None \<Rightarrow> False
           | Some due \<Rightarrow> tr_scope tr = sr_scope r \<and>
               max (floor_release_at ld env (sr_floor r)) (floor_release_at ld env due) \<le> en_now_mono env)))"

definition flood_attempts :: "Automatic \<Rightarrow> int" where
  "flood_attempts au = au_attempts_by_policy au CAUSE_FLOOD_WAIT"

definition MAX_FLOOD_ATTEMPTS :: int where
  "MAX_FLOOD_ATTEMPTS = int (length AUTO_RESUME_DELAYS)"

text \<open>The keyword arguments that a caller may leave at their defaults.\<close>

record AutoArgs =
  aa_cause :: "RecoveryCause option"
  aa_quiesced :: bool
  aa_stability_confirmed :: bool
  aa_lifecycle_available :: bool

definition auto_args :: AutoArgs where
  "auto_args = \<lparr>aa_cause = None, aa_quiesced = False, aa_stability_confirmed = False,
     aa_lifecycle_available = True\<rparr>"

definition auto_recovery_snapshot ::
    "Ledger \<Rightarrow> LedgerEnv \<Rightarrow> RecoveryEvent \<Rightarrow> AutoArgs \<Rightarrow> SafetyRecord \<Rightarrow> RecoverySnapshot" where
  "auto_recovery_snapshot ld env event args r =
     (case auto_recovery_identity ld r of (mode, phase, run) \<Rightarrow>
      \<lparr>sn_phase = phase, sn_mode = mode, sn_run = run,
       sn_cause = auto_transition_cause ld event (aa_cause args) r,
       sn_safe = auto_transition_safe ld env event r,
       sn_owner_pending = auto_owner_pending ld env r,
       sn_quiesced = aa_quiesced args, sn_due = auto_record_due ld env r,
       sn_flood_budget_available = (case automatic_of r of None \<Rightarrow> 0 | Some au \<Rightarrow> flood_attempts au) < MAX_FLOOD_ATTEMPTS,
       sn_stability_confirmed = aa_stability_confirmed args,
       sn_enabled = ld_auto_resume_enabled ld,
       sn_lifecycle_available = aa_lifecycle_available args\<rparr>)"

definition decide_auto_transition ::
    "Ledger \<Rightarrow> LedgerEnv \<Rightarrow> RecoveryEvent \<Rightarrow> AutoArgs \<Rightarrow> SafetyRecord \<Rightarrow> ledger_error + RecoveryDecision" where
  "decide_auto_transition ld env event args r =
     map_sum (\<lambda>e. Value_Error ''recovery policy'') id
       (decide_auto_recovery (auto_recovery_snapshot ld env event args r) event)"

section \<open>Effects of the commands\<close>

text \<open>\<^verbatim>\<open>backoff_seconds\<close> as the ledger calls it; a negative stage raises.\<close>

definition backoff_delay :: "RecoveryCause \<Rightarrow> int \<Rightarrow> ledger_error + time" where
  "backoff_delay cause stage =
     map_sum (\<lambda>e. Value_Error ''failure_stage must not be negative'') of_int (backoff_seconds cause stage)"

definition put_automatic :: "SafetyRecord \<Rightarrow> Trial \<Rightarrow> Automatic \<Rightarrow> SafetyRecord" where
  "put_automatic r tr au = r\<lparr>sr_recovery := Some (tr\<lparr>tr_automatic := Some au\<rparr>)\<rparr>"

definition new_auto_episode :: "LedgerEnv \<Rightarrow> RecoveryCause \<Rightarrow> Automatic" where
  "new_auto_episode env cause = \<lparr>au_episode_id = en_fresh env 5, au_policy_version = 1, au_cause = cause,
     au_attempts_total = 0, au_attempts_by_policy = (\<lambda>c. 0), au_failure_stages = (\<lambda>c. 0),
     au_quiet_anchor = None, au_scheduled_due = None, au_bound_intent_ids = [],
     au_last_transition_key = None\<rparr>"

text \<open>
  \<^verbatim>\<open>_exhaust_auto_if_needed\<close>: the record with the spent trial, if the flood budget is spent.
  Without a previous trial the assertion of the code fails.
\<close>

definition exhaust_auto_if_needed :: "SafetyRecord \<Rightarrow> Trial option \<Rightarrow> Automatic \<Rightarrow> RecoveryCause \<Rightarrow> bool \<Rightarrow>
    ledger_error + SafetyRecord option" where
  "exhaust_auto_if_needed r previous au cause observed_flood =
     (if cause \<noteq> CAUSE_FLOOD_WAIT \<or> au_attempts_by_policy au cause < MAX_FLOOD_ATTEMPTS then Inr None
      else case previous of None \<Rightarrow> Inl Lookup_Error
      | Some tr \<Rightarrow> Inr (Some (r\<lparr>
          sr_recovery := Some (tr\<lparr>tr_state := PHASE_EXHAUSTED,
            tr_automatic := (if tr_automatic tr = None then None else Some au)\<rparr>),
          sr_protection := Some (if observed_flood then ''automatic_resume_exhausted''
            else ''automatic_resume_budget_spent'')\<rparr>)))"

definition strengthen_auto_flood ::
    "Ledger \<Rightarrow> LedgerEnv \<Rightarrow> SafetyRecord \<Rightarrow> Trial \<Rightarrow> Automatic \<Rightarrow> ledger_error + SafetyRecord" where
  "strengthen_auto_flood ld env r tr au =
     (let au1 = au\<lparr>au_cause := CAUSE_FLOOD_WAIT\<rparr> in
      and_then (exhaust_auto_if_needed r (Some tr) au1 CAUSE_FLOOD_WAIT True) (\<lambda>spent.
      case spent of
        Some r' \<Rightarrow> Inr r'
      | None \<Rightarrow>
          (if tr_state tr \<noteq> PHASE_WAITING then Inr (put_automatic r tr au1)
           else case au_scheduled_due au1 of
             None \<Rightarrow> Inl Lookup_Error
           | Some due \<Rightarrow>
               and_then (backoff_delay CAUSE_FLOOD_WAIT (au_failure_stages au1 CAUSE_FLOOD_WAIT)) (\<lambda>delay.
               Inr (put_automatic r tr (au1\<lparr>au_scheduled_due := Some (floor_after ld env
                 (max delay (floor_release_at ld env due - en_now_mono env)))\<rparr>))))))"

text \<open>
  \<^verbatim>\<open>_advance_auto_episode\<close>: \<open>Inl\<close> the record when it returns false, \<open>Inr\<close> the advanced episode
  when it returns true.
\<close>

definition advance_auto_episode :: "Ledger \<Rightarrow> LedgerEnv \<Rightarrow> SafetyRecord \<Rightarrow> Trial \<Rightarrow> Automatic \<Rightarrow> RecoveryCause \<Rightarrow>
    ledger_error + (SafetyRecord + Automatic)" where
  "advance_auto_episode ld env r tr au cause =
     (if tr_state tr \<notin> {PHASE_CONSUMED, PHASE_SUCCEEDED}
      then (if cause = CAUSE_FLOOD_WAIT
            then map_sum id Inl (strengthen_auto_flood ld env r tr au) else Inr (Inl r))
      else (let family = au_cause au;
                stages = (if tr_state tr = PHASE_CONSUMED \<and> auto_resume_scope_safe ld env True r
                          then (au_failure_stages au)(family := au_failure_stages au family + 1)
                          else au_failure_stages au)
            in Inr (Inr (au\<lparr>au_failure_stages := stages, au_cause := cause, au_quiet_anchor := None,
                           au_bound_intent_ids := []\<rparr>))))"

fun fence_protection :: "RecoveryCause \<Rightarrow> string" where
  "fence_protection CAUSE_FLOOD_WAIT = ''flood_wait_circuit_open''"
| "fence_protection CAUSE_TRANSIENT = ''transport_unavailable''"
| "fence_protection CAUSE_READ_UNCERTAINTY = ''unresolved_outbound_outcome''"

text \<open>
  The end of \<^verbatim>\<open>_schedule_auto_resume\<close>, for the episode \<open>au\<close> of the trial \<open>previous\<close> or a new one.
\<close>

definition fence_record :: "LedgerEnv \<Rightarrow> SafetyRecord \<Rightarrow> Trial option \<Rightarrow> Automatic \<Rightarrow> RecoveryCause \<Rightarrow> bool \<Rightarrow>
    ledger_error + SafetyRecord" where
  "fence_record env r previous au cause observed_flood =
     (let r1 = r\<lparr>sr_generation := en_fresh env 6\<rparr> in
      and_then (exhaust_auto_if_needed r1 previous au cause observed_flood) (\<lambda>spent.
      case spent of
        Some r' \<Rightarrow> Inr r'
      | None \<Rightarrow> Inr (r1\<lparr>sr_protection := Some (fence_protection cause),
          sr_recovery := Some \<lparr>tr_generation = en_fresh env 6, tr_state = PHASE_FENCING,
            tr_scope = sr_scope r, tr_consumed_run = None, tr_acknowledged_protection = None,
            tr_automatic = Some au\<rparr>\<rparr>)))"

definition schedule_auto_resume ::
    "Ledger \<Rightarrow> LedgerEnv \<Rightarrow> RecoveryCause \<Rightarrow> bool \<Rightarrow> SafetyRecord \<Rightarrow> ledger_error + SafetyRecord" where
  "schedule_auto_resume ld env cause observed_flood r =
     (case sr_recovery r of
        None \<Rightarrow> fence_record env r None (new_auto_episode env cause) cause observed_flood
      | Some tr \<Rightarrow>
          (if tr_state tr = PHASE_EXHAUSTED then Inr r
           else case tr_automatic tr of
             None \<Rightarrow> fence_record env r (Some tr) (new_auto_episode env cause) cause observed_flood
           | Some au \<Rightarrow>
               and_then (advance_auto_episode ld env r tr au cause) (\<lambda>advanced.
               case advanced of
                 Inl r' \<Rightarrow> Inr r'
               | Inr au' \<Rightarrow> fence_record env r (Some tr) au' cause observed_flood)))"

definition apply_auto_fence :: "Ledger \<Rightarrow> LedgerEnv \<Rightarrow> RecoveryEvent \<Rightarrow> RecoveryCause option \<Rightarrow> bool \<Rightarrow>
    SafetyRecord \<Rightarrow> ledger_error + SafetyRecord" where
  "apply_auto_fence ld env event cause observed_flood r =
     (let fallback = (case automatic_of r of Some au \<Rightarrow> au_cause au | None \<Rightarrow> CAUSE_READ_UNCERTAINTY);
          selected = (case auto_transition_cause ld event cause r of Some c \<Rightarrow> c | None \<Rightarrow> fallback)
      in schedule_auto_resume ld env selected observed_flood r)"

definition settle_auto_fencing :: "Ledger \<Rightarrow> LedgerEnv \<Rightarrow> SafetyRecord \<Rightarrow> ledger_error + SafetyRecord" where
  "settle_auto_fencing ld env r = (case sr_recovery r of
     None \<Rightarrow> Inl Lookup_Error
   | Some tr \<Rightarrow>
       (if tr_state tr \<noteq> PHASE_FENCING \<or> \<not> auto_resume_scope_safe ld env False r then Inr r
        else case tr_automatic tr of
          None \<Rightarrow> Inl Lookup_Error
        | Some au \<Rightarrow>
            and_then (backoff_delay (au_cause au) (au_failure_stages au (au_cause au))) (\<lambda>delay.
            (let delay' = (case au_scheduled_due au of None \<Rightarrow> delay
                   | Some prior \<Rightarrow> max delay (floor_release_at ld env prior - en_now_mono env))
             in Inr (r\<lparr>sr_recovery := Some (tr\<lparr>tr_state := PHASE_WAITING,
                  tr_automatic := Some (au\<lparr>au_quiet_anchor := Some (floor_after ld env 0),
                    au_scheduled_due := Some (floor_after ld env delay')\<rparr>)\<rparr>)\<rparr>)))))"

definition bind_policy_recovery :: "SafetyRecord \<Rightarrow> Trial \<Rightarrow> Automatic \<Rightarrow> Intent \<Rightarrow> Intent" where
  "bind_policy_recovery r tr au it =
     (if intent_blocks it (sr_scope r)
      then it\<lparr>it_phase := INTENT_UNKNOWN,
              it_policy_recovery := Some \<lparr>pr_policy_version = 1, pr_episode_id = au_episode_id au,
                pr_grant_generation = tr_generation tr, pr_scope = it_scope it\<rparr>\<rparr>
      else it)"

definition release_claims :: "(string \<times> Episode) list \<Rightarrow> (string \<times> Episode) list" where
  "release_claims eps = map (\<lambda>(m, ep). (m, ep\<lparr>ep_claim := None\<rparr>)) eps"

definition consume_auto_record :: "Ledger \<Rightarrow> LedgerEnv \<Rightarrow> SafetyRecord \<Rightarrow> ledger_error + SafetyRecord" where
  "consume_auto_record ld env r = (case sr_recovery r of
     None \<Rightarrow> Inl Lookup_Error
   | Some tr \<Rightarrow> (case tr_automatic tr of
       None \<Rightarrow> Inl Lookup_Error
     | Some au \<Rightarrow>
         (let cause = au_cause au;
              au' = au\<lparr>au_attempts_by_policy := (au_attempts_by_policy au)(cause := au_attempts_by_policy au cause + 1),
                       au_attempts_total := au_attempts_total au + 1,
                       au_bound_intent_ids := map fst (filter (\<lambda>(k, it). intent_blocks it (sr_scope r)) (sr_intents r))\<rparr>
          in Inr (r\<lparr>sr_intents := map (\<lambda>(k, it). (k, bind_policy_recovery r tr au it)) (sr_intents r),
               sr_methods := release_claims (sr_methods r),
               sr_recovery := Some (tr\<lparr>tr_automatic := Some au', tr_state := PHASE_CONSUMED,
                 tr_consumed_run := Some (ld_run ld)\<rparr>),
               sr_generation := en_fresh env 7, sr_protection := None\<rparr>))))"

definition phase_of :: "SafetyRecord \<Rightarrow> RecoveryPhase" where
  "phase_of r = (case sr_recovery r of None \<Rightarrow> PHASE_NONE | Some tr \<Rightarrow> tr_state tr)"

definition assert_auto_transition_phase :: "RecoveryDecision \<Rightarrow> SafetyRecord \<Rightarrow> ledger_error + SafetyRecord" where
  "assert_auto_transition_phase d r =
     (if command d \<in> {COMMAND_NOOP, COMMAND_WAIT, COMMAND_REJECT} \<or> phase_of r = next_phase d then Inr r
      else Inl (Runtime_Error ''automatic recovery transition disagrees with its decision''))"

definition auto_effect :: "Ledger \<Rightarrow> LedgerEnv \<Rightarrow> RecoveryDecision \<Rightarrow> RecoveryEvent \<Rightarrow> RecoveryCause option \<Rightarrow> bool \<Rightarrow>
    SafetyRecord \<Rightarrow> ledger_error + SafetyRecord" where
  "auto_effect ld env d event cause observed_flood r =
     (case command d of
        COMMAND_ARM_FENCE \<Rightarrow> apply_auto_fence ld env event cause observed_flood r
      | COMMAND_STRENGTHEN_FLOOD \<Rightarrow> apply_auto_fence ld env event cause observed_flood r
      | COMMAND_SET_WAIT \<Rightarrow> settle_auto_fencing ld env r
      | COMMAND_CONSUME \<Rightarrow> consume_auto_record ld env r
      | COMMAND_MARK_SUCCESS \<Rightarrow> (case sr_recovery r of None \<Rightarrow> Inl Lookup_Error
          | Some tr \<Rightarrow> Inr (r\<lparr>sr_recovery := Some (tr\<lparr>tr_state := PHASE_SUCCEEDED\<rparr>), sr_protection := None\<rparr>))
      | COMMAND_RESET \<Rightarrow> Inr (r\<lparr>sr_recovery := None\<rparr>)
      | _ \<Rightarrow> Inr r)"

definition apply_auto_transition :: "Ledger \<Rightarrow> LedgerEnv \<Rightarrow> RecoveryDecision \<Rightarrow> RecoveryEvent \<Rightarrow>
    RecoveryCause option \<Rightarrow> bool \<Rightarrow> SafetyRecord \<Rightarrow> ledger_error + SafetyRecord" where
  "apply_auto_transition ld env d event cause observed_flood r =
     and_then (auto_effect ld env d event cause observed_flood r) (assert_auto_transition_phase d)"

definition transition_auto_owned :: "Ledger \<Rightarrow> LedgerEnv \<Rightarrow> RecoveryEvent \<Rightarrow> AutoArgs \<Rightarrow> bool \<Rightarrow>
    SafetyRecord \<Rightarrow> ledger_error + SafetyRecord" where
  "transition_auto_owned ld env event args observed_flood r =
     and_then (decide_auto_transition ld env event args r) (\<lambda>d.
     apply_auto_transition ld env d event (aa_cause args) observed_flood r)"

end
