(* ===== verification/Safety_Attempts.thy ===== *)
theory Safety_Attempts
  imports Safety_Auto
begin

text \<open>
  The life of an outbound attempt in \<^verbatim>\<open>TelegramRpcSafetyLedger\<close>: the admission of a method in
  recovery, the durable intent before the write, the claim at the wire, and the settlement of
  its outcome, with the containment of unknown outcomes. Each operation takes the \<open>LedgerEnv\<close> of
  its step and the ledger. Where the code draws several identifiers in one operation, each
  place has its own index of \<open>en_fresh\<close>.
\<close>

section \<open>Recovery of a single method\<close>

definition live_episode :: "SafetyRecord \<Rightarrow> string \<Rightarrow> Episode option" where
  "live_episode r called = (case od_get (sr_methods r) called of
     None \<Rightarrow> None
   | Some ep \<Rightarrow> if ep_state ep = METHOD_RECOVERED then None else Some ep)"

definition foreign_claim :: "Ledger \<Rightarrow> string option \<Rightarrow> Episode \<Rightarrow> bool" where
  "foreign_claim ld attempt ep = (case ep_claim ep of None \<Rightarrow> False
     | Some (owner, run) \<Rightarrow> Some owner \<noteq> attempt \<or> run \<noteq> ld_run ld)"

definition method_release_at :: "Ledger \<Rightarrow> LedgerEnv \<Rightarrow> string option \<Rightarrow> string option \<Rightarrow> release" where
  "method_release_at ld env called attempt =
     (if ld_storage_failed ld then Never
      else case ld_record ld of None \<Rightarrow> At 0
      | Some r \<Rightarrow>
          (case live_episode r (case called of None \<Rightarrow> [] | Some m \<Rightarrow> m) of
             None \<Rightarrow> At 0
           | Some ep \<Rightarrow> if foreign_claim ld attempt ep then Never else At (floor_release_at ld env (ep_floor ep))))"

definition method_claim_valid :: "Ledger \<Rightarrow> SafetyRecord \<Rightarrow> string \<Rightarrow> string \<Rightarrow> string option \<Rightarrow> bool" where
  "method_claim_valid ld r called attempt generation =
     (case live_episode r called of
        None \<Rightarrow> generation = None
      | Some ep \<Rightarrow> Some (ep_generation ep) = generation \<and> ep_claim ep = Some (attempt, ld_run ld))"

definition method_recovery_reason :: "Episode \<Rightarrow> string \<times> string option" where
  "method_recovery_reason ep =
     (if ep_consecutive_read_budget_failures ep = 0 then (''method'', None)
      else if ep_consecutive_actual_floods ep \<noteq> 0
      then (''method_mixed_retry'', Some ''Method recovery includes FloodWait and a local read failure'')
      else (''read_budget_retry'', Some ''Method retry waits after a local read failure''))"

definition method_deferral ::
    "Ledger \<Rightarrow> LedgerEnv \<Rightarrow> SafetyRecord \<Rightarrow> string \<Rightarrow> string option \<Rightarrow> ledger_error option" where
  "method_deferral ld env r called attempt =
     (case live_episode r called of
        None \<Rightarrow> None
      | Some ep \<Rightarrow>
          (case method_recovery_reason ep of (why, detail) \<Rightarrow>
             (if foreign_claim ld attempt ep
              then Some (Method_Recovery_Pending called (ep_generation ep)
                (if why \<noteq> ''method'' then why else ''recovery''))
              else let deadline = floor_release_at ld env (ep_floor ep) in
                   if deadline \<le> en_now_mono env then None
                   else Some (Admission_Deferred
                     \<lparr>df_retry_after = max 1 \<lceil>deadline - en_now_mono env\<rceil>, df_method_key = called,
                      df_generation = ep_generation ep, df_eligible_at = deadline, df_reason = why,
                      df_detail = detail\<rparr>))))"

text \<open>
  \<^verbatim>\<open>reserve\<close> calls \<^verbatim>\<open>method_deferral\<close> on the committed record, which the copy still equals.
\<close>

definition reserve_method_trial :: "Ledger \<Rightarrow> LedgerEnv \<Rightarrow> string \<Rightarrow> string \<Rightarrow> bool \<Rightarrow> SafetyRecord \<Rightarrow>
    ledger_error + string option \<times> SafetyRecord" where
  "reserve_method_trial ld env attempt called auth_only r =
     then_check (require_writable ld auth_only)
       (case live_episode r called of
          None \<Rightarrow> Inr (None, r)
        | Some ep \<Rightarrow>
            (case method_deferral ld env r called (Some attempt) of
               Some e \<Rightarrow> Inl e
             | None \<Rightarrow>
                 (if od_get (sr_intents r) attempt = None
                  then Inl (Runtime_Error ''method recovery lacks its durable application intent'')
                  else Inr (Some (ep_generation ep),
                    r\<lparr>sr_methods := od_put called (ep\<lparr>ep_claim := Some (attempt, ld_run ld)\<rparr>) (sr_methods r)\<rparr>))))"

definition prepare_method_trial :: "LedgerEnv \<Rightarrow> string \<Rightarrow> string \<Rightarrow> bool \<Rightarrow> Ledger \<Rightarrow> string option outcome" where
  "prepare_method_trial env attempt called auth_only ld =
     checked (require_writable ld auth_only)
       (\<lambda>ld. if (case ld_record ld of None \<Rightarrow> True | Some r \<Rightarrow> live_episode r called = None) then (Inr None, ld)
             else commit env None (reserve_method_trial ld env attempt called auth_only) ld) ld"

section \<open>Preparing an attempt\<close>

definition attach_aux :: "LedgerEnv \<Rightarrow> string \<Rightarrow> SafetyScope \<Rightarrow> AuxBootstrap \<Rightarrow> Intent \<Rightarrow> ledger_error + Intent" where
  "attach_aux env attempt sc ax it =
     (if sc_stage sc \<noteq> STAGE_VERIFIED \<or> ax_main_scope ax \<noteq> binding_of sc
      then Inl (Value_Error ''auxiliary bootstrap does not own the verified main scope'')
      else if ax_contained ax then Inl (Value_Error ''auxiliary bootstrap must start uncontained'')
      else case ax_lock ax of
        None \<Rightarrow> Inl (Value_Error ''auxiliary bootstrap requires a pinned session lock'')
      | Some (scope, owner) \<Rightarrow>
          (if \<not> valid_aux_lock_scope scope
           then Inl (Value_Error ''auxiliary bootstrap requires a pinned session lock'')
           else if \<not> valid_aux_lock_owner owner
           then Inl (Value_Error ''auxiliary bootstrap requires a session lock owner'')
           else let it' = it\<lparr>it_aux_bootstrap := Some ax\<rparr> in
                if valid_safety_intent (en_vendor env) attempt it' then Inr it'
                else Inl (Value_Error ''invalid auxiliary bootstrap provenance'')))"

definition attach_native :: "LedgerEnv \<Rightarrow> string \<Rightarrow> NativeWriteReceiptBinding \<Rightarrow> Intent \<Rightarrow> ledger_error + Intent" where
  "attach_native env attempt nb it =
     (let it' = it\<lparr>it_native_owner := Some \<lparr>no_binding = nb, no_contained = False\<rparr>\<rparr> in
      if valid_safety_intent (en_vendor env) attempt it' then Inr it'
      else Inl (Value_Error ''invalid native receipt provenance''))"

definition check_attempt_consistency :: "Intent option \<Rightarrow> Intent \<Rightarrow> bool \<Rightarrow> ledger_error + unit" where
  "check_attempt_consistency existing it bound =
     guard (\<not> (bound \<and> existing \<noteq> None \<and> existing \<noteq> Some it)) (Value_Error ''outbound attempt identity changed'')"

record Preparation =
  pa_transport_identity :: "(int \<times> int option) option"
  pa_auth_only :: bool
  pa_aux_bootstrap :: "AuxBootstrap option"
  pa_native_binding :: "NativeWriteReceiptBinding option"

definition fresh_intent :: "Ledger \<Rightarrow> string \<Rightarrow> (int \<times> int option) option \<Rightarrow> SafetyRecord \<Rightarrow> Intent" where
  "fresh_intent ld called identity r =
     (let (dc_id, key_id) = (case identity of Some i \<Rightarrow> i
            | None \<Rightarrow> (sc_dc_id (sr_scope r), sc_key_id (sr_scope r)));
          previous = (case sr_transition r of Some tn \<Rightarrow> tn_from tn | None \<Rightarrow> sr_scope r)
      in \<lparr>it_method = called, it_run = ld_run ld, it_phase = INTENT_PREPARED,
          it_scope = \<lparr>bn_dc_id = dc_id, bn_key_id = key_id, bn_account_id = sc_account_id previous\<rparr>,
          it_policy_recovery = None, it_aux_bootstrap = None, it_native_owner = None,
          it_read_retry = None\<rparr>)"

definition add_intent :: "Ledger \<Rightarrow> LedgerEnv \<Rightarrow> string \<Rightarrow> string \<Rightarrow> Preparation \<Rightarrow> SafetyRecord \<Rightarrow>
    ledger_error + SafetyRecord" where
  "add_intent ld env attempt called pa r =
     then_check (if protection_reason ld \<noteq> None then require_writable ld (pa_auth_only pa) else Inr ())
       (and_then (case pa_aux_bootstrap pa of
                    None \<Rightarrow> Inr (fresh_intent ld called (pa_transport_identity pa) r)
                  | Some ax \<Rightarrow> attach_aux env attempt (sr_scope r) ax (fresh_intent ld called (pa_transport_identity pa) r))
         (\<lambda>it1. and_then (case pa_native_binding pa of None \<Rightarrow> Inr it1 | Some nb \<Rightarrow> attach_native env attempt nb it1)
         (\<lambda>it. let existing = od_get (sr_intents r) attempt in
           then_check (check_attempt_consistency existing it
               (pa_aux_bootstrap pa \<noteq> None \<or> pa_native_binding pa \<noteq> None))
             (Inr (r\<lparr>sr_intents := (if existing = None then od_put attempt it (sr_intents r) else sr_intents r),
                    sr_floor := rebase_floor ld env (sr_floor r)\<rparr>)))))"

definition prepare :: "LedgerEnv \<Rightarrow> string \<Rightarrow> string \<Rightarrow> Preparation \<Rightarrow> Ledger \<Rightarrow> unit outcome" where
  "prepare env attempt called pa ld =
     checked (require_writable ld (pa_auth_only pa))
       (\<lambda>ld. commit env None (plain (add_intent ld env attempt called pa)) ld) ld"

definition mark_claimed :: "string \<Rightarrow> bool \<Rightarrow> Ledger \<Rightarrow> unit outcome" where
  "mark_claimed attempt auth_only ld =
     checked (require_writable ld auth_only)
       (\<lambda>ld. if (case ld_record ld of None \<Rightarrow> True | Some r \<Rightarrow> od_get (sr_intents r) attempt = None)
             then (Inl (Runtime_Error ''outbound attempt lacks durable intent''), ld)
             else (Inr (), ld\<lparr>ld_claimed := insert attempt (ld_claimed ld)\<rparr>)) ld"

section \<open>Settling a method and an intent\<close>

definition record_method_flood ::
    "Ledger \<Rightarrow> LedgerEnv \<Rightarrow> string \<Rightarrow> Episode option \<Rightarrow> SafetyRecord \<Rightarrow> ledger_error + SafetyRecord" where
  "record_method_flood ld env called previous r =
     (let prior = (case previous of None \<Rightarrow> None
            | Some ep \<Rightarrow> if ep_state ep = METHOD_LIVE then Some ep else None);
          count = (case prior of None \<Rightarrow> 0 | Some ep \<Rightarrow> ep_consecutive_actual_floods ep) + 1
      in and_then (backoff_delay CAUSE_FLOOD_WAIT (count - 1)) (\<lambda>delay.
         let remaining = (case prior of None \<Rightarrow> delay
               | Some ep \<Rightarrow> max delay (floor_release_at ld env (ep_floor ep) - en_now_mono env))
         in Inr (r\<lparr>sr_methods := od_put called
              \<lparr>ep_state = METHOD_LIVE, ep_generation = en_fresh env 3, ep_consecutive_actual_floods = count,
               ep_consecutive_read_budget_failures =
                 (case previous of None \<Rightarrow> 0 | Some ep \<Rightarrow> ep_consecutive_read_budget_failures ep),
               ep_floor = floor_after ld env remaining, ep_claim = None\<rparr> (sr_methods r)\<rparr>)))"

definition settle_method :: "Ledger \<Rightarrow> LedgerEnv \<Rightarrow> string \<Rightarrow> bool \<Rightarrow> string option \<Rightarrow> bool \<Rightarrow> SafetyRecord \<Rightarrow>
    ledger_error + SafetyRecord" where
  "settle_method ld env attempt actual_flood generation success r =
     (case od_get (sr_intents r) attempt of
        None \<Rightarrow> Inr r
      | Some it \<Rightarrow>
          (if it_run it \<noteq> ld_run ld then Inr r
           else let called = it_method it; episode = od_get (sr_methods r) called in
             if actual_flood \<and> attempt \<in> ld_claimed ld \<and> valid_method_key (en_vendor env) called
             then record_method_flood ld env called episode r
             else case episode of
               None \<Rightarrow> Inr r
             | Some ep \<Rightarrow>
                 (if ep_claim ep \<noteq> Some (attempt, ld_run ld) then Inr r
                  else Inr (r\<lparr>sr_methods := od_put called
                    (if success \<and> Some (ep_generation ep) = generation
                     then ep\<lparr>ep_state := METHOD_RECOVERED, ep_consecutive_actual_floods := 0,
                             ep_consecutive_read_budget_failures := 0, ep_claim := None\<rparr>
                     else ep\<lparr>ep_claim := None\<rparr>) (sr_methods r)\<rparr>))))"

definition retains_unknown_intent :: "Intent \<Rightarrow> bool" where
  "retains_unknown_intent it \<longleftrightarrow> is_contained_aux it \<or>
     it_phase it = INTENT_UNKNOWN \<and> (it_native_owner it \<noteq> None \<or> it_read_retry it \<noteq> None)"

definition mark_unknown_intent :: "LedgerEnv \<Rightarrow> string \<Rightarrow> Intent \<Rightarrow> SafetyRecord \<Rightarrow> SafetyRecord" where
  "mark_unknown_intent env attempt it r =
     r\<lparr>sr_intents := od_put attempt (it\<lparr>it_phase := INTENT_UNKNOWN\<rparr>) (sr_intents r),
       sr_protection := (if sr_protection r \<in> {None, Some ''unresolved_outbound_outcome''} \<and>
           phase_of r \<noteq> PHASE_EXHAUSTED then Some ''unresolved_outbound_outcome'' else sr_protection r),
       sr_generation := en_fresh env 0\<rparr>"

definition settle_intent :: "Ledger \<Rightarrow> LedgerEnv \<Rightarrow> string \<Rightarrow> bool \<Rightarrow> SafetyRecord \<Rightarrow> ledger_error + SafetyRecord" where
  "settle_intent ld env attempt known_outcome r =
     (case od_get (sr_intents r) attempt of
        None \<Rightarrow> Inr r
      | Some it \<Rightarrow>
          (if it_run it \<noteq> ld_run ld then Inl (Value_Error ''completion does not own this outbound intent'')
           else if retains_unknown_intent it then Inr r
           else if known_outcome \<or> attempt \<notin> ld_claimed ld \<and> it_phase it = INTENT_PREPARED
           then Inr (r\<lparr>sr_intents := od_del attempt (sr_intents r)\<rparr>)
           else Inr (mark_unknown_intent env attempt it r)))"

definition settle_read_budget_failure :: "Ledger \<Rightarrow> LedgerEnv \<Rightarrow> string \<Rightarrow> read_failure_reason \<Rightarrow> SafetyRecord \<Rightarrow>
    ledger_error + SafetyRecord" where
  "settle_read_budget_failure ld env attempt why r =
     (case od_get (sr_intents r) attempt of
        None \<Rightarrow> Inl Lookup_Error
      | Some it \<Rightarrow>
          (if attempt \<notin> ld_claimed ld \<or> it_run it \<noteq> ld_run ld
           then Inl (Value_Error ''read failure does not own a claimed attempt'')
           else if sc_stage (sr_scope r) \<noteq> STAGE_VERIFIED \<or> sr_transition r \<noteq> None \<or>
                   it_scope it \<noteq> binding_of (sr_scope r)
           then Inl (Value_Error ''read failure no longer owns the verified account scope'')
           else let called = it_method it; previous = od_get (sr_methods r) called;
                    count = (case previous of None \<Rightarrow> 1 | Some ep \<Rightarrow> ep_consecutive_read_budget_failures ep + 1)
             in and_then (backoff_delay CAUSE_READ_UNCERTAINTY (count - 1)) (\<lambda>base.
                let delay = (case previous of None \<Rightarrow> base
                      | Some ep \<Rightarrow> max base (floor_release_at ld env (ep_floor ep) - en_now_mono env))
                in Inr (r\<lparr>sr_methods := od_put called
                     \<lparr>ep_state = METHOD_LIVE, ep_generation = en_fresh env 4,
                      ep_consecutive_actual_floods =
                        (case previous of None \<Rightarrow> 0 | Some ep \<Rightarrow> ep_consecutive_actual_floods ep),
                      ep_consecutive_read_budget_failures = count,
                      ep_floor = floor_after ld env delay, ep_claim = None\<rparr> (sr_methods r),
                   sr_intents := od_put attempt (it\<lparr>it_phase := INTENT_UNKNOWN,
                     it_read_retry := Some (Read_Failure why (en_fresh env 4))\<rparr>) (sr_intents r)\<rparr>))))"

section \<open>Settling the account\<close>

definition settle_restriction :: "Ledger \<Rightarrow> LedgerEnv \<Rightarrow> time \<Rightarrow> SafetyRecord \<Rightarrow> ledger_error + SafetyRecord" where
  "settle_restriction ld env until r =
     and_then (extend_floor ld env until r) (\<lambda>r1.
       Inr (if (case sr_transition r1 of None \<Rightarrow> False | Some tn \<Rightarrow> tn_purpose tn = PURPOSE_AUTHENTICATION)
            then r1\<lparr>sr_protection := Some ''authentication_trial_failed'', sr_generation := en_fresh env 1\<rparr>
            else r1))"

definition open_circuit :: "LedgerEnv \<Rightarrow> bool \<Rightarrow> SafetyRecord \<Rightarrow> SafetyRecord" where
  "open_circuit env circuit_open r =
     (if circuit_open \<and> phase_of r \<noteq> PHASE_EXHAUSTED
      then r\<lparr>sr_protection := Some ''flood_wait_circuit_open'', sr_generation := en_fresh env 2\<rparr> else r)"

definition ordinary_method_floor_only :: "Trial option \<Rightarrow> bool \<Rightarrow> bool \<Rightarrow> RecoveryCause option \<Rightarrow> bool" where
  "ordinary_method_floor_only trial known_flood circuit_open cause =
     (if \<not> known_flood \<or> circuit_open \<or> cause \<noteq> None then False
      else case trial of None \<Rightarrow> True
      | Some tr \<Rightarrow> tr_automatic tr = None \<and> tr_state tr = PHASE_SUCCEEDED)"

definition invalidate_recovery_trial :: "Ledger \<Rightarrow> LedgerEnv \<Rightarrow> bool \<Rightarrow> RecoveryCause option \<Rightarrow> SafetyRecord \<Rightarrow>
    ledger_error + SafetyRecord" where
  "invalidate_recovery_trial ld env known_flood cause r =
     (if (case sr_recovery r of None \<Rightarrow> True
          | Some tr \<Rightarrow> tr_automatic tr \<noteq> None \<or> tr_state tr = PHASE_SUCCEEDED)
      then let selected = (if known_flood then CAUSE_FLOOD_WAIT
                 else case cause of Some c \<Rightarrow> c | None \<Rightarrow> CAUSE_READ_UNCERTAINTY)
           in transition_auto_owned ld env EVENT_FAILURE_SETTLED (auto_args\<lparr>aa_cause := Some selected\<rparr>) known_flood r
      else case sr_recovery r of None \<Rightarrow> Inr r
      | Some tr \<Rightarrow>
          (if tr_state tr = PHASE_AUTHORIZED then Inr (r\<lparr>sr_generation := en_fresh env 8\<rparr>)
           else if tr_state tr = PHASE_CONSUMED
           then Inr (r\<lparr>sr_recovery := Some (tr\<lparr>tr_state := PHASE_FAILED\<rparr>),
                  sr_protection := Some ''recovery_trial_failed'', sr_generation := en_fresh env 8\<rparr>)
           else Inr r))"

record Completion =
  co_known_outcome :: bool
  co_floor_until_utc :: "time option"
  co_circuit_open :: bool
  co_actual_flood :: bool
  co_method_generation :: "string option"
  co_method_success :: bool
  co_recovery_cause :: "RecoveryCause option"
  co_scoped_read_failure :: bool
  co_read_failure_reason :: read_failure_reason
  co_shutdown_read_candidate :: bool

definition settle_recovery :: "Ledger \<Rightarrow> LedgerEnv \<Rightarrow> string \<Rightarrow> Completion \<Rightarrow> SafetyRecord \<Rightarrow> ledger_error + SafetyRecord" where
  "settle_recovery ld env attempt co r =
     (let known_flood = (co_known_outcome co \<and> co_floor_until_utc co \<noteq> None) in
      if co_scoped_read_failure co \<or> co_shutdown_read_candidate co then Inr r
      else if ordinary_method_floor_only (sr_recovery r) known_flood (co_circuit_open co) (co_recovery_cause co)
      then Inr r
      else if (\<not> co_known_outcome co \<and> attempt \<in> ld_claimed ld) \<or> co_floor_until_utc co \<noteq> None \<or>
              co_recovery_cause co \<noteq> None
      then invalidate_recovery_trial ld env known_flood (co_recovery_cause co) r
      else Inr r)"

definition settle_attempt :: "Ledger \<Rightarrow> LedgerEnv \<Rightarrow> string \<Rightarrow> Completion \<Rightarrow> SafetyRecord \<Rightarrow> ledger_error + SafetyRecord" where
  "settle_attempt ld env attempt co r =
     and_then (settle_method ld env attempt (co_actual_flood co) (co_method_generation co) (co_method_success co) r)
     (\<lambda>r1. and_then
       (if co_scoped_read_failure co then settle_read_budget_failure ld env attempt (co_read_failure_reason co) r1
        else settle_intent ld env attempt (co_known_outcome co) r1)
     (\<lambda>r2. and_then
       (case co_floor_until_utc co of None \<Rightarrow> Inr r2 | Some until \<Rightarrow> settle_restriction ld env until r2)
     (\<lambda>r3. settle_recovery ld env attempt co (open_circuit env (co_circuit_open co) r3))))"

definition latch_unknown :: "string \<Rightarrow> Completion \<Rightarrow> Ledger \<Rightarrow> Ledger" where
  "latch_unknown attempt co ld =
     (if \<not> co_known_outcome co \<and> attempt \<in> ld_claimed ld \<and> \<not> co_scoped_read_failure co \<and>
         (\<not> co_shutdown_read_candidate co \<or> ld_startup_hold ld = None)
      then ld\<lparr>ld_startup_hold := Some ''unresolved_outbound_outcome''\<rparr> else ld)"

definition complete_attempt :: "LedgerEnv \<Rightarrow> string \<Rightarrow> Completion \<Rightarrow> Ledger \<Rightarrow> unit outcome" where
  "complete_attempt env attempt co ld =
     (let ld1 = latch_unknown attempt co ld
      in commit env (Some attempt) (plain (settle_attempt ld1 env attempt co)) ld1)"

definition record_floor_change :: "Ledger \<Rightarrow> LedgerEnv \<Rightarrow> time \<Rightarrow> bool \<Rightarrow> SafetyRecord \<Rightarrow> ledger_error + SafetyRecord" where
  "record_floor_change ld env until circuit_open r =
     and_then (extend_floor ld env until r) (\<lambda>r1.
       let r2 = open_circuit env circuit_open r1 in
       if ordinary_method_floor_only (sr_recovery r) True circuit_open None then Inr r2
       else invalidate_recovery_trial ld env True None r2)"

definition record_floor :: "LedgerEnv \<Rightarrow> time \<Rightarrow> bool \<Rightarrow> Ledger \<Rightarrow> unit outcome" where
  "record_floor env until circuit_open ld =
     commit env None (plain (record_floor_change ld env until circuit_open)) ld"

section \<open>Containing unknown outcomes\<close>

definition contain_native_change ::
    "LedgerEnv \<Rightarrow> string \<Rightarrow> NativeWriteReceiptBinding \<Rightarrow> SafetyRecord \<Rightarrow> ledger_error + SafetyRecord" where
  "contain_native_change env attempt nb r =
     (let failed = Inl (Value_Error ''native receipt does not own the outbound attempt'') in
      case od_get (sr_intents r) attempt of
        None \<Rightarrow> failed
      | Some it \<Rightarrow>
          (case it_native_owner it of
             None \<Rightarrow> failed
           | Some native \<Rightarrow>
               (if no_binding native \<noteq> nb \<or> it_phase it \<notin> {INTENT_PREPARED, INTENT_UNKNOWN} \<or>
                   sc_stage (sr_scope r) \<noteq> STAGE_VERIFIED \<or> it_scope it \<noteq> binding_of (sr_scope r) \<or>
                   sr_transition r \<noteq> None \<or> \<not> owners_match env (sc_account_id (sr_scope r))
                then failed
                else Inr ((clear_unresolved_protection (r\<lparr>sr_intents := od_put attempt
                       (it\<lparr>it_phase := INTENT_UNKNOWN, it_native_owner := Some (native\<lparr>no_contained := True\<rparr>)\<rparr>)
                       (sr_intents r)\<rparr>))\<lparr>sr_generation := en_fresh env 0\<rparr>))))"

definition contain_native :: "LedgerEnv \<Rightarrow> string \<Rightarrow> NativeWriteReceiptBinding \<Rightarrow> Ledger \<Rightarrow> unit outcome" where
  "contain_native env attempt nb ld =
     on_success (commit env None (plain (contain_native_change env attempt nb)) ld) lift_unresolved_hold"

definition native_settlement_matches :: "Ledger \<Rightarrow> Intent \<Rightarrow> NativeOwner \<Rightarrow> SafetyScope \<Rightarrow>
    NativeWriteReceiptBinding \<Rightarrow> bool" where
  "native_settlement_matches ld it native sc nb \<longleftrightarrow> it_run it = ld_run ld \<and> it_phase it = INTENT_PREPARED \<and>
     no_binding native = nb \<and> sc_stage sc = STAGE_VERIFIED \<and> it_scope it = binding_of sc"

definition native_settlement_scope_valid :: "Ledger \<Rightarrow> LedgerEnv \<Rightarrow> string \<Rightarrow> SafetyRecord \<Rightarrow> bool" where
  "native_settlement_scope_valid ld env attempt r \<longleftrightarrow> sr_transition r = None \<and> attempt \<in> ld_claimed ld \<and>
     owners_match env (sc_account_id (sr_scope r))"

definition settle_native_change :: "Ledger \<Rightarrow> LedgerEnv \<Rightarrow> string \<Rightarrow> NativeWriteReceiptBinding \<Rightarrow> string option \<Rightarrow>
    SafetyRecord \<Rightarrow> ledger_error + SafetyRecord" where
  "settle_native_change ld env attempt nb generation r =
     (let failed = Inl (Value_Error ''native outcome does not match the claimed attempt'') in
      case od_get (sr_intents r) attempt of
        None \<Rightarrow> failed
      | Some it \<Rightarrow>
          (case it_native_owner it of
             None \<Rightarrow> failed
           | Some native \<Rightarrow>
               (if \<not> native_settlement_matches ld it native (sr_scope r) nb \<or>
                   \<not> native_settlement_scope_valid ld env attempt r then failed
                else and_then (settle_method ld env attempt False generation False r) (\<lambda>r1.
                  Inr (r1\<lparr>sr_intents := od_put attempt (it\<lparr>it_phase := INTENT_UNKNOWN,
                         it_native_owner := Some (native\<lparr>no_contained := True\<rparr>)\<rparr>) (sr_intents r1),
                       sr_generation := en_fresh env 0\<rparr>)))))"

definition complete_native_unknown ::
    "LedgerEnv \<Rightarrow> string \<Rightarrow> NativeWriteReceiptBinding \<Rightarrow> string option \<Rightarrow> Ledger \<Rightarrow> unit outcome" where
  "complete_native_unknown env attempt nb generation ld =
     commit env (Some attempt) (plain (settle_native_change ld env attempt nb generation)) ld"

definition contain_aux_change ::
    "Ledger \<Rightarrow> LedgerEnv \<Rightarrow> string \<Rightarrow> Binding \<Rightarrow> string \<Rightarrow> SafetyRecord \<Rightarrow> ledger_error + SafetyRecord" where
  "contain_aux_change ld env attempt captured lease r =
     (let main = binding_of (sr_scope r) in
      case od_get (sr_intents r) attempt of
        None \<Rightarrow> Inl (Value_Error ''auxiliary retirement lacks an owned intent'')
      | Some it \<Rightarrow>
          (case it_aux_bootstrap it of
             None \<Rightarrow> Inl (Value_Error ''auxiliary retirement lacks an owned intent'')
           | Some ax \<Rightarrow>
               (if sc_stage (sr_scope r) = STAGE_VERIFIED \<and> captured = main \<and> it_run it = ld_run ld \<and>
                   it_phase it = INTENT_UNKNOWN \<and> ax_main_scope ax = main \<and> ax_lease_id ax = lease
                then Inr ((clear_unresolved_protection (r\<lparr>sr_intents := od_put attempt
                       (it\<lparr>it_aux_bootstrap := Some (ax\<lparr>ax_contained := True\<rparr>)\<rparr>) (sr_intents r)\<rparr>))
                       \<lparr>sr_generation := en_fresh env 0\<rparr>)
                else Inl (Value_Error ''auxiliary retirement does not match the owned unknown intent''))))"

definition contain_aux_unknown :: "LedgerEnv \<Rightarrow> string \<Rightarrow> Binding \<Rightarrow> string \<Rightarrow> Ledger \<Rightarrow> unit outcome" where
  "contain_aux_unknown env attempt captured lease ld =
     on_success (commit env None (plain (contain_aux_change ld env attempt captured lease)) ld) lift_unresolved_hold"

text \<open>
  The lease of the session file is its identity and owner while it is held; \<open>lease_now\<close> is
  what the mutation finds when it runs.
\<close>

definition restart_aux_matches ::
    "Ledger \<Rightarrow> LedgerEnv \<Rightarrow> SafetyRecord \<Rightarrow> AuxLockScope \<times> string \<Rightarrow> Intent \<Rightarrow> bool" where
  "restart_aux_matches ld env r lease it =
     (if \<not> ld_read_scope_valid ld \<or> sc_stage (sr_scope r) \<noteq> STAGE_VERIFIED \<or> sr_transition r \<noteq> None then False
      else case it_aux_bootstrap it of
        None \<Rightarrow> False
      | Some ax \<Rightarrow> valid_aux_bootstrap it \<and> it_run it \<noteq> ld_run ld \<and>
          it_phase it \<in> {INTENT_PREPARED, INTENT_UNKNOWN} \<and> \<not> ax_contained ax \<and>
          (case ax_lock ax of None \<Rightarrow> False
           | Some (scope, owner) \<Rightarrow> scope = fst lease \<and> owner \<noteq> snd lease) \<and>
          ax_main_scope ax = binding_of (sr_scope r) \<and> owners_match env (sc_account_id (sr_scope r)))"

definition contain_aux :: "Intent \<Rightarrow> Intent" where
  "contain_aux it = it\<lparr>it_phase := INTENT_UNKNOWN,
     it_aux_bootstrap := map_option (\<lambda>ax. ax\<lparr>ax_contained := True\<rparr>) (it_aux_bootstrap it)\<rparr>"

definition reconcile_aux_change :: "Ledger \<Rightarrow> LedgerEnv \<Rightarrow> AuxLockScope \<times> string \<Rightarrow> (AuxLockScope \<times> string) option \<Rightarrow>
    SafetyRecord \<Rightarrow> ledger_error + SafetyRecord" where
  "reconcile_aux_change ld env lease lease_now r =
     (if lease_now \<noteq> Some lease then Inl (Value_Error ''Telegram session lease was revoked'')
      else Inr ((clear_unresolved_protection (r\<lparr>sr_intents :=
             map (\<lambda>(k, it). (k, if restart_aux_matches ld env r lease it then contain_aux it else it)) (sr_intents r)\<rparr>))
             \<lparr>sr_generation := en_fresh env 0\<rparr>))"

definition reconcile_aux_after_restart :: "LedgerEnv \<Rightarrow> (AuxLockScope \<times> string) option \<Rightarrow>
    (AuxLockScope \<times> string) option \<Rightarrow> Ledger \<Rightarrow> unit outcome" where
  "reconcile_aux_after_restart env lease_held lease_now ld =
     (case lease_held of
        None \<Rightarrow> (Inl (Value_Error ''a live Telegram session lease is required''), ld)
      | Some lease \<Rightarrow>
          (if (case ld_record ld of None \<Rightarrow> True
               | Some r \<Rightarrow> \<not> list_ex (\<lambda>(k, it). restart_aux_matches ld env r lease it) (sr_intents r))
           then (Inr (), ld)
           else on_success (commit env None (plain (reconcile_aux_change ld env lease lease_now)) ld)
                  lift_unresolved_hold))"

definition owned_shutdown_read :: "Ledger \<Rightarrow> Binding \<Rightarrow> Intent \<Rightarrow> bool" where
  "owned_shutdown_read ld b it \<longleftrightarrow> it_run it = ld_run ld \<and> it_phase it = INTENT_UNKNOWN \<and> it_scope it = b \<and>
     rpc_effect (it_method it) = EFFECT_NONMUTATING_READ"

definition require_shutdown_read_scope :: "Ledger \<Rightarrow> LedgerEnv \<Rightarrow> SafetyRecord \<Rightarrow> ledger_error + unit" where
  "require_shutdown_read_scope ld env r =
     then_check (guard (ld_read_scope_valid ld \<and> sc_stage (sr_scope r) = STAGE_VERIFIED \<and> sr_transition r = None)
         (Value_Error ''shutdown read scope is no longer verified''))
       (guard (ld_claimed ld = {} \<and> owners_match env (sc_account_id (sr_scope r)))
         (Value_Error ''shutdown read owners are not quiescent''))"

fun mark_shutdown_reads :: "Ledger \<Rightarrow> string list \<Rightarrow> SafetyRecord \<Rightarrow> ledger_error + SafetyRecord" where
  "mark_shutdown_reads ld [] r = Inr r"
| "mark_shutdown_reads ld (a # attempts) r =
     (case od_get (sr_intents r) a of
        None \<Rightarrow> Inl (Value_Error ''shutdown read intent does not match the owned attempt'')
      | Some it \<Rightarrow>
          (if \<not> owned_shutdown_read ld (binding_of (sr_scope r)) it
           then Inl (Value_Error ''shutdown read intent does not match the owned attempt'')
           else mark_shutdown_reads ld attempts
             (r\<lparr>sr_intents := od_put a (it\<lparr>it_read_retry := Some Clean_Shutdown\<rparr>) (sr_intents r)\<rparr>)))"

definition shutdown_reads_change ::
    "Ledger \<Rightarrow> LedgerEnv \<Rightarrow> string list \<Rightarrow> bool \<Rightarrow> SafetyRecord \<Rightarrow> ledger_error + SafetyRecord" where
  "shutdown_reads_change ld env attempts clear r =
     then_check (require_shutdown_read_scope ld env r)
       (and_then (mark_shutdown_reads ld attempts r) (\<lambda>r1.
         Inr (if clear then clear_unresolved_protection r1 else r1)))"

definition contain_shutdown_reads :: "LedgerEnv \<Rightarrow> string list \<Rightarrow> bool \<Rightarrow> Ledger \<Rightarrow> unit outcome" where
  "contain_shutdown_reads env attempts clear ld =
     on_success (commit env None (plain (shutdown_reads_change ld env attempts clear)) ld)
       (if clear then lift_unresolved_hold else id)"

end
