(* ===== verification/Safety_Identity.thy ===== *)
theory Safety_Identity
  imports Safety_Attempts
begin

text \<open>
  The identity side of \<^verbatim>\<open>TelegramRpcSafetyLedger\<close>: publication of the verified account, the
  transport transitions (migration to another data centre, authentication, logout), and the
  recovery trials, manual and automatic.
\<close>

section \<open>Account and key\<close>

definition key_required :: "SafetyScope \<Rightarrow> ledger_error + unit" where
  "key_required sc = guard (sc_key_id sc \<noteq> None)
     (Value_Error ''account verification requires a bound transport key'')"

definition account_conflict :: "LedgerEnv \<Rightarrow> SafetyScope \<Rightarrow> int \<Rightarrow> bool" where
  "account_conflict env sc account \<longleftrightarrow>
     (let verified_same = (sc_stage sc = STAGE_VERIFIED \<and> sc_account_id sc = Some account);
          compatible = list_all (\<lambda>owner. owner = None \<or> owner = Some account) (owner_list env)
      in \<not> compatible \<or> (\<not> verified_same \<and> en_owners env \<notin> {(None, None), (Some account, Some account)}))"

definition bind_account :: "int \<Rightarrow> SafetyRecord \<Rightarrow> ledger_error + SafetyRecord" where
  "bind_account account r =
     then_check (key_required (sr_scope r))
       (if sc_account_id (sr_scope r) \<notin> {None, Some account}
        then Inl (Runtime_Error ''verified safety account changed'')
        else if (case sr_transition r of None \<Rightarrow> False | Some tn \<Rightarrow> tn_expected_account tn \<notin> {None, Some account})
        then Inl (Runtime_Error ''transport transition account changed'')
        else Inr (r\<lparr>sr_scope := (sr_scope r)\<lparr>sc_stage := STAGE_VERIFIED, sc_account_id := Some account\<rparr>,
               sr_transition := map_option (\<lambda>tn. if tn_purpose tn = PURPOSE_DC_MIGRATION
                 then tn\<lparr>tn_validated_account := Some account\<rparr> else tn) (sr_transition r)\<rparr>))"

text \<open>
  \<^verbatim>\<open>verify_account\<close>: the mutation itself latches \<^verbatim>\<open>_startup_hold\<close> when the owners conflict, and
  then raises because of that hold.
\<close>

definition verify_account :: "LedgerEnv \<Rightarrow> int \<Rightarrow> Ledger \<Rightarrow> unit outcome" where
  "verify_account env account ld =
     (if account < 1 then (Inl (Value_Error ''invalid verified account''), ld)
      else if \<not> ld_storage_failed ld \<and> (case ld_record ld of None \<Rightarrow> False
               | Some r \<Rightarrow> key_required (sr_scope r) = Inr () \<and> account_conflict env (sr_scope r) account)
      then (Inl Protection_Active, ld\<lparr>ld_startup_hold := Some ''safety_canonical_owner_mismatch''\<rparr>)
      else on_success (commit env None (plain (bind_account account)) ld)
             (\<lambda>ld. ld\<lparr>ld_read_scope_valid := True\<rparr>))"

definition bind_key_change :: "Ledger \<Rightarrow> int \<Rightarrow> int \<Rightarrow> bool \<Rightarrow> SafetyRecord \<Rightarrow> ledger_error + SafetyRecord" where
  "bind_key_change ld dc_id key_id auth_only r =
     then_check (require_writable ld auth_only)
       (case (case sr_transition r of None \<Rightarrow> None
              | Some tn \<Rightarrow> if tn_to_dc tn = dc_id \<and> tn_run tn = ld_run ld then Some tn else None) of
          Some tn \<Rightarrow>
            (if tn_phase tn \<noteq> TRANSITION_PREPARED \<and> tn_target_key tn \<noteq> Some key_id
             then Inl (Runtime_Error ''DC transition transport key changed'')
             else Inr (r\<lparr>sr_transition := Some (tn\<lparr>tn_phase := TRANSITION_KEY_BOUND, tn_target_key := Some key_id\<rparr>),
                    sr_scope := \<lparr>sc_stage = STAGE_TRANSPORT_ONLY, sc_dc_id = dc_id, sc_key_id = Some key_id,
                                 sc_account_id = None\<rparr>\<rparr>))
        | None \<Rightarrow>
            (if sc_stage (sr_scope r) \<noteq> STAGE_KEY_PENDING \<or> sc_dc_id (sr_scope r) \<noteq> dc_id
             then Inl (Runtime_Error ''unowned authentication transition'')
             else Inr (r\<lparr>sr_scope := (sr_scope r)\<lparr>sc_stage := STAGE_TRANSPORT_ONLY, sc_key_id := Some key_id\<rparr>\<rparr>)))"

definition bind_key :: "LedgerEnv \<Rightarrow> int \<Rightarrow> int \<Rightarrow> bool \<Rightarrow> Ledger \<Rightarrow> unit outcome" where
  "bind_key env dc_id key_id auth_only ld =
     checked (require_writable ld auth_only)
       (\<lambda>ld. commit env None (plain (bind_key_change ld dc_id key_id auth_only)) ld) ld"

section \<open>Migration to another data centre\<close>

definition begin_dc_change :: "Ledger \<Rightarrow> int \<Rightarrow> int \<Rightarrow> SafetyRecord \<Rightarrow> ledger_error + SafetyRecord" where
  "begin_dc_change ld dc_id owned_generation r =
     then_check (require_writable ld (ld_authentication_authorized ld))
       (case sr_transition r of
          Some tn \<Rightarrow>
            (if tn_purpose tn = PURPOSE_AUTHENTICATION \<and> tn_run tn = ld_run ld
             then Inr (r\<lparr>sr_transition := Some (tn\<lparr>tn_to_dc := dc_id, tn_phase := TRANSITION_PREPARED,
                    tn_target_key := None, tn_owned_generation := owned_generation,
                    tn_validated_account := None\<rparr>)\<rparr>)
             else if tn_purpose tn = PURPOSE_DC_MIGRATION \<and> tn_run tn = ld_run ld \<and>
                     tn_owned_generation tn = owned_generation
             then Inr (r\<lparr>sr_transition := Some (tn\<lparr>tn_to_dc := dc_id, tn_phase := TRANSITION_PREPARED,
                    tn_target_key := None, tn_validated_account := None\<rparr>)\<rparr>)
             else Inl (Runtime_Error ''another Telegram transport transition is unresolved''))
        | None \<Rightarrow> Inr (r\<lparr>sr_transition := Some
            \<lparr>tn_purpose = PURPOSE_DC_MIGRATION, tn_from = sr_scope r, tn_to_dc = dc_id,
             tn_phase = TRANSITION_PREPARED, tn_target_key = None, tn_owned_generation = owned_generation,
             tn_run = ld_run ld, tn_expected_account = sc_account_id (sr_scope r),
             tn_validated_account = None, tn_acknowledged_protection = None\<rparr>\<rparr>))"

definition begin_dc_transition :: "LedgerEnv \<Rightarrow> int \<Rightarrow> int \<Rightarrow> Ledger \<Rightarrow> unit outcome" where
  "begin_dc_transition env dc_id owned_generation ld =
     checked (require_writable ld (ld_authentication_authorized ld))
       (\<lambda>ld. commit env None (plain (begin_dc_change ld dc_id owned_generation)) ld) ld"

definition check_dc_completion :: "Ledger \<Rightarrow> Transition option \<Rightarrow> SafetyScope \<Rightarrow> int \<Rightarrow> ledger_error + unit" where
  "check_dc_completion ld transition sc account =
     (case transition of
        None \<Rightarrow> Inl (Runtime_Error ''DC transition identity is not current'')
      | Some tn \<Rightarrow>
          (if tn_run tn \<noteq> ld_run ld \<or> tn_phase tn \<noteq> TRANSITION_KEY_BOUND
           then Inl (Runtime_Error ''DC transition identity is not current'')
           else if sc_account_id (tn_from tn) \<notin> {None, Some account}
           then Inl (Runtime_Error ''DC transition changed Telegram account'')
           else if sc_dc_id sc \<noteq> tn_to_dc tn \<or> sc_key_id sc \<noteq> tn_target_key tn
           then Inl (Runtime_Error ''DC transition transport binding changed'')
           else Inr ()))"

definition finish_dc_change :: "Ledger \<Rightarrow> LedgerEnv \<Rightarrow> int \<Rightarrow> SafetyRecord \<Rightarrow> ledger_error + SafetyRecord" where
  "finish_dc_change ld env account r =
     then_check (require_writable ld False)
       (then_check (check_dc_completion ld (sr_transition r) (sr_scope r) account)
         (if list_ex (\<lambda>owner. owner \<noteq> None \<and> owner \<noteq> Some account) (owner_list env)
          then Inl (Runtime_Error ''DC transition canonical account changed'')
          else Inr (r\<lparr>sr_scope := (sr_scope r)\<lparr>sc_stage := STAGE_VERIFIED, sc_account_id := Some account\<rparr>,
                 sr_transition := None\<rparr>)))"

definition finish_dc_transition :: "LedgerEnv \<Rightarrow> int \<Rightarrow> Ledger \<Rightarrow> unit outcome" where
  "finish_dc_transition env account ld =
     (if account < 1 then (Inl (Value_Error ''invalid DC transition account''), ld)
      else commit env None (plain (finish_dc_change ld env account)) ld)"

definition reject_identity_change :: "LedgerEnv \<Rightarrow> bool \<Rightarrow> SafetyRecord \<Rightarrow> ledger_error + SafetyRecord" where
  "reject_identity_change env mismatched_account r = Inr (r\<lparr>sr_protection :=
     Some (if mismatched_account then ''safety_canonical_owner_mismatch'' else ''invalid_account_identity''),
     sr_generation := en_fresh env 0\<rparr>)"

definition reject_identity_result :: "LedgerEnv \<Rightarrow> bool \<Rightarrow> Ledger \<Rightarrow> unit outcome" where
  "reject_identity_result env mismatched_account ld =
     on_success (commit env None (plain (reject_identity_change env mismatched_account)) ld)
       (\<lambda>ld. ld\<lparr>ld_authentication_authorized := False\<rparr>)"

section \<open>Authentication\<close>

definition authentication_prior_options :: "Transition option \<Rightarrow> bool \<times> bool" where
  "authentication_prior_options prior = (case prior of None \<Rightarrow> (False, False)
   | Some tn \<Rightarrow> (tn_purpose tn = PURPOSE_LOGOUT \<and> tn_phase tn = TRANSITION_LOGOUT_CONFIRMED,
                tn_purpose tn = PURPOSE_AUTHENTICATION \<and> tn_phase tn = TRANSITION_PREPARED))"

definition require_authentication_ack ::
    "Ledger \<Rightarrow> SafetyRecord \<Rightarrow> bool \<Rightarrow> bool \<Rightarrow> ledger_error + unit" where
  "require_authentication_ack ld r known_logout acknowledged =
     (let requires_ack = (unresolved ld \<or> sr_protection r \<notin> {None, Some ''authentication_required''}) in
      guard (\<not> ((requires_ack \<or> (sr_transition r \<noteq> None \<and> \<not> known_logout)) \<and> \<not> acknowledged))
        (Value_Error ''authentication requires acknowledgement of retained protection''))"

definition authentication_clear_key ::
    "Ledger \<Rightarrow> SafetyRecord \<Rightarrow> int \<Rightarrow> int option \<Rightarrow> bool \<Rightarrow> bool \<Rightarrow> ledger_error + bool" where
  "authentication_clear_key ld r dc_id key_id acknowledged replace_credentials =
     (case authentication_prior_options (sr_transition r) of (known_logout, pending_clear) \<Rightarrow>
      then_check (require_authentication_ack ld r known_logout acknowledged)
        (let clear_key = (replace_credentials \<or> pending_clear \<or> known_logout) in
         if (sc_dc_id (sr_scope r), sc_key_id (sr_scope r)) \<noteq> (dc_id, key_id) \<and> \<not> clear_key
         then Inl (Runtime_Error ''authentication transport binding does not match'')
         else Inr clear_key))"

definition authentication_expected_account ::
    "LedgerEnv \<Rightarrow> SafetyScope \<Rightarrow> Transition option \<Rightarrow> ledger_error + int option" where
  "authentication_expected_account env origin prior =
     (let expected0 = (case prior of None \<Rightarrow> sc_account_id origin
            | Some tn \<Rightarrow> (case tn_expected_account tn of None \<Rightarrow> sc_account_id origin | Some a \<Rightarrow> Some a));
          owners = en_owners env
      in and_then (if expected0 = None \<and> owners \<noteq> (None, None)
                   then (if fst owners = None \<or> fst owners \<noteq> snd owners
                         then Inl (Runtime_Error ''authentication canonical owners disagree'')
                         else Inr (fst owners))
                   else Inr expected0)
           (\<lambda>expected. if list_ex (\<lambda>owner. owner \<noteq> None \<and> owner \<noteq> expected) (owner_list env)
              then Inl (Runtime_Error ''authentication canonical account changed'')
              else Inr expected))"

definition begin_authentication_change ::
    "Ledger \<Rightarrow> LedgerEnv \<Rightarrow> int \<Rightarrow> int option \<Rightarrow> bool \<Rightarrow> bool \<Rightarrow> SafetyRecord \<Rightarrow> ledger_error + bool \<times> SafetyRecord" where
  "begin_authentication_change ld env dc_id key_id acknowledged replace_credentials r =
     (if \<not> floor_elapsed ld env
      then Inl (Value_Error ''authentication cannot override a known Telegram restriction'')
      else let prior = sr_transition r; origin = (case prior of Some tn \<Rightarrow> tn_from tn | None \<Rightarrow> sr_scope r) in
           and_then (authentication_expected_account env origin prior) (\<lambda>expected.
           and_then (authentication_clear_key ld r dc_id key_id acknowledged replace_credentials) (\<lambda>clear_key.
           Inr (clear_key, r\<lparr>
             sr_transition := Some
               \<lparr>tn_purpose = PURPOSE_AUTHENTICATION, tn_from = origin, tn_to_dc = dc_id,
                tn_phase = (if clear_key \<or> key_id = None then TRANSITION_PREPARED else TRANSITION_KEY_BOUND),
                tn_target_key = (if clear_key then None else key_id), tn_owned_generation = 0,
                tn_run = ld_run ld, tn_expected_account = expected, tn_validated_account = None,
                tn_acknowledged_protection = protection_reason ld\<rparr>,
             sr_scope := (if clear_key
               then \<lparr>sc_stage = STAGE_KEY_PENDING, sc_dc_id = dc_id, sc_key_id = None, sc_account_id = None\<rparr>
               else sr_scope r)\<rparr>))))"

definition begin_authentication ::
    "LedgerEnv \<Rightarrow> int \<Rightarrow> int option \<Rightarrow> bool \<Rightarrow> bool \<Rightarrow> Ledger \<Rightarrow> bool outcome" where
  "begin_authentication env dc_id key_id acknowledged replace_credentials ld =
     checked (guard (\<not> (ld_storage_failed ld \<or> ld_record ld = None))
         (Runtime_Error ''authentication safety storage is unavailable''))
       (\<lambda>ld. on_success (commit env None
           (begin_authentication_change ld env dc_id key_id acknowledged replace_credentials) ld)
         (\<lambda>ld. ld\<lparr>ld_authentication_authorized := True\<rparr>)) ld"

definition owned_authentication :: "Ledger \<Rightarrow> SafetyRecord \<Rightarrow> Transition option" where
  "owned_authentication ld r = (case sr_transition r of None \<Rightarrow> None
   | Some tn \<Rightarrow> if tn_purpose tn = PURPOSE_AUTHENTICATION \<and> tn_run tn = ld_run ld then Some tn else None)"

definition authentication_mismatch :: "LedgerEnv \<Rightarrow> Transition \<Rightarrow> int \<Rightarrow> bool" where
  "authentication_mismatch env tn account \<longleftrightarrow> tn_expected_account tn \<notin> {None, Some account} \<or>
     list_ex (\<lambda>owner. owner \<noteq> None \<and> owner \<noteq> Some account) (owner_list env)"

definition AUTHENTICATION_PROTECTIONS :: "string list" where
  "AUTHENTICATION_PROTECTIONS = [''authentication_required'', ''authentication_account_mismatch'',
     ''invalid_account_identity'', ''safety_auth_scope_mismatch'', ''safety_canonical_owner_mismatch'']"

definition finish_authentication_binding ::
    "Transition \<Rightarrow> int \<Rightarrow> SafetyRecord \<Rightarrow> ledger_error + SafetyRecord" where
  "finish_authentication_binding tn account r =
     (if tn_phase tn \<noteq> TRANSITION_KEY_BOUND \<or> sc_key_id (sr_scope r) \<noteq> tn_target_key tn
      then Inl (Runtime_Error ''authentication transport key is not bound'')
      else Inr (r\<lparr>sr_scope := (sr_scope r)\<lparr>sc_stage := STAGE_VERIFIED, sc_account_id := Some account\<rparr>,
             sr_transition := None,
             sr_protection := (case sr_protection r of None \<Rightarrow> None
               | Some p \<Rightarrow> if p \<in> set AUTHENTICATION_PROTECTIONS then None else Some p)\<rparr>))"

definition validate_authentication_change ::
    "Ledger \<Rightarrow> LedgerEnv \<Rightarrow> int \<Rightarrow> bool \<Rightarrow> SafetyRecord \<Rightarrow> ledger_error + bool \<times> SafetyRecord" where
  "validate_authentication_change ld env account finish r =
     then_check (require_writable ld True)
       (case owned_authentication ld r of
          None \<Rightarrow> Inl (Runtime_Error ''authentication transition is not owned'')
        | Some tn \<Rightarrow>
            (if authentication_mismatch env tn account
             then Inr (False, r\<lparr>sr_protection := Some ''authentication_account_mismatch'',
                    sr_generation := en_fresh env 0\<rparr>)
             else let r1 = r\<lparr>sr_transition := Some (tn\<lparr>tn_validated_account := Some account\<rparr>)\<rparr> in
                  map_sum id (Pair True) (if finish then finish_authentication_binding tn account r1 else Inr r1)))"

definition STARTUP_IDENTITY_HOLDS :: "string list" where
  "STARTUP_IDENTITY_HOLDS = [''new_key_conflicts_with_owned_state'', ''transport_transition_incomplete'',
     ''safety_auth_scope_mismatch'', ''safety_canonical_owner_mismatch'']"

definition adopt_authenticated_account :: "Ledger \<Rightarrow> Ledger" where
  "adopt_authenticated_account ld = ld\<lparr>ld_read_scope_valid := True, ld_authentication_authorized := False,
     ld_startup_hold := (case ld_startup_hold ld of None \<Rightarrow> None
       | Some h \<Rightarrow> if h \<in> set STARTUP_IDENTITY_HOLDS then None else Some h)\<rparr>"

text \<open>
  The mutation of \<^verbatim>\<open>validate_authentication_account\<close> withdraws the authorization as soon as it
  sees another account, whatever becomes of the save.
\<close>

definition withdraw_authorization :: "LedgerEnv \<Rightarrow> int \<Rightarrow> Ledger \<Rightarrow> Ledger \<Rightarrow> Ledger" where
  "withdraw_authorization env account before ld =
     (if require_writable before True = Inr () \<and> (case ld_record before of None \<Rightarrow> False
         | Some r \<Rightarrow> (case owned_authentication before r of None \<Rightarrow> False
             | Some tn \<Rightarrow> authentication_mismatch env tn account))
      then ld\<lparr>ld_authentication_authorized := False\<rparr> else ld)"

definition validate_authentication_account :: "LedgerEnv \<Rightarrow> int \<Rightarrow> bool \<Rightarrow> Ledger \<Rightarrow> bool outcome" where
  "validate_authentication_account env account finish ld =
     (if account < 1 then (Inl (Value_Error ''invalid authentication account''), ld)
      else case commit env None (validate_authentication_change ld env account finish) ld of (result, ld1) \<Rightarrow>
        (let ld2 = withdraw_authorization env account ld ld1 in
         (result, if finish \<and> result = Inr True then adopt_authenticated_account ld2 else ld2)))"

section \<open>Logout\<close>

definition begin_logout_change :: "Ledger \<Rightarrow> LedgerEnv \<Rightarrow> int \<Rightarrow> SafetyRecord \<Rightarrow> ledger_error + SafetyRecord" where
  "begin_logout_change ld env owned_generation r =
     then_check (require_writable ld False)
       (if \<not> floor_elapsed ld env \<or> sr_transition r \<noteq> None then Inl (Value_Error ''logout is not eligible'')
        else let sc = sr_scope r in
          Inr (r\<lparr>sr_transition := Some
            \<lparr>tn_purpose = PURPOSE_LOGOUT, tn_from = sc, tn_to_dc = sc_dc_id sc, tn_phase = TRANSITION_KEY_BOUND,
             tn_target_key = sc_key_id sc, tn_owned_generation = owned_generation, tn_run = ld_run ld,
             tn_expected_account = sc_account_id sc, tn_validated_account = sc_account_id sc,
             tn_acknowledged_protection = None\<rparr>\<rparr>))"

definition begin_logout :: "LedgerEnv \<Rightarrow> int \<Rightarrow> Ledger \<Rightarrow> unit outcome" where
  "begin_logout env owned_generation ld =
     checked (then_check (require_writable ld False)
         (guard (verified_account_id ld \<noteq> None) (Value_Error ''logout requires the currently verified account'')))
       (\<lambda>ld. on_success (commit env None (plain (begin_logout_change ld env owned_generation)) ld)
         (\<lambda>ld. ld\<lparr>ld_authentication_authorized := True\<rparr>)) ld"

definition confirm_logout_change :: "Ledger \<Rightarrow> LedgerEnv \<Rightarrow> SafetyRecord \<Rightarrow> ledger_error + SafetyRecord" where
  "confirm_logout_change ld env r =
     (case sr_transition r of
        None \<Rightarrow> Inl (Runtime_Error ''logout transition is not owned'')
      | Some tn \<Rightarrow>
          (if tn_purpose tn \<noteq> PURPOSE_LOGOUT \<or> tn_run tn \<noteq> ld_run ld
           then Inl (Runtime_Error ''logout transition is not owned'')
           else Inr (r\<lparr>sr_transition := Some (tn\<lparr>tn_phase := TRANSITION_LOGOUT_CONFIRMED\<rparr>),
                  sr_protection := (case sr_protection r of
                      None \<Rightarrow> Some ''authentication_required''
                    | Some p \<Rightarrow> Some (if p = [] then ''authentication_required'' else p)),
                  sr_generation := en_fresh env 0\<rparr>)))"

definition confirm_logout :: "LedgerEnv \<Rightarrow> Ledger \<Rightarrow> unit outcome" where
  "confirm_logout env ld = on_success (commit env None (plain (confirm_logout_change ld env)) ld)
     (\<lambda>ld. ld\<lparr>ld_authentication_authorized := False\<rparr>)"

definition clear_logged_out_change :: "SafetyRecord \<Rightarrow> ledger_error + SafetyRecord" where
  "clear_logged_out_change r =
     (case sr_transition r of
        None \<Rightarrow> Inl (Runtime_Error ''logout has not been confirmed'')
      | Some tn \<Rightarrow>
          (if tn_purpose tn \<noteq> PURPOSE_LOGOUT \<or> tn_phase tn \<noteq> TRANSITION_LOGOUT_CONFIRMED
           then Inl (Runtime_Error ''logout has not been confirmed'')
           else Inr (r\<lparr>sr_scope := (sr_scope r)\<lparr>sc_stage := STAGE_KEY_PENDING, sc_key_id := None,
                    sc_account_id := None\<rparr>,
                  sr_transition := Some (tn\<lparr>tn_target_key := None\<rparr>)\<rparr>)))"

definition clear_logged_out_key :: "LedgerEnv \<Rightarrow> Ledger \<Rightarrow> unit outcome" where
  "clear_logged_out_key env ld = commit env None (plain clear_logged_out_change) ld"

end
