(* ===== verification/Safety_Trial.thy ===== *)
theory Safety_Trial
  imports Safety_Identity
begin

text \<open>
  Recovery trials of \<^verbatim>\<open>TelegramRpcSafetyLedger\<close>: the operator authorizes and the daemon
  consumes a manual trial; the maintenance task fences, waits for, consumes and resets an
  automatic one. \<open>maintain_auto_resume\<close> commits up to three times and takes an \<open>LedgerEnv\<close> for each.
\<close>

section \<open>Manual recovery\<close>

definition RECOVERABLE_PROTECTIONS :: "string list" where
  "RECOVERABLE_PROTECTIONS = [''unresolved_outbound_outcome'', ''recovery_trial_incomplete'',
     ''recovery_trial_failed'', ''flood_wait_circuit_open'', ''transport_unavailable'',
     ''invalid_account_identity'', ''authentication_trial_failed'', ''automatic_resume_exhausted'',
     ''automatic_resume_budget_spent'']"

definition authorize_change :: "Ledger \<Rightarrow> LedgerEnv \<Rightarrow> string \<Rightarrow> SafetyRecord \<Rightarrow> ledger_error + string \<times> SafetyRecord" where
  "authorize_change ld env expected_generation r =
     (if \<not> floor_elapsed ld env then Inl (Value_Error ''known Telegram restriction has not elapsed'')
      else if verified_account_id ld = None \<or> ld_storage_failed ld
      then Inl (Value_Error ''account recovery scope is not valid'')
      else if sr_generation r \<noteq> expected_generation then Inl (Value_Error ''stale account protection generation'')
      else if (case sr_recovery r of None \<Rightarrow> False
               | Some tr \<Rightarrow> tr_state tr = PHASE_AUTHORIZED \<and> tr_generation tr = sr_generation r)
      then Inl (Value_Error ''account recovery is already authorized'')
      else Inr (en_fresh env 0, r\<lparr>sr_generation := en_fresh env 0,
             sr_recovery := Some \<lparr>tr_generation = en_fresh env 0, tr_state = PHASE_AUTHORIZED,
               tr_scope = sr_scope r, tr_consumed_run = None,
               tr_acknowledged_protection = protection_reason ld, tr_automatic = None\<rparr>\<rparr>))"

definition authorize_recovery :: "LedgerEnv \<Rightarrow> string \<Rightarrow> bool \<Rightarrow> Ledger \<Rightarrow> string outcome" where
  "authorize_recovery env expected_generation acknowledged ld =
     checked (then_check (guard (\<not> (\<not> acknowledged \<or> verified_account_id ld = None \<or> ld_storage_failed ld))
           (Value_Error ''recovery requires acknowledged verified safety scope''))
         (then_check (guard (case protection_reason ld of None \<Rightarrow> False | Some p \<Rightarrow> p \<in> set RECOVERABLE_PROTECTIONS)
           (Value_Error ''account safety recovery is not available''))
         (guard (floor_elapsed ld env) (Value_Error ''known Telegram restriction has not elapsed''))))
       (\<lambda>ld. commit env None (authorize_change ld env expected_generation) ld) ld"

definition acknowledge_blocking :: "SafetyRecord \<Rightarrow> Intent \<Rightarrow> Intent" where
  "acknowledge_blocking r it =
     (if intent_blocks it (sr_scope r) then it\<lparr>it_phase := INTENT_ACKNOWLEDGED_UNKNOWN\<rparr> else it)"

definition recovery_restricted :: "Ledger \<Rightarrow> LedgerEnv \<Rightarrow> bool" where
  "recovery_restricted ld env \<longleftrightarrow>
     ld_storage_failed ld \<or> verified_account_id ld = None \<or> \<not> floor_elapsed ld env"

definition consume_change :: "Ledger \<Rightarrow> LedgerEnv \<Rightarrow> SafetyRecord \<Rightarrow> ledger_error + SafetyRecord" where
  "consume_change ld env r =
     (if recovery_restricted ld env
      then Inl (Value_Error ''recovery cannot override a current restriction or invalid scope'')
      else case sr_recovery r of
        None \<Rightarrow> Inl Lookup_Error
      | Some tr \<Rightarrow>
          (if tr_state tr \<noteq> PHASE_AUTHORIZED \<or> tr_scope tr \<noteq> sr_scope r \<or> tr_generation tr \<noteq> sr_generation r
           then Inl (Value_Error ''invalid recovery authorization'')
           else Inr (r\<lparr>sr_recovery := Some (tr\<lparr>tr_state := PHASE_CONSUMED, tr_consumed_run := Some (ld_run ld)\<rparr>),
                  sr_generation := en_fresh env 0,
                  sr_intents := map (\<lambda>(k, it). (k, acknowledge_blocking r it)) (sr_intents r),
                  sr_methods := release_claims (sr_methods r), sr_protection := None\<rparr>)))"

definition manual_authorized :: "SafetyRecord \<Rightarrow> bool" where
  "manual_authorized r = (case sr_recovery r of None \<Rightarrow> False
     | Some tr \<Rightarrow> tr_automatic tr = None \<and> tr_state tr = PHASE_AUTHORIZED)"

definition consume_recovery :: "LedgerEnv \<Rightarrow> Ledger \<Rightarrow> bool outcome" where
  "consume_recovery env ld =
     (if \<not> (case ld_record ld of None \<Rightarrow> False | Some r \<Rightarrow> manual_authorized r) then (Inr False, ld)
      else checked (if recovery_restricted ld env then require_writable ld False else Inr ())
        (\<lambda>ld. on_success (commit env None (\<lambda>r. map_sum id (Pair True) (consume_change ld env r)) ld)
          (\<lambda>ld. ld\<lparr>ld_startup_hold := None\<rparr>)) ld)"

definition finish_change :: "Ledger \<Rightarrow> LedgerEnv \<Rightarrow> int \<Rightarrow> SafetyRecord \<Rightarrow> ledger_error + SafetyRecord" where
  "finish_change ld env account r =
     (if protection_reason ld \<noteq> None \<or> unresolved ld \<or> \<not> floor_elapsed ld env
      then Inl (Value_Error ''recovery remains restricted or uncertain'')
      else let stale = Inl (Value_Error ''recovery trial identity is not current'') in
        case sr_recovery r of
          None \<Rightarrow> stale
        | Some tr \<Rightarrow>
            (if tr_state tr \<noteq> PHASE_CONSUMED \<or> tr_consumed_run tr \<noteq> Some (ld_run ld) \<or>
                sc_account_id (sr_scope r) \<noteq> Some account then stale
             else if tr_automatic tr \<noteq> None
             then and_then (decide_auto_transition ld env EVENT_TRIAL_SUCCESS auto_args r) (\<lambda>d.
                  if command d \<noteq> COMMAND_MARK_SUCCESS then stale
                  else apply_auto_transition ld env d EVENT_TRIAL_SUCCESS None False r)
             else Inr (r\<lparr>sr_recovery := Some (tr\<lparr>tr_state := PHASE_SUCCEEDED\<rparr>), sr_protection := None\<rparr>)))"

definition finish_recovery :: "LedgerEnv \<Rightarrow> int \<Rightarrow> Ledger \<Rightarrow> unit outcome" where
  "finish_recovery env account ld = commit env None (plain (finish_change ld env account)) ld"

definition fail_change :: "Ledger \<Rightarrow> LedgerEnv \<Rightarrow> SafetyRecord \<Rightarrow> ledger_error + SafetyRecord" where
  "fail_change ld env r = Inr (case sr_recovery r of
     None \<Rightarrow> r
   | Some tr \<Rightarrow>
       (if tr_state tr = PHASE_CONSUMED \<and> tr_consumed_run tr = Some (ld_run ld)
        then r\<lparr>sr_recovery := Some (tr\<lparr>tr_state := PHASE_FAILED\<rparr>),
               sr_protection := Some ''recovery_trial_failed'', sr_generation := en_fresh env 0\<rparr>
        else r))"

definition fail_recovery :: "LedgerEnv \<Rightarrow> Ledger \<Rightarrow> unit outcome" where
  "fail_recovery env ld = commit env None (plain (fail_change ld env)) ld"

section \<open>Automatic recovery\<close>

definition configure_auto_resume :: "bool \<Rightarrow> Ledger \<Rightarrow> Ledger" where
  "configure_auto_resume enabled ld = ld\<lparr>ld_auto_resume_enabled := enabled\<rparr>"

definition commit_rebase :: "LedgerEnv \<Rightarrow> Ledger \<Rightarrow> unit outcome" where
  "commit_rebase env ld = on_success (commit env None (plain Inr) ld) (\<lambda>ld. ld\<lparr>ld_auto_resume_rebased := False\<rparr>)"

definition persist_auto_rebase :: "LedgerEnv \<Rightarrow> Ledger \<Rightarrow> bool outcome" where
  "persist_auto_rebase env ld =
     (if \<not> ld_auto_resume_rebased ld then (Inr True, ld)
      else if \<not> ld_auto_resume_enabled ld \<or>
              (case ld_record ld of None \<Rightarrow> True | Some r \<Rightarrow> \<not> auto_resume_scope_safe ld env True r)
      then (Inr False, ld)
      else case commit_rebase env ld of (result, ld1) \<Rightarrow> (map_sum id (\<lambda>_. True) result, ld1))"

definition auto_maintenance_event :: "Ledger \<Rightarrow> bool \<Rightarrow> SafetyRecord \<Rightarrow> RecoveryEvent" where
  "auto_maintenance_event ld startup r =
     (let interrupted = (auto_recovery_identity ld r = (MODE_AUTO, PHASE_CONSUMED, RUN_OTHER))
      in if startup \<or> interrupted then EVENT_STARTUP_RECONCILE else EVENT_FAILURE_OBSERVED)"

text \<open>
  A transition that the maintenance task commits only if the committed record already calls
  for one of \<open>commands\<close>; the mutation decides again on its copy.
\<close>

definition commit_transition :: "LedgerEnv \<Rightarrow> RecoveryEvent \<Rightarrow> AutoArgs \<Rightarrow> RecoveryCommand set \<Rightarrow> Ledger \<Rightarrow> unit outcome" where
  "commit_transition env event args commands ld =
     (case ld_record ld of
        None \<Rightarrow> (Inl Lookup_Error, ld)
      | Some r \<Rightarrow>
          (case decide_auto_transition ld env event args r of
             Inl e \<Rightarrow> (Inl e, ld)
           | Inr d \<Rightarrow>
               (if command d \<in> commands
                then commit env None (plain (transition_auto_owned ld env event args False)) ld
                else (Inr (), ld))))"

definition and_next :: "'a outcome \<Rightarrow> ('a \<Rightarrow> Ledger \<Rightarrow> 'b outcome) \<Rightarrow> 'b outcome" where
  "and_next out f = (case out of (Inl e, ld) \<Rightarrow> (Inl e, ld) | (Inr a, ld) \<Rightarrow> f a ld)"

definition auto_consumable :: "LedgerEnv \<Rightarrow> bool \<Rightarrow> Ledger \<Rightarrow> ledger_error + bool" where
  "auto_consumable env lifecycle ld = (case ld_record ld of
     None \<Rightarrow> Inl Lookup_Error
   | Some r \<Rightarrow> map_sum id (\<lambda>d. command d = COMMAND_CONSUME)
       (decide_auto_transition ld env EVENT_DUE (auto_args\<lparr>aa_lifecycle_available := lifecycle\<rparr>) r))"

definition auto_quiesce_if_ready :: "LedgerEnv \<Rightarrow> bool \<Rightarrow> Ledger \<Rightarrow> unit outcome" where
  "auto_quiesce_if_ready env quiesced ld =
     (if \<not> quiesced then (Inr (), ld)
      else commit_transition env EVENT_QUIESCED (auto_args\<lparr>aa_quiesced := True\<rparr>) {COMMAND_SET_WAIT} ld)"

definition maintain_auto_resume :: "LedgerEnv \<Rightarrow> LedgerEnv \<Rightarrow> LedgerEnv \<Rightarrow> RecoveryCause option \<Rightarrow> bool \<Rightarrow> bool \<Rightarrow>
    Ledger \<Rightarrow> bool outcome" where
  "maintain_auto_resume env1 env2 env3 cause quiesced startup ld =
     and_next (persist_auto_rebase env1 ld) (\<lambda>proceed ld1.
       if \<not> proceed then (Inr False, ld1)
       else case ld_record ld1 of
         None \<Rightarrow> (Inl Lookup_Error, ld1)
       | Some r \<Rightarrow>
           and_next (commit_transition env2 (auto_maintenance_event ld1 startup r)
               (auto_args\<lparr>aa_cause := cause, aa_quiesced := quiesced\<rparr>)
               {COMMAND_ARM_FENCE, COMMAND_STRENGTHEN_FLOOD} ld1) (\<lambda>u ld2.
           and_next (auto_quiesce_if_ready env3 quiesced ld2) (\<lambda>u ld3.
             (auto_consumable env3 True ld3, ld3))))"

definition consume_auto_change :: "Ledger \<Rightarrow> LedgerEnv \<Rightarrow> bool \<Rightarrow> SafetyRecord \<Rightarrow> ledger_error + bool \<times> SafetyRecord" where
  "consume_auto_change ld env lifecycle r =
     and_then (decide_auto_transition ld env EVENT_DUE (auto_args\<lparr>aa_lifecycle_available := lifecycle\<rparr>) r) (\<lambda>d.
       if command d \<noteq> COMMAND_CONSUME then Inr (False, r)
       else map_sum id (Pair True) (apply_auto_transition ld env d EVENT_DUE None False r))"

text \<open>\<open>available\<close> and \<open>still_available\<close> are the two answers of \<^verbatim>\<open>lifecycle_available\<close>.\<close>

definition consume_auto_resume :: "LedgerEnv \<Rightarrow> LedgerEnv \<Rightarrow> bool \<Rightarrow> bool \<Rightarrow> Ledger \<Rightarrow> bool outcome" where
  "consume_auto_resume env1 env2 available still_available ld =
     and_next (if ld_auto_resume_rebased ld then commit_rebase env1 ld else (Inr (), ld)) (\<lambda>u ld1.
       case auto_consumable env2 available ld1 of
         Inl e \<Rightarrow> (Inl e, ld1)
       | Inr ready \<Rightarrow>
           (if \<not> ready then (Inr False, ld1)
            else case commit env2 None (consume_auto_change ld1 env2 still_available) ld1 of (result, ld2) \<Rightarrow>
              (result, if result = Inr True then ld2\<lparr>ld_startup_hold := None\<rparr> else ld2)))"

definition reset_auto_resume :: "LedgerEnv \<Rightarrow> Ledger \<Rightarrow> unit outcome" where
  "reset_auto_resume env ld =
     commit env None (plain (transition_auto_owned ld env EVENT_STABILITY_CONFIRMED
       (auto_args\<lparr>aa_stability_confirmed := True\<rparr>) False)) ld"

definition fail_automatic_change ::
    "Ledger \<Rightarrow> LedgerEnv \<Rightarrow> RecoveryCause option \<Rightarrow> SafetyRecord \<Rightarrow> ledger_error + SafetyRecord" where
  "fail_automatic_change ld env cause r =
     (case automatic_of r of
        None \<Rightarrow> Inr r
      | Some au \<Rightarrow> transition_auto_owned ld env EVENT_FAILURE_SETTLED
          (auto_args\<lparr>aa_cause := Some (case cause of Some c \<Rightarrow> c | None \<Rightarrow> au_cause au)\<rparr>) False r)"

definition fail_automatic_recovery :: "LedgerEnv \<Rightarrow> RecoveryCause option \<Rightarrow> Ledger \<Rightarrow> unit outcome" where
  "fail_automatic_recovery env cause ld = commit env None (plain (fail_automatic_change ld env cause)) ld"

definition integrity_failure_change :: "LedgerEnv \<Rightarrow> SafetyRecord \<Rightarrow> ledger_error + SafetyRecord" where
  "integrity_failure_change env r = Inr (if sr_protection r \<in> {None, Some ''unresolved_outbound_outcome'',
       Some ''transport_unavailable'', Some ''flood_wait_circuit_open''}
     then r\<lparr>sr_protection := Some ''transport_integrity_failure'', sr_generation := en_fresh env 0\<rparr> else r)"

definition mark_startup_integrity_failure :: "LedgerEnv \<Rightarrow> Ledger \<Rightarrow> unit outcome" where
  "mark_startup_integrity_failure env ld = commit env None (plain (integrity_failure_change env)) ld"

end
