(* ===== verification/Safety_System.thy ===== *)
theory Safety_System
  imports Safety_Trial
begin

text \<open>
  The operations of the safety ledger as events, and a crash with the start of the next
  process as one more event: the new ledger is loaded from what the store holds. The theory
  shows what every operation leaves of a durable intent.
\<close>

section \<open>Events\<close>

datatype ledger_event =
    Prepare_Method_Trial LedgerEnv string string bool
  | Prepare LedgerEnv string string Preparation
  | Mark_Claimed string bool
  | Complete LedgerEnv string Completion
  | Record_Floor LedgerEnv time bool
  | Contain_Native LedgerEnv string NativeWriteReceiptBinding
  | Complete_Native_Unknown LedgerEnv string NativeWriteReceiptBinding "string option"
  | Contain_Aux_Unknown LedgerEnv string Binding string
  | Reconcile_Aux LedgerEnv "(AuxLockScope \<times> string) option" "(AuxLockScope \<times> string) option"
  | Contain_Shutdown_Reads LedgerEnv "string list" bool
  | Verify_Account LedgerEnv int
  | Bind_Key LedgerEnv int int bool
  | Begin_Dc_Transition LedgerEnv int int
  | Finish_Dc_Transition LedgerEnv int
  | Reject_Identity_Result LedgerEnv bool
  | Begin_Authentication LedgerEnv int "int option" bool bool
  | Validate_Authentication_Account LedgerEnv int bool
  | Begin_Logout LedgerEnv int
  | Confirm_Logout LedgerEnv
  | Clear_Logged_Out_Key LedgerEnv
  | Authorize_Recovery LedgerEnv string bool
  | Consume_Recovery LedgerEnv
  | Finish_Recovery LedgerEnv int
  | Fail_Recovery LedgerEnv
  | Configure_Auto_Resume bool
  | Maintain_Auto_Resume LedgerEnv LedgerEnv LedgerEnv "RecoveryCause option" bool bool
  | Consume_Auto_Resume LedgerEnv LedgerEnv bool bool
  | Reset_Auto_Resume LedgerEnv
  | Fail_Automatic_Recovery LedgerEnv "RecoveryCause option"
  | Mark_Startup_Integrity_Failure LedgerEnv
  | Restart LedgerEnv string string int "int option" "unit + time option"

fun ledger_step :: "ledger_event \<Rightarrow> Ledger \<Rightarrow> Ledger" where
  "ledger_step (Prepare_Method_Trial env a m auth) ld = snd (prepare_method_trial env a m auth ld)"
| "ledger_step (Prepare env a m pa) ld = snd (prepare env a m pa ld)"
| "ledger_step (Mark_Claimed a auth) ld = snd (mark_claimed a auth ld)"
| "ledger_step (Complete env a co) ld = snd (complete_attempt env a co ld)"
| "ledger_step (Record_Floor env until circuit) ld = snd (record_floor env until circuit ld)"
| "ledger_step (Contain_Native env a nb) ld = snd (contain_native env a nb ld)"
| "ledger_step (Complete_Native_Unknown env a nb g) ld = snd (complete_native_unknown env a nb g ld)"
| "ledger_step (Contain_Aux_Unknown env a b lease) ld = snd (contain_aux_unknown env a b lease ld)"
| "ledger_step (Reconcile_Aux env lease_held now) ld = snd (reconcile_aux_after_restart env lease_held now ld)"
| "ledger_step (Contain_Shutdown_Reads env as clear) ld = snd (contain_shutdown_reads env as clear ld)"
| "ledger_step (Verify_Account env account) ld = snd (verify_account env account ld)"
| "ledger_step (Bind_Key env dc key auth) ld = snd (bind_key env dc key auth ld)"
| "ledger_step (Begin_Dc_Transition env dc g) ld = snd (begin_dc_transition env dc g ld)"
| "ledger_step (Finish_Dc_Transition env account) ld = snd (finish_dc_transition env account ld)"
| "ledger_step (Reject_Identity_Result env mismatch) ld = snd (reject_identity_result env mismatch ld)"
| "ledger_step (Begin_Authentication env dc key ack repl) ld = snd (begin_authentication env dc key ack repl ld)"
| "ledger_step (Validate_Authentication_Account env account finish) ld =
     snd (validate_authentication_account env account finish ld)"
| "ledger_step (Begin_Logout env g) ld = snd (begin_logout env g ld)"
| "ledger_step (Confirm_Logout env) ld = snd (confirm_logout env ld)"
| "ledger_step (Clear_Logged_Out_Key env) ld = snd (clear_logged_out_key env ld)"
| "ledger_step (Authorize_Recovery env g ack) ld = snd (authorize_recovery env g ack ld)"
| "ledger_step (Consume_Recovery env) ld = snd (consume_recovery env ld)"
| "ledger_step (Finish_Recovery env account) ld = snd (finish_recovery env account ld)"
| "ledger_step (Fail_Recovery env) ld = snd (fail_recovery env ld)"
| "ledger_step (Configure_Auto_Resume enabled) ld = configure_auto_resume enabled ld"
| "ledger_step (Maintain_Auto_Resume env1 env2 env3 cause quiesced startup) ld =
     snd (maintain_auto_resume env1 env2 env3 cause quiesced startup ld)"
| "ledger_step (Consume_Auto_Resume env1 env2 available still) ld =
     snd (consume_auto_resume env1 env2 available still ld)"
| "ledger_step (Reset_Auto_Resume env) ld = snd (reset_auto_resume env ld)"
| "ledger_step (Fail_Automatic_Recovery env cause) ld = snd (fail_automatic_recovery env cause ld)"
| "ledger_step (Mark_Startup_Integrity_Failure env) ld = snd (mark_startup_integrity_failure env ld)"
| "ledger_step (Restart env boot run dc key legacy) ld = load env boot run dc key legacy (ld_stored ld)"

section \<open>What a mutation leaves of an intent\<close>

text \<open>
  An intent keeps its request, its run and its scope, and it never becomes \<open>prepared\<close> again.
\<close>

definition evolves :: "Intent \<Rightarrow> Intent \<Rightarrow> bool" where
  "evolves it it' \<longleftrightarrow> it_method it' = it_method it \<and> it_run it' = it_run it \<and> it_scope it' = it_scope it \<and>
     (it_phase it' = it_phase it \<or> it_phase it' \<noteq> INTENT_PREPARED)"

definition carried :: "string \<Rightarrow> SafetyRecord \<Rightarrow> SafetyRecord \<Rightarrow> bool" where
  "carried i r r' \<longleftrightarrow> (\<forall>it. od_get (sr_intents r) i = Some it \<longrightarrow>
     (\<exists>it'. od_get (sr_intents r') i = Some it' \<and> evolves it it'))"

named_theorems carries \<open>mutations that keep every intent\<close>

lemma evolves_refl [simp, intro]: "evolves it it"
  by (simp add: evolves_def)

lemma evolves_trans: "evolves a b \<Longrightarrow> evolves b c \<Longrightarrow> evolves a c"
  by (auto simp: evolves_def)

lemma carried_refl [simp]: "carried i r r"
  by (auto simp: carried_def)

lemma carried_same: "sr_intents r' = sr_intents r \<Longrightarrow> carried i r r'"
  by (auto simp: carried_def)

lemma carried_trans: "carried i a b \<Longrightarrow> carried i b c \<Longrightarrow> carried i a c"
  unfolding carried_def by (meson evolves_trans)

lemma carried_put:
  "od_get (sr_intents r) a = Some it \<Longrightarrow> evolves it it' \<Longrightarrow>
   sr_intents r' = od_put a it' (sr_intents r) \<Longrightarrow> carried i r r'"
  by (auto simp: carried_def)

lemma od_get_map_values: "od_get (map (\<lambda>(k, v). (k, f v)) d) i = map_option f (od_get d i)"
  by (induction d) auto

lemma carried_map:
  "(\<And>it. evolves it (f it)) \<Longrightarrow> sr_intents r' = map (\<lambda>(k, it). (k, f it)) (sr_intents r) \<Longrightarrow> carried i r r'"
  by (auto simp: carried_def od_get_map_values)

lemma clear_unresolved_simps [simp]:
  "sr_intents (clear_unresolved_protection r) = sr_intents r"
  "sr_scope (clear_unresolved_protection r) = sr_scope r"
  "sr_floor (clear_unresolved_protection r) = sr_floor r"
  "sr_methods (clear_unresolved_protection r) = sr_methods r"
  "sr_recovery (clear_unresolved_protection r) = sr_recovery r"
  "sr_transition (clear_unresolved_protection r) = sr_transition r"
  by (simp_all add: clear_unresolved_protection_def)

lemma plain_ok: "plain f r = Inr (a, r') \<longleftrightarrow> f r = Inr r'"
  by (cases "f r") (auto simp: plain_def)

lemma same_intents_extend_floor: "extend_floor ld env until r = Inr r' \<Longrightarrow> sr_intents r' = sr_intents r"
  by (auto simp: extend_floor_def Let_def split: if_splits release.splits)

lemma same_intents_exhaust:
  "exhaust_auto_if_needed r previous au cause observed = Inr (Some r') \<Longrightarrow> sr_intents r' = sr_intents r"
  by (auto simp: exhaust_auto_if_needed_def split: if_splits option.splits)

lemma same_intents_fence:
  "fence_record env r previous au cause observed = Inr r' \<Longrightarrow> sr_intents r' = sr_intents r"
  by (auto simp: fence_record_def Let_def and_then_ok dest!: same_intents_exhaust split: option.splits)

lemma same_intents_strengthen:
  "strengthen_auto_flood ld env r tr au = Inr r' \<Longrightarrow> sr_intents r' = sr_intents r"
  by (auto simp: strengthen_auto_flood_def Let_def and_then_ok put_automatic_def
      dest!: same_intents_exhaust split: option.splits if_splits)

lemma same_intents_advance:
  "advance_auto_episode ld env r tr au cause = Inr (Inl r') \<Longrightarrow> sr_intents r' = sr_intents r"
  by (cases "strengthen_auto_flood ld env r tr au")
     (auto simp: advance_auto_episode_def Let_def dest: same_intents_strengthen split: if_splits)

lemma same_intents_schedule:
  "schedule_auto_resume ld env cause observed r = Inr r' \<Longrightarrow> sr_intents r' = sr_intents r"
  by (auto simp: schedule_auto_resume_def elim!: and_then_okE
      dest: same_intents_fence same_intents_advance split: option.splits if_splits sum.splits)

lemma same_intents_settle_fencing:
  "settle_auto_fencing ld env r = Inr r' \<Longrightarrow> sr_intents r' = sr_intents r"
  by (auto simp: settle_auto_fencing_def and_then_ok Let_def split: option.splits if_splits)

lemma evolves_bind_policy: "evolves it (bind_policy_recovery r tr au it)"
  by (auto simp: bind_policy_recovery_def evolves_def)

lemma carried_consume_auto:
  assumes "consume_auto_record ld env r = Inr r'"
  shows "carried i r r'"
proof -
  obtain tr au where "sr_recovery r = Some tr" "tr_automatic tr = Some au"
    using assms by (auto simp: consume_auto_record_def split: option.splits)
  with assms have "sr_intents r' = map (\<lambda>(k, it). (k, bind_policy_recovery r tr au it)) (sr_intents r)"
    by (auto simp: consume_auto_record_def Let_def)
  then show ?thesis by (rule carried_map [OF evolves_bind_policy])
qed

lemma carried_auto_effect:
  assumes "auto_effect ld env d event cause observed r = Inr r'"
  shows "carried i r r'"
proof (cases "command d")
  case COMMAND_CONSUME
  with assms show ?thesis by (auto simp: auto_effect_def intro: carried_consume_auto)
qed (use assms in \<open>auto simp: auto_effect_def apply_auto_fence_def Let_def split: option.splits
      intro!: carried_same dest!: same_intents_schedule same_intents_settle_fencing\<close>)

lemma assert_phase_ok: "assert_auto_transition_phase d r = Inr r' \<Longrightarrow> r' = r"
  by (simp add: assert_auto_transition_phase_def split: if_splits)

lemma carried_apply_auto [carries]:
  "apply_auto_transition ld env d event cause observed r = Inr r' \<Longrightarrow> carried i r r'"
  by (auto simp: apply_auto_transition_def and_then_ok dest!: assert_phase_ok intro: carried_auto_effect)

lemma carried_transition_auto [carries]:
  "transition_auto_owned ld env event args observed r = Inr r' \<Longrightarrow> carried i r r'"
  by (auto simp: transition_auto_owned_def and_then_ok intro: carried_apply_auto)

lemma carried_invalidate [carries]:
  "invalidate_recovery_trial ld env known cause r = Inr r' \<Longrightarrow> carried i r r'"
  by (auto simp: invalidate_recovery_trial_def Let_def split: if_splits option.splits
      intro: carried_transition_auto carried_same)

lemma carried_reserve [carries]:
  "reserve_method_trial ld env a m auth r = Inr (g, r') \<Longrightarrow> carried i r r'"
  by (auto simp: reserve_method_trial_def split: option.splits if_splits intro: carried_same)

lemma carried_add_intent [carries]:
  "add_intent ld env a m pa r = Inr r' \<Longrightarrow> carried i r r'"
  by (auto simp: add_intent_def and_then_ok Let_def carried_def)

lemma same_intents_settle_method:
  "settle_method ld env a flood g success r = Inr r' \<Longrightarrow> sr_intents r' = sr_intents r"
  by (auto simp: settle_method_def record_method_flood_def and_then_ok Let_def
      split: option.splits if_splits)

lemma same_intents_settle_restriction:
  "settle_restriction ld env until r = Inr r' \<Longrightarrow> sr_intents r' = sr_intents r"
  by (auto simp: settle_restriction_def elim!: and_then_okE dest: same_intents_extend_floor
      split: option.splits if_splits)

lemma same_intents_open_circuit: "sr_intents (open_circuit env circuit r) = sr_intents r"
  by (simp add: open_circuit_def)

lemma carried_settle_recovery [carries]:
  "settle_recovery ld env a co r = Inr r' \<Longrightarrow> carried i r r'"
  by (auto simp: settle_recovery_def Let_def split: if_splits intro: carried_invalidate)

lemma carried_record_floor [carries]:
  assumes "record_floor_change ld env until circuit r = Inr r'"
  shows "carried i r r'"
proof -
  obtain r1 where r1: "extend_floor ld env until r = Inr r1"
      and r': "r' = open_circuit env circuit r1 \<or>
        invalidate_recovery_trial ld env True None (open_circuit env circuit r1) = Inr r'"
    using assms by (auto simp: record_floor_change_def and_then_ok Let_def split: if_splits)
  have "carried i r (open_circuit env circuit r1)"
    by (rule carried_same) (simp add: same_intents_open_circuit same_intents_extend_floor [OF r1])
  with r' show ?thesis by (auto intro: carried_trans carried_invalidate)
qed

lemma carried_contain_native [carries]:
  "contain_native_change env a nb r = Inr r' \<Longrightarrow> carried i r r'"
  by (auto simp: contain_native_change_def Let_def carried_def evolves_def split: option.splits if_splits)

lemma carried_settle_native [carries]:
  assumes "settle_native_change ld env a nb g r = Inr r'"
  shows "carried i r r'"
proof -
  obtain it native r1 where it: "od_get (sr_intents r) a = Some it"
      and r1: "settle_method ld env a False g False r = Inr r1"
      and r': "sr_intents r' = od_put a (it\<lparr>it_phase := INTENT_UNKNOWN,
        it_native_owner := Some (native\<lparr>no_contained := True\<rparr>)\<rparr>) (sr_intents r1)"
    using assms by (auto simp: settle_native_change_def Let_def and_then_ok split: option.splits if_splits)
  show ?thesis
    by (rule carried_put [OF it _ r' [unfolded same_intents_settle_method [OF r1]]]) (simp add: evolves_def)
qed

lemma carried_contain_aux [carries]:
  "contain_aux_change ld env a b lease r = Inr r' \<Longrightarrow> carried i r r'"
  by (auto simp: contain_aux_change_def Let_def carried_def evolves_def split: option.splits if_splits)

lemma carried_reconcile_aux [carries]:
  assumes "reconcile_aux_change ld env lease now r = Inr r'"
  shows "carried i r r'"
proof (rule carried_map)
  show "sr_intents r' = map (\<lambda>(k, it). (k, if restart_aux_matches ld env r lease it then contain_aux it else it))
      (sr_intents r)"
    using assms by (auto simp: reconcile_aux_change_def split: if_splits)
qed (simp add: evolves_def contain_aux_def)

lemma carried_mark_shutdown_reads:
  "mark_shutdown_reads ld as r = Inr r' \<Longrightarrow> carried i r r'"
proof (induction as arbitrary: r)
  case (Cons a as)
  then obtain it where it: "od_get (sr_intents r) a = Some it"
      and rest: "mark_shutdown_reads ld as
        (r\<lparr>sr_intents := od_put a (it\<lparr>it_read_retry := Some Clean_Shutdown\<rparr>) (sr_intents r)\<rparr>) = Inr r'"
    by (auto split: option.splits if_splits)
  have "carried i r (r\<lparr>sr_intents := od_put a (it\<lparr>it_read_retry := Some Clean_Shutdown\<rparr>) (sr_intents r)\<rparr>)"
    by (rule carried_put [OF it]) (simp_all add: evolves_def)
  then show ?case using Cons.IH [OF rest] by (rule carried_trans)
qed simp

lemma carried_shutdown_reads [carries]:
  assumes "shutdown_reads_change ld env as clear r = Inr r'"
  shows "carried i r r'"
proof -
  obtain r1 where "mark_shutdown_reads ld as r = Inr r1" "sr_intents r' = sr_intents r1"
    using assms by (auto simp: shutdown_reads_change_def and_then_ok)
  then show ?thesis by (metis carried_mark_shutdown_reads carried_same carried_trans)
qed

lemma carried_bind_account [carries]: "bind_account account r = Inr r' \<Longrightarrow> carried i r r'"
  by (auto simp: bind_account_def split: if_splits option.splits intro!: carried_same)

lemma carried_bind_key [carries]: "bind_key_change ld dc key auth r = Inr r' \<Longrightarrow> carried i r r'"
  by (auto simp: bind_key_change_def split: if_splits option.splits intro!: carried_same)

lemma carried_begin_dc [carries]: "begin_dc_change ld dc g r = Inr r' \<Longrightarrow> carried i r r'"
  by (auto simp: begin_dc_change_def split: if_splits option.splits intro!: carried_same)

lemma carried_finish_dc [carries]: "finish_dc_change ld env account r = Inr r' \<Longrightarrow> carried i r r'"
  by (auto simp: finish_dc_change_def split: if_splits intro!: carried_same)

lemma carried_begin_authentication [carries]:
  "begin_authentication_change ld env dc key ack repl r = Inr (clear, r') \<Longrightarrow> carried i r r'"
  by (auto simp: begin_authentication_change_def Let_def and_then_ok split: if_splits intro!: carried_same)

lemma map_sum_Pair_ok: "map_sum id (Pair b) x = Inr (a, r') \<longleftrightarrow> x = Inr r' \<and> a = b"
  by (cases x) auto

lemma same_intents_finish_authentication:
  "finish_authentication_binding tn account r = Inr r' \<Longrightarrow> sr_intents r' = sr_intents r"
  by (auto simp: finish_authentication_binding_def split: if_splits)

lemma carried_validate_authentication [carries]:
  "validate_authentication_change ld env account finish r = Inr (ok, r') \<Longrightarrow> carried i r r'"
  by (auto simp: validate_authentication_change_def Let_def map_sum_Pair_ok
      split: if_splits option.splits intro!: carried_same dest!: same_intents_finish_authentication)

lemma carried_begin_logout [carries]: "begin_logout_change ld env g r = Inr r' \<Longrightarrow> carried i r r'"
  by (auto simp: begin_logout_change_def Let_def split: if_splits intro!: carried_same)

lemma carried_confirm_logout [carries]: "confirm_logout_change ld env r = Inr r' \<Longrightarrow> carried i r r'"
  by (auto simp: confirm_logout_change_def split: if_splits option.splits intro!: carried_same)

lemma carried_clear_logged_out [carries]: "clear_logged_out_change r = Inr r' \<Longrightarrow> carried i r r'"
  by (auto simp: clear_logged_out_change_def split: if_splits option.splits intro!: carried_same)

lemma carried_authorize [carries]: "authorize_change ld env g r = Inr (grant, r') \<Longrightarrow> carried i r r'"
  by (auto simp: authorize_change_def split: if_splits intro!: carried_same)

lemma carried_consume [carries]:
  assumes "consume_change ld env r = Inr r'"
  shows "carried i r r'"
proof (rule carried_map)
  show "sr_intents r' = map (\<lambda>(k, it). (k, acknowledge_blocking r it)) (sr_intents r)"
    using assms by (auto simp: consume_change_def split: if_splits option.splits)
qed (simp add: evolves_def acknowledge_blocking_def)

lemma carried_finish [carries]: "finish_change ld env account r = Inr r' \<Longrightarrow> carried i r r'"
  by (auto simp: finish_change_def Let_def and_then_ok split: if_splits option.splits
      intro: carried_same carried_apply_auto)

lemma carried_fail [carries]: "fail_change ld env r = Inr r' \<Longrightarrow> carried i r r'"
  by (auto simp: fail_change_def split: if_splits option.splits intro!: carried_same)

lemma carried_consume_auto_change [carries]:
  "consume_auto_change ld env lifecycle r = Inr (ok, r') \<Longrightarrow> carried i r r'"
  by (auto simp: consume_auto_change_def and_then_ok map_sum_Pair_ok split: if_splits
      intro: carried_apply_auto)

lemma carried_fail_automatic [carries]:
  "fail_automatic_change ld env cause r = Inr r' \<Longrightarrow> carried i r r'"
  by (auto simp: fail_automatic_change_def split: option.splits intro: carried_transition_auto)

lemma carried_reject_identity [carries]: "reject_identity_change env mismatch r = Inr r' \<Longrightarrow> carried i r r'"
  by (auto simp: reject_identity_change_def intro!: carried_same)

lemma carried_integrity_failure [carries]: "integrity_failure_change env r = Inr r' \<Longrightarrow> carried i r r'"
  by (auto simp: integrity_failure_change_def intro!: carried_same)

end
