(* ===== verification/Safety_Memory.thy ===== *)
theory Safety_Memory
  imports Safety_System
begin

text \<open>
  Invariants of the safety ledger over every operation, and what they say of a claimed
  attempt. \<open>mutates e ld r r'\<close> lists the mutations an operation may commit; the interface
  \<open>ledger_invariant\<close> turns a fact about these mutations into an invariant of the operation,
  for accepted and failed saves alike.
\<close>

section \<open>The mutations of an operation\<close>

fun settles :: "ledger_event \<Rightarrow> string option" where
  "settles (Complete env a co) = Some a"
| "settles (Complete_Native_Unknown env a nb g) = Some a"
| "settles e = None"

fun mutates :: "ledger_event \<Rightarrow> Ledger \<Rightarrow> SafetyRecord \<Rightarrow> SafetyRecord \<Rightarrow> bool" where
  "mutates (Prepare_Method_Trial env a m auth) ld r r' \<longleftrightarrow> (\<exists>g. reserve_method_trial ld env a m auth r = Inr (g, r'))"
| "mutates (Prepare env a m pa) ld r r' \<longleftrightarrow> add_intent ld env a m pa r = Inr r'"
| "mutates (Complete env a co) ld r r' \<longleftrightarrow> settle_attempt ld env a co r = Inr r'"
| "mutates (Record_Floor env until circuit) ld r r' \<longleftrightarrow> record_floor_change ld env until circuit r = Inr r'"
| "mutates (Contain_Native env a nb) ld r r' \<longleftrightarrow> contain_native_change env a nb r = Inr r'"
| "mutates (Complete_Native_Unknown env a nb g) ld r r' \<longleftrightarrow> settle_native_change ld env a nb g r = Inr r'"
| "mutates (Contain_Aux_Unknown env a b lease) ld r r' \<longleftrightarrow> contain_aux_change ld env a b lease r = Inr r'"
| "mutates (Reconcile_Aux env lease_held now) ld r r' \<longleftrightarrow>
     (\<exists>lease. lease_held = Some lease \<and> reconcile_aux_change ld env lease now r = Inr r')"
| "mutates (Contain_Shutdown_Reads env as clear) ld r r' \<longleftrightarrow> shutdown_reads_change ld env as clear r = Inr r'"
| "mutates (Verify_Account env account) ld r r' \<longleftrightarrow> bind_account account r = Inr r'"
| "mutates (Bind_Key env dc key auth) ld r r' \<longleftrightarrow> bind_key_change ld dc key auth r = Inr r'"
| "mutates (Begin_Dc_Transition env dc g) ld r r' \<longleftrightarrow> begin_dc_change ld dc g r = Inr r'"
| "mutates (Finish_Dc_Transition env account) ld r r' \<longleftrightarrow> finish_dc_change ld env account r = Inr r'"
| "mutates (Reject_Identity_Result env mismatch) ld r r' \<longleftrightarrow> reject_identity_change env mismatch r = Inr r'"
| "mutates (Begin_Authentication env dc key ack repl) ld r r' \<longleftrightarrow>
     (\<exists>clear. begin_authentication_change ld env dc key ack repl r = Inr (clear, r'))"
| "mutates (Validate_Authentication_Account env account finish) ld r r' \<longleftrightarrow>
     (\<exists>ok. validate_authentication_change ld env account finish r = Inr (ok, r'))"
| "mutates (Begin_Logout env g) ld r r' \<longleftrightarrow> begin_logout_change ld env g r = Inr r'"
| "mutates (Confirm_Logout env) ld r r' \<longleftrightarrow> confirm_logout_change ld env r = Inr r'"
| "mutates (Clear_Logged_Out_Key env) ld r r' \<longleftrightarrow> clear_logged_out_change r = Inr r'"
| "mutates (Authorize_Recovery env g ack) ld r r' \<longleftrightarrow> (\<exists>grant. authorize_change ld env g r = Inr (grant, r'))"
| "mutates (Consume_Recovery env) ld r r' \<longleftrightarrow> consume_change ld env r = Inr r'"
| "mutates (Finish_Recovery env account) ld r r' \<longleftrightarrow> finish_change ld env account r = Inr r'"
| "mutates (Fail_Recovery env) ld r r' \<longleftrightarrow> fail_change ld env r = Inr r'"
| "mutates (Maintain_Auto_Resume env1 env2 env3 cause quiesced startup) ld r r' \<longleftrightarrow>
     r' = r \<or> (\<exists>env event args. transition_auto_owned ld env event args False r = Inr r' \<and>
       event \<in> {EVENT_STARTUP_RECONCILE, EVENT_FAILURE_OBSERVED, EVENT_QUIESCED})"
| "mutates (Consume_Auto_Resume env1 env2 available still) ld r r' \<longleftrightarrow>
     r' = r \<or> (\<exists>ok. consume_auto_change ld env2 still r = Inr (ok, r'))"
| "mutates (Reset_Auto_Resume env) ld r r' \<longleftrightarrow>
     transition_auto_owned ld env EVENT_STABILITY_CONFIRMED (auto_args\<lparr>aa_stability_confirmed := True\<rparr>) False r = Inr r'"
| "mutates (Fail_Automatic_Recovery env cause) ld r r' \<longleftrightarrow> fail_automatic_change ld env cause r = Inr r'"
| "mutates (Mark_Startup_Integrity_Failure env) ld r r' \<longleftrightarrow> integrity_failure_change env r = Inr r'"
| "mutates e ld r r' \<longleftrightarrow> False"

section \<open>The interface of invariants\<close>

lemma od_get_SomeD: "od_get d k = Some v \<Longrightarrow> k \<in> set (od_keys d)"
  by (metis od_get_None_iff option.distinct(1))

definition same_view :: "Ledger \<Rightarrow> Ledger \<Rightarrow> bool" where
  "same_view ld ld' \<longleftrightarrow> ld_run ld' = ld_run ld \<and> ld_record ld' = ld_record ld \<and> ld_stored ld' = ld_stored ld \<and>
     ld_claimed ld' = ld_claimed ld \<and> ld_storage_failed ld' = ld_storage_failed ld"

locale ledger_invariant =
  fixes P :: "Ledger \<Rightarrow> bool"
    and permits :: "Ledger \<Rightarrow> string option \<Rightarrow> SafetyRecord \<Rightarrow> SafetyRecord \<Rightarrow> bool"
  assumes view: "same_view ld ld' \<Longrightarrow> P ld \<Longrightarrow> P ld'"
    and claim: "P ld \<Longrightarrow> ld_record ld = Some r \<Longrightarrow> a \<in> intent_ids r \<Longrightarrow>
      P (ld\<lparr>ld_claimed := insert a (ld_claimed ld)\<rparr>)"
    and failed_save: "P ld \<Longrightarrow> \<not> ld_storage_failed ld \<Longrightarrow> ld_record ld = Some r \<Longrightarrow> permits ld settled r r' \<Longrightarrow>
      s = ld_stored ld \<or> s = Inr (Some r') \<Longrightarrow> P (ld\<lparr>ld_stored := s, ld_storage_failed := True\<rparr>)"
    and accepted_save: "P ld \<Longrightarrow> \<not> ld_storage_failed ld \<Longrightarrow> ld_record ld = Some r \<Longrightarrow> permits ld settled r r' \<Longrightarrow>
      P (ld\<lparr>ld_record := Some r', ld_stored := Inr (Some r'),
           ld_claimed := (ld_claimed ld - set_option settled) \<inter> intent_ids r'\<rparr>)"
begin

lemma commit_keeps:
  assumes "P ld"
    and "\<And>r a r'. ld_record ld = Some r \<Longrightarrow> \<not> ld_storage_failed ld \<Longrightarrow> change r = Inr (a, r') \<Longrightarrow>
      permits ld settled r r'"
  shows "P (snd (commit env settled change ld))"
proof (cases rule: commit_cases [where env = env and settled = settled and change = change and ld = ld])
  case (failed r a r')
  then show ?thesis
    using assms failed_save [of ld r settled r' "saved_store (en_save env) r' ld"]
    by (simp add: saved_store_def)
next
  case (saved r a r')
  then show ?thesis using assms accepted_save [of ld r settled r'] by simp
qed (simp add: assms)

lemma commit_plain_keeps:
  assumes "P ld"
    and "\<And>r r'. ld_record ld = Some r \<Longrightarrow> \<not> ld_storage_failed ld \<Longrightarrow> change r = Inr r' \<Longrightarrow> permits ld settled r r'"
  shows "P (snd (commit env settled (plain change) ld))"
  using assms by (intro commit_keeps) (auto simp: plain_ok)

lemma checked_inv: "P ld \<Longrightarrow> P (snd (op ld)) \<Longrightarrow> P (snd (checked c op ld))"
  by (simp add: checked_def split: sum.split)

lemma on_success_inv: "P (snd out) \<Longrightarrow> (\<And>ld. P ld \<Longrightarrow> P (post ld)) \<Longrightarrow> P (snd (on_success out post))"
  by (auto simp: on_success_def split: prod.split sum.split)

lemma and_next_inv:
  "P (snd out) \<Longrightarrow> (\<And>a ld. out = (Inr a, ld) \<Longrightarrow> P ld \<Longrightarrow> P (snd (f a ld))) \<Longrightarrow> P (snd (and_next out f))"
  by (auto simp: and_next_def split: prod.split sum.split)

lemma flag_inv:
  "P ld \<Longrightarrow> P (ld\<lparr>ld_startup_hold := h\<rparr>)"
  "P ld \<Longrightarrow> P (ld\<lparr>ld_read_scope_valid := v\<rparr>)"
  "P ld \<Longrightarrow> P (ld\<lparr>ld_auto_resume_enabled := v\<rparr>)"
  "P ld \<Longrightarrow> P (ld\<lparr>ld_auto_resume_rebased := v\<rparr>)"
  "P ld \<Longrightarrow> P (ld\<lparr>ld_authentication_authorized := v\<rparr>)"
  by (erule view [rotated]; simp add: same_view_def)+

lemma post_inv:
  "P ld \<Longrightarrow> P (lift_unresolved_hold ld)"
  "P ld \<Longrightarrow> P (latch_unknown a co ld)"
  "P ld \<Longrightarrow> P (withdraw_authorization env account before ld)"
  "P ld \<Longrightarrow> P (adopt_authenticated_account ld)"
  by (erule view [rotated]; simp add: same_view_def lift_unresolved_hold_def latch_unknown_def
      withdraw_authorization_def adopt_authenticated_account_def)+

end

context ledger_invariant
begin

lemma commit_rebase_inv:
  "P ld \<Longrightarrow> (\<And>r. permits ld None r r) \<Longrightarrow> P (snd (commit_rebase env ld))"
  unfolding commit_rebase_def by (intro on_success_inv commit_plain_keeps flag_inv) auto

lemma commit_transition_inv:
  assumes "P ld"
    and "\<And>r r'. ld_record ld = Some r \<Longrightarrow> \<not> ld_storage_failed ld \<Longrightarrow>
      transition_auto_owned ld env event args False r = Inr r' \<Longrightarrow> permits ld None r r'"
  shows "P (snd (commit_transition env event args commands ld))"
  using assms by (auto simp: commit_transition_def intro!: commit_plain_keeps split: option.split sum.split)

lemma persist_rebase_inv:
  "P ld \<Longrightarrow> (\<And>r. permits ld None r r) \<Longrightarrow> P (snd (persist_auto_rebase env ld))"
  using commit_rebase_inv [of ld env]
  by (auto simp: persist_auto_rebase_def split: option.split prod.split)

lemma maintain_inv:
  assumes "P ld"
    and same: "\<And>ld r. P ld \<Longrightarrow> permits ld None r r"
    and step: "\<And>ld r r' env event args. P ld \<Longrightarrow> ld_record ld = Some r \<Longrightarrow> \<not> ld_storage_failed ld \<Longrightarrow>
      transition_auto_owned ld env event args False r = Inr r' \<Longrightarrow>
      event \<in> {EVENT_STARTUP_RECONCILE, EVENT_FAILURE_OBSERVED, EVENT_QUIESCED} \<Longrightarrow> permits ld None r r'"
  shows "P (snd (maintain_auto_resume env1 env2 env3 cause quiesced startup ld))"
  unfolding maintain_auto_resume_def
proof (rule and_next_inv)
  show "P (snd (persist_auto_rebase env1 ld))" by (rule persist_rebase_inv) (simp_all add: assms)
next
  fix proceed ld1
  assume ld1: "P ld1"
  have fence: "P (snd (commit_transition env2 (auto_maintenance_event ld1 startup r) args commands ld1))" for r args commands
    by (rule commit_transition_inv [OF ld1], rule step [OF ld1])
       (auto simp: auto_maintenance_event_def Let_def)
  have quiesce: "P (snd (auto_quiesce_if_ready env3 quiesced ld2))" if "P ld2" for ld2
    unfolding auto_quiesce_if_ready_def
    using that commit_transition_inv [OF that, of env3 EVENT_QUIESCED] step [OF that]
    by auto
  show "P (snd (if \<not> proceed then (Inr False, ld1) else case ld_record ld1 of
      None \<Rightarrow> (Inl Lookup_Error, ld1)
    | Some r \<Rightarrow> and_next (commit_transition env2 (auto_maintenance_event ld1 startup r)
          (auto_args\<lparr>aa_cause := cause, aa_quiesced := quiesced\<rparr>)
          {COMMAND_ARM_FENCE, COMMAND_STRENGTHEN_FLOOD} ld1)
        (\<lambda>u ld2. and_next (auto_quiesce_if_ready env3 quiesced ld2)
          (\<lambda>u ld3. (auto_consumable env3 True ld3, ld3)))))"
    using ld1 by (auto intro!: and_next_inv fence quiesce split: option.split)
qed

lemma consume_auto_inv:
  assumes "P ld"
    and same: "\<And>ld r. P ld \<Longrightarrow> permits ld None r r"
    and step: "\<And>ld r r' ok. P ld \<Longrightarrow> ld_record ld = Some r \<Longrightarrow> \<not> ld_storage_failed ld \<Longrightarrow>
      consume_auto_change ld env2 still r = Inr (ok, r') \<Longrightarrow> permits ld None r r'"
  shows "P (snd (consume_auto_resume env1 env2 available still ld))"
  unfolding consume_auto_resume_def
proof (rule and_next_inv)
  show "P (snd (if ld_auto_resume_rebased ld then commit_rebase env1 ld else (Inr (), ld)))"
    using assms by (simp add: commit_rebase_inv)
next
  fix u ld1
  assume ld1: "P ld1"
  have "P (snd (commit env2 None (consume_auto_change ld1 env2 still) ld1))"
    by (rule commit_keeps [OF ld1]) (rule step [OF ld1])
  then show "P (snd (case auto_consumable env2 available ld1 of Inl e \<Rightarrow> (Inl e, ld1)
    | Inr ready \<Rightarrow> if \<not> ready then (Inr False, ld1)
        else case commit env2 None (consume_auto_change ld1 env2 still) ld1 of (result, ld2) \<Rightarrow>
          (result, if result = Inr True then ld2\<lparr>ld_startup_hold := None\<rparr> else ld2)))"
    using ld1 by (auto intro: flag_inv split: sum.split prod.split)
qed

lemmas operation_defs = prepare_method_trial_def prepare_def record_floor_def
  contain_native_def complete_native_unknown_def contain_aux_unknown_def reconcile_aux_after_restart_def
  contain_shutdown_reads_def verify_account_def bind_key_def begin_dc_transition_def
  finish_dc_transition_def reject_identity_result_def begin_authentication_def
  begin_logout_def confirm_logout_def clear_logged_out_key_def
  authorize_recovery_def consume_recovery_def finish_recovery_def fail_recovery_def
  configure_auto_resume_def reset_auto_resume_def fail_automatic_recovery_def
  mark_startup_integrity_failure_def

lemma step_inv:
  assumes P: "P ld"
    and no_restart: "\<And>env boot run dc key legacy. e \<noteq> Restart env boot run dc key legacy"
    and ok: "\<And>ld r r'. P ld \<Longrightarrow> ld_record ld = Some r \<Longrightarrow> \<not> ld_storage_failed ld \<Longrightarrow> mutates e ld r r' \<Longrightarrow>
      permits ld (settles e) r r'"
    and same: "\<And>ld r. P ld \<Longrightarrow> permits ld None r r"
  shows "P (ledger_step e ld)"
proof (cases e)
  case (Mark_Claimed a auth)
  show ?thesis
    using P claim [OF P, of _ a]
    by (auto simp: Mark_Claimed mark_claimed_def checked_def intent_ids_def dest: od_get_SomeD
        split: sum.split option.split)
next
  case (Complete env a co)
  show ?thesis
    unfolding Complete ledger_step.simps complete_attempt_def Let_def
    using ok [of "latch_unknown a co ld"] P
    by (auto simp: Complete intro!: commit_plain_keeps post_inv)
next
  case (Validate_Authentication_Account env account finish)
  have "P (snd (commit env None (validate_authentication_change ld env account finish) ld))"
    by (rule commit_keeps [OF P], rule ok [OF P, simplified Validate_Authentication_Account, simplified])
       (auto simp: P)
  then show ?thesis
    using P by (auto simp: Validate_Authentication_Account validate_authentication_account_def Let_def
        intro!: post_inv split: prod.split)
next
  case (Maintain_Auto_Resume env1 env2 env3 cause quiesced startup)
  show ?thesis
    unfolding Maintain_Auto_Resume ledger_step.simps
    by (rule maintain_inv [OF P same], assumption, frule (2) ok) (auto simp: Maintain_Auto_Resume)
next
  case (Consume_Auto_Resume env1 env2 available still)
  show ?thesis
    unfolding Consume_Auto_Resume ledger_step.simps
    by (rule consume_auto_inv [OF P same], assumption, frule (2) ok) (auto simp: Consume_Auto_Resume)
qed (use P no_restart ok in \<open>auto simp: operation_defs map_sum_Pair_ok plain_ok Let_def
      intro!: checked_inv on_success_inv commit_keeps flag_inv post_inv
      split: option.splits prod.splits\<close>)

end

section \<open>The store mirrors the record\<close>

definition mirrored :: "Ledger \<Rightarrow> SafetyRecord \<Rightarrow> bool" where
  "mirrored ld r \<longleftrightarrow> (\<forall>i it. od_get (sr_intents r) i = Some it \<longrightarrow>
     (\<exists>r' it'. ld_stored ld = Inr (Some r') \<and> od_get (sr_intents r') i = Some it' \<and>
        it_run it' = it_run it \<and> it_phase it' = it_phase it))"

definition sound :: "Ledger \<Rightarrow> bool" where
  "sound ld \<longleftrightarrow> ld_storage_failed ld \<or>
     (\<exists>r. ld_record ld = Some r \<and> ld_claimed ld \<subseteq> intent_ids r \<and> mirrored ld r)"

interpretation durable: ledger_invariant sound "\<lambda>ld settled r r'. True"
  by unfold_locales (auto simp: sound_def mirrored_def same_view_def)

lemma load_run [simp]: "ld_run (load env boot run dc key legacy stored) = run"
  by (simp add: load_def fresh_ledger_def storage_failure_def restore_startup_protection_def
      rebase_safety_record_def Let_def split: sum.split option.split)

lemma load_stored [simp]: "ld_stored (load env boot run dc key legacy stored) = stored"
  by (auto simp: load_def fresh_ledger_def storage_failure_def restore_startup_protection_def
      rebase_safety_record_def Let_def split: sum.split option.split)

lemma load_claimed [simp]: "ld_claimed (load env boot run dc key legacy stored) = {}"
  by (simp add: load_def fresh_ledger_def storage_failure_def restore_startup_protection_def
      rebase_safety_record_def Let_def split: sum.split option.split)

lemma load_cases:
  obtains (failed) "ld_storage_failed (load env boot run dc key legacy stored)"
  | (empty) r where "stored = Inr None" and "ld_record (load env boot run dc key legacy stored) = Some r"
      and "sr_intents r = []"
  | (loaded) r0 r where "stored = Inr (Some r0)" and "validate_safety_record (en_vendor env) r0"
      and "ld_record (load env boot run dc key legacy stored) = Some r"
      and "sr_intents r = map (\<lambda>(k, it). (k, uncontain_native it)) (sr_intents r0)"
proof (cases stored)
  case (Inl u)
  then show ?thesis by (intro failed) (simp add: load_def storage_failure_def)
next
  case (Inr content)
  show ?thesis
  proof (cases content)
    case None
    show ?thesis
    proof (cases "\<exists>until. legacy = Inr until \<and> validate_safety_record (en_vendor env) (initial_record env boot dc key until)")
      case True
      then obtain until where "legacy = Inr until"
          "validate_safety_record (en_vendor env) (initial_record env boot dc key until)" by blast
      with Inr None show ?thesis
        by (intro empty [of "initial_record env boot dc key until"])
           (simp_all add: load_def Let_def initial_record_def)
    next
      case False
      with Inr None show ?thesis
        by (intro failed) (auto simp: load_def storage_failure_def Let_def split: sum.split)
    qed
  next
    case (Some r0)
    show ?thesis
    proof (cases "validate_safety_record (en_vendor env) r0 \<and> (\<exists>t. legacy = Inr t)")
      case True
      with Inr Some show ?thesis
        by (intro loaded [of r0 "the (ld_record (load env boot run dc key legacy stored))"])
           (auto simp: load_def rebase_safety_record_def Let_def)
    next
      case False
      then have "validate_safety_record (en_vendor env) r0 \<Longrightarrow> legacy = Inl ()" by (cases legacy) auto
      with Inr Some show ?thesis by (intro failed) (auto simp: load_def storage_failure_def Let_def)
    qed
  qed
qed

lemma sound_load: "sound (load env boot run dc key legacy stored)"
proof (cases rule: load_cases [where env = env and boot = boot and run = run and dc = dc and key = key
      and legacy = legacy and stored = stored])
  case (loaded r0 r)
  then have "mirrored (load env boot run dc key legacy stored) r"
    by (auto simp: mirrored_def od_get_map_values uncontain_native_def)
  with loaded show ?thesis by (simp add: sound_def)
qed (auto simp: sound_def mirrored_def)

lemma sound_step: "sound ld \<Longrightarrow> sound (ledger_step e ld)"
proof (cases e)
  case (Restart env boot run dc key legacy)
  then show ?thesis by (simp add: sound_load)
qed (rule durable.step_inv; simp)+

interpretation ledger_runs: op_system ledger_step sound
  by unfold_locales (rule sound_step)

section \<open>Attempts are remembered\<close>

definition in_record :: "Ledger \<Rightarrow> string \<Rightarrow> Intent \<Rightarrow> bool" where
  "in_record ld i it \<longleftrightarrow> (\<exists>r. ld_record ld = Some r \<and> od_get (sr_intents r) i = Some it)"

definition in_store :: "Ledger \<Rightarrow> string \<Rightarrow> Intent \<Rightarrow> bool" where
  "in_store ld i it \<longleftrightarrow> (\<exists>r. ld_stored ld = Inr (Some r) \<and> od_get (sr_intents r) i = Some it)"

text \<open>
  An intent of the current run that is neither claimed nor unknown is withdrawn by its
  completion: nothing was written for it. Every other intent is held.
\<close>

definition held_intent :: "Ledger \<Rightarrow> string \<Rightarrow> Intent \<Rightarrow> bool" where
  "held_intent ld i it \<longleftrightarrow> (it_run it = ld_run ld \<longrightarrow> i \<in> ld_claimed ld \<or> it_phase it \<noteq> INTENT_PREPARED)"

definition kept :: "string \<Rightarrow> string \<Rightarrow> Ledger \<Rightarrow> bool" where
  "kept i run ld \<longleftrightarrow> (\<exists>it. in_store ld i it \<and> it_run it = run) \<and>
     (ld_storage_failed ld \<or> (\<exists>it. in_record ld i it \<and> it_run it = run \<and> held_intent ld i it))"

definition keeps_held :: "string \<Rightarrow> string \<Rightarrow> Ledger \<Rightarrow> string option \<Rightarrow> SafetyRecord \<Rightarrow> SafetyRecord \<Rightarrow> bool" where
  "keeps_held i run ld settled r r' \<longleftrightarrow>
     (\<forall>it. od_get (sr_intents r) i = Some it \<and> it_run it = run \<and> held_intent ld i it \<longrightarrow>
       (\<exists>it'. od_get (sr_intents r') i = Some it' \<and> evolves it it' \<and>
          (settled = Some i \<longrightarrow> it_phase it' \<noteq> INTENT_PREPARED)))"

lemma keeps_heldD:
  assumes "keeps_held i run ld settled r r'" and "kept i run ld"
    and "\<not> ld_storage_failed ld" and "ld_record ld = Some r"
  obtains it it' where "od_get (sr_intents r) i = Some it" and "held_intent ld i it" and "it_run it = run"
    and "od_get (sr_intents r') i = Some it'" and "evolves it it'"
    and "settled = Some i \<Longrightarrow> it_phase it' \<noteq> INTENT_PREPARED"
  using assms by (auto simp: keeps_held_def kept_def in_record_def)

interpretation memory: ledger_invariant "kept i run" "keeps_held i run" for i run
proof
  show "kept i run ld'" if "same_view ld ld'" "kept i run ld" for ld ld'
    using that by (simp add: same_view_def kept_def in_store_def in_record_def held_intent_def)
  show "kept i run (ld\<lparr>ld_claimed := insert a (ld_claimed ld)\<rparr>)"
    if "kept i run ld" for ld a
    using that by (auto simp: kept_def in_store_def in_record_def held_intent_def)
  show "kept i run (ld\<lparr>ld_stored := s, ld_storage_failed := True\<rparr>)"
    if "kept i run ld" "\<not> ld_storage_failed ld" "ld_record ld = Some r" "keeps_held i run ld settled r r'"
      "s = ld_stored ld \<or> s = Inr (Some r')" for ld r settled r' s
    using that(5) keeps_heldD [OF that(4,1-3)] that(1)
    by (elim disjE) (auto simp: kept_def in_store_def evolves_def)
  show "kept i run (ld\<lparr>ld_record := Some r', ld_stored := Inr (Some r'),
      ld_claimed := (ld_claimed ld - set_option settled) \<inter> intent_ids r'\<rparr>)"
    if "kept i run ld" "\<not> ld_storage_failed ld" "ld_record ld = Some r" "keeps_held i run ld settled r r'"
    for ld r settled r'
  proof -
    note facts = that
    obtain it it' where it: "held_intent ld i it" "it_run it = run" "od_get (sr_intents r') i = Some it'"
        "evolves it it'" "settled = Some i \<Longrightarrow> it_phase it' \<noteq> INTENT_PREPARED"
      using keeps_heldD [OF facts(4,1-3)] by metis
    have "i \<in> intent_ids r'" using it(3) by (simp add: intent_ids_def od_get_SomeD)
    with it show ?thesis
      by (cases settled) (auto simp: kept_def in_store_def in_record_def held_intent_def evolves_def)
  qed
qed

lemma carried_keeps_held: "carried i r r' \<Longrightarrow> settled \<noteq> Some i \<Longrightarrow> keeps_held i run ld settled r r'"
  by (auto simp: carried_def keeps_held_def)

lemma mutates_carried:
  assumes "mutates e ld r r'" and "\<And>env a co. e \<noteq> Complete env a co"
  shows "carried i r r'"
  using assms by (cases e) (auto intro: carries)

text \<open>What a completion leaves: only a known outcome takes a held intent away.\<close>

lemma settle_intent_keeps:
  assumes "settle_intent ld env a known r = Inr r'" and "od_get (sr_intents r) i = Some it"
    and "held_intent ld i it" and "\<not> (a = i \<and> known)"
  shows "\<exists>it'. od_get (sr_intents r') i = Some it' \<and> evolves it it' \<and> (a = i \<longrightarrow> it_phase it' \<noteq> INTENT_PREPARED)"
  using assms
  by (cases "a = i")
     (auto simp: settle_intent_def mark_unknown_intent_def evolves_def held_intent_def retains_unknown_intent_def
       is_contained_aux_def split: option.splits if_splits)

lemma settle_read_keeps:
  assumes "settle_read_budget_failure ld env a why r = Inr r'" and "od_get (sr_intents r) i = Some it"
  shows "\<exists>it'. od_get (sr_intents r') i = Some it' \<and> evolves it it' \<and> (a = i \<longrightarrow> it_phase it' \<noteq> INTENT_PREPARED)"
  using assms
  by (auto simp: settle_read_budget_failure_def Let_def evolves_def split: option.splits if_splits elim!: and_then_okE)

lemma settle_attempt_stages:
  assumes "settle_attempt ld env a co r = Inr r'"
  obtains r1 r2 where "sr_intents r1 = sr_intents r"
    and "(if co_scoped_read_failure co then settle_read_budget_failure ld env a (co_read_failure_reason co) r1
          else settle_intent ld env a (co_known_outcome co) r1) = Inr r2"
    and "carried i r2 r'"
proof -
  obtain r1 r2 r3 where r1: "sr_intents r1 = sr_intents r"
      and r2: "(if co_scoped_read_failure co then settle_read_budget_failure ld env a (co_read_failure_reason co) r1
          else settle_intent ld env a (co_known_outcome co) r1) = Inr r2"
      and r3: "(case co_floor_until_utc co of None \<Rightarrow> Inr r2 | Some until \<Rightarrow> settle_restriction ld env until r2) = Inr r3"
      and r': "settle_recovery ld env a co (open_circuit env (co_circuit_open co) r3) = Inr r'"
    using assms unfolding settle_attempt_def by (auto elim!: and_then_okE dest: same_intents_settle_method)
  have "sr_intents r3 = sr_intents r2"
    using r3 by (auto split: option.splits dest: same_intents_settle_restriction)
  then have "carried i r2 (open_circuit env (co_circuit_open co) r3)"
    by (intro carried_same) (simp add: same_intents_open_circuit)
  then have "carried i r2 r'" using carried_settle_recovery [OF r'] by (rule carried_trans)
  with r1 r2 show ?thesis by (rule that)
qed

lemma settle_attempt_keeps:
  assumes "settle_attempt ld env a co r = Inr r'" and it: "od_get (sr_intents r) i = Some it"
    and held_intent: "held_intent ld i it" and open_outcome: "\<not> (a = i \<and> co_known_outcome co \<and> \<not> co_scoped_read_failure co)"
  shows "\<exists>it'. od_get (sr_intents r') i = Some it' \<and> evolves it it' \<and> (a = i \<longrightarrow> it_phase it' \<noteq> INTENT_PREPARED)"
proof -
  obtain r1 r2 where r1: "sr_intents r1 = sr_intents r"
      and r2: "(if co_scoped_read_failure co then settle_read_budget_failure ld env a (co_read_failure_reason co) r1
          else settle_intent ld env a (co_known_outcome co) r1) = Inr r2"
      and tail: "carried i r2 r'"
    using settle_attempt_stages [OF assms(1)] by blast
  have it1: "od_get (sr_intents r1) i = Some it" using it by (simp add: r1)
  have "\<exists>it2. od_get (sr_intents r2) i = Some it2 \<and> evolves it it2 \<and> (a = i \<longrightarrow> it_phase it2 \<noteq> INTENT_PREPARED)"
  proof (cases "co_scoped_read_failure co")
    case True
    with r2 show ?thesis by (intro settle_read_keeps [OF _ it1]) simp
  next
    case False
    with r2 open_outcome show ?thesis by (intro settle_intent_keeps [OF _ it1 held_intent]) auto
  qed
  then obtain it2 where it2: "od_get (sr_intents r2) i = Some it2" "evolves it it2"
      "a = i \<longrightarrow> it_phase it2 \<noteq> INTENT_PREPARED" by blast
  then obtain it3 where it3: "od_get (sr_intents r') i = Some it3" "evolves it2 it3"
    using tail by (auto simp: carried_def)
  moreover have "evolves it it3" using it2(2) it3(2) by (rule evolves_trans)
  moreover have "a = i \<longrightarrow> it_phase it3 \<noteq> INTENT_PREPARED" using it2(3) it3(2) by (auto simp: evolves_def)
  ultimately show ?thesis by blast
qed

fun leaves_attempt :: "string \<Rightarrow> string \<Rightarrow> ledger_event \<Rightarrow> bool" where
  "leaves_attempt i run (Complete env a co) \<longleftrightarrow> \<not> (a = i \<and> co_known_outcome co \<and> \<not> co_scoped_read_failure co)"
| "leaves_attempt i run (Restart env boot run' dc key legacy) \<longleftrightarrow> run' \<noteq> run"
| "leaves_attempt i run e \<longleftrightarrow> True"

lemma settles_native_unknown:
  assumes "settle_native_change ld env i nb g r = Inr r'" and "od_get (sr_intents r) i = Some it"
  shows "\<exists>it'. od_get (sr_intents r') i = Some it' \<and> evolves it it' \<and> it_phase it' \<noteq> INTENT_PREPARED"
  using assms
  by (auto simp: settle_native_change_def Let_def evolves_def split: option.splits if_splits elim!: and_then_okE)

lemma kept_load:
  assumes "kept i run ld" and "run' \<noteq> run"
  shows "kept i run (load env boot run' dc key legacy (ld_stored ld))"
proof -
  obtain r it where it: "ld_stored ld = Inr (Some r)" "od_get (sr_intents r) i = Some it" "it_run it = run"
    using assms(1) by (auto simp: kept_def in_store_def)
  show ?thesis
  proof (cases rule: load_cases [where env = env and boot = boot and run = run' and dc = dc and key = key
        and legacy = legacy and stored = "ld_stored ld"])
    case (loaded r0 r1)
    with it have "in_record (load env boot run' dc key legacy (ld_stored ld)) i (uncontain_native it)"
      by (simp add: in_record_def od_get_map_values)
    with it assms(2) show ?thesis
      by (auto simp: kept_def in_store_def held_intent_def uncontain_native_def)
  qed (use it in \<open>auto simp: kept_def in_store_def\<close>)
qed

lemma kept_step:
  assumes "kept i run ld" and "leaves_attempt i run e"
  shows "kept i run (ledger_step e ld)"
proof (cases e)
  case (Restart env boot run' dc key legacy)
  with assms show ?thesis by (simp add: kept_load)
next
  case (Complete env a co)
  show ?thesis
  proof (rule memory.step_inv [OF assms(1)])
    show "keeps_held i run ld (settles e) r r'" if "mutates e ld r r'" for ld r r'
      using that assms(2) settle_attempt_keeps [of ld env a co r r' i]
      by (auto simp: Complete keeps_held_def)
  qed (auto simp: Complete keeps_held_def)
next
  case (Complete_Native_Unknown env a nb g)
  show ?thesis
  proof (rule memory.step_inv [OF assms(1)])
    show "keeps_held i run ld (settles e) r r'" if "mutates e ld r r'" for ld r r'
    proof (cases "a = i")
      case True
      with that show ?thesis
        using settles_native_unknown [of ld env i nb g r r']
        by (auto simp: Complete_Native_Unknown keeps_held_def)
    next
      case False
      have "carried i r r'" by (rule mutates_carried [OF that]) (simp add: Complete_Native_Unknown)
      with False show ?thesis by (intro carried_keeps_held) (simp_all add: Complete_Native_Unknown)
    qed
  qed (auto simp: Complete_Native_Unknown keeps_held_def)
qed (rule memory.step_inv [OF assms(1)], simp, rule carried_keeps_held, erule mutates_carried,
     simp, simp, simp add: keeps_held_def)+

interpretation remembered: guarded_system ledger_step "leaves_attempt i run" "kept i run" for i run
  by unfold_locales (rule kept_step)

lemma claim_kept:
  assumes "sound ld" and "fst (mark_claimed i auth ld) = Inr ()" and "in_record ld i it"
  shows "kept i (it_run it) (ledger_step (Mark_Claimed i auth) ld)"
proof -
  have step: "ledger_step (Mark_Claimed i auth) ld = ld\<lparr>ld_claimed := insert i (ld_claimed ld)\<rparr>"
    and ok: "\<not> ld_storage_failed ld"
    using assms(2) by (auto simp: mark_claimed_def checked_def require_writable_def protection_reason_def
        split: sum.splits if_splits option.splits)
  then show ?thesis
    using assms(1,3) unfolding sound_def mirrored_def in_record_def
    by (auto simp: step kept_def in_store_def in_record_def held_intent_def) metis
qed

end
