(* ===== verification/Safety_Claims.thy ===== *)
theory Safety_Claims
  imports Safety_Memory
begin

text \<open>
  What the durable record guarantees of a claimed attempt: it is remembered until its outcome
  is known, across failed saves and restarts, and a process that starts while it is in flight
  does not write. The last section says exactly when a start grants writes.
\<close>

section \<open>Remembering\<close>

text \<open>
  C1. No claimed attempt is forgotten. Once \<open>mark_claimed\<close> has accepted an attempt, its intent
  is in the store after every sequence of operations, accepted, lost and torn saves and
  restarts included, unless one of them completes that very attempt with a known outcome.
  (Restarts take a run identifier other than the one the attempt was prepared in.)
\<close>

theorem claimed_attempt_is_remembered:
  assumes "ld = run_ops ledger_step es0 (load env boot run dc key legacy stored)"
    and "fst (mark_claimed i auth ld) = Inr ()" and "in_record ld i it"
    and "list_all (leaves_attempt i (it_run it)) es"
  shows "\<exists>it'. in_store (run_ops ledger_step es (ledger_step (Mark_Claimed i auth) ld)) i it' \<and> it_run it' = it_run it"
proof -
  have "sound ld" unfolding assms(1) by (rule ledger_runs.run_invar) (rule sound_load)
  then have "kept i (it_run it) (ledger_step (Mark_Claimed i auth) ld)" using assms(2,3) by (rule claim_kept)
  then have "kept i (it_run it) (run_ops ledger_step es (ledger_step (Mark_Claimed i auth) ld))"
    by (rule remembered.permitted_run [OF assms(4)])
  then show ?thesis by (simp add: kept_def)
qed

section \<open>In flight\<close>

text \<open>
  While an attempt is in flight, nothing but its own settlement, the containment of its own
  native receipt and the operator's acknowledgement may touch its intent.
\<close>

fun in_flight_event :: "string \<Rightarrow> ledger_event \<Rightarrow> bool" where
  "in_flight_event i (Complete env a co) \<longleftrightarrow> a \<noteq> i"
| "in_flight_event i (Complete_Native_Unknown env a nb g) \<longleftrightarrow> a \<noteq> i"
| "in_flight_event i (Contain_Native env a nb) \<longleftrightarrow> a \<noteq> i"
| "in_flight_event i (Consume_Recovery env) \<longleftrightarrow> False"
| "in_flight_event i (Restart env boot run dc key legacy) \<longleftrightarrow> False"
| "in_flight_event i e \<longleftrightarrow> True"

lemma decide_consume_idle:
  assumes "decide_auto_transition ld env event args r = Inr d" and "command d = COMMAND_CONSUME"
  shows "\<not> auto_owner_pending ld env r"
proof -
  let ?s = "auto_recovery_snapshot ld env event args r"
  have "decide_rule ?s (RULE_ROWS (sn_phase ?s) ! event_index event) = Inr d"
    using assms(1) unfolding decide_auto_transition_def decide_auto_recovery_def
    by (cases "decide_rule ?s (RULE_ROWS (sn_phase ?s) ! event_index event)") auto
  from only_due_consumes [OF this assms(2)] have "d = due_decision ?s" by simp
  with assms(2) have "\<not> sn_owner_pending ?s" by (simp add: due_decision_consume)
  then show ?thesis by (simp add: auto_recovery_snapshot_def split: prod.splits)
qed

lemma auto_effect_same_intents:
  "auto_effect ld env d event cause observed r = Inr r' \<Longrightarrow> command d \<noteq> COMMAND_CONSUME \<Longrightarrow>
   sr_intents r' = sr_intents r"
  by (cases "command d")
     (auto simp: auto_effect_def apply_auto_fence_def Let_def split: option.splits
      dest!: same_intents_schedule same_intents_settle_fencing)

lemma apply_auto_same_intents:
  "apply_auto_transition ld env d event cause observed r = Inr r' \<Longrightarrow> command d \<noteq> COMMAND_CONSUME \<Longrightarrow>
   sr_intents r' = sr_intents r"
  by (auto simp: apply_auto_transition_def and_then_ok dest!: assert_phase_ok intro: auto_effect_same_intents)

text \<open>A claim is a pending owner, so no automatic trial is consumed beside it.\<close>

lemma pending_same_intents:
  assumes "transition_auto_owned ld env event args observed r = Inr r'" and "ld_claimed ld \<noteq> {}"
  shows "sr_intents r' = sr_intents r"
proof -
  obtain d where d: "decide_auto_transition ld env event args r = Inr d"
      "apply_auto_transition ld env d event (aa_cause args) observed r = Inr r'"
    using assms(1) by (auto simp: transition_auto_owned_def and_then_ok)
  have "command d \<noteq> COMMAND_CONSUME"
    using decide_consume_idle [OF d(1)] assms(2) by (auto simp: auto_owner_pending_def)
  with d(2) show ?thesis by (rule apply_auto_same_intents)
qed

lemma pending_consume_same_intents:
  assumes "consume_auto_change ld env lifecycle r = Inr (ok, r')" and "ld_claimed ld \<noteq> {}"
  shows "sr_intents r' = sr_intents r"
proof -
  obtain d where d: "decide_auto_transition ld env EVENT_DUE (auto_args\<lparr>aa_lifecycle_available := lifecycle\<rparr>) r = Inr d"
      and r': "r' = r \<or> apply_auto_transition ld env d EVENT_DUE None False r = Inr r'"
    using assms(1) by (auto simp: consume_auto_change_def and_then_ok map_sum_Pair_ok split: if_splits)
  have "command d \<noteq> COMMAND_CONSUME"
    using decide_consume_idle [OF d] assms(2) by (auto simp: auto_owner_pending_def)
  with r' show ?thesis by (auto intro: apply_auto_same_intents)
qed

lemma pending_invalidate_same_intents:
  "invalidate_recovery_trial ld env known cause r = Inr r' \<Longrightarrow> ld_claimed ld \<noteq> {} \<Longrightarrow> sr_intents r' = sr_intents r"
  by (auto simp: invalidate_recovery_trial_def Let_def split: if_splits option.splits dest: pending_same_intents)

lemma pending_settle_recovery_same_intents:
  "settle_recovery ld env a co r = Inr r' \<Longrightarrow> ld_claimed ld \<noteq> {} \<Longrightarrow> sr_intents r' = sr_intents r"
  by (auto simp: settle_recovery_def Let_def split: if_splits intro: pending_invalidate_same_intents)

lemma settle_other_attempt:
  assumes "settle_attempt ld env a co r = Inr r'" and "a \<noteq> i" and "ld_claimed ld \<noteq> {}"
  shows "od_get (sr_intents r') i = od_get (sr_intents r) i"
proof -
  obtain r1 r2 r3 where r1: "sr_intents r1 = sr_intents r"
      and r2: "(if co_scoped_read_failure co then settle_read_budget_failure ld env a (co_read_failure_reason co) r1
          else settle_intent ld env a (co_known_outcome co) r1) = Inr r2"
      and r3: "(case co_floor_until_utc co of None \<Rightarrow> Inr r2 | Some until \<Rightarrow> settle_restriction ld env until r2) = Inr r3"
      and r': "settle_recovery ld env a co (open_circuit env (co_circuit_open co) r3) = Inr r'"
    using assms(1) unfolding settle_attempt_def by (auto elim!: and_then_okE dest: same_intents_settle_method)
  have "od_get (sr_intents r2) i = od_get (sr_intents r1) i"
    using r2 assms(2)
    by (auto simp: settle_read_budget_failure_def settle_intent_def mark_unknown_intent_def Let_def
        split: if_splits option.splits elim!: and_then_okE)
  moreover have "sr_intents r3 = sr_intents r2"
    using r3 by (auto split: option.splits dest: same_intents_settle_restriction)
  moreover have "sr_intents r' = sr_intents r3"
    using pending_settle_recovery_same_intents [OF r' assms(3)] by (simp add: same_intents_open_circuit)
  ultimately show ?thesis by (simp add: r1)
qed

lemma record_floor_same_intents:
  assumes "record_floor_change ld env until circuit r = Inr r'" and "ld_claimed ld \<noteq> {}"
  shows "sr_intents r' = sr_intents r"
proof -
  obtain r1 where r1: "extend_floor ld env until r = Inr r1"
      and r': "r' = open_circuit env circuit r1 \<or>
        invalidate_recovery_trial ld env True None (open_circuit env circuit r1) = Inr r'"
    using assms(1) by (auto simp: record_floor_change_def and_then_ok Let_def split: if_splits)
  show ?thesis
    using r' pending_invalidate_same_intents [OF _ assms(2)] same_intents_extend_floor [OF r1]
    by (auto simp: same_intents_open_circuit)
qed

lemma fail_automatic_same_intents:
  "fail_automatic_change ld env cause r = Inr r' \<Longrightarrow> ld_claimed ld \<noteq> {} \<Longrightarrow> sr_intents r' = sr_intents r"
  by (auto simp: fail_automatic_change_def split: option.splits dest: pending_same_intents)

lemma finish_same_intents:
  "finish_change ld env account r = Inr r' \<Longrightarrow> sr_intents r' = sr_intents r"
  by (auto simp: finish_change_def Let_def and_then_ok split: if_splits option.splits
      intro: apply_auto_same_intents)

definition flying :: "Ledger \<Rightarrow> string \<Rightarrow> Intent \<Rightarrow> bool" where
  "flying ld i it \<longleftrightarrow> i \<in> ld_claimed ld \<and> it_run it = ld_run ld \<and> it_phase it = INTENT_PREPARED"

lemma mutates_flying:
  assumes "mutates e ld r r'" and "in_flight_event i e"
    and it: "od_get (sr_intents r) i = Some it" and flying: "flying ld i it"
  shows "od_get (sr_intents r') i = Some it"
proof -
  have claimed: "ld_claimed ld \<noteq> {}" using flying by (auto simp: flying_def)
  note same = pending_same_intents [OF _ claimed] pending_consume_same_intents [OF _ claimed]
    fail_automatic_same_intents [OF _ claimed] record_floor_same_intents [OF _ claimed]
  show ?thesis
  proof (cases e)
    case (Complete env a co)
    with assms show ?thesis using settle_other_attempt [of ld env a co r r' i] by (auto simp: flying_def)
  next
    case (Prepare env a m pa)
    with assms show ?thesis by (auto simp: add_intent_def and_then_ok Let_def)
  next
    case (Prepare_Method_Trial env a m auth)
    with assms show ?thesis by (auto simp: reserve_method_trial_def split: option.splits if_splits)
  next
    case (Record_Floor env until circuit)
    with assms(1) it same(4) show ?thesis by simp
  next
    case (Contain_Native env a nb)
    with assms show ?thesis
      by (auto simp: contain_native_change_def Let_def split: option.splits if_splits)
  next
    case (Complete_Native_Unknown env a nb g)
    with assms show ?thesis
      by (auto simp: settle_native_change_def Let_def and_then_ok dest: same_intents_settle_method
          split: option.splits if_splits)
  next
    case (Contain_Aux_Unknown env a b lease)
    with assms show ?thesis
      by (auto simp: contain_aux_change_def Let_def flying_def split: option.splits if_splits)
  next
    case (Reconcile_Aux env lease_held lease_now)
    with assms show ?thesis
      by (auto simp: reconcile_aux_change_def od_get_map_values restart_aux_matches_def flying_def
          split: option.splits if_splits)
  next
    case (Contain_Shutdown_Reads env as clear)
    with assms show ?thesis by (auto simp: shutdown_reads_change_def require_shutdown_read_scope_def flying_def)
  next
    case (Maintain_Auto_Resume env1 env2 env3 cause quiesced startup)
    with assms show ?thesis by (auto dest: same)
  next
    case (Consume_Auto_Resume env1 env2 available still)
    with assms show ?thesis by (auto dest: same)
  next
    case (Reset_Auto_Resume env)
    with assms show ?thesis by (auto dest: same)
  next
    case (Fail_Automatic_Recovery env cause)
    with assms show ?thesis by (auto dest: same)
  next
    case (Finish_Recovery env account)
    with assms show ?thesis using finish_same_intents by auto
  next
    case (Validate_Authentication_Account env account finish)
    with assms show ?thesis
      by (auto simp: validate_authentication_change_def Let_def map_sum_Pair_ok
          split: if_splits option.splits dest!: same_intents_finish_authentication)
  qed (use assms in \<open>auto simp: bind_account_def bind_key_change_def begin_dc_change_def finish_dc_change_def
        reject_identity_change_def begin_authentication_change_def begin_logout_change_def
        confirm_logout_change_def clear_logged_out_change_def authorize_change_def fail_change_def
        integrity_failure_change_def Let_def and_then_ok split: if_splits option.splits\<close>)
qed

definition airborne :: "string \<Rightarrow> Ledger \<Rightarrow> bool" where
  "airborne i ld \<longleftrightarrow> (\<exists>it. in_store ld i it \<and> it_phase it = INTENT_PREPARED) \<and>
     (ld_storage_failed ld \<or> (\<exists>it. in_record ld i it \<and> flying ld i it))"

definition keeps_flying :: "string \<Rightarrow> Ledger \<Rightarrow> string option \<Rightarrow> SafetyRecord \<Rightarrow> SafetyRecord \<Rightarrow> bool" where
  "keeps_flying i ld settled r r' \<longleftrightarrow> settled \<noteq> Some i \<and>
     (\<forall>it. od_get (sr_intents r) i = Some it \<and> flying ld i it \<longrightarrow> od_get (sr_intents r') i = Some it)"

interpretation flight: ledger_invariant "airborne i" "keeps_flying i" for i
proof
  show "airborne i ld'" if "same_view ld ld'" "airborne i ld" for ld ld'
    using that by (simp add: same_view_def airborne_def in_store_def in_record_def flying_def)
  show "airborne i (ld\<lparr>ld_claimed := insert a (ld_claimed ld)\<rparr>)" if "airborne i ld" for ld a
    using that by (auto simp: airborne_def in_store_def in_record_def flying_def)
  show "airborne i (ld\<lparr>ld_stored := s, ld_storage_failed := True\<rparr>)"
    if "airborne i ld" "\<not> ld_storage_failed ld" "ld_record ld = Some r" "keeps_flying i ld settled r r'"
      "s = ld_stored ld \<or> s = Inr (Some r')" for ld r settled r' s
    using that by (elim disjE) (auto simp: airborne_def in_store_def in_record_def keeps_flying_def flying_def)
  show "airborne i (ld\<lparr>ld_record := Some r', ld_stored := Inr (Some r'),
      ld_claimed := (ld_claimed ld - set_option settled) \<inter> intent_ids r'\<rparr>)"
    if "airborne i ld" "\<not> ld_storage_failed ld" "ld_record ld = Some r" "keeps_flying i ld settled r r'"
    for ld r settled r'
    using that by (auto simp: airborne_def in_store_def in_record_def keeps_flying_def flying_def
        intent_ids_def dest: od_get_SomeD)
qed

lemma airborne_step: "airborne i ld \<Longrightarrow> in_flight_event i e \<Longrightarrow> airborne i (ledger_step e ld)"
proof (rule flight.step_inv)
  fix ld r r'
  assume "in_flight_event i e" and "mutates e ld r r'"
  then show "keeps_flying i ld (settles e) r r'"
    using mutates_flying [of e ld r r' i] by (cases e) (auto simp: keeps_flying_def)
qed (auto simp: keeps_flying_def)

interpretation flights: guarded_system ledger_step "in_flight_event i" "airborne i" for i
  by unfold_locales (rule airborne_step)

lemma claim_airborne:
  assumes "sound ld" and "fst (mark_claimed i auth ld) = Inr ()" and "in_record ld i it"
    and "it_run it = ld_run ld" and "it_phase it = INTENT_PREPARED"
  shows "airborne i (ledger_step (Mark_Claimed i auth) ld)"
proof -
  have step: "ledger_step (Mark_Claimed i auth) ld = ld\<lparr>ld_claimed := insert i (ld_claimed ld)\<rparr>"
    and ok: "\<not> ld_storage_failed ld"
    using assms(2) by (auto simp: mark_claimed_def checked_def require_writable_def protection_reason_def
        split: sum.splits if_splits option.splits)
  obtain r' it' where "ld_stored ld = Inr (Some r')" "od_get (sr_intents r') i = Some it'"
      "it_phase it' = INTENT_PREPARED"
    using assms(1,3,5) ok unfolding sound_def mirrored_def in_record_def by fastforce
  then have "in_store ld i it'" by (simp add: in_store_def)
  with \<open>it_phase it' = INTENT_PREPARED\<close> assms(3-5) show ?thesis
    unfolding step by (auto simp: airborne_def in_store_def in_record_def flying_def)
qed

section \<open>What a start grants\<close>

lemma load_auth_only: "require_writable (load env boot run dc key legacy stored) True \<noteq> Inr ()"
proof -
  have "\<not> ld_authentication_authorized (load env boot run dc key legacy stored)"
    by (simp add: load_def fresh_ledger_def storage_failure_def restore_startup_protection_def
        rebase_safety_record_def Let_def split: sum.split option.split)
  then show ?thesis by (simp add: require_writable_def)
qed

lemma restore_hold: "ld_startup_hold (restore_startup_protection r ld) = None \<longleftrightarrow>
    ld_startup_hold ld = None \<and> \<not> any_blocks r \<and> sr_transition r = None \<and> phase_of r \<noteq> PHASE_CONSUMED"
  by (auto simp: restore_startup_protection_def Let_def phase_of_def split: option.splits)

definition uncontained :: "SafetyRecord \<Rightarrow> SafetyRecord" where
  "uncontained r = r\<lparr>sr_intents := map (\<lambda>(k, it). (k, uncontain_native it)) (sr_intents r)\<rparr>"

lemma uncontained_simps [simp]:
  "sr_scope (uncontained r) = sr_scope r" "sr_transition (uncontained r) = sr_transition r"
  "sr_protection (uncontained r) = sr_protection r" "phase_of (uncontained r) = phase_of r"
  by (simp_all add: uncontained_def phase_of_def)

lemma load_stored_reason:
  "protection_reason (load env boot run dc key legacy (Inr (Some r))) = None \<longleftrightarrow>
     validate_safety_record (en_vendor env) r \<and> legacy \<noteq> Inl () \<and>
     scope_startup_hold env (sr_scope r) dc key = None \<and> \<not> any_blocks (uncontained r) \<and>
     sr_transition r = None \<and> phase_of r \<noteq> PHASE_CONSUMED \<and> sr_protection r = None"
proof (cases "validate_safety_record (en_vendor env) r")
  case False
  then show ?thesis by (simp add: load_def storage_failure_def protection_reason_def)
next
  case True
  define ld2 where "ld2 = restore_startup_protection (uncontained r)
    ((fresh_ledger boot run)\<lparr>ld_stored := Inr (Some r), ld_record := Some (uncontained r),
       ld_startup_hold := scope_startup_hold env (sr_scope r) dc key\<rparr>)"
  have hold: "ld_startup_hold ld2 = None \<longleftrightarrow> scope_startup_hold env (sr_scope r) dc key = None \<and>
      \<not> any_blocks (uncontained r) \<and> sr_transition r = None \<and> phase_of r \<noteq> PHASE_CONSUMED"
    unfolding ld2_def restore_hold by simp
  have ok: "\<not> ld_storage_failed ld2"
    by (simp add: ld2_def restore_startup_protection_def fresh_ledger_def Let_def)
  show ?thesis
  proof (cases legacy)
    case (Inl u)
    have "load env boot run dc key legacy (Inr (Some r)) = storage_failure ld2"
      using True Inl by (simp add: load_def ld2_def uncontained_def Let_def)
    then show ?thesis using Inl by (simp add: protection_reason_def storage_failure_def)
  next
    case (Inr until)
    have "load env boot run dc key legacy (Inr (Some r)) = rebase_safety_record env until (uncontained r) ld2"
      using True Inr by (simp add: load_def ld2_def uncontained_def Let_def)
    then show ?thesis
      using Inr True hold ok
      by (cases "ld_startup_hold ld2") (auto simp: protection_reason_def rebase_safety_record_def Let_def)
  qed
qed

lemma stored_prepared_blocks:
  assumes "validate_safety_record vn r" and "od_get (sr_intents r) i = Some it" and "it_phase it = INTENT_PREPARED"
  shows "any_blocks (uncontained r)"
proof -
  have mem: "(i, it) \<in> set (sr_intents r)" using assms(2) by (simp add: od_get_map_of map_of_SomeD)
  then have "valid_safety_intent vn i it"
    using assms(1) by (auto simp: validate_safety_record_def list_all_iff)
  then have "intent_blocks (uncontain_native it) (sr_scope r)"
    using assms(3)
    by (auto simp: intent_blocks_def is_scoped_read_retry_def is_contained_native_def is_scoped_contained_aux_def
        is_contained_aux_def uncontain_native_def valid_safety_intent_def valid_safety_intent_payload_def
        valid_read_retry_def split: option.splits)
  with mem show ?thesis by (auto simp: any_blocks_def uncontained_def list_ex_iff intro!: bexI)
qed

text \<open>A concrete account for the witnesses: a verified account that prepared one attempt.\<close>

definition safety_sample_vendor :: Vendor where
  "safety_sample_vendor = \<lparr>vn_tlobjects = 10, vn_request_name = (\<lambda>n. None), vn_update_dialog_filter = ''filter'',
     vn_update_contact_note = ''note'', vn_add_contact = ''add'', vn_delete_contacts = ''delete''\<rparr>"

definition safety_env :: "time \<Rightarrow> save_outcome \<Rightarrow> LedgerEnv" where
  "safety_env t out = \<lparr>en_now_mono = t, en_now_utc = 1000 + t, en_owners = (Some 42, Some 42),
     en_fresh = (\<lambda>n. replicate (n + 1) (CHR ''f'')), en_other_operations = False, en_save = out,
     en_vendor = safety_sample_vendor\<rparr>"

definition safety_sample_floor :: SafetyFloor where
  "safety_sample_floor = \<lparr>fl_boot_id = ''boot'', fl_until_monotonic = 0, fl_until_utc = 0, fl_remaining_seconds = 0\<rparr>"

definition safety_scope :: SafetyScope where
  "safety_scope = \<lparr>sc_stage = STAGE_VERIFIED, sc_dc_id = 2, sc_key_id = Some 7, sc_account_id = Some 42\<rparr>"

definition safety_sample_record :: SafetyRecord where
  "safety_sample_record = \<lparr>sr_generation = ''g'', sr_scope = safety_scope, sr_floor = safety_sample_floor, sr_intents = [],
     sr_protection = None, sr_recovery = None, sr_transition = None, sr_methods = []\<rparr>"

definition safety_sample_preparation :: Preparation where
  "safety_sample_preparation = \<lparr>pa_transport_identity = None, pa_auth_only = False, pa_aux_bootstrap = None,
     pa_native_binding = None\<rparr>"

definition safety_sample_ledger :: Ledger where
  "safety_sample_ledger = run_ops ledger_step [Prepare (safety_env 10 SAVE_ACCEPTED) ''a'' ''m'' safety_sample_preparation]
     (load (safety_env 0 SAVE_ACCEPTED) ''boot'' ''run'' 2 (Some 7) (Inr None) (Inr (Some safety_sample_record)))"

definition safety_sample_intent :: Intent where
  "safety_sample_intent = \<lparr>it_method = ''m'', it_run = ''run'', it_phase = INTENT_PREPARED,
     it_scope = \<lparr>bn_dc_id = 2, bn_key_id = Some 7, bn_account_id = Some 42\<rparr>, it_policy_recovery = None,
     it_aux_bootstrap = None, it_native_owner = None, it_read_retry = None\<rparr>"

definition safety_sample_completion :: Completion where
  "safety_sample_completion = \<lparr>co_known_outcome = False, co_floor_until_utc = None, co_circuit_open = False,
     co_actual_flood = False, co_method_generation = None, co_method_success = False, co_recovery_cause = None,
     co_scoped_read_failure = False, co_read_failure_reason = SENDER_TIMEOUT, co_shutdown_read_candidate = False\<rparr>"

lemma safety_sample_claim: "fst (mark_claimed ''a'' False safety_sample_ledger) = Inr ()"
  by code_simp

lemma safety_sample_in_record: "in_record safety_sample_ledger ''a'' safety_sample_intent"
proof -
  have "(case ld_record safety_sample_ledger of None \<Rightarrow> False
      | Some r \<Rightarrow> od_get (sr_intents r) ''a'' = Some safety_sample_intent)" by code_simp
  then show ?thesis by (auto simp: in_record_def split: option.splits)
qed

definition safety_sample_events :: "ledger_event list" where
  "safety_sample_events = [Complete (safety_env 20 SAVE_ACCEPTED) ''a'' safety_sample_completion,
     Record_Floor (safety_env 30 SAVE_TORN) 5000 False,
     Restart (safety_env 40 SAVE_ACCEPTED) ''boot'' ''next'' 2 (Some 7) (Inr None)]"

theorem claimed_attempt_is_remembered_witness:
  "\<exists>it'. in_store (run_ops ledger_step safety_sample_events (ledger_step (Mark_Claimed ''a'' False) safety_sample_ledger)) ''a'' it' \<and>
     it_run it' = it_run safety_sample_intent"
  by (rule claimed_attempt_is_remembered [OF safety_sample_ledger_def safety_sample_claim safety_sample_in_record])
     (simp add: safety_sample_events_def safety_sample_completion_def safety_sample_intent_def)

text \<open>
  C9. No write after a crash in flight. From the claim of a prepared attempt of this run on,
  as long as the attempt is not settled, its native receipt not contained and no operator
  acknowledges it, whatever else the ledger does and whichever saves fail: a process that
  crashes and starts again refuses ordinary and authentication writes alike.
\<close>

theorem crash_in_flight_refuses_writes:
  assumes "ld = run_ops ledger_step es0 (load env boot run dc key legacy stored)"
    and "fst (mark_claimed i auth ld) = Inr ()" and "in_record ld i it"
    and "it_run it = ld_run ld" and "it_phase it = INTENT_PREPARED"
    and "list_all (in_flight_event i) es"
    and "crashed = run_ops ledger_step es (ledger_step (Mark_Claimed i auth) ld)"
  shows "require_writable (ledger_step (Restart env' boot' run' dc' key' legacy') crashed) auth' \<noteq> Inr ()"
proof -
  have "sound ld" unfolding assms(1) by (rule ledger_runs.run_invar) (rule sound_load)
  then have "airborne i (ledger_step (Mark_Claimed i auth) ld)" using assms(2-5) by (rule claim_airborne)
  then have "airborne i crashed" unfolding assms(7) by (rule flights.permitted_run [OF assms(6)])
  then obtain r it' where r: "ld_stored crashed = Inr (Some r)" "od_get (sr_intents r) i = Some it'"
      "it_phase it' = INTENT_PREPARED"
    by (auto simp: airborne_def in_store_def)
  have "protection_reason (load env' boot' run' dc' key' legacy' (Inr (Some r))) \<noteq> None"
    using stored_prepared_blocks [OF _ r(2,3)] by (auto simp: load_stored_reason)
  then show ?thesis
    using load_auth_only by (cases auth') (simp_all add: r(1) require_writable_def)
qed

theorem crash_in_flight_refuses_writes_witness:
  "require_writable (ledger_step (Restart (safety_env 40 SAVE_ACCEPTED) ''boot'' ''next'' 2 (Some 7) (Inr None))
     (run_ops ledger_step [Record_Floor (safety_env 30 SAVE_TORN) 5000 False]
       (ledger_step (Mark_Claimed ''a'' False) safety_sample_ledger))) False \<noteq> Inr ()"
proof (rule crash_in_flight_refuses_writes [OF safety_sample_ledger_def safety_sample_claim safety_sample_in_record _ _ _ refl])
  show "it_run safety_sample_intent = ld_run safety_sample_ledger" by code_simp
qed (simp_all add: safety_sample_intent_def)

text \<open>
  C14. A start grants ordinary writes exactly when nothing is left open. With a stored receipt:
  it is valid, the legacy restriction is readable, the receipt belongs to the transport and
  to the owners of the archive, no intent blocks once native containment is withdrawn, no
  transport transition and no consumed trial is pending, and no protection is latched.
  Without one: the initial record is valid, and a start without a key finds no owned state.
  An unreadable store never grants them.
\<close>

theorem load_grants_writes_iff:
  "require_writable (load env boot run dc key legacy stored) False = Inr () \<longleftrightarrow>
     (case stored of
        Inl u \<Rightarrow> False
      | Inr None \<Rightarrow> (case legacy of Inl u \<Rightarrow> False
          | Inr until \<Rightarrow> validate_safety_record (en_vendor env) (initial_record env boot dc key until) \<and>
              (if key = None then en_owners env = (None, None) else True))
      | Inr (Some r) \<Rightarrow> validate_safety_record (en_vendor env) r \<and> legacy \<noteq> Inl () \<and>
          (sc_dc_id (sr_scope r), sc_key_id (sr_scope r)) = (dc, key) \<and>
          (if sc_stage (sr_scope r) = STAGE_VERIFIED then owners_match env (sc_account_id (sr_scope r)) else True) \<and>
          \<not> any_blocks (uncontained r) \<and> sr_transition r = None \<and> phase_of r \<noteq> PHASE_CONSUMED \<and>
          sr_protection r = None)"
proof -
  have writable: "require_writable ld False = Inr () \<longleftrightarrow> protection_reason ld = None" for ld
    by (simp add: require_writable_def)
  show ?thesis
  proof (cases stored)
    case (Inl u)
    then show ?thesis by (simp add: writable load_def storage_failure_def protection_reason_def)
  next
    case (Inr content)
    show ?thesis
    proof (cases content)
      case None
      have owners: "list_ex (\<lambda>owner. owner \<noteq> None) (owner_list env) \<longleftrightarrow> en_owners env \<noteq> (None, None)"
        by (cases "en_owners env") (auto simp: owner_list_def)
      have blank: "sr_protection (initial_record env boot dc k until) = None" for k until
        by (simp add: initial_record_def Let_def)
      show ?thesis
        unfolding Inr None writable
        by (cases legacy; cases key; cases "en_owners env = (None, None)")
           (simp_all add: load_def storage_failure_def protection_reason_def fresh_ledger_def Let_def owners blank
             del: not_None_eq not_Some_eq)
    next
      case (Some r)
      have "scope_startup_hold env (sr_scope r) dc key = None \<longleftrightarrow>
          (sc_dc_id (sr_scope r), sc_key_id (sr_scope r)) = (dc, key) \<and>
          (sc_stage (sr_scope r) = STAGE_VERIFIED \<longrightarrow> owners_match env (sc_account_id (sr_scope r)))"
        by (auto simp: scope_startup_hold_def owners_match_def list_all_iff list_ex_iff)
      then show ?thesis
        unfolding Inr Some writable load_stored_reason by auto
    qed
  qed
qed

end
