(* ===== verification/Safety_Recovery_Props.thy ===== *)
theory Safety_Recovery_Props
  imports Safety_Claims
begin

text \<open>
  The automatic recovery of the ledger against its policy: every decision is carried out, the
  record lands in the phase the policy decided on, and a valid record stays valid.
\<close>

section \<open>Carrying out a decision\<close>

lemma snapshot_simps [simp]:
  "sn_phase (auto_recovery_snapshot ld env event args r) = phase_of r"
  "sn_cause (auto_recovery_snapshot ld env event args r) = auto_transition_cause ld event (aa_cause args) r"
  "sn_safe (auto_recovery_snapshot ld env event args r) = auto_transition_safe ld env event r"
  "sn_owner_pending (auto_recovery_snapshot ld env event args r) = auto_owner_pending ld env r"
  "sn_due (auto_recovery_snapshot ld env event args r) = auto_record_due ld env r"
  "sn_flood_budget_available (auto_recovery_snapshot ld env event args r) =
     ((case automatic_of r of None \<Rightarrow> 0 | Some au \<Rightarrow> flood_attempts au) < MAX_FLOOD_ATTEMPTS)"
  by (simp_all add: auto_recovery_snapshot_def auto_recovery_identity_def phase_of_def
      split: option.split prod.split)

lemma snapshot_mode:
  "sn_mode (auto_recovery_snapshot ld env event args r) = (case sr_recovery r of None \<Rightarrow> MODE_NONE
     | Some tr \<Rightarrow> if tr_automatic tr \<noteq> None then MODE_AUTO else MODE_MANUAL)"
  by (simp add: auto_recovery_snapshot_def auto_recovery_identity_def split: option.split)

lemma snapshot_run:
  "sn_run (auto_recovery_snapshot ld env event args r) = RUN_OTHER \<Longrightarrow> phase_of r = PHASE_CONSUMED \<Longrightarrow>
   auto_transition_cause ld EVENT_STARTUP_RECONCILE c r = map_option au_cause (automatic_of r)"
  by (auto simp: auto_recovery_snapshot_def auto_recovery_identity_def auto_transition_cause_def phase_of_def
      split: option.splits if_splits)

lemma MAX_FLOOD_ATTEMPTS_pos: "0 < MAX_FLOOD_ATTEMPTS"
  by (simp add: MAX_FLOOD_ATTEMPTS_def AUTO_RESUME_DELAYS_def)

lemma backoff_delay_ok: "0 \<le> stage \<Longrightarrow> \<exists>delay. backoff_delay cause stage = Inr delay"
  by (auto simp: backoff_delay_def backoff_seconds_def split: prod.splits)

lemma fence_record_ok:
  assumes "previous \<noteq> None \<or> au_attempts_by_policy au cause < MAX_FLOOD_ATTEMPTS"
  shows "\<exists>r'. fence_record env r previous au cause observed = Inr r' \<and>
    phase_of r' = (if cause = CAUSE_FLOOD_WAIT \<and> \<not> flood_attempts au < MAX_FLOOD_ATTEMPTS
      then PHASE_EXHAUSTED else PHASE_FENCING)"
proof (cases "cause = CAUSE_FLOOD_WAIT \<and> \<not> flood_attempts au < MAX_FLOOD_ATTEMPTS")
  case True
  with assms obtain tr where "previous = Some tr" by (auto simp: flood_attempts_def)
  with True show ?thesis
    by (simp add: fence_record_def exhaust_auto_if_needed_def flood_attempts_def phase_of_def and_then_def Let_def)
next
  case False
  then show ?thesis
    by (auto simp: fence_record_def exhaust_auto_if_needed_def flood_attempts_def phase_of_def and_then_def Let_def)
qed

text \<open>A trial that may be fenced anew: none, a manual success, or an ended automatic one.\<close>

lemma schedule_fences:
  assumes "case sr_recovery r of None \<Rightarrow> True
    | Some tr \<Rightarrow> tr_state tr \<in> {PHASE_CONSUMED, PHASE_SUCCEEDED} \<or> (tr_automatic tr = None \<and> tr_state tr \<noteq> PHASE_EXHAUSTED)"
  shows "\<exists>r'. schedule_auto_resume ld env cause observed r = Inr r' \<and>
    phase_of r' = (if cause = CAUSE_FLOOD_WAIT \<and>
        \<not> (case automatic_of r of None \<Rightarrow> 0 | Some au \<Rightarrow> flood_attempts au) < MAX_FLOOD_ATTEMPTS
      then PHASE_EXHAUSTED else PHASE_FENCING)"
proof -
  have new: "au_attempts_by_policy (new_auto_episode env cause) cause < MAX_FLOOD_ATTEMPTS"
    "flood_attempts (new_auto_episode env cause) < MAX_FLOOD_ATTEMPTS"
    using MAX_FLOOD_ATTEMPTS_pos by (simp_all add: new_auto_episode_def flood_attempts_def)
  show ?thesis
  proof (cases "automatic_of r")
    case None
    obtain r' where "fence_record env r (sr_recovery r) (new_auto_episode env cause) cause observed = Inr r'"
        and "phase_of r' = PHASE_FENCING"
      using fence_record_ok [of "sr_recovery r" "new_auto_episode env cause" cause env r observed] new
      by (auto simp del: not_less)
    moreover have "schedule_auto_resume ld env cause observed r =
        fence_record env r (sr_recovery r) (new_auto_episode env cause) cause observed"
      using None assms by (auto simp: schedule_auto_resume_def automatic_of_def split: option.splits)
    ultimately show ?thesis using None MAX_FLOOD_ATTEMPTS_pos by simp
  next
    case (Some au)
    then obtain tr where tr: "sr_recovery r = Some tr" "tr_automatic tr = Some au"
      by (auto simp: automatic_of_def split: option.splits)
    then have state: "tr_state tr \<in> {PHASE_CONSUMED, PHASE_SUCCEEDED}" using assms by auto
    then obtain au' where au': "advance_auto_episode ld env r tr au cause = Inr (Inr au')"
        "au_attempts_by_policy au' = au_attempts_by_policy au"
      by (auto simp: advance_auto_episode_def Let_def)
    obtain r' where "fence_record env r (Some tr) au' cause observed = Inr r'"
        and "phase_of r' = (if cause = CAUSE_FLOOD_WAIT \<and> \<not> flood_attempts au' < MAX_FLOOD_ATTEMPTS
          then PHASE_EXHAUSTED else PHASE_FENCING)"
      using fence_record_ok [of "Some tr" au' cause env r observed] by auto
    moreover have "schedule_auto_resume ld env cause observed r = fence_record env r (Some tr) au' cause observed"
      using tr state au'(1) by (auto simp: schedule_auto_resume_def and_then_def)
    ultimately show ?thesis using Some au'(2) by (simp add: flood_attempts_def)
  qed
qed

lemma schedule_strengthens:
  assumes tr: "sr_recovery r = Some tr" "tr_automatic tr = Some au"
    and state: "tr_state tr \<in> {PHASE_FENCING, PHASE_WAITING}"
    and due: "tr_state tr = PHASE_WAITING \<Longrightarrow> au_scheduled_due au \<noteq> None"
    and stage: "0 \<le> au_failure_stages au CAUSE_FLOOD_WAIT"
  shows "\<exists>r'. schedule_auto_resume ld env CAUSE_FLOOD_WAIT observed r = Inr r' \<and>
    phase_of r' = (if flood_attempts au < MAX_FLOOD_ATTEMPTS then tr_state tr else PHASE_EXHAUSTED)"
proof -
  obtain delay where "backoff_delay CAUSE_FLOOD_WAIT (au_failure_stages au CAUSE_FLOOD_WAIT) = Inr delay"
    using backoff_delay_ok [OF stage] by blast
  then show ?thesis
    using tr state due
    by (auto simp: schedule_auto_resume_def advance_auto_episode_def strengthen_auto_flood_def
        exhaust_auto_if_needed_def flood_attempts_def put_automatic_def phase_of_def and_then_def Let_def)
qed

lemma settle_fencing_ok:
  assumes "sr_recovery r = Some tr" "tr_automatic tr = Some au" "tr_state tr = PHASE_FENCING"
    and "auto_resume_scope_safe ld env True r" and "ld_claimed ld = {}"
    and stage: "0 \<le> au_failure_stages au (au_cause au)"
  shows "\<exists>r'. settle_auto_fencing ld env r = Inr r' \<and> phase_of r' = PHASE_WAITING"
proof -
  have "auto_resume_scope_safe ld env False r"
    using assms(4,5) by (auto simp: auto_resume_scope_safe_def split: if_splits)
  moreover obtain delay where "backoff_delay (au_cause au) (au_failure_stages au (au_cause au)) = Inr delay"
    using backoff_delay_ok [OF stage] by blast
  ultimately show ?thesis
    using assms by (auto simp: settle_auto_fencing_def and_then_def phase_of_def Let_def)
qed


section \<open>Decisions that act\<close>

abbreviation ARMS :: "Rule set" where
  "ARMS \<equiv> {RULE_ARM, RULE_CONSUMED_FAILURE, RULE_CONSUMED_OBSERVED, RULE_CONSUMED_STARTUP}"

lemma acting_mode:
  assumes "decide_rule s rule = Inr d" and "\<not> inert s d"
  shows "mode_hold s = None" and "rule \<notin> ARMS \<Longrightarrow> sn_mode s = MODE_AUTO"
  using assms by (auto simp: decide_rule_def base_decision_def split: option.splits if_splits)

lemma mode_auto_trial:
  assumes "sn_mode (auto_recovery_snapshot ld env event args r) = MODE_AUTO"
  obtains tr au where "sr_recovery r = Some tr" and "tr_automatic tr = Some au"
    and "automatic_of r = Some au"
  using assms by (auto simp: snapshot_mode automatic_of_def split: option.splits if_splits)

lemma failure_acts:
  assumes "\<not> inert s (failure_decision s rule)"
  shows "command (failure_decision s rule) = COMMAND_ARM_FENCE"
    and "next_phase (failure_decision s rule) =
      (if sn_cause s = Some CAUSE_FLOOD_WAIT \<and> \<not> sn_flood_budget_available s
       then PHASE_EXHAUSTED else PHASE_FENCING)"
    and "sn_cause s \<noteq> None \<or> rule = RULE_CONSUMED_STARTUP \<and> sn_run s = RUN_OTHER"
  using assms
  by (auto simp: failure_decision_def failure_precondition_def Let_def split: option.splits if_splits)

lemma strengthen_acts:
  assumes "\<not> inert s (strengthen_decision s)"
  shows "command (strengthen_decision s) = COMMAND_STRENGTHEN_FLOOD"
    and "next_phase (strengthen_decision s) =
      (if sn_flood_budget_available s then sn_phase s else PHASE_EXHAUSTED)"
    and "sn_cause s = Some CAUSE_FLOOD_WAIT"
  using assms by (auto simp: strengthen_decision_def Let_def split: option.splits if_splits)

lemma quiesce_acts:
  assumes "\<not> inert s (quiesce_decision s)"
  shows "command (quiesce_decision s) = COMMAND_SET_WAIT" and "next_phase (quiesce_decision s) = PHASE_WAITING"
    and "sn_safe s" and "\<not> sn_owner_pending s"
  using assms hold_guard_NoneD [of s True]
  by (auto simp: quiesce_decision_def may_act_def split: option.splits if_splits)

lemma transition_inert:
  assumes "decide_auto_recovery (auto_recovery_snapshot ld env event args r) event = Inr d"
    and "inert (auto_recovery_snapshot ld env event args r) d"
  shows "decide_auto_transition ld env event args r = Inr d" and
    "transition_auto_owned ld env event args observed r = Inr r" and "phase_of r = next_phase d"
  using assms
  by (auto simp: decide_auto_transition_def transition_auto_owned_def apply_auto_transition_def auto_effect_def
      assert_auto_transition_phase_def and_then_def inert_def)

lemma transition_effect:
  assumes "decide_auto_recovery (auto_recovery_snapshot ld env event args r) event = Inr d"
    and "\<exists>r'. auto_effect ld env d event (aa_cause args) observed r = Inr r' \<and> phase_of r' = next_phase d"
  shows "\<exists>d r'. decide_auto_transition ld env event args r = Inr d \<and>
    transition_auto_owned ld env event args observed r = Inr r' \<and> phase_of r' = next_phase d"
  using assms
  by (auto simp: decide_auto_transition_def transition_auto_owned_def apply_auto_transition_def
      assert_auto_transition_phase_def and_then_def)

lemma fence_effect:
  fixes ld env event args r
  defines "s \<equiv> auto_recovery_snapshot ld env event args r"
  assumes rule: "rule = RULE_ROWS (phase_of r) ! event_index event" "rule \<in> ARMS"
    and d: "d = failure_decision s rule" "\<not> inert s d" and mode: "mode_hold s = None"
  shows "\<exists>r'. auto_effect ld env d event (aa_cause args) observed r = Inr r' \<and> phase_of r' = next_phase d"
proof -
  have phase: "phase_of r \<in> {PHASE_NONE, PHASE_CONSUMED, PHASE_SUCCEEDED}" using rule_rows_phase(1) [OF rule(1)] rule(2) by blast
  have trial: "case sr_recovery r of None \<Rightarrow> True
    | Some tr \<Rightarrow> tr_state tr \<in> {PHASE_CONSUMED, PHASE_SUCCEEDED} \<or> (tr_automatic tr = None \<and> tr_state tr \<noteq> PHASE_EXHAUSTED)"
    using phase mode
    by (auto simp: phase_of_def s_def mode_hold_def snapshot_mode split: option.splits if_splits)
  note acts = failure_acts [OF d(2) [unfolded d(1)], folded d(1)]
  have cause: "\<exists>c. auto_transition_cause ld event (aa_cause args) r = Some c"
  proof (cases "sn_cause s = None")
    case True
    then have other: "rule = RULE_CONSUMED_STARTUP" "sn_run s = RUN_OTHER" using acts(3) by auto
    then have "phase_of r = PHASE_CONSUMED" "event = EVENT_STARTUP_RECONCILE"
      using rule(1) by (cases "phase_of r"; cases event; simp)+
    moreover have "automatic_of r \<noteq> None"
      using mode \<open>phase_of r = PHASE_CONSUMED\<close>
      by (auto simp: s_def mode_hold_def snapshot_mode automatic_of_def split: option.splits if_splits)
    ultimately show ?thesis using snapshot_run [of ld env event args r "aa_cause args"] other(2)
      by (auto simp: s_def)
  qed (simp add: s_def)
  then obtain c where c: "auto_transition_cause ld event (aa_cause args) r = Some c" by blast
  then have "auto_effect ld env d event (aa_cause args) observed r = schedule_auto_resume ld env c observed r"
    by (simp add: auto_effect_def acts(1) apply_auto_fence_def)
  with schedule_fences [OF trial, of ld env c observed] c show ?thesis
    by (auto simp: acts(2) s_def)
qed

lemma strengthen_effect:
  fixes ld env event args r
  defines "s \<equiv> auto_recovery_snapshot ld env event args r"
  assumes valid: "valid_safety_recovery (sr_recovery r)" and phase: "phase_of r \<in> {PHASE_FENCING, PHASE_WAITING}"
    and d: "d = strengthen_decision s" "\<not> inert s d" and mode: "sn_mode s = MODE_AUTO"
  shows "\<exists>r'. auto_effect ld env d event (aa_cause args) observed r = Inr r' \<and> phase_of r' = next_phase d"
proof -
  note acts = strengthen_acts [OF d(2) [unfolded d(1)], folded d(1)]
  obtain tr au where tr: "sr_recovery r = Some tr" "tr_automatic tr = Some au" "automatic_of r = Some au"
    using mode unfolding s_def by (rule mode_auto_trial)
  have "valid_automatic_state au (tr_state tr)" using valid tr by (simp add: valid_safety_recovery_def)
  then have "tr_state tr = PHASE_WAITING \<Longrightarrow> au_scheduled_due au \<noteq> None" "0 \<le> au_failure_stages au CAUSE_FLOOD_WAIT"
    by (auto simp: valid_automatic_state_def valid_automatic_recovery_def valid_automatic_counts_def CAUSES_def)
  moreover have "tr_state tr \<in> {PHASE_FENCING, PHASE_WAITING}" using phase tr by (simp add: phase_of_def)
  ultimately obtain r' where "schedule_auto_resume ld env CAUSE_FLOOD_WAIT observed r = Inr r'"
      "phase_of r' = (if flood_attempts au < MAX_FLOOD_ATTEMPTS then tr_state tr else PHASE_EXHAUSTED)"
    using schedule_strengthens [OF tr(1,2), of ld env observed] by blast
  then show ?thesis using acts tr
    by (auto simp: auto_effect_def apply_auto_fence_def s_def phase_of_def)
qed

lemma quiesce_effect:
  fixes ld env event args r
  defines "s \<equiv> auto_recovery_snapshot ld env event args r"
  assumes valid: "valid_safety_recovery (sr_recovery r)" and phase: "phase_of r = PHASE_FENCING"
    and event: "event = EVENT_QUIESCED"
    and d: "d = quiesce_decision s" "\<not> inert s d" and mode: "sn_mode s = MODE_AUTO"
  shows "\<exists>r'. auto_effect ld env d event (aa_cause args) observed r = Inr r' \<and> phase_of r' = next_phase d"
proof -
  note acts = quiesce_acts [OF d(2) [unfolded d(1)], folded d(1)]
  obtain tr au where tr: "sr_recovery r = Some tr" "tr_automatic tr = Some au" "automatic_of r = Some au"
    using mode unfolding s_def by (rule mode_auto_trial)
  have "valid_automatic_state au (tr_state tr)" using valid tr by (simp add: valid_safety_recovery_def)
  then have "0 \<le> au_failure_stages au (au_cause au)"
    by (cases "au_cause au")
       (auto simp: valid_automatic_state_def valid_automatic_recovery_def valid_automatic_counts_def CAUSES_def)
  moreover have "tr_state tr = PHASE_FENCING" using phase tr by (simp add: phase_of_def)
  moreover have "auto_resume_scope_safe ld env True r" "ld_claimed ld = {}"
    using acts(3,4) event by (auto simp: s_def auto_transition_safe_def auto_owner_pending_def)
  ultimately show ?thesis using settle_fencing_ok [OF tr(1,2), of ld env] acts(1,2)
    by (simp add: auto_effect_def)
qed

text \<open>
  C10. The ledger carries out what the policy decides. For a valid record, every recovery event and
  every choice of arguments, the policy returns a decision, the command of the decision applies to
  the record without an error, and the record lands in exactly the phase the decision names. So
  "automatic recovery transition disagrees with its decision" is never raised.
\<close>

theorem automatic_transitions_agree:
  assumes "validate_safety_record vn r"
  shows "\<exists>d r'. decide_auto_transition ld env event args r = Inr d \<and>
    transition_auto_owned ld env event args observed r = Inr r' \<and> phase_of r' = next_phase d"
proof -
  define s where "s = auto_recovery_snapshot ld env event args r"
  define rule where "rule = RULE_ROWS (phase_of r) ! event_index event"
  note phases = rule_rows_phase [OF rule_def]
  have valid: "valid_safety_recovery (sr_recovery r)" using assms by (simp add: validate_safety_record_def)
  obtain d where d: "decide_rule s rule = Inr d" by (cases rule: decide_rule_cases [where s = s and rule = rule]) auto
  then have decided: "decide_auto_recovery (auto_recovery_snapshot ld env event args r) event = Inr d"
    by (simp add: decide_auto_recovery_def s_def rule_def)
  show ?thesis
  proof (cases "inert s d")
    case True
    then show ?thesis using transition_inert [OF decided] by (auto simp: s_def)
  next
    case acts: False
    note mode = acting_mode [OF d acts]
    have "\<exists>r'. auto_effect ld env d event (aa_cause args) observed r = Inr r' \<and> phase_of r' = next_phase d"
    proof (cases rule: decide_rule_cases [where s = s and rule = rule])
      case failure
      then show ?thesis
        using fence_effect [OF rule_def] acts d mode(1) by (auto simp: s_def)
    next
      case active
      then show ?thesis
        using strengthen_effect [OF valid] phases(2) acts d mode by (auto simp: s_def)
    next
      case quiesce
      then have "event = EVENT_QUIESCED" by (cases "phase_of r"; cases event; simp add: rule_def)
      then show ?thesis
        using quiesce_effect [OF valid] quiesce phases(3) acts d mode by (auto simp: s_def)
    next
      case due
      then obtain tr au where tr: "sr_recovery r = Some tr" "tr_automatic tr = Some au"
        using mode_auto_trial unfolding s_def by blast
      from due d have "d = due_decision s" by simp
      then have "command d = COMMAND_CONSUME" "next_phase d = PHASE_CONSUMED"
        using due_decision_cases [of s] acts by auto
      then show ?thesis using tr by (simp add: auto_effect_def consume_auto_record_def phase_of_def Let_def)
    next
      case success
      then have "sr_recovery r \<noteq> None" using phases(5) by (auto simp: phase_of_def split: option.splits)
      moreover from success d have "command d = COMMAND_MARK_SUCCESS" "next_phase d = PHASE_SUCCEEDED"
        using success_decision_cases [of s] acts by auto
      ultimately show ?thesis by (auto simp: auto_effect_def phase_of_def)
    next
      case stability
      then have "command d = COMMAND_RESET" "next_phase d = PHASE_NONE"
        using stability_decision_cases [of s] acts d by auto
      then show ?thesis by (simp add: auto_effect_def phase_of_def)
    qed (use acts d in auto)
    then show ?thesis by (rule transition_effect [OF decided])
  qed
qed

section \<open>Automatic transitions keep a record valid\<close>

text \<open>Clocks are not negative, and a fresh id is a non-empty string.\<close>

definition sane_env :: "LedgerEnv \<Rightarrow> bool" where
  "sane_env env \<longleftrightarrow> 0 \<le> en_now_mono env \<and> 0 \<le> en_now_utc env \<and> (\<forall>n. en_fresh env n \<noteq> [])"

text \<open>The receipted native requests change the account.\<close>

definition native_requests_mutate :: "Vendor \<Rightarrow> bool" where
  "native_requests_mutate vn \<longleftrightarrow> list_all (\<lambda>m. rpc_effect m \<noteq> EFFECT_NONMUTATING_READ)
     [vn_update_dialog_filter vn, vn_update_contact_note vn, vn_add_contact vn, vn_delete_contacts vn]"

text \<open>\<open>r'\<close> has the intents, the methods, the scope, the floor and the transition of \<open>r\<close>.\<close>

definition only_trial :: "SafetyRecord \<Rightarrow> SafetyRecord \<Rightarrow> bool" where
  "only_trial r r' \<longleftrightarrow> sr_intents r' = sr_intents r \<and> sr_methods r' = sr_methods r \<and> sr_scope r' = sr_scope r \<and>
     sr_floor r' = sr_floor r \<and> sr_transition r' = sr_transition r"

lemma only_trial_valid:
  assumes "validate_safety_record vn r" "only_trial r r'" "valid_safety_recovery (sr_recovery r')" "sr_generation r' \<noteq> []"
  shows "validate_safety_record vn r'"
  using assms by (simp add: validate_safety_record_def only_trial_def)

lemma valid_floor_after: "sane_env env \<Longrightarrow> 0 \<le> delay \<Longrightarrow> valid_safety_floor (floor_after ld env delay)"
  by (simp add: valid_safety_floor_def finite_safety_number_def floor_after_def sane_env_def)

lemma backoff_delay_nonneg:
  assumes "backoff_delay cause stage = Inr delay"
  shows "0 \<le> delay"
  using assms by (cases cause) (auto simp: backoff_delay_def backoff_seconds_def split: if_splits)

lemma valid_automatic_put:
  assumes "valid_automatic_recovery au"
  shows "valid_automatic_recovery (au\<lparr>au_cause := c\<rparr>)"
    and "valid_safety_floor fl \<Longrightarrow> valid_automatic_recovery (au\<lparr>au_scheduled_due := Some fl\<rparr>)"
    and "valid_safety_floor fl \<Longrightarrow> valid_automatic_recovery (au\<lparr>au_quiet_anchor := Some fl\<rparr>)"
  using assms
  by (simp_all add: valid_automatic_recovery_def valid_automatic_counts_def valid_automatic_metadata_def)

lemma valid_new_episode: "sane_env env \<Longrightarrow> valid_automatic_recovery (new_auto_episode env cause)"
  by (simp add: new_auto_episode_def valid_automatic_recovery_def valid_automatic_counts_def
      valid_automatic_metadata_def valid_bound_intents_def CAUSES_def sane_env_def AUTO_RESUME_DELAYS_def)

lemma valid_advanced:
  assumes "valid_automatic_recovery au" "advance_auto_episode ld env r tr au cause = Inr (Inr au')"
  shows "valid_automatic_recovery au'"
proof -
  define stages where "stages = (if tr_state tr = PHASE_CONSUMED \<and> auto_resume_scope_safe ld env True r
    then (au_failure_stages au)(au_cause au := au_failure_stages au (au_cause au) + 1) else au_failure_stages au)"
  have au': "au' = au\<lparr>au_failure_stages := stages, au_cause := cause,
      au_quiet_anchor := None, au_bound_intent_ids := []\<rparr>"
    using assms(2) unfolding advance_auto_episode_def Let_def stages_def
    by (cases "strengthen_auto_flood ld env r tr au") (auto split: if_split_asm)
  have stages: "\<And>c. au_failure_stages au c \<le> stages c" by (simp add: stages_def)
  have "\<And>c. 0 \<le> au_failure_stages au c \<Longrightarrow> 0 \<le> stages c" using stages order_trans by blast
  with assms(1) show ?thesis
    by (simp add: au' valid_automatic_recovery_def valid_automatic_counts_def
        valid_automatic_metadata_def valid_bound_intents_def CAUSES_def)
qed

lemma exhaust_valid:
  assumes "exhaust_auto_if_needed r previous au cause observed = Inr (Some r')"
    and "valid_safety_recovery previous" "valid_automatic_recovery au"
    and "\<And>tr. previous = Some tr \<Longrightarrow> tr_automatic tr = None \<Longrightarrow> au_attempts_by_policy au cause < MAX_FLOOD_ATTEMPTS"
  shows "only_trial r r' \<and> valid_safety_recovery (sr_recovery r') \<and> sr_generation r' = sr_generation r"
proof -
  from assms(1) obtain tr where tr: "previous = Some tr"
      and spent: "cause = CAUSE_FLOOD_WAIT" "\<not> au_attempts_by_policy au cause < MAX_FLOOD_ATTEMPTS"
      and r': "r' = r\<lparr>sr_recovery := Some (tr\<lparr>tr_state := PHASE_EXHAUSTED,
        tr_automatic := (if tr_automatic tr = None then None else Some au)\<rparr>), sr_protection := Some (if observed then ''automatic_resume_exhausted'' else ''automatic_resume_budget_spent'')\<rparr>"
    unfolding exhaust_auto_if_needed_def by (cases previous; cases "cause \<noteq> CAUSE_FLOOD_WAIT \<or> au_attempts_by_policy au cause < MAX_FLOOD_ATTEMPTS") simp_all
  have "tr_automatic tr \<noteq> None" using assms(4) [OF tr] spent(2) by blast
  moreover have "validate_safety_scope (tr_scope tr)" using assms(2) tr by (simp add: valid_safety_recovery_def)
  ultimately show ?thesis
    using assms(3) by (simp add: r' only_trial_def valid_safety_recovery_def valid_automatic_state_def)
qed

lemma fence_valid:
  assumes "fence_record env r previous au cause observed = Inr r'" "sane_env env" "validate_safety_scope (sr_scope r)"
    and "valid_safety_recovery previous" "valid_automatic_recovery au"
    and "\<And>tr. previous = Some tr \<Longrightarrow> tr_automatic tr = None \<Longrightarrow> au_attempts_by_policy au cause < MAX_FLOOD_ATTEMPTS"
  shows "only_trial r r' \<and> valid_safety_recovery (sr_recovery r') \<and> sr_generation r' \<noteq> []"
proof -
  define r1 where "r1 = r\<lparr>sr_generation := en_fresh env 6\<rparr>"
  from assms(1) obtain spent where spent: "exhaust_auto_if_needed r1 previous au cause observed = Inr spent"
      "(case spent of None \<Rightarrow> Inr (r1\<lparr>sr_protection := Some (fence_protection cause),
          sr_recovery := Some \<lparr>tr_generation = en_fresh env 6, tr_state = PHASE_FENCING,
            tr_scope = sr_scope r, tr_consumed_run = None, tr_acknowledged_protection = None,
            tr_automatic = Some au\<rparr>\<rparr>) | Some r'' \<Rightarrow> Inr r'') = (Inr r' :: ledger_error + SafetyRecord)"
    unfolding fence_record_def Let_def r1_def by (auto elim!: and_then_okE)
  show ?thesis
  proof (cases spent)
    case None
    with spent(2) assms(2,3,5) show ?thesis
      by (auto simp: r1_def only_trial_def valid_safety_recovery_def valid_automatic_state_def sane_env_def)
  next
    case (Some r'')
    with spent have "exhaust_auto_if_needed r1 previous au cause observed = Inr (Some r')" by simp
    then have "only_trial r1 r' \<and> valid_safety_recovery (sr_recovery r') \<and> sr_generation r' = sr_generation r1"
      using exhaust_valid assms(4-6) by blast
    then show ?thesis using assms(2) by (simp add: r1_def only_trial_def sane_env_def)
  qed
qed

lemma strengthen_valid:
  assumes "strengthen_auto_flood ld env r tr au = Inr r'" "sane_env env" "valid_safety_recovery (Some tr)"
    and "tr_automatic tr = Some au"
  shows "only_trial r r' \<and> valid_safety_recovery (sr_recovery r') \<and> sr_generation r' = sr_generation r"
proof -
  define au1 where "au1 = au\<lparr>au_cause := CAUSE_FLOOD_WAIT\<rparr>"
  have au: "valid_automatic_recovery au" "tr_state tr = PHASE_WAITING \<Longrightarrow> au_scheduled_due au \<noteq> None"
    using assms(3,4) by (auto simp: valid_safety_recovery_def valid_automatic_state_def)
  then have au1: "valid_automatic_recovery au1" by (simp add: au1_def valid_automatic_put)
  have put: "only_trial r (put_automatic r tr a) \<and> valid_safety_recovery (sr_recovery (put_automatic r tr a)) \<and>
      sr_generation (put_automatic r tr a) = sr_generation r"
    if "valid_automatic_recovery a" "tr_state tr = PHASE_WAITING \<Longrightarrow> au_scheduled_due a \<noteq> None" for a
    using that assms(3,4)
    by (auto simp: put_automatic_def only_trial_def valid_safety_recovery_def valid_automatic_state_def)
  from assms(1) obtain spent where spent: "exhaust_auto_if_needed r (Some tr) au1 CAUSE_FLOOD_WAIT True = Inr spent"
      and rest: "(case spent of Some r'' \<Rightarrow> Inr r'' | None \<Rightarrow>
          (if tr_state tr \<noteq> PHASE_WAITING then Inr (put_automatic r tr au1)
           else case au_scheduled_due au1 of
             None \<Rightarrow> Inl Lookup_Error
           | Some due \<Rightarrow>
               and_then (backoff_delay CAUSE_FLOOD_WAIT (au_failure_stages au1 CAUSE_FLOOD_WAIT)) (\<lambda>delay.
               Inr (put_automatic r tr (au1\<lparr>au_scheduled_due := Some (floor_after ld env
                 (max delay (floor_release_at ld env due - en_now_mono env)))\<rparr>))))) = Inr r'"
    unfolding strengthen_auto_flood_def Let_def au1_def by (auto elim!: and_then_okE)
  show ?thesis
  proof (cases spent)
    case None
    show ?thesis
    proof (cases "tr_state tr = PHASE_WAITING")
      case False
      with rest None have "r' = put_automatic r tr au1" by simp
      then show ?thesis using put [OF au1] False by simp
    next
      case True
      with rest None obtain due delay where "backoff_delay CAUSE_FLOOD_WAIT (au_failure_stages au1 CAUSE_FLOOD_WAIT) = Inr delay"
          and r': "r' = put_automatic r tr (au1\<lparr>au_scheduled_due := Some (floor_after ld env
                 (max delay (floor_release_at ld env due - en_now_mono env)))\<rparr>)"
        by (auto split: option.splits elim!: and_then_okE)
      then have "valid_safety_floor (floor_after ld env (max delay (floor_release_at ld env due - en_now_mono env)))"
        using backoff_delay_nonneg by (intro valid_floor_after [OF assms(2)]) (simp add: le_max_iff_disj)
      then show ?thesis unfolding r' by (intro put) (simp_all add: valid_automatic_put au1)
    qed
  next
    case (Some r'')
    with spent rest have "exhaust_auto_if_needed r (Some tr) au1 CAUSE_FLOOD_WAIT True = Inr (Some r')" by simp
    then show ?thesis using exhaust_valid [OF _ assms(3) au1] assms(4) by simp
  qed
qed

lemma schedule_valid:
  assumes "schedule_auto_resume ld env cause observed r = Inr r'" "sane_env env"
    and valid: "validate_safety_record vn r"
  shows "validate_safety_record vn r'"
proof -
  have scope: "validate_safety_scope (sr_scope r)" and recovery: "valid_safety_recovery (sr_recovery r)"
    and generation: "sr_generation r \<noteq> []"
    using valid by (simp_all add: validate_safety_record_def)
  have fenced: "validate_safety_record vn r'"
    if "fence_record env r previous au cause observed = Inr r'" "valid_safety_recovery previous"
      "valid_automatic_recovery au"
      "\<And>tr. previous = Some tr \<Longrightarrow> tr_automatic tr = None \<Longrightarrow> au_attempts_by_policy au cause < MAX_FLOOD_ATTEMPTS"
    for previous au
    using fence_valid [OF that(1) assms(2) scope that(2,3)] that(4) only_trial_valid [OF valid] by blast
  have new: "au_attempts_by_policy (new_auto_episode env cause) cause < MAX_FLOOD_ATTEMPTS"
    using MAX_FLOOD_ATTEMPTS_pos by (simp add: new_auto_episode_def)
  show ?thesis
  proof (cases "sr_recovery r")
    case None
    with assms(1) have "fence_record env r None (new_auto_episode env cause) cause observed = Inr r'"
      by (simp add: schedule_auto_resume_def)
    then show ?thesis by (rule fenced) (simp_all add: valid_safety_recovery_def valid_new_episode assms(2))
  next
    case tr: (Some tr)
    then have trial: "valid_safety_recovery (Some tr)" using recovery by simp
    show ?thesis
    proof (cases "tr_state tr = PHASE_EXHAUSTED")
      case True
      with assms(1) tr valid show ?thesis by (simp add: schedule_auto_resume_def)
    next
      case live: False
      show ?thesis
      proof (cases "tr_automatic tr")
        case None
        with assms(1) tr live have "fence_record env r (Some tr) (new_auto_episode env cause) cause observed = Inr r'"
          by (simp add: schedule_auto_resume_def)
        then show ?thesis by (rule fenced) (use trial valid_new_episode [OF assms(2)] new in auto)
      next
        case au: (Some au)
        then have episode: "valid_automatic_recovery au"
          using trial by (simp add: valid_safety_recovery_def valid_automatic_state_def)
        from assms(1) tr live au obtain advanced where advanced: "advance_auto_episode ld env r tr au cause = Inr advanced"
            "(case advanced of Inl r'' \<Rightarrow> Inr r''
              | Inr au' \<Rightarrow> fence_record env r (Some tr) au' cause observed) = Inr r'"
          by (auto simp: schedule_auto_resume_def elim!: and_then_okE)
        show ?thesis
        proof (cases advanced)
          case (Inr au')
          with advanced have "fence_record env r (Some tr) au' cause observed = Inr r'" by simp
          then show ?thesis
            by (rule fenced) (use trial au advanced(1) Inr valid_advanced [OF episode] in auto)
        next
          case (Inl r'')
          with advanced have "advance_auto_episode ld env r tr au cause = Inr (Inl r')" by simp
          then have "r' = r \<or> strengthen_auto_flood ld env r tr au = Inr r'"
            unfolding advance_auto_episode_def Let_def
            by (cases "strengthen_auto_flood ld env r tr au") (auto split: if_split_asm)
          then show ?thesis
            using valid strengthen_valid [OF _ assms(2) trial au] only_trial_valid [OF valid] generation by metis
        qed
      qed
    qed
  qed
qed

lemma settle_valid:
  assumes "settle_auto_fencing ld env r = Inr r'" "sane_env env" and valid: "validate_safety_record vn r"
  shows "validate_safety_record vn r'"
proof (cases "r' = r")
  case False
  then obtain tr where tr: "sr_recovery r = Some tr" "tr_state tr = PHASE_FENCING"
    using assms(1) unfolding settle_auto_fencing_def by (auto split: option.splits if_split_asm)
  obtain au where au: "tr_automatic tr = Some au"
    using assms(1) tr False unfolding settle_auto_fencing_def by (auto split: option.splits if_split_asm)
  define later where "later delay = (case au_scheduled_due au of None \<Rightarrow> delay
    | Some prior \<Rightarrow> max delay (floor_release_at ld env prior - en_now_mono env))" for delay
  have later: "delay \<le> later delay" for delay by (simp add: later_def split: option.split)
  obtain delay where delay: "backoff_delay (au_cause au) (au_failure_stages au (au_cause au)) = Inr delay"
      and r': "r' = r\<lparr>sr_recovery := Some (tr\<lparr>tr_state := PHASE_WAITING,
                  tr_automatic := Some (au\<lparr>au_quiet_anchor := Some (floor_after ld env 0),
                    au_scheduled_due := Some (floor_after ld env (later delay))\<rparr>)\<rparr>)\<rparr>"
    using assms(1) tr au False unfolding settle_auto_fencing_def Let_def later_def
    by (auto split: if_split_asm elim!: and_then_okE)
  define x where "x = later delay"
  have le: "delay \<le> x" using later by (simp add: x_def)
  have "0 \<le> x" using backoff_delay_nonneg [OF delay] le by simp
  then have "valid_automatic_recovery (au\<lparr>au_quiet_anchor := Some (floor_after ld env 0),
                    au_scheduled_due := Some (floor_after ld env x)\<rparr>)"
    using valid tr au assms(2)
    by (intro valid_automatic_put(2) valid_automatic_put(3) valid_floor_after)
       (simp_all add: validate_safety_record_def valid_safety_recovery_def valid_automatic_state_def)
  then show ?thesis using valid tr
    by (simp add: r' x_def validate_safety_record_def valid_safety_recovery_def valid_automatic_state_def)
qed (use valid in simp)

lemma aux_methods_mutate: "aux_method purpose = Some m \<Longrightarrow> rpc_effect m \<noteq> EFFECT_NONMUTATING_READ"
proof -
  have "rpc_effect ''telethon.tl.functions.auth.ExportAuthorizationRequest:e5bfffcd'' \<noteq> EFFECT_NONMUTATING_READ"
    "rpc_effect ''telethon.tl.functions.auth.ImportAuthorizationRequest:a57a7dad'' \<noteq> EFFECT_NONMUTATING_READ"
    by code_simp+
  then show "aux_method purpose = Some m \<Longrightarrow> rpc_effect m \<noteq> EFFECT_NONMUTATING_READ"
    by (auto simp: aux_method_def split: if_split_asm)
qed

text \<open>A read that blocks its own verified scope has no other disposition, so the policy may own it.\<close>

lemma bound_read_valid:
  assumes valid: "valid_safety_intent vn k it" and native: "native_requests_mutate vn"
    and blocks: "intent_blocks it (sr_scope r)" "sc_stage (sr_scope r) = STAGE_VERIFIED"
    and read: "it_scope it = binding_of (sr_scope r)" "rpc_effect (it_method it) = EFFECT_NONMUTATING_READ"
    and ids: "au_episode_id au \<noteq> []" "tr_generation tr \<noteq> []"
  shows "valid_safety_intent vn k (bind_policy_recovery r tr au it)"
proof -
  have "it_read_retry it = None"
    using blocks read by (auto simp: intent_blocks_def is_scoped_read_retry_def split: if_split_asm)
  moreover have "it_aux_bootstrap it = None"
    using valid read aux_methods_mutate
    by (auto simp: valid_safety_intent_def valid_safety_intent_payload_def valid_aux_bootstrap_def
        valid_aux_provenance_def split: option.splits)
  moreover have "it_native_owner it = None"
    using valid read native
    by (auto simp: valid_safety_intent_def valid_safety_intent_payload_def valid_native_receipt_owner_def
        native_receipt_method_matches_def native_expected_def native_requests_mutate_def Let_def
        split: option.splits NativeWriteDomain.splits)
  ultimately show ?thesis
    using valid read ids blocks
    by (auto simp: bind_policy_recovery_def valid_safety_intent_def valid_safety_intent_payload_def one_disposition_def
        valid_policy_recovery_def valid_aux_bootstrap_def valid_native_receipt_owner_def valid_intent_disposition_def
        valid_read_retry_def)
qed

lemma consume_valid:
  assumes "consume_auto_record ld env r = Inr r'" "sane_env env" and valid: "validate_safety_record vn r"
    and native: "native_requests_mutate vn" and keys: "distinct (map fst (sr_intents r))"
    and stage: "sc_stage (sr_scope r) = STAGE_VERIFIED" and settled: "auto_resume_outcomes_settled r"
    and trial: "sr_recovery r = Some tr" "tr_generation tr \<noteq> []"
    and budget: "\<And>au. tr_automatic tr = Some au \<Longrightarrow> au_cause au = CAUSE_FLOOD_WAIT \<Longrightarrow> flood_attempts au < MAX_FLOOD_ATTEMPTS"
  shows "validate_safety_record vn r'"
proof -
  obtain au where au: "tr_automatic tr = Some au"
    using assms(1) trial by (auto simp: consume_auto_record_def split: option.splits)
  define au' where "au' = au\<lparr>au_attempts_by_policy := (au_attempts_by_policy au)(au_cause au := au_attempts_by_policy au (au_cause au) + 1),
    au_attempts_total := au_attempts_total au + 1,
    au_bound_intent_ids := map fst (filter (\<lambda>(k, it). intent_blocks it (sr_scope r)) (sr_intents r))\<rparr>"
  have r': "r' = r\<lparr>sr_intents := map (\<lambda>(k, it). (k, bind_policy_recovery r tr au it)) (sr_intents r),
               sr_methods := release_claims (sr_methods r),
               sr_recovery := Some (tr\<lparr>tr_automatic := Some au', tr_state := PHASE_CONSUMED,
                 tr_consumed_run := Some (ld_run ld)\<rparr>),
               sr_generation := en_fresh env 7, sr_protection := None\<rparr>"
    using assms(1) trial au by (simp add: consume_auto_record_def au'_def Let_def)
  have intents: "list_all (\<lambda>(k, it). valid_safety_intent vn k it) (sr_intents r)"
    and episode: "valid_automatic_recovery au" and scope: "validate_safety_scope (tr_scope tr)"
    and methods: "valid_method_episodes vn (sr_methods r)"
    using valid trial au by (auto simp: validate_safety_record_def valid_safety_recovery_def valid_automatic_state_def)
  have "list_all (\<lambda>i. i \<noteq> []) (map fst (filter (\<lambda>(k, it). intent_blocks it (sr_scope r)) (sr_intents r)))"
    using intents by (auto simp: list_all_iff valid_safety_intent_def)
  moreover have "distinct (map fst (filter (\<lambda>(k, it). intent_blocks it (sr_scope r)) (sr_intents r)))"
    using keys by (rule distinct_map_filter)
  ultimately have "valid_automatic_recovery au'"
    using episode budget [OF au]
    by (cases "au_cause au") (auto simp: au'_def valid_automatic_recovery_def valid_automatic_counts_def CAUSES_def
        valid_automatic_metadata_def valid_bound_intents_def flood_attempts_def MAX_FLOOD_ATTEMPTS_def)
  moreover have "valid_safety_intent vn k (bind_policy_recovery r tr au it)" if "(k, it) \<in> set (sr_intents r)" for k it
  proof (cases "intent_blocks it (sr_scope r)")
    case True
    then have "it_scope it = binding_of (sr_scope r)" "rpc_effect (it_method it) = EFFECT_NONMUTATING_READ"
      using settled that by (auto simp: auto_resume_outcomes_settled_def list_all_iff)
    moreover have "valid_safety_intent vn k it" "au_episode_id au \<noteq> []"
      using intents that episode
      by (auto simp: list_all_iff valid_automatic_recovery_def valid_automatic_metadata_def)
    ultimately show ?thesis using bound_read_valid native True stage trial(2) by blast
  qed (use intents that in \<open>auto simp: bind_policy_recovery_def list_all_iff\<close>)
  moreover have "valid_method_episodes vn (release_claims (sr_methods r))"
    using methods
    by (auto simp: valid_method_episodes_def release_claims_def list_all_iff valid_method_episode_def
        valid_method_state_def valid_method_claim_def split: method_state.splits)
  ultimately show ?thesis
    using valid scope assms(2)
    by (auto simp: r' validate_safety_record_def valid_safety_recovery_def valid_automatic_state_def list_all_iff
        sane_env_def)
qed

lemma verified_stage:
  "verified_account_id ld \<noteq> None \<Longrightarrow> ld_record ld = Some r \<Longrightarrow> sc_stage (sr_scope r) = STAGE_VERIFIED"
  by (simp add: verified_account_id_def split: if_split_asm)

lemma auto_effect_shape:
  assumes "auto_effect ld env d event cause observed r = Inr r'" "command d \<noteq> COMMAND_CONSUME"
  shows "r' = r \<or> apply_auto_fence ld env event cause observed r = Inr r' \<or> settle_auto_fencing ld env r = Inr r' \<or>
    (\<exists>tr. sr_recovery r = Some tr \<and>
      r' = r\<lparr>sr_recovery := Some (tr\<lparr>tr_state := PHASE_SUCCEEDED\<rparr>), sr_protection := None\<rparr>) \<or>
    r' = r\<lparr>sr_recovery := None\<rparr>"
  using assms by (cases "command d"; cases "sr_recovery r") (auto simp: auto_effect_def)

text \<open>
  C11. An automatic transition of a valid record leaves a valid record: whatever the event and the
  decision, the ledger's validator accepts what the transition made of the trial, the episode's
  counters and floors, the intents bound to the policy and the method episodes. So the commit of an
  automatic transition is never refused as an invalid outbound safety mutation. The clocks are
  not negative, fresh names not empty, the receipted native requests count as mutations, and the
  record has one intent per key and a named generation of its trial.
\<close>

theorem automatic_transition_keeps_valid:
  assumes valid: "validate_safety_record vn r" and own: "ld_record ld = Some r"
    and env: "sane_env env" and native: "native_requests_mutate vn"
    and keys: "distinct (map fst (sr_intents r))"
    and generation: "\<And>tr. sr_recovery r = Some tr \<Longrightarrow> tr_generation tr \<noteq> []"
    and made: "transition_auto_owned ld env event args observed r = Inr r'"
  shows "validate_safety_record vn r'"
proof -
  define s where "s = auto_recovery_snapshot ld env event args r"
  from made obtain d where decided: "decide_auto_transition ld env event args r = Inr d"
      and effect: "auto_effect ld env d event (aa_cause args) observed r = Inr r'"
    unfolding transition_auto_owned_def apply_auto_transition_def
    by (auto elim!: and_then_okE dest!: assert_phase_ok)
  have d: "decide_rule s (RULE_ROWS (sn_phase s) ! event_index event) = Inr d"
    using decided unfolding decide_auto_transition_def decide_auto_recovery_def s_def
    by (auto simp: map_sum_def split: sum.splits)
  have recovery: "valid_safety_recovery (sr_recovery r)" using valid by (simp add: validate_safety_record_def)
  show ?thesis
  proof (cases "command d = COMMAND_CONSUME")
    case True
    note due = only_due_consumes [OF d True]
    then have event: "event = EVENT_DUE" using rule_rows_phase(4) [OF refl] by blast
    have facts: "sn_safe s" "sn_mode s = MODE_AUTO" "sn_cause s = Some CAUSE_FLOOD_WAIT \<longrightarrow> sn_flood_budget_available s"
      using due True due_decision_consume [of s] by (auto simp: may_act_def)
    obtain tr au where tr: "sr_recovery r = Some tr" "tr_automatic tr = Some au" "automatic_of r = Some au"
      using facts(2) unfolding s_def by (rule mode_auto_trial)
    have safe: "auto_resume_scope_safe ld env True r"
      using facts(1) event by (simp add: s_def auto_transition_safe_def)
    then have "sc_stage (sr_scope r) = STAGE_VERIFIED" "auto_resume_outcomes_settled r"
      using own verified_stage [of ld r] unfolding auto_resume_scope_safe_def by (simp_all split: if_split_asm)
    moreover have "flood_attempts a < MAX_FLOOD_ATTEMPTS" if "tr_automatic tr = Some a" "au_cause a = CAUSE_FLOOD_WAIT" for a
      using facts(3) that tr event by (simp add: s_def auto_transition_cause_def)
    moreover have "consume_auto_record ld env r = Inr r'" using effect True by (simp add: auto_effect_def)
    ultimately show ?thesis
      using consume_valid [OF _ env valid native keys] tr(1) generation by blast
  next
    case other: False
    consider "r' = r" | "apply_auto_fence ld env event (aa_cause args) observed r = Inr r'"
      | "settle_auto_fencing ld env r = Inr r'"
      | tr where "sr_recovery r = Some tr" "r' = r\<lparr>sr_recovery := Some (tr\<lparr>tr_state := PHASE_SUCCEEDED\<rparr>), sr_protection := None\<rparr>"
      | "r' = r\<lparr>sr_recovery := None\<rparr>"
      using auto_effect_shape [OF effect other] by blast
    then show ?thesis
    proof cases
      case 2
      then show ?thesis unfolding apply_auto_fence_def Let_def by (rule schedule_valid [OF _ env valid])
    next
      case 3
      then show ?thesis using env valid by (rule settle_valid)
    next
      case (4 tr)
      then show ?thesis using valid
        by (simp add: validate_safety_record_def valid_safety_recovery_def valid_automatic_state_def split: option.splits)
    qed (use valid in \<open>simp_all add: validate_safety_record_def valid_safety_recovery_def\<close>)
  qed
qed

section \<open>Consuming a manual recovery\<close>

text \<open>
  The dispositions that the validator admits only on an intent whose phase is \<open>unknown\<close>.
\<close>

definition phase_bound :: "Intent \<Rightarrow> bool" where
  "phase_bound it \<longleftrightarrow> it_read_retry it \<noteq> None \<or> it_policy_recovery it \<noteq> None \<or>
     (case it_aux_bootstrap it of None \<Rightarrow> False | Some ax \<Rightarrow> ax_contained ax) \<or>
     (case it_native_owner it of None \<Rightarrow> False | Some owner \<Rightarrow> no_contained owner)"

lemma acknowledged_valid_iff:
  assumes "valid_safety_intent vn k it"
  shows "valid_safety_intent vn k (it\<lparr>it_phase := INTENT_ACKNOWLEDGED_UNKNOWN\<rparr>) \<longleftrightarrow> \<not> phase_bound it"
proof -
  have aux: "valid_aux_bootstrap (it\<lparr>it_phase := INTENT_ACKNOWLEDGED_UNKNOWN\<rparr>) \<longleftrightarrow>
      (case it_aux_bootstrap it of None \<Rightarrow> True | Some ax \<Rightarrow> \<not> ax_contained ax)"
    using assms
    by (auto simp: valid_safety_intent_def valid_safety_intent_payload_def valid_aux_bootstrap_def
        valid_aux_provenance_def valid_aux_fields_def split: option.splits)
  have native: "valid_native_receipt_owner vn (it\<lparr>it_phase := INTENT_ACKNOWLEDGED_UNKNOWN\<rparr>) \<longleftrightarrow>
      (case it_native_owner it of None \<Rightarrow> True | Some owner \<Rightarrow> \<not> no_contained owner)"
    using assms
    by (auto simp: valid_safety_intent_def valid_safety_intent_payload_def valid_native_receipt_owner_def Let_def
        split: option.splits)
  show ?thesis
    using assms aux native
    by (auto simp: valid_safety_intent_def valid_safety_intent_payload_def one_disposition_def phase_bound_def
        valid_intent_disposition_def valid_read_retry_def split: option.splits)
qed

lemma acknowledge_valid_iff:
  assumes "list_all (\<lambda>(k, it). valid_safety_intent vn k it) (sr_intents r)"
  shows "list_all (\<lambda>(k, it). valid_safety_intent vn k it) (map (\<lambda>(k, it). (k, acknowledge_blocking r it)) (sr_intents r)) \<longleftrightarrow>
    list_all (\<lambda>(k, it). \<not> (intent_blocks it (sr_scope r) \<and> phase_bound it)) (sr_intents r)"
proof -
  have "valid_safety_intent vn k (acknowledge_blocking r it) \<longleftrightarrow> \<not> (intent_blocks it (sr_scope r) \<and> phase_bound it)"
    if "(k, it) \<in> set (sr_intents r)" for k it
    using assms that acknowledged_valid_iff [of vn k it]
    by (auto simp: acknowledge_blocking_def list_all_iff)
  then show ?thesis by (auto simp: list_all_iff)
qed

lemma consumed_record_valid:
  assumes valid: "validate_safety_record vn r" and fresh: "en_fresh env 0 \<noteq> []"
    and trial: "sr_recovery r = Some tr" "tr_automatic tr = None"
    and made: "r' = r\<lparr>sr_recovery := Some (tr\<lparr>tr_state := PHASE_CONSUMED, tr_consumed_run := run\<rparr>),
      sr_generation := en_fresh env 0, sr_intents := intents,
      sr_methods := release_claims (sr_methods r), sr_protection := None\<rparr>"
  shows "validate_safety_record vn r' \<longleftrightarrow> list_all (\<lambda>(k, it). valid_safety_intent vn k it) intents"
proof -
  have "valid_method_episodes vn (release_claims (sr_methods r))"
    using valid
    by (auto simp: validate_safety_record_def valid_method_episodes_def release_claims_def list_all_iff
        valid_method_episode_def valid_method_state_def valid_method_claim_def split: method_state.splits)
  then show ?thesis
    using valid trial fresh by (simp add: made validate_safety_record_def valid_safety_recovery_def)
qed

text \<open>
  C13. When the operator's recovery is consumed. For a valid record whose authorization is current,
  with the restriction elapsed and the scope verified, the trial is consumed exactly when no
  intent that blocks the current scope carries a disposition that is bound to the phase
  \<open>unknown\<close>: a read retry, a policy recovery, a contained auxiliary or native attempt. If there
  is such an intent, the consumption sets its phase to \<open>acknowledged_unknown\<close>, the validator
  refuses the record, and the ledger is left as it was; so after a migration to another data
  centre a contained read keeps the account read-only, whatever the operator authorizes.
\<close>

theorem consume_recovery_iff:
  assumes own: "ld_record ld = Some r" and trial: "sr_recovery r = Some tr" "tr_automatic tr = None"
      "tr_state tr = PHASE_AUTHORIZED" "tr_scope tr = sr_scope r" "tr_generation tr = sr_generation r"
    and free: "\<not> recovery_restricted ld env" and valid: "validate_safety_record (en_vendor env) r"
    and env: "en_save env = SAVE_ACCEPTED" "en_fresh env 0 \<noteq> []"
  shows "if list_ex (\<lambda>(k, it). intent_blocks it (sr_scope r) \<and> phase_bound it) (sr_intents r)
    then consume_recovery env ld = (Inl (Value_Error ''invalid outbound safety mutation''), ld)
    else fst (consume_recovery env ld) = Inr True \<and> ld_startup_hold (snd (consume_recovery env ld)) = None \<and>
      protection_reason (snd (consume_recovery env ld)) = None"
proof -
  define r' where "r' = r\<lparr>sr_recovery := Some (tr\<lparr>tr_state := PHASE_CONSUMED, tr_consumed_run := Some (ld_run ld)\<rparr>),
      sr_generation := en_fresh env 0, sr_intents := map (\<lambda>(k, it). (k, acknowledge_blocking r it)) (sr_intents r),
      sr_methods := release_claims (sr_methods r), sr_protection := None\<rparr>"
  have storage: "\<not> ld_storage_failed ld" using free by (simp add: recovery_restricted_def)
  have change: "consume_change ld env r = Inr r'"
    using trial free by (simp add: consume_change_def r'_def)
  have authorized: "manual_authorized r" using trial by (simp add: manual_authorized_def)
  have ok: "validate_safety_record (en_vendor env) r' \<longleftrightarrow>
      \<not> list_ex (\<lambda>(k, it). intent_blocks it (sr_scope r) \<and> phase_bound it) (sr_intents r)"
    using consumed_record_valid [OF valid env(2) trial(1,2) r'_def] acknowledge_valid_iff valid
    by (auto simp: validate_safety_record_def list_all_iff list_ex_iff)
  show ?thesis
    using own authorized free change ok storage env
    by (simp add: consume_recovery_def checked_def on_success_def commit_def protection_reason_def
        r'_def split: if_split)
qed

text \<open>
  The run behind the case of \<open>consume_recovery_iff\<close> that refuses: a read is contained at a clean
  shutdown, the account moves from data centre 2 to 4, the daemon restarts, and the operator
  authorizes the recovery.
\<close>

definition migrated_read :: string where
  "migrated_read = ''telethon.tl.functions.messages.GetDialogsRequest:a0f4cb4f''"

definition migration_events :: "ledger_event list" where
  "migration_events =
    [Prepare (safety_env 10 SAVE_ACCEPTED) ''a'' migrated_read safety_sample_preparation,
     Mark_Claimed ''a'' False,
     Complete (safety_env 15 SAVE_ACCEPTED) ''a'' (safety_sample_completion\<lparr>co_shutdown_read_candidate := True\<rparr>),
     Contain_Shutdown_Reads (safety_env 20 SAVE_ACCEPTED) [''a''] True,
     Restart (safety_env 25 SAVE_ACCEPTED) ''boot'' ''run2'' 2 (Some 7) (Inr None),
     Verify_Account (safety_env 26 SAVE_ACCEPTED) 42,
     Begin_Dc_Transition (safety_env 30 SAVE_ACCEPTED) 4 1,
     Bind_Key (safety_env 31 SAVE_ACCEPTED) 4 9 False,
     Finish_Dc_Transition (safety_env 32 SAVE_ACCEPTED) 42,
     Restart (safety_env 40 SAVE_ACCEPTED) ''boot'' ''run3'' 4 (Some 9) (Inr None),
     Verify_Account (safety_env 41 SAVE_ACCEPTED) 42,
     Authorize_Recovery (safety_env 50 SAVE_ACCEPTED) ''f'' True]"

definition migrated_ledger :: Ledger where
  "migrated_ledger = run_ops ledger_step migration_events
     (load (safety_env 0 SAVE_ACCEPTED) ''boot'' ''run'' 2 (Some 7) (Inr None) (Inr (Some safety_sample_record)))"

definition recovery_consumable :: "Ledger \<Rightarrow> LedgerEnv \<Rightarrow> bool" where
  "recovery_consumable ld env \<longleftrightarrow> \<not> recovery_restricted ld env \<and> (case ld_record ld of None \<Rightarrow> False
   | Some r \<Rightarrow> validate_safety_record (en_vendor env) r \<and> (case sr_recovery r of None \<Rightarrow> False
     | Some tr \<Rightarrow> tr_automatic tr = None \<and> tr_state tr = PHASE_AUTHORIZED \<and> tr_scope tr = sr_scope r \<and>
         tr_generation tr = sr_generation r \<and>
         list_ex (\<lambda>(k, it). intent_blocks it (sr_scope r) \<and> phase_bound it) (sr_intents r)))"

theorem consume_recovery_iff_witness:
  "consume_recovery (safety_env 60 SAVE_ACCEPTED) migrated_ledger =
     (Inl (Value_Error ''invalid outbound safety mutation''), migrated_ledger)"
proof -
  let ?env = "safety_env 60 SAVE_ACCEPTED"
  have "recovery_consumable migrated_ledger ?env" by code_simp
  then obtain r tr where "ld_record migrated_ledger = Some r" "sr_recovery r = Some tr" "tr_automatic tr = None"
      "tr_state tr = PHASE_AUTHORIZED" "tr_scope tr = sr_scope r" "tr_generation tr = sr_generation r"
      "\<not> recovery_restricted migrated_ledger ?env" "validate_safety_record (en_vendor ?env) r"
      and blocks: "list_ex (\<lambda>(k, it). intent_blocks it (sr_scope r) \<and> phase_bound it) (sr_intents r)"
    by (auto simp: recovery_consumable_def split: option.splits)
  moreover have "en_save ?env = SAVE_ACCEPTED" "en_fresh ?env 0 \<noteq> []" by (simp_all add: safety_env_def)
  ultimately show ?thesis using consume_recovery_iff [of migrated_ledger r tr ?env] by simp
qed

text \<open>An account that waits for its automatic trial, with one read whose outcome is unknown.\<close>

definition waiting_record :: SafetyRecord where
  "waiting_record = safety_sample_record\<lparr>
     sr_intents := [(''a'', safety_sample_intent\<lparr>it_method := migrated_read, it_phase := INTENT_UNKNOWN\<rparr>)],
     sr_recovery := Some \<lparr>tr_generation = ''t'', tr_state = PHASE_WAITING, tr_scope = safety_scope,
       tr_consumed_run = None, tr_acknowledged_protection = None,
       tr_automatic = Some ((new_auto_episode (safety_env 0 SAVE_ACCEPTED) CAUSE_FLOOD_WAIT)\<lparr>
         au_scheduled_due := Some safety_sample_floor\<rparr>)\<rparr>\<rparr>"

definition waiting_ledger :: Ledger where
  "waiting_ledger = (fresh_ledger ''boot'' ''run2'')\<lparr>ld_stored := Inr (Some waiting_record),
     ld_record := Some waiting_record, ld_read_scope_valid := True, ld_auto_resume_enabled := True\<rparr>"

lemma waiting_record_valid: "validate_safety_record safety_sample_vendor waiting_record"
  by code_simp

theorem automatic_transition_keeps_valid_witness:
  "case transition_auto_owned waiting_ledger (safety_env 20 SAVE_ACCEPTED) EVENT_DUE auto_args False waiting_record of
     Inl e \<Rightarrow> False | Inr r' \<Rightarrow> phase_of r' = PHASE_CONSUMED \<and> validate_safety_record safety_sample_vendor r'"
proof -
  let ?made = "transition_auto_owned waiting_ledger (safety_env 20 SAVE_ACCEPTED) EVENT_DUE auto_args False waiting_record"
  have "case ?made of Inl e \<Rightarrow> False | Inr r' \<Rightarrow> phase_of r' = PHASE_CONSUMED" by code_simp
  then obtain r' where r': "?made = Inr r'" "phase_of r' = PHASE_CONSUMED" by (auto split: sum.splits)
  have "validate_safety_record safety_sample_vendor r'"
  proof (rule automatic_transition_keeps_valid [OF waiting_record_valid _ _ _ _ _ r'(1)])
    show "native_requests_mutate safety_sample_vendor" by code_simp
  qed (simp_all add: waiting_ledger_def waiting_record_def sane_env_def safety_env_def)
  with r' show ?thesis by simp
qed

theorem automatic_transitions_agree_witness:
  "\<exists>d r'. decide_auto_transition waiting_ledger (safety_env 20 SAVE_ACCEPTED) EVENT_FAILURE_SETTLED
       (auto_args\<lparr>aa_cause := Some CAUSE_FLOOD_WAIT\<rparr>) waiting_record = Inr d \<and>
     transition_auto_owned waiting_ledger (safety_env 20 SAVE_ACCEPTED) EVENT_FAILURE_SETTLED
       (auto_args\<lparr>aa_cause := Some CAUSE_FLOOD_WAIT\<rparr>) True waiting_record = Inr r' \<and> phase_of r' = next_phase d"
  by (rule automatic_transitions_agree [OF waiting_record_valid])

end
