(* ===== verification/Py_Json.thy ===== *)
theory Py_Json
  imports Prelude
begin

text \<open>
  The part of Python's \<^verbatim>\<open>json\<close> module that the daemon's cursors use: \<^verbatim>\<open>dumps\<close> with
  \<^verbatim>\<open>separators=(",", ":")\<close> and \<^verbatim>\<open>loads\<close>. A Python \<^verbatim>\<open>str\<close> is a list of code points; encoded
  text and bytes are HOL strings, whose characters are bytes. \<open>loads\<close> is the scanner of the
  module on ASCII text, with its leniencies (duplicate keys, \<^verbatim>\<open>NaN\<close>, lone surrogates); a
  nesting deep enough for a \<^verbatim>\<open>RecursionError\<close> is not modelled.
\<close>

type_synonym py_str = "nat list"

text \<open>The Python string of an ASCII literal.\<close>

definition lit :: "string \<Rightarrow> py_str" where
  "lit s = map of_char s"

text \<open>\<open>JReal\<close> is a number that is no integer, by its text; no payload here holds one.\<close>

datatype json =
    JNull
  | JBool bool
  | JInt int
  | JReal string
  | JStr py_str
  | JList "json list"
  | JDict "(py_str \<times> json) list"

section \<open>Printing\<close>

definition digit_char :: "nat \<Rightarrow> char" where
  "digit_char d = char_of (48 + d)"

fun nat_text :: "nat \<Rightarrow> string" where
  "nat_text n = (if n < 10 then [digit_char n] else nat_text (n div 10) @ [digit_char (n mod 10)])"

declare nat_text.simps [simp del]

text \<open>Python refuses to convert integers of more than 4300 digits from or to text.\<close>

definition MAX_INT_DIGITS :: nat where "MAX_INT_DIGITS = 4300"

definition int_text :: "int \<Rightarrow> string" where
  "int_text i = (if i < 0 then CHR ''-'' # nat_text (nat (- i)) else nat_text (nat i))"

definition hex_char :: "nat \<Rightarrow> char" where
  "hex_char d = (if d < 10 then char_of (48 + d) else char_of (87 + d))"

definition hex4 :: "nat \<Rightarrow> string" where
  "hex4 n = [hex_char (n div 4096 mod 16), hex_char (n div 256 mod 16), hex_char (n div 16 mod 16), hex_char (n mod 16)]"

text \<open>The \<open>\uXXXX\<close> escapes of a code point: two of them, a surrogate pair, beyond the basic plane.\<close>

definition utf16_units :: "nat \<Rightarrow> nat list" where
  "utf16_units c = (if c < 0x10000 then [c]
     else [0xD800 + (c - 0x10000) div 0x400, 0xDC00 + (c - 0x10000) mod 0x400])"

definition escapes :: "(nat \<times> char) list" where
  "escapes = [(34, CHR 0x22), (92, CHR 0x5C), (8, CHR ''b''), (12, CHR ''f''), (10, CHR ''n''),
     (13, CHR ''r''), (9, CHR ''t'')]"

definition unit_text :: "nat \<Rightarrow> string" where
  "unit_text u = (case od_get escapes u of
     Some e \<Rightarrow> [CHR 0x5C, e]
   | None \<Rightarrow> if 32 \<le> u \<and> u \<le> 126 then [char_of u] else [CHR 0x5C, CHR ''u''] @ hex4 u)"

definition str_text :: "py_str \<Rightarrow> string" where
  "str_text s = CHR 0x22 # concat (map unit_text (concat (map utf16_units s))) @ [CHR 0x22]"

fun commas :: "string list \<Rightarrow> string" where
  "commas [] = []"
| "commas [x] = x"
| "commas (x # xs) = x @ CHR '','' # commas xs"

fun json_text :: "json \<Rightarrow> string" where
  "json_text JNull = ''null''"
| "json_text (JBool b) = (if b then ''true'' else ''false'')"
| "json_text (JInt i) = int_text i"
| "json_text (JReal t) = t"
| "json_text (JStr s) = str_text s"
| "json_text (JList vs) = CHR ''['' # commas (map json_text vs) @ '']''"
| "json_text (JDict d) = CHR ''{'' # commas (map (\<lambda>(k, v). str_text k @ CHR '':'' # json_text v) d) @ ''}''"

fun printable :: "json \<Rightarrow> bool" where
  "printable (JInt i) = (length (nat_text (nat \<bar>i\<bar>)) \<le> MAX_INT_DIGITS)"
| "printable (JList vs) = list_all printable vs"
| "printable (JDict d) = list_all (\<lambda>(k, v). printable v) d"
| "printable v = True"

section \<open>Parsing\<close>

definition json_space :: "char \<Rightarrow> bool" where
  "json_space c \<longleftrightarrow> c \<in> {CHR '' '', CHR 0x09, CHR 0x0A, CHR 0x0D}"

definition skip_ws :: "string \<Rightarrow> string" where
  "skip_ws s = dropWhile json_space s"

definition is_digit :: "char \<Rightarrow> bool" where
  "is_digit c \<longleftrightarrow> 48 \<le> (of_char c :: nat) \<and> (of_char c :: nat) \<le> 57"

definition digits_value :: "string \<Rightarrow> nat" where
  "digits_value s = foldl (\<lambda>n c. 10 * n + (of_char c - 48)) 0 s"

definition hex_value_of :: "char \<Rightarrow> nat option" where
  "hex_value_of c = (let n = of_char c :: nat in
     if 48 \<le> n \<and> n \<le> 57 then Some (n - 48)
     else if 97 \<le> n \<and> n \<le> 102 then Some (n - 87)
     else if 65 \<le> n \<and> n \<le> 70 then Some (n - 55) else None)"

fun read_hex4 :: "string \<Rightarrow> (nat \<times> string) option" where
  "read_hex4 (a # b # c # d # r) =
     (case (hex_value_of a, hex_value_of b, hex_value_of c, hex_value_of d) of
        (Some w, Some x, Some y, Some z) \<Rightarrow> Some (4096 * w + 256 * x + 16 * y + z, r)
      | _ \<Rightarrow> None)"
| "read_hex4 _ = None"

definition unescapes :: "(char \<times> nat) list" where
  "unescapes = [(CHR 0x22, 34), (CHR 0x5C, 92), (CHR ''/'', 47), (CHR ''b'', 8), (CHR ''f'', 12),
     (CHR ''n'', 10), (CHR ''r'', 13), (CHR ''t'', 9)]"

text \<open>One character or escape of a string; a control character is refused.\<close>

fun read_unit :: "string \<Rightarrow> (nat \<times> string) option" where
  "read_unit [] = None"
| "read_unit (c # cs) =
     (if c = CHR 0x5C
      then (case cs of
          [] \<Rightarrow> None
        | e # r \<Rightarrow> if e = CHR ''u'' then read_hex4 r else map_option (\<lambda>u. (u, r)) (od_get unescapes e))
      else if (of_char c :: nat) < 32 then None else Some (of_char c, cs))"

text \<open>The rest of a string after its opening quote.\<close>

function read_units :: "string \<Rightarrow> (nat list \<times> string) option" where
  "read_units s =
     (case s of
        [] \<Rightarrow> None
      | c # cs \<Rightarrow>
          (if c = CHR 0x22 then Some ([], cs)
           else case read_unit s of
             None \<Rightarrow> None
           | Some (u, r) \<Rightarrow>
               (if length r < length s then map_option (\<lambda>(us, r'). (u # us, r')) (read_units r) else None)))"
  by pat_completeness auto
termination by (relation "measure length") auto

declare read_units.simps [simp del]

text \<open>Two escapes that form a surrogate pair are one code point.\<close>

fun join_units :: "nat list \<Rightarrow> py_str" where
  "join_units (h # l # us) =
     (if 0xD800 \<le> h \<and> h \<le> 0xDBFF \<and> 0xDC00 \<le> l \<and> l \<le> 0xDFFF
      then (0x10000 + (h - 0xD800) * 0x400 + (l - 0xDC00)) # join_units us
      else h # join_units (l # us))"
| "join_units us = us"

definition read_str :: "string \<Rightarrow> (py_str \<times> string) option" where
  "read_str s = map_option (\<lambda>(us, r). (join_units us, r)) (read_units s)"

text \<open>
  A number: \<^verbatim>\<open>(-?(?:0|[1-9][0-9]*))(\.[0-9]+)?([eE][-+]?[0-9]+)?\<close>. \<open>read_fraction\<close> and
  \<open>read_exponent\<close> split off their optional part.
\<close>

definition read_fraction :: "string \<Rightarrow> string \<times> string" where
  "read_fraction s = (case s of
     c # d # r \<Rightarrow> if c = CHR ''.'' \<and> is_digit d then (c # takeWhile is_digit (d # r), dropWhile is_digit (d # r)) else ([], s)
   | _ \<Rightarrow> ([], s))"

definition read_exponent :: "string \<Rightarrow> string \<times> string" where
  "read_exponent s = (case s of
     c # r \<Rightarrow>
       (if c \<in> {CHR ''e'', CHR ''E''}
        then let (sign, r1) = (case r of x # xs \<Rightarrow> if x \<in> {CHR ''-'', CHR ''+''} then ([x], xs) else ([], r) | [] \<Rightarrow> ([], r))
             in (if takeWhile is_digit r1 \<noteq> [] then (c # sign @ takeWhile is_digit r1, dropWhile is_digit r1) else ([], s))
        else ([], s))
   | [] \<Rightarrow> ([], s))"

definition read_natural :: "string \<Rightarrow> (string \<times> string) option" where
  "read_natural s = (case s of [] \<Rightarrow> None
     | c # cs \<Rightarrow> if c = CHR ''0'' then Some ([c], cs)
         else if is_digit c then Some (takeWhile is_digit s, dropWhile is_digit s) else None)"

definition read_number :: "string \<Rightarrow> (json \<times> string) option" where
  "read_number s =
     (let (sign, s1) = (case s of c # cs \<Rightarrow> if c = CHR ''-'' then ([c], cs) else ([], s) | [] \<Rightarrow> ([], s)) in
      case read_natural s1 of
        None \<Rightarrow> None
      | Some (ds, s2) \<Rightarrow>
          (let (fraction, s3) = read_fraction s2; (exponent, s4) = read_exponent s3 in
           if fraction \<noteq> [] \<or> exponent \<noteq> [] then Some (JReal (sign @ ds @ fraction @ exponent), s4)
           else if length ds > MAX_INT_DIGITS then None
           else Some (JInt (if sign = [] then int (digits_value ds) else - int (digits_value ds)), s4)))"

definition constants :: "(string \<times> json) list" where
  "constants = [(''null'', JNull), (''true'', JBool True), (''false'', JBool False), (''NaN'', JReal ''NaN''),
     (''Infinity'', JReal ''Infinity''), (''-Infinity'', JReal ''-Infinity'')]"

definition read_constant :: "string \<Rightarrow> (json \<times> string) option" where
  "read_constant s = map_option (\<lambda>(w, v). (v, drop (length w) s))
     (List.find (\<lambda>(w, v). take (length w) s = w) constants)"

lemma length_skip_ws: "length (skip_ws s) \<le> length s"
  by (simp add: skip_ws_def length_dropWhile_le)

lemma skip_ws_ConsD: "skip_ws s = d # r \<Longrightarrow> length r < length s"
  using length_skip_ws [of s] by simp

text \<open>
  A value at the head of a text, the members of an object from a key on, and the elements of
  an array from a value on.
\<close>

function (sequential) read_value :: "string \<Rightarrow> (json \<times> string) option"
  and read_members :: "(py_str \<times> json) list \<Rightarrow> string \<Rightarrow> (json \<times> string) option"
  and read_elements :: "json list \<Rightarrow> string \<Rightarrow> (json \<times> string) option" where
  "read_value s =
     (case s of [] \<Rightarrow> None
      | c # cs \<Rightarrow>
          (if c = CHR 0x22 then map_option (\<lambda>(t, r). (JStr t, r)) (read_str cs)
           else if c = CHR ''{''
           then (case skip_ws cs of [] \<Rightarrow> None
               | d # r \<Rightarrow> if d = CHR ''}'' then Some (JDict [], r) else read_members [] (d # r))
           else if c = CHR ''[''
           then (case skip_ws cs of [] \<Rightarrow> None
               | d # r \<Rightarrow> if d = CHR '']'' then Some (JList [], r) else read_elements [] (d # r))
           else case read_constant s of Some p \<Rightarrow> Some p | None \<Rightarrow> read_number s))"
| "read_members acc s =
     (case s of [] \<Rightarrow> None
      | q # cs \<Rightarrow>
          (if q \<noteq> CHR 0x22 then None
           else case read_str cs of None \<Rightarrow> None
             | Some (k, r) \<Rightarrow>
                 (case skip_ws r of [] \<Rightarrow> None
                  | c # r1 \<Rightarrow>
                      (if c \<noteq> CHR '':'' \<or> length (skip_ws r1) \<ge> length s then None
                       else case read_value (skip_ws r1) of None \<Rightarrow> None
                         | Some (v, r2) \<Rightarrow>
                             (case skip_ws r2 of [] \<Rightarrow> None
                              | e # r3 \<Rightarrow>
                                  (if e = CHR ''}'' then Some (JDict (od_put k v acc), r3)
                                   else if e \<noteq> CHR '','' \<or> length (skip_ws r3) \<ge> length s then None
                                   else read_members (od_put k v acc) (skip_ws r3)))))))"
| "read_elements acc s =
     (case read_value s of None \<Rightarrow> None
      | Some (v, r) \<Rightarrow>
          (case skip_ws r of [] \<Rightarrow> None
           | e # r1 \<Rightarrow>
               (if e = CHR '']'' then Some (JList (acc @ [v]), r1)
                else if e \<noteq> CHR '','' \<or> length (skip_ws r1) \<ge> length s then None
                else read_elements (acc @ [v]) (skip_ws r1))))"
  by pat_completeness auto

termination
proof (relation "measure (\<lambda>x. case x of Inl s \<Rightarrow> 2 * length s
    | Inr y \<Rightarrow> (case y of Inl (acc, s) \<Rightarrow> 2 * length s | Inr (acc, s) \<Rightarrow> 2 * length s + 1))")
qed (auto dest: skip_ws_ConsD)

declare read_value.simps [simp del] read_members.simps [simp del] read_elements.simps [simp del]

text \<open>\<^verbatim>\<open>json.loads\<close>: one value, and nothing but white space after it.\<close>

definition json_loads :: "string \<Rightarrow> json option" where
  "json_loads s = (case read_value (skip_ws s) of None \<Rightarrow> None
     | Some (v, r) \<Rightarrow> if skip_ws r = [] then Some v else None)"

section \<open>Reading back what was printed\<close>

lemma of_char_of_nat [simp]: "n < 256 \<Longrightarrow> of_char (char_of n) = (n :: nat)"
  by (simp add: of_char_of)

lemma char_of_eq: "n < 256 \<Longrightarrow> char_of n = c \<longleftrightarrow> n = (of_char c :: nat)"
  by (metis of_char_of_nat char_of_char)

lemma digit_char_0: "digit_char 0 = CHR ''0''"
  by code_simp

lemma is_digit_digit_char: "d < 10 \<Longrightarrow> is_digit (digit_char d)"
  by (simp add: is_digit_def digit_char_def)

lemma nat_text_digits: "list_all is_digit (nat_text n)"
  by (induction n rule: nat_text.induct) (subst nat_text.simps, simp add: is_digit_digit_char)

lemma nat_text_not_Nil [simp]: "nat_text n \<noteq> []"
  by (subst nat_text.simps) simp

lemma digits_value_snoc: "digits_value (s @ [c]) = 10 * digits_value s + (of_char c - 48)"
  by (simp add: digits_value_def)

lemma digits_value_nat_text [simp]: "digits_value (nat_text n) = n"
proof (induction n rule: nat_text.induct)
  case (1 n)
  show ?case
  proof (cases "n < 10")
    case True
    then show ?thesis by (subst nat_text.simps) (simp add: digits_value_def digit_char_def)
  next
    case False
    then show ?thesis by (subst nat_text.simps) (simp add: 1 digits_value_snoc digit_char_def)
  qed
qed

lemma nat_text_head: "n \<noteq> 0 \<Longrightarrow> \<exists>c cs. nat_text n = c # cs \<and> c \<noteq> CHR ''0'' \<and> is_digit c"
proof (induction n rule: nat_text.induct)
  case (1 n)
  show ?case
  proof (cases "n < 10")
    case True
    have "digit_char n \<noteq> CHR ''0''"
    proof
      assume "digit_char n = CHR ''0''"
      then have "(of_char (digit_char n) :: nat) = of_char (CHR ''0'')" by simp
      with True 1(2) show False by (simp add: digit_char_def)
    qed
    with True show ?thesis by (subst nat_text.simps) (simp add: is_digit_digit_char)
  next
    case False
    then obtain c cs where "nat_text (n div 10) = c # cs" "c \<noteq> CHR ''0''" "is_digit c" using 1 by force
    with False show ?thesis by (subst nat_text.simps) simp
  qed
qed

text \<open>A text after a number that does not continue it.\<close>

definition ends_number :: "string \<Rightarrow> bool" where
  "ends_number r = (case r of [] \<Rightarrow> True | c # cs \<Rightarrow> \<not> is_digit c \<and> c \<notin> {CHR ''.'', CHR ''e'', CHR ''E''})"

lemma ends_number_simps [simp]: "ends_number []" "ends_number (CHR '','' # r)" "ends_number (CHR '']'' # r)"
  "ends_number (CHR ''}'' # r)"
  by (simp_all add: ends_number_def is_digit_def)

lemma read_natural_text:
  assumes "ends_number r"
  shows "read_natural (nat_text n @ r) = Some (nat_text n, r)"
proof (cases "n = 0")
  case True
  then show ?thesis by (subst (1 2) nat_text.simps) (simp add: read_natural_def digit_char_0)
next
  case False
  then obtain c cs where c: "nat_text n = c # cs" "c \<noteq> CHR ''0''" "is_digit c" using nat_text_head by blast
  have digits: "\<forall>x \<in> set (nat_text n). is_digit x" using nat_text_digits by (simp add: list_all_iff)
  have "takeWhile is_digit (nat_text n @ r) = nat_text n" "dropWhile is_digit (nat_text n @ r) = r"
    using digits assms
    by (auto simp: takeWhile_append dropWhile_append takeWhile_eq_Nil_iff dropWhile_eq_self_iff ends_number_def
        split: list.splits)
  with c show ?thesis by (simp add: read_natural_def)
qed

lemma read_number_text:
  assumes "ends_number r" "length (nat_text (nat \<bar>i\<bar>)) \<le> MAX_INT_DIGITS"
  shows "read_number (int_text i @ r) = Some (JInt i, r)"
proof -
  have parts: "read_fraction r = ([], r)" "read_exponent r = ([], r)"
    using assms(1) by (auto simp: read_fraction_def read_exponent_def ends_number_def split: list.splits)
  have minus: "nat_text n @ r \<noteq> CHR ''-'' # s" for n s
  proof -
    obtain c cs where "nat_text n = c # cs" by (cases "nat_text n") auto
    moreover have "is_digit c" using nat_text_digits [of n] calculation by simp
    ultimately show ?thesis by (auto simp: is_digit_def)
  qed
  show ?thesis
  proof (cases "i < 0")
    case True
    then show ?thesis using parts assms
      by (simp add: read_number_def int_text_def read_natural_text Let_def)
  next
    case False
    then have "(case nat_text (nat i) @ r of c # cs \<Rightarrow> if c = CHR ''-'' then ([c], cs) else ([], nat_text (nat i) @ r)
        | [] \<Rightarrow> ([], nat_text (nat i) @ r)) = ([], nat_text (nat i) @ r)"
      using minus [of "nat i"] by (auto split: list.splits)
    with False show ?thesis using parts assms
      by (simp add: read_number_def int_text_def read_natural_text Let_def)
  qed
qed

lemma hex_value_hex_char: "d < 16 \<Longrightarrow> hex_value_of (hex_char d) = Some d"
  by (auto simp: hex_value_of_def hex_char_def Let_def)

lemma read_hex4_text:
  assumes "u < 0x10000"
  shows "read_hex4 (hex4 u @ r) = Some (u, r)"
proof -
  have combine: "16 * a + b = n \<Longrightarrow> 16 * c + d = a \<Longrightarrow> 16 * e + f = c \<Longrightarrow>
    4096 * e + 256 * f + 16 * d + b = n" for a b c d e f n :: nat by linarith
  have "4096 * (u div 16 div 16 div 16) + 256 * (u div 16 div 16 mod 16) + 16 * (u div 16 mod 16) + u mod 16 = u"
    by (rule combine; rule mult_div_mod_eq)
  moreover have "u div 256 = u div 16 div 16" "u div 4096 = u div 16 div 16 div 16" by (simp_all flip: div_mult2_eq)
  moreover have "u div 16 div 16 div 16 mod 16 = u div 16 div 16 div 16" using assms by simp
  ultimately have "4096 * (u div 4096) + 256 * (u div 256 mod 16) + 16 * (u div 16 mod 16) + u mod 16 = u"
    by metis
  moreover have "u div 4096 < 16" using assms by simp
  ultimately show ?thesis by (simp add: hex4_def hex_value_hex_char)
qed

lemma unit_text_cases:
  assumes "u < 0x10000"
  obtains e where "unit_text u = [CHR 0x5C, e]" "e \<noteq> CHR ''u''" "od_get unescapes e = Some u"
  | c where "unit_text u = [c]" "32 \<le> u" "u \<le> 126" "c = char_of u" "c \<noteq> CHR 0x22" "c \<noteq> CHR 0x5C"
  | "unit_text u = [CHR 0x5C, CHR ''u''] @ hex4 u"
proof (cases "od_get escapes u")
  case (Some e)
  then have "e \<noteq> CHR ''u''" "od_get unescapes e = Some u"
    by (auto simp: escapes_def unescapes_def split: if_splits)
  with Some show ?thesis using that(1) by (simp add: unit_text_def)
next
  case None
  then have "u \<noteq> 34" "u \<noteq> 92" by (auto simp: escapes_def)
  show ?thesis
  proof (cases "32 \<le> u \<and> u \<le> 126")
    case True
    have "char_of u \<noteq> CHR 0x22" "char_of u \<noteq> CHR 0x5C"
      using True \<open>u \<noteq> 34\<close> \<open>u \<noteq> 92\<close> by (simp_all add: char_of_eq)
    with None True show ?thesis using that(2) by (simp add: unit_text_def)
  next
    case False
    with None show ?thesis using that(3) by (simp add: unit_text_def)
  qed
qed

lemma read_unit_text: "u < 0x10000 \<Longrightarrow> read_unit (unit_text u @ r) = Some (u, r)"
  by (rule unit_text_cases [of u]; simp add: read_hex4_text)

lemma unit_text_head: "u < 0x10000 \<Longrightarrow> \<exists>c cs. unit_text u = c # cs \<and> c \<noteq> CHR 0x22"
  by (rule unit_text_cases [of u]) simp_all

lemma read_units_text:
  assumes "\<forall>u \<in> set us. u < 0x10000"
  shows "read_units (concat (map unit_text us) @ CHR 0x22 # r) = Some (us, r)"
  using assms
proof (induction us)
  case Nil
  then show ?case by (subst read_units.simps) simp
next
  case (Cons u us)
  let ?r = "concat (map unit_text us) @ CHR 0x22 # r"
  have "u < 0x10000" using Cons by simp
  obtain c cs where c: "unit_text u = c # cs" "c \<noteq> CHR 0x22" using unit_text_head [OF \<open>u < 0x10000\<close>] by blast
  have "read_unit (c # cs @ ?r) = Some (u, ?r)" using read_unit_text [OF \<open>u < 0x10000\<close>, of ?r] c by simp
  moreover have "read_units ?r = Some (us, r)" using Cons by simp
  ultimately show ?case using c by (subst read_units.simps) simp
qed

text \<open>
  Text whose code points are in range and in which no high surrogate is followed by a low one:
  every text that came from a file, a wire or a keyboard.
\<close>

fun proper_text :: "py_str \<Rightarrow> bool" where
  "proper_text (h # l # s) \<longleftrightarrow> h < 0x110000 \<and>
     \<not> (0xD800 \<le> h \<and> h \<le> 0xDBFF \<and> 0xDC00 \<le> l \<and> l \<le> 0xDFFF) \<and> proper_text (l # s)"
| "proper_text [c] \<longleftrightarrow> c < 0x110000"
| "proper_text [] \<longleftrightarrow> True"

lemma proper_text_Cons: "proper_text (c # s) \<Longrightarrow> c < 0x110000 \<and> proper_text s"
  by (cases s) auto

lemma utf16_units_range: "c < 0x110000 \<Longrightarrow> u \<in> set (utf16_units c) \<Longrightarrow> u < 0x10000"
  by (auto simp: utf16_units_def split: if_splits)

lemma utf16_units_head: "\<exists>u us. utf16_units c = u # us \<and> (c < 0x10000 \<longrightarrow> u = c) \<and>
    (c < 0x110000 \<longrightarrow> 0x10000 \<le> c \<longrightarrow> 0xD800 \<le> u \<and> u \<le> 0xDBFF)"
  by (auto simp: utf16_units_def)

lemma join_utf16:
  assumes "proper_text s"
  shows "join_units (concat (map utf16_units s)) = s"
  using assms
proof (induction s)
  case Nil
  then show ?case by simp
next
  case (Cons c s)
  note c = proper_text_Cons [OF Cons.prems]
  have tail: "join_units (concat (map utf16_units s)) = s" using Cons c by blast
  show ?case
  proof (cases "c < 0x10000")
    case False
    have "0x10000 + (c - 0x10000) div 0x400 * 0x400 + (c - 0x10000) mod 0x400 = c"
      using False div_mult_mod_eq [of "c - 0x10000" "0x400"] by simp
    moreover have "(c - 0x10000) div 0x400 \<le> 0x3FF" "(c - 0x10000) mod 0x400 \<le> 0x3FF" using c by auto
    moreover have "utf16_units c = [0xD800 + (c - 0x10000) div 0x400, 0xDC00 + (c - 0x10000) mod 0x400]"
      using False by (simp add: utf16_units_def)
    ultimately show ?thesis using tail by simp
  next
    case True
    show ?thesis
    proof (cases s)
      case Nil
      with True show ?thesis by (simp add: utf16_units_def)
    next
      case (Cons d s')
      obtain u us where u: "utf16_units d = u # us" "d < 0x10000 \<longrightarrow> u = d"
          "d < 0x110000 \<longrightarrow> 0x10000 \<le> d \<longrightarrow> 0xD800 \<le> u \<and> u \<le> 0xDBFF"
        using utf16_units_head by blast
      have d: "d < 0x110000" using c Cons proper_text_Cons by blast
      have "\<not> (0xD800 \<le> c \<and> c \<le> 0xDBFF \<and> 0xDC00 \<le> u \<and> u \<le> 0xDFFF)"
      proof (cases "d < 0x10000")
        case True
        with u Cons.prems \<open>s = d # s'\<close> show ?thesis by simp
      next
        case False
        with u d show ?thesis by simp
      qed
      then have "join_units (c # u # us @ concat (map utf16_units s')) = c # join_units (u # us @ concat (map utf16_units s'))"
        by simp
      moreover have "utf16_units c = [c]" using True by (simp add: utf16_units_def)
      ultimately show ?thesis using Cons u(1) tail by simp
    qed
  qed
qed

lemma read_str_text:
  assumes "proper_text s"
  shows "\<exists>cs. str_text s @ r = CHR 0x22 # cs \<and> read_str cs = Some (s, r)"
proof -
  have range: "\<forall>u \<in> set (concat (map utf16_units t)). u < 0x10000" if "proper_text t" for t
    using that by (induction t) (auto dest: proper_text_Cons utf16_units_range)
  show ?thesis
    using read_units_text [OF range [OF assms], of r] join_utf16 [OF assms]
    by (simp add: read_str_def str_text_def)
qed

text \<open>A value as the code builds it: no reals, proper text, an object with distinct keys.\<close>

fun wf_json :: "json \<Rightarrow> bool" where
  "wf_json (JReal t) = False"
| "wf_json (JStr s) = proper_text s"
| "wf_json (JList vs) = list_all wf_json vs"
| "wf_json (JDict d) = (distinct (map fst d) \<and> list_all (\<lambda>(k, v). proper_text k \<and> wf_json v) d)"
| "wf_json v = True"

abbreviation member_text :: "py_str \<times> json \<Rightarrow> string" where
  "member_text \<equiv> \<lambda>(k, v). str_text k @ CHR '':'' # json_text v"

lemma skip_ws_other [simp]: "\<not> json_space c \<Longrightarrow> skip_ws (c # cs) = c # cs"
  by (simp add: skip_ws_def)

lemma json_space_simps [simp]: "\<not> json_space (CHR '','')" "\<not> json_space (CHR '':'')" "\<not> json_space (CHR 0x22)"
  "\<not> json_space (CHR '']'')" "\<not> json_space (CHR ''}'')" "\<not> json_space (CHR ''{'')" "\<not> json_space (CHR ''['')"
  "is_digit c \<Longrightarrow> \<not> json_space c"
  by (auto simp: json_space_def is_digit_def)

lemma nat_text_starts: "\<exists>c cs. nat_text n = c # cs \<and> is_digit c"
  using nat_text_digits [of n] by (cases "nat_text n") simp_all

lemma int_text_head:
  "\<exists>c cs. int_text i = c # cs \<and> (is_digit c \<or> c = CHR ''-'' \<and> (\<exists>d ds. cs = d # ds \<and> is_digit d))"
  using nat_text_starts [of "nat i"] nat_text_starts [of "nat (- i)"] by (cases "i < 0") (auto simp: int_text_def)

lemma json_text_head:
  assumes "wf_json v"
  shows "\<exists>c cs. json_text v = c # cs \<and> \<not> json_space c \<and> c \<noteq> CHR '']''"
proof (cases v)
  case (JInt i)
  then show ?thesis using int_text_head [of i] by (auto simp: json_space_def is_digit_def)
qed (use assms in \<open>auto simp: str_text_def json_space_def\<close>)

lemma skip_ws_json_text [simp]: "wf_json v \<Longrightarrow> skip_ws (json_text v @ r) = json_text v @ r"
  using json_text_head [of v] by auto

lemma skip_ws_str_text [simp]: "skip_ws (str_text k @ r) = str_text k @ r"
  by (simp add: str_text_def)

lemma commas_Cons: "vs \<noteq> [] \<Longrightarrow> commas (x # vs) = x @ CHR '','' # commas vs"
  by (cases vs) simp_all

lemma skip_ws_commas [simp]: "list_all wf_json vs \<Longrightarrow> vs \<noteq> [] \<Longrightarrow>
    skip_ws (commas (map json_text vs) @ r) = commas (map json_text vs) @ r"
  by (cases vs; cases "tl vs") (auto simp: commas_Cons)

lemma skip_ws_members [simp]: "d \<noteq> [] \<Longrightarrow>
    skip_ws (commas (map member_text d) @ r) = commas (map member_text d) @ r"
  by (cases d; cases "tl d") (auto simp: commas_Cons str_text_def split: prod.split)

lemma read_elements_text:
  assumes "\<And>v r. v \<in> set vs \<Longrightarrow> ends_number r \<Longrightarrow> read_value (json_text v @ r) = Some (v, r)"
    and "list_all wf_json vs" "vs \<noteq> []"
  shows "read_elements acc (commas (map json_text vs) @ CHR '']'' # r) = Some (JList (acc @ vs), r)"
  using assms
proof (induction vs arbitrary: acc)
  case (Cons v vs)
  show ?case
  proof (cases "vs = []")
    case True
    then show ?thesis using Cons.prems by (subst read_elements.simps) simp
  next
    case False
    let ?r = "commas (map json_text vs) @ CHR '']'' # r"
    have "read_value (json_text v @ CHR '','' # ?r) = Some (v, CHR '','' # ?r)"
      using Cons.prems(1) by simp
    moreover have "read_elements (acc @ [v]) ?r = Some (JList ((acc @ [v]) @ vs), r)"
      using Cons False by simp
    ultimately show ?thesis
      using Cons.prems False json_text_head [of v] by (subst read_elements.simps) (auto simp: commas_Cons)
  qed
qed simp

lemma read_members_text:
  assumes "\<And>k v r. (k, v) \<in> set d \<Longrightarrow> ends_number r \<Longrightarrow> read_value (json_text v @ r) = Some (v, r)"
    and "list_all (\<lambda>(k, v). proper_text k \<and> wf_json v) d" "distinct (map fst (acc @ d))" "d \<noteq> []"
  shows "read_members acc (commas (map member_text d) @ CHR ''}'' # r) = Some (JDict (acc @ d), r)"
  using assms
proof (induction d arbitrary: acc)
  case (Cons p d)
  obtain k v where p: "p = (k, v)" by (cases p)
  have k: "proper_text k" and v: "wf_json v" and new: "od_put k v acc = acc @ [(k, v)]"
    using Cons.prems p by (auto simp: od_keys_def intro!: od_put_new)
  show ?case
  proof (cases "d = []")
    case True
    obtain cs where cs: "str_text k @ CHR '':'' # json_text v @ CHR ''}'' # r = CHR 0x22 # cs"
        "read_str cs = Some (k, CHR '':'' # json_text v @ CHR ''}'' # r)"
      using read_str_text [OF k] by blast
    have "read_value (json_text v @ CHR ''}'' # r) = Some (v, CHR ''}'' # r)"
      using Cons.prems(1) [of k v] p by simp
    moreover have "length (json_text v @ CHR ''}'' # r) < length (CHR 0x22 # cs)"
      unfolding cs(1) [symmetric] by simp
    ultimately show ?thesis
      using True p v new cs by (subst read_members.simps) simp
  next
    case False
    let ?r = "commas (map member_text d) @ CHR ''}'' # r"
    obtain cs where cs: "str_text k @ CHR '':'' # json_text v @ CHR '','' # ?r = CHR 0x22 # cs"
        "read_str cs = Some (k, CHR '':'' # json_text v @ CHR '','' # ?r)"
      using read_str_text [OF k] by blast
    have "read_value (json_text v @ CHR '','' # ?r) = Some (v, CHR '','' # ?r)"
      using Cons.prems(1) [of k v] p by simp
    moreover have "length (json_text v @ CHR '','' # ?r) < length (CHR 0x22 # cs)" "length ?r < length (CHR 0x22 # cs)"
      unfolding cs(1) [symmetric] by simp_all
    moreover have "read_members (acc @ [(k, v)]) ?r = Some (JDict ((acc @ [(k, v)]) @ d), r)"
      using Cons False p by (intro Cons.IH) auto
    ultimately show ?thesis
      using False p v new cs by (subst read_members.simps) (simp add: commas_Cons)
  qed
qed simp

theorem read_value_text:
  assumes "wf_json v" "printable v" "ends_number r"
  shows "read_value (json_text v @ r) = Some (v, r)"
  using assms
proof (induction v arbitrary: r)
  case JNull
  then show ?case by (subst read_value.simps) (simp add: read_constant_def constants_def)
next
  case (JBool b)
  then show ?case by (subst read_value.simps) (simp add: read_constant_def constants_def)
next
  case (JInt i)
  obtain c cs where head: "int_text i = c # cs \<and> (is_digit c \<or> c = CHR ''-'' \<and> (\<exists>d ds. cs = d # ds \<and> is_digit d))"
    using int_text_head [of i] by (elim exE)
  define cs' where "cs' = cs @ r"
  have c: "int_text i @ r = c # cs'" "is_digit c \<or> c = CHR ''-'' \<and> (\<exists>d ds. cs' = d # ds \<and> is_digit d)"
    using head by (auto simp: cs'_def)
  from c(2) have "read_constant (c # cs') = None"
  proof (elim disjE conjE exE)
    fix d ds assume "c = CHR ''-''" "cs' = d # ds" "is_digit d"
    then show ?thesis by (auto simp: read_constant_def constants_def is_digit_def)
  next
    assume "is_digit c"
    then have "c \<noteq> CHR ''n''" "c \<noteq> CHR ''t''" "c \<noteq> CHR ''f''" "c \<noteq> CHR ''N''" "c \<noteq> CHR ''I''" "c \<noteq> CHR ''-''"
      by (auto simp: is_digit_def)
    then show ?thesis by (simp add: read_constant_def constants_def)
  qed
  moreover have "c \<noteq> CHR 0x22" "c \<noteq> CHR ''{''" "c \<noteq> CHR ''[''" using c(2) by (auto simp: is_digit_def)
  moreover have "read_number (c # cs') = Some (JInt i, r)"
    using read_number_text [of r i] JInt c(1) by simp
  ultimately have "read_value (c # cs') = Some (JInt i, r)" by (subst read_value.simps) simp
  then show ?case using c(1) by simp
next
  case (JStr s)
  then obtain cs where "str_text s @ r = CHR 0x22 # cs" "read_str cs = Some (s, r)"
    using read_str_text by fastforce
  then show ?case by (subst read_value.simps) simp
next
  case (JList vs)
  show ?case
  proof (cases "vs = []")
    case True
    then show ?thesis by (subst read_value.simps) simp
  next
    case False
    have elements: "read_elements [] (commas (map json_text vs) @ CHR '']'' # r) = Some (JList ([] @ vs), r)"
      using JList False by (intro read_elements_text) (auto simp: list_all_iff)
    obtain c cs where c: "commas (map json_text vs) @ CHR '']'' # r = c # cs" "c \<noteq> CHR '']''" "\<not> json_space c"
      using False JList.prems(1) json_text_head [of "hd vs"]
      by (cases vs; cases "tl vs") (auto simp: commas_Cons)
    then show ?thesis using elements JList.prems False
      by (subst read_value.simps) simp
  qed
next
  case (JDict d)
  show ?case
  proof (cases "d = []")
    case True
    then show ?thesis by (subst read_value.simps) simp
  next
    case False
    have members: "read_members [] (commas (map member_text d) @ CHR ''}'' # r) = Some (JDict ([] @ d), r)"
    proof (rule read_members_text)
      show "read_value (json_text v @ r') = Some (v, r')" if "(k, v) \<in> set d" "ends_number r'" for k v r'
        using JDict.IH [of "(k, v)" v r'] JDict.prems that by (auto simp: list_all_iff)
    qed (use JDict.prems False in auto)
    obtain cs where "commas (map member_text d) @ CHR ''}'' # r = CHR 0x22 # cs"
      using False by (cases d; cases "tl d") (auto simp: commas_Cons str_text_def)
    then show ?thesis using members by (subst read_value.simps) simp
  qed
qed simp

text \<open>\<^verbatim>\<open>json.dumps\<close>; \<open>None\<close> is the \<^verbatim>\<open>ValueError\<close> for an integer that is too long.\<close>

definition json_dumps :: "json \<Rightarrow> string option" where
  "json_dumps v = (if printable v then Some (json_text v) else None)"

lemma json_loads_dumps: "json_dumps v = Some s \<Longrightarrow> wf_json v \<Longrightarrow> json_loads s = Some v"
  using read_value_text [of v "[]"] skip_ws_json_text [of v "[]"]
  by (auto simp: json_dumps_def json_loads_def skip_ws_def split: if_splits)

section \<open>The text is ASCII\<close>

text \<open>Bytes that \<^verbatim>\<open>json.detect_encoding\<close> takes for UTF-8 and that stand for themselves.\<close>

definition plain_ascii :: "string \<Rightarrow> bool" where
  "plain_ascii s \<longleftrightarrow> list_all (\<lambda>c. 0 < (of_char c :: nat) \<and> (of_char c :: nat) < 128) s"

lemma ascii_simps [simp]: "plain_ascii []" "plain_ascii (c # s) \<longleftrightarrow> 0 < (of_char c :: nat) \<and> (of_char c :: nat) < 128 \<and> plain_ascii s"
  "plain_ascii (s @ t) \<longleftrightarrow> plain_ascii s \<and> plain_ascii t"
  by (simp_all add: plain_ascii_def)

lemma ascii_nat_text: "plain_ascii (nat_text n)"
  using nat_text_digits [of n] by (auto simp: plain_ascii_def is_digit_def list_all_iff)

lemma ascii_hex4: "plain_ascii (hex4 u)"
proof -
  have "0 < (of_char (hex_char (m mod 16)) :: nat) \<and> (of_char (hex_char (m mod 16)) :: nat) < 128" for m
    using mod_less_divisor [of 16 m] by (auto simp: hex_char_def)
  then show ?thesis by (simp add: hex4_def)
qed

lemma ascii_unit: "plain_ascii (unit_text u)"
  using ascii_hex4 [of u] by (auto simp: unit_text_def escapes_def split: option.splits if_splits)

lemma ascii_concat: "list_all plain_ascii ss \<Longrightarrow> plain_ascii (concat ss)"
  by (induction ss) simp_all

lemma ascii_commas: "list_all plain_ascii ss \<Longrightarrow> plain_ascii (commas ss)"
  by (induction ss rule: commas.induct) simp_all

lemma ascii_str_text: "plain_ascii (str_text s)"
proof -
  have "plain_ascii (concat (map unit_text us))" for us
    by (rule ascii_concat) (simp add: list_all_iff ascii_unit)
  then show ?thesis by (simp add: str_text_def)
qed

lemma ascii_json_text: "wf_json v \<Longrightarrow> plain_ascii (json_text v)"
proof (induction v)
  case (JInt i)
  then show ?case by (simp add: int_text_def ascii_nat_text)
next
  case (JList vs)
  then show ?case by (simp add: ascii_commas list_all_iff)
next
  case (JDict d)
  have "plain_ascii (member_text p)" if "p \<in> set d" for p
    using JDict that by (cases p) (auto simp: ascii_str_text list_all_iff)
  then show ?case by (simp add: ascii_commas list_all_iff)
qed (simp_all add: ascii_str_text)

end
