(* ===== verification/Nav_Payload.thy ===== *)
theory Nav_Payload
  imports Py_Json
begin

text \<open>
  The signed payloads of \<^verbatim>\<open>pagination.py\<close>: a JSON object in URL-safe base64, a dot, and the
  first 16 hexadecimal digits of its HMAC under a secret of the process. The keyed digest and
  what \<^verbatim>\<open>json.loads\<close> makes of bytes that are not plain ASCII (the encoder never signs such
  bytes) are parameters of the model, held in a \<open>Signer\<close>.
\<close>

datatype nav_error = Nav_Value_Error | Nav_Type_Error

record Signer =
  sg_digest :: "string \<Rightarrow> string"
  sg_foreign :: "string \<Rightarrow> json option"

section \<open>Base64\<close>

text \<open>The alphabet \<open>A-Z a-z 0-9 - _\<close>.\<close>

definition b64_char :: "nat \<Rightarrow> char" where
  "b64_char n = char_of (if n < 26 then n + 65 else if n < 52 then n + 71 else if n < 62 then n - 4
     else if n = 62 then 45 else 95)"

text \<open>\<^verbatim>\<open>base64.urlsafe_b64encode\<close>\<close>

fun b64_encode :: "string \<Rightarrow> string" where
  "b64_encode [] = []"
| "b64_encode [a] = (let x = of_char a in [b64_char (x div 4), b64_char (x mod 4 * 16), CHR ''='', CHR ''=''])"
| "b64_encode [a, b] = (let x = of_char a; y = of_char b in
     [b64_char (x div 4), b64_char (x mod 4 * 16 + y div 16), b64_char (y mod 16 * 4), CHR ''=''])"
| "b64_encode (a # b # c # s) = (let x = of_char a; y = of_char b; z = of_char c in
     [b64_char (x div 4), b64_char (x mod 4 * 16 + y div 16), b64_char (y mod 16 * 4 + z div 64), b64_char (z mod 64)]
     @ b64_encode s)"

definition b64_digit :: "nat \<Rightarrow> nat option" where
  "b64_digit c =
     (if 65 \<le> c \<and> c \<le> 90 then Some (c - 65)
      else if 97 \<le> c \<and> c \<le> 122 then Some (c - 71)
      else if 48 \<le> c \<and> c \<le> 57 then Some (c + 4)
      else if c = 45 \<or> c = 43 then Some 62
      else if c = 95 \<or> c = 47 then Some 63 else None)"

text \<open>
  \<^verbatim>\<open>binascii.a2b_base64\<close> without \<^verbatim>\<open>strict_mode\<close>: the position in the quad, the bits left over
  and the padding seen. Characters outside the alphabet are skipped, the first complete padding
  ends the data. \<open>None\<close> is \<^verbatim>\<open>binascii.Error\<close>.
\<close>

fun a2b_base64 :: "nat \<Rightarrow> nat \<Rightarrow> nat \<Rightarrow> nat list \<Rightarrow> string option" where
  "a2b_base64 q left pads [] = (if q = 0 then Some [] else None)"
| "a2b_base64 q left pads (c # cs) =
     (if c = 61
      then (if 2 \<le> q then (if 4 \<le> q + Suc pads then Some [] else a2b_base64 q left (Suc pads) cs)
            else a2b_base64 q left pads cs)
      else case b64_digit c of
        None \<Rightarrow> a2b_base64 q left pads cs
      | Some d \<Rightarrow>
          (if q = 0 then a2b_base64 1 d 0 cs
           else if q = 1 then map_option ((#) (char_of (left * 4 + d div 16))) (a2b_base64 2 (d mod 16) 0 cs)
           else if q = 2 then map_option ((#) (char_of (left * 16 + d div 4))) (a2b_base64 3 (d mod 4) 0 cs)
           else map_option ((#) (char_of (left * 64 + d))) (a2b_base64 0 0 0 cs)))"

text \<open>
  \<^verbatim>\<open>base64.urlsafe_b64decode(encoded.encode())\<close>: a surrogate cannot be encoded; the bytes of
  every other character beyond ASCII lie outside the alphabet.
\<close>

definition b64_decode :: "py_str \<Rightarrow> string option" where
  "b64_decode s = (if list_ex (\<lambda>c. 0xD800 \<le> c \<and> c \<le> 0xDFFF) s then None else a2b_base64 0 0 0 s)"

lemma b64_char_cases:
  assumes "n < 64"
  shows "b64_digit (of_char (b64_char n)) = Some n" "of_char (b64_char n) \<noteq> (61 :: nat)"
    "of_char (b64_char n) < (128 :: nat)" "b64_char n \<noteq> CHR ''.''"
proof -
  define m where "m = (if n < 26 then n + 65 else if n < 52 then n + 71 else if n < 62 then n - 4
     else if n = 62 then 45 else 95)"
  have m: "b64_char n = char_of m" "m < 128" "m \<noteq> 61" "m \<noteq> 46" using assms by (auto simp: b64_char_def m_def)
  then show "of_char (b64_char n) \<noteq> (61 :: nat)" "of_char (b64_char n) < (128 :: nat)" "b64_char n \<noteq> CHR ''.''"
    by (simp_all add: char_of_eq)
  have "b64_digit m = Some n" using assms by (auto simp: b64_digit_def m_def)
  then show "b64_digit (of_char (b64_char n)) = Some n" using m by simp
qed

lemma a2b_pad: "a2b_base64 q left pads (61 # cs) =
    (if 2 \<le> q then (if 4 \<le> q + Suc pads then Some [] else a2b_base64 q left (Suc pads) cs)
     else a2b_base64 q left pads cs)"
  by simp

lemma a2b_digit:
  assumes "n < 64"
  shows "a2b_base64 q left pads (of_char (b64_char n) # cs) =
    (if q = 0 then a2b_base64 1 n 0 cs
     else if q = 1 then map_option ((#) (char_of (left * 4 + n div 16))) (a2b_base64 2 (n mod 16) 0 cs)
     else if q = 2 then map_option ((#) (char_of (left * 16 + n div 4))) (a2b_base64 3 (n mod 4) 0 cs)
     else map_option ((#) (char_of (left * 64 + n))) (a2b_base64 0 0 0 cs))"
  using b64_char_cases [OF assms] by simp

declare a2b_base64.simps(2) [simp del]

lemma b64_parts:
  fixes x y z :: nat
  assumes "x < 256" "y < 256" "z < 256"
  shows "x div 4 < 64" "x mod 4 * 16 < 64" "x mod 4 * 16 + y div 16 < 64" "y mod 16 * 4 < 64"
    "y mod 16 * 4 + z div 64 < 64" "z mod 64 < 64"
    "x div 4 * 4 + (x mod 4 * 16) div 16 = x" "x div 4 * 4 + (x mod 4 * 16 + y div 16) div 16 = x"
    "(x mod 4 * 16 + y div 16) mod 16 * 16 + (y mod 16 * 4) div 4 = y"
    "(x mod 4 * 16 + y div 16) mod 16 * 16 + (y mod 16 * 4 + z div 64) div 4 = y"
    "(y mod 16 * 4 + z div 64) mod 4 * 64 + z mod 64 = z"
proof -
  have "y div 16 < 16" "z div 64 < 4" "x mod 4 < 4" "y mod 16 < 16" using assms by auto
  then show "x div 4 < 64" "x mod 4 * 16 < 64" "x mod 4 * 16 + y div 16 < 64" "y mod 16 * 4 < 64"
    "y mod 16 * 4 + z div 64 < 64" "z mod 64 < 64"
    "x div 4 * 4 + (x mod 4 * 16) div 16 = x" "x div 4 * 4 + (x mod 4 * 16 + y div 16) div 16 = x"
    "(x mod 4 * 16 + y div 16) mod 16 * 16 + (y mod 16 * 4) div 4 = y"
    "(x mod 4 * 16 + y div 16) mod 16 * 16 + (y mod 16 * 4 + z div 64) div 4 = y"
    "(y mod 16 * 4 + z div 64) mod 4 * 64 + z mod 64 = z"
    using assms by (simp_all)
qed

lemmas byte_less = nat_of_char_less_256 nat_of_char_less_256 nat_of_char_less_256

lemma map_of_char_b64 [simp]: "lit (c # s) = of_char c # lit s" "lit [] = []" "lit (s @ t) = lit s @ lit t"
  by (simp_all add: lit_def)

lemma a2b_quad:
  assumes "p < 64" "q < 64" "r < 64" "t < 64"
  shows "a2b_base64 0 0 0 (of_char (b64_char p) # of_char (b64_char q) # of_char (b64_char r) # of_char (b64_char t) # cs) =
    map_option (\<lambda>u. char_of (p * 4 + q div 16) # char_of (q mod 16 * 16 + r div 4) # char_of (r mod 4 * 64 + t) # u)
      (a2b_base64 0 0 0 cs)"
  using assms by (simp add: a2b_digit option.map_comp comp_def)

lemma a2b_padded:
  assumes "p < 64" "q < 64"
  shows "a2b_base64 0 0 0 [of_char (b64_char p), of_char (b64_char q), 61, 61] = Some [char_of (p * 4 + q div 16)]"
    and "r < 64 \<Longrightarrow> a2b_base64 0 0 0 [of_char (b64_char p), of_char (b64_char q), of_char (b64_char r), 61] =
      Some [char_of (p * 4 + q div 16), char_of (q mod 16 * 16 + r div 4)]"
  using assms by (simp_all add: a2b_digit a2b_pad)

lemma a2b_b64_encode: "a2b_base64 0 0 0 (lit (b64_encode s)) = Some s"
proof (induction s rule: b64_encode.induct)
  case (2 a)
  note parts = b64_parts [of "of_char a" "of_char a" "of_char a", OF byte_less]
  have "a2b_base64 0 0 0 (lit (b64_encode [a])) = Some [char_of (of_char a div 4 * 4 + (of_char a mod 4 * 16) div 16 :: nat)]"
    using a2b_padded(1) [OF parts(1,2)] by (simp add: Let_def)
  then show ?case by (simp only: parts(7) char_of_char)
next
  case (3 a b)
  note parts = b64_parts [of "of_char a" "of_char b" "of_char b", OF byte_less]
  have "a2b_base64 0 0 0 (lit (b64_encode [a, b])) =
      Some [char_of (of_char a div 4 * 4 + (of_char a mod 4 * 16 + of_char b div 16) div 16 :: nat),
        char_of ((of_char a mod 4 * 16 + of_char b div 16) mod 16 * 16 + (of_char b mod 16 * 4) div 4 :: nat)]"
    using a2b_padded(2) [OF parts(1,3,4)] by (simp only: b64_encode.simps Let_def map_of_char_b64) simp
  then show ?case by (simp only: parts(8,9) char_of_char)
next
  case (4 a b c s)
  note parts = b64_parts [of "of_char a" "of_char b" "of_char c", OF byte_less]
  have "a2b_base64 0 0 0 (lit (b64_encode (a # b # c # s))) =
      map_option (\<lambda>u. char_of (of_char a div 4 * 4 + (of_char a mod 4 * 16 + of_char b div 16) div 16 :: nat) #
        char_of ((of_char a mod 4 * 16 + of_char b div 16) mod 16 * 16 + (of_char b mod 16 * 4 + of_char c div 64) div 4 :: nat) #
        char_of ((of_char b mod 16 * 4 + of_char c div 64) mod 4 * 64 + of_char c mod 64 :: nat) # u)
      (a2b_base64 0 0 0 (lit (b64_encode s)))"
    using a2b_quad [OF parts(1,3,5,6)] by (simp only: b64_encode.simps Let_def map_of_char_b64 append_Cons append_Nil)
  also have "\<dots> = Some (a # b # c # s)"
    using 4 by (simp only: parts(8,10,11) char_of_char option.map)
  finally show ?case .
qed simp

lemma b64_encode_chars: "c \<in> set (b64_encode s) \<Longrightarrow> of_char c < (128 :: nat) \<and> c \<noteq> CHR ''.''"
proof (induction s rule: b64_encode.induct)
  case (2 a)
  note parts = b64_parts [of "of_char a" "of_char a" "of_char a", OF byte_less]
  show ?case using 2 b64_char_cases(3,4) [OF parts(1)] b64_char_cases(3,4) [OF parts(2)]
    by (simp only: b64_encode.simps Let_def set_simps insert_iff empty_iff) auto
next
  case (3 a b)
  note parts = b64_parts [of "of_char a" "of_char b" "of_char b", OF byte_less]
  show ?case using 3 b64_char_cases(3,4) [OF parts(1)] b64_char_cases(3,4) [OF parts(3)] b64_char_cases(3,4) [OF parts(4)]
    by (simp only: b64_encode.simps Let_def set_simps insert_iff empty_iff) auto
next
  case (4 a b c s)
  note parts = b64_parts [of "of_char a" "of_char b" "of_char c", OF byte_less]
  show ?case using 4 b64_char_cases(3,4) [OF parts(1)] b64_char_cases(3,4) [OF parts(3)]
      b64_char_cases(3,4) [OF parts(5)] b64_char_cases(3,4) [OF parts(6)]
    by (simp only: b64_encode.simps Let_def set_append set_simps Un_iff insert_iff empty_iff) auto
qed simp

lemma b64_decode_encode: "b64_decode (lit (b64_encode s)) = Some s"
proof -
  have "\<not> list_ex (\<lambda>c. 0xD800 \<le> c \<and> c \<le> 0xDFFF) (lit (b64_encode s))"
    using b64_encode_chars [of _ s] by (fastforce simp: list_ex_iff lit_def)
  then show ?thesis by (simp only: b64_decode_def a2b_b64_encode if_False)
qed

section \<open>Signing\<close>

definition bytes_hex :: "string \<Rightarrow> string" where
  "bytes_hex s = concat (map (\<lambda>c. [hex_char (of_char c div 16), hex_char (of_char c mod 16)]) s)"

definition signature :: "Signer \<Rightarrow> string \<Rightarrow> string" where
  "signature sg data = take 16 (bytes_hex (sg_digest sg data))"

text \<open>\<^verbatim>\<open>rpartition(".")\<close>: the text before and after the last dot.\<close>

fun rpartition_dot :: "py_str \<Rightarrow> (py_str \<times> py_str) option" where
  "rpartition_dot [] = None"
| "rpartition_dot (c # cs) =
     (case rpartition_dot cs of
        Some (a, b) \<Rightarrow> Some (c # a, b)
      | None \<Rightarrow> if c = 46 then Some ([], cs) else None)"

definition encode_payload :: "Signer \<Rightarrow> (py_str \<times> json) list \<Rightarrow> nav_error + py_str" where
  "encode_payload sg payload = (case json_dumps (JDict payload) of
     None \<Rightarrow> Inl Nav_Value_Error
   | Some data \<Rightarrow> Inr (lit (b64_encode data @ ''.'' @ signature sg data)))"

text \<open>\<^verbatim>\<open>json.loads\<close> on bytes.\<close>

definition loads_bytes :: "Signer \<Rightarrow> string \<Rightarrow> json option" where
  "loads_bytes sg data = (if plain_ascii data then json_loads data else sg_foreign sg data)"

text \<open>
  \<^verbatim>\<open>_decode_payload\<close>. \<^verbatim>\<open>hmac.compare_digest\<close> raises \<^verbatim>\<open>TypeError\<close> for a \<^verbatim>\<open>str\<close> with a character
  beyond ASCII.
\<close>

definition decode_payload :: "Signer \<Rightarrow> py_str \<Rightarrow> nav_error + (py_str \<times> json) list" where
  "decode_payload sg token =
     (case rpartition_dot token of
        None \<Rightarrow> Inl Nav_Value_Error
      | Some (encoded, mac) \<Rightarrow>
          (case b64_decode encoded of
             None \<Rightarrow> Inl Nav_Value_Error
           | Some data \<Rightarrow>
               (if list_ex (\<lambda>c. 128 \<le> c) mac then Inl Nav_Type_Error
                else if mac \<noteq> lit (signature sg data) then Inl Nav_Value_Error
                else case loads_bytes sg data of
                    Some (JDict d) \<Rightarrow> Inr d
                  | _ \<Rightarrow> Inl Nav_Value_Error)))"

lemma rpartition_dot_append: "46 \<notin> set m \<Longrightarrow> rpartition_dot (e @ 46 # m) = Some (e, m)"
proof -
  assume "46 \<notin> set m"
  moreover have "46 \<notin> set m \<Longrightarrow> rpartition_dot m = None" for m by (induction m) auto
  ultimately show ?thesis by (induction e) auto
qed

lemma signature_chars: "c \<in> set (lit (signature sg data)) \<Longrightarrow> c < 128 \<and> c \<noteq> 46"
proof -
  have hex: "of_char (hex_char d) < (128 :: nat) \<and> of_char (hex_char d) \<noteq> (46 :: nat)" if "d < 16" for d
    using that by (auto simp: hex_char_def)
  have halves: "(of_char x :: nat) div 16 < 16" "(of_char x :: nat) mod 16 < 16" for x :: char
    using nat_of_char_less_256 [of x] by (auto intro!: less_mult_imp_div_less)
  assume "c \<in> set (lit (signature sg data))"
  then show ?thesis using hex halves
    by (auto simp: lit_def signature_def bytes_hex_def dest!: in_set_takeD)
qed

lemma decode_encode_payload:
  assumes "encode_payload sg payload = Inr token" "wf_json (JDict payload)"
  shows "decode_payload sg token = Inr payload"
proof -
  obtain data where data: "json_dumps (JDict payload) = Some data"
      and token: "token = lit (b64_encode data) @ 46 # lit (signature sg data)"
    using assms(1) by (auto simp: encode_payload_def split: option.splits)
  have "rpartition_dot token = Some (lit (b64_encode data), lit (signature sg data))"
    unfolding token using signature_chars by (intro rpartition_dot_append) blast
  moreover have "\<not> list_ex (\<lambda>c. 128 \<le> c) (lit (signature sg data))"
    using signature_chars [of _ sg data] by (fastforce simp: list_ex_iff)
  moreover have "loads_bytes sg data = Some (JDict payload)"
  proof -
    have "data = json_text (JDict payload)" using data by (simp add: json_dumps_def split: if_split_asm)
    then have "plain_ascii data" using ascii_json_text [OF assms(2)] by simp
    then show ?thesis using json_loads_dumps [OF data assms(2)] by (simp only: loads_bytes_def if_True)
  qed
  ultimately show ?thesis by (simp add: decode_payload_def b64_decode_encode)
qed

end
