(* ===== verification/Nav_Token.thy ===== *)
theory Nav_Token
  imports Nav_Payload
begin

text \<open>
  \<^verbatim>\<open>NavigationToken\<close> of \<^verbatim>\<open>pagination.py\<close>: the cursor of history and search pages, its
  validation, and its two codecs. A \<^verbatim>\<open>bool\<close> is an \<^verbatim>\<open>int\<close> in Python, so \<^verbatim>\<open>true\<close> reads as 1
  where an integer is expected.
\<close>

datatype NavigationKind = HISTORY | SEARCH

datatype HistoryDirection = NEWEST | OLDEST

record NavigationToken =
  nt_kind :: NavigationKind
  nt_value :: "int option"
  nt_dialog_id :: int
  nt_topic_id :: "int option"
  nt_query :: "py_str option"
  nt_direction :: "HistoryDirection option"
  nt_sent_at :: "int option"
  nt_message_state :: "py_str option"
  nt_unread :: bool
  nt_since_utc :: "int option"
  nt_until_utc :: "int option"
  nt_draft_key :: "py_str option"
  nt_draft_fingerprint :: "py_str option"
  nt_scheduled_message_id :: "int option"
  nt_scheduled_sent_at :: "int option"

section \<open>Validation\<close>

abbreviation require :: "bool \<Rightarrow> nav_error + unit" where
  "require b \<equiv> guard b Nav_Value_Error"

definition validate_navigation_time_range :: "NavigationToken \<Rightarrow> nav_error + unit" where
  "validate_navigation_time_range nt = require (case (nt_since_utc nt, nt_until_utc nt) of
     (Some since, Some until) \<Rightarrow> since < until | _ \<Rightarrow> True)"

definition MESSAGE_STATES :: "py_str list" where
  "MESSAGE_STATES = [lit ''sent'', lit ''scheduled'', lit ''draft'', lit ''all'']"

definition validate_navigation_state :: "NavigationToken \<Rightarrow> nav_error + unit" where
  "validate_navigation_state nt = require (case nt_message_state nt of None \<Rightarrow> False | Some m \<Rightarrow> m \<in> set MESSAGE_STATES)"

definition validate_search_navigation :: "NavigationToken \<Rightarrow> nav_error + unit" where
  "validate_search_navigation nt =
     then_check (require (\<not> nt_unread nt))
    (then_check (require (nt_query nt \<noteq> None))
    (then_check (require (nt_value nt \<noteq> None))
    (require (\<not> (nt_topic_id nt \<noteq> None \<or> nt_direction nt \<noteq> None \<or> nt_sent_at nt \<noteq> None \<or>
       nt_draft_key nt \<noteq> None \<or> nt_draft_fingerprint nt \<noteq> None \<or> nt_scheduled_message_id nt \<noteq> None \<or>
       nt_scheduled_sent_at nt \<noteq> None)))))"

definition is_draft_cursor :: "NavigationToken \<Rightarrow> bool" where
  "is_draft_cursor nt \<longleftrightarrow> nt_draft_key nt \<noteq> None \<or> nt_draft_fingerprint nt \<noteq> None"

definition validate_draft_cursor :: "NavigationToken \<Rightarrow> nav_error + unit" where
  "validate_draft_cursor nt =
     then_check (require (nt_message_state nt = Some (lit ''draft'')))
    (then_check (require (\<not> (nt_draft_key nt = None \<or> nt_draft_fingerprint nt = None \<or> nt_value nt \<noteq> None)))
    (require (\<not> (nt_scheduled_message_id nt \<noteq> None \<or> nt_scheduled_sent_at nt \<noteq> None))))"

definition validate_all_scheduled_position :: "NavigationToken \<Rightarrow> nav_error + unit" where
  "validate_all_scheduled_position nt =
     then_check (require (\<not> (nt_scheduled_sent_at nt \<noteq> None \<and> nt_scheduled_message_id nt = None)))
    (require (case nt_scheduled_message_id nt of None \<Rightarrow> True | Some i \<Rightarrow> 0 < i))"

definition validate_all_history_cursor :: "NavigationToken \<Rightarrow> nav_error + unit" where
  "validate_all_history_cursor nt =
     then_check (require ((nt_value nt = None) = (nt_sent_at nt = None)))
    (then_check (validate_all_scheduled_position nt)
    (then_check (require (\<not> (nt_draft_key nt \<noteq> None \<and> nt_draft_fingerprint nt = None)))
    (require (\<not> (nt_value nt = None \<and> nt_scheduled_message_id nt = None \<and> nt_draft_key nt = None)))))"

definition validate_history_navigation :: "NavigationToken \<Rightarrow> nav_error + unit" where
  "validate_history_navigation nt =
     then_check (require (nt_query nt = None))
    (if nt_message_state nt = Some (lit ''all'') then validate_all_history_cursor nt
     else if is_draft_cursor nt then validate_draft_cursor nt
     else require (nt_value nt \<noteq> None))"

definition validate_navigation_shape :: "NavigationToken \<Rightarrow> nav_error + unit" where
  "validate_navigation_shape nt =
     then_check (validate_navigation_time_range nt)
    (then_check (validate_navigation_state nt)
    (if nt_kind nt = SEARCH then validate_search_navigation nt else validate_history_navigation nt))"

section \<open>Encoding\<close>

text \<open>An entry that is present when its value is not \<^verbatim>\<open>None\<close>.\<close>

definition entry :: "string \<Rightarrow> ('a \<Rightarrow> json) \<Rightarrow> 'a option \<Rightarrow> (py_str \<times> json) list" where
  "entry name f v = (case v of None \<Rightarrow> [] | Some x \<Rightarrow> [(lit name, f x)])"

abbreviation required :: "string \<Rightarrow> json \<Rightarrow> (py_str \<times> json) list" where
  "required name v \<equiv> entry name id (Some v)"

fun direction_json :: "HistoryDirection \<Rightarrow> json" where
  "direction_json NEWEST = JStr (lit ''newest'')"
| "direction_json OLDEST = JStr (lit ''oldest'')"

fun kind_json :: "NavigationKind \<Rightarrow> json" where
  "kind_json HISTORY = JStr (lit ''history'')"
| "kind_json SEARCH = JStr (lit ''search'')"

definition optional_navigation_fields :: "NavigationToken \<Rightarrow> (py_str \<times> json) list" where
  "optional_navigation_fields nt =
     entry ''topic_id'' JInt (nt_topic_id nt) @ entry ''query'' JStr (nt_query nt) @
     entry ''direction'' direction_json (nt_direction nt) @ entry ''sent_at'' JInt (nt_sent_at nt) @
     entry ''message_state'' JStr (nt_message_state nt) @ entry ''since_utc'' JInt (nt_since_utc nt) @
     entry ''until_utc'' JInt (nt_until_utc nt) @ entry ''draft_key'' JStr (nt_draft_key nt) @
     entry ''draft_fingerprint'' JStr (nt_draft_fingerprint nt) @
     entry ''scheduled_message_id'' JInt (nt_scheduled_message_id nt) @
     entry ''scheduled_sent_at'' JInt (nt_scheduled_sent_at nt) @
     entry ''unread'' JBool (if nt_kind nt = HISTORY then Some (nt_unread nt) else None)"

definition navigation_payload :: "NavigationToken \<Rightarrow> (py_str \<times> json) list" where
  "navigation_payload nt = required ''kind'' (kind_json (nt_kind nt)) @ required ''dialog_id'' (JInt (nt_dialog_id nt)) @
     entry ''value'' JInt (nt_value nt) @ optional_navigation_fields nt"

definition encode_navigation_token :: "Signer \<Rightarrow> NavigationToken \<Rightarrow> nav_error + py_str" where
  "encode_navigation_token sg nt =
     then_check (validate_navigation_shape nt) (encode_payload sg (navigation_payload nt))"

section \<open>Decoding\<close>

text \<open>\<^verbatim>\<open>data.get(name)\<close>\<close>

definition lookup :: "(py_str \<times> json) list \<Rightarrow> string \<Rightarrow> json" where
  "lookup data name = (case od_get data (lit name) of None \<Rightarrow> JNull | Some v \<Rightarrow> v)"

text \<open>\<^verbatim>\<open>isinstance(value, int)\<close>, with the integer it stands for.\<close>

fun as_int :: "json \<Rightarrow> int option" where
  "as_int (JInt i) = Some i"
| "as_int (JBool b) = Some (of_bool b)"
| "as_int v = None"

definition int_field :: "json \<Rightarrow> nav_error + int" where
  "int_field v = (case as_int v of None \<Rightarrow> Inl Nav_Value_Error | Some i \<Rightarrow> Inr i)"

definition optional_int :: "(py_str \<times> json) list \<Rightarrow> string \<Rightarrow> nav_error + int option" where
  "optional_int data name =
     (let v = lookup data name in if v = JNull then Inr None else map_sum id Some (int_field v))"

definition optional_str :: "(py_str \<times> json) list \<Rightarrow> string \<Rightarrow> nav_error + py_str option" where
  "optional_str data name = (case lookup data name of
     JNull \<Rightarrow> Inr None | JStr s \<Rightarrow> Inr (Some s) | _ \<Rightarrow> Inl Nav_Value_Error)"

definition direction_of :: "py_str \<Rightarrow> nav_error + HistoryDirection" where
  "direction_of s = (if s = lit ''newest'' then Inr NEWEST
     else if s = lit ''oldest'' then Inr OLDEST else Inl Nav_Value_Error)"

definition optional_direction :: "(py_str \<times> json) list \<Rightarrow> nav_error + HistoryDirection option" where
  "optional_direction data = and_then (optional_str data ''direction'') (\<lambda>s.
     case s of None \<Rightarrow> Inr None | Some d \<Rightarrow> map_sum id Some (direction_of d))"

definition optional_message_state :: "(py_str \<times> json) list \<Rightarrow> nav_error + py_str option" where
  "optional_message_state data = and_then (optional_str data ''message_state'') (\<lambda>s.
     case s of None \<Rightarrow> Inr None | Some m \<Rightarrow> if m \<in> set MESSAGE_STATES then Inr (Some m) else Inl Nav_Value_Error)"

text \<open>
  Membership of a JSON value in a set of strings: a list or an object cannot be hashed.
\<close>

fun unhashable :: "json \<Rightarrow> bool" where
  "unhashable (JList vs) = True"
| "unhashable (JDict d) = True"
| "unhashable v = False"

definition kind_of :: "json \<Rightarrow> nav_error + NavigationKind" where
  "kind_of v = (if unhashable v then Inl Nav_Type_Error
     else if v = JStr (lit ''history'') then Inr HISTORY
     else if v = JStr (lit ''search'') then Inr SEARCH else Inl Nav_Value_Error)"

text \<open>
  \<^verbatim>\<open>_decode_navigation_identity_fields\<close> and \<^verbatim>\<open>_decode_navigation_local_fields\<close>, into the token
  of the given kind, value, dialog and unread mode.
\<close>

definition decode_optional_navigation_fields :: "(py_str \<times> json) list \<Rightarrow> NavigationKind \<Rightarrow> int option \<Rightarrow> int \<Rightarrow> bool \<Rightarrow>
    nav_error + NavigationToken" where
  "decode_optional_navigation_fields data kind value dialog_id unread =
     and_then (optional_int data ''topic_id'') (\<lambda>topic_id.
     and_then (optional_str data ''query'') (\<lambda>query.
     and_then (optional_direction data) (\<lambda>direction.
     and_then (optional_int data ''sent_at'') (\<lambda>sent_at.
     and_then (optional_message_state data) (\<lambda>message_state.
     and_then (optional_int data ''since_utc'') (\<lambda>since_utc.
     and_then (optional_int data ''until_utc'') (\<lambda>until_utc.
     and_then (optional_str data ''draft_key'') (\<lambda>draft_key.
     and_then (optional_str data ''draft_fingerprint'') (\<lambda>draft_fingerprint.
     and_then (optional_int data ''scheduled_message_id'') (\<lambda>scheduled_message_id.
     and_then (optional_int data ''scheduled_sent_at'') (\<lambda>scheduled_sent_at.
       Inr \<lparr>nt_kind = kind, nt_value = value, nt_dialog_id = dialog_id, nt_topic_id = topic_id, nt_query = query,
         nt_direction = direction, nt_sent_at = sent_at, nt_message_state = message_state, nt_unread = unread,
         nt_since_utc = since_utc, nt_until_utc = until_utc, nt_draft_key = draft_key,
         nt_draft_fingerprint = draft_fingerprint, nt_scheduled_message_id = scheduled_message_id,
         nt_scheduled_sent_at = scheduled_sent_at\<rparr>)))))))))))"

definition decode_navigation_token :: "Signer \<Rightarrow> py_str \<Rightarrow> nav_error + NavigationToken" where
  "decode_navigation_token sg token =
     and_then (decode_payload sg token) (\<lambda>data.
     and_then (kind_of (lookup data ''kind'')) (\<lambda>kind.
     and_then (optional_int data ''value'') (\<lambda>value.
     and_then (int_field (lookup data ''dialog_id'')) (\<lambda>dialog_id.
     (let raw_unread = lookup data ''unread''; unread = (raw_unread = JBool True) in
     and_then (decode_optional_navigation_fields data kind value dialog_id unread) (\<lambda>nt.
     then_check (validate_navigation_shape nt)
    (then_check (require (\<not> (kind = HISTORY \<and> raw_unread \<notin> {JBool True, JBool False})))
    (then_check (require (\<not> (kind = SEARCH \<and> od_get data (lit ''unread'') \<noteq> None)))
    (Inr nt)))))))))"

text \<open>
  The two entry points that build a token. The keyword arguments of the first are the fields of
  \<open>nt\<close>; its direction is never absent.
\<close>

definition encode_history_navigation :: "Signer \<Rightarrow> HistoryDirection \<Rightarrow> NavigationToken \<Rightarrow> nav_error + py_str" where
  "encode_history_navigation sg direction nt =
     encode_navigation_token sg (nt\<lparr>nt_kind := HISTORY, nt_query := None, nt_direction := Some direction\<rparr>)"

definition encode_search_navigation :: "Signer \<Rightarrow> int \<Rightarrow> int \<Rightarrow> py_str \<Rightarrow> py_str \<Rightarrow> int option \<Rightarrow> int option \<Rightarrow>
    nav_error + py_str" where
  "encode_search_navigation sg offset dialog_id query message_state since_utc until_utc =
     encode_navigation_token sg \<lparr>nt_kind = SEARCH, nt_value = Some offset, nt_dialog_id = dialog_id, nt_topic_id = None,
       nt_query = Some query, nt_direction = None, nt_sent_at = None, nt_message_state = Some message_state,
       nt_unread = False, nt_since_utc = since_utc, nt_until_utc = until_utc, nt_draft_key = None,
       nt_draft_fingerprint = None, nt_scheduled_message_id = None, nt_scheduled_sent_at = None\<rparr>"

section \<open>Looking up what was encoded\<close>

declare map_of_char_b64 [simp del]

lemma lit_inject [simp]: "lit s = lit t \<longleftrightarrow> s = t"
  by (simp add: lit_def inj_map_eq_map inj_def)

lemma lookup_entry [simp]:
  "lookup (entry n f v @ d) m = (if n = m then (case v of None \<Rightarrow> lookup d m | Some x \<Rightarrow> f x) else lookup d m)"
  "lookup (entry n f v) m = (if n = m then (case v of None \<Rightarrow> JNull | Some x \<Rightarrow> f x) else JNull)"
  "lookup [] m = JNull"
  by (simp_all add: lookup_def entry_def split: option.split)

lemma od_get_entry [simp]:
  "od_get (entry n f v @ d) (lit m) = (if n = m \<and> v \<noteq> None then map_option f v else od_get d (lit m))"
  "od_get (entry n f v) (lit m) = (if n = m then map_option f v else None)"
  by (auto simp: entry_def split: option.split)

lemma entry_keys [simp]: "lit m \<in> fst ` set (entry n f v) \<longleftrightarrow> v \<noteq> None \<and> m = n"
  by (auto simp: entry_def split: option.split)

lemma distinct_entry [simp]:
  "distinct (map fst (entry n f v @ d)) \<longleftrightarrow> distinct (map fst d) \<and> (v \<noteq> None \<longrightarrow> lit n \<notin> fst ` set d)"
  "distinct (map fst (entry n f v))"
  by (auto simp: entry_def split: option.split)

lemma proper_lit: "list_all (\<lambda>c. of_char c < (128 :: nat)) s \<Longrightarrow> proper_text (lit s)"
proof (induction s)
  case (Cons c s)
  then show ?case by (cases s) (auto simp: lit_def)
qed (simp add: lit_def)

lemma wf_entries [simp]:
  "list_all (\<lambda>(k, v). proper_text k \<and> wf_json v) (entry n f v) \<longleftrightarrow>
     pred_option (\<lambda>x. proper_text (lit n) \<and> wf_json (f x)) v"
  by (simp add: entry_def split: option.split)

lemma pred_option_True [simp]: "pred_option (\<lambda>x. True) v"
  by (cases v) simp_all

text \<open>A token whose texts are proper.\<close>

definition proper_token :: "NavigationToken \<Rightarrow> bool" where
  "proper_token nt \<longleftrightarrow> pred_option proper_text (nt_query nt) \<and> pred_option proper_text (nt_draft_key nt) \<and>
     pred_option proper_text (nt_draft_fingerprint nt)"

lemma proper_literals [simp]:
  "proper_text (lit ''kind'')" "proper_text (lit ''dialog_id'')" "proper_text (lit ''value'')"
  "proper_text (lit ''topic_id'')" "proper_text (lit ''query'')" "proper_text (lit ''direction'')"
  "proper_text (lit ''sent_at'')" "proper_text (lit ''message_state'')" "proper_text (lit ''since_utc'')"
  "proper_text (lit ''until_utc'')" "proper_text (lit ''draft_key'')" "proper_text (lit ''draft_fingerprint'')"
  "proper_text (lit ''scheduled_message_id'')" "proper_text (lit ''scheduled_sent_at'')" "proper_text (lit ''unread'')"
  "proper_text (lit ''history'')" "proper_text (lit ''search'')" "proper_text (lit ''newest'')"
  "proper_text (lit ''oldest'')" "proper_text (lit ''sent'')" "proper_text (lit ''scheduled'')"
  "proper_text (lit ''draft'')" "proper_text (lit ''all'')"
  by (rule proper_lit; simp)+

lemma wf_direction [simp]: "wf_json (direction_json d)"
  by (cases d) simp_all

lemma wf_kind [simp]: "wf_json (kind_json k)"
  by (cases k) simp_all

lemma valid_state:
  assumes "validate_navigation_shape nt = Inr ()"
  obtains m where "nt_message_state nt = Some m" "m \<in> set MESSAGE_STATES" "proper_text m"
  using assms
  by (auto simp: validate_navigation_shape_def validate_navigation_state_def MESSAGE_STATES_def
      split: option.splits)

lemma wf_navigation_payload:
  assumes "validate_navigation_shape nt = Inr ()" "proper_token nt"
  shows "wf_json (JDict (navigation_payload nt))"
proof -
  obtain m where "nt_message_state nt = Some m" "proper_text m" using assms(1) by (rule valid_state)
  then have "list_all (\<lambda>(k, v). proper_text k \<and> wf_json v) (navigation_payload nt)"
    using assms(2)
    by (simp add: navigation_payload_def optional_navigation_fields_def proper_token_def)
  moreover have "distinct (map fst (navigation_payload nt))"
    by (simp add: navigation_payload_def optional_navigation_fields_def image_Un del: map_append distinct_append)
  ultimately show ?thesis by simp
qed

lemma optional_int_of [simp]:
  "lookup d n = (case v of None \<Rightarrow> JNull | Some i \<Rightarrow> JInt i) \<Longrightarrow> optional_int d n = Inr v"
  by (cases v) (simp_all add: optional_int_def int_field_def)

lemma optional_str_of [simp]:
  "lookup d n = (case v of None \<Rightarrow> JNull | Some s \<Rightarrow> JStr s) \<Longrightarrow> optional_str d n = Inr v"
  by (cases v) (simp_all add: optional_str_def)

lemma optional_direction_of [simp]:
  assumes "lookup d ''direction'' = (case v of None \<Rightarrow> JNull | Some x \<Rightarrow> direction_json x)"
  shows "optional_direction d = Inr v"
proof (cases v)
  case None
  with assms show ?thesis by (simp add: optional_direction_def optional_str_def and_then_def)
next
  case (Some x)
  with assms show ?thesis
    by (cases x) (simp_all add: optional_direction_def optional_str_def and_then_def direction_of_def)
qed

lemma optional_message_state_of [simp]:
  assumes "lookup d ''message_state'' = JStr m" "m \<in> set MESSAGE_STATES"
  shows "optional_message_state d = Inr (Some m)"
  using assms by (simp add: optional_message_state_def optional_str_def and_then_def)

lemma and_then_Inr [simp]: "and_then (Inr a) f = f a"
  by (simp add: and_then_def)

lemma lookup_payload:
  fixes nt
  defines "p \<equiv> navigation_payload nt"
  shows "lookup p ''kind'' = kind_json (nt_kind nt)" "lookup p ''dialog_id'' = JInt (nt_dialog_id nt)"
    "lookup p ''value'' = (case nt_value nt of None \<Rightarrow> JNull | Some i \<Rightarrow> JInt i)"
    "lookup p ''topic_id'' = (case nt_topic_id nt of None \<Rightarrow> JNull | Some i \<Rightarrow> JInt i)"
    "lookup p ''query'' = (case nt_query nt of None \<Rightarrow> JNull | Some s \<Rightarrow> JStr s)"
    "lookup p ''direction'' = (case nt_direction nt of None \<Rightarrow> JNull | Some x \<Rightarrow> direction_json x)"
    "lookup p ''sent_at'' = (case nt_sent_at nt of None \<Rightarrow> JNull | Some i \<Rightarrow> JInt i)"
    "lookup p ''message_state'' = (case nt_message_state nt of None \<Rightarrow> JNull | Some s \<Rightarrow> JStr s)"
    "lookup p ''since_utc'' = (case nt_since_utc nt of None \<Rightarrow> JNull | Some i \<Rightarrow> JInt i)"
    "lookup p ''until_utc'' = (case nt_until_utc nt of None \<Rightarrow> JNull | Some i \<Rightarrow> JInt i)"
    "lookup p ''draft_key'' = (case nt_draft_key nt of None \<Rightarrow> JNull | Some s \<Rightarrow> JStr s)"
    "lookup p ''draft_fingerprint'' = (case nt_draft_fingerprint nt of None \<Rightarrow> JNull | Some s \<Rightarrow> JStr s)"
    "lookup p ''scheduled_message_id'' = (case nt_scheduled_message_id nt of None \<Rightarrow> JNull | Some i \<Rightarrow> JInt i)"
    "lookup p ''scheduled_sent_at'' = (case nt_scheduled_sent_at nt of None \<Rightarrow> JNull | Some i \<Rightarrow> JInt i)"
    "lookup p ''unread'' = (if nt_kind nt = HISTORY then JBool (nt_unread nt) else JNull)"
    "od_get p (lit ''unread'') = (if nt_kind nt = HISTORY then Some (JBool (nt_unread nt)) else None)"
  by (simp_all add: p_def navigation_payload_def optional_navigation_fields_def cong: option.case_cong)

lemma kind_of_json [simp]: "kind_of (kind_json k) = Inr k"
  by (cases k) (simp_all add: kind_of_def)

lemma search_not_unread:
  "validate_navigation_shape nt = Inr () \<Longrightarrow> nt_kind nt = SEARCH \<Longrightarrow> \<not> nt_unread nt"
  by (simp add: validate_navigation_shape_def validate_search_navigation_def)

lemma decode_encoded_navigation:
  assumes encoded: "encode_navigation_token sg nt = Inr token" and proper: "proper_token nt"
  shows "decode_navigation_token sg token = Inr nt"
proof -
  have valid: "validate_navigation_shape nt = Inr ()" and payload: "encode_payload sg (navigation_payload nt) = Inr token"
    using encoded by (simp_all add: encode_navigation_token_def)
  obtain m where m: "nt_message_state nt = Some m" "m \<in> set MESSAGE_STATES" using valid by (rule valid_state)
  have "decode_payload sg token = Inr (navigation_payload nt)"
    using decode_encode_payload [OF payload wf_navigation_payload [OF valid proper]] .
  moreover have "decode_optional_navigation_fields (navigation_payload nt) (nt_kind nt) (nt_value nt) (nt_dialog_id nt) (nt_unread nt) = Inr nt"
    using m by (simp add: decode_optional_navigation_fields_def lookup_payload)
  moreover have "(lookup (navigation_payload nt) ''unread'' = JBool True) = nt_unread nt"
    using search_not_unread [OF valid] by (cases "nt_kind nt") (simp_all add: lookup_payload)
  moreover have "nt_kind nt = SEARCH \<or> nt_kind nt = HISTORY" by (cases "nt_kind nt") simp_all
  ultimately show ?thesis
    using valid
    by (auto simp: decode_navigation_token_def lookup_payload int_field_def Let_def)
qed

text \<open>
  C18. A cursor survives its round trip: whatever history or search position the encoder accepts, the
  text it returns (JSON, base64, signature) decodes to the same position under the same process
  secret, for every keyed digest. The texts in the token only have to be proper: code points in
  range, and no high surrogate before a low one, which JSON would read as one character.
\<close>

theorem navigation_token_roundtrip:
  assumes "encode_navigation_token sg nt = Inr token" and "proper_token nt"
  shows "decode_navigation_token sg token = Inr nt"
  using assms by (rule decode_encoded_navigation)

text \<open>Positions for the witnesses, under a digest that does not depend on the data.\<close>

definition nav_signer :: Signer where
  "nav_signer = \<lparr>sg_digest = (\<lambda>data. replicate 32 (CHR 0xA5)), sg_foreign = (\<lambda>data. None)\<rparr>"

definition nav_sample :: NavigationToken where
  "nav_sample = \<lparr>nt_kind = SEARCH, nt_value = Some 20, nt_dialog_id = -1001234567890, nt_topic_id = None,
     nt_query = Some [233, 0x1F600, 34], nt_direction = None, nt_sent_at = None, nt_message_state = Some (lit ''sent''),
     nt_unread = False, nt_since_utc = Some 1700000000, nt_until_utc = None, nt_draft_key = None,
     nt_draft_fingerprint = None, nt_scheduled_message_id = None, nt_scheduled_sent_at = None\<rparr>"

lemma length_nat_text: "n < 10 ^ k \<Longrightarrow> 0 < k \<Longrightarrow> length (nat_text n) \<le> k"
proof (induction n arbitrary: k rule: nat_text.induct)
  case (1 n)
  show ?case
  proof (cases "n < 10")
    case True
    with 1 show ?thesis by (subst nat_text.simps) simp
  next
    case False
    obtain k' where k: "k = Suc k'" using 1(3) by (cases k) simp_all
    have "0 < k'" using 1(2) False k by (cases k') simp_all
    then have "length (nat_text (n div 10)) \<le> k'" using 1 False k by (simp add: less_mult_imp_div_less)
    with False k show ?thesis by (subst nat_text.simps) simp
  qed
qed

lemma printable_int64: "- (2 ^ 63) \<le> i \<Longrightarrow> i < 2 ^ 63 \<Longrightarrow> printable (JInt i)"
proof -
  assume "- (2 ^ 63) \<le> i" "i < 2 ^ 63"
  then have "nat \<bar>i\<bar> < 10 ^ 19" by (simp add: nat_less_iff)
  then have "length (nat_text (nat \<bar>i\<bar>)) \<le> 19" by (rule length_nat_text) simp
  then show ?thesis by (simp add: MAX_INT_DIGITS_def)
qed

lemma nav_sample_encodes: "\<exists>token. encode_navigation_token nav_signer nav_sample = Inr token"
proof -
  have "validate_navigation_shape nav_sample = Inr ()"
    by (simp add: nav_sample_def validate_navigation_shape_def validate_navigation_time_range_def
        validate_navigation_state_def validate_search_navigation_def MESSAGE_STATES_def)
  moreover have "printable (JDict (navigation_payload nav_sample))"
    by (simp add: nav_sample_def navigation_payload_def optional_navigation_fields_def entry_def printable_int64
        del: printable.simps(1))
  ultimately show ?thesis by (simp add: encode_navigation_token_def encode_payload_def json_dumps_def del: printable.simps(3))
qed

lemma nav_sample_proper: "proper_token nav_sample"
  by (simp add: proper_token_def nav_sample_def)

theorem navigation_token_roundtrip_witness:
  "case encode_navigation_token nav_signer nav_sample of Inl e \<Rightarrow> False
   | Inr token \<Rightarrow> decode_navigation_token nav_signer token = Inr nav_sample"
  using nav_sample_encodes navigation_token_roundtrip [OF _ nav_sample_proper] by auto

section \<open>What the decoder accepts\<close>

lemma decode_payload_signed:
  assumes "decode_payload sg token = Inr d"
  obtains encoded data where "token = encoded @ 46 # lit (signature sg data)" "b64_decode encoded = Some data"
    "loads_bytes sg data = Some (JDict d)"
proof -
  have split: "rpartition_dot t = Some (e, m) \<Longrightarrow> t = e @ 46 # m" for t e m
    by (induction t arbitrary: e) (auto split: option.splits if_splits)
  obtain e data where "rpartition_dot token = Some (e, lit (signature sg data))" "b64_decode e = Some data"
      "loads_bytes sg data = Some (JDict d)"
    using assms by (auto simp: decode_payload_def split: option.splits if_splits json.splits)
  then show ?thesis using that split by blast
qed

lemma decoded_fields:
  assumes "decode_optional_navigation_fields d kind value dialog_id unread = Inr nt"
  shows "nt_kind nt = kind \<and> nt_value nt = value \<and> nt_dialog_id nt = dialog_id \<and> nt_unread nt = unread \<and>
    optional_str d ''query'' = Inr (nt_query nt) \<and> optional_int d ''since_utc'' = Inr (nt_since_utc nt) \<and>
    optional_int d ''until_utc'' = Inr (nt_until_utc nt) \<and> optional_int d ''topic_id'' = Inr (nt_topic_id nt)"
  using assms unfolding decode_optional_navigation_fields_def by (auto elim!: and_then_okE)

text \<open>
  The decoder accepts only what is signed and bound. A text that decodes to a position ends in
  the signature, under the process secret, of exactly the bytes it carries; its position has the
  shape the validator demands (so a search cursor carries its query and its offset, a history
  cursor a position in each stream it continues, a time range is not empty); and a history cursor
  states its unread mode while a search cursor has none.
\<close>

theorem accepted_token_is_bound:
  assumes "decode_navigation_token sg token = Inr nt"
  shows "validate_navigation_shape nt = Inr () \<and>
    (\<exists>encoded data d. token = encoded @ 46 # lit (signature sg data) \<and> b64_decode encoded = Some data \<and>
       loads_bytes sg data = Some (JDict d) \<and> lookup d ''kind'' = kind_json (nt_kind nt) \<and>
       as_int (lookup d ''dialog_id'') = Some (nt_dialog_id nt) \<and>
       od_get d (lit ''unread'') = (if nt_kind nt = HISTORY then Some (JBool (nt_unread nt)) else None))"
proof -
  from assms obtain d kind position dialog_id where d: "decode_payload sg token = Inr d"
      and kind: "kind_of (lookup d ''kind'') = Inr kind" and dialog: "int_field (lookup d ''dialog_id'') = Inr dialog_id"
      and nt: "decode_optional_navigation_fields d kind position dialog_id (lookup d ''unread'' = JBool True) = Inr nt"
      and shape: "validate_navigation_shape nt = Inr ()"
      and history: "kind = HISTORY \<Longrightarrow> lookup d ''unread'' \<in> {JBool True, JBool False}"
      and search: "kind = SEARCH \<Longrightarrow> od_get d (lit ''unread'') = None"
    unfolding decode_navigation_token_def Let_def by (auto elim!: and_then_okE)
  have "lookup d ''kind'' = kind_json kind"
    using kind by (auto simp: kind_of_def split: if_splits)
  moreover have "as_int (lookup d ''dialog_id'') = Some dialog_id"
    using dialog by (auto simp: int_field_def split: option.splits)
  moreover have "od_get d (lit ''unread'') = (if kind = HISTORY then Some (JBool (lookup d ''unread'' = JBool True)) else None)"
    using history search by (cases kind) (auto simp: lookup_def split: option.splits)
  moreover obtain encoded data where "token = encoded @ 46 # lit (signature sg data)" "b64_decode encoded = Some data"
      "loads_bytes sg data = Some (JDict d)"
    using decode_payload_signed [OF d] by blast
  moreover have "nt_kind nt = kind" "nt_dialog_id nt = dialog_id" "nt_unread nt = (lookup d ''unread'' = JBool True)"
    using decoded_fields [OF nt] by simp_all
  ultimately show ?thesis
    using shape by (intro conjI exI [of _ encoded] exI [of _ data] exI [of _ d]) simp_all
qed

theorem accepted_token_is_bound_witness:
  "case encode_navigation_token nav_signer nav_sample of Inl e \<Rightarrow> False
   | Inr token \<Rightarrow> (\<exists>encoded data. token = encoded @ 46 # lit (signature nav_signer data))"
  using nav_sample_encodes accepted_token_is_bound [OF decode_encoded_navigation [OF _ nav_sample_proper]]
  by fastforce

text \<open>No step after the lookup of the kind raises \<^verbatim>\<open>TypeError\<close>.\<close>

lemma and_then_no_type:
  "r \<noteq> Inl Nav_Type_Error \<Longrightarrow> (\<And>a. r = Inr a \<Longrightarrow> f a \<noteq> Inl Nav_Type_Error) \<Longrightarrow> and_then r f \<noteq> Inl Nav_Type_Error"
  by (cases r) (simp_all add: and_then_def)

lemma then_no_type: "a \<noteq> Inl Nav_Type_Error \<Longrightarrow> r \<noteq> Inl Nav_Type_Error \<Longrightarrow> then_check a r \<noteq> Inl Nav_Type_Error"
  by (cases a) simp_all

lemma if_no_type: "a \<noteq> Inl Nav_Type_Error \<Longrightarrow> b \<noteq> Inl Nav_Type_Error \<Longrightarrow> (if c then a else b) \<noteq> Inl Nav_Type_Error"
  by simp

lemma require_no_type: "guard b Nav_Value_Error \<noteq> Inl Nav_Type_Error"
  by (simp add: guard_def)

lemma fields_no_type:
  "int_field v \<noteq> Inl Nav_Type_Error" "optional_int d n \<noteq> Inl Nav_Type_Error" "optional_str d n \<noteq> Inl Nav_Type_Error"
  "optional_direction d \<noteq> Inl Nav_Type_Error" "optional_message_state d \<noteq> Inl Nav_Type_Error"
proof -
  show int: "int_field v \<noteq> Inl Nav_Type_Error" for v by (simp add: int_field_def split: option.split)
  show "optional_int d n \<noteq> Inl Nav_Type_Error"
    using int [of "lookup d n"] by (cases "int_field (lookup d n)") (simp_all add: optional_int_def Let_def)
  show str: "optional_str d n \<noteq> Inl Nav_Type_Error" for n by (simp add: optional_str_def split: json.split)
  show "optional_direction d \<noteq> Inl Nav_Type_Error"
    unfolding optional_direction_def
    by (rule and_then_no_type [OF str]) (simp add: direction_of_def split: option.split)
  show "optional_message_state d \<noteq> Inl Nav_Type_Error"
    unfolding optional_message_state_def
    by (rule and_then_no_type [OF str]) (simp split: option.split)
qed

lemma shape_no_type: "validate_navigation_shape nt \<noteq> Inl Nav_Type_Error"
proof -
  have "validate_navigation_time_range nt \<noteq> Inl Nav_Type_Error" "validate_navigation_state nt \<noteq> Inl Nav_Type_Error"
    "validate_search_navigation nt \<noteq> Inl Nav_Type_Error" "validate_draft_cursor nt \<noteq> Inl Nav_Type_Error"
    "validate_all_scheduled_position nt \<noteq> Inl Nav_Type_Error"
    unfolding validate_navigation_time_range_def validate_navigation_state_def validate_search_navigation_def
      validate_draft_cursor_def validate_all_scheduled_position_def
    by (intro then_no_type require_no_type)+
  moreover from this have "validate_all_history_cursor nt \<noteq> Inl Nav_Type_Error"
    unfolding validate_all_history_cursor_def by (intro then_no_type require_no_type)
  ultimately show ?thesis
    unfolding validate_navigation_shape_def validate_history_navigation_def
    by (intro then_no_type if_no_type require_no_type)
qed

lemma optional_fields_no_type: "decode_optional_navigation_fields d kind position dialog_id unread \<noteq> Inl Nav_Type_Error"
  unfolding decode_optional_navigation_fields_def by (intro and_then_no_type fields_no_type) simp

lemma decode_rest_no_type:
  "and_then (optional_int d ''value'') (\<lambda>value.
     and_then (int_field (lookup d ''dialog_id'')) (\<lambda>dialog_id.
     (let raw_unread = lookup d ''unread''; unread = (raw_unread = JBool True) in
     and_then (decode_optional_navigation_fields d kind value dialog_id unread) (\<lambda>nt.
     then_check (validate_navigation_shape nt)
    (then_check (require (\<not> (kind = HISTORY \<and> raw_unread \<notin> {JBool True, JBool False})))
    (then_check (require (\<not> (kind = SEARCH \<and> od_get d (lit ''unread'') \<noteq> None)))
    (Inr nt))))))) \<noteq> Inl Nav_Type_Error"
  unfolding Let_def
  by (intro and_then_no_type fields_no_type optional_fields_no_type then_no_type shape_no_type require_no_type) simp

lemma kind_type_error: "kind_of v = Inl Nav_Type_Error \<longleftrightarrow> unhashable v"
  by (auto simp: kind_of_def)

lemma payload_type_error:
  "decode_payload sg token = Inl Nav_Type_Error \<longleftrightarrow>
     (\<exists>encoded mac data. rpartition_dot token = Some (encoded, mac) \<and> b64_decode encoded = Some data \<and>
        list_ex (\<lambda>c. 128 \<le> c) mac)"
  by (auto simp: decode_payload_def split: option.splits json.splits)

lemma payload_ok:
  "decode_payload sg token = Inr d \<longleftrightarrow>
     (\<exists>encoded data. rpartition_dot token = Some (encoded, lit (signature sg data)) \<and> b64_decode encoded = Some data \<and>
        loads_bytes sg data = Some (JDict d))"
proof -
  have "\<not> list_ex (\<lambda>c. 128 \<le> c) (lit (signature sg data))" for data
    using signature_chars [of _ sg data] by (fastforce simp: list_ex_iff)
  then show ?thesis by (auto simp: decode_payload_def split: option.splits json.splits)
qed

text \<open>
  C19. When decoding raises \<^verbatim>\<open>TypeError\<close> instead of the documented \<^verbatim>\<open>ValueError\<close>: a text whose part
  after the last dot has a character beyond ASCII, and whose part before it is base64, makes
  \<^verbatim>\<open>hmac.compare_digest\<close> raise it; apart from that only a correctly signed payload whose kind is a
  list or an object does. The callers catch \<^verbatim>\<open>ValueError\<close> only.
\<close>

theorem decode_type_error_iff:
  "decode_navigation_token sg token = Inl Nav_Type_Error \<longleftrightarrow>
     (\<exists>encoded mac data. rpartition_dot token = Some (encoded, mac) \<and> b64_decode encoded = Some data \<and>
        (list_ex (\<lambda>c. 128 \<le> c) mac \<or>
         mac = lit (signature sg data) \<and> (\<exists>d. loads_bytes sg data = Some (JDict d) \<and> unhashable (lookup d ''kind''))))"
proof -
  have "decode_navigation_token sg token = Inl Nav_Type_Error \<longleftrightarrow>
      decode_payload sg token = Inl Nav_Type_Error \<or>
      (\<exists>d. decode_payload sg token = Inr d \<and> unhashable (lookup d ''kind''))"
  proof (cases "decode_payload sg token")
    case (Inr d)
    then show ?thesis
      using decode_rest_no_type [of d] kind_type_error [of "lookup d ''kind''"]
      by (cases "kind_of (lookup d ''kind'')") (auto simp: decode_navigation_token_def and_then_def [of "Inl _"])
  qed (simp add: decode_navigation_token_def and_then_def)
  then show ?thesis unfolding payload_type_error payload_ok by blast
qed

end
