(* ===== verification/Nav_Cursors.thy ===== *)
theory Nav_Cursors
  imports Nav_Token
begin

text \<open>
  The other cursors of \<^verbatim>\<open>pagination.py\<close>: the scheduled queue, the account trace, the entity
  profile and the dialog directory. Fields that the code casts without a check keep the JSON
  value (\<open>read_scope\<close> until it is validated, \<open>filter_fingerprint\<close> for good).
\<close>

section \<open>Scheduled queue\<close>

record ScheduledQueueNavigationToken =
  sq_account_id :: int
  sq_read_scope :: json
  sq_dialog_id :: "int option"
  sq_direction :: HistoryDirection
  sq_filter_fingerprint :: json
  sq_time_bucket :: int
  sq_scheduled_at :: "int option"
  sq_anchor_dialog_id :: int
  sq_message_id :: int

text \<open>\<^verbatim>\<open>bool(value)\<close>; a real is false when its digits before the exponent are zero.\<close>

fun truthy :: "json \<Rightarrow> bool" where
  "truthy JNull = False"
| "truthy (JBool b) = b"
| "truthy (JInt i) = (i \<noteq> 0)"
| "truthy (JReal t) = list_ex (\<lambda>c. c \<notin> set ''-.0'') (takeWhile (\<lambda>c. c \<notin> set ''eE'') t)"
| "truthy (JStr s) = (s \<noteq> [])"
| "truthy (JList vs) = (vs \<noteq> [])"
| "truthy (JDict d) = (d \<noteq> [])"

definition validate_scheduled_queue_navigation :: "ScheduledQueueNavigationToken \<Rightarrow> nav_error + unit" where
  "validate_scheduled_queue_navigation sq =
     then_check (require (\<not> (sq_account_id sq \<le> 0 \<or> sq_anchor_dialog_id sq = 0 \<or> sq_message_id sq \<le> 0)))
    (then_check (guard (\<not> unhashable (sq_read_scope sq)) Nav_Type_Error)
    (then_check (require (sq_read_scope sq \<in> {JStr (lit ''dialog''), JStr (lit ''all_dialogs'')}))
    (then_check (require ((sq_read_scope sq = JStr (lit ''dialog'')) = (sq_dialog_id sq \<noteq> None)))
    (then_check (require (\<not> (sq_time_bucket sq \<notin> {0, 1} \<or> (sq_time_bucket sq = 0) \<noteq> (sq_scheduled_at sq = None))))
    (require (truthy (sq_filter_fingerprint sq)))))))"

definition scheduled_payload :: "ScheduledQueueNavigationToken \<Rightarrow> (py_str \<times> json) list" where
  "scheduled_payload sq = required ''kind'' (JStr (lit ''scheduled_queue'')) @
     required ''account_id'' (JInt (sq_account_id sq)) @ required ''read_scope'' (sq_read_scope sq) @
     required ''direction'' (direction_json (sq_direction sq)) @
     required ''filter_fingerprint'' (sq_filter_fingerprint sq) @ required ''time_bucket'' (JInt (sq_time_bucket sq)) @
     required ''anchor_dialog_id'' (JInt (sq_anchor_dialog_id sq)) @ required ''message_id'' (JInt (sq_message_id sq)) @
     entry ''dialog_id'' JInt (sq_dialog_id sq) @ entry ''scheduled_at'' JInt (sq_scheduled_at sq)"

definition encode_scheduled_queue_navigation :: "Signer \<Rightarrow> ScheduledQueueNavigationToken \<Rightarrow> nav_error + py_str" where
  "encode_scheduled_queue_navigation sg sq =
     then_check (validate_scheduled_queue_navigation sq) (encode_payload sg (scheduled_payload sq))"

text \<open>\<^verbatim>\<open>type(value) is int\<close>: a \<^verbatim>\<open>bool\<close> is refused here.\<close>

definition scheduled_int :: "(py_str \<times> json) list \<Rightarrow> string \<Rightarrow> nav_error + int" where
  "scheduled_int data name = (case lookup data name of JInt i \<Rightarrow> Inr i | _ \<Rightarrow> Inl Nav_Value_Error)"

definition scheduled_optional_int :: "(py_str \<times> json) list \<Rightarrow> string \<Rightarrow> nav_error + int option" where
  "scheduled_optional_int data name = (case lookup data name of
     JNull \<Rightarrow> Inr None | JInt i \<Rightarrow> Inr (Some i) | _ \<Rightarrow> Inl Nav_Value_Error)"

text \<open>\<^verbatim>\<open>HistoryDirection(value)\<close>\<close>

definition direction_of_json :: "json \<Rightarrow> nav_error + HistoryDirection" where
  "direction_of_json v = (case v of JStr s \<Rightarrow> direction_of s | _ \<Rightarrow> Inl Nav_Value_Error)"

definition decode_scheduled_queue_navigation :: "Signer \<Rightarrow> py_str \<Rightarrow> nav_error + ScheduledQueueNavigationToken" where
  "decode_scheduled_queue_navigation sg token =
     and_then (decode_payload sg token) (\<lambda>data.
     then_check (require (lookup data ''kind'' = JStr (lit ''scheduled_queue'')))
    (and_then (scheduled_int data ''account_id'') (\<lambda>account_id.
     and_then (scheduled_optional_int data ''dialog_id'') (\<lambda>dialog_id.
     and_then (direction_of_json (lookup data ''direction'')) (\<lambda>direction.
     and_then (scheduled_int data ''time_bucket'') (\<lambda>time_bucket.
     and_then (scheduled_optional_int data ''scheduled_at'') (\<lambda>scheduled_at.
     and_then (scheduled_int data ''anchor_dialog_id'') (\<lambda>anchor_dialog_id.
     and_then (scheduled_int data ''message_id'') (\<lambda>message_id.
     (let sq = \<lparr>sq_account_id = account_id, sq_read_scope = lookup data ''read_scope'', sq_dialog_id = dialog_id,
        sq_direction = direction, sq_filter_fingerprint = lookup data ''filter_fingerprint'',
        sq_time_bucket = time_bucket, sq_scheduled_at = scheduled_at, sq_anchor_dialog_id = anchor_dialog_id,
        sq_message_id = message_id\<rparr>
      in then_check (validate_scheduled_queue_navigation sq) (Inr sq)))))))))))"

section \<open>Account trace\<close>

datatype AccountTraceGroupBy = BY_TIMELINE | BY_DIALOG

datatype AccountTraceView = VIEW_DIALOGS | VIEW_MESSAGES

record AccountTraceNavigationToken =
  tt_target_user_id :: int
  tt_sent_at :: int
  tt_dialog_id :: int
  tt_message_id :: int
  tt_group_by :: AccountTraceGroupBy
  tt_view :: AccountTraceView
  tt_exact_dialog_id :: "int option"
  tt_exact_topic_id :: "int option"
  tt_sent_after :: "py_str option"
  tt_sent_before :: "py_str option"
  tt_scope_dialog_ids :: "int list option"

text \<open>The request has the fields of the token.\<close>

type_synonym AccountTraceNavigationRequest = AccountTraceNavigationToken

record AccountTraceNavigationContext =
  tc_target_user_id :: int
  tc_group_by :: AccountTraceGroupBy
  tc_view :: AccountTraceView
  tc_exact_dialog_id :: "int option"
  tc_exact_topic_id :: "int option"
  tc_sent_after :: "py_str option"
  tc_sent_before :: "py_str option"

definition MAX_SCOPE_DIALOG_IDS :: nat where "MAX_SCOPE_DIALOG_IDS = 2"

fun group_by_json :: "AccountTraceGroupBy \<Rightarrow> json" where
  "group_by_json BY_TIMELINE = JStr (lit ''timeline'')"
| "group_by_json BY_DIALOG = JStr (lit ''dialog'')"

fun view_json :: "AccountTraceView \<Rightarrow> json" where
  "view_json VIEW_DIALOGS = JStr (lit ''dialogs'')"
| "view_json VIEW_MESSAGES = JStr (lit ''messages'')"

definition trace_payload :: "AccountTraceNavigationRequest \<Rightarrow> (py_str \<times> json) list" where
  "trace_payload tt = required ''kind'' (JStr (lit ''account_trace'')) @
     required ''target_user_id'' (JInt (tt_target_user_id tt)) @ required ''sent_at'' (JInt (tt_sent_at tt)) @
     required ''dialog_id'' (JInt (tt_dialog_id tt)) @ required ''message_id'' (JInt (tt_message_id tt)) @
     required ''group_by'' (group_by_json (tt_group_by tt)) @ required ''view'' (view_json (tt_view tt)) @
     entry ''exact_dialog_id'' JInt (tt_exact_dialog_id tt) @ entry ''exact_topic_id'' JInt (tt_exact_topic_id tt) @
     entry ''sent_after'' JStr (tt_sent_after tt) @ entry ''sent_before'' JStr (tt_sent_before tt) @
     entry ''scope_dialog_ids'' (\<lambda>ids. JList (map JInt ids)) (tt_scope_dialog_ids tt)"

definition encode_account_trace_navigation :: "Signer \<Rightarrow> AccountTraceNavigationRequest \<Rightarrow> nav_error + py_str" where
  "encode_account_trace_navigation sg tt = encode_payload sg (trace_payload tt)"

definition require_account_trace_group_by :: "json \<Rightarrow> nav_error + AccountTraceGroupBy" where
  "require_account_trace_group_by v = (if unhashable v then Inl Nav_Type_Error
     else if v = JStr (lit ''timeline'') then Inr BY_TIMELINE
     else if v = JStr (lit ''dialog'') then Inr BY_DIALOG else Inl Nav_Value_Error)"

definition require_account_trace_view :: "json \<Rightarrow> nav_error + AccountTraceView" where
  "require_account_trace_view v = (if unhashable v then Inl Nav_Type_Error
     else if v = JStr (lit ''dialogs'') then Inr VIEW_DIALOGS
     else if v = JStr (lit ''messages'') then Inr VIEW_MESSAGES else Inl Nav_Value_Error)"

definition require_scope_dialog_ids :: "json \<Rightarrow> nav_error + int list option" where
  "require_scope_dialog_ids v = (case v of
     JNull \<Rightarrow> Inr None
   | JList vs \<Rightarrow> (if length vs > MAX_SCOPE_DIALOG_IDS then Inl Nav_Value_Error
       else if list_all (\<lambda>x. as_int x \<noteq> None) vs then Inr (Some (map (the \<circ> as_int) vs)) else Inl Nav_Value_Error)
   | _ \<Rightarrow> Inl Nav_Value_Error)"

definition decode_account_trace_navigation :: "Signer \<Rightarrow> py_str \<Rightarrow> AccountTraceNavigationContext \<Rightarrow>
    nav_error + AccountTraceNavigationToken" where
  "decode_account_trace_navigation sg token context =
     and_then (decode_payload sg token) (\<lambda>data.
     then_check (require (lookup data ''kind'' = JStr (lit ''account_trace'')))
    (and_then (int_field (lookup data ''target_user_id'')) (\<lambda>target_user_id.
     then_check (require (target_user_id = tc_target_user_id context))
    (and_then (require_account_trace_group_by (lookup data ''group_by'')) (\<lambda>group_by.
     then_check (require (group_by = tc_group_by context))
    (and_then (require_account_trace_view (case od_get data (lit ''view'') of None \<Rightarrow> JStr (lit ''messages'') | Some v \<Rightarrow> v)) (\<lambda>view.
     then_check (require (view = tc_view context))
    (and_then (int_field (lookup data ''sent_at'')) (\<lambda>sent_at.
     and_then (int_field (lookup data ''dialog_id'')) (\<lambda>dialog_id.
     and_then (int_field (lookup data ''message_id'')) (\<lambda>message_id.
     and_then (optional_int data ''exact_dialog_id'') (\<lambda>exact_dialog_id.
     then_check (require (exact_dialog_id = tc_exact_dialog_id context))
    (and_then (optional_int data ''exact_topic_id'') (\<lambda>exact_topic_id.
     then_check (require (exact_topic_id = tc_exact_topic_id context))
    (and_then (optional_str data ''sent_after'') (\<lambda>sent_after.
     then_check (require (sent_after = tc_sent_after context))
    (and_then (optional_str data ''sent_before'') (\<lambda>sent_before.
     then_check (require (sent_before = tc_sent_before context))
    (and_then (require_scope_dialog_ids (lookup data ''scope_dialog_ids'')) (\<lambda>scope_dialog_ids.
     Inr \<lparr>tt_target_user_id = target_user_id, tt_sent_at = sent_at, tt_dialog_id = dialog_id,
       tt_message_id = message_id, tt_group_by = group_by, tt_view = view, tt_exact_dialog_id = exact_dialog_id,
       tt_exact_topic_id = exact_topic_id, tt_sent_after = sent_after, tt_sent_before = sent_before,
       tt_scope_dialog_ids = scope_dialog_ids\<rparr>))))))))))))))))))))"

section \<open>Entity profile\<close>

record ProfileNavigationToken =
  pf_account :: int
  pf_entity :: int
  pf_section :: py_str
  pf_source_kind :: py_str
  pf_generation :: int
  pf_scan :: int
  pf_fingerprint :: py_str
  pf_last_key :: py_str
  pf_watermark :: int
  pf_version :: int

definition profile_payload :: "ProfileNavigationToken \<Rightarrow> (py_str \<times> json) list" where
  "profile_payload pf = required ''kind'' (JStr (lit ''profile'')) @
     required ''account'' (JInt (pf_account pf)) @ required ''entity'' (JInt (pf_entity pf)) @
     required ''section'' (JStr (pf_section pf)) @ required ''source_kind'' (JStr (pf_source_kind pf)) @
     required ''generation'' (JInt (pf_generation pf)) @ required ''scan'' (JInt (pf_scan pf)) @
     required ''fingerprint'' (JStr (pf_fingerprint pf)) @ required ''last_key'' (JStr (pf_last_key pf)) @
     required ''watermark'' (JInt (pf_watermark pf)) @ required ''version'' (JInt (pf_version pf))"

definition encode_profile_navigation :: "Signer \<Rightarrow> ProfileNavigationToken \<Rightarrow> nav_error + py_str" where
  "encode_profile_navigation sg pf = encode_payload sg (profile_payload pf)"

definition PROFILE_INTEGERS :: "string list" where
  "PROFILE_INTEGERS = [''account'', ''entity'', ''generation'', ''scan'', ''watermark'', ''version'']"

definition PROFILE_STRINGS :: "string list" where
  "PROFILE_STRINGS = [''section'', ''source_kind'', ''fingerprint'', ''last_key'']"

text \<open>\<^verbatim>\<open>set(data) == {names}\<close>\<close>

definition has_exactly :: "(py_str \<times> json) list \<Rightarrow> string list \<Rightarrow> bool" where
  "has_exactly data names \<longleftrightarrow> list_all (\<lambda>(k, v). k \<in> set (map lit names)) data \<and>
     list_all (\<lambda>name. od_get data (lit name) \<noteq> None) names"

text \<open>
  \<^verbatim>\<open>payload.get("version") != 1\<close>: \<^verbatim>\<open>True\<close> equals 1. A real that equals 1 passes in the code as
  well, and is refused with the same exception by the type test of the numbers.
\<close>

definition is_one :: "json \<Rightarrow> bool" where
  "is_one v \<longleftrightarrow> as_int v = Some 1"

definition the_int :: "json \<Rightarrow> int" where
  "the_int v = (case v of JInt i \<Rightarrow> i | _ \<Rightarrow> 0)"

definition the_str :: "json \<Rightarrow> py_str" where
  "the_str v = (case v of JStr s \<Rightarrow> s | _ \<Rightarrow> [])"

definition profile_token_of :: "(py_str \<times> json) list \<Rightarrow> ProfileNavigationToken" where
  "profile_token_of data = \<lparr>pf_account = the_int (lookup data ''account''), pf_entity = the_int (lookup data ''entity''),
     pf_section = the_str (lookup data ''section''), pf_source_kind = the_str (lookup data ''source_kind''),
     pf_generation = the_int (lookup data ''generation''), pf_scan = the_int (lookup data ''scan''),
     pf_fingerprint = the_str (lookup data ''fingerprint''), pf_last_key = the_str (lookup data ''last_key''),
     pf_watermark = the_int (lookup data ''watermark''), pf_version = the_int (lookup data ''version'')\<rparr>"

definition decode_profile_navigation :: "Signer \<Rightarrow> py_str \<Rightarrow> int \<Rightarrow> int \<Rightarrow> py_str \<Rightarrow> nav_error + ProfileNavigationToken" where
  "decode_profile_navigation sg token account entity part =
     and_then (decode_payload sg token) (\<lambda>payload.
     let kind = lookup payload ''kind''; data = od_del (lit ''kind'') payload in
     then_check (require (kind = JStr (lit ''profile'') \<and> is_one (lookup data ''version'')))
    (then_check (require (has_exactly data (PROFILE_INTEGERS @ PROFILE_STRINGS)))
    (then_check (require (list_all (\<lambda>key. case lookup data key of JInt i \<Rightarrow> 0 \<le> i | _ \<Rightarrow> False) PROFILE_INTEGERS))
    (then_check (require (list_all (\<lambda>key. case lookup data key of JStr s \<Rightarrow> True | _ \<Rightarrow> False) PROFILE_STRINGS))
    (then_check (require (the_int (lookup data ''account'') = account \<and> the_int (lookup data ''entity'') = entity \<and>
        the_str (lookup data ''section'') = part))
    (Inr (profile_token_of data)))))))"

section \<open>Dialog directory\<close>

record DialogDirectoryNavigationToken =
  dd_account_id :: int
  dd_fingerprint :: py_str
  dd_last_dialog_id :: int
  dd_upper_dialog_id :: int

definition DIRECTORY_TOKEN_MAX_SIZE :: nat where "DIRECTORY_TOKEN_MAX_SIZE = 2048"
definition SHA256_HEX_LENGTH :: nat where "SHA256_HEX_LENGTH = 64"

definition valid_directory_fingerprint :: "py_str \<Rightarrow> bool" where
  "valid_directory_fingerprint s \<longleftrightarrow> length s = SHA256_HEX_LENGTH \<and> list_all (\<lambda>c. c \<in> set (lit ''0123456789abcdef'')) s"

definition validate_dialog_directory_navigation :: "DialogDirectoryNavigationToken \<Rightarrow> nav_error + unit" where
  "validate_dialog_directory_navigation dd =
     then_check (require (0 < dd_account_id dd))
    (then_check (require (valid_directory_fingerprint (dd_fingerprint dd)))
    (then_check (require (dd_last_dialog_id dd \<le> dd_upper_dialog_id dd))
    (require (- (2 ^ 63) \<le> dd_last_dialog_id dd \<and> dd_last_dialog_id dd < 2 ^ 63 \<and>
       - (2 ^ 63) \<le> dd_upper_dialog_id dd \<and> dd_upper_dialog_id dd < 2 ^ 63))))"

definition directory_payload :: "DialogDirectoryNavigationToken \<Rightarrow> (py_str \<times> json) list" where
  "directory_payload dd = required ''kind'' (JStr (lit ''dialog_directory'')) @ required ''version'' (JInt 1) @
     required ''order'' (JStr (lit ''dialog_id_asc'')) @ required ''account_id'' (JInt (dd_account_id dd)) @
     required ''fingerprint'' (JStr (dd_fingerprint dd)) @ required ''last_dialog_id'' (JInt (dd_last_dialog_id dd)) @
     required ''upper_dialog_id'' (JInt (dd_upper_dialog_id dd))"

definition encode_dialog_directory_navigation :: "Signer \<Rightarrow> DialogDirectoryNavigationToken \<Rightarrow> nav_error + py_str" where
  "encode_dialog_directory_navigation sg dd =
     then_check (validate_dialog_directory_navigation dd) (encode_payload sg (directory_payload dd))"

text \<open>The type tests of \<^verbatim>\<open>_validate_dialog_directory_navigation\<close> on decoded fields.\<close>

definition directory_token_of :: "(py_str \<times> json) list \<Rightarrow> nav_error + DialogDirectoryNavigationToken" where
  "directory_token_of data =
     (case (lookup data ''account_id'', lookup data ''fingerprint'', lookup data ''last_dialog_id'', lookup data ''upper_dialog_id'') of
        (JInt a, JStr f, JInt l, JInt u) \<Rightarrow>
          Inr \<lparr>dd_account_id = a, dd_fingerprint = f, dd_last_dialog_id = l, dd_upper_dialog_id = u\<rparr>
      | _ \<Rightarrow> Inl Nav_Value_Error)"

definition decode_dialog_directory_navigation :: "Signer \<Rightarrow> py_str \<Rightarrow> nav_error + DialogDirectoryNavigationToken" where
  "decode_dialog_directory_navigation sg token =
     then_check (require (length token \<le> DIRECTORY_TOKEN_MAX_SIZE))
    (and_then (decode_payload sg token) (\<lambda>data.
     then_check (require (has_exactly data [''kind'', ''version'', ''order'', ''account_id'', ''fingerprint'',
        ''last_dialog_id'', ''upper_dialog_id'']))
    (then_check (require (lookup data ''kind'' = JStr (lit ''dialog_directory'') \<and> lookup data ''version'' = JInt 1 \<and>
        lookup data ''order'' = JStr (lit ''dialog_id_asc'')))
    (and_then (directory_token_of data) (\<lambda>dd.
     then_check (validate_dialog_directory_navigation dd) (Inr dd))))))"

section \<open>Round trips\<close>

lemma wf_group_by [simp]: "wf_json (group_by_json g)" "wf_json (view_json v)"
  by (cases g; simp add: proper_lit) (cases v; simp add: proper_lit)

lemma group_by_of_json [simp]: "require_account_trace_group_by (group_by_json g) = Inr g"
  by (cases g) (simp_all add: require_account_trace_group_by_def)

lemma view_of_json [simp]: "require_account_trace_view (view_json v) = Inr v"
  by (cases v) (simp_all add: require_account_trace_view_def)

lemma direction_of_direction_json [simp]: "direction_of_json (direction_json d) = Inr d"
  by (cases d) (simp_all add: direction_of_json_def direction_of_def)

lemma scheduled_optional_int_of [simp]:
  "lookup d n = (case v of None \<Rightarrow> JNull | Some i \<Rightarrow> JInt i) \<Longrightarrow> scheduled_optional_int d n = Inr v"
  by (cases v) (simp_all add: scheduled_optional_int_def)

lemma scheduled_int_of [simp]: "lookup d n = JInt i \<Longrightarrow> scheduled_int d n = Inr i"
  by (simp add: scheduled_int_def)

lemma wf_scheduled_payload:
  assumes "validate_scheduled_queue_navigation sq = Inr ()" "wf_json (sq_filter_fingerprint sq)"
  shows "wf_json (JDict (scheduled_payload sq))"
proof -
  have "wf_json (sq_read_scope sq)"
    using assms(1) by (auto simp: validate_scheduled_queue_navigation_def proper_lit)
  then have "list_all (\<lambda>(k, v). proper_text k \<and> wf_json v) (scheduled_payload sq)"
    using assms(2) by (simp add: scheduled_payload_def proper_lit)
  moreover have "distinct (map fst (scheduled_payload sq))"
    by (simp add: scheduled_payload_def image_Un del: map_append distinct_append)
  ultimately show ?thesis by simp
qed

lemma lookup_scheduled:
  fixes sq
  defines "p \<equiv> scheduled_payload sq"
  shows "lookup p ''kind'' = JStr (lit ''scheduled_queue'')" "lookup p ''account_id'' = JInt (sq_account_id sq)"
    "lookup p ''read_scope'' = sq_read_scope sq" "lookup p ''direction'' = direction_json (sq_direction sq)"
    "lookup p ''filter_fingerprint'' = sq_filter_fingerprint sq" "lookup p ''time_bucket'' = JInt (sq_time_bucket sq)"
    "lookup p ''anchor_dialog_id'' = JInt (sq_anchor_dialog_id sq)" "lookup p ''message_id'' = JInt (sq_message_id sq)"
    "lookup p ''dialog_id'' = (case sq_dialog_id sq of None \<Rightarrow> JNull | Some i \<Rightarrow> JInt i)"
    "lookup p ''scheduled_at'' = (case sq_scheduled_at sq of None \<Rightarrow> JNull | Some i \<Rightarrow> JInt i)"
  by (simp_all add: p_def scheduled_payload_def cong: option.case_cong)

text \<open>A queue position survives its round trip.\<close>

theorem scheduled_queue_roundtrip:
  assumes "encode_scheduled_queue_navigation sg sq = Inr token" "wf_json (sq_filter_fingerprint sq)"
  shows "decode_scheduled_queue_navigation sg token = Inr sq"
proof -
  have valid: "validate_scheduled_queue_navigation sq = Inr ()" and payload: "encode_payload sg (scheduled_payload sq) = Inr token"
    using assms(1) by (simp_all add: encode_scheduled_queue_navigation_def)
  have "decode_payload sg token = Inr (scheduled_payload sq)"
    using decode_encode_payload [OF payload wf_scheduled_payload [OF valid assms(2)]] .
  then show ?thesis
    using valid by (cases sq) (simp add: decode_scheduled_queue_navigation_def lookup_scheduled Let_def)
qed

lemma wf_ints [simp]: "wf_json (JList (map JInt ids))"
  by (simp add: list_all_iff)

lemma wf_trace_payload:
  assumes "pred_option proper_text (tt_sent_after tt)" "pred_option proper_text (tt_sent_before tt)"
  shows "wf_json (JDict (trace_payload tt))"
proof -
  have "list_all (\<lambda>(k, v). proper_text k \<and> wf_json v) (trace_payload tt)"
    using assms by (simp add: trace_payload_def proper_lit del: wf_json.simps(3))
  moreover have "distinct (map fst (trace_payload tt))"
    by (simp add: trace_payload_def image_Un del: map_append distinct_append)
  ultimately show ?thesis by simp
qed

lemma lookup_trace:
  fixes tt
  defines "p \<equiv> trace_payload tt"
  shows "lookup p ''kind'' = JStr (lit ''account_trace'')" "lookup p ''target_user_id'' = JInt (tt_target_user_id tt)"
    "lookup p ''sent_at'' = JInt (tt_sent_at tt)" "lookup p ''dialog_id'' = JInt (tt_dialog_id tt)"
    "lookup p ''message_id'' = JInt (tt_message_id tt)" "lookup p ''group_by'' = group_by_json (tt_group_by tt)"
    "od_get p (lit ''view'') = Some (view_json (tt_view tt))"
    "lookup p ''exact_dialog_id'' = (case tt_exact_dialog_id tt of None \<Rightarrow> JNull | Some i \<Rightarrow> JInt i)"
    "lookup p ''exact_topic_id'' = (case tt_exact_topic_id tt of None \<Rightarrow> JNull | Some i \<Rightarrow> JInt i)"
    "lookup p ''sent_after'' = (case tt_sent_after tt of None \<Rightarrow> JNull | Some s \<Rightarrow> JStr s)"
    "lookup p ''sent_before'' = (case tt_sent_before tt of None \<Rightarrow> JNull | Some s \<Rightarrow> JStr s)"
    "lookup p ''scope_dialog_ids'' = (case tt_scope_dialog_ids tt of None \<Rightarrow> JNull | Some ids \<Rightarrow> JList (map JInt ids))"
  by (simp_all add: p_def trace_payload_def cong: option.case_cong)

lemma scope_ids_of [simp]:
  "require_scope_dialog_ids (case v of None \<Rightarrow> JNull | Some ids \<Rightarrow> JList (map JInt ids)) =
     (case v of None \<Rightarrow> Inr None | Some ids \<Rightarrow> if length ids > MAX_SCOPE_DIALOG_IDS then Inl Nav_Value_Error else Inr (Some ids))"
  by (cases v) (simp_all add: require_scope_dialog_ids_def list_all_iff comp_def)

definition trace_context_matches :: "AccountTraceNavigationToken \<Rightarrow> AccountTraceNavigationContext \<Rightarrow> bool" where
  "trace_context_matches tt tc \<longleftrightarrow> tt_target_user_id tt = tc_target_user_id tc \<and> tt_group_by tt = tc_group_by tc \<and>
     tt_view tt = tc_view tc \<and> tt_exact_dialog_id tt = tc_exact_dialog_id tc \<and>
     tt_exact_topic_id tt = tc_exact_topic_id tc \<and> tt_sent_after tt = tc_sent_after tc \<and>
     tt_sent_before tt = tc_sent_before tc"

lemma then_require: "then_check (guard b e) r = (if b then r else Inl e)"
  by (simp add: guard_def)

text \<open>
  A trace cursor continues its own trace and no other. The text the encoder returns for a position
  decodes to that position, scope ids included, when it is offered for the same account, grouping,
  view, dialog, topic and time bounds; offered for any other context, or made with more than two
  scope ids, it is refused with a \<^verbatim>\<open>ValueError\<close>.
\<close>

theorem account_trace_cursor_bound:
  assumes encoded: "encode_account_trace_navigation sg tt = Inr token"
    and proper: "pred_option proper_text (tt_sent_after tt)" "pred_option proper_text (tt_sent_before tt)"
  shows "decode_account_trace_navigation sg token tc =
    (if trace_context_matches tt tc \<and> (case tt_scope_dialog_ids tt of None \<Rightarrow> True | Some ids \<Rightarrow> length ids \<le> 2)
     then Inr tt else Inl Nav_Value_Error)"
proof -
  have payload: "decode_payload sg token = Inr (trace_payload tt)"
    using encoded decode_encode_payload [OF _ wf_trace_payload [OF proper]]
    by (simp add: encode_account_trace_navigation_def)
  have "decode_account_trace_navigation sg token tc =
      (if trace_context_matches tt tc
       then and_then (require_scope_dialog_ids (lookup (trace_payload tt) ''scope_dialog_ids'')) (\<lambda>ids. Inr (tt\<lparr>tt_scope_dialog_ids := ids\<rparr>))
       else Inl Nav_Value_Error)"
    using payload
    by (cases tt) (simp add: decode_account_trace_navigation_def lookup_trace int_field_def then_require
        trace_context_matches_def)
  moreover have "tt\<lparr>tt_scope_dialog_ids := tt_scope_dialog_ids tt\<rparr> = tt" by simp
  ultimately show ?thesis
    unfolding lookup_trace scope_ids_of
    by (cases "tt_scope_dialog_ids tt") (simp_all add: and_then_def MAX_SCOPE_DIALOG_IDS_def)
qed

definition trace_sample :: AccountTraceNavigationToken where
  "trace_sample = \<lparr>tt_target_user_id = 42, tt_sent_at = 1700000000, tt_dialog_id = -1001234567890, tt_message_id = 77,
     tt_group_by = BY_DIALOG, tt_view = VIEW_MESSAGES, tt_exact_dialog_id = Some (-1001234567890),
     tt_exact_topic_id = None, tt_sent_after = Some (lit ''2026-01-01''), tt_sent_before = None,
     tt_scope_dialog_ids = Some [-1001234567890, -1009876543210]\<rparr>"

definition trace_sample_context :: "int \<Rightarrow> AccountTraceNavigationContext" where
  "trace_sample_context user = \<lparr>tc_target_user_id = user, tc_group_by = BY_DIALOG, tc_view = VIEW_MESSAGES,
     tc_exact_dialog_id = Some (-1001234567890), tc_exact_topic_id = None,
     tc_sent_after = Some (lit ''2026-01-01''), tc_sent_before = None\<rparr>"

theorem account_trace_cursor_bound_witness:
  "case encode_account_trace_navigation nav_signer trace_sample of Inl e \<Rightarrow> False
   | Inr token \<Rightarrow> decode_account_trace_navigation nav_signer token (trace_sample_context 42) = Inr trace_sample \<and>
       decode_account_trace_navigation nav_signer token (trace_sample_context 43) = Inl Nav_Value_Error"
proof -
  have "printable (JDict (trace_payload trace_sample))"
    by (simp add: trace_sample_def trace_payload_def entry_def printable_int64 del: printable.simps(1))
  then obtain token where token: "encode_account_trace_navigation nav_signer trace_sample = Inr token"
    by (simp add: encode_account_trace_navigation_def encode_payload_def json_dumps_def del: printable.simps(3))
  have "pred_option proper_text (tt_sent_after trace_sample)" "pred_option proper_text (tt_sent_before trace_sample)"
    by (simp_all add: trace_sample_def proper_lit)
  note bound = account_trace_cursor_bound [OF token this]
  show ?thesis
    using token bound [of "trace_sample_context 42"] bound [of "trace_sample_context 43"]
    by (simp add: trace_sample_def trace_sample_context_def trace_context_matches_def)
qed

text \<open>Profile and directory positions.\<close>

lemma wf_profile_payload:
  assumes "proper_text (pf_section pf)" "proper_text (pf_source_kind pf)" "proper_text (pf_fingerprint pf)"
    "proper_text (pf_last_key pf)"
  shows "wf_json (JDict (profile_payload pf))"
proof -
  have "list_all (\<lambda>(k, v). proper_text k \<and> wf_json v) (profile_payload pf)"
    using assms by (simp add: profile_payload_def proper_lit)
  moreover have "distinct (map fst (profile_payload pf))"
    by (simp add: profile_payload_def image_Un del: map_append distinct_append)
  ultimately show ?thesis by simp
qed

lemma od_del_entry [simp]:
  "od_del (lit m) (entry n f v @ d) = (if n = m then [] else entry n f v) @ od_del (lit m) d"
  "od_del (lit m) (entry n f v) = (if n = m then [] else entry n f v)"
  by (auto simp: od_del_def entry_def split: option.split)

lemma lookup_profile:
  fixes pf
  defines "p \<equiv> profile_payload pf" and "d \<equiv> od_del (lit ''kind'') (profile_payload pf)"
  shows "lookup p ''kind'' = JStr (lit ''profile'')" "lookup d ''account'' = JInt (pf_account pf)"
    "lookup d ''entity'' = JInt (pf_entity pf)" "lookup d ''section'' = JStr (pf_section pf)"
    "lookup d ''source_kind'' = JStr (pf_source_kind pf)" "lookup d ''generation'' = JInt (pf_generation pf)"
    "lookup d ''scan'' = JInt (pf_scan pf)" "lookup d ''fingerprint'' = JStr (pf_fingerprint pf)"
    "lookup d ''last_key'' = JStr (pf_last_key pf)" "lookup d ''watermark'' = JInt (pf_watermark pf)"
    "lookup d ''version'' = JInt (pf_version pf)" "has_exactly d (PROFILE_INTEGERS @ PROFILE_STRINGS)"
  by (simp_all add: p_def d_def profile_payload_def has_exactly_def PROFILE_INTEGERS_def PROFILE_STRINGS_def)
     (simp_all add: entry_def)

lemma profile_roundtrip:
  assumes encoded: "encode_profile_navigation sg pf = Inr token" and wf: "wf_json (JDict (profile_payload pf))"
    and numbers: "pf_version pf = 1" "0 \<le> pf_account pf" "0 \<le> pf_entity pf" "0 \<le> pf_generation pf" "0 \<le> pf_scan pf"
      "0 \<le> pf_watermark pf"
  shows "decode_profile_navigation sg token account entity part =
    (if pf_account pf = account \<and> pf_entity pf = entity \<and> pf_section pf = part then Inr pf else Inl Nav_Value_Error)"
proof -
  have "decode_payload sg token = Inr (profile_payload pf)"
    using encoded decode_encode_payload [OF _ wf] by (simp add: encode_profile_navigation_def)
  moreover have "profile_token_of (od_del (lit ''kind'') (profile_payload pf)) = pf"
    by (cases pf) (simp add: profile_token_of_def lookup_profile the_int_def the_str_def)
  moreover note lookup_profile(12) [of pf, unfolded PROFILE_INTEGERS_def PROFILE_STRINGS_def append_Cons append_Nil]
  ultimately show ?thesis using numbers
    by (simp add: decode_profile_navigation_def lookup_profile Let_def then_require is_one_def
        PROFILE_INTEGERS_def PROFILE_STRINGS_def the_int_def the_str_def)
qed

lemma lookup_directory:
  fixes dd
  defines "p \<equiv> directory_payload dd"
  shows "lookup p ''kind'' = JStr (lit ''dialog_directory'')" "lookup p ''version'' = JInt 1"
    "lookup p ''order'' = JStr (lit ''dialog_id_asc'')" "lookup p ''account_id'' = JInt (dd_account_id dd)"
    "lookup p ''fingerprint'' = JStr (dd_fingerprint dd)" "lookup p ''last_dialog_id'' = JInt (dd_last_dialog_id dd)"
    "lookup p ''upper_dialog_id'' = JInt (dd_upper_dialog_id dd)"
    "has_exactly p [''kind'', ''version'', ''order'', ''account_id'', ''fingerprint'', ''last_dialog_id'', ''upper_dialog_id'']"
  by (simp_all add: p_def directory_payload_def has_exactly_def) (simp add: entry_def)

lemma wf_directory_payload:
  assumes "valid_directory_fingerprint (dd_fingerprint dd)"
  shows "wf_json (JDict (directory_payload dd))"
proof -
  have small: "list_all (\<lambda>c. c < 128) s \<Longrightarrow> proper_text s" for s :: py_str
    by (induction s rule: proper_text.induct) auto
  have "list_all (\<lambda>c. c < 128) (dd_fingerprint dd)"
    using assms by (auto simp: valid_directory_fingerprint_def list_all_iff lit_def)
  then have "proper_text (dd_fingerprint dd)" by (rule small)
  then have "list_all (\<lambda>(k, v). proper_text k \<and> wf_json v) (directory_payload dd)"
    by (simp add: directory_payload_def proper_lit)
  moreover have "distinct (map fst (directory_payload dd))"
    by (simp add: directory_payload_def image_Un del: map_append distinct_append)
  ultimately show ?thesis by simp
qed

text \<open>A directory cursor of 64-bit ids is always short enough for its own decoder.\<close>

lemma length_plain_text:
  assumes "list_all (\<lambda>c. 32 \<le> c \<and> c \<le> 126 \<and> c \<noteq> 34 \<and> c \<noteq> 92) s"
  shows "length (str_text s) = length s + 2"
proof -
  have "length (concat (map unit_text (concat (map utf16_units s)))) = length s"
    using assms by (induction s) (auto simp: utf16_units_def unit_text_def escapes_def)
  then show ?thesis by (simp add: str_text_def)
qed

lemma length_b64: "length (b64_encode s) \<le> 4 * (length s div 3 + 1)"
  by (induction s rule: b64_encode.induct) (simp_all add: Let_def)

lemma length_int_text:
  assumes "- (2 ^ 63) \<le> i" "i < 2 ^ 63"
  shows "length (int_text i) \<le> 20"
proof -
  have "length (nat_text (nat \<bar>i\<bar>)) \<le> 19"
    using assms by (intro length_nat_text) (simp_all add: nat_less_iff)
  then show ?thesis by (cases "i < 0") (simp_all add: int_text_def)
qed

lemma length_signature: "length (signature sg data) \<le> 16"
  by (simp add: signature_def)

lemma length_directory_text:
  assumes "validate_dialog_directory_navigation dd = Inr ()" "dd_account_id dd < 2 ^ 63"
  shows "length (json_text (JDict (directory_payload dd))) \<le> 300"
proof -
  have lits: "length (str_text (lit ''kind'')) = 6" "length (str_text (lit ''dialog_directory'')) = 18"
    "length (str_text (lit ''version'')) = 9" "length (str_text (lit ''order'')) = 7"
    "length (str_text (lit ''dialog_id_asc'')) = 15" "length (str_text (lit ''account_id'')) = 12"
    "length (str_text (lit ''fingerprint'')) = 13" "length (str_text (lit ''last_dialog_id'')) = 16"
    "length (str_text (lit ''upper_dialog_id'')) = 17"
    by (subst length_plain_text; simp add: lit_def)+
  have "valid_directory_fingerprint (dd_fingerprint dd)"
    using assms(1) by (simp add: validate_dialog_directory_navigation_def)
  then have fingerprint: "length (str_text (dd_fingerprint dd)) = 66"
    by (subst length_plain_text) (auto simp: valid_directory_fingerprint_def SHA256_HEX_LENGTH_def list_all_iff lit_def)
  have "length (int_text (dd_account_id dd)) \<le> 20" "length (int_text (dd_last_dialog_id dd)) \<le> 20"
    "length (int_text (dd_upper_dialog_id dd)) \<le> 20" "length (int_text 1) \<le> 20"
    using assms by (auto simp: validate_dialog_directory_navigation_def intro!: length_int_text)
  then show ?thesis
    by (simp add: directory_payload_def entry_def lits fingerprint)
qed

lemma directory_roundtrip:
  assumes encoded: "encode_dialog_directory_navigation sg dd = Inr token" and account: "dd_account_id dd < 2 ^ 63"
  shows "decode_dialog_directory_navigation sg token = Inr dd"
proof -
  have valid: "validate_dialog_directory_navigation dd = Inr ()"
    and payload: "encode_payload sg (directory_payload dd) = Inr token"
    using encoded by (simp_all add: encode_dialog_directory_navigation_def)
  have "valid_directory_fingerprint (dd_fingerprint dd)"
    using valid by (simp add: validate_dialog_directory_navigation_def)
  then have decoded: "decode_payload sg token = Inr (directory_payload dd)"
    using decode_encode_payload [OF payload] wf_directory_payload by blast
  define data where "data = json_text (JDict (directory_payload dd))"
  have "token = lit (b64_encode data @ ''.'' @ signature sg data)"
    using payload by (simp add: encode_payload_def json_dumps_def data_def split: option.splits if_split_asm)
  moreover have "length data \<le> 300" unfolding data_def using valid account by (rule length_directory_text)
  ultimately have "length token \<le> DIRECTORY_TOKEN_MAX_SIZE"
    using length_b64 [of data] length_signature [of sg data] div_le_mono [of "length data" 300 3]
    by (simp add: DIRECTORY_TOKEN_MAX_SIZE_def lit_def)
  moreover have "directory_token_of (directory_payload dd) = Inr dd"
    by (simp add: directory_token_of_def lookup_directory)
  ultimately show ?thesis
    using decoded valid by (simp add: decode_dialog_directory_navigation_def lookup_directory)
qed

section \<open>The families are kept apart\<close>

definition accepted :: "nav_error + 'a \<Rightarrow> bool" where
  "accepted r \<longleftrightarrow> (\<exists>a. r = Inr a)"

lemma kind_of_accepted:
  "accepted (decode_navigation_token sg token) \<Longrightarrow> \<exists>d. decode_payload sg token = Inr d \<and>
     lookup d ''kind'' \<in> {JStr (lit ''history''), JStr (lit ''search'')}"
  "accepted (decode_scheduled_queue_navigation sg token) \<Longrightarrow> \<exists>d. decode_payload sg token = Inr d \<and>
     lookup d ''kind'' = JStr (lit ''scheduled_queue'')"
  "accepted (decode_account_trace_navigation sg token tc) \<Longrightarrow> \<exists>d. decode_payload sg token = Inr d \<and>
     lookup d ''kind'' = JStr (lit ''account_trace'')"
  "accepted (decode_profile_navigation sg token account entity part) \<Longrightarrow> \<exists>d. decode_payload sg token = Inr d \<and>
     lookup d ''kind'' = JStr (lit ''profile'')"
  "accepted (decode_dialog_directory_navigation sg token) \<Longrightarrow> \<exists>d. decode_payload sg token = Inr d \<and>
     lookup d ''kind'' = JStr (lit ''dialog_directory'')"
  by (auto simp: accepted_def decode_navigation_token_def decode_scheduled_queue_navigation_def kind_of_def
      decode_account_trace_navigation_def decode_profile_navigation_def decode_dialog_directory_navigation_def Let_def
      elim!: and_then_okE split: if_split_asm)

text \<open>
  A cursor of one family is no cursor of another. Whatever text is offered, and whatever the
  expected contexts are, at most one of the five decoders of the module (history and search pages,
  scheduled queue, account trace, entity profile, dialog directory) accepts it.
\<close>

theorem cursor_families_disjoint:
  "length (filter id [accepted (decode_navigation_token sg token), accepted (decode_scheduled_queue_navigation sg token),
     accepted (decode_account_trace_navigation sg token tc), accepted (decode_profile_navigation sg token account entity part),
     accepted (decode_dialog_directory_navigation sg token)]) \<le> 1"
  using kind_of_accepted(1,2,5) [of sg token] kind_of_accepted(3) [of sg token tc]
    kind_of_accepted(4) [of sg token account entity part]
  by auto

end
