(* ===== verification/Sql_Rows.thy ===== *)
theory Sql_Rows
  imports Prelude "HOL-Library.Product_Lexorder" "HOL-Library.List_Lexorder" "HOL-Library.Char_ord"
begin

text \<open>
  The SQL statements the stores are made of, on a table that is the list of its rows. A write
  returns the row count of its cursor and the new table. Texts are compared byte by byte, as
  SQLite's default collation does, which is the order of the library on strings and tuples.
\<close>

section \<open>Statements\<close>

text \<open>\<^verbatim>\<open>UPDATE t SET ... WHERE p\<close> and \<^verbatim>\<open>DELETE FROM t WHERE p\<close>\<close>

definition update_where :: "('r \<Rightarrow> bool) \<Rightarrow> ('r \<Rightarrow> 'r) \<Rightarrow> 'r list \<Rightarrow> nat \<times> 'r list" where
  "update_where p f rows = (length (filter p rows), map (\<lambda>r. if p r then f r else r) rows)"

definition delete_where :: "('r \<Rightarrow> bool) \<Rightarrow> 'r list \<Rightarrow> nat \<times> 'r list" where
  "delete_where p rows = (length (filter p rows), filter (\<lambda>r. \<not> p r) rows)"

text \<open>
  \<^verbatim>\<open>INSERT ... ON CONFLICT(key) DO UPDATE SET ...\<close>: \<open>key\<close> reads the columns of the constraint,
  \<open>f\<close> changes the row that is already there.
\<close>

definition insert_on_conflict :: "('r \<Rightarrow> 'k) \<Rightarrow> 'r \<Rightarrow> ('r \<Rightarrow> 'r) \<Rightarrow> 'r list \<Rightarrow> 'r list" where
  "insert_on_conflict key r f rows =
     (if key r \<in> key ` set rows then snd (update_where (\<lambda>r'. key r' = key r) f rows) else rows @ [r])"

text \<open>\<^verbatim>\<open>SELECT ... WHERE p ORDER BY k LIMIT n\<close>\<close>

definition select_ordered :: "('r \<Rightarrow> bool) \<Rightarrow> ('r \<Rightarrow> 'k :: linorder) \<Rightarrow> nat \<Rightarrow> 'r list \<Rightarrow> 'r list" where
  "select_ordered p k n rows = take n (sort_key k (filter p rows))"

section \<open>Their effect on keys\<close>

lemma update_where_rows: "snd (update_where p f rows) = map (\<lambda>r. if p r then f r else r) rows"
  by (simp add: update_where_def)

lemma delete_where_rows: "snd (delete_where p rows) = filter (\<lambda>r. \<not> p r) rows"
  by (simp add: delete_where_def)

lemma update_where_keys:
  assumes "\<And>r. p r \<Longrightarrow> key (f r) = key r"
  shows "map key (snd (update_where p f rows)) = map key rows"
  using assms by (simp add: update_where_rows)

lemma delete_where_keys: "distinct (map key rows) \<Longrightarrow> distinct (map key (snd (delete_where p rows)))"
  by (simp add: delete_where_rows distinct_map_filter)

lemma insert_on_conflict_keys:
  assumes "\<And>r'. key r' = key r \<Longrightarrow> key (f r') = key r'"
  shows "map key (insert_on_conflict key r f rows) =
    (if key r \<in> key ` set rows then map key rows else map key rows @ [key r])"
  using assms by (auto simp: insert_on_conflict_def update_where_rows)

text \<open>A key names one row.\<close>

lemma key_unique:
  assumes "distinct (map key rows)" "r \<in> set rows" "r' \<in> set rows" "key r = key r'"
  shows "r = r'"
  using assms by (metis (no_types, lifting) distinct_map inj_onD)

lemma filter_key:
  assumes "distinct (map key rows)" "r \<in> set rows" "key r = k"
  shows "filter (\<lambda>r'. key r' = k) rows = [r]"
  using assms
proof (induction rows)
  case (Cons x rows)
  show ?case
  proof (cases "key x = k")
    case True
    have others: "\<forall>r' \<in> set rows. key r' \<noteq> k" using Cons.prems(1) True by (force simp: image_iff)
    then have "x = r" using Cons.prems(2,3) by auto
    then show ?thesis using True others by (simp add: filter_empty_conv)
  next
    case False
    then show ?thesis using Cons by auto
  qed
qed simp

section \<open>Ordered selection\<close>

lemma select_ordered_sound:
  "r \<in> set (select_ordered p k n rows) \<Longrightarrow> r \<in> set rows \<and> p r"
  by (auto simp: select_ordered_def dest!: in_set_takeD)

lemma select_ordered_sorted: "sorted (map k (select_ordered p k n rows))"
  by (simp add: select_ordered_def take_map [symmetric])

lemma length_select_ordered: "length (select_ordered p k n rows) = min n (length (filter p rows))"
  by (simp add: select_ordered_def)

text \<open>What the limit cuts off comes after what it keeps.\<close>

lemma select_ordered_complete:
  assumes "r \<in> set rows" "p r" "r \<notin> set (select_ordered p k n rows)"
  shows "n \<le> length (filter p rows) \<and> (\<forall>r' \<in> set (select_ordered p k n rows). k r' \<le> k r)"
proof -
  let ?s = "sort_key k (filter p rows)"
  have "r \<in> set ?s" using assms by simp
  then have r: "r \<in> set (drop n ?s)"
    using assms(3) append_take_drop_id [of n ?s] unfolding select_ordered_def by (metis Un_iff set_append)
  then have "n \<le> length ?s" by (metis drop_all empty_iff linear list.set(1))
  moreover have "sorted (map k (take n ?s) @ map k (drop n ?s))"
    by (metis append_take_drop_id map_append sorted_sort_key)
  then have "\<forall>r' \<in> set (take n ?s). k r' \<le> k r"
    using r by (auto simp: sorted_append)
  ultimately show ?thesis by (simp add: select_ordered_def)
qed

end
