(* ===== verification/Hydration_Queue.thy ===== *)
theory Hydration_Queue
  imports Sql_Rows
begin

text \<open>
  \<^verbatim>\<open>hydration_queue.py\<close>: the durable queue of message-fact jobs, the table \<^verbatim>\<open>hydration_jobs\<close>
  of \<^verbatim>\<open>sync_db.py\<close>. Each method of the repository is one statement on the table inside a
  write transaction its caller owns. The table is a parameter and a result of each; columns
  hold what the schema's constraints admit, and numbers are unbounded.
\<close>

section \<open>Jobs\<close>

datatype HydrationOutcome = HO_PROCESSING | HO_NOT_APPLIED | HO_TELEGRAM_PENDING | HO_TEMPORARY_FAILURE
  | HO_TERMINAL_ERROR | HO_EXHAUSTED

text \<open>
  The column \<^verbatim>\<open>last_outcome\<close>: a queued job that was never started, an outcome, or one of the two
  values a migration gave to the jobs of older archives.
\<close>

datatype last_outcome = LAST_QUEUED | LAST_UNKNOWN_TERMINAL | LAST_UNKNOWN_DEFERRED | LAST HydrationOutcome

datatype HydrationPriority = HP_BACKFILL | HP_FOREGROUND

fun priority_int :: "HydrationPriority \<Rightarrow> int" where
  "priority_int HP_BACKFILL = 0"
| "priority_int HP_FOREGROUND = 1"

instantiation HydrationPriority :: linorder
begin

definition less_eq_HydrationPriority :: "HydrationPriority \<Rightarrow> HydrationPriority \<Rightarrow> bool" where
  "less_eq_HydrationPriority p q \<longleftrightarrow> priority_int p \<le> priority_int q"

definition less_HydrationPriority :: "HydrationPriority \<Rightarrow> HydrationPriority \<Rightarrow> bool" where
  "less_HydrationPriority p q \<longleftrightarrow> priority_int p < priority_int q"

instance
proof
  fix x y z :: HydrationPriority
  show "(x < y) = (x \<le> y \<and> \<not> y \<le> x)" by (auto simp: less_HydrationPriority_def less_eq_HydrationPriority_def)
  show "x \<le> x" by (simp add: less_eq_HydrationPriority_def)
  show "x \<le> y \<Longrightarrow> y \<le> z \<Longrightarrow> x \<le> z" by (simp add: less_eq_HydrationPriority_def)
  show "x \<le> y \<Longrightarrow> y \<le> x \<Longrightarrow> x = y" by (cases x; cases y) (simp_all add: less_eq_HydrationPriority_def)
  show "x \<le> y \<or> y \<le> x" by (auto simp: less_eq_HydrationPriority_def)
qed

end

record HydrationJob =
  hj_kind :: string
  hj_dialog_id :: int
  hj_message_id :: int
  hj_due_at :: int
  hj_attempts :: int
  hj_message_sent_at :: int
  hj_priority :: HydrationPriority
  hj_terminal :: bool

text \<open>\<^verbatim>\<open>HydrationJob.__post_init__\<close>\<close>

definition valid_job :: "HydrationJob \<Rightarrow> bool" where
  "valid_job j \<longleftrightarrow> hj_kind j \<noteq> [] \<and> hj_dialog_id j \<noteq> 0 \<and> 0 < hj_message_id j \<and> 0 \<le> hj_attempts j \<and>
     0 \<le> hj_message_sent_at j"

type_synonym job_id = "string \<times> int \<times> int"

definition identity :: "HydrationJob \<Rightarrow> job_id" where
  "identity j = (hj_kind j, hj_dialog_id j, hj_message_id j)"

text \<open>A row: the job's columns, and the outcome of its last attempt.\<close>

record HydrationRow =
  hr_job :: HydrationJob
  hr_last_outcome :: last_outcome
  hr_error_code :: "string option"

abbreviation row_id :: "HydrationRow \<Rightarrow> job_id" where
  "row_id r \<equiv> identity (hr_job r)"

abbreviation active :: "HydrationRow \<Rightarrow> bool" where
  "active r \<equiv> \<not> hj_terminal (hr_job r)"

datatype hydration_error = Hydration_Value_Error

text \<open>\<^verbatim>\<open>_job_from_row\<close>\<close>

definition job_from_row :: "HydrationRow \<Rightarrow> hydration_error + HydrationJob" where
  "job_from_row r = then_check (guard (valid_job (hr_job r)) Hydration_Value_Error) (Inr (hr_job r))"

fun jobs_from_rows :: "HydrationRow list \<Rightarrow> hydration_error + HydrationJob list" where
  "jobs_from_rows [] = Inr []"
| "jobs_from_rows (r # rs) = and_then (job_from_row r) (\<lambda>j. and_then (jobs_from_rows rs) (\<lambda>js. Inr (j # js)))"

section \<open>Entering the queue\<close>

text \<open>The row that is already there, when \<open>j\<close> is enqueued again.\<close>

definition accelerate :: "HydrationJob \<Rightarrow> HydrationRow \<Rightarrow> HydrationRow" where
  "accelerate j r = (let old = hr_job r in r\<lparr>hr_job := old\<lparr>
     hj_due_at := (if \<not> hj_terminal old \<and> hj_attempts old = 0 \<and> hr_last_outcome r = LAST_QUEUED \<and>
                     hj_due_at j < hj_due_at old then hj_due_at j else hj_due_at old),
     hj_message_sent_at := max (hj_message_sent_at old) (hj_message_sent_at j),
     hj_priority := max (hj_priority old) (hj_priority j)\<rparr>\<rparr>)"

definition new_row :: "HydrationJob \<Rightarrow> HydrationRow" where
  "new_row j = \<lparr>hr_job = j, hr_last_outcome = LAST_QUEUED, hr_error_code = None\<rparr>"

definition enqueue_job :: "HydrationJob \<Rightarrow> HydrationRow list \<Rightarrow> HydrationRow list" where
  "enqueue_job j rows = insert_on_conflict row_id (new_row j) (accelerate j) rows"

section \<open>Reading the queue\<close>

type_synonym order_key = "int \<times> int \<times> string \<times> int \<times> int"

text \<open>\<^verbatim>\<open>message_sent_at DESC, due_at, kind, dialog_id, message_id\<close>\<close>

definition queue_order :: "HydrationJob \<Rightarrow> order_key" where
  "queue_order j = (- hj_message_sent_at j, hj_due_at j, hj_kind j, hj_dialog_id j, hj_message_id j)"

definition is_due :: "int \<Rightarrow> string option \<Rightarrow> HydrationPriority option \<Rightarrow> HydrationRow \<Rightarrow> bool" where
  "is_due now kind priority r \<longleftrightarrow> hj_due_at (hr_job r) \<le> now \<and> active r \<and>
     (case kind of None \<Rightarrow> True | Some k \<Rightarrow> hj_kind (hr_job r) = k) \<and>
     (case priority of None \<Rightarrow> True | Some p \<Rightarrow> hj_priority (hr_job r) = p)"

definition due_order :: "HydrationPriority option \<Rightarrow> HydrationRow \<Rightarrow> int \<times> order_key" where
  "due_order priority r = (case priority of
     Some p \<Rightarrow> (0, queue_order (hr_job r))
   | None \<Rightarrow> (- priority_int (hj_priority (hr_job r)), queue_order (hr_job r)))"

definition due_jobs :: "int \<Rightarrow> int \<Rightarrow> string option \<Rightarrow> HydrationPriority option \<Rightarrow> HydrationRow list \<Rightarrow>
    hydration_error + HydrationJob list" where
  "due_jobs now limit kind priority rows =
     (if limit \<le> 0 then Inr []
      else jobs_from_rows (select_ordered (is_due now kind priority) (due_order priority) (nat limit) rows))"

definition next_release_at :: "HydrationPriority \<Rightarrow> HydrationRow list \<Rightarrow> int option" where
  "next_release_at priority rows =
     (let due = map (\<lambda>r. hj_due_at (hr_job r)) (filter (\<lambda>r. active r \<and> hj_priority (hr_job r) = priority) rows)
      in if due = [] then None else Some (Min (set due)))"

section \<open>Attempts and their outcomes\<close>

definition start_row :: "HydrationRow \<Rightarrow> HydrationRow" where
  "start_row r = r\<lparr>hr_job := (hr_job r)\<lparr>hj_attempts := hj_attempts (hr_job r) + 1\<rparr>,
     hr_last_outcome := LAST HO_PROCESSING, hr_error_code := None\<rparr>"

definition start :: "HydrationJob \<Rightarrow> HydrationRow list \<Rightarrow>
    hydration_error + HydrationJob option \<times> HydrationRow list" where
  "start j rows =
     (let p = (\<lambda>r. row_id r = identity j \<and> active r) in
      case map start_row (filter p rows) of
        [] \<Rightarrow> Inr (None, rows)
      | r # rs \<Rightarrow> and_then (job_from_row r) (\<lambda>started. Inr (Some started, snd (update_where p start_row rows))))"

definition set_outcome :: "HydrationOutcome \<Rightarrow> string option \<Rightarrow> HydrationRow \<Rightarrow> HydrationRow" where
  "set_outcome outcome code r = r\<lparr>hr_last_outcome := LAST outcome, hr_error_code := code\<rparr>"

definition set_due :: "int \<Rightarrow> HydrationRow \<Rightarrow> HydrationRow" where
  "set_due due_at r = r\<lparr>hr_job := (hr_job r)\<lparr>hj_due_at := due_at\<rparr>\<rparr>"

definition refund :: "HydrationRow \<Rightarrow> HydrationRow" where
  "refund r = r\<lparr>hr_job := (hr_job r)\<lparr>hj_attempts := hj_attempts (hr_job r) - 1\<rparr>\<rparr>"

text \<open>The row count of a statement, as the code reads it: \<^verbatim>\<open>cursor.rowcount > 0\<close>.\<close>

definition changed :: "nat \<times> 'r list \<Rightarrow> bool \<times> 'r list" where
  "changed = map_prod (\<lambda>n. 0 < n) id"

definition reschedule :: "HydrationJob \<Rightarrow> int \<Rightarrow> HydrationOutcome \<Rightarrow> string option \<Rightarrow> HydrationRow list \<Rightarrow>
    bool \<times> HydrationRow list" where
  "reschedule j due_at outcome code rows =
     changed (update_where (\<lambda>r. row_id r = identity j \<and> active r) (set_outcome outcome code \<circ> set_due due_at) rows)"

definition requeue_undispatched :: "HydrationJob \<Rightarrow> int \<Rightarrow> HydrationOutcome \<Rightarrow> string option \<Rightarrow> HydrationRow list \<Rightarrow>
    bool \<times> HydrationRow list" where
  "requeue_undispatched j due_at outcome code rows =
     changed (update_where (\<lambda>r. row_id r = identity j \<and> active r \<and> 0 < hj_attempts (hr_job r))
       (set_outcome outcome code \<circ> set_due due_at \<circ> refund) rows)"

definition leased :: "HydrationJob \<Rightarrow> HydrationRow \<Rightarrow> bool" where
  "leased j r \<longleftrightarrow> row_id r = identity j \<and> hj_attempts (hr_job r) = hj_attempts j \<and>
     hj_due_at (hr_job r) = hj_due_at j \<and> active r \<and> hr_last_outcome r = LAST HO_PROCESSING"

definition requeue_not_applied :: "HydrationJob \<Rightarrow> int \<Rightarrow> HydrationRow list \<Rightarrow> bool \<times> HydrationRow list" where
  "requeue_not_applied j due_at rows =
     changed (update_where (\<lambda>r. leased j r \<and> 0 < hj_attempts (hr_job r))
       (set_outcome HO_NOT_APPLIED None \<circ> set_due due_at \<circ> refund) rows)"

definition mark_terminal :: "HydrationJob \<Rightarrow> HydrationOutcome \<Rightarrow> string option \<Rightarrow> HydrationRow list \<Rightarrow>
    bool \<times> HydrationRow list" where
  "mark_terminal j outcome code rows =
     changed (update_where (\<lambda>r. row_id r = identity j)
       (\<lambda>r. set_outcome outcome code (r\<lparr>hr_job := (hr_job r)\<lparr>hj_terminal := True\<rparr>\<rparr>)) rows)"

section \<open>Leaving the queue\<close>

definition remove :: "HydrationJob \<Rightarrow> HydrationRow list \<Rightarrow> bool \<times> HydrationRow list" where
  "remove j rows = changed (delete_where (\<lambda>r. row_id r = identity j) rows)"

definition remove_active :: "HydrationJob \<Rightarrow> HydrationRow list \<Rightarrow> bool \<times> HydrationRow list" where
  "remove_active j rows = changed (delete_where (\<lambda>r. row_id r = identity j \<and> active r) rows)"

definition remove_active_for_dialog :: "int \<Rightarrow> HydrationRow list \<Rightarrow> nat \<times> HydrationRow list" where
  "remove_active_for_dialog dialog rows = delete_where (\<lambda>r. hj_dialog_id (hr_job r) = dialog \<and> active r) rows"

definition remove_for_message :: "int \<Rightarrow> int \<Rightarrow> HydrationRow list \<Rightarrow> nat \<times> HydrationRow list" where
  "remove_for_message dialog message rows =
     delete_where (\<lambda>r. hj_dialog_id (hr_job r) = dialog \<and> hj_message_id (hr_job r) = message) rows"

section \<open>Summaries\<close>

record HydrationQueueSummary =
  qs_kind :: string
  qs_dialog_id :: int
  qs_job_count :: nat
  qs_message_ids :: "int list"
  qs_attempts_min :: int
  qs_attempts_max :: int

definition REGISTERED_HYDRATION_KINDS :: "string list" where
  "REGISTERED_HYDRATION_KINDS = [''media_metadata'', ''transcription'']"

definition summarize_for_dialog :: "int \<Rightarrow> int \<Rightarrow> HydrationRow list \<Rightarrow> HydrationQueueSummary list" where
  "summarize_for_dialog dialog max_message_ids rows =
     List.map_filter (\<lambda>kind.
       let jobs = map hr_job (filter (\<lambda>r. hj_kind (hr_job r) = kind \<and> hj_dialog_id (hr_job r) = dialog \<and> active r) rows) in
       if jobs = [] then None
       else Some \<lparr>qs_kind = kind, qs_dialog_id = dialog, qs_job_count = length jobs,
         qs_message_ids = take (nat (max 0 max_message_ids)) (sort (map hj_message_id jobs)),
         qs_attempts_min = Min (set (map hj_attempts jobs)), qs_attempts_max = Max (set (map hj_attempts jobs))\<rparr>)
     REGISTERED_HYDRATION_KINDS"

text \<open>One row of the operational snapshot, and all of them.\<close>

record HydrationQueueKindSnapshot =
  ks_kind :: string
  ks_active :: nat
  ks_ready :: nat
  ks_foreground :: nat
  ks_backfill :: nat
  ks_terminal :: nat
  ks_oldest_message_sent_at :: "int option"
  ks_newest_message_sent_at :: "int option"
  ks_max_attempts :: int

definition kind_snapshot :: "int \<Rightarrow> HydrationRow list \<Rightarrow> string \<Rightarrow> HydrationQueueKindSnapshot" where
  "kind_snapshot now rows kind =
     (let live = map hr_job (filter (\<lambda>r. hj_kind (hr_job r) = kind \<and> active r) rows);
          dates = filter (\<lambda>t. 0 < t) (map hj_message_sent_at live) in
      \<lparr>ks_kind = kind, ks_active = length live,
        ks_ready = length (filter (\<lambda>j. hj_due_at j \<le> now) live),
        ks_foreground = length (filter (\<lambda>j. hj_priority j = HP_FOREGROUND) live),
        ks_backfill = length (filter (\<lambda>j. hj_priority j = HP_BACKFILL) live),
        ks_terminal = length (filter (\<lambda>r. hj_kind (hr_job r) = kind \<and> hj_terminal (hr_job r)) rows),
        ks_oldest_message_sent_at = (if dates = [] then None else Some (Min (set dates))),
        ks_newest_message_sent_at = (if dates = [] then None else Some (Max (set dates))),
        ks_max_attempts = (if live = [] then 0 else Max (set (map hj_attempts live)))\<rparr>)"

definition queue_snapshot :: "int \<Rightarrow> HydrationRow list \<Rightarrow> HydrationQueueKindSnapshot list" where
  "queue_snapshot now rows = map (kind_snapshot now rows) (sort (remdups (map (hj_kind \<circ> hr_job) rows)))"

section \<open>Runs of the queue\<close>

text \<open>The operations that write, as the callers issue them in any order.\<close>

datatype hydration_op =
    Op_Enqueue HydrationJob
  | Op_Start HydrationJob
  | Op_Reschedule HydrationJob int HydrationOutcome "string option"
  | Op_Requeue_Undispatched HydrationJob int HydrationOutcome "string option"
  | Op_Requeue_Not_Applied HydrationJob int
  | Op_Mark_Terminal HydrationJob HydrationOutcome "string option"
  | Op_Remove HydrationJob
  | Op_Remove_Active HydrationJob
  | Op_Remove_Active_For_Dialog int
  | Op_Remove_For_Message int int

fun hydration_step :: "hydration_op \<Rightarrow> HydrationRow list \<Rightarrow> HydrationRow list" where
  "hydration_step (Op_Enqueue j) rows = enqueue_job j rows"
| "hydration_step (Op_Start j) rows = (case start j rows of Inl e \<Rightarrow> rows | Inr (_, rows') \<Rightarrow> rows')"
| "hydration_step (Op_Reschedule j due out code) rows = snd (reschedule j due out code rows)"
| "hydration_step (Op_Requeue_Undispatched j due out code) rows = snd (requeue_undispatched j due out code rows)"
| "hydration_step (Op_Requeue_Not_Applied j due) rows = snd (requeue_not_applied j due rows)"
| "hydration_step (Op_Mark_Terminal j out code) rows = snd (mark_terminal j out code rows)"
| "hydration_step (Op_Remove j) rows = snd (remove j rows)"
| "hydration_step (Op_Remove_Active j) rows = snd (remove_active j rows)"
| "hydration_step (Op_Remove_Active_For_Dialog d) rows = snd (remove_active_for_dialog d rows)"
| "hydration_step (Op_Remove_For_Message d m) rows = snd (remove_for_message d m rows)"

end
