(* ===== verification/Hydration_Batches.thy ===== *)
theory Hydration_Batches
  imports Hydration_Queue "HOL-Library.Multiset"
begin

text \<open>
  The selection of \<^verbatim>\<open>fact_hydration.py\<close>: which due jobs a slice takes (\<^verbatim>\<open>_append_due_priority_tier\<close>),
  how they are cut into batches of one kind, priority and dialog, and which batch the slice
  requests. A handler is known by its batch size, a positive number in the configuration, and
  the cost of its request.
\<close>

section \<open>Handlers and order\<close>

record HydrationHandler =
  hh_batch_size :: nat
  hh_request_cost :: int

type_synonym handlers = "(string \<times> HydrationHandler) list"

text \<open>A batch with its priority and the position of its first job.\<close>

type_synonym HydrationBatch = "HydrationPriority \<times> nat \<times> HydrationJob list"

text \<open>\<^verbatim>\<open>_due_job_order_key\<close> is the order of the queue.\<close>

definition due_job_order_key :: "HydrationJob \<Rightarrow> order_key" where
  "due_job_order_key j = (- hj_message_sent_at j, hj_due_at j, hj_kind j, hj_dialog_id j, hj_message_id j)"

text \<open>Appending to the list a \<^verbatim>\<open>defaultdict\<close> holds under a key.\<close>

definition od_append :: "'k \<Rightarrow> 'v list \<Rightarrow> ('k \<times> 'v list) list \<Rightarrow> ('k \<times> 'v list) list" where
  "od_append k vs d = od_put k ((case od_get d k of None \<Rightarrow> [] | Some old \<Rightarrow> old) @ vs) d"

section \<open>Batches\<close>

type_synonym group_id = "string \<times> HydrationPriority \<times> int"

definition group_key :: "HydrationJob \<Rightarrow> group_id" where
  "group_key j = (hj_kind j, hj_priority j, hj_dialog_id j)"

definition group_jobs :: "HydrationJob list \<Rightarrow> (group_id \<times> (nat \<times> HydrationJob) list) list" where
  "group_jobs jobs = fold (\<lambda>(position, j). od_append (group_key j) [(position, j)]) (enumerate 0 jobs) []"

text \<open>\<^verbatim>\<open>for offset in range(0, len(xs), n): xs[offset : offset + n]\<close>\<close>

function chunks :: "nat \<Rightarrow> 'a list \<Rightarrow> 'a list list" where
  "chunks n xs = (if n = 0 \<or> xs = [] then [] else take n xs # chunks n (drop n xs))"
  by pat_completeness auto
termination by (relation "measure (length \<circ> snd)") auto

declare chunks.simps [simp del]

definition group_batches :: "HydrationHandler \<Rightarrow> HydrationPriority \<Rightarrow> (nat \<times> HydrationJob) list \<Rightarrow> HydrationBatch list" where
  "group_batches h priority positioned =
     map (\<lambda>chunk. (priority, fst (hd chunk), map snd chunk)) (chunks (hh_batch_size h) positioned)"

definition collect_group :: "handlers \<Rightarrow> group_id \<times> (nat \<times> HydrationJob) list \<Rightarrow>
    (string \<times> HydrationBatch list) list \<Rightarrow> (string \<times> HydrationBatch list) list" where
  "collect_group hs entry by_kind = (case entry of ((kind, priority, dialog), positioned) \<Rightarrow>
     (case od_get hs kind of
        None \<Rightarrow> by_kind
      | Some h \<Rightarrow> if group_batches h priority positioned = [] then by_kind
          else od_append kind (group_batches h priority positioned) by_kind))"

definition collect_batches :: "handlers \<Rightarrow> (group_id \<times> (nat \<times> HydrationJob) list) list \<Rightarrow> (string \<times> HydrationBatch list) list" where
  "collect_batches hs grouped = fold (collect_group hs) grouped []"

definition batch_key :: "HydrationBatch \<Rightarrow> int \<times> nat" where
  "batch_key b = (- priority_int (fst b), fst (snd b))"

definition group_hydration_batches :: "HydrationJob list \<Rightarrow> handlers \<Rightarrow> (string \<times> HydrationBatch list) list" where
  "group_hydration_batches jobs hs =
     map (\<lambda>(kind, bs). (kind, sort_key batch_key bs)) (collect_batches hs (group_jobs jobs))"

definition round_batches :: "HydrationBatch list list \<Rightarrow> nat \<Rightarrow> HydrationBatch list" where
  "round_batches tiered i = map (\<lambda>bs. bs ! i) (filter (\<lambda>bs. i < length bs) tiered)"

definition order_priority_batches :: "(string \<times> HydrationBatch list) list \<Rightarrow> HydrationPriority \<Rightarrow> HydrationJob list list" where
  "order_priority_batches by_kind priority =
     (let tiered = map (\<lambda>(kind, bs). filter (\<lambda>b. fst b = priority) bs) by_kind in
      concat (map (\<lambda>i. map (snd \<circ> snd) (sort_key (due_job_order_key \<circ> hd \<circ> snd \<circ> snd) (round_batches tiered i)))
        [0..<fold max (map length tiered) 0]))"

definition order_hydration_batches :: "(string \<times> HydrationBatch list) list \<Rightarrow> bool \<Rightarrow> HydrationJob list list" where
  "order_hydration_batches by_kind backfill_first =
     concat (map (order_priority_batches by_kind)
       (if backfill_first then [HP_BACKFILL, HP_FOREGROUND] else [HP_FOREGROUND, HP_BACKFILL]))"

definition batch_jobs :: "HydrationJob list \<Rightarrow> handlers \<Rightarrow> bool \<Rightarrow> HydrationJob list list" where
  "batch_jobs jobs hs backfill_first = order_hydration_batches (group_hydration_batches jobs hs) backfill_first"

section \<open>Selection\<close>

type_synonym tiered_jobs = "(string \<times> HydrationJob list) list"

definition tier_heads :: "tiered_jobs \<Rightarrow> (HydrationJob \<times> string) list" where
  "tier_heads tiered = sort_key (due_job_order_key \<circ> fst)
     (map (\<lambda>(kind, js). (hd js, kind)) (filter (\<lambda>(kind, js). js \<noteq> []) tiered))"

text \<open>
  One round: the head of each kind is moved to the selection, in order, until the limit;
  \<^verbatim>\<open>tiered[kind].pop(0)\<close> takes the job from the list of the kind.
\<close>

fun pop_heads :: "nat \<Rightarrow> (HydrationJob \<times> string) list \<Rightarrow> HydrationJob list \<times> tiered_jobs \<Rightarrow> HydrationJob list \<times> tiered_jobs" where
  "pop_heads limit [] st = st"
| "pop_heads limit ((j, kind) # heads) (selected, tiered) =
     (if limit \<le> length selected then (selected, tiered)
      else case od_get tiered kind of
          Some (x # xs) \<Rightarrow> pop_heads limit heads (selected @ [x], od_put kind xs tiered)
        | _ \<Rightarrow> (selected, tiered))"

lemma pop_heads_grows: "length selected \<le> length (fst (pop_heads limit heads (selected, tiered)))"
proof (induction heads arbitrary: selected tiered)
  case (Cons h heads)
  have "length selected \<le> length (fst (pop_heads limit heads (selected @ [x], d)))" for x d
    using Cons.IH [of "selected @ [x]" d] by simp
  then show ?case by (cases h) (auto split: option.split list.split)
qed simp

text \<open>
  The loop runs while the selection is short of the limit and some kind has a job left. A
  round then moves at least one job, since the kinds are the keys of a dictionary (lemma
  \<open>round_moves\<close> of \<open>Hydration_Fairness\<close>); the last conjunct only makes the function total.
\<close>

function append_tier :: "nat \<Rightarrow> HydrationJob list \<times> tiered_jobs \<Rightarrow> HydrationJob list \<times> tiered_jobs" where
  "append_tier limit (selected, tiered) =
     (let next_round = pop_heads limit (tier_heads tiered) (selected, tiered) in
      if length selected < limit \<and> list_ex (\<lambda>(kind, js). js \<noteq> []) tiered \<and> length selected < length (fst next_round)
      then append_tier limit next_round else (selected, tiered))"
  by pat_completeness auto
termination
  by (relation "measure (\<lambda>(limit, selected, tiered). limit - length selected)")
     (auto simp: split_def intro: diff_less_mono2)

declare append_tier.simps [simp del]

definition append_due_priority_tier :: "HydrationJob list \<Rightarrow> tiered_jobs \<Rightarrow> HydrationPriority \<Rightarrow> nat \<Rightarrow> HydrationJob list" where
  "append_due_priority_tier selected remaining priority limit =
     fst (append_tier limit (selected, map (\<lambda>(kind, js). (kind, filter (\<lambda>j. hj_priority j = priority) js)) remaining))"

fun due_by_kind :: "int \<Rightarrow> int \<Rightarrow> HydrationPriority \<Rightarrow> HydrationRow list \<Rightarrow> handlers \<Rightarrow> hydration_error + tiered_jobs" where
  "due_by_kind now max_jobs priority rows [] = Inr []"
| "due_by_kind now max_jobs priority rows ((kind, h) # hs) =
     and_then (due_jobs now max_jobs (Some kind) (Some priority) rows) (\<lambda>js.
     and_then (due_by_kind now max_jobs priority rows hs) (\<lambda>tiers. Inr ((kind, js) # tiers)))"

definition affordable :: "handlers \<Rightarrow> int \<Rightarrow> HydrationJob list \<Rightarrow> bool" where
  "affordable hs remaining b \<longleftrightarrow>
     (case od_get hs (hj_kind (hd b)) of Some h \<Rightarrow> hh_request_cost h \<le> remaining | None \<Rightarrow> False)"

text \<open>
  \<^verbatim>\<open>_select_batch\<close>: \<open>remaining\<close> and \<open>retry\<close> are the budget's \<^verbatim>\<open>remaining\<close> (exhausted when it is not
  positive) and \<^verbatim>\<open>can_prepare_retry\<close>.
\<close>

definition select_batch :: "handlers \<Rightarrow> nat \<Rightarrow> HydrationRow list \<Rightarrow> HydrationPriority \<Rightarrow> int \<Rightarrow> bool \<Rightarrow>
    HydrationJob option \<Rightarrow> int \<Rightarrow> hydration_error + HydrationJob list option" where
  "select_batch hs max_jobs rows priority remaining retry selected_job now =
     and_then (case selected_job of
         Some j \<Rightarrow> Inr [(hj_kind j, [j])]
       | None \<Rightarrow> due_by_kind now (int max_jobs) priority rows hs) (\<lambda>per_kind.
     let selected = append_due_priority_tier [] per_kind priority max_jobs;
         batches = batch_jobs selected hs (priority = HP_BACKFILL);
         can_prepare = (selected_job \<noteq> None \<and> remaining \<le> 0 \<and> retry)
     in Inr (List.find (\<lambda>b. affordable hs remaining b \<or> can_prepare) batches))"

end
