(* ===== verification/Hydration_Lifecycle.thy ===== *)
theory Hydration_Lifecycle
  imports Hydration_Queue
begin

text \<open>
  What the queue guarantees of one job over a run of operations: the table is abstracted to
  a map from identities to rows, on which every operation acts pointwise, and the life of a
  row follows from that.
\<close>

section \<open>The table as a map\<close>

definition row_at :: "HydrationRow list \<Rightarrow> job_id \<Rightarrow> HydrationRow option" where
  "row_at rows i = List.find (\<lambda>r. row_id r = i) rows"

text \<open>What an operation makes of a row that is there, with \<open>None\<close> when it deletes it.\<close>

definition when_row :: "bool \<Rightarrow> (HydrationRow \<Rightarrow> HydrationRow) \<Rightarrow> HydrationRow \<Rightarrow> HydrationRow option" where
  "when_row b f r = Some (if b then f r else r)"

definition unless_row :: "bool \<Rightarrow> HydrationRow \<Rightarrow> HydrationRow option" where
  "unless_row b r = (if b then None else Some r)"

fun row_effect :: "hydration_op \<Rightarrow> HydrationRow \<Rightarrow> HydrationRow option" where
  "row_effect (Op_Enqueue j) r = when_row (row_id r = identity j) (accelerate j) r"
| "row_effect (Op_Start j) r = when_row (row_id r = identity j \<and> active r) start_row r"
| "row_effect (Op_Reschedule j due out code) r =
     when_row (row_id r = identity j \<and> active r) (set_outcome out code \<circ> set_due due) r"
| "row_effect (Op_Requeue_Undispatched j due out code) r =
     when_row (row_id r = identity j \<and> active r \<and> 0 < hj_attempts (hr_job r)) (set_outcome out code \<circ> set_due due \<circ> refund) r"
| "row_effect (Op_Requeue_Not_Applied j due) r =
     when_row (leased j r \<and> 0 < hj_attempts (hr_job r)) (set_outcome HO_NOT_APPLIED None \<circ> set_due due \<circ> refund) r"
| "row_effect (Op_Mark_Terminal j out code) r = when_row (row_id r = identity j)
     (\<lambda>r. set_outcome out code (r\<lparr>hr_job := (hr_job r)\<lparr>hj_terminal := True\<rparr>\<rparr>)) r"
| "row_effect (Op_Remove j) r = unless_row (row_id r = identity j) r"
| "row_effect (Op_Remove_Active j) r = unless_row (row_id r = identity j \<and> active r) r"
| "row_effect (Op_Remove_Active_For_Dialog d) r = unless_row (hj_dialog_id (hr_job r) = d \<and> active r) r"
| "row_effect (Op_Remove_For_Message d m) r =
     unless_row (hj_dialog_id (hr_job r) = d \<and> hj_message_id (hr_job r) = m) r"

definition life_step :: "job_id \<Rightarrow> hydration_op \<Rightarrow> HydrationRow option \<Rightarrow> HydrationRow option" where
  "life_step i e row = (case row of Some r \<Rightarrow> row_effect e r
     | None \<Rightarrow> (case e of Op_Enqueue j \<Rightarrow> if identity j = i then Some (new_row j) else None | _ \<Rightarrow> None))"

text \<open>The jobs an operation carries were built by the constructor, which validates them.\<close>

fun op_valid :: "hydration_op \<Rightarrow> bool" where
  "op_valid (Op_Enqueue j) = valid_job j"
| "op_valid e = True"

definition queue_ok :: "HydrationRow list \<Rightarrow> bool" where
  "queue_ok rows \<longleftrightarrow> distinct (map row_id rows) \<and> list_all (valid_job \<circ> hr_job) rows"

lemmas row_updates = accelerate_def start_row_def set_outcome_def set_due_def refund_def Let_def

lemma row_id_updates [simp]:
  "row_id (accelerate j r) = row_id r" "row_id (start_row r) = row_id r" "row_id (refund r) = row_id r"
  "row_id (set_outcome out code r) = row_id r" "row_id (set_due due r) = row_id r"
  "row_id (r\<lparr>hr_job := (hr_job r)\<lparr>hj_terminal := b\<rparr>\<rparr>) = row_id r" "row_id (new_row j) = identity j"
  by (simp_all add: identity_def row_updates new_row_def)

lemma identity_terminal [simp]: "identity (j\<lparr>hj_terminal := b\<rparr>) = identity j"
  by (simp add: identity_def)

lemma row_effect_id: "row_effect e r = Some r' \<Longrightarrow> row_id r' = row_id r"
  by (cases e) (auto simp: when_row_def unless_row_def split: if_splits)

lemma valid_job_updates [simp]:
  "valid_job (hr_job (set_outcome out code r)) = valid_job (hr_job r)"
  "valid_job (hr_job (set_due due r)) = valid_job (hr_job r)"
  "valid_job ((hr_job r)\<lparr>hj_terminal := b\<rparr>) = valid_job (hr_job r)"
  "valid_job (hr_job r) \<Longrightarrow> valid_job (hr_job (start_row r))"
  "valid_job (hr_job r) \<Longrightarrow> 0 < hj_attempts (hr_job r) \<Longrightarrow> valid_job (hr_job (refund r))"
  "valid_job (hr_job r) \<Longrightarrow> valid_job (hr_job (accelerate j r))"
  by (auto simp: valid_job_def row_updates)

lemma row_effect_valid: "row_effect e r = Some r' \<Longrightarrow> valid_job (hr_job r) \<Longrightarrow> valid_job (hr_job r')"
  by (cases e) (auto simp: when_row_def unless_row_def split: if_splits)

text \<open>Every operation but an insertion maps or drops the rows one by one.\<close>

lemma update_where_effect:
  "snd (update_where p f rows) = List.map_filter (\<lambda>r. when_row (p r) f r) rows"
  by (induction rows) (simp_all add: update_where_def when_row_def List.map_filter_simps)

lemma delete_where_effect: "snd (delete_where p rows) = List.map_filter (\<lambda>r. unless_row (p r) r) rows"
  by (induction rows) (simp_all add: delete_where_def unless_row_def List.map_filter_simps)

lemma snd_changed [simp]: "snd (changed w) = snd w"
  by (simp add: changed_def)

lemma start_rows:
  assumes "queue_ok rows"
  shows "hydration_step (Op_Start j) rows = snd (update_where (\<lambda>r. row_id r = identity j \<and> active r) start_row rows)"
proof (cases "filter (\<lambda>r. row_id r = identity j \<and> active r) rows")
  case Nil
  then show ?thesis
    by (auto simp: start_def update_where_def filter_empty_conv intro!: map_idI [symmetric])
next
  case (Cons r rs)
  then have "r \<in> set (filter (\<lambda>r. row_id r = identity j \<and> active r) rows)" by simp
  then have "r \<in> set rows" by simp
  then have "valid_job (hr_job (start_row r))"
    using assms by (simp add: queue_ok_def list_all_iff)
  with Cons show ?thesis by (simp add: start_def job_from_row_def and_then_def guard_def)
qed

lemma row_effect_fun:
  "row_effect (Op_Start j) = (\<lambda>r. when_row (row_id r = identity j \<and> active r) start_row r)"
  "row_effect (Op_Reschedule j due out code) =
     (\<lambda>r. when_row (row_id r = identity j \<and> active r) (set_outcome out code \<circ> set_due due) r)"
  "row_effect (Op_Requeue_Undispatched j due out code) = (\<lambda>r. when_row
     (row_id r = identity j \<and> active r \<and> 0 < hj_attempts (hr_job r)) (set_outcome out code \<circ> set_due due \<circ> refund) r)"
  "row_effect (Op_Requeue_Not_Applied j due) = (\<lambda>r. when_row
     (leased j r \<and> 0 < hj_attempts (hr_job r)) (set_outcome HO_NOT_APPLIED None \<circ> set_due due \<circ> refund) r)"
  "row_effect (Op_Mark_Terminal j out code) = (\<lambda>r. when_row (row_id r = identity j)
     (\<lambda>r. set_outcome out code (r\<lparr>hr_job := (hr_job r)\<lparr>hj_terminal := True\<rparr>\<rparr>)) r)"
  "row_effect (Op_Remove j) = (\<lambda>r. unless_row (row_id r = identity j) r)"
  "row_effect (Op_Remove_Active j) = (\<lambda>r. unless_row (row_id r = identity j \<and> active r) r)"
  "row_effect (Op_Remove_Active_For_Dialog d) = (\<lambda>r. unless_row (hj_dialog_id (hr_job r) = d \<and> active r) r)"
  "row_effect (Op_Remove_For_Message d m) =
     (\<lambda>r. unless_row (hj_dialog_id (hr_job r) = d \<and> hj_message_id (hr_job r) = m) r)"
  by (rule ext, simp)+

lemma step_effect:
  assumes "queue_ok rows" "\<forall>j. e \<noteq> Op_Enqueue j"
  shows "hydration_step e rows = List.map_filter (row_effect e) rows"
proof -
  show ?thesis
    using assms(2) start_rows [OF assms(1)]
    by (cases e) (simp_all add: update_where_effect delete_where_effect reschedule_def requeue_undispatched_def
        requeue_not_applied_def mark_terminal_def remove_def remove_active_def remove_active_for_dialog_def
        remove_for_message_def row_effect_fun del: hydration_step.simps(2))
qed

lemma map_filter_ids:
  assumes "\<And>r r'. f r = Some r' \<Longrightarrow> row_id r' = row_id r" "distinct (map row_id rows)"
  shows "distinct (map row_id (List.map_filter f rows)) \<and>
    set (map row_id (List.map_filter f rows)) \<subseteq> set (map row_id rows)"
  using assms(2)
proof (induction rows)
  case (Cons r rows)
  then show ?case using assms(1) [of r] by (auto simp: List.map_filter_simps split: option.split)
qed (simp add: List.map_filter_simps)

lemma row_at_None: "row_at rows i = None \<longleftrightarrow> i \<notin> row_id ` set rows"
  by (auto simp: row_at_def find_None_iff)

lemma row_at_map_filter:
  assumes "\<And>r r'. f r = Some r' \<Longrightarrow> row_id r' = row_id r" "distinct (map row_id rows)"
  shows "row_at (List.map_filter f rows) i = Option.bind (row_at rows i) f"
  using assms(2)
proof (induction rows)
  case (Cons r rows)
  have none: "row_at rows (row_id r) = None"
    using Cons.prems by (auto simp: row_at_None)
  show ?case
    using Cons none assms(1) [of r]
    by (auto simp: List.map_filter_simps row_at_def split: option.split)
qed (simp add: List.map_filter_simps row_at_def)

lemma row_at_Some:
  assumes "distinct (map row_id rows)"
  shows "row_at rows i = Some r \<longleftrightarrow> r \<in> set rows \<and> row_id r = i"
proof
  assume "row_at rows i = Some r"
  then show "r \<in> set rows \<and> row_id r = i" by (auto simp: row_at_def find_Some_iff)
next
  assume r: "r \<in> set rows \<and> row_id r = i"
  then obtain r' where "row_at rows i = Some r'" using row_at_None [of rows i] by force
  moreover from this have "r' \<in> set rows" "row_id r' = i" by (auto simp: row_at_def find_Some_iff)
  ultimately show "row_at rows i = Some r" using key_unique [OF assms] r by metis
qed

lemma life_step_effect: "e = Op_Enqueue j \<or> row \<noteq> None \<Longrightarrow> life_step i e row =
    (case row of None \<Rightarrow> if identity j = i then Some (new_row j) else None | Some r \<Rightarrow> row_effect e r)"
  by (auto simp: life_step_def split: option.split)

lemma row_at_append: "row_at (rows @ [r]) i =
    (case row_at rows i of Some r' \<Rightarrow> Some r' | None \<Rightarrow> if row_id r = i then Some r else None)"
  by (induction rows) (auto simp: row_at_def)

lemma enqueue_known:
  assumes "identity j \<in> row_id ` set rows"
  shows "enqueue_job j rows = List.map_filter (row_effect (Op_Enqueue j)) rows"
proof -
  have "row_effect (Op_Enqueue j) = (\<lambda>r. when_row (row_id r = identity j) (accelerate j) r)" by (rule ext) simp
  then show ?thesis using assms by (simp add: enqueue_job_def insert_on_conflict_def update_where_effect)
qed

lemma enqueue_new: "identity j \<notin> row_id ` set rows \<Longrightarrow> enqueue_job j rows = rows @ [new_row j]"
  by (simp add: enqueue_job_def insert_on_conflict_def)

lemma map_filter_set: "r' \<in> set (List.map_filter f rows) \<longleftrightarrow> (\<exists>r \<in> set rows. f r = Some r')"
  by (induction rows) (auto simp: List.map_filter_simps split: option.split)

lemma pointwise_ok:
  assumes "queue_ok rows"
  shows "queue_ok (List.map_filter (row_effect e) rows) \<and>
    row_at (List.map_filter (row_effect e) rows) i = Option.bind (row_at rows i) (row_effect e)"
proof -
  have "distinct (map row_id rows)" using assms by (simp add: queue_ok_def)
  moreover have "list_all (valid_job \<circ> hr_job) (List.map_filter (row_effect e) rows)"
    using assms row_effect_valid by (fastforce simp: queue_ok_def list_all_iff map_filter_set)
  ultimately show ?thesis
    using map_filter_ids [of "row_effect e" rows] row_at_map_filter [of "row_effect e" rows i] row_effect_id [of e]
    by (auto simp: queue_ok_def)
qed

lemma queue_step:
  assumes "queue_ok rows" "op_valid e"
  shows "queue_ok (hydration_step e rows) \<and> row_at (hydration_step e rows) i = life_step i e (row_at rows i)"
proof (cases "\<exists>j. e = Op_Enqueue j \<and> identity j \<notin> row_id ` set rows")
  case True
  then obtain j where e: "e = Op_Enqueue j" and new: "identity j \<notin> row_id ` set rows" by blast
  have "row_at rows i = Some r \<Longrightarrow> row_id r \<noteq> identity j" for r
    using new assms(1) by (metis image_eqI queue_ok_def row_at_Some)
  then show ?thesis
    using assms e new
    by (auto simp: enqueue_new row_at_append queue_ok_def new_row_def life_step_def when_row_def split: option.split)
next
  case False
  then have step: "hydration_step e rows = List.map_filter (row_effect e) rows"
    using step_effect [OF assms(1), of e] enqueue_known by (cases "\<exists>j. e = Op_Enqueue j") auto
  have "Option.bind (row_at rows i) (row_effect e) = life_step i e (row_at rows i)"
  proof (cases "row_at rows i")
    case None
    then have "\<not> (\<exists>j. e = Op_Enqueue j \<and> identity j = i)" using False by (auto simp: row_at_None)
    then show ?thesis using None by (auto simp: life_step_def split: hydration_op.split)
  qed (simp add: life_step_def)
  then show ?thesis using pointwise_ok [OF assms(1), of e i] by (simp add: step)
qed

interpretation hydration: guarded_system hydration_step op_valid queue_ok
  by unfold_locales (use queue_step in blast)

lemma queue_ok_Nil [simp]: "queue_ok []"
  by (simp add: queue_ok_def)

lemma run_life:
  "queue_ok rows \<Longrightarrow> list_all op_valid es \<Longrightarrow>
    row_at (run_ops hydration_step es rows) i = run_ops (life_step i) es (row_at rows i)"
  by (induction es arbitrary: rows) (use queue_step in auto)

section \<open>The life of a job\<close>

text \<open>
  C32. The queue table implements a map from job identities to rows. Whatever operations its
  callers issue, from the empty table on, a job has at most one row, every row is one the job
  constructor accepts (so reading the queue never raises), and each operation acts on each row
  by itself: the row of an identity is what the operations make of that identity alone.
\<close>

theorem queue_refines_rows:
  assumes "list_all op_valid es"
  shows "queue_ok (run_ops hydration_step es []) \<and>
    row_at (run_ops hydration_step es []) i = run_ops (life_step i) es None"
  using hydration.permitted_run [OF assms queue_ok_Nil] run_life [OF queue_ok_Nil assms]
  by (simp add: row_at_def)

definition sample_job :: HydrationJob where
  "sample_job = \<lparr>hj_kind = ''transcription'', hj_dialog_id = -1001, hj_message_id = 7, hj_due_at = 50, hj_attempts = 0,
     hj_message_sent_at = 40, hj_priority = HP_BACKFILL, hj_terminal = False\<rparr>"

lemma sample_job_valid [simp]: "valid_job sample_job"
  by (simp add: sample_job_def valid_job_def)

theorem queue_refines_rows_witness:
  "row_at (run_ops hydration_step [Op_Enqueue sample_job, Op_Start sample_job] []) (identity sample_job) =
     Some (start_row (new_row sample_job))"
proof -
  have "active (new_row sample_job)" by (simp add: new_row_def sample_job_def)
  then show ?thesis
    using queue_refines_rows [of "[Op_Enqueue sample_job, Op_Start sample_job]" "identity sample_job"]
    by (simp add: life_step_def when_row_def)
qed

text \<open>The operations that may concern a job, and those that may end its suppression.\<close>

fun concerns :: "job_id \<Rightarrow> hydration_op \<Rightarrow> bool" where
  "concerns i (Op_Enqueue j) = (identity j = i)"
| "concerns i (Op_Start j) = (identity j = i)"
| "concerns i (Op_Reschedule j due out code) = (identity j = i)"
| "concerns i (Op_Requeue_Undispatched j due out code) = (identity j = i)"
| "concerns i (Op_Requeue_Not_Applied j due) = (identity j = i)"
| "concerns i (Op_Mark_Terminal j out code) = (identity j = i)"
| "concerns i (Op_Remove j) = (identity j = i)"
| "concerns i (Op_Remove_Active j) = (identity j = i)"
| "concerns i (Op_Remove_Active_For_Dialog d) = (fst (snd i) = d)"
| "concerns i (Op_Remove_For_Message d m) = (snd i = (d, m))"

fun releases :: "job_id \<Rightarrow> hydration_op \<Rightarrow> bool" where
  "releases i (Op_Remove j) = (identity j = i)"
| "releases i (Op_Remove_For_Message d m) = (snd i = (d, m))"
| "releases i e = False"

lemma unconcerned: "row_id r = i \<Longrightarrow> \<not> concerns i e \<Longrightarrow> row_effect e r = Some r"
  by (cases e) (auto simp: when_row_def unless_row_def leased_def identity_def)

lemma start_none:
  assumes "\<forall>r \<in> set rows. row_id r = identity j \<longrightarrow> hj_terminal (hr_job r)"
  shows "start j rows = Inr (None, rows)"
proof -
  have "filter (\<lambda>r. row_id r = identity j \<and> active r) rows = []" using assms by (auto simp: filter_empty_conv)
  then show ?thesis by (simp add: start_def)
qed

lemma suppressed_effect:
  assumes "hj_terminal (hr_job r)" "\<not> releases (row_id r) e"
  shows "\<exists>r'. row_effect e r = Some r' \<and> row_id r' = row_id r \<and> hj_terminal (hr_job r') \<and>
    hj_attempts (hr_job r') = hj_attempts (hr_job r)"
  using assms by (cases e) (auto simp: when_row_def unless_row_def leased_def row_updates identity_def)

lemma suppressed_run:
  assumes "row = Some r" "hj_terminal (hr_job r)" "list_all (\<lambda>e. \<not> releases (row_id r) e) es"
  shows "\<exists>r'. run_ops (life_step (row_id r)) es row = Some r' \<and> row_id r' = row_id r \<and> hj_terminal (hr_job r') \<and>
    hj_attempts (hr_job r') = hj_attempts (hr_job r)"
  using assms
proof (induction es arbitrary: row r)
  case (Cons e es)
  then obtain r' where r': "row_effect e r = Some r'" "row_id r' = row_id r" "hj_terminal (hr_job r')"
      "hj_attempts (hr_job r') = hj_attempts (hr_job r)"
    using suppressed_effect [of r e] by auto
  with Cons.IH [of "Some r'" r'] Cons.prems show ?case by (auto simp: life_step_def)
qed simp

lemma jobs_from_valid: "list_all (valid_job \<circ> hr_job) rs \<Longrightarrow> jobs_from_rows rs = Inr (map hr_job rs)"
  by (induction rs) (simp_all add: job_from_row_def and_then_def guard_def)

lemma due_jobs_ok:
  assumes "queue_ok rows"
  shows "due_jobs now limit kind priority rows =
    Inr (map hr_job (select_ordered (is_due now kind priority) (due_order priority) (nat limit) rows))"
proof (cases "limit \<le> 0")
  case True
  then show ?thesis by (simp add: due_jobs_def select_ordered_def)
next
  case False
  have "list_all (valid_job \<circ> hr_job) (select_ordered (is_due now kind priority) (due_order priority) (nat limit) rows)"
    using assms select_ordered_sound [of _ "is_due now kind priority" "due_order priority" "nat limit" rows]
    by (fastforce simp: queue_ok_def list_all_iff)
  then show ?thesis using False by (simp add: due_jobs_def jobs_from_valid)
qed

text \<open>
  A suppressed job stays suppressed. Once a job is terminal, no run of operations makes it
  active again unless its row is removed by a reconciliation of its message; meanwhile it is
  never read as due, cannot be started, and keeps its attempt count.
\<close>

theorem suppressed_job_stays:
  assumes "queue_ok rows" "r \<in> set rows" "hj_terminal (hr_job r)"
    and "list_all op_valid es" "list_all (\<lambda>e. \<not> releases (row_id r) e) es"
  defines "rows' \<equiv> run_ops hydration_step es rows"
  shows "(\<exists>r' \<in> set rows'. row_id r' = row_id r \<and> hj_terminal (hr_job r') \<and>
      hj_attempts (hr_job r') = hj_attempts (hr_job r)) \<and>
    (\<forall>j \<in> set (projr (due_jobs now limit kind priority rows')). identity j \<noteq> row_id r) \<and>
    (\<forall>j. identity j = row_id r \<longrightarrow> start j rows' = Inr (None, rows'))"
proof -
  have ok: "queue_ok rows'" using hydration.permitted_run [OF assms(4,1)] by (simp add: rows'_def)
  have "row_at rows (row_id r) = Some r" using assms(1,2) by (simp add: queue_ok_def row_at_Some)
  then obtain r' where "row_at rows' (row_id r) = Some r'" and r': "row_id r' = row_id r" "hj_terminal (hr_job r')"
      "hj_attempts (hr_job r') = hj_attempts (hr_job r)"
    using suppressed_run [of _ r es] run_life [OF assms(1,4), of "row_id r"] assms(3,5) by (auto simp: rows'_def)
  then have in': "r' \<in> set rows'" using ok by (simp add: queue_ok_def row_at_Some)
  have unique: "x \<in> set rows' \<Longrightarrow> row_id x = row_id r \<Longrightarrow> x = r'" for x
    using key_unique [of row_id rows' x r'] ok in' r'(1) by (simp add: queue_ok_def)
  have "x \<in> set (select_ordered (is_due now kind priority) (due_order priority) (nat limit) rows') \<Longrightarrow> row_id x \<noteq> row_id r" for x
    using select_ordered_sound [of x "is_due now kind priority" "due_order priority" "nat limit" rows'] unique [of x] r'(2)
    by (auto simp: is_due_def)
  moreover have "identity j = row_id r \<Longrightarrow> start j rows' = Inr (None, rows')" for j
    using unique r'(2) by (intro start_none) auto
  ultimately show ?thesis using in' r' by (auto simp: due_jobs_ok [OF ok])
qed

definition suppressed_sample :: HydrationRow where
  "suppressed_sample = \<lparr>hr_job = sample_job\<lparr>hj_terminal := True, hj_attempts := 3\<rparr>,
     hr_last_outcome = LAST HO_EXHAUSTED, hr_error_code = None\<rparr>"

theorem suppressed_job_stays_witness:
  "start sample_job (run_ops hydration_step [Op_Enqueue sample_job, Op_Start sample_job] [suppressed_sample]) =
     Inr (None, run_ops hydration_step [Op_Enqueue sample_job, Op_Start sample_job] [suppressed_sample])"
proof -
  have "queue_ok [suppressed_sample]" "hj_terminal (hr_job suppressed_sample)" "identity sample_job = row_id suppressed_sample"
    by (simp_all add: queue_ok_def suppressed_sample_def valid_job_def sample_job_def identity_def)
  then show ?thesis
    using suppressed_job_stays [of "[suppressed_sample]" suppressed_sample "[Op_Enqueue sample_job, Op_Start sample_job]"]
    by simp
qed

section \<open>Leases and refunds\<close>

lemma start_some:
  assumes "queue_ok rows" "start j rows = Inr (Some s, rows1)"
  shows "\<exists>r \<in> set rows. row_id r = identity j \<and> active r \<and> s = hr_job (start_row r) \<and>
    rows1 = hydration_step (Op_Start j) rows"
proof -
  let ?p = "\<lambda>r. row_id r = identity j \<and> active r"
  obtain x xs where x: "map start_row (filter ?p rows) = x # xs"
    using assms(2) by (cases "map start_row (filter ?p rows)") (auto simp: start_def)
  then have "x \<in> set (map start_row (filter ?p rows))" by simp
  then obtain r where r: "r \<in> set (filter ?p rows)" "x = start_row r" by auto
  have "s = hr_job x"
    using assms(2) x by (auto simp: start_def job_from_row_def and_then_def guard_def split: if_splits)
  then show ?thesis using r assms(2) by auto
qed

text \<open>A row that the holder of \<open>s\<close> started, whatever was enqueued since.\<close>

definition lease_of :: "HydrationJob \<Rightarrow> HydrationRow \<Rightarrow> bool" where
  "lease_of s r \<longleftrightarrow> leased s r \<and> 0 < hj_attempts (hr_job r)"

lemma lease_effect:
  assumes "lease_of s r" "\<not> concerns (identity s) e \<or> (\<exists>j. e = Op_Enqueue j)"
  shows "\<exists>r'. row_effect e r = Some r' \<and> lease_of s r'"
proof (cases "concerns (identity s) e")
  case True
  then obtain j where "e = Op_Enqueue j" using assms(2) by blast
  then show ?thesis using assms(1) by (auto simp: when_row_def lease_of_def leased_def accelerate_def Let_def identity_def)
next
  case False
  then show ?thesis using assms(1) unconcerned [of r "identity s" e] by (auto simp: lease_of_def leased_def)
qed

text \<open>A row whose refund was taken: it is not being processed.\<close>

lemma returned_effect:
  assumes "row_id r = identity s" "hr_last_outcome r \<noteq> LAST HO_PROCESSING"
    and "\<not> concerns (identity s) e \<or> (\<exists>j. e = Op_Enqueue j)"
  shows "\<exists>r'. row_effect e r = Some r' \<and> row_id r' = identity s \<and> hr_last_outcome r' \<noteq> LAST HO_PROCESSING"
proof (cases "concerns (identity s) e")
  case True
  then obtain j where "e = Op_Enqueue j" using assms(3) by blast
  then show ?thesis using assms(1,2) by (auto simp: when_row_def accelerate_def Let_def identity_def)
next
  case False
  then show ?thesis using assms(1,2) unconcerned [of r "identity s" e] by auto
qed

lemma life_keeps:
  assumes "\<And>r e. P r \<Longrightarrow> Q e \<Longrightarrow> \<exists>r'. row_effect e r = Some r' \<and> P r'" "P r" "list_all Q es"
  shows "\<exists>r'. run_ops (life_step i) es (Some r) = Some r' \<and> P r'"
  using assms(2,3)
proof (induction es arbitrary: r)
  case (Cons e es)
  then obtain r' where "row_effect e r = Some r'" "P r'" using assms(1) [of r e] by auto
  with Cons show ?case by (auto simp: life_step_def)
qed simp

definition undisturbed :: "job_id \<Rightarrow> hydration_op \<Rightarrow> bool" where
  "undisturbed i e \<longleftrightarrow> op_valid e \<and> (\<not> concerns i e \<or> (\<exists>j. e = Op_Enqueue j))"

lemma undisturbed_run:
  assumes "queue_ok rows" "r \<in> set rows" "row_id r = i" "list_all (undisturbed i) es" "P r"
    and "\<And>r e. P r \<Longrightarrow> undisturbed i e \<Longrightarrow> \<exists>r'. row_effect e r = Some r' \<and> P r'"
  shows "queue_ok (run_ops hydration_step es rows) \<and>
    (\<exists>r' \<in> set (run_ops hydration_step es rows). row_id r' = i \<and> P r')"
proof -
  have valid: "list_all op_valid es" using assms(4) by (simp add: list_all_iff undisturbed_def)
  have ok: "queue_ok (run_ops hydration_step es rows)"
    by (rule hydration.permitted_run [OF valid assms(1)])
  have "row_at rows i = Some r" using assms(1-3) by (simp add: queue_ok_def row_at_Some)
  then obtain r' where "row_at (run_ops hydration_step es rows) i = Some r'" "P r'"
    using life_keeps [of P "undisturbed i" r es i] assms(4-6) run_life [OF assms(1) valid, of i] by auto
  then show ?thesis using ok by (auto simp: queue_ok_def row_at_Some)
qed

lemma requeue_result:
  assumes "queue_ok rows" "r \<in> set rows" "row_id r = identity s"
  shows "fst (requeue_not_applied s due rows) \<longleftrightarrow> lease_of s r"
proof -
  have "x \<in> set rows \<Longrightarrow> leased s x \<Longrightarrow> x = r" for x
    using assms key_unique [of row_id rows x r] by (simp add: queue_ok_def leased_def)
  then show ?thesis
    using assms(2) by (auto simp: requeue_not_applied_def changed_def update_where_def lease_of_def filter_empty_conv)
qed

lemma requeue_unchanged: "\<not> fst (requeue_not_applied s due rows) \<Longrightarrow> snd (requeue_not_applied s due rows) = rows"
  by (auto simp: requeue_not_applied_def changed_def update_where_def filter_empty_conv intro!: map_idI)

text \<open>
  A start is refunded exactly once, and exactly. Whatever happens to other jobs, and however
  often the job is enqueued again, after a start its holder can return it as not applied, which
  puts its attempt count and due time back to what they were before the start; the same
  lease then never returns it a second time, so no attempt is given back twice.
\<close>

theorem start_refunded_once:
  assumes "queue_ok rows" "start j rows = Inr (Some s, rows1)"
    and "list_all (undisturbed (identity j)) es" "list_all (undisturbed (identity j)) es'"
  defines "before \<equiv> run_ops hydration_step es rows1"
  defines "after \<equiv> snd (requeue_not_applied s (hj_due_at s) before)"
  defines "later \<equiv> run_ops hydration_step es' after"
  shows "\<exists>r \<in> set rows. row_id r = identity j \<and> active r \<and> fst (requeue_not_applied s (hj_due_at s) before) \<and>
    (\<exists>r' \<in> set after. row_id r' = identity j \<and> active r' \<and>
       hj_attempts (hr_job r') = hj_attempts (hr_job r) \<and> hj_due_at (hr_job r') = hj_due_at (hr_job r)) \<and>
    requeue_not_applied s due later = (False, later)"
proof -
  obtain r where r: "r \<in> set rows" "row_id r = identity j" "active r" "s = hr_job (start_row r)"
      and rows1: "rows1 = hydration_step (Op_Start j) rows"
    using start_some [OF assms(1,2)] by blast
  have id: "identity s = identity j" using r by simp
  have ok1: "queue_ok rows1" using queue_step [OF assms(1), of "Op_Start j"] rows1 by simp
  have "row_at rows (identity j) = Some r" using r assms(1) by (simp add: queue_ok_def row_at_Some)
  then have "row_at rows1 (identity j) = Some (start_row r)"
    using queue_step [OF assms(1), of "Op_Start j" "identity j"] rows1 r by (simp add: life_step_def when_row_def)
  then have in1: "start_row r \<in> set rows1" using ok1 by (simp add: queue_ok_def row_at_Some)
  have "0 \<le> hj_attempts (hr_job r)" using assms(1) r(1) by (auto simp: queue_ok_def list_all_iff valid_job_def)
  then have lease1: "lease_of s (start_row r)"
    using r by (simp add: lease_of_def leased_def start_row_def)
  have keeps: "lease_of s x \<Longrightarrow> undisturbed (identity j) e \<Longrightarrow> \<exists>x'. row_effect e x = Some x' \<and> lease_of s x'" for x e
    using lease_effect [of s x e] id by (simp add: undisturbed_def)
  obtain x where ok2: "queue_ok before" and x: "x \<in> set before" "row_id x = identity j" "lease_of s x"
    using undisturbed_run [OF ok1 in1 _ assms(3), of "lease_of s"] lease1 keeps r(2) by (auto simp: before_def)
  have succeeds: "fst (requeue_not_applied s (hj_due_at s) before)"
    using requeue_result [OF ok2 x(1)] x id by simp
  define y where "y = (set_outcome HO_NOT_APPLIED None \<circ> set_due (hj_due_at s) \<circ> refund) x"
  have step: "after = hydration_step (Op_Requeue_Not_Applied s (hj_due_at s)) before" by (simp add: after_def)
  have ok3: "queue_ok after" using queue_step [OF ok2, of "Op_Requeue_Not_Applied s (hj_due_at s)"] step by simp
  have "row_at before (identity j) = Some x" using x ok2 by (simp add: queue_ok_def row_at_Some)
  then have "row_at after (identity j) = Some y"
    using queue_step [OF ok2, of "Op_Requeue_Not_Applied s (hj_due_at s)" "identity j"] step x(3)
    by (simp add: life_step_def when_row_def lease_of_def y_def)
  then have y: "y \<in> set after" "row_id y = identity j" using ok3 by (simp_all add: queue_ok_def row_at_Some)
  have cols: "active y" "hj_attempts (hr_job y) = hj_attempts (hr_job r)" "hj_due_at (hr_job y) = hj_due_at (hr_job r)"
      "hr_last_outcome y \<noteq> LAST HO_PROCESSING"
    using x(3) r by (simp_all add: y_def lease_of_def leased_def row_updates)
  have stays: "row_id z = identity j \<and> hr_last_outcome z \<noteq> LAST HO_PROCESSING \<Longrightarrow> undisturbed (identity j) e \<Longrightarrow>
      \<exists>z'. row_effect e z = Some z' \<and> row_id z' = identity j \<and> hr_last_outcome z' \<noteq> LAST HO_PROCESSING" for z e
    using returned_effect [of z s e] id by (auto simp: undisturbed_def)
  obtain z where ok4: "queue_ok later" and z: "z \<in> set later" "row_id z = identity j" "hr_last_outcome z \<noteq> LAST HO_PROCESSING"
    using undisturbed_run [OF ok3 y assms(4), of "\<lambda>z. row_id z = identity j \<and> hr_last_outcome z \<noteq> LAST HO_PROCESSING"]
      y(2) cols(4) stays by (auto simp: later_def)
  have "\<not> fst (requeue_not_applied s due later)"
    using requeue_result [OF ok4 z(1)] z id by (simp add: lease_of_def leased_def)
  then have "requeue_not_applied s due later = (False, later)"
    using requeue_unchanged [of s due later] by (metis prod.collapse)
  then show ?thesis using r succeeds y cols by blast
qed

theorem start_refunded_once_witness:
  "\<exists>s rows1. start sample_job [new_row sample_job] = Inr (Some s, rows1) \<and>
     fst (requeue_not_applied s (hj_due_at s) (run_ops hydration_step [Op_Enqueue sample_job] rows1))"
proof -
  have ok: "queue_ok [new_row sample_job]" by (simp add: queue_ok_def new_row_def)
  have "valid_job (hr_job (start_row (new_row sample_job)))" by (simp add: new_row_def)
  then obtain rows1 where start: "start sample_job [new_row sample_job] = Inr (Some (hr_job (start_row (new_row sample_job))), rows1)"
    by (simp add: start_def job_from_row_def guard_def and_then_def new_row_def sample_job_def)
  moreover have "list_all (undisturbed (identity sample_job)) [Op_Enqueue sample_job]"
    by (simp add: undisturbed_def)
  ultimately show ?thesis using start_refunded_once [OF ok start, of "[Op_Enqueue sample_job]" "[]"] by auto
qed

end
