(* ===== verification/Hydration_Fairness.thy ===== *)
theory Hydration_Fairness
  imports Hydration_Batches Hydration_Lifecycle
begin

text \<open>
  What the selection guarantees: batches lose and repeat no job and mix nothing a request
  cannot carry; a tier is shared between the kinds; without a selection of its owner the worker
  finds work it can pay for.
\<close>

section \<open>Dictionaries of lists\<close>

abbreviation all_values :: "('k \<times> 'v list) list \<Rightarrow> 'v list" where
  "all_values d \<equiv> concat (map snd d)"

lemma od_append_simps [simp]:
  "od_append k vs [] = [(k, vs)]"
  "od_append k vs ((k', old) # d) = (if k' = k then (k, old @ vs) # d else (k', old) # od_append k vs d)"
  by (simp_all add: od_append_def)

lemma od_append_values: "mset (all_values (od_append k vs d)) = mset (all_values d) + mset vs"
  by (induction d) auto

lemma od_append_keys: "fst ` set (od_append k vs d) = insert k (fst ` set d)"
proof (induction d)
  case (Cons p d)
  then show ?case by (cases p) (simp add: insert_commute)
qed simp

lemma od_append_distinct: "distinct (map fst d) \<Longrightarrow> distinct (map fst (od_append k vs d))"
proof (induction d)
  case (Cons p d)
  then show ?case using od_append_keys [of k vs d] by (cases p) (auto simp flip: set_map)
qed simp

text \<open>A property of every entry, kept when its list grows.\<close>

lemma od_append_entries:
  assumes "\<forall>(k', vs') \<in> set d. P k' vs'" "P k vs" "\<And>old. P k old \<Longrightarrow> P k (old @ vs)"
  shows "\<forall>(k', vs') \<in> set (od_append k vs d). P k' vs'"
  using assms(1)
proof (induction d)
  case (Cons p d)
  then show ?case using assms(2,3) by (cases p) auto
qed (simp add: assms(2))

lemma od_get_entry_iff: "distinct (map fst d) \<Longrightarrow> od_get d k = Some v \<longleftrightarrow> (k, v) \<in> set d"
  by (simp add: od_get_map_of map_of_eq_Some_iff)

section \<open>Grouping and cutting\<close>

definition group_ok :: "group_id \<Rightarrow> (nat \<times> HydrationJob) list \<Rightarrow> bool" where
  "group_ok k ps \<longleftrightarrow> ps \<noteq> [] \<and> (\<forall>(i, j) \<in> set ps. group_key j = k)"

lemma group_fold:
  fixes es :: "(nat \<times> HydrationJob) list"
  assumes "distinct (map fst g)" "\<forall>(k, ps) \<in> set g. group_ok k ps"
  defines "g' \<equiv> fold (\<lambda>(position, j). od_append (group_key j) [(position, j)]) es g"
  shows "distinct (map fst g') \<and> (\<forall>(k, ps) \<in> set g'. group_ok k ps) \<and>
    mset (all_values g') = mset (all_values g) + mset es"
  using assms(1,2) unfolding g'_def
proof (induction es arbitrary: g)
  case (Cons e es)
  obtain i j where e: "e = (i, j)" by (cases e)
  have "\<forall>(k, ps) \<in> set (od_append (group_key j) [(i, j)] g). group_ok k ps"
    by (rule od_append_entries [OF Cons.prems(2)]) (auto simp: group_ok_def)
  then show ?case
    using Cons.IH [of "od_append (group_key j) [(i, j)] g"] od_append_distinct [OF Cons.prems(1)]
    by (simp add: e od_append_values)
qed simp

lemma group_jobs_ok:
  "distinct (map fst (group_jobs jobs)) \<and> (\<forall>(k, ps) \<in> set (group_jobs jobs). group_ok k ps) \<and>
    mset (all_values (group_jobs jobs)) = mset (enumerate 0 jobs)"
  using group_fold [of "[]" "enumerate 0 jobs"] by (simp add: group_jobs_def)

lemma chunks_concat: "0 < n \<Longrightarrow> concat (chunks n xs) = xs"
proof (induction n xs rule: chunks.induct)
  case (1 n xs)
  then show ?case by (subst chunks.simps) simp
qed

lemma chunks_size: "c \<in> set (chunks n xs) \<Longrightarrow> c \<noteq> [] \<and> length c \<le> n \<and> set c \<subseteq> set xs"
proof (induction n xs rule: chunks.induct)
  case (1 n xs)
  then consider "n \<noteq> 0" "xs \<noteq> []" "c = take n xs" | "n \<noteq> 0" "xs \<noteq> []" "c \<in> set (chunks n (drop n xs))"
    by (subst (asm) (2) chunks.simps) (auto split: if_splits)
  then show ?case
  proof cases
    case 1
    then show ?thesis by (auto dest: in_set_takeD)
  next
    case 2
    then show ?thesis using "1.IH" by (auto dest: in_set_dropD)
  qed
qed

definition batch_ok :: "handlers \<Rightarrow> string \<Rightarrow> HydrationBatch \<Rightarrow> bool" where
  "batch_ok hs kind b \<longleftrightarrow> snd (snd b) \<noteq> [] \<and> (\<exists>dialog. \<forall>j \<in> set (snd (snd b)). group_key j = (kind, fst b, dialog)) \<and>
     (\<exists>h. od_get hs kind = Some h \<and> length (snd (snd b)) \<le> hh_batch_size h)"

lemma group_batches_ok:
  assumes "group_ok (kind, priority, dialog) ps" "od_get hs kind = Some h" "b \<in> set (group_batches h priority ps)"
  shows "batch_ok hs kind b"
proof -
  obtain c where c: "c \<in> set (chunks (hh_batch_size h) ps)" "b = (priority, fst (hd c), map snd c)"
    using assms(3) by (auto simp: group_batches_def)
  then show ?thesis
    using chunks_size [OF c(1)] assms(1,2) by (force simp: batch_ok_def group_ok_def)
qed

lemma group_batches_jobs:
  "0 < hh_batch_size h \<Longrightarrow> concat (map (snd \<circ> snd) (group_batches h priority ps)) = map snd ps"
  using chunks_concat [of "hh_batch_size h" ps]
  by (simp add: group_batches_def comp_def flip: map_concat)

definition batches_jobs :: "HydrationBatch list \<Rightarrow> HydrationJob list" where
  "batches_jobs bs = concat (map (snd \<circ> snd) bs)"

lemma batches_jobs_simps [simp]: "batches_jobs [] = []" "batches_jobs (a @ b) = batches_jobs a @ batches_jobs b"
  by (simp_all add: batches_jobs_def)

lemma batches_jobs_mset: "mset a = mset b \<Longrightarrow> mset (batches_jobs a) = mset (batches_jobs b)"
  unfolding batches_jobs_def mset_concat map_map by (metis mset_map sum_mset_sum_list)

definition handled :: "handlers \<Rightarrow> HydrationJob \<Rightarrow> bool" where
  "handled hs j \<longleftrightarrow> od_get hs (hj_kind j) \<noteq> None"

text \<open>Batch sizes are positive.\<close>

definition sized :: "handlers \<Rightarrow> bool" where
  "sized hs \<longleftrightarrow> list_all (\<lambda>(kind, h). 0 < hh_batch_size h) hs"

lemma sizedD: "sized hs \<Longrightarrow> od_get hs kind = Some h \<Longrightarrow> 0 < hh_batch_size h"
  by (induction hs) (auto simp: sized_def split: if_splits)

definition collected :: "handlers \<Rightarrow> (string \<times> HydrationBatch list) list \<Rightarrow> bool" where
  "collected hs d \<longleftrightarrow> distinct (map fst d) \<and> (\<forall>(kind, bs) \<in> set d. \<forall>b \<in> set bs. batch_ok hs kind b)"

lemma collect_group_ok:
  assumes "sized hs" "group_ok k ps" "collected hs d"
  shows "collected hs (collect_group hs (k, ps) d) \<and> mset (batches_jobs (all_values (collect_group hs (k, ps) d))) =
    mset (batches_jobs (all_values d)) + mset (filter (handled hs) (map snd ps))"
proof -
  obtain kind priority dialog where k: "k = (kind, priority, dialog)" by (cases k)
  have kinds: "\<forall>j \<in> set (map snd ps). hj_kind j = kind" using assms(2) k by (auto simp: group_ok_def group_key_def)
  show ?thesis
  proof (cases "od_get hs kind")
    case None
    have "filter (handled hs) (map snd ps) = []" using kinds None by (simp add: filter_empty_conv handled_def del: set_map)
    then show ?thesis using assms(3) None by (simp add: k collect_group_def)
  next
    case (Some h)
    let ?d = "od_append kind (group_batches h priority ps) d"
    have all: "filter (handled hs) (map snd ps) = map snd ps" using kinds Some by (simp add: filter_id_conv handled_def del: set_map)
    have jobs: "batches_jobs (group_batches h priority ps) = map snd ps"
      unfolding batches_jobs_def by (rule group_batches_jobs [OF sizedD [OF assms(1) Some]])
    then have "group_batches h priority ps \<noteq> []" using assms(2) by (auto simp: group_ok_def)
    then have step: "collect_group hs (k, ps) d = ?d" using Some by (simp add: collect_group_def k)
    have "mset (batches_jobs (all_values ?d)) = mset (batches_jobs (all_values d)) + mset (map snd ps)"
      using batches_jobs_mset [of "all_values ?d" "all_values d @ group_batches h priority ps"] jobs
      by (simp add: od_append_values)
    moreover have "\<forall>(kind', bs) \<in> set ?d. \<forall>b \<in> set bs. batch_ok hs kind' b"
      using assms(3) group_batches_ok [OF assms(2) [unfolded k] Some]
      by (intro od_append_entries) (auto simp: collected_def)
    ultimately show ?thesis
      using assms(3) od_append_distinct [of d kind] all by (simp add: step collected_def)
  qed
qed

lemma collect_fold:
  assumes "sized hs"
    and "\<forall>(k, ps) \<in> set g. group_ok k ps" "collected hs d"
  shows "collected hs (fold (collect_group hs) g d) \<and> mset (batches_jobs (all_values (fold (collect_group hs) g d))) =
    mset (batches_jobs (all_values d)) + mset (filter (handled hs) (map snd (all_values g)))"
  using assms(2,3)
proof (induction g arbitrary: d)
  case (Cons e g)
  obtain k ps where e: "e = (k, ps)" by (cases e)
  then have "group_ok k ps" using Cons.prems(1) by simp
  from collect_group_ok [OF assms(1) this Cons.prems(2)] show ?case
    using Cons.IH [of "collect_group hs e d"] Cons.prems(1) by (simp add: e)
qed simp

section \<open>Rounds\<close>

lemma concat_singletons:
  assumes "length xs \<le> m"
  shows "concat (map (\<lambda>i. if i < length xs then [xs ! i] else []) [0..<m]) = xs"
proof -
  let ?f = "\<lambda>i. if i < length xs then [xs ! i] else []"
  have "[0..<m] = [0..<length xs] @ [length xs..<m]" using assms by (metis le_add_diff_inverse upt_add_eq_append zero_le)
  moreover have "concat (map ?f [0..<length xs]) = map (\<lambda>i. xs ! i) [0..<length xs]"
  proof -
    have "map ?f [0..<length xs] = map (\<lambda>i. [xs ! i]) [0..<length xs]" by simp
    then show ?thesis by (simp add: concat_map_singleton del: map_eq_conv)
  qed
  moreover have "concat (map ?f [length xs..<m]) = []" by simp
  ultimately show ?thesis by (simp add: map_nth)
qed

lemma mset_concat_add: "mset (concat (map (\<lambda>i. f i @ g i) is)) = mset (concat (map f is)) + mset (concat (map g is))"
  by (induction "is") simp_all

lemma rounds_cover:
  assumes "\<forall>bs \<in> set tiered. length bs \<le> m"
  shows "mset (concat (map (round_batches tiered) [0..<m])) = mset (concat tiered)"
  using assms
proof (induction tiered)
  case Nil
  then show ?case by (simp add: round_batches_def concat_eq_Nil_conv)
next
  case (Cons bs tiered)
  have "round_batches (bs # tiered) = (\<lambda>i. (if i < length bs then [bs ! i] else []) @ round_batches tiered i)"
    by (rule ext) (simp add: round_batches_def)
  then show ?case
    using Cons concat_singletons [of bs m] mset_concat_add [of "\<lambda>i. if i < length bs then [bs ! i] else []" "round_batches tiered" "[0..<m]"]
    by simp
qed

lemma fold_max_bound: "x \<in> set xs \<Longrightarrow> x \<le> fold max xs (b :: nat)" "b \<le> fold max xs b"
proof (induction xs arbitrary: b)
  case (Cons y ys)
  { case 1
    have "max y b \<le> fold max ys (max y b)" by (rule Cons.IH(2))
    then show ?case using 1 Cons.IH(1) [of "max y b"] by auto }
  { case 2
    show ?case using Cons.IH(2) [of "max y b"] by simp }
qed simp_all

lemma order_priority_jobs:
  "mset (concat (order_priority_batches by_kind priority)) =
    mset (batches_jobs (filter (\<lambda>b. fst b = priority) (all_values by_kind)))"
  "b \<in> set (order_priority_batches by_kind priority) \<longleftrightarrow>
    (\<exists>(kind, bs) \<in> set by_kind. \<exists>x \<in> set bs. fst x = priority \<and> b = snd (snd x))"
proof -
  let ?tiered = "map (\<lambda>(kind, bs). filter (\<lambda>b. fst b = priority) bs) by_kind"
  let ?m = "fold max (map length ?tiered) 0"
  let ?order = "sort_key (due_job_order_key \<circ> hd \<circ> snd \<circ> snd)"
  have "bs \<in> set ?tiered \<Longrightarrow> length bs \<le> ?m" for bs
    by (rule fold_max_bound(1)) (simp only: set_map [of length] imageI)
  then have "\<forall>bs \<in> set ?tiered. length bs \<le> ?m" by blast
  then have cover: "mset (concat (map (round_batches ?tiered) [0..<?m])) = mset (concat ?tiered)" by (rule rounds_cover)
  have sorted: "mset (concat (map (\<lambda>i. ?order (f i)) is)) = mset (concat (map f is))" for f "is"
    by (induction "is") simp_all
  have flat: "order_priority_batches by_kind priority =
      map (snd \<circ> snd) (concat (map (\<lambda>i. ?order (round_batches ?tiered i)) [0..<?m]))"
    by (simp add: order_priority_batches_def Let_def map_concat comp_def)
  have same: "mset (concat (map (\<lambda>i. ?order (round_batches ?tiered i)) [0..<?m])) = mset (concat ?tiered)"
    using sorted [of "round_batches ?tiered"] cover by simp
  have tiered: "concat ?tiered = filter (\<lambda>b. fst b = priority) (all_values by_kind)"
    by (induction by_kind) auto
  show "mset (concat (order_priority_batches by_kind priority)) =
      mset (batches_jobs (filter (\<lambda>b. fst b = priority) (all_values by_kind)))"
    using batches_jobs_mset [OF same] unfolding flat tiered batches_jobs_def .
  have "set (order_priority_batches by_kind priority) = (snd \<circ> snd) ` set (concat ?tiered)"
    unfolding flat using mset_eq_setD [OF same] by simp
  then show "b \<in> set (order_priority_batches by_kind priority) \<longleftrightarrow>
      (\<exists>(kind, bs) \<in> set by_kind. \<exists>x \<in> set bs. fst x = priority \<and> b = snd (snd x))"
    unfolding tiered by force
qed

section \<open>Batches\<close>

lemma grouped_batches:
  assumes "sized hs"
  shows "\<forall>(kind, bs) \<in> set (group_hydration_batches jobs hs). \<forall>b \<in> set bs. batch_ok hs kind b"
    and "mset (batches_jobs (all_values (group_hydration_batches jobs hs))) = mset (filter (handled hs) jobs)"
proof -
  let ?d = "collect_batches hs (group_jobs jobs)"
  have "collected hs []" by (simp add: collected_def)
  then have ok: "collected hs ?d" and jobs: "mset (batches_jobs (all_values ?d)) =
      mset (filter (handled hs) (map snd (all_values (group_jobs jobs))))"
    using collect_fold [OF assms, of "group_jobs jobs" "[]"] group_jobs_ok [of jobs]
    by (simp_all add: collect_batches_def)
  show "\<forall>(kind, bs) \<in> set (group_hydration_batches jobs hs). \<forall>b \<in> set bs. batch_ok hs kind b"
    using ok by (auto simp: group_hydration_batches_def collected_def)
  have "mset (map snd (all_values (group_jobs jobs))) = mset (map snd (enumerate 0 jobs))"
    using group_jobs_ok [of jobs] by (metis mset_map)
  then have "mset (filter (handled hs) (map snd (all_values (group_jobs jobs)))) = mset (filter (handled hs) jobs)"
    by (metis map_snd_enumerate mset_filter)
  moreover have "mset (all_values (map (\<lambda>(kind, bs). (kind, sort_key batch_key bs)) d)) = mset (all_values d)"
    for d :: "(string \<times> HydrationBatch list) list"
    by (induction d) auto
  then have "mset (batches_jobs (all_values (group_hydration_batches jobs hs))) = mset (batches_jobs (all_values ?d))"
    unfolding group_hydration_batches_def by (rule batches_jobs_mset)
  ultimately show "mset (batches_jobs (all_values (group_hydration_batches jobs hs))) = mset (filter (handled hs) jobs)"
    using jobs by simp
qed

lemma priority_split:
  "mset (batches_jobs (filter (\<lambda>b. fst b = HP_BACKFILL) bs)) + mset (batches_jobs (filter (\<lambda>b. fst b = HP_FOREGROUND) bs)) =
    mset (batches_jobs bs)"
proof (induction bs)
  case (Cons b bs)
  have single: "batches_jobs (x # xs) = snd (snd x) @ batches_jobs xs" for x xs by (simp add: batches_jobs_def)
  show ?case using Cons by (cases "fst b") (auto simp: single)
qed simp

text \<open>A batch a request can carry.\<close>

definition carriable :: "handlers \<Rightarrow> HydrationPriority \<Rightarrow> HydrationJob list \<Rightarrow> bool" where
  "carriable hs priority b \<longleftrightarrow> b \<noteq> [] \<and> (\<forall>j \<in> set b. group_key j = group_key (hd b) \<and> hj_priority j = priority) \<and>
     (\<exists>h. od_get hs (hj_kind (hd b)) = Some h \<and> length b \<le> hh_batch_size h)"

lemma ordered_carriable:
  assumes "sized hs"
    and "b \<in> set (order_priority_batches (group_hydration_batches jobs hs) priority)"
  shows "carriable hs priority b"
proof -
  obtain kind bs x where "(kind, bs) \<in> set (group_hydration_batches jobs hs)" "x \<in> set bs" "fst x = priority" "b = snd (snd x)"
    using assms(2) unfolding order_priority_jobs(2) by blast
  then have x: "batch_ok hs kind x" "fst x = priority" "b = snd (snd x)"
    using grouped_batches(1) [OF assms(1), of jobs] by fastforce+
  then obtain dialog where "\<forall>j \<in> set b. group_key j = (kind, priority, dialog)" "b \<noteq> []"
    by (auto simp: batch_ok_def)
  moreover from this have "hj_kind (hd b) = kind" by (simp add: group_key_def)
  ultimately show ?thesis using x by (auto simp: carriable_def batch_ok_def group_key_def)
qed

lemma partition_batches:
  assumes "sized hs"
  shows "mset (concat (batch_jobs jobs hs backfill_first)) = mset (filter (handled hs) jobs)"
    and "\<exists>first second. batch_jobs jobs hs backfill_first = first @ second \<and>
      list_all (carriable hs (if backfill_first then HP_BACKFILL else HP_FOREGROUND)) first \<and>
      list_all (carriable hs (if backfill_first then HP_FOREGROUND else HP_BACKFILL)) second"
proof -
  let ?g = "group_hydration_batches jobs hs"
  have "mset (concat (order_priority_batches ?g HP_BACKFILL)) + mset (concat (order_priority_batches ?g HP_FOREGROUND)) =
      mset (filter (handled hs) jobs)"
    unfolding order_priority_jobs(1) priority_split by (rule grouped_batches(2) [OF assms])
  then show "mset (concat (batch_jobs jobs hs backfill_first)) = mset (filter (handled hs) jobs)"
    by (simp add: batch_jobs_def order_hydration_batches_def add.commute)
  have "list_all (carriable hs p) (order_priority_batches ?g p)" for p
    using ordered_carriable [OF assms] by (simp add: list_all_iff)
  then show "\<exists>first second. batch_jobs jobs hs backfill_first = first @ second \<and>
      list_all (carriable hs (if backfill_first then HP_BACKFILL else HP_FOREGROUND)) first \<and>
      list_all (carriable hs (if backfill_first then HP_FOREGROUND else HP_BACKFILL)) second"
    by (cases backfill_first) (auto simp: batch_jobs_def order_hydration_batches_def)
qed

text \<open>
  Batching loses no job, repeats none and mixes nothing a request cannot carry. The batches
  together hold exactly the jobs whose kind has a handler; each is nonempty, of one kind,
  priority and dialog, and no longer than its handler's batch size; and all batches of the
  preferred priority come before all of the other.
\<close>

theorem batch_jobs_partition:
  assumes "sized hs"
  shows "mset (concat (batch_jobs jobs hs backfill_first)) = mset (filter (handled hs) jobs) \<and>
    (\<exists>first second. batch_jobs jobs hs backfill_first = first @ second \<and>
      list_all (carriable hs (if backfill_first then HP_BACKFILL else HP_FOREGROUND)) first \<and>
      list_all (carriable hs (if backfill_first then HP_FOREGROUND else HP_BACKFILL)) second)"
  using partition_batches [OF assms] by blast

definition sample_handlers :: handlers where
  "sample_handlers = [(''media_metadata'', \<lparr>hh_batch_size = 2, hh_request_cost = 1\<rparr>),
     (''transcription'', \<lparr>hh_batch_size = 1, hh_request_cost = 2\<rparr>)]"

lemma sample_handlers_sized: "sized sample_handlers"
  by (simp add: sized_def sample_handlers_def)

theorem batch_jobs_partition_witness:
  "mset (concat (batch_jobs [sample_job, sample_job\<lparr>hj_kind := ''gone''\<rparr>] sample_handlers True)) = {# sample_job #}"
  using batch_jobs_partition [OF sample_handlers_sized, of "[sample_job, sample_job\<lparr>hj_kind := ''gone''\<rparr>]" True]
  by (simp add: handled_def sample_handlers_def sample_job_def)

section \<open>Sharing a tier\<close>

definition tier :: "tiered_jobs \<Rightarrow> string \<Rightarrow> HydrationJob list" where
  "tier tiered kind = (case od_get tiered kind of None \<Rightarrow> [] | Some js \<Rightarrow> js)"

definition tiers_ok :: "tiered_jobs \<Rightarrow> bool" where
  "tiers_ok tiered \<longleftrightarrow> distinct (map fst tiered) \<and> (\<forall>(kind, js) \<in> set tiered. \<forall>j \<in> set js. hj_kind j = kind)"

definition of_kind :: "string \<Rightarrow> HydrationJob list \<Rightarrow> HydrationJob list" where
  "of_kind kind js = filter (\<lambda>j. hj_kind j = kind) js"

lemma of_kind_append [simp]: "of_kind kind (a @ b) = of_kind kind a @ of_kind kind b" "of_kind kind [] = []"
  by (simp_all add: of_kind_def)

lemma tier_kind: "tiers_ok tiered \<Longrightarrow> j \<in> set (tier tiered kind) \<Longrightarrow> hj_kind j = kind"
  by (auto simp: tier_def tiers_ok_def od_get_map_of dest!: map_of_SomeD split: option.splits)

lemma od_put_same_keys: "od_get d k = Some v \<Longrightarrow> map fst (od_put k v' d) = map fst d"
  by (induction d) (auto split: if_splits)

text \<open>The heads of a round: one job of each kind that has one left.\<close>

definition heads_of :: "tiered_jobs \<Rightarrow> (HydrationJob \<times> string) list \<Rightarrow> bool" where
  "heads_of tiered heads \<longleftrightarrow> distinct (map snd heads) \<and> (\<forall>(j, kind) \<in> set heads. \<exists>xs. od_get tiered kind = Some (j # xs))"

lemma tier_heads_ok:
  assumes "distinct (map fst tiered)"
  shows "heads_of tiered (tier_heads tiered) \<and> snd ` set (tier_heads tiered) = {kind. tier tiered kind \<noteq> []}"
proof -
  let ?h = "map (\<lambda>(kind, js). (hd js, kind)) (filter (\<lambda>(kind, js). js \<noteq> []) tiered)"
  have "map snd ?h = map fst (filter (\<lambda>(kind, js). js \<noteq> []) tiered)" by auto
  then have "distinct (map snd ?h)" using assms by (simp add: distinct_map_filter del: map_map)
  then have "distinct (map snd (tier_heads tiered))"
    unfolding tier_heads_def by (simp add: distinct_map del: map_map)
  moreover have entry: "(kind, js) \<in> set tiered \<longleftrightarrow> od_get tiered kind = Some js" for kind js
    using od_get_entry_iff [OF assms] by blast
  have "set (tier_heads tiered) = {(hd js, kind) | kind js. od_get tiered kind = Some js \<and> js \<noteq> []}"
    unfolding tier_heads_def by (auto simp: entry image_iff)
  ultimately show ?thesis
    by (auto simp: heads_of_def tier_def neq_Nil_conv image_iff split: option.splits)
qed

lemma pop_heads_take:
  fixes limit :: nat and selected :: "HydrationJob list"
  assumes "heads_of tiered heads"
  defines "result \<equiv> pop_heads limit heads (selected, tiered)" and "taken \<equiv> take (limit - length selected) heads"
  shows "fst result = selected @ map fst taken \<and> map fst (snd result) = map fst tiered \<and>
    (\<forall>kind. od_get (snd result) kind = (if kind \<in> snd ` set taken then map_option tl (od_get tiered kind) else od_get tiered kind))"
  using assms(1) unfolding result_def taken_def
proof (induction heads arbitrary: selected tiered)
  case (Cons h heads)
  obtain j kind where h: "h = (j, kind)" by (cases h)
  obtain xs where xs: "od_get tiered kind = Some (j # xs)" using Cons.prems by (auto simp: h heads_of_def)
  show ?case
  proof (cases "limit \<le> length selected")
    case False
    let ?t = "od_put kind xs tiered"
    have "(j', kind') \<in> set heads \<Longrightarrow> kind' \<noteq> kind" for j' kind'
      using Cons.prems by (force simp: h heads_of_def image_iff)
    then have "heads_of ?t heads" using Cons.prems by (fastforce simp: h heads_of_def)
    then have IH: "fst (pop_heads limit heads (selected @ [j], ?t)) = (selected @ [j]) @ map fst (take (limit - length (selected @ [j])) heads) \<and>
        map fst (snd (pop_heads limit heads (selected @ [j], ?t))) = map fst ?t \<and>
        (\<forall>k. od_get (snd (pop_heads limit heads (selected @ [j], ?t))) k =
          (if k \<in> snd ` set (take (limit - length (selected @ [j])) heads) then map_option tl (od_get ?t k) else od_get ?t k))"
      by (rule Cons.IH)
    have n: "limit - length selected = Suc (limit - length (selected @ [j]))" using False by simp
    have "kind \<notin> snd ` set (take m heads)" for m using Cons.prems by (auto simp: h heads_of_def dest: in_set_takeD)
    then show ?thesis
      using IH False xs od_put_same_keys [OF xs] unfolding n by (auto simp: h)
  qed (simp add: h)
qed simp

lemma of_kind_heads:
  assumes "tiers_ok tiered" "heads_of tiered heads"
  shows "of_kind kind (map fst heads) = (if kind \<in> snd ` set heads then [hd (tier tiered kind)] else [])"
  using assms(2)
proof (induction heads)
  case (Cons h heads)
  obtain j k where h: "h = (j, k)" by (cases h)
  obtain xs where xs: "od_get tiered k = Some (j # xs)" using Cons.prems by (auto simp: h heads_of_def)
  then have j: "hj_kind j = k" "hd (tier tiered k) = j" using tier_kind [OF assms(1), of j k] by (simp_all add: tier_def)
  have IH: "of_kind kind (map fst heads) = (if kind \<in> snd ` set heads then [hd (tier tiered kind)] else [])"
    using Cons by (simp add: heads_of_def)
  have "k \<notin> snd ` set heads" using Cons.prems by (simp add: h heads_of_def)
  then show ?case using IH j by (auto simp: h of_kind_def)
qed simp

lemma heads_of_take: "heads_of tiered heads \<Longrightarrow> heads_of tiered (take n heads)"
  by (auto simp: heads_of_def take_map [symmetric] dest: in_set_takeD)

text \<open>What a round leaves.\<close>

lemma pop_heads_tiers:
  fixes limit :: nat and selected :: "HydrationJob list"
  assumes "tiers_ok tiered"
  defines "result \<equiv> pop_heads limit (tier_heads tiered) (selected, tiered)"
    and "taken \<equiv> take (limit - length selected) (tier_heads tiered)"
  shows "tiers_ok (snd result) \<and> fst result = selected @ map fst taken \<and>
    (\<forall>kind. of_kind kind (map fst taken) @ tier (snd result) kind = tier tiered kind \<and>
      length (of_kind kind (map fst taken)) \<le> 1 \<and>
      (length (tier_heads tiered) \<le> limit - length selected \<and> tier tiered kind \<noteq> [] \<longrightarrow> of_kind kind (map fst taken) \<noteq> []))"
proof -
  have keys: "distinct (map fst tiered)" using assms(1) by (simp add: tiers_ok_def)
  note heads = tier_heads_ok [OF keys]
  have taken: "heads_of tiered taken" unfolding taken_def using heads heads_of_take by blast
  have pop: "fst result = selected @ map fst taken" "map fst (snd result) = map fst tiered"
      "\<And>kind. od_get (snd result) kind = (if kind \<in> snd ` set taken then map_option tl (od_get tiered kind) else od_get tiered kind)"
    using pop_heads_take [of tiered "tier_heads tiered" limit selected] heads by (simp_all add: result_def taken_def)
  have kinds: "kind \<in> snd ` set taken \<Longrightarrow> \<exists>j xs. od_get tiered kind = Some (j # xs)" for kind
    using taken by (force simp: heads_of_def)
  have split: "of_kind kind (map fst taken) @ tier (snd result) kind = tier tiered kind" for kind
  proof (cases "kind \<in> snd ` set taken")
    case True
    then obtain j xs where "od_get tiered kind = Some (j # xs)" using kinds by blast
    then show ?thesis using of_kind_heads [OF assms(1) taken, of kind] pop(3) [of kind] True by (simp add: tier_def)
  next
    case False
    then show ?thesis using of_kind_heads [OF assms(1) taken, of kind] pop(3) [of kind] by (simp add: tier_def)
  qed
  have "j \<in> set js \<Longrightarrow> (kind, js) \<in> set (snd result) \<Longrightarrow> hj_kind j = kind" for kind js j
  proof -
    assume "j \<in> set js" "(kind, js) \<in> set (snd result)"
    then have "j \<in> set (tier (snd result) kind)"
      using od_get_entry_iff [of "snd result" kind js] pop(2) keys by (simp add: tier_def)
    then have "j \<in> set (tier tiered kind)" using split [of kind] by (metis Un_iff set_append)
    then show "hj_kind j = kind" by (rule tier_kind [OF assms(1)])
  qed
  then have ok: "tiers_ok (snd result)" using pop(2) keys by (auto simp: tiers_ok_def)
  have "length (tier_heads tiered) \<le> limit - length selected \<Longrightarrow> tier tiered kind \<noteq> [] \<Longrightarrow> of_kind kind (map fst taken) \<noteq> []" for kind
    using heads of_kind_heads [OF assms(1) taken, of kind] by (auto simp: taken_def)
  then show ?thesis
    using ok pop(1) split of_kind_heads [OF assms(1) taken] by simp
qed

lemma round_moves:
  assumes "tiers_ok tiered" "length selected < limit" "list_ex (\<lambda>(kind, js). js \<noteq> []) tiered"
  shows "length selected < length (fst (pop_heads limit (tier_heads tiered) (selected, tiered)))"
proof -
  have "tier_heads tiered \<noteq> []"
    using assms(3) by (auto simp: tier_heads_def list_ex_iff filter_empty_conv simp flip: length_greater_0_conv)
  then show ?thesis using pop_heads_tiers [OF assms(1), of limit selected] assms(2) by simp
qed

lemma no_tier_left:
  "distinct (map fst tiered) \<Longrightarrow> \<not> list_ex (\<lambda>(kind, js). js \<noteq> []) tiered \<Longrightarrow> tier tiered kind = []"
  using od_get_entry_iff [of tiered kind] by (auto simp: tier_def list_ex_iff split: option.split)

lemma append_tier_shares:
  assumes "tiers_ok tiered"
  shows "\<exists>added m. fst (append_tier limit (selected, tiered)) = selected @ added \<and>
    (\<forall>kind. (\<exists>rest. of_kind kind added @ rest = tier tiered kind) \<and> length (of_kind kind added) \<le> Suc m \<and>
       min m (length (tier tiered kind)) \<le> length (of_kind kind added)) \<and>
    length added \<le> limit - length selected \<and>
    (length added = limit - length selected \<or> (\<forall>kind. of_kind kind added = tier tiered kind))"
    (is "\<exists>added m. ?P limit selected tiered added m")
  using assms
proof (induction "limit - length selected" arbitrary: selected tiered rule: less_induct)
  case less
  show ?case
  proof (cases "length selected < limit \<and> list_ex (\<lambda>(kind, js). js \<noteq> []) tiered")
    case False
    then have "append_tier limit (selected, tiered) = (selected, tiered)" by (subst append_tier.simps) (auto simp: Let_def)
    moreover have "\<not> length selected < limit \<or> (\<forall>kind. tier tiered kind = [])"
      using False no_tier_left less.prems by (auto simp: tiers_ok_def)
    ultimately have "?P limit selected tiered [] 0" by auto
    then show ?thesis by blast
  next
    case True
    let ?heads = "tier_heads tiered" and ?r = "pop_heads limit (tier_heads tiered) (selected, tiered)"
    let ?taken = "map fst (take (limit - length selected) ?heads)"
    obtain sel1 t1 where r: "?r = (sel1, t1)" by (cases ?r)
    have moves: "length selected < length sel1" using round_moves [OF less.prems, of selected limit] True r by simp
    then have step: "append_tier limit (selected, tiered) = append_tier limit (sel1, t1)"
      using True r by (subst append_tier.simps) (simp add: Let_def)
    have sel1: "sel1 = selected @ ?taken" and ok: "tiers_ok t1"
      and split: "\<And>kind. of_kind kind ?taken @ tier t1 kind = tier tiered kind"
      and one: "\<And>kind. length (of_kind kind ?taken) \<le> 1"
      and full: "\<And>kind. length ?heads \<le> limit - length selected \<Longrightarrow> tier tiered kind \<noteq> [] \<Longrightarrow> of_kind kind ?taken \<noteq> []"
      using pop_heads_tiers [OF less.prems, of limit selected] by (simp_all add: r)
    show ?thesis
    proof (cases "length ?heads \<le> limit - length selected")
      case True
      have "limit - length sel1 < limit - length selected" using moves \<open>length selected < limit \<and> _\<close> by linarith
      from less.hyps [OF this ok] obtain added m where IH: "?P limit sel1 t1 added m" by auto
      have "?P limit selected tiered (?taken @ added) (Suc m)"
      proof (intro conjI allI)
        show "fst (append_tier limit (selected, tiered)) = selected @ ?taken @ added"
          using IH step sel1 by simp
        show "length (?taken @ added) \<le> limit - length selected" using IH sel1 True by auto
        show "length (?taken @ added) = limit - length selected \<or> (\<forall>kind. of_kind kind (?taken @ added) = tier tiered kind)"
          using IH sel1 True split by (auto simp flip: split)
        fix kind
        obtain rest where rest: "of_kind kind added @ rest = tier t1 kind" using IH by blast
        then have "of_kind kind (?taken @ added) @ rest = tier tiered kind" using split [of kind] by simp
        then show "\<exists>rest. of_kind kind (?taken @ added) @ rest = tier tiered kind" by blast
        have "length (of_kind kind added) \<le> Suc m" "min m (length (tier t1 kind)) \<le> length (of_kind kind added)"
          using IH by blast+
        moreover have "length (tier tiered kind) = length (of_kind kind ?taken) + length (tier t1 kind)"
          using split [of kind] by (metis length_append)
        moreover have "tier tiered kind \<noteq> [] \<Longrightarrow> length (of_kind kind ?taken) = 1"
          using full [OF True, of kind] one [of kind] by (cases "of_kind kind ?taken") auto
        ultimately show "length (of_kind kind (?taken @ added)) \<le> Suc (Suc m)"
          and "min (Suc m) (length (tier tiered kind)) \<le> length (of_kind kind (?taken @ added))"
          using one [of kind] by (cases "tier tiered kind = []"; simp add: min_def split: if_splits)+
      qed
      then show ?thesis by blast
    next
      case False
      then have full_limit: "length sel1 = limit" using sel1 True by simp
      then have "append_tier limit (sel1, t1) = (sel1, t1)"
        by (subst append_tier.simps) (simp add: Let_def)
      then have "?P limit selected tiered ?taken 0"
        using step sel1 split one False by auto
      then show ?thesis by blast
    qed
  qed
qed

lemma tier_filter:
  "tier (map (\<lambda>(kind, js). (kind, filter p js)) d) kind = filter p (tier d kind)"
  by (induction d) (auto simp: tier_def)

lemma append_due_shares:
  fixes limit :: nat and priority :: HydrationPriority
  assumes "tiers_ok per_kind"
  defines "sel \<equiv> append_due_priority_tier [] per_kind priority limit"
  shows "\<exists>m. (\<forall>kind. (\<exists>rest. of_kind kind sel @ rest = filter (\<lambda>j. hj_priority j = priority) (tier per_kind kind)) \<and>
       length (of_kind kind sel) \<le> Suc m \<and>
       min m (length (filter (\<lambda>j. hj_priority j = priority) (tier per_kind kind))) \<le> length (of_kind kind sel)) \<and>
    length sel \<le> limit \<and>
    (length sel = limit \<or> (\<forall>kind. of_kind kind sel = filter (\<lambda>j. hj_priority j = priority) (tier per_kind kind)))"
proof -
  let ?t = "map (\<lambda>(kind, js). (kind, filter (\<lambda>j. hj_priority j = priority) js)) per_kind"
  have keys: "map fst ?t = map fst per_kind" by (induction per_kind) auto
  have "tiers_ok ?t" using assms(1) unfolding tiers_ok_def keys by auto
  from append_tier_shares [OF this, of limit "[]"] show ?thesis
    by (auto simp: sel_def append_due_priority_tier_def tier_filter)
qed

text \<open>
  C33. A tier is shared fairly between the kinds. The selection takes the limit, or all there is;
  of each kind it takes the first jobs in queue order; and no kind is passed over: while a
  kind has a job left, no other kind has been given more than one job more than it.
\<close>

theorem tier_shared_fairly:
  fixes limit :: nat and priority :: HydrationPriority
  assumes "distinct (map fst per_kind)" "\<forall>(kind, js) \<in> set per_kind. \<forall>j \<in> set js. hj_kind j = kind \<and> hj_priority j = priority"
  defines "sel \<equiv> append_due_priority_tier [] per_kind priority limit"
  shows "length sel \<le> limit \<and> (length sel = limit \<or> (\<forall>kind. of_kind kind sel = tier per_kind kind)) \<and>
    (\<forall>kind. \<exists>rest. of_kind kind sel @ rest = tier per_kind kind) \<and>
    (\<forall>kind kind'. of_kind kind sel \<noteq> tier per_kind kind \<longrightarrow> length (of_kind kind' sel) \<le> Suc (length (of_kind kind sel)))"
proof -
  have ok: "tiers_ok per_kind" using assms(1,2) by (auto simp: tiers_ok_def)
  have "\<forall>j \<in> set (tier per_kind kind). hj_priority j = priority" for kind
    using assms(2) od_get_entry_iff [OF assms(1), of kind] by (fastforce simp: tier_def split: option.split)
  then have all: "filter (\<lambda>j. hj_priority j = priority) (tier per_kind kind) = tier per_kind kind" for kind
    by (simp add: filter_id_conv)
  obtain m where m: "\<And>kind. \<exists>rest. of_kind kind sel @ rest = tier per_kind kind"
      "\<And>kind. length (of_kind kind sel) \<le> Suc m" "\<And>kind. min m (length (tier per_kind kind)) \<le> length (of_kind kind sel)"
      "length sel \<le> limit" "length sel = limit \<or> (\<forall>kind. of_kind kind sel = tier per_kind kind)"
    using append_due_shares [OF ok, of priority limit] unfolding sel_def [symmetric] all by blast
  have "length (of_kind kind' sel) \<le> Suc (length (of_kind kind sel))" if "of_kind kind sel \<noteq> tier per_kind kind" for kind kind'
  proof -
    obtain rest where rest: "of_kind kind sel @ rest = tier per_kind kind" using m(1) by blast
    then have "rest \<noteq> []" using that by auto
    then have "length (of_kind kind sel) < length (tier per_kind kind)" using rest by (metis length_append length_greater_0_conv less_add_same_cancel1)
    then have "m \<le> length (of_kind kind sel)" using m(3) [of kind] by linarith
    then show ?thesis using m(2) [of kind'] by linarith
  qed
  then show ?thesis using m by blast
qed

theorem tier_shared_fairly_witness:
  "\<exists>rest. of_kind ''transcription''
     (append_due_priority_tier [] [(''transcription'', [sample_job, sample_job\<lparr>hj_message_id := 8\<rparr>])] HP_BACKFILL 1) @ rest =
     [sample_job, sample_job\<lparr>hj_message_id := 8\<rparr>]"
proof -
  let ?d = "[(''transcription'', [sample_job, sample_job\<lparr>hj_message_id := 8\<rparr>])]"
  have "distinct (map fst ?d)" "\<forall>(kind, js) \<in> set ?d. \<forall>j \<in> set js. hj_kind j = kind \<and> hj_priority j = HP_BACKFILL"
    by (simp_all add: sample_job_def)
  from tier_shared_fairly [OF this, of 1]
  have "\<exists>rest. of_kind ''transcription'' (append_due_priority_tier [] ?d HP_BACKFILL 1) @ rest = tier ?d ''transcription''"
    by blast
  then show ?thesis by (simp add: tier_def)
qed

section \<open>What a slice requests\<close>

lemma length_by_kind:
  assumes "finite K" "\<forall>j \<in> set js. hj_kind j \<in> K"
  shows "length js = (\<Sum>kind \<in> K. length (of_kind kind js))"
  using assms(2)
proof (induction js)
  case (Cons j js)
  have "length (of_kind kind (j # js)) = (if hj_kind j = kind then 1 else 0) + length (of_kind kind js)" for kind
    by (simp add: of_kind_def)
  then show ?case using Cons assms(1) by (simp add: sum.distrib)
qed simp

text \<open>The due jobs of a kind, as the queue returns them.\<close>

definition due_of :: "int \<Rightarrow> nat \<Rightarrow> HydrationPriority \<Rightarrow> HydrationRow list \<Rightarrow> string \<Rightarrow> HydrationJob list" where
  "due_of now max_jobs priority rows kind =
     map hr_job (select_ordered (is_due now (Some kind) (Some priority)) (due_order (Some priority)) max_jobs rows)"

lemma due_by_kind_ok:
  assumes "queue_ok rows"
  shows "due_by_kind now (int max_jobs) priority rows hs =
    Inr (map (\<lambda>(kind, h). (kind, due_of now max_jobs priority rows kind)) hs)"
  by (induction hs) (auto simp: due_jobs_ok [OF assms] and_then_def due_of_def)

lemma due_of_sound:
  "j \<in> set (due_of now max_jobs priority rows kind) \<Longrightarrow>
    (\<exists>r \<in> set rows. hr_job r = j \<and> is_due now None (Some priority) r) \<and> hj_kind j = kind \<and> hj_priority j = priority"
  by (auto simp: due_of_def is_due_def dest!: select_ordered_sound)

lemma due_of_some:
  assumes "r \<in> set rows" "is_due now None (Some priority) r" "0 < max_jobs"
  shows "due_of now max_jobs priority rows (hj_kind (hr_job r)) \<noteq> []"
proof -
  have "r \<in> set (filter (is_due now (Some (hj_kind (hr_job r))) (Some priority)) rows)"
    using assms by (simp add: is_due_def)
  then have "0 < length (filter (is_due now (Some (hj_kind (hr_job r))) (Some priority)) rows)"
    by (metis length_pos_if_in_set)
  then show ?thesis
    using assms(3) by (simp add: due_of_def length_select_ordered flip: length_greater_0_conv)
qed

lemma tier_due: "tier (map (\<lambda>(kind, h). (kind, due_of now max_jobs priority rows kind)) hs) kind =
    (if od_get hs kind = None then [] else due_of now max_jobs priority rows kind)"
  by (induction hs) (auto simp: tier_def split: if_splits)

lemma selected_due:
  fixes now :: int and priority :: HydrationPriority and rows :: "HydrationRow list"
  assumes "distinct (map fst hs)" "length hs \<le> max_jobs"
  defines "sel \<equiv> append_due_priority_tier [] (map (\<lambda>(kind, h). (kind, due_of now max_jobs priority rows kind)) hs) priority max_jobs"
  shows "\<forall>j \<in> set sel. handled hs j \<and> hj_priority j = priority \<and>
      (\<exists>r \<in> set rows. hr_job r = j \<and> is_due now None (Some priority) r)"
    and "r \<in> set rows \<Longrightarrow> is_due now None (Some priority) r \<Longrightarrow> handled hs (hr_job r) \<Longrightarrow>
      \<exists>j \<in> set sel. hj_kind j = hj_kind (hr_job r)"
proof -
  let ?t = "map (\<lambda>(kind, h). (kind, due_of now max_jobs priority rows kind)) hs"
  have keys: "map fst ?t = map fst hs" by auto
  have ok: "tiers_ok ?t" using assms(1) due_of_sound keys unfolding tiers_ok_def by (auto simp del: map_map)
  have all: "filter (\<lambda>j. hj_priority j = priority) (tier ?t kind) = tier ?t kind" for kind
    using due_of_sound by (auto simp: tier_due filter_id_conv)
  obtain m where m: "\<And>kind. \<exists>rest. of_kind kind sel @ rest = tier ?t kind"
      "\<And>kind. length (of_kind kind sel) \<le> Suc m" "\<And>kind. min m (length (tier ?t kind)) \<le> length (of_kind kind sel)"
      "length sel = max_jobs \<or> (\<forall>kind. of_kind kind sel = tier ?t kind)"
    using append_due_shares [OF ok, of priority max_jobs] unfolding sel_def [symmetric] all by blast
  have in_tier: "j \<in> set (tier ?t (hj_kind j))" if "j \<in> set sel" for j
  proof -
    obtain rest where "of_kind (hj_kind j) sel @ rest = tier ?t (hj_kind j)" using m(1) by blast
    moreover have "j \<in> set (of_kind (hj_kind j) sel)" using that by (simp add: of_kind_def)
    ultimately show ?thesis by (metis Un_iff set_append)
  qed
  show sound: "\<forall>j \<in> set sel. handled hs j \<and> hj_priority j = priority \<and>
      (\<exists>r \<in> set rows. hr_job r = j \<and> is_due now None (Some priority) r)"
  proof
    fix j
    assume "j \<in> set sel"
    then have "od_get hs (hj_kind j) \<noteq> None" "j \<in> set (due_of now max_jobs priority rows (hj_kind j))"
      using in_tier [of j] by (auto simp: tier_due split: if_split_asm)
    then show "handled hs j \<and> hj_priority j = priority \<and> (\<exists>r \<in> set rows. hr_job r = j \<and> is_due now None (Some priority) r)"
      using due_of_sound [of j] unfolding handled_def by blast
  qed
  assume r: "r \<in> set rows" "is_due now None (Some priority) r" "handled hs (hr_job r)"
  let ?k = "hj_kind (hr_job r)"
  have k: "?k \<in> set (map fst hs)"
    using r(3) by (simp add: handled_def od_get_None_iff od_keys_def)
  then have "0 < max_jobs" using assms(2) by (cases hs) auto
  then have some: "tier ?t ?k \<noteq> []" using due_of_some [OF r(1,2)] r(3) by (simp add: tier_due handled_def)
  have "of_kind ?k sel \<noteq> []"
  proof
    assume none: "of_kind ?k sel = []"
    then have full: "length sel = max_jobs" using m(4) some by metis
    have "m = 0" using m(3) [of ?k] none some by (cases m) (auto simp: min_def split: if_splits)
    then have one: "length (of_kind kind sel) \<le> 1" for kind using m(2) [of kind] by simp
    have "\<forall>j \<in> set sel. hj_kind j \<in> set (map fst hs)"
      using sound by (simp add: handled_def od_get_None_iff od_keys_def)
    then have "length sel = (\<Sum>kind \<in> set (map fst hs). length (of_kind kind sel))" by (intro length_by_kind) simp_all
    also have "\<dots> = (\<Sum>kind \<in> set (map fst hs) - {?k}. length (of_kind kind sel))"
      using k none by (simp add: sum.remove)
    also have "\<dots> \<le> (\<Sum>kind \<in> set (map fst hs) - {?k}. 1)" by (rule sum_mono) (rule one)
    also have "\<dots> < card (set (map fst hs))" using card_Diff1_less [OF _ k] by simp
    also have "\<dots> \<le> length hs" by (metis card_length length_map)
    finally show False using full assms(2) by simp
  qed
  then obtain j where "j \<in> set (of_kind ?k sel)" by fastforce
  then show "\<exists>j \<in> set sel. hj_kind j = ?k" by (auto simp: of_kind_def)
qed

lemma carriable_batch:
  "sized hs \<Longrightarrow> b \<in> set (batch_jobs jobs hs bf) \<Longrightarrow> \<exists>p. carriable hs p b"
  using ordered_carriable [of hs b jobs] unfolding batch_jobs_def order_hydration_batches_def
  by (auto split: if_splits)

lemma batch_of_job:
  assumes "sized hs" "j \<in> set jobs" "handled hs j"
  shows "\<exists>b \<in> set (batch_jobs jobs hs bf). j \<in> set b \<and> hj_kind (hd b) = hj_kind j"
proof -
  have "set (concat (batch_jobs jobs hs bf)) = set (filter (handled hs) jobs)"
    using partition_batches(1) [OF assms(1)] by (metis mset_eq_setD)
  then obtain b where b: "b \<in> set (batch_jobs jobs hs bf)" "j \<in> set b" using assms(2,3) by auto
  then have "\<exists>p. carriable hs p b"
    by (intro carriable_batch [OF assms(1)])
  then have "group_key j = group_key (hd b)" using b(2) by (auto simp: carriable_def)
  then show ?thesis using b by (auto simp: group_key_def)
qed

lemma batches_of_priority:
  assumes "sized hs" "\<forall>j \<in> set jobs. hj_priority j = priority" "b \<in> set (batch_jobs jobs hs bf)"
  shows "carriable hs priority b \<and> set b \<subseteq> set jobs"
proof -
  have "set (concat (batch_jobs jobs hs bf)) = set (filter (handled hs) jobs)"
    using partition_batches(1) [OF assms(1)] by (metis mset_eq_setD)
  then have sub: "set b \<subseteq> set jobs" using assms(3) by auto
  obtain p where p: "carriable hs p b"
    using carriable_batch [OF assms(1,3)] by blast
  then have "hd b \<in> set b" "hj_priority (hd b) = p" by (auto simp: carriable_def)
  then show ?thesis using p sub assms(2) by auto
qed

text \<open>A row a slice may request with the attempts that remain.\<close>

definition payable :: "handlers \<Rightarrow> int \<Rightarrow> HydrationPriority \<Rightarrow> int \<Rightarrow> HydrationRow \<Rightarrow> bool" where
  "payable hs now priority remaining r \<longleftrightarrow> is_due now None (Some priority) r \<and> affordable hs remaining [hr_job r]"

text \<open>
  Without an owner's selection (a call no adapter of the daemon makes; what its slices do is in
  \<open>Hydration_Slice\<close>) a slice finds work it can pay for, and only that. With room for one job of
  each kind (the worker's constructor insists on it), it gets a batch exactly when some active
  row of the priority is due, has a handler, and its request costs no more than the attempts that
  remain. The batch is one a request can carry, within the batch size, and every job in it is
  such a row.
\<close>

lemma ambient_batch:
  assumes "queue_ok rows" "sized hs" "distinct (map fst hs)" "length hs \<le> max_jobs"
  shows "case select_batch hs max_jobs rows priority remaining retry None now of
      Inl e \<Rightarrow> False
    | Inr None \<Rightarrow> \<forall>r \<in> set rows. \<not> payable hs now priority remaining r
    | Inr (Some b) \<Rightarrow> carriable hs priority b \<and> (\<forall>j \<in> set b. \<exists>r \<in> set rows. hr_job r = j \<and> payable hs now priority remaining r)"
proof -
  define sel where "sel = append_due_priority_tier [] (map (\<lambda>(kind, h). (kind, due_of now max_jobs priority rows kind)) hs) priority max_jobs"
  let ?batches = "batch_jobs sel hs (priority = HP_BACKFILL)"
  have select: "select_batch hs max_jobs rows priority remaining retry None now = Inr (List.find (affordable hs remaining) ?batches)"
    by (simp add: select_batch_def due_by_kind_ok [OF assms(1)] and_then_def sel_def Let_def)
  have sound: "\<forall>j \<in> set sel. handled hs j \<and> hj_priority j = priority \<and>
      (\<exists>r \<in> set rows. hr_job r = j \<and> is_due now None (Some priority) r)"
    unfolding sel_def by (rule selected_due(1) [OF assms(3,4)])
  have same_kind: "hj_kind (hd b) = hj_kind j \<Longrightarrow> affordable hs remaining b = affordable hs remaining [j]" for b j
    by (simp add: affordable_def)
  show ?thesis
  proof (cases "List.find (affordable hs remaining) ?batches")
    case None
    have "\<not> payable hs now priority remaining r" if r: "r \<in> set rows" for r
    proof
      assume pay: "payable hs now priority remaining r"
      then have "handled hs (hr_job r)" by (auto simp: payable_def affordable_def handled_def split: option.splits)
      then obtain j where j: "j \<in> set sel" "hj_kind j = hj_kind (hr_job r)"
        using selected_due(2) [OF assms(3,4) r] pay unfolding sel_def payable_def by blast
      then obtain b where "b \<in> set ?batches" "hj_kind (hd b) = hj_kind j"
        using batch_of_job [OF assms(2) j(1)] sound by blast
      then show False using None pay same_kind [of b "hr_job r"] j(2) by (auto simp: find_None_iff payable_def)
    qed
    then show ?thesis by (simp add: select None)
  next
    case (Some b)
    then have b: "b \<in> set ?batches" "affordable hs remaining b" by (auto simp: find_Some_iff)
    have carry: "carriable hs priority b" "set b \<subseteq> set sel"
      using batches_of_priority [OF assms(2) _ b(1)] sound by blast+
    then have "\<exists>r \<in> set rows. hr_job r = j \<and> payable hs now priority remaining r" if "j \<in> set b" for j
    proof -
      have "group_key j = group_key (hd b)" using carry(1) that unfolding carriable_def by blast
      then have "hj_kind (hd b) = hj_kind j" by (simp add: group_key_def)
      then have "affordable hs remaining [j]" using same_kind [of b j] b(2) by blast
      then show ?thesis using sound carry(2) that by (auto simp: payable_def)
    qed
    then show ?thesis using carry(1) by (simp add: select Some)
  qed
qed

end
