(* ===== verification/Message_Store.thy ===== *)
theory Message_Store
  imports Prelude
begin

text \<open>
  The message tables of the archive (\<^verbatim>\<open>messages/sqlite_bundle.py\<close>): which observation of a message
  is accepted, what an accepted bundle makes of the row, its observation order, its image
  source and its full-text entry, how an edit keeps the former text, and how a deletion
  becomes a tombstone.

  A table is a map from its primary key. The columns and side rows the code only compares as
  a whole (formatting entities, reply and forward data, ...) are one value, \<open>sm_body\<close>, and
  those it only copies (date, sender name, ...) are \<open>sm_rest\<close>. The stemmer, the media codec, the
  tests for transcribable media and the SQL predicate for incoming private messages are
  arguments (\<open>MessageRules\<close>); that predicate also reads the tables of dialogs and entities,
  which the model takes as fixed. Reactions, membership signals, hydration jobs, image observers
  and the schema migrations of \<^verbatim>\<open>sync_db.py\<close> are not part of this model.
\<close>

section \<open>Rows\<close>

type_synonym msg_key = "int \<times> int"
type_synonym media = "string option \<times> string option"

datatype ReactionAggregateSource = RS_LEGACY | RS_BACKGROUND | RS_HISTORY | RS_DELTA
  | RS_REALTIME_MESSAGE | RS_MESSAGE_EDIT | RS_RAW_UPDATE

fun source_rank :: "ReactionAggregateSource \<Rightarrow> int" where
  "source_rank RS_LEGACY = 0"
| "source_rank RS_BACKGROUND = 10"
| "source_rank RS_HISTORY = 20"
| "source_rank RS_DELTA = 30"
| "source_rank RS_REALTIME_MESSAGE = 40"
| "source_rank RS_MESSAGE_EDIT = 50"
| "source_rank RS_RAW_UPDATE = 60"

record StoredMessage =
  sm_dialog_id :: int
  sm_message_id :: int
  sm_text :: "string option"
  sm_edit_date :: "int option"
  sm_media :: media
  sm_body :: string
  sm_out :: bool
  sm_sender_id :: "int option"
  sm_rest :: string

record ExtractedMessage =
  em_message :: StoredMessage
  em_observation_order :: "int option"
  em_media_order :: "int option"
  em_body_order :: "int option"
  em_photo_id :: "int option"
  em_photo_eligible :: bool
  em_invalidate_image :: bool

record MessageRow =
  mr_message :: StoredMessage
  mr_is_deleted :: bool
  mr_deleted_at :: "int option"

record Observation =
  ob_order :: int
  ob_is_deleted :: bool
  ob_rank :: int

record ImageSource =
  is_photo_id :: "int option"
  is_order :: int
  is_eligible :: bool

record Transcription =
  tr_text :: string
  tr_id :: int
  tr_received_at :: int
  tr_order :: "int option"

record MessageDb =
  db_messages :: "msg_key \<Rightarrow> MessageRow option"
  db_observations :: "msg_key \<Rightarrow> Observation option"
  db_images :: "msg_key \<Rightarrow> ImageSource option"
  db_transcripts :: "msg_key \<Rightarrow> Transcription option"
  db_index :: "msg_key \<Rightarrow> string option"
  db_versions :: "msg_key \<Rightarrow> (int \<times> string option \<times> int option) list"
  db_nonchannel :: "int \<Rightarrow> int option"
  db_sequence :: int

record MessageRules =
  ru_stem :: "string option \<Rightarrow> string"
  ru_canonical :: "media \<Rightarrow> bool"
  ru_transcribable :: "media \<Rightarrow> bool"
  ru_transcribable_pair :: "media \<Rightarrow> bool"
  ru_transcribable_sql :: "media \<Rightarrow> bool"
  ru_keep_history :: "StoredMessage \<Rightarrow> bool"

definition msg_key :: "StoredMessage \<Rightarrow> msg_key" where
  "msg_key m = (sm_dialog_id m, sm_message_id m)"

definition item_key :: "ExtractedMessage \<Rightarrow> msg_key" where
  "item_key item = msg_key (em_message item)"

definition empty_message_db :: MessageDb where
  "empty_message_db = \<lparr>db_messages = \<lambda>_. None, db_observations = \<lambda>_. None, db_images = \<lambda>_. None,
     db_transcripts = \<lambda>_. None, db_index = \<lambda>_. None, db_versions = \<lambda>_. [],
     db_nonchannel = \<lambda>_. None, db_sequence = 0\<rparr>"

text \<open>\<open>allocate_observation_order\<close>: the counter in \<^verbatim>\<open>daemon_state\<close>, with 0 for its absence.\<close>

definition allocate_observation_order :: "MessageDb \<Rightarrow> int \<times> MessageDb" where
  "allocate_observation_order db = (db_sequence db + 1, db\<lparr>db_sequence := db_sequence db + 1\<rparr>)"

definition channel_peer_id_offset :: int where
  "channel_peer_id_offset = 10 ^ 12"

definition is_channel_peer_id :: "int \<Rightarrow> bool" where
  "is_channel_peer_id v \<longleftrightarrow> v < - channel_peer_id_offset"

section \<open>Which observation is current\<close>

definition has_nonchannel_deletion :: "MessageDb \<Rightarrow> int \<Rightarrow> int \<Rightarrow> bool" where
  "has_nonchannel_deletion db d m \<longleftrightarrow> \<not> is_channel_peer_id d \<and> db_nonchannel db m \<noteq> None"

text \<open>Python's \<open>x or 0\<close> on an optional integer.\<close>

definition int_or_zero :: "int option \<Rightarrow> int" where
  "int_or_zero x = (case x of Some n \<Rightarrow> n | None \<Rightarrow> 0)"

definition stored_message_deleted :: "Observation option \<Rightarrow> MessageRow option \<Rightarrow> bool" where
  "stored_message_deleted state current \<longleftrightarrow>
     (case state of Some o' \<Rightarrow> ob_is_deleted o' | None \<Rightarrow> False)
     \<or> (case current of Some r \<Rightarrow> mr_is_deleted r | None \<Rightarrow> False)"

definition follows_stored_observation :: "Observation option \<Rightarrow> int option \<Rightarrow> int \<Rightarrow> bool" where
  "follows_stored_observation state order rank \<longleftrightarrow> (case state of None \<Rightarrow> True
     | Some o' \<Rightarrow> (case order of
         Some n \<Rightarrow> if n \<noteq> ob_order o' then n > ob_order o' else rank \<ge> ob_rank o'
       | None \<Rightarrow> rank \<ge> ob_rank o'))"

definition is_current_observation :: "MessageDb \<Rightarrow> ExtractedMessage \<Rightarrow> ReactionAggregateSource \<Rightarrow> bool" where
  "is_current_observation db item source =
     (let m = em_message item; k = item_key item;
          state = db_observations db k; current = db_messages db k;
          follows = follows_stored_observation state (em_observation_order item) (source_rank source)
      in if has_nonchannel_deletion db (sm_dialog_id m) (sm_message_id m) then False
         else if stored_message_deleted state current then False
         else case current of None \<Rightarrow> follows
           | Some r \<Rightarrow>
             let incoming = int_or_zero (sm_edit_date m); stored = int_or_zero (sm_edit_date (mr_message r))
             in if incoming < stored then False
                else if sm_edit_date (mr_message r) \<noteq> None \<and> incoming > stored then True
                else follows)"

text \<open>One bundle per key is accepted, the last of those with the greatest version and order.\<close>

definition supersedes :: "ExtractedMessage \<Rightarrow> ExtractedMessage \<Rightarrow> bool" where
  "supersedes item prior \<longleftrightarrow>
     (let v = int_or_zero (sm_edit_date (em_message item)); v' = int_or_zero (sm_edit_date (em_message prior))
      in v > v' \<or> v = v' \<and> int_or_zero (em_observation_order item) \<ge> int_or_zero (em_observation_order prior))"

definition accept_bundle :: "MessageDb \<Rightarrow> ReactionAggregateSource \<Rightarrow> ExtractedMessage
    \<Rightarrow> (msg_key \<times> ExtractedMessage) list \<Rightarrow> (msg_key \<times> ExtractedMessage) list" where
  "accept_bundle db source item acc =
     (if is_current_observation db item source then
        (case od_get acc (item_key item) of
           None \<Rightarrow> od_put (item_key item) item acc
         | Some prior \<Rightarrow> if supersedes item prior then od_put (item_key item) item acc else acc)
      else acc)"

definition accepted_message_bundles :: "MessageDb \<Rightarrow> ExtractedMessage list \<Rightarrow> ReactionAggregateSource
    \<Rightarrow> ExtractedMessage list" where
  "accepted_message_bundles db items source = map snd (fold (accept_bundle db source) items [])"

section \<open>Writing a bundle\<close>

definition received_body_unchanged :: "MessageDb \<Rightarrow> ExtractedMessage \<Rightarrow> bool" where
  "received_body_unchanged db item =
     (let m = em_message item in
      sm_edit_date m \<noteq> None \<and>
      (case db_messages db (item_key item) of None \<Rightarrow> False
       | Some r \<Rightarrow> sm_text (mr_message r) = sm_text m \<and> sm_edit_date (mr_message r) = sm_edit_date m
           \<and> sm_body (mr_message r) = sm_body m))"

text \<open>
  The media of a row have an order of their own: an older response keeps the newer media, and
  a response that changes only the media leaves the order of the body alone.
\<close>

definition preserve_newer_received_media :: "MessageDb \<Rightarrow> ExtractedMessage \<Rightarrow> ExtractedMessage" where
  "preserve_newer_received_media db item =
     (case (db_messages db (item_key item), db_images db (item_key item)) of
        (Some r, Some s) \<Rightarrow>
          (let m = em_message item; o' = map_option ob_order (db_observations db (item_key item));
               item1 = (if o' \<noteq> None \<and> received_body_unchanged db item then item\<lparr>em_body_order := o'\<rparr> else item);
               unchanged = (sm_media m = sm_media (mr_message r) \<and> em_photo_id item = is_photo_id s
                 \<and> em_photo_eligible item = is_eligible s);
               invalidate = (em_invalidate_image item \<or> \<not> unchanged)
           in if (case em_observation_order item of None \<Rightarrow> True | Some n \<Rightarrow> is_order s \<le> n)
              then item1\<lparr>em_invalidate_image := invalidate\<rparr>
              else if o' = Some (is_order s) \<and> sm_edit_date (mr_message r) \<noteq> None \<and> sm_edit_date m \<noteq> None
                \<and> the (sm_edit_date m) > the (sm_edit_date (mr_message r))
              then item1\<lparr>em_media_order := Some (is_order s), em_invalidate_image := invalidate\<rparr>
              else item1\<lparr>em_message := m\<lparr>sm_media := sm_media (mr_message r)\<rparr>,
                em_photo_id := is_photo_id s, em_photo_eligible := is_eligible s,
                em_media_order := Some (is_order s)\<rparr>)
      | _ \<Rightarrow> item)"

definition upsert_observation :: "int \<Rightarrow> int \<Rightarrow> Observation option \<Rightarrow> Observation" where
  "upsert_observation order rank old = (case old of
     None \<Rightarrow> \<lparr>ob_order = order, ob_is_deleted = False, ob_rank = rank\<rparr>
   | Some o' \<Rightarrow> o'\<lparr>ob_rank := (if order > ob_order o' then rank
          else if order = ob_order o' then max (ob_rank o') rank else ob_rank o'),
        ob_order := max (ob_order o') order\<rparr>)"

definition record_observation :: "ReactionAggregateSource \<Rightarrow> int \<Rightarrow> ExtractedMessage \<Rightarrow> MessageDb \<Rightarrow> MessageDb" where
  "record_observation source fallback item db =
     (let k = item_key item;
          sequence = (case em_observation_order item of Some n \<Rightarrow> n | None \<Rightarrow> fallback);
          body = (case em_body_order item of Some n \<Rightarrow> n | None \<Rightarrow> sequence);
          media = (case em_media_order item of Some n \<Rightarrow> n | None \<Rightarrow> sequence)
      in db\<lparr>db_observations := (db_observations db)
              (k \<mapsto> upsert_observation body (source_rank source) (db_observations db k)),
            db_images := (db_images db)
              (k \<mapsto> \<lparr>is_photo_id = em_photo_id item, is_order = media, is_eligible = em_photo_eligible item\<rparr>)\<rparr>)"

definition record_message_observations :: "MessageDb \<Rightarrow> ExtractedMessage list \<Rightarrow> ReactionAggregateSource \<Rightarrow> MessageDb" where
  "record_message_observations db accepted source =
     (let (fallback, db1) = (if \<exists>item \<in> set accepted. em_observation_order item = None
                             then allocate_observation_order db else (0, db))
      in fold (record_observation source fallback) accepted db1)"

text \<open>
  A transcribed text survives an observation without one: blank texts of unresolved or voice
  media keep the stored text, and a transcription overlays the text of transcribable media.
\<close>

definition blank_text :: "string option \<Rightarrow> bool" where
  "blank_text t = (case t of None \<Rightarrow> True | Some s \<Rightarrow> py_strip s = [])"

definition preserve_transcribed_text :: "MessageDb \<Rightarrow> ExtractedMessage \<Rightarrow> ExtractedMessage" where
  "preserve_transcribed_text db item =
     (let m = em_message item;
          stored = (case db_messages db (item_key item) of None \<Rightarrow> None | Some r \<Rightarrow> sm_text (mr_message r))
      in if blank_text (sm_text m) \<and> fst (sm_media m) \<in> {Some ''contact'', Some ''other'', Some ''voice''}
            \<and> stored \<noteq> None \<and> stored \<noteq> Some []
         then item\<lparr>em_message := m\<lparr>sm_text := stored\<rparr>\<rparr> else item)"

definition overlay_transcription :: "MessageRules \<Rightarrow> MessageDb \<Rightarrow> ExtractedMessage \<Rightarrow> ExtractedMessage" where
  "overlay_transcription ru db item =
     (let m = em_message item in
      case db_transcripts db (item_key item) of
        Some t \<Rightarrow> if ru_canonical ru (sm_media m) \<and> ru_transcribable ru (sm_media m)
          then item\<lparr>em_message := m\<lparr>sm_text := Some (tr_text t)\<rparr>\<rparr> else item
      | None \<Rightarrow> item)"

definition drops_transcription :: "MessageRules \<Rightarrow> ExtractedMessage \<Rightarrow> bool" where
  "drops_transcription ru item =
     (let media = sm_media (em_message item)
      in \<not> (ru_canonical ru media \<and> ru_transcribable ru media) \<and> (media = (None, None) \<or> ru_canonical ru media))"

definition clear_transcription :: "MessageRules \<Rightarrow> ExtractedMessage \<Rightarrow> MessageDb \<Rightarrow> MessageDb" where
  "clear_transcription ru item db = (if drops_transcription ru item
     then db\<lparr>db_transcripts := (db_transcripts db)(item_key item := None)\<rparr> else db)"

definition fts_refresh_needed :: "MessageRules \<Rightarrow> MessageRow option \<Rightarrow> string option \<Rightarrow> string option \<Rightarrow> bool" where
  "fts_refresh_needed ru stored indexed text = (case stored of None \<Rightarrow> True
     | Some r \<Rightarrow> sm_text (mr_message r) \<noteq> text \<or> indexed \<noteq> Some (ru_stem ru text))"

text \<open>\<open>before\<close> is the database the page facts were read from.\<close>

definition write_message_row :: "MessageRules \<Rightarrow> MessageDb \<Rightarrow> ExtractedMessage \<Rightarrow> MessageDb \<Rightarrow> MessageDb" where
  "write_message_row ru before item db =
     (let m = em_message item; k = item_key item
      in db\<lparr>db_messages := (db_messages db)(k \<mapsto> \<lparr>mr_message = m, mr_is_deleted = False, mr_deleted_at = None\<rparr>),
            db_index := (if fts_refresh_needed ru (db_messages before k) (db_index before k) (sm_text m)
              then (db_index db)(k \<mapsto> ru_stem ru (sm_text m)) else db_index db)\<rparr>)"

definition insert_messages_with_fts :: "MessageRules \<Rightarrow> ReactionAggregateSource \<Rightarrow> ExtractedMessage list
    \<Rightarrow> MessageDb \<Rightarrow> int \<times> MessageDb" where
  "insert_messages_with_fts ru source items db =
     (let accepted = accepted_message_bundles db items source
      in if accepted = [] then (0, db)
         else let accepted = map (preserve_newer_received_media db) accepted;
                  db1 = record_message_observations db accepted source;
                  texts = map (preserve_transcribed_text db) accepted;
                  projected = map (overlay_transcription ru db) texts;
                  db2 = fold (clear_transcription ru) texts db1;
                  db3 = fold (write_message_row ru db) projected db2
              in (int (length projected), db3))"

section \<open>Edits, received messages and deletions\<close>

definition read_message_text :: "MessageDb \<Rightarrow> msg_key \<Rightarrow> string option option" where
  "read_message_text db k = map_option (\<lambda>r. sm_text (mr_message r)) (db_messages db k)"

definition next_version :: "MessageDb \<Rightarrow> msg_key \<Rightarrow> int" where
  "next_version db k = fold (\<lambda>v n. max (fst v) n) (db_versions db k) 0 + 1"

definition persist_edited_message :: "MessageRules \<Rightarrow> ReactionAggregateSource \<Rightarrow> ExtractedMessage
    \<Rightarrow> int option \<Rightarrow> MessageDb \<Rightarrow> int option \<times> MessageDb" where
  "persist_edited_message ru source item edit_date db =
     (let k = item_key item in
      if \<not> is_current_observation db item source then (None, db)
      else case db_messages db k of None \<Rightarrow> (None, db)
        | Some r \<Rightarrow>
          if sm_text (mr_message r) = sm_text (em_message item)
          then (None, snd (insert_messages_with_fts ru source [item] db))
          else if \<not> ru_keep_history ru (mr_message r)
          then (None, snd (insert_messages_with_fts ru source [item] db))
          else let n = next_version db k;
                   db1 = db\<lparr>db_versions := (db_versions db)
                     (k := db_versions db k @ [(n, sm_text (mr_message r), edit_date)])\<rparr>
               in (Some n, snd (insert_messages_with_fts ru source [item] db1)))"

definition received_body_superseded :: "MessageDb \<Rightarrow> ExtractedMessage \<Rightarrow> bool" where
  "received_body_superseded db item =
     (case (db_observations db (item_key item), db_messages db (item_key item), em_observation_order item) of
        (Some o', Some r, Some n) \<Rightarrow> n < ob_order o' \<and>
          (case (sm_edit_date (mr_message r), sm_edit_date (em_message item)) of
             (Some stored, Some version) \<Rightarrow> version \<le> stored
           | _ \<Rightarrow> True)
      | _ \<Rightarrow> False)"

definition persist_received_message :: "MessageRules \<Rightarrow> ExtractedMessage \<Rightarrow> MessageDb \<Rightarrow> int \<times> MessageDb" where
  "persist_received_message ru item0 db =
     (let m = em_message item0; k = item_key item0 in
      if has_nonchannel_deletion db (sm_dialog_id m) (sm_message_id m) then (0, db)
      else if received_body_superseded db item0 then (0, db)
      else let item = item0\<lparr>em_invalidate_image := False\<rparr> in
        case read_message_text db k of
          Some text \<Rightarrow>
            if text \<noteq> sm_text m
            then let (version, db1) = persist_edited_message ru RS_MESSAGE_EDIT item (sm_edit_date m) db
                 in (if version \<noteq> None \<or> read_message_text db1 k = Some (sm_text m) then 1 else 0, db1)
            else insert_messages_with_fts ru RS_HISTORY [item] db
        | None \<Rightarrow> insert_messages_with_fts ru RS_HISTORY [item] db)"

definition validated_message_ids :: "int list \<Rightarrow> int list" where
  "validated_message_ids ids = od_keys (fold (\<lambda>i d. od_put i () d) (filter (\<lambda>i. 0 < i) ids) [])"

definition tombstone :: "int \<Rightarrow> Observation option \<Rightarrow> Observation" where
  "tombstone order old = (case old of
     None \<Rightarrow> \<lparr>ob_order = order, ob_is_deleted = True, ob_rank = 0\<rparr>
   | Some o' \<Rightarrow> o'\<lparr>ob_is_deleted := True, ob_order := order\<rparr>)"

definition already_deleted :: "MessageDb \<Rightarrow> msg_key \<Rightarrow> bool" where
  "already_deleted db k = (case db_observations db k of Some o' \<Rightarrow> ob_is_deleted o' | None \<Rightarrow> False)"

definition record_message_deletions :: "int \<Rightarrow> int list \<Rightarrow> MessageDb \<Rightarrow> int list \<times> MessageDb" where
  "record_message_deletions d message_ids db =
     (let ids = validated_message_ids message_ids;
          pending = filter (\<lambda>m. \<not> already_deleted db (d, m)) ids
      in if pending = [] then (ids, db)
         else let (order, db1) = allocate_observation_order db
           in (ids, fold (\<lambda>m s. s\<lparr>db_observations := (db_observations s)
                ((d, m) \<mapsto> tombstone order (db_observations s (d, m)))\<rparr>) pending db1))"

definition mark_message_deleted :: "int \<Rightarrow> int \<Rightarrow> int \<Rightarrow> MessageDb \<Rightarrow> bool \<times> MessageDb" where
  "mark_message_deleted d m deleted_at db =
     (let (ids, db1) = record_message_deletions d [m] db in
      if ids = [] then (False, db1)
      else let changed = (case db_messages db1 (d, m) of Some r \<Rightarrow> \<not> mr_is_deleted r | None \<Rightarrow> False)
        in (changed, db1\<lparr>db_messages := (if changed
              then (db_messages db1)((d, m) := map_option
                (\<lambda>r. r\<lparr>mr_is_deleted := True, mr_deleted_at := Some deleted_at\<rparr>) (db_messages db1 (d, m)))
              else db_messages db1),
            db_index := (db_index db1)((d, m) := None)\<rparr>))"

definition record_nonchannel_deletions :: "int list \<Rightarrow> int \<Rightarrow> MessageDb \<Rightarrow> int list \<times> MessageDb" where
  "record_nonchannel_deletions message_ids deleted_at db =
     (let ids = validated_message_ids message_ids
      in (ids, fold (\<lambda>m s. s\<lparr>db_nonchannel := (if db_nonchannel s m = None
           then (db_nonchannel s)(m \<mapsto> deleted_at) else db_nonchannel s)\<rparr>) ids db))"

section \<open>Transcriptions\<close>

text \<open>
  Transcription facts (\<^verbatim>\<open>messages/sqlite_hydration.py\<close>). \<open>delivered\<close> is the order of the update
  being delivered, without which one is allocated.
\<close>

definition delivered_observation_order :: "int option \<Rightarrow> MessageDb \<Rightarrow> int \<times> MessageDb" where
  "delivered_observation_order delivered db =
     (case delivered of None \<Rightarrow> allocate_observation_order db | Some n \<Rightarrow> (n, db))"

definition hydration_observation_current :: "MessageDb \<Rightarrow> msg_key \<Rightarrow> int option \<Rightarrow> bool" where
  "hydration_observation_current db k order \<longleftrightarrow> \<not> has_nonchannel_deletion db (fst k) (snd k)
     \<and> (case db_observations db k of None \<Rightarrow> True
        | Some o' \<Rightarrow> \<not> ob_is_deleted o' \<and> (case order of None \<Rightarrow> True | Some n \<Rightarrow> ob_order o' \<le> n))"

definition upsert_message_transcription :: "msg_key \<Rightarrow> string \<Rightarrow> int \<Rightarrow> int \<Rightarrow> int option \<Rightarrow> int option
    \<Rightarrow> MessageDb \<Rightarrow> bool \<times> MessageDb" where
  "upsert_message_transcription k transcribed ident received_at order delivered db =
     (let text = py_strip transcribed in
      if text = [] then (False, db)
      else let (n, db1) = (case order of None \<Rightarrow> delivered_observation_order delivered db | Some n \<Rightarrow> (n, db));
               newer = (case db_transcripts db1 k of None \<Rightarrow> True | Some t \<Rightarrow> int_or_zero (tr_order t) < n)
           in (newer, if newer then db1\<lparr>db_transcripts := (db_transcripts db1)
                (k \<mapsto> \<lparr>tr_text = text, tr_id = ident, tr_received_at = received_at, tr_order = Some n\<rparr>)\<rparr> else db1))"

definition persist_transcribed_text :: "MessageRules \<Rightarrow> msg_key \<Rightarrow> string option \<Rightarrow> string \<Rightarrow> MessageDb
    \<Rightarrow> bool \<times> MessageDb" where
  "persist_transcribed_text ru k old_text text db =
     (if old_text = Some text then (False, db)
      else (True, db\<lparr>db_messages := (db_messages db)(k := map_option
              (\<lambda>r. r\<lparr>mr_message := mr_message r\<lparr>sm_text := Some text\<rparr>\<rparr>) (db_messages db k)),
            db_index := (db_index db)(k \<mapsto> ru_stem ru (Some text))\<rparr>))"

definition undeleted_media :: "MessageDb \<Rightarrow> msg_key \<Rightarrow> media option" where
  "undeleted_media db k = (case db_messages db k of None \<Rightarrow> None
     | Some r \<Rightarrow> if mr_is_deleted r then None else Some (sm_media (mr_message r)))"

definition apply_message_transcription :: "MessageRules \<Rightarrow> msg_key \<Rightarrow> string \<Rightarrow> int \<Rightarrow> int \<Rightarrow> int option
    \<Rightarrow> MessageDb \<Rightarrow> bool \<times> MessageDb" where
  "apply_message_transcription ru k transcribed ident received_at delivered db =
     (if \<not> hydration_observation_current db k None then (False, db)
      else if py_strip transcribed = [] then (False, db)
      else if (case undeleted_media db k of None \<Rightarrow> True | Some m \<Rightarrow> \<not> ru_transcribable_pair ru m) then (False, db)
      else let (newer, db1) = upsert_message_transcription k (py_strip transcribed) ident received_at None delivered db
        in if \<not> newer then (False, db1)
           else (True, case read_message_text db k of None \<Rightarrow> db1
             | Some old \<Rightarrow> if old \<noteq> Some (py_strip transcribed)
                 then snd (persist_transcribed_text ru k old (py_strip transcribed) db1) else db1))"

definition stage_message_transcription :: "msg_key \<Rightarrow> string \<Rightarrow> int \<Rightarrow> int \<Rightarrow> int option \<Rightarrow> MessageDb \<Rightarrow> bool \<times> MessageDb" where
  "stage_message_transcription k transcribed ident received_at delivered db =
     (if \<not> hydration_observation_current db k None then (False, db)
      else if py_strip transcribed = [] \<or> read_message_text db k \<noteq> None then (False, db)
      else upsert_message_transcription k (py_strip transcribed) ident received_at None delivered db)"

datatype absent_result = AR_NOT_APPLIED | AR_ALREADY_APPLIED | AR_APPLIED

text \<open>\<open>enrolled\<close> is the part of the query about the dialog: enrolled, and syncing or synced.\<close>

definition apply_message_transcription_if_absent :: "MessageRules \<Rightarrow> bool \<Rightarrow> msg_key \<Rightarrow> string \<Rightarrow> int \<Rightarrow> int \<Rightarrow> int option
    \<Rightarrow> int option \<Rightarrow> MessageDb \<Rightarrow> absent_result \<times> MessageDb" where
  "apply_message_transcription_if_absent ru enrolled k transcribed ident received_at order delivered db =
     (if \<not> hydration_observation_current db k order then (AR_NOT_APPLIED, db)
      else if py_strip transcribed = [] then (AR_NOT_APPLIED, db)
      else if \<not> enrolled \<or> db_transcripts db k \<noteq> None
        \<or> (case undeleted_media db k of None \<Rightarrow> True | Some m \<Rightarrow> \<not> ru_transcribable_sql ru m \<or> \<not> ru_transcribable_pair ru m)
      then (if db_transcripts db k \<noteq> None then AR_ALREADY_APPLIED else AR_NOT_APPLIED, db)
      else let (newer, db1) = upsert_message_transcription k (py_strip transcribed) ident received_at order delivered db
        in if \<not> newer then (AR_NOT_APPLIED, db1)
           else (AR_APPLIED, case read_message_text db1 k of None \<Rightarrow> db1
             | Some old \<Rightarrow> if old \<noteq> Some (py_strip transcribed)
                 then snd (persist_transcribed_text ru k old (py_strip transcribed) db1) else db1))"

section \<open>Start-up\<close>

text \<open>
  At every start the daemon marks the old messages of private dialogs that the account sent
  (\<^verbatim>\<open>daemon.py\<close>, \<open>_backfill_outgoing_dm\<close>). Its statement looks at no tombstone, and without a
  verified account (SQL \<^verbatim>\<open>sender_id = NULL\<close>) it marks nothing. The row count it returns is
  only logged.
\<close>

definition backfill_outgoing_dm :: "int option \<Rightarrow> MessageDb \<Rightarrow> MessageDb" where
  "backfill_outgoing_dm self_id db = db\<lparr>db_messages := (\<lambda>k. map_option
     (\<lambda>r. if \<not> sm_out (mr_message r) \<and> 0 < fst k \<and> self_id \<noteq> None \<and> sm_sender_id (mr_message r) = self_id
          then r\<lparr>mr_message := mr_message r\<lparr>sm_out := True\<rparr>\<rparr> else r) (db_messages db k))\<rparr>"

section \<open>Runs\<close>

text \<open>
  The writers of the message tables, as one step each. \<open>MO_Allocate\<close> is the reservation of an
  observation order before a request is sent.
\<close>

datatype message_op =
    MO_Allocate
  | MO_Insert ReactionAggregateSource "ExtractedMessage list"
  | MO_Edit ReactionAggregateSource ExtractedMessage "int option"
  | MO_Received ExtractedMessage
  | MO_Mark_Deleted int int int
  | MO_Record_Deletions int "int list"
  | MO_Nonchannel "int list" int
  | MO_Transcribed msg_key string int int "int option"
  | MO_Staged msg_key string int int "int option"
  | MO_Transcribe_Absent bool msg_key string int int "int option" "int option"
  | MO_Backfill_Out "int option"

fun message_step :: "MessageRules \<Rightarrow> message_op \<Rightarrow> MessageDb \<Rightarrow> MessageDb" where
  "message_step ru MO_Allocate db = snd (allocate_observation_order db)"
| "message_step ru (MO_Insert source items) db = snd (insert_messages_with_fts ru source items db)"
| "message_step ru (MO_Edit source item edit_date) db = snd (persist_edited_message ru source item edit_date db)"
| "message_step ru (MO_Received item) db = snd (persist_received_message ru item db)"
| "message_step ru (MO_Mark_Deleted d m t) db = snd (mark_message_deleted d m t db)"
| "message_step ru (MO_Record_Deletions d ids) db = snd (record_message_deletions d ids db)"
| "message_step ru (MO_Nonchannel ids t) db = snd (record_nonchannel_deletions ids t db)"
| "message_step ru (MO_Transcribed k text i t delivered) db = snd (apply_message_transcription ru k text i t delivered db)"
| "message_step ru (MO_Staged k text i t delivered) db = snd (stage_message_transcription k text i t delivered db)"
| "message_step ru (MO_Transcribe_Absent enrolled k text i t order delivered) db =
     snd (apply_message_transcription_if_absent ru enrolled k text i t order delivered db)"
| "message_step ru (MO_Backfill_Out self_id) db = backfill_outgoing_dm self_id db"

end
