(* ===== verification/Hydration_Slice.thy ===== *)
theory Hydration_Slice
  imports Hydration_Fairness Message_Store Demand
begin

text \<open>
  The demand adapter of one hydration tier (\<^verbatim>\<open>fact_hydration.py\<close>, \<open>FactHydrationDemandAdapter\<close>): the
  selection its status offers to the coordinator, and what a slice started for a selection
  requests. A selection names a job and the revision of its message (\<^verbatim>\<open>messages/sqlite_hydration.py\<close>,
  \<open>hydration_work_revision\<close>); the target is kept as its three parts and the revision as the tuple
  whose \<^verbatim>\<open>repr\<close> the code stores. The account, the demand kind and the registered handlers are
  those of the adapter, times are whole seconds, and the slice reads its clock once (the code reads
  it again for the retry times it writes later). What follows the request is not modelled.
\<close>

section \<open>Revisions and selections\<close>

type_synonym hydration_revision = "(int \<times> int \<times> int \<times> int \<times> int) option"
type_synonym hydration_selection = "job_id \<times> hydration_revision"

definition terminal_flag :: "HydrationRow list \<Rightarrow> job_id \<Rightarrow> int" where
  "terminal_flag rows k = (case List.find (\<lambda>r. row_id r = k) rows of
     None \<Rightarrow> -1 | Some r \<Rightarrow> if hj_terminal (hr_job r) then 1 else 0)"

definition hydration_work_revision :: "MessageDb \<Rightarrow> HydrationRow list \<Rightarrow> HydrationJob \<Rightarrow> hydration_revision" where
  "hydration_work_revision db rows j =
     (let k = (hj_dialog_id j, hj_message_id j) in
      case db_messages db k of None \<Rightarrow> None
      | Some m \<Rightarrow> Some (int_or_zero (sm_edit_date (mr_message m)), fold (\<lambda>v n. max (fst v) n) (db_versions db k) 0,
          (case db_observations db k of None \<Rightarrow> 0 | Some o' \<Rightarrow> ob_order o'),
          (case db_observations db k of None \<Rightarrow> 0 | Some o' \<Rightarrow> if ob_is_deleted o' then 1 else 0),
          terminal_flag rows (identity j)))"

definition selection_of :: "MessageDb \<Rightarrow> HydrationRow list \<Rightarrow> HydrationJob \<Rightarrow> hydration_selection" where
  "selection_of db rows j = (identity j, hydration_work_revision db rows j)"

text \<open>\<open>status\<close>: the due time and the selection of the first due job that is not excluded.\<close>

definition hydration_status :: "handlers \<Rightarrow> nat \<Rightarrow> MessageDb \<Rightarrow> HydrationRow list \<Rightarrow> HydrationPriority \<Rightarrow> int
    \<Rightarrow> hydration_selection set \<Rightarrow> hydration_error + (int \<times> hydration_selection) option" where
  "hydration_status hs max_jobs db rows priority now excluded =
     and_then (due_by_kind now (int max_jobs) priority rows hs) (\<lambda>per_kind.
       Inr (map_option (\<lambda>j. (hj_due_at j, selection_of db rows j))
         (List.find (\<lambda>j. selection_of db rows j \<notin> excluded) (concat (map snd per_kind)))))"

section \<open>A slice\<close>

definition selected_job :: "HydrationRow list \<Rightarrow> HydrationPriority \<Rightarrow> job_id \<Rightarrow> hydration_error + HydrationJob option" where
  "selected_job rows priority k =
     (case List.find (\<lambda>r. row_id r = k \<and> hj_priority (hr_job r) = priority) rows of
        None \<Rightarrow> Inr None
      | Some r \<Rightarrow> and_then (job_from_row r) (\<lambda>j. Inr (Some j)))"

text \<open>\<open>remaining\<close> and \<open>retry\<close> are the budget's \<^verbatim>\<open>remaining\<close> and \<^verbatim>\<open>can_prepare_retry\<close>; a budget is exhausted
  when nothing remains.\<close>

definition prepare_selected_job :: "MessageDb \<Rightarrow> HydrationRow list \<Rightarrow> HydrationPriority \<Rightarrow> int \<Rightarrow> bool \<Rightarrow> int
    \<Rightarrow> hydration_selection \<Rightarrow> hydration_error + (SliceOutcomeKind + HydrationJob)" where
  "prepare_selected_job db rows priority remaining retry now selected =
     and_then (selected_job rows priority (fst selected)) (\<lambda>job. Inr (case job of
         None \<Rightarrow> Inl OUTCOME_STALE
       | Some j \<Rightarrow> if selection_of db rows j \<noteq> selected then Inl OUTCOME_STALE
           else if hj_due_at j > now \<or> remaining \<le> 0 \<and> \<not> retry then Inl OUTCOME_DEFERRED
           else Inr j))"

definition run_priority_slice :: "handlers \<Rightarrow> nat \<Rightarrow> HydrationRow list \<Rightarrow> HydrationPriority \<Rightarrow> int \<Rightarrow> bool \<Rightarrow> bool
    \<Rightarrow> HydrationJob \<Rightarrow> int \<Rightarrow> hydration_error + HydrationJob list option" where
  "run_priority_slice hs max_jobs rows priority remaining retry shutdown j now =
     (if shutdown then Inr None
      else if remaining \<le> 0 \<and> \<not> retry then Inr None
      else select_batch hs max_jobs rows priority remaining retry (Some j) now)"

datatype slice_start = Ends SliceOutcomeKind | Requests "HydrationJob list"

definition hydration_slice :: "handlers \<Rightarrow> nat \<Rightarrow> MessageDb \<Rightarrow> HydrationRow list \<Rightarrow> HydrationPriority \<Rightarrow> int \<Rightarrow> bool
    \<Rightarrow> bool \<Rightarrow> int \<Rightarrow> hydration_selection \<Rightarrow> hydration_error + slice_start" where
  "hydration_slice hs max_jobs db rows priority remaining retry shutdown now selected =
     and_then (prepare_selected_job db rows priority remaining retry now selected) (\<lambda>prepared. case prepared of
         Inl kind \<Rightarrow> Inr (Ends kind)
       | Inr j \<Rightarrow> and_then (run_priority_slice hs max_jobs rows priority remaining retry shutdown j now) (\<lambda>batch.
           Inr (case batch of None \<Rightarrow> Ends OUTCOME_NO_PROGRESS | Some b \<Rightarrow> Requests b)))"

section \<open>One selected job\<close>

lemma tier_of_one:
  assumes "hj_priority j = priority" "0 < max_jobs"
  shows "append_due_priority_tier [] [(hj_kind j, [j])] priority max_jobs = [j]"
proof -
  have heads: "tier_heads [(hj_kind j, [j])] = [(j, hj_kind j)]" by (simp add: tier_heads_def)
  have "append_tier max_jobs ([], [(hj_kind j, [j])]) = append_tier max_jobs ([j], [(hj_kind j, [])])"
    using assms(2) by (subst append_tier.simps) (simp add: heads Let_def)
  also have "\<dots> = ([j], [(hj_kind j, [])])" by (subst append_tier.simps) (simp add: Let_def)
  finally show ?thesis using assms(1) by (simp add: append_due_priority_tier_def)
qed

lemma nonempty_concat_single: "\<forall>b \<in> set bs. b \<noteq> [] \<Longrightarrow> concat bs = [x] \<Longrightarrow> bs = [[x]]"
  by (cases bs; cases "hd bs"; cases "tl bs") (auto simp: append_eq_Cons_conv)

lemma batches_of_one:
  assumes "sized hs"
  shows "batch_jobs [j] hs bf = (if handled hs j then [[j]] else [])"
proof -
  have some: "\<forall>b \<in> set (batch_jobs [j] hs bf). b \<noteq> []"
    using carriable_batch[OF assms] unfolding carriable_def by blast
  have "mset (concat (batch_jobs [j] hs bf)) = mset (filter (handled hs) [j])"
    by (rule partition_batches(1)[OF assms])
  then have all: "concat (batch_jobs [j] hs bf) = (if handled hs j then [j] else [])" by auto
  show ?thesis
  proof (cases "handled hs j")
    case True
    then show ?thesis using nonempty_concat_single[OF some] all by simp
  next
    case False
    then show ?thesis using some all by (cases "batch_jobs [j] hs bf") auto
  qed
qed

text \<open>
  The budget admits the request: its handler costs no more than what remains, or nothing
  remains and the gate has a retry of it.
\<close>

definition admits :: "handlers \<Rightarrow> int \<Rightarrow> bool \<Rightarrow> HydrationJob \<Rightarrow> bool" where
  "admits hs remaining retry j \<longleftrightarrow> (case od_get hs (hj_kind j) of None \<Rightarrow> False
     | Some h \<Rightarrow> if 0 < remaining then hh_request_cost h \<le> remaining else retry)"

lemma select_selected:
  assumes "sized hs" "0 < max_jobs" "hj_priority j = priority" "0 < remaining \<or> retry"
  shows "select_batch hs max_jobs rows priority remaining retry (Some j) now = Inr (if admits hs remaining retry j then Some [j] else None)"
  using assms by (auto simp: select_batch_def and_then_def tier_of_one batches_of_one admits_def affordable_def handled_def
      split: option.splits)

lemma selected_job_row:
  assumes "queue_ok rows"
  shows "selected_job rows priority k =
    Inr (map_option hr_job (List.find (\<lambda>r. row_id r = k \<and> hj_priority (hr_job r) = priority) rows))"
proof (cases "List.find (\<lambda>r. row_id r = k \<and> hj_priority (hr_job r) = priority) rows")
  case (Some r)
  then have "r \<in> set rows" by (auto simp: find_Some_iff)
  then have "valid_job (hr_job r)" using assms by (simp add: queue_ok_def list_all_iff)
  then show ?thesis using Some by (simp add: selected_job_def job_from_row_def and_then_def guard_def)
qed (simp add: selected_job_def)

lemma find_row_iff:
  assumes "queue_ok rows"
  shows "List.find (\<lambda>r. row_id r = k \<and> P r) rows = Some r \<longleftrightarrow> r \<in> set rows \<and> row_id r = k \<and> P r"
proof
  assume r: "r \<in> set rows \<and> row_id r = k \<and> P r"
  then obtain r' where r': "List.find (\<lambda>r. row_id r = k \<and> P r) rows = Some r'"
    by (cases "List.find (\<lambda>r. row_id r = k \<and> P r) rows") (auto simp: find_None_iff)
  then have "r' \<in> set rows" "row_id r' = k" by (auto simp: find_Some_iff)
  moreover have "inj_on row_id (set rows)" using assms by (simp add: queue_ok_def distinct_map)
  ultimately have "r' = r" using r by (metis inj_onD)
  then show "List.find (\<lambda>r. row_id r = k \<and> P r) rows = Some r" using r' by simp
qed (auto simp: find_Some_iff)

lemma find_SomeD: "List.find P xs = Some x \<Longrightarrow> x \<in> set xs \<and> P x"
  by (auto simp: find_Some_iff)

text \<open>Every outcome of a slice, by the row of the selected job.\<close>

lemma slice_outcomes:
  assumes "queue_ok rows" "sized hs" "0 < max_jobs"
  shows "hydration_slice hs max_jobs db rows priority remaining retry shutdown now (k, rv) =
    Inr (case List.find (\<lambda>r. row_id r = k \<and> hj_priority (hr_job r) = priority) rows of
        None \<Rightarrow> Ends OUTCOME_STALE
      | Some r \<Rightarrow> let j = hr_job r in
          if hydration_work_revision db rows j \<noteq> rv then Ends OUTCOME_STALE
          else if hj_due_at j > now \<or> remaining \<le> 0 \<and> \<not> retry then Ends OUTCOME_DEFERRED
          else if \<not> shutdown \<and> admits hs remaining retry j then Requests [j]
          else Ends OUTCOME_NO_PROGRESS)"
proof (cases "List.find (\<lambda>r. row_id r = k \<and> hj_priority (hr_job r) = priority) rows")
  case None
  then show ?thesis
    by (simp add: hydration_slice_def prepare_selected_job_def selected_job_row[OF assms(1)] and_then_def)
next
  case (Some r)
  then have r: "row_id r = k" "hj_priority (hr_job r) = priority" by (auto simp: find_Some_iff)
  then show ?thesis
    using select_selected[OF assms(2,3), of "hr_job r" priority remaining retry rows now] Some
    by (auto simp: hydration_slice_def prepare_selected_job_def selected_job_row[OF assms(1)] and_then_def
        selection_of_def run_priority_slice_def Let_def)
qed

section \<open>What is offered and what is requested\<close>

lemma status_offers:
  assumes "queue_ok rows" "hydration_status hs max_jobs db rows priority now excluded = Inr (Some (release, k, rv))"
  shows "\<exists>r \<in> set rows. row_id r = k \<and> is_due now None (Some priority) r \<and> hydration_work_revision db rows (hr_job r) = rv
    \<and> (k, rv) \<notin> excluded \<and> release = hj_due_at (hr_job r)"
proof -
  define jobs where "jobs = concat (map snd (map (\<lambda>(kind, h). (kind, due_of now max_jobs priority rows kind)) hs))"
  from assms(2) obtain j where j: "List.find (\<lambda>j. selection_of db rows j \<notin> excluded) jobs = Some j"
    "release = hj_due_at j" "selection_of db rows j = (k, rv)"
    by (auto simp: hydration_status_def due_by_kind_ok[OF assms(1)] and_then_def jobs_def)
  with find_SomeD[OF j(1)] have "j \<in> set jobs" "(k, rv) \<notin> excluded" by auto
  then obtain kind where "j \<in> set (due_of now max_jobs priority rows kind)" by (auto simp: jobs_def)
  from due_of_sound[OF this] j(2,3) \<open>(k, rv) \<notin> excluded\<close> show ?thesis by (auto simp: selection_of_def)
qed

lemma revision_active:
  assumes "queue_ok rows" "r \<in> set rows" "hydration_work_revision db rows (hr_job r) = Some (e, v, n, del, t)"
  shows "t = (if hj_terminal (hr_job r) then 1 else 0)"
proof -
  have "List.find (\<lambda>r'. row_id r' = row_id r) rows = Some r"
    using find_row_iff[OF assms(1), of "row_id r" "\<lambda>_. True" r] assms(2) by simp
  then have "terminal_flag rows (row_id r) = (if hj_terminal (hr_job r) then 1 else 0)" by (simp add: terminal_flag_def)
  then show ?thesis using assms(3) by (auto simp: hydration_work_revision_def Let_def split: option.splits)
qed



end
