(* ===== verification/Message_Tables.thy ===== *)
theory Message_Tables
  imports Message_Store
begin

text \<open>
  The effect of every writer of the message tables on one key of one table: a page is written
  by folds over its accepted bundles, whose keys are distinct.
\<close>

section \<open>One key at a time\<close>

lemma fold_other: "(\<And>x s. tab (f x s) = tab s) \<Longrightarrow> tab (fold f xs s) = tab s"
  by (induction xs arbitrary: s) auto

lemma fold_at_key:
  assumes "\<And>x s j. tab (f x s) j = (if j = key x then g x j (tab s j) else tab s j)" and "distinct (map key xs)"
  shows "tab (fold f xs s) j = (case List.find (\<lambda>x. key x = j) xs of Some x \<Rightarrow> g x j (tab s j) | None \<Rightarrow> tab s j)"
  using assms(2)
proof (induction xs arbitrary: s)
  case (Cons x xs)
  have "List.find (\<lambda>y. key y = j) xs = None" if "key x = j"
    using Cons.prems that by (simp add: find_None_iff) (metis image_eqI)
  then show ?case using Cons by (auto simp: assms(1) split: option.split)
qed simp

lemma find_map_key: "(\<And>x. key (f x) = key x) \<Longrightarrow>
    List.find (\<lambda>x. key x = j) (map f xs) = map_option f (List.find (\<lambda>x. key x = j) xs)"
  by (induction xs) auto

lemma find_od: "\<forall>(j, x) \<in> set d. key x = j \<Longrightarrow> List.find (\<lambda>x. key x = k) (map snd d) = od_get d k"
  by (induction d) auto

text \<open>The bundle of a key among the accepted ones.\<close>

definition accepted_at :: "MessageDb \<Rightarrow> ReactionAggregateSource \<Rightarrow> ExtractedMessage list \<Rightarrow> msg_key
    \<Rightarrow> ExtractedMessage option" where
  "accepted_at db source items k = od_get (fold (accept_bundle db source) items []) k"

lemma accept_keys: "\<forall>(j, x) \<in> set acc. item_key x = j \<Longrightarrow> \<forall>(j, x) \<in> set (fold (accept_bundle db source) items acc). item_key x = j"
proof (induction items arbitrary: acc)
  case (Cons i items)
  have put: "\<forall>(j, x) \<in> set d. item_key x = j \<Longrightarrow> \<forall>(j, x) \<in> set (od_put (item_key i) i d). item_key x = j" for d
    by (induction "item_key i" i d rule: od_put.induct) (auto split: if_splits)
  have "\<forall>(j, x) \<in> set (accept_bundle db source i acc). item_key x = j"
    using put[OF Cons.prems] Cons.prems by (auto simp: accept_bundle_def split: option.splits)
  then show ?case using Cons.IH by simp
qed simp

lemma accept_distinct: "distinct (od_keys acc) \<Longrightarrow> distinct (od_keys (fold (accept_bundle db source) items acc))"
  by (induction items arbitrary: acc) (auto simp: accept_bundle_def od_put_distinct split: option.splits)

lemma accepted_distinct: "distinct (map item_key (accepted_message_bundles db items source))"
proof -
  let ?d = "fold (accept_bundle db source) items []"
  have "map item_key (map snd ?d) = od_keys ?d"
    using accept_keys[of "[]" db source items] by (auto simp: od_keys_def intro!: map_cong)
  moreover have "distinct (od_keys ?d)"
    by (rule accept_distinct) (simp add: od_keys_def)
  ultimately show ?thesis unfolding accepted_message_bundles_def by simp
qed

lemma find_accepted: "List.find (\<lambda>x. item_key x = k) (accepted_message_bundles db items source) = accepted_at db source items k"
  unfolding accepted_message_bundles_def accepted_at_def
  by (rule find_od) (use accept_keys[of "[]" db source items] in auto)

lemma accepted_at_fold:
  "od_get (accept_bundle db source i acc) k =
     (if item_key i = k \<and> is_current_observation db i source \<and> (case od_get acc k of Some p \<Rightarrow> supersedes i p | None \<Rightarrow> True)
      then Some i else od_get acc k)"
  by (auto simp: accept_bundle_def split: option.splits)

lemma accepted_at_cases:
  assumes "accepted_at db source items k = Some x"
  shows "x \<in> set items \<and> item_key x = k \<and> is_current_observation db x source"
proof -
  have "od_get (fold (accept_bundle db source) items acc) k = Some x \<Longrightarrow>
      od_get acc k = Some x \<or> x \<in> set items \<and> item_key x = k \<and> is_current_observation db x source" for acc
  proof (induction items arbitrary: acc)
    case (Cons i items)
    from Cons.IH[of "accept_bundle db source i acc"] Cons.prems show ?case
      by (auto simp: accepted_at_fold split: if_splits)
  qed simp
  from this[of "[]"] show ?thesis using assms by (simp add: accepted_at_def)
qed

lemma accepted_at_None:
  "accepted_at db source items k = None \<longleftrightarrow> (\<forall>x \<in> set items. item_key x = k \<longrightarrow> \<not> is_current_observation db x source)"
proof -
  have "od_get (fold (accept_bundle db source) items acc) k = None \<longleftrightarrow>
     od_get acc k = None \<and> (\<forall>x \<in> set items. item_key x = k \<longrightarrow> \<not> is_current_observation db x source)" for acc
    by (induction items arbitrary: acc) (auto simp: accepted_at_fold split: if_splits option.splits)
  then show ?thesis by (simp add: accepted_at_def)
qed

lemma accepted_at_single: "accepted_at db source [x] k =
    (if item_key x = k \<and> is_current_observation db x source then Some x else None)"
  by (simp add: accepted_at_def accepted_at_fold)

section \<open>Inserting a page\<close>

lemma item_key_preserved [simp]:
  "item_key (preserve_newer_received_media db x) = item_key x"
  "item_key (preserve_transcribed_text db x) = item_key x"
  "item_key (overlay_transcription ru db x) = item_key x"
  by (auto simp: preserve_newer_received_media_def preserve_transcribed_text_def overlay_transcription_def
      item_key_def msg_key_def Let_def split: option.splits)

lemma order_preserved [simp]:
  "em_observation_order (preserve_newer_received_media db x) = em_observation_order x"
  by (auto simp: preserve_newer_received_media_def Let_def split: option.splits)

lemma edit_preserved [simp]:
  "sm_edit_date (em_message (preserve_newer_received_media db x)) = sm_edit_date (em_message x)"
  "sm_edit_date (em_message (preserve_transcribed_text db x)) = sm_edit_date (em_message x)"
  "sm_edit_date (em_message (overlay_transcription ru db x)) = sm_edit_date (em_message x)"
  by (auto simp: preserve_newer_received_media_def preserve_transcribed_text_def overlay_transcription_def
      Let_def split: option.splits)

definition projected :: "MessageRules \<Rightarrow> MessageDb \<Rightarrow> ExtractedMessage \<Rightarrow> ExtractedMessage" where
  "projected ru db x = overlay_transcription ru db (preserve_transcribed_text db (preserve_newer_received_media db x))"

lemma projected_key [simp]: "item_key (projected ru db x) = item_key x"
  by (simp add: projected_def)

lemma projected_edit [simp]: "sm_edit_date (em_message (projected ru db x)) = sm_edit_date (em_message x)"
  by (simp add: projected_def)

definition fallback_order :: "MessageDb \<Rightarrow> ReactionAggregateSource \<Rightarrow> ExtractedMessage list \<Rightarrow> int" where
  "fallback_order db source items =
     (if \<exists>x \<in> set (accepted_message_bundles db items source). em_observation_order x = None then db_sequence db + 1 else 0)"

definition sequence_of :: "int \<Rightarrow> ExtractedMessage \<Rightarrow> int" where
  "sequence_of fallback x = (case em_observation_order x of Some n \<Rightarrow> n | None \<Rightarrow> fallback)"

lemma record_tables:
  fixes db :: MessageDb
  defines "obs \<equiv> \<lambda>f s x o'. Some (upsert_observation (case em_body_order x of Some n \<Rightarrow> n | None \<Rightarrow> sequence_of f x) (source_rank s) o')"
  defines "img \<equiv> \<lambda>f x o'. Some \<lparr>is_photo_id = em_photo_id x,
      is_order = (case em_media_order x of Some n \<Rightarrow> n | None \<Rightarrow> sequence_of f x), is_eligible = em_photo_eligible x\<rparr>"
  shows "db_observations (record_observation s f x db) j = (if j = item_key x then obs f s x (db_observations db j) else db_observations db j)"
    and "db_images (record_observation s f x db) j = (if j = item_key x then img f x (db_images db j) else db_images db j)"
  unfolding record_observation_def obs_def img_def sequence_of_def Let_def by auto

lemma record_frame [simp]:
  "db_messages (record_observation s f x db) = db_messages db" "db_index (record_observation s f x db) = db_index db"
  "db_versions (record_observation s f x db) = db_versions db" "db_nonchannel (record_observation s f x db) = db_nonchannel db"
  "db_transcripts (record_observation s f x db) = db_transcripts db" "db_sequence (record_observation s f x db) = db_sequence db"
  by (simp_all add: record_observation_def Let_def)

lemma clear_frame [simp]:
  "db_messages (clear_transcription ru x db) = db_messages db" "db_index (clear_transcription ru x db) = db_index db"
  "db_versions (clear_transcription ru x db) = db_versions db" "db_nonchannel (clear_transcription ru x db) = db_nonchannel db"
  "db_observations (clear_transcription ru x db) = db_observations db" "db_images (clear_transcription ru x db) = db_images db"
  "db_sequence (clear_transcription ru x db) = db_sequence db"
  by (simp_all add: clear_transcription_def)

lemma write_frame [simp]:
  "db_versions (write_message_row ru b x db) = db_versions db" "db_nonchannel (write_message_row ru b x db) = db_nonchannel db"
  "db_observations (write_message_row ru b x db) = db_observations db" "db_images (write_message_row ru b x db) = db_images db"
  "db_sequence (write_message_row ru b x db) = db_sequence db" "db_transcripts (write_message_row ru b x db) = db_transcripts db"
  by (simp_all add: write_message_row_def Let_def)

definition written_row :: "ExtractedMessage \<Rightarrow> MessageRow" where
  "written_row x = \<lparr>mr_message = em_message x, mr_is_deleted = False, mr_deleted_at = None\<rparr>"

lemma write_tables:
  "db_messages (write_message_row ru b x db) j = (if j = item_key x then Some (written_row x) else db_messages db j)"
  "db_index (write_message_row ru b x db) j = (if j = item_key x
     then (if fts_refresh_needed ru (db_messages b j) (db_index b j) (sm_text (em_message x))
           then Some (ru_stem ru (sm_text (em_message x))) else db_index db j) else db_index db j)"
  by (auto simp: write_message_row_def written_row_def Let_def)

lemmas fold_frames =
  fold_other[where tab = db_messages] fold_other[where tab = db_index] fold_other[where tab = db_versions]
  fold_other[where tab = db_nonchannel] fold_other[where tab = db_observations] fold_other[where tab = db_images]
  fold_other[where tab = db_sequence]

lemma insert_pipeline:
  "snd (insert_messages_with_fts ru source items db) =
     (let xs = map (preserve_newer_received_media db) (accepted_message_bundles db items source)
      in fold (write_message_row ru db) (map (projected ru db) (accepted_message_bundles db items source))
           (fold (clear_transcription ru) (map (preserve_transcribed_text db) xs)
             (if xs = [] then db else record_message_observations db xs source)))"
  by (simp add: insert_messages_with_fts_def projected_def[abs_def] comp_def Let_def)

lemma record_all_tables:
  assumes "distinct (map item_key xs)"
  defines "f db \<equiv> if \<exists>x \<in> set xs. em_observation_order x = None then db_sequence db + 1 else 0"
  shows "db_observations (record_message_observations db xs source) k =
           (case List.find (\<lambda>x. item_key x = k) xs of None \<Rightarrow> db_observations db k
            | Some x \<Rightarrow> Some (upsert_observation (case em_body_order x of Some n \<Rightarrow> n | None \<Rightarrow> sequence_of (f db) x)
                (source_rank source) (db_observations db k)))"
    and "db_images (record_message_observations db xs source) k =
           (case List.find (\<lambda>x. item_key x = k) xs of None \<Rightarrow> db_images db k
            | Some x \<Rightarrow> Some \<lparr>is_photo_id = em_photo_id x,
                is_order = (case em_media_order x of Some n \<Rightarrow> n | None \<Rightarrow> sequence_of (f db) x), is_eligible = em_photo_eligible x\<rparr>)"
proof -
  let ?db1 = "snd (if \<exists>x \<in> set xs. em_observation_order x = None then allocate_observation_order db else (0, db))"
  have run: "record_message_observations db xs source = fold (record_observation source (f db)) xs ?db1"
    by (cases "\<exists>x \<in> set xs. em_observation_order x = None")
      (simp_all add: record_message_observations_def f_def allocate_observation_order_def del: not_None_eq)
  have base: "db_observations ?db1 = db_observations db" "db_images ?db1 = db_images db"
    by (simp_all add: allocate_observation_order_def)
  show "db_observations (record_message_observations db xs source) k =
           (case List.find (\<lambda>x. item_key x = k) xs of None \<Rightarrow> db_observations db k
            | Some x \<Rightarrow> Some (upsert_observation (case em_body_order x of Some n \<Rightarrow> n | None \<Rightarrow> sequence_of (f db) x)
                (source_rank source) (db_observations db k)))"
    unfolding run
    by (subst fold_at_key[where key = item_key, OF record_tables(1) assms(1)]) (simp only: base)
  show "db_images (record_message_observations db xs source) k =
           (case List.find (\<lambda>x. item_key x = k) xs of None \<Rightarrow> db_images db k
            | Some x \<Rightarrow> Some \<lparr>is_photo_id = em_photo_id x,
                is_order = (case em_media_order x of Some n \<Rightarrow> n | None \<Rightarrow> sequence_of (f db) x), is_eligible = em_photo_eligible x\<rparr>)"
    unfolding run
    by (subst fold_at_key[where key = item_key, OF record_tables(2) assms(1)]) (simp only: base)
qed

lemma record_all_frame [simp]:
  "db_messages (record_message_observations db xs source) = db_messages db"
  "db_index (record_message_observations db xs source) = db_index db"
  "db_versions (record_message_observations db xs source) = db_versions db"
  "db_nonchannel (record_message_observations db xs source) = db_nonchannel db"
  "db_sequence (record_message_observations db xs source) =
     (if \<exists>x \<in> set xs. em_observation_order x = None then db_sequence db + 1 else db_sequence db)"
  by (simp_all add: record_message_observations_def allocate_observation_order_def split_beta fold_frames)

lemma insert_tables:
  fixes ru db source items
  defines "f \<equiv> fallback_order db source items" and "db' \<equiv> snd (insert_messages_with_fts ru source items db)"
  shows "db_messages db' k = (case accepted_at db source items k of None \<Rightarrow> db_messages db k
           | Some x \<Rightarrow> Some (written_row (projected ru db x)))"
    and "db_observations db' k = (case accepted_at db source items k of None \<Rightarrow> db_observations db k
           | Some x \<Rightarrow> Some (upsert_observation
               (case em_body_order (preserve_newer_received_media db x) of Some n \<Rightarrow> n | None \<Rightarrow> sequence_of f x)
               (source_rank source) (db_observations db k)))"
    and "db_images db' k = (case accepted_at db source items k of None \<Rightarrow> db_images db k
           | Some x \<Rightarrow> let y = preserve_newer_received_media db x in Some \<lparr>is_photo_id = em_photo_id y,
               is_order = (case em_media_order y of Some n \<Rightarrow> n | None \<Rightarrow> sequence_of f x), is_eligible = em_photo_eligible y\<rparr>)"
    and "db_index db' k = (case accepted_at db source items k of None \<Rightarrow> db_index db k
           | Some x \<Rightarrow> let t = sm_text (em_message (projected ru db x)) in
               if fts_refresh_needed ru (db_messages db k) (db_index db k) t then Some (ru_stem ru t) else db_index db k)"
    and "db_nonchannel db' = db_nonchannel db" and "db_versions db' = db_versions db"
    and "db_sequence db \<le> db_sequence db'"
proof -
  let ?as = "accepted_message_bundles db items source"
  let ?xs = "map (preserve_newer_received_media db) ?as"
  have dist: "distinct (map item_key ?xs)" "distinct (map item_key (map (projected ru db) ?as))"
    using accepted_distinct[of db items source] by (simp_all add: comp_def)
  have seq: "(\<exists>x \<in> set ?xs. em_observation_order x = None) = (\<exists>x \<in> set ?as. em_observation_order x = None)" by auto
  note find = find_map_key[of item_key "preserve_newer_received_media db", OF item_key_preserved(1)]
    find_map_key[of item_key "projected ru db", OF projected_key] find_accepted
  note base = record_all_tables[OF dist(1)]
  have f: "f = (if \<exists>x \<in> set ?xs. em_observation_order x = None then db_sequence db + 1 else 0)"
    by (simp add: f_def fallback_order_def)
  define mid where "mid = (if ?xs = [] then db else record_message_observations db ?xs source)"
  have run: "db' = fold (write_message_row ru db) (map (projected ru db) ?as)
      (fold (clear_transcription ru) (map (preserve_transcribed_text db) ?xs) mid)"
    by (simp add: db'_def insert_pipeline mid_def Let_def)
  have mid: "db_messages mid = db_messages db" "db_index mid = db_index db" "db_versions mid = db_versions db"
    "db_nonchannel mid = db_nonchannel db"
    by (simp_all add: mid_def)
  show "db_messages db' k = (case accepted_at db source items k of None \<Rightarrow> db_messages db k
           | Some x \<Rightarrow> Some (written_row (projected ru db x)))"
    unfolding run
    by (subst fold_at_key[where key = item_key, OF write_tables(1) dist(2)])
      (simp add: find fold_frames mid split: option.split)
  show "db_index db' k = (case accepted_at db source items k of None \<Rightarrow> db_index db k
           | Some x \<Rightarrow> let t = sm_text (em_message (projected ru db x)) in
               if fts_refresh_needed ru (db_messages db k) (db_index db k) t then Some (ru_stem ru t) else db_index db k)"
    unfolding run
    by (subst fold_at_key[where key = item_key, OF write_tables(2) dist(2)])
      (simp add: find fold_frames mid Let_def split: option.split)
  show "db_nonchannel db' = db_nonchannel db" "db_versions db' = db_versions db"
    by (simp_all add: run fold_frames mid)
  have obs: "db_observations db' = db_observations mid" "db_images db' = db_images mid" "db_sequence db' = db_sequence mid"
    by (simp_all add: run fold_frames)
  show "db_observations db' k = (case accepted_at db source items k of None \<Rightarrow> db_observations db k
           | Some x \<Rightarrow> Some (upsert_observation
               (case em_body_order (preserve_newer_received_media db x) of Some n \<Rightarrow> n | None \<Rightarrow> sequence_of f x)
               (source_rank source) (db_observations db k)))"
    using find(3)[of k db items source] find(1)[of k ?as]
    by (auto simp: obs mid_def record_all_tables(1)[OF dist(1)] f sequence_of_def split: option.split)
  show "db_images db' k = (case accepted_at db source items k of None \<Rightarrow> db_images db k
           | Some x \<Rightarrow> let y = preserve_newer_received_media db x in Some \<lparr>is_photo_id = em_photo_id y,
               is_order = (case em_media_order y of Some n \<Rightarrow> n | None \<Rightarrow> sequence_of f x), is_eligible = em_photo_eligible y\<rparr>)"
    using find(3)[of k db items source] find(1)[of k ?as]
    by (auto simp: obs mid_def record_all_tables(2)[OF dist(1)] f sequence_of_def Let_def split: option.split)
  show "db_sequence db \<le> db_sequence db'"
    by (auto simp: obs mid_def)
qed

section \<open>Deletions\<close>

lemma put_unit_keys: "set (od_keys (fold (\<lambda>i d. od_put i () d) xs d)) = set xs \<union> set (od_keys d)"
  by (induction xs arbitrary: d) (auto simp: od_keys_put)

lemma put_unit_distinct: "distinct (od_keys d) \<Longrightarrow> distinct (od_keys (fold (\<lambda>i d. od_put i () d) xs d))"
  by (induction xs arbitrary: d) (auto simp: od_put_distinct)

lemma validated_ids [simp]: "set (validated_message_ids ids) = {i \<in> set ids. 0 < i}"
  "distinct (validated_message_ids ids)"
proof -
  have nil: "od_keys [] = []" by (simp add: od_keys_def)
  show "set (validated_message_ids ids) = {i \<in> set ids. 0 < i}"
    unfolding validated_message_ids_def put_unit_keys nil by auto
  show "distinct (validated_message_ids ids)"
    unfolding validated_message_ids_def by (rule put_unit_distinct) (simp add: nil)
qed

lemma record_deletions_tables:
  fixes d ids db
  defines "db' \<equiv> snd (record_message_deletions d ids db)"
  shows "db_observations db' k = (if fst k = d \<and> snd k \<in> set ids \<and> 0 < snd k \<and> \<not> already_deleted db k
      then Some (tombstone (db_sequence db + 1) (db_observations db k)) else db_observations db k)"
    and "db_messages db' = db_messages db" and "db_index db' = db_index db" and "db_images db' = db_images db"
    and "db_versions db' = db_versions db" and "db_nonchannel db' = db_nonchannel db"
    and "db_sequence db \<le> db_sequence db'"
proof -
  let ?ms = "filter (\<lambda>m. \<not> already_deleted db (d, m)) (validated_message_ids ids)"
  let ?f = "\<lambda>m s. s\<lparr>db_observations := (db_observations s)((d, m) \<mapsto> tombstone (db_sequence db + 1) (db_observations s (d, m)))\<rparr>"
  have run: "db' = (if ?ms = [] then db else fold ?f ?ms (db\<lparr>db_sequence := db_sequence db + 1\<rparr>))"
    by (simp add: db'_def record_message_deletions_def allocate_observation_order_def Let_def)
  show "db_messages db' = db_messages db" "db_index db' = db_index db" "db_images db' = db_images db"
    "db_versions db' = db_versions db" "db_nonchannel db' = db_nonchannel db" "db_sequence db \<le> db_sequence db'"
    by (simp_all add: run fold_frames)
  have at: "db_observations (?f m s) j = (if j = (d, m) then Some (tombstone (db_sequence db + 1) (db_observations s j))
      else db_observations s j)" for m s j by simp
  have dist: "distinct (map (Pair d) ?ms)" by (simp add: distinct_map inj_on_def)
  have find: "List.find (\<lambda>m. (d, m) = k) ms = (if fst k = d \<and> snd k \<in> set ms then Some (snd k) else None)" for ms
    by (cases k, induction ms) auto
  have "db_observations (fold ?f ?ms s) k = (if fst k = d \<and> snd k \<in> set ?ms
      then Some (tombstone (db_sequence db + 1) (db_observations s k)) else db_observations s k)" for s
    using fold_at_key[of db_observations ?f "Pair d" "\<lambda>_ _ v. Some (tombstone (db_sequence db + 1) v)", OF at dist, of s k]
    by (simp add: find)
  from this[of "db\<lparr>db_sequence := db_sequence db + 1\<rparr>"]
  have "db_observations db' k = (if fst k = d \<and> snd k \<in> set ?ms
      then Some (tombstone (db_sequence db + 1) (db_observations db k)) else db_observations db k)"
    by (cases "?ms = []") (simp_all add: run)
  then show "db_observations db' k = (if fst k = d \<and> snd k \<in> set ids \<and> 0 < snd k \<and> \<not> already_deleted db k
      then Some (tombstone (db_sequence db + 1) (db_observations db k)) else db_observations db k)"
    by (cases k) auto
qed

lemma mark_tables:
  fixes d m t db
  defines "db1 \<equiv> snd (record_message_deletions d [m] db)" and "db' \<equiv> snd (mark_message_deleted d m t db)"
  shows "db_messages db' k = (if k = (d, m) \<and> 0 < m then map_option
      (\<lambda>r. if mr_is_deleted r then r else r\<lparr>mr_is_deleted := True, mr_deleted_at := Some t\<rparr>) (db_messages db k)
      else db_messages db k)"
    and "db_index db' k = (if k = (d, m) \<and> 0 < m then None else db_index db k)"
    and "db_observations db' = db_observations db1" and "db_images db' = db_images db"
    and "db_versions db' = db_versions db" and "db_nonchannel db' = db_nonchannel db"
    and "db_sequence db \<le> db_sequence db'"
proof -
  have ids: "fst (record_message_deletions d [m] db) = (if 0 < m then [m] else [])"
    by (simp add: record_message_deletions_def validated_message_ids_def od_keys_def allocate_observation_order_def Let_def)
  note t = record_deletions_tables[where d = d and ids = "[m]" and db = db, folded db1_def]
  have run: "db' = (if 0 < m then db1\<lparr>db_messages :=
      (if case db_messages db (d, m) of Some r \<Rightarrow> \<not> mr_is_deleted r | None \<Rightarrow> False
       then (db_messages db)((d, m) := map_option
          (\<lambda>r. r\<lparr>mr_is_deleted := True, mr_deleted_at := Some t\<rparr>) (db_messages db (d, m)))
       else db_messages db), db_index := (db_index db)((d, m) := None)\<rparr> else db1)"
    using ids t(2,3) by (auto simp: db'_def mark_message_deleted_def db1_def split_beta Let_def)
  show "db_messages db' k = (if k = (d, m) \<and> 0 < m then map_option
      (\<lambda>r. if mr_is_deleted r then r else r\<lparr>mr_is_deleted := True, mr_deleted_at := Some t\<rparr>) (db_messages db k)
      else db_messages db k)"
    by (cases "db_messages db (d, m)") (auto simp: run t)
  show "db_index db' k = (if k = (d, m) \<and> 0 < m then None else db_index db k)"
    "db_observations db' = db_observations db1" "db_images db' = db_images db"
    "db_versions db' = db_versions db" "db_nonchannel db' = db_nonchannel db" "db_sequence db \<le> db_sequence db'"
    using t by (auto simp: run)
qed

lemma nonchannel_tables:
  fixes ids t db
  defines "db' \<equiv> snd (record_nonchannel_deletions ids t db)"
  shows "db_nonchannel db' m = (if db_nonchannel db m = None \<and> m \<in> set ids \<and> 0 < m then Some t else db_nonchannel db m)"
    and "db_messages db' = db_messages db" and "db_index db' = db_index db" and "db_images db' = db_images db"
    and "db_versions db' = db_versions db" and "db_observations db' = db_observations db" and "db_sequence db' = db_sequence db"
proof -
  let ?f = "\<lambda>m s. s\<lparr>db_nonchannel := (if db_nonchannel s m = None then (db_nonchannel s)(m \<mapsto> t) else db_nonchannel s)\<rparr>"
  have run: "db' = fold ?f (validated_message_ids ids) db"
    by (simp add: db'_def record_nonchannel_deletions_def Let_def)
  have at: "db_nonchannel (?f m s) j = (if j = m then (if db_nonchannel s j = None then Some t else db_nonchannel s j)
      else db_nonchannel s j)" for m s j by simp
  have find: "List.find (\<lambda>m. m = j) ms = (if j \<in> set ms then Some j else None)" for ms and j :: int
    by (induction ms) auto
  show "db_nonchannel db' m = (if db_nonchannel db m = None \<and> m \<in> set ids \<and> 0 < m then Some t else db_nonchannel db m)"
    using fold_at_key[of db_nonchannel ?f "\<lambda>m. m" "\<lambda>_ _ v. if v = None then Some t else v", OF at, of "validated_message_ids ids" db m]
    by (auto simp: run find)
  show "db_messages db' = db_messages db" "db_index db' = db_index db" "db_images db' = db_images db"
    "db_versions db' = db_versions db" "db_observations db' = db_observations db" "db_sequence db' = db_sequence db"
    by (simp_all add: run fold_frames)
qed

section \<open>The start-up writer\<close>

lemma backfill_frame [simp]:
  "db_observations (backfill_outgoing_dm i db) = db_observations db" "db_images (backfill_outgoing_dm i db) = db_images db"
  "db_transcripts (backfill_outgoing_dm i db) = db_transcripts db" "db_index (backfill_outgoing_dm i db) = db_index db"
  "db_versions (backfill_outgoing_dm i db) = db_versions db" "db_nonchannel (backfill_outgoing_dm i db) = db_nonchannel db"
  "db_sequence (backfill_outgoing_dm i db) = db_sequence db"
  by (simp_all add: backfill_outgoing_dm_def)

lemma backfill_none [simp]: "db_messages (backfill_outgoing_dm i db) k = None \<longleftrightarrow> db_messages db k = None"
  by (simp add: backfill_outgoing_dm_def)

lemma backfill_row:
  assumes "db_messages (backfill_outgoing_dm i db) k = Some r'"
  obtains r where "db_messages db k = Some r"
    "r' = r \<or> 0 < fst k \<and> (\<exists>s. i = Some s \<and> sm_sender_id (mr_message r) = Some s)
       \<and> r' = r\<lparr>mr_message := mr_message r\<lparr>sm_out := True\<rparr>\<rparr>"
  using assms by (auto simp: backfill_outgoing_dm_def split: if_splits)

text \<open>Nothing but the direction of a row changes, so the statements about texts and deletions go through.\<close>

lemma backfill_columns:
  assumes "db_messages (backfill_outgoing_dm i db) k = Some r'"
  obtains r where "db_messages db k = Some r" "mr_is_deleted r' = mr_is_deleted r" "mr_deleted_at r' = mr_deleted_at r"
    "sm_text (mr_message r') = sm_text (mr_message r)" "sm_edit_date (mr_message r') = sm_edit_date (mr_message r)"
    "sm_body (mr_message r') = sm_body (mr_message r)" "sm_media (mr_message r') = sm_media (mr_message r)"
  using assms by (elim backfill_row) auto

end
