(* ===== verification/Message_Props.thy ===== *)
theory Message_Props
  imports Message_Tables
begin

text \<open>
  What holds of the message tables under any run of their writers: tombstones are final, rows
  stay and their edit versions never go back, the full-text index follows the rows, and an
  observed message is either stored or known to be deleted.
\<close>

section \<open>Writers as insertions\<close>

definition inserting :: "MessageRules \<Rightarrow> MessageDb \<Rightarrow> MessageDb \<Rightarrow> bool" where
  "inserting ru db db' \<longleftrightarrow>
     (\<exists>v source items. db' = snd (insert_messages_with_fts ru source items (db\<lparr>db_versions := v\<rparr>)))"

lemma insertingI [intro]:
  "inserting ru db (snd (insert_messages_with_fts ru source items (db\<lparr>db_versions := v\<rparr>)))"
  "inserting ru db (snd (insert_messages_with_fts ru source items db))"
proof -
  show *: "inserting ru db (snd (insert_messages_with_fts ru source items (db\<lparr>db_versions := v\<rparr>)))" for v
    unfolding inserting_def by blast
  from *[of "db_versions db"] show "inserting ru db (snd (insert_messages_with_fts ru source items db))" by simp
qed

lemma edited_cases:
  "snd (persist_edited_message ru source item e db) = db \<or> inserting ru db (snd (persist_edited_message ru source item e db))"
  by (auto simp: persist_edited_message_def Let_def split: option.split)

lemma received_cases:
  "snd (persist_received_message ru item db) = db \<or> inserting ru db (snd (persist_received_message ru item db))"
proof -
  let ?item = "item\<lparr>em_invalidate_image := False\<rparr>"
  have "snd (persist_received_message ru item db) \<in> {db, snd (insert_messages_with_fts ru RS_HISTORY [?item] db),
      snd (persist_edited_message ru RS_MESSAGE_EDIT ?item (sm_edit_date (em_message item)) db)}"
    by (simp add: persist_received_message_def Let_def split_beta split: option.split)
  then show ?thesis using edited_cases[of ru RS_MESSAGE_EDIT ?item "sm_edit_date (em_message item)" db] by auto
qed

section \<open>Writers of transcriptions\<close>

definition gone :: "MessageDb \<Rightarrow> msg_key \<Rightarrow> bool" where
  "gone db k \<longleftrightarrow> has_nonchannel_deletion db (fst k) (snd k)
     \<or> stored_message_deleted (db_observations db k) (db_messages db k)"

definition retext :: "MessageRules \<Rightarrow> msg_key \<Rightarrow> MessageRow \<Rightarrow> string \<Rightarrow> MessageDb \<Rightarrow> MessageDb" where
  "retext ru k r text db = db\<lparr>db_messages := (db_messages db)(k \<mapsto> r\<lparr>mr_message := mr_message r\<lparr>sm_text := Some text\<rparr>\<rparr>),
     db_index := (db_index db)(k \<mapsto> ru_stem ru (Some text))\<rparr>"

definition transcribing :: "MessageRules \<Rightarrow> MessageDb \<Rightarrow> MessageDb \<Rightarrow> bool" where
  "transcribing ru db db' \<longleftrightarrow> (\<exists>t n. db' = db\<lparr>db_transcripts := t, db_sequence := n\<rparr>
     \<or> (\<exists>k r text. db_messages db k = Some r \<and> \<not> gone db k \<and> db' = retext ru k r text (db\<lparr>db_transcripts := t, db_sequence := n\<rparr>)))"

lemma transcribing_frame: "transcribing ru db (db\<lparr>db_transcripts := t, db_sequence := n\<rparr>)"
  unfolding transcribing_def by blast

lemma transcribing_retext:
  "db_messages db k = Some r \<Longrightarrow> \<not> gone db k \<Longrightarrow> transcribing ru db (retext ru k r text (db\<lparr>db_transcripts := t, db_sequence := n\<rparr>))"
  unfolding transcribing_def by blast

lemma transcribing_refl: "transcribing ru db db"
  using transcribing_frame[where t = "db_transcripts db" and n = "db_sequence db" and db = db] by simp

lemma upsert_frame: "\<exists>t n. snd (upsert_message_transcription k text i t0 order delivered db) = db\<lparr>db_transcripts := t, db_sequence := n\<rparr>"
proof -
  have "snd (upsert_message_transcription k text i t0 order delivered db) = db\<lparr>db_transcripts :=
      db_transcripts (snd (upsert_message_transcription k text i t0 order delivered db)), db_sequence :=
      db_sequence (snd (upsert_message_transcription k text i t0 order delivered db))\<rparr>"
    by (simp add: upsert_message_transcription_def delivered_observation_order_def allocate_observation_order_def Let_def
        split: option.split)
  then show ?thesis by blast
qed

lemma live_media:
  assumes "hydration_observation_current db k order" "undeleted_media db k = Some m"
  shows "\<not> gone db k"
  using assms by (auto simp: hydration_observation_current_def undeleted_media_def gone_def stored_message_deleted_def
      split: option.splits if_splits)

lemma transcribing_text:
  assumes "\<not> gone db k" "db1 = db\<lparr>db_transcripts := t, db_sequence := n\<rparr>"
  shows "transcribing ru db (case read_message_text db k of None \<Rightarrow> db1
     | Some old \<Rightarrow> if old \<noteq> Some text then snd (persist_transcribed_text ru k old text db1) else db1)"
proof (cases "db_messages db k")
  case None
  then show ?thesis using transcribing_frame by (simp add: read_message_text_def assms(2))
next
  case (Some r)
  have "snd (persist_transcribed_text ru k (sm_text (mr_message r)) text db1) = retext ru k r text db1"
    if "sm_text (mr_message r) \<noteq> Some text"
    using that by (simp add: persist_transcribed_text_def retext_def Some assms(2))
  then show ?thesis using transcribing_frame[of ru db] transcribing_retext[OF Some assms(1)]
    by (simp add: read_message_text_def Some assms(2))
qed

lemma transcribed_cases:
  "transcribing ru db (snd (apply_message_transcription ru k text i t0 delivered db))"
  "transcribing ru db (snd (stage_message_transcription k text i t0 delivered db))"
  "transcribing ru db (snd (apply_message_transcription_if_absent ru enrolled k text i t0 order delivered db))"
proof -
  show "transcribing ru db (snd (apply_message_transcription ru k text i t0 delivered db))"
  proof -
    let ?u = "upsert_message_transcription k (py_strip text) i t0 None delivered db"
    obtain t n where u: "snd ?u = db\<lparr>db_transcripts := t, db_sequence := n\<rparr>" using upsert_frame by blast
    have frame: "transcribing ru db (snd ?u)" unfolding u by (rule transcribing_frame)
    show ?thesis
      using transcribing_refl[of ru db] frame transcribing_text[OF live_media[of db k None] u, of _ ru "py_strip text"]
      unfolding apply_message_transcription_def by (auto simp: split_beta split: option.split)
  qed
  show "transcribing ru db (snd (stage_message_transcription k text i t0 delivered db))"
  proof -
    let ?u = "upsert_message_transcription k (py_strip text) i t0 None delivered db"
    obtain t n where u: "snd ?u = db\<lparr>db_transcripts := t, db_sequence := n\<rparr>" using upsert_frame by blast
    have "transcribing ru db (snd ?u)" unfolding u by (rule transcribing_frame)
    then show ?thesis
      using transcribing_refl[of ru db] by (simp add: stage_message_transcription_def)
  qed
  show "transcribing ru db (snd (apply_message_transcription_if_absent ru enrolled k text i t0 order delivered db))"
  proof -
    let ?u = "upsert_message_transcription k (py_strip text) i t0 order delivered db"
    obtain t n where u: "snd ?u = db\<lparr>db_transcripts := t, db_sequence := n\<rparr>" using upsert_frame by blast
    have frame: "transcribing ru db (snd ?u)" unfolding u by (rule transcribing_frame)
    have same: "read_message_text (snd ?u) k = read_message_text db k" by (simp add: u read_message_text_def)
    show ?thesis
      using transcribing_refl[of ru db] frame transcribing_text[OF live_media[of db k order] u, of _ ru "py_strip text"]
      unfolding apply_message_transcription_if_absent_def
      by (auto simp: split_beta same split: option.split)
  qed
qed

text \<open>
  A relation between the database before and after holds of every writer when it holds of an
  insertion, of the three deletions, of the start-up marking and of a new text for a live row, and
  does not see former texts, transcription facts and counters.
\<close>

lemma message_step_rel:
  assumes refl: "\<And>db. R db db"
    and insert: "\<And>source items db v. R db (snd (insert_messages_with_fts ru source items (db\<lparr>db_versions := v\<rparr>)))"
    and alloc: "\<And>db. R db (snd (allocate_observation_order db))"
    and deletions: "\<And>d ids db. R db (snd (record_message_deletions d ids db))"
    and mark: "\<And>d m t db. R db (snd (mark_message_deleted d m t db))"
    and nonchannel: "\<And>ids t db. R db (snd (record_nonchannel_deletions ids t db))"
    and facts: "\<And>db t n. R db (db\<lparr>db_transcripts := t, db_sequence := n\<rparr>)"
    and retexts: "\<And>db t n k r text. db_messages db k = Some r \<Longrightarrow> \<not> gone db k \<Longrightarrow>
      R db (retext ru k r text (db\<lparr>db_transcripts := t, db_sequence := n\<rparr>))"
    and backfill: "\<And>i db. e = MO_Backfill_Out i \<Longrightarrow> R db (backfill_outgoing_dm i db)"
  shows "R db (message_step ru e db)"
proof (cases e)
  case (MO_Insert source items)
  show ?thesis using insert[of db source items "db_versions db"] by (simp add: MO_Insert)
next
  case (MO_Edit source item date)
  show ?thesis using edited_cases[of ru source item date db] refl insert by (auto simp: MO_Edit inserting_def)
next
  case (MO_Received item)
  show ?thesis using received_cases[of ru item db] refl insert by (auto simp: MO_Received inserting_def)
next
  case (MO_Transcribed k s i t delivered)
  show ?thesis using transcribed_cases(1)[of ru db k s i t delivered] facts retexts by (auto simp: MO_Transcribed transcribing_def)
next
  case (MO_Staged k s i t delivered)
  show ?thesis using transcribed_cases(2)[of ru db k s i t delivered] facts retexts by (auto simp: MO_Staged transcribing_def)
next
  case (MO_Transcribe_Absent enrolled k s i t order delivered)
  show ?thesis using transcribed_cases(3)[of ru db enrolled k s i t order delivered] facts retexts
    by (auto simp: MO_Transcribe_Absent transcribing_def)
qed (simp_all add: assms)

section \<open>Tombstones are final\<close>

lemma gone_not_current: "gone db (item_key x) \<Longrightarrow> \<not> is_current_observation db x source"
  by (auto simp: gone_def is_current_observation_def item_key_def msg_key_def Let_def)

lemma accepted_at_versions [simp]: "accepted_at (db\<lparr>db_versions := v\<rparr>) source items k = accepted_at db source items k"
proof -
  have "accept_bundle (db\<lparr>db_versions := v\<rparr>) source = accept_bundle db source"
    by (intro ext) (simp add: accept_bundle_def is_current_observation_def has_nonchannel_deletion_def)
  then show ?thesis by (simp add: accepted_at_def)
qed

lemma gone_not_accepted: "gone db k \<Longrightarrow> accepted_at db source items k = None"
  by (auto simp: accepted_at_None gone_not_current)

text \<open>
  What a run may do to the row of a deleted message: nothing, but for the marking of a private
  message that one of the accounts \<open>S\<close> sent; a row marked deleted keeps its mark and its time.
\<close>

fun row_kept :: "int set \<Rightarrow> msg_key \<Rightarrow> MessageRow option \<Rightarrow> MessageRow option \<Rightarrow> bool" where
  "row_kept S k None r' = (r' = None)"
| "row_kept S k (Some r) None = False"
| "row_kept S k (Some r) (Some r') =
     ((mr_message r' = mr_message r
        \<or> 0 < fst k \<and> sm_sender_id (mr_message r) \<in> Some ` S \<and> mr_message r' = (mr_message r)\<lparr>sm_out := True\<rparr>)
      \<and> (mr_is_deleted r \<longrightarrow> mr_is_deleted r' \<and> mr_deleted_at r' = mr_deleted_at r))"

lemma row_kept_refl [simp]: "row_kept S k r r"
  by (cases r) simp_all

lemma row_kept_trans: "row_kept S k a b \<Longrightarrow> row_kept T k b c \<Longrightarrow> row_kept (S \<union> T) k a c"
  by (cases a; cases b; cases c) auto

definition tombstone_kept :: "int set \<Rightarrow> msg_key \<Rightarrow> MessageDb \<Rightarrow> MessageDb \<Rightarrow> bool" where
  "tombstone_kept S k db db' \<longleftrightarrow> (gone db k \<longrightarrow> gone db' k \<and> row_kept S k (db_messages db k) (db_messages db' k))"

definition started_accounts :: "message_op list \<Rightarrow> int set" where
  "started_accounts es = {s. MO_Backfill_Out (Some s) \<in> set es}"

lemma tombstone_kept_step: "tombstone_kept (started_accounts [e]) k db (message_step ru e db)"
proof (rule message_step_rel)
  fix db source items v
  show "tombstone_kept (started_accounts [e]) k db (snd (insert_messages_with_fts ru source items (db\<lparr>db_versions := v\<rparr>)))"
    using gone_not_accepted[of db k source items]
    by (auto simp: tombstone_kept_def insert_tables gone_def has_nonchannel_deletion_def)
next
  fix d ids and db :: MessageDb
  show "tombstone_kept (started_accounts [e]) k db (snd (record_message_deletions d ids db))"
    by (auto simp: tombstone_kept_def record_deletions_tables gone_def has_nonchannel_deletion_def
        stored_message_deleted_def tombstone_def split: option.splits)
next
  fix d m t and db :: MessageDb
  have "row_kept (started_accounts [e]) k (db_messages db k) (db_messages (snd (mark_message_deleted d m t db)) k)"
    unfolding mark_tables(1) by (cases "db_messages db k") auto
  then show "tombstone_kept (started_accounts [e]) k db (snd (mark_message_deleted d m t db))"
    by (auto simp: tombstone_kept_def record_deletions_tables mark_tables gone_def has_nonchannel_deletion_def
        stored_message_deleted_def tombstone_def split: option.splits)
next
  fix ids t and db :: MessageDb
  show "tombstone_kept (started_accounts [e]) k db (snd (record_nonchannel_deletions ids t db))"
    by (auto simp: tombstone_kept_def nonchannel_tables gone_def has_nonchannel_deletion_def)
next
  fix db t n j r new_text
  assume "db_messages db j = Some r" "\<not> gone db j"
  then show "tombstone_kept (started_accounts [e]) k db (retext ru j r new_text (db\<lparr>db_transcripts := t, db_sequence := n\<rparr>))"
    by (auto simp: tombstone_kept_def retext_def gone_def has_nonchannel_deletion_def)
next
  fix i and db :: MessageDb
  assume e: "e = MO_Backfill_Out i"
  show "tombstone_kept (started_accounts [e]) k db (backfill_outgoing_dm i db)"
    by (cases "db_messages db k") (auto simp: e tombstone_kept_def gone_def has_nonchannel_deletion_def
        stored_message_deleted_def backfill_outgoing_dm_def started_accounts_def)
qed (auto simp: tombstone_kept_def allocate_observation_order_def gone_def has_nonchannel_deletion_def)

lemma tombstone_kept_run: "tombstone_kept (started_accounts es) k db (run_ops (message_step ru) es db)"
proof (induction es arbitrary: db)
  case Nil
  show ?case by (simp add: tombstone_kept_def)
next
  case (Cons e es)
  have "started_accounts (e # es) = started_accounts [e] \<union> started_accounts es"
    by (auto simp: started_accounts_def)
  then show ?case
    using tombstone_kept_step[of e k db ru] Cons.IH[of "message_step ru e db"] row_kept_trans
    by (fastforce simp: tombstone_kept_def)
qed

lemma run_rel:
  assumes "\<And>db. R db db" "\<And>a b c. R a b \<Longrightarrow> R b c \<Longrightarrow> R a c" "\<And>e db. R db (step e db)"
  shows "R db (run_ops step es db)"
  by (induction es arbitrary: db) (use assms in \<open>auto, blast\<close>)

text \<open> C4. A tombstone is final: once a message is known to be deleted, by its own observation or
  by a deletion in the account's nonchannel namespace, no run of writers brings it back, creates
  a row for it or changes its stored row, whatever observations arrive later, with one exception:
  a start of the daemon marks a private message that its account sent as outgoing, deleted or
  not. A row marked deleted keeps its mark and the time of its deletion.\<close>

theorem tombstone_is_final:
  fixes ru es db
  assumes "gone db k"
  defines "db' \<equiv> run_ops (message_step ru) es db"
  shows "gone db' k \<and> row_kept (started_accounts es) k (db_messages db k) (db_messages db' k)"
  using tombstone_kept_run[of es k db ru] assms(1) unfolding db'_def tombstone_kept_def by blast

section \<open>Rows stay and edit versions never go back\<close>

definition rows_advance :: "msg_key \<Rightarrow> MessageDb \<Rightarrow> MessageDb \<Rightarrow> bool" where
  "rows_advance k db db' \<longleftrightarrow> (\<forall>r. db_messages db k = Some r \<longrightarrow> (\<exists>r'. db_messages db' k = Some r'
     \<and> int_or_zero (sm_edit_date (mr_message r)) \<le> int_or_zero (sm_edit_date (mr_message r'))))"

lemma current_version:
  assumes "is_current_observation db x source" "db_messages db (item_key x) = Some r"
  shows "int_or_zero (sm_edit_date (mr_message r)) \<le> int_or_zero (sm_edit_date (em_message x))"
  using assms by (auto simp: is_current_observation_def Let_def split: if_splits)

lemma rows_advance_step: "rows_advance k db (message_step ru e db)"
proof (rule message_step_rel)
  fix db source items v
  show "rows_advance k db (snd (insert_messages_with_fts ru source items (db\<lparr>db_versions := v\<rparr>)))"
    using accepted_at_cases[of db source items k] current_version[of db _ source]
    by (auto simp: rows_advance_def insert_tables written_row_def split: option.split)
next
  fix d m t and db :: MessageDb
  show "rows_advance k db (snd (mark_message_deleted d m t db))"
    by (auto simp: rows_advance_def mark_tables)
next
  fix i and db :: MessageDb
  show "rows_advance k db (backfill_outgoing_dm i db)"
    by (auto simp: rows_advance_def backfill_outgoing_dm_def)
qed (auto simp: rows_advance_def allocate_observation_order_def record_deletions_tables nonchannel_tables retext_def)

text \<open> C38. No run of writers loses a row of the archive, and the edit version of a row never goes
  back, in whatever order observations and deletions arrive.\<close>

theorem rows_never_regress:
  assumes "db_messages db k = Some r"
  shows "\<exists>r'. db_messages (run_ops (message_step ru) es db) k = Some r'
    \<and> int_or_zero (sm_edit_date (mr_message r)) \<le> int_or_zero (sm_edit_date (mr_message r'))"
proof -
  have "rows_advance k db (run_ops (message_step ru) es db)"
  proof (rule run_rel[where R = "rows_advance k", OF _ _ rows_advance_step])
    fix a b c assume "rows_advance k a b" "rows_advance k b c"
    then show "rows_advance k a c" unfolding rows_advance_def by (meson order_trans)
  qed (simp add: rows_advance_def)
  then show ?thesis using assms by (simp add: rows_advance_def)
qed

section \<open>The tables agree with each other\<close>

definition indexed_text :: "MessageRules \<Rightarrow> MessageRow option \<Rightarrow> string option" where
  "indexed_text ru row = (case row of None \<Rightarrow> None
     | Some r \<Rightarrow> if mr_is_deleted r then None else Some (ru_stem ru (sm_text (mr_message r))))"

definition tables_agree :: "MessageRules \<Rightarrow> MessageDb \<Rightarrow> msg_key \<Rightarrow> bool" where
  "tables_agree ru db k \<longleftrightarrow> db_index db k = indexed_text ru (db_messages db k)
     \<and> (db_messages db k \<noteq> None \<longrightarrow> db_observations db k \<noteq> None \<and> db_images db k \<noteq> None)
     \<and> (\<forall>r. db_messages db k = Some r \<longrightarrow> mr_is_deleted r \<longrightarrow> already_deleted db k)
     \<and> (db_observations db k \<noteq> None \<longrightarrow> db_messages db k \<noteq> None \<or> already_deleted db k)"

lemma tables_agree_insert:
  assumes "tables_agree ru db k"
  shows "tables_agree ru (snd (insert_messages_with_fts ru source items (db\<lparr>db_versions := v\<rparr>))) k"
proof (cases "accepted_at db source items k")
  case None
  then show ?thesis using assms
    by (simp add: tables_agree_def insert_tables already_deleted_def)
next
  case (Some x)
  let ?db = "db\<lparr>db_versions := v\<rparr>"
  have "is_current_observation db x source" "item_key x = k" using accepted_at_cases[OF Some] by auto
  then have live: "\<not> gone db k" using gone_not_current[of db x source] by auto
  then have "db_messages db k = Some r \<Longrightarrow> \<not> mr_is_deleted r" for r
    by (auto simp: gone_def stored_message_deleted_def)
  then show ?thesis using assms
    by (auto simp: tables_agree_def insert_tables Some indexed_text_def written_row_def fts_refresh_needed_def Let_def
        split: option.splits)
qed

lemma tables_agree_step: "tables_agree ru db k \<longrightarrow> tables_agree ru (message_step ru e db) k"
proof (rule message_step_rel[where R = "\<lambda>db db'. tables_agree ru db k \<longrightarrow> tables_agree ru db' k"])
  fix db source items v
  show "tables_agree ru db k \<longrightarrow> tables_agree ru (snd (insert_messages_with_fts ru source items (db\<lparr>db_versions := v\<rparr>))) k"
    by (rule impI, rule tables_agree_insert)
next
  fix d ids and db :: MessageDb
  show "tables_agree ru db k \<longrightarrow> tables_agree ru (snd (record_message_deletions d ids db)) k"
    by (auto simp: tables_agree_def record_deletions_tables already_deleted_def tombstone_def split: option.splits)
next
  fix d m t and db :: MessageDb
  show "tables_agree ru db k \<longrightarrow> tables_agree ru (snd (mark_message_deleted d m t db)) k"
    by (auto simp: tables_agree_def mark_tables record_deletions_tables already_deleted_def tombstone_def
        indexed_text_def split: option.splits)
next
  fix db t n j r new_text
  assume "db_messages db j = Some r" "\<not> gone db j"
  then show "tables_agree ru db k \<longrightarrow> tables_agree ru (retext ru j r new_text (db\<lparr>db_transcripts := t, db_sequence := n\<rparr>)) k"
    by (auto simp: tables_agree_def retext_def gone_def stored_message_deleted_def indexed_text_def already_deleted_def)
next
  fix i and db :: MessageDb
  show "tables_agree ru db k \<longrightarrow> tables_agree ru (backfill_outgoing_dm i db) k"
    by (cases "db_messages db k") (auto simp: tables_agree_def backfill_outgoing_dm_def indexed_text_def already_deleted_def)
qed (auto simp: tables_agree_def nonchannel_tables allocate_observation_order_def already_deleted_def)

interpretation tables: op_system "message_step ru" "\<lambda>db. \<forall>k. tables_agree ru db k" for ru
  by unfold_locales (use tables_agree_step in blast)

text \<open> C39. The search index never goes stale: after any run of writers from the empty database, the
  full-text entry of a message is the stemmed text of its row, and a deleted or absent message
  has none.\<close>

theorem index_follows_rows:
  "db_index (run_ops (message_step ru) es empty_message_db) k
     = indexed_text ru (db_messages (run_ops (message_step ru) es empty_message_db) k)"
proof -
  have "\<forall>k. tables_agree ru empty_message_db k"
    by (simp add: tables_agree_def empty_message_db_def indexed_text_def)
  from tables.run_invar[OF this] have "tables_agree ru (run_ops (message_step ru) es empty_message_db) k" by blast
  then show ?thesis by (simp add: tables_agree_def)
qed

section \<open>Observed messages are known_message for\<close>

definition known_message :: "MessageDb \<Rightarrow> msg_key \<Rightarrow> bool" where
  "known_message db k \<longleftrightarrow> db_messages db k \<noteq> None \<or> gone db k"

lemma known_message_step: "known_message db k \<Longrightarrow> known_message (message_step ru e db) k"
  using rows_advance_step[of k db ru e] tombstone_kept_step[of e k db ru]
  by (auto simp: known_message_def rows_advance_def tombstone_kept_def)

lemma insert_makes_known:
  assumes "\<forall>k. tables_agree ru db k" "x \<in> set items"
  shows "known_message (snd (insert_messages_with_fts ru source items db)) (item_key x)"
proof (cases "known_message db (item_key x)")
  case True
  from known_message_step[OF this, of ru "MO_Insert source items"] show ?thesis by simp
next
  case False
  then have "db_messages db (item_key x) = None" "\<not> gone db (item_key x)"
    by (auto simp: known_message_def)
  moreover have "db_observations db (item_key x) = None"
  proof -
    from assms(1) have "tables_agree ru db (item_key x)" by blast
    then show ?thesis using False
      by (cases "db_observations db (item_key x)")
        (auto simp: tables_agree_def known_message_def already_deleted_def gone_def stored_message_deleted_def)
  qed
  ultimately have "is_current_observation db x source"
    by (auto simp: is_current_observation_def gone_def item_key_def msg_key_def follows_stored_observation_def Let_def)
  then have "accepted_at db source items (item_key x) \<noteq> None"
    using assms(2) by (auto simp: accepted_at_None)
  then show ?thesis by (auto simp: known_message_def insert_tables)
qed

section \<open>A run\<close>

definition sample_bundle :: "string \<Rightarrow> int option \<Rightarrow> int \<Rightarrow> ExtractedMessage" where
  "sample_bundle text edit order = \<lparr>em_message = \<lparr>sm_dialog_id = 7, sm_message_id = 3, sm_text = Some text,
     sm_edit_date = edit, sm_media = (None, None), sm_body = [], sm_out = False, sm_sender_id = Some 42, sm_rest = []\<rparr>,
     em_observation_order = Some order, em_media_order = None, em_body_order = None,
     em_photo_id = None, em_photo_eligible = True, em_invalidate_image = True\<rparr>"

definition sample_rules :: MessageRules where
  "sample_rules = \<lparr>ru_stem = (\<lambda>t. case t of Some s \<Rightarrow> s | None \<Rightarrow> []), ru_canonical = (\<lambda>_. False),
     ru_transcribable = (\<lambda>_. False), ru_transcribable_pair = (\<lambda>_. False),
     ru_transcribable_sql = (\<lambda>_. False), ru_keep_history = (\<lambda>_. True)\<rparr>"

definition sample_row :: MessageRow where
  "sample_row = \<lparr>mr_message = em_message (sample_bundle ''hi'' (Some 5) 1), mr_is_deleted = False, mr_deleted_at = None\<rparr>"

definition sample_db :: MessageDb where
  "sample_db = empty_message_db\<lparr>db_messages := [(7, 3) \<mapsto> sample_row],
     db_observations := [(7, 3) \<mapsto> \<lparr>ob_order = 1, ob_is_deleted = True, ob_rank = 20\<rparr>]\<rparr>"

text \<open>A later edit of a deleted message and a start of the daemon leave its text and its edit date.\<close>

definition late_ops :: "message_op list" where
  "late_ops = [MO_Edit RS_MESSAGE_EDIT (sample_bundle ''bye'' (Some 9) 8) (Some 9), MO_Backfill_Out (Some 42)]"

lemma tombstone_is_final_witness:
  "\<exists>r. db_messages (run_ops (message_step sample_rules) late_ops sample_db) (7, 3) = Some r
     \<and> sm_text (mr_message r) = Some ''hi'' \<and> sm_edit_date (mr_message r) = Some 5"
proof -
  have "gone sample_db (7, 3)" by (simp add: gone_def stored_message_deleted_def sample_db_def)
  from tombstone_is_final[OF this, of sample_rules late_ops]
  have "row_kept (started_accounts late_ops) (7, 3) (Some sample_row)
      (db_messages (run_ops (message_step sample_rules) late_ops sample_db) (7, 3))"
    by (simp add: sample_db_def)
  then show ?thesis
    by (cases "db_messages (run_ops (message_step sample_rules) late_ops sample_db) (7, 3)")
      (auto simp: sample_row_def sample_bundle_def)
qed

lemma rows_never_regress_witness:
  "\<exists>r'. db_messages (message_step sample_rules (MO_Insert RS_HISTORY [sample_bundle ''was'' None 9]) sample_db) (7, 3) = Some r'
     \<and> 5 \<le> int_or_zero (sm_edit_date (mr_message r'))"
proof -
  have "db_messages sample_db (7, 3) = Some sample_row" by (simp add: sample_db_def)
  from rows_never_regress[OF this, of sample_rules "[MO_Insert RS_HISTORY [sample_bundle ''was'' None 9]]"]
  show ?thesis by (simp add: sample_row_def sample_bundle_def int_or_zero_def)
qed
end
