(* ===== verification/Message_Transcripts.thy ===== *)
theory Message_Transcripts
  imports Message_Props
begin

text \<open>
  Transcription facts and the rows they are shown in (\<^verbatim>\<open>messages/sqlite_hydration.py\<close> and the
  overlay of \<^verbatim>\<open>messages/sqlite_bundle.py\<close>): a row with transcribable media shows the text of its
  transcription fact after any run of writers, also when the fact came before the row.
\<close>

definition transcript_shown :: "MessageRules \<Rightarrow> MessageDb \<Rightarrow> msg_key \<Rightarrow> bool" where
  "transcript_shown ru db k \<longleftrightarrow> (\<forall>r t. db_messages db k = Some r \<longrightarrow> db_transcripts db k = Some t \<longrightarrow>
     ru_canonical ru (sm_media (mr_message r)) \<longrightarrow> ru_transcribable ru (sm_media (mr_message r)) \<longrightarrow>
     sm_text (mr_message r) = Some (tr_text t))"

section \<open>Insertions\<close>

lemma clear_transcripts: "db_transcripts (clear_transcription ru x db) j =
    (if j = item_key x then (if drops_transcription ru x then None else db_transcripts db j) else db_transcripts db j)"
  by (simp add: clear_transcription_def)

lemma insert_transcripts:
  "db_transcripts (snd (insert_messages_with_fts ru source items db)) k = (case accepted_at db source items k of
     None \<Rightarrow> db_transcripts db k
   | Some x \<Rightarrow> if drops_transcription ru (preserve_transcribed_text db (preserve_newer_received_media db x)) then None
       else db_transcripts db k)"
proof -
  let ?as = "accepted_message_bundles db items source"
  let ?p = "\<lambda>x. preserve_transcribed_text db (preserve_newer_received_media db x)"
  have keys: "map item_key (map ?p ?as) = map item_key ?as" by (simp add: comp_def)
  have dist: "distinct (map item_key (map ?p ?as))" by (simp only: keys accepted_distinct)
  have rec: "db_transcripts (record_message_observations db xs source) = db_transcripts db" for xs
    by (simp add: record_message_observations_def split_beta fold_other[where tab = db_transcripts]
        allocate_observation_order_def)
  have find: "List.find (\<lambda>x. item_key x = k) (map ?p ?as) = map_option ?p (accepted_at db source items k)"
    using find_map_key[of item_key ?p k ?as] by (simp add: find_accepted)
  have run: "db_transcripts (snd (insert_messages_with_fts ru source items db)) =
      db_transcripts (fold (clear_transcription ru) (map ?p ?as)
        (if ?as = [] then db else record_message_observations db (map (preserve_newer_received_media db) ?as) source))"
    by (simp add: insert_pipeline Let_def fold_other[where tab = db_transcripts] comp_def)
  show ?thesis
    unfolding run
    by (subst fold_at_key[where key = item_key, OF clear_transcripts dist]) (simp add: find rec split: option.split)
qed

lemma inserted_row_shown:
  assumes "accepted_at db source items k = Some x"
  shows "transcript_shown ru (snd (insert_messages_with_fts ru source items db)) k"
proof -
  let ?y = "preserve_transcribed_text db (preserve_newer_received_media db x)"
  have key: "item_key ?y = k" using accepted_at_cases[OF assms] by simp
  have "em_message (overlay_transcription ru db ?y) = (case db_transcripts db k of
      Some t \<Rightarrow> if ru_canonical ru (sm_media (em_message ?y)) \<and> ru_transcribable ru (sm_media (em_message ?y))
        then (em_message ?y)\<lparr>sm_text := Some (tr_text t)\<rparr> else em_message ?y
    | None \<Rightarrow> em_message ?y)"
    unfolding overlay_transcription_def Let_def key by (simp split: option.split)
  then show ?thesis
    by (auto simp: transcript_shown_def insert_tables insert_transcripts assms written_row_def projected_def
        split: if_splits option.splits)
qed

lemma shown_insert:
  assumes "transcript_shown ru db k"
  shows "transcript_shown ru (snd (insert_messages_with_fts ru source items (db\<lparr>db_versions := v\<rparr>))) k"
proof (cases "accepted_at db source items k")
  case None
  then show ?thesis using assms by (simp add: transcript_shown_def insert_tables insert_transcripts)
next
  case (Some x)
  show ?thesis by (rule inserted_row_shown) (simp add: Some)
qed

lemma shown_inserting: "inserting ru db db' \<Longrightarrow> transcript_shown ru db k \<Longrightarrow> transcript_shown ru db' k"
  unfolding inserting_def by (elim exE) (simp only: shown_insert)

section \<open>Transcriptions\<close>

definition transcribed_db :: "MessageRules \<Rightarrow> msg_key \<Rightarrow> string \<Rightarrow> MessageDb \<Rightarrow> MessageDb \<Rightarrow> bool" where
  "transcribed_db ru k text db db' \<longleftrightarrow>
     (db_messages db' = db_messages db \<and> db_transcripts db' = db_transcripts db)
     \<or> (\<exists>t. db_transcripts db' = (db_transcripts db)(k \<mapsto> t) \<and> tr_text t = text
        \<and> db_messages db' = (db_messages db)(k := map_option
            (\<lambda>r. r\<lparr>mr_message := (mr_message r)\<lparr>sm_text := Some text\<rparr>\<rparr>) (db_messages db k)))"

lemma strip_strip [simp]: "py_strip (py_strip s) = py_strip s"
proof -
  have drop: "dropWhile P (rev (dropWhile P (rev (dropWhile P xs)))) = rev (dropWhile P (rev (dropWhile P xs)))" for P and xs :: string
  proof (cases "dropWhile P xs")
    case (Cons x ys)
    then have "\<not> P x" by (metis hd_dropWhile list.distinct(1) list.sel(1))
    then show ?thesis unfolding Cons by (induction ys rule: rev_induct) auto
  next
    case Nil
    show ?thesis by (simp only: Nil rev.simps dropWhile.simps)
  qed
  show ?thesis unfolding py_strip_def
    by (simp add: drop)
qed

lemma upsert_tables:
  assumes "upsert_message_transcription k text i t0 order delivered db = (newer, db1)"
  shows "db_messages db1 = db_messages db"
    and "if newer then \<exists>t. db_transcripts db1 = (db_transcripts db)(k \<mapsto> t) \<and> tr_text t = py_strip text
      else db_transcripts db1 = db_transcripts db"
  using assms
  by (auto simp: upsert_message_transcription_def delivered_observation_order_def allocate_observation_order_def Let_def
      split: option.splits if_splits)

lemma row_text_same: "r\<lparr>mr_message := (mr_message r)\<lparr>sm_text := sm_text (mr_message r)\<rparr>\<rparr> = (r :: MessageRow)"
  by simp

lemma transcribed_persist:
  assumes "upsert_message_transcription k text i t0 order delivered db = (True, db1)" "read_message_text db k = Some old"
  shows "transcribed_db ru k (py_strip text) db
    (if old \<noteq> Some (py_strip text) then snd (persist_transcribed_text ru k old (py_strip text) db1) else db1)"
proof -
  from upsert_tables[OF assms(1)] obtain t where t: "db_messages db1 = db_messages db"
    "db_transcripts db1 = (db_transcripts db)(k \<mapsto> t)" "tr_text t = py_strip text" by auto
  from assms(2) obtain r where r: "db_messages db k = Some r" "sm_text (mr_message r) = old"
    by (auto simp: read_message_text_def)
  show ?thesis
  proof (cases "old = Some (py_strip text)")
    case True
    have "db_messages db = (db_messages db)(k := map_option
        (\<lambda>r. r\<lparr>mr_message := (mr_message r)\<lparr>sm_text := Some (py_strip text)\<rparr>\<rparr>) (db_messages db k))"
      using r True row_text_same[of r] by (intro ext) simp
    then show ?thesis using t True by (auto simp: transcribed_db_def)
  next
    case False
    then show ?thesis using t by (auto simp: transcribed_db_def persist_transcribed_text_def)
  qed
qed

lemma transcribed_nothing: "transcribed_db ru k text db db"
  by (simp add: transcribed_db_def)

lemma transcribed_failed:
  "upsert_message_transcription k s i t0 order delivered db = (False, db1) \<Longrightarrow> transcribed_db ru k s' db db1"
  using upsert_tables[of k s i t0 order delivered db False db1] by (simp add: transcribed_db_def)

lemma transcribed_absent:
  assumes "upsert_message_transcription k text i t0 order delivered db = (newer, db1)" "read_message_text db k = None"
  shows "transcribed_db ru k (py_strip text) db db1"
proof -
  have "db_messages db k = None" using assms(2) by (simp add: read_message_text_def)
  then have "(db_messages db)(k := map_option f (db_messages db k)) = db_messages db" for f by (intro ext) simp
  then show ?thesis using upsert_tables[OF assms(1)] by (cases newer) (auto simp: transcribed_db_def)
qed

lemma transcribed_shown:
  assumes "transcribed_db ru k text db db'" "transcript_shown ru db j"
  shows "transcript_shown ru db' j"
  using assms by (auto simp: transcribed_db_def transcript_shown_def split: if_splits)

lemma transcribed_result:
  assumes "upsert_message_transcription k (py_strip s) i t0 order delivered db = (newer, db1)"
  shows "transcribed_db ru k (py_strip s) db (if \<not> newer then db1 else case read_message_text db k of None \<Rightarrow> db1
     | Some old \<Rightarrow> if old \<noteq> Some (py_strip s) then snd (persist_transcribed_text ru k old (py_strip s) db1) else db1)"
proof (cases newer)
  case True
  show ?thesis
  proof (cases "read_message_text db k")
    case None
    then show ?thesis using transcribed_absent[OF assms None, of ru] True by simp
  next
    case (Some old)
    have "upsert_message_transcription k (py_strip s) i t0 order delivered db = (True, db1)" using assms True by simp
    from transcribed_persist[OF this Some, of ru, unfolded strip_strip] show ?thesis using True Some by simp
  qed
next
  case False
  then show ?thesis using transcribed_failed[of k "py_strip s" i t0 order delivered db db1 ru] assms by simp
qed

lemma transcription_steps:
  "transcribed_db ru k (py_strip s) db (message_step ru (MO_Transcribed k s i t0 delivered) db)"
  "transcribed_db ru k (py_strip s) db (message_step ru (MO_Staged k s i t0 delivered) db)"
  "transcribed_db ru k (py_strip s) db (message_step ru (MO_Transcribe_Absent enrolled k s i t0 order delivered) db)"
proof -
  obtain n db1 where u: "upsert_message_transcription k (py_strip s) i t0 None delivered db = (n, db1)" by fastforce
  obtain n' db2 where v: "upsert_message_transcription k (py_strip s) i t0 order delivered db = (n', db2)" by fastforce
  note tu = transcribed_result[OF u, of ru] and tv = transcribed_result[OF v, of ru]
  show "transcribed_db ru k (py_strip s) db (message_step ru (MO_Transcribed k s i t0 delivered) db)"
    using tu by (simp add: transcribed_nothing apply_message_transcription_def u split: if_splits)
  show "transcribed_db ru k (py_strip s) db (message_step ru (MO_Staged k s i t0 delivered) db)"
    using tu by (cases "read_message_text db k") (simp_all add: transcribed_nothing stage_message_transcription_def u split: if_splits)
  have "read_message_text db2 k = read_message_text db k" using upsert_tables(1)[OF v] by (simp add: read_message_text_def)
  then show "transcribed_db ru k (py_strip s) db (message_step ru (MO_Transcribe_Absent enrolled k s i t0 order delivered) db)"
    using tv by (simp add: transcribed_nothing apply_message_transcription_if_absent_def v split: if_splits)
qed

lemma mark_transcripts [simp]:
  "db_transcripts (snd (mark_message_deleted d m t0 db)) = db_transcripts db"
  "db_transcripts (snd (record_message_deletions d ids db)) = db_transcripts db"
  "db_transcripts (snd (record_nonchannel_deletions ids t0 db)) = db_transcripts db"
proof -
  show *: "db_transcripts (snd (record_message_deletions d ids db)) = db_transcripts db" for d ids and db :: MessageDb
    by (simp add: record_message_deletions_def allocate_observation_order_def Let_def fold_other[where tab = db_transcripts])
  show "db_transcripts (snd (mark_message_deleted d m t0 db)) = db_transcripts db"
    using *[of d "[m]" db] by (simp add: mark_message_deleted_def Let_def split_beta)
  show "db_transcripts (snd (record_nonchannel_deletions ids t0 db)) = db_transcripts db"
    by (simp add: record_nonchannel_deletions_def Let_def fold_other[where tab = db_transcripts])
qed

lemma shown_step: "transcript_shown ru db k \<Longrightarrow> transcript_shown ru (message_step ru e db) k"
proof (cases e)
  case (MO_Insert source items)
  assume "transcript_shown ru db k"
  from shown_insert[OF this, of source items "db_versions db"] show ?thesis by (simp add: MO_Insert)
next
  case (MO_Edit source item date)
  assume "transcript_shown ru db k"
  then show ?thesis using edited_cases[of ru source item date db] shown_inserting[of ru db _ k] by (auto simp: MO_Edit)
next
  case (MO_Received item)
  assume "transcript_shown ru db k"
  then show ?thesis using received_cases[of ru item db] shown_inserting[of ru db _ k] by (auto simp: MO_Received)
next
  case (MO_Mark_Deleted d m t)
  assume "transcript_shown ru db k"
  then show ?thesis by (auto simp: MO_Mark_Deleted transcript_shown_def mark_tables)
next
  case (MO_Transcribed j s i t delivered)
  assume "transcript_shown ru db k"
  then show ?thesis unfolding MO_Transcribed by (rule transcribed_shown[OF transcription_steps(1)])
next
  case (MO_Staged j s i t delivered)
  assume "transcript_shown ru db k"
  then show ?thesis unfolding MO_Staged by (rule transcribed_shown[OF transcription_steps(2)])
next
  case (MO_Transcribe_Absent enrolled j s i t order delivered)
  assume "transcript_shown ru db k"
  then show ?thesis unfolding MO_Transcribe_Absent by (rule transcribed_shown[OF transcription_steps(3)])
next
  case (MO_Backfill_Out i)
  assume "transcript_shown ru db k"
  then show ?thesis
    by (cases "db_messages db k") (auto simp: MO_Backfill_Out transcript_shown_def backfill_outgoing_dm_def split: option.splits)
qed (simp_all add: transcript_shown_def record_deletions_tables nonchannel_tables allocate_observation_order_def)

interpretation transcripts: op_system "message_step ru" "\<lambda>db. \<forall>k. transcript_shown ru db k" for ru
  by unfold_locales (use shown_step in blast)

text \<open> C37. A voice message shows its transcription: after any run of writers from the empty database
  a row with canonical transcribable media and a transcription fact has the text of that fact, whether the
  fact came before or after the row, from an update or from the worker, and whatever pages and
  edits without a text came later.\<close>

theorem transcription_is_shown:
  assumes "db_messages (run_ops (message_step ru) es empty_message_db) k = Some r"
    and "db_transcripts (run_ops (message_step ru) es empty_message_db) k = Some t"
    and "ru_canonical ru (sm_media (mr_message r))" "ru_transcribable ru (sm_media (mr_message r))"
  shows "sm_text (mr_message r) = Some (tr_text t)"
proof -
  have "\<forall>k. transcript_shown ru empty_message_db k" by (simp add: transcript_shown_def empty_message_db_def)
  from transcripts.run_invar[OF this] have "transcript_shown ru (run_ops (message_step ru) es empty_message_db) k" by blast
  then show ?thesis using assms by (simp add: transcript_shown_def)
qed

definition voice_rules :: MessageRules where
  "voice_rules = \<lparr>ru_stem = (\<lambda>t. case t of None \<Rightarrow> [] | Some s \<Rightarrow> s), ru_canonical = (\<lambda>_. True),
     ru_transcribable = (\<lambda>m. fst m = Some ''voice''), ru_transcribable_pair = (\<lambda>m. fst m = Some ''voice''),
     ru_transcribable_sql = (\<lambda>m. fst m = Some ''voice''), ru_keep_history = (\<lambda>_. True)\<rparr>"

definition voice_bundle :: "int \<Rightarrow> ExtractedMessage" where
  "voice_bundle order = \<lparr>em_message = \<lparr>sm_dialog_id = 7, sm_message_id = 3, sm_text = None, sm_edit_date = None,
       sm_media = (Some ''voice'', Some ''{}''), sm_body = [], sm_out = False, sm_sender_id = None, sm_rest = []\<rparr>,
     em_observation_order = Some order, em_media_order = None, em_body_order = None,
     em_photo_id = None, em_photo_eligible = False, em_invalidate_image = True\<rparr>"

definition voice_ops :: "message_op list" where
  "voice_ops = [MO_Staged (7, 3) '' so what '' 11 100 (Some 1), MO_Insert RS_HISTORY [voice_bundle 2]]"

theorem transcription_is_shown_witness:
  "\<exists>r. db_messages (run_ops (message_step voice_rules) voice_ops empty_message_db) (7, 3) = Some r
     \<and> sm_text (mr_message r) = Some ''so what''"
proof -
  let ?db = "run_ops (message_step voice_rules) voice_ops empty_message_db"
  have "map_option (\<lambda>r. fst (sm_media (mr_message r))) (db_messages ?db (7, 3)) = Some (Some ''voice'')" by code_simp
  then obtain r where r: "db_messages ?db (7, 3) = Some r" "fst (sm_media (mr_message r)) = Some ''voice''" by auto
  have "map_option tr_text (db_transcripts ?db (7, 3)) = Some ''so what''" by code_simp
  then obtain t where t: "db_transcripts ?db (7, 3) = Some t" "tr_text t = ''so what''" by auto
  have "sm_text (mr_message r) = Some (tr_text t)"
    by (rule transcription_is_shown[OF r(1) t(1)]) (simp_all add: voice_rules_def r(2))
  then show ?thesis using r(1) t(2) by simp
qed

end
