(* ===== verification/Message_Converge.thy ===== *)
theory Message_Converge
  imports Message_Transcripts
begin

text \<open>
  Observations of one message reach the archive in any order: pages, edits, lookups and received
  messages race each other, with the writes to other messages between them. When they are
  consistent snapshots of the server (later snapshots do not have earlier edit versions, and one
  edit version has one body) and the message is neither deleted nor transcribed meanwhile, the
  stored message is that of the newest snapshot whatever the order of arrival.
\<close>

section \<open>Consistent snapshots\<close>

definition order_of :: "ExtractedMessage \<Rightarrow> int" where
  "order_of x = int_or_zero (em_observation_order x)"

definition edit_of :: "ExtractedMessage \<Rightarrow> int option" where
  "edit_of x = sm_edit_date (em_message x)"

text \<open>What the row keeps of a snapshot, and what of its photo.\<close>

definition message_snapshot :: "StoredMessage \<Rightarrow> string option \<times> int option \<times> string \<times> media" where
  "message_snapshot m = (sm_text m, sm_edit_date m, sm_body m, sm_media m)"

text \<open>
  A bundle as the extraction builds it for a reserved order, with a text that no stored text
  or transcription replaces.
\<close>

definition fresh_bundle :: "ExtractedMessage \<Rightarrow> bool" where
  "fresh_bundle x \<longleftrightarrow> em_observation_order x \<noteq> None \<and> em_media_order x = None \<and> em_body_order x = None
     \<and> edit_of x \<noteq> Some 0
     \<and> \<not> (blank_text (sm_text (em_message x)) \<and> fst (sm_media (em_message x)) \<in> {Some ''contact'', Some ''other'', Some ''voice''})"

definition consistent :: "ExtractedMessage set \<Rightarrow> bool" where
  "consistent S \<longleftrightarrow> (\<forall>x \<in> S. fresh_bundle x) \<and> inj_on order_of S
     \<and> (\<forall>x \<in> S. \<forall>y \<in> S. order_of x < order_of y \<longrightarrow> int_or_zero (edit_of x) \<le> int_or_zero (edit_of y))
     \<and> (\<forall>x \<in> S. \<forall>y \<in> S. edit_of x = edit_of y \<longrightarrow> edit_of x \<noteq> None \<longrightarrow>
          sm_text (em_message x) = sm_text (em_message y) \<and> sm_body (em_message x) = sm_body (em_message y))"

text \<open>The tables hold the snapshot \<open>x\<close>, the newest of the processed set \<open>S\<close>.\<close>

definition holds_newest :: "MessageDb \<Rightarrow> msg_key \<Rightarrow> ExtractedMessage \<Rightarrow> ExtractedMessage set \<Rightarrow> bool" where
  "holds_newest db k x S \<longleftrightarrow> x \<in> S \<and> (\<forall>y \<in> S. order_of y \<le> order_of x) \<and> \<not> gone db k \<and> db_transcripts db k = None
     \<and> (\<exists>r. db_messages db k = Some r \<and> message_snapshot (mr_message r) = message_snapshot (em_message x))
     \<and> db_images db k = Some \<lparr>is_photo_id = em_photo_id x, is_order = order_of x, is_eligible = em_photo_eligible x\<rparr>
     \<and> (\<exists>o'. db_observations db k = Some o' \<and> (ob_order o' = order_of x
          \<or> (\<exists>y \<in> S. ob_order o' = order_of y \<and> edit_of y = edit_of x \<and> edit_of x \<noteq> None)))"

text \<open>A page holds at most one observation of a message.\<close>

definition page_observation :: "msg_key \<Rightarrow> ExtractedMessage list \<Rightarrow> ExtractedMessage list" where
  "page_observation k items = filter (\<lambda>x. item_key x = k) items"

lemma accepted_in_page:
  "page_observation k items = [] \<Longrightarrow> accepted_at db source items k = None"
  "page_observation k items = [x] \<Longrightarrow> accepted_at db source items k = (if is_current_observation db x source then Some x else None)"
proof -
  assume "page_observation k items = []"
  then show "accepted_at db source items k = None"
    by (auto simp: accepted_at_None page_observation_def filter_empty_conv)
next
  assume "page_observation k items = [x]"
  then have "\<forall>y. y \<in> set items \<and> item_key y = k \<longleftrightarrow> y = x"
    unfolding page_observation_def by (metis (mono_tags, lifting) empty_iff filter_cong filter_id_conv list.set(1) list.set_intros(1) set_ConsD set_filter mem_Collect_eq)
  then show "accepted_at db source items k = (if is_current_observation db x source then Some x else None)"
    using accepted_at_cases[of db source items k] accepted_at_None[of db source items k]
    by (cases "accepted_at db source items k") auto
qed

lemma transcripts_stay:
  assumes "db_transcripts db k = None"
  shows "db_transcripts (snd (insert_messages_with_fts ru source items db)) k = None"
proof -
  have clear: "db_transcripts s k = None \<Longrightarrow> db_transcripts (fold (clear_transcription ru) xs s) k = None" for xs s
    by (induction xs arbitrary: s) (simp_all add: clear_transcription_def)
  have rec: "db_transcripts (record_message_observations db xs source) k = None" for xs
    using assms by (simp add: record_message_observations_def split_beta fold_other[where tab = db_transcripts]
        allocate_observation_order_def)
  show ?thesis
    using assms rec by (simp add: insert_pipeline Let_def fold_other[where tab = db_transcripts] clear)
qed

lemma projected_message:
  assumes "db_transcripts db (item_key x) = None"
    and "\<not> (blank_text (sm_text (em_message y)) \<and> fst (sm_media (em_message y)) \<in> {Some ''contact'', Some ''other'', Some ''voice''})
      \<or> (\<forall>r. db_messages db (item_key x) = Some r \<longrightarrow> sm_text (mr_message r) = sm_text (em_message y))"
    and y: "y = preserve_newer_received_media db x"
  shows "em_message (projected ru db x) = em_message y"
proof -
  have "em_message (preserve_transcribed_text db y) = em_message y"
    using assms(2) by (auto simp: preserve_transcribed_text_def y Let_def split: option.splits)
  then show ?thesis
    using assms(1) by (simp add: projected_def y[symmetric] overlay_transcription_def) (simp add: y)
qed

section \<open>One more snapshot\<close>

lemma first_snapshot:
  assumes "db_messages db k = None" "db_observations db k = None" "db_images db k = None" "db_transcripts db k = None"
    and "\<not> gone db k" "fresh_bundle x" "item_key x = k" "page_observation k items = [x]"
  shows "holds_newest (snd (insert_messages_with_fts ru source items db)) k x {x}"
proof -
  have "is_current_observation db x source"
    using assms by (auto simp: is_current_observation_def gone_def item_key_def msg_key_def follows_stored_observation_def Let_def)
  then have at: "accepted_at db source items k = Some x"
    using accepted_in_page(2)[OF assms(8)] by simp
  have keep: "preserve_newer_received_media db x = x"
    using assms by (simp add: preserve_newer_received_media_def)
  have "em_message (projected ru db x) = em_message x"
    by (rule projected_message[OF _ _ keep[symmetric]]) (use assms in auto)
  then show ?thesis
    using assms transcripts_stay[OF assms(4)]
    by (auto simp: holds_newest_def insert_tables at keep written_row_def fresh_bundle_def order_of_def int_or_zero_def
        sequence_of_def upsert_observation_def gone_def has_nonchannel_deletion_def stored_message_deleted_def Let_def)
qed

lemma holds_newest_unaccepted:
  assumes "holds_newest db k x S" "accepted_at db source items k = None" "\<forall>z \<in> T. order_of z \<le> order_of x"
  shows "holds_newest (snd (insert_messages_with_fts ru source items db)) k x (S \<union> T)"
  using assms transcripts_stay[of db k ru source items]
  by (auto simp: holds_newest_def insert_tables gone_def has_nonchannel_deletion_def)

lemma fresh_order: "fresh_bundle z \<Longrightarrow> em_observation_order z = Some (order_of z)"
  by (auto simp: fresh_bundle_def order_of_def int_or_zero_def)

lemma current_newer:
  assumes "holds_newest db k x S" "consistent (insert z S)" "order_of x < order_of z" "item_key z = k"
  shows "is_current_observation db z source"
proof -
  from assms(1) obtain r o' where r: "db_messages db k = Some r" "message_snapshot (mr_message r) = message_snapshot (em_message x)"
    and o': "db_observations db k = Some o'" "ob_order o' \<le> order_of x" and live: "\<not> gone db k"
    unfolding holds_newest_def by (metis order_refl)
  have "int_or_zero (edit_of x) \<le> int_or_zero (edit_of z)" "fresh_bundle z"
    using assms unfolding consistent_def holds_newest_def by auto
  moreover have "sm_edit_date (mr_message r) = edit_of x" using r(2) by (simp add: message_snapshot_def edit_of_def)
  ultimately show ?thesis
    using r(1) o' live assms(3,4) fresh_order[of z]
    by (auto simp: is_current_observation_def gone_def item_key_def msg_key_def follows_stored_observation_def edit_of_def Let_def)
qed

lemma newer_snapshot:
  assumes "holds_newest db k x S" "consistent (insert z S)" "order_of x < order_of z" "item_key z = k"
    and "page_observation k items = [z]"
  shows "holds_newest (snd (insert_messages_with_fts ru source items db)) k z (insert z S)"
proof -
  let ?y = "preserve_newer_received_media db z"
  from assms(1) obtain r o' where r: "db_messages db k = Some r" "message_snapshot (mr_message r) = message_snapshot (em_message x)"
    and o': "db_observations db k = Some o'" "ob_order o' = order_of x
          \<or> (\<exists>y \<in> S. ob_order o' = order_of y \<and> edit_of y = edit_of x \<and> edit_of x \<noteq> None)"
    and im: "db_images db k = Some \<lparr>is_photo_id = em_photo_id x, is_order = order_of x, is_eligible = em_photo_eligible x\<rparr>"
    and live: "\<not> gone db k" and tr: "db_transcripts db k = None" and x: "x \<in> S" and max: "\<forall>y \<in> S. order_of y \<le> order_of x"
    unfolding holds_newest_def by blast
  have z: "fresh_bundle z" using assms(2) by (simp add: consistent_def)
  note ord = fresh_order[OF z]
  have le: "ob_order o' \<le> order_of x" using o'(2) max x by auto
  have at: "accepted_at db source items k = Some z"
    using accepted_in_page(2)[OF assms(5)] current_newer[OF assms(1-4)] by simp
  have y: "em_message ?y = em_message z" "em_photo_id ?y = em_photo_id z" "em_photo_eligible ?y = em_photo_eligible z"
    "em_media_order ?y = None" "em_body_order ?y = (if received_body_unchanged db z then Some (ob_order o') else None)"
    using z r(1) im assms(3,4) ord o'(1)
    by (auto simp: preserve_newer_received_media_def fresh_bundle_def Let_def)
  have msg: "em_message (projected ru db z) = em_message z"
    unfolding y(1)[symmetric] by (rule projected_message[OF _ _ refl]) (use tr z assms(4) in \<open>auto simp: y fresh_bundle_def\<close>)
  have same: "edit_of z = edit_of x" "edit_of x \<noteq> None" if "received_body_unchanged db z"
    using that r assms(4) by (auto simp: received_body_unchanged_def edit_of_def message_snapshot_def Let_def split: option.splits)
  have "holds_newest (snd (insert_messages_with_fts ru source items db)) k z (insert z S) \<longleftrightarrow>
      (\<forall>y \<in> S. order_of y \<le> order_of z) \<and>
      (ob_order (upsert_observation (case em_body_order ?y of Some n \<Rightarrow> n | None \<Rightarrow> order_of z) (source_rank source) (Some o')) = order_of z
       \<or> (\<exists>y \<in> insert z S. ob_order (upsert_observation (case em_body_order ?y of Some n \<Rightarrow> n | None \<Rightarrow> order_of z)
            (source_rank source) (Some o')) = order_of y \<and> edit_of y = edit_of z \<and> edit_of z \<noteq> None))"
    using live transcripts_stay[OF tr, of ru source items] o'(1)
    by (auto simp: holds_newest_def insert_tables at msg written_row_def y sequence_of_def ord Let_def
        gone_def has_nonchannel_deletion_def stored_message_deleted_def upsert_observation_def split: option.splits)
  moreover have "\<forall>y \<in> S. order_of y \<le> order_of z" using max assms(3) by force
  ultimately show ?thesis
    using same o'(2) x le assms(3) by (auto simp: y upsert_observation_def)
qed

lemma older_snapshot:
  assumes "holds_newest db k x S" "consistent (insert z S)" "order_of z < order_of x" "order_of z \<notin> order_of ` S"
    and "item_key z = k" "page_observation k items = [z]"
  shows "holds_newest (snd (insert_messages_with_fts ru source items db)) k x (insert z S)"
proof (cases "is_current_observation db z source")
  case False
  then have "accepted_at db source items k = None"
    using accepted_in_page(2)[OF assms(6)] by simp
  from holds_newest_unaccepted[OF assms(1) this, of "{z}"] assms(3) show ?thesis by simp
next
  case True
  let ?y = "preserve_newer_received_media db z"
  from assms(1) obtain r o' where r: "db_messages db k = Some r" "message_snapshot (mr_message r) = message_snapshot (em_message x)"
    and o': "db_observations db k = Some o'" "ob_order o' = order_of x
          \<or> (\<exists>y \<in> S. ob_order o' = order_of y \<and> edit_of y = edit_of x \<and> edit_of x \<noteq> None)"
    and im: "db_images db k = Some \<lparr>is_photo_id = em_photo_id x, is_order = order_of x, is_eligible = em_photo_eligible x\<rparr>"
    and live: "\<not> gone db k" and tr: "db_transcripts db k = None" and x: "x \<in> S" and max: "\<forall>y \<in> S. order_of y \<le> order_of x"
    unfolding holds_newest_def by blast
  have z: "fresh_bundle z" using assms(2) by (simp add: consistent_def)
  note ord = fresh_order[OF z]
  have re: "sm_edit_date (mr_message r) = edit_of x" using r(2) by (simp add: message_snapshot_def edit_of_def)
  have older: "int_or_zero (edit_of z) \<le> int_or_zero (edit_of x)" using assms(2,3) x unfolding consistent_def by auto
  have ne: "ob_order o' \<noteq> order_of z" using o'(2) x assms(4) by (metis image_eqI)
  have acc: "int_or_zero (edit_of z) = int_or_zero (edit_of x)" "ob_order o' < order_of z"
    using True r(1) older re o'(1) ne assms(5) ord
    by (auto simp: is_current_observation_def follows_stored_observation_def edit_of_def Let_def split: if_splits)
  then have ex: "edit_of x \<noteq> None" using o'(2) assms(3) by auto
  have fx: "fresh_bundle x" using assms(2) x by (simp add: consistent_def)
  have ez: "edit_of z = edit_of x"
    using acc(1) ex z fx by (auto simp: fresh_bundle_def int_or_zero_def split: option.splits)
  then have body: "sm_text (em_message z) = sm_text (em_message x)" "sm_body (em_message z) = sm_body (em_message x)"
    using assms(2) x ex unfolding consistent_def by (metis insertI1 insertI2)+
  have unchanged: "received_body_unchanged db z"
    using r body ez ex assms(5) by (auto simp: received_body_unchanged_def edit_of_def message_snapshot_def Let_def)
  have y: "em_message ?y = (em_message z)\<lparr>sm_media := sm_media (em_message x)\<rparr>" "em_photo_id ?y = em_photo_id x"
    "em_photo_eligible ?y = em_photo_eligible x" "em_media_order ?y = Some (order_of x)" "em_body_order ?y = Some (ob_order o')"
    using r im assms(3,5) ord o'(1) unchanged acc(2)
    by (auto simp: preserve_newer_received_media_def message_snapshot_def Let_def)
  have at: "accepted_at db source items k = Some z"
    using accepted_in_page(2)[OF assms(6)] True by simp
  have msg: "em_message (projected ru db z) = em_message ?y"
    by (rule projected_message[OF _ _ refl]) (use tr r body assms(5) in \<open>auto simp: y message_snapshot_def\<close>)
  have snap: "message_snapshot (em_message ?y) = message_snapshot (em_message x)"
    using body ez by (simp add: y message_snapshot_def edit_of_def)
  have "ob_order (upsert_observation (ob_order o') (source_rank source) (Some o')) = ob_order o'"
    by (simp add: upsert_observation_def)
  then show ?thesis
    using live transcripts_stay[OF tr, of ru source items] o' x max assms(3) snap
    by (auto simp: holds_newest_def insert_tables at msg written_row_def y(2-5) Let_def
        gone_def has_nonchannel_deletion_def stored_message_deleted_def upsert_observation_def split: option.splits)
qed

section \<open>Any order of arrival\<close>

definition unseen :: "MessageDb \<Rightarrow> msg_key \<Rightarrow> bool" where
  "unseen db k \<longleftrightarrow> db_messages db k = None \<and> db_observations db k = None \<and> db_images db k = None
     \<and> db_transcripts db k = None \<and> \<not> gone db k"

definition processed :: "MessageDb \<Rightarrow> msg_key \<Rightarrow> ExtractedMessage set \<Rightarrow> bool" where
  "processed db k S \<longleftrightarrow> S = {} \<and> unseen db k \<or> (\<exists>x. holds_newest db k x S)"

lemma unseen_insert:
  assumes "unseen db k" "accepted_at db source items k = None"
  shows "unseen (snd (insert_messages_with_fts ru source items db)) k"
  using assms transcripts_stay[of db k ru source items]
  by (auto simp: unseen_def insert_tables gone_def has_nonchannel_deletion_def)

lemma processed_page:
  assumes "processed db k S" "page_observation k items = [z]" "consistent (insert z S)" "order_of z \<notin> order_of ` S"
  shows "processed (snd (insert_messages_with_fts ru source items db)) k (insert z S)"
proof (cases "S = {}")
  have key: "item_key z = k" using assms(2) by (auto simp: page_observation_def filter_eq_Cons_iff)
  have z: "fresh_bundle z" using assms(3) by (simp add: consistent_def)
  {
    case True
    then have "unseen db k" using assms(1) by (auto simp: processed_def holds_newest_def)
    then show ?thesis using first_snapshot[OF _ _ _ _ _ z key assms(2)] True
      by (auto simp: processed_def unseen_def)
  next
    case False
    then obtain x where x: "holds_newest db k x S" using assms(1) by (auto simp: processed_def)
    then have "order_of x \<noteq> order_of z" using assms(4) unfolding holds_newest_def by (metis image_eqI)
    then consider "order_of x < order_of z" | "order_of z < order_of x" by linarith
    then show ?thesis
      using newer_snapshot[OF x assms(3) _ key assms(2)] older_snapshot[OF x assms(3) _ assms(4) key assms(2)]
      unfolding processed_def by cases blast+
  }
qed

lemma processed_versions [simp]: "processed (db\<lparr>db_versions := v\<rparr>) k S = processed db k S"
  by (simp add: processed_def unseen_def holds_newest_def gone_def has_nonchannel_deletion_def)

lemma processed_row: "processed db k S \<Longrightarrow> db_messages db k \<noteq> None \<longleftrightarrow> S \<noteq> {}"
  by (auto simp: processed_def unseen_def holds_newest_def)

subsection \<open>What a writer observes of the message\<close>

text \<open>
  An edit of a message the archive has not seen is dropped by the code, so it counts as an
  observation only for a message seen before (\<open>seen\<close>).
\<close>

fun observed :: "msg_key \<Rightarrow> bool \<Rightarrow> message_op \<Rightarrow> ExtractedMessage list" where
  "observed k seen (MO_Insert source items) = page_observation k items"
| "observed k seen (MO_Edit source item date) = (if seen \<and> item_key item = k then [item] else [])"
| "observed k seen (MO_Received item) = (if item_key item = k then [item\<lparr>em_invalidate_image := False\<rparr>] else [])"
| "observed k seen _ = []"

fun observations :: "msg_key \<Rightarrow> bool \<Rightarrow> message_op list \<Rightarrow> ExtractedMessage list" where
  "observations k seen [] = []"
| "observations k seen (e # es) = observed k seen e @ observations k (seen \<or> observed k seen e \<noteq> []) es"

text \<open>
  A writer spares the message when it does not delete it or write a transcription of it; a page
  lists it at most once. Everything may happen to other messages.
\<close>

fun spares :: "msg_key \<Rightarrow> message_op \<Rightarrow> bool" where
  "spares k (MO_Insert source items) = (length (page_observation k items) \<le> 1)"
| "spares k (MO_Mark_Deleted d m t) = ((d, m) \<noteq> k)"
| "spares k (MO_Record_Deletions d ids) = (d \<noteq> fst k \<or> snd k \<notin> set ids)"
| "spares k (MO_Nonchannel ids t) = (is_channel_peer_id (fst k) \<or> snd k \<notin> set ids)"
| "spares k (MO_Transcribed j words i t delivered) = (j \<noteq> k)"
| "spares k (MO_Staged j words i t delivered) = (j \<noteq> k)"
| "spares k (MO_Transcribe_Absent enrolled j words i t order delivered) = (j \<noteq> k)"
| "spares k _ = True"

section \<open>Writers that leave the message alone\<close>

definition same_at :: "msg_key \<Rightarrow> MessageDb \<Rightarrow> MessageDb \<Rightarrow> bool" where
  "same_at k db db' \<longleftrightarrow> gone db' k = gone db k \<and> db_transcripts db' k = db_transcripts db k
     \<and> db_images db' k = db_images db k \<and> db_observations db' k = db_observations db k
     \<and> map_option (message_snapshot \<circ> mr_message) (db_messages db' k) = map_option (message_snapshot \<circ> mr_message) (db_messages db k)"

lemma processed_same:
  assumes "same_at k db db'" "processed db k S"
  shows "processed db' k S"
proof -
  note same = assms(1)[unfolded same_at_def]
  have none: "db_messages db' k = None \<longleftrightarrow> db_messages db k = None"
    using same by (cases "db_messages db k"; cases "db_messages db' k") auto
  have "holds_newest db' k x S" if "holds_newest db k x S" for x
    using that same by (cases "db_messages db' k") (auto simp: holds_newest_def)
  then show ?thesis using assms(2) same none by (auto simp: processed_def unseen_def)
qed

lemma same_refl: "same_at k db db"
  by (simp add: same_at_def)

lemma same_insert:
  "accepted_at db source items k = None \<Longrightarrow> same_at k db (snd (insert_messages_with_fts ru source items (db\<lparr>db_versions := v\<rparr>)))"
  by (simp add: same_at_def insert_tables insert_transcripts gone_def has_nonchannel_deletion_def)

lemma inserted_edit:
  assumes "db_messages db (item_key item) \<noteq> None"
  shows "\<exists>v. snd (persist_edited_message ru source item date db) = snd (insert_messages_with_fts ru source [item] (db\<lparr>db_versions := v\<rparr>))"
proof (cases "is_current_observation db item source")
  case False
  then have "accepted_message_bundles db [item] source = []"
    by (simp add: accepted_message_bundles_def accept_bundle_def)
  then have "snd (insert_messages_with_fts ru source [item] (db\<lparr>db_versions := db_versions db\<rparr>)) = db"
    by (simp add: insert_messages_with_fts_def)
  then show ?thesis using False by (intro exI[of _ "db_versions db"]) (simp add: persist_edited_message_def)
next
  case True
  from assms obtain r where r: "db_messages db (item_key item) = Some r" by blast
  let ?v = "if sm_text (mr_message r) = sm_text (em_message item) \<or> \<not> ru_keep_history ru (mr_message r) then db_versions db
    else (db_versions db)(item_key item := db_versions db (item_key item)
      @ [(next_version db (item_key item), sm_text (mr_message r), date)])"
  have "snd (persist_edited_message ru source item date db) = snd (insert_messages_with_fts ru source [item] (db\<lparr>db_versions := ?v\<rparr>))"
    using True r by (simp add: persist_edited_message_def Let_def)
  then show ?thesis by blast
qed

lemma same_edit:
  assumes "item_key item \<noteq> k \<or> db_messages db k = None"
  shows "same_at k db (snd (persist_edited_message ru source item date db))"
proof (cases "db_messages db (item_key item)")
  case None
  then show ?thesis by (simp add: persist_edited_message_def Let_def same_refl)
next
  case (Some r)
  then have "accepted_at db source [item] k = None" using assms by (auto simp: accepted_at_single)
  from same_insert[OF this, of ru] inserted_edit[of db item ru source date] Some show ?thesis by fastforce
qed

lemma same_received:
  assumes "item_key item \<noteq> k"
  shows "same_at k db (snd (persist_received_message ru item db))"
proof -
  let ?item = "item\<lparr>em_invalidate_image := False\<rparr>"
  have key: "item_key ?item = item_key item" by (simp add: item_key_def)
  have "snd (persist_received_message ru item db) \<in> {db, snd (insert_messages_with_fts ru RS_HISTORY [?item] db),
      snd (persist_edited_message ru RS_MESSAGE_EDIT ?item (sm_edit_date (em_message item)) db)}"
    by (simp add: persist_received_message_def Let_def split_beta split: option.split)
  moreover have "accepted_at db RS_HISTORY [?item] k = None" using assms key by (simp add: accepted_at_single)
  from same_insert[OF this, of ru "db_versions db"] have "same_at k db (snd (insert_messages_with_fts ru RS_HISTORY [?item] db))" by simp
  moreover have "same_at k db (snd (persist_edited_message ru RS_MESSAGE_EDIT ?item (sm_edit_date (em_message item)) db))"
    by (rule same_edit) (simp add: key assms)
  ultimately show ?thesis using same_refl[of k db] by auto
qed

lemma same_transcribed:
  assumes "transcribed_db ru j text db db'" "transcribing ru db db'" "j \<noteq> k"
  shows "same_at k db db'"
proof -
  have rows: "db_messages db' k = db_messages db k" "db_transcripts db' k = db_transcripts db k"
    using assms(1,3) by (auto simp: transcribed_db_def)
  have "db_observations db' = db_observations db" "db_images db' = db_images db" "db_nonchannel db' = db_nonchannel db"
    using assms(2) by (auto simp: transcribing_def retext_def)
  with rows show ?thesis by (simp add: same_at_def gone_def has_nonchannel_deletion_def)
qed

lemma same_deletions:
  "d \<noteq> fst k \<or> snd k \<notin> set ids \<Longrightarrow> same_at k db (snd (record_message_deletions d ids db))"
  "(d, m) \<noteq> k \<Longrightarrow> same_at k db (snd (mark_message_deleted d m t db))"
  "is_channel_peer_id (fst k) \<or> snd k \<notin> set ids \<Longrightarrow> same_at k db (snd (record_nonchannel_deletions ids t db))"
  by (auto simp: same_at_def gone_def has_nonchannel_deletion_def record_deletions_tables mark_tables nonchannel_tables)

lemma same_backfill: "same_at k db (backfill_outgoing_dm i db)"
  by (cases "db_messages db k")
    (auto simp: same_at_def gone_def has_nonchannel_deletion_def stored_message_deleted_def backfill_outgoing_dm_def
      message_snapshot_def)

lemma same_step:
  assumes "spares k e" "observed k (db_messages db k \<noteq> None) e = []"
  shows "same_at k db (message_step ru e db)"
proof (cases e)
  case MO_Allocate
  then show ?thesis by (simp add: same_at_def allocate_observation_order_def gone_def has_nonchannel_deletion_def)
next
  case (MO_Insert source items)
  then have "accepted_at db source items k = None" using accepted_in_page(1) assms(2) by simp
  from same_insert[OF this, of ru "db_versions db"] show ?thesis by (simp add: MO_Insert)
next
  case (MO_Edit source item date)
  then show ?thesis using same_edit[of item k db ru source date] assms(2) by (auto split: if_splits)
next
  case (MO_Received item)
  then show ?thesis using same_received[of item k db ru] assms(2) by (auto split: if_splits)
next
  case (MO_Transcribed j words i t delivered)
  have "transcribed_db ru j (py_strip words) db (message_step ru e db)" unfolding MO_Transcribed by (rule transcription_steps(1))
  moreover have "transcribing ru db (message_step ru e db)" using transcribed_cases(1) by (simp add: MO_Transcribed)
  ultimately show ?thesis by (rule same_transcribed) (use assms(1) MO_Transcribed in simp)
next
  case (MO_Staged j words i t delivered)
  have "transcribed_db ru j (py_strip words) db (message_step ru e db)" unfolding MO_Staged by (rule transcription_steps(2))
  moreover have "transcribing ru db (message_step ru e db)" using transcribed_cases(2) by (simp add: MO_Staged)
  ultimately show ?thesis by (rule same_transcribed) (use assms(1) MO_Staged in simp)
next
  case (MO_Transcribe_Absent enrolled j words i t order delivered)
  have "transcribed_db ru j (py_strip words) db (message_step ru e db)" unfolding MO_Transcribe_Absent by (rule transcription_steps(3))
  moreover have "transcribing ru db (message_step ru e db)" using transcribed_cases(3) by (simp add: MO_Transcribe_Absent)
  ultimately show ?thesis by (rule same_transcribed) (use assms(1) MO_Transcribe_Absent in simp)
qed (use assms same_deletions same_backfill in auto)

section \<open>Writers that observe the message\<close>

lemma processed_insert:
  assumes "processed db k S" "consistent (insert z S)" "order_of z \<notin> order_of ` S" "item_key z = k"
  shows "processed (snd (insert_messages_with_fts ru source [z] (db\<lparr>db_versions := v\<rparr>))) k (insert z S)"
  by (rule processed_page) (use assms in \<open>simp_all add: page_observation_def\<close>)

lemma processed_superseded:
  assumes "processed db k S" "received_body_superseded db z" "consistent (insert z S)" "item_key z = k"
  shows "processed db k (insert z S)"
proof -
  from assms(2,4) have "db_messages db k \<noteq> None" by (auto simp: received_body_superseded_def split: option.splits)
  then obtain x where x: "holds_newest db k x S" using assms(1) by (auto simp: processed_def unseen_def)
  then obtain o' where o': "db_observations db k = Some o'" "ob_order o' \<le> order_of x"
    unfolding holds_newest_def by (metis order_refl)
  have "fresh_bundle z" using assms(3) by (simp add: consistent_def)
  then have "order_of z < ob_order o'"
    using assms(2,4) o'(1) fresh_order[of z] by (auto simp: received_body_superseded_def split: option.splits)
  then have "holds_newest db k x (insert z S)" using x o'(2) by (auto simp: holds_newest_def)
  then show ?thesis by (auto simp: processed_def)
qed

lemma processed_received:
  fixes item :: ExtractedMessage
  defines "z \<equiv> item\<lparr>em_invalidate_image := False\<rparr>"
  assumes "processed db k S" "consistent (insert z S)" "order_of z \<notin> order_of ` S" "item_key item = k"
  shows "processed (snd (persist_received_message ru item db)) k (insert z S)"
proof -
  have key: "item_key z = k" using assms(5) by (simp add: z_def item_key_def)
  have live: "\<not> has_nonchannel_deletion db (sm_dialog_id (em_message item)) (sm_message_id (em_message item))"
    using assms(2,5) by (auto simp: processed_def unseen_def holds_newest_def gone_def item_key_def msg_key_def)
  have sup: "received_body_superseded db item = received_body_superseded db z"
    by (auto simp: z_def received_body_superseded_def item_key_def split: option.split)
  note insert = processed_insert[OF assms(2-4) key]
  show ?thesis
  proof (cases "received_body_superseded db z")
    case True
    then show ?thesis using processed_superseded[OF assms(2) True assms(3) key] live sup
      by (simp add: persist_received_message_def)
  next
    case False
    have page: "processed (snd (insert_messages_with_fts ru RS_HISTORY [z] db)) k (insert z S)"
      using insert[where v = "db_versions db"] by simp
    have edit: "processed (snd (persist_edited_message ru RS_MESSAGE_EDIT z date db)) k (insert z S)"
      if "db_messages db k \<noteq> None" for date
      using inserted_edit[of db z ru RS_MESSAGE_EDIT date] that key insert by auto
    have "snd (persist_received_message ru item db) = snd (insert_messages_with_fts ru RS_HISTORY [z] db)
        \<or> db_messages db k \<noteq> None \<and> (\<exists>date. snd (persist_received_message ru item db) = snd (persist_edited_message ru RS_MESSAGE_EDIT z date db))"
      using live sup False assms(5)
      by (auto simp: persist_received_message_def z_def[symmetric] read_message_text_def Let_def split_beta split: option.splits)
    then show ?thesis using page edit by auto
  qed
qed

lemma processed_step:
  assumes "processed db k S" "observed k (S \<noteq> {}) e = [z]" "consistent (insert z S)" "order_of z \<notin> order_of ` S"
  shows "processed (message_step ru e db) k (insert z S)"
proof (cases e)
  case (MO_Insert source items)
  then show ?thesis using processed_page[OF assms(1) _ assms(3,4)] assms(2) by simp
next
  case (MO_Edit source item date)
  then have z: "S \<noteq> {}" "item = z" "item_key z = k" using assms(2) by (auto split: if_splits)
  with processed_row[OF assms(1)] have "db_messages db (item_key z) \<noteq> None" by simp
  from inserted_edit[OF this, of ru source date] processed_insert[OF assms(1,3,4) z(3)]
  show ?thesis by (auto simp: MO_Edit z)
next
  case (MO_Received item)
  then have "item_key item = k" "z = item\<lparr>em_invalidate_image := False\<rparr>" using assms(2) by (auto split: if_splits)
  with processed_received[of db k S item ru] assms show ?thesis by (simp add: MO_Received)
qed (use assms(2) in auto)

lemma consistent_subset: "consistent T \<Longrightarrow> S \<subseteq> T \<Longrightarrow> consistent S"
  unfolding consistent_def by (meson inj_on_subset subsetD)

lemma observed_once: "spares k e \<Longrightarrow> length (observed k seen e) \<le> 1"
  by (cases e) auto

lemma processed_run:
  assumes "processed db k S" "\<forall>e \<in> set es. spares k e"
    and "consistent (S \<union> set (observations k (S \<noteq> {}) es))"
    and "distinct (map order_of (observations k (S \<noteq> {}) es))"
    and "order_of ` S \<inter> order_of ` set (observations k (S \<noteq> {}) es) = {}"
  shows "processed (run_ops (message_step ru) es db) k (S \<union> set (observations k (S \<noteq> {}) es))"
  using assms
proof (induction es arbitrary: db S)
  case Nil
  then show ?case by simp
next
  case (Cons e es)
  have "length (observed k (S \<noteq> {}) e) \<le> 1" using observed_once Cons.prems(2) by simp
  then consider "observed k (S \<noteq> {}) e = []" | z where "observed k (S \<noteq> {}) e = [z]"
    by (cases "observed k (S \<noteq> {}) e" rule: list.exhaust) auto
  then show ?case
  proof cases
    case 1
    have "same_at k db (message_step ru e db)"
      by (rule same_step) (use Cons.prems(1,2) processed_row 1 in auto)
    from Cons.IH[OF processed_same[OF this Cons.prems(1)]] Cons.prems 1 show ?thesis by simp
  next
    case (2 z)
    have obs: "observations k (S \<noteq> {}) (e # es) = z # observations k True es" by (simp add: 2)
    have "processed (message_step ru e db) k (insert z S)"
      by (rule processed_step[OF Cons.prems(1) 2])
        (use Cons.prems(3,5)[unfolded obs] in \<open>auto intro: consistent_subset\<close>)
    from Cons.IH[OF this] Cons.prems(2) Cons.prems(3-5)[unfolded obs] show ?thesis
      unfolding obs by (auto simp: insert_commute)
  qed
qed


section \<open>A run\<close>

text \<open>A photo message that is edited twice; the second edit changes the photo.\<close>

definition demo_message :: "int \<Rightarrow> string \<Rightarrow> int option \<Rightarrow> string \<Rightarrow> StoredMessage" where
  "demo_message m text edit body = \<lparr>sm_dialog_id = 7, sm_message_id = m, sm_text = Some text, sm_edit_date = edit,
     sm_media = (Some ''photo'', Some ''{}''), sm_body = body, sm_out = False, sm_sender_id = None, sm_rest = []\<rparr>"

definition demo_bundle :: "StoredMessage \<Rightarrow> int \<Rightarrow> int \<Rightarrow> ExtractedMessage" where
  "demo_bundle m order photo = \<lparr>em_message = m, em_observation_order = Some order, em_media_order = None,
     em_body_order = None, em_photo_id = Some photo, em_photo_eligible = True, em_invalidate_image = True\<rparr>"

definition demo_rules :: MessageRules where
  "demo_rules = \<lparr>ru_stem = (\<lambda>t. case t of Some s \<Rightarrow> s | None \<Rightarrow> []), ru_canonical = (\<lambda>_. True),
     ru_transcribable = (\<lambda>_. False), ru_transcribable_pair = (\<lambda>_. False),
     ru_transcribable_sql = (\<lambda>_. False), ru_keep_history = (\<lambda>_. True)\<rparr>"

text \<open>
  An edit of the message before it is seen, which is dropped; its snapshot after an edit, from a
  page; a start of the daemon and the deletion of another message; the newest snapshot, delivered
  as a received message; and at last an old page.
\<close>

definition demo_ops :: "message_op list" where
  "demo_ops = [MO_Edit RS_MESSAGE_EDIT (demo_bundle (demo_message 3 ''lost'' (Some 40) ''b'') 1 1) (Some 40),
     MO_Insert RS_DELTA [demo_bundle (demo_message 3 ''new'' (Some 50) ''b'') 4 1, demo_bundle (demo_message 8 ''other'' None ''c'') 4 5],
     MO_Backfill_Out (Some 42), MO_Mark_Deleted 7 8 100,
     MO_Received (demo_bundle (demo_message 3 ''newer'' (Some 60) ''b'') 9 2),
     MO_Insert RS_HISTORY [demo_bundle (demo_message 3 ''old'' None ''a'') 2 1]]"

lemmas demo_defs = demo_message_def demo_bundle_def demo_ops_def demo_rules_def

end
