(* ===== verification/History_State.thy ===== *)
theory History_State
  imports Message_Props Hydration_Queue
begin

text \<open>
  What the archive knows of a dialog (\<^verbatim>\<open>history_enrollment.py\<close>, \<^verbatim>\<open>access_lifecycle/__init__.py\<close>):
  the operator's durable intent, the coverage row in \<^verbatim>\<open>synced_dialogs\<close>, access loss and its
  recovery, fenced by observation orders. Every operation is one write unit of the code, so it
  is a function of the database. Peer revocation, scheduled messages, drafts, reactions and
  membership signals, which some operations touch as well, belong to other components and are
  not part of this state; the hydration queue and the message tables are.
\<close>

section \<open>The state\<close>

datatype coverage = CV_NOT_SYNCED | CV_OWN_ONLY | CV_FRAGMENT | CV_SYNCING | CV_SYNCED | CV_ACCESS_LOST
  | CV_OTHER string

datatype topic_state = TS_UNKNOWN | TS_PARTIAL | TS_COMPLETE

record SyncedDialog =
  sd_status :: coverage
  sd_sync_progress :: "int option"
  sd_total_messages :: "int option"
  sd_last_synced_at :: "int option"
  sd_last_delta_checked_at :: "int option"
  sd_history_depth_complete :: bool
  sd_delta_message_id :: "int option"
  sd_delta_refresh_requested_at :: "int option"
  sd_delta_refresh_generation :: int
  sd_full_sync_retry_at :: "int option"
  sd_delta_retry_at :: "int option"
  sd_topic_version :: int
  sd_topic_state :: topic_state
  sd_topic_observed_at :: "int option"
  sd_topic_completed_at :: "int option"
  sd_access_lost_at :: "int option"
  sd_access_last_revalidated_at :: "int option"
  sd_access_next_revalidate_at :: "int option"
  sd_read_next_attempt_at :: "int option"
  sd_read_attempt_count :: int
  sd_last_event_at :: "int option"

text \<open>A row as \<open>INSERT INTO synced_dialogs(dialog_id, status)\<close> makes it, with the column defaults.\<close>

definition new_synced_dialog :: "coverage \<Rightarrow> SyncedDialog" where
  "new_synced_dialog status = \<lparr>sd_status = status, sd_sync_progress = Some 0, sd_total_messages = None,
     sd_last_synced_at = None, sd_last_delta_checked_at = None, sd_history_depth_complete = False,
     sd_delta_message_id = None, sd_delta_refresh_requested_at = None, sd_delta_refresh_generation = 0,
     sd_full_sync_retry_at = None, sd_delta_retry_at = None, sd_topic_version = 0, sd_topic_state = TS_UNKNOWN,
     sd_topic_observed_at = None, sd_topic_completed_at = None, sd_access_lost_at = None,
     sd_access_last_revalidated_at = None, sd_access_next_revalidate_at = None,
     sd_read_next_attempt_at = None, sd_read_attempt_count = 0, sd_last_event_at = None\<rparr>"

record DirectoryRow =
  dr_hidden :: bool
  dr_needs_refresh :: bool
  dr_snapshot_at :: "int option"
  dr_last_message_at :: "int option"

datatype HistoryEvent =
    Access_Lost_Event int "int option" "string option" "coverage option"
  | Access_Restored_Event int int

record Archive =
  ar_rows :: "int \<Rightarrow> SyncedDialog option"
  ar_intent :: "int \<Rightarrow> (bool \<times> int) option"
  ar_directory :: "int \<Rightarrow> DirectoryRow option"
  ar_facts :: "int \<times> string \<Rightarrow> int option"
  ar_events :: "HistoryEvent list"
  ar_jobs :: "HydrationRow list"
  ar_messages :: MessageDb
  ar_delta_done :: "int \<Rightarrow> int"
  ar_full_cursor :: int
  ar_owner :: "int option"

definition update_dialog :: "int \<Rightarrow> (SyncedDialog \<Rightarrow> SyncedDialog) \<Rightarrow> Archive \<Rightarrow> Archive" where
  "update_dialog d f a = a\<lparr>ar_rows := (ar_rows a)(d := map_option f (ar_rows a d))\<rparr>"

definition TOPIC_ATTRIBUTION_EXTRACTOR_VERSION :: int where
  "TOPIC_ATTRIBUTION_EXTRACTOR_VERSION = 2"

section \<open>Enrollment\<close>

definition request_delta_refresh :: "int \<Rightarrow> int \<Rightarrow> Archive \<Rightarrow> Archive" where
  "request_delta_refresh d now = update_dialog d (\<lambda>r. r\<lparr>sd_delta_refresh_requested_at := Some now,
     sd_delta_refresh_generation := sd_delta_refresh_generation r + 1\<rparr>)"

definition reset_read_position_retry :: "int \<Rightarrow> Archive \<Rightarrow> Archive" where
  "reset_read_position_retry d = update_dialog d (\<lambda>r. r\<lparr>sd_read_next_attempt_at := None, sd_read_attempt_count := 0\<rparr>)"

definition read_intent :: "Archive \<Rightarrow> int \<Rightarrow> bool option" where
  "read_intent a d = map_option fst (ar_intent a d)"

definition full_history_enabled :: "Archive \<Rightarrow> int \<Rightarrow> bool" where
  "full_history_enabled a d \<longleftrightarrow> read_intent a d = Some True"

definition coverage_status :: "Archive \<Rightarrow> int \<Rightarrow> coverage option" where
  "coverage_status a d = map_option sd_status (ar_rows a d)"

definition store_intent :: "int \<Rightarrow> bool \<Rightarrow> int \<Rightarrow> Archive \<Rightarrow> Archive" where
  "store_intent d enabled now a = a\<lparr>ar_intent := (ar_intent a)(d \<mapsto> (enabled, now))\<rparr>"

datatype history_action = HA_DISABLED_HISTORY | HA_DISABLED_TOMBSTONE | HA_QUEUE_FULL_HISTORY | HA_ALREADY_SYNCING
  | HA_REQUEST_DELTA_REFRESH | HA_BLOCKED_ACCESS_LOST | HA_UNSUPPORTED_COVERAGE
  | HA_PRESERVED_ENABLED | HA_PRESERVED_DISABLED

datatype blocked_reason = BR_ACCESS_LOST | BR_UNSUPPORTED_COVERAGE | BR_DISABLED

record TransitionDecision =
  td_action :: history_action
  td_next_status :: "coverage option"
  td_blocked_reason :: "blocked_reason option"
  td_fetch :: bool

record EnrollmentOutcome =
  eo_enabled :: bool
  eo_coverage :: "coverage option"
  eo_action :: history_action
  eo_blocked_reason :: "blocked_reason option"
  eo_will_fetch :: bool

fun decide_transition :: "coverage option \<Rightarrow> bool \<Rightarrow> TransitionDecision" where
  "decide_transition c False = \<lparr>td_action = HA_DISABLED_HISTORY,
     td_next_status = (if c = Some CV_SYNCING then Some CV_NOT_SYNCED else c), td_blocked_reason = None, td_fetch = False\<rparr>"
| "decide_transition None True = \<lparr>td_action = HA_QUEUE_FULL_HISTORY, td_next_status = Some CV_NOT_SYNCED,
     td_blocked_reason = None, td_fetch = True\<rparr>"
| "decide_transition (Some c) True =
     (if c \<in> {CV_NOT_SYNCED, CV_OWN_ONLY, CV_FRAGMENT} then \<lparr>td_action = HA_QUEUE_FULL_HISTORY,
        td_next_status = Some CV_SYNCING, td_blocked_reason = None, td_fetch = True\<rparr>
      else if c = CV_SYNCING then \<lparr>td_action = HA_ALREADY_SYNCING, td_next_status = Some CV_SYNCING,
        td_blocked_reason = None, td_fetch = True\<rparr>
      else if c = CV_SYNCED then \<lparr>td_action = HA_REQUEST_DELTA_REFRESH, td_next_status = Some CV_SYNCED,
        td_blocked_reason = None, td_fetch = False\<rparr>
      else if c = CV_ACCESS_LOST then \<lparr>td_action = HA_BLOCKED_ACCESS_LOST, td_next_status = Some CV_ACCESS_LOST,
        td_blocked_reason = Some BR_ACCESS_LOST, td_fetch = False\<rparr>
      else \<lparr>td_action = HA_UNSUPPORTED_COVERAGE, td_next_status = Some c,
        td_blocked_reason = Some BR_UNSUPPORTED_COVERAGE, td_fetch = False\<rparr>)"

text \<open>The receipt of the topic extraction is not the one of the current extractor.\<close>

definition stale_receipt :: "SyncedDialog \<Rightarrow> bool" where
  "stale_receipt r \<longleftrightarrow> sd_topic_version r \<noteq> TOPIC_ATTRIBUTION_EXTRACTOR_VERSION \<or> sd_topic_state r \<noteq> TS_COMPLETE"

definition enable_history :: "int \<Rightarrow> int \<Rightarrow> Archive \<Rightarrow> EnrollmentOutcome \<times> Archive" where
  "enable_history d now a =
     (let coverage = coverage_status a d;
          a1 = reset_read_position_retry d (store_intent d True now a);
          restart = (coverage = Some CV_SYNCED \<and> (case ar_rows a1 d of Some r \<Rightarrow> stale_receipt r | None \<Rightarrow> False));
          a2 = (if restart then update_dialog d (\<lambda>r. r\<lparr>sd_status := CV_SYNCING, sd_sync_progress := Some 0\<rparr>) a1 else a1);
          coverage1 = (if restart then Some CV_SYNCING else coverage);
          decision = (if restart then \<lparr>td_action = HA_QUEUE_FULL_HISTORY, td_next_status = Some CV_SYNCING,
                        td_blocked_reason = None, td_fetch = True\<rparr> else decide_transition coverage True);
          (coverage2, a3) =
            (if coverage1 = None
             then (td_next_status decision,
               a2\<lparr>ar_rows := (ar_rows a2)(d \<mapsto> new_synced_dialog (the (td_next_status decision)))\<rparr>)
             else if td_next_status decision \<noteq> coverage1 \<and> td_next_status decision = Some CV_SYNCING
             then (td_next_status decision, update_dialog d (\<lambda>r.
               if sd_status r \<in> {CV_NOT_SYNCED, CV_OWN_ONLY, CV_FRAGMENT} then r\<lparr>sd_status := CV_SYNCING\<rparr> else r) a2)
             else if td_action decision = HA_REQUEST_DELTA_REFRESH
             then (coverage1, request_delta_refresh d now a2)
             else (coverage1, a2))
      in (\<lparr>eo_enabled = True, eo_coverage = coverage2, eo_action = td_action decision,
           eo_blocked_reason = td_blocked_reason decision, eo_will_fetch = td_fetch decision\<rparr>, a3))"

text \<open>\<open>full_history_will_be_fetched\<close> when the caller does not say: unfinished coverage of an enabled dialog.\<close>

definition will_fetch :: "bool \<Rightarrow> coverage option \<Rightarrow> bool" where
  "will_fetch enabled c \<longleftrightarrow>
     enabled \<and> c \<in> {None, Some CV_NOT_SYNCED, Some CV_OWN_ONLY, Some CV_FRAGMENT, Some CV_SYNCING}"

definition disable_history :: "int \<Rightarrow> int \<Rightarrow> Archive \<Rightarrow> EnrollmentOutcome \<times> Archive" where
  "disable_history d now a =
     (let coverage = coverage_status a d;
          a1 = reset_read_position_retry d (store_intent d False now a);
          a2 = a1\<lparr>ar_jobs := snd (remove_active_for_dialog d (ar_jobs a1))\<rparr>;
          a3 = (if coverage = Some CV_SYNCING then update_dialog d (\<lambda>r. r\<lparr>sd_status := CV_NOT_SYNCED\<rparr>) a2 else a2);
          coverage1 = (if coverage = Some CV_SYNCING then Some CV_NOT_SYNCED else coverage);
          a4 = (if coverage1 \<noteq> None then update_dialog d (\<lambda>r. r\<lparr>sd_delta_refresh_requested_at := None\<rparr>) a3 else a3)
      in (\<lparr>eo_enabled = False, eo_coverage = coverage1,
           eo_action = (if coverage1 \<noteq> None then HA_DISABLED_HISTORY else HA_DISABLED_TOMBSTONE),
           eo_blocked_reason = None, eo_will_fetch = will_fetch False coverage1\<rparr>, a4))"

definition ensure_automatic_dm_enrollment :: "int \<Rightarrow> int \<Rightarrow> Archive \<Rightarrow> EnrollmentOutcome \<times> Archive" where
  "ensure_automatic_dm_enrollment d now a =
     (case read_intent a d of
        Some enabled \<Rightarrow> (\<lparr>eo_enabled = enabled, eo_coverage = coverage_status a d,
          eo_action = (if enabled then HA_PRESERVED_ENABLED else HA_PRESERVED_DISABLED),
          eo_blocked_reason = (if enabled then None else Some BR_DISABLED),
          eo_will_fetch = will_fetch enabled (coverage_status a d)\<rparr>, a)
      | None \<Rightarrow>
          let (out, a1) = enable_history d now a
          in if eo_coverage out = Some CV_NOT_SYNCED
             then (out\<lparr>eo_coverage := Some CV_SYNCING\<rparr>, update_dialog d (\<lambda>r. r\<lparr>sd_status := CV_SYNCING\<rparr>) a1)
             else (out, a1))"

definition record_automatic_group_decision :: "int \<Rightarrow> bool \<Rightarrow> int option \<Rightarrow> int \<Rightarrow> Archive \<Rightarrow> bool option \<times> Archive" where
  "record_automatic_group_decision d enabled count now a =
     (case read_intent a d of
        Some previous \<Rightarrow> (Some previous, a)
      | None \<Rightarrow>
          let a1 = store_intent d enabled now a;
              a2 = (if enabled
                then let a' = reset_read_position_retry d a1
                  in if coverage_status a' d = None
                     then a'\<lparr>ar_rows := (ar_rows a')(d \<mapsto> new_synced_dialog CV_SYNCING)\<rparr> else a'
                else case count of None \<Rightarrow> a1
                  | Some n \<Rightarrow> a1\<lparr>ar_rows := (ar_rows a1)(d \<mapsto> (case ar_rows a1 d of
                      None \<Rightarrow> (new_synced_dialog CV_NOT_SYNCED)\<lparr>sd_total_messages := Some n\<rparr>
                    | Some r \<Rightarrow> r\<lparr>sd_total_messages := Some n\<rparr>))\<rparr>)
          in (read_intent a2 d, a2))"

definition restore_access_status :: "int \<Rightarrow> Archive \<Rightarrow> bool \<times> Archive" where
  "restore_access_status d a =
     (let enabled = full_history_enabled a d
      in (enabled, reset_read_position_retry d (update_dialog d
           (\<lambda>r. r\<lparr>sd_status := (if enabled then CV_SYNCING else CV_NOT_SYNCED), sd_delta_refresh_requested_at := None\<rparr>) a)))"

text \<open>\<open>enroll_own_only_sync_dialog\<close> (\<^verbatim>\<open>own_only.py\<close>): \<open>INSERT OR IGNORE\<close> never downgrades a row.\<close>

definition enroll_own_only_sync_dialog :: "int \<Rightarrow> Archive \<Rightarrow> Archive" where
  "enroll_own_only_sync_dialog d a = (case ar_rows a d of
     None \<Rightarrow> a\<lparr>ar_rows := (ar_rows a)(d \<mapsto> new_synced_dialog CV_OWN_ONLY)\<rparr> | Some _ \<Rightarrow> a)"

section \<open>Access\<close>

text \<open>\<open>claim_dialog_fact\<close> (\<^verbatim>\<open>dialog_fact_observations.py\<close>) with an order reserved by the caller.\<close>

definition claim_dialog_fact :: "int \<Rightarrow> string \<Rightarrow> int \<Rightarrow> Archive \<Rightarrow> bool \<times> Archive" where
  "claim_dialog_fact d field order a =
     (let newer = (case ar_facts a (d, field) of None \<Rightarrow> True | Some n \<Rightarrow> n < order)
      in (newer, if newer then a\<lparr>ar_facts := (ar_facts a)((d, field) \<mapsto> order)\<rparr> else a))"

definition has_current_recovery_witness :: "Archive \<Rightarrow> int \<Rightarrow> bool" where
  "has_current_recovery_witness a d \<longleftrightarrow> ar_facts a (d, ''access_state'') \<noteq> None
     \<and> ar_facts a (d, ''access_recovery_witness'') = ar_facts a (d, ''access_state'')"

definition current_recovery_witness :: "Archive \<Rightarrow> int \<Rightarrow> int \<Rightarrow> bool" where
  "current_recovery_witness a d order \<longleftrightarrow> ar_facts a (d, ''access_state'') = Some order
     \<and> ar_facts a (d, ''access_recovery_witness'') = Some order"

definition accept_access_loss :: "int \<Rightarrow> int option \<Rightarrow> int option \<Rightarrow> Archive \<Rightarrow> bool \<times> Archive" where
  "accept_access_loss d owner order a =
     (if owner \<noteq> None \<and> (order = None \<or> ar_owner a \<noteq> owner) then (False, a)
      else case order of None \<Rightarrow> (True, a) | Some n \<Rightarrow> claim_dialog_fact d ''access_state'' n a)"

definition mark_access_lost_state :: "int \<Rightarrow> int \<Rightarrow> int option \<Rightarrow> Archive \<Rightarrow> coverage option \<times> Archive" where
  "mark_access_lost_state d now refresh_generation a =
     (let a1 = (case ar_rows a d of
            None \<Rightarrow> a\<lparr>ar_rows := (ar_rows a)
              (d \<mapsto> (new_synced_dialog CV_ACCESS_LOST)\<lparr>sd_access_lost_at := Some now\<rparr>)\<rparr>
          | Some _ \<Rightarrow> update_dialog d (\<lambda>r. r\<lparr>sd_status := CV_ACCESS_LOST, sd_access_lost_at := Some now,
              sd_delta_refresh_requested_at := (if refresh_generation = None
                \<or> refresh_generation = Some (sd_delta_refresh_generation r) then None
                else sd_delta_refresh_requested_at r)\<rparr>) a);
          a2 = reset_read_position_retry d a1;
          a3 = a2\<lparr>ar_jobs := snd (remove_active_for_dialog d (ar_jobs a2))\<rparr>
      in (coverage_status a d, a3\<lparr>ar_directory := (ar_directory a3)(d := map_option
           (\<lambda>r. r\<lparr>dr_hidden := True, dr_snapshot_at := Some now\<rparr>) (ar_directory a3 d))\<rparr>))"

definition set_access_lost :: "int \<Rightarrow> int \<Rightarrow> string option \<Rightarrow> int option \<Rightarrow> int option \<Rightarrow> int option
    \<Rightarrow> Archive \<Rightarrow> bool \<times> Archive" where
  "set_access_lost d now reason refresh_generation owner order a =
     (let recovery_observed = (order \<noteq> None \<and> has_current_recovery_witness a d);
          (accepted, a1) = accept_access_loss d owner order a
      in if \<not> accepted then (False, a)
         else let (previous, a2) = mark_access_lost_state d now refresh_generation a1;
                  changed = (previous \<noteq> Some CV_ACCESS_LOST \<or> recovery_observed)
           in (changed, if changed then a2\<lparr>ar_events := ar_events a2 @ [Access_Lost_Event d (Some now) reason previous]\<rparr> else a2))"

text \<open>
  \<open>record_access_recovery_observation\<close>. The second claim failing after the first one succeeded
  raises \<^verbatim>\<open>IntegrityError\<close> in the code, which rolls the write unit back: \<open>None\<close>.
\<close>

definition record_access_recovery_observation :: "int \<Rightarrow> int \<Rightarrow> Archive \<Rightarrow> (bool \<times> Archive) option" where
  "record_access_recovery_observation d order a =
     (let (accepted, a1) = claim_dialog_fact d ''access_state'' order a
      in if \<not> accepted then Some (False, a)
         else let (witnessed, a2) = claim_dialog_fact d ''access_recovery_witness'' order a1
           in if witnessed then Some (True, a2) else None)"

definition restore_access_after_revalidation :: "int \<Rightarrow> int \<Rightarrow> int option \<Rightarrow> int option \<Rightarrow> Archive \<Rightarrow> bool \<times> Archive" where
  "restore_access_after_revalidation d now count expected_order a =
     (if (case expected_order of None \<Rightarrow> False | Some n \<Rightarrow> \<not> current_recovery_witness a d n) then (False, a)
      else let was_lost = (coverage_status a d = Some CV_ACCESS_LOST);
               a1 = update_dialog d (\<lambda>r. r\<lparr>sd_access_lost_at := None, sd_access_last_revalidated_at := Some now,
                 sd_access_next_revalidate_at := None\<rparr>) a;
               a2 = snd (restore_access_status d a1);
               a3 = a2\<lparr>ar_directory := (ar_directory a2)(d \<mapsto>
                 \<lparr>dr_hidden = False, dr_needs_refresh = True, dr_snapshot_at = Some now,
                   dr_last_message_at = Option.bind (ar_directory a2 d) dr_last_message_at\<rparr>)\<rparr>;
               a4 = (case count of None \<Rightarrow> a3 | Some n \<Rightarrow> update_dialog d (\<lambda>r. r\<lparr>sd_total_messages := Some n\<rparr>) a3)
           in (was_lost, if was_lost then a4\<lparr>ar_events := ar_events a4 @ [Access_Restored_Event d now]\<rparr> else a4))"

definition due_access_revalidations :: "int list \<Rightarrow> int \<Rightarrow> int \<Rightarrow> nat \<Rightarrow> Archive \<Rightarrow> int list" where
  "due_access_revalidations dialogs now cooldown limit a =
     (let boundary = (\<lambda>d. case ar_rows a d of None \<Rightarrow> 0 | Some r \<Rightarrow>
            max (int_or_zero (sd_access_next_revalidate_at r)) (int_or_zero (sd_access_lost_at r) + cooldown));
          due = filter (\<lambda>d. coverage_status a d = Some CV_ACCESS_LOST \<and> boundary d \<le> now) dialogs
      in take limit (sort_key (\<lambda>d. (boundary d, d)) due))"

definition stamp_access_revalidation :: "int \<Rightarrow> int \<Rightarrow> int \<Rightarrow> Archive \<Rightarrow> Archive" where
  "stamp_access_revalidation d checked_at cooldown = update_dialog d (\<lambda>r. r\<lparr>sd_access_last_revalidated_at := Some checked_at,
     sd_access_next_revalidate_at := Some (max (int_or_zero (sd_access_next_revalidate_at r)) (checked_at + cooldown))\<rparr>)"

definition complete_access_revalidation :: "int \<Rightarrow> int \<Rightarrow> Archive \<Rightarrow> Archive" where
  "complete_access_revalidation d checked_at = update_dialog d (\<lambda>r. if sd_status r = CV_ACCESS_LOST
     then r\<lparr>sd_access_last_revalidated_at := Some checked_at, sd_access_next_revalidate_at := None\<rparr> else r)"

definition unhide_after_realtime_presence :: "int \<Rightarrow> Archive \<Rightarrow> bool \<times> Archive" where
  "unhide_after_realtime_presence d a =
     (case ar_directory a d of
        Some r \<Rightarrow> if dr_hidden r \<and> coverage_status a d \<noteq> Some CV_ACCESS_LOST
          then (True, a\<lparr>ar_directory := (ar_directory a)(d \<mapsto> r\<lparr>dr_hidden := False\<rparr>)\<rparr>) else (False, a)
      | None \<Rightarrow> (False, a))"

end
