(* ===== verification/History_Pages.thy ===== *)
theory History_Pages
  imports Message_Props
begin

text \<open>
  Pages of Telegram history (\<^verbatim>\<open>message_history/contracts.py\<close>, \<^verbatim>\<open>message_history/telegram_adapter.py\<close>):
  what the two adapters make of a raw \<^verbatim>\<open>GetHistory\<close> response, with the validation of the page
  types. The response is a list of messages, some of them \<open>MessageEmpty\<close>; the content of a
  message is what \<^verbatim>\<open>extract_message_row\<close> reads from it, and identities are not modelled.
\<close>

definition MESSAGE_HISTORY_PAGE_SIZE :: nat where
  "MESSAGE_HISTORY_PAGE_SIZE = 100"

text \<open>\<open>raw_id\<close> is the value of \<^verbatim>\<open>id\<close>, with \<open>None\<close> when it is not an integer.\<close>

record RawMessage =
  raw_id :: "int option"
  raw_is_empty :: bool
  raw_content :: StoredMessage
  raw_photo_id :: "int option"
  raw_photo_eligible :: bool

datatype raw_count = Count_Absent | Count_Other | Count_Int int

datatype raw_kind = RK_Messages | RK_Messages_Slice | RK_Channel_Messages | RK_Other

datatype history_error = HE_Access_Lost string | HE_Unavailable | HE_Value_Error

record FullHistoryPage =
  fp_messages :: "ExtractedMessage list"
  fp_total_messages :: "int option"
  fp_next_before :: "int option"

record ForwardGapPage =
  gp_messages :: "ExtractedMessage list"
  gp_complete :: bool

section \<open>Backward pages\<close>

definition positive_id :: "RawMessage \<Rightarrow> int option" where
  "positive_id x = (case raw_id x of Some n \<Rightarrow> if 0 < n then Some n else None | None \<Rightarrow> None)"

definition raw_ids :: "RawMessage list \<Rightarrow> int list" where
  "raw_ids raw = List.map_filter positive_id raw"

definition history_cursor :: "RawMessage list \<Rightarrow> history_error + int option" where
  "history_cursor raw =
     (let ids = raw_ids raw; cursor = (if ids = [] then None else Some (Min (set ids)))
      in if raw \<noteq> [] \<and> cursor = None then Inl HE_Unavailable else Inr cursor)"

text \<open>\<open>extract_message_row\<close>: the row of the requested dialog, \<open>int(id)\<close> or 0 as its message.\<close>

definition extract_message_row :: "int \<Rightarrow> RawMessage \<Rightarrow> ExtractedMessage" where
  "extract_message_row d x =
     \<lparr>em_message = (raw_content x)\<lparr>sm_dialog_id := d, sm_message_id := int_or_zero (raw_id x)\<rparr>,
      em_observation_order = None, em_media_order = None, em_body_order = None,
      em_photo_id = raw_photo_id x, em_photo_eligible = raw_photo_eligible x, em_invalidate_image = True\<rparr>"

definition normalize_full_history_messages :: "int \<Rightarrow> RawMessage list \<Rightarrow> ExtractedMessage list" where
  "normalize_full_history_messages d raw = map (extract_message_row d) (filter (\<lambda>x. \<not> raw_is_empty x) raw)"

definition optional_nonnegative_int :: "raw_count \<Rightarrow> int option" where
  "optional_nonnegative_int c = (case c of Count_Int n \<Rightarrow> if n < 0 then None else Some n | _ \<Rightarrow> None)"

definition validate_full_page :: "FullHistoryPage \<Rightarrow> history_error + unit" where
  "validate_full_page p =
     then_check (guard (length (fp_messages p) \<le> MESSAGE_HISTORY_PAGE_SIZE) HE_Value_Error)
     (then_check (guard (case fp_total_messages p of Some n \<Rightarrow> 0 \<le> n | None \<Rightarrow> True) HE_Value_Error)
     (then_check (guard (fp_messages p = [] \<or> fp_next_before p \<noteq> None) HE_Value_Error)
       (guard (case fp_next_before p of Some n \<Rightarrow> 0 < n | None \<Rightarrow> True) HE_Value_Error)))"

text \<open>A request fails with one of the adapter's two errors or returns a response.\<close>

definition full_history_page :: "int \<Rightarrow> history_error + (raw_count \<times> RawMessage list) \<Rightarrow> history_error + FullHistoryPage" where
  "full_history_page d response = and_then response (\<lambda>(count, raw).
     and_then (history_cursor raw) (\<lambda>cursor.
       let page = \<lparr>fp_messages = normalize_full_history_messages d raw,
             fp_total_messages = (if count = Count_Absent then Some (int (length raw)) else optional_nonnegative_int count),
             fp_next_before = cursor\<rparr>
       in and_then (validate_full_page page) (\<lambda>_. Inr page)))"

section \<open>Forward pages\<close>

text \<open>
  \<open>should_stop\<close> is asked once before each message: \<open>stop i\<close> is its answer before the \<open>i\<close>-th. It
  is the shutdown event, so it may turn true in the middle of a page.
\<close>

fun take_until_stop :: "(nat \<Rightarrow> bool) \<Rightarrow> nat \<Rightarrow> int \<Rightarrow> RawMessage list \<Rightarrow> RawMessage list \<times> bool" where
  "take_until_stop stop i after [] = ([], False)"
| "take_until_stop stop i after (x # xs) =
     (if stop i then ([], True)
      else let (ys, stopped) = take_until_stop stop (Suc i) after xs
        in (if int_or_zero (positive_id x) > after then x # ys else ys, stopped))"

definition select_forward_messages :: "RawMessage list \<Rightarrow> int \<Rightarrow> (nat \<Rightarrow> bool) \<Rightarrow> RawMessage list \<times> bool" where
  "select_forward_messages raw after stop =
     take_until_stop stop 0 after (sort_key (\<lambda>x. int_or_zero (positive_id x)) raw)"

definition validate_gap_page :: "ForwardGapPage \<Rightarrow> history_error + unit" where
  "validate_gap_page p = guard (length (gp_messages p) \<le> MESSAGE_HISTORY_PAGE_SIZE) HE_Value_Error"

definition build_forward_gap_page :: "int \<Rightarrow> int \<Rightarrow> (nat \<Rightarrow> bool) \<Rightarrow> raw_kind \<times> RawMessage list
    \<Rightarrow> history_error + ForwardGapPage" where
  "build_forward_gap_page d after stop response =
     (let (kind, all) = response; raw = filter (\<lambda>x. \<not> raw_is_empty x) all in
      if kind = RK_Other then Inl HE_Unavailable
      else let (messages, stopped) = select_forward_messages raw after stop;
             complete = (\<not> stopped \<and> (length all < MESSAGE_HISTORY_PAGE_SIZE \<or> raw = []));
             complete = (if raw \<noteq> [] \<and> kind \<in> {RK_Messages_Slice, RK_Channel_Messages} then False else complete);
             page = \<lparr>gp_messages = map (extract_message_row d) messages, gp_complete = complete\<rparr>
        in and_then (validate_gap_page page) (\<lambda>_. Inr page))"

definition forward_gap_page :: "int \<Rightarrow> int \<Rightarrow> (nat \<Rightarrow> bool) \<Rightarrow> history_error + (raw_kind \<times> RawMessage list)
    \<Rightarrow> history_error + ForwardGapPage" where
  "forward_gap_page d after stop response = and_then response (build_forward_gap_page d after stop)"

section \<open>What the server returns\<close>

text \<open>
  \<^verbatim>\<open>messages.getHistory\<close> answers with a contiguous window of a dialog's messages. For a backward
  request before \<open>p\<close> (from the newest one when \<open>p\<close> is 0) nothing the server holds lies between
  the window and \<open>p\<close>, and an empty window means that nothing is left; for a forward request after
  \<open>a\<close> the window starts right after \<open>a\<close>, and a window of fewer than a hundred entries reaches the
  newest message. A full window says nothing about the messages behind it, also when all its
  entries are \<open>MessageEmpty\<close>. \<open>live\<close> is the set of the message ids the server holds for the
  dialog, all of them positive.
\<close>

definition real_ids :: "RawMessage list \<Rightarrow> int set" where
  "real_ids raw = {n. \<exists>x \<in> set raw. \<not> raw_is_empty x \<and> raw_id x = Some n}"

definition backward_window :: "int set \<Rightarrow> int \<Rightarrow> RawMessage list \<Rightarrow> bool" where
  "backward_window live p raw \<longleftrightarrow>
     (\<forall>m \<in> live. p = 0 \<or> m < p \<longrightarrow> m \<in> real_ids raw \<or> raw_ids raw \<noteq> [] \<and> m < Min (set (raw_ids raw)))"

definition forward_window :: "int set \<Rightarrow> int \<Rightarrow> RawMessage list \<Rightarrow> bool" where
  "forward_window live a raw \<longleftrightarrow>
     (\<forall>m \<in> live. a < m \<longrightarrow> m \<in> real_ids raw
        \<or> length raw \<ge> MESSAGE_HISTORY_PAGE_SIZE \<and> (\<forall>n \<in> real_ids raw. n < m))"

section \<open>Pages carry their windows\<close>

lemma raw_ids_positive: "n \<in> set (raw_ids raw) \<Longrightarrow> 0 < n"
  by (auto simp: raw_ids_def map_filter_def positive_id_def split: option.splits if_splits)

lemma real_in_raw_ids: "n \<in> real_ids raw \<Longrightarrow> 0 < n \<Longrightarrow> n \<in> set (raw_ids raw)"
  by (force simp: real_ids_def raw_ids_def map_filter_def positive_id_def)

lemma normalized_keys:
  assumes "n \<in> real_ids raw"
  shows "(d, n) \<in> item_key ` set (normalize_full_history_messages d raw)"
proof -
  from assms obtain x where "x \<in> set raw" "\<not> raw_is_empty x" "raw_id x = Some n" by (auto simp: real_ids_def)
  then have "extract_message_row d x \<in> set (normalize_full_history_messages d raw)"
    by (simp add: normalize_full_history_messages_def)
  moreover have "item_key (extract_message_row d x) = (d, n)" using \<open>raw_id x = Some n\<close>
    by (simp add: extract_message_row_def item_key_def msg_key_def int_or_zero_def)
  ultimately show ?thesis by force
qed

lemma full_page_parts:
  assumes "full_history_page d (Inr (count, raw)) = Inr page"
  shows "fp_messages page = normalize_full_history_messages d raw"
    and "fp_next_before page = (if raw_ids raw = [] then None else Some (Min (set (raw_ids raw))))"
    and "fp_next_before page = None \<Longrightarrow> raw = []"
  using assms
  by (auto simp: full_history_page_def and_then_def history_cursor_def Let_def split: sum.splits if_splits)

text \<open>A backward page holds every message of its window, and a terminal page says that nothing is left.\<close>

lemma backward_page_covers:
  assumes "full_history_page d (Inr (count, raw)) = Inr page" "backward_window live p raw"
    and "m \<in> live" "p = 0 \<or> m < p"
  shows "(case fp_next_before page of None \<Rightarrow> False | Some q \<Rightarrow> m < q \<or> (d, m) \<in> item_key ` set (fp_messages page))"
proof -
  note parts = full_page_parts[OF assms(1)]
  have *: "m \<in> real_ids raw \<or> raw_ids raw \<noteq> [] \<and> m < Min (set (raw_ids raw))"
    using assms(2-4) by (auto simp: backward_window_def)
  have ids: "raw_ids raw \<noteq> []"
  proof
    assume none: "raw_ids raw = []"
    have "raw = []" by (rule parts(3)) (simp add: parts(2) none)
    with * none show False by (simp add: real_ids_def)
  qed
  have "m < Min (set (raw_ids raw)) \<or> (d, m) \<in> item_key ` set (fp_messages page)"
    using * normalized_keys[of m raw d] by (auto simp: parts(1))
  with ids show ?thesis by (simp add: parts(2))
qed

text \<open>The shutdown event cuts a forward page to a prefix in the order of identifiers.\<close>

lemma take_until_stop_prefix:
  "take_until_stop stop i after xs = (ys, stopped) \<Longrightarrow>
     \<exists>k. ys = filter (\<lambda>x. int_or_zero (positive_id x) > after) (take k xs) \<and> (\<not> stopped \<longrightarrow> k = length xs)"
proof (induction xs arbitrary: i ys)
  case (Cons x xs)
  show ?case
  proof (cases "stop i")
    case True
    then show ?thesis using Cons.prems by (intro exI[of _ 0]) auto
  next
    case False
    obtain zs where zs: "take_until_stop stop (Suc i) after xs = (zs, stopped)"
      and ys: "ys = (if int_or_zero (positive_id x) > after then x # zs else zs)"
      using Cons.prems False by (auto split: prod.splits)
    from Cons.IH[OF zs] obtain k where "zs = filter (\<lambda>x. int_or_zero (positive_id x) > after) (take k xs)"
      "\<not> stopped \<longrightarrow> k = length xs" by blast
    with ys show ?thesis by (intro exI[of _ "Suc k"]) auto
  qed
qed simp

definition page_ids :: "ExtractedMessage list \<Rightarrow> int set" where
  "page_ids batch = (\<lambda>x. sm_message_id (em_message x)) ` set batch"

lemma gap_page_parts:
  assumes "build_forward_gap_page d after stop (kind, all) = Inr page"
  obtains messages stopped where
    "select_forward_messages (filter (\<lambda>x. \<not> raw_is_empty x) all) after stop = (messages, stopped)"
    "gp_messages page = map (extract_message_row d) messages"
    "gp_complete page \<Longrightarrow> \<not> stopped \<and> (length all < MESSAGE_HISTORY_PAGE_SIZE \<or> filter (\<lambda>x. \<not> raw_is_empty x) all = [])"
  using assms
  by (auto simp: build_forward_gap_page_def and_then_def Let_def split: if_splits prod.splits sum.splits)

text \<open>
  A forward page holds every message of the server between its cursor and its last message, also
  when it was stopped, and a complete page from a window of fewer than a hundred entries holds all
  messages behind the cursor.
\<close>

lemma forward_page_covers:
  assumes "build_forward_gap_page d after stop (kind, all) = Inr page" "forward_window live after all"
    and "m \<in> live" "after < m" "0 \<le> after"
    and "gp_complete page \<and> length all < MESSAGE_HISTORY_PAGE_SIZE \<or> (\<exists>n \<in> page_ids (gp_messages page). m \<le> n)"
  shows "(d, m) \<in> item_key ` set (gp_messages page)"
proof -
  let ?key = "\<lambda>x. int_or_zero (positive_id x)" and ?real = "filter (\<lambda>x. \<not> raw_is_empty x) all"
  obtain messages stopped where sel: "select_forward_messages ?real after stop = (messages, stopped)"
    and msgs: "gp_messages page = map (extract_message_row d) messages"
    and complete: "gp_complete page \<Longrightarrow> \<not> stopped \<and> (length all < MESSAGE_HISTORY_PAGE_SIZE \<or> ?real = [])"
    using gap_page_parts[OF assms(1)] by blast
  obtain k where pre: "messages = filter (\<lambda>x. ?key x > after) (take k (sort_key ?key ?real))"
    and whole: "\<not> stopped \<longrightarrow> k = length (sort_key ?key ?real)"
    using take_until_stop_prefix[OF sel[unfolded select_forward_messages_def]] by blast
  have chosen: "raw_id x = Some (?key x) \<and> after < ?key x \<and> x \<in> set ?real" if "x \<in> set messages" for x
    using that assms(5) unfolding pre
    by (auto simp: positive_id_def int_or_zero_def dest!: in_set_takeD split: option.splits if_splits)
  have key: "item_key (extract_message_row d x) = (d, ?key x)" if "x \<in> set messages" for x
    using chosen[OF that] by (simp add: extract_message_row_def item_key_def msg_key_def int_or_zero_def)
  have top: "\<exists>x \<in> set messages. m \<le> ?key x" if "\<not> (gp_complete page \<and> length all < MESSAGE_HISTORY_PAGE_SIZE)"
  proof -
    from assms(6) that obtain y where y: "y \<in> set messages" "m \<le> sm_message_id (em_message (extract_message_row d y))"
      by (auto simp: msgs page_ids_def)
    then have "m \<le> ?key y" using chosen[OF y(1)] by (simp add: extract_message_row_def int_or_zero_def)
    with y(1) show ?thesis by blast
  qed
  have real: "m \<in> real_ids all"
  proof (rule ccontr)
    assume no: "m \<notin> real_ids all"
    then have w: "length all \<ge> MESSAGE_HISTORY_PAGE_SIZE" "\<forall>n \<in> real_ids all. n < m"
      using assms(2-4) unfolding forward_window_def by auto
    then have "\<not> (gp_complete page \<and> length all < MESSAGE_HISTORY_PAGE_SIZE)" by simp
    from top[OF this] obtain x where x: "x \<in> set messages" "m \<le> ?key x" by blast
    then have "?key x \<in> real_ids all" using chosen[OF x(1)] unfolding real_ids_def by auto
    with w(2) x(2) show False by auto
  qed
  then obtain x where x: "x \<in> set ?real" "raw_id x = Some m" by (auto simp: real_ids_def)
  have mk: "?key x = m" using x(2) assms(4,5) by (simp add: positive_id_def int_or_zero_def)
  have "\<exists>z \<in> set messages. ?key z = m"
  proof (cases "stopped")
    case False
    then have "x \<in> set messages" using whole x(1) mk assms(4) by (simp add: pre)
    then show ?thesis using mk by blast
  next
    case True
    then have "\<not> (gp_complete page \<and> length all < MESSAGE_HISTORY_PAGE_SIZE)" using complete by auto
    from top[OF this] obtain y where y: "y \<in> set messages" "m \<le> ?key y" by blast
    let ?s = "sort_key ?key ?real"
    from y obtain j where j: "j < length ?s" "j < k" "y = ?s ! j"
      unfolding pre by (auto simp: in_set_conv_nth)
    obtain i where i: "i < length ?s" "x = ?s ! i" using x(1) by (metis in_set_conv_nth set_sort)
    show ?thesis
    proof (cases "i < k")
      case True
      then have "x \<in> set (take k ?s)" using i by (auto simp: in_set_conv_nth)
      then have "x \<in> set messages" using mk assms(4) by (simp add: pre)
      then show ?thesis using mk by blast
    next
      case False
      then have "?key y \<le> ?key x"
        using sorted_nth_mono[of "map ?key ?s" j i] i j by simp
      with y mk show ?thesis by force
    qed
  qed
  then obtain z where z: "z \<in> set messages" "?key z = m" by blast
  then have "extract_message_row d z \<in> set (gp_messages page)" by (simp add: msgs)
  moreover have "item_key (extract_message_row d z) = (d, m)" using key[OF z(1)] z(2) by simp
  ultimately show ?thesis by force
qed

text \<open>
  A full window of \<open>MessageEmpty\<close> entries is a complete page without messages, whatever the server
  still holds behind it.
\<close>

lemma empty_window_complete:
  "\<forall>x \<in> set all. raw_is_empty x \<Longrightarrow> kind \<noteq> RK_Other \<Longrightarrow> (\<And>i. \<not> stop i) \<Longrightarrow>
     build_forward_gap_page d after stop (kind, all) = Inr \<lparr>gp_messages = [], gp_complete = True\<rparr>"
  by (simp add: build_forward_gap_page_def select_forward_messages_def validate_gap_page_def guard_def and_then_def
      filter_False Let_def)

lemma full_empty_window_misses:
  assumes "length all = MESSAGE_HISTORY_PAGE_SIZE" "\<forall>x \<in> set all. raw_is_empty x" "kind \<noteq> RK_Other"
  shows "forward_window live after all
    \<and> build_forward_gap_page d after (\<lambda>_. False) (kind, all) = Inr \<lparr>gp_messages = [], gp_complete = True\<rparr>"
proof -
  have "real_ids all = {}" using assms(2) by (auto simp: real_ids_def)
  then show ?thesis using assms empty_window_complete[of all kind "\<lambda>_. False" d after] by (simp add: forward_window_def)
qed

end
