(* ===== verification/History_Sync.thy ===== *)
theory History_Sync
  imports History_State History_Pages
begin

text \<open>
  The two history engines: the backward download of a dialog (\<^verbatim>\<open>FullSyncWorker\<close>,
  \<^verbatim>\<open>sync_worker.py\<close>) and the forward gap fill (\<^verbatim>\<open>DeltaSyncWorker\<close>, \<^verbatim>\<open>delta_sync.py\<close>). A page is
  requested for the cursor of the row, and committed later in one write unit that checks the
  row again. Which dialog is next, the fetch with its error branches, and the commits.
\<close>

section \<open>Which dialog is next\<close>

definition hidden_dialog :: "Archive \<Rightarrow> int \<Rightarrow> bool" where
  "hidden_dialog a d \<longleftrightarrow> (case ar_directory a d of Some r \<Rightarrow> dr_hidden r | None \<Rightarrow> False)"

definition pending_dialog :: "Archive \<Rightarrow> int \<Rightarrow> int \<Rightarrow> bool" where
  "pending_dialog a now d \<longleftrightarrow> (case ar_rows a d of None \<Rightarrow> False
     | Some r \<Rightarrow> full_history_enabled a d \<and> sd_status r \<in> {CV_SYNCING, CV_NOT_SYNCED} \<and> \<not> hidden_dialog a d
         \<and> int_or_zero (sd_full_sync_retry_at r) \<le> now)"

text \<open>
  \<open>_NEXT_PENDING_SQL\<close>: the peers after the last attempted one come first, each half in the order
  of identifiers. \<open>dialogs\<close> lists the keys of the table.
\<close>

definition next_pending_dialog :: "int list \<Rightarrow> int \<Rightarrow> Archive \<Rightarrow> (int \<times> int) option" where
  "next_pending_dialog dialogs now a =
     (case sort_key (\<lambda>d. (if d > ar_full_cursor a then 0 else 1 :: int, d)) (filter (pending_dialog a now) dialogs) of
        [] \<Rightarrow> None
      | d # _ \<Rightarrow> Some (d, case ar_rows a d of Some r \<Rightarrow> int_or_zero (sd_sync_progress r) | None \<Rightarrow> 0))"

section \<open>Committing a backward page\<close>

record PageResult =
  pr_progress :: int
  pr_done :: bool
  pr_accepted :: bool
  pr_stale :: bool

definition coalesce :: "'a option \<Rightarrow> 'a option \<Rightarrow> 'a option" where
  "coalesce x y = (if x = None then y else x)"

text \<open>The condition the two progress updates share.\<close>

definition progress_current :: "Archive \<Rightarrow> int \<Rightarrow> int \<Rightarrow> bool" where
  "progress_current a d progress \<longleftrightarrow> full_history_enabled a d \<and> (case ar_rows a d of None \<Rightarrow> False
     | Some r \<Rightarrow> sd_status r \<in> {CV_NOT_SYNCED, CV_SYNCING} \<and> int_or_zero (sd_sync_progress r) = progress)"

definition begin_topic_pass :: "int \<Rightarrow> int \<Rightarrow> SyncedDialog \<Rightarrow> SyncedDialog" where
  "begin_topic_pass progress now r = (if progress \<noteq> 0 then r
     else r\<lparr>sd_topic_version := TOPIC_ATTRIBUTION_EXTRACTOR_VERSION, sd_topic_state := TS_PARTIAL,
       sd_topic_observed_at := Some now, sd_topic_completed_at := None\<rparr>)"

definition complete_topic_pass :: "int \<Rightarrow> SyncedDialog \<Rightarrow> SyncedDialog" where
  "complete_topic_pass now r =
     (if sd_topic_version r = TOPIC_ATTRIBUTION_EXTRACTOR_VERSION \<and> sd_topic_state r = TS_PARTIAL
      then r\<lparr>sd_topic_state := TS_COMPLETE, sd_topic_completed_at := Some now\<rparr> else r)"

definition terminal_row :: "int \<Rightarrow> int option \<Rightarrow> int \<Rightarrow> SyncedDialog \<Rightarrow> SyncedDialog" where
  "terminal_row progress count now r = r\<lparr>sd_sync_progress := Some progress, sd_status := CV_SYNCED,
     sd_total_messages := coalesce count (sd_total_messages r), sd_last_synced_at := Some now,
     sd_history_depth_complete := True\<rparr>"

definition store_terminal_page :: "int \<Rightarrow> int \<Rightarrow> int option \<Rightarrow> int \<Rightarrow> Archive \<Rightarrow> PageResult \<times> Archive" where
  "store_terminal_page d progress count now a =
     (if \<not> full_history_enabled a d
      then (\<lparr>pr_progress = progress, pr_done = True, pr_accepted = False, pr_stale = False\<rparr>, a)
      else if \<not> progress_current a d progress
      then (\<lparr>pr_progress = progress, pr_done = False, pr_accepted = False, pr_stale = True\<rparr>, a)
      else (\<lparr>pr_progress = progress, pr_done = True, pr_accepted = True, pr_stale = False\<rparr>,
        update_dialog d (complete_topic_pass now \<circ> begin_topic_pass progress now \<circ> terminal_row progress count now) a))"

definition continuation_row :: "int \<Rightarrow> int option \<Rightarrow> SyncedDialog \<Rightarrow> SyncedDialog" where
  "continuation_row new_progress count r = r\<lparr>sd_sync_progress := Some new_progress, sd_status := CV_SYNCING,
     sd_total_messages := coalesce count (sd_total_messages r)\<rparr>"

definition insert_rows :: "MessageRules \<Rightarrow> ReactionAggregateSource \<Rightarrow> ExtractedMessage list \<Rightarrow> Archive \<Rightarrow> Archive" where
  "insert_rows ru source batch a = a\<lparr>ar_messages := snd (insert_messages_with_fts ru source batch (ar_messages a))\<rparr>"

definition store_continuation_page :: "MessageRules \<Rightarrow> int \<Rightarrow> int \<Rightarrow> int option \<Rightarrow> ExtractedMessage list \<Rightarrow> int \<Rightarrow> int
    \<Rightarrow> Archive \<Rightarrow> PageResult \<times> Archive" where
  "store_continuation_page ru d progress count batch new_progress now a =
     (if \<not> full_history_enabled a d
      then (\<lparr>pr_progress = progress, pr_done = True, pr_accepted = False, pr_stale = True\<rparr>, a)
      else if \<not> progress_current a d progress
      then (\<lparr>pr_progress = progress, pr_done = False, pr_accepted = False, pr_stale = True\<rparr>, a)
      else (\<lparr>pr_progress = new_progress, pr_done = False, pr_accepted = True, pr_stale = False\<rparr>,
        insert_rows ru RS_HISTORY batch
          (update_dialog d (begin_topic_pass progress now \<circ> continuation_row new_progress count) a)))"

definition batch_top :: "ExtractedMessage list \<Rightarrow> int" where
  "batch_top batch = (if batch = [] then 0 else Max (set (map (\<lambda>x. sm_message_id (em_message x)) batch)))"

text \<open>
  \<open>_store_batch_page\<close>: the commit is one transaction, which the change of the acquisition scope
  before or after the action rolls back. The first page sets the forward cursor if it has none.
\<close>

definition store_batch_page :: "MessageRules \<Rightarrow> int \<Rightarrow> int \<Rightarrow> FullHistoryPage \<Rightarrow> bool \<times> bool \<Rightarrow> int
    \<Rightarrow> Archive \<Rightarrow> PageResult \<times> Archive" where
  "store_batch_page ru d progress page scope now a =
     (if \<not> (fst scope \<and> snd scope)
      then (\<lparr>pr_progress = progress, pr_done = False, pr_accepted = False, pr_stale = True\<rparr>, a)
      else let (result, a1) = (case fp_next_before page of
             None \<Rightarrow> store_terminal_page d progress (fp_total_messages page) now a
           | Some q \<Rightarrow> store_continuation_page ru d progress (fp_total_messages page) (fp_messages page) q now a)
        in (result, if pr_accepted result \<and> progress = 0
          then update_dialog d (\<lambda>r. r\<lparr>sd_delta_message_id :=
            coalesce (sd_delta_message_id r) (Some (batch_top (fp_messages page)))\<rparr>) a1
          else a1))"

section \<open>Fetching a backward page\<close>

text \<open>
  \<open>_fetch_batch\<close> from the response on: access loss is persisted, any other failure leaves the
  checkpoint, a cursor that does not move backwards is an error, and the total is kept from the
  first page only. \<open>published\<close> says whether the scope still held when the page's identities were
  published. The last component is the error the page reports.
\<close>

definition set_order :: "int \<Rightarrow> ExtractedMessage \<Rightarrow> ExtractedMessage" where
  "set_order order x = x\<lparr>em_observation_order := Some order\<rparr>"

definition retry_page :: "int \<Rightarrow> bool \<Rightarrow> bool \<Rightarrow> PageResult" where
  "retry_page progress finished stale = \<lparr>pr_progress = progress, pr_done = finished, pr_accepted = False, pr_stale = stale\<rparr>"

definition fetch_batch :: "MessageRules \<Rightarrow> int \<Rightarrow> int \<Rightarrow> int option \<Rightarrow> int \<Rightarrow> history_error + FullHistoryPage \<Rightarrow> bool
    \<Rightarrow> bool \<times> bool \<Rightarrow> int \<Rightarrow> Archive \<Rightarrow> (PageResult \<times> history_error option) \<times> Archive" where
  "fetch_batch ru d progress owner order response published scope now a =
     (case response of
        Inl (HE_Access_Lost reason) \<Rightarrow>
          let (changed, a1) = set_access_lost d now (Some reason) None owner (Some order) a
          in ((retry_page progress True (\<not> changed), None), a1)
      | Inl e \<Rightarrow> ((retry_page progress False False, Some e), a)
      | Inr page \<Rightarrow>
          if \<not> published then ((retry_page progress False True, None), a)
          else if (case fp_next_before page of Some q \<Rightarrow> 0 < progress \<and> progress \<le> q | None \<Rightarrow> False)
          then ((retry_page progress False False, Some HE_Unavailable), a)
          else let (result, a1) = store_batch_page ru d progress (page\<lparr>fp_messages := map (set_order order) (fp_messages page),
                 fp_total_messages := (if progress = 0 then fp_total_messages page else None)\<rparr>) scope now a
            in ((result, None), a1))"

section \<open>Forward gap fill\<close>

definition DELTA_SLICE_MESSAGE_LIMIT :: nat where
  "DELTA_SLICE_MESSAGE_LIMIT = 100"

definition DELTA_AUTOMATIC_REFRESH_INTERVAL_S :: int where
  "DELTA_AUTOMATIC_REFRESH_INTERVAL_S = 2 * 60 * 60"

definition delta_skip_anchor :: "int option \<Rightarrow> int option \<Rightarrow> int option" where
  "delta_skip_anchor last_synced_at last_delta_checked_at = coalesce last_delta_checked_at last_synced_at"

definition delta_release_at :: "int option \<Rightarrow> int option \<Rightarrow> int option \<Rightarrow> int" where
  "delta_release_at last_synced_at last_delta_checked_at refresh_requested_at =
     (case refresh_requested_at of Some t \<Rightarrow> t
      | None \<Rightarrow> (case delta_skip_anchor last_synced_at last_delta_checked_at of None \<Rightarrow> 0
          | Some t \<Rightarrow> t + DELTA_AUTOMATIC_REFRESH_INTERVAL_S))"

definition delta_selection_is_current :: "Archive \<Rightarrow> int \<Rightarrow> int \<Rightarrow> int \<Rightarrow> int option \<Rightarrow> bool" where
  "delta_selection_is_current a d cursor generation expected_done \<longleftrightarrow> (case ar_rows a d of None \<Rightarrow> False
     | Some r \<Rightarrow> int_or_zero (sd_delta_message_id r) = cursor \<and> sd_delta_refresh_generation r = generation
         \<and> (expected_done = None \<or> expected_done = Some (ar_delta_done a d)))"

definition stamp_delta_checkpoint :: "int \<Rightarrow> int \<Rightarrow> int \<Rightarrow> Archive \<Rightarrow> Archive" where
  "stamp_delta_checkpoint d checked_at generation a =
     (if ar_rows a d \<noteq> None \<and> full_history_enabled a d
      then (update_dialog d (\<lambda>r. r\<lparr>sd_last_synced_at := Some checked_at, sd_last_delta_checked_at := Some checked_at,
          sd_delta_refresh_requested_at := (if sd_delta_refresh_generation r = generation then None
            else sd_delta_refresh_requested_at r)\<rparr>) a)\<lparr>ar_delta_done := (ar_delta_done a)(d := ar_delta_done a d + 1)\<rparr>
      else a)"

definition persist_delta_continuation :: "int \<Rightarrow> bool \<Rightarrow> int \<Rightarrow> int \<Rightarrow> Archive \<Rightarrow> Archive" where
  "persist_delta_continuation d continuation_required now generation a =
     (if \<not> continuation_required then stamp_delta_checkpoint d now generation a
      else case ar_rows a d of None \<Rightarrow> a
        | Some r \<Rightarrow> if sd_delta_refresh_requested_at r = None then request_delta_refresh d now a else a)"

text \<open>
  \<open>_commit_delta_transaction\<close> of a page without an access recovery: \<open>False\<close> when the selection is
  not current any more or the dialog was disabled.
\<close>

definition commit_delta :: "MessageRules \<Rightarrow> int \<Rightarrow> ForwardGapPage \<Rightarrow> int \<Rightarrow> int \<Rightarrow> int option \<Rightarrow> int \<Rightarrow> int
    \<Rightarrow> Archive \<Rightarrow> bool \<times> Archive" where
  "commit_delta ru d page cursor generation expected_done order now a =
     (let rows = map (set_order order) (gp_messages page);
          continuation_required = (\<not> gp_complete page \<or> length rows = DELTA_SLICE_MESSAGE_LIMIT)
      in if \<not> delta_selection_is_current a d cursor generation expected_done then (False, a)
         else if \<not> full_history_enabled a d then (False, a)
         else let a1 = (if rows = [] then a else insert_rows ru RS_DELTA rows a);
                  a2 = update_dialog d (\<lambda>r. r\<lparr>sd_delta_message_id :=
                    Some (max (int_or_zero (sd_delta_message_id r)) (batch_top rows))\<rparr>) a1
           in (True, persist_delta_continuation d continuation_required now generation a2))"

text \<open>\<open>fetch_delta_slice_for_dialog\<close> from the response on.\<close>

definition fetch_delta_slice :: "MessageRules \<Rightarrow> int \<Rightarrow> int \<Rightarrow> int \<Rightarrow> int option \<Rightarrow> int option \<Rightarrow> int
    \<Rightarrow> history_error + ForwardGapPage \<Rightarrow> bool \<Rightarrow> int \<Rightarrow> Archive \<Rightarrow> (bool \<times> history_error option) \<times> Archive" where
  "fetch_delta_slice ru d cursor generation expected_done owner order response published now a =
     (case response of
        Inl (HE_Access_Lost reason) \<Rightarrow>
          ((False, None), snd (set_access_lost d now (Some reason) (Some generation) owner (Some order) a))
      | Inl e \<Rightarrow> ((False, Some e), a)
      | Inr page \<Rightarrow> if \<not> published then ((False, None), a)
          else let (committed, a1) = commit_delta ru d page cursor generation expected_done order now a
            in ((committed, None), a1))"
end
