(* ===== verification/History_World.thy ===== *)
theory History_World
  imports History_Sync
begin

text \<open>
  The archive and the server together: messages are posted and removed on the server, pages are
  in flight while operators, access events, realtime writers and other pages change the
  archive, and the process may crash. In every reachable state a dialog marked as synced holds,
  up to its forward cursor, every message the server still has, as a row or a tombstone.
\<close>

section \<open>Operations on the archive\<close>

datatype archive_op =
    AO_Enable int int
  | AO_Disable int int
  | AO_Auto_Dm int int
  | AO_Group int bool "int option" int
  | AO_Own_Only int
  | AO_Request_Delta int int
  | AO_Lost int int "string option" "int option" "int option" "int option"
  | AO_Recovery int int
  | AO_Restore int int "int option" "int option"
  | AO_Stamp int int int
  | AO_Complete int int
  | AO_Unhide int
  | AO_Messages message_op

fun archive_step :: "MessageRules \<Rightarrow> archive_op \<Rightarrow> Archive \<Rightarrow> Archive" where
  "archive_step ru (AO_Enable d now) a = snd (enable_history d now a)"
| "archive_step ru (AO_Disable d now) a = snd (disable_history d now a)"
| "archive_step ru (AO_Auto_Dm d now) a = snd (ensure_automatic_dm_enrollment d now a)"
| "archive_step ru (AO_Group d enabled n now) a = snd (record_automatic_group_decision d enabled n now a)"
| "archive_step ru (AO_Own_Only d) a = enroll_own_only_sync_dialog d a"
| "archive_step ru (AO_Request_Delta d now) a = request_delta_refresh d now a"
| "archive_step ru (AO_Lost d now reason generation owner order) a = snd (set_access_lost d now reason generation owner order a)"
| "archive_step ru (AO_Recovery d order) a =
     (case record_access_recovery_observation d order a of Some (_, a') \<Rightarrow> a' | None \<Rightarrow> a)"
| "archive_step ru (AO_Restore d now n order) a = snd (restore_access_after_revalidation d now n order a)"
| "archive_step ru (AO_Stamp d now cooldown) a = stamp_access_revalidation d now cooldown a"
| "archive_step ru (AO_Complete d now) a = complete_access_revalidation d now a"
| "archive_step ru (AO_Unhide d) a = snd (unhide_after_realtime_presence d a)"
| "archive_step ru (AO_Messages e) a = a\<lparr>ar_messages := message_step ru e (ar_messages a)\<rparr>"

section \<open>The world\<close>

datatype flight =
    Full_Flight int int int "history_error + FullHistoryPage"
  | Delta_Flight int int int "int option" int "history_error + ForwardGapPage"

text \<open>
  \<open>wd_live d\<close> are the messages the server holds in dialog \<open>d\<close>, \<open>wd_top d\<close> the greatest identifier
  it ever gave out there.
\<close>

record HistoryWorld =
  wd_archive :: Archive
  wd_live :: "int \<Rightarrow> int set"
  wd_top :: "int \<Rightarrow> int"
  wd_flight :: "flight list"

definition land :: "flight \<Rightarrow> Archive \<Rightarrow> HistoryWorld \<Rightarrow> HistoryWorld" where
  "land f a w = w\<lparr>wd_archive := a, wd_flight := remove1 f (wd_flight w)\<rparr>"

text \<open>
  A response carries the checkpoint \<open>p\<close> (or the forward cursor) the row had when the request was
  made; nothing else is assumed of it than that it does not lie beyond the newest message. The
  state of the row may have changed any number of times when the page is committed.
\<close>

inductive world_step :: "MessageRules \<Rightarrow> HistoryWorld \<Rightarrow> HistoryWorld \<Rightarrow> bool" for ru where
  Post: "wd_top w d < m \<Longrightarrow> world_step ru w
     (w\<lparr>wd_live := (wd_live w)(d := insert m (wd_live w d)), wd_top := (wd_top w)(d := m)\<rparr>)"
| Remove: "world_step ru w (w\<lparr>wd_live := (wd_live w)(d := wd_live w d - {m})\<rparr>)"
| Local: "world_step ru w (w\<lparr>wd_archive := archive_step ru e (wd_archive w)\<rparr>)"
| Full_Response: "0 \<le> p \<Longrightarrow> p \<le> wd_top w d \<Longrightarrow> backward_window (wd_live w d) p raw \<Longrightarrow>
     \<forall>n \<in> set (raw_ids raw). n \<le> wd_top w d \<Longrightarrow>
     world_step ru w (w\<lparr>wd_flight := Full_Flight d p order (full_history_page d (Inr (count, raw))) # wd_flight w\<rparr>)"
| Delta_Response: "0 \<le> c \<Longrightarrow> forward_window (wd_live w d) c raw \<Longrightarrow> \<forall>n \<in> set (raw_ids raw). n \<le> wd_top w d \<Longrightarrow>
     world_step ru w (w\<lparr>wd_flight :=
       Delta_Flight d c generation finished order (forward_gap_page d c stop (Inr (kind, raw))) # wd_flight w\<rparr>)"
| Failure: "f \<in> {Full_Flight d p order (Inl e), Delta_Flight d p generation finished order (Inl e)} \<Longrightarrow>
     world_step ru w (w\<lparr>wd_flight := f # wd_flight w\<rparr>)"
| Full_Commit: "Full_Flight d p order response \<in> set (wd_flight w) \<Longrightarrow> world_step ru w
     (land (Full_Flight d p order response)
       (snd (fetch_batch ru d p owner order response published scope now (wd_archive w))) w)"
| Delta_Commit: "Delta_Flight d c generation finished order response \<in> set (wd_flight w) \<Longrightarrow> world_step ru w
     (land (Delta_Flight d c generation finished order response)
       (snd (fetch_delta_slice ru d c generation finished owner order response published now (wd_archive w))) w)"
| Crash: "world_step ru w (w\<lparr>wd_flight := []\<rparr>)"

inductive reachable_world :: "MessageRules \<Rightarrow> HistoryWorld \<Rightarrow> HistoryWorld \<Rightarrow> bool" for ru where
  start: "reachable_world ru w w"
| step: "reachable_world ru w w' \<Longrightarrow> world_step ru w' w'' \<Longrightarrow> reachable_world ru w w''"

inductive_cases world_stepE: "world_step ru w w'"

section \<open>The invariant\<close>

definition row_complete :: "(int \<Rightarrow> bool) \<Rightarrow> int set \<Rightarrow> int \<Rightarrow> SyncedDialog \<Rightarrow> bool" where
  "row_complete known live newest r \<longleftrightarrow>
     0 \<le> int_or_zero (sd_sync_progress r)
     \<and> (sd_status r = CV_SYNCED \<longrightarrow> sd_history_depth_complete r)
     \<and> (case sd_delta_message_id r of
          None \<Rightarrow> int_or_zero (sd_sync_progress r) = 0 \<and> \<not> sd_history_depth_complete r
        | Some c \<Rightarrow> c \<le> newest \<and> (\<forall>m \<in> live. m \<le> c \<longrightarrow>
            sd_history_depth_complete r \<or> int_or_zero (sd_sync_progress r) \<le> m \<longrightarrow> known m))"

definition full_page_ok :: "int set \<Rightarrow> int \<Rightarrow> int \<Rightarrow> int \<Rightarrow> FullHistoryPage \<Rightarrow> bool" where
  "full_page_ok live newest d p page \<longleftrightarrow>
     0 \<le> p \<and> p \<le> newest \<and> batch_top (fp_messages page) \<le> newest
     \<and> (case fp_next_before page of
          None \<Rightarrow> fp_messages page = [] \<and> (0 < p \<longrightarrow> (\<forall>m \<in> live. \<not> m < p))
        | Some q \<Rightarrow> 0 < q \<and> (\<forall>m \<in> live. q \<le> m \<longrightarrow> (if p = 0 then m \<le> batch_top (fp_messages page) else m < p) \<longrightarrow>
            (d, m) \<in> item_key ` set (fp_messages page)))"

definition gap_page_ok :: "int set \<Rightarrow> int \<Rightarrow> int \<Rightarrow> int \<Rightarrow> ForwardGapPage \<Rightarrow> bool" where
  "gap_page_ok live newest d c page \<longleftrightarrow> 0 \<le> c \<and> batch_top (gp_messages page) \<le> newest
     \<and> (\<forall>m \<in> live. c < m \<longrightarrow> m \<le> batch_top (gp_messages page) \<longrightarrow> (d, m) \<in> item_key ` set (gp_messages page))"

fun flight_ok :: "HistoryWorld \<Rightarrow> flight \<Rightarrow> bool" where
  "flight_ok w (Full_Flight d p order (Inr page)) = full_page_ok (wd_live w d) (wd_top w d) d p page"
| "flight_ok w (Delta_Flight d c generation finished order (Inr page)) = gap_page_ok (wd_live w d) (wd_top w d) d c page"
| "flight_ok w _ = True"

definition messages_agree :: "MessageRules \<Rightarrow> MessageDb \<Rightarrow> bool" where
  "messages_agree ru db \<longleftrightarrow> (\<forall>k. tables_agree ru db k)"

definition archive_ok :: "MessageRules \<Rightarrow> (int \<Rightarrow> int set) \<Rightarrow> (int \<Rightarrow> int) \<Rightarrow> Archive \<Rightarrow> bool" where
  "archive_ok ru live newest a \<longleftrightarrow> messages_agree ru (ar_messages a)
     \<and> (\<forall>d r. ar_rows a d = Some r \<longrightarrow> row_complete (\<lambda>m. known_message (ar_messages a) (d, m)) (live d) (newest d) r)"

definition world_ok :: "MessageRules \<Rightarrow> HistoryWorld \<Rightarrow> bool" where
  "world_ok ru w \<longleftrightarrow> (\<forall>d. \<forall>m \<in> wd_live w d. 0 < m \<and> m \<le> wd_top w d) \<and> (\<forall>d. 0 \<le> wd_top w d)
     \<and> archive_ok ru (wd_live w) (wd_top w) (wd_archive w) \<and> (\<forall>f \<in> set (wd_flight w). flight_ok w f)"

section \<open>Gentle changes of a row\<close>

text \<open>
  Operations other than a commit keep both cursors, except that a dialog that was synced may be
  downloaded again from the top; none of them marks a dialog as synced.
\<close>

definition gentle :: "SyncedDialog \<Rightarrow> SyncedDialog \<Rightarrow> bool" where
  "gentle r r' \<longleftrightarrow> sd_delta_message_id r' = sd_delta_message_id r
     \<and> sd_history_depth_complete r' = sd_history_depth_complete r
     \<and> (sd_sync_progress r' = sd_sync_progress r \<or> sd_sync_progress r' = Some 0 \<and> sd_status r = CV_SYNCED)
     \<and> (sd_status r' = CV_SYNCED \<longrightarrow> sd_status r = CV_SYNCED)"

definition fresh_row :: "SyncedDialog \<Rightarrow> bool" where
  "fresh_row r \<longleftrightarrow> sd_delta_message_id r = None \<and> \<not> sd_history_depth_complete r
     \<and> sd_sync_progress r = Some 0 \<and> sd_status r \<noteq> CV_SYNCED"

definition gentle_at :: "SyncedDialog option \<Rightarrow> SyncedDialog option \<Rightarrow> bool" where
  "gentle_at o1 o2 \<longleftrightarrow> (case o2 of None \<Rightarrow> True
     | Some r' \<Rightarrow> (case o1 of None \<Rightarrow> fresh_row r' | Some r \<Rightarrow> gentle r r'))"

lemma gentle_complete: "row_complete known live newest r \<Longrightarrow> gentle r r' \<Longrightarrow> row_complete known live newest r'"
  by (auto simp: row_complete_def gentle_def int_or_zero_def split: option.splits)

lemma fresh_complete: "fresh_row r \<Longrightarrow> row_complete known live newest r"
  by (simp add: row_complete_def fresh_row_def int_or_zero_def)

lemma gentle_refl [simp]: "gentle r r" "gentle_at o1 o1"
  by (auto simp: gentle_def gentle_at_def split: option.split)

lemma update_dialog_at [simp]: "ar_rows (update_dialog d f a) d' = (if d' = d then map_option f (ar_rows a d) else ar_rows a d')"
  and update_dialog_messages [simp]: "ar_messages (update_dialog d f a) = ar_messages a"
  and update_dialog_intent [simp]: "ar_intent (update_dialog d f a) = ar_intent a"
  and update_dialog_facts [simp]: "ar_facts (update_dialog d f a) = ar_facts a"
  by (simp_all add: update_dialog_def)

lemmas row_ops = reset_read_position_retry_def store_intent_def request_delta_refresh_def coverage_status_def read_intent_def

lemma enable_gentle: "gentle_at (ar_rows a d') (ar_rows (snd (enable_history d now a)) d')"
    "ar_messages (snd (enable_history d now a)) = ar_messages a"
  by (auto simp: enable_history_def row_ops Let_def gentle_at_def gentle_def fresh_row_def new_synced_dialog_def
      split: option.splits if_splits)

lemma disable_gentle: "gentle_at (ar_rows a d') (ar_rows (snd (disable_history d now a)) d')"
    "ar_messages (snd (disable_history d now a)) = ar_messages a"
  by (auto simp: disable_history_def row_ops Let_def gentle_at_def gentle_def split: option.splits)

lemma auto_dm_gentle: "gentle_at (ar_rows a d') (ar_rows (snd (ensure_automatic_dm_enrollment d now a)) d')"
    "ar_messages (snd (ensure_automatic_dm_enrollment d now a)) = ar_messages a"
proof -
  have up: "gentle_at o1 (map_option (\<lambda>r. r\<lparr>sd_status := CV_SYNCING\<rparr>) o2)" if "gentle_at o1 o2" for o1 o2
    using that by (auto simp: gentle_at_def gentle_def fresh_row_def split: option.splits)
  show "gentle_at (ar_rows a d') (ar_rows (snd (ensure_automatic_dm_enrollment d now a)) d')"
    using enable_gentle(1)[where a = a and d = d and now = now] up
    by (auto simp: ensure_automatic_dm_enrollment_def split_beta Let_def split: option.split)
  show "ar_messages (snd (ensure_automatic_dm_enrollment d now a)) = ar_messages a"
    using enable_gentle(2)
    by (auto simp: ensure_automatic_dm_enrollment_def split_beta Let_def split: option.split)
qed

lemma group_gentle: "gentle_at (ar_rows a d') (ar_rows (snd (record_automatic_group_decision d enabled n now a)) d')"
    "ar_messages (snd (record_automatic_group_decision d enabled n now a)) = ar_messages a"
  by (auto simp: record_automatic_group_decision_def row_ops Let_def gentle_at_def gentle_def fresh_row_def
      new_synced_dialog_def split: option.splits)

lemma claim_frame [simp]: "ar_rows (snd (claim_dialog_fact d f n a)) = ar_rows a"
    "ar_messages (snd (claim_dialog_fact d f n a)) = ar_messages a"
  by (simp_all add: claim_dialog_fact_def Let_def)

lemma accept_frame [simp]: "ar_rows (snd (accept_access_loss d owner order a)) = ar_rows a"
    "ar_messages (snd (accept_access_loss d owner order a)) = ar_messages a"
  by (auto simp: accept_access_loss_def split: option.split)

lemma mark_gentle: "gentle_at (ar_rows a d') (ar_rows (snd (mark_access_lost_state d now g a)) d')"
    "ar_messages (snd (mark_access_lost_state d now g a)) = ar_messages a"
  by (auto simp: mark_access_lost_state_def row_ops Let_def gentle_at_def gentle_def fresh_row_def
      new_synced_dialog_def split: option.splits)

lemma lost_gentle: "gentle_at (ar_rows a d') (ar_rows (snd (set_access_lost d now reason g owner order a)) d')"
    "ar_messages (snd (set_access_lost d now reason g owner order a)) = ar_messages a"
  using mark_gentle(1)[of "snd (accept_access_loss d owner order a)" d' d now g]
    mark_gentle(2)[of d now g "snd (accept_access_loss d owner order a)"]
  by (simp_all add: set_access_lost_def split_beta Let_def)

lemma recovery_frame: "record_access_recovery_observation d order a = Some (b, a') \<Longrightarrow> ar_rows a' = ar_rows a \<and> ar_messages a' = ar_messages a"
  by (auto simp: record_access_recovery_observation_def claim_dialog_fact_def Let_def split: if_splits)

lemma restore_gentle: "gentle_at (ar_rows a d') (ar_rows (snd (restore_access_after_revalidation d now n order a)) d')"
    "ar_messages (snd (restore_access_after_revalidation d now n order a)) = ar_messages a"
  by (auto simp: restore_access_after_revalidation_def restore_access_status_def row_ops Let_def gentle_at_def gentle_def
      split: option.splits)

lemma access_gentle:
  "gentle_at (ar_rows a d') (ar_rows (stamp_access_revalidation d now cooldown a) d')"
  "gentle_at (ar_rows a d') (ar_rows (complete_access_revalidation d now a) d')"
  "gentle_at (ar_rows a d') (ar_rows (request_delta_refresh d now a) d')"
  "gentle_at (ar_rows a d') (ar_rows (enroll_own_only_sync_dialog d a) d')"
  by (auto simp: stamp_access_revalidation_def complete_access_revalidation_def request_delta_refresh_def
      enroll_own_only_sync_dialog_def gentle_at_def gentle_def fresh_row_def new_synced_dialog_def split: option.splits)

lemma access_frame:
  "ar_messages (stamp_access_revalidation d now cooldown a) = ar_messages a"
  "ar_messages (complete_access_revalidation d now a) = ar_messages a"
  "ar_messages (request_delta_refresh d now a) = ar_messages a"
  "ar_messages (enroll_own_only_sync_dialog d a) = ar_messages a"
  "ar_messages (snd (unhide_after_realtime_presence d a)) = ar_messages a"
  "ar_rows (snd (unhide_after_realtime_presence d a)) = ar_rows a"
  by (auto simp: stamp_access_revalidation_def complete_access_revalidation_def request_delta_refresh_def
      enroll_own_only_sync_dialog_def unhide_after_realtime_presence_def split: option.splits)

lemma archive_step_gentle:
  assumes "\<forall>m. e \<noteq> AO_Messages m"
  shows "gentle_at (ar_rows a d') (ar_rows (archive_step ru e a) d')" "ar_messages (archive_step ru e a) = ar_messages a"
  using assms
  by (cases e; auto simp: enable_gentle disable_gentle auto_dm_gentle group_gentle lost_gentle restore_gentle access_gentle
      access_frame dest: recovery_frame split: option.split)+

lemma archive_ok_gentle:
  assumes "archive_ok ru live newest a" "\<And>d. gentle_at (ar_rows a d) (ar_rows a' d)" "ar_messages a' = ar_messages a"
  shows "archive_ok ru live newest a'"
  unfolding archive_ok_def
proof (intro conjI allI impI)
  show "messages_agree ru (ar_messages a')" using assms(1,3) by (simp add: archive_ok_def)
  fix d r assume r: "ar_rows a' d = Some r"
  show "row_complete (\<lambda>m. known_message (ar_messages a') (d, m)) (live d) (newest d) r"
  proof (cases "ar_rows a d")
    case None
    with assms(2)[of d] r show ?thesis by (auto simp: gentle_at_def intro: fresh_complete)
  next
    case (Some r0)
    with assms(2)[of d] r have "gentle r0 r" by (simp add: gentle_at_def)
    moreover have "row_complete (\<lambda>m. known_message (ar_messages a') (d, m)) (live d) (newest d) r0"
      using assms(1,3) Some by (simp add: archive_ok_def)
    ultimately show ?thesis by (rule gentle_complete[rotated])
  qed
qed

lemma row_complete_mono:
  "row_complete known live newest r \<Longrightarrow> (\<And>m. m \<in> live' \<Longrightarrow> m \<in> live \<and> (known m \<longrightarrow> known' m) \<or> newest < m) \<Longrightarrow> newest \<le> newest'
     \<Longrightarrow> row_complete known' live' newest' r"
  by (force simp: row_complete_def split: option.splits)

lemma messages_agree_step: "messages_agree ru db \<Longrightarrow> messages_agree ru (message_step ru e db)"
  using tables_agree_step unfolding messages_agree_def by blast

lemma archive_ok_messages:
  assumes "archive_ok ru live newest a"
  shows "archive_ok ru live newest (a\<lparr>ar_messages := message_step ru e (ar_messages a)\<rparr>)"
  using assms messages_agree_step[of ru "ar_messages a" e] known_message_step[of "ar_messages a" _ ru e]
  by (auto simp: archive_ok_def intro!: row_complete_mono[of _ _ _ _ _ _ "newest _"])

lemma archive_ok_step: "archive_ok ru live newest a \<Longrightarrow> archive_ok ru live newest (archive_step ru e a)"
proof (cases "\<exists>m. e = AO_Messages m")
  case True
  then show "archive_ok ru live newest a \<Longrightarrow> ?thesis" using archive_ok_messages by auto
next
  case False
  then show "archive_ok ru live newest a \<Longrightarrow> ?thesis"
    using archive_ok_gentle archive_step_gentle by blast
qed
end
