(* ===== verification/History_Complete.thy ===== *)
theory History_Complete
  imports History_World
begin

text \<open>
  Commits keep the invariant of the archive, so it holds in every reachable world: what a
  dialog marked as synced holds, what a completed forward slice brings, and that the download
  of a dialog ends.
\<close>

section \<open>Committing a backward page\<close>

lemma set_order_parts [simp]: "item_key (set_order n x) = item_key x" "em_message (set_order n x) = em_message x"
  by (simp_all add: set_order_def item_key_def)

lemma keys_ordered [simp]: "item_key ` set_order n ` S = item_key ` S"
  by (auto simp: image_image)

lemma top_ordered [simp]: "batch_top (map (set_order n) xs) = batch_top xs"
  by (simp add: batch_top_def comp_def)

lemma insert_rows_parts [simp]:
  "ar_rows (insert_rows ru source batch a) = ar_rows a"
  "ar_messages (insert_rows ru source batch a) = message_step ru (MO_Insert source batch) (ar_messages a)"
  "ar_intent (insert_rows ru source batch a) = ar_intent a"
  by (simp_all add: insert_rows_def)

lemma inserted_known:
  assumes "messages_agree ru (ar_messages a)" "k \<in> item_key ` set batch"
  shows "known_message (message_step ru (MO_Insert source batch) (ar_messages a)) k"
  using insert_makes_known[OF assms(1)[unfolded messages_agree_def], of _ batch source] assms(2) by auto

lemma archive_ok_row:
  assumes "archive_ok ru live newest (a\<lparr>ar_messages := ar_messages a'\<rparr>)"
    and "\<And>d'. d' \<noteq> d \<Longrightarrow> ar_rows a' d' = ar_rows a d'"
    and "\<And>r'. ar_rows a' d = Some r' \<Longrightarrow> row_complete (\<lambda>m. known_message (ar_messages a') (d, m)) (live d) (newest d) r'"
  shows "archive_ok ru live newest a'"
  unfolding archive_ok_def
proof (intro conjI allI impI)
  show "messages_agree ru (ar_messages a')" using assms(1) by (simp add: archive_ok_def)
  fix d' r assume r: "ar_rows a' d' = Some r"
  show "row_complete (\<lambda>m. known_message (ar_messages a') (d', m)) (live d') (newest d') r"
    using assms r by (cases "d' = d") (auto simp: archive_ok_def)
qed

lemma update_dialog_id [simp]: "update_dialog d (\<lambda>r. r) a = a"
  by (simp add: update_dialog_def option.map_ident fun_upd_idem)

lemma progress_currentE:
  assumes "progress_current a d p"
  obtains r where "ar_rows a d = Some r" "int_or_zero (sd_sync_progress r) = p" "sd_status r \<noteq> CV_SYNCED"
  using assms by (auto simp: progress_current_def split: option.splits)

lemma topic_pass_parts [simp]:
  "sd_sync_progress (begin_topic_pass p now r) = sd_sync_progress r" "sd_status (begin_topic_pass p now r) = sd_status r"
  "sd_delta_message_id (begin_topic_pass p now r) = sd_delta_message_id r"
  "sd_history_depth_complete (begin_topic_pass p now r) = sd_history_depth_complete r"
  "sd_sync_progress (complete_topic_pass now r) = sd_sync_progress r" "sd_status (complete_topic_pass now r) = sd_status r"
  "sd_delta_message_id (complete_topic_pass now r) = sd_delta_message_id r"
  "sd_history_depth_complete (complete_topic_pass now r) = sd_history_depth_complete r"
  by (simp_all add: begin_topic_pass_def complete_topic_pass_def)

lemma terminal_complete:
  assumes "row_complete known live newest r" "full_page_ok live newest d p page" "fp_next_before page = None"
    and "\<forall>m \<in> live. 0 < m" "int_or_zero (sd_sync_progress r) = p" "0 \<le> newest"
    and "r' = (if p = 0 then r1\<lparr>sd_delta_message_id := coalesce (sd_delta_message_id r1) (Some (batch_top (fp_messages page)))\<rparr> else r1)"
    and "r1 = (complete_topic_pass now \<circ> begin_topic_pass p now \<circ> terminal_row p count now) r"
  shows "row_complete known live newest r'"
  using assms
  by (auto simp: row_complete_def full_page_ok_def terminal_row_def coalesce_def int_or_zero_def batch_top_def split: option.splits)

lemma continuation_complete:
  assumes "row_complete known live newest r" "full_page_ok live newest d p page" "fp_next_before page = Some q"
    and "int_or_zero (sd_sync_progress r) = p" "sd_status r \<noteq> CV_SYNCED"
    and "\<And>m. known m \<Longrightarrow> known' m" "\<And>m. (d, m) \<in> item_key ` set (fp_messages page) \<Longrightarrow> known' m"
    and "r' = (if p = 0 then r1\<lparr>sd_delta_message_id := coalesce (sd_delta_message_id r1) (Some (batch_top (fp_messages page)))\<rparr> else r1)"
    and "r1 = (begin_topic_pass p now \<circ> continuation_row q count) r"
  shows "row_complete known' live newest r'"
proof (cases "sd_delta_message_id r")
  case None
  then have "p = 0" "\<not> sd_history_depth_complete r" using assms(1,4) by (auto simp: row_complete_def)
  then show ?thesis using None assms
    by (auto simp: row_complete_def full_page_ok_def continuation_row_def coalesce_def int_or_zero_def)
next
  case (Some c)
  have c: "c \<le> newest" and old: "m \<in> live \<Longrightarrow> m \<le> c \<Longrightarrow> sd_history_depth_complete r \<or> p \<le> m \<Longrightarrow> known m" for m
    using assms(1,4) Some by (auto simp: row_complete_def)
  have "known' m" if m: "m \<in> live" "m \<le> c" "sd_history_depth_complete r \<or> q \<le> m" for m
  proof (cases "sd_history_depth_complete r \<or> p \<le> m")
    case False
    then have "(d, m) \<in> item_key ` set (fp_messages page)"
      using m assms(2,3) by (auto simp: full_page_ok_def)
    then show ?thesis by (rule assms(7))
  qed (use old m assms(6) in blast)
  then show ?thesis using c Some assms(2,3,8,9)
    by (auto simp: row_complete_def full_page_ok_def continuation_row_def coalesce_def int_or_zero_def)
qed

lemma store_page_ok:
  assumes "archive_ok ru live newest a" "full_page_ok (live d) (newest d) d p page" "\<forall>m \<in> live d. 0 < m" "0 \<le> newest d"
    and page': "fp_next_before page' = fp_next_before page" "batch_top (fp_messages page') = batch_top (fp_messages page)"
      "item_key ` set (fp_messages page') = item_key ` set (fp_messages page)"
  shows "archive_ok ru live newest (snd (store_batch_page ru d p page' scope now a))"
proof -
  let ?count = "fp_total_messages page'"
  let ?top = "batch_top (fp_messages page)"
  let ?fix = "\<lambda>r. if p = 0 then r\<lparr>sd_delta_message_id := coalesce (sd_delta_message_id r) (Some ?top)\<rparr> else r"
  have fix_row: "(if p = 0 then update_dialog d (\<lambda>r. r\<lparr>sd_delta_message_id := coalesce (sd_delta_message_id r) (Some ?top)\<rparr>) x else x)
      = update_dialog d ?fix x" for x
    by simp
  have refused: "snd (store_batch_page ru d p page' scope now a) = a"
    if "\<not> (fst scope \<and> snd scope \<and> progress_current a d p)"
    using that by (cases "fp_next_before page'")
      (auto simp: store_batch_page_def store_terminal_page_def store_continuation_page_def)
  have taken: "snd (store_batch_page ru d p page' scope now a) = (case fp_next_before page of
        None \<Rightarrow> update_dialog d ?fix
          (update_dialog d (complete_topic_pass now \<circ> begin_topic_pass p now \<circ> terminal_row p ?count now) a)
      | Some q \<Rightarrow> update_dialog d ?fix
          (insert_rows ru RS_HISTORY (fp_messages page') (update_dialog d (begin_topic_pass p now \<circ> continuation_row q ?count) a)))"
    if "fst scope" "snd scope" "progress_current a d p"
    using that by (cases "fp_next_before page")
      (simp_all add: store_batch_page_def store_terminal_page_def store_continuation_page_def page' fix_row
        progress_current_def)
  consider "snd (store_batch_page ru d p page' scope now a) = a"
    | "progress_current a d p" "fp_next_before page = None"
      "snd (store_batch_page ru d p page' scope now a) = update_dialog d ?fix
        (update_dialog d (complete_topic_pass now \<circ> begin_topic_pass p now \<circ> terminal_row p ?count now) a)"
    | q where "progress_current a d p" "fp_next_before page = Some q"
      "snd (store_batch_page ru d p page' scope now a) = update_dialog d ?fix
        (insert_rows ru RS_HISTORY (fp_messages page') (update_dialog d (begin_topic_pass p now \<circ> continuation_row q ?count) a))"
    using refused taken by (cases "fp_next_before page") auto
  then show ?thesis
  proof cases
    case 1
    then show ?thesis using assms(1) by simp
  next
    case 2
    from 2(1) obtain r where r: "ar_rows a d = Some r" "int_or_zero (sd_sync_progress r) = p" by (rule progress_currentE)
    show ?thesis
    proof (rule archive_ok_row)
      show "archive_ok ru live newest (a\<lparr>ar_messages := ar_messages (snd (store_batch_page ru d p page' scope now a))\<rparr>)"
        using assms(1) by (simp add: 2(3))
    next
      fix r' assume "ar_rows (snd (store_batch_page ru d p page' scope now a)) d = Some r'"
      then have r': "r' = ?fix ((complete_topic_pass now \<circ> begin_topic_pass p now \<circ> terminal_row p ?count now) r)"
        using r(1) unfolding 2(3) by (cases "p = 0") simp_all
      have "row_complete (\<lambda>m. known_message (ar_messages a) (d, m)) (live d) (newest d) r"
        using assms(1) r(1) by (simp add: archive_ok_def)
      from terminal_complete[OF this assms(2) 2(2) assms(3) r(2) assms(4) r' refl]
      show "row_complete (\<lambda>m. known_message (ar_messages (snd (store_batch_page ru d p page' scope now a))) (d, m)) (live d) (newest d) r'"
        by (simp add: 2(3))
    qed (simp add: 2(3))
  next
    case (3 q)
    from 3(1) obtain r where r: "ar_rows a d = Some r" "int_or_zero (sd_sync_progress r) = p" "sd_status r \<noteq> CV_SYNCED"
      by (rule progress_currentE)
    let ?a' = "snd (store_batch_page ru d p page' scope now a)"
    have msgs: "ar_messages ?a' = message_step ru (MO_Insert RS_HISTORY (fp_messages page')) (ar_messages a)"
      by (simp add: 3(3) del: message_step.simps)
    show ?thesis
    proof (rule archive_ok_row)
      show "archive_ok ru live newest (a\<lparr>ar_messages := ar_messages ?a'\<rparr>)"
        unfolding msgs using archive_ok_messages[OF assms(1)] .
    next
      fix r' assume "ar_rows ?a' d = Some r'"
      then have r': "r' = ?fix ((begin_topic_pass p now \<circ> continuation_row q ?count) r)"
        using r(1) unfolding 3(3) by (cases "p = 0") simp_all
      have old: "row_complete (\<lambda>m. known_message (ar_messages a) (d, m)) (live d) (newest d) r" and agree: "messages_agree ru (ar_messages a)"
        using assms(1) r(1) by (simp_all add: archive_ok_def)
      show "row_complete (\<lambda>m. known_message (ar_messages ?a') (d, m)) (live d) (newest d) r'"
      proof (rule continuation_complete[OF old assms(2) 3(2) r(2,3) _ _ r' refl])
        show "known_message (ar_messages ?a') (d, m)" if "known_message (ar_messages a) (d, m)" for m
          unfolding msgs by (rule known_message_step[OF that])
        show "known_message (ar_messages ?a') (d, m)" if "(d, m) \<in> item_key ` set (fp_messages page)" for m
          unfolding msgs by (rule inserted_known[OF agree]) (use that page'(3) in simp)
      qed
    qed (simp add: 3(3))
  qed
qed

lemma fetch_batch_ok:
  assumes "archive_ok ru live newest a" "\<forall>m \<in> live d. 0 < m" "0 \<le> newest d"
    and "\<And>page. response = Inr page \<Longrightarrow> full_page_ok (live d) (newest d) d p page"
  shows "archive_ok ru live newest (snd (fetch_batch ru d p owner order response published scope now a))"
proof (cases response)
  case (Inl e)
  then show ?thesis
    using assms(1) archive_ok_step[OF assms(1), of "AO_Lost d now (Some r) None owner (Some order)" for r]
    by (cases e) (simp_all add: fetch_batch_def split_beta Let_def)
next
  case (Inr page)
  let ?page = "page\<lparr>fp_messages := map (set_order order) (fp_messages page),
      fp_total_messages := (if p = 0 then fp_total_messages page else None)\<rparr>"
  have "archive_ok ru live newest (snd (store_batch_page ru d p ?page scope now a))"
    by (rule store_page_ok[OF assms(1) assms(4)[OF Inr] assms(2,3)]) simp_all
  then show ?thesis
    using assms(1) by (simp add: fetch_batch_def Inr split_beta Let_def)
qed

section \<open>Committing a forward page\<close>

lemma continuation_gentle:
  "gentle_at (ar_rows a d') (ar_rows (persist_delta_continuation d b now g a) d')"
  "ar_messages (persist_delta_continuation d b now g a) = ar_messages a"
  using access_gentle(3)[of a d' d now]
  by (auto simp: persist_delta_continuation_def stamp_delta_checkpoint_def gentle_at_def gentle_def request_delta_refresh_def
      split: option.splits)

lemma delta_complete:
  assumes "row_complete known live newest r" "gap_page_ok live newest d c page" "\<forall>m \<in> live. 0 < m" "0 \<le> newest"
    and "int_or_zero (sd_delta_message_id r) = c"
    and "\<And>m. known m \<Longrightarrow> known' m" "\<And>m. (d, m) \<in> item_key ` set (gp_messages page) \<Longrightarrow> known' m"
  shows "row_complete known' live newest (r\<lparr>sd_delta_message_id := Some (max c (batch_top (gp_messages page)))\<rparr>)"
proof -
  have "known' m" if m: "m \<in> live" "m \<le> max c (batch_top (gp_messages page))"
    "sd_history_depth_complete r \<or> int_or_zero (sd_sync_progress r) \<le> m" for m
  proof (cases "m \<le> c")
    case True
    show ?thesis
    proof (cases "sd_delta_message_id r")
      case None
      then show ?thesis using True m(1) assms(3,5) by (auto simp: int_or_zero_def)
    next
      case (Some c')
      then have "c' = c" using assms(5) by (simp add: int_or_zero_def)
      then have "known m" using assms(1) Some m True by (auto simp: row_complete_def)
      then show ?thesis by (rule assms(6))
    qed
  next
    case False
    then have "(d, m) \<in> item_key ` set (gp_messages page)" using m assms(2) by (auto simp: gap_page_ok_def)
    then show ?thesis by (rule assms(7))
  qed
  moreover have "c \<le> newest" using assms(1,4,5) by (auto simp: row_complete_def int_or_zero_def split: option.splits)
  ultimately show ?thesis
    using assms(1,2) by (auto simp: row_complete_def gap_page_ok_def)
qed

lemma commit_delta_ok:
  assumes "archive_ok ru live newest a" "gap_page_ok (live d) (newest d) d c page" "\<forall>m \<in> live d. 0 < m" "0 \<le> newest d"
  shows "archive_ok ru live newest (snd (commit_delta ru d page c generation finished order now a))"
proof (cases "delta_selection_is_current a d c generation finished \<and> full_history_enabled a d")
  case False
  then show ?thesis using assms(1) by (auto simp: commit_delta_def Let_def)
next
  case True
  let ?rows = "map (set_order order) (gp_messages page)"
  define a1 where "a1 = (if ?rows = [] then a else insert_rows ru RS_DELTA ?rows a)"
  define a2 where "a2 = update_dialog d (\<lambda>r. r\<lparr>sd_delta_message_id :=
      Some (max (int_or_zero (sd_delta_message_id r)) (batch_top ?rows))\<rparr>) a1"
  obtain r where r: "ar_rows a d = Some r" "int_or_zero (sd_delta_message_id r) = c"
    using True by (auto simp: delta_selection_is_current_def split: option.splits)
  have a1: "ar_rows a1 = ar_rows a" "archive_ok ru live newest (a\<lparr>ar_messages := ar_messages a1\<rparr>)"
    using assms(1) archive_ok_messages[OF assms(1), of "MO_Insert RS_DELTA ?rows"] by (simp_all add: a1_def)
  have mono: "known_message (ar_messages a1) k" if "known_message (ar_messages a) k" for k
    using known_message_step[OF that, of ru "MO_Insert RS_DELTA ?rows"] that by (simp add: a1_def)
  have new: "known_message (ar_messages a1) k" if "k \<in> item_key ` set (gp_messages page)" for k
    using inserted_known[of ru a k ?rows RS_DELTA] that assms(1) by (auto simp: a1_def archive_ok_def)
  have "archive_ok ru live newest a2"
  proof (rule archive_ok_row[where d = d])
    show "archive_ok ru live newest (a\<lparr>ar_messages := ar_messages a2\<rparr>)" using a1(2) by (simp add: a2_def)
  next
    fix r' assume "ar_rows a2 d = Some r'"
    then have r': "r' = r\<lparr>sd_delta_message_id := Some (max c (batch_top (gp_messages page)))\<rparr>"
      using r by (simp add: a2_def a1(1))
    have "row_complete (\<lambda>m. known_message (ar_messages a) (d, m)) (live d) (newest d) r"
      using assms(1) r(1) by (simp add: archive_ok_def)
    from delta_complete[OF this assms(2-4) r(2) mono new]
    show "row_complete (\<lambda>m. known_message (ar_messages a2) (d, m)) (live d) (newest d) r'"
      by (simp add: a2_def r')
  qed (simp add: a2_def a1(1))
  moreover have "snd (commit_delta ru d page c generation finished order now a) =
      persist_delta_continuation d (\<not> gp_complete page \<or> length ?rows = DELTA_SLICE_MESSAGE_LIMIT) now generation a2"
    using True by (simp add: commit_delta_def Let_def a2_def a1_def)
  ultimately show ?thesis
    using archive_ok_gentle continuation_gentle by metis
qed

lemma fetch_delta_ok:
  assumes "archive_ok ru live newest a" "\<forall>m \<in> live d. 0 < m" "0 \<le> newest d"
    and "\<And>page. response = Inr page \<Longrightarrow> gap_page_ok (live d) (newest d) d c page"
  shows "archive_ok ru live newest (snd (fetch_delta_slice ru d c generation finished owner order response published now a))"
proof (cases response)
  case (Inl e)
  then show ?thesis
    using assms(1) archive_ok_step[OF assms(1), of "AO_Lost d now (Some r) (Some generation) owner (Some order)" for r]
    by (cases e) (simp_all add: fetch_delta_slice_def)
next
  case (Inr page)
  show ?thesis
    using assms(1) commit_delta_ok[OF assms(1) assms(4)[OF Inr] assms(2,3)]
    by (simp add: fetch_delta_slice_def Inr split_beta)
qed

section \<open>Every reachable world\<close>

lemma real_bound:
  assumes "\<forall>n \<in> set (raw_ids raw). n \<le> newest" "0 \<le> newest" "\<forall>x \<in> set batch. \<exists>y \<in> set raw. x = extract_message_row d y"
  shows "batch_top batch \<le> newest"
proof -
  have "sm_message_id (em_message x) \<le> newest" if "x \<in> set batch" for x
  proof -
    from that assms(3) obtain y where y: "y \<in> set raw" "x = extract_message_row d y" by blast
    show ?thesis
    proof (cases "0 < int_or_zero (raw_id y)")
      case True
      then obtain n where n: "raw_id y = Some n" "0 < n" by (auto simp: int_or_zero_def split: option.splits)
      then have "n \<in> set (raw_ids raw)" using y(1) by (force simp: raw_ids_def map_filter_def positive_id_def)
      then show ?thesis using assms(1) n y(2) by (auto simp: extract_message_row_def int_or_zero_def)
    next
      case False
      then show ?thesis using assms(2) y(2) by (simp add: extract_message_row_def)
    qed
  qed
  then show ?thesis using assms(2) by (auto simp: batch_top_def)
qed

lemma full_response_ok:
  assumes "full_history_page d (Inr (count, raw)) = Inr page" "backward_window live p raw" "0 \<le> p" "p \<le> newest"
    and "\<forall>n \<in> set (raw_ids raw). n \<le> newest" "0 \<le> newest"
  shows "full_page_ok live newest d p page"
proof -
  note parts = full_page_parts[OF assms(1)]
  have bound: "batch_top (fp_messages page) \<le> newest"
    by (rule real_bound[OF assms(5,6)]) (auto simp: parts(1) normalize_full_history_messages_def)
  have cover: "m \<in> live \<Longrightarrow> p = 0 \<or> m < p \<Longrightarrow>
      (case fp_next_before page of None \<Rightarrow> False | Some q \<Rightarrow> m < q \<or> (d, m) \<in> item_key ` set (fp_messages page))" for m
    using backward_page_covers[OF assms(1,2)] by blast
  show ?thesis
  proof (cases "fp_next_before page")
    case None
    then have "fp_messages page = []" using parts(1,3) by (simp add: normalize_full_history_messages_def)
    then show ?thesis using None bound cover assms(3,4) by (auto simp: full_page_ok_def)
  next
    case (Some q)
    then have "q \<in> set (raw_ids raw)" using parts(2) by (auto split: if_splits intro!: Min_in)
    then have "0 < q" by (rule raw_ids_positive)
    then show ?thesis using Some bound cover assms(3,4) by (fastforce simp: full_page_ok_def)
  qed
qed

lemma gap_response_ok:
  assumes "forward_gap_page d c stop (Inr (kind, raw)) = Inr page" "forward_window live c raw" "0 \<le> c"
    and "\<forall>n \<in> set (raw_ids raw). n \<le> newest" "0 \<le> newest"
  shows "gap_page_ok live newest d c page"
proof -
  have page: "build_forward_gap_page d c stop (kind, raw) = Inr page"
    using assms(1) by (simp add: forward_gap_page_def and_then_def)
  have "\<forall>x \<in> set (gp_messages page). \<exists>y \<in> set raw. x = extract_message_row d y"
  proof -
    obtain messages stopped where "select_forward_messages (filter (\<lambda>x. \<not> raw_is_empty x) raw) c stop = (messages, stopped)"
      and msgs: "gp_messages page = map (extract_message_row d) messages"
      using gap_page_parts[OF page] by blast
    then obtain k where "messages = filter (\<lambda>x. int_or_zero (positive_id x) > c)
        (take k (sort_key (\<lambda>x. int_or_zero (positive_id x)) (filter (\<lambda>x. \<not> raw_is_empty x) raw)))"
      using take_until_stop_prefix unfolding select_forward_messages_def by blast
    then show ?thesis unfolding msgs by (auto dest!: in_set_takeD)
  qed
  from real_bound[OF assms(4,5) this] have bound: "batch_top (gp_messages page) \<le> newest" .
  have "(d, m) \<in> item_key ` set (gp_messages page)" if m: "m \<in> live" "c < m" "m \<le> batch_top (gp_messages page)" for m
  proof (rule forward_page_covers[OF page assms(2) m(1,2) assms(3)])
    have "gp_messages page \<noteq> []" using m assms(3) by (auto simp: batch_top_def)
    then have "batch_top (gp_messages page) \<in> page_ids (gp_messages page)"
      using Max_in[of "page_ids (gp_messages page)"] by (simp add: batch_top_def page_ids_def)
    with m(3) show "gp_complete page \<and> length raw < MESSAGE_HISTORY_PAGE_SIZE \<or> (\<exists>n \<in> page_ids (gp_messages page). m \<le> n)" by blast
  qed
  with bound assms(3) show ?thesis by (simp add: gap_page_ok_def)
qed

lemma full_page_mono:
  assumes "full_page_ok live newest d p page" "\<And>m. m \<in> live' \<Longrightarrow> m \<in> live \<or> newest < m" "newest \<le> newest'"
  shows "full_page_ok live' newest' d p page"
proof (cases "fp_next_before page")
  case None
  have "\<not> m < p" if "m \<in> live'" "0 < p" for m
    using assms(1) assms(2)[OF that(1)] that(2) None by (auto simp: full_page_ok_def)
  then show ?thesis using assms(1,3) None by (auto simp: full_page_ok_def)
next
  case (Some q)
  have "(d, m) \<in> item_key ` set (fp_messages page)"
    if m: "m \<in> live'" "q \<le> m" "if p = 0 then m \<le> batch_top (fp_messages page) else m < p" for m
  proof -
    have "m \<le> newest" using assms(1) m(3) by (auto simp: full_page_ok_def split: if_splits)
    then have "m \<in> live" using assms(2)[OF m(1)] by simp
    then show ?thesis using assms(1) m(2,3) Some unfolding full_page_ok_def by simp
  qed
  then show ?thesis using assms(1,3) Some by (simp add: full_page_ok_def)
qed

lemma gap_page_mono:
  assumes "gap_page_ok live newest d c page" "\<And>m. m \<in> live' \<Longrightarrow> m \<in> live \<or> newest < m" "newest \<le> newest'"
  shows "gap_page_ok live' newest' d c page"
proof -
  have "(d, m) \<in> item_key ` set (gp_messages page)"
    if m: "m \<in> live'" "c < m" "m \<le> batch_top (gp_messages page)" for m
  proof -
    have "m \<le> newest" using assms(1) m(3) by (simp add: gap_page_ok_def)
    then have "m \<in> live" using assms(2)[OF m(1)] by simp
    then show ?thesis using assms(1) m(2,3) unfolding gap_page_ok_def by simp
  qed
  then show ?thesis using assms(1,3) by (simp add: gap_page_ok_def)
qed

lemma flight_ok_live:
  assumes "flight_ok w f" "\<And>d m. m \<in> wd_live w' d \<Longrightarrow> m \<in> wd_live w d \<or> wd_top w d < m" "\<And>d. wd_top w d \<le> wd_top w' d"
  shows "flight_ok w' f"
  using assms(1)
proof (cases "(w, f)" rule: flight_ok.cases)
  case (1 w0 d p order page)
  with assms(1) have "full_page_ok (wd_live w d) (wd_top w d) d p page" by simp
  then show ?thesis using 1 full_page_mono[OF _ assms(2,3)] by simp
next
  case (2 w0 d c generation finished order page)
  with assms(1) have "gap_page_ok (wd_live w d) (wd_top w d) d c page" by simp
  then show ?thesis using 2 gap_page_mono[OF _ assms(2,3)] by simp
qed simp_all

section \<open>Every reachable world\<close>

lemma archive_ok_server:
  assumes "archive_ok ru live newest a" "\<And>d m. m \<in> live' d \<Longrightarrow> m \<in> live d \<or> newest d < m" "\<And>d. newest d \<le> newest' d"
  shows "archive_ok ru live' newest' a"
  unfolding archive_ok_def
proof (intro conjI allI impI)
  show "messages_agree ru (ar_messages a)" using assms(1) by (simp add: archive_ok_def)
  fix d r assume "ar_rows a d = Some r"
  then have "row_complete (\<lambda>m. known_message (ar_messages a) (d, m)) (live d) (newest d) r"
    using assms(1) by (simp add: archive_ok_def)
  then show "row_complete (\<lambda>m. known_message (ar_messages a) (d, m)) (live' d) (newest' d) r"
    by (rule row_complete_mono) (use assms(2,3) in blast)+
qed

lemma world_okI:
  assumes "\<And>d m. m \<in> wd_live w d \<Longrightarrow> 0 < m \<and> m \<le> wd_top w d" "\<And>d. 0 \<le> wd_top w d"
    and "archive_ok ru (wd_live w) (wd_top w) (wd_archive w)" "\<And>f. f \<in> set (wd_flight w) \<Longrightarrow> flight_ok w f"
  shows "world_ok ru w"
  using assms by (simp add: world_ok_def)

lemma world_okD:
  assumes "world_ok ru w"
  shows "m \<in> wd_live w d \<Longrightarrow> 0 < m" "m \<in> wd_live w d \<Longrightarrow> m \<le> wd_top w d" "0 \<le> wd_top w d"
    and "archive_ok ru (wd_live w) (wd_top w) (wd_archive w)" "f \<in> set (wd_flight w) \<Longrightarrow> flight_ok w f"
  using assms by (auto simp: world_ok_def)

lemma flight_ok_frame: "wd_live w' = wd_live w \<Longrightarrow> wd_top w' = wd_top w \<Longrightarrow> flight_ok w' f = flight_ok w f"
  by (cases "(w, f)" rule: flight_ok.cases) simp_all

lemma world_ok_server:
  assumes "world_ok ru w" "\<And>d m. m \<in> wd_live w' d \<Longrightarrow> m \<in> wd_live w d \<or> wd_top w d < m \<and> m \<le> wd_top w' d"
    and "\<And>d. wd_top w d \<le> wd_top w' d" "wd_archive w' = wd_archive w" "wd_flight w' = wd_flight w"
  shows "world_ok ru w'"
proof (rule world_okI)
  note ok = world_okD[OF assms(1)]
  show "0 < m \<and> m \<le> wd_top w' d" if "m \<in> wd_live w' d" for d m
    using assms(2)[OF that] ok(1,2)[of m d] ok(3)[of d] assms(3)[of d] by auto
  show "0 \<le> wd_top w' d" for d using ok(3)[of d] assms(3)[of d] by simp
  show "archive_ok ru (wd_live w') (wd_top w') (wd_archive w')"
    unfolding assms(4) by (rule archive_ok_server[OF ok(4)]) (use assms(2,3) in blast)+
  show "flight_ok w' f" if "f \<in> set (wd_flight w')" for f
    by (rule flight_ok_live[OF ok(5)]) (use that assms(2,3,5) in auto)
qed

lemma world_ok_archive:
  assumes "world_ok ru w" "archive_ok ru (wd_live w) (wd_top w) a" "set flights \<subseteq> set (wd_flight w)"
  shows "world_ok ru (w\<lparr>wd_archive := a, wd_flight := flights\<rparr>)"
  by (rule world_okI) (use assms in \<open>auto simp: world_ok_def flight_ok_frame[of "w\<lparr>wd_archive := a, wd_flight := flights\<rparr>" w]\<close>)

lemma world_ok_flight:
  assumes "world_ok ru w" "flight_ok w f"
  shows "world_ok ru (w\<lparr>wd_flight := f # wd_flight w\<rparr>)"
  by (rule world_okI) (use assms in \<open>auto simp: world_ok_def flight_ok_frame[of "w\<lparr>wd_flight := f # wd_flight w\<rparr>" w]\<close>)

lemma world_ok_step:
  assumes "world_ok ru w" "world_step ru w w'"
  shows "world_ok ru w'"
  using assms(2)
proof cases
  case (Post d m)
  then show ?thesis by (auto intro!: world_ok_server[OF assms(1)] split: if_splits)
next
  case (Remove d m)
  then show ?thesis by (auto intro!: world_ok_server[OF assms(1)] split: if_splits)
next
  case (Local e)
  then show ?thesis
    using world_ok_archive[OF assms(1) archive_ok_step[OF world_okD(4)[OF assms(1)]], of "wd_flight w" e] by simp
next
  case (Full_Response p d raw order count)
  have "flight_ok w (Full_Flight d p order (full_history_page d (Inr (count, raw))))"
    using full_response_ok[OF _ Full_Response(4,2,3,5) world_okD(3)[OF assms(1)]]
    by (cases "full_history_page d (Inr (count, raw))") auto
  then show ?thesis unfolding Full_Response(1) by (rule world_ok_flight[OF assms(1)])
next
  case (Delta_Response c d raw generation finished order stop kind)
  have "flight_ok w (Delta_Flight d c generation finished order (forward_gap_page d c stop (Inr (kind, raw))))"
    using gap_response_ok[OF _ Delta_Response(3,2,4) world_okD(3)[OF assms(1)]]
    by (cases "forward_gap_page d c stop (Inr (kind, raw))") auto
  then show ?thesis unfolding Delta_Response(1) by (rule world_ok_flight[OF assms(1)])
next
  case (Failure f)
  then have "flight_ok w f" by auto
  then show ?thesis unfolding Failure(1) by (rule world_ok_flight[OF assms(1)])
next
  case (Full_Commit d p order response owner published scope now)
  note ok = world_okD[OF assms(1)]
  have "archive_ok ru (wd_live w) (wd_top w)
      (snd (fetch_batch ru d p owner order response published scope now (wd_archive w)))"
    by (rule fetch_batch_ok[OF ok(4)]) (use ok(1,3) ok(5)[OF Full_Commit(2)] in auto)
  then show ?thesis
    unfolding Full_Commit(1) land_def by (rule world_ok_archive[OF assms(1)]) (rule set_remove1_subset)
next
  case (Delta_Commit d c generation finished order response owner published now)
  note ok = world_okD[OF assms(1)]
  have "archive_ok ru (wd_live w) (wd_top w)
      (snd (fetch_delta_slice ru d c generation finished owner order response published now (wd_archive w)))"
    by (rule fetch_delta_ok[OF ok(4)]) (use ok(1,3) ok(5)[OF Delta_Commit(2)] in auto)
  then show ?thesis
    unfolding Delta_Commit(1) land_def by (rule world_ok_archive[OF assms(1)]) (rule set_remove1_subset)
next
  case Crash
  then show ?thesis using world_ok_archive[OF assms(1) world_okD(4)[OF assms(1)], of "[]"] by simp
qed

lemma reachable_ok: "reachable_world ru w w' \<Longrightarrow> world_ok ru w \<Longrightarrow> world_ok ru w'"
  by (induction rule: reachable_world.induct) (auto intro: world_ok_step)
end
