(* ===== verification/History_Download.thy ===== *)
theory History_Download
  imports History_Complete
begin

text \<open>
  The download of one dialog against a server that keeps still: the pages the worker fetches and
  commits one after the other, each for the checkpoint the last one left. Every accepted
  page lowers the checkpoint, so the download ends, and it ends with the whole dialog.
\<close>

section \<open>The download loop\<close>

definition checkpoint :: "Archive \<Rightarrow> int \<Rightarrow> int" where
  "checkpoint a d = (case ar_rows a d of None \<Rightarrow> 0 | Some r \<Rightarrow> int_or_zero (sd_sync_progress r))"

fun download :: "MessageRules \<Rightarrow> int \<Rightarrow> (int \<Rightarrow> raw_count \<times> RawMessage list) \<Rightarrow> int \<Rightarrow> int \<Rightarrow> nat \<Rightarrow> Archive \<Rightarrow> Archive" where
  "download ru d serve order now 0 a = a"
| "download ru d serve order now (Suc n) a = download ru d serve (order + 1) now n
     (snd (fetch_batch ru d (checkpoint a d) None order (full_history_page d (Inr (serve (checkpoint a d)))) True (True, True) now a))"

text \<open>
  The server holds \<open>live\<close>, none of it beyond \<open>newest\<close>. It answers a request before \<open>p\<close> with at
  most a hundred messages, all of them before \<open>p\<close>, in a window as \<^const>\<open>backward_window\<close> says.
\<close>

definition serves :: "int set \<Rightarrow> int \<Rightarrow> (int \<Rightarrow> raw_count \<times> RawMessage list) \<Rightarrow> bool" where
  "serves live newest serve \<longleftrightarrow> (\<forall>p \<ge> 0. backward_window live p (snd (serve p))
     \<and> length (snd (serve p)) \<le> MESSAGE_HISTORY_PAGE_SIZE
     \<and> (\<forall>x \<in> set (snd (serve p)). \<exists>n. raw_id x = Some n \<and> 0 < n \<and> n \<le> newest \<and> (p = 0 \<or> n < p)))"

lemma serves_ids:
  assumes "serves live newest serve" "0 \<le> p" "n \<in> set (raw_ids (snd (serve p)))"
  shows "0 < n" "n \<le> newest" "p = 0 \<or> n < p"
proof -
  from assms(3) obtain x where "x \<in> set (snd (serve p))" "positive_id x = Some n"
    by (auto simp: raw_ids_def map_filter_def)
  with assms(1,2) show "0 < n" "n \<le> newest" "p = 0 \<or> n < p"
    unfolding serves_def positive_id_def by (fastforce split: option.splits if_splits)+
qed

lemma serves_nonempty: "serves live newest serve \<Longrightarrow> 0 \<le> p \<Longrightarrow> snd (serve p) \<noteq> [] \<Longrightarrow> raw_ids (snd (serve p)) \<noteq> []"
  by (cases "snd (serve p)") (force simp: serves_def raw_ids_def map_filter_def positive_id_def)+

lemma serves_page:
  assumes "serves live newest serve" "0 \<le> p"
  obtains page where "full_history_page d (Inr (serve p)) = Inr page"
proof -
  obtain count raw where srv: "serve p = (count, raw)" by fastforce
  have ids: "raw \<noteq> [] \<Longrightarrow> raw_ids raw \<noteq> []" using serves_nonempty[OF assms] srv by simp
  have pos: "raw_ids raw \<noteq> [] \<Longrightarrow> 0 < Min (set (raw_ids raw))"
    using raw_ids_positive by simp
  have "length raw \<le> MESSAGE_HISTORY_PAGE_SIZE" using assms srv unfolding serves_def by fastforce
  then have size: "length (normalize_full_history_messages d raw) \<le> MESSAGE_HISTORY_PAGE_SIZE"
    using length_filter_le[of "\<lambda>x. \<not> raw_is_empty x" raw] by (simp add: normalize_full_history_messages_def del: length_filter_le)
  have total: "optional_nonnegative_int count = Some n \<Longrightarrow> 0 \<le> n" for n
    by (auto simp: optional_nonnegative_int_def split: raw_count.splits if_splits)
  have blank: "raw = [] \<Longrightarrow> normalize_full_history_messages d raw = []"
    by (simp add: normalize_full_history_messages_def)
  have "\<exists>page. full_history_page d (Inr (serve p)) = Inr page"
    using ids pos size total blank
    by (auto simp: srv full_history_page_def and_then_def history_cursor_def validate_full_page_def guard_def Let_def
        split: option.split)
  then show ?thesis using that by blast
qed

section \<open>One page\<close>

definition downloading :: "MessageRules \<Rightarrow> int set \<Rightarrow> int \<Rightarrow> int \<Rightarrow> Archive \<Rightarrow> bool" where
  "downloading ru live d p a \<longleftrightarrow> messages_agree ru (ar_messages a) \<and> full_history_enabled a d \<and> 0 \<le> p
     \<and> (\<exists>r. ar_rows a d = Some r \<and> sd_status r \<in> {CV_NOT_SYNCED, CV_SYNCING} \<and> int_or_zero (sd_sync_progress r) = p)
     \<and> (p \<noteq> 0 \<longrightarrow> (\<forall>m \<in> live. p \<le> m \<longrightarrow> known_message (ar_messages a) (d, m)))"

definition downloaded :: "int set \<Rightarrow> int \<Rightarrow> Archive \<Rightarrow> bool" where
  "downloaded live d a \<longleftrightarrow> coverage_status a d = Some CV_SYNCED \<and> 0 \<le> checkpoint a d
     \<and> (\<forall>m \<in> live. known_message (ar_messages a) (d, m))"

lemma downloading_checkpoint: "downloading ru live d p a \<Longrightarrow> checkpoint a d = p \<and> 0 \<le> p"
  by (auto simp: downloading_def checkpoint_def)

lemma enabled_frame [simp]:
  "full_history_enabled (update_dialog d' f a) d = full_history_enabled a d"
  "full_history_enabled (insert_rows ru source batch a) d = full_history_enabled a d"
  by (simp_all add: full_history_enabled_def read_intent_def)

lemma download_page:
  assumes "serves live newest serve" "downloading ru live d p a"
    and "a' = snd (fetch_batch ru d p None order (full_history_page d (Inr (serve p))) True (True, True) now a)"
  shows "downloaded live d a' \<or> (\<exists>q. downloading ru live d q a' \<and> 0 < q \<and> q \<le> newest \<and> (p = 0 \<or> q < p))"
proof -
  obtain count raw where srv: "serve p = (count, raw)" by fastforce
  from assms(2) obtain r where r: "ar_rows a d = Some r" "sd_status r \<in> {CV_NOT_SYNCED, CV_SYNCING}"
      "int_or_zero (sd_sync_progress r) = p"
    and on: "full_history_enabled a d" and agree: "messages_agree ru (ar_messages a)" and p0: "0 \<le> p"
    and old: "\<And>m. p \<noteq> 0 \<Longrightarrow> m \<in> live \<Longrightarrow> p \<le> m \<Longrightarrow> known_message (ar_messages a) (d, m)"
    unfolding downloading_def by blast
  have current: "progress_current a d p" using r on by (simp add: progress_current_def)
  obtain page where page: "full_history_page d (Inr (serve p)) = Inr page" by (rule serves_page[OF assms(1) p0])
  note parts = full_page_parts[OF page[unfolded srv]]
  have window: "backward_window live p raw" using assms(1) p0 srv by (auto simp: serves_def)
  note covers = backward_page_covers[OF page[unfolded srv] window]
  show ?thesis
  proof (cases "fp_next_before page")
    case None
    have "coverage_status a' d = Some CV_SYNCED" "ar_messages a' = ar_messages a" "0 \<le> checkpoint a' d"
      using on current r None p0
      by (auto simp: assms(3) page fetch_batch_def store_batch_page_def store_terminal_page_def coverage_status_def
          terminal_row_def checkpoint_def int_or_zero_def Let_def)
    moreover have "known_message (ar_messages a) (d, m)" if "m \<in> live" for m
      using covers[OF that] old[OF _ that] None by (cases "p = 0 \<or> m < p") auto
    ultimately show ?thesis by (simp add: downloaded_def)
  next
    case (Some q)
    then have q: "q \<in> set (raw_ids raw)" using parts(2) by (auto split: if_splits intro!: Min_in)
    note bounds = serves_ids[OF assms(1) p0, of q, unfolded srv, simplified, OF q]
    let ?batch = "map (set_order order) (fp_messages page)"
    have rows: "\<exists>r'. ar_rows a' d = Some r' \<and> sd_status r' = CV_SYNCING \<and> int_or_zero (sd_sync_progress r') = q"
      and msgs: "ar_messages a' = message_step ru (MO_Insert RS_HISTORY ?batch) (ar_messages a)"
      and on': "full_history_enabled a' d"
      using on current r Some bounds(3) p0
      by (auto simp: assms(3) page fetch_batch_def store_batch_page_def store_continuation_page_def continuation_row_def
          int_or_zero_def Let_def)
    have "known_message (ar_messages a') (d, m)" if m: "m \<in> live" "q \<le> m" for m
    proof (cases "p \<noteq> 0 \<and> p \<le> m")
      case True
      then have "known_message (ar_messages a) (d, m)" using old m(1) by blast
      then show ?thesis unfolding msgs by (rule known_message_step)
    next
      case False
      then have "(d, m) \<in> item_key ` set ?batch" using covers[OF m(1)] m(2) Some by auto
      then show ?thesis unfolding msgs by (rule inserted_known[OF agree])
    qed
    moreover have "messages_agree ru (ar_messages a')" unfolding msgs by (rule messages_agree_step[OF agree])
    ultimately have "downloading ru live d q a'"
      using rows on' bounds(1) unfolding downloading_def by auto
    with bounds show ?thesis by blast
  qed
qed

section \<open>The whole download\<close>

lemma downloaded_stays:
  assumes "downloaded live d a"
  shows "snd (fetch_batch ru d p None order (Inr page) True (True, True) now a) = a"
proof -
  have "\<not> progress_current a d q" for q
    using assms by (auto simp: downloaded_def progress_current_def coverage_status_def split: option.splits)
  then show ?thesis
    by (cases "fp_next_before page")
      (simp_all add: fetch_batch_def store_batch_page_def store_terminal_page_def store_continuation_page_def)
qed

lemma download_downloaded:
  "serves live newest serve \<Longrightarrow> downloaded live d a \<Longrightarrow> download ru d serve order now n a = a"
proof (induction n arbitrary: order)
  case (Suc n)
  obtain page where page: "full_history_page d (Inr (serve (checkpoint a d))) = Inr page"
    using serves_page[OF Suc.prems(1)] Suc.prems(2) unfolding downloaded_def by blast
  then show ?case using Suc downloaded_stays[OF Suc.prems(2)] by simp
qed simp

lemma download_ends:
  assumes "serves live newest serve" "downloading ru live d p a" "(if p = 0 then nat newest + 1 else nat p) \<le> n"
  shows "downloaded live d (download ru d serve order now (Suc n) a)"
  using assms(2,3)
proof (induction n arbitrary: p a order)
  case (0 p a order)
  from 0(2) downloading_checkpoint[OF 0(1)] show ?case by (auto split: if_splits)
next
  case (Suc n p a order)
  let ?a = "snd (fetch_batch ru d p None order (full_history_page d (Inr (serve p))) True (True, True) now a)"
  have p: "checkpoint a d = p" using downloading_checkpoint[OF Suc.prems(1)] by simp
  have unfold: "download ru d serve order now (Suc (Suc n)) a = download ru d serve (order + 1) now (Suc n) ?a"
    using p by (simp del: download.simps add: download.simps(2)[where n = "Suc n"])
  from download_page[OF assms(1) Suc.prems(1) refl, of order now]
  consider "downloaded live d ?a" | q where "downloading ru live d q ?a" "0 < q" "q \<le> newest" "p = 0 \<or> q < p" by blast
  then show ?case
  proof cases
    case 1
    then show ?thesis unfolding unfold download_downloaded[OF assms(1) 1] .
  next
    case q: (2 q)
    have "(if q = 0 then nat newest + 1 else nat q) \<le> n" using q(2-4) Suc.prems(2) by (auto split: if_splits)
    then show ?thesis unfolding unfold by (rule Suc.IH[OF q(1)])
  qed
qed
end
