(* ===== verification/History_Props.thy ===== *)
theory History_Props
  imports History_Download Message_Converge
begin

text \<open>
  What holds of the history engines end to end: a dialog marked as synced is complete, a
  committed forward page closes the gap, a download ends, and access decisions follow the
  newest observation.
\<close>

section \<open>The start\<close>

definition empty_archive :: Archive where
  "empty_archive = \<lparr>ar_rows = \<lambda>_. None, ar_intent = \<lambda>_. None, ar_directory = \<lambda>_. None, ar_facts = \<lambda>_. None,
     ar_events = [], ar_jobs = [], ar_messages = empty_message_db, ar_delta_done = \<lambda>_. 0, ar_full_cursor = 0, ar_owner = None\<rparr>"

definition empty_world :: HistoryWorld where
  "empty_world = \<lparr>wd_archive = empty_archive, wd_live = \<lambda>_. {}, wd_top = \<lambda>_. 0, wd_flight = []\<rparr>"

lemma empty_agrees [simp]: "messages_agree ru empty_message_db"
  by (simp add: messages_agree_def tables_agree_def empty_message_db_def indexed_text_def)

lemma empty_world_ok: "world_ok ru empty_world"
  by (simp add: world_ok_def empty_world_def archive_ok_def empty_archive_def)

lemma reached_row:
  assumes "reachable_world ru empty_world w" "ar_rows (wd_archive w) d = Some r" "sd_status r = CV_SYNCED"
  obtains c where "sd_delta_message_id r = Some c" "c \<le> wd_top w d"
    "\<And>m. m \<in> wd_live w d \<Longrightarrow> m \<le> c \<Longrightarrow> known_message (ar_messages (wd_archive w)) (d, m)"
proof -
  from reachable_ok[OF assms(1) empty_world_ok] have "archive_ok ru (wd_live w) (wd_top w) (wd_archive w)"
    by (rule world_okD(4))
  then have "row_complete (\<lambda>m. known_message (ar_messages (wd_archive w)) (d, m)) (wd_live w d) (wd_top w d) r"
    using assms(2) unfolding archive_ok_def by blast
  with assms(3) that show ?thesis unfolding row_complete_def by (auto split: option.splits)
qed

section \<open>A synced dialog is complete\<close>

text \<open>
  C2. In every world reachable from an empty archive and an empty server, whatever was posted
  and removed, whatever pages, failures, enrollment decisions, access losses, restorations,
  realtime writes and crashes came in between, in any order: a dialog whose row says synced has
  a forward cursor, and every message the server still holds up to the cursor is in the archive,
  as a row or as a tombstone.
\<close>

theorem synced_history_complete:
  assumes "reachable_world ru empty_world w" "ar_rows (wd_archive w) d = Some r" "sd_status r = CV_SYNCED"
  shows "\<exists>c. sd_delta_message_id r = Some c \<and> c \<le> wd_top w d
    \<and> (\<forall>m \<in> wd_live w d. m \<le> c \<longrightarrow> known_message (ar_messages (wd_archive w)) (d, m))"
  using reached_row[OF assms] by metis

text \<open>A dialog with one message is enabled and downloaded in two pages.\<close>

definition demo_raw :: RawMessage where
  "demo_raw = \<lparr>raw_id = Some 3, raw_is_empty = False, raw_content = demo_message 3 ''hi'' None ''b'',
     raw_photo_id = None, raw_photo_eligible = True\<rparr>"

definition demo_page :: "int \<Rightarrow> flight" where
  "demo_page p = Full_Flight 7 p (p + 1) (full_history_page 7 (Inr (Count_Absent, if p = 0 then [demo_raw] else [])))"

definition demo_commit :: "int \<Rightarrow> Archive \<Rightarrow> Archive" where
  "demo_commit p a = (case demo_page p of
     Full_Flight d q order response \<Rightarrow> snd (fetch_batch demo_rules d q None order response True (True, True) 60 a) | _ \<Rightarrow> a)"

definition demo_archive :: Archive where
  "demo_archive = demo_commit 3 (demo_commit 0 (archive_step demo_rules (AO_Enable 7 50) empty_archive))"

definition demo_world :: "Archive \<Rightarrow> flight list \<Rightarrow> HistoryWorld" where
  "demo_world a fs = \<lparr>wd_archive = a, wd_live = (\<lambda>_. {})(7 := {3}), wd_top = (\<lambda>_. 0)(7 := 3), wd_flight = fs\<rparr>"

lemma demo_page_step:
  assumes "p = 0 \<or> p = 3"
  shows "world_step demo_rules (demo_world a []) (demo_world a [demo_page p])"
proof -
  have "world_step demo_rules (demo_world a []) ((demo_world a [])\<lparr>wd_flight := Full_Flight 7 p (p + 1)
      (full_history_page 7 (Inr (Count_Absent, if p = 0 then [demo_raw] else []))) # wd_flight (demo_world a [])\<rparr>)"
    by (rule world_step.Full_Response)
      (use assms in \<open>auto simp: demo_world_def backward_window_def real_ids_def demo_raw_def raw_ids_def map_filter_def positive_id_def\<close>)
  then show ?thesis by (simp add: demo_world_def demo_page_def)
qed

lemma demo_commit_step: "world_step demo_rules (demo_world a [demo_page p]) (demo_world (demo_commit p a) [])"
proof -
  let ?f = "full_history_page 7 (Inr (Count_Absent, if p = 0 then [demo_raw] else []))"
  have "world_step demo_rules (demo_world a [demo_page p]) (land (Full_Flight 7 p (p + 1) ?f)
      (snd (fetch_batch demo_rules 7 p None (p + 1) ?f True (True, True) 60 (wd_archive (demo_world a [demo_page p]))))
      (demo_world a [demo_page p]))"
    by (rule world_step.Full_Commit) (simp add: demo_world_def demo_page_def)
  then show ?thesis by (simp add: land_def demo_world_def demo_page_def demo_commit_def)
qed

lemma demo_both:
  assumes "reachable_world demo_rules w (demo_world a [])" "p = 0 \<or> p = 3"
  shows "reachable_world demo_rules w (demo_world (demo_commit p a) [])"
  using reachable_world.step[OF reachable_world.step[OF assms(1) demo_page_step[OF assms(2)]] demo_commit_step] .

lemma demo_reached: "reachable_world demo_rules empty_world (demo_world demo_archive [])"
proof -
  note step = reachable_world.step
  have "world_step demo_rules empty_world (demo_world empty_archive [])"
    using world_step.Post[of empty_world 7 3 demo_rules] by (simp add: empty_world_def demo_world_def)
  from step[OF reachable_world.start this]
  have "reachable_world demo_rules empty_world (demo_world (archive_step demo_rules (AO_Enable 7 50) empty_archive) [])"
    by (rule step) (use world_step.Local[of demo_rules "demo_world empty_archive []" "AO_Enable 7 50"] in
      \<open>simp add: demo_world_def\<close>)
  from demo_both[OF demo_both[OF this, of 0], of 3] show ?thesis by (simp add: demo_archive_def)
qed

lemma demo_row: "map_option (\<lambda>r. (sd_status r, sd_delta_message_id r)) (ar_rows demo_archive 7) = Some (CV_SYNCED, Some 3)"
  by code_simp

lemma synced_history_complete_witness: "known_message (ar_messages demo_archive) (7, 3)"
proof -
  from demo_row obtain r where r: "ar_rows demo_archive 7 = Some r" "sd_status r = CV_SYNCED" "sd_delta_message_id r = Some 3"
    by auto
  from synced_history_complete[OF demo_reached, of 7 r] r show ?thesis by (simp add: demo_world_def)
qed

section \<open>A committed forward page\<close>

lemma reachable_trans: "reachable_world ru v w \<Longrightarrow> reachable_world ru u v \<Longrightarrow> reachable_world ru u w"
  by (induction rule: reachable_world.induct) (auto intro: reachable_world.step)

lemma commit_delta_parts:
  assumes "commit_delta ru d page c generation finished order now a = (True, a')"
  obtains r r' where "ar_rows a d = Some r" "int_or_zero (sd_delta_message_id r) = c" "ar_rows a' d = Some r'"
    "sd_delta_message_id r' = Some (max c (batch_top (gp_messages page)))"
    "ar_messages a' = (if gp_messages page = [] then ar_messages a
       else message_step ru (MO_Insert RS_DELTA (map (set_order order) (gp_messages page))) (ar_messages a))"
proof -
  let ?rows = "map (set_order order) (gp_messages page)"
  define a2 where "a2 = update_dialog d (\<lambda>r. r\<lparr>sd_delta_message_id :=
      Some (max (int_or_zero (sd_delta_message_id r)) (batch_top ?rows))\<rparr>)
      (if ?rows = [] then a else insert_rows ru RS_DELTA ?rows a)"
  have current: "delta_selection_is_current a d c generation finished"
    and a': "\<exists>b. a' = persist_delta_continuation d b now generation a2"
    using assms unfolding commit_delta_def Let_def a2_def by (auto split: if_splits)
  from current obtain r where r: "ar_rows a d = Some r" "int_or_zero (sd_delta_message_id r) = c"
    by (auto simp: delta_selection_is_current_def split: option.splits)
  from a' obtain b where b: "a' = persist_delta_continuation d b now generation a2" by blast
  have "gentle_at (ar_rows a2 d) (ar_rows a' d)" unfolding b by (rule continuation_gentle)
  moreover have "ar_rows a' d \<noteq> None \<longleftrightarrow> ar_rows a2 d \<noteq> None"
    unfolding b by (auto simp: persist_delta_continuation_def stamp_delta_checkpoint_def request_delta_refresh_def
        split: option.splits)
  moreover have "ar_rows a2 d = Some (r\<lparr>sd_delta_message_id := Some (max c (batch_top (gp_messages page)))\<rparr>)"
    using r by (simp add: a2_def)
  ultimately obtain r' where "ar_rows a' d = Some r'" "sd_delta_message_id r' = Some (max c (batch_top (gp_messages page)))"
    by (auto simp: gentle_at_def gentle_def)
  moreover have "ar_messages a' = (if gp_messages page = [] then ar_messages a
       else message_step ru (MO_Insert RS_DELTA ?rows) (ar_messages a))"
    unfolding b continuation_gentle(2) by (simp add: a2_def)
  ultimately show ?thesis using r that by blast
qed

lemma page_id_top: "(d, m) \<in> item_key ` set items \<Longrightarrow> m \<le> batch_top items"
  by (auto simp: batch_top_def item_key_def msg_key_def)

text \<open>
  C5. A forward page requested in a reachable world and committed in a later one brings a dialog up
  to date that is synced at the commit: when the page is complete, the response behind it had
  fewer than a hundred entries, and its commit is accepted, every message that was on the server
  at the request and still is at the commit is in the archive, and the cursor has passed it. In
  between anything may have happened to the dialog. (A full response of nothing but
  \<open>MessageEmpty\<close> entries makes a complete page as well, but shows nothing:
  \<open>full_empty_window_misses\<close> in \<open>History_Pages\<close>.)
\<close>

theorem committed_slice_catches_up:
  assumes "reachable_world ru empty_world w" "reachable_world ru w w'"
    and "forward_gap_page d c stop (Inr (kind, raw)) = Inr page" "forward_window (wd_live w d) c raw" "0 \<le> c"
    and "gp_complete page" "length raw < MESSAGE_HISTORY_PAGE_SIZE" "ar_rows (wd_archive w') d = Some r" "sd_status r = CV_SYNCED"
    and "fetch_delta_slice ru d c generation finished owner order (Inr page) published now (wd_archive w') = ((True, None), a')"
    and "m \<in> wd_live w d" "m \<in> wd_live w' d"
  shows "known_message (ar_messages a') (d, m) \<and> (\<exists>r' c'. ar_rows a' d = Some r' \<and> sd_delta_message_id r' = Some c' \<and> m \<le> c')"
proof -
  have reach: "reachable_world ru empty_world w'" using reachable_trans[OF assms(2,1)] .
  have "commit_delta ru d page c generation finished order now (wd_archive w') = (True, a')"
    using assms(10) by (auto simp: fetch_delta_slice_def split: if_splits prod.splits)
  then obtain r0 r' where r0: "ar_rows (wd_archive w') d = Some r0" "int_or_zero (sd_delta_message_id r0) = c"
    and r': "ar_rows a' d = Some r'" "sd_delta_message_id r' = Some (max c (batch_top (gp_messages page)))"
    and msgs: "ar_messages a' = (if gp_messages page = [] then ar_messages (wd_archive w')
       else message_step ru (MO_Insert RS_DELTA (map (set_order order) (gp_messages page))) (ar_messages (wd_archive w')))"
    by (rule commit_delta_parts)
  have agree: "messages_agree ru (ar_messages (wd_archive w'))"
    using world_okD(4)[OF reachable_ok[OF reach empty_world_ok]] by (simp add: archive_ok_def)
  obtain c0 where "sd_delta_message_id r = Some c0"
    and old: "\<And>m. m \<in> wd_live w' d \<Longrightarrow> m \<le> c0 \<Longrightarrow> known_message (ar_messages (wd_archive w')) (d, m)"
    using reached_row[OF reach assms(8,9)] by metis
  with r0 assms(8) have c0: "c0 = c" by (simp add: int_or_zero_def)
  have build: "build_forward_gap_page d c stop (kind, raw) = Inr page"
    using assms(3) by (simp add: forward_gap_page_def and_then_def)
  have new: "(d, m) \<in> item_key ` set (gp_messages page)" if "c < m"
    by (rule forward_page_covers[OF build assms(4,11) that assms(5)]) (simp add: assms(6,7))
  have "known_message (ar_messages a') (d, m)"
  proof (cases "m \<le> c")
    case True
    then have "known_message (ar_messages (wd_archive w')) (d, m)" using old[OF assms(12)] c0 by simp
    then show ?thesis unfolding msgs by (auto intro: known_message_step simp del: message_step.simps)
  next
    case False
    then have "(d, m) \<in> item_key ` set (map (set_order order) (gp_messages page))" "gp_messages page \<noteq> []"
      using new by auto
    then show ?thesis unfolding msgs using inserted_known[OF agree] by (simp del: message_step.simps)
  qed
  moreover have "m \<le> max c (batch_top (gp_messages page))" using page_id_top[OF new] by fastforce
  ultimately show ?thesis using r' by blast
qed

text \<open>A second message is posted to the dialog of the first witness and fetched.\<close>

definition demo_new :: RawMessage where
  "demo_new = demo_raw\<lparr>raw_id := Some 5\<rparr>"

definition demo_later :: HistoryWorld where
  "demo_later = (let w = demo_world demo_archive [] in w\<lparr>wd_live := (wd_live w)(7 := {3, 5}), wd_top := (wd_top w)(7 := 5)\<rparr>)"

definition demo_gap :: ForwardGapPage where
  "demo_gap = \<lparr>gp_messages = [extract_message_row 7 demo_new], gp_complete = True\<rparr>"

lemma committed_slice_catches_up_witness:
  "known_message (ar_messages (snd (fetch_delta_slice demo_rules 7 3 0 None None 9 (Inr demo_gap) True 70 demo_archive))) (7, 5)"
proof -
  from demo_row obtain r where r: "ar_rows demo_archive 7 = Some r" "sd_status r = CV_SYNCED" by auto
  have later: "reachable_world demo_rules empty_world demo_later"
    by (rule reachable_world.step[OF demo_reached])
      (use world_step.Post[of "demo_world demo_archive []" 7 5 demo_rules] in
        \<open>simp add: demo_later_def demo_world_def insert_commute Let_def\<close>)
  have page: "forward_gap_page 7 3 (\<lambda>_. False) (Inr (RK_Messages, [demo_new])) = Inr demo_gap"
    by (simp add: forward_gap_page_def and_then_def build_forward_gap_page_def select_forward_messages_def demo_new_def demo_raw_def
        demo_gap_def positive_id_def int_or_zero_def validate_gap_page_def guard_def MESSAGE_HISTORY_PAGE_SIZE_def)
  have window: "forward_window (wd_live demo_later 7) 3 [demo_new]"
    by (simp add: forward_window_def demo_later_def demo_new_def demo_raw_def real_ids_def Let_def)
  have "fst (fetch_delta_slice demo_rules 7 3 0 None None 9 (Inr demo_gap) True 70 demo_archive) = (True, None)"
    by code_simp
  then have commit: "fetch_delta_slice demo_rules 7 3 0 None None 9 (Inr demo_gap) True 70 (wd_archive demo_later)
      = ((True, None), snd (fetch_delta_slice demo_rules 7 3 0 None None 9 (Inr demo_gap) True 70 demo_archive))"
    by (simp add: demo_later_def demo_world_def prod_eq_iff Let_def)
  show ?thesis
    using committed_slice_catches_up[OF later reachable_world.start page window _ _ _ _ r(2) commit, of 5] r(1)
    by (simp add: MESSAGE_HISTORY_PAGE_SIZE_def demo_later_def demo_world_def demo_gap_def Let_def)
qed

section \<open>A download ends\<close>

text \<open>
  C40. Against a server that keeps still, the download of an enabled dialog with nothing downloaded
  yet ends, whatever the message tables held before: since every accepted page lowers the
  checkpoint, the greatest identifier bounds the number of pages. Then the row says synced,
  and every message of the server is in the archive.
\<close>

theorem download_completes:
  assumes "serves live newest serve" "full_history_enabled a d" "ar_rows a d = Some r"
    and "sd_status r \<in> {CV_NOT_SYNCED, CV_SYNCING}" "int_or_zero (sd_sync_progress r) = 0"
    and "ar_messages a = run_ops (message_step ru) es empty_message_db" "nat newest + 2 \<le> n"
  shows "\<exists>r'. ar_rows (download ru d serve order now n a) d = Some r' \<and> sd_status r' = CV_SYNCED
    \<and> (\<forall>m \<in> live. known_message (ar_messages (download ru d serve order now n a)) (d, m))"
proof -
  have "messages_agree ru (ar_messages a)"
    using tables.run_invar[of ru empty_message_db es] empty_agrees[of ru] by (simp add: assms(6) messages_agree_def)
  then have "downloading ru live d 0 a" using assms(2-5) by (simp add: downloading_def)
  moreover obtain k where "n = Suc k" "nat newest + 1 \<le> k" using assms(7) by (cases n) auto
  ultimately have "downloaded live d (download ru d serve order now n a)"
    using download_ends[OF assms(1), of ru d 0 a k] by simp
  then show ?thesis by (auto simp: downloaded_def coverage_status_def)
qed

definition demo_serve :: "int \<Rightarrow> raw_count \<times> RawMessage list" where
  "demo_serve p = (Count_Absent, if p = 0 \<or> 3 < p then [demo_raw] else [])"

lemma download_completes_witness:
  "known_message (ar_messages (download demo_rules 7 demo_serve 1 60 5 (snd (enable_history 7 50 empty_archive)))) (7, 3)"
proof -
  let ?a = "snd (enable_history 7 50 empty_archive)"
  have serves: "serves {3} 3 demo_serve"
    by (auto simp: serves_def demo_serve_def demo_raw_def backward_window_def real_ids_def MESSAGE_HISTORY_PAGE_SIZE_def)
  have start: "full_history_enabled ?a 7" "ar_rows ?a 7 = Some (new_synced_dialog CV_NOT_SYNCED)" "ar_messages ?a = empty_message_db"
    by (simp_all add: enable_history_def row_ops empty_archive_def full_history_enabled_def Let_def)
  from download_completes[OF serves start(1,2), of demo_rules "[]" 5 1 60] show ?thesis
    by (auto simp: start(3) new_synced_dialog_def int_or_zero_def)
qed

section \<open>Access follows the newest observation\<close>

lemma claim_grows: "ar_facts a k = Some n \<Longrightarrow> \<exists>n' \<ge> n. ar_facts (snd (claim_dialog_fact d f m a)) k = Some n'"
  by (auto simp: claim_dialog_fact_def Let_def)

lemma row_facts [simp]:
  "ar_facts (reset_read_position_retry d a) = ar_facts a" "ar_facts (store_intent d b now a) = ar_facts a"
  "ar_facts (request_delta_refresh d now a) = ar_facts a" "ar_facts (stamp_access_revalidation d now cooldown a) = ar_facts a"
  "ar_facts (complete_access_revalidation d now a) = ar_facts a"
  by (simp_all add: reset_read_position_retry_def store_intent_def request_delta_refresh_def stamp_access_revalidation_def
      complete_access_revalidation_def)

lemma enable_facts [simp]: "ar_facts (snd (enable_history d now a)) = ar_facts a"
  by (simp add: enable_history_def split_beta Let_def)

lemma disable_facts [simp]: "ar_facts (snd (disable_history d now a)) = ar_facts a"
  by (simp add: disable_history_def Let_def)

lemma enroll_facts [simp]:
  "ar_facts (snd (ensure_automatic_dm_enrollment d now a)) = ar_facts a"
  "ar_facts (snd (record_automatic_group_decision d enabled n now a)) = ar_facts a"
  "ar_facts (enroll_own_only_sync_dialog d a) = ar_facts a"
  by (simp_all add: ensure_automatic_dm_enrollment_def record_automatic_group_decision_def enroll_own_only_sync_dialog_def
      split_beta Let_def split: option.split)

lemma mark_facts [simp]: "ar_facts (snd (mark_access_lost_state d now g a)) = ar_facts a"
  by (cases "ar_rows a d") (simp_all add: mark_access_lost_state_def Let_def)

lemma unhide_facts [simp]: "ar_facts (snd (unhide_after_realtime_presence d a)) = ar_facts a"
  by (simp add: unhide_after_realtime_presence_def split: option.split)

lemma restore_status_facts [simp]: "ar_facts (snd (restore_access_status d a)) = ar_facts a"
  by (simp add: restore_access_status_def Let_def)

lemma restore_facts [simp]: "ar_facts (snd (restore_access_after_revalidation d now n order a)) = ar_facts a"
  by (cases n) (simp_all add: restore_access_after_revalidation_def Let_def del: update_dialog_at)

lemma accept_grows: "ar_facts a k = Some n \<Longrightarrow> \<exists>n' \<ge> n. ar_facts (snd (accept_access_loss d owner order a)) k = Some n'"
  using claim_grows by (auto simp: accept_access_loss_def split: option.split)

lemma lost_facts: "ar_facts (snd (set_access_lost d now reason g owner order a)) = ar_facts (snd (accept_access_loss d owner order a))
    \<or> ar_facts (snd (set_access_lost d now reason g owner order a)) = ar_facts a"
  by (simp add: set_access_lost_def split_beta Let_def)

lemma recovery_facts:
  assumes "record_access_recovery_observation d order a = Some (b, a')" "ar_facts a k = Some n"
  shows "\<exists>n' \<ge> n. ar_facts a' k = Some n'"
proof -
  let ?a1 = "snd (claim_dialog_fact d ''access_state'' order a)"
  obtain n1 where n1: "n \<le> n1" "ar_facts ?a1 k = Some n1" using claim_grows[OF assms(2)] by blast
  have "a' = a \<or> a' = snd (claim_dialog_fact d ''access_recovery_witness'' order ?a1)"
    using assms(1) by (auto simp: record_access_recovery_observation_def split_beta Let_def split: if_splits)
  moreover from n1(2) obtain n2 where "n1 \<le> n2"
      "ar_facts (snd (claim_dialog_fact d ''access_recovery_witness'' order ?a1)) k = Some n2"
    using claim_grows by blast
  ultimately show ?thesis using assms(2) n1(1) by fastforce
qed

lemma archive_step_facts: "ar_facts a k = Some n \<Longrightarrow> \<exists>n' \<ge> n. ar_facts (archive_step ru e a) k = Some n'"
proof (cases e)
  case (AO_Lost d now reason g owner order)
  assume "ar_facts a k = Some n"
  then show ?thesis using lost_facts[of d now reason g owner order a] accept_grows[of a k n d owner order] AO_Lost by auto
next
  case (AO_Recovery d order)
  assume "ar_facts a k = Some n"
  then show ?thesis using recovery_facts[of d order a] AO_Recovery by (auto split: option.split)
qed auto

interpretation facts: op_system "archive_step ru" "\<lambda>a. \<exists>n' \<ge> n. ar_facts a k = Some n'"
  for ru :: MessageRules and n :: int and k :: "int \<times> string"
  by unfold_locales (use archive_step_facts order_trans in blast)

text \<open>
  C35. Once an access observation of order \<open>n\<close> was accepted for a dialog, no access loss and no
  recovery of the same or an older order has any effect, and no restoration that rests on an
  older recovery either, whatever operations on the archive come in between: responses
  that arrive late cannot overwrite what a newer request saw.
\<close>

theorem access_follows_newest:
  assumes "ar_facts a (d, ''access_state'') = Some n"
  shows "\<forall>m \<le> n. set_access_lost d now reason g owner (Some m) (run_ops (archive_step ru) es a)
      = (False, run_ops (archive_step ru) es a)
    \<and> record_access_recovery_observation d m (run_ops (archive_step ru) es a) = Some (False, run_ops (archive_step ru) es a)
    \<and> (m < n \<longrightarrow> restore_access_after_revalidation d now count (Some m) (run_ops (archive_step ru) es a)
      = (False, run_ops (archive_step ru) es a))"
proof (intro allI impI)
  fix m assume m: "m \<le> n"
  define a' where "a' = run_ops (archive_step ru) es a"
  obtain n' where n': "n \<le> n'" "ar_facts a' (d, ''access_state'') = Some n'"
    using facts.run_invar[of n a "(d, ''access_state'')" ru es] assms unfolding a'_def by auto
  have "claim_dialog_fact d ''access_state'' m a' = (False, a')" using n' m by (simp add: claim_dialog_fact_def)
  moreover have "m < n \<Longrightarrow> \<not> current_recovery_witness a' d m" using n' by (simp add: current_recovery_witness_def)
  ultimately show "set_access_lost d now reason g owner (Some m) a' = (False, a')
    \<and> record_access_recovery_observation d m a' = Some (False, a')
    \<and> (m < n \<longrightarrow> restore_access_after_revalidation d now count (Some m) a' = (False, a'))"
    by (simp add: set_access_lost_def accept_access_loss_def record_access_recovery_observation_def
        restore_access_after_revalidation_def)
qed

text \<open>A recovery is recorded; the loss a slower request reports is refused after a restoration.\<close>

lemma access_follows_newest_witness:
  "fst (set_access_lost 7 90 None None None (Some 4)
     (archive_step demo_rules (AO_Restore 7 80 None (Some 6)) (archive_step demo_rules (AO_Recovery 7 6) empty_archive))) = False"
proof -
  have "ar_facts (archive_step demo_rules (AO_Recovery 7 6) empty_archive) (7, ''access_state'') = Some 6"
    by (simp add: record_access_recovery_observation_def claim_dialog_fact_def empty_archive_def)
  from access_follows_newest[OF this, of 90 None None None demo_rules "[AO_Restore 7 80 None (Some 6)]" None]
  have "\<forall>m \<le> 6. fst (set_access_lost 7 90 None None None (Some m)
     (run_ops (archive_step demo_rules) [AO_Restore 7 80 None (Some 6)] (archive_step demo_rules (AO_Recovery 7 6) empty_archive))) = False"
    by (metis fst_conv)
  then have "fst (set_access_lost 7 90 None None None (Some 4)
     (run_ops (archive_step demo_rules) [AO_Restore 7 80 None (Some 6)] (archive_step demo_rules (AO_Recovery 7 6) empty_archive))) = False"
    by simp
  then show ?thesis by (simp del: archive_step.simps)
qed
end
