(* ===== verification/Dm_Checkpoint.thy ===== *)
theory Dm_Checkpoint
  imports Py_Json
begin

text \<open>
  The checkpoint of the deletion reconciliation of private dialogs (\<^verbatim>\<open>sync_read_model.py\<close>): its
  record, the strict validation, and the decoder and encoder of the value in \<^verbatim>\<open>daemon_state\<close>.
  The value is given as the tree \<^verbatim>\<open>json.loads\<close> builds from it, an object as its list of pairs
  (what \<^verbatim>\<open>object_pairs_hook\<close> sees), and \<open>None\<close> for a text that is blank or no JSON.
\<close>

datatype dm_error = Invalid_Checkpoint | Stale_Scan

record DmDeletionCheckpoint =
  dc_status :: py_str
  dc_generation :: int
  dc_scan_started_at :: int
  dc_dialog_cursor :: "int option"
  dc_message_cursor :: int
  dc_next_run_at :: int
  dc_policy_version :: "int option"
  dc_reason :: "py_str option"
  dc_changed_at :: "int option"

definition DM_DELETION_POLICY_VERSION :: int where
  "DM_DELETION_POLICY_VERSION = 1"

definition DM_DELETION_SUSPENSION_REASONS :: "py_str set" where
  "DM_DELETION_SUSPENSION_REASONS = {lit ''legacy_generation_review'', lit ''interrupted'', lit ''account_throttle''}"

definition dm_statuses :: "py_str set" where
  "dm_statuses = {lit ''running'', lit ''idle'', lit ''verifying'', lit ''suspended''}"

section \<open>Validation\<close>

abbreviation dm_check :: "bool \<Rightarrow> dm_error + unit" where
  "dm_check b \<equiv> guard b Invalid_Checkpoint"

definition validate_dm_checkpoint_cursors :: "DmDeletionCheckpoint \<Rightarrow> dm_error + unit" where
  "validate_dm_checkpoint_cursors s =
     then_check (dm_check (1 \<le> dc_generation s))
     (then_check (dm_check (0 \<le> dc_scan_started_at s))
     (then_check (dm_check (0 \<le> dc_message_cursor s))
     (then_check (dm_check (0 \<le> dc_next_run_at s))
     (then_check (dm_check (case dc_dialog_cursor s of Some d \<Rightarrow> 1 \<le> d | None \<Rightarrow> True))
     (then_check (dm_check (\<not> (0 < dc_message_cursor s \<and> dc_dialog_cursor s = None)))
       (dm_check (\<not> (dc_status s = lit ''idle'' \<and> (dc_dialog_cursor s \<noteq> None \<or> dc_message_cursor s \<noteq> 0)))))))))"

definition validate_dm_checkpoint_reason :: "DmDeletionCheckpoint \<Rightarrow> dm_error + unit" where
  "validate_dm_checkpoint_reason s =
     then_check (dm_check (case dc_reason s of Some x \<Rightarrow> x \<in> DM_DELETION_SUSPENSION_REASONS | None \<Rightarrow> True))
       (dm_check (\<not> (dc_status s = lit ''suspended''
         \<and> (case dc_reason s of Some x \<Rightarrow> x \<notin> DM_DELETION_SUSPENSION_REASONS | None \<Rightarrow> True))))"

definition validate_dm_checkpoint_lifecycle :: "bool \<Rightarrow> DmDeletionCheckpoint \<Rightarrow> dm_error + unit" where
  "validate_dm_checkpoint_lifecycle legacy s =
     then_check (dm_check (\<not> (dc_status s \<in> {lit ''running'', lit ''verifying''} \<and> dc_next_run_at s \<noteq> 0)))
     (then_check (dm_check (\<not> (dc_status s \<in> {lit ''running'', lit ''verifying'', lit ''idle''} \<and> dc_reason s \<noteq> None)))
     (then_check (validate_dm_checkpoint_reason s)
     (then_check (dm_check (\<not> (dc_status s = lit ''verifying'' \<and> legacy)))
     (then_check (dm_check (\<not> (\<not> legacy \<and> dc_changed_at s = None)))
       (dm_check (case dc_changed_at s of Some t \<Rightarrow> 0 \<le> t | None \<Rightarrow> True))))))"

definition validate_dm_deletion_checkpoint :: "bool \<Rightarrow> DmDeletionCheckpoint \<Rightarrow> dm_error + unit" where
  "validate_dm_deletion_checkpoint legacy s =
     then_check (dm_check (dc_status s \<in> dm_statuses))
     (then_check (validate_dm_checkpoint_cursors s) (validate_dm_checkpoint_lifecycle legacy s))"

section \<open>Decoding\<close>

definition DM_DELETION_LEGACY_FIELDS :: "py_str set" where
  "DM_DELETION_LEGACY_FIELDS = lit ` {''status'', ''generation'', ''scan_started_at'', ''dialog_id_cursor'', ''next_run_at''}"

definition DM_DELETION_CURRENT_FIELDS :: "py_str set" where
  "DM_DELETION_CURRENT_FIELDS = DM_DELETION_LEGACY_FIELDS
     \<union> lit ` {''message_cursor'', ''policy_version'', ''reason'', ''state_changed_at''}"

text \<open>\<open>_unique_json_object\<close> sees every object of the text, the inner ones first.\<close>

fun unique_json_object :: "json \<Rightarrow> bool" where
  "unique_json_object (JDict d) \<longleftrightarrow> list_all (\<lambda>(k, v). unique_json_object v) d \<and> distinct (map fst d)"
| "unique_json_object (JList vs) \<longleftrightarrow> list_all unique_json_object vs"
| "unique_json_object _ \<longleftrightarrow> True"

type_synonym fields = "(py_str \<times> json) list"

definition field :: "fields \<Rightarrow> string \<Rightarrow> json option" where
  "field v name = od_get v (lit name)"

definition checkpoint_int :: "bool \<Rightarrow> json \<Rightarrow> dm_error + int" where
  "checkpoint_int positive v = (case v of
     JInt n \<Rightarrow> if n < (if positive then 1 else 0) then Inl Invalid_Checkpoint else Inr n
   | _ \<Rightarrow> Inl Invalid_Checkpoint)"

definition validate_dm_checkpoint_keys :: "fields \<Rightarrow> py_str set \<Rightarrow> py_str set \<Rightarrow> dm_error + unit" where
  "validate_dm_checkpoint_keys v allowed_fields required_fields =
     then_check (dm_check (\<forall>k \<in> set (od_keys v). k \<in> allowed_fields))
       (dm_check (required_fields \<subseteq> set (od_keys v)))"

definition validate_legacy_dm_checkpoint_fields :: "fields \<Rightarrow> dm_error + unit" where
  "validate_legacy_dm_checkpoint_fields v =
     then_check (dm_check (field v ''status'' \<in> {Some (JStr (lit ''running'')), Some (JStr (lit ''idle''))}))
     (then_check (dm_check (\<not> (field v ''message_cursor'' \<noteq> None \<and> field v ''message_offset'' \<noteq> None)))
       (validate_dm_checkpoint_keys v
         (DM_DELETION_LEGACY_FIELDS \<union> lit ` {''message_cursor'', ''message_offset''}) DM_DELETION_LEGACY_FIELDS))"

definition validate_current_dm_checkpoint_fields :: "fields \<Rightarrow> dm_error + unit" where
  "validate_current_dm_checkpoint_fields v =
     then_check (dm_check (field v ''policy_version'' = Some (JInt DM_DELETION_POLICY_VERSION)))
       (validate_dm_checkpoint_keys v DM_DELETION_CURRENT_FIELDS DM_DELETION_CURRENT_FIELDS)"

definition validate_dm_checkpoint_fields :: "fields \<Rightarrow> dm_error + bool" where
  "validate_dm_checkpoint_fields v =
     (let legacy = (field v ''policy_version'' = None)
      in then_check (if legacy then validate_legacy_dm_checkpoint_fields v else validate_current_dm_checkpoint_fields v)
           (Inr legacy))"

definition optional_field :: "json option \<Rightarrow> json" where
  "optional_field v = (case v of Some x \<Rightarrow> x | None \<Rightarrow> JNull)"

definition nullable :: "json \<Rightarrow> (json \<Rightarrow> dm_error + 'a) \<Rightarrow> dm_error + 'a option" where
  "nullable v f = (if v = JNull then Inr None else and_then (f v) (\<lambda>x. Inr (Some x)))"

definition reason_text :: "json \<Rightarrow> dm_error + py_str" where
  "reason_text v = (case v of JStr s \<Rightarrow> Inr s | _ \<Rightarrow> Inl Invalid_Checkpoint)"

definition build_dm_checkpoint :: "bool \<Rightarrow> fields \<Rightarrow> dm_error + DmDeletionCheckpoint" where
  "build_dm_checkpoint legacy v =
     and_then (nullable (the (field v ''dialog_id_cursor'')) (checkpoint_int True)) (\<lambda>dialog_cursor.
     and_then (nullable (optional_field (field v ''reason'')) reason_text) (\<lambda>reason.
     and_then (checkpoint_int True (the (field v ''generation''))) (\<lambda>generation.
     and_then (checkpoint_int False (the (field v ''scan_started_at''))) (\<lambda>scan_started_at.
     and_then (checkpoint_int False (case field v ''message_cursor'' of Some x \<Rightarrow> x
         | None \<Rightarrow> (case field v ''message_offset'' of Some x \<Rightarrow> x | None \<Rightarrow> JInt 0))) (\<lambda>message_cursor.
     and_then (checkpoint_int False (the (field v ''next_run_at''))) (\<lambda>next_run_at.
     and_then (nullable (optional_field (field v ''state_changed_at'')) (checkpoint_int False)) (\<lambda>changed_at.
       let s = \<lparr>dc_status = (case the (field v ''status'') of JStr t \<Rightarrow> t | _ \<Rightarrow> []), dc_generation = generation,
             dc_scan_started_at = scan_started_at, dc_dialog_cursor = dialog_cursor, dc_message_cursor = message_cursor,
             dc_next_run_at = next_run_at, dc_policy_version = (if legacy then None else Some DM_DELETION_POLICY_VERSION),
             dc_reason = reason, dc_changed_at = changed_at\<rparr>
       in then_check (validate_dm_deletion_checkpoint legacy s) (Inr s))))))))"

type_synonym dm_row = "json option option"

definition decode_dm_deletion_checkpoint :: "dm_row \<Rightarrow> dm_error + DmDeletionCheckpoint option" where
  "decode_dm_deletion_checkpoint row = (case row of
     None \<Rightarrow> Inr None
   | Some None \<Rightarrow> Inl Invalid_Checkpoint
   | Some (Some tree) \<Rightarrow>
       if \<not> unique_json_object tree then Inl Invalid_Checkpoint
       else case tree of
         JDict v \<Rightarrow> and_then (validate_dm_checkpoint_fields v) (\<lambda>legacy.
           and_then (build_dm_checkpoint legacy v) (\<lambda>s. Inr (Some s)))
       | _ \<Rightarrow> Inl Invalid_Checkpoint)"

section \<open>Encoding\<close>

text \<open>The keys are sorted.\<close>

definition checkpoint_fields :: "DmDeletionCheckpoint \<Rightarrow> fields" where
  "checkpoint_fields s =
     [(lit ''dialog_id_cursor'', case dc_dialog_cursor s of Some d \<Rightarrow> JInt d | None \<Rightarrow> JNull),
      (lit ''generation'', JInt (dc_generation s)),
      (lit ''message_cursor'', JInt (dc_message_cursor s)),
      (lit ''next_run_at'', JInt (dc_next_run_at s)),
      (lit ''policy_version'', case dc_policy_version s of Some n \<Rightarrow> JInt n | None \<Rightarrow> JNull),
      (lit ''reason'', case dc_reason s of Some x \<Rightarrow> JStr x | None \<Rightarrow> JNull),
      (lit ''scan_started_at'', JInt (dc_scan_started_at s)),
      (lit ''state_changed_at'', case dc_changed_at s of Some t \<Rightarrow> JInt t | None \<Rightarrow> JNull),
      (lit ''status'', JStr (dc_status s))]"

definition encode_dm_deletion_checkpoint :: "DmDeletionCheckpoint \<Rightarrow> dm_error + json" where
  "encode_dm_deletion_checkpoint s =
     (if dc_policy_version s \<noteq> Some DM_DELETION_POLICY_VERSION then Inl Invalid_Checkpoint
      else then_check (validate_dm_deletion_checkpoint False s) (Inr (JDict (checkpoint_fields s))))"

definition dm_deletion_reconciliation_is_blocked :: "DmDeletionCheckpoint option \<Rightarrow> bool" where
  "dm_deletion_reconciliation_is_blocked state \<longleftrightarrow> (case state of None \<Rightarrow> False
     | Some s \<Rightarrow> dc_status s \<in> {lit ''verifying'', lit ''suspended''}
         \<or> dc_status s = lit ''running'' \<and> dc_policy_version s = None)"

section \<open>Reading back what was written\<close>

lemma lit_eq [simp]: "lit s = lit t \<longleftrightarrow> s = t"
  by (simp add: lit_def inj_map_eq_map[OF inj_of_char])

lemma decode_encoded:
  assumes "encode_dm_deletion_checkpoint s = Inr tree"
  shows "decode_dm_deletion_checkpoint (Some (Some tree)) = Inr (Some s)"
proof -
  have version: "dc_policy_version s = Some DM_DELETION_POLICY_VERSION" and ok: "validate_dm_deletion_checkpoint False s = Inr ()"
    and tree: "tree = JDict (checkpoint_fields s)"
    using assms by (auto simp: encode_dm_deletion_checkpoint_def split: if_splits)
  let ?v = "checkpoint_fields s"
  have get: "field ?v ''dialog_id_cursor'' = Some (case dc_dialog_cursor s of Some d \<Rightarrow> JInt d | None \<Rightarrow> JNull)"
    "field ?v ''generation'' = Some (JInt (dc_generation s))" "field ?v ''message_cursor'' = Some (JInt (dc_message_cursor s))"
    "field ?v ''next_run_at'' = Some (JInt (dc_next_run_at s))"
    "field ?v ''policy_version'' = Some (JInt DM_DELETION_POLICY_VERSION)"
    "field ?v ''reason'' = Some (case dc_reason s of Some x \<Rightarrow> JStr x | None \<Rightarrow> JNull)"
    "field ?v ''scan_started_at'' = Some (JInt (dc_scan_started_at s))"
    "field ?v ''state_changed_at'' = Some (case dc_changed_at s of Some t \<Rightarrow> JInt t | None \<Rightarrow> JNull)"
    "field ?v ''status'' = Some (JStr (dc_status s))"
    by (simp_all add: field_def checkpoint_fields_def version)
  have keys: "set (od_keys ?v) = DM_DELETION_CURRENT_FIELDS"
    by (auto simp: od_keys_def checkpoint_fields_def DM_DELETION_CURRENT_FIELDS_def DM_DELETION_LEGACY_FIELDS_def)
  have unique: "unique_json_object tree"
    by (simp add: tree checkpoint_fields_def split: option.split)
  have bounds: "1 \<le> dc_generation s" "0 \<le> dc_scan_started_at s" "0 \<le> dc_message_cursor s" "0 \<le> dc_next_run_at s"
    "case dc_dialog_cursor s of Some d \<Rightarrow> 1 \<le> d | None \<Rightarrow> True" "case dc_changed_at s of Some t \<Rightarrow> 0 \<le> t | None \<Rightarrow> True"
    using ok by (simp_all add: validate_dm_deletion_checkpoint_def validate_dm_checkpoint_cursors_def validate_dm_checkpoint_lifecycle_def)
  have "validate_dm_checkpoint_fields ?v = Inr False"
    by (simp add: validate_dm_checkpoint_fields_def validate_current_dm_checkpoint_fields_def validate_dm_checkpoint_keys_def
        get keys)
  moreover have parts:
    "nullable (case dc_dialog_cursor s of Some d \<Rightarrow> JInt d | None \<Rightarrow> JNull) (checkpoint_int True) = Inr (dc_dialog_cursor s)"
    "nullable (case dc_reason s of Some x \<Rightarrow> JStr x | None \<Rightarrow> JNull) reason_text = Inr (dc_reason s)"
    "nullable (case dc_changed_at s of Some t \<Rightarrow> JInt t | None \<Rightarrow> JNull) (checkpoint_int False) = Inr (dc_changed_at s)"
    "checkpoint_int True (JInt (dc_generation s)) = Inr (dc_generation s)"
    "checkpoint_int False (JInt (dc_scan_started_at s)) = Inr (dc_scan_started_at s)"
    "checkpoint_int False (JInt (dc_message_cursor s)) = Inr (dc_message_cursor s)"
    "checkpoint_int False (JInt (dc_next_run_at s)) = Inr (dc_next_run_at s)"
    using bounds by (auto simp: nullable_def checkpoint_int_def reason_text_def and_then_def split: option.splits)
  have same: "\<lparr>dc_status = dc_status s, dc_generation = dc_generation s, dc_scan_started_at = dc_scan_started_at s,
      dc_dialog_cursor = dc_dialog_cursor s, dc_message_cursor = dc_message_cursor s, dc_next_run_at = dc_next_run_at s,
      dc_policy_version = Some DM_DELETION_POLICY_VERSION, dc_reason = dc_reason s, dc_changed_at = dc_changed_at s\<rparr> = s"
    by (simp add: version)
  have "build_dm_checkpoint False ?v = Inr s"
    by (simp add: build_dm_checkpoint_def get parts optional_field_def and_then_def same ok Let_def)
  ultimately show ?thesis
    using unique by (simp add: decode_dm_deletion_checkpoint_def tree and_then_def)
qed

lemma decoded_valid:
  assumes "decode_dm_deletion_checkpoint row = Inr (Some s)"
  shows "validate_dm_deletion_checkpoint (dc_policy_version s = None) s = Inr ()"
    and "dc_policy_version s = None \<or> dc_policy_version s = Some DM_DELETION_POLICY_VERSION"
proof -
  from assms obtain legacy v where b: "build_dm_checkpoint legacy v = Inr s"
    by (auto simp: decode_dm_deletion_checkpoint_def and_then_ok split: option.splits json.splits if_splits)
  then show "dc_policy_version s = None \<or> dc_policy_version s = Some DM_DELETION_POLICY_VERSION"
    and "validate_dm_deletion_checkpoint (dc_policy_version s = None) s = Inr ()"
    by (cases legacy; auto simp: build_dm_checkpoint_def and_then_ok Let_def)+
qed

lemma decoded_encodes:
  assumes "decode_dm_deletion_checkpoint row = Inr (Some s)" "dc_policy_version s \<noteq> None"
  shows "encode_dm_deletion_checkpoint s = Inr (JDict (checkpoint_fields s))"
  using decoded_valid[OF assms(1)] assms(2) by (auto simp: encode_dm_deletion_checkpoint_def)

end
