(* ===== verification/Dm_Scan.thy ===== *)
theory Dm_Scan
  imports Dm_Checkpoint Sql_Rows
begin

text \<open>
  The weekly deletion reconciliation of private dialogs
  (\<^verbatim>\<open>DmDeletionReconciliationDemandAdapter\<close>, \<^verbatim>\<open>delta_sync.py\<close>): a scan walks through the dialogs and
  looks up their undeleted messages page by page. A slice selects a page, claims it by a durable
  state, asks the server and commits the cursor; after an ambiguous end the scan stays blocked.
\<close>

definition DM_GAP_SCAN_RPC_CHUNK :: nat where
  "DM_GAP_SCAN_RPC_CHUNK = 100"

definition DM_GAP_SCAN_PERIOD_S :: int where
  "DM_GAP_SCAN_PERIOD_S = 7 * 24 * 60 * 60"

text \<open>
  \<open>ds_dialogs\<close> is what \<^verbatim>\<open>_SELECT_DM_GAP_DIALOGS_SQL\<close> returns, in ascending order; a message row is
  given by the columns the page query reads.
\<close>

record DmMessage =
  dm_dialog_id :: int
  dm_message_id :: int
  dm_is_deleted :: bool
  dm_sent_at :: int

record DmStore =
  ds_row :: dm_row
  ds_dialogs :: "int list"
  ds_messages :: "DmMessage list"

section \<open>The state\<close>

definition load_dm_state :: "DmStore \<Rightarrow> dm_error + DmDeletionCheckpoint option" where
  "load_dm_state st = decode_dm_deletion_checkpoint (ds_row st)"

definition store_dm_state :: "DmDeletionCheckpoint \<Rightarrow> DmStore \<Rightarrow> dm_error + DmStore" where
  "store_dm_state s st = and_then (encode_dm_deletion_checkpoint s) (\<lambda>t. Inr (st\<lparr>ds_row := Some (Some t)\<rparr>))"

text \<open>The text of \<open>_dm_gap_scan_revision\<close> by the tuple it prints, \<open>None\<close> for \<^verbatim>\<open>idle\<close>.\<close>

definition dm_revision :: "DmDeletionCheckpoint option \<Rightarrow> (int \<times> int option \<times> int \<times> int option \<times> py_str) option" where
  "dm_revision state = map_option (\<lambda>s. (dc_generation s, dc_dialog_cursor s, dc_message_cursor s,
     dc_policy_version s, dc_status s)) state"

definition dm_gap_scan_page_ids :: "DmStore \<Rightarrow> int \<Rightarrow> int \<Rightarrow> int \<Rightarrow> int list" where
  "dm_gap_scan_page_ids st d scan_started_at message_cursor = map dm_message_id
     (select_ordered (\<lambda>r. dm_dialog_id r = d \<and> \<not> dm_is_deleted r \<and> dm_sent_at r < scan_started_at
        \<and> message_cursor < dm_message_id r) dm_message_id DM_GAP_SCAN_RPC_CHUNK (ds_messages st))"

definition dm_gap_scan_release_at :: "DmStore \<Rightarrow> int \<Rightarrow> int option" where
  "dm_gap_scan_release_at st now = (case load_dm_state st of
     Inl e \<Rightarrow> None
   | Inr state \<Rightarrow>
       if dm_deletion_reconciliation_is_blocked state then None
       else case state of None \<Rightarrow> Some 0
         | Some s \<Rightarrow> if dc_status s = lit ''running'' then Some 0
             else if now < dc_next_run_at s then Some (dc_next_run_at s) else Some 0)"

definition dm_scan_transition :: "py_str \<Rightarrow> string option \<Rightarrow> int \<Rightarrow> DmDeletionCheckpoint \<Rightarrow> DmDeletionCheckpoint" where
  "dm_scan_transition status reason now s = s\<lparr>dc_status := status, dc_policy_version := Some DM_DELETION_POLICY_VERSION,
     dc_reason := map_option lit reason, dc_changed_at := Some now\<rparr>"

definition prepare_legacy_dm_scan_state :: "int \<Rightarrow> DmDeletionCheckpoint \<Rightarrow> DmDeletionCheckpoint" where
  "prepare_legacy_dm_scan_state now s =
     (if dc_status s = lit ''running'' then dm_scan_transition (lit ''suspended'') (Some ''legacy_generation_review'') now s
      else dm_scan_transition (dc_status s) None now s)"

text \<open>\<open>prepare_dm_deletion_reconciliation\<close>, at start-up; an error rolls the transaction back.\<close>

definition prepare_dm_deletion_reconciliation :: "int \<Rightarrow> DmStore \<Rightarrow> dm_error + DmStore" where
  "prepare_dm_deletion_reconciliation now st = (case load_dm_state st of
     Inl e \<Rightarrow> Inr st
   | Inr None \<Rightarrow> Inr st
   | Inr (Some s) \<Rightarrow>
       if now < 0 then Inl Invalid_Checkpoint
       else if dc_policy_version s = None then store_dm_state (prepare_legacy_dm_scan_state now s) st
       else if dc_status s = lit ''verifying''
       then store_dm_state (dm_scan_transition (lit ''suspended'') (Some ''interrupted'') now s) st
       else Inr st)"

section \<open>A slice\<close>

definition new_scan :: "int \<Rightarrow> int \<Rightarrow> DmDeletionCheckpoint" where
  "new_scan generation now = \<lparr>dc_status = lit ''running'', dc_generation = generation, dc_scan_started_at = now,
     dc_dialog_cursor = None, dc_message_cursor = 0, dc_next_run_at = 0,
     dc_policy_version = Some DM_DELETION_POLICY_VERSION, dc_reason = None, dc_changed_at = Some now\<rparr>"

definition start_scan :: "int \<Rightarrow> DmStore \<Rightarrow> dm_error + (DmDeletionCheckpoint option \<times> DmStore)" where
  "start_scan now st = and_then (load_dm_state st) (\<lambda>state.
     and_then (case state of
         None \<Rightarrow> and_then (store_dm_state (new_scan 1 now) st) (\<lambda>st1. Inr (new_scan 1 now, st1))
       | Some s \<Rightarrow> if dc_status s = lit ''idle'' \<and> dc_next_run_at s \<le> now
           then and_then (store_dm_state (new_scan (dc_generation s + 1) now) st)
             (\<lambda>st1. Inr (new_scan (dc_generation s + 1) now, st1))
           else Inr (s, st)) (\<lambda>(s, st1).
       Inr (if dc_status s = lit ''idle'' \<or> dc_status s \<noteq> lit ''running''
          \<or> dc_policy_version s \<noteq> Some DM_DELETION_POLICY_VERSION then None else Some s, st1)))"

definition next_dialog :: "DmDeletionCheckpoint \<Rightarrow> int list \<Rightarrow> int option" where
  "next_dialog s dialogs =
     (if 0 < dc_message_cursor s \<and> (\<exists>d \<in> set dialogs. dc_dialog_cursor s = Some d) then dc_dialog_cursor s
      else find (\<lambda>d. case dc_dialog_cursor s of None \<Rightarrow> True | Some c \<Rightarrow> c < d) dialogs)"

definition write_transition :: "DmDeletionCheckpoint \<Rightarrow> DmDeletionCheckpoint \<Rightarrow> DmStore \<Rightarrow> dm_error + DmStore" where
  "write_transition old new st = and_then (load_dm_state st) (\<lambda>current.
     if current \<noteq> Some old then Inl Stale_Scan else store_dm_state new st)"

definition completed_scan :: "int \<Rightarrow> DmDeletionCheckpoint \<Rightarrow> DmDeletionCheckpoint" where
  "completed_scan now s = (dm_scan_transition (lit ''idle'') None now s)\<lparr>dc_dialog_cursor := None, dc_message_cursor := 0,
     dc_next_run_at := now + DM_GAP_SCAN_PERIOD_S\<rparr>"

definition advanced_scan :: "int \<Rightarrow> int \<Rightarrow> int \<Rightarrow> DmDeletionCheckpoint \<Rightarrow> DmDeletionCheckpoint" where
  "advanced_scan d message_cursor now s = (dm_scan_transition (lit ''running'') None now s)\<lparr>dc_dialog_cursor := Some d,
     dc_message_cursor := message_cursor, dc_next_run_at := 0\<rparr>"

text \<open>\<open>_select_page\<close>: the transactions it commits stay when a later one raises.\<close>

definition dialog_page :: "DmDeletionCheckpoint \<Rightarrow> int \<Rightarrow> DmStore \<Rightarrow> int list" where
  "dialog_page s d st = dm_gap_scan_page_ids st d (dc_scan_started_at s)
     (if Some d = dc_dialog_cursor s then dc_message_cursor s else 0)"

definition after_write :: "dm_error + DmStore \<Rightarrow> DmStore \<Rightarrow> (dm_error + 'a option) \<times> DmStore" where
  "after_write r st = (case r of Inl e \<Rightarrow> (Inl e, st) | Inr st' \<Rightarrow> (Inr None, st'))"

definition select_from :: "int \<Rightarrow> DmDeletionCheckpoint \<Rightarrow> DmStore
    \<Rightarrow> (dm_error + (DmDeletionCheckpoint \<times> int \<times> int list) option) \<times> DmStore" where
  "select_from now s st = (case next_dialog s (ds_dialogs st) of
     None \<Rightarrow> after_write (write_transition s (completed_scan now s) st) st
   | Some d \<Rightarrow> if dialog_page s d st = [] then after_write (write_transition s (advanced_scan d 0 now s) st) st
       else (Inr (Some (s, d, dialog_page s d st)), st))"

definition select_page :: "int \<Rightarrow> DmStore \<Rightarrow> (dm_error + (DmDeletionCheckpoint \<times> int \<times> int list) option) \<times> DmStore" where
  "select_page now st = (case start_scan now st of
     Inl e \<Rightarrow> (Inl e, st)
   | Inr (None, st1) \<Rightarrow> (Inr None, st1)
   | Inr (Some s, st1) \<Rightarrow> select_from now s st1)"

text \<open>
  How the look-up of a claimed page ends: with an answer; deferred before any request of the
  attempt was dispatched, or after one; throttled; or in any other error.
\<close>

datatype lookup_end = Looked_Up | Deferred_Undispatched | Deferred_Dispatched | Throttled | Broken

definition settle_page :: "DmDeletionCheckpoint \<Rightarrow> int \<Rightarrow> int list \<Rightarrow> lookup_end \<Rightarrow> int \<Rightarrow> DmStore \<Rightarrow> dm_error + DmStore" where
  "settle_page s d page e now st = (case e of
     Looked_Up \<Rightarrow> write_transition s (advanced_scan d (last page) now s) st
   | Deferred_Undispatched \<Rightarrow>
       (case write_transition s (dm_scan_transition (lit ''running'') None now s) st of Inl _ \<Rightarrow> Inr st | Inr st' \<Rightarrow> Inr st')
   | Deferred_Dispatched \<Rightarrow> Inr st
   | Throttled \<Rightarrow>
       (case write_transition s (dm_scan_transition (lit ''suspended'') (Some ''account_throttle'') now s) st of
          Inl _ \<Rightarrow> Inr st | Inr st' \<Rightarrow> Inr st')
   | Broken \<Rightarrow> Inr st)"

datatype slice_result = SR_Stale | SR_No_Progress | SR_Progressed | SR_Raised

text \<open>
  \<open>run_slice\<close>: \<open>during\<close> is what other writers and the look-up itself do to the store while the
  page is at the server. The page of a slice that got as far is the second component.
\<close>

definition run_slice :: "(int \<times> int option \<times> int \<times> int option \<times> py_str) option \<Rightarrow> int \<Rightarrow> lookup_end \<Rightarrow> (DmStore \<Rightarrow> DmStore)
    \<Rightarrow> DmStore \<Rightarrow> (slice_result \<times> (int \<times> int list) option) \<times> DmStore" where
  "run_slice selected now e during st = (case load_dm_state st of
     Inl _ \<Rightarrow> ((SR_Raised, None), st)
   | Inr state \<Rightarrow>
       if dm_revision state \<noteq> selected then ((SR_Stale, None), st)
       else case select_page now st of
         (Inl Stale_Scan, st1) \<Rightarrow> ((SR_Stale, None), st1)
       | (Inl Invalid_Checkpoint, st1) \<Rightarrow> ((SR_No_Progress, None), st1)
       | (Inr None, st1) \<Rightarrow> ((SR_No_Progress, None), st1)
       | (Inr (Some (s, d, page)), st1) \<Rightarrow>
           let v = dm_scan_transition (lit ''verifying'') None now s
           in case write_transition s v st1 of
                Inl Stale_Scan \<Rightarrow> ((SR_Stale, None), st1)
              | Inl Invalid_Checkpoint \<Rightarrow> ((SR_No_Progress, None), st1)
              | Inr st2 \<Rightarrow>
                  (case settle_page v d page e now (during st2) of
                     Inl Stale_Scan \<Rightarrow> ((SR_Stale, Some (d, page)), during st2)
                   | Inl Invalid_Checkpoint \<Rightarrow> ((SR_No_Progress, Some (d, page)), during st2)
                   | Inr st3 \<Rightarrow>
                       ((if e \<noteq> Looked_Up then SR_Raised
                         else if dm_revision (Some (advanced_scan d (last page) now v)) \<noteq> selected
                         then SR_Progressed else SR_No_Progress,
                         Some (d, page)), st3)))"

end
