(* ===== verification/Dm_Scan_Props.thy ===== *)
theory Dm_Scan_Props
  imports Dm_Scan "HOL-Library.Multiset"
begin

text \<open>
  Runs of the deletion reconciliation: slices with any end, slices cut off by a crash, changes of
  the message tables and restarts. A scan is complete only when it asked about every message,
  it stops for good when it cannot tell, and undisturbed it ends.
\<close>

section \<open>Transactions on the state\<close>

lemma store_ok:
  assumes "store_dm_state s st = Inr st'"
  shows "load_dm_state st' = Inr (Some s)" "ds_dialogs st' = ds_dialogs st" "ds_messages st' = ds_messages st"
  using assms decode_encoded by (auto simp: store_dm_state_def load_dm_state_def and_then_ok)

lemma write_transition_ok:
  assumes "write_transition old s st = Inr st'"
  shows "load_dm_state st = Inr (Some old)" "load_dm_state st' = Inr (Some s)"
    "ds_dialogs st' = ds_dialogs st" "ds_messages st' = ds_messages st"
  using assms by (auto simp: write_transition_def and_then_ok store_ok split: if_splits)

lemma transition_parts [simp]:
  "dc_status (dm_scan_transition x y now s) = x" "dc_generation (dm_scan_transition x y now s) = dc_generation s"
  "dc_scan_started_at (dm_scan_transition x y now s) = dc_scan_started_at s"
  "dc_dialog_cursor (dm_scan_transition x y now s) = dc_dialog_cursor s"
  "dc_message_cursor (dm_scan_transition x y now s) = dc_message_cursor s"
  "dc_next_run_at (dm_scan_transition x y now s) = dc_next_run_at s"
  "dc_policy_version (dm_scan_transition x y now s) = Some DM_DELETION_POLICY_VERSION"
  by (simp_all add: dm_scan_transition_def)

lemma advanced_parts [simp]:
  "dc_status (advanced_scan d m now s) = lit ''running''" "dc_generation (advanced_scan d m now s) = dc_generation s"
  "dc_scan_started_at (advanced_scan d m now s) = dc_scan_started_at s"
  "dc_dialog_cursor (advanced_scan d m now s) = Some d" "dc_message_cursor (advanced_scan d m now s) = m"
  "dc_policy_version (advanced_scan d m now s) = Some DM_DELETION_POLICY_VERSION"
  by (simp_all add: advanced_scan_def)

lemma completed_parts [simp]:
  "dc_status (completed_scan now s) = lit ''idle''" "dc_generation (completed_scan now s) = dc_generation s"
  "dc_scan_started_at (completed_scan now s) = dc_scan_started_at s"
  "dc_next_run_at (completed_scan now s) = now + DM_GAP_SCAN_PERIOD_S"
  "dc_policy_version (completed_scan now s) = Some DM_DELETION_POLICY_VERSION"
  by (simp_all add: completed_scan_def)

lemma new_scan_parts [simp]: "dc_generation (new_scan g now) = g" "dc_status (new_scan g now) = lit ''running''"
    "dc_policy_version (new_scan g now) = Some DM_DELETION_POLICY_VERSION"
  by (simp_all add: new_scan_def)

text \<open>What a selection does, by its outcome, when there is a state.\<close>

lemma start_scanE:
  assumes "start_scan now st = Inr (r, st1)" "load_dm_state st = Inr (Some s)"
  obtains (same) "st1 = st" "r = Some s" "dc_status s = lit ''running''" "dc_policy_version s = Some DM_DELETION_POLICY_VERSION"
    | (held) "st1 = st" "r = None"
    | (fresh) "dc_status s = lit ''idle''" "r = Some (new_scan (dc_generation s + 1) now)"
        "load_dm_state st1 = Inr r" "ds_dialogs st1 = ds_dialogs st" "ds_messages st1 = ds_messages st"
  using assms
  by (auto simp: start_scan_def and_then_ok store_ok split: if_splits)


lemma page_ids_sorted: "dm_gap_scan_page_ids st d start c = take DM_GAP_SCAN_RPC_CHUNK
    (sort (map dm_message_id (filter (\<lambda>r. dm_dialog_id r = d \<and> \<not> dm_is_deleted r \<and> dm_sent_at r < start \<and> c < dm_message_id r)
      (ds_messages st))))"
proof -
  have "map dm_message_id (sort_key dm_message_id xs) = sort (map dm_message_id xs)" for xs :: "DmMessage list"
    by (rule properties_for_sort[symmetric]) (simp only: mset_map mset_sort, simp)
  then show ?thesis by (simp add: dm_gap_scan_page_ids_def select_ordered_def flip: take_map)
qed

definition candidate :: "DmStore \<Rightarrow> int \<Rightarrow> int \<times> int \<Rightarrow> bool" where
  "candidate st start k \<longleftrightarrow> (\<exists>r \<in> set (ds_messages st). (dm_dialog_id r, dm_message_id r) = k
     \<and> \<not> dm_is_deleted r \<and> dm_sent_at r < start)"

lemma page_ids_in: "m \<in> set (dm_gap_scan_page_ids st d start c) \<Longrightarrow> c < m \<and> candidate st start (d, m)"
  unfolding page_ids_sorted by (auto simp: candidate_def dest!: in_set_takeD)

lemma take_sorted_le:
  assumes "sorted ys" "x \<in> set ys" "take n ys \<noteq> []" "x \<le> last (take n ys)"
  shows "x \<in> set (take n ys :: int list)"
proof -
  obtain i where i: "i < length ys" "ys ! i = x" using assms(2) by (auto simp: in_set_conv_nth)
  show ?thesis
  proof (cases "i < n")
    case True
    then show ?thesis using i by (auto simp: in_set_conv_nth)
  next
    case False
    let ?j = "length (take n ys) - 1"
    have "last (take n ys) = ys ! ?j" "?j < n" using assms(3) by (auto simp: last_conv_nth)
    then have "last (take n ys) \<le> x" using sorted_nth_mono[OF assms(1), of ?j i] i False by simp
    then show ?thesis using assms(3,4) last_in_set[OF assms(3)] by simp
  qed
qed

lemma page_ids_reach:
  assumes "candidate st start (d, m)" "c < m"
  shows "dm_gap_scan_page_ids st d start c \<noteq> []"
    and "m \<le> last (dm_gap_scan_page_ids st d start c) \<Longrightarrow> m \<in> set (dm_gap_scan_page_ids st d start c)"
proof -
  let ?ids = "sort (map dm_message_id (filter (\<lambda>r. dm_dialog_id r = d \<and> \<not> dm_is_deleted r \<and> dm_sent_at r < start
      \<and> c < dm_message_id r) (ds_messages st)))"
  have m: "m \<in> set ?ids" using assms by (auto simp: candidate_def)
  then have "?ids \<noteq> []" by force
  then show page: "dm_gap_scan_page_ids st d start c \<noteq> []" by (simp add: page_ids_sorted DM_GAP_SCAN_RPC_CHUNK_def)
  show "m \<in> set (dm_gap_scan_page_ids st d start c)" if "m \<le> last (dm_gap_scan_page_ids st d start c)"
    using take_sorted_le[OF _ m, of DM_GAP_SCAN_RPC_CHUNK] page that by (simp add: page_ids_sorted)
qed

lemma select_fromE:
  assumes "select_from now s st = (r, st1)"
  obtains (quiet) "st1 = st" "\<exists>e. r = Inl e"
    | (complete) "r = Inr None" "next_dialog s (ds_dialogs st) = None" "load_dm_state st1 = Inr (Some (completed_scan now s))"
        "ds_dialogs st1 = ds_dialogs st" "ds_messages st1 = ds_messages st"
    | (advance) d where "r = Inr None" "next_dialog s (ds_dialogs st) = Some d" "dialog_page s d st = []"
        "load_dm_state st1 = Inr (Some (advanced_scan d 0 now s))"
        "ds_dialogs st1 = ds_dialogs st" "ds_messages st1 = ds_messages st"
    | (page) d where "st1 = st" "r = Inr (Some (s, d, dialog_page s d st))" "dialog_page s d st \<noteq> []"
        "next_dialog s (ds_dialogs st) = Some d"
proof (cases "next_dialog s (ds_dialogs st)")
  case None
  then show ?thesis
    using assms quiet complete by (auto simp: select_from_def after_write_def write_transition_ok split: sum.splits)
next
  case (Some d)
  show ?thesis
  proof (cases "dialog_page s d st = []")
    case True
    then show ?thesis
      using assms quiet advance[OF _ Some True] Some
      by (auto simp: select_from_def after_write_def write_transition_ok split: sum.splits)
  next
    case False
    then show ?thesis using assms page[OF _ _ False Some] Some by (auto simp: select_from_def)
  qed
qed

lemma select_pageE:
  assumes "select_page now st = (r, st1)" "load_dm_state st = Inr (Some s)"
  obtains (quiet) "st1 = st" "r = Inr None \<or> (\<exists>e. r = Inl e)"
    | (fresh) st0 where "dc_status s = lit ''idle''" "load_dm_state st0 = Inr (Some (new_scan (dc_generation s + 1) now))"
        "ds_dialogs st0 = ds_dialogs st" "ds_messages st0 = ds_messages st"
        "select_from now (new_scan (dc_generation s + 1) now) st0 = (r, st1)"
    | (walk) "dc_status s = lit ''running''" "dc_policy_version s = Some DM_DELETION_POLICY_VERSION"
        "select_from now s st = (r, st1)"
proof (cases "start_scan now st")
  case (Inl e)
  then show ?thesis using assms(1) by (auto simp: select_page_def intro: quiet)
next
  case (Inr x)
  then obtain r0 st0 where start: "start_scan now st = Inr (r0, st0)" by (cases x) auto
  from start assms(2) show ?thesis
  proof (cases rule: start_scanE)
    case same
    then show ?thesis using assms(1) start walk by (simp add: select_page_def)
  next
    case held
    then show ?thesis using assms(1) start quiet by (simp add: select_page_def)
  next
    case f: fresh
    then show ?thesis using assms(1) start fresh by (simp add: select_page_def)
  qed
qed

section \<open>Runs\<close>

definition asked_pairs :: "(int \<times> int list) option \<Rightarrow> (int \<times> int) set" where
  "asked_pairs q = (case q of None \<Rightarrow> {} | Some (d, page) \<Rightarrow> Pair d ` set page)"

text \<open>
  \<open>K\<close> are messages that stay in the scan: their dialogs stay eligible, and until a look-up
  asked about them their rows stay, undeleted and sent before the scan started. \<open>V\<close> are the
  messages that were asked about. Everything else in the tables may change at any time.
\<close>

definition dm_stable :: "(int \<times> int) set \<Rightarrow> int \<Rightarrow> DmStore \<Rightarrow> (int \<times> int) set \<Rightarrow> bool" where
  "dm_stable K started st V \<longleftrightarrow> sorted (ds_dialogs st)
     \<and> (\<forall>k \<in> K. fst k \<in> set (ds_dialogs st) \<and> 0 < snd k \<and> (k \<in> V \<or> candidate st started k))"

inductive dm_step :: "(int \<times> int) set \<Rightarrow> int \<Rightarrow> DmStore \<times> (int \<times> int) set \<Rightarrow> DmStore \<times> (int \<times> int) set \<Rightarrow> bool"
  for K started where
  Slice: "run_slice selected now e during st = ((result, asked), st') \<Longrightarrow> \<forall>x. ds_row (during x) = ds_row x \<Longrightarrow>
     V' = V \<union> (if e = Looked_Up then asked_pairs asked else {}) \<Longrightarrow> dm_stable K started st' V' \<Longrightarrow>
     dm_step K started (st, V) (st', V')"
| Cut: "dm_step K started (st, V) (snd (select_page now st), V)"
| Tables: "ds_row st' = ds_row st \<Longrightarrow> dm_stable K started st' V \<Longrightarrow> dm_step K started (st, V) (st', V)"
| Restart: "prepare_dm_deletion_reconciliation now st = Inr st' \<Longrightarrow> dm_step K started (st, V) (st', V)"

inductive dm_reaches :: "(int \<times> int) set \<Rightarrow> int \<Rightarrow> DmStore \<times> (int \<times> int) set \<Rightarrow> DmStore \<times> (int \<times> int) set \<Rightarrow> bool"
  for K started where
  start: "dm_reaches K started w w"
| step: "dm_reaches K started w w' \<Longrightarrow> dm_step K started w' w'' \<Longrightarrow> dm_reaches K started w w''"

text \<open>The messages a cursor has passed.\<close>

definition passed :: "DmDeletionCheckpoint \<Rightarrow> int \<times> int \<Rightarrow> bool" where
  "passed s k \<longleftrightarrow> (case dc_dialog_cursor s of None \<Rightarrow> False
     | Some c \<Rightarrow> fst k < c \<or> fst k = c \<and> (dc_message_cursor s \<le> 0 \<or> snd k \<le> dc_message_cursor s))"

definition scan_ok :: "(int \<times> int) set \<Rightarrow> int \<Rightarrow> int \<Rightarrow> (int \<times> int) set \<Rightarrow> DmDeletionCheckpoint \<Rightarrow> bool" where
  "scan_ok K g started V s \<longleftrightarrow> g \<le> dc_generation s \<and> (dc_generation s = g \<longrightarrow>
     dc_scan_started_at s = started \<and> dc_policy_version s = Some DM_DELETION_POLICY_VERSION
     \<and> (if dc_status s = lit ''idle'' then K \<subseteq> V else \<forall>k \<in> K. passed s k \<longrightarrow> k \<in> V))"

definition dm_ok :: "(int \<times> int) set \<Rightarrow> int \<Rightarrow> int \<Rightarrow> DmStore \<times> (int \<times> int) set \<Rightarrow> bool" where
  "dm_ok K g started w \<longleftrightarrow> dm_stable K started (fst w) (snd w)
     \<and> (\<exists>s. load_dm_state (fst w) = Inr (Some s) \<and> scan_ok K g started (snd w) s)"

lemma stable_tables:
  "ds_dialogs st' = ds_dialogs st \<Longrightarrow> ds_messages st' = ds_messages st \<Longrightarrow> dm_stable K started st' V = dm_stable K started st V"
  by (simp add: dm_stable_def candidate_def)

lemma passed_transition [simp]: "passed (dm_scan_transition x y now s) = passed s"
  by (rule ext) (simp add: passed_def split: option.split)

lemma scan_ok_transition:
  "scan_ok K g started V s \<Longrightarrow> dc_status s \<noteq> lit ''idle'' \<Longrightarrow> x \<noteq> lit ''idle'' \<Longrightarrow> scan_ok K g started V (dm_scan_transition x y now s)"
  by (simp add: scan_ok_def)

lemma scan_ok_mono: "scan_ok K g started V s \<Longrightarrow> V \<subseteq> V' \<Longrightarrow> scan_ok K g started V' s"
  by (fastforce simp: scan_ok_def)

text \<open>Nothing is left before the dialog that is chosen next.\<close>

lemma next_dialog_passed:
  assumes "sorted dialogs" "d \<in> set dialogs"
  shows "next_dialog s dialogs = None \<Longrightarrow> 0 < m \<Longrightarrow> passed s (d, m)"
    and "next_dialog s dialogs = Some d' \<Longrightarrow> d < d' \<Longrightarrow> passed s (d, m)"
proof -
  let ?later = "\<lambda>d. case dc_dialog_cursor s of None \<Rightarrow> True | Some c \<Rightarrow> c < d"
  show "passed s (d, m)" if "next_dialog s dialogs = None" "0 < m"
  proof -
    from that(1) have none: "find ?later dialogs = None"
      and over: "0 < dc_message_cursor s \<Longrightarrow> \<exists>d \<in> set dialogs. dc_dialog_cursor s = Some d \<Longrightarrow> dc_dialog_cursor s = None"
      by (auto simp: next_dialog_def split: if_splits)
    from none assms(2) have "\<not> ?later d" by (simp add: find_None_iff)
    then obtain c where c: "dc_dialog_cursor s = Some c" "d \<le> c" by (auto split: option.splits)
    with over assms(2) have "d = c \<longrightarrow> \<not> 0 < dc_message_cursor s" by auto
    with c show ?thesis by (auto simp: passed_def)
  qed
  show "passed s (d, m)" if "next_dialog s dialogs = Some d'" "d < d'"
  proof (cases "0 < dc_message_cursor s \<and> (\<exists>x \<in> set dialogs. dc_dialog_cursor s = Some x)")
    case True
    with that show ?thesis by (simp add: next_dialog_def passed_def)
  next
    case False
    with that(1) have "find ?later dialogs = Some d'" by (simp add: next_dialog_def)
    then obtain i where i: "i < length dialogs" "d' = dialogs ! i" "\<forall>j < i. \<not> ?later (dialogs ! j)"
      by (auto simp: find_Some_iff)
    from assms(2) obtain j where j: "j < length dialogs" "dialogs ! j = d" by (auto simp: in_set_conv_nth)
    have "j < i" using sorted_nth_mono[OF assms(1), of i j] i(1,2) j that(2) by (meson leD not_less)
    with i(3) j(2) have "\<not> ?later d" by auto
    then obtain c where "dc_dialog_cursor s = Some c" "d \<le> c" by (auto split: option.splits)
    with False assms(2) show ?thesis by (auto simp: passed_def)
  qed
qed

section \<open>The invariant\<close>

lemma loaded_cursor: "load_dm_state st = Inr (Some s) \<Longrightarrow> 0 \<le> dc_message_cursor s"
  using decoded_valid(1)[of "ds_row st" s]
  by (simp add: load_dm_state_def validate_dm_deletion_checkpoint_def validate_dm_checkpoint_cursors_def)

lemma passed_at: "Some c = dc_dialog_cursor s \<Longrightarrow> passed s k \<longleftrightarrow>
    fst k < c \<or> fst k = c \<and> (dc_message_cursor s \<le> 0 \<or> snd k \<le> dc_message_cursor s)"
  by (cases "dc_dialog_cursor s") (simp_all add: passed_def)

lemma walk_ok:
  assumes "select_from now s st = (r, st1)" "load_dm_state st = Inr (Some s)" "scan_ok K g started V s" "dm_stable K started st V"
    and "dc_status s = lit ''running''" "dc_policy_version s = Some DM_DELETION_POLICY_VERSION"
  shows "dm_ok K g started (st1, V)"
    and "r = Inr (Some (s', d, page)) \<Longrightarrow> s' = s \<and> load_dm_state st1 = Inr (Some s)
      \<and> scan_ok K g started (V \<union> Pair d ` set page) (advanced_scan d (last page) now' s)"
proof -
  have keep: "k \<in> V" if "dc_generation s = g" "k \<in> K" "passed s k" for k
    using assms(3,5) that by (simp add: scan_ok_def)
  have at_start: "dc_generation s = g \<Longrightarrow> dc_scan_started_at s = started" "g \<le> dc_generation s"
    using assms(3) by (auto simp: scan_ok_def)
  have stable: "sorted (ds_dialogs st)" and inK: "\<And>k. k \<in> K \<Longrightarrow> fst k \<in> set (ds_dialogs st)" "\<And>k. k \<in> K \<Longrightarrow> 0 < snd k"
    and cand: "\<And>k. k \<in> K \<Longrightarrow> k \<notin> V \<Longrightarrow> candidate st started k"
    using assms(4) by (auto simp: dm_stable_def)
  have before: "k \<in> V" if "dc_generation s = g" "k \<in> K" "next_dialog s (ds_dialogs st) = Some d" "fst k < d" for k d
    using keep[OF that(1,2)] next_dialog_passed(2)[OF stable inK(1)[OF that(2)] that(3,4), of "snd k"] by simp
  have begun: "snd k \<le> (if Some d = dc_dialog_cursor s then dc_message_cursor s else 0) \<Longrightarrow> k \<in> V"
    if "dc_generation s = g" "k \<in> K" "fst k = d" for k d
    using keep[OF that(1,2)] inK(2)[OF that(2)] that(3) passed_at[of d s k]
    by (cases "Some d = dc_dialog_cursor s") auto
  show "dm_ok K g started (st1, V)"
    using assms(1)
  proof (cases rule: select_fromE)
    case quiet
    then show ?thesis using assms(2-4) by (auto simp: dm_ok_def)
  next
    case complete
    have "K \<subseteq> V" if "dc_generation s = g"
      using keep[OF that] next_dialog_passed(1)[OF stable inK(1) complete(2) inK(2)] by fastforce
    then have "scan_ok K g started V (completed_scan now s)" using at_start by (simp add: scan_ok_def)
    then show ?thesis using complete assms(4) by (simp add: dm_ok_def stable_tables[OF complete(4,5)])
  next
    case (advance d)
    have "k \<in> V" if g: "dc_generation s = g" and k: "k \<in> K" "passed (advanced_scan d 0 now s) k" for k
    proof (cases "fst k < d")
      case False
      then have d: "fst k = d" using k(2) by (simp add: passed_def)
      show ?thesis
      proof (rule ccontr)
        assume no: "k \<notin> V"
        then have "candidate st (dc_scan_started_at s) (d, snd k)" using cand[OF k(1)] at_start(1)[OF g] d by auto
        moreover have "(if Some d = dc_dialog_cursor s then dc_message_cursor s else 0) < snd k"
          using begun[OF g k(1) d] no by (meson not_less)
        ultimately show False using page_ids_reach(1) advance(3) unfolding dialog_page_def by blast
      qed
    qed (use before[OF g k(1) advance(2)] in simp)
    then have "scan_ok K g started V (advanced_scan d 0 now s)" using at_start by (simp add: scan_ok_def)
    then show ?thesis using advance assms(4) by (simp add: dm_ok_def stable_tables[OF advance(5,6)])
  next
    case (page d)
    then show ?thesis using assms(2-4) by (auto simp: dm_ok_def)
  qed
  assume r: "r = Inr (Some (s', d, page))"
  from assms(1) have p: "st1 = st" "s' = s" "page = dialog_page s d st" "page \<noteq> []" "next_dialog s (ds_dialogs st) = Some d"
    using r by (auto elim!: select_fromE)
  have "k \<in> V \<union> Pair d ` set page" if g: "dc_generation s = g" and k: "k \<in> K" "passed (advanced_scan d (last page) now' s) k" for k
  proof (cases "fst k < d")
    case True
    then show ?thesis using before[OF g k(1) p(5)] by simp
  next
    case False
    have "0 \<le> dc_message_cursor s" by (rule loaded_cursor[OF assms(2)])
    moreover have "(if Some d = dc_dialog_cursor s then dc_message_cursor s else 0) < last page"
      using page_ids_in last_in_set[OF p(4)] unfolding p(3) dialog_page_def by blast
    ultimately have d: "fst k = d \<and> snd k \<le> last page" using k(2) False by (auto simp: passed_def split: if_splits)
    show ?thesis
    proof (rule ccontr)
      assume no: "k \<notin> V \<union> Pair d ` set page"
      from d have d: "fst k = d" "snd k \<le> last page" by auto
      have "candidate st (dc_scan_started_at s) (d, snd k)" using cand[OF k(1)] no at_start(1)[OF g] d(1) by auto
      moreover have "(if Some d = dc_dialog_cursor s then dc_message_cursor s else 0) < snd k"
        using begun[OF g k(1) d(1)] no by (meson UnCI not_less)
      ultimately have "snd k \<in> set page" using page_ids_reach(2) d(2) unfolding p(3) dialog_page_def by blast
      then have "k \<in> Pair d ` set page" using d(1) by (metis image_eqI prod.collapse)
      then show False using no by blast
    qed
  qed
  then have "scan_ok K g started (V \<union> Pair d ` set page) (advanced_scan d (last page) now' s)"
    using at_start by (simp add: scan_ok_def)
  then show "s' = s \<and> load_dm_state st1 = Inr (Some s)
      \<and> scan_ok K g started (V \<union> Pair d ` set page) (advanced_scan d (last page) now' s)"
    using p assms(2) by simp
qed

lemma newer_ok: "g < dc_generation s \<Longrightarrow> scan_ok K g started V s"
  by (simp add: scan_ok_def)

lemma select_from_generation:
  assumes "select_from now s st = (r, st1)" "load_dm_state st = Inr (Some s)"
  shows "\<exists>s1. load_dm_state st1 = Inr (Some s1) \<and> dc_generation s1 = dc_generation s"
    and "ds_dialogs st1 = ds_dialogs st \<and> ds_messages st1 = ds_messages st"
    and "r = Inr (Some (s', d, page)) \<Longrightarrow> s' = s \<and> st1 = st"
  using assms by (auto elim!: select_fromE)

lemma select_page_tables:
  assumes "select_page now st = (r, st1)" "load_dm_state st = Inr (Some s)"
  shows "ds_dialogs st1 = ds_dialogs st \<and> ds_messages st1 = ds_messages st"
  using assms(1,2)
proof (cases rule: select_pageE)
  case (fresh st0)
  then show ?thesis using select_from_generation(2)[OF fresh(5,2)] by simp
next
  case walk
  then show ?thesis using select_from_generation(2)[OF walk(3) assms(2)] by simp
qed simp

lemma select_ok:
  assumes "select_page now st = (r, st1)" "dm_ok K g started (st, V)"
  shows "dm_ok K g started (st1, V)"
    and "r = Inr (Some (s', d, page)) \<Longrightarrow> load_dm_state st1 = Inr (Some s') \<and> dc_status s' = lit ''running''
      \<and> scan_ok K g started V s' \<and> scan_ok K g started (V \<union> Pair d ` set page) (advanced_scan d (last page) now' s')"
proof -
  from assms(2) obtain s where s: "load_dm_state st = Inr (Some s)" "scan_ok K g started V s" and stable: "dm_stable K started st V"
    by (auto simp: dm_ok_def)
  have "dm_ok K g started (st1, V) \<and> (r = Inr (Some (s', d, page)) \<longrightarrow> load_dm_state st1 = Inr (Some s') \<and> dc_status s' = lit ''running''
      \<and> scan_ok K g started V s' \<and> scan_ok K g started (V \<union> Pair d ` set page) (advanced_scan d (last page) now' s'))"
    using assms(1) s(1)
  proof (cases rule: select_pageE)
    case quiet
    then show ?thesis using assms(2) by auto
  next
    case (fresh st0)
    let ?s = "new_scan (dc_generation s + 1) now"
    have new: "g < dc_generation x" if "dc_generation x = dc_generation ?s" for x using s(2) that by (simp add: scan_ok_def)
    from select_from_generation(1)[OF fresh(5,2)] obtain s1 where
      s1: "load_dm_state st1 = Inr (Some s1)" "dc_generation s1 = dc_generation ?s" by blast
    have "ds_dialogs st1 = ds_dialogs st" "ds_messages st1 = ds_messages st"
      using select_from_generation(2)[OF fresh(5,2)] fresh(3,4) by simp_all
    then have "dm_stable K started st1 V" using stable stable_tables by blast
    then have "dm_ok K g started (st1, V)" using s1(1) newer_ok[OF new[OF s1(2)]] by (simp add: dm_ok_def)
    moreover have "load_dm_state st1 = Inr (Some s') \<and> s' = ?s" if "r = Inr (Some (s', d, page))"
      using select_from_generation(3)[OF fresh(5,2) that] fresh(2) by simp
    moreover have "scan_ok K g started V ?s" "scan_ok K g started (V \<union> Pair d ` set page) (advanced_scan d (last page) now' ?s)"
      by (rule newer_ok, rule new, simp)+
    ultimately show ?thesis by auto
  next
    case walk
    show ?thesis using walk_ok[OF walk(3) s stable walk(1,2)] s(2) walk(1) by blast
  qed
  then show "dm_ok K g started (st1, V)"
    and "r = Inr (Some (s', d, page)) \<Longrightarrow> load_dm_state st1 = Inr (Some s') \<and> dc_status s' = lit ''running''
      \<and> scan_ok K g started V s' \<and> scan_ok K g started (V \<union> Pair d ` set page) (advanced_scan d (last page) now' s')"
    by blast+
qed

lemma settle_ok:
  assumes "settle_page v d page e now st = r" "load_dm_state st = Inr (Some v)" "dm_stable K started (case r of Inr st' \<Rightarrow> st' | Inl _ \<Rightarrow> st) V'"
    and "scan_ok K g started V' v" "dc_status v \<noteq> lit ''idle''" "e = Looked_Up \<Longrightarrow> scan_ok K g started V' (advanced_scan d (last page) now v)"
  shows "dm_ok K g started (case r of Inr st' \<Rightarrow> st' | Inl _ \<Rightarrow> st, V')"
proof -
  have kept: "dm_ok K g started (st, V')" if "dm_stable K started st V'" using assms(2,4) that by (auto simp: dm_ok_def)
  have written: "dm_ok K g started (st', V')" if "write_transition v s st = Inr st'" "scan_ok K g started V' s" "dm_stable K started st' V'" for s st'
    using write_transition_ok[OF that(1)] that(2,3) by (auto simp: dm_ok_def)
  show ?thesis
    using assms kept written[OF _ assms(6)] written[OF _ scan_ok_transition[OF assms(4,5)]]
    by (cases e) (auto simp: settle_page_def split: sum.splits)
qed

lemma run_slice_ok:
  assumes "run_slice selected now e during st = ((result, asked), st')" "dm_ok K g started (st, V)" "\<forall>x. ds_row (during x) = ds_row x"
    and "V' = V \<union> (if e = Looked_Up then asked_pairs asked else {})" "dm_stable K started st' V'"
  shows "dm_ok K g started (st', V')"
proof -
  from assms(2) obtain s where s: "load_dm_state st = Inr (Some s)" "scan_ok K g started V s" by (auto simp: dm_ok_def)
  obtain r st1 where sel: "select_page now st = (r, st1)" by fastforce
  have V': "V \<subseteq> V'" using assms(4) by simp
  note ok = select_ok[OF sel assms(2)]
  show ?thesis
  proof (cases "\<exists>s1 d page st2. dm_revision (Some s) = selected \<and> r = Inr (Some (s1, d, page))
      \<and> write_transition s1 (dm_scan_transition (lit ''verifying'') None now s1) st1 = Inr st2")
    case False
    then have "st' = st \<or> st' = st1" "V' = V"
      using assms(1,4) s(1) sel
      by (auto simp: run_slice_def asked_pairs_def Let_def split: if_splits sum.splits option.splits dm_error.splits)
    then show ?thesis using assms(2) ok(1) by auto
  next
    case True
    then obtain s1 d page st2 where go: "dm_revision (Some s) = selected" "r = Inr (Some (s1, d, page))"
      "write_transition s1 (dm_scan_transition (lit ''verifying'') None now s1) st1 = Inr st2" by blast
    let ?v = "dm_scan_transition (lit ''verifying'') None now s1" and ?x = "during st2"
    define res where "res = settle_page ?v d page e now ?x"
    have st': "st' = (case res of Inr y \<Rightarrow> y | Inl _ \<Rightarrow> ?x)" and asked: "asked = Some (d, page)"
      using assms(1) s(1) sel go
      by (auto simp: run_slice_def Let_def res_def split: sum.splits dm_error.splits)
    have page: "load_dm_state st1 = Inr (Some s1)" "dc_status s1 = lit ''running''" "scan_ok K g started V s1"
      "scan_ok K g started (V \<union> Pair d ` set page) (advanced_scan d (last page) now s1)"
      using ok(2)[OF go(2)] by blast+
    have load: "load_dm_state ?x = Inr (Some ?v)"
      using write_transition_ok(2)[OF go(3)] assms(3) by (simp add: load_dm_state_def)
    have v: "scan_ok K g started V' ?v"
      by (rule scan_ok_mono[OF scan_ok_transition[OF page(3)] V']) (simp_all add: page(2))
    have same: "advanced_scan d (last page) now ?v = advanced_scan d (last page) now s1"
      by (simp add: advanced_scan_def dm_scan_transition_def)
    have adv: "scan_ok K g started V' (advanced_scan d (last page) now ?v)" if "e = Looked_Up"
      unfolding same by (rule scan_ok_mono[OF page(4)]) (use assms(4) that asked in \<open>simp add: asked_pairs_def\<close>)
    have stable: "dm_stable K started (case res of Inr y \<Rightarrow> y | Inl _ \<Rightarrow> ?x) V'" using assms(5) st' by simp
    show ?thesis unfolding st'
      by (rule settle_ok[OF res_def[symmetric] load stable v _ adv]) simp_all
  qed
qed

lemma prepare_ok:
  assumes "prepare_dm_deletion_reconciliation now st = Inr st'" "dm_ok K g started (st, V)"
  shows "dm_ok K g started (st', V)"
proof -
  from assms(2) obtain s where s: "load_dm_state st = Inr (Some s)" "scan_ok K g started V s" and stable: "dm_stable K started st V"
    by (auto simp: dm_ok_def)
  have "st' = st \<or> (\<exists>s'. store_dm_state s' st = Inr st' \<and> scan_ok K g started V s')"
  proof (cases "dc_policy_version s = None")
    case True
    then have "g < dc_generation s" using s(2) by (auto simp: scan_ok_def)
    then have "scan_ok K g started V (prepare_legacy_dm_scan_state now s)"
      by (intro newer_ok) (simp add: prepare_legacy_dm_scan_state_def)
    then show ?thesis using assms(1) s(1) True by (auto simp: prepare_dm_deletion_reconciliation_def split: if_splits)
  next
    case False
    then show ?thesis using assms(1) s scan_ok_transition[OF s(2)]
      by (auto simp: prepare_dm_deletion_reconciliation_def split: if_splits)
  qed
  then show ?thesis
  proof (elim disjE exE conjE)
    fix s' assume w: "store_dm_state s' st = Inr st'" "scan_ok K g started V s'"
    have "dm_stable K started st' V" using store_ok(2,3)[OF w(1)] stable stable_tables by blast
    then show ?thesis using store_ok(1)[OF w(1)] w(2) by (auto simp: dm_ok_def)
  qed (use assms(2) in simp)
qed

lemma dm_step_ok: "dm_step K started w w' \<Longrightarrow> dm_ok K g started w \<Longrightarrow> dm_ok K g started w'"
proof (induction rule: dm_step.induct)
  case (Slice selected now e during st result asked st' V' V)
  then show ?case using run_slice_ok by blast
next
  case (Cut st V now)
  then show ?case using select_ok(1)[of now st "fst (select_page now st)" "snd (select_page now st)"] by simp
next
  case (Tables st' st V)
  then show ?case by (auto simp: dm_ok_def load_dm_state_def)
next
  case (Restart now st st' V)
  then show ?case using prepare_ok by blast
qed

lemma dm_reaches_ok: "dm_reaches K started w w' \<Longrightarrow> dm_ok K g started w \<Longrightarrow> dm_ok K g started w'"
  by (induction rule: dm_reaches.induct) (auto intro: dm_step_ok)

section \<open>A finished scan asked about everything\<close>

text \<open>
  C6. A scan that has just started with generation \<open>g\<close> runs with any interleaving of slices (however
  their look-ups end), crashes, restarts and changes of the tables. If its generation is found
  idle, the server was asked about every message that stayed in the scan.
\<close>

theorem finished_scan_asked_everything:
  assumes "dm_reaches K started (st, {}) (st', V)" "load_dm_state st = Inr (Some s)" "dc_status s = lit ''running''"
    and "dc_policy_version s = Some DM_DELETION_POLICY_VERSION" "dc_dialog_cursor s = None" "dc_scan_started_at s = started"
    and "dm_stable K started st {}"
    and "load_dm_state st' = Inr (Some s')" "dc_generation s' = dc_generation s" "dc_status s' = lit ''idle''"
  shows "K \<subseteq> V"
proof -
  have "dm_ok K (dc_generation s) started (st, {})"
    using assms(2-7) by (simp add: dm_ok_def scan_ok_def passed_def)
  from dm_reaches_ok[OF assms(1) this] assms(8-10) show ?thesis by (auto simp: dm_ok_def scan_ok_def)
qed

section \<open>An ambiguous end stops the scan\<close>

lemma asked_slice:
  assumes "run_slice selected now e during st = ((result, Some q), st')"
  obtains s d page st1 st2 where
    "write_transition s (dm_scan_transition (lit ''verifying'') None now s) st1 = Inr st2"
    "st' = (case settle_page (dm_scan_transition (lit ''verifying'') None now s) d page e now (during st2) of
       Inl _ \<Rightarrow> during st2 | Inr y \<Rightarrow> y)"
proof -
  obtain r st1 where sel: "select_page now st = (r, st1)" by fastforce
  from assms obtain state where state: "load_dm_state st = Inr state" "dm_revision state = selected"
    by (auto simp: run_slice_def split: sum.splits if_splits)
  from assms sel state obtain s d page where r: "r = Inr (Some (s, d, page))"
    by (auto simp: run_slice_def split: sum.splits option.splits dm_error.splits)
  from assms sel state r obtain st2 where w: "write_transition s (dm_scan_transition (lit ''verifying'') None now s) st1 = Inr st2"
    by (auto simp: run_slice_def Let_def split: sum.splits dm_error.splits)
  have "st' = (case settle_page (dm_scan_transition (lit ''verifying'') None now s) d page e now (during st2) of
       Inl _ \<Rightarrow> during st2 | Inr y \<Rightarrow> y)"
    using assms sel state r w by (auto simp: run_slice_def Let_def split: sum.splits dm_error.splits)
  with w show ?thesis by (rule that)
qed

definition dm_blocked :: "DmDeletionCheckpoint \<Rightarrow> DmStore \<Rightarrow> bool" where
  "dm_blocked s st \<longleftrightarrow> (\<exists>s'. load_dm_state st = Inr (Some s') \<and> dc_status s' \<in> {lit ''verifying'', lit ''suspended''}
     \<and> dc_policy_version s' = Some DM_DELETION_POLICY_VERSION \<and> dc_generation s' = dc_generation s
     \<and> dc_dialog_cursor s' = dc_dialog_cursor s \<and> dc_message_cursor s' = dc_message_cursor s)"

lemma blocked_select: "dm_blocked s st \<Longrightarrow> select_page now st = (Inr None, st)"
  by (auto simp: dm_blocked_def select_page_def start_scan_def and_then_def)

lemma blocked_step: "dm_step K started w w' \<Longrightarrow> dm_blocked s (fst w) \<Longrightarrow> dm_blocked s (fst w')"
proof (induction rule: dm_step.induct)
  case (Slice selected now e during st result asked st' V' V)
  then have "st' = st" using blocked_select[of s st now]
    by (auto simp: run_slice_def split: sum.splits if_splits)
  then show ?case using Slice by simp
next
  case (Restart now st st' V)
  then show ?case
    by (auto simp: dm_blocked_def prepare_dm_deletion_reconciliation_def store_ok split: if_splits)
qed (auto simp: blocked_select dm_blocked_def load_dm_state_def)

lemma blocked_reaches: "dm_reaches K started w w' \<Longrightarrow> dm_blocked s (fst w) \<Longrightarrow> dm_blocked s (fst w')"
  by (induction rule: dm_reaches.induct) (auto intro: blocked_step)

text \<open>
  C25. A scan whose look-up ended in an error that leaves open whether the server answered, or in a
  throttle, fails closed: whatever happens later, restarts included, its generation and cursors
  stay as they are, no slice asks the server about a page, and its demand reports no work.
\<close>

theorem scan_fails_closed:
  assumes "run_slice selected now e during st = ((result, Some q), st1)" "\<forall>x. ds_row (during x) = ds_row x"
    and "e \<in> {Broken, Deferred_Dispatched, Throttled}" "dm_reaches K started (st1, V) (st2, V')"
  shows "(\<exists>s s2. load_dm_state st1 = Inr (Some s) \<and> load_dm_state st2 = Inr (Some s2) \<and> dc_generation s2 = dc_generation s
      \<and> dc_dialog_cursor s2 = dc_dialog_cursor s \<and> dc_message_cursor s2 = dc_message_cursor s)
    \<and> dm_gap_scan_release_at st2 now2 = None
    \<and> snd (fst (run_slice selected2 now2 e2 during2 st2)) = None \<and> snd (run_slice selected2 now2 e2 during2 st2) = st2"
proof -
  obtain s1 d page sta stb where stb:
    "write_transition s1 (dm_scan_transition (lit ''verifying'') None now s1) sta = Inr stb"
    "st1 = (case settle_page (dm_scan_transition (lit ''verifying'') None now s1) d page e now (during stb) of
       Inl _ \<Rightarrow> during stb | Inr y \<Rightarrow> y)"
    by (rule asked_slice[OF assms(1)])
  let ?v = "dm_scan_transition (lit ''verifying'') None now s1"
  have load: "load_dm_state (during stb) = Inr (Some ?v)"
    using write_transition_ok(2)[OF stb(1)] assms(2) by (simp add: load_dm_state_def)
  have "st1 = during stb \<or> write_transition ?v (dm_scan_transition (lit ''suspended'') (Some ''account_throttle'') now ?v) (during stb) = Inr st1"
    using assms(3) stb(2) by (auto simp: settle_page_def split: sum.splits)
  then have "dm_blocked ?v st1" using load write_transition_ok(2) by (auto simp: dm_blocked_def)
  with blocked_reaches[OF assms(4)] have b: "dm_blocked ?v st1" "dm_blocked ?v st2" by auto
  then have "dm_gap_scan_release_at st2 now2 = None"
    by (auto simp: dm_blocked_def dm_gap_scan_release_at_def dm_deletion_reconciliation_is_blocked_def)
  moreover have "snd (fst (run_slice selected2 now2 e2 during2 st2)) = None" "snd (run_slice selected2 now2 e2 during2 st2) = st2"
    using blocked_select[OF b(2), of now2] b(2) by (auto simp: run_slice_def dm_blocked_def)
  ultimately show ?thesis using b by (auto simp: dm_blocked_def)
qed

section \<open>An undisturbed scan ends\<close>

fun scan_slices :: "nat \<Rightarrow> int \<Rightarrow> DmStore \<Rightarrow> DmStore" where
  "scan_slices 0 now st = st"
| "scan_slices (Suc n) now st = scan_slices n now (snd (run_slice
     (case load_dm_state st of Inr state \<Rightarrow> dm_revision state | Inl _ \<Rightarrow> None) now Looked_Up (\<lambda>x. x) st))"

definition running_state :: "DmStore \<Rightarrow> DmDeletionCheckpoint \<Rightarrow> bool" where
  "running_state st s \<longleftrightarrow> load_dm_state st = Inr (Some s) \<and> dc_status s = lit ''running''
     \<and> dc_policy_version s = Some DM_DELETION_POLICY_VERSION"

definition dialog_left :: "DmDeletionCheckpoint \<Rightarrow> int \<Rightarrow> bool" where
  "dialog_left s d \<longleftrightarrow> (case dc_dialog_cursor s of None \<Rightarrow> True | Some c \<Rightarrow> c < d \<or> c = d \<and> 0 < dc_message_cursor s)"

definition message_left :: "DmDeletionCheckpoint \<Rightarrow> DmMessage \<Rightarrow> bool" where
  "message_left s r \<longleftrightarrow> \<not> dm_is_deleted r \<and> dm_sent_at r < dc_scan_started_at s \<and> (case dc_dialog_cursor s of None \<Rightarrow> True
     | Some c \<Rightarrow> c < dm_dialog_id r \<or> c = dm_dialog_id r \<and> 0 < dc_message_cursor s \<and> dc_message_cursor s < dm_message_id r)"

definition scan_rest :: "DmDeletionCheckpoint \<Rightarrow> DmStore \<Rightarrow> nat" where
  "scan_rest s st = length (filter (dialog_left s) (ds_dialogs st)) + length (filter (message_left s) (ds_messages st))"

lemma filter_less:
  assumes "\<And>x. x \<in> set xs \<Longrightarrow> q x \<Longrightarrow> p x" "y \<in> set xs" "p y" "\<not> q y"
  shows "length (filter q xs) < length (filter p xs)"
proof -
  have "filter q xs = filter q (filter p xs)" using assms(1) by (auto intro: filter_cong)
  moreover have "length (filter q (filter p xs)) < length (filter p xs)"
    by (rule length_filter_less[of y]) (use assms(2-4) in auto)
  ultimately show ?thesis by simp
qed

lemma filter_le: "(\<And>x. x \<in> set xs \<Longrightarrow> q x \<Longrightarrow> p x) \<Longrightarrow> length (filter q xs) \<le> length (filter p xs)"
proof (induction xs)
  case (Cons a xs)
  then have "length (filter q xs) \<le> length (filter p xs)" by simp
  with Cons.prems[of a] show ?case by auto
qed simp

lemma next_dialog_some:
  assumes "next_dialog s dialogs = Some d"
  shows "d \<in> set dialogs" "dialog_left s d" "dc_dialog_cursor s = Some d \<Longrightarrow> 0 < dc_message_cursor s"
    "dc_dialog_cursor s = Some c \<Longrightarrow> c \<le> d"
  using assms by (auto simp: next_dialog_def dialog_left_def find_Some_iff split: if_splits option.splits)

lemma rest_advance:
  assumes "next_dialog s (ds_dialogs st) = Some d"
  shows "scan_rest (advanced_scan d 0 now s) st < scan_rest s st"
proof -
  note d = next_dialog_some[OF assms]
  have "length (filter (dialog_left (advanced_scan d 0 now s)) (ds_dialogs st)) < length (filter (dialog_left s) (ds_dialogs st))"
    by (rule filter_less[where y = d]) (use d in \<open>auto simp: dialog_left_def split: option.splits\<close>)
  moreover have "length (filter (message_left (advanced_scan d 0 now s)) (ds_messages st)) \<le> length (filter (message_left s) (ds_messages st))"
    by (rule filter_le) (use d in \<open>auto simp: message_left_def split: option.splits\<close>)
  ultimately show ?thesis by (simp add: scan_rest_def)
qed

lemma rest_page:
  assumes "next_dialog s (ds_dialogs st) = Some d" "dialog_page s d st \<noteq> []" "0 \<le> dc_message_cursor s"
  shows "scan_rest (advanced_scan d (last (dialog_page s d st)) now s) st < scan_rest s st"
    and "0 < last (dialog_page s d st)"
proof -
  note d = next_dialog_some[OF assms(1)]
  let ?l = "last (dialog_page s d st)"
  have l: "(if Some d = dc_dialog_cursor s then dc_message_cursor s else 0) < ?l"
    and "candidate st (dc_scan_started_at s) (d, ?l)"
    using page_ids_in[OF last_in_set[OF assms(2), unfolded dialog_page_def]] unfolding dialog_page_def by blast+
  then obtain r where r: "r \<in> set (ds_messages st)" "dm_dialog_id r = d" "dm_message_id r = ?l" "\<not> dm_is_deleted r"
      "dm_sent_at r < dc_scan_started_at s"
    by (auto simp: candidate_def)
  show pos: "0 < ?l" using l assms(3) by (auto split: if_splits)
  have "length (filter (dialog_left (advanced_scan d ?l now s)) (ds_dialogs st)) \<le> length (filter (dialog_left s) (ds_dialogs st))"
    by (rule filter_le) (use d in \<open>auto simp: dialog_left_def split: option.splits\<close>)
  moreover have "length (filter (message_left (advanced_scan d ?l now s)) (ds_messages st)) < length (filter (message_left s) (ds_messages st))"
  proof (rule filter_less[OF _ r(1)])
    show "message_left s r" using d l r by (auto simp: message_left_def split: option.splits if_splits)
    show "\<not> message_left (advanced_scan d ?l now s) r" using r by (simp add: message_left_def)
  qed (use d l in \<open>auto simp: message_left_def split: option.splits if_splits\<close>)
  ultimately show "scan_rest (advanced_scan d ?l now s) st < scan_rest s st" by (simp add: scan_rest_def)
qed

text \<open>The states a scan writes are valid.\<close>

lemma write_succeeds:
  assumes "load_dm_state st = Inr (Some old)" "validate_dm_deletion_checkpoint False s = Inr ()"
    and "dc_policy_version s = Some DM_DELETION_POLICY_VERSION"
  obtains st' where "write_transition old s st = Inr st'"
  using assms by (simp add: write_transition_def store_dm_state_def encode_dm_deletion_checkpoint_def and_then_def)

lemmas dm_validity = validate_dm_deletion_checkpoint_def validate_dm_checkpoint_cursors_def validate_dm_checkpoint_lifecycle_def
  validate_dm_checkpoint_reason_def dm_statuses_def

lemma running_valid:
  assumes "running_state st s" "0 \<le> now"
  shows "validate_dm_deletion_checkpoint False (completed_scan now s) = Inr ()"
    and "1 \<le> d \<Longrightarrow> 0 \<le> m \<Longrightarrow> validate_dm_deletion_checkpoint False (advanced_scan d m now s) = Inr ()"
    and "validate_dm_deletion_checkpoint False (dm_scan_transition (lit ''verifying'') None now s) = Inr ()"
proof -
  have "validate_dm_deletion_checkpoint False s = Inr ()"
    using assms(1) decoded_valid(1)[of "ds_row st" s] by (auto simp: running_state_def load_dm_state_def)
  then have s: "1 \<le> dc_generation s" "0 \<le> dc_scan_started_at s" "0 \<le> dc_message_cursor s" "dc_next_run_at s = 0"
    "case dc_dialog_cursor s of Some d \<Rightarrow> 1 \<le> d | None \<Rightarrow> True" "dc_message_cursor s = 0 \<or> dc_dialog_cursor s \<noteq> None"
    using assms(1) by (auto simp: dm_validity running_state_def)
  then show "validate_dm_deletion_checkpoint False (completed_scan now s) = Inr ()"
    and "1 \<le> d \<Longrightarrow> 0 \<le> m \<Longrightarrow> validate_dm_deletion_checkpoint False (advanced_scan d m now s) = Inr ()"
    and "validate_dm_deletion_checkpoint False (dm_scan_transition (lit ''verifying'') None now s) = Inr ()"
    using assms(2) by (simp_all add: dm_validity completed_scan_def advanced_scan_def dm_scan_transition_def DM_GAP_SCAN_PERIOD_S_def)
qed

lemma running_slice:
  assumes "running_state st s" "0 \<le> now" "\<forall>d \<in> set (ds_dialogs st). 1 \<le> d"
    and "st' = snd (run_slice (dm_revision (Some s)) now Looked_Up (\<lambda>x. x) st)"
    and "asked = snd (fst (run_slice (dm_revision (Some s)) now Looked_Up (\<lambda>x. x) st))"
  shows "ds_dialogs st' = ds_dialogs st \<and> ds_messages st' = ds_messages st \<and> (case next_dialog s (ds_dialogs st) of
       None \<Rightarrow> load_dm_state st' = Inr (Some (completed_scan now s)) \<and> asked = None
     | Some d \<Rightarrow> if dialog_page s d st = [] then load_dm_state st' = Inr (Some (advanced_scan d 0 now s)) \<and> asked = None
         else load_dm_state st' = Inr (Some (advanced_scan d (last (dialog_page s d st)) now s)) \<and> asked = Some (d, dialog_page s d st))"
proof -
  have load: "load_dm_state st = Inr (Some s)" and run: "dc_status s = lit ''running''" "dc_policy_version s = Some DM_DELETION_POLICY_VERSION"
    using assms(1) by (simp_all add: running_state_def)
  have start: "select_page now st = select_from now s st"
    using load run by (simp add: select_page_def start_scan_def and_then_def)
  show ?thesis
  proof (cases "next_dialog s (ds_dialogs st)")
    case None
    obtain st2 where w: "write_transition s (completed_scan now s) st = Inr st2"
      by (rule write_succeeds[OF load running_valid(1)[OF assms(1,2)]]) simp
    have "select_from now s st = (Inr None, st2)" using w None by (simp add: select_from_def after_write_def)
    then have "st' = st2" "asked = None" using load start by (simp_all add: assms(4,5) run_slice_def)
    then show ?thesis using write_transition_ok[OF w] None by simp
  next
    case (Some d)
    have d: "1 \<le> d" using next_dialog_some(1)[OF Some] assms(3) by blast
    show ?thesis
    proof (cases "dialog_page s d st = []")
      case True
      obtain st2 where w: "write_transition s (advanced_scan d 0 now s) st = Inr st2"
        by (rule write_succeeds[OF load running_valid(2)[OF assms(1,2) d order_refl]]) simp
      have "select_from now s st = (Inr None, st2)" using w Some True by (simp add: select_from_def after_write_def)
      then have "st' = st2" "asked = None" using load start by (simp_all add: assms(4,5) run_slice_def)
      then show ?thesis using write_transition_ok[OF w] Some True by simp
    next
      case False
      let ?page = "dialog_page s d st" and ?v = "dm_scan_transition (lit ''verifying'') None now s"
      have same: "advanced_scan d (last ?page) now ?v = advanced_scan d (last ?page) now s"
        by (simp add: advanced_scan_def dm_scan_transition_def)
      have l: "0 \<le> last ?page" using rest_page(2)[OF Some False loaded_cursor[OF load]] by simp
      obtain st2 where w: "write_transition s ?v st = Inr st2"
        by (rule write_succeeds[OF load running_valid(3)[OF assms(1,2)]]) simp
      note st2 = write_transition_ok[OF w]
      obtain st3 where w3: "write_transition ?v (advanced_scan d (last ?page) now s) st2 = Inr st3"
        by (rule write_succeeds[OF st2(2) running_valid(2)[OF assms(1,2) d l]]) simp
      have "select_from now s st = (Inr (Some (s, d, ?page)), st)" using Some False by (simp add: select_from_def)
      moreover have "settle_page ?v d ?page Looked_Up now st2 = Inr st3" using w3 by (simp add: settle_page_def same)
      ultimately have "st' = st3" "asked = Some (d, ?page)" using load start w
        by (simp_all add: assms(4,5) run_slice_def Let_def)
      then show ?thesis using write_transition_ok[OF w3] st2(3,4) Some False by simp
    qed
  qed
qed

lemma running_slice_rest:
  assumes "running_state st s" "0 \<le> now" "\<forall>d \<in> set (ds_dialogs st). 1 \<le> d"
    and "st' = snd (run_slice (dm_revision (Some s)) now Looked_Up (\<lambda>x. x) st)"
  shows "ds_dialogs st' = ds_dialogs st"
    and "load_dm_state st' = Inr (Some (completed_scan now s))
       \<or> (\<exists>s'. running_state st' s' \<and> dc_generation s' = dc_generation s \<and> scan_rest s' st' < scan_rest s st)"
proof -
  note slice = running_slice[OF assms refl]
  then show "ds_dialogs st' = ds_dialogs st" by blast
  have rest: "scan_rest x st' = scan_rest x st" for x using slice by (simp add: scan_rest_def)
  have cursor: "0 \<le> dc_message_cursor s" using assms(1) loaded_cursor unfolding running_state_def by blast
  show "load_dm_state st' = Inr (Some (completed_scan now s))
       \<or> (\<exists>s'. running_state st' s' \<and> dc_generation s' = dc_generation s \<and> scan_rest s' st' < scan_rest s st)"
  proof (cases "next_dialog s (ds_dialogs st)")
    case None
    then show ?thesis using slice by simp
  next
    case (Some d)
    show ?thesis
    proof (cases "dialog_page s d st = []")
      case True
      then show ?thesis using slice Some rest_advance[OF Some, of now] rest
        by (intro disjI2 exI[of _ "advanced_scan d 0 now s"]) (simp add: running_state_def)
    next
      case False
      then show ?thesis using slice Some rest_page(1)[OF Some False cursor, of now] rest
        by (intro disjI2 exI[of _ "advanced_scan d (last (dialog_page s d st)) now s"]) (simp add: running_state_def)
    qed
  qed
qed

lemma idle_slices:
  assumes "load_dm_state st = Inr (Some s)" "dc_status s = lit ''idle''" "now < dc_next_run_at s"
  shows "scan_slices n now st = st"
proof (induction n)
  case (Suc n)
  have "select_page now st = (Inr None, st)" using assms by (simp add: select_page_def start_scan_def and_then_def)
  then show ?case using Suc assms(1) by (simp add: run_slice_def)
qed simp

text \<open>
  C26. Undisturbed and with every look-up answered, a running scan is finished after at most one slice
  more than there are dialogs and messages, and the next scan is due a week later.
\<close>

theorem undisturbed_scan_ends:
  assumes "load_dm_state st = Inr (Some s)" "dc_status s = lit ''running''" "dc_policy_version s = Some DM_DELETION_POLICY_VERSION"
    and "0 \<le> now" "\<forall>d \<in> set (ds_dialogs st). 1 \<le> d" "length (ds_dialogs st) + length (ds_messages st) < n"
  shows "\<exists>s'. load_dm_state (scan_slices n now st) = Inr (Some s') \<and> dc_status s' = lit ''idle''
    \<and> dc_generation s' = dc_generation s \<and> dc_next_run_at s' = now + DM_GAP_SCAN_PERIOD_S"
proof -
  have "\<exists>s'. load_dm_state (scan_slices n now st) = Inr (Some s') \<and> dc_status s' = lit ''idle''
    \<and> dc_generation s' = dc_generation s \<and> dc_next_run_at s' = now + DM_GAP_SCAN_PERIOD_S"
    if "running_state st s" "\<forall>d \<in> set (ds_dialogs st). 1 \<le> d" "scan_rest s st < n" for n s st
    using that
  proof (induction n arbitrary: st s)
    case (Suc n)
    let ?st = "snd (run_slice (dm_revision (Some s)) now Looked_Up (\<lambda>x. x) st)"
    have load: "load_dm_state st = Inr (Some s)" using Suc.prems(1) by (simp add: running_state_def)
    have slices: "scan_slices (Suc n) now st = scan_slices n now ?st" using load by simp
    note slice = running_slice_rest[OF Suc.prems(1) assms(4) Suc.prems(2) refl]
    consider "load_dm_state ?st = Inr (Some (completed_scan now s))"
      | s' where "running_state ?st s'" "dc_generation s' = dc_generation s" "scan_rest s' ?st < scan_rest s st"
      using slice(2) by blast
    then show ?case
    proof cases
      case 1
      then have "scan_slices n now ?st = ?st" by (rule idle_slices) (simp_all add: DM_GAP_SCAN_PERIOD_S_def)
      then show ?thesis unfolding slices using 1 by simp
    next
      case (2 s')
      have "\<forall>d \<in> set (ds_dialogs ?st). 1 \<le> d" using slice(1) Suc.prems(2) by simp
      moreover have "scan_rest s' ?st < n" using 2(3) Suc.prems(3) by simp
      ultimately show ?thesis unfolding slices using Suc.IH[OF 2(1)] 2(2) by simp
    qed
  qed simp
  moreover have "scan_rest s st < n"
    using assms(6) length_filter_le[of "dialog_left s" "ds_dialogs st"] length_filter_le[of "message_left s" "ds_messages st"]
    unfolding scan_rest_def by linarith
  ultimately show ?thesis using assms(1-3,5) by (simp add: running_state_def)
qed

section \<open>A scan of one message\<close>

definition demo_scan :: DmStore where
  "demo_scan = \<lparr>ds_row = Some (Some (JDict (checkpoint_fields (new_scan 1 50)))), ds_dialogs = [7],
     ds_messages = [\<lparr>dm_dialog_id = 7, dm_message_id = 3, dm_is_deleted = False, dm_sent_at = 40\<rparr>]\<rparr>"

lemma demo_running: "running_state demo_scan (new_scan 1 50)"
proof -
  have "encode_dm_deletion_checkpoint (new_scan 1 50) = Inr (JDict (checkpoint_fields (new_scan 1 50)))"
    by (simp add: encode_dm_deletion_checkpoint_def dm_validity new_scan_def)
  from decode_encoded[OF this] show ?thesis by (simp add: running_state_def load_dm_state_def demo_scan_def)
qed

lemma demo_step:
  assumes "running_state st s" "ds_dialogs st = [7]" "ds_messages st = ds_messages demo_scan" "dc_scan_started_at s = 50"
  obtains st' where "dm_step {(7, 3)} 50 (st, V) (st', V \<union> (case next_dialog s [7] of None \<Rightarrow> {} | Some d \<Rightarrow> Pair d ` set (dialog_page s d st)))"
    "ds_dialogs st' = [7]" "ds_messages st' = ds_messages demo_scan"
    "case next_dialog s [7] of None \<Rightarrow> load_dm_state st' = Inr (Some (completed_scan 60 s))
       | Some d \<Rightarrow> running_state st' (advanced_scan d (if dialog_page s d st = [] then 0 else last (dialog_page s d st)) 60 s)"
proof -
  let ?run = "run_slice (dm_revision (Some s)) 60 Looked_Up (\<lambda>x. x) st"
  note slice = running_slice[OF assms(1) _ _ refl refl, of 60]
  have tables: "ds_dialogs (snd ?run) = [7]" "ds_messages (snd ?run) = ds_messages demo_scan" using slice assms(2,3) by auto
  have asked: "asked_pairs (snd (fst ?run)) = (case next_dialog s [7] of None \<Rightarrow> {} | Some d \<Rightarrow> Pair d ` set (dialog_page s d st))"
    using slice assms(2) by (auto simp: asked_pairs_def split: option.splits if_splits)
  have "dm_stable {(7, 3)} 50 (snd ?run) V'" for V'
    using tables by (simp add: dm_stable_def candidate_def demo_scan_def)
  then have "dm_step {(7, 3)} 50 (st, V) (snd ?run, V \<union> asked_pairs (snd (fst ?run)))"
    by (intro dm_step.Slice[of "dm_revision (Some s)" 60 Looked_Up "\<lambda>x. x" st "fst (fst ?run)" "snd (fst ?run)"]) simp_all
  then show ?thesis unfolding asked
    by (rule that[OF _ tables]) (use slice assms(2) in \<open>auto simp: running_state_def split: option.splits if_splits\<close>)
qed

lemma demo_finishes: "\<exists>st'. dm_reaches {(7, 3)} 50 (demo_scan, {}) (st', {(7, 3)})
    \<and> (\<exists>s'. load_dm_state st' = Inr (Some s') \<and> dc_generation s' = 1 \<and> dc_status s' = lit ''idle'')"
proof -
  let ?s0 = "new_scan 1 50" and ?s1 = "advanced_scan 7 3 60 (new_scan 1 50)"
  let ?s2 = "advanced_scan 7 0 60 (advanced_scan 7 3 60 (new_scan 1 50))"
  have page: "dialog_page s 7 st = (if (if Some 7 = dc_dialog_cursor s then dc_message_cursor s else 0) < 3 then [3] else [])"
    if "ds_messages st = ds_messages demo_scan" "dc_scan_started_at s = 50" for s st
    using that by (auto simp: dialog_page_def dm_gap_scan_page_ids_def select_ordered_def demo_scan_def DM_GAP_SCAN_RPC_CHUNK_def)
  have at: "dc_scan_started_at ?s0 = 50" "dc_dialog_cursor ?s0 = None" by (simp_all add: new_scan_def)
  have next_ids: "next_dialog ?s0 [7] = Some 7" "next_dialog ?s1 [7] = Some 7" "next_dialog ?s2 [7] = None"
    using at by (simp_all add: next_dialog_def)
  obtain st1 where st1: "dm_step {(7, 3)} 50 (demo_scan, {}) (st1, {(7, 3)})" "ds_dialogs st1 = [7]"
      "ds_messages st1 = ds_messages demo_scan" "running_state st1 ?s1"
    using demo_step[OF demo_running _ refl at(1), of "{}"] page[OF refl at(1)] next_ids(1) at by (auto simp: demo_scan_def)
  obtain st2 where st2: "dm_step {(7, 3)} 50 (st1, {(7, 3)}) (st2, {(7, 3)})" "ds_dialogs st2 = [7]"
      "ds_messages st2 = ds_messages demo_scan" "running_state st2 ?s2"
    using demo_step[OF st1(4,2,3), of "{(7, 3)}"] page[OF st1(3), of ?s1] next_ids(2) at by auto
  obtain st3 where st3: "dm_step {(7, 3)} 50 (st2, {(7, 3)}) (st3, {(7, 3)})" "load_dm_state st3 = Inr (Some (completed_scan 60 ?s2))"
    using demo_step[OF st2(4,2,3), of "{(7, 3)}"] next_ids(3) at by auto
  have "dm_reaches {(7, 3)} 50 (demo_scan, {}) (st3, {(7, 3)})"
    using dm_reaches.step[OF dm_reaches.step[OF dm_reaches.step[OF dm_reaches.start st1(1)] st2(1)] st3(1)] .
  then show ?thesis using st3(2) by auto
qed

lemma finished_scan_asked_everything_witness: "\<exists>st' V. dm_reaches {(7, 3)} 50 (demo_scan, {}) (st', V) \<and> (7, 3) \<in> V"
proof -
  from demo_finishes obtain st' s' where reach: "dm_reaches {(7, 3)} 50 (demo_scan, {}) (st', {(7, 3)})"
    and s': "load_dm_state st' = Inr (Some s')" "dc_generation s' = 1" "dc_status s' = lit ''idle''" by blast
  have "dm_stable {(7, 3)} 50 demo_scan {}" by (simp add: dm_stable_def candidate_def demo_scan_def)
  from finished_scan_asked_everything[OF reach _ _ _ _ _ this s'(1)] demo_running s' reach show ?thesis
    by (auto simp: running_state_def new_scan_def)
qed

lemma scan_fails_closed_witness:
  "\<exists>st'. snd (fst (run_slice (dm_revision (Some (new_scan 1 50))) 60 Broken (\<lambda>x. x) demo_scan)) = Some (7, [3])
     \<and> snd (run_slice (dm_revision (Some (new_scan 1 50))) 60 Broken (\<lambda>x. x) demo_scan) = st' \<and> dm_gap_scan_release_at st' 100 = None"
proof -
  let ?s = "new_scan 1 50" let ?r = "run_slice (dm_revision (Some ?s)) 60 Broken (\<lambda>x. x) demo_scan"
  have load: "load_dm_state demo_scan = Inr (Some ?s)" using demo_running by (simp add: running_state_def)
  have valid: "validate_dm_deletion_checkpoint False (dm_scan_transition (lit ''verifying'') None 60 ?s) = Inr ()"
    by (rule running_valid(3)[OF demo_running]) simp
  obtain st2 where w: "write_transition ?s (dm_scan_transition (lit ''verifying'') None 60 ?s) demo_scan = Inr st2"
    by (rule write_succeeds[OF load valid]) simp
  have "select_page 60 demo_scan = (Inr (Some (?s, 7, [3])), demo_scan)"
    using load
    by (simp add: select_page_def start_scan_def and_then_def select_from_def next_dialog_def new_scan_def dialog_page_def
        dm_gap_scan_page_ids_def select_ordered_def demo_scan_def DM_GAP_SCAN_RPC_CHUNK_def)
  then have r: "?r = ((SR_Raised, Some (7, [3])), st2)"
    using load w by (simp add: run_slice_def settle_page_def Let_def)
  from scan_fails_closed[OF r _ _ dm_reaches.start] show ?thesis using r by auto
qed

lemma undisturbed_scan_ends_witness: "\<exists>s'. load_dm_state (scan_slices 3 60 demo_scan) = Inr (Some s') \<and> dc_next_run_at s' = 60 + 604800"
proof -
  have load: "load_dm_state demo_scan = Inr (Some (new_scan 1 50))" using demo_running by (simp add: running_state_def)
  have "\<exists>s'. load_dm_state (scan_slices 3 60 demo_scan) = Inr (Some s') \<and> dc_status s' = lit ''idle''
    \<and> dc_generation s' = dc_generation (new_scan 1 50) \<and> dc_next_run_at s' = 60 + DM_GAP_SCAN_PERIOD_S"
    by (rule undisturbed_scan_ends[OF load]) (simp_all add: demo_scan_def new_scan_def)
  then show ?thesis by (auto simp: DM_GAP_SCAN_PERIOD_S_def)
qed
end
