(* ===== verification/Realtime_Events.thy ===== *)
theory Realtime_Events
  imports History_State History_Pages
begin

text \<open>
  What the daemon writes while updates arrive (\<^verbatim>\<open>event_handlers.py\<close>, \<^verbatim>\<open>realtime_history_policy.py\<close>):
  new, edited and deleted messages, transcriptions, messages received in the answer to some
  other request (\<^verbatim>\<open>messages/sqlite_bundle.py\<close>), and the answers of the deletion scan. Every write
  transaction is a function of the archive; a handler runs its transactions one after the
  other, and \<open>pause\<close> is what happens to the archive while it waits for the server. Left out are
  topic actions, scheduled publications, reactions, profiles and identities.
\<close>

section \<open>The policy\<close>

datatype RealtimeHistoryCoverage = RC_FULL_HISTORY | RC_OWN_OUTGOING | RC_NO_REALTIME_HISTORY

datatype RealtimeBodyEvent = BE_EDIT | BE_TRANSCRIPTION | BE_REACTION | BE_DELETE

definition realtime_history_coverage :: "coverage option \<Rightarrow> bool \<Rightarrow> RealtimeHistoryCoverage" where
  "realtime_history_coverage status enabled =
     (if enabled \<and> status \<in> {Some CV_SYNCED, Some CV_SYNCING} then RC_FULL_HISTORY
      else if status = Some CV_OWN_ONLY then RC_OWN_OUTGOING else RC_NO_REALTIME_HISTORY)"

definition allows_new_message :: "RealtimeHistoryCoverage \<Rightarrow> bool \<Rightarrow> bool" where
  "allows_new_message c outgoing \<longleftrightarrow> c = RC_FULL_HISTORY \<or> c = RC_OWN_OUTGOING \<and> outgoing"

definition allows_missing_body_insert :: "RealtimeHistoryCoverage \<Rightarrow> RealtimeBodyEvent \<Rightarrow> bool \<Rightarrow> bool" where
  "allows_missing_body_insert c event outgoing \<longleftrightarrow> event \<notin> {BE_REACTION, BE_DELETE}
     \<and> (c = RC_FULL_HISTORY \<or> c = RC_OWN_OUTGOING \<and> outgoing)"

definition allows_existing_body_update :: "RealtimeHistoryCoverage \<Rightarrow> RealtimeBodyEvent \<Rightarrow> bool \<Rightarrow> bool" where
  "allows_existing_body_update c event outgoing \<longleftrightarrow> (if c = RC_FULL_HISTORY then True
     else if c \<noteq> RC_OWN_OUTGOING then False else outgoing)"

text \<open>\<open>read_status\<close>, and the coverage it gives.\<close>

definition read_status :: "Archive \<Rightarrow> int \<Rightarrow> coverage option \<times> bool" where
  "read_status a d = (case ar_rows a d of None \<Rightarrow> (None, False) | Some r \<Rightarrow> (Some (sd_status r), full_history_enabled a d))"

definition realtime_coverage :: "Archive \<Rightarrow> int \<Rightarrow> RealtimeHistoryCoverage" where
  "realtime_coverage a d = realtime_history_coverage (fst (read_status a d)) (snd (read_status a d))"

definition read_message_out :: "MessageDb \<Rightarrow> msg_key \<Rightarrow> bool \<times> bool" where
  "read_message_out db k = (case db_messages db k of None \<Rightarrow> (False, False) | Some r \<Rightarrow> (True, sm_out (mr_message r)))"

section \<open>New messages\<close>

text \<open>A message as an update or an answer carries it: its peer and \<^verbatim>\<open>out\<close>, where they are known.\<close>

record ReplyMessage = RawMessage +
  rp_peer :: "int option"
  rp_out :: "bool option"

definition message_out :: "ReplyMessage \<Rightarrow> bool" where
  "message_out x \<longleftrightarrow> rp_out x = Some True"

definition extract_event_message :: "int \<Rightarrow> int \<Rightarrow> ReplyMessage \<Rightarrow> ExtractedMessage" where
  "extract_event_message d order x = (let item = extract_message_row d (RawMessage.truncate x)
     in item\<lparr>em_message := (em_message item)\<lparr>sm_out := message_out x\<rparr>, em_observation_order := Some order\<rparr>)"

definition map_messages :: "(MessageDb \<Rightarrow> MessageDb) \<Rightarrow> Archive \<Rightarrow> Archive" where
  "map_messages f a = a\<lparr>ar_messages := f (ar_messages a)\<rparr>"

definition record_body_event :: "int \<Rightarrow> int \<Rightarrow> Archive \<Rightarrow> Archive" where
  "record_body_event d now = update_dialog d (\<lambda>r. r\<lparr>sd_last_event_at := Some now\<rparr>)"

definition update_last_message_timestamp :: "int \<Rightarrow> int \<Rightarrow> int option \<Rightarrow> Archive \<Rightarrow> Archive" where
  "update_last_message_timestamp d now date a = (case date of None \<Rightarrow> a
     | Some t \<Rightarrow> a\<lparr>ar_directory := (ar_directory a)(d := map_option (\<lambda>r. r\<lparr>dr_snapshot_at := Some now,
         dr_last_message_at := Some (max (int_or_zero (dr_last_message_at r)) t)\<rparr>) (ar_directory a d))\<rparr>)"

definition persist_new_message :: "MessageRules \<Rightarrow> int \<Rightarrow> int \<Rightarrow> ReplyMessage \<Rightarrow> int option \<Rightarrow> int \<Rightarrow> Archive \<Rightarrow> bool \<times> Archive" where
  "persist_new_message ru d order x date now a =
     (if \<not> allows_new_message (realtime_coverage a d) (message_out x) then (False, a)
      else (True, record_body_event d now (update_last_message_timestamp d now date
        (map_messages (snd \<circ> insert_messages_with_fts ru RS_REALTIME_MESSAGE [extract_event_message d order x]) a))))"

text \<open>\<open>_UPSERT_REALTIME_DM_DIALOG_SQL\<close>; \<open>later\<close> is its \<^verbatim>\<open>CASE\<close> on two optional times.\<close>

definition later :: "int option \<Rightarrow> int option \<Rightarrow> int option" where
  "later stored new = (case (stored, new) of (_, None) \<Rightarrow> stored | (None, _) \<Rightarrow> new | (Some s, Some n) \<Rightarrow> Some (max s n))"

definition upsert_realtime_dm_dialog :: "int \<Rightarrow> int option \<Rightarrow> int \<Rightarrow> Archive \<Rightarrow> Archive" where
  "upsert_realtime_dm_dialog d timestamp observed_at a = a\<lparr>ar_directory := (ar_directory a)(d \<mapsto>
     (case ar_directory a d of
        None \<Rightarrow> \<lparr>dr_hidden = False, dr_needs_refresh = True, dr_snapshot_at = Some observed_at, dr_last_message_at = timestamp\<rparr>
      | Some r \<Rightarrow> r\<lparr>dr_last_message_at := later (dr_last_message_at r) timestamp,
          dr_snapshot_at := later (dr_snapshot_at r) (Some observed_at), dr_needs_refresh := True\<rparr>))\<rparr>"

definition persist_dm_enrollment :: "int \<Rightarrow> int option \<Rightarrow> int \<Rightarrow> Archive \<Rightarrow> EnrollmentOutcome \<times> Archive" where
  "persist_dm_enrollment d timestamp now a =
     (let (outcome, a1) = ensure_automatic_dm_enrollment d now a
      in if \<not> eo_enabled outcome then (outcome, a1)
         else (outcome, snd (unhide_after_realtime_presence d (upsert_realtime_dm_dialog d timestamp now a1))))"

definition project_denied_metadata :: "int \<Rightarrow> int option \<Rightarrow> RealtimeHistoryCoverage \<Rightarrow> int \<Rightarrow> Archive \<Rightarrow> Archive" where
  "project_denied_metadata d date c now a =
     (if c = RC_NO_REALTIME_HISTORY then a else update_last_message_timestamp d now date a)"

definition new_message_coverage :: "int \<Rightarrow> bool \<Rightarrow> int option \<Rightarrow> int \<Rightarrow> Archive \<Rightarrow> RealtimeHistoryCoverage \<times> Archive" where
  "new_message_coverage d private date now a =
     (if realtime_coverage a d \<noteq> RC_NO_REALTIME_HISTORY then (realtime_coverage a d, a)
      else if private \<and> fst (read_status a d) = None
      then let a1 = snd (persist_dm_enrollment d date now a) in (realtime_coverage a1 d, a1)
      else (RC_NO_REALTIME_HISTORY, a))"

text \<open>\<open>order\<close> is the observation order reserved before the handler looks at the coverage.\<close>

definition on_new_message :: "MessageRules \<Rightarrow> int option \<Rightarrow> bool \<Rightarrow> int \<Rightarrow> ReplyMessage \<Rightarrow> int option \<Rightarrow> int
    \<Rightarrow> (Archive \<Rightarrow> Archive) \<Rightarrow> Archive \<Rightarrow> Archive" where
  "on_new_message ru chat private order x date now pause a = (case chat of None \<Rightarrow> a
     | Some d \<Rightarrow>
       let (c, a1) = new_message_coverage d private date now a
       in if c = RC_NO_REALTIME_HISTORY then a1
          else if \<not> allows_new_message c (message_out x) then project_denied_metadata d date c now a1
          else let a2 = pause a1; c2 = realtime_coverage a2 d
            in if \<not> allows_new_message c2 (message_out x) then project_denied_metadata d date c2 now a2
               else snd (persist_new_message ru d order x date now a2))"

section \<open>Edits\<close>

definition persist_missing_edit :: "MessageRules \<Rightarrow> int \<Rightarrow> int \<Rightarrow> ReplyMessage \<Rightarrow> int \<Rightarrow> Archive \<Rightarrow> bool \<times> Archive" where
  "persist_missing_edit ru d order x now a =
     (if \<not> allows_missing_body_insert (realtime_coverage a d) BE_EDIT (message_out x) then (False, a)
      else (True, record_body_event d now
        (map_messages (snd \<circ> insert_messages_with_fts ru RS_MESSAGE_EDIT [extract_event_message d order x]) a)))"

text \<open>\<open>c\<close> is the coverage read before the transaction; an own-only dialog keeps the stored direction.\<close>

definition persist_changed_edit :: "MessageRules \<Rightarrow> int \<Rightarrow> int \<Rightarrow> ReplyMessage \<Rightarrow> bool \<Rightarrow> RealtimeHistoryCoverage \<Rightarrow> int
    \<Rightarrow> Archive \<Rightarrow> int option \<times> Archive" where
  "persist_changed_edit ru d order x reactions c now a =
     (let item0 = extract_event_message d order x;
          item = (if c = RC_OWN_OUTGOING then item0\<lparr>em_message := (em_message item0)\<lparr>sm_out := True\<rparr>\<rparr> else item0);
          edit_date = sm_edit_date (em_message item);
          k = item_key item;
          current_text = (case read_message_text (ar_messages a) k of None \<Rightarrow> None | Some t \<Rightarrow> t)
      in if \<not> allows_existing_body_update (realtime_coverage a d) BE_EDIT (snd (read_message_out (ar_messages a) k))
         then (None, a)
         else let (version, db) = persist_edited_message ru RS_MESSAGE_EDIT item
                    (Some (case edit_date of Some t \<Rightarrow> t | None \<Rightarrow> now)) (ar_messages a);
                  a1 = a\<lparr>ar_messages := db\<rparr>
           in (version, if current_text \<noteq> sm_text (em_message item) \<or> edit_date \<noteq> None \<or> reactions
                then record_body_event d now a1 else a1))"

definition on_message_edited :: "MessageRules \<Rightarrow> int option \<Rightarrow> int \<Rightarrow> ReplyMessage \<Rightarrow> bool \<Rightarrow> int
    \<Rightarrow> (Archive \<Rightarrow> Archive) \<Rightarrow> Archive \<Rightarrow> Archive" where
  "on_message_edited ru chat order x reactions now pause a = (case chat of None \<Rightarrow> a
     | Some d \<Rightarrow>
       let k = (d, int_or_zero (raw_id x)); c = realtime_coverage a d;
           (found, outgoing) = read_message_out (ar_messages a) k
       in if c = RC_NO_REALTIME_HISTORY then a
          else if \<not> found then
            if \<not> allows_missing_body_insert c BE_EDIT (message_out x) then a
            else let a1 = pause a
              in if \<not> allows_missing_body_insert (realtime_coverage a1 d) BE_EDIT (message_out x) then a1
                 else snd (persist_missing_edit ru d order x now a1)
          else let a1 = pause a; c1 = realtime_coverage a1 d
            in if \<not> allows_existing_body_update c1 BE_EDIT outgoing then a1
               else snd (persist_changed_edit ru d order x reactions c1 now a1))"

section \<open>Deletions\<close>

definition mark_all_deleted :: "int \<Rightarrow> int list \<Rightarrow> int \<Rightarrow> MessageDb \<Rightarrow> MessageDb" where
  "mark_all_deleted d ids now = fold (\<lambda>m db. snd (mark_message_deleted d m now db)) ids"

definition persist_deletions :: "int \<Rightarrow> int list \<Rightarrow> int \<Rightarrow> Archive \<Rightarrow> Archive" where
  "persist_deletions d ids now a =
     (let (valid, db) = record_message_deletions d ids (ar_messages a);
          a1 = a\<lparr>ar_messages := db\<rparr>; c = realtime_coverage a1 d
      in if c = RC_NO_REALTIME_HISTORY then a1
         else let allowed = (if c = RC_OWN_OUTGOING then filter (\<lambda>m. snd (read_message_out db (d, m))) valid else valid)
           in if allowed = [] then a1
              else record_body_event d now (map_messages (mark_all_deleted d allowed now) a1))"

text \<open>
  \<open>find_unique_nonchannel_message_dialogs\<close> for one message: the only dialog, outside channels,
  that holds it undeleted. \<open>dialogs\<close> lists the dialogs of the table.
\<close>

definition unique_nonchannel_dialog :: "int list \<Rightarrow> MessageDb \<Rightarrow> int \<Rightarrow> int option" where
  "unique_nonchannel_dialog dialogs db m =
     (case filter (\<lambda>d. - channel_peer_id_offset \<le> d \<and> (case db_messages db (d, m) of None \<Rightarrow> False | Some r \<Rightarrow> \<not> mr_is_deleted r)) dialogs of
        [d] \<Rightarrow> Some d | _ \<Rightarrow> None)"

definition resolve_peerless :: "(int \<Rightarrow> int option) \<Rightarrow> int \<Rightarrow> int \<Rightarrow> int list \<times> MessageDb \<Rightarrow> int list \<times> MessageDb" where
  "resolve_peerless candidate now m s = (case candidate m of None \<Rightarrow> s
     | Some d \<Rightarrow> let (changed, db) = mark_message_deleted d m now (snd s)
         in (if changed then fst s @ [d] else fst s, db))"

definition handle_peerless_deletions :: "int list \<Rightarrow> int list \<Rightarrow> int \<Rightarrow> Archive \<Rightarrow> Archive" where
  "handle_peerless_deletions dialogs ids now a =
     (let (accepted, db) = record_nonchannel_deletions ids now (ar_messages a);
          candidate = unique_nonchannel_dialog dialogs db;
          (resolved, db1) = fold (resolve_peerless candidate now) accepted ([], db)
      in fold (\<lambda>d. record_body_event d now) resolved (a\<lparr>ar_messages := db1\<rparr>))"

definition on_message_deleted :: "int list \<Rightarrow> int option \<Rightarrow> int list \<Rightarrow> int \<Rightarrow> Archive \<Rightarrow> Archive" where
  "on_message_deleted dialogs chat ids now a =
     (case chat of None \<Rightarrow> handle_peerless_deletions dialogs ids now a | Some d \<Rightarrow> persist_deletions d ids now a)"

section \<open>Transcriptions\<close>

record TranscriptionEvent =
  te_dialog_id :: int
  te_message_id :: int
  te_text :: string
  te_transcription_id :: int

text \<open>An argument is \<open>None\<close> when the attribute is absent, of another type, or a peer without identifier.\<close>

definition transcription_event_fields :: "bool \<Rightarrow> int option \<Rightarrow> int option \<Rightarrow> string option \<Rightarrow> int option
    \<Rightarrow> TranscriptionEvent option" where
  "transcription_event_fields pending peer message text ident =
     (if pending then None
      else case (peer, message, text, ident) of
        (Some d, Some m, Some t, Some i) \<Rightarrow> if py_strip t = [] then None
          else Some \<lparr>te_dialog_id = d, te_message_id = m, te_text = py_strip t, te_transcription_id = i\<rparr>
      | _ \<Rightarrow> None)"

definition te_key :: "TranscriptionEvent \<Rightarrow> msg_key" where
  "te_key e = (te_dialog_id e, te_message_id e)"

definition stage_missing_transcription :: "TranscriptionEvent \<Rightarrow> int option \<Rightarrow> int \<Rightarrow> Archive \<Rightarrow> Archive" where
  "stage_missing_transcription e delivered now a =
     (if realtime_coverage a (te_dialog_id e) \<noteq> RC_FULL_HISTORY then a
      else if read_message_text (ar_messages a) (te_key e) \<noteq> None then a
      else let (staged, db) = stage_message_transcription (te_key e) (te_text e) (te_transcription_id e) now delivered
                 (ar_messages a);
               a1 = a\<lparr>ar_messages := db\<rparr>
           in if staged then record_body_event (te_dialog_id e) now a1 else a1)"

text \<open>\<open>c\<close> is the coverage read before the transaction.\<close>

definition update_existing_transcription :: "MessageRules \<Rightarrow> TranscriptionEvent \<Rightarrow> RealtimeHistoryCoverage \<Rightarrow> int option \<Rightarrow> int
    \<Rightarrow> Archive \<Rightarrow> Archive" where
  "update_existing_transcription ru e c delivered now a =
     (let outgoing = snd (read_message_out (ar_messages a) (te_key e));
          old_text = (case read_message_text (ar_messages a) (te_key e) of None \<Rightarrow> None | Some t \<Rightarrow> t)
      in if \<not> allows_existing_body_update c BE_TRANSCRIPTION outgoing
           \<or> \<not> allows_existing_body_update (realtime_coverage a (te_dialog_id e)) BE_TRANSCRIPTION outgoing then a
         else let (applied, db) = apply_message_transcription ru (te_key e) (te_text e) (te_transcription_id e) now delivered
                    (ar_messages a);
                  a1 = a\<lparr>ar_messages := db\<rparr>
           in if applied \<and> old_text \<noteq> Some (te_text e) then record_body_event (te_dialog_id e) now a1 else a1)"

definition on_raw_transcribed_audio :: "MessageRules \<Rightarrow> TranscriptionEvent option \<Rightarrow> int option \<Rightarrow> int
    \<Rightarrow> (Archive \<Rightarrow> Archive) \<Rightarrow> Archive \<Rightarrow> Archive" where
  "on_raw_transcribed_audio ru event delivered now pause a = (case event of None \<Rightarrow> a
     | Some e \<Rightarrow>
       let c = realtime_coverage a (te_dialog_id e)
       in if c = RC_NO_REALTIME_HISTORY then a
          else let a1 = pause a
            in if read_message_text (ar_messages a1) (te_key e) \<noteq> None then update_existing_transcription ru e c delivered now a1
               else if c = RC_FULL_HISTORY then stage_missing_transcription e delivered now a1 else a1)"

section \<open>Messages received in an answer\<close>

record ReceivedMessage =
  rc_bundle :: ExtractedMessage
  rc_outgoing :: "bool option"

definition extract_received_messages :: "ReplyMessage list \<Rightarrow> ReceivedMessage list" where
  "extract_received_messages xs = List.map_filter (\<lambda>x.
     if raw_is_empty x then None
     else case rp_peer x of None \<Rightarrow> None
       | Some d \<Rightarrow> if int_or_zero (raw_id x) \<le> 0 then None
           else let item = extract_message_row d (RawMessage.truncate x)
             in Some \<lparr>rc_bundle = item\<lparr>em_message := (em_message item)\<lparr>sm_out := message_out x\<rparr>\<rparr>, rc_outgoing = rp_out x\<rparr>) xs"

definition received_own_message_eligible :: "Archive \<Rightarrow> ReceivedMessage \<Rightarrow> bool" where
  "received_own_message_eligible a rm \<longleftrightarrow> (if rc_outgoing rm \<noteq> Some True then False
     else let (found, outgoing) = read_message_out (ar_messages a) (item_key (rc_bundle rm)) in \<not> found \<or> outgoing)"

text \<open>\<open>_received_recovery_witness\<close> asks what \<open>current_recovery_witness\<close> asks.\<close>

definition received_message_eligible :: "Archive \<Rightarrow> ReceivedMessage \<Rightarrow> int \<Rightarrow> int option \<Rightarrow> bool \<Rightarrow> bool" where
  "received_message_eligible a rm order expected revalidated =
     (let d = sm_dialog_id (em_message (rc_bundle rm)) in
      if expected \<noteq> None \<and> expected \<noteq> Some d then False
      else case ar_rows a d of None \<Rightarrow> False
        | Some r \<Rightarrow>
          if sd_status r = CV_ACCESS_LOST
          then (if \<not> revalidated \<or> expected \<noteq> Some d \<or> \<not> full_history_enabled a d then False
                else current_recovery_witness a d order)
          else full_history_enabled a d \<or> sd_status r = CV_OWN_ONLY \<and> received_own_message_eligible a rm)"

definition persist_received_one :: "MessageRules \<Rightarrow> int \<Rightarrow> int option \<Rightarrow> bool \<Rightarrow> ReceivedMessage \<Rightarrow> int \<times> Archive \<Rightarrow> int \<times> Archive" where
  "persist_received_one ru order expected revalidated rm s =
     (if \<not> received_message_eligible (snd s) rm order expected revalidated then s
      else let (written, db) = persist_received_message ru ((rc_bundle rm)\<lparr>em_observation_order := Some order\<rparr>)
             (ar_messages (snd s))
        in (fst s + written, (snd s)\<lparr>ar_messages := db\<rparr>))"

text \<open>\<open>None\<close> is \<^verbatim>\<open>ReceivedMessageScopeChangedError\<close>, which aborts the transaction of the caller.\<close>

definition persist_received_messages :: "MessageRules \<Rightarrow> ReceivedMessage list \<Rightarrow> bool \<times> bool \<Rightarrow> int \<Rightarrow> int option \<Rightarrow> bool
    \<Rightarrow> Archive \<Rightarrow> (int \<times> Archive) option" where
  "persist_received_messages ru messages claims order expected revalidated a =
     (if \<not> fst claims then None
      else let s = fold (persist_received_one ru order expected revalidated) messages (0, a)
        in if \<not> snd claims then None else Some s)"

section \<open>The answer to a page of the deletion scan\<close>

text \<open>
  \<open>_scan_dm_gap_message_page\<close>: \<open>results\<close> is the answer, \<open>None\<close> where the server has no such
  message. \<open>claimed\<close> and \<open>claims\<close> are the checks that the account is still the one that asked.
\<close>

definition survivors :: "int list \<Rightarrow> ReplyMessage option list \<Rightarrow> ReceivedMessage list" where
  "survivors ids results = extract_received_messages
     (List.map_filter (\<lambda>(i, x). case x of None \<Rightarrow> None | Some x \<Rightarrow> if raw_id x = Some i then Some x else None) (zip ids results))"

definition mark_missing :: "int \<Rightarrow> int \<Rightarrow> int \<Rightarrow> int \<times> ReplyMessage option \<Rightarrow> int \<times> MessageDb \<Rightarrow> int \<times> MessageDb" where
  "mark_missing d order now q s =
     (if snd q = None \<and> (case db_observations (snd s) (d, fst q) of None \<Rightarrow> True | Some o' \<Rightarrow> ob_order o' \<le> order)
      then let (changed, db) = mark_message_deleted d (fst q) now (snd s) in (if changed then fst s + 1 else fst s, db)
      else s)"

definition persist_scan_page :: "MessageRules \<Rightarrow> int \<Rightarrow> int list \<Rightarrow> ReplyMessage option list \<Rightarrow> bool \<Rightarrow> bool \<times> bool \<Rightarrow> int \<Rightarrow> int
    \<Rightarrow> Archive \<Rightarrow> (int \<times> Archive) option" where
  "persist_scan_page ru d ids results claimed claims order now a =
     (if \<not> claimed then Some (0, a)
      else let can_mark = (full_history_enabled a d \<and> coverage_status a d = Some CV_SYNCED);
               (marked, db) = (if can_mark then fold (mark_missing d order now) (zip ids results) (0, ar_messages a)
                               else (0, ar_messages a))
        in map_option (\<lambda>s. (marked, snd s))
             (persist_received_messages ru (survivors ids results) claims order (Some d) False (a\<lparr>ar_messages := db\<rparr>)))"

end
