(* ===== verification/Realtime_Props.thy ===== *)
theory Realtime_Props
  imports Realtime_Events Message_Transcripts
begin

text \<open>
  What the realtime writers may touch: every row they write belongs to a dialog whose history is
  enrolled or, in an own-only dialog, to the account itself; a dialog kept own-only never shows
  messages of others; and a page of the deletion scan marks exactly what the server has lost.
\<close>

section \<open>Transactions\<close>

datatype event_unit =
    EU_New int int ReplyMessage "int option" int
  | EU_Metadata int "int option" RealtimeHistoryCoverage int
  | EU_Enroll int "int option" int
  | EU_Edit_Missing int int ReplyMessage int
  | EU_Edit_Changed int int ReplyMessage bool RealtimeHistoryCoverage int
  | EU_Deleted int "int list" int
  | EU_Peerless "int list" "int list" int
  | EU_Staged TranscriptionEvent "int option" int
  | EU_Transcribed TranscriptionEvent RealtimeHistoryCoverage "int option" int
  | EU_Received "ReplyMessage list" "bool \<times> bool" int "int option" bool
  | EU_Scan_Page int "int list" "ReplyMessage option list" bool "bool \<times> bool" int int

text \<open>A transaction that raises leaves the archive as it was.\<close>

definition after_commit :: "Archive \<Rightarrow> (int \<times> Archive) option \<Rightarrow> Archive" where
  "after_commit a r = (case r of None \<Rightarrow> a | Some s \<Rightarrow> snd s)"

fun event_step :: "MessageRules \<Rightarrow> event_unit \<Rightarrow> Archive \<Rightarrow> Archive" where
  "event_step ru (EU_New d order x date now) a = snd (persist_new_message ru d order x date now a)"
| "event_step ru (EU_Metadata d date c now) a = project_denied_metadata d date c now a"
| "event_step ru (EU_Enroll d timestamp now) a = snd (persist_dm_enrollment d timestamp now a)"
| "event_step ru (EU_Edit_Missing d order x now) a = snd (persist_missing_edit ru d order x now a)"
| "event_step ru (EU_Edit_Changed d order x reactions c now) a = snd (persist_changed_edit ru d order x reactions c now a)"
| "event_step ru (EU_Deleted d ids now) a = persist_deletions d ids now a"
| "event_step ru (EU_Peerless dialogs ids now) a = handle_peerless_deletions dialogs ids now a"
| "event_step ru (EU_Staged e delivered now) a = stage_missing_transcription e delivered now a"
| "event_step ru (EU_Transcribed e c delivered now) a = update_existing_transcription ru e c delivered now a"
| "event_step ru (EU_Received xs claims order expected revalidated) a =
     after_commit a (persist_received_messages ru (extract_received_messages xs) claims order expected revalidated a)"
| "event_step ru (EU_Scan_Page d ids results claimed claims order now) a =
     after_commit a (persist_scan_page ru d ids results claimed claims order now a)"

text \<open>
  The coverage an edit read before its transaction: a dialog never becomes own-only later, so
  when it is own-only at the transaction it was so before.
\<close>

fun unit_ok :: "Archive \<Rightarrow> event_unit \<Rightarrow> bool" where
  "unit_ok a (EU_Edit_Changed d order x reactions c now) = (realtime_coverage a d = RC_OWN_OUTGOING \<longrightarrow> c = RC_OWN_OUTGOING)"
| "unit_ok a _ = True"

section \<open>Frames\<close>

lemma metadata_frames [simp]:
  "ar_messages (record_body_event d now a) = ar_messages a" "ar_intent (record_body_event d now a) = ar_intent a"
  "ar_messages (update_last_message_timestamp d now date a) = ar_messages a"
  "ar_intent (update_last_message_timestamp d now date a) = ar_intent a"
  "ar_rows (update_last_message_timestamp d now date a) = ar_rows a"
  "ar_messages (map_messages f a) = f (ar_messages a)" "ar_intent (map_messages f a) = ar_intent a"
  "ar_rows (map_messages f a) = ar_rows a"
  by (simp_all add: record_body_event_def update_dialog_def update_last_message_timestamp_def map_messages_def
      split: option.split)

lemma coverage_cases:
  "realtime_coverage a d = RC_FULL_HISTORY \<longleftrightarrow> full_history_enabled a d \<and> coverage_status a d \<in> {Some CV_SYNCED, Some CV_SYNCING}"
  "realtime_coverage a d = RC_OWN_OUTGOING \<longleftrightarrow> coverage_status a d = Some CV_OWN_ONLY"
  by (auto simp: realtime_coverage_def realtime_history_coverage_def read_status_def coverage_status_def split: option.splits)

section \<open>Rows\<close>

definition row_out :: "MessageRow option \<Rightarrow> bool" where
  "row_out r = (case r of None \<Rightarrow> True | Some r \<Rightarrow> sm_out (mr_message r))"

text \<open>A row changes only in a dialog of \<open>full\<close>, or in one of \<open>own\<close> where it is outgoing then.\<close>

definition stays_within :: "(int \<Rightarrow> bool) \<Rightarrow> (int \<Rightarrow> bool) \<Rightarrow> MessageDb \<Rightarrow> MessageDb \<Rightarrow> bool" where
  "stays_within full own db db' \<longleftrightarrow> (\<forall>k. db_messages db' k = db_messages db k \<or> full (fst k)
     \<or> own (fst k) \<and> row_out (db_messages db' k))"

lemma stays_within_refl [simp]: "stays_within full own db db"
  by (simp add: stays_within_def)

lemma stays_withinD:
  "stays_within full own db db' \<Longrightarrow> db_messages db' k \<noteq> db_messages db k \<Longrightarrow>
     full (fst k) \<or> own (fst k) \<and> row_out (db_messages db' k)"
  unfolding stays_within_def by blast

lemma stays_within_same: "db_messages db' = db_messages db \<Longrightarrow> stays_within full own db db'"
  by (simp add: stays_within_def)

lemma stays_within_trans: "stays_within full own a b \<Longrightarrow> stays_within full own b c \<Longrightarrow> stays_within full own a c"
  unfolding stays_within_def by metis

lemma projected_out [simp]: "sm_out (em_message (projected ru db x)) = sm_out (em_message x)"
proof -
  have media: "sm_out (em_message (preserve_newer_received_media db x)) = sm_out (em_message x)" for x
    by (auto simp: preserve_newer_received_media_def Let_def split: option.splits)
  have texts: "sm_out (em_message (preserve_transcribed_text db x)) = sm_out (em_message x)" for x
    by (simp add: preserve_transcribed_text_def Let_def)
  have overlay: "sm_out (em_message (overlay_transcription ru db x)) = sm_out (em_message x)" for x
    by (simp add: overlay_transcription_def Let_def split: option.split)
  show ?thesis by (simp add: projected_def media texts overlay)
qed

lemma insert_one_row:
  "db_messages (snd (insert_messages_with_fts ru source [x] (db\<lparr>db_versions := v\<rparr>))) j = db_messages db j
   \<or> j = item_key x \<and> (\<exists>r. db_messages (snd (insert_messages_with_fts ru source [x] (db\<lparr>db_versions := v\<rparr>))) j = Some r
        \<and> sm_out (mr_message r) = sm_out (em_message x))"
  by (auto simp: insert_tables accepted_at_single written_row_def split: option.splits)

text \<open>What one bundle may do to the rows.\<close>

definition writes_one :: "ExtractedMessage \<Rightarrow> MessageDb \<Rightarrow> MessageDb \<Rightarrow> bool" where
  "writes_one x db db' \<longleftrightarrow> (\<forall>j. db_messages db' j = db_messages db j
     \<or> j = item_key x \<and> (\<exists>r. db_messages db' j = Some r \<and> sm_out (mr_message r) = sm_out (em_message x)))"

lemma writes_one_refl: "writes_one x db db"
  by (simp add: writes_one_def)

lemma writes_one_insert: "writes_one x db (snd (insert_messages_with_fts ru source [x] db))"
  using insert_one_row[where v = "db_versions db" and db = db] unfolding writes_one_def by (intro allI) simp

lemma writes_one_edit: "writes_one x db (snd (persist_edited_message ru source x date db))"
proof -
  have ins: "writes_one x db (snd (insert_messages_with_fts ru source [x] (db\<lparr>db_versions := v\<rparr>)))" for v
    using insert_one_row[where v = v and db = db] unfolding writes_one_def by (intro allI) simp
  show ?thesis
    using ins writes_one_insert[of x db ru source]
    by (simp add: persist_edited_message_def Let_def writes_one_refl split: option.split)
qed

lemma writes_one_received: "writes_one x db (snd (persist_received_message ru x db))"
proof -
  let ?x = "x\<lparr>em_invalidate_image := False\<rparr>"
  have same: "writes_one ?x = writes_one x" by (intro ext) (simp add: writes_one_def item_key_def)
  have "snd (persist_received_message ru x db) \<in> {db, snd (insert_messages_with_fts ru RS_HISTORY [?x] db),
      snd (persist_edited_message ru RS_MESSAGE_EDIT ?x (sm_edit_date (em_message x)) db)}"
    by (simp add: persist_received_message_def Let_def split_beta split: option.split)
  then show ?thesis
    using writes_one_insert[of ?x db ru RS_HISTORY] writes_one_edit[of ?x db ru RS_MESSAGE_EDIT "sm_edit_date (em_message x)"]
      writes_one_refl[of x db] unfolding same by (elim insertE emptyE) simp_all
qed

lemma writes_one_within:
  assumes "writes_one x db db'" "full (fst (item_key x)) \<or> own (fst (item_key x)) \<and> sm_out (em_message x)"
  shows "stays_within full own db db'"
  unfolding stays_within_def
proof
  fix k
  from assms(1) have "db_messages db' k = db_messages db k
      \<or> k = item_key x \<and> (\<exists>r. db_messages db' k = Some r \<and> sm_out (mr_message r) = sm_out (em_message x))"
    unfolding writes_one_def by blast
  then show "db_messages db' k = db_messages db k \<or> full (fst k) \<or> own (fst k) \<and> row_out (db_messages db' k)"
    using assms(2) by (auto simp: row_out_def)
qed

section \<open>Marks\<close>

definition marked_in :: "msg_key set \<Rightarrow> int \<Rightarrow> MessageDb \<Rightarrow> MessageDb \<Rightarrow> bool" where
  "marked_in K now db db' \<longleftrightarrow> (\<forall>j. db_messages db' j = db_messages db j
     \<or> j \<in> K \<and> (\<exists>r. db_messages db j = Some r \<and> db_messages db' j = Some (r\<lparr>mr_is_deleted := True, mr_deleted_at := Some now\<rparr>)))"

lemma marked_in_refl [simp]: "marked_in K now db db"
  by (simp add: marked_in_def)

lemma marked_inD:
  "marked_in K now db db' \<Longrightarrow> db_messages db' k \<noteq> db_messages db k \<Longrightarrow> k \<in> K \<and> (\<exists>r. db_messages db k = Some r
     \<and> db_messages db' k = Some (r\<lparr>mr_is_deleted := True, mr_deleted_at := Some now\<rparr>))"
  unfolding marked_in_def by blast

lemma marked_in_trans:
  assumes "marked_in K now a b" "marked_in K now b c"
  shows "marked_in K now a c"
  unfolding marked_in_def
proof
  fix j
  from assms(1) have 1: "db_messages b j = db_messages a j \<or> j \<in> K \<and> (\<exists>r. db_messages a j = Some r
      \<and> db_messages b j = Some (r\<lparr>mr_is_deleted := True, mr_deleted_at := Some now\<rparr>))" by (simp only: marked_in_def)
  from assms(2) have 2: "db_messages c j = db_messages b j \<or> j \<in> K \<and> (\<exists>r. db_messages b j = Some r
      \<and> db_messages c j = Some (r\<lparr>mr_is_deleted := True, mr_deleted_at := Some now\<rparr>))" by (simp only: marked_in_def)
  from 1 show "db_messages c j = db_messages a j \<or> j \<in> K \<and> (\<exists>r. db_messages a j = Some r
      \<and> db_messages c j = Some (r\<lparr>mr_is_deleted := True, mr_deleted_at := Some now\<rparr>))"
  proof
    assume "db_messages b j = db_messages a j"
    with 2 show ?thesis by (simp only:)
  next
    assume "j \<in> K \<and> (\<exists>r. db_messages a j = Some r
      \<and> db_messages b j = Some (r\<lparr>mr_is_deleted := True, mr_deleted_at := Some now\<rparr>))"
    with 2 show ?thesis by auto
  qed
qed

lemma mark_one: "(d, m) \<in> K \<Longrightarrow> marked_in K now db (snd (mark_message_deleted d m now db))"
  unfolding marked_in_def by (cases "db_messages db (d, m)") (simp_all add: mark_tables)

lemma marked_fold:
  assumes "\<And>x s. x \<in> set xs \<Longrightarrow> marked_in K now (proj s) (proj (f x s))"
  shows "marked_in K now (proj s) (proj (fold f xs s))"
  using assms
proof (induction xs arbitrary: s)
  case (Cons x xs)
  have "marked_in K now (proj s) (proj (f x s))" using Cons.prems by simp
  moreover have "marked_in K now (proj (f x s)) (proj (fold f xs (f x s)))" by (rule Cons.IH) (simp add: Cons.prems)
  ultimately show ?case by (auto intro: marked_in_trans)
qed simp

lemma mark_all_rows: "marked_in (Pair d ` set ids) now db (mark_all_deleted d ids now db)"
  using marked_fold[where proj = "\<lambda>s. s" and f = "\<lambda>m db. snd (mark_message_deleted d m now db)" and xs = ids
      and K = "Pair d ` set ids" and s = db] by (simp add: mark_all_deleted_def mark_one)

lemma marked_within:
  assumes "marked_in K now db db'" "\<And>k. k \<in> K \<Longrightarrow> full (fst k) \<or> own (fst k) \<and> row_out (db_messages db k)"
  shows "stays_within full own db db'"
  unfolding stays_within_def
proof
  fix k
  from assms(1) have "db_messages db' k = db_messages db k \<or> k \<in> K \<and> (\<exists>r. db_messages db k = Some r
      \<and> db_messages db' k = Some (r\<lparr>mr_is_deleted := True, mr_deleted_at := Some now\<rparr>))" by (simp only: marked_in_def)
  then show "db_messages db' k = db_messages db k \<or> full (fst k) \<or> own (fst k) \<and> row_out (db_messages db' k)"
    using assms(2)[of k] by (auto simp: row_out_def)
qed

section \<open>Every writer stays within its authority\<close>

text \<open>
  History is enrolled, and access is not lost, unless a recovery was observed since.
\<close>

definition enrolled_scope :: "Archive \<Rightarrow> int \<Rightarrow> bool" where
  "enrolled_scope a d \<longleftrightarrow> full_history_enabled a d \<and> (coverage_status a d \<noteq> Some CV_ACCESS_LOST \<or> has_current_recovery_witness a d)"

definition own_scope :: "Archive \<Rightarrow> int \<Rightarrow> bool" where
  "own_scope a d \<longleftrightarrow> coverage_status a d = Some CV_OWN_ONLY"

abbreviation authorized :: "Archive \<Rightarrow> MessageDb \<Rightarrow> bool" where
  "authorized a db \<equiv> stays_within (enrolled_scope a) (own_scope a) (ar_messages a) db"

lemma scope_messages [simp]:
  "full_history_enabled (a\<lparr>ar_messages := db\<rparr>) d = full_history_enabled a d"
  "coverage_status (a\<lparr>ar_messages := db\<rparr>) d = coverage_status a d"
  "realtime_coverage (a\<lparr>ar_messages := db\<rparr>) d = realtime_coverage a d"
  by (simp_all add: full_history_enabled_def read_intent_def coverage_status_def realtime_coverage_def read_status_def
      split: option.split)

lemma full_coverage_scope: "realtime_coverage a d = RC_FULL_HISTORY \<Longrightarrow> enrolled_scope a d"
  by (auto simp: coverage_cases enrolled_scope_def)

lemma own_coverage_scope: "realtime_coverage a d = RC_OWN_OUTGOING \<longleftrightarrow> own_scope a d"
  by (simp add: coverage_cases own_scope_def)

lemma event_key [simp]: "item_key (extract_event_message d order x) = (d, int_or_zero (raw_id x))"
  and event_out [simp]: "sm_out (em_message (extract_event_message d order x)) = message_out x"
  by (simp_all add: extract_event_message_def extract_message_row_def item_key_def msg_key_def Let_def RawMessage.truncate_def)

lemma new_authorized: "authorized a (ar_messages (snd (persist_new_message ru d order x date now a)))"
proof (cases "allows_new_message (realtime_coverage a d) (message_out x)")
  case True
  let ?x = "extract_event_message d order x"
  have scope: "enrolled_scope a d \<or> own_scope a d \<and> message_out x"
    using True full_coverage_scope[of a d] own_coverage_scope[of a d] by (auto simp: allows_new_message_def)
  have "stays_within (enrolled_scope a) (own_scope a) (ar_messages a)
      (snd (insert_messages_with_fts ru RS_REALTIME_MESSAGE [?x] (ar_messages a)))"
    by (rule writes_one_within[OF writes_one_insert]) (use scope in simp)
  then show ?thesis using True by (simp add: persist_new_message_def)
qed (simp add: persist_new_message_def)

lemma missing_edit_authorized: "authorized a (ar_messages (snd (persist_missing_edit ru d order x now a)))"
proof (cases "allows_missing_body_insert (realtime_coverage a d) BE_EDIT (message_out x)")
  case True
  let ?x = "extract_event_message d order x"
  have scope: "enrolled_scope a d \<or> own_scope a d \<and> message_out x"
    using True full_coverage_scope[of a d] own_coverage_scope[of a d] by (auto simp: allows_missing_body_insert_def)
  have "stays_within (enrolled_scope a) (own_scope a) (ar_messages a)
      (snd (insert_messages_with_fts ru RS_MESSAGE_EDIT [?x] (ar_messages a)))"
    by (rule writes_one_within[OF writes_one_insert]) (use scope in simp)
  then show ?thesis using True by (simp add: persist_missing_edit_def)
qed (simp add: persist_missing_edit_def)

lemma changed_edit_authorized:
  assumes "realtime_coverage a d = RC_OWN_OUTGOING \<longrightarrow> c = RC_OWN_OUTGOING"
  shows "authorized a (ar_messages (snd (persist_changed_edit ru d order x reactions c now a)))"
proof -
  let ?x = "let item = extract_event_message d order x
    in if c = RC_OWN_OUTGOING then item\<lparr>em_message := (em_message item)\<lparr>sm_out := True\<rparr>\<rparr> else item"
  have key: "item_key ?x = (d, int_or_zero (raw_id x))"
    by (simp add: Let_def)
      (simp add: item_key_def msg_key_def extract_event_message_def extract_message_row_def RawMessage.truncate_def)
  have out: "c = RC_OWN_OUTGOING \<Longrightarrow> sm_out (em_message ?x)" by (simp add: Let_def)
  define db' where "db' = snd (persist_edited_message ru RS_MESSAGE_EDIT ?x
    (Some (case sm_edit_date (em_message ?x) of Some t \<Rightarrow> t | None \<Rightarrow> now)) (ar_messages a))"
  have one: "writes_one ?x (ar_messages a) db'" unfolding db'_def by (rule writes_one_edit)
  have run: "ar_messages (snd (persist_changed_edit ru d order x reactions c now a)) =
      (if allows_existing_body_update (realtime_coverage a d) BE_EDIT (snd (read_message_out (ar_messages a) (item_key ?x)))
       then db' else ar_messages a)"
    unfolding persist_changed_edit_def db'_def Let_def split_beta by simp
  have "authorized a db'"
    if "allows_existing_body_update (realtime_coverage a d) BE_EDIT (snd (read_message_out (ar_messages a) (item_key ?x)))"
  proof (rule writes_one_within[OF one])
    show "enrolled_scope a (fst (item_key ?x)) \<or> own_scope a (fst (item_key ?x)) \<and> sm_out (em_message ?x)"
      unfolding key using that assms out full_coverage_scope[of a d] own_coverage_scope[of a d]
      by (auto simp: allows_existing_body_update_def split: if_splits)
  qed
  then show ?thesis unfolding run by simp
qed

lemma deletions_authorized: "authorized a (ar_messages (persist_deletions d ids now a))"
proof -
  let ?db = "snd (record_message_deletions d ids (ar_messages a))"
  let ?valid = "fst (record_message_deletions d ids (ar_messages a))"
  have same: "db_messages ?db = db_messages (ar_messages a)" by (rule record_deletions_tables)
  have base: "authorized a ?db" by (rule stays_within_same) (simp add: same)
  have mark: "authorized a (mark_all_deleted d ms now ?db)"
    if "\<forall>m \<in> set ms. enrolled_scope a d \<or> own_scope a d \<and> row_out (db_messages ?db (d, m))" for ms
    by (rule stays_within_trans[OF base], rule marked_within[OF mark_all_rows]) (use that in auto)
  show ?thesis
  proof (cases "realtime_coverage a d")
    case RC_FULL_HISTORY
    then show ?thesis using mark[of ?valid] base full_coverage_scope[of a d]
      by (simp add: persist_deletions_def split_beta Let_def)
  next
    case RC_OWN_OUTGOING
    have "row_out (db_messages ?db (d, m))" if "snd (read_message_out ?db (d, m))" for m
      using that by (auto simp: read_message_out_def row_out_def split: option.splits)
    then show ?thesis using mark[of "filter (\<lambda>m. snd (read_message_out ?db (d, m))) ?valid"] base RC_OWN_OUTGOING own_coverage_scope[of a d]
      by (simp add: persist_deletions_def split_beta Let_def)
  next
    case RC_NO_REALTIME_HISTORY
    then show ?thesis using base by (simp add: persist_deletions_def split_beta Let_def)
  qed
qed

lemma transcribed_within:
  assumes "transcribed_db ru k s db db'" "full (fst k) \<or> own (fst k) \<and> row_out (db_messages db k)"
  shows "stays_within full own db db'"
  unfolding stays_within_def
proof
  fix j
  from assms(1) have "db_messages db' j = db_messages db j \<or> j = k \<and> db_messages db' j = map_option
      (\<lambda>r. r\<lparr>mr_message := (mr_message r)\<lparr>sm_text := Some s\<rparr>\<rparr>) (db_messages db j)"
    unfolding transcribed_db_def by (elim disjE exE conjE) simp_all
  then show "db_messages db' j = db_messages db j \<or> full (fst j) \<or> own (fst j) \<and> row_out (db_messages db' j)"
    using assms(2) by (cases "db_messages db j") (auto simp: row_out_def)
qed

lemma staged_authorized: "authorized a (ar_messages (stage_missing_transcription e delivered now a))"
proof (cases "realtime_coverage a (te_dialog_id e) = RC_FULL_HISTORY")
  case True
  have "authorized a (snd (stage_message_transcription (te_key e) (te_text e) (te_transcription_id e) now delivered (ar_messages a)))"
    using transcribed_within[OF transcription_steps(2)[where k = "te_key e"]] full_coverage_scope[OF True] by (simp add: te_key_def)
  then show ?thesis by (simp add: stage_missing_transcription_def split_beta Let_def)
qed (simp add: stage_missing_transcription_def)

lemma transcription_authorized: "authorized a (ar_messages (update_existing_transcription ru e c delivered now a))"
proof (cases "allows_existing_body_update (realtime_coverage a (te_dialog_id e)) BE_TRANSCRIPTION
    (snd (read_message_out (ar_messages a) (te_key e)))")
  case True
  then have "enrolled_scope a (te_dialog_id e) \<or> own_scope a (te_dialog_id e) \<and> row_out (db_messages (ar_messages a) (te_key e))"
    using full_coverage_scope[of a "te_dialog_id e"] own_coverage_scope[of a "te_dialog_id e"]
    by (auto simp: allows_existing_body_update_def read_message_out_def row_out_def split: if_splits option.splits)
  then have "authorized a (snd (apply_message_transcription ru (te_key e) (te_text e) (te_transcription_id e) now delivered (ar_messages a)))"
    using transcribed_within[OF transcription_steps(1)[where k = "te_key e"]] by (simp add: te_key_def)
  then show ?thesis by (simp add: update_existing_transcription_def split_beta Let_def)
qed (simp add: update_existing_transcription_def)

lemma received_out:
  "rm \<in> set (extract_received_messages xs) \<Longrightarrow> rc_outgoing rm = Some True \<Longrightarrow> sm_out (em_message (rc_bundle rm))"
  by (auto simp: extract_received_messages_def map_filter_def message_out_def Let_def split: if_splits option.splits)

lemma eligible_scope:
  assumes "received_message_eligible a rm order expected revalidated"
  shows "enrolled_scope a (fst (item_key (rc_bundle rm))) \<or> own_scope a (fst (item_key (rc_bundle rm))) \<and> rc_outgoing rm = Some True"
proof -
  let ?d = "sm_dialog_id (em_message (rc_bundle rm))"
  obtain r where r: "ar_rows a ?d = Some r" using assms by (auto simp: received_message_eligible_def Let_def split: option.splits if_splits)
  have witness: "current_recovery_witness a ?d order \<Longrightarrow> has_current_recovery_witness a ?d"
    by (simp add: current_recovery_witness_def has_current_recovery_witness_def)
  have status: "coverage_status a ?d = Some (sd_status r)" by (simp add: coverage_status_def r)
  have "enrolled_scope a ?d \<or> own_scope a ?d \<and> rc_outgoing rm = Some True"
    using assms witness unfolding received_message_eligible_def enrolled_scope_def own_scope_def status
    by (auto simp: r Let_def received_own_message_eligible_def split: if_splits)
  then show ?thesis by (simp add: item_key_def msg_key_def)
qed

definition messages_only :: "Archive \<Rightarrow> Archive \<Rightarrow> bool" where
  "messages_only a a' \<longleftrightarrow> a' = a\<lparr>ar_messages := ar_messages a'\<rparr>"

lemma messages_only_update:
  assumes "messages_only a a'"
  shows "messages_only a (a'\<lparr>ar_messages := db\<rparr>)"
proof -
  obtain db' where "a' = a\<lparr>ar_messages := db'\<rparr>" using assms by (simp add: messages_only_def)
  then show ?thesis by (simp add: messages_only_def)
qed

lemma messages_only_scope:
  assumes "messages_only a a'"
  shows "enrolled_scope a' = enrolled_scope a" "own_scope a' = own_scope a"
proof -
  have "enrolled_scope (a\<lparr>ar_messages := db\<rparr>) = enrolled_scope a" "own_scope (a\<lparr>ar_messages := db\<rparr>) = own_scope a" for db
    by (intro ext, simp add: enrolled_scope_def own_scope_def has_current_recovery_witness_def)+
  then show "enrolled_scope a' = enrolled_scope a" "own_scope a' = own_scope a"
    using assms unfolding messages_only_def by metis+
qed

lemma received_one_authorized:
  assumes "messages_only a (snd s)" "authorized a (ar_messages (snd s))" "rc_outgoing rm = Some True \<longrightarrow> sm_out (em_message (rc_bundle rm))"
  shows "messages_only a (snd (persist_received_one ru order expected revalidated rm s))
    \<and> authorized a (ar_messages (snd (persist_received_one ru order expected revalidated rm s)))"
proof (cases "received_message_eligible (snd s) rm order expected revalidated")
  case True
  let ?x = "(rc_bundle rm)\<lparr>em_observation_order := Some order\<rparr>"
  have key: "item_key ?x = item_key (rc_bundle rm)" by (simp add: item_key_def)
  have "stays_within (enrolled_scope a) (own_scope a) (ar_messages (snd s))
      (snd (persist_received_message ru ?x (ar_messages (snd s))))"
    by (rule writes_one_within[OF writes_one_received])
      (use eligible_scope[OF True] assms(3) in \<open>auto simp: key messages_only_scope[OF assms(1)]\<close>)
  then show ?thesis using True messages_only_update[OF assms(1)] stays_within_trans[OF assms(2)]
    by (simp add: persist_received_one_def split_beta)
qed (use assms in \<open>simp add: persist_received_one_def\<close>)

lemma received_authorized:
  assumes "persist_received_messages ru (extract_received_messages xs) claims order expected revalidated a = Some s"
    and "messages_only a0 a" "authorized a0 (ar_messages a)"
  shows "messages_only a0 (snd s) \<and> authorized a0 (ar_messages (snd s))"
proof -
  have "messages_only a0 (snd (fold (persist_received_one ru order expected revalidated) rms s0))
      \<and> authorized a0 (ar_messages (snd (fold (persist_received_one ru order expected revalidated) rms s0)))"
    if "messages_only a0 (snd s0)" "authorized a0 (ar_messages (snd s0))"
      "\<forall>rm \<in> set rms. rc_outgoing rm = Some True \<longrightarrow> sm_out (em_message (rc_bundle rm))" for rms s0
    using that
  proof (induction rms arbitrary: s0)
    case (Cons rm rms)
    then show ?case using received_one_authorized[of a0 s0 rm ru order expected revalidated] by simp
  qed simp
  from this[of "(0, a)" "extract_received_messages xs"] show ?thesis
    using assms received_out by (auto simp: persist_received_messages_def Let_def split: if_splits)
qed

section \<open>The scan page\<close>

lemma mark_missing_rows:
  assumes "fst q \<in> set ids"
  shows "marked_in (Pair d ` set ids) now (snd s) (snd (mark_missing d order now q s))"
  using mark_one[of d "fst q" "Pair d ` set ids" now "snd s"] assms
  by (simp add: mark_missing_def split_beta)

lemma scan_page_authorized:
  assumes "persist_scan_page ru d ids results claimed claims order now a = Some s"
  shows "authorized a (ar_messages (snd s))"
proof (cases claimed)
  case True
  let ?can = "full_history_enabled a d \<and> coverage_status a d = Some CV_SYNCED"
  define db where "db = (if ?can then snd (fold (mark_missing d order now) (zip ids results) (0, ar_messages a)) else ar_messages a)"
  have "authorized a db"
  proof (cases ?can)
    case True
    have "fst q \<in> set ids" if "q \<in> set (zip ids results)" for q
      using that by (metis prod.collapse set_zip_leftD)
    then have "marked_in (Pair d ` set ids) now (ar_messages a) db"
      using marked_fold[where proj = snd and f = "mark_missing d order now" and xs = "zip ids results"
          and K = "Pair d ` set ids" and s = "(0, ar_messages a)"] mark_missing_rows True by (simp add: db_def)
    then show ?thesis by (rule marked_within) (use True in \<open>auto simp: enrolled_scope_def\<close>)
  qed (auto simp: db_def)
  moreover obtain n where "persist_received_messages ru (survivors ids results) claims order (Some d) False
      (a\<lparr>ar_messages := db\<rparr>) = Some (n, snd s)"
    using assms True by (auto simp: persist_scan_page_def Let_def split_beta db_def split: if_splits)
  ultimately show ?thesis
    using received_authorized[where a = "a\<lparr>ar_messages := db\<rparr>" and ?a0.0 = a and s = "(n, snd s)"]
    by (simp add: survivors_def messages_only_def)
qed (use assms in \<open>auto simp: persist_scan_page_def\<close>)

section \<open>Peerless deletions\<close>

lemma peerless_rows:
  "marked_in {(d, m). m \<in> set ids \<and> unique_nonchannel_dialog dialogs (ar_messages a) m = Some d} now
     (ar_messages a) (ar_messages (handle_peerless_deletions dialogs ids now a))"
proof -
  let ?r = "record_nonchannel_deletions ids now (ar_messages a)"
  let ?K = "{(d, m). m \<in> set ids \<and> unique_nonchannel_dialog dialogs (ar_messages a) m = Some d}"
  have same: "db_messages (snd ?r) = db_messages (ar_messages a)" by (rule nonchannel_tables)
  have cand: "unique_nonchannel_dialog dialogs (snd ?r) = unique_nonchannel_dialog dialogs (ar_messages a)"
    by (intro ext) (simp add: unique_nonchannel_dialog_def same)
  have sub: "set (fst ?r) \<subseteq> set ids" by (auto simp: record_nonchannel_deletions_def Let_def)
  have step: "marked_in ?K now (snd s) (snd (resolve_peerless (unique_nonchannel_dialog dialogs (ar_messages a)) now m s))"
    if "m \<in> set (fst ?r)" for m s
    using that sub mark_one[where K = ?K and m = m] by (auto simp: resolve_peerless_def split_beta split: option.split)
  have fold: "marked_in ?K now (snd ?r)
      (snd (fold (resolve_peerless (unique_nonchannel_dialog dialogs (ar_messages a)) now) (fst ?r) ([], snd ?r)))"
    using marked_fold[where proj = snd and K = ?K and xs = "fst ?r" and s = "([], snd ?r)", OF step] by simp
  have frame: "ar_messages (fold (\<lambda>d. record_body_event d now) ds b) = ar_messages b" for ds b
    by (induction ds arbitrary: b) simp_all
  have "ar_messages (handle_peerless_deletions dialogs ids now a) =
      snd (fold (resolve_peerless (unique_nonchannel_dialog dialogs (ar_messages a)) now) (fst ?r) ([], snd ?r))"
    by (simp add: handle_peerless_deletions_def split_beta Let_def frame cand)
  then show ?thesis using fold by (simp add: marked_in_def same)
qed

lemma unique_dialog:
  assumes "unique_nonchannel_dialog dialogs db m = Some d"
  shows "\<not> is_channel_peer_id d"
proof -
  let ?P = "\<lambda>d. - channel_peer_id_offset \<le> d \<and> (case db_messages db (d, m) of None \<Rightarrow> False | Some r \<Rightarrow> \<not> mr_is_deleted r)"
  have "filter ?P dialogs = [d]"
    using assms unfolding unique_nonchannel_dialog_def by (auto split: list.splits)
  then have "d \<in> set (filter ?P dialogs)" by (simp only: list.set_intros(1))
  then show ?thesis by (simp add: is_channel_peer_id_def)
qed

lemma enrollment_messages: "ar_messages (snd (persist_dm_enrollment d timestamp now a)) = ar_messages a"
proof -
  have enable: "ar_messages (snd (enable_history d now a)) = ar_messages a"
    by (simp add: enable_history_def reset_read_position_retry_def store_intent_def request_delta_refresh_def update_dialog_def
        Let_def split_beta)
  have "ar_messages (snd (ensure_automatic_dm_enrollment d now a)) = ar_messages a"
    using enable by (simp add: ensure_automatic_dm_enrollment_def split_beta Let_def update_dialog_def split: option.split)
  then show ?thesis
    by (simp add: persist_dm_enrollment_def split_beta Let_def unhide_after_realtime_presence_def upsert_realtime_dm_dialog_def
        split: option.split)
qed

lemma metadata_messages [simp]: "ar_messages (project_denied_metadata d date c now a) = ar_messages a"
  by (simp add: project_denied_metadata_def)

lemma committed_authorized:
  "authorized a (ar_messages (after_commit a (persist_scan_page ru d ids results claimed claims order now a)))"
  "authorized a (ar_messages (after_commit a (persist_received_messages ru (extract_received_messages xs) claims order expected revalidated a)))"
proof -
  show "authorized a (ar_messages (after_commit a (persist_scan_page ru d ids results claimed claims order now a)))"
    using scan_page_authorized[of ru d ids results claimed claims order now a] by (auto simp: after_commit_def split: option.split)
  show "authorized a (ar_messages (after_commit a (persist_received_messages ru (extract_received_messages xs) claims order expected revalidated a)))"
    using received_authorized[of ru xs claims order expected revalidated a _ a] by (auto simp: after_commit_def messages_only_def split: option.split)
qed

lemma peerless_step:
  assumes "db_messages (ar_messages (event_step ru (EU_Peerless dialogs ids now) a)) k \<noteq> db_messages (ar_messages a) k"
  shows "snd k \<in> set ids \<and> \<not> is_channel_peer_id (fst k) \<and> (\<exists>r. db_messages (ar_messages a) k = Some r
    \<and> db_messages (ar_messages (event_step ru (EU_Peerless dialogs ids now) a)) k = Some (r\<lparr>mr_is_deleted := True, mr_deleted_at := Some now\<rparr>))"
proof -
  have "db_messages (ar_messages (handle_peerless_deletions dialogs ids now a)) k \<noteq> db_messages (ar_messages a) k"
    using assms by simp
  from marked_inD[OF peerless_rows this] show ?thesis
    using unique_dialog[of dialogs "ar_messages a" "snd k" "fst k"] by (cases k) auto
qed

lemma event_authorized:
  assumes "unit_ok a u" "\<nexists>dialogs ids now. u = EU_Peerless dialogs ids now"
  shows "authorized a (ar_messages (event_step ru u a))"
proof (cases u)
  case (EU_Enroll d timestamp now)
  then show ?thesis by (simp add: enrollment_messages)
qed (use assms in \<open>simp_all add: new_authorized missing_edit_authorized changed_edit_authorized deletions_authorized
    staged_authorized transcription_authorized committed_authorized\<close>)

section \<open>What a page of the deletion scan marks\<close>

lemma insert_gone: "gone (snd (insert_messages_with_fts ru source items (db\<lparr>db_versions := v\<rparr>))) k = gone db k"
proof (cases "accepted_at db source items k")
  case None
  then show ?thesis by (simp add: gone_def insert_tables has_nonchannel_deletion_def)
next
  case (Some x)
  have "\<not> gone db k" using gone_not_accepted[of db k source items] Some by auto
  then show ?thesis
    by (auto simp: gone_def insert_tables Some has_nonchannel_deletion_def stored_message_deleted_def written_row_def
        upsert_observation_def split: option.splits)
qed

lemma received_gone: "gone (snd (persist_received_message ru x db)) k = gone db k"
proof -
  have "inserting ru db db' \<Longrightarrow> gone db' k = gone db k" for db'
    unfolding inserting_def by (elim exE) (simp only: insert_gone)
  then show ?thesis using received_cases[of ru x db] by auto
qed

lemma mark_gone: "gone (snd (mark_message_deleted d m now db)) k \<longleftrightarrow> gone db k \<or> k = (d, m) \<and> 0 < m"
proof (cases "k = (d, m) \<and> 0 < m")
  case True
  have "already_deleted (snd (record_message_deletions d [m] db)) (d, m)"
    using True by (simp add: already_deleted_def record_deletions_tables tombstone_def split: option.split)
  then show ?thesis using True
    by (auto simp: gone_def mark_tables already_deleted_def stored_message_deleted_def split: option.splits)
next
  case False
  have other: "db_observations (snd (record_message_deletions d [m] db)) k = db_observations db k"
    using False by (cases k) (auto simp: record_deletions_tables)
  show ?thesis unfolding gone_def using False by (auto simp: mark_tables other has_nonchannel_deletion_def)
qed

definition not_newer :: "int \<Rightarrow> MessageDb \<Rightarrow> msg_key \<Rightarrow> bool" where
  "not_newer order db k \<longleftrightarrow> (case db_observations db k of None \<Rightarrow> True | Some o' \<Rightarrow> ob_order o' \<le> order)"

lemma mark_missing_gone:
  "gone (snd (mark_missing d order now (i, x) s)) k \<longleftrightarrow>
     gone (snd s) k \<or> k = (d, i) \<and> 0 < i \<and> x = None \<and> not_newer order (snd s) k"
  by (auto simp: mark_missing_def split_beta mark_gone not_newer_def)

lemma mark_missing_other:
  assumes "k \<noteq> (d, i) \<or> i \<le> 0 \<or> x \<noteq> None"
  shows "not_newer order (snd (mark_missing d order now (i, x) s)) k = not_newer order (snd s) k"
  using assms by (cases k) (auto simp: mark_missing_def split_beta not_newer_def mark_tables record_deletions_tables)

lemma mark_missing_kept:
  "\<not> not_newer order (snd s) (d, i) \<Longrightarrow> mark_missing d order now (i, None) s = s"
  by (simp add: mark_missing_def not_newer_def)

lemma missing_fold_gone:
  "gone (snd (fold (mark_missing d order now) qs s)) k \<longleftrightarrow>
     gone (snd s) k \<or> fst k = d \<and> 0 < snd k \<and> (snd k, None) \<in> set qs \<and> not_newer order (snd s) k"
proof (induction qs arbitrary: s)
  case (Cons q qs)
  obtain i x where q: "q = (i, x)" by (cases q)
  show ?case
  proof (cases "k = (d, i) \<and> 0 < i \<and> x = None")
    case True
    then show ?thesis
      using Cons.IH[of "mark_missing d order now q s"] mark_missing_gone[of d order now i x s k]
        mark_missing_kept[of order s d i now]
      by (cases "not_newer order (snd s) k") (auto simp: q)
  next
    case False
    then have "k \<noteq> (d, i) \<or> i \<le> 0 \<or> x \<noteq> None" by auto
    then show ?thesis
      using Cons.IH[of "mark_missing d order now q s"] mark_missing_gone[of d order now i x s k] False
        mark_missing_other[of k d i x order now s]
      by (cases k) (auto simp: q)
  qed
qed simp

lemma received_fold_gone:
  "gone (ar_messages (snd (fold (persist_received_one ru order expected revalidated) rms s))) k = gone (ar_messages (snd s)) k"
  by (induction rms arbitrary: s) (simp_all add: persist_received_one_def split_beta received_gone)

section \<open>An own-only dialog\<close>

text \<open>
  The rows of an own-only dialog, as long as it is one and its history is not enrolled.
\<close>

definition own_rows :: "int \<Rightarrow> Archive \<Rightarrow> bool" where
  "own_rows d a \<longleftrightarrow> (coverage_status a d = Some CV_OWN_ONLY \<longrightarrow> \<not> full_history_enabled a d \<longrightarrow>
     (\<forall>m. row_out (db_messages (ar_messages a) (d, m))))"

fun event_run :: "MessageRules \<Rightarrow> Archive \<Rightarrow> event_unit list \<Rightarrow> bool" where
  "event_run ru a [] = True"
| "event_run ru a (u # us) \<longleftrightarrow> unit_ok a u \<and> event_run ru (event_step ru u a) us"

text \<open>Only the enrollment of a private dialog changes an intent or a status.\<close>

lemma frame_scopes [simp]:
  "coverage_status (record_body_event d' now a) d = coverage_status a d"
  "full_history_enabled (record_body_event d' now a) d = full_history_enabled a d"
  "coverage_status (update_last_message_timestamp d' now date a) d = coverage_status a d"
  "full_history_enabled (update_last_message_timestamp d' now date a) d = full_history_enabled a d"
  "coverage_status (map_messages f a) d = coverage_status a d"
  "full_history_enabled (map_messages f a) d = full_history_enabled a d"
  by (simp_all add: coverage_status_def full_history_enabled_def read_intent_def)
    (simp add: record_body_event_def update_dialog_def option.map_comp comp_def)

lemma messages_only_status:
  assumes "messages_only a a'"
  shows "coverage_status a' d = coverage_status a d" "full_history_enabled a' d = full_history_enabled a d"
proof -
  obtain db where "a' = a\<lparr>ar_messages := db\<rparr>" using assms by (simp add: messages_only_def)
  then show "coverage_status a' d = coverage_status a d" "full_history_enabled a' d = full_history_enabled a d" by simp_all
qed

lemma received_messages_only:
  "persist_received_messages ru rms claims order expected revalidated a = Some s \<Longrightarrow> messages_only a (snd s)"
proof -
  have "messages_only a (snd s0) \<Longrightarrow> messages_only a (snd (fold (persist_received_one ru order expected revalidated) rms s0))" for s0 and rms
    by (induction rms arbitrary: s0) (simp_all add: persist_received_one_def split_beta messages_only_update)
  from this[of "(0, a)"] show "persist_received_messages ru rms claims order expected revalidated a = Some s \<Longrightarrow> messages_only a (snd s)"
    by (auto simp: persist_received_messages_def Let_def messages_only_def split: if_splits)
qed

lemma scan_messages_only:
  assumes "persist_scan_page ru d ids results claimed claims order now a = Some s"
  shows "messages_only a (snd s)"
proof (cases claimed)
  case True
  then obtain n db where "persist_received_messages ru (survivors ids results) claims order (Some d) False (a\<lparr>ar_messages := db\<rparr>) = Some (n, snd s)"
    using assms by (auto simp: persist_scan_page_def Let_def split_beta)
  from received_messages_only[OF this] show ?thesis by (simp add: messages_only_def)
qed (use assms in \<open>auto simp: persist_scan_page_def messages_only_def\<close>)

lemma enroll_scopes:
  assumes "coverage_status (snd (persist_dm_enrollment d' timestamp now a)) d = Some CV_OWN_ONLY"
    and "\<not> full_history_enabled (snd (persist_dm_enrollment d' timestamp now a)) d"
  shows "coverage_status a d = Some CV_OWN_ONLY \<and> \<not> full_history_enabled a d"
proof -
  let ?a1 = "snd (ensure_automatic_dm_enrollment d' now a)"
  have frame: "coverage_status (snd (persist_dm_enrollment d' timestamp now a)) d = coverage_status ?a1 d"
    "full_history_enabled (snd (persist_dm_enrollment d' timestamp now a)) d = full_history_enabled ?a1 d"
    by (simp_all add: persist_dm_enrollment_def split_beta Let_def unhide_after_realtime_presence_def
        upsert_realtime_dm_dialog_def coverage_status_def full_history_enabled_def read_intent_def split: option.split)
  show ?thesis
  proof (cases "read_intent a d'")
    case None
    have intent: "ar_intent ?a1 = (ar_intent a)(d' \<mapsto> (True, now))"
      using None by (simp add: ensure_automatic_dm_enrollment_def split_beta Let_def enable_history_def update_dialog_def
          reset_read_position_retry_def store_intent_def request_delta_refresh_def)
    then have "d \<noteq> d'" using assms(2) frame by (auto simp: full_history_enabled_def read_intent_def)
    then have "ar_rows ?a1 d = ar_rows a d"
      using None by (simp add: ensure_automatic_dm_enrollment_def split_beta Let_def enable_history_def update_dialog_def
          reset_read_position_retry_def store_intent_def request_delta_refresh_def)
    then have "coverage_status ?a1 d = coverage_status a d" "full_history_enabled ?a1 d = full_history_enabled a d"
      using intent \<open>d \<noteq> d'\<close> by (simp_all add: coverage_status_def full_history_enabled_def read_intent_def)
    then show ?thesis using assms unfolding frame by simp
  next
    case (Some b)
    then have "?a1 = a" by (simp add: ensure_automatic_dm_enrollment_def)
    then show ?thesis using assms frame by simp
  qed
qed

lemma peerless_scopes:
  "coverage_status (handle_peerless_deletions dialogs ids now a) d = coverage_status a d"
  "full_history_enabled (handle_peerless_deletions dialogs ids now a) d = full_history_enabled a d"
proof -
  have "coverage_status (fold (\<lambda>d. record_body_event d now) ds b) d = coverage_status b d
      \<and> full_history_enabled (fold (\<lambda>d. record_body_event d now) ds b) d = full_history_enabled b d" for ds b
    by (induction ds arbitrary: b) simp_all
  then show "coverage_status (handle_peerless_deletions dialogs ids now a) d = coverage_status a d"
    "full_history_enabled (handle_peerless_deletions dialogs ids now a) d = full_history_enabled a d"
    by (simp_all add: handle_peerless_deletions_def split_beta Let_def)
qed

lemma event_scopes:
  assumes "coverage_status (event_step ru u a) d = Some CV_OWN_ONLY" "\<not> full_history_enabled (event_step ru u a) d"
  shows "coverage_status a d = Some CV_OWN_ONLY \<and> \<not> full_history_enabled a d"
proof (cases u)
  case (EU_Enroll d' timestamp now)
  then show ?thesis using enroll_scopes assms by simp
next
  case (EU_Received xs claims order expected revalidated)
  then show ?thesis using assms messages_only_status[OF received_messages_only] by (auto simp: after_commit_def split: option.splits)
next
  case (EU_Scan_Page d' ids results claimed claims order now)
  then show ?thesis using assms messages_only_status[OF scan_messages_only] by (auto simp: after_commit_def split: option.splits)
next
  case (EU_Metadata d' date c now)
  then show ?thesis using assms by (simp add: project_denied_metadata_def split: if_splits)
next
  case (EU_Peerless dialogs ids now)
  then show ?thesis using assms by (simp add: peerless_scopes)
qed (use assms in \<open>simp_all add: persist_new_message_def persist_missing_edit_def persist_changed_edit_def persist_deletions_def
    stage_missing_transcription_def update_existing_transcription_def split_beta Let_def split: if_splits\<close>)

lemma own_rows_step:
  assumes "unit_ok a u" "own_rows d a"
  shows "own_rows d (event_step ru u a)"
  unfolding own_rows_def
proof (intro impI allI)
  fix m
  assume after: "coverage_status (event_step ru u a) d = Some CV_OWN_ONLY" "\<not> full_history_enabled (event_step ru u a) d"
  note before = event_scopes[OF this]
  then have out: "row_out (db_messages (ar_messages a) (d, m))" using assms(2) by (simp add: own_rows_def)
  show "row_out (db_messages (ar_messages (event_step ru u a)) (d, m))"
  proof (cases "db_messages (ar_messages (event_step ru u a)) (d, m) = db_messages (ar_messages a) (d, m)")
    case True
    then show ?thesis using out by simp
  next
    case False
    show ?thesis
    proof (cases "\<exists>dialogs ids now. u = EU_Peerless dialogs ids now")
      case True
      then obtain dialogs ids now where u: "u = EU_Peerless dialogs ids now" by blast
      from peerless_step[of ru dialogs ids now a "(d, m)"] False obtain r where
        "db_messages (ar_messages a) (d, m) = Some r"
        "db_messages (ar_messages (event_step ru u a)) (d, m) = Some (r\<lparr>mr_is_deleted := True, mr_deleted_at := Some now\<rparr>)"
        unfolding u by blast
      then show ?thesis using out by (simp add: row_out_def)
    next
      case other: False
      from stays_withinD[OF event_authorized[OF assms(1) other] False] show ?thesis
        using before by (auto simp: enrolled_scope_def)
    qed
  qed
qed

section \<open>Handlers are runs of transactions\<close>

text \<open>
  A handler runs some transactions and, where it waits for the server, goes on from what it then
  finds.
\<close>

definition handler_run :: "MessageRules \<Rightarrow> (Archive \<Rightarrow> Archive) \<Rightarrow> Archive \<Rightarrow> Archive \<Rightarrow> bool" where
  "handler_run ru pause a a' \<longleftrightarrow> (\<exists>us. event_run ru a us \<and> (a' = run_ops (event_step ru) us a
     \<or> (\<exists>vs. event_run ru (pause (run_ops (event_step ru) us a)) vs
          \<and> a' = run_ops (event_step ru) vs (pause (run_ops (event_step ru) us a)))))"

lemma handler_units:
  "event_run ru a us \<Longrightarrow> handler_run ru pause a (run_ops (event_step ru) us a)"
  "event_run ru a us \<Longrightarrow> event_run ru (pause (run_ops (event_step ru) us a)) vs \<Longrightarrow>
     handler_run ru pause a (run_ops (event_step ru) vs (pause (run_ops (event_step ru) us a)))"
  unfolding handler_run_def by blast+

lemma new_message_handled: "handler_run ru pause a (on_new_message ru chat private order x date now pause a)"
proof (cases chat)
  case None
  then show ?thesis using handler_units(1)[of ru a "[]"] by (simp add: on_new_message_def)
next
  case (Some d)
  obtain us where us: "event_run ru a us" "snd (new_message_coverage d private date now a) = run_ops (event_step ru) us a"
  proof (cases "realtime_coverage a d \<noteq> RC_NO_REALTIME_HISTORY \<or> \<not> (private \<and> fst (read_status a d) = None)")
    case True
    then show ?thesis using that[of "[]"] by (auto simp: new_message_coverage_def)
  next
    case False
    then show ?thesis using that[of "[EU_Enroll d date now]"] by (simp add: new_message_coverage_def Let_def)
  qed
  let ?c = "fst (new_message_coverage d private date now a)" and ?a1 = "run_ops (event_step ru) us a"
  have run: "event_run ru a (us @ [EU_Metadata d date c now])" for c
    using us(1) by (induction us arbitrary: a) simp_all
  have meta: "handler_run ru pause a (project_denied_metadata d date c now ?a1)" for c
    using handler_units(1)[OF run[of c], of pause] by (simp add: run_ops_append)
  have meta2: "handler_run ru pause a (project_denied_metadata d date c now (pause ?a1))" for c
    using handler_units(2)[OF us(1), of pause "[EU_Metadata d date c now]"] by simp
  have stored: "handler_run ru pause a (snd (persist_new_message ru d order x date now (pause ?a1)))"
    using handler_units(2)[OF us(1), of pause "[EU_New d order x date now]"] by simp
  show ?thesis
    using handler_units(1)[OF us(1), of pause] meta meta2 stored
    by (simp add: on_new_message_def Some split_beta us(2) Let_def)
qed

lemma edit_handled: "handler_run ru pause a (on_message_edited ru chat order x reactions now pause a)"
proof (cases chat)
  case None
  then show ?thesis using handler_units(1)[of ru a "[]"] by (simp add: on_message_edited_def)
next
  case (Some d)
  have "handler_run ru pause a a" "handler_run ru pause a (pause a)"
    using handler_units(1)[of ru a "[]"] handler_units(2)[of ru a "[]" pause "[]"] by simp_all
  moreover have "handler_run ru pause a (snd (persist_missing_edit ru d order x now (pause a)))"
    using handler_units(2)[of ru a "[]" pause "[EU_Edit_Missing d order x now]"] by simp
  moreover have "handler_run ru pause a (snd (persist_changed_edit ru d order x reactions (realtime_coverage (pause a) d) now (pause a)))"
    using handler_units(2)[of ru a "[]" pause "[EU_Edit_Changed d order x reactions (realtime_coverage (pause a) d) now]"] by simp
  ultimately show ?thesis by (simp add: on_message_edited_def Some split_beta Let_def)
qed

lemma deletion_handled: "handler_run ru pause a (on_message_deleted dialogs chat ids now a)"
proof (cases chat)
  case None
  then show ?thesis using handler_units(1)[of ru a "[EU_Peerless dialogs ids now]"] by (simp add: on_message_deleted_def)
next
  case (Some d)
  then show ?thesis using handler_units(1)[of ru a "[EU_Deleted d ids now]"] by (simp add: on_message_deleted_def)
qed

lemma transcription_handled: "handler_run ru pause a (on_raw_transcribed_audio ru event delivered now pause a)"
proof (cases event)
  case None
  then show ?thesis using handler_units(1)[of ru a "[]"] by (simp add: on_raw_transcribed_audio_def)
next
  case (Some e)
  have "handler_run ru pause a a" "handler_run ru pause a (pause a)"
    using handler_units(1)[of ru a "[]"] handler_units(2)[of ru a "[]" pause "[]"] by simp_all
  moreover have "handler_run ru pause a (stage_missing_transcription e delivered now (pause a))"
    using handler_units(2)[of ru a "[]" pause "[EU_Staged e delivered now]"] by simp
  moreover have "handler_run ru pause a (update_existing_transcription ru e (realtime_coverage a (te_dialog_id e)) delivered now (pause a))"
    using handler_units(2)[of ru a "[]" pause "[EU_Transcribed e (realtime_coverage a (te_dialog_id e)) delivered now]"] by simp
  ultimately show ?thesis by (simp add: on_raw_transcribed_audio_def Some Let_def)
qed

section \<open>The claims\<close>

text \<open>
  C7. A realtime update, an answer to some other request or a page of the deletion scan writes a
  row only where it is authorized: the history of the dialog is enrolled and access is not lost,
  or a recovery was observed since; or the dialog is own-only and the row written is outgoing;
  or the update names no peer, and the row, outside every channel, is marked deleted as it is.
\<close>

theorem event_writes_authorized:
  assumes "unit_ok a u" "db_messages (ar_messages (event_step ru u a)) k \<noteq> db_messages (ar_messages a) k"
  shows "full_history_enabled a (fst k) \<and> (coverage_status a (fst k) \<noteq> Some CV_ACCESS_LOST \<or> has_current_recovery_witness a (fst k))
    \<or> coverage_status a (fst k) = Some CV_OWN_ONLY \<and> row_out (db_messages (ar_messages (event_step ru u a)) k)
    \<or> (\<exists>dialogs ids now r. u = EU_Peerless dialogs ids now \<and> snd k \<in> set ids \<and> \<not> is_channel_peer_id (fst k)
        \<and> db_messages (ar_messages a) k = Some r
        \<and> db_messages (ar_messages (event_step ru u a)) k = Some (r\<lparr>mr_is_deleted := True, mr_deleted_at := Some now\<rparr>))"
proof (cases "\<exists>dialogs ids now. u = EU_Peerless dialogs ids now")
  case True
  then obtain dialogs ids now where u: "u = EU_Peerless dialogs ids now" by blast
  from peerless_step[OF assms(2)[unfolded u]] show ?thesis by (simp add: u)
next
  case False
  from stays_withinD[OF event_authorized[OF assms(1) False] assms(2)] show ?thesis
    by (auto simp: enrolled_scope_def own_scope_def)
qed

text \<open>
  C36. An own-only dialog never shows what others wrote: if its rows are outgoing, or it has none,
  they are so after any run of realtime transactions that leaves it own-only without enrolling
  its history, edits, answers to other requests and peerless deletions included.
\<close>

theorem own_only_stays_own:
  assumes "event_run ru a us" "\<forall>m. row_out (db_messages (ar_messages a) (d, m))"
    and "coverage_status (run_ops (event_step ru) us a) d = Some CV_OWN_ONLY" "\<not> full_history_enabled (run_ops (event_step ru) us a) d"
  shows "row_out (db_messages (ar_messages (run_ops (event_step ru) us a)) (d, m))"
proof -
  have "event_run ru a us \<Longrightarrow> own_rows d a \<Longrightarrow> own_rows d (run_ops (event_step ru) us a)" for a
    by (induction us arbitrary: a) (simp_all add: own_rows_step)
  then show ?thesis using assms by (simp add: own_rows_def)
qed

text \<open>
  C8. When the answer to a page of the deletion scan is committed, a message is known to be deleted
  afterwards exactly when it was so before, or the server returned nothing for it, the dialog is
  still enrolled and synced, and no observation is newer than the request.
\<close>

theorem scan_page_marks_exactly:
  assumes "persist_scan_page ru d ids results True claims order now a = Some s"
  shows "gone (ar_messages (snd s)) k \<longleftrightarrow> gone (ar_messages a) k
    \<or> fst k = d \<and> 0 < snd k \<and> (snd k, None) \<in> set (zip ids results) \<and> full_history_enabled a d
      \<and> coverage_status a d = Some CV_SYNCED \<and> not_newer order (ar_messages a) k"
proof -
  let ?can = "full_history_enabled a d \<and> coverage_status a d = Some CV_SYNCED"
  define db where "db = (if ?can then snd (fold (mark_missing d order now) (zip ids results) (0, ar_messages a)) else ar_messages a)"
  obtain n where "persist_received_messages ru (survivors ids results) claims order (Some d) False (a\<lparr>ar_messages := db\<rparr>) = Some (n, snd s)"
    using assms by (auto simp: persist_scan_page_def Let_def split_beta db_def split: if_splits)
  then have "fold (persist_received_one ru order (Some d) False) (survivors ids results) (0, a\<lparr>ar_messages := db\<rparr>) = (n, snd s)"
    by (auto simp: persist_received_messages_def Let_def split: if_splits)
  from received_fold_gone[of ru order "Some d" False "survivors ids results" "(0, a\<lparr>ar_messages := db\<rparr>)" k, unfolded this]
  have "gone (ar_messages (snd s)) k = gone db k" by simp
  then show ?thesis
    using missing_fold_gone[of d order now "zip ids results" "(0, ar_messages a)" k] by (auto simp: db_def)
qed

section \<open>Witnesses\<close>

definition reply_sample :: "int \<Rightarrow> bool option \<Rightarrow> ReplyMessage" where
  "reply_sample n outgoing = \<lparr>raw_id = Some n, raw_is_empty = False,
     raw_content = \<lparr>sm_dialog_id = 0, sm_message_id = 0, sm_text = Some ''hi'', sm_edit_date = None, sm_media = (None, None),
       sm_body = [], sm_out = False, sm_sender_id = None, sm_rest = []\<rparr>,
     raw_photo_id = None, raw_photo_eligible = False, rp_peer = Some 7, rp_out = outgoing\<rparr>"

definition blank_archive :: Archive where
  "blank_archive = \<lparr>ar_rows = \<lambda>_. None, ar_intent = \<lambda>_. None, ar_directory = \<lambda>_. None, ar_facts = \<lambda>_. None,
     ar_events = [], ar_jobs = [], ar_messages = empty_message_db, ar_delta_done = \<lambda>_. 0, ar_full_cursor = 0, ar_owner = None\<rparr>"

definition own_archive :: Archive where
  "own_archive = enroll_own_only_sync_dialog 7 blank_archive"

definition synced_archive :: Archive where
  "synced_archive = update_dialog 7 (\<lambda>r. r\<lparr>sd_status := CV_SYNCED\<rparr>) (snd (enable_history 7 50 own_archive))"

lemma own_status: "coverage_status own_archive 7 = Some CV_OWN_ONLY" "\<not> full_history_enabled own_archive 7"
  by code_simp+

theorem event_writes_authorized_witness:
  "row_out (db_messages (ar_messages (event_step sample_rules (EU_New 7 5 (reply_sample 3 (Some True)) None 60) own_archive)) (7, 3))"
proof -
  let ?u = "EU_New 7 5 (reply_sample 3 (Some True)) None 60"
  have "map_option (\<lambda>_. True) (db_messages (ar_messages (event_step sample_rules ?u own_archive)) (7, 3)) = Some True"
    "map_option (\<lambda>_. True) (db_messages (ar_messages own_archive) (7, 3)) = None"
    by code_simp+
  then have "db_messages (ar_messages (event_step sample_rules ?u own_archive)) (7, 3) \<noteq> db_messages (ar_messages own_archive) (7, 3)"
    by (metis option.distinct(1))
  moreover have "unit_ok own_archive ?u" by simp
  ultimately show ?thesis
    using event_writes_authorized[of own_archive ?u sample_rules "(7, 3)"] own_status by auto
qed

definition own_run :: "event_unit list" where
  "own_run = [EU_New 7 5 (reply_sample 3 (Some True)) None 60, EU_New 7 6 (reply_sample 4 (Some False)) None 61,
     EU_Edit_Changed 7 7 (reply_sample 3 None) True RC_OWN_OUTGOING 62,
     EU_Received [reply_sample 8 (Some False)] (True, True) 8 (Some 7) False]"

theorem own_only_stays_own_witness:
  "row_out (db_messages (ar_messages (run_ops (event_step sample_rules) own_run own_archive)) (7, 3))"
proof (rule own_only_stays_own)
  show "event_run sample_rules own_archive own_run" by (simp add: own_run_def)
  show "\<forall>m. row_out (db_messages (ar_messages own_archive) (7, m))"
    by (simp add: own_archive_def enroll_own_only_sync_dialog_def blank_archive_def empty_message_db_def row_out_def)
  show "coverage_status (run_ops (event_step sample_rules) own_run own_archive) 7 = Some CV_OWN_ONLY" by code_simp
  show "\<not> full_history_enabled (run_ops (event_step sample_rules) own_run own_archive) 7" by code_simp
qed

definition scanned_archive :: Archive where
  "scanned_archive = run_ops (event_step sample_rules)
     [EU_New 7 5 (reply_sample 3 None) None 60, EU_New 7 6 (reply_sample 4 None) None 61] synced_archive"

definition scan_sample :: "(int \<times> Archive) option" where
  "scan_sample = persist_scan_page sample_rules 7 [3, 4] [None, Some (reply_sample 4 None)] True (True, True) 9 70 scanned_archive"

theorem scan_page_marks_exactly_witness:
  "\<exists>s. scan_sample = Some s \<and> gone (ar_messages (snd s)) (7, 3) \<and> \<not> gone (ar_messages (snd s)) (7, 4)"
proof -
  have "(case scan_sample of None \<Rightarrow> False | Some _ \<Rightarrow> True)" by code_simp
  then obtain n b where s: "scan_sample = Some (n, b)" by (cases scan_sample) auto
  have "full_history_enabled scanned_archive 7" "coverage_status scanned_archive 7 = Some CV_SYNCED"
    "not_newer 9 (ar_messages scanned_archive) (7, 3)" "\<not> gone (ar_messages scanned_archive) (7, 4)"
    by code_simp+
  then have "gone (ar_messages b) (7, 3) \<and> \<not> gone (ar_messages b) (7, 4)"
    using scan_page_marks_exactly[OF s[unfolded scan_sample_def], of "(7, 3)"]
      scan_page_marks_exactly[OF s[unfolded scan_sample_def], of "(7, 4)"] by simp
  then show ?thesis using s by (intro exI[of _ "(n, b)"]) simp
qed

end
