(* ===== verification/Spec2Isabelle.thy ===== *)
theory Spec2Isabelle
  imports Rpc_Recovery Update_Flow Demand_Contracts Flood Demand Rpc_Scope Fair_Cycle Rpc_Scheduler_Props
    Coordinator_Scan Safety_Recovery_Props Nav_Cursors Hydration_Slice Message_Converge History_Props Dm_Scan_Props Realtime_Props
begin

text \<open>
  A verification development for \<^verbatim>\<open>mcp-telegram\<close>, a daemon that keeps a local archive of
  one Telegram account in step with the server and serves it over MCP. All paths below are
  under \<^verbatim>\<open>src/mcp_telegram/\<close>.

  \<^bold>\<open>What is modelled.\<close> First, the part of the program that decides which Telegram RPC may be
  written when, on whose behalf, and what happens after a failure: every request of the
  daemon passes through it, and its mistakes cost the account (flood waits, bans) or the
  archive (lost or repeated work). Second, the archive itself: how messages enter the tables,
  how the history of a dialog is downloaded and kept up to date, and how deletions are found.

  \<^item> \<^verbatim>\<open>Prelude\<close>: Python strings, integers and ordered dictionaries as the sources use them,
    validation combinators, release times with infinity, and the interfaces
    \<open>guarded_system\<close>, \<open>op_system\<close>, \<open>bounded_system\<close> for components with mutable state.
  \<^item> \<^verbatim>\<open>Rpc_Enums\<close>, \<^verbatim>\<open>Rpc_Consumers\<close>, \<^verbatim>\<open>Demand_Contracts\<close> (\<^verbatim>\<open>telegram_rpc_consumers.py\<close>):
    the enumerations, method effects, consumer registry and demand contracts, row by row,
    with their start-up validation.
  \<^item> \<^verbatim>\<open>Demand\<close> (\<^verbatim>\<open>telegram_demand_progress.py\<close>, \<^verbatim>\<open>telegram_demand.py\<close>): work identities,
    slice receipts, attempt budgets and the task-local demand contexts.
  \<^item> \<^verbatim>\<open>Rpc_Scope\<close>, \<^verbatim>\<open>Fair_Cycle\<close>, \<^verbatim>\<open>Rpc_Scheduler\<close>, \<^verbatim>\<open>Rpc_Scheduler_Inv\<close>,
    \<^verbatim>\<open>Rpc_Scheduler_Props\<close> (\<^verbatim>\<open>telegram_rpc_scheduler.py\<close>): transport scopes, the weighted
    cycle, and the admission scheduler with its accounting invariant and run properties.
  \<^item> \<^verbatim>\<open>Flood\<close> (\<^verbatim>\<open>flood.py\<close>): the FloodWait accumulator and its kill switch.
  \<^item> \<^verbatim>\<open>Rpc_Recovery\<close> (\<^verbatim>\<open>telegram_rpc_recovery.py\<close>): the pure policy of automatic recovery.
  \<^item> \<^verbatim>\<open>Coordinator\<close>, \<^verbatim>\<open>Coordinator_Props\<close>, \<^verbatim>\<open>Coordinator_Due\<close>, \<^verbatim>\<open>Coordinator_Scan\<close>
    (\<^verbatim>\<open>telegram_demand_coordinator.py\<close>): the executor of durable demand as a step relation,
    the consistency of its queue, what a slice may start for and what it leaves behind, and
    the end of its scans and waits.
  \<^item> \<^verbatim>\<open>Safety_Record\<close>, \<^verbatim>\<open>Safety_Ledger\<close>, \<^verbatim>\<open>Safety_Auto\<close>, \<^verbatim>\<open>Safety_Attempts\<close>,
    \<^verbatim>\<open>Safety_Identity\<close>, \<^verbatim>\<open>Safety_Trial\<close> (\<^verbatim>\<open>telegram_rpc.py\<close>, \<^verbatim>\<open>native_write_fence.py\<close>): the
    persisted safety record with its validators, and the ledger that commits every outbound
    attempt before it is written, settles its outcome, and runs the account's identity
    transitions and recovery trials. \<^verbatim>\<open>Safety_System\<close>, \<^verbatim>\<open>Safety_Memory\<close> and \<^verbatim>\<open>Safety_Claims\<close>
    make its operations, failing saves, crashes and restarts one transition system and show
    what it guarantees of a claimed attempt. \<^verbatim>\<open>Safety_Recovery_Props\<close> ties the ledger to
    the recovery policy: each decision is carried out and keeps the record valid, and when
    the operator's own recovery can be consumed.
  \<^item> \<^verbatim>\<open>Update_Ring\<close>, \<^verbatim>\<open>Update_Store\<close>, \<^verbatim>\<open>Update_Flow\<close> (\<^verbatim>\<open>telegram_update_ring.py\<close>,
    \<^verbatim>\<open>telegram_update_store.py\<close>, \<^verbatim>\<open>runtime_observations.py\<close>): the bounded staging ring of raw
    updates, the retained table it is flushed into, and the flush task between them.
  \<^item> \<^verbatim>\<open>Nav_Token\<close>, \<^verbatim>\<open>Nav_Cursors\<close> (\<^verbatim>\<open>pagination.py\<close>): the signed continuation cursors the
    paged tools hand out and take back, down to the text, on \<^verbatim>\<open>Nav_Payload\<close> (base64 and the
    signature) and \<^verbatim>\<open>Py_Json\<close> (the JSON codec as the module calls it).
  \<^item> \<^verbatim>\<open>Sql_Rows\<close>, \<^verbatim>\<open>Hydration_Queue\<close>, \<^verbatim>\<open>Hydration_Lifecycle\<close> (\<^verbatim>\<open>hydration_queue.py\<close>): the
    durable queue of message-fact jobs as the SQL statements on its table, and the life of one
    job under any run of them. \<^verbatim>\<open>Hydration_Batches\<close>, \<^verbatim>\<open>Hydration_Fairness\<close>
    (\<^verbatim>\<open>fact_hydration.py\<close>): how due jobs are shared between kinds and cut into batches.
    \<^verbatim>\<open>Hydration_Slice\<close> (\<^verbatim>\<open>fact_hydration.py\<close>, \<^verbatim>\<open>messages/sqlite_hydration.py\<close>): the selection a
    tier offers to the coordinator and what a slice started for it requests.
  \<^item> \<^verbatim>\<open>Message_Store\<close> (\<^verbatim>\<open>messages/sqlite_bundle.py\<close>, \<^verbatim>\<open>observation_order.py\<close>): the message
    tables and their writers \<open>insert_messages_with_fts\<close>, \<open>persist_edited_message\<close>,
    \<open>_persist_received_message\<close>, \<open>record_message_deletions\<close>, \<open>mark_message_deleted\<close>, with the
    rule that decides which observation is current, and the marking of outgoing messages at a
    start (\<^verbatim>\<open>daemon.py\<close>, \<open>_backfill_outgoing_dm\<close>). \<^verbatim>\<open>Message_Tables\<close>: the effect of each
    writer on one key of one table. \<^verbatim>\<open>Message_Props\<close>: final tombstones (but for the marking at a
    start), versions that never go back, the text index. \<^verbatim>\<open>Message_Converge\<close>: consistent
    snapshots of a message end in the same row in any order of arrival, among the writes to
    other messages.
    \<^verbatim>\<open>Message_Transcripts\<close> (\<^verbatim>\<open>messages/sqlite_hydration.py\<close>): rows show their transcriptions.
  \<^item> \<^verbatim>\<open>Realtime_Events\<close>, \<^verbatim>\<open>Realtime_Props\<close> (\<^verbatim>\<open>event_handlers.py\<close>, \<^verbatim>\<open>realtime_history_policy.py\<close>):
    the handlers of new, edited and deleted messages and of transcriptions, messages received
    in other answers, and the commit of a page of the deletion scan; what they may write.
  \<^item> \<^verbatim>\<open>History_Pages\<close> (\<^verbatim>\<open>message_history/\<close>): the pages the two adapters build from a raw
    response. \<^verbatim>\<open>History_State\<close> (\<^verbatim>\<open>history_enrollment.py\<close>, \<^verbatim>\<open>access_lifecycle/__init__.py\<close>,
    \<^verbatim>\<open>dialog_fact_observations.py\<close>): enrollment and access of a dialog. \<^verbatim>\<open>History_Sync\<close>
    (\<^verbatim>\<open>sync_worker.py\<close>, \<^verbatim>\<open>delta_sync.py\<close>): the backward download and the forward gap fill.
    \<^verbatim>\<open>History_World\<close>, \<^verbatim>\<open>History_Complete\<close>, \<^verbatim>\<open>History_Download\<close>, \<^verbatim>\<open>History_Props\<close>: archive and
    server as one transition system, and that a synced dialog is complete in it.
  \<^item> \<^verbatim>\<open>Dm_Checkpoint\<close> (\<^verbatim>\<open>sync_read_model.py\<close>), \<^verbatim>\<open>Dm_Scan\<close>, \<^verbatim>\<open>Dm_Scan_Props\<close> (\<^verbatim>\<open>delta_sync.py\<close>): the
    weekly scan that asks the server which archived messages of private dialogs still exist:
    its checkpoint, its slices, and runs with any end, crash and restart.

  \<^bold>\<open>How state and operations correspond.\<close> A dataclass is a record with prefixed fields, a
  \<^verbatim>\<open>StrEnum\<close> a datatype whose constructors carry a prefix, a raise or early return the left
  side of a sum. A class with mutable state is a record and one function per method;
  objects that several owners share (tickets, accounting, evidence) are named by numbers.
  Methods that never await while they hold a lock are single steps, so a run is any list
  of operations, and what a step reads from outside (clock, transport readiness, the
  gate's release times and deferrals, the running task) is an argument. Floats are exact
  rationals; \<^verbatim>\<open>math.inf\<close> is the value \<open>Never\<close>. A table is a list of rows where the order of a query
  matters and a map from keys elsewhere; a write transaction is one step, and what other
  writers do between two transactions of an operation is an argument or a step of its own.

  \<^bold>\<open>What the lemmas show.\<close> Tables: the validation accepts exactly the well-formed tables and
  the shipped ones are such. Policies: the decision tables meet abstract protocols.
  Stateful parts: an invariant kept by each operation, hence bounds and accounting for
  every run, safety of writes, finality of outcomes, fairness and work conservation.
  Archive: in every reachable world of \<^verbatim>\<open>History_World\<close>, where messages are posted and removed on
  the server while pages are in flight, a dialog marked as synced holds every message the
  server still has up to its cursor; a download against a server that keeps still ends; a
  deletion scan is finished only when it asked about everything, and stops when in doubt.
  What these theorems assume of Telegram is written as predicates on its answers
  (\<open>backward_window\<close>, \<open>forward_window\<close>, \<open>serves\<close>): a history request returns the newest, or oldest,
  existing messages beyond its offset, in order, and no message in between is skipped. A forward
  answer of fewer than a hundred entries reaches the newest message; a full one says nothing of
  what lies behind it, even when all its entries are empty, so the catch-up theorem of
  \<^verbatim>\<open>History_Props\<close> asks for a shorter one although the code calls both complete.
  The counters of \<^verbatim>\<open>Flood\<close> are compared with a history that is never pruned, cut to its newest
  ten thousand observations and to a week; the clock is assumed not to go back.
  Only one loop needs fuel: \<open>scan_available_kind\<close> asks an adapter again while its answer is
  being excluded. Its result is an option, and \<open>scan_ends\<close> shows that fuel \<open>n + 1\<close> is
  enough for adapters that select among \<open>n\<close> revisions. Every other loop is structural or
  runs over a list computed before it.

  \<^bold>\<open>Not modelled.\<close> Network and database I/O, Telethon, asyncio scheduling beyond the
  interleaving of steps, logging text, and the parts of the daemon that read the archive or
  maintain other tables (profiles, folders, topics, reactions, images, exports, the tools
  served to clients); the manifest lists them. The body of a message (entities, forwards,
  reactions, media) is one value of the message tables, not tables of its own; the content the
  extractor makes of a raw message is an argument. Publications that enroll a dialog, probes of lost access, repair of
  totals and the automatic enrollment of groups are left out of the history engines, so a world
  changes their columns only by the steps it lists. The checkpoint of the deletion scan is its
  JSON tree, not its text, and what the look-up writes is any change of the message tables. Of the safety ledger the in-memory retry credits, the status
  displays and the migration of receipts older than version 4 are left out. Of hydration, the
  request and what follows it, and the repair producers with their direct insertion of jobs,
  which no slice of the program reaches, are left out. The schema migrations, which also write
  message rows, run before everything modelled here. Of the cursors the
  keyed digest and the parse of payloads beyond plain ASCII are parameters, so the theorems
  hold for every digest and say nothing about forgeries; the recursion limit of the JSON
  module is not modelled.
\<close>

end
